(* ===== verification/Prelude.thy ===== *)
theory Prelude
  imports Main "HOL-Library.AList" "HOL-Library.Word"
begin

text \<open>
  Shared vocabulary of the development: Python dictionaries as association lists in insertion
  order, Python string predicates, state-passing programs that can raise, and the generic
  lemmas the component theories rely on.

  \<^item> A dictionary is a list of pairs with distinct keys; \<open>AList.update\<close> is
    \<^verbatim>\<open>d[k] = v\<close> (a known key keeps its place, a new one goes to the end) and
    \<open>AList.delete\<close> is \<^verbatim>\<open>del d[k]\<close>.
  \<^item> A statement sequence that may raise is a \<open>prog\<close>: it takes the state and returns the
    outcome, an error or a value, together with the state reached. Effects made before a raise
    stay, as they do in Python.
\<close>

section \<open>Hint collections\<close>

named_theorems dict_simps \<open>rewriting rules for dictionaries\<close>
named_theorems prog_simps \<open>unfolding of state-passing programs\<close>

section \<open>Dictionaries in insertion order\<close>

type_synonym ('k, 'v) dict = "('k \<times> 'v) list"

abbreviation dict_get :: "('k, 'v) dict \<Rightarrow> 'k \<Rightarrow> 'v option" where
  "dict_get \<equiv> map_of"

abbreviation dict_set :: "'k \<Rightarrow> 'v \<Rightarrow> ('k, 'v) dict \<Rightarrow> ('k, 'v) dict" where
  "dict_set \<equiv> AList.update"

abbreviation dict_del :: "'k \<Rightarrow> ('k, 'v) dict \<Rightarrow> ('k, 'v) dict" where
  "dict_del \<equiv> AList.delete"

abbreviation dict_keys :: "('k, 'v) dict \<Rightarrow> 'k list" where
  "dict_keys d \<equiv> map fst d"

abbreviation dict_ok :: "('k, 'v) dict \<Rightarrow> bool" where
  "dict_ok d \<equiv> distinct (map fst d)"

text \<open>\<^verbatim>\<open>k in d\<close>\<close>

definition dict_has :: "'k \<Rightarrow> ('k, 'v) dict \<Rightarrow> bool" where
  "dict_has k d \<longleftrightarrow> k \<in> set (dict_keys d)"

lemma dict_has_code [code]: "dict_has k d = (case map_of d k of None \<Rightarrow> False | Some _ \<Rightarrow> True)"
  by (auto simp: dict_has_def map_of_eq_None_iff split: option.splits dest: map_of_SomeD)
    (force dest: map_of_SomeD)

lemma dict_has_iff [dict_simps]: "dict_has k d \<longleftrightarrow> dict_get d k \<noteq> None"
  by (auto simp: dict_has_def map_of_eq_None_iff)

lemma dict_get_set [simp, dict_simps]:
  "dict_get (dict_set k v d) k' = (if k' = k then Some v else dict_get d k')"
  by (simp add: update_conv')

lemma dict_get_del [simp, dict_simps]:
  "dict_get (dict_del k d) k' = (if k' = k then None else dict_get d k')"
  by (simp add: delete_conv')

lemma dict_ok_set [simp, intro]: "dict_ok d \<Longrightarrow> dict_ok (dict_set k v d)"
  by (rule distinct_update)

lemma dict_ok_del [simp, intro]: "dict_ok d \<Longrightarrow> dict_ok (dict_del k d)"
  by (rule distinct_delete)

lemma dict_set_new: "k \<notin> set (dict_keys d) \<Longrightarrow> dict_set k v d = d @ [(k, v)]"
  by (induction d) auto

lemma dict_keys_set:
  "dict_keys (dict_set k v d) = (if k \<in> set (dict_keys d) then dict_keys d else dict_keys d @ [k])"
  by (induction d) auto

lemma dict_keys_del: "dict_keys (dict_del k d) = filter (\<lambda>x. x \<noteq> k) (dict_keys d)"
  by (induction d) auto

lemma dict_get_in_iff: "dict_ok d \<Longrightarrow> dict_get d k = Some v \<longleftrightarrow> (k, v) \<in> set d"
  by (auto dest: map_of_SomeD)

lemma dict_get_filter_keys:
  "dict_get (filter (\<lambda>(k, v). P k) d) k = (if P k then dict_get d k else None)"
  by (induction d) auto

lemma dict_ok_filter [simp]: "dict_ok d \<Longrightarrow> dict_ok (filter P d)"
  by (simp add: distinct_map_filter)

section \<open>Strings\<close>

text \<open>\<^verbatim>\<open>s.startswith(p)\<close> and, with a tuple of prefixes, \<^verbatim>\<open>s.startswith(ps)\<close>.\<close>

fun startswith :: "string \<Rightarrow> string \<Rightarrow> bool" where
  "startswith s [] = True"
| "startswith [] (c # p) = False"
| "startswith (d # s) (c # p) = (d = c \<and> startswith s p)"

definition startswith_any :: "string \<Rightarrow> string list \<Rightarrow> bool" where
  "startswith_any s ps = list_ex (startswith s) ps"

lemma startswith_iff: "startswith s p \<longleftrightarrow> (\<exists>r. s = p @ r)"
  by (induction s p rule: startswith.induct) auto

lemma startswith_append [simp]: "startswith (p @ r) p"
  by (auto simp: startswith_iff)

lemma startswith_trans: "startswith s p \<Longrightarrow> startswith p q \<Longrightarrow> startswith s q"
  by (auto simp: startswith_iff)

lemma startswith_common: "startswith s p \<Longrightarrow> startswith s q \<Longrightarrow> startswith p q \<or> startswith q p"
  by (auto simp: startswith_iff append_eq_append_conv2)

text \<open>\<^verbatim>\<open>s.split(c, 1)\<close>: the text before the first \<open>c\<close> and the text after it.\<close>

fun split1 :: "char \<Rightarrow> string \<Rightarrow> (string \<times> string) option" where
  "split1 c [] = None"
| "split1 c (d # s) =
     (if d = c then Some ([], s)
      else (case split1 c s of None \<Rightarrow> None | Some (a, b) \<Rightarrow> Some (d # a, b)))"

lemma split1_None: "split1 c s = None \<longleftrightarrow> c \<notin> set s"
  by (induction s) (auto split: option.splits)

lemma split1_Some: "split1 c s = Some (a, b) \<Longrightarrow> s = a @ c # b \<and> c \<notin> set a"
  by (induction s arbitrary: a) (auto split: if_splits option.splits)

text \<open>\<^verbatim>\<open>s.strip()\<close>\<close>

definition is_space :: "char \<Rightarrow> bool" where
  "is_space c \<longleftrightarrow> (of_char c :: nat) \<in> {9, 10, 11, 12, 13, 28, 29, 30, 31, 32, 133, 160}"

definition strip :: "string \<Rightarrow> string" where
  "strip s = rev (dropWhile is_space (rev (dropWhile is_space s)))"

text \<open>\<^verbatim>\<open>s.upper()\<close> of a string of ASCII letters\<close>

definition upper_char :: "char \<Rightarrow> char" where
  "upper_char c = (let n = of_char c :: nat in if 97 \<le> n \<and> n \<le> 122 then char_of (n - 32) else c)"

definition upper :: "string \<Rightarrow> string" where
  "upper s = map upper_char s"

section \<open>Programs that pass a state and may raise\<close>

type_synonym ('s, 'e, 'a) prog = "'s \<Rightarrow> ('e + 'a) \<times> 's"

definition ret :: "'a \<Rightarrow> ('s, 'e, 'a) prog" where
  "ret x = (\<lambda>s. (Inr x, s))"

definition raise :: "'e \<Rightarrow> ('s, 'e, 'a) prog" where
  "raise e = (\<lambda>s. (Inl e, s))"

definition gets :: "('s \<Rightarrow> 'a) \<Rightarrow> ('s, 'e, 'a) prog" where
  "gets f = (\<lambda>s. (Inr (f s), s))"

definition modify :: "('s \<Rightarrow> 's) \<Rightarrow> ('s, 'e, unit) prog" where
  "modify f = (\<lambda>s. (Inr (), f s))"

definition andthen :: "('s, 'e, 'a) prog \<Rightarrow> ('a \<Rightarrow> ('s, 'e, 'b) prog) \<Rightarrow> ('s, 'e, 'b) prog" where
  "andthen m f = (\<lambda>s. case m s of (Inl e, s') \<Rightarrow> (Inl e, s') | (Inr x, s') \<Rightarrow> f x s')"

text \<open>\<^verbatim>\<open>with\<close> and \<^verbatim>\<open>finally\<close>: the cleanup runs on the normal and on the raising exit.\<close>

definition finally_do :: "('s, 'e, 'a) prog \<Rightarrow> ('s \<Rightarrow> 's) \<Rightarrow> ('s, 'e, 'a) prog" where
  "finally_do m c = (\<lambda>s. case m s of (r, s') \<Rightarrow> (r, c s'))"

text \<open>\<^verbatim>\<open>try: m except: h\<close>\<close>

definition try_except :: "('s, 'e, 'a) prog \<Rightarrow> ('e \<Rightarrow> ('s, 'e, 'a) prog) \<Rightarrow> ('s, 'e, 'a) prog" where
  "try_except m h = (\<lambda>s. case m s of (Inl e, s') \<Rightarrow> h e s' | (Inr x, s') \<Rightarrow> (Inr x, s'))"

lemmas prog_defs = ret_def raise_def gets_def modify_def andthen_def finally_do_def try_except_def

lemma ret_run [simp, prog_simps]: "ret x s = (Inr x, s)"
  by (simp add: ret_def)

lemma raise_run [simp, prog_simps]: "raise e s = (Inl e, s)"
  by (simp add: raise_def)

lemma gets_run [simp, prog_simps]: "gets f s = (Inr (f s), s)"
  by (simp add: gets_def)

lemma modify_run [simp, prog_simps]: "modify f s = (Inr (), f s)"
  by (simp add: modify_def)

lemma andthen_Inr [simp, prog_simps]: "m s = (Inr x, s') \<Longrightarrow> andthen m f s = f x s'"
  by (simp add: andthen_def)

lemma andthen_Inl [simp, prog_simps]: "m s = (Inl e, s') \<Longrightarrow> andthen m f s = (Inl e, s')"
  by (simp add: andthen_def)

lemma finally_run [prog_simps]: "m s = (r, s') \<Longrightarrow> finally_do m c s = (r, c s')"
  by (simp add: finally_do_def)

text \<open>A state property that every outcome of a program keeps.\<close>

definition keeps :: "('s \<Rightarrow> bool) \<Rightarrow> ('s, 'e, 'a) prog \<Rightarrow> bool" where
  "keeps P m \<longleftrightarrow> (\<forall>s. P s \<longrightarrow> P (snd (m s)))"

lemma keeps_ret [intro, simp]: "keeps P (ret x)"
  by (simp add: keeps_def)

lemma keeps_raise [intro, simp]: "keeps P (raise x)"
  by (simp add: keeps_def)

lemma keeps_gets [intro, simp]: "keeps P (gets f)"
  by (simp add: keeps_def)

lemma keeps_modify [intro]: "(\<And>s. P s \<Longrightarrow> P (f s)) \<Longrightarrow> keeps P (modify f)"
  by (simp add: keeps_def)

lemma keeps_andthen [intro]:
  "keeps P m \<Longrightarrow> (\<And>x. keeps P (f x)) \<Longrightarrow> keeps P (andthen m f)"
  by (auto simp: keeps_def andthen_def split: prod.splits sum.splits)

lemma keeps_if [intro]: "(b \<Longrightarrow> keeps P m) \<Longrightarrow> (\<not> b \<Longrightarrow> keeps P n) \<Longrightarrow> keeps P (if b then m else n)"
  by simp

lemma keeps_guard: "keeps P p \<Longrightarrow> keeps P (\<lambda>s. if b s then ret x s else p s)"
  by (simp add: keeps_def)

lemma keeps_run: "keeps P m \<Longrightarrow> P s \<Longrightarrow> P (snd (m s))"
  by (simp add: keeps_def)

lemmas keeps_rules = keeps_ret keeps_raise keeps_gets keeps_andthen keeps_if

lemma keepsD: "keeps P m \<Longrightarrow> P s \<Longrightarrow> m s = (r, s') \<Longrightarrow> P s'"
  by (metis keeps_def snd_conv)

end
