(* ===== verification/Shm.thy ===== *)
theory Shm
  imports Prelude
begin

text \<open>
  The shared-memory control block of \<^verbatim>\<open>ms_service_metric/utils/shm_manager.py\<close>: the byte
  layout, the reads and writes of 32-bit little-endian fields, the circular process list, the
  control command with its signals, and the life cycle of the POSIX objects.

  The operating system is the record \<open>os\<close>: named shared-memory objects with their bytes,
  named semaphores with their values, what \<^verbatim>\<open>os.kill\<close> answers for a process id, the
  SIGUSR1 signals delivered so far and the clock. A \<open>shm_manager\<close> is the Python object; its
  operations are \<open>prog\<close>s on \<open>os\<close>. A semaphore of value 0 blocks its caller for ever in a
  sequential run, which is the error \<open>Blocked\<close>. Python's \<^verbatim>\<open>list(set(...))\<close> of process ids
  has no defined order; the model uses the order of first occurrence and no statement depends on it.
\<close>

section \<open>Constants and layout\<close>

definition STATE_OFF :: int where "STATE_OFF = 0"
definition STATE_ON :: int where "STATE_ON = 1"
definition MAGIC_NUMBER :: int where "MAGIC_NUMBER = 0x4D534D54"
definition HEADER_END_MARKER :: int where "HEADER_END_MARKER = 0xDEADBEEF"
definition CURRENT_VERSION :: int where "CURRENT_VERSION = 1"
definition INT32_SIZE :: int where "INT32_SIZE = 4"

definition OFFSET_MAGIC :: int where "OFFSET_MAGIC = 0"
definition OFFSET_VERSION :: int where "OFFSET_VERSION = 4"
definition OFFSET_HEADER_LEN :: int where "OFFSET_HEADER_LEN = 8"
definition OFFSET_STATE :: int where "OFFSET_STATE = 12"
definition OFFSET_TIMESTAMP :: int where "OFFSET_TIMESTAMP = 16"
definition OFFSET_PROC_OFFSET :: int where "OFFSET_PROC_OFFSET = 20"
definition OFFSET_HEADER_END :: int where "OFFSET_HEADER_END = 24"
definition HEADER_SIZE :: int where "HEADER_SIZE = 28"
definition PROC_LIST_REL_OFFSET_LEN :: int where "PROC_LIST_REL_OFFSET_LEN = 0"
definition PROC_LIST_REL_OFFSET_CURSOR :: int where "PROC_LIST_REL_OFFSET_CURSOR = 4"
definition PROC_LIST_REL_OFFSET_DATA :: int where "PROC_LIST_REL_OFFSET_DATA = 8"
definition PROC_LIST_HEADER_SIZE :: int where "PROC_LIST_HEADER_SIZE = 8"
definition PROC_ENTRY_SIZE :: int where "PROC_ENTRY_SIZE = 4"
definition PROC_OFFSET_INVALID :: int where "PROC_OFFSET_INVALID = -1"
definition PROC_LEN_INVALID :: int where "PROC_LEN_INVALID = -1"

lemmas layout_defs =
  STATE_OFF_def STATE_ON_def MAGIC_NUMBER_def HEADER_END_MARKER_def CURRENT_VERSION_def INT32_SIZE_def
  OFFSET_MAGIC_def OFFSET_VERSION_def OFFSET_HEADER_LEN_def OFFSET_STATE_def OFFSET_TIMESTAMP_def
  OFFSET_PROC_OFFSET_def OFFSET_HEADER_END_def HEADER_SIZE_def PROC_LIST_REL_OFFSET_LEN_def
  PROC_LIST_REL_OFFSET_CURSOR_def PROC_LIST_REL_OFFSET_DATA_def PROC_LIST_HEADER_SIZE_def
  PROC_ENTRY_SIZE_def PROC_OFFSET_INVALID_def PROC_LEN_INVALID_def

definition DEFAULT_SHM_PREFIX :: string where "DEFAULT_SHM_PREFIX = ''/ms_service_metric''"
definition DEFAULT_MAX_PROCS :: nat where "DEFAULT_MAX_PROCS = 1000"

definition get_shm_name :: "string \<Rightarrow> string" where
  "get_shm_name prefix = prefix @ ''_control''"

definition get_sem_name :: "string \<Rightarrow> string" where
  "get_sem_name prefix = prefix @ ''_semaphore''"

definition calc_memory_size :: "nat \<Rightarrow> int" where
  "calc_memory_size max_procs =
     HEADER_SIZE + (PROC_LIST_HEADER_SIZE + int max_procs * PROC_ENTRY_SIZE)"

section \<open>Bytes\<close>

type_synonym bytes = "8 word list"

text \<open>\<^verbatim>\<open>int.from_bytes(b, 'little', signed=False)\<close> and \<^verbatim>\<open>v.to_bytes(n, 'little', signed=False)\<close>.\<close>

fun from_bytes :: "bytes \<Rightarrow> int" where
  "from_bytes [] = 0"
| "from_bytes (b # bs) = uint b + 256 * from_bytes bs"

fun to_bytes :: "nat \<Rightarrow> int \<Rightarrow> bytes" where
  "to_bytes 0 v = []"
| "to_bytes (Suc n) v = word_of_int v # to_bytes n (v div 256)"

text \<open>Python's slice bounds: a negative bound counts from the end, both are clipped.\<close>

definition slice_bound :: "nat \<Rightarrow> int \<Rightarrow> nat" where
  "slice_bound n i = (if i < 0 then nat (max 0 (int n + i)) else min n (nat i))"

definition py_slice :: "'a list \<Rightarrow> int \<Rightarrow> int \<Rightarrow> 'a list" where
  "py_slice xs i j =
     take (slice_bound (length xs) j - slice_bound (length xs) i) (drop (slice_bound (length xs) i) xs)"

definition slice_assign :: "'a list \<Rightarrow> int \<Rightarrow> 'a list \<Rightarrow> 'a list" where
  "slice_assign xs i ys =
     take (slice_bound (length xs) i) xs @ ys @ drop (slice_bound (length xs) i + length ys) xs"

section \<open>The operating system and the manager object\<close>

datatype shm_error = OverflowErr | IndexErr | SharedMemoryErr | Blocked

text \<open>What \<^verbatim>\<open>os.kill(pid, sig)\<close> does: deliver, or raise one of the exceptions the code tells apart.\<close>

datatype kill_result = KillOk | ProcessLookupErr | PermissionErr | OtherOSErr | KillOverflow

record os =
  shm_names :: "string \<Rightarrow> nat option"
  shm_bytes :: "nat \<Rightarrow> bytes"
  next_shm :: nat
  sem_names :: "string \<Rightarrow> nat option"
  sem_value :: "nat \<Rightarrow> nat"
  next_sem :: nat
  kill :: "nat \<Rightarrow> kill_result"
  signalled :: "nat list"
  now :: int

record shm_manager =
  shm_name :: string
  sem_name :: string
  max_procs :: nat
  memory_size :: int
  shm :: "nat option"
  mmap :: "nat option"
  sem :: "nat option"
  version_mismatch :: bool
  header_len :: int

type_synonym 'a shm_prog = "(os, shm_error, 'a) prog"

text \<open>
  \<^verbatim>\<open>SharedMemoryManager(shm_prefix, max_procs)\<close>; \<open>env_prefix\<close> and \<open>env_procs\<close> are the two
  environment variables, and \<^verbatim>\<open>or\<close> falls through on \<open>None\<close>, \<^verbatim>\<open>""\<close> and 0.
\<close>

definition new_manager ::
  "string option \<Rightarrow> nat option \<Rightarrow> string option \<Rightarrow> nat option \<Rightarrow> shm_manager" where
  "new_manager shm_prefix procs env_prefix env_procs =
     (let prefix = (case shm_prefix of Some (c # s) \<Rightarrow> c # s
                    | _ \<Rightarrow> (case env_prefix of Some p \<Rightarrow> p | None \<Rightarrow> DEFAULT_SHM_PREFIX));
          n = (case procs of Some (Suc k) \<Rightarrow> Suc k
               | _ \<Rightarrow> (case env_procs of Some k \<Rightarrow> k | None \<Rightarrow> DEFAULT_MAX_PROCS))
      in \<lparr>shm_name = get_shm_name prefix, sem_name = get_sem_name prefix, max_procs = n,
          memory_size = calc_memory_size n, shm = None, mmap = None, sem = None,
          version_mismatch = False, header_len = HEADER_SIZE\<rparr>)"

section \<open>Semaphore and raw fields\<close>

definition acquire :: "shm_manager \<Rightarrow> unit shm_prog" where
  "acquire m = (\<lambda>w. case sem m of
       None \<Rightarrow> (Inr (), w)
     | Some s \<Rightarrow> (if sem_value w s = 0 then (Inl Blocked, w)
                  else (Inr (), w\<lparr>sem_value := (sem_value w)(s := sem_value w s - 1)\<rparr>)))"

definition release :: "shm_manager \<Rightarrow> os \<Rightarrow> os" where
  "release m w = (case sem m of None \<Rightarrow> w
     | Some s \<Rightarrow> w\<lparr>sem_value := (sem_value w)(s := Suc (sem_value w s))\<rparr>)"

definition semaphore_lock :: "shm_manager \<Rightarrow> 'a shm_prog \<Rightarrow> 'a shm_prog" where
  "semaphore_lock m body = andthen (acquire m) (\<lambda>_. finally_do body (release m))"

definition read_int :: "shm_manager \<Rightarrow> int \<Rightarrow> os \<Rightarrow> int" where
  "read_int m offset w = (case mmap m of None \<Rightarrow> 0
     | Some ob \<Rightarrow> from_bytes (py_slice (shm_bytes w ob) offset (offset + 4)))"

definition write_int :: "shm_manager \<Rightarrow> int \<Rightarrow> int \<Rightarrow> unit shm_prog" where
  "write_int m offset v = (\<lambda>w. case mmap m of None \<Rightarrow> (Inr (), w)
     | Some ob \<Rightarrow>
         (if v < 0 \<or> v \<ge> 2 ^ 32 then (Inl OverflowErr, w)
          else if length (py_slice (shm_bytes w ob) offset (offset + 4)) \<noteq> 4 then (Inl IndexErr, w)
          else (Inr (), w\<lparr>shm_bytes :=
                 (shm_bytes w)(ob := slice_assign (shm_bytes w ob) offset (to_bytes 4 v))\<rparr>)))"

definition is_field_available :: "shm_manager \<Rightarrow> int \<Rightarrow> bool" where
  "is_field_available m offset \<longleftrightarrow> offset + INT32_SIZE \<le> header_len m"

definition get_state :: "shm_manager \<Rightarrow> os \<Rightarrow> int" where
  "get_state m w = (if \<not> is_field_available m OFFSET_STATE then STATE_OFF
                    else read_int m OFFSET_STATE w)"

definition set_state :: "shm_manager \<Rightarrow> int \<Rightarrow> unit shm_prog" where
  "set_state m st = (if is_field_available m OFFSET_STATE then write_int m OFFSET_STATE st else ret ())"

definition get_timestamp :: "shm_manager \<Rightarrow> os \<Rightarrow> int" where
  "get_timestamp m w = (if \<not> is_field_available m OFFSET_TIMESTAMP then 0
                        else read_int m OFFSET_TIMESTAMP w)"

definition set_timestamp :: "shm_manager \<Rightarrow> int \<Rightarrow> unit shm_prog" where
  "set_timestamp m ts =
     (if is_field_available m OFFSET_TIMESTAMP then write_int m OFFSET_TIMESTAMP ts else ret ())"

definition update_state_and_timestamp :: "shm_manager \<Rightarrow> int \<Rightarrow> unit shm_prog" where
  "update_state_and_timestamp m st =
     semaphore_lock m (andthen (set_state m st) (\<lambda>_. andthen (gets now) (set_timestamp m)))"

section \<open>The process list\<close>

definition get_proc_offset :: "shm_manager \<Rightarrow> os \<Rightarrow> int" where
  "get_proc_offset m w =
     (if \<not> is_field_available m OFFSET_PROC_OFFSET then PROC_OFFSET_INVALID
      else let p = read_int m OFFSET_PROC_OFFSET w in if p \<le> 0 then HEADER_SIZE else p)"

definition is_proc_list_available :: "shm_manager \<Rightarrow> os \<Rightarrow> bool" where
  "is_proc_list_available m w =
     (let p = get_proc_offset m w
      in if p = PROC_OFFSET_INVALID then False
         else if p + PROC_LIST_REL_OFFSET_DATA > memory_size m then False else True)"

definition get_proc_len :: "shm_manager \<Rightarrow> os \<Rightarrow> int" where
  "get_proc_len m w =
     (let p = get_proc_offset m w
      in if p = PROC_OFFSET_INVALID then PROC_LEN_INVALID
         else if p + PROC_LIST_REL_OFFSET_DATA > memory_size m then PROC_LEN_INVALID
         else read_int m (p + PROC_LIST_REL_OFFSET_LEN) w)"

definition set_proc_len :: "shm_manager \<Rightarrow> int \<Rightarrow> unit shm_prog" where
  "set_proc_len m n = (\<lambda>w.
     let p = get_proc_offset m w
     in if p = PROC_OFFSET_INVALID then ret () w
        else if p + PROC_LIST_REL_OFFSET_DATA > memory_size m then ret () w
        else write_int m (p + PROC_LIST_REL_OFFSET_LEN) n w)"

definition get_proc_cursor :: "shm_manager \<Rightarrow> os \<Rightarrow> int" where
  "get_proc_cursor m w =
     (let p = get_proc_offset m w
      in if p = PROC_OFFSET_INVALID then 0
         else if p + PROC_LIST_REL_OFFSET_DATA > memory_size m then 0
         else read_int m (p + PROC_LIST_REL_OFFSET_CURSOR) w)"

definition set_proc_cursor :: "shm_manager \<Rightarrow> int \<Rightarrow> unit shm_prog" where
  "set_proc_cursor m c = (\<lambda>w.
     let p = get_proc_offset m w
     in if p = PROC_OFFSET_INVALID then ret () w
        else if p + PROC_LIST_REL_OFFSET_DATA > memory_size m then ret () w
        else write_int m (p + PROC_LIST_REL_OFFSET_CURSOR) c w)"

definition get_proc_data_offset :: "shm_manager \<Rightarrow> int \<Rightarrow> os \<Rightarrow> int" where
  "get_proc_data_offset m i w =
     (let p = get_proc_offset m w
      in if p = PROC_OFFSET_INVALID then -1
         else p + PROC_LIST_REL_OFFSET_DATA + i * PROC_ENTRY_SIZE)"

definition get_proc_at :: "shm_manager \<Rightarrow> int \<Rightarrow> os \<Rightarrow> int" where
  "get_proc_at m i w =
     (let off = get_proc_data_offset m i w in if off < 0 then 0 else read_int m off w)"

definition set_proc_at :: "shm_manager \<Rightarrow> int \<Rightarrow> int \<Rightarrow> unit shm_prog" where
  "set_proc_at m i pid = (\<lambda>w.
     let off = get_proc_data_offset m i w in if off < 0 then ret () w else write_int m off pid w)"

definition indices :: "int \<Rightarrow> int list" where
  "indices n = map int [0..<nat n]"

definition get_all_procs :: "shm_manager \<Rightarrow> os \<Rightarrow> int list" where
  "get_all_procs m w =
     (let n = get_proc_len m w
      in if n = PROC_LEN_INVALID then []
         else remdups (filter (\<lambda>p. p > 0) (map (\<lambda>i. get_proc_at m i w) (indices n))))"

definition add_process :: "shm_manager \<Rightarrow> int \<Rightarrow> int shm_prog" where
  "add_process m pid = semaphore_lock m (\<lambda>w.
     let cursor = get_proc_cursor m w; n = get_proc_len m w
     in if n = PROC_LEN_INVALID then ret (-1) w
        else if n \<le> 0 then ret (-1) w
        else let index = cursor mod n
             in andthen (set_proc_at m index pid)
                  (\<lambda>_. andthen (set_proc_cursor m ((cursor + 1) mod n)) (\<lambda>_. ret index)) w)"

fun cleanup_loop :: "shm_manager \<Rightarrow> int list \<Rightarrow> int \<Rightarrow> int shm_prog" where
  "cleanup_loop m [] cleaned w = ret cleaned w"
| "cleanup_loop m (i # is) cleaned w =
     (let pid = get_proc_at m i w
      in if pid \<le> 0 then cleanup_loop m is cleaned w
         else (case kill w (nat pid) of
             ProcessLookupErr \<Rightarrow>
               andthen (set_proc_at m i 0) (\<lambda>_. cleanup_loop m is (cleaned + 1)) w
           | _ \<Rightarrow> cleanup_loop m is cleaned w))"

definition cleanup_invalid_processes :: "shm_manager \<Rightarrow> int shm_prog" where
  "cleanup_invalid_processes m = (\<lambda>w.
     let n = get_proc_len m w
     in if n = PROC_LEN_INVALID then ret (-1) w else cleanup_loop m (indices n) 0 w)"

text \<open>
  \<^verbatim>\<open>get_valid_processes\<close> swallows the OS errors of \<^verbatim>\<open>os.kill\<close>; an \<^verbatim>\<open>OverflowError\<close> (a
  stored id that is no C int) is no \<^verbatim>\<open>OSError\<close> and leaves the loop.
\<close>

fun valid_loop :: "int list \<Rightarrow> int list \<Rightarrow> int list shm_prog" where
  "valid_loop [] valid w = ret valid w"
| "valid_loop (pid # pids) valid w =
     (case kill w (nat pid) of
        KillOk \<Rightarrow> valid_loop pids (valid @ [pid]) w
      | KillOverflow \<Rightarrow> raise OverflowErr w
      | _ \<Rightarrow> valid_loop pids valid w)"

definition get_valid_processes :: "shm_manager \<Rightarrow> int list shm_prog" where
  "get_valid_processes m = (\<lambda>w. valid_loop (get_all_procs m w) [] w)"

section \<open>Control commands and status\<close>

fun signal_loop :: "shm_manager \<Rightarrow> int list \<Rightarrow> int \<Rightarrow> int \<Rightarrow> (int \<times> int) shm_prog" where
  "signal_loop m [] signaled cleaned w = ret (signaled, cleaned) w"
| "signal_loop m (i # is) signaled cleaned w =
     (let pid = get_proc_at m i w
      in if pid \<le> 0 then signal_loop m is signaled cleaned w
         else (case kill w (nat pid) of
             KillOk \<Rightarrow> signal_loop m is (signaled + 1) cleaned
                        (w\<lparr>signalled := signalled w @ [nat pid]\<rparr>)
           | ProcessLookupErr \<Rightarrow>
               andthen (set_proc_at m i 0) (\<lambda>_. signal_loop m is signaled (cleaned + 1)) w
           | _ \<Rightarrow> signal_loop m is signaled cleaned w))"

definition send_signals_and_cleanup :: "shm_manager \<Rightarrow> (int \<times> int) shm_prog" where
  "send_signals_and_cleanup m = (\<lambda>w.
     let n = get_proc_len m w
     in if n = PROC_LEN_INVALID then ret (0, 0) w else signal_loop m (indices n) 0 0 w)"

definition send_control_command ::
  "shm_manager \<Rightarrow> bool \<Rightarrow> bool \<Rightarrow> bool \<Rightarrow> (bool \<times> int \<times> int \<times> bool) shm_prog" where
  "send_control_command m is_start force send_signal =
     (let target_state = (if is_start then STATE_ON else STATE_OFF)
      in semaphore_lock m (\<lambda>w.
           if \<not> force \<and> get_state m w = target_state then ret (True, 0, 0, False) w
           else andthen (set_state m target_state)
                  (\<lambda>_. andthen (andthen (gets now) (set_timestamp m))
                  (\<lambda>_. andthen (if send_signal then send_signals_and_cleanup m else ret (0, 0))
                  (\<lambda>(signaled, cleaned). ret (True, signaled, cleaned, True)))) w))"

record shm_status =
  st_state :: bool
  st_timestamp :: int
  st_cursor :: int
  st_list_len :: int
  st_count :: int
  st_processes :: "int list"
  st_cleaned :: int
  st_mismatch :: bool

definition get_status :: "shm_manager \<Rightarrow> shm_status shm_prog" where
  "get_status m = semaphore_lock m
     (andthen (cleanup_invalid_processes m)
       (\<lambda>cleaned. andthen (get_valid_processes m)
       (\<lambda>valid. gets (\<lambda>w. \<lparr>st_state = (get_state m w = STATE_ON), st_timestamp = get_timestamp m w,
           st_cursor = get_proc_cursor m w, st_list_len = get_proc_len m w,
           st_count = int (length valid), st_processes = valid, st_cleaned = cleaned,
           st_mismatch = version_mismatch m\<rparr>))))"

definition should_destroy :: "shm_manager \<Rightarrow> bool shm_prog" where
  "should_destroy m = (\<lambda>w. let st = get_state m w
     in andthen (get_valid_processes m) (\<lambda>valid. ret (st = STATE_OFF \<and> length valid = 0)) w)"

section \<open>Connecting\<close>

definition check_version_compatibility :: "shm_manager \<Rightarrow> os \<Rightarrow> shm_manager" where
  "check_version_compatibility m w =
     (let magic = read_int m OFFSET_MAGIC w; version = read_int m OFFSET_VERSION w;
          hlen = read_int m OFFSET_HEADER_LEN w; header_end = read_int m OFFSET_HEADER_END w
      in if magic \<noteq> MAGIC_NUMBER \<or> header_end \<noteq> HEADER_END_MARKER then m\<lparr>version_mismatch := True\<rparr>
         else if version \<noteq> CURRENT_VERSION
         then (if hlen > 0 then m\<lparr>version_mismatch := True, header_len := min hlen HEADER_SIZE\<rparr>
               else m\<lparr>version_mismatch := True\<rparr>)
         else m\<lparr>version_mismatch := False\<rparr>)"

definition is_control_state_valid :: "shm_manager \<Rightarrow> os \<Rightarrow> bool" where
  "is_control_state_valid m w =
     (if mmap m = None \<or> memory_size m < HEADER_SIZE then False
      else if read_int m OFFSET_MAGIC w \<noteq> MAGIC_NUMBER \<or> read_int m OFFSET_VERSION w \<noteq> CURRENT_VERSION
              \<or> read_int m OFFSET_HEADER_END w \<noteq> HEADER_END_MARKER then False
      else if read_int m OFFSET_HEADER_LEN w \<noteq> HEADER_SIZE then False
      else if read_int m OFFSET_STATE w \<notin> {STATE_OFF, STATE_ON} then False
      else True)"

definition init_header :: "shm_manager \<Rightarrow> unit shm_prog" where
  "init_header m = semaphore_lock m
     (andthen (write_int m OFFSET_MAGIC MAGIC_NUMBER)
      (\<lambda>_. andthen (write_int m OFFSET_VERSION CURRENT_VERSION)
      (\<lambda>_. andthen (write_int m OFFSET_HEADER_LEN HEADER_SIZE)
      (\<lambda>_. andthen (write_int m OFFSET_STATE STATE_OFF)
      (\<lambda>_. andthen (write_int m OFFSET_TIMESTAMP 0)
      (\<lambda>_. andthen (write_int m OFFSET_PROC_OFFSET HEADER_SIZE)
      (\<lambda>_. andthen (write_int m OFFSET_HEADER_END HEADER_END_MARKER)
      (\<lambda>_. \<lambda>w. let p = get_proc_offset m w
           in andthen (write_int m (p + PROC_LIST_REL_OFFSET_LEN) (int (max_procs m)))
                (\<lambda>_. write_int m (p + PROC_LIST_REL_OFFSET_CURSOR) 0) w))))))))"

text \<open>The semaphore is opened last: \<^verbatim>\<open>_init_header\<close> runs with \<^verbatim>\<open>self._sem\<close> still \<open>None\<close>.\<close>

definition connect_sem :: "shm_manager \<Rightarrow> (shm_manager \<times> bool) shm_prog" where
  "connect_sem m = (\<lambda>w. case sem_names w (sem_name m) of
       Some s \<Rightarrow> (Inr (m\<lparr>sem := Some s\<rparr>, True), w)
     | None \<Rightarrow> (Inr (m\<lparr>sem := Some (next_sem w)\<rparr>, True),
                w\<lparr>sem_names := (sem_names w)(sem_name m := Some (next_sem w)),
                  sem_value := (sem_value w)(next_sem w := 1), next_sem := Suc (next_sem w)\<rparr>))"

definition connect :: "shm_manager \<Rightarrow> bool \<Rightarrow> (shm_manager \<times> bool) shm_prog" where
  "connect m create = (\<lambda>w. case shm_names w (shm_name m) of
       Some ob \<Rightarrow>
         (let actual_size = int (length (shm_bytes w ob));
              m1 = m\<lparr>shm := Some ob, mmap := Some ob, memory_size := actual_size\<rparr>
          in connect_sem (check_version_compatibility m1 w) w)
     | None \<Rightarrow>
         (if \<not> create then (Inr (m, False), w)
          else let ob = next_shm w;
                   m1 = m\<lparr>shm := Some ob, mmap := Some ob\<rparr>;
                   w1 = w\<lparr>shm_names := (shm_names w)(shm_name m := Some ob), next_shm := Suc ob,
                          shm_bytes := (shm_bytes w)(ob := replicate (nat (memory_size m)) 0)\<rparr>
               in andthen (init_header m1) (\<lambda>_. connect_sem m1) w1))"

definition disconnect :: "shm_manager \<Rightarrow> shm_manager" where
  "disconnect m = m\<lparr>mmap := None, shm := None, sem := None\<rparr>"

definition destroy :: "shm_manager \<Rightarrow> os \<Rightarrow> shm_manager \<times> os" where
  "destroy m w = (disconnect m,
     w\<lparr>shm_names := (shm_names w)(shm_name m := None), sem_names := (sem_names w)(sem_name m := None)\<rparr>)"

end
