(* ===== verification/Shm_Spec.thy ===== *)
theory Shm_Spec
  imports Shm
begin

text \<open>
  The interface between the shared-memory manager and the bytes under it: a memory of 32-bit
  cells, with the laws the manager relies on (what a read returns after a write, that a write
  keeps the size). The client part is the array of cells that holds the process list. The
  interpretation shows that the little-endian bytes of \<^verbatim>\<open>read_int\<close> and
  \<^verbatim>\<open>write_int\<close> are such a memory.
\<close>

section \<open>The cell interface\<close>

locale int_cells =
  fixes rd :: "'m \<Rightarrow> nat \<Rightarrow> int"
    and wr :: "nat \<Rightarrow> int \<Rightarrow> 'm \<Rightarrow> 'm"
    and msize :: "'m \<Rightarrow> nat"
  assumes rd_wr_same: "a + 4 \<le> msize m \<Longrightarrow> 0 \<le> v \<Longrightarrow> v < 2 ^ 32 \<Longrightarrow> rd (wr a v m) a = v"
    and rd_wr_other: "a + 4 \<le> msize m \<Longrightarrow> b + 4 \<le> a \<or> a + 4 \<le> b \<Longrightarrow> rd (wr a v m) b = rd m b"
    and msize_wr: "a + 4 \<le> msize m \<Longrightarrow> msize (wr a v m) = msize m"
begin

definition cells :: "'m \<Rightarrow> nat \<Rightarrow> nat \<Rightarrow> int list" where
  "cells m base n = map (\<lambda>i. rd m (base + 4 * i)) [0..<n]"

lemma length_cells [simp]: "length (cells m base n) = n"
  by (simp add: cells_def)

lemma nth_cells [simp]: "i < n \<Longrightarrow> cells m base n ! i = rd m (base + 4 * i)"
  by (simp add: cells_def)

lemma cells_wr_inside:
  assumes "i < n" "base + 4 * n \<le> msize m" "0 \<le> v" "v < 2 ^ 32"
  shows "cells (wr (base + 4 * i) v m) base n = (cells m base n)[i := v]"
proof (rule nth_equalityI)
  fix j assume "j < length (cells (wr (base + 4 * i) v m) base n)"
  then have j: "j < n" by simp
  have fit: "base + 4 * i + 4 \<le> msize m" using assms(1,2) by linarith
  show "cells (wr (base + 4 * i) v m) base n ! j = (cells m base n)[i := v] ! j"
  proof (cases "i = j")
    case True
    with j assms fit show ?thesis by (simp add: rd_wr_same)
  next
    case False
    then have "base + 4 * j + 4 \<le> base + 4 * i \<or> base + 4 * i + 4 \<le> base + 4 * j" by linarith
    with fit j False show ?thesis by (simp add: rd_wr_other)
  qed
qed simp

lemma cells_wr_outside:
  assumes "a + 4 \<le> msize m" "a + 4 \<le> base \<or> base + 4 * n \<le> a"
  shows "cells (wr a v m) base n = cells m base n"
proof (rule nth_equalityI)
  fix j assume "j < length (cells (wr a v m) base n)"
  then have j: "j < n" by simp
  with assms(2) have "base + 4 * j + 4 \<le> a \<or> a + 4 \<le> base + 4 * j" by linarith
  with assms(1) j show "cells (wr a v m) base n ! j = cells m base n ! j"
    by (simp add: rd_wr_other)
qed simp

end

section \<open>Bytes as cells\<close>

definition cell_get :: "bytes \<Rightarrow> nat \<Rightarrow> int" where
  "cell_get bs a = from_bytes (take 4 (drop a bs))"

definition cell_put :: "nat \<Rightarrow> int \<Rightarrow> bytes \<Rightarrow> bytes" where
  "cell_put a v bs = take a bs @ to_bytes 4 v @ drop (a + 4) bs"

lemma length_to_bytes [simp]: "length (to_bytes n v) = n"
  by (induction n arbitrary: v) auto

text \<open>The round trip of the encoding, for every width.\<close>

lemma from_to_bytes: "0 \<le> v \<Longrightarrow> v < 256 ^ n \<Longrightarrow> from_bytes (to_bytes n v) = v"
proof (induction n arbitrary: v)
  case 0
  then show ?case by simp
next
  case (Suc n)
  have "0 \<le> v div 256" using Suc.prems by simp
  moreover have "v div 256 < 256 ^ n"
    using Suc.prems by (simp add: div_less_iff_less_mult ac_simps)
  ultimately have "from_bytes (to_bytes n (v div 256)) = v div 256" by (rule Suc.IH)
  then show ?case by (simp add: uint_word_of_int)
qed

lemma from_bytes_range: "0 \<le> from_bytes bs \<and> from_bytes bs < 256 ^ length bs"
proof (induction bs)
  case Nil
  then show ?case by simp
next
  case (Cons b bs)
  have b: "0 \<le> uint b" "uint b < 256"
    using uint_bounded[of b] by simp_all
  define P :: int where "P = 256 ^ length bs"
  have r: "0 \<le> from_bytes bs" "from_bytes bs < P"
    using Cons by (auto simp: P_def)
  have "uint b + 256 * from_bytes bs < 256 * P"
    using b r by linarith
  then show ?case using b r by (simp add: P_def)
qed

lemma length_cell_put [simp]: "a + 4 \<le> length bs \<Longrightarrow> length (cell_put a v bs) = length bs"
  by (simp add: cell_put_def)

lemma cell_get_put_same:
  "a + 4 \<le> length bs \<Longrightarrow> 0 \<le> v \<Longrightarrow> v < 2 ^ 32 \<Longrightarrow> cell_get (cell_put a v bs) a = v"
  using from_to_bytes[of v 4] by (simp add: cell_get_def cell_put_def)

lemma drop_cell_put:
  "a + 4 \<le> b \<Longrightarrow> a + 4 \<le> length bs \<Longrightarrow> drop b (cell_put a v bs) = drop b bs"
  by (simp add: cell_put_def)

lemma take_cell_put:
  assumes "b + 4 \<le> a" "a + 4 \<le> length bs"
  shows "take 4 (drop b (cell_put a v bs)) = take 4 (drop b bs)"
proof -
  have "take 4 (drop b (cell_put a v bs)) = drop b (take (b + 4) (cell_put a v bs))"
    by (simp add: drop_take)
  also have "take (b + 4) (cell_put a v bs) = take (b + 4) bs"
    using assms by (simp add: cell_put_def min_def)
  finally show ?thesis by (simp add: drop_take)
qed

lemma cell_get_put_other:
  "a + 4 \<le> length bs \<Longrightarrow> b + 4 \<le> a \<or> a + 4 \<le> b \<Longrightarrow> cell_get (cell_put a v bs) b = cell_get bs b"
  by (auto simp: cell_get_def drop_cell_put take_cell_put)

lemma cell_get_range: "0 \<le> cell_get bs a \<and> cell_get bs a < 2 ^ 32"
proof -
  let ?b = "take 4 (drop a bs)"
  have "from_bytes ?b < 256 ^ length ?b" and "0 \<le> from_bytes ?b"
    using from_bytes_range by blast+
  moreover have "(256::int) ^ length ?b \<le> 256 ^ 4"
    by (rule power_increasing) simp_all
  ultimately show ?thesis by (simp add: cell_get_def)
qed

interpretation mem: int_cells cell_get cell_put length
  by unfold_locales (simp_all add: cell_get_put_same cell_get_put_other)

section \<open>The manager's field accesses as cell accesses\<close>

lemma py_slice_nonneg: "0 \<le> i \<Longrightarrow> py_slice xs i (i + 4) = take 4 (drop (nat i) xs)"
  by (auto simp: py_slice_def slice_bound_def min_def nat_le_iff not_le nat_add_distrib take_all_iff)

lemma length_py_slice4: "0 \<le> i \<Longrightarrow> length (py_slice xs i (i + 4)) = 4 \<longleftrightarrow> nat i + 4 \<le> length xs"
  by (auto simp: py_slice_nonneg)

lemma slice_assign_cell:
  "0 \<le> i \<Longrightarrow> nat i + 4 \<le> length xs \<Longrightarrow> slice_assign xs i (to_bytes 4 v) = cell_put (nat i) v xs"
  by (simp add: slice_assign_def cell_put_def slice_bound_def)

lemma read_int_cell:
  "mmap m = Some ob \<Longrightarrow> 0 \<le> i \<Longrightarrow> read_int m i w = cell_get (shm_bytes w ob) (nat i)"
  by (simp add: read_int_def cell_get_def py_slice_nonneg)

lemma read_int_range: "0 \<le> i \<Longrightarrow> 0 \<le> read_int m i w \<and> read_int m i w < 2 ^ 32"
  by (cases "mmap m") (auto simp: read_int_def read_int_cell[unfolded read_int_def] py_slice_nonneg
      cell_get_range[unfolded cell_get_def, simplified])

definition set_bytes :: "nat \<Rightarrow> (bytes \<Rightarrow> bytes) \<Rightarrow> os \<Rightarrow> os" where
  "set_bytes ob f w = w\<lparr>shm_bytes := (shm_bytes w)(ob := f (shm_bytes w ob))\<rparr>"

lemma write_int_cell:
  "mmap m = Some ob \<Longrightarrow> 0 \<le> i \<Longrightarrow> nat i + 4 \<le> length (shm_bytes w ob) \<Longrightarrow> 0 \<le> v \<Longrightarrow> v < 2 ^ 32 \<Longrightarrow>
   write_int m i v w = (Inr (), set_bytes ob (cell_put (nat i) v) w)"
  by (simp add: write_int_def length_py_slice4 slice_assign_cell set_bytes_def)

lemma set_bytes_frame [simp]:
  "shm_names (set_bytes ob f w) = shm_names w" "next_shm (set_bytes ob f w) = next_shm w"
  "sem_names (set_bytes ob f w) = sem_names w" "sem_value (set_bytes ob f w) = sem_value w"
  "next_sem (set_bytes ob f w) = next_sem w" "kill (set_bytes ob f w) = kill w"
  "signalled (set_bytes ob f w) = signalled w" "now (set_bytes ob f w) = now w"
  "shm_bytes (set_bytes ob f w) ob = f (shm_bytes w ob)"
  "ob' \<noteq> ob \<Longrightarrow> shm_bytes (set_bytes ob f w) ob' = shm_bytes w ob'"
  by (simp_all add: set_bytes_def)

lemma set_bytes_compose: "set_bytes ob g (set_bytes ob f w) = set_bytes ob (g \<circ> f) w"
  by (simp add: set_bytes_def)


text \<open>
  What the control block promises: an abstract \<open>ring\<close> (the on/off state, the time stamp, the
  slots of the process list and the cursor) and the refinement of its operations by the byte-level
  code of \<open>Shm\<close>. \<open>block_ok n bs\<close> says that the bytes are a well-formed block for \<open>n\<close>
  processes, \<open>view_ok m ob n\<close> that the manager maps it, \<open>block_abs\<close> is the abstraction.
\<close>

section \<open>The abstract block\<close>

record ring =
  ring_on :: bool
  ring_stamp :: int
  ring_cursor :: nat
  ring_slots :: "int list"

definition ring_add :: "int \<Rightarrow> ring \<Rightarrow> ring" where
  "ring_add pid r = r\<lparr>ring_slots := (ring_slots r)[ring_cursor r := pid],
                      ring_cursor := Suc (ring_cursor r) mod length (ring_slots r)\<rparr>"

definition ring_reap :: "(int \<Rightarrow> bool) \<Rightarrow> ring \<Rightarrow> ring" where
  "ring_reap dead r = r\<lparr>ring_slots := map (\<lambda>p. if dead p then 0 else p) (ring_slots r)\<rparr>"

definition ring_set :: "bool \<Rightarrow> int \<Rightarrow> ring \<Rightarrow> ring" where
  "ring_set on t r = r\<lparr>ring_on := on, ring_stamp := t\<rparr>"

text \<open>The processes the kernel knows and those it has lost, among the stored ids.\<close>

definition dead_pid :: "(nat \<Rightarrow> kill_result) \<Rightarrow> int \<Rightarrow> bool" where
  "dead_pid k p \<longleftrightarrow> p > 0 \<and> k (nat p) = ProcessLookupErr"

definition live_pid :: "(nat \<Rightarrow> kill_result) \<Rightarrow> int \<Rightarrow> bool" where
  "live_pid k p \<longleftrightarrow> p > 0 \<and> k (nat p) = KillOk"

section \<open>Well-formed blocks\<close>

definition block_ok :: "nat \<Rightarrow> bytes \<Rightarrow> bool" where
  "block_ok n bs \<longleftrightarrow>
     length bs = 36 + 4 * n \<and> 0 < n \<and> int n < 2 ^ 32 \<and>
     cell_get bs 0 = MAGIC_NUMBER \<and> cell_get bs 4 = CURRENT_VERSION \<and> cell_get bs 8 = HEADER_SIZE \<and>
     cell_get bs 12 \<in> {STATE_OFF, STATE_ON} \<and> cell_get bs 20 = HEADER_SIZE \<and>
     cell_get bs 24 = HEADER_END_MARKER \<and> cell_get bs 28 = int n \<and> cell_get bs 32 < int n"

definition view_ok :: "shm_manager \<Rightarrow> nat \<Rightarrow> nat \<Rightarrow> bool" where
  "view_ok m ob n \<longleftrightarrow> mmap m = Some ob \<and> header_len m = HEADER_SIZE \<and> memory_size m = int (36 + 4 * n)"

definition shm_ok :: "shm_manager \<Rightarrow> os \<Rightarrow> nat \<Rightarrow> nat \<Rightarrow> bool" where
  "shm_ok m w ob n \<longleftrightarrow> view_ok m ob n \<and> block_ok n (shm_bytes w ob)"

definition block_abs :: "nat \<Rightarrow> bytes \<Rightarrow> ring" where
  "block_abs n bs = \<lparr>ring_on = (cell_get bs 12 = STATE_ON), ring_stamp = cell_get bs 16,
     ring_cursor = nat (cell_get bs 32), ring_slots = map (\<lambda>i. cell_get bs (36 + 4 * i)) [0..<n]\<rparr>"

lemma block_abs_cells: "ring_slots (block_abs n bs) = mem.cells bs 36 n"
  by (simp add: block_abs_def mem.cells_def)

lemma length_ring_slots [simp]: "length (ring_slots (block_abs n bs)) = n"
  by (simp add: block_abs_def)

lemma ring_slots_nth [simp]: "i < n \<Longrightarrow> ring_slots (block_abs n bs) ! i = cell_get bs (36 + 4 * i)"
  by (simp add: block_abs_def)

lemma block_ok_length: "block_ok n bs \<Longrightarrow> length bs = 36 + 4 * n"
  by (simp add: block_ok_def)

lemma block_ok_cursor: "block_ok n bs \<Longrightarrow> 0 \<le> cell_get bs 32 \<and> cell_get bs 32 < int n"
  using cell_get_range by (simp add: block_ok_def)

subsection \<open>What each cell write does to a block\<close>

lemma block_ok_put_state:
  "block_ok n bs \<Longrightarrow> v \<in> {STATE_OFF, STATE_ON} \<Longrightarrow> block_ok n (cell_put 12 v bs)"
  by (auto simp: block_ok_def cell_get_put_other cell_get_put_same layout_defs)

lemma block_ok_put_stamp: "block_ok n bs \<Longrightarrow> block_ok n (cell_put 16 t bs)"
  by (auto simp: block_ok_def cell_get_put_other)

lemma block_ok_put_cursor:
  "block_ok n bs \<Longrightarrow> 0 \<le> c \<Longrightarrow> c < int n \<Longrightarrow> block_ok n (cell_put 32 c bs)"
  by (auto simp: block_ok_def cell_get_put_other cell_get_put_same)

lemma block_ok_put_slot: "block_ok n bs \<Longrightarrow> i < n \<Longrightarrow> block_ok n (cell_put (36 + 4 * i) v bs)"
  by (auto simp: block_ok_def cell_get_put_other)

lemmas block_ok_puts = block_ok_put_state block_ok_put_stamp block_ok_put_cursor block_ok_put_slot

lemma block_abs_put_state_stamp:
  assumes "block_ok n bs" "0 \<le> t" "t < 2 ^ 32"
  shows "block_abs n (cell_put 16 t (cell_put 12 (if on then STATE_ON else STATE_OFF) bs))
         = ring_set on t (block_abs n bs)"
  using assms(2-) block_ok_length[OF assms(1)]
  by (auto simp: block_abs_def ring_set_def cell_get_put_other cell_get_put_same layout_defs)

lemma block_abs_put_cursor:
  assumes "block_ok n bs" "0 \<le> c" "c < int n"
  shows "block_abs n (cell_put 32 c bs) = (block_abs n bs)\<lparr>ring_cursor := nat c\<rparr>"
proof -
  have "c < 2 ^ 32" using assms by (simp add: block_ok_def)
  with assms(2) block_ok_length[OF assms(1)] show ?thesis
    by (auto simp: block_abs_def cell_get_put_other cell_get_put_same)
qed

lemma block_abs_put_slot:
  assumes "block_ok n bs" "i < n" "0 \<le> v" "v < 2 ^ 32"
  shows "block_abs n (cell_put (36 + 4 * i) v bs) =
         (block_abs n bs)\<lparr>ring_slots := (ring_slots (block_abs n bs))[i := v]\<rparr>"
proof -
  have fit: "36 + 4 * i + 4 \<le> length bs" "36 + 4 * n \<le> length bs"
    using assms(1,2) by (auto simp: block_ok_def)
  have "ring_slots (block_abs n (cell_put (36 + 4 * i) v bs)) = (ring_slots (block_abs n bs))[i := v]"
    unfolding block_abs_cells using assms(2-) fit by (intro mem.cells_wr_inside) simp_all
  with fit(1) show ?thesis
    by (simp add: block_abs_def cell_get_put_other)
qed

section \<open>The manager's operations on a mapped block\<close>

lemma view_okD:
  assumes "view_ok m ob n"
  shows "mmap m = Some ob" "header_len m = 28" "memory_size m = 36 + 4 * int n"
  using assms by (simp_all add: view_ok_def HEADER_SIZE_def)

lemma fields_available:
  assumes "view_ok m ob n"
  shows "is_field_available m OFFSET_STATE" "is_field_available m OFFSET_TIMESTAMP"
    "is_field_available m OFFSET_PROC_OFFSET"
  using view_okD[OF assms] by (simp_all add: is_field_available_def layout_defs)

lemma get_fields:
  assumes "view_ok m ob n"
  shows "get_state m w = cell_get (shm_bytes w ob) 12"
    and "get_timestamp m w = cell_get (shm_bytes w ob) 16"
  using fields_available[OF assms] view_okD[OF assms]
  by (simp_all add: get_state_def get_timestamp_def read_int_cell layout_defs)

lemma proc_offset_ok:
  assumes "shm_ok m w ob n" shows "get_proc_offset m w = 28"
  using assms fields_available[of m ob n] view_okD[of m ob n]
  by (simp add: shm_ok_def get_proc_offset_def block_ok_def read_int_cell layout_defs)

lemma proc_fields:
  assumes "shm_ok m w ob n"
  shows "get_proc_len m w = int n"
    and "get_proc_cursor m w = cell_get (shm_bytes w ob) 32"
    and "get_proc_at m (int i) w = cell_get (shm_bytes w ob) (36 + 4 * i)"
  using assms proc_offset_ok[OF assms] view_okD[of m ob n]
  by (simp_all add: shm_ok_def get_proc_len_def get_proc_cursor_def get_proc_at_def
      get_proc_data_offset_def block_ok_def read_int_cell layout_defs nat_add_distrib nat_mult_distrib
      mult.commute)

lemma set_fields:
  assumes "shm_ok m w ob n" "0 \<le> v" "v < 2 ^ 32"
  shows "set_state m v w = (Inr (), set_bytes ob (cell_put 12 v) w)"
    and "set_timestamp m v w = (Inr (), set_bytes ob (cell_put 16 v) w)"
    and "set_proc_cursor m v w = (Inr (), set_bytes ob (cell_put 32 v) w)"
    and "i < n \<Longrightarrow> set_proc_at m (int i) v w = (Inr (), set_bytes ob (cell_put (36 + 4 * i) v) w)"
  using assms proc_offset_ok[OF assms(1)] fields_available[of m ob n] view_okD[of m ob n]
  by (simp_all add: shm_ok_def set_state_def set_timestamp_def set_proc_cursor_def set_proc_at_def
      get_proc_data_offset_def write_int_cell layout_defs block_ok_def nat_add_distrib
      nat_mult_distrib mult.commute)

lemma shm_ok_set_bytes:
  "shm_ok m w ob n \<Longrightarrow> block_ok n (f (shm_bytes w ob)) \<Longrightarrow> shm_ok m (set_bytes ob f w) ob n"
  by (simp add: shm_ok_def)

subsection \<open>The semaphore is given back\<close>

definition lock_free :: "shm_manager \<Rightarrow> os \<Rightarrow> bool" where
  "lock_free m w \<longleftrightarrow> (case sem m of None \<Rightarrow> True | Some s \<Rightarrow> 0 < sem_value w s)"

definition put_block :: "nat \<Rightarrow> bytes \<Rightarrow> nat list \<Rightarrow> os \<Rightarrow> os" where
  "put_block ob bs sg w = w\<lparr>shm_bytes := (shm_bytes w)(ob := bs), signalled := sg\<rparr>"

lemma put_block_frame [simp]:
  "shm_bytes (put_block ob bs sg w) = (shm_bytes w)(ob := bs)" "signalled (put_block ob bs sg w) = sg"
  "kill (put_block ob bs sg w) = kill w" "now (put_block ob bs sg w) = now w"
  "sem_value (put_block ob bs sg w) = sem_value w" "shm_names (put_block ob bs sg w) = shm_names w"
  "sem_names (put_block ob bs sg w) = sem_names w"
  by (simp_all add: put_block_def)

lemma put_block_twice [simp]: "put_block ob bs sg (put_block ob bs' sg' w) = put_block ob bs sg w"
  by (simp add: put_block_def)

lemma set_bytes_put_block: "set_bytes ob f w = put_block ob (f (shm_bytes w ob)) (signalled w) w"
  by (simp add: set_bytes_def put_block_def)

lemma put_block_id: "w = put_block ob (shm_bytes w ob) (signalled w) w"
  by (simp add: put_block_def)

lemma lock_run:
  assumes "lock_free m w"
    and "\<And>w0. shm_bytes w0 = shm_bytes w \<Longrightarrow> kill w0 = kill w \<Longrightarrow> now w0 = now w \<Longrightarrow>
           signalled w0 = signalled w \<Longrightarrow> body w0 = (r, put_block ob bs sg w0)"
  shows "semaphore_lock m body w = (r, put_block ob bs sg w)"
proof (cases "sem m")
  case None
  then show ?thesis
    using assms(2)[of w] by (simp add: semaphore_lock_def acquire_def andthen_def finally_do_def release_def)
next
  case (Some s)
  let ?w0 = "w\<lparr>sem_value := (sem_value w)(s := sem_value w s - 1)\<rparr>"
  have "body ?w0 = (r, put_block ob bs sg ?w0)" by (rule assms(2)) simp_all
  moreover have "0 < sem_value w s" using assms(1) Some by (simp add: lock_free_def)
  ultimately show ?thesis using Some
    by (simp add: semaphore_lock_def acquire_def andthen_def finally_do_def release_def put_block_def)
qed

end
