(* ===== verification/Shm_Ops.thy ===== *)
theory Shm_Ops
  imports Shm_Spec
begin

text \<open>
  The operations of the shared-memory manager refine the abstract \<open>ring\<close>: registering a
  process, the signal and cleanup loops, the control command, the status query, and the creation of
  a fresh block. Each lemma gives the operation's outcome and the whole state it leaves.
\<close>

section \<open>Registering a process\<close>

definition add_bytes :: "nat \<Rightarrow> int \<Rightarrow> bytes \<Rightarrow> bytes" where
  "add_bytes n pid bs =
     cell_put 32 ((cell_get bs 32 + 1) mod int n)
       (cell_put (36 + 4 * nat (cell_get bs 32)) pid bs)"

lemma add_process_run:
  assumes ok: "shm_ok m w ob n" and free: "lock_free m w" and pid: "0 \<le> pid" "pid < 2 ^ 32"
  shows "add_process m pid w =
    (Inr (cell_get (shm_bytes w ob) 32),
     put_block ob (add_bytes n pid (shm_bytes w ob)) (signalled w) w)"
  unfolding add_process_def
proof (rule lock_run[OF free])
  fix w0 :: os
  assume [simp]: "shm_bytes w0 = shm_bytes w" "signalled w0 = signalled w"
  let ?bs = "shm_bytes w ob"
  let ?c = "nat (cell_get ?bs 32)"
  have ok0: "shm_ok m w0 ob n" using ok by (simp add: shm_ok_def)
  have blk: "block_ok n ?bs" using ok by (simp add: shm_ok_def)
  have n: "0 < n" "int n < 2 ^ 32" using blk by (simp_all add: block_ok_def)
  have c: "cell_get ?bs 32 = int ?c" "?c < n" using block_ok_cursor[OF blk] by auto
  have bound: "0 \<le> x mod int n \<and> x mod int n < 2 ^ 32" for x :: int
    using pos_mod_bound[of "int n" x] pos_mod_sign[of "int n" x] n by linarith
  have new: "0 \<le> (int ?c + 1) mod int n" "(int ?c + 1) mod int n < 2 ^ 32"
    using bound by blast+
  have cm: "int ?c mod int n = int ?c" using c(2) by simp
  let ?w1 = "set_bytes ob (cell_put (36 + 4 * ?c) pid) w0"
  have s1: "set_proc_at m (int ?c) pid w0 = (Inr (), ?w1)"
    using set_fields(4)[OF ok0 pid c(2)] .
  have ok1: "shm_ok m ?w1 ob n"
    by (rule shm_ok_set_bytes[OF ok0]) (simp add: block_ok_put_slot[OF blk c(2)])
  have s2: "set_proc_cursor m ((int ?c + 1) mod int n) ?w1 =
        (Inr (), set_bytes ob (cell_put 32 ((int ?c + 1) mod int n)) ?w1)"
    using set_fields(3)[OF ok1 new] .
  show "(let cursor = get_proc_cursor m w0; k = get_proc_len m w0
      in if k = PROC_LEN_INVALID then ret (- 1) w0 else if k \<le> 0 then ret (- 1) w0
         else let index = cursor mod k
              in andthen (set_proc_at m index pid)
                  (\<lambda>_. andthen (set_proc_cursor m ((cursor + 1) mod k)) (\<lambda>_. ret index)) w0) =
      (Inr (cell_get ?bs 32), put_block ob (add_bytes n pid ?bs) (signalled w) w0)"
    using n proc_fields[OF ok0] s1 s2 c(1) cm
    by (simp add: PROC_LEN_INVALID_def set_bytes_put_block add_bytes_def Let_def)
qed

lemma add_bytes_ok:
  assumes "block_ok n bs" "0 \<le> pid" "pid < 2 ^ 32"
  shows "block_ok n (add_bytes n pid bs)"
    and "block_abs n (add_bytes n pid bs) = ring_add pid (block_abs n bs)"
proof -
  let ?c = "nat (cell_get bs 32)"
  let ?d = "(cell_get bs 32 + 1) mod int n"
  let ?b1 = "cell_put (36 + 4 * ?c) pid bs"
  have n: "0 < n" using assms(1) by (simp add: block_ok_def)
  have c: "cell_get bs 32 = int ?c" "?c < n" using block_ok_cursor[OF assms(1)] by auto
  have d: "0 \<le> ?d" "?d < int n" using n by simp_all
  have b1: "block_ok n ?b1" by (rule block_ok_put_slot[OF assms(1) c(2)])
  show "block_ok n (add_bytes n pid bs)"
    unfolding add_bytes_def by (rule block_ok_put_cursor[OF b1 d])
  have dn: "nat ?d = Suc ?c mod n"
    using c(1) by (metis of_nat_Suc add.commute nat_int zmod_int)
  show "block_abs n (add_bytes n pid bs) = ring_add pid (block_abs n bs)"
    unfolding add_bytes_def block_abs_put_cursor[OF b1 d]
      block_abs_put_slot[OF assms(1) c(2) assms(2,3)]
    by (simp add: ring_add_def block_abs_def dn)
qed

text \<open>The circular list holds the last processes registered, the oldest entry is overwritten first.\<close>

fun ring_add_all :: "int list \<Rightarrow> ring \<Rightarrow> ring" where
  "ring_add_all [] r = r"
| "ring_add_all (p # ps) r = ring_add_all ps (ring_add p r)"

lemma ring_add_len [simp]: "length (ring_slots (ring_add p r)) = length (ring_slots r)"
  by (simp add: ring_add_def)

lemma ring_add_all_len [simp]: "length (ring_slots (ring_add_all ps r)) = length (ring_slots r)"
  by (induction ps arbitrary: r) simp_all

lemma ring_add_all_append: "ring_add_all (ps @ qs) r = ring_add_all qs (ring_add_all ps r)"
  by (induction ps arbitrary: r) simp_all

lemma ring_add_all_cursor:
  assumes "ring_cursor r < length (ring_slots r)"
  shows "ring_cursor (ring_add_all ps r) = (ring_cursor r + length ps) mod length (ring_slots r)"
  using assms
proof (induction ps arbitrary: r)
  case Nil
  then show ?case by simp
next
  case (Cons p ps)
  then have "ring_cursor (ring_add p r) < length (ring_slots (ring_add p r))"
    by (auto simp: ring_add_def intro: mod_less_divisor)
  from Cons.IH[OF this] show ?case
    by (simp add: ring_add_def mod_add_left_eq)
qed

lemma ring_add_all_slot:
  assumes "ring_cursor r < length (ring_slots r)" "i < length ps" "length ps \<le> length (ring_slots r)"
  shows "ring_slots (ring_add_all ps r) ! ((ring_cursor r + i) mod length (ring_slots r)) = ps ! i"
  using assms(2,3)
proof (induction ps rule: rev_induct)
  case Nil
  then show ?case by simp
next
  case (snoc p ps)
  let ?n = "length (ring_slots r)"
  let ?r = "ring_add_all ps r"
  have cur: "ring_cursor ?r = (ring_cursor r + length ps) mod ?n"
    by (rule ring_add_all_cursor[OF assms(1)])
  have pos: "0 < ?n" using assms(1) by linarith
  show ?case
  proof (cases "i = length ps")
    case True
    with pos show ?thesis by (simp add: ring_add_all_append ring_add_def cur)
  next
    case False
    with snoc.prems have i: "i < length ps" "length ps < ?n" by auto
    have "(ring_cursor r + i) mod ?n \<noteq> (ring_cursor r + length ps) mod ?n"
    proof
      assume "(ring_cursor r + i) mod ?n = (ring_cursor r + length ps) mod ?n"
      then have "?n dvd (ring_cursor r + length ps) - (ring_cursor r + i)"
        by (metis mod_eq_dvd_iff_nat i(1) nat_add_left_cancel_le less_imp_le)
      with i show False by (auto dest: dvd_imp_le)
    qed
    with i snoc.IH show ?thesis by (simp add: ring_add_all_append ring_add_def cur nth_append)
  qed
qed

section \<open>The signal loop\<close>

lemma cell_get_put_slot:
  assumes "36 + 4 * j + 4 \<le> length bs" "i \<noteq> j"
  shows "cell_get (cell_put (36 + 4 * j) v bs) (36 + 4 * i) = cell_get bs (36 + 4 * i)"
  using assms(2) by (intro cell_get_put_other[OF assms(1)]) linarith

fun reap_bytes :: "(int \<Rightarrow> bool) \<Rightarrow> nat list \<Rightarrow> bytes \<Rightarrow> bytes" where
  "reap_bytes dead [] bs = bs"
| "reap_bytes dead (j # js) bs =
     reap_bytes dead js (if dead (cell_get bs (36 + 4 * j)) then cell_put (36 + 4 * j) 0 bs else bs)"

lemma reap_bytes_ok: "block_ok n bs \<Longrightarrow> set js \<subseteq> {..<n} \<Longrightarrow> block_ok n (reap_bytes dead js bs)"
  by (induction js arbitrary: bs) (auto simp: block_ok_put_slot)

lemma reap_bytes_abs:
  assumes "block_ok n bs" "set js \<subseteq> {..<n}" "distinct js"
  shows "block_abs n (reap_bytes dead js bs) = (block_abs n bs)\<lparr>ring_slots :=
           map (\<lambda>i. if i \<in> set js \<and> dead (cell_get bs (36 + 4 * i)) then 0
                    else cell_get bs (36 + 4 * i)) [0..<n]\<rparr>"
  using assms
proof (induction js arbitrary: bs)
  case Nil
  then show ?case by (simp add: block_abs_def)
next
  case (Cons j js)
  let ?b = "if dead (cell_get bs (36 + 4 * j)) then cell_put (36 + 4 * j) 0 bs else bs"
  have j: "j < n" "j \<notin> set js" using Cons.prems by auto
  have fit: "36 + 4 * j + 4 \<le> length bs" using Cons.prems(1) j by (simp add: block_ok_def)
  have b: "block_ok n ?b" using Cons.prems(1) j by (simp add: block_ok_put_slot)
  have IH: "block_abs n (reap_bytes dead js ?b) = (block_abs n ?b)\<lparr>ring_slots :=
           map (\<lambda>i. if i \<in> set js \<and> dead (cell_get ?b (36 + 4 * i)) then 0
                    else cell_get ?b (36 + 4 * i)) [0..<n]\<rparr>"
    using Cons b by simp
  have other: "cell_get ?b (36 + 4 * i) = cell_get bs (36 + 4 * i)" if "i \<noteq> j" for i
    using that fit by (auto simp: cell_get_put_slot)
  have same: "cell_get ?b (36 + 4 * j) =
      (if dead (cell_get bs (36 + 4 * j)) then 0 else cell_get bs (36 + 4 * j))"
    using fit by (simp add: cell_get_put_same)
  have hdr: "(block_abs n ?b)\<lparr>ring_slots := xs\<rparr> = (block_abs n bs)\<lparr>ring_slots := xs\<rparr>" for xs
    using Cons.prems(1) j by (simp add: block_abs_put_slot)
  have eq: "map (\<lambda>i. if i \<in> set js \<and> dead (cell_get ?b (36 + 4 * i)) then 0
                 else cell_get ?b (36 + 4 * i)) [0..<n] =
            map (\<lambda>i. if i \<in> set (j # js) \<and> dead (cell_get bs (36 + 4 * i)) then 0
                 else cell_get bs (36 + 4 * i)) [0..<n]"
  proof (rule map_cong[OF refl])
    fix i
    show "(if i \<in> set js \<and> dead (cell_get ?b (36 + 4 * i)) then 0 else cell_get ?b (36 + 4 * i)) =
          (if i \<in> set (j # js) \<and> dead (cell_get bs (36 + 4 * i)) then 0 else cell_get bs (36 + 4 * i))"
      using j(2) other[of i] same by (cases "i = j") auto
  qed
  show ?case
    unfolding reap_bytes.simps IH hdr eq ..
qed

lemma reap_all_abs:
  assumes "block_ok n bs"
  shows "block_abs n (reap_bytes dead [0..<n] bs) = ring_reap dead (block_abs n bs)"
proof -
  have "map (\<lambda>i. if i \<in> set [0..<n] \<and> dead (cell_get bs (36 + 4 * i)) then 0
             else cell_get bs (36 + 4 * i)) [0..<n] =
        map (\<lambda>p. if dead p then 0 else p) (ring_slots (block_abs n bs))"
    by (simp add: block_abs_def)
  moreover have "set [0..<n] \<subseteq> {..<n}" "distinct [0..<n]" by auto
  ultimately show ?thesis
    using reap_bytes_abs[OF assms] by (simp only: ring_reap_def)
qed

lemma reap_step:
  assumes "shm_ok m w ob n" "j < n"
  shows "set_proc_at m (int j) 0 w =
    (Inr (), put_block ob (cell_put (36 + 4 * j) 0 (shm_bytes w ob)) (signalled w) w)"
    and "shm_ok m (put_block ob (cell_put (36 + 4 * j) 0 (shm_bytes w ob)) sg w) ob n"
  using assms set_fields(4)[OF assms(1), of 0 j]
  by (simp_all add: set_bytes_put_block shm_ok_def block_ok_put_slot)

definition slots_at :: "bytes \<Rightarrow> nat list \<Rightarrow> int list" where
  "slots_at bs js = map (\<lambda>j. cell_get bs (36 + 4 * j)) js"

lemma slots_at_put: "36 + 4 * j + 4 \<le> length bs \<Longrightarrow> j \<notin> set js \<Longrightarrow>
    slots_at (cell_put (36 + 4 * j) v bs) js = slots_at bs js"
  by (auto simp: slots_at_def intro!: cell_get_put_slot)

lemma slots_at_Cons: "slots_at bs (j # js) = cell_get bs (36 + 4 * j) # slots_at bs js"
  by (simp add: slots_at_def)

definition count_if :: "('a \<Rightarrow> bool) \<Rightarrow> 'a list \<Rightarrow> int" where
  "count_if P xs = int (length (filter P xs))"

lemma count_if_simps [simp]:
  "count_if P [] = 0" "count_if P (x # xs) = (if P x then 1 else 0) + count_if P xs"
  by (simp_all add: count_if_def)

lemma shm_ok_put_block:
  "shm_ok m w ob n \<Longrightarrow> shm_ok m (put_block ob (shm_bytes w ob) sg w) ob n"
  by (simp add: shm_ok_def)

lemma put_block_signalled [simp]:
  "put_block ob bs sg (w\<lparr>signalled := sg'\<rparr>) = put_block ob bs sg w"
  by (simp add: put_block_def)

lemma signal_loop_run:
  assumes "shm_ok m w ob n" "set js \<subseteq> {..<n}" "distinct js"
  shows "signal_loop m (map int js) s c w =
    (Inr (s + count_if (live_pid (kill w)) (slots_at (shm_bytes w ob) js),
          c + count_if (dead_pid (kill w)) (slots_at (shm_bytes w ob) js)),
     put_block ob (reap_bytes (dead_pid (kill w)) js (shm_bytes w ob))
       (signalled w @ map nat (filter (live_pid (kill w)) (slots_at (shm_bytes w ob) js))) w)"
  using assms
proof (induction js arbitrary: s c w)
  case Nil
  then show ?case by (simp add: slots_at_def put_block_def)
next
  case (Cons j js)
  let ?bs = "shm_bytes w ob"
  let ?pid = "cell_get ?bs (36 + 4 * j)"
  have j: "j < n" "j \<notin> set js" and js: "set js \<subseteq> {..<n}" "distinct js" using Cons.prems by auto
  have fit: "36 + 4 * j + 4 \<le> length ?bs"
    using Cons.prems(1) j by (simp add: shm_ok_def block_ok_def)
  have at: "get_proc_at m (int j) w = ?pid" by (rule proc_fields(3)[OF Cons.prems(1)])
  note IH = Cons.IH[OF _ js]
  have live: "shm_ok m (w\<lparr>signalled := sg\<rparr>) ob n" for sg
    using Cons.prems(1) by (simp add: shm_ok_def)
  show ?case
  proof (cases "?pid \<le> 0")
    case True
    then show ?thesis using IH[OF Cons.prems(1)] at
      by (simp add: slots_at_Cons live_pid_def[of _ ?pid] dead_pid_def[of _ ?pid])
  next
    case False
    then show ?thesis
      using IH[OF Cons.prems(1)] IH[OF live] IH[OF reap_step(2)[OF Cons.prems(1) j(1)]]
        reap_step(1)[OF Cons.prems(1) j(1)] at slots_at_put[OF fit j(2)]
      by (cases "kill w (nat ?pid)")
        (simp_all add: slots_at_Cons live_pid_def[of _ ?pid] dead_pid_def[of _ ?pid])
  qed
qed

lemma send_signals_run:
  assumes "shm_ok m w ob n"
  shows "send_signals_and_cleanup m w =
    (Inr (count_if (live_pid (kill w)) (ring_slots (block_abs n (shm_bytes w ob))),
          count_if (dead_pid (kill w)) (ring_slots (block_abs n (shm_bytes w ob)))),
     put_block ob (reap_bytes (dead_pid (kill w)) [0..<n] (shm_bytes w ob))
       (signalled w @ map nat (filter (live_pid (kill w)) (ring_slots (block_abs n (shm_bytes w ob))))) w)"
proof -
  have "slots_at (shm_bytes w ob) [0..<n] = ring_slots (block_abs n (shm_bytes w ob))"
    by (simp add: slots_at_def block_abs_def)
  then show ?thesis
    using signal_loop_run[OF assms, of "[0..<n]" 0 0] proc_fields(1)[OF assms]
    by (simp add: send_signals_and_cleanup_def PROC_LEN_INVALID_def indices_def lessThan_atLeast0)
qed

section \<open>The control command\<close>

definition command_bytes ::
  "(nat \<Rightarrow> kill_result) \<Rightarrow> int \<Rightarrow> nat \<Rightarrow> bool \<Rightarrow> bytes \<Rightarrow> bytes" where
  "command_bytes k t n is_start bs =
     reap_bytes (dead_pid k) [0..<n]
       (cell_put 16 t (cell_put 12 (if is_start then STATE_ON else STATE_OFF) bs))"

lemma slots_put_header:
  assumes "block_ok n bs" "a = 12 \<or> a = 16"
  shows "ring_slots (block_abs n (cell_put a v bs)) = ring_slots (block_abs n bs)"
  unfolding block_abs_cells using assms block_ok_length[OF assms(1)]
  by (intro mem.cells_wr_outside) auto

lemma send_control_command_skip:
  assumes ok: "shm_ok m w ob n" and free: "lock_free m w"
    and same: "ring_on (block_abs n (shm_bytes w ob)) = is_start"
  shows "send_control_command m is_start False sig w = (Inr (True, 0, 0, False), w)"
proof -
  let ?t = "if is_start then STATE_ON else STATE_OFF"
  have "cell_get (shm_bytes w ob) 12 \<in> {STATE_OFF, STATE_ON}"
    using ok by (simp add: shm_ok_def block_ok_def)
  then have st: "cell_get (shm_bytes w ob) 12 = ?t"
    using same by (auto simp: block_abs_def STATE_ON_def STATE_OFF_def)
  have "view_ok m ob n" using ok by (simp add: shm_ok_def)
  then have at: "get_state m w0 = ?t" if "shm_bytes w0 = shm_bytes w" for w0
    using get_fields(1)[of m ob n w0] st that by simp
  have "send_control_command m is_start False sig w =
      (Inr (True, 0, 0, False), put_block ob (shm_bytes w ob) (signalled w) w)"
    unfolding send_control_command_def Let_def
    by (rule lock_run[OF free]) (use at in \<open>simp add: put_block_def\<close>)
  then show ?thesis by (simp add: put_block_def)
qed

lemma send_control_command_run:
  assumes ok: "shm_ok m w ob n" and free: "lock_free m w" and t: "0 \<le> now w" "now w < 2 ^ 32"
    and go: "force \<or> ring_on (block_abs n (shm_bytes w ob)) \<noteq> is_start"
  shows "send_control_command m is_start force True w =
    (Inr (True, count_if (live_pid (kill w)) (ring_slots (block_abs n (shm_bytes w ob))),
          count_if (dead_pid (kill w)) (ring_slots (block_abs n (shm_bytes w ob))), True),
     put_block ob (command_bytes (kill w) (now w) n is_start (shm_bytes w ob))
       (signalled w @ map nat (filter (live_pid (kill w)) (ring_slots (block_abs n (shm_bytes w ob))))) w)"
  unfolding send_control_command_def Let_def
proof (rule lock_run[OF free])
  fix w0 :: os
  assume [simp]: "shm_bytes w0 = shm_bytes w" "kill w0 = kill w" "now w0 = now w"
    "signalled w0 = signalled w"
  let ?bs = "shm_bytes w ob"
  let ?t = "if is_start then STATE_ON else STATE_OFF"
  let ?b1 = "cell_put 12 ?t ?bs"
  let ?b2 = "cell_put 16 (now w) ?b1"
  have blk: "block_ok n ?bs" and view: "view_ok m ob n" using ok by (simp_all add: shm_ok_def)
  have ok0: "shm_ok m w0 ob n" using ok by (simp add: shm_ok_def)
  have b1: "block_ok n ?b1" by (rule block_ok_put_state[OF blk]) simp
  have b2: "block_ok n ?b2" by (rule block_ok_put_stamp[OF b1])
  have s1: "set_state m ?t w0 = (Inr (), put_block ob ?b1 (signalled w) w0)"
    using set_fields(1)[OF ok0, of ?t] by (simp add: STATE_ON_def STATE_OFF_def set_bytes_put_block)
  have ok1: "shm_ok m (put_block ob ?b1 (signalled w) w0) ob n"
    using b1 view by (simp add: shm_ok_def)
  have s2: "set_timestamp m (now w) (put_block ob ?b1 (signalled w) w0) =
      (Inr (), put_block ob ?b2 (signalled w) w0)"
    using set_fields(2)[OF ok1 t] by (simp add: set_bytes_put_block)
  have ok2: "shm_ok m (put_block ob ?b2 (signalled w) w0) ob n"
    using b2 view by (simp add: shm_ok_def)
  have slots: "ring_slots (block_abs n ?b2) = ring_slots (block_abs n ?bs)"
    using slots_put_header[OF b1, of 16] slots_put_header[OF blk, of 12] by simp
  have skip: "\<not> (\<not> force \<and> get_state m w0 = ?t)"
    using go get_fields(1)[OF view] by (auto simp: block_abs_def STATE_ON_def STATE_OFF_def split: if_splits)
  show "(if \<not> force \<and> get_state m w0 = ?t then ret (True, 0, 0, False) w0
     else andthen (set_state m ?t) (\<lambda>_. andthen (andthen (gets now) (set_timestamp m))
          (\<lambda>_. andthen (if True then send_signals_and_cleanup m else ret (0, 0))
          (\<lambda>(signaled, cleaned). ret (True, signaled, cleaned, True)))) w0) =
    (Inr (True, count_if (live_pid (kill w)) (ring_slots (block_abs n ?bs)),
          count_if (dead_pid (kill w)) (ring_slots (block_abs n ?bs)), True),
     put_block ob (command_bytes (kill w) (now w) n is_start ?bs)
       (signalled w @ map nat (filter (live_pid (kill w)) (ring_slots (block_abs n ?bs)))) w0)"
    unfolding if_not_P[OF skip] using s1 s2 send_signals_run[OF ok2] slots
    by (simp add: command_bytes_def)
qed

lemma command_bytes_ok:
  assumes "block_ok n bs" "0 \<le> t" "t < 2 ^ 32"
  shows "block_ok n (command_bytes k t n is_start bs)"
    and "block_abs n (command_bytes k t n is_start bs) =
         ring_reap (dead_pid k) (ring_set is_start t (block_abs n bs))"
proof -
  let ?b = "cell_put 16 t (cell_put 12 (if is_start then STATE_ON else STATE_OFF) bs)"
  have b: "block_ok n ?b"
    by (rule block_ok_put_stamp, rule block_ok_put_state[OF assms(1)]) simp
  show "block_ok n (command_bytes k t n is_start bs)"
    unfolding command_bytes_def by (rule reap_bytes_ok[OF b]) auto
  show "block_abs n (command_bytes k t n is_start bs) =
         ring_reap (dead_pid k) (ring_set is_start t (block_abs n bs))"
    unfolding command_bytes_def reap_all_abs[OF b] block_abs_put_state_stamp[OF assms] ..
qed

section \<open>Status, cleanup and release\<close>

lemma cleanup_loop_run:
  assumes "shm_ok m w ob n" "set js \<subseteq> {..<n}" "distinct js"
  shows "cleanup_loop m (map int js) c w =
    (Inr (c + count_if (dead_pid (kill w)) (slots_at (shm_bytes w ob) js)),
     put_block ob (reap_bytes (dead_pid (kill w)) js (shm_bytes w ob)) (signalled w) w)"
  using assms
proof (induction js arbitrary: c w)
  case Nil
  then show ?case by (simp add: slots_at_def put_block_def)
next
  case (Cons j js)
  let ?bs = "shm_bytes w ob"
  let ?pid = "cell_get ?bs (36 + 4 * j)"
  have j: "j < n" "j \<notin> set js" and js: "set js \<subseteq> {..<n}" "distinct js" using Cons.prems by auto
  have fit: "36 + 4 * j + 4 \<le> length ?bs"
    using Cons.prems(1) j by (simp add: shm_ok_def block_ok_def)
  have at: "get_proc_at m (int j) w = ?pid" by (rule proc_fields(3)[OF Cons.prems(1)])
  note IH = Cons.IH[OF _ js]
  show ?case
  proof (cases "?pid \<le> 0")
    case True
    then show ?thesis using IH[OF Cons.prems(1)] at
      by (simp add: slots_at_Cons dead_pid_def[of _ ?pid])
  next
    case False
    then show ?thesis
      using IH[OF Cons.prems(1)] IH[OF reap_step(2)[OF Cons.prems(1) j(1)]]
        reap_step(1)[OF Cons.prems(1) j(1)] at slots_at_put[OF fit j(2)]
      by (cases "kill w (nat ?pid)") (simp_all add: slots_at_Cons dead_pid_def[of _ ?pid])
  qed
qed

lemma cleanup_run:
  assumes "shm_ok m w ob n"
  shows "cleanup_invalid_processes m w =
    (Inr (count_if (dead_pid (kill w)) (ring_slots (block_abs n (shm_bytes w ob)))),
     put_block ob (reap_bytes (dead_pid (kill w)) [0..<n] (shm_bytes w ob)) (signalled w) w)"
proof -
  have "slots_at (shm_bytes w ob) [0..<n] = ring_slots (block_abs n (shm_bytes w ob))"
    by (simp add: slots_at_def block_abs_def)
  then show ?thesis
    using cleanup_loop_run[OF assms, of "[0..<n]" 0] proc_fields(1)[OF assms]
    by (simp add: cleanup_invalid_processes_def PROC_LEN_INVALID_def indices_def lessThan_atLeast0)
qed

lemma valid_loop_run:
  assumes "\<forall>p \<in> set ps. kill w (nat p) \<noteq> KillOverflow"
  shows "valid_loop ps acc w = (Inr (acc @ filter (\<lambda>p. kill w (nat p) = KillOk) ps), w)"
  using assms by (induction ps arbitrary: acc) (auto split: kill_result.splits)

lemma valid_loop_overflow:
  "\<exists>p \<in> set ps. kill w (nat p) = KillOverflow \<Longrightarrow> valid_loop ps acc w = (Inl OverflowErr, w)"
  by (induction ps arbitrary: acc) (auto split: kill_result.splits)

lemma get_all_procs_run:
  assumes "shm_ok m w ob n"
  shows "get_all_procs m w = remdups (filter (\<lambda>p. p > 0) (ring_slots (block_abs n (shm_bytes w ob))))"
  using proc_fields[OF assms]
  by (simp add: get_all_procs_def PROC_LEN_INVALID_def indices_def block_abs_def comp_def)

lemma get_valid_processes_run:
  assumes "shm_ok m w ob n"
    and "\<forall>p \<in> set (ring_slots (block_abs n (shm_bytes w ob))). p > 0 \<longrightarrow> kill w (nat p) \<noteq> KillOverflow"
  shows "get_valid_processes m w =
    (Inr (remdups (filter (live_pid (kill w)) (ring_slots (block_abs n (shm_bytes w ob))))), w)"
  using assms(2)
  by (simp add: get_valid_processes_def get_all_procs_run[OF assms(1)] valid_loop_run remdups_filter
      live_pid_def[abs_def] conj_commute)

lemma ring_reap_slots: "ring_slots (ring_reap dead r) = map (\<lambda>p. if dead p then 0 else p) (ring_slots r)"
  by (simp add: ring_reap_def)

lemma filter_live_reap:
  "filter (live_pid k) (map (\<lambda>p. if dead_pid k p then 0 else p) xs) = filter (live_pid k) xs"
  by (induction xs) (auto simp: live_pid_def dead_pid_def)

lemma should_destroy_run:
  assumes "shm_ok m w ob n"
    and "\<forall>p \<in> set (ring_slots (block_abs n (shm_bytes w ob))). p > 0 \<longrightarrow> kill w (nat p) \<noteq> KillOverflow"
  shows "should_destroy m w =
    (Inr (\<not> ring_on (block_abs n (shm_bytes w ob)) \<and>
          (\<forall>p \<in> set (ring_slots (block_abs n (shm_bytes w ob))). \<not> live_pid (kill w) p)), w)"
proof -
  have "cell_get (shm_bytes w ob) 12 \<in> {STATE_OFF, STATE_ON}"
    using assms(1) by (simp add: shm_ok_def block_ok_def)
  then have "get_state m w = STATE_OFF \<longleftrightarrow> \<not> ring_on (block_abs n (shm_bytes w ob))"
    using get_fields(1)[of m ob n w] assms(1)
    by (auto simp: shm_ok_def block_abs_def STATE_ON_def STATE_OFF_def)
  then show ?thesis
    using get_valid_processes_run[OF assms] by (simp add: should_destroy_def filter_empty_conv)
qed

end
