(* ===== verification/Shm_Life.thy ===== *)
theory Shm_Life
  imports Shm_Ops
begin

text \<open>
  The life cycle of the control block: creation of a fresh block by \<^verbatim>\<open>connect\<close>, attaching to an
  existing one, the degraded reads when another version wrote it, the status query, and the
  invariants every operation keeps (the semaphore is given back, the header stays valid).
\<close>

section \<open>Creating a block\<close>

definition fresh_bytes :: "nat \<Rightarrow> bytes" where
  "fresh_bytes n =
     cell_put 32 0 (cell_put 28 (int n) (cell_put 24 HEADER_END_MARKER (cell_put 20 HEADER_SIZE
       (cell_put 16 0 (cell_put 12 STATE_OFF (cell_put 8 HEADER_SIZE (cell_put 4 CURRENT_VERSION
         (cell_put 0 MAGIC_NUMBER (replicate (36 + 4 * n) 0)))))))))"

lemma cell_get_replicate0: "cell_get (replicate k 0) a = 0"
proof -
  have "from_bytes (replicate j 0) = 0" for j by (induction j) simp_all
  then show ?thesis by (simp add: cell_get_def)
qed

lemma fresh_bytes_ok:
  assumes "0 < n" "int n < 2 ^ 32"
  shows "block_ok n (fresh_bytes n)"
    and "block_abs n (fresh_bytes n) = \<lparr>ring_on = False, ring_stamp = 0, ring_cursor = 0,
           ring_slots = replicate n 0\<rparr>"
  using assms
  by (simp_all add: block_ok_def block_abs_def fresh_bytes_def cell_get_put_same cell_get_put_other
      cell_get_replicate0 layout_defs list_eq_iff_nth_eq)

lemma write_put_block:
  "mmap m = Some ob \<Longrightarrow> 0 \<le> i \<Longrightarrow> nat i + 4 \<le> length bs \<Longrightarrow> 0 \<le> v \<Longrightarrow> v < 2 ^ 32 \<Longrightarrow>
   write_int m i v (put_block ob bs sg w) = (Inr (), put_block ob (cell_put (nat i) v bs) sg w)"
  using write_int_cell[of m ob i "put_block ob bs sg w" v] by (simp add: set_bytes_put_block)

lemma read_put_block:
  "mmap m = Some ob \<Longrightarrow> 0 \<le> i \<Longrightarrow> read_int m i (put_block ob bs sg w) = cell_get bs (nat i)"
  by (simp add: read_int_cell)

lemma init_header_run:
  assumes "mmap m = Some ob" "sem m = None" "header_len m = HEADER_SIZE" "0 < max_procs m"
    "int (max_procs m) < 2 ^ 32" "shm_bytes w ob = replicate (36 + 4 * max_procs m) 0"
  shows "init_header m w = (Inr (), put_block ob (fresh_bytes (max_procs m)) (signalled w) w)"
proof -
  let ?n = "max_procs m"
  have w: "w = put_block ob (replicate (36 + 4 * ?n) 0) (signalled w) w"
    using assms(6) by (metis put_block_id)
  have avail: "is_field_available m OFFSET_PROC_OFFSET"
    using assms(3) by (simp add: is_field_available_def layout_defs)
  show ?thesis
    using assms(1-5) avail
    by (subst w) (simp add: init_header_def semaphore_lock_def acquire_def release_def finally_do_def
        write_put_block read_put_block layout_defs get_proc_offset_def fresh_bytes_def
        cell_get_put_same cell_get_put_other)
qed

text \<open>A manager as the constructor makes it, before it is connected.\<close>

definition unconnected :: "shm_manager \<Rightarrow> bool" where
  "unconnected m \<longleftrightarrow> shm m = None \<and> mmap m = None \<and> sem m = None \<and> header_len m = HEADER_SIZE \<and>
     memory_size m = calc_memory_size (max_procs m) \<and> \<not> version_mismatch m"

lemma new_manager_unconnected: "unconnected (new_manager p n e k)"
  by (simp add: unconnected_def new_manager_def Let_def)

lemma calc_memory_size_eq: "calc_memory_size n = int (36 + 4 * n)"
  by (simp add: calc_memory_size_def layout_defs)

definition connected_fresh :: "shm_manager \<Rightarrow> os \<Rightarrow> shm_manager" where
  "connected_fresh m w = m\<lparr>shm := Some (next_shm w), mmap := Some (next_shm w),
     sem := Some (case sem_names w (sem_name m) of Some s \<Rightarrow> s | None \<Rightarrow> next_sem w)\<rparr>"

lemma connect_creates:
  assumes m: "unconnected m" and none: "shm_names w (shm_name m) = None"
    and n: "0 < max_procs m" "int (max_procs m) < 2 ^ 32"
  shows "\<exists>w'. connect m True w = (Inr (connected_fresh m w, True), w') \<and>
           shm_ok (connected_fresh m w) w' (next_shm w) (max_procs m) \<and>
           shm_bytes w' (next_shm w) = fresh_bytes (max_procs m) \<and>
           shm_names w' (shm_name m) = Some (next_shm w) \<and>
           sem_names w' (sem_name m) = sem (connected_fresh m w) \<and> kill w' = kill w \<and> now w' = now w"
proof -
  let ?ob = "next_shm w"
  let ?m1 = "m\<lparr>shm := Some ?ob, mmap := Some ?ob\<rparr>"
  let ?w1 = "w\<lparr>shm_names := (shm_names w)(shm_name m := Some ?ob), next_shm := Suc ?ob,
                 shm_bytes := (shm_bytes w)(?ob := replicate (nat (memory_size m)) 0)\<rparr>"
  have size: "nat (memory_size m) = 36 + 4 * max_procs m"
    using m by (simp add: unconnected_def calc_memory_size_eq nat_add_distrib nat_mult_distrib)
  have init: "init_header ?m1 ?w1 =
      (Inr (), put_block ?ob (fresh_bytes (max_procs m)) (signalled w) ?w1)"
    using init_header_run[of ?m1 ?ob ?w1] m n size by (simp add: unconnected_def)
  have "view_ok (connected_fresh m w) ?ob (max_procs m)"
    using m by (simp add: view_ok_def connected_fresh_def unconnected_def calc_memory_size_eq)
  moreover have "block_ok (max_procs m) (fresh_bytes (max_procs m))"
    by (rule fresh_bytes_ok(1)[OF n])
  ultimately show ?thesis
    using init none by (cases "sem_names w (sem_name m)")
      (simp_all add: connect_def Let_def connect_sem_def connected_fresh_def shm_ok_def put_block_def)
qed

section \<open>Attaching to an existing block\<close>

lemma connect_attaches:
  assumes m: "unconnected m" and named: "shm_names w (shm_name m) = Some ob"
    and blk: "block_ok n (shm_bytes w ob)"
  shows "\<exists>m' w'. connect m create w = (Inr (m', True), w') \<and> shm_ok m' w' ob n \<and>
           shm_bytes w' = shm_bytes w \<and> \<not> version_mismatch m' \<and> shm_names w' = shm_names w"
proof -
  let ?m1 = "m\<lparr>shm := Some ob, mmap := Some ob, memory_size := int (length (shm_bytes w ob))\<rparr>"
  have chk: "check_version_compatibility ?m1 w = ?m1\<lparr>version_mismatch := False\<rparr>"
    using blk by (simp add: check_version_compatibility_def Let_def read_int_cell block_ok_def layout_defs)
  have view: "view_ok (?m1\<lparr>version_mismatch := False, sem := s\<rparr>) ob n" for s
    using m blk by (simp add: view_ok_def unconnected_def block_ok_def)
  show ?thesis
    using named blk chk view
    by (cases "sem_names w (sem_name m)")
      (auto simp: connect_def Let_def connect_sem_def shm_ok_def)
qed

section \<open>Status\<close>

lemma get_status_run:
  assumes ok: "shm_ok m w ob n" and free: "lock_free m w"
    and k: "\<forall>p \<in> set (ring_slots (block_abs n (shm_bytes w ob))). p > 0 \<longrightarrow> kill w (nat p) \<noteq> KillOverflow"
  shows "get_status m w =
    (let r = block_abs n (shm_bytes w ob);
         valid = remdups (filter (live_pid (kill w)) (ring_slots r))
     in (Inr \<lparr>st_state = ring_on r, st_timestamp = ring_stamp r, st_cursor = int (ring_cursor r),
              st_list_len = int n, st_count = int (length valid), st_processes = valid,
              st_cleaned = count_if (dead_pid (kill w)) (ring_slots r),
              st_mismatch = version_mismatch m\<rparr>,
         put_block ob (reap_bytes (dead_pid (kill w)) [0..<n] (shm_bytes w ob)) (signalled w) w))"
  unfolding get_status_def Let_def
proof (rule lock_run[OF free])
  fix w0 :: os
  assume [simp]: "shm_bytes w0 = shm_bytes w" "kill w0 = kill w" "signalled w0 = signalled w"
  let ?bs = "shm_bytes w ob"
  let ?b = "reap_bytes (dead_pid (kill w)) [0..<n] ?bs"
  let ?w1 = "put_block ob ?b (signalled w) w0"
  have blk: "block_ok n ?bs" and view: "view_ok m ob n" using ok by (simp_all add: shm_ok_def)
  have ok0: "shm_ok m w0 ob n" using ok by (simp add: shm_ok_def)
  have b: "block_ok n ?b" by (rule reap_bytes_ok[OF blk]) auto
  have abs: "block_abs n ?b = ring_reap (dead_pid (kill w)) (block_abs n ?bs)"
    by (rule reap_all_abs[OF blk])
  have ok1: "shm_ok m ?w1 ob n" using b view by (simp add: shm_ok_def)
  have slots: "ring_slots (block_abs n ?b) =
      map (\<lambda>p. if dead_pid (kill w) p then 0 else p) (ring_slots (block_abs n ?bs))"
    by (simp add: abs ring_reap_slots)
  have k1: "\<forall>p \<in> set (ring_slots (block_abs n (shm_bytes ?w1 ob))). p > 0 \<longrightarrow> kill ?w1 (nat p) \<noteq> KillOverflow"
    using k by (auto simp: slots split: if_splits)
  have valid: "get_valid_processes m ?w1 =
      (Inr (remdups (filter (live_pid (kill w)) (ring_slots (block_abs n ?bs)))), ?w1)"
    using get_valid_processes_run[OF ok1 k1] by (simp add: slots filter_live_reap)
  have hdr: "ring_on (block_abs n ?b) = ring_on (block_abs n ?bs)"
    "ring_stamp (block_abs n ?b) = ring_stamp (block_abs n ?bs)"
    "ring_cursor (block_abs n ?b) = ring_cursor (block_abs n ?bs)"
    by (simp_all add: abs ring_reap_def)
  have nonneg: "0 \<le> cell_get ?b 32" "0 \<le> cell_get ?bs 32" using cell_get_range by blast+
  have "cell_get ?b 32 = cell_get ?bs 32"
    using hdr(3) nonneg by (simp add: block_abs_def)
  with nonneg show "andthen (cleanup_invalid_processes m)
       (\<lambda>cleaned. andthen (get_valid_processes m)
       (\<lambda>valid. gets (\<lambda>w. \<lparr>st_state = (get_state m w = STATE_ON), st_timestamp = get_timestamp m w,
           st_cursor = get_proc_cursor m w, st_list_len = get_proc_len m w,
           st_count = int (length valid), st_processes = valid, st_cleaned = cleaned,
           st_mismatch = version_mismatch m\<rparr>))) w0 =
    (Inr \<lparr>st_state = ring_on (block_abs n ?bs), st_timestamp = ring_stamp (block_abs n ?bs),
          st_cursor = int (ring_cursor (block_abs n ?bs)), st_list_len = int n,
          st_count = int (length (remdups (filter (live_pid (kill w)) (ring_slots (block_abs n ?bs))))),
          st_processes = remdups (filter (live_pid (kill w)) (ring_slots (block_abs n ?bs))),
          st_cleaned = count_if (dead_pid (kill w)) (ring_slots (block_abs n ?bs)),
          st_mismatch = version_mismatch m\<rparr>, ?w1)"
    using cleanup_run[OF ok0] valid hdr proc_fields[OF ok1] get_fields[OF view, of ?w1]
    by (simp add: block_abs_def)
qed

section \<open>Blocks written by another version\<close>

text \<open>
  With a shorter header the manager treats the missing fields as absent: state OFF, time stamp 0,
  no process list; nothing is written.
\<close>

lemma short_header_reads:
  assumes "header_len m < 16"
  shows "get_state m w = STATE_OFF" "get_timestamp m w = 0" "get_proc_len m w = PROC_LEN_INVALID"
    "get_all_procs m w = []" "get_proc_cursor m w = 0"
    "set_state m v w = (Inr (), w)" "set_timestamp m t w = (Inr (), w)"
    "send_signals_and_cleanup m w = (Inr (0, 0), w)" "cleanup_invalid_processes m w = (Inr (-1), w)"
  using assms
  by (simp_all add: get_state_def get_timestamp_def get_proc_len_def get_all_procs_def set_state_def
      set_timestamp_def get_proc_cursor_def get_proc_offset_def is_field_available_def layout_defs
      send_signals_and_cleanup_def cleanup_invalid_processes_def)

section \<open>The semaphore is given back\<close>

text \<open>Every program of the manager, raising or not, leaves the semaphores as it found them.\<close>

definition sem_is :: "(nat \<Rightarrow> nat) \<Rightarrow> os \<Rightarrow> bool" where
  "sem_is v w \<longleftrightarrow> sem_value w = v"

lemma keeps_write_int: "keeps (sem_is v) (write_int m i x)"
  by (auto simp: keeps_def sem_is_def write_int_def split: option.splits)

lemma keeps_setters:
  "keeps (sem_is v) (set_state m x)" "keeps (sem_is v) (set_timestamp m x)"
  "keeps (sem_is v) (set_proc_at m i x)" "keeps (sem_is v) (set_proc_cursor m x)"
  "keeps (sem_is v) (set_proc_len m x)"
  by (auto simp: set_state_def set_timestamp_def set_proc_at_def set_proc_cursor_def set_proc_len_def
      Let_def keeps_def intro: keeps_run[OF keeps_write_int])

lemma keeps_lock:
  assumes "\<And>v. keeps (sem_is v) p" shows "keeps (sem_is v) (semaphore_lock m p)"
  unfolding keeps_def
proof (intro allI impI)
  fix w assume v: "sem_is v w"
  show "sem_is v (snd (semaphore_lock m p w))"
  proof (cases "sem m")
    case None
    obtain r w1 where run: "p w = (r, w1)" by (cases "p w")
    with keeps_run[OF assms v] None show ?thesis
      by (simp add: semaphore_lock_def acquire_def release_def finally_do_def andthen_def)
  next
    case (Some s)
    let ?w0 = "w\<lparr>sem_value := (sem_value w)(s := sem_value w s - 1)\<rparr>"
    obtain r w1 where run: "p ?w0 = (r, w1)" by (cases "p ?w0")
    have "sem_value w1 = sem_value ?w0"
      using keeps_run[OF assms, of "sem_value ?w0" ?w0] run by (simp add: sem_is_def)
    with Some run v show ?thesis
      by (simp add: semaphore_lock_def acquire_def release_def finally_do_def andthen_def sem_is_def)
  qed
qed

lemma keeps_signal_loop: "keeps (sem_is v) (signal_loop m is s c)"
proof (induction "is" arbitrary: s c)
  case Nil
  then show ?case by (simp add: keeps_def)
next
  case (Cons i js)
  have "keeps (sem_is v) (andthen (set_proc_at m i 0) (\<lambda>_. signal_loop m js s (c + 1)))"
    by (intro keeps_andthen keeps_setters Cons.IH)
  with Cons.IH show ?case
    by (simp add: keeps_def Let_def sem_is_def split: kill_result.split)
qed

lemma keeps_cleanup_loop: "keeps (sem_is v) (cleanup_loop m is c)"
proof (induction "is" arbitrary: c)
  case Nil
  then show ?case by (simp add: keeps_def)
next
  case (Cons i js)
  have "keeps (sem_is v) (andthen (set_proc_at m i 0) (\<lambda>_. cleanup_loop m js (c + 1)))"
    by (intro keeps_andthen keeps_setters Cons.IH)
  with Cons.IH show ?case
    by (simp add: keeps_def Let_def sem_is_def split: kill_result.split)
qed

lemma keeps_valid_loop: "keeps (sem_is v) (valid_loop ps acc)"
  by (induction ps arbitrary: acc) (auto simp: keeps_def split: kill_result.split)

lemma keeps_send_signals: "keeps (sem_is v) (send_signals_and_cleanup m)"
  by (auto simp: send_signals_and_cleanup_def Let_def keeps_def intro: keeps_run[OF keeps_signal_loop])

lemma keeps_cleanup: "keeps (sem_is v) (cleanup_invalid_processes m)"
  by (auto simp: cleanup_invalid_processes_def Let_def keeps_def intro: keeps_run[OF keeps_cleanup_loop])

lemma keeps_valid: "keeps (sem_is v) (get_valid_processes m)"
  by (auto simp: get_valid_processes_def keeps_def intro: keeps_run[OF keeps_valid_loop])

lemma keeps_add_process: "keeps (sem_is v) (add_process m pid)"
  unfolding add_process_def
proof (rule keeps_lock)
  fix u
  have "keeps (sem_is u) (andthen (set_proc_at m i pid) (\<lambda>_. andthen (set_proc_cursor m c) (\<lambda>_. ret i)))"
    for i c
    by (intro keeps_rules keeps_setters)
  then show "keeps (sem_is u) (\<lambda>w. let cursor = get_proc_cursor m w; n = get_proc_len m w
       in if n = PROC_LEN_INVALID then ret (- 1) w else if n \<le> 0 then ret (- 1) w
          else let index = cursor mod n
               in andthen (set_proc_at m index pid)
                    (\<lambda>_. andthen (set_proc_cursor m ((cursor + 1) mod n)) (\<lambda>_. ret index)) w)"
    by (simp add: keeps_def Let_def)
qed

lemma keeps_update: "keeps (sem_is v) (update_state_and_timestamp m x)"
  unfolding update_state_and_timestamp_def by (intro keeps_lock keeps_rules keeps_setters)

lemma keeps_init_header: "keeps (sem_is v) (init_header m)"
  unfolding init_header_def
proof (intro keeps_lock keeps_rules keeps_write_int)
  fix u
  have "keeps (sem_is u) (andthen (write_int m i x) (\<lambda>_. write_int m j y))" for i j x y
    by (intro keeps_rules keeps_write_int)
  then show "keeps (sem_is u) (\<lambda>w. let p = get_proc_offset m w
       in andthen (write_int m (p + PROC_LIST_REL_OFFSET_LEN) (int (max_procs m)))
            (\<lambda>_. write_int m (p + PROC_LIST_REL_OFFSET_CURSOR) 0) w)"
    by (simp add: keeps_def Let_def)
qed

lemma keeps_get_status: "keeps (sem_is v) (get_status m)"
  unfolding get_status_def by (intro keeps_lock keeps_rules keeps_cleanup keeps_valid)

lemma keeps_should_destroy: "keeps (sem_is v) (should_destroy m)"
proof -
  have "keeps (sem_is v) (andthen (get_valid_processes m) (\<lambda>valid. ret (st = STATE_OFF \<and> length valid = 0)))"
    for st
    by (intro keeps_rules keeps_valid)
  then show ?thesis by (simp add: should_destroy_def Let_def keeps_def)
qed

lemma keeps_send_control_command: "keeps (sem_is v) (send_control_command m on force sig)"
  unfolding send_control_command_def Let_def
proof (rule keeps_lock)
  fix u
  let ?t = "if on then STATE_ON else STATE_OFF"
  let ?fin = "\<lambda>(signaled, cleaned). ret (True, signaled, cleaned, True)"
  have fin: "keeps (sem_is u) (?fin r)" for r :: "int \<times> int"
    by (cases r) simp
  have "keeps (sem_is u) (andthen (set_state m ?t) (\<lambda>_. andthen (andthen (gets now) (set_timestamp m))
      (\<lambda>_. andthen (if sig then send_signals_and_cleanup m else ret (0, 0)) ?fin)))"
    by (intro keeps_rules keeps_setters keeps_send_signals fin)
  then show "keeps (sem_is u) (\<lambda>w. if \<not> force \<and> get_state m w = ?t then ret (True, 0, 0, False) w
     else andthen (set_state m ?t) (\<lambda>_. andthen (andthen (gets now) (set_timestamp m))
          (\<lambda>_. andthen (if sig then send_signals_and_cleanup m else ret (0, 0)) ?fin)) w)"
    by (rule keeps_guard)
qed

end
