(* ===== verification/Shm_Props.thy ===== *)
theory Shm_Props
  imports Shm_Life
begin

text \<open>
  The properties of the shared control block: field encoding, creation and attaching, the circular process
  list as the abstract \<open>ring\<close>, the control command, the status, the semaphore and the reads of a block that
  another version wrote.
\<close>

section \<open>A concrete block\<close>

definition demo_os :: os where
  "demo_os = \<lparr>shm_names = (\<lambda>_. None), shm_bytes = (\<lambda>_. fresh_bytes 2), next_shm = 1, sem_names = (\<lambda>_. None),
     sem_value = (\<lambda>_. 0), next_sem = 0, kill = (\<lambda>p. if p = 8 then ProcessLookupErr else KillOk), signalled = [], now = 5\<rparr>"

definition demo_shm :: shm_manager where
  "demo_shm = \<lparr>shm_name = ''/x_control'', sem_name = ''/x_semaphore'', max_procs = 2, memory_size = 44,
     shm = Some 0, mmap = Some 0, sem = None, version_mismatch = False, header_len = 28\<rparr>"

lemma demo_ok: "shm_ok demo_shm demo_os 0 2" "lock_free demo_shm demo_os"
  using fresh_bytes_ok(1)[of 2]
  by (simp_all add: shm_ok_def view_ok_def demo_shm_def demo_os_def HEADER_SIZE_def lock_free_def)

lemma demo_ring: "block_abs 2 (shm_bytes demo_os 0) = \<lparr>ring_on = False, ring_stamp = 0, ring_cursor = 0, ring_slots = [0, 0]\<rparr>"
  using fresh_bytes_ok(2)[of 2] by (simp add: demo_os_def numeral_2_eq_2)

lemma demo_fields: "now demo_os = 5" "kill demo_os p = (if p = 8 then ProcessLookupErr else KillOk)"
  "signalled demo_os = []"
  by (simp_all add: demo_os_def)

section \<open>Properties\<close>

text \<open>
  A 32-bit field that is written inside the block is read back as written, whatever the offset, and every
  field that does not overlap it is read as before.
\<close>

theorem write_then_read:
  assumes "mmap m = Some ob" "0 \<le> i" "nat i + 4 \<le> length (shm_bytes w ob)" "0 \<le> v" "v < 2 ^ 32"
  shows "\<exists>w'. write_int m i v w = (Inr (), w') \<and> read_int m i w' = v \<and>
    (\<forall>j. 0 \<le> j \<and> (j + 4 \<le> i \<or> i + 4 \<le> j) \<longrightarrow> read_int m j w' = read_int m j w)"
proof -
  have other: "cell_get (cell_put (nat i) v (shm_bytes w ob)) (nat j) = cell_get (shm_bytes w ob) (nat j)"
    if "0 \<le> j" "j + 4 \<le> i \<or> i + 4 \<le> j" for j
    using that assms(2) by (intro cell_get_put_other[OF assms(3)]) (auto simp: le_nat_iff nat_le_iff)
  show ?thesis
    using write_int_cell[OF assms] assms other
    by (auto simp: read_int_cell cell_get_put_same)
qed

theorem write_then_read_witness:
  "\<exists>w'. write_int demo_shm 40 4294967295 demo_os = (Inr (), w') \<and> read_int demo_shm 40 w' = 4294967295"
proof -
  have "length (shm_bytes demo_os 0) = 44" using demo_ok(1) by (simp add: shm_ok_def block_ok_def)
  then show ?thesis
    using write_then_read[of demo_shm 0 40 demo_os 4294967295] by (auto simp: demo_shm_def)
qed

text \<open>
  Connecting with \<^verbatim>\<open>create=True\<close> when no block exists makes a valid block that is OFF, with time stamp 0 and
  an empty process list; any manager of the same prefix that connects later attaches to that block, with its own
  maximum ignored, and sees the same state.
\<close>

theorem connect_creates_then_attaches:
  assumes m: "unconnected m" and none: "shm_names w (shm_name m) = None"
    and n: "0 < max_procs m" "int (max_procs m) < 2 ^ 32"
    and k: "unconnected k" "shm_name k = shm_name m"
  shows "\<exists>m' w'. connect m True w = (Inr (m', True), w') \<and> shm_ok m' w' (next_shm w) (max_procs m) \<and>
    block_abs (max_procs m) (shm_bytes w' (next_shm w)) =
      \<lparr>ring_on = False, ring_stamp = 0, ring_cursor = 0, ring_slots = replicate (max_procs m) 0\<rparr> \<and>
    (\<forall>create. \<exists>k' w''. connect k create w' = (Inr (k', True), w'') \<and>
       shm_ok k' w'' (next_shm w) (max_procs m) \<and> shm_bytes w'' = shm_bytes w')"
proof -
  obtain w' where w': "connect m True w = (Inr (connected_fresh m w, True), w')"
    "shm_ok (connected_fresh m w) w' (next_shm w) (max_procs m)"
    "shm_bytes w' (next_shm w) = fresh_bytes (max_procs m)" "shm_names w' (shm_name m) = Some (next_shm w)"
    using connect_creates[OF m none n] by blast
  have named: "shm_names w' (shm_name k) = Some (next_shm w)" using w'(4) k(2) by simp
  have blk: "block_ok (max_procs m) (shm_bytes w' (next_shm w))" using w'(2) by (simp add: shm_ok_def)
  have "\<exists>k' w''. connect k create w' = (Inr (k', True), w'') \<and>
       shm_ok k' w'' (next_shm w) (max_procs m) \<and> shm_bytes w'' = shm_bytes w'" for create
    using connect_attaches[OF k(1) named blk, of create] by blast
  then show ?thesis using w'(1-3) fresh_bytes_ok(2)[OF n] by auto
qed

theorem connect_creates_then_attaches_witness:
  "\<exists>m' w'. connect (new_manager None (Some 3) None None) True demo_os = (Inr (m', True), w') \<and> shm_ok m' w' 1 3"
proof -
  let ?m = "new_manager None (Some 3) None None" and ?k = "new_manager None (Some 7) None None"
  have "next_shm demo_os = 1" "max_procs ?m = 3" "shm_names demo_os (shm_name ?m) = None" "shm_name ?k = shm_name ?m"
    by (simp_all add: demo_os_def new_manager_def Let_def)
  with connect_creates_then_attaches[of ?m demo_os ?k, OF new_manager_unconnected _ _ _ new_manager_unconnected]
  show ?thesis by (auto simp del: One_nat_def)
qed

text \<open>
  Property C8. Registering a process is the addition to the abstract ring: the id goes to the slot under the cursor, the
  cursor moves on and wraps, the slot's index is returned, and the block stays valid.
\<close>

theorem add_process_refines:
  assumes "shm_ok m w ob n" "lock_free m w" "0 \<le> pid" "pid < 2 ^ 32"
  shows "\<exists>w'. add_process m pid w = (Inr (int (ring_cursor (block_abs n (shm_bytes w ob)))), w') \<and>
    shm_ok m w' ob n \<and> block_abs n (shm_bytes w' ob) = ring_add pid (block_abs n (shm_bytes w ob)) \<and>
    signalled w' = signalled w"
proof -
  have blk: "block_ok n (shm_bytes w ob)" using assms(1) by (simp add: shm_ok_def)
  have "cell_get (shm_bytes w ob) 32 = int (ring_cursor (block_abs n (shm_bytes w ob)))"
    using block_ok_cursor[OF blk] by (simp add: block_abs_def)
  then show ?thesis
    using add_process_run[OF assms] add_bytes_ok[OF blk assms(3,4)] assms(1) by (simp add: shm_ok_def)
qed

theorem add_process_refines_witness:
  "\<exists>w'. add_process demo_shm 77 demo_os = (Inr 0, w') \<and> ring_slots (block_abs 2 (shm_bytes w' 0)) = [77, 0]"
  using add_process_refines[OF demo_ok, of 77] by (auto simp: demo_ring ring_add_def)

text \<open>Several processes, one after the other.\<close>

fun add_processes :: "shm_manager \<Rightarrow> int list \<Rightarrow> os \<Rightarrow> os" where
  "add_processes m [] w = w"
| "add_processes m (p # ps) w = add_processes m ps (snd (add_process m p w))"

lemma add_processes_run:
  assumes "shm_ok m w ob n" "lock_free m w" "\<forall>p \<in> set ps. 0 \<le> p \<and> p < 2 ^ 32"
  shows "shm_ok m (add_processes m ps w) ob n \<and>
    block_abs n (shm_bytes (add_processes m ps w) ob) = ring_add_all ps (block_abs n (shm_bytes w ob))"
  using assms
proof (induction ps arbitrary: w)
  case (Cons p ps)
  have p: "0 \<le> p" "p < 2 ^ 32" using Cons.prems(3) by auto
  have blk: "block_ok n (shm_bytes w ob)" using Cons.prems(1) by (simp add: shm_ok_def)
  let ?w = "put_block ob (add_bytes n p (shm_bytes w ob)) (signalled w) w"
  have run: "snd (add_process m p w) = ?w" using add_process_run[OF Cons.prems(1,2) p] by simp
  have "shm_ok m ?w ob n" "lock_free m ?w"
    using Cons.prems(1,2) add_bytes_ok(1)[OF blk p] by (simp_all add: shm_ok_def lock_free_def split: option.splits)
  with Cons.IH[of ?w] Cons.prems(3) add_bytes_ok(2)[OF blk p] show ?case by (simp add: run)
qed simp

text \<open>
  Up to \<open>n\<close> processes that register one after the other each keep a slot of their own: the \<open>i\<close>th is found
  \<open>i\<close> places after the old cursor, around the end of the list. Only older entries are overwritten.
\<close>

theorem last_processes_kept:
  assumes "shm_ok m w ob n" "lock_free m w" "\<forall>p \<in> set ps. 0 \<le> p \<and> p < 2 ^ 32"
    and "i < length ps" "length ps \<le> n"
  shows "ring_slots (block_abs n (shm_bytes (add_processes m ps w) ob)) !
    ((ring_cursor (block_abs n (shm_bytes w ob)) + i) mod n) = ps ! i"
proof -
  have blk: "block_ok n (shm_bytes w ob)" using assms(1) by (simp add: shm_ok_def)
  have "ring_cursor (block_abs n (shm_bytes w ob)) < n"
    using block_ok_cursor[OF blk] by (simp add: block_abs_def nat_less_iff)
  with ring_add_all_slot[of "block_abs n (shm_bytes w ob)" i ps] assms(4,5)
  show ?thesis using add_processes_run[OF assms(1-3)] by simp
qed

theorem last_processes_kept_witness:
  "ring_slots (block_abs 2 (shm_bytes (add_processes demo_shm [7, 8] demo_os) 0)) ! 1 = 8"
  using last_processes_kept[OF demo_ok, of "[7, 8]" 1] by (simp add: demo_ring)

text \<open>
  Property C7. A control command that is forced or changes the state sets state and time stamp, clears the entries of
  processes that no longer exist, sends SIGUSR1 to exactly the listed processes that can be signalled, in the order of
  the list, and reports both counts.
\<close>

theorem control_command_effect:
  assumes "shm_ok m w ob n" "lock_free m w" "0 \<le> now w" "now w < 2 ^ 32"
    and "force \<or> ring_on (block_abs n (shm_bytes w ob)) \<noteq> is_start"
  shows "\<exists>w'. Shm.send_control_command m is_start force True w =
      (Inr (True, count_if (live_pid (kill w)) (ring_slots (block_abs n (shm_bytes w ob))),
            count_if (dead_pid (kill w)) (ring_slots (block_abs n (shm_bytes w ob))), True), w') \<and>
    shm_ok m w' ob n \<and>
    block_abs n (shm_bytes w' ob) =
      ring_reap (dead_pid (kill w)) (ring_set is_start (now w) (block_abs n (shm_bytes w ob))) \<and>
    signalled w' = signalled w @ map nat (filter (live_pid (kill w)) (ring_slots (block_abs n (shm_bytes w ob))))"
proof -
  have blk: "block_ok n (shm_bytes w ob)" using assms(1) by (simp add: shm_ok_def)
  show ?thesis
    unfolding send_control_command_run[OF assms]
    using command_bytes_ok[OF blk assms(3,4)] assms(1) by (simp add: shm_ok_def)
qed

theorem control_command_effect_witness:
  "\<exists>w'. Shm.send_control_command demo_shm True False True demo_os = (Inr (True, 0, 0, True), w') \<and>
     ring_on (block_abs 2 (shm_bytes w' 0)) \<and> ring_stamp (block_abs 2 (shm_bytes w' 0)) = 5"
  using control_command_effect[OF demo_ok, of False True]
  by (auto simp: demo_ring demo_fields live_pid_def dead_pid_def ring_reap_def ring_set_def)

text \<open>
  A command that is not forced and asks for the state the block already has does nothing: no field changes,
  no process is signalled, the semaphore is free again, and the result says that nothing changed.
\<close>

theorem control_command_idempotent:
  assumes "shm_ok m w ob n" "lock_free m w" "ring_on (block_abs n (shm_bytes w ob)) = is_start"
  shows "Shm.send_control_command m is_start False sig w = (Inr (True, 0, 0, False), w)"
  by (rule send_control_command_skip[OF assms])

theorem control_command_idempotent_witness:
  "Shm.send_control_command demo_shm False False True demo_os = (Inr (True, 0, 0, False), demo_os)"
  by (rule control_command_idempotent[OF demo_ok]) (simp add: demo_ring)

text \<open>
  The status reports the state, the time stamp, the cursor and the distinct live processes of the block in
  list order, and counts the entries it clears because their process is gone.
\<close>

theorem status_reports_ring:
  assumes "shm_ok m w ob n" "lock_free m w"
    and "\<forall>p \<in> set (ring_slots (block_abs n (shm_bytes w ob))). p > 0 \<longrightarrow> kill w (nat p) \<noteq> KillOverflow"
  shows "\<exists>w'. get_status m w =
    (Inr \<lparr>st_state = ring_on (block_abs n (shm_bytes w ob)), st_timestamp = ring_stamp (block_abs n (shm_bytes w ob)),
          st_cursor = int (ring_cursor (block_abs n (shm_bytes w ob))), st_list_len = int n,
          st_count = int (length (remdups (filter (live_pid (kill w)) (ring_slots (block_abs n (shm_bytes w ob)))))),
          st_processes = remdups (filter (live_pid (kill w)) (ring_slots (block_abs n (shm_bytes w ob)))),
          st_cleaned = count_if (dead_pid (kill w)) (ring_slots (block_abs n (shm_bytes w ob))),
          st_mismatch = version_mismatch m\<rparr>, w') \<and>
    shm_ok m w' ob n \<and> block_abs n (shm_bytes w' ob) = ring_reap (dead_pid (kill w)) (block_abs n (shm_bytes w ob))"
proof -
  have blk: "block_ok n (shm_bytes w ob)" using assms(1) by (simp add: shm_ok_def)
  have "block_ok n (reap_bytes (dead_pid (kill w)) [0..<n] (shm_bytes w ob))" by (rule reap_bytes_ok[OF blk]) auto
  then show ?thesis
    using get_status_run[OF assms] reap_all_abs[OF blk] assms(1) by (simp add: Let_def shm_ok_def)
qed

theorem status_reports_ring_witness:
  "\<exists>s w'. get_status demo_shm demo_os = (Inr s, w') \<and> st_list_len s = 2 \<and> st_count s = 0 \<and> \<not> st_state s"
  using status_reports_ring[OF demo_ok] by (auto simp: demo_ring demo_fields live_pid_def)

text \<open>
  Property C10. The five operations with a critical section, that is the initialisation of the header, the update of state and time stamp,
  the registration of a process, the control command and the status query, give the semaphore back, on the normal exit and on every
  raise: the value of every semaphore is the same before and after. (The methods \<^verbatim>\<open>lock\<close> and \<^verbatim>\<open>unlock\<close> are the
  two halves of such a section, \<open>acquire\<close> and \<open>release\<close>, and change the value on purpose.)
\<close>

theorem semaphore_balanced:
  "sem_value (snd (init_header m w)) = sem_value w \<and>
   sem_value (snd (add_process m pid w)) = sem_value w \<and>
   sem_value (snd (update_state_and_timestamp m st w)) = sem_value w \<and>
   sem_value (snd (get_status m w)) = sem_value w \<and>
   sem_value (snd (Shm.send_control_command m is_start force sig w)) = sem_value w"
  using keeps_run[OF keeps_add_process[of "sem_value w" m pid], of w]
      keeps_run[OF keeps_update[of "sem_value w" m st], of w] keeps_run[OF keeps_get_status[of "sem_value w" m], of w]
      keeps_run[OF keeps_init_header[of "sem_value w" m], of w]
      keeps_run[OF keeps_send_control_command[of "sem_value w" m is_start force sig], of w]
  by (simp add: sem_is_def)

text \<open>
  Looking up the valid processes lets the \<^verbatim>\<open>OverflowError\<close> of \<^verbatim>\<open>os.kill\<close> escape: one stored id that is no
  C int makes the lookup, and with it every status query, fail.
\<close>

theorem overflow_escapes:
  assumes "shm_ok m w ob n" "p \<in> set (ring_slots (block_abs n (shm_bytes w ob)))" "p > 0" "kill w (nat p) = KillOverflow"
  shows "get_valid_processes m w = (Inl OverflowErr, w)"
  unfolding get_valid_processes_def get_all_procs_run[OF assms(1)]
  using assms(2-) by (intro valid_loop_overflow) auto

theorem overflow_escapes_witness:
  "get_valid_processes demo_shm (snd (add_process demo_shm 4000000000 (demo_os\<lparr>kill := (\<lambda>_. KillOverflow)\<rparr>))) =
     (Inl OverflowErr, snd (add_process demo_shm 4000000000 (demo_os\<lparr>kill := (\<lambda>_. KillOverflow)\<rparr>)))"
proof -
  let ?w = "demo_os\<lparr>kill := (\<lambda>_. KillOverflow)\<rparr>"
  have ok: "shm_ok demo_shm ?w 0 2" "lock_free demo_shm ?w"
    using demo_ok by (simp_all add: shm_ok_def lock_free_def demo_shm_def)
  have blk: "block_ok 2 (shm_bytes ?w 0)" using ok by (simp add: shm_ok_def)
  have ring: "block_abs 2 (shm_bytes ?w 0) = \<lparr>ring_on = False, ring_stamp = 0, ring_cursor = 0, ring_slots = [0, 0]\<rparr>"
    using demo_ring by simp
  note run = add_process_run[OF ok, of 4000000000] and bytes = add_bytes_ok[OF blk, of 4000000000]
  show ?thesis
    by (rule overflow_escapes[where ob = 0 and n = 2 and p = 4000000000])
      (use run bytes ring ok in \<open>auto simp: shm_ok_def ring_add_def\<close>)
qed

text \<open>
  A block whose header is too short to hold the state, written by another version, is read as OFF with time
  stamp 0 and no processes, and no operation changes it.
\<close>

theorem short_header_is_inert:
  assumes "header_len m < 16"
  shows "get_state m w = STATE_OFF \<and> get_timestamp m w = 0 \<and> get_all_procs m w = [] \<and>
    set_state m v w = (Inr (), w) \<and> set_timestamp m t w = (Inr (), w) \<and>
    send_signals_and_cleanup m w = (Inr (0, 0), w) \<and> cleanup_invalid_processes m w = (Inr (-1), w)"
  using short_header_reads[OF assms] by blast

theorem short_header_is_inert_witness:
  "get_state (demo_shm\<lparr>header_len := 12\<rparr>) demo_os = STATE_OFF"
  using short_header_is_inert[of "demo_shm\<lparr>header_len := 12\<rparr>" demo_os] by simp

end
