(* ===== verification/Hook_Chain.thy ===== *)
theory Hook_Chain
  imports Prelude
begin

text \<open>
  The doubly linked list of hooks of \<^verbatim>\<open>ms_service_metric/core/hook/hook_chain.py\<close>.

  A chain owns a store of nodes with \<^verbatim>\<open>prev_node\<close> / \<^verbatim>\<open>next_node\<close> references; a node that was
  removed stays in the store, as the Python object stays alive in its \<^verbatim>\<open>Symbol\<close>, and only leaves
  \<open>members\<close> (\<^verbatim>\<open>_nodes\<close>). The payload \<open>'h\<close> of a node is its hook function; \<open>CallPrev\<close> is the
  initial \<^verbatim>\<open>self.call_prev\<close>. \<open>chain_list c xs\<close> says that the references represent the list \<open>xs\<close>
  of node ids from head to tail.
\<close>

section \<open>Nodes and chains\<close>

datatype 'h node_hook = CallPrev | HookFn 'h

record 'h hook_node =
  hook_func :: "'h node_hook"
  prev_node :: "nat option"
  next_node :: "nat option"

record 'h hook_chain =
  chain_head :: "nat option"
  chain_tail :: "nat option"
  members :: "nat set"
  nodes :: "nat \<Rightarrow> 'h hook_node"
  next_node_id :: nat
  has_helper :: bool
  is_replaced :: bool

definition blank_node :: "'h hook_node" where
  "blank_node = \<lparr>hook_func = CallPrev, prev_node = None, next_node = None\<rparr>"

definition new_chain :: "'h hook_chain" where
  "new_chain = \<lparr>chain_head = None, chain_tail = None, members = {}, nodes = (\<lambda>_. blank_node),
     next_node_id = 0, has_helper = False, is_replaced = False\<rparr>"

definition set_node :: "nat \<Rightarrow> ('h hook_node \<Rightarrow> 'h hook_node) \<Rightarrow> 'h hook_chain \<Rightarrow> 'h hook_chain" where
  "set_node i f c = c\<lparr>nodes := (nodes c)(i := f (nodes c i))\<rparr>"

definition set_hook_func :: "nat \<Rightarrow> 'h \<Rightarrow> 'h hook_chain \<Rightarrow> 'h hook_chain" where
  "set_hook_func i h = set_node i (hook_func_update (\<lambda>_. HookFn h))"

text \<open>The linking part of \<^verbatim>\<open>add_chain_node\<close>, under the lock.\<close>

definition link_node :: "bool \<Rightarrow> 'h hook_chain \<Rightarrow> nat \<times> 'h hook_chain" where
  "link_node insert_at_head c =
     (let i = next_node_id c;
          c1 = c\<lparr>next_node_id := Suc i\<rparr>;
          c2 = (case (insert_at_head, chain_head c) of
              (True, Some h) \<Rightarrow>
                set_node h (prev_node_update (\<lambda>_. Some i))
                  (set_node i (\<lambda>_. \<lparr>hook_func = CallPrev, prev_node = None, next_node = Some h\<rparr>) c1)
                \<lparr>chain_head := Some i\<rparr>
            | _ \<Rightarrow>
                (let c3 = set_node i (\<lambda>_. \<lparr>hook_func = CallPrev, prev_node = chain_tail c, next_node = None\<rparr>) c1
                 in case chain_tail c of
                      Some t \<Rightarrow> set_node t (next_node_update (\<lambda>_. Some i)) c3 \<lparr>chain_tail := Some i\<rparr>
                    | None \<Rightarrow> c3\<lparr>chain_head := Some i, chain_tail := Some i\<rparr>))
      in (i, c2\<lparr>members := insert i (members c)\<rparr>))"

text \<open>
  \<^verbatim>\<open>replace_chain\<close>: \<open>built\<close> is whether \<^verbatim>\<open>HookHelper(self.ori_func, ...)\<close> can be built and
  \<open>install\<close> whether \<^verbatim>\<open>helper.replace()\<close> succeeds; the result is \<open>False\<close> when it raised.
\<close>

definition replace_chain :: "bool \<Rightarrow> bool \<Rightarrow> 'h hook_chain \<Rightarrow> bool \<times> 'h hook_chain" where
  "replace_chain built install c =
     (if chain_tail c = None then (True, c)
      else if \<not> has_helper c \<and> \<not> built then (False, c)
      else let c1 = c\<lparr>has_helper := True\<rparr>
           in if is_replaced c1 then (True, c1)
              else if install then (True, c1\<lparr>is_replaced := True\<rparr>) else (False, c1))"

definition add_chain_node :: "bool \<Rightarrow> bool \<Rightarrow> bool \<Rightarrow> 'h hook_chain \<Rightarrow> nat option \<times> 'h hook_chain" where
  "add_chain_node built install insert_at_head c =
     (let is_empty = (chain_tail c = None); (i, c1) = link_node insert_at_head c
      in if is_empty
         then let (ok, c2) = replace_chain built install c1 in (if ok then Some i else None, c2)
         else (Some i, c1))"

definition remove_chain_node :: "nat \<Rightarrow> 'h hook_chain \<Rightarrow> bool \<times> 'h hook_chain" where
  "remove_chain_node i c =
     (if i \<notin> members c then (False, c)
      else let p = prev_node (nodes c i); n = next_node (nodes c i);
               c1 = (case p of Some j \<Rightarrow> set_node j (next_node_update (\<lambda>_. n)) c | None \<Rightarrow> c\<lparr>chain_head := n\<rparr>);
               c2 = (case n of Some j \<Rightarrow> set_node j (prev_node_update (\<lambda>_. p)) c1 | None \<Rightarrow> c1\<lparr>chain_tail := p\<rparr>)
           in (True, c2\<lparr>members := members c - {i}\<rparr>))"

section \<open>The list a chain represents\<close>

definition first_or :: "nat list \<Rightarrow> nat option \<Rightarrow> nat option" where
  "first_or xs d = (case xs of [] \<Rightarrow> d | x # _ \<Rightarrow> Some x)"

fun last_or :: "nat option \<Rightarrow> nat list \<Rightarrow> nat option" where
  "last_or d [] = d"
| "last_or d (x # xs) = last_or (Some x) xs"

fun segment :: "(nat \<Rightarrow> 'h hook_node) \<Rightarrow> nat option \<Rightarrow> nat list \<Rightarrow> nat option \<Rightarrow> bool" where
  "segment h p [] q \<longleftrightarrow> True"
| "segment h p (x # xs) q \<longleftrightarrow>
     prev_node (h x) = p \<and> next_node (h x) = first_or xs q \<and> segment h (Some x) xs q"

definition chain_list :: "'h hook_chain \<Rightarrow> nat list \<Rightarrow> bool" where
  "chain_list c xs \<longleftrightarrow> distinct xs \<and> members c = set xs \<and> (\<forall>x \<in> set xs. x < next_node_id c) \<and>
     chain_head c = first_or xs None \<and> chain_tail c = last_or None xs \<and> segment (nodes c) None xs None"

lemma first_or_simps [simp]: "first_or [] d = d" "first_or (x # xs) d = Some x"
  "first_or (xs @ ys) d = first_or xs (first_or ys d)"
  by (simp_all add: first_or_def split: list.split)

lemma last_or_append [simp]: "last_or d (xs @ ys) = last_or (last_or d xs) ys"
  by (induction xs arbitrary: d) simp_all

lemma last_or_None: "last_or d xs = None \<longleftrightarrow> d = None \<and> xs = []"
  by (induction xs arbitrary: d) auto

lemma segment_append:
  "segment h p (xs @ ys) q \<longleftrightarrow> segment h p xs (first_or ys q) \<and> segment h (last_or p xs) ys q"
  by (induction xs arbitrary: p) (auto simp: first_or_def split: list.splits)

lemma segment_upd [simp]: "i \<notin> set xs \<Longrightarrow> segment (h(i := n)) p xs q = segment h p xs q"
  by (induction xs arbitrary: p) auto

lemma chain_list_new: "chain_list new_chain []"
  by (simp add: chain_list_def new_chain_def)

lemma chain_list_set_hook: "chain_list (set_hook_func i h c) xs = chain_list c xs"
proof -
  have "segment (nodes (set_hook_func i h c)) p ys q = segment (nodes c) p ys q" for p ys q
    by (induction ys arbitrary: p) (simp_all add: set_hook_func_def set_node_def)
  then show ?thesis by (simp add: chain_list_def set_hook_func_def set_node_def)
qed

lemma chain_list_helper [simp]:
  "chain_list (c\<lparr>has_helper := a\<rparr>) xs = chain_list c xs" "chain_list (c\<lparr>is_replaced := a\<rparr>) xs = chain_list c xs"
  by (simp_all add: chain_list_def)

lemma chain_list_empty: "chain_list c xs \<Longrightarrow> chain_tail c = None \<longleftrightarrow> xs = []"
  by (auto simp: chain_list_def last_or_None)

lemma chain_list_unique: "chain_list c xs \<Longrightarrow> chain_list c ys \<Longrightarrow> xs = ys"
proof -
  assume a: "chain_list c xs" "chain_list c ys"
  have gen: "segment h p us None \<Longrightarrow> segment h p vs None \<Longrightarrow> first_or us None = first_or vs None \<Longrightarrow> us = vs"
    for h :: "nat \<Rightarrow> 'a hook_node" and p us vs
  proof (induction us arbitrary: p vs)
    case Nil
    then show ?case by (cases vs) simp_all
  next
    case (Cons u us)
    obtain vs' where vs: "vs = u # vs'" using Cons.prems(3) by (cases vs) auto
    show ?case using Cons.prems Cons.IH[of "Some u" vs'] vs by simp
  qed
  show "xs = ys" using a by (intro gen[of "nodes c" None]) (simp_all add: chain_list_def)
qed

section \<open>Adding and removing nodes\<close>

lemma link_head:
  assumes "chain_list c xs"
  shows "fst (link_node True c) = next_node_id c"
    and "chain_list (snd (link_node True c)) (next_node_id c # xs)"
proof -
  let ?i = "next_node_id c"
  have fresh: "?i \<notin> set xs" using assms by (auto simp: chain_list_def)
  show "fst (link_node True c) = ?i" by (simp add: link_node_def Let_def)
  show "chain_list (snd (link_node True c)) (?i # xs)"
  proof (cases xs)
    case Nil
    then show ?thesis
      using assms by (auto simp: chain_list_def link_node_def Let_def set_node_def)
  next
    case (Cons y ys)
    have seg: "segment (nodes c) None (y # ys) None" "distinct (y # ys)" "?i \<notin> set (y # ys)"
      using assms fresh Cons by (simp_all add: chain_list_def)
    have "segment ((nodes c)(?i := n, y := (nodes c y)\<lparr>prev_node := Some ?i\<rparr>)) (Some ?i) (y # ys) None" for n
      using seg by simp
    with Cons assms fresh show ?thesis
      by (auto simp: chain_list_def link_node_def Let_def set_node_def)
  qed
qed

lemma link_tail:
  assumes "chain_list c xs"
  shows "fst (link_node False c) = next_node_id c"
    and "chain_list (snd (link_node False c)) (xs @ [next_node_id c])"
proof -
  let ?i = "next_node_id c"
  have fresh: "?i \<notin> set xs" using assms by (auto simp: chain_list_def)
  show "fst (link_node False c) = ?i" by (simp add: link_node_def Let_def)
  show "chain_list (snd (link_node False c)) (xs @ [?i])"
  proof (cases xs rule: rev_cases)
    case Nil
    then show ?thesis
      using assms by (auto simp: chain_list_def link_node_def Let_def set_node_def)
  next
    case (snoc ys y)
    have seg: "segment (nodes c) None (ys @ [y]) None" "distinct (ys @ [y])" "?i \<notin> set (ys @ [y])"
      using assms fresh snoc by (simp_all add: chain_list_def)
    then have "segment ((nodes c)(?i := n, y := (nodes c y)\<lparr>next_node := Some ?i\<rparr>)) None (ys @ [y]) (Some ?i)" for n
      by (simp add: segment_append)
    with snoc assms fresh show ?thesis
      by (auto simp: chain_list_def link_node_def Let_def set_node_def segment_append)
  qed
qed

lemma remove_absent: "chain_list c xs \<Longrightarrow> i \<notin> set xs \<Longrightarrow> remove_chain_node i c = (False, c)"
  by (simp add: remove_chain_node_def chain_list_def)

lemma remove_split:
  assumes "chain_list c (as @ i # bs)"
  shows "fst (remove_chain_node i c)" "chain_list (snd (remove_chain_node i c)) (as @ bs)"
proof -
  have seg: "segment (nodes c) None as (Some i)" "segment (nodes c) (Some i) bs None"
    "prev_node (nodes c i) = last_or None as" "next_node (nodes c i) = first_or bs None"
    and dist: "distinct (as @ i # bs)" and mem: "members c = set (as @ i # bs)"
    using assms by (auto simp: chain_list_def segment_append)
  show "fst (remove_chain_node i c)" using mem by (simp add: remove_chain_node_def Let_def)
  have goal: "members c - {i} = set (as @ bs)" using mem dist by auto
  consider "as = []" "bs = []" | n bs' where "as = []" "bs = n # bs'" |
    as' p where "as = as' @ [p]" "bs = []" | as' p n bs' where "as = as' @ [p]" "bs = n # bs'"
    by (metis list.exhaust rev_exhaust)
  then show "chain_list (snd (remove_chain_node i c)) (as @ bs)"
  proof cases
    case 1
    then show ?thesis
      using assms seg goal mem by (auto simp: chain_list_def remove_chain_node_def Let_def set_node_def)
  next
    case 2
    then have "segment ((nodes c)(n := (nodes c n)\<lparr>prev_node := None\<rparr>)) None bs None"
      using seg dist by simp
    with 2 show ?thesis
      using assms seg goal mem by (auto simp: chain_list_def remove_chain_node_def Let_def set_node_def)
  next
    case 3
    then have "segment ((nodes c)(p := (nodes c p)\<lparr>next_node := None\<rparr>)) None as None"
      using seg dist by (simp add: segment_append)
    with 3 show ?thesis
      using assms seg goal mem by (auto simp: chain_list_def remove_chain_node_def Let_def set_node_def)
  next
    case 4
    let ?h = "(nodes c)(p := (nodes c p)\<lparr>next_node := Some n\<rparr>, n := (nodes c n)\<lparr>prev_node := Some p\<rparr>)"
    have "segment ?h None as (Some n)" "segment ?h (Some p) bs None"
      using 4 seg dist by (auto simp: segment_append)
    with 4 show ?thesis
      using assms seg goal mem dist
      by (auto simp: chain_list_def remove_chain_node_def Let_def set_node_def segment_append)
  qed
qed

lemma filter_not_mem: "i \<notin> set as \<Longrightarrow> filter (\<lambda>x. x \<noteq> i) as = as"
  by (induction as) auto

lemma remove_present:
  assumes "chain_list c xs" "i \<in> set xs"
  shows "fst (remove_chain_node i c)" "chain_list (snd (remove_chain_node i c)) (filter (\<lambda>x. x \<noteq> i) xs)"
proof -
  obtain as bs where xs: "xs = as @ i # bs" using assms(2) by (meson split_list)
  have "i \<notin> set as" "i \<notin> set bs" using assms(1) xs by (simp_all add: chain_list_def)
  then have "filter (\<lambda>x. x \<noteq> i) as = as" "filter (\<lambda>x. x \<noteq> i) bs = bs"
    by (simp_all add: filter_not_mem)
  with xs have f: "filter (\<lambda>x. x \<noteq> i) xs = as @ bs" by simp
  show "fst (remove_chain_node i c)" "chain_list (snd (remove_chain_node i c)) (filter (\<lambda>x. x \<noteq> i) xs)"
    unfolding f using remove_split[of c as i bs] assms(1) xs by simp_all
qed

lemma replace_chain_list: "chain_list (snd (replace_chain a b c)) xs = chain_list c xs"
  by (simp add: replace_chain_def Let_def)

lemma add_chain_snd:
  "snd (add_chain_node a b at_head c) =
     (if chain_tail c = None then snd (replace_chain a b (snd (link_node at_head c)))
      else snd (link_node at_head c))"
  by (simp add: add_chain_node_def Let_def split: prod.split)

lemma add_chain_list:
  assumes "chain_list c xs"
  shows "chain_list (snd (add_chain_node a b at_head c))
           (if at_head then next_node_id c # xs else xs @ [next_node_id c])"
  using link_head(2)[OF assms] link_tail(2)[OF assms]
  by (simp add: add_chain_snd replace_chain_list)

lemma add_chain_node_id:
  "fst (add_chain_node a b at_head c) \<in> {Some (next_node_id c), None}"
  by (auto simp: add_chain_node_def link_node_def Let_def split: prod.splits bool.splits option.splits)

section \<open>Properties\<close>

text \<open>
  Adding a node keeps the linked structure consistent and adds exactly the new node, in front
  with \<^verbatim>\<open>insert_at_head\<close> and behind otherwise, whether or not the replacement of the entry point succeeds.
\<close>

theorem add_node_represents:
  "chain_list c xs \<Longrightarrow> chain_list (snd (add_chain_node built install at_head c))
     (if at_head then next_node_id c # xs else xs @ [next_node_id c])"
  by (rule add_chain_list)

theorem add_node_represents_witness:
  "chain_list (snd (add_chain_node True False True (new_chain :: nat hook_chain))) [0]"
  using add_node_represents[OF chain_list_new, of True False True] by (simp add: new_chain_def)

text \<open>
  Removing a node reports whether it was in the chain, takes exactly that node out and keeps the order
  of the others; a second removal changes nothing.
\<close>

theorem remove_node_represents:
  "chain_list c xs \<Longrightarrow> fst (remove_chain_node i c) = (i \<in> set xs) \<and>
     chain_list (snd (remove_chain_node i c)) (filter (\<lambda>x. x \<noteq> i) xs) \<and>
     remove_chain_node i (snd (remove_chain_node i c)) = (False, snd (remove_chain_node i c))"
  using remove_present[of c xs i] remove_absent[of c xs i]
    remove_absent[of "snd (remove_chain_node i c)" "filter (\<lambda>x. x \<noteq> i) xs" i]
  by (cases "i \<in> set xs") (simp_all add: filter_not_mem)

theorem remove_node_represents_witness:
  "chain_list (snd (remove_chain_node 0 (snd (link_node True (snd (link_node True (new_chain :: nat hook_chain))))))) [1]"
proof -
  let ?c = "snd (link_node True (new_chain :: nat hook_chain))"
  have "next_node_id ?c = 1" by (simp add: new_chain_def link_node_def Let_def set_node_def)
  then show ?thesis
    using remove_node_represents[OF link_head(2)[OF link_head(2)[OF chain_list_new]], of 0, where 'a = nat]
    by (simp add: new_chain_def)
qed

end
