(* ===== verification/Hook_Exec.thy ===== *)
theory Hook_Exec
  imports Hook_Chain
begin

text \<open>
  What a call of a hooked function does: \<^verbatim>\<open>HookNode.call_prev\<close>, \<^verbatim>\<open>HookChain._call_ori_func\<close> and the
  closure of \<^verbatim>\<open>exec_chain_closure\<close> of \<^verbatim>\<open>core/hook/hook_chain.py\<close>, and the hook function that
  \<^verbatim>\<open>Symbol._build_final_hook\<close> of \<^verbatim>\<open>core/symbol.py\<close> installs in a node.

  A Python callable maps its argument to a change of the state: the rest of the world \<open>'w\<close> and the
  chain's \<^verbatim>\<open>_last_result\<close>. Exceptions are values that are raised; \<open>is_exc\<close> tells
  \<^verbatim>\<open>isinstance(v, Exception)\<close>, the values that \<^verbatim>\<open>except Exception\<close> catches. The payload of a node
  is a hook function that is given the node's \<^verbatim>\<open>ori_wrap\<close>. The recursion of \<^verbatim>\<open>call_prev\<close> has the
  interpreter's recursion limit as its fuel; running out raises the parameter \<open>rec_err\<close>.
\<close>

datatype 'v outcome = Ret 'v | Raise 'v

datatype 'v last_result = NoResult | LastResult 'v

type_synonym ('a, 'v, 'w) plain = "'a \<Rightarrow> 'w \<Rightarrow> 'v outcome \<times> 'w"
type_synonym ('a, 'v, 'w) callable = "('a, 'v, 'w \<times> 'v last_result) plain"
type_synonym ('a, 'v, 'w) hook = "('a, 'v, 'w) callable \<Rightarrow> ('a, 'v, 'w) callable"

section \<open>Running a chain\<close>

definition direct :: "('a, 'v, 'w) plain \<Rightarrow> ('a, 'v, 'w) callable" where
  "direct ori a s = (case s of (w, l) \<Rightarrow> (case ori a w of (r, w') \<Rightarrow> (r, (w', l))))"

definition call_ori_func :: "('v \<Rightarrow> bool) \<Rightarrow> ('a, 'v, 'w) plain \<Rightarrow> ('a, 'v, 'w) callable" where
  "call_ori_func is_exc ori a s = (case s of (w, l) \<Rightarrow>
     (case ori a w of
        (Ret v, w') \<Rightarrow> (Ret v, (w', LastResult v))
      | (Raise e, w') \<Rightarrow> (Raise e, (w', if is_exc e then LastResult e else l))))"

fun run_node ::
  "('a, 'v, 'w) hook hook_chain \<Rightarrow> ('a, 'v, 'w) callable \<Rightarrow> 'v \<Rightarrow> nat \<Rightarrow> nat \<Rightarrow> ('a, 'v, 'w) callable" where
  "run_node c call0 rec_err 0 i = (\<lambda>a s. (Raise rec_err, s))"
| "run_node c call0 rec_err (Suc k) i =
     (let call_prev = (case prev_node (nodes c i) of Some p \<Rightarrow> run_node c call0 rec_err k p | None \<Rightarrow> call0)
      in case hook_func (nodes c i) of CallPrev \<Rightarrow> call_prev | HookFn f \<Rightarrow> f call_prev)"

definition execute_hook_chain ::
  "('v \<Rightarrow> bool) \<Rightarrow> 'v \<Rightarrow> nat \<Rightarrow> ('a, 'v, 'w) hook hook_chain \<Rightarrow> ('a, 'v, 'w) plain \<Rightarrow> ('a, 'v, 'w) callable" where
  "execute_hook_chain is_exc rec_err fuel c ori a s =
     (let s0 = (fst s, NoResult);
          run = (case chain_tail c of None \<Rightarrow> direct ori a s0
                 | Some t \<Rightarrow> run_node c (call_ori_func is_exc ori) rec_err fuel t a s0)
      in case run of
           (Ret v, s1) \<Rightarrow> (Ret v, s1)
         | (Raise e, s1) \<Rightarrow>
             (if \<not> is_exc e then (Raise e, s1)
              else (case snd s1 of
                  NoResult \<Rightarrow> direct ori a s1
                | LastResult v \<Rightarrow> (if is_exc v then (Raise v, s1) else (Ret v, s1)))))"

section \<open>The hook function of a symbol\<close>

text \<open>A \<^verbatim>\<open>None\<close> among several wrap functions is called like any other and raises \<open>type_err\<close>.\<close>

definition create_layer ::
  "'v \<Rightarrow> ('a, 'v, 'w) hook option \<Rightarrow> ('a, 'v, 'w) callable \<Rightarrow> ('a, 'v, 'w) callable" where
  "create_layer type_err wrap_func inner_layer =
     (case wrap_func of None \<Rightarrow> (\<lambda>a s. (Raise type_err, s)) | Some f \<Rightarrow> f inner_layer)"

definition build_sync_wrap_chain ::
  "'v \<Rightarrow> ('a, 'v, 'w) callable \<Rightarrow> ('a, 'v, 'w) hook option list \<Rightarrow> ('a, 'v, 'w) callable" where
  "build_sync_wrap_chain type_err ori_wrap wrap_funcs =
     (case wrap_funcs of
        [w] \<Rightarrow> (if w = None then ori_wrap else create_layer type_err w ori_wrap)
      | _ \<Rightarrow> fold (create_layer type_err) (rev wrap_funcs) ori_wrap)"

definition build_wrap_chain ::
  "'v \<Rightarrow> ('a, 'v, 'w) callable \<Rightarrow> ('a, 'v, 'w) hook option list \<Rightarrow> ('a, 'v, 'w) callable" where
  "build_wrap_chain type_err ori_wrap wrap_funcs =
     (if wrap_funcs = [] then ori_wrap else build_sync_wrap_chain type_err ori_wrap wrap_funcs)"

text \<open>\<^verbatim>\<open>set_last_result\<close> around the injected function; \<^verbatim>\<open>except Exception\<close> lets other raises pass.\<close>

definition set_last_result :: "'v \<Rightarrow> 'w \<times> 'v last_result \<Rightarrow> 'w \<times> 'v last_result" where
  "set_last_result v s = (fst s, LastResult v)"

definition build_hook_with_injection ::
  "('v \<Rightarrow> bool) \<Rightarrow> ('a, 'v, 'w) callable \<Rightarrow> ('a, 'v, 'w) callable" where
  "build_hook_with_injection is_exc injected_func a s =
     (case injected_func a s of
        (Ret v, s') \<Rightarrow> (Ret v, set_last_result v s')
      | (Raise e, s') \<Rightarrow> (Raise e, if is_exc e then set_last_result e s' else s'))"

text \<open>
  \<^verbatim>\<open>_build_final_hook(target, ori_wrap, ...)\<close>: the parameter \<^verbatim>\<open>ori_wrap\<close> is overwritten by
  \<^verbatim>\<open>target\<close> in the first statement. \<open>inject\<close> is \<^verbatim>\<open>inject_function(target, context_funcs)\<close>.
\<close>

definition build_final_hook ::
  "('v \<Rightarrow> bool) \<Rightarrow> 'v \<Rightarrow> ('c list \<Rightarrow> ('a, 'v, 'w) callable) \<Rightarrow> ('a, 'v, 'w) plain \<Rightarrow>
   ('a, 'v, 'w) hook option list \<Rightarrow> 'c list \<Rightarrow> ('a, 'v, 'w) hook" where
  "build_final_hook is_exc type_err inject target wrap_funcs context_funcs ori_wrap =
     (let ori_wrap1 = direct target;
          ori_wrap2 = (if context_funcs \<noteq> [] then build_hook_with_injection is_exc (inject context_funcs)
                       else ori_wrap1)
      in if wrap_funcs \<noteq> [] then build_wrap_chain type_err ori_wrap2 wrap_funcs else ori_wrap2)"

section \<open>A chain runs as the composition of its hooks\<close>

definition hook_of :: "('a, 'v, 'w) hook hook_chain \<Rightarrow> nat \<Rightarrow> ('a, 'v, 'w) hook" where
  "hook_of c i = (case hook_func (nodes c i) of CallPrev \<Rightarrow> (\<lambda>f. f) | HookFn f \<Rightarrow> f)"

definition composed :: "('a, 'v, 'w) hook hook_chain \<Rightarrow> nat list \<Rightarrow> ('a, 'v, 'w) callable \<Rightarrow> ('a, 'v, 'w) callable" where
  "composed c xs call0 = fold (hook_of c) xs call0"

lemma run_node_Suc:
  "run_node c call0 r (Suc k) i = hook_of c i
     (case prev_node (nodes c i) of Some p \<Rightarrow> run_node c call0 r k p | None \<Rightarrow> call0)"
  by (simp add: hook_of_def Let_def split: node_hook.split)

lemma run_segment:
  "segment (nodes c) None (xs @ [x]) q \<Longrightarrow> length xs < fuel \<Longrightarrow>
   run_node c call0 r fuel x = composed c (xs @ [x]) call0"
proof (induction xs arbitrary: x q fuel rule: rev_induct)
  case Nil
  then obtain k where k: "fuel = Suc k" by (cases fuel) auto
  from Nil show ?case unfolding k run_node_Suc by (simp add: composed_def)
next
  case (snoc y ys)
  then obtain k where k: "fuel = Suc k" by (cases fuel) auto
  have seg: "segment (nodes c) None (ys @ [y]) (Some x)" "prev_node (nodes c x) = Some y"
    using snoc.prems(1) by (auto simp: segment_append)
  have "run_node c call0 r k y = composed c (ys @ [y]) call0"
    by (rule snoc.IH[OF seg(1)]) (use snoc.prems(2) k in simp)
  then show ?case unfolding k run_node_Suc using seg(2) by (simp add: composed_def)
qed

lemma chain_tail_last: "chain_list c (xs @ [x]) \<Longrightarrow> chain_tail c = Some x"
  by (simp add: chain_list_def)

lemma run_chain:
  assumes "chain_list c xs" "xs \<noteq> []" "length xs \<le> fuel"
  shows "chain_tail c = Some (last xs)"
    and "run_node c call0 r fuel (last xs) = composed c xs call0"
proof -
  obtain ys y where xs: "xs = ys @ [y]" using assms(2) by (cases xs rule: rev_cases) auto
  show "chain_tail c = Some (last xs)" using chain_tail_last assms(1) xs by force
  have "segment (nodes c) None (ys @ [y]) None" using assms(1) xs by (simp add: chain_list_def)
  then show "run_node c call0 r fuel (last xs) = composed c xs call0"
    using run_segment[of c ys y None fuel call0 r] assms(3) xs by simp
qed

lemma execute_empty:
  assumes "chain_list c []"
  shows "execute_hook_chain is_exc r fuel c ori a s =
    (case ori a (fst s) of
       (Ret v, w) \<Rightarrow> (Ret v, (w, NoResult))
     | (Raise e, w) \<Rightarrow> (if is_exc e then direct ori a (w, NoResult) else (Raise e, (w, NoResult))))"
  using assms by (simp add: execute_hook_chain_def chain_list_def direct_def Let_def split: prod.split outcome.split)

definition guarded ::
  "('v \<Rightarrow> bool) \<Rightarrow> ('a, 'v, 'w) plain \<Rightarrow> 'a \<Rightarrow> 'v outcome \<times> ('w \<times> 'v last_result) \<Rightarrow>
   'v outcome \<times> ('w \<times> 'v last_result)" where
  "guarded is_exc ori a run = (case run of
      (Ret v, s1) \<Rightarrow> (Ret v, s1)
    | (Raise e, s1) \<Rightarrow> (if \<not> is_exc e then (Raise e, s1)
        else (case snd s1 of NoResult \<Rightarrow> direct ori a s1
              | LastResult v \<Rightarrow> (if is_exc v then (Raise v, s1) else (Ret v, s1)))))"

lemma execute_chain:
  assumes "chain_list c xs" "xs \<noteq> []" "length xs \<le> fuel"
  shows "execute_hook_chain is_exc r fuel c ori a s =
    guarded is_exc ori a (composed c xs (call_ori_func is_exc ori) a (fst s, NoResult))"
  using run_chain[OF assms] by (simp add: execute_hook_chain_def guarded_def Let_def)

section \<open>Hooks that only observe\<close>

text \<open>
  The world is the application's state \<open>'x\<close> and the hooks' own state \<open>'m\<close> (metrics, clocks). An
  observer may raise an \<^verbatim>\<open>Exception\<close> before it calls the inner function or after it; it calls the
  inner function at most once, with the same argument, and passes on what that returned.
\<close>

type_synonym ('a, 'v, 'x, 'm) app_hook = "('a, 'v, 'x \<times> 'm) hook"

definition observer :: "('v \<Rightarrow> bool) \<Rightarrow> ('a, 'v, 'x, 'm) app_hook \<Rightarrow> bool" where
  "observer is_exc f \<longleftrightarrow> (\<forall>inner a x m l.
     (\<exists>e m'. is_exc e \<and> f inner a ((x, m), l) = (Raise e, ((x, m'), l))) \<or>
     (\<exists>m1 r x2 m2 l2 m3. inner a ((x, m1), l) = (r, ((x2, m2), l2)) \<and>
        (f inner a ((x, m), l) = (r, ((x2, m3), l2)) \<or>
         (\<exists>e. is_exc e \<and> f inner a ((x, m), l) = (Raise e, ((x2, m3), l2))))))"

text \<open>A wrap handler of the usual shape, e.g. the timer of \<^verbatim>\<open>handlers/builtin.py\<close>.\<close>

definition observe ::
  "('a \<Rightarrow> 'm \<Rightarrow> 'v option \<times> 'm) \<Rightarrow> ('a \<Rightarrow> 'v \<Rightarrow> 'm \<Rightarrow> 'v option \<times> 'm) \<Rightarrow> ('a, 'v, 'x, 'm) app_hook" where
  "observe pre post inner a s = (case s of ((x, m), l) \<Rightarrow>
     (case pre a m of
        (Some e, m1) \<Rightarrow> (Raise e, ((x, m1), l))
      | (None, m1) \<Rightarrow>
          (case inner a ((x, m1), l) of
             (Raise e, s2) \<Rightarrow> (Raise e, s2)
           | (Ret v, ((x2, m2), l2)) \<Rightarrow>
               (case post a v m2 of
                  (Some e, m3) \<Rightarrow> (Raise e, ((x2, m3), l2))
                | (None, m3) \<Rightarrow> (Ret v, ((x2, m3), l2))))))"

lemma observer_observe:
  assumes "\<And>a m e m'. pre a m = (Some e, m') \<Longrightarrow> is_exc e"
    and "\<And>a v m e m'. post a v m = (Some e, m') \<Longrightarrow> is_exc e"
  shows "observer is_exc (observe pre post)"
  unfolding observer_def
proof (intro allI, goal_cases)
  case (1 inner a x m l)
  obtain p m1 where pre: "pre a m = (p, m1)" by (cases "pre a m")
  obtain r x2 m2 l2 where inner: "inner a ((x, m1), l) = (r, ((x2, m2), l2))" by (metis prod.collapse)
  show ?case
  proof (cases p)
    case (Some e)
    then show ?thesis using pre assms(1) by (auto simp: observe_def)
  next
    case None
    show ?thesis
    proof (cases r)
      case (Raise e)
      then have "observe pre post inner a ((x, m), l) = (r, ((x2, m2), l2))"
        using pre None inner by (simp add: observe_def)
      with inner show ?thesis by blast
    next
      case (Ret v)
      obtain q m3 where post: "post a v m2 = (q, m3)" by (cases "post a v m2")
      have "observe pre post inner a ((x, m), l) =
          (case q of None \<Rightarrow> r | Some e \<Rightarrow> Raise e, ((x2, m3), l2))"
        using pre None inner Ret post by (cases q) (simp_all add: observe_def)
      moreover have "is_exc e" if "q = Some e" for e using assms(2) post that by blast
      ultimately show ?thesis using inner by (cases q; simp only: option.case) blast+
    qed
  qed
qed

definition lift_app :: "('a, 'v, 'x) plain \<Rightarrow> ('a, 'v, 'x \<times> 'm) plain" where
  "lift_app ori a w = (case w of (x, m) \<Rightarrow> (case ori a x of (r, x') \<Rightarrow> (r, (x', m))))"

fun outcome_value :: "'v outcome \<Rightarrow> 'v" where
  "outcome_value (Ret v) = v" | "outcome_value (Raise v) = v"

text \<open>The original either raises an \<^verbatim>\<open>Exception\<close> or returns a value that is no exception object.\<close>

definition ordinary :: "('v \<Rightarrow> bool) \<Rightarrow> 'v outcome \<Rightarrow> bool" where
  "ordinary is_exc r = (case r of Ret v \<Rightarrow> \<not> is_exc v | Raise e \<Rightarrow> is_exc e)"

definition observed ::
  "('v \<Rightarrow> bool) \<Rightarrow> ('a, 'v, 'x) plain \<Rightarrow> 'a \<Rightarrow> 'x \<Rightarrow> 'v outcome \<times> (('x \<times> 'm) \<times> 'v last_result) \<Rightarrow> bool" where
  "observed is_exc ori a x res \<longleftrightarrow>
     (\<exists>e m. is_exc e \<and> res = (Raise e, ((x, m), NoResult))) \<or>
     (\<exists>r x' o' m. ori a x = (r, x') \<and> res = (o', ((x', m), LastResult (outcome_value r))) \<and>
        (o' = r \<or> (\<exists>e. is_exc e \<and> o' = Raise e)))"

lemma observed_ori:
  assumes "ordinary is_exc (fst (ori a x))"
  shows "observed is_exc ori a x (call_ori_func is_exc (lift_app ori) a ((x, m), NoResult))"
  using assms by (auto simp: observed_def call_ori_func_def lift_app_def ordinary_def
      split: prod.splits outcome.splits)

lemma observed_hook:
  assumes f: "observer is_exc f" and inner: "\<And>m. observed is_exc ori a x (inner a ((x, m), NoResult))"
  shows "observed is_exc ori a x (f inner a ((x, m), NoResult))"
  using f[unfolded observer_def, rule_format, of inner a x m NoResult]
proof (elim disjE exE conjE)
  fix m1 r x2 m2 l2 m3
  assume *: "inner a ((x, m1), NoResult) = (r, (x2, m2), l2)"
    "f inner a ((x, m), NoResult) = (r, (x2, m3), l2)"
  show ?thesis using inner[of m1] unfolding * observed_def by auto
next
  fix m1 r x2 m2 l2 m3 e
  assume *: "inner a ((x, m1), NoResult) = (r, (x2, m2), l2)" "is_exc e"
    "f inner a ((x, m), NoResult) = (Raise e, (x2, m3), l2)"
  show ?thesis using inner[of m1] *(2) unfolding *(1,3) observed_def by auto
qed (auto simp: observed_def)

lemma observed_composed:
  assumes "\<And>i. i \<in> set xs \<Longrightarrow> observer is_exc (hook_of c i)"
    and "\<And>m. observed is_exc ori a x (call0 a ((x, m), NoResult))"
  shows "observed is_exc ori a x (composed c xs call0 a ((x, m), NoResult))"
  using assms
proof (induction xs arbitrary: call0 m)
  case Nil
  then show ?case by (simp add: composed_def)
next
  case (Cons i xs)
  have "observed is_exc ori a x (hook_of c i call0 a ((x, m), NoResult))" for m
    by (rule observed_hook) (use Cons.prems in simp_all)
  with Cons show ?case by (simp add: composed_def)
qed

lemma guarded_observed:
  assumes "ordinary is_exc (fst (ori a x))" "observed is_exc ori a x run"
  shows "\<exists>m l. guarded is_exc (lift_app ori) a run = (fst (ori a x), ((snd (ori a x), m), l))"
proof -
  obtain r x' where "ori a x = (r, x')" by (cases "ori a x")
  then show ?thesis
    using assms by (cases r) (auto simp: observed_def guarded_def direct_def lift_app_def ordinary_def)
qed

lemma hook_of_observer: "observer is_exc (\<lambda>f. f)"
  unfolding observer_def
proof (intro allI, goal_cases)
  case (1 inner a x m l)
  obtain r x2 m2 l2 where "inner a ((x, m), l) = (r, ((x2, m2), l2))" by (metis prod.collapse)
  then show ?case by blast
qed

section \<open>Hooks of symbols\<close>

lemma final_hook_ignores_chain:
  "build_final_hook is_exc te inject target ws cs f = build_final_hook is_exc te inject target ws cs g"
  by (simp add: build_final_hook_def)

lemma composed_last: "composed c (xs @ [i]) f = hook_of c i (composed c xs f)"
  by (simp add: composed_def)

definition passes_raise :: "('a, 'v, 'w) hook \<Rightarrow> bool" where
  "passes_raise f \<longleftrightarrow> (\<forall>inner a s e s'. inner a s = (Raise e, s') \<longrightarrow> f inner a s = (Raise e, s'))"

lemma wraps_pass_raise:
  assumes "\<forall>w \<in> set ws. \<exists>f. w = Some f \<and> passes_raise f" "inner a s = (Raise e, s')"
  shows "fold (create_layer te) ws inner a s = (Raise e, s')"
  using assms
proof (induction ws arbitrary: inner)
  case Nil
  then show ?case by simp
next
  case (Cons w ws)
  obtain f where w: "w = Some f" "passes_raise f" using Cons.prems(1) by auto
  then have "create_layer te w inner a s = (Raise e, s')"
    using Cons.prems(2) unfolding create_layer_def passes_raise_def by (simp only: option.case)
  then show ?case using Cons.IH[of "create_layer te w inner"] Cons.prems(1) by simp
qed

lemma wrap_chain_pass_raise:
  assumes "\<forall>w \<in> set ws. \<exists>f. w = Some f \<and> passes_raise f" "inner a s = (Raise e, s')"
  shows "build_wrap_chain te inner ws a s = (Raise e, s')"
  using wraps_pass_raise[of "rev ws" inner a s e s' te] wraps_pass_raise[of ws inner a s e s' te] assms
  by (auto simp: build_wrap_chain_def build_sync_wrap_chain_def split: list.split)

section \<open>Properties\<close>

text \<open>
  Property C3. With one or more hooks in the chain, all of them observing (each calls on once, with the arguments it got, and passes on what
  comes back, but may raise an Exception of its own before or after it calls on), and with at least as much recursion depth as there are
  hooks, a hooked call has the outcome and the effect on the application of one call of the original function. The original
  returns a value that is no exception object or raises an Exception, not another BaseException.
\<close>

theorem hooks_are_transparent:
  assumes "chain_list c xs" "xs \<noteq> []" "length xs \<le> fuel"
    and "\<forall>i \<in> set xs. observer is_exc (hook_of c i)" "ordinary is_exc (fst (ori a x))"
  shows "\<exists>m' l'. execute_hook_chain is_exc rec_err fuel c (lift_app ori) a ((x, m), l) =
           (fst (ori a x), ((snd (ori a x), m'), l'))"
proof -
  have "observed is_exc ori a x (composed c xs (call_ori_func is_exc (lift_app ori)) a ((x, m), NoResult))"
    using assms(4) observed_ori[of is_exc ori a x, OF assms(5)] by (intro observed_composed) simp_all
  from guarded_observed[OF assms(5) this] show ?thesis
    using execute_chain[OF assms(1-3)] by simp
qed

definition failing_hook :: "(unit, int, nat, nat) app_hook" where
  "failing_hook = observe (\<lambda>_ m. (Some (- 1), Suc m)) (\<lambda>_ _ m. (None, m))"

definition failing_chain :: "(unit, int, nat \<times> nat) hook hook_chain" where
  "failing_chain = set_hook_func 0 failing_hook (snd (link_node True new_chain))"

lemma failing_chain_list: "chain_list failing_chain [0]"
  using link_head(2)[OF chain_list_new]
  by (simp add: failing_chain_def chain_list_set_hook new_chain_def)

lemma failing_hook_of: "hook_of failing_chain 0 = failing_hook"
  by (simp add: failing_chain_def hook_of_def set_hook_func_def set_node_def)

theorem hooks_are_transparent_witness:
  "\<exists>m' l'. execute_hook_chain (\<lambda>v. v < 0) (- 9) 1000 failing_chain
     (lift_app (\<lambda>_ x. (Ret 7, x + 1))) () ((5, 0), NoResult) = (Ret 7, ((6, m'), l'))"
proof -
  have "observer (\<lambda>v. v < (0 :: int)) failing_hook"
    unfolding failing_hook_def by (rule observer_observe) auto
  then have "\<forall>i \<in> set [0]. observer (\<lambda>v. v < (0 :: int)) (hook_of failing_chain i)"
    by (simp add: failing_hook_of)
  from hooks_are_transparent[OF failing_chain_list _ _ this, of 1000 "\<lambda>_ x. (Ret 7, x + 1)" "()" 5 "- 9" 0 NoResult]
  show ?thesis by (simp add: ordinary_def)
qed

text \<open>
  The closure stays installed when the last hook is removed, and then a raising original function is
  called a second time, on the state the first call left.
\<close>

theorem unhooked_call_runs_twice:
  assumes "chain_list c []" "ori a w = (Raise e, w1)" "is_exc e"
  shows "execute_hook_chain is_exc rec_err fuel c ori a (w, l) = direct ori a (w1, NoResult)"
  using execute_empty[OF assms(1)] assms(2,3) by simp

theorem unhooked_call_runs_twice_witness:
  "execute_hook_chain (\<lambda>v. v < 0) (- 9) 1000 (new_chain :: (unit, int, nat) hook hook_chain)
     (\<lambda>_ n. (Raise (- 1), Suc n)) () (0, NoResult) = (Raise (- 1), (2, NoResult))"
  using unhooked_call_runs_twice[OF chain_list_new, of "\<lambda>_ n. (Raise (- 1 :: int), Suc n)" "()" 0 "- 1" 1 "\<lambda>v. v < 0" "- 9" 1000 NoResult]
  by (simp add: direct_def)

text \<open>
  A symbol whose handlers are all wrap handlers calls the original function directly, so the chain never
  learns that it was called: if the original raises, it is called a second time.
\<close>

theorem wrap_only_runs_twice:
  assumes "chain_list c (xs @ [i])" "length xs < fuel"
    and "hook_func (nodes c i) = HookFn (build_final_hook is_exc te inject ori ws [])"
    and "\<forall>f \<in> set ws. \<exists>g. f = Some g \<and> passes_raise g"
    and "ori a w = (Raise e, w1)" "is_exc e"
  shows "execute_hook_chain is_exc rec_err fuel c ori a (w, l) = direct ori a (w1, NoResult)"
proof -
  have dir: "direct ori a (w, NoResult) = (Raise e, (w1, NoResult))"
    using assms(5) by (simp add: direct_def)
  have "composed c (xs @ [i]) (call_ori_func is_exc ori) a (w, NoResult) = (Raise e, (w1, NoResult))"
    using assms(3) wrap_chain_pass_raise[of ws "direct ori", OF assms(4) dir] dir
    by (simp add: composed_last hook_of_def build_final_hook_def Let_def)
  then show ?thesis
    using execute_chain[OF assms(1), of fuel is_exc rec_err ori a] assms(2,6) by (simp add: guarded_def)
qed

definition wrap_chain_example :: "(unit, int, nat) hook hook_chain" where
  "wrap_chain_example = set_hook_func 0
     (build_final_hook (\<lambda>v. v < 0) (- 8) (\<lambda>_ :: unit list. direct (\<lambda>_ n. (Ret 0, n)))
       (\<lambda>_ n. (Raise (- 1), Suc n)) [Some (\<lambda>f. f)] []) (snd (link_node True new_chain))"

theorem wrap_only_runs_twice_witness:
  "execute_hook_chain (\<lambda>v. v < 0) (- 9) 1000 wrap_chain_example
     (\<lambda>_ n. (Raise (- 1), Suc n)) () (0, NoResult) = (Raise (- 1), (2, NoResult))"
proof -
  have l: "chain_list wrap_chain_example ([] @ [0])"
    using link_head(2)[OF chain_list_new]
    by (simp add: wrap_chain_example_def chain_list_set_hook new_chain_def)
  have h: "hook_func (nodes wrap_chain_example 0) = HookFn
     (build_final_hook (\<lambda>v. v < 0) (- 8) (\<lambda>_ :: unit list. direct (\<lambda>_ n. (Ret 0, n)))
       (\<lambda>_ n. (Raise (- 1), Suc n)) [Some (\<lambda>f. f)] [])"
    by (simp add: wrap_chain_example_def set_hook_func_def set_node_def)
  show ?thesis
    using wrap_only_runs_twice[OF l _ h, of 1000 0 "- 1" 1 "- 9" "()" NoResult]
    by (simp add: passes_raise_def direct_def)
qed

text \<open>
  Only the symbol at the tail of a chain runs: what it installs does not call the nodes before it, so a
  call does the same as with that symbol alone.
\<close>

theorem later_symbols_bypassed:
  assumes "chain_list c (xs @ [i])" "length xs < fuel" "chain_list d [j]"
    and "hook_func (nodes c i) = HookFn (build_final_hook is_exc te inject ori ws cs)"
    and "hook_func (nodes d j) = HookFn (build_final_hook is_exc te inject ori ws cs)"
  shows "execute_hook_chain is_exc rec_err fuel c ori a s = execute_hook_chain is_exc rec_err fuel d ori a s"
proof -
  let ?o = "call_ori_func is_exc ori"
  have "composed c (xs @ [i]) ?o = composed d ([] @ [j]) ?o"
    unfolding composed_last using assms(4,5)
    by (simp add: hook_of_def final_hook_ignores_chain[of is_exc te inject ori ws cs "composed c xs ?o" "composed d [] ?o"])
  then show ?thesis
    using execute_chain[OF assms(1), of fuel is_exc rec_err ori a s]
      execute_chain[OF assms(3), of fuel is_exc rec_err ori a s] assms(2) by simp
qed

theorem later_symbols_bypassed_witness:
  "execute_hook_chain (\<lambda>v. v < 0) (- 9) 1000
     (set_hook_func 1 (\<lambda>f a s. (Raise (- 2), s)) (snd (link_node True wrap_chain_example))) (\<lambda>_ n. (Raise (- 1), Suc n)) () (0, NoResult) =
   execute_hook_chain (\<lambda>v. v < 0) (- 9) 1000 wrap_chain_example (\<lambda>_ n. (Raise (- 1), Suc n)) () (0, NoResult)"
proof -
  let ?c = "set_hook_func 1 (\<lambda>f a s. (Raise (- 2), s)) (snd (link_node True wrap_chain_example))"
  have l: "chain_list wrap_chain_example [0]"
    using link_head(2)[OF chain_list_new]
    by (simp add: wrap_chain_example_def chain_list_set_hook new_chain_def)
  have n: "next_node_id wrap_chain_example = 1"
    by (simp add: wrap_chain_example_def set_hook_func_def set_node_def new_chain_def link_node_def Let_def)
  have c: "chain_list ?c ([1] @ [0])"
    using link_head(2)[OF l] by (simp add: chain_list_set_hook n)
  have h: "hook_func (nodes wrap_chain_example 0) = HookFn
     (build_final_hook (\<lambda>v. v < 0) (- 8) (\<lambda>_ :: unit list. direct (\<lambda>_ n. (Ret 0, n)))
       (\<lambda>_ n. (Raise (- 1), Suc n)) [Some (\<lambda>f. f)] [])"
    by (simp add: wrap_chain_example_def set_hook_func_def set_node_def)
  have "chain_head wrap_chain_example = Some 0" using l by (simp add: chain_list_def)
  then have hc: "hook_func (nodes ?c 0) = hook_func (nodes wrap_chain_example 0)"
    by (simp add: set_hook_func_def set_node_def link_node_def Let_def n)
  show ?thesis
    using later_symbols_bypassed[OF c _ l hc[unfolded h] h, of 1000] by simp
qed

end
