(* ===== verification/Hook_Helper.thy ===== *)
theory Hook_Helper
  imports Prelude
begin

text \<open>
  Replacing an attribute by a hook and putting it back, \<^verbatim>\<open>HookHelper\<close> of
  \<^verbatim>\<open>ms_service_metric/core/hook/hook_helper.py\<close>.

  Modules, classes and instances are \<open>container\<close>s in a store: each has its own attributes and, for a
  class or an instance, the classes searched after it. What \<^verbatim>\<open>importlib.import_module\<close> returns and
  which container an attribute on the way to the target denotes are the arguments \<open>import_module\<close> and
  \<open>child\<close>; \<open>settable\<close> says for which containers \<^verbatim>\<open>setattr\<close> does not raise.
\<close>

datatype 'f attr = Plain 'f | StaticM 'f | ClassM 'f | BoundTo nat 'f

datatype kind = ModuleObj | ClassObj | InstanceObj

record 'f container =
  obj_kind :: kind
  own :: "(string, 'f attr) dict"
  search :: "nat list"

type_synonym 'f store = "nat \<Rightarrow> 'f container"

datatype target = FunctionT string "string list" | MethodT nat string | OtherT

record 'f hook_helper =
  target_obj :: nat
  target_name :: string
  new_func :: 'f
  original_func :: "'f attr option"
  original_descriptor :: "'f attr option"
  replaced :: bool

text \<open>\<^verbatim>\<open>inspect.getattr_static(o, name)\<close> for a class: the first class on its search path that has it.\<close>

fun find_attr :: "'f store \<Rightarrow> nat list \<Rightarrow> string \<Rightarrow> 'f attr option" where
  "find_attr st [] name = None"
| "find_attr st (o' # os) name = (case dict_get (own (st o')) name of Some a \<Rightarrow> Some a | None \<Rightarrow> find_attr st os name)"

definition getattr_static :: "'f store \<Rightarrow> nat \<Rightarrow> string \<Rightarrow> 'f attr option" where
  "getattr_static st o' name = find_attr st (o' # search (st o')) name"

fun bind_class :: "nat \<Rightarrow> 'f attr \<Rightarrow> 'f attr" where
  "bind_class c (Plain f) = Plain f"
| "bind_class c (StaticM f) = Plain f"
| "bind_class c (ClassM f) = BoundTo c f"
| "bind_class c (BoundTo x f) = BoundTo x f"

fun bind_instance :: "nat \<Rightarrow> nat \<Rightarrow> 'f attr \<Rightarrow> 'f attr" where
  "bind_instance x c (Plain f) = BoundTo x f"
| "bind_instance x c (StaticM f) = Plain f"
| "bind_instance x c (ClassM f) = BoundTo c f"
| "bind_instance x c (BoundTo y f) = BoundTo y f"

definition getattr :: "'f store \<Rightarrow> nat \<Rightarrow> string \<Rightarrow> 'f attr option" where
  "getattr st x name = (case obj_kind (st x) of
       ModuleObj \<Rightarrow> dict_get (own (st x)) name
     | ClassObj \<Rightarrow> map_option (bind_class x) (getattr_static st x name)
     | InstanceObj \<Rightarrow> (case dict_get (own (st x)) name of
           Some a \<Rightarrow> Some a
         | None \<Rightarrow> map_option (bind_instance x (case search (st x) of c # _ \<Rightarrow> c | [] \<Rightarrow> x))
                      (find_attr st (search (st x)) name)))"

definition setattr :: "nat \<Rightarrow> string \<Rightarrow> 'f attr \<Rightarrow> 'f store \<Rightarrow> 'f store" where
  "setattr x name a st = st(x := (st x)\<lparr>own := dict_set name a (own (st x))\<rparr>)"

text \<open>\<^verbatim>\<open>_parse_target\<close>; \<open>None\<close> is any exception of the constructor.\<close>

fun walk :: "(nat \<Rightarrow> string \<Rightarrow> nat option) \<Rightarrow> nat \<Rightarrow> string list \<Rightarrow> nat option" where
  "walk child x [] = Some x"
| "walk child x (p # ps) = (case child x p of None \<Rightarrow> None | Some y \<Rightarrow> walk child y ps)"

definition parse_target ::
  "(string \<Rightarrow> nat option) \<Rightarrow> (nat \<Rightarrow> string \<Rightarrow> nat option) \<Rightarrow> target \<Rightarrow> (nat \<times> string) option" where
  "parse_target import_module child target = (case target of
       MethodT self_obj name \<Rightarrow> Some (self_obj, name)
     | FunctionT module_name qualname \<Rightarrow>
         (case import_module module_name of
            None \<Rightarrow> None
          | Some m \<Rightarrow>
              (let parts = filter (\<lambda>p. p \<noteq> ''<locals>'') qualname
               in case walk child m (butlast parts) of
                    None \<Rightarrow> None
                  | Some x \<Rightarrow> (if parts = [] then None else Some (x, last parts))))
     | OtherT \<Rightarrow> None)"

definition new_helper ::
  "(string \<Rightarrow> nat option) \<Rightarrow> (nat \<Rightarrow> string \<Rightarrow> nat option) \<Rightarrow> target \<Rightarrow> 'f \<Rightarrow> 'f hook_helper option" where
  "new_helper import_module child target f =
     map_option (\<lambda>(x, name). \<lparr>target_obj = x, target_name = name, new_func = f, original_func = None,
        original_descriptor = None, replaced = False\<rparr>) (parse_target import_module child target)"

definition wrap_descriptor :: "'f hook_helper \<Rightarrow> 'f \<Rightarrow> 'f attr" where
  "wrap_descriptor h f = (case original_descriptor h of
       Some (StaticM _) \<Rightarrow> StaticM f
     | Some (ClassM _) \<Rightarrow> ClassM f
     | _ \<Rightarrow> Plain f)"

text \<open>
  \<^verbatim>\<open>replace\<close> and \<^verbatim>\<open>recover\<close>; the flag is \<open>False\<close> when a \<^verbatim>\<open>HookError\<close> is raised. A classmethod is
  replaced by a wrapper that drops \<^verbatim>\<open>cls\<close> before it calls the hook.
\<close>

definition replace_attr ::
  "(nat \<Rightarrow> bool) \<Rightarrow> 'f hook_helper \<Rightarrow> 'f store \<Rightarrow> bool \<times> 'f hook_helper \<times> 'f store" where
  "replace_attr settable h st =
     (if replaced h then (True, h, st)
      else let x = target_obj h; name = target_name h;
               descriptor = (if obj_kind (st x) = ClassObj then getattr_static st x name else original_descriptor h)
           in if obj_kind (st x) = ClassObj \<and> descriptor = None then (False, h, st)
              else let h1 = h\<lparr>original_descriptor := descriptor\<rparr>
                   in case getattr st x name of
                        None \<Rightarrow> (False, h1, st)
                      | Some f \<Rightarrow>
                          (let h2 = h1\<lparr>original_func := Some f\<rparr>
                           in if settable x
                              then (True, h2\<lparr>replaced := True\<rparr>, setattr x name (wrap_descriptor h2 (new_func h2)) st)
                              else (False, h2, st)))"

definition recover_attr ::
  "(nat \<Rightarrow> bool) \<Rightarrow> 'f hook_helper \<Rightarrow> 'f store \<Rightarrow> bool \<times> 'f hook_helper \<times> 'f store" where
  "recover_attr settable h st =
     (if \<not> replaced h then (True, h, st)
      else let x = target_obj h; name = target_name h; saved =
             (case original_descriptor h of Some d \<Rightarrow> Some d | None \<Rightarrow> original_func h)
           in if saved \<noteq> None \<and> \<not> settable x then (False, h, st)
              else (True, h\<lparr>replaced := False, original_func := None, original_descriptor := None\<rparr>,
                    (case saved of Some a \<Rightarrow> setattr x name a st | None \<Rightarrow> st)))"

section \<open>Lemmas\<close>

definition fresh_helper :: "'f hook_helper \<Rightarrow> bool" where
  "fresh_helper h \<longleftrightarrow> \<not> replaced h \<and> original_func h = None \<and> original_descriptor h = None"

lemma new_helper_fresh: "new_helper im ch t f = Some h \<Longrightarrow> fresh_helper h \<and> new_func h = f"
  by (auto simp: new_helper_def fresh_helper_def)

lemma own_setattr: "own (setattr x name a st y) = (if y = x then dict_set name a (own (st y)) else own (st y))"
  and search_setattr: "search (setattr x name a st y) = search (st y)"
  and kind_setattr: "obj_kind (setattr x name a st y) = obj_kind (st y)"
  by (simp_all add: setattr_def)

lemmas setattr_simps = own_setattr search_setattr kind_setattr

text \<open>What a replacement saves, and what the attribute is while it is in force.\<close>

lemma replace_saves:
  assumes h: "fresh_helper h" and run: "replace_attr settable h st = (True, h', st')"
  shows "replaced h'" "target_obj h' = target_obj h" "target_name h' = target_name h"
    and "\<exists>a. st' = setattr (target_obj h) (target_name h) a st \<and>
      (a = Plain (new_func h) \<or> a = StaticM (new_func h) \<or> a = ClassM (new_func h))"
    and "obj_kind (st (target_obj h)) = ClassObj \<Longrightarrow>
      original_descriptor h' = getattr_static st (target_obj h) (target_name h) \<and> original_descriptor h' \<noteq> None"
    and "obj_kind (st (target_obj h)) \<noteq> ClassObj \<Longrightarrow> original_descriptor h' = None \<and>
      original_func h' = getattr st (target_obj h) (target_name h) \<and> original_func h' \<noteq> None"
    and "settable (target_obj h)"
  using h run
  by (auto simp: replace_attr_def fresh_helper_def Let_def wrap_descriptor_def
      split: if_splits option.splits attr.splits)

lemma find_attr_same:
  "(\<And>y. y \<in> set ys \<Longrightarrow> own (st' y) = own (st y)) \<Longrightarrow> find_attr st' ys name = find_attr st ys name"
  by (induction ys) (auto split: option.split)

lemma dict_set_twice: "dict_set k v (dict_set k u d) = dict_set k v d"
  by (induction d) auto

lemma dict_set_same: "dict_get d k = Some v \<Longrightarrow> dict_set k v d = d"
  by (induction d) (auto split: if_splits)

lemma setattr_twice: "setattr x n b (setattr x n a st) = setattr x n b st"
  by (simp add: setattr_def dict_set_twice)

lemma setattr_same: "dict_get (own (st x)) n = Some a \<Longrightarrow> setattr x n a st = st"
  by (simp add: setattr_def dict_set_same)

lemma recover_after_replace:
  assumes h: "fresh_helper h" and run: "replace_attr settable h st = (True, h', st')"
  shows "\<exists>a. (if obj_kind (st (target_obj h)) = ClassObj then getattr_static st (target_obj h) (target_name h)
              else getattr st (target_obj h) (target_name h)) = Some a \<and>
     recover_attr settable h' st' = (True, h'\<lparr>replaced := False, original_func := None, original_descriptor := None\<rparr>,
        setattr (target_obj h) (target_name h) a st)"
proof -
  let ?x = "target_obj h" and ?n = "target_name h"
  note saves = replace_saves[OF h run]
  obtain b where st': "st' = setattr ?x ?n b st" using saves(4) by blast
  show ?thesis
  proof (cases "obj_kind (st ?x) = ClassObj")
    case True
    then obtain d where d: "original_descriptor h' = Some d" "getattr_static st ?x ?n = Some d"
      using saves(5) by (metis not_None_eq)
    with True saves(1-3,7) st' show ?thesis by (simp add: recover_attr_def Let_def setattr_twice)
  next
    case False
    then obtain f where f: "original_descriptor h' = None" "original_func h' = Some f" "getattr st ?x ?n = Some f"
      using saves(6) by (metis not_None_eq)
    with False saves(1-3,7) st' show ?thesis by (simp add: recover_attr_def Let_def setattr_twice)
  qed
qed

lemma getattr_put_back:
  assumes "(if obj_kind (st x) = ClassObj then getattr_static st x n else getattr st x n) = Some a"
    and "x \<notin> set (search (st x))"
  shows "getattr (setattr x n a st) x m = getattr st x m"
proof -
  have fa: "find_attr (setattr x n a st) (search (st x)) m = find_attr st (search (st x)) m"
    using assms(2) by (intro find_attr_same) (auto simp: own_setattr)
  show ?thesis
    using assms(1) fa
    by (cases "obj_kind (st x)") (auto simp: getattr_def getattr_static_def setattr_simps split: option.splits)
qed

section \<open>Properties\<close>

text \<open>
  After \<^verbatim>\<open>recover\<close> every attribute of the container is read as before \<^verbatim>\<open>replace\<close>, static and
  class methods included; no other container changed, and if the container itself defined the attribute, the whole store
  is as before. (An inherited attribute leaves a copy in the container's own attributes.)
\<close>

theorem recover_undoes_replace:
  assumes "fresh_helper h" "replace_attr settable h st = (True, h1, st1)"
    and "target_obj h \<notin> set (search (st (target_obj h)))"
  shows "\<exists>h2 st2. recover_attr settable h1 st1 = (True, h2, st2) \<and> fresh_helper h2 \<and>
     (\<forall>m. getattr st2 (target_obj h) m = getattr st (target_obj h) m) \<and>
     (\<forall>y. y = target_obj h \<or> st2 y = st y) \<and>
     (dict_get (own (st (target_obj h))) (target_name h) = None \<or> st2 = st)"
proof -
  let ?x = "target_obj h" and ?n = "target_name h"
  obtain a where a: "(if obj_kind (st ?x) = ClassObj then getattr_static st ?x ?n else getattr st ?x ?n) = Some a"
    and rec: "recover_attr settable h1 st1 =
      (True, h1\<lparr>replaced := False, original_func := None, original_descriptor := None\<rparr>, setattr ?x ?n a st)"
    using recover_after_replace[OF assms(1,2)] by blast
  have "dict_get (own (st ?x)) ?n = None \<or> setattr ?x ?n a st = st"
    using a by (cases "dict_get (own (st ?x)) ?n"; cases "obj_kind (st ?x)")
      (auto simp: getattr_static_def getattr_def setattr_same)
  moreover have "\<forall>y. y = ?x \<or> setattr ?x ?n a st y = st y" by (simp add: setattr_def)
  ultimately show ?thesis
    unfolding rec using getattr_put_back[OF a assms(3)] by (auto simp: fresh_helper_def)
qed

definition store_example :: "nat store" where
  "store_example = (\<lambda>x. if x = 0 then \<lparr>obj_kind = ClassObj, own = [(''run'', StaticM 4)], search = [1]\<rparr>
     else \<lparr>obj_kind = ClassObj, own = [(''stop'', ClassM 5)], search = []\<rparr>)"

definition helper_example :: "nat hook_helper" where
  "helper_example = \<lparr>target_obj = 0, target_name = ''run'', new_func = 9, original_func = None,
     original_descriptor = None, replaced = False\<rparr>"

theorem recover_undoes_replace_witness:
  "getattr (snd (snd (replace_attr (\<lambda>_. True) helper_example store_example))) 0 ''run'' = Some (Plain 9) \<and>
   snd (snd (recover_attr (\<lambda>_. True) (fst (snd (replace_attr (\<lambda>_. True) helper_example store_example)))
      (snd (snd (replace_attr (\<lambda>_. True) helper_example store_example))))) = store_example"
  using recover_undoes_replace[of helper_example "\<lambda>_. True" store_example
      "fst (snd (replace_attr (\<lambda>_. True) helper_example store_example))"
      "snd (snd (replace_attr (\<lambda>_. True) helper_example store_example))"]
  by (auto simp: fresh_helper_def replace_attr_def helper_example_def store_example_def getattr_def
      getattr_static_def Let_def wrap_descriptor_def setattr_def)

text \<open>The copy an inherited attribute leaves behind: the own attributes are not the old ones.\<close>

lemma inherited_copy_stays:
  assumes "fresh_helper h" "replace_attr settable h st = (True, h1, st1)"
    and "dict_get (own (st (target_obj h))) (target_name h) = None"
  shows "dict_get (own (snd (snd (recover_attr settable h1 st1)) (target_obj h))) (target_name h) \<noteq> None"
  using recover_after_replace[OF assms(1,2)] by (auto simp: setattr_def)

end
