(* ===== verification/Inject.thy ===== *)
theory Inject
  imports Prelude
begin

text \<open>
  Bytecode injection, \<^verbatim>\<open>ms_service_metric/core/hook/inject.py\<close>.

  The first part is the two hooks that \<^verbatim>\<open>inject_function\<close> closes over: they create, enter and exit the
  context handlers, never raise, and count failures per handler up to \<^verbatim>\<open>MAX_HOOK_FAILURES\<close>. A handler is
  three steps on the state \<open>'m\<close> (\<^verbatim>\<open>func(ctx)\<close>, \<^verbatim>\<open>__enter__\<close>, \<^verbatim>\<open>__exit__\<close>), each of which says whether it
  finished without raising.

  The second part is the instruction stream: what is inserted, for the minor version of Python 3, and a
  machine for the documented effect of the inserted opcodes on the value stack. Jumps, other opcodes and
  the \<^verbatim>\<open>bytecode\<close> package are not modelled; an instruction that is not inserted is \<open>Other\<close>.
\<close>

section \<open>The context hooks\<close>

definition MAX_HOOK_FAILURES :: nat where "MAX_HOOK_FAILURES = 5"

record 'm ctx_handler =
  make_ctx :: "'m \<Rightarrow> bool \<times> 'm"
  enter_ctx :: "'m \<Rightarrow> bool \<times> 'm"
  exit_ctx :: "'m \<Rightarrow> bool \<times> 'm"

record 'm inject_state =
  mstate :: 'm
  failed :: "nat list"
  contexts :: "nat list"

definition new_inject_state :: "'m \<Rightarrow> 'm ctx_handler list \<Rightarrow> 'm inject_state" where
  "new_inject_state m hs = \<lparr>mstate = m, failed = replicate (length hs) 0, contexts = []\<rparr>"

definition count_failure :: "nat \<Rightarrow> 'm inject_state \<Rightarrow> 'm inject_state" where
  "count_failure i s = s\<lparr>failed := (failed s)[i := Suc (failed s ! i)]\<rparr>"

text \<open>\<open>make_loop\<close> is the loop over \<^verbatim>\<open>func(ctx)\<close>; its result tells whether no call raised.\<close>

fun make_loop :: "'m ctx_handler list \<Rightarrow> nat list \<Rightarrow> 'm inject_state \<Rightarrow> bool \<times> 'm inject_state" where
  "make_loop hs [] s = (True, s)"
| "make_loop hs (i # is) s =
     (case make_ctx (hs ! i) (mstate s) of
        (True, m) \<Rightarrow> make_loop hs is (s\<lparr>mstate := m, contexts := contexts s @ [i]\<rparr>)
      | (False, m) \<Rightarrow> (False, s\<lparr>mstate := m\<rparr>))"

fun enter_loop :: "'m ctx_handler list \<Rightarrow> nat list \<Rightarrow> 'm inject_state \<Rightarrow> 'm inject_state" where
  "enter_loop hs [] s = s"
| "enter_loop hs (i # is) s =
     (if failed s ! i \<ge> MAX_HOOK_FAILURES then enter_loop hs is s
      else (case enter_ctx (hs ! i) (mstate s) of
          (True, m) \<Rightarrow> enter_loop hs is (s\<lparr>mstate := m\<rparr>)
        | (False, m) \<Rightarrow> count_failure i (s\<lparr>mstate := m\<rparr>)))"

definition hook_func_when_enter :: "'m ctx_handler list \<Rightarrow> 'm inject_state \<Rightarrow> 'm inject_state" where
  "hook_func_when_enter hs s =
     (case make_loop hs [0..<length hs] (s\<lparr>contexts := []\<rparr>) of
        (True, s1) \<Rightarrow> enter_loop hs (contexts s1) s1
      | (False, s1) \<Rightarrow> s1)"

fun exit_loop :: "'m ctx_handler list \<Rightarrow> nat list \<Rightarrow> 'm inject_state \<Rightarrow> 'm inject_state" where
  "exit_loop hs [] s = s"
| "exit_loop hs (i # is) s =
     (if failed s ! i \<ge> MAX_HOOK_FAILURES then exit_loop hs is s
      else (case exit_ctx (hs ! i) (mstate s) of
          (True, m) \<Rightarrow> exit_loop hs is (s\<lparr>mstate := m\<rparr>)
        | (False, m) \<Rightarrow> count_failure i (s\<lparr>mstate := m\<rparr>)))"

definition hook_func_when_return :: "'m ctx_handler list \<Rightarrow> 'm inject_state \<Rightarrow> 'm inject_state" where
  "hook_func_when_return hs s = exit_loop hs (rev (contexts s)) s"

section \<open>The instruction stream\<close>

datatype gname = LocalsName | EnterHook | ReturnHook

datatype 'i instr =
    LoadGlobal bool gname | Copy nat | Call nat | CallFunction nat | PopTop | DupTop | RotTwo
  | Resume int | ReturnValue | Other 'i

definition generate_call_instructions :: "nat \<Rightarrow> gname \<Rightarrow> bool \<Rightarrow> 'i instr list option" where
  "generate_call_instructions minor func_name has_ret_value =
     (if minor \<ge> 11 then
        Some ([LoadGlobal True func_name] @
          (if has_ret_value then [Copy 3, LoadGlobal True LocalsName, Call 0, Call 2]
           else [LoadGlobal True LocalsName, Call 0, Call 1]) @ [PopTop])
      else if minor \<ge> 8 then
        Some (if has_ret_value
              then [DupTop, LoadGlobal False func_name, RotTwo, LoadGlobal False LocalsName, CallFunction 0,
                    CallFunction 2, PopTop]
              else [LoadGlobal False func_name, LoadGlobal False LocalsName, CallFunction 0, CallFunction 1, PopTop])
      else None)"



section \<open>The value stack\<close>

datatype 'v sval = Null | PyFn gname | LocalsDict | NoneVal | Val 'v

type_synonym 'v machine = "'v sval list \<times> (gname \<times> 'v sval list) list"

text \<open>A call of \<open>locals\<close> gives the dictionary; a call of a hook is recorded and gives \<^verbatim>\<open>None\<close>.\<close>

definition call_value :: "'v sval \<Rightarrow> 'v sval list \<Rightarrow> 'v sval list \<Rightarrow> (gname \<times> 'v sval list) list \<Rightarrow> 'v machine option" where
  "call_value f args st ev = (case f of
       PyFn LocalsName \<Rightarrow> Some (LocalsDict # st, ev)
     | PyFn g \<Rightarrow> Some (NoneVal # st, ev @ [(g, args)])
     | _ \<Rightarrow> None)"

fun step_instr :: "'i instr \<Rightarrow> 'v machine \<Rightarrow> 'v machine option" where
  "step_instr (LoadGlobal null g) (st, ev) = Some (PyFn g # (if null then [Null] else []) @ st, ev)"
| "step_instr (Copy n) (st, ev) = (if 1 \<le> n \<and> n \<le> length st then Some (st ! (n - 1) # st, ev) else None)"
| "step_instr (Call n) (st, ev) =
     (if n + 2 \<le> length st then call_value (st ! n) (rev (take n st)) (drop (n + 2) st) ev else None)"
| "step_instr (CallFunction n) (st, ev) =
     (if n + 1 \<le> length st then call_value (st ! n) (rev (take n st)) (drop (n + 1) st) ev else None)"
| "step_instr PopTop (st, ev) = (case st of [] \<Rightarrow> None | _ # st' \<Rightarrow> Some (st', ev))"
| "step_instr DupTop (st, ev) = (case st of [] \<Rightarrow> None | v # st' \<Rightarrow> Some (v # v # st', ev))"
| "step_instr RotTwo (st, ev) = (case st of a # b # st' \<Rightarrow> Some (b # a # st', ev) | _ \<Rightarrow> None)"
| "step_instr (Resume k) (st, ev) = Some (st, ev)"
| "step_instr ReturnValue (st, ev) = None"
| "step_instr (Other i) (st, ev) = None"

fun run_instrs :: "'i instr list \<Rightarrow> 'v machine \<Rightarrow> 'v machine option" where
  "run_instrs [] m = Some m"
| "run_instrs (i # is) m = (case step_instr i m of None \<Rightarrow> None | Some m' \<Rightarrow> run_instrs is m')"

text \<open>The largest stack height while a list runs.\<close>

fun max_height :: "'i instr list \<Rightarrow> 'v machine \<Rightarrow> nat" where
  "max_height [] m = length (fst m)"
| "max_height (i # is) m = max (length (fst m)) (case step_instr i m of None \<Rightarrow> 0 | Some m' \<Rightarrow> max_height is m')"

text \<open>\<^verbatim>\<open>stacksize=ori_func.__code__.co_stacksize + 2\<close>\<close>

definition injected_stacksize :: "nat \<Rightarrow> nat" where
  "injected_stacksize co_stacksize = co_stacksize + 2"

section \<open>Lemmas\<close>

definition counts_ok :: "nat \<Rightarrow> 'm inject_state \<Rightarrow> bool" where
  "counts_ok n s \<longleftrightarrow> length (failed s) = n \<and> (\<forall>k \<in> set (failed s). k \<le> MAX_HOOK_FAILURES) \<and>
     set (contexts s) \<subseteq> {..<n}"

lemma counts_failure:
  "counts_ok n s \<Longrightarrow> i < n \<Longrightarrow> failed s ! i < MAX_HOOK_FAILURES \<Longrightarrow> counts_ok n (count_failure i s)"
  by (auto simp: counts_ok_def count_failure_def dest!: set_update_subset_insert[THEN subsetD])

lemma counts_make:
  "counts_ok n s \<Longrightarrow> set js \<subseteq> {..<n} \<Longrightarrow> make_loop hs js s = (b, s') \<Longrightarrow> counts_ok n s'"
proof (induction js arbitrary: s)
  case (Cons i js)
  obtain r m where mk: "make_ctx (hs ! i) (mstate s) = (r, m)" by (cases "make_ctx (hs ! i) (mstate s)")
  have "counts_ok n (s\<lparr>mstate := m, contexts := contexts s @ [i]\<rparr>)" "counts_ok n (s\<lparr>mstate := m\<rparr>)"
    using Cons.prems(1,2) by (simp_all add: counts_ok_def)
  with Cons.IH[of "s\<lparr>mstate := m, contexts := contexts s @ [i]\<rparr>"] Cons.prems(2,3) mk show ?case
    by (cases r) auto
qed simp

lemma counts_enter: "counts_ok n s \<Longrightarrow> set js \<subseteq> {..<n} \<Longrightarrow> counts_ok n (enter_loop hs js s)"
proof (induction js arbitrary: s)
  case (Cons i js)
  have upd: "counts_ok n (s\<lparr>mstate := m\<rparr>)" for m using Cons.prems by (simp add: counts_ok_def)
  show ?case
    using Cons upd counts_failure[OF upd] by (auto split: prod.split bool.split simp: not_le)
qed simp

lemma counts_exit: "counts_ok n s \<Longrightarrow> set js \<subseteq> {..<n} \<Longrightarrow> counts_ok n (exit_loop hs js s)"
proof (induction js arbitrary: s)
  case (Cons i js)
  have upd: "counts_ok n (s\<lparr>mstate := m\<rparr>)" for m using Cons.prems by (simp add: counts_ok_def)
  show ?case
    using Cons upd counts_failure[OF upd] by (auto split: prod.split bool.split simp: not_le)
qed simp

lemma counts_new: "counts_ok (length hs) (new_inject_state m hs)"
  by (auto simp: counts_ok_def new_inject_state_def)

lemma counts_hooks:
  assumes "counts_ok (length hs) s"
  shows "counts_ok (length hs) (hook_func_when_enter hs s)" "counts_ok (length hs) (hook_func_when_return hs s)"
proof -
  obtain b s1 where run: "make_loop hs [0..<length hs] (s\<lparr>contexts := []\<rparr>) = (b, s1)"
    by (cases "make_loop hs [0..<length hs] (s\<lparr>contexts := []\<rparr>)")
  have "counts_ok (length hs) (s\<lparr>contexts := []\<rparr>)" using assms by (simp add: counts_ok_def)
  then have s1: "counts_ok (length hs) s1" by (rule counts_make[OF _ _ run]) auto
  then have "set (contexts s1) \<subseteq> {..<length hs}" by (simp add: counts_ok_def)
  then show "counts_ok (length hs) (hook_func_when_enter hs s)"
    using s1 run counts_enter[OF s1] by (simp add: hook_func_when_enter_def split: bool.split)
  show "counts_ok (length hs) (hook_func_when_return hs s)"
    using assms counts_exit[of "length hs" s "rev (contexts s)"]
    by (simp add: hook_func_when_return_def counts_ok_def)
qed

text \<open>A handler that failed five times is neither entered nor exited: its two steps do not matter.\<close>

lemma enter_loop_skip:
  assumes "failed s ! k = MAX_HOOK_FAILURES" "k < length (failed s)" "k < length hs"
  shows "enter_loop (hs[k := h]) js s = enter_loop hs js s"
  using assms
proof (induction js arbitrary: s)
  case (Cons i js)
  then show ?case by (cases "i = k") (auto split: prod.split bool.split)
qed simp

lemma exit_loop_skip:
  assumes "failed s ! k = MAX_HOOK_FAILURES" "k < length (failed s)" "k < length hs"
  shows "exit_loop (hs[k := h]) js s = exit_loop hs js s"
  using assms
proof (induction js arbitrary: s)
  case (Cons i js)
  then show ?case by (cases "i = k") (auto split: prod.split bool.split)
qed simp

lemma gen_11: "11 \<le> minor \<Longrightarrow> generate_call_instructions minor f True =
    Some [LoadGlobal True f, Copy 3, LoadGlobal True LocalsName, Call 0, Call 2, PopTop]"
  "11 \<le> minor \<Longrightarrow> generate_call_instructions minor f False =
    Some [LoadGlobal True f, LoadGlobal True LocalsName, Call 0, Call 1, PopTop]"
  by (simp_all add: generate_call_instructions_def)

lemma gen_8: "8 \<le> minor \<Longrightarrow> minor < 11 \<Longrightarrow> generate_call_instructions minor f True =
    Some [DupTop, LoadGlobal False f, RotTwo, LoadGlobal False LocalsName, CallFunction 0, CallFunction 2, PopTop]"
  "8 \<le> minor \<Longrightarrow> minor < 11 \<Longrightarrow> generate_call_instructions minor f False =
    Some [LoadGlobal False f, LoadGlobal False LocalsName, CallFunction 0, CallFunction 1, PopTop]"
  by (simp_all add: generate_call_instructions_def)

lemma run_append: "run_instrs (xs @ ys) m = (case run_instrs xs m of None \<Rightarrow> None | Some m' \<Rightarrow> run_instrs ys m')"
  by (induction xs arbitrary: m) (auto split: option.split)




section \<open>Properties\<close>

text \<open>
  The failure counters stay between 0 and 5 through entry and return of a call, whatever the handlers do.
\<close>

theorem failure_counts_bounded:
  "counts_ok (length hs) s \<Longrightarrow> counts_ok (length hs) (hook_func_when_return hs (hook_func_when_enter hs s))"
  by (intro counts_hooks)

theorem failure_counts_bounded_witness:
  "counts_ok (length [\<lparr>make_ctx = (\<lambda>m. (True, m)), enter_ctx = (\<lambda>m. (False, Suc m)), exit_ctx = (\<lambda>m. (False, m))\<rparr>])
     (hook_func_when_return [\<lparr>make_ctx = (\<lambda>m. (True, m)), enter_ctx = (\<lambda>m. (False, Suc m)), exit_ctx = (\<lambda>m. (False, m))\<rparr>]
       (hook_func_when_enter [\<lparr>make_ctx = (\<lambda>m. (True, m)), enter_ctx = (\<lambda>m. (False, Suc m)), exit_ctx = (\<lambda>m. (False, m))\<rparr>]
         (new_inject_state 0 [\<lparr>make_ctx = (\<lambda>m. (True, m)), enter_ctx = (\<lambda>m. (False, Suc m)), exit_ctx = (\<lambda>m. (False, m))\<rparr>])))"
  by (intro failure_counts_bounded counts_new)

text \<open>
  The return hook inserted before every return is called with the function's return value and its locals
  and leaves the value stack as it was, on every supported version of Python.
\<close>

theorem return_hook_on_stack:
  assumes "8 \<le> minor" "generate_call_instructions minor ReturnHook True = Some code"
  shows "run_instrs code (Val v # st, ev) = Some (Val v # st, ev @ [(ReturnHook, [Val v, LocalsDict])])"
proof -
  consider "11 \<le> minor" | "8 \<le> minor" "minor < 11" using assms(1) by linarith
  then show ?thesis using assms(2) by cases (auto simp: gen_11 gen_8 call_value_def)
qed

theorem return_hook_on_stack_witness:
  "run_instrs ([LoadGlobal True ReturnHook, Copy 3, LoadGlobal True LocalsName, Call 0, Call 2, PopTop] :: unit instr list)
     ([Val (7 :: nat)], []) = Some ([Val 7], [(ReturnHook, [Val 7, LocalsDict])])"
  using return_hook_on_stack[of 12 "[LoadGlobal True ReturnHook, Copy 3, LoadGlobal True LocalsName, Call 0, Call 2, PopTop] :: unit instr list" "7 :: nat" "[]" "[]"]
  by (simp add: gen_11)



text \<open>
  The stack that is reserved for the injected function is too small: for a function that needs one slot,
  \<^verbatim>\<open>return x\<close>, the inserted code needs more than the \<^verbatim>\<open>co_stacksize + 2\<close> slots asked for, on every version.
\<close>

theorem reserved_stack_exceeded:
  assumes "8 \<le> minor" "generate_call_instructions minor ReturnHook True = Some code"
  shows "injected_stacksize 1 < max_height code ([Val v], ev)"
proof -
  consider "11 \<le> minor" | "8 \<le> minor" "minor < 11" using assms(1) by linarith
  then show ?thesis
    using assms(2) by cases (auto simp: gen_11 gen_8 call_value_def injected_stacksize_def)
qed

theorem reserved_stack_exceeded_witness:
  "injected_stacksize 1 < max_height ([DupTop, LoadGlobal False ReturnHook, RotTwo, LoadGlobal False LocalsName,
     CallFunction 0, CallFunction 2, PopTop] :: unit instr list) ([Val (7 :: nat)], [])"
  by (rule reserved_stack_exceeded[of 9]) (simp_all add: gen_8)

text \<open>The entry hook is called with the locals and leaves the value stack as it was, whatever is on it.\<close>

theorem entry_hook_on_stack:
  assumes "8 \<le> minor" "generate_call_instructions minor EnterHook False = Some code"
  shows "run_instrs code (st, ev) = Some (st, ev @ [(EnterHook, [LocalsDict])])"
proof -
  consider "11 \<le> minor" | "8 \<le> minor" "minor < 11" using assms(1) by linarith
  then show ?thesis using assms(2) by cases (auto simp: gen_11 gen_8 call_value_def)
qed

theorem entry_hook_on_stack_witness:
  "run_instrs ([LoadGlobal False EnterHook, LoadGlobal False LocalsName, CallFunction 0, CallFunction 1, PopTop] :: unit instr list)
     ([] :: nat sval list, []) = Some ([], [(EnterHook, [LocalsDict])])"
  using entry_hook_on_stack[of 9 "[LoadGlobal False EnterHook, LoadGlobal False LocalsName, CallFunction 0, CallFunction 1, PopTop]
      :: unit instr list" "[] :: nat sval list" "[]"]
  by (simp add: gen_8)

end
