(* ===== verification/Yaml.thy ===== *)
theory Yaml
  imports Prelude
begin

text \<open>
  Python values as \<^verbatim>\<open>yaml.safe_load\<close> gives them to the configuration code, with what that code asks of
  them: truth, iteration, \<^verbatim>\<open>isinstance\<close> and \<^verbatim>\<open>dict.get\<close>. Mapping keys are strings; a float is a decimal
  literal or one of the three special values. The allow lists of \<^verbatim>\<open>utils/import_security.py\<close> are here as well.
\<close>

datatype pyfloat = Dec int nat | PosInf | NegInf | NotANumber

datatype yaml =
    YNull | YBool bool | YInt int | YFloat pyfloat | YStr string
  | YList "yaml list" | YMap "(string \<times> yaml) list"

type_synonym ymap = "(string \<times> yaml) list"

fun truthy :: "yaml \<Rightarrow> bool" where
  "truthy YNull = False"
| "truthy (YBool b) = b"
| "truthy (YInt n) = (n \<noteq> 0)"
| "truthy (YFloat (Dec m e)) = (m \<noteq> 0)"
| "truthy (YFloat _) = True"
| "truthy (YStr s) = (s \<noteq> [])"
| "truthy (YList xs) = (xs \<noteq> [])"
| "truthy (YMap d) = (d \<noteq> [])"

text \<open>\<^verbatim>\<open>d.get(k)\<close> and \<^verbatim>\<open>d.get(k, default)\<close>\<close>

definition yget :: "string \<Rightarrow> ymap \<Rightarrow> yaml" where
  "yget k d = (case dict_get d k of Some v \<Rightarrow> v | None \<Rightarrow> YNull)"

definition yget_default :: "string \<Rightarrow> yaml \<Rightarrow> ymap \<Rightarrow> yaml" where
  "yget_default k v d = (case dict_get d k of Some x \<Rightarrow> x | None \<Rightarrow> v)"

text \<open>\<^verbatim>\<open>for x in v\<close>; \<open>None\<close> is the \<^verbatim>\<open>TypeError\<close> of a value that is not iterable.\<close>

fun iterate :: "yaml \<Rightarrow> yaml list option" where
  "iterate (YList xs) = Some xs"
| "iterate (YMap d) = Some (map (YStr \<circ> fst) d)"
| "iterate (YStr s) = Some (map (\<lambda>c. YStr [c]) s)"
| "iterate _ = None"

text \<open>\<^verbatim>\<open>x if isinstance(x, list) else [x]\<close>\<close>

fun as_list :: "yaml \<Rightarrow> yaml list" where
  "as_list (YList xs) = xs"
| "as_list v = [v]"

fun is_map :: "yaml \<Rightarrow> bool" where
  "is_map (YMap d) = True"
| "is_map _ = False"

fun is_list :: "yaml \<Rightarrow> bool" where
  "is_list (YList xs) = True"
| "is_list _ = False"

fun is_str :: "yaml \<Rightarrow> bool" where
  "is_str (YStr s) = True"
| "is_str _ = False"

text \<open>\<^verbatim>\<open>s.rsplit(c, 1)\<close> of a string that contains \<open>c\<close>.\<close>

definition rsplit1 :: "char \<Rightarrow> string \<Rightarrow> (string \<times> string) option" where
  "rsplit1 c s = map_option (\<lambda>(a, b). (rev b, rev a)) (split1 c (rev s))"

lemma rsplit1_Some: "rsplit1 c s = Some (a, b) \<Longrightarrow> s = a @ c # b \<and> c \<notin> set b"
proof -
  assume "rsplit1 c s = Some (a, b)"
  then have "split1 c (rev s) = Some (rev b, rev a)" by (auto simp: rsplit1_def)
  from split1_Some[OF this] have "rev s = rev b @ c # rev a" "c \<notin> set b" by auto
  then show ?thesis by (metis append.assoc append_Cons append_Nil rev_append rev_rev_ident rev.simps(2))
qed

section \<open>Allow lists\<close>

definition ALLOWED_HANDLER_MODULE_PREFIXES :: "string list" where
  "ALLOWED_HANDLER_MODULE_PREFIXES = [''ms_service_profiler.'', ''ms_service_metric.'']"

definition ALLOWED_SYMBOL_MODULE_PREFIXES :: "string list" where
  "ALLOWED_SYMBOL_MODULE_PREFIXES =
     [''vllm.'', ''vllm_ascend.'', ''sglang.'', ''ms_service_profiler.'', ''ms_service_metric.'']"

definition is_allowed_handler_module :: "string \<Rightarrow> string list \<Rightarrow> bool" where
  "is_allowed_handler_module module_path additional_prefixes =
     startswith_any module_path (ALLOWED_HANDLER_MODULE_PREFIXES @ additional_prefixes)"

definition is_allowed_symbol_module :: "string \<Rightarrow> string list \<Rightarrow> bool" where
  "is_allowed_symbol_module module_path additional_prefixes =
     startswith_any module_path (ALLOWED_SYMBOL_MODULE_PREFIXES @ additional_prefixes)"

end
