(* ===== verification/Symbols.thy ===== *)
theory Symbols
  imports Hook_Chain Yaml
begin

text \<open>
  Symbols and the module watcher: \<^verbatim>\<open>ms_service_metric/core/symbol.py\<close> (\<open>Symbol\<close>) and
  \<^verbatim>\<open>core/module/symbol_watcher.py\<close> (\<open>SymbolWatcher\<close> and its import finder), over the hook chains.

  All objects live in one \<open>world\<close>: the chains by the identity of their original function (a replaced
  function carries its chain, so both find the same one), the heap of symbols by object identity, the
  watcher, and the registries of the manager. A callback of the watcher is the bound method of a
  symbol and is represented by the symbol's identity.

  What the code under \<^verbatim>\<open>src/\<close> does not decide is the record \<open>env\<close>: which object an attribute path denotes,
  whether \<^verbatim>\<open>get_hook_func\<close> of every handler returns, whether the final hook can be built (bytecode
  injection may raise), and whether the \<^verbatim>\<open>HookHelper\<close> of a target can be made and can replace it. The hook
  function of a node is represented by the list of handlers it was built from.
\<close>

section \<open>Handlers and symbols\<close>

record handler =
  handler_id :: string
  handler_name :: yaml
  handler_symbol :: string
  min_version :: yaml
  max_version :: yaml
  config_fingerprint :: "string option"
  lock_patch :: yaml

definition locked :: "handler \<Rightarrow> bool" where
  "locked h = truthy (lock_patch h)"

definition handler_equals :: "handler \<Rightarrow> handler \<Rightarrow> bool" where
  "handler_equals h k \<longleftrightarrow> handler_id h = handler_id k \<and> min_version h = min_version k \<and>
     max_version h = max_version k \<and> config_fingerprint h = config_fingerprint k"

record symbol =
  symbol_path :: string
  module_path :: string
  attr_path :: string
  sym_handlers :: "(string, handler) dict"
  hook_applied :: bool
  hook_node :: "nat option"
  hook_chain_of :: "nat option"
  handlers_changed :: bool
  module_loaded :: bool
  pending_hook :: bool
  sym_target :: "nat option"
  sym_prefixes :: "string list"

record env =
  resolve :: "string \<Rightarrow> string \<Rightarrow> nat option"
  hook_funcs_ok :: "handler list \<Rightarrow> nat \<Rightarrow> bool"
  build_ok :: "handler list \<Rightarrow> nat \<Rightarrow> bool"
  helper_ok :: "nat \<Rightarrow> bool"
  install_ok :: "nat \<Rightarrow> bool"

record 'cfg world =
  chains :: "nat \<Rightarrow> handler list hook_chain"
  symbol_heap :: "nat \<Rightarrow> symbol"
  next_symbol :: nat
  sys_modules :: "string set"
  loaded_modules :: "string set"
  finder_targets :: "string set"
  finder_installed :: bool
  module_callbacks :: "(string, nat list) dict"
  global_callbacks :: "nat list"
  symbols :: "(string, nat) dict"
  handlers :: "(string, handler) dict"
  enabled :: bool
  updating :: bool
  config :: 'cfg

definition upd_symbol :: "nat \<Rightarrow> (symbol \<Rightarrow> symbol) \<Rightarrow> 'cfg world \<Rightarrow> 'cfg world" where
  "upd_symbol i f w = w\<lparr>symbol_heap := (symbol_heap w)(i := f (symbol_heap w i))\<rparr>"

definition upd_chain :: "nat \<Rightarrow> (handler list hook_chain \<Rightarrow> handler list hook_chain) \<Rightarrow> 'cfg world \<Rightarrow> 'cfg world" where
  "upd_chain t f w = w\<lparr>chains := (chains w)(t := f (chains w t))\<rparr>"

section \<open>Hooking\<close>

text \<open>\<^verbatim>\<open>_import_target\<close>: every exception gives \<^verbatim>\<open>None\<close>.\<close>

definition import_target :: "env \<Rightarrow> symbol \<Rightarrow> nat option" where
  "import_target e s = (if \<not> is_allowed_symbol_module (module_path s) (sym_prefixes s) then None
                        else resolve e (module_path s) (attr_path s))"

definition handler_list :: "symbol \<Rightarrow> handler list" where
  "handler_list s = map snd (sym_handlers s)"

text \<open>The chain and the node that \<^verbatim>\<open>_apply_hook\<close> uses: its own, or a new node of the target's chain.\<close>

definition obtain_node :: "env \<Rightarrow> nat \<Rightarrow> nat \<Rightarrow> 'cfg world \<Rightarrow> 'cfg world" where
  "obtain_node e i t w =
     (if hook_chain_of (symbol_heap w i) \<noteq> None then w
      else (case add_chain_node (helper_ok e t) (install_ok e t) True (chains w t) of
          (node, c) \<Rightarrow> upd_symbol i (\<lambda>s. s\<lparr>hook_chain_of := Some t,
                             hook_node := (case node of Some n \<Rightarrow> Some n | None \<Rightarrow> hook_node s)\<rparr>)
                        (upd_chain t (\<lambda>_. c) w)))"

text \<open>Whether \<^verbatim>\<open>add_chain_node\<close> raised, in which case the statements after it are not reached.\<close>

definition obtain_fails :: "env \<Rightarrow> nat \<Rightarrow> nat \<Rightarrow> 'cfg world \<Rightarrow> bool" where
  "obtain_fails e i t w \<longleftrightarrow> hook_chain_of (symbol_heap w i) = None \<and>
     fst (add_chain_node (helper_ok e t) (install_ok e t) True (chains w t)) = None"

definition apply_hook :: "env \<Rightarrow> nat \<Rightarrow> 'cfg world \<Rightarrow> 'cfg world" where
  "apply_hook e i w =
     (let s = symbol_heap w i; fail = upd_symbol i (\<lambda>s. s\<lparr>hook_applied := False\<rparr>)
      in if sym_handlers s = [] then w
         else (case sym_target s of
             None \<Rightarrow> w
           | Some t \<Rightarrow>
               (if \<not> hook_funcs_ok e (handler_list s) t then fail w
                else let w1 = obtain_node e i t w; s1 = symbol_heap w1 i
                     in if obtain_fails e i t w then fail w1
                        else (case (hook_chain_of s1, hook_node s1) of
                            (Some c, Some n) \<Rightarrow>
                              (if \<not> build_ok e (handler_list s) c then fail w1
                               else upd_symbol i (\<lambda>s. s\<lparr>hook_applied := True, pending_hook := False,
                                                       handlers_changed := False\<rparr>)
                                      (upd_chain c (set_hook_func n (handler_list s)) w1))
                          | _ \<Rightarrow> fail w1))))"

definition hook :: "env \<Rightarrow> nat \<Rightarrow> 'cfg world \<Rightarrow> 'cfg world" where
  "hook e i w =
     (let s = symbol_heap w i
      in if \<not> module_loaded s then w
         else if sym_handlers s = [] then w
         else if hook_applied s \<and> \<not> handlers_changed s then w
         else if sym_target s = None
         then (case import_target e s of
             None \<Rightarrow> w
           | Some t \<Rightarrow> apply_hook e i (upd_symbol i (\<lambda>s. s\<lparr>sym_target := Some t\<rparr>) w))
         else apply_hook e i w)"

definition unhook :: "nat \<Rightarrow> 'cfg world \<Rightarrow> 'cfg world" where
  "unhook i w =
     (let s = symbol_heap w i
      in if \<not> hook_applied s then w
         else let w1 = (case (hook_chain_of s, hook_node s) of
                  (Some c, Some n) \<Rightarrow> upd_symbol i (\<lambda>s. s\<lparr>hook_node := None\<rparr>)
                                        (upd_chain c (\<lambda>ch. snd (remove_chain_node n ch)) w)
                | _ \<Rightarrow> w)
              in upd_symbol i (\<lambda>s. s\<lparr>hook_applied := False, pending_hook := False\<rparr>) w1)"

definition update_hook :: "env \<Rightarrow> nat \<Rightarrow> 'cfg world \<Rightarrow> bool \<times> 'cfg world" where
  "update_hook e i w =
     (let s = symbol_heap w i
      in if \<not> hook_applied s then (False, w)
         else if sym_handlers s = [] then (True, unhook i w)
         else (True, apply_hook e i w))"

section \<open>Handlers of a symbol\<close>

definition sym_add_handler :: "handler \<Rightarrow> symbol \<Rightarrow> symbol" where
  "sym_add_handler h s =
     (if dict_has (handler_id h) (sym_handlers s) then s
      else s\<lparr>sym_handlers := dict_set (handler_id h) h (sym_handlers s), handlers_changed := True\<rparr>)"

definition sym_remove_handler :: "string \<Rightarrow> symbol \<Rightarrow> symbol" where
  "sym_remove_handler hid s =
     (if dict_has hid (sym_handlers s)
      then s\<lparr>sym_handlers := dict_del hid (sym_handlers s), handlers_changed := True\<rparr> else s)"

definition sym_update_handler :: "handler \<Rightarrow> symbol \<Rightarrow> symbol" where
  "sym_update_handler h s =
     s\<lparr>sym_handlers := dict_set (handler_id h) h (sym_handlers s), handlers_changed := True\<rparr>"

definition unlocked_ids :: "symbol \<Rightarrow> string list" where
  "unlocked_ids s = map fst (filter (\<lambda>(hid, h). \<not> locked h) (sym_handlers s))"

definition remove_unlocked_handlers :: "symbol \<Rightarrow> string list \<times> symbol" where
  "remove_unlocked_handlers s =
     (unlocked_ids s, s\<lparr>sym_handlers := fold dict_del (unlocked_ids s) (sym_handlers s)\<rparr>)"

definition stop_unlocked :: "env \<Rightarrow> nat \<Rightarrow> 'cfg world \<Rightarrow> (string list \<times> string list) \<times> 'cfg world" where
  "stop_unlocked e i w =
     (let all_ids = dict_keys (sym_handlers (symbol_heap w i));
          (removed_ids, s') = remove_unlocked_handlers (symbol_heap w i);
          w1 = upd_symbol i (\<lambda>_. s') w;
          kept_ids = filter (\<lambda>hid. hid \<notin> set removed_ids) all_ids
      in ((removed_ids, kept_ids),
          if removed_ids = [] then w1
          else if kept_ids \<noteq> [] then snd (update_hook e i w1) else unhook i w1))"

section \<open>The module watcher\<close>

definition on_module_loaded :: "env \<Rightarrow> nat \<Rightarrow> 'cfg world \<Rightarrow> 'cfg world" where
  "on_module_loaded e i w =
     (let t = import_target e (symbol_heap w i);
          w1 = upd_symbol i (\<lambda>s. s\<lparr>module_loaded := True, sym_target := t\<rparr>) w
      in if t = None then w1
         else if \<not> updating w1 then apply_hook e i w1
         else upd_symbol i (\<lambda>s. s\<lparr>pending_hook := True\<rparr>) w1)"

definition register_module_callback :: "string \<Rightarrow> nat \<Rightarrow> 'cfg world \<Rightarrow> 'cfg world" where
  "register_module_callback m i w =
     (let cbs = (case dict_get (module_callbacks w) m of Some cs \<Rightarrow> cs | None \<Rightarrow> [])
      in w\<lparr>finder_targets := insert m (finder_targets w),
           module_callbacks := dict_set m (if i \<in> set cbs then cbs else cbs @ [i]) (module_callbacks w)\<rparr>)"

definition watch_module :: "env \<Rightarrow> string \<Rightarrow> nat \<Rightarrow> 'cfg world \<Rightarrow> 'cfg world" where
  "watch_module e m i w =
     (let w1 = register_module_callback m i w
      in if m \<in> sys_modules w1 then on_module_loaded e i w1 else w1)"

definition unwatch_module :: "string \<Rightarrow> nat \<Rightarrow> 'cfg world \<Rightarrow> 'cfg world" where
  "unwatch_module m i w =
     (case dict_get (module_callbacks w) m of
        None \<Rightarrow> w
      | Some cbs \<Rightarrow>
          (let cbs' = remove1 i cbs
           in if cbs' = []
              then w\<lparr>module_callbacks := dict_del m (module_callbacks w), finder_targets := finder_targets w - {m}\<rparr>
              else w\<lparr>module_callbacks := dict_set m cbs' (module_callbacks w)\<rparr>))"

definition watch_all :: "nat \<Rightarrow> 'cfg world \<Rightarrow> 'cfg world" where
  "watch_all cb w = (if cb \<in> set (global_callbacks w) then w
                     else w\<lparr>global_callbacks := global_callbacks w @ [cb]\<rparr>)"

definition unwatch_all :: "nat \<Rightarrow> 'cfg world \<Rightarrow> 'cfg world" where
  "unwatch_all cb w = w\<lparr>global_callbacks := remove1 cb (global_callbacks w)\<rparr>"

definition should_watch_module :: "'cfg world \<Rightarrow> string \<Rightarrow> bool" where
  "should_watch_module w fullname \<longleftrightarrow> global_callbacks w \<noteq> [] \<or>
     (\<exists>t \<in> finder_targets w. fullname = t \<or> startswith fullname (t @ ''.''))"

text \<open>
  \<^verbatim>\<open>_notify_module_loaded\<close>; \<open>global\<close> is the effect of a global callback. The callbacks run over the
  lists as they are when each group starts; one that raises does not stop the others.
\<close>

definition notify_module_loaded ::
  "env \<Rightarrow> (nat \<Rightarrow> string \<Rightarrow> 'cfg world \<Rightarrow> 'cfg world) \<Rightarrow> string \<Rightarrow> 'cfg world \<Rightarrow> 'cfg world" where
  "notify_module_loaded e global m w =
     (let w1 = w\<lparr>loaded_modules := insert m (loaded_modules w)\<rparr>;
          w2 = fold (\<lambda>cb. global cb m) (global_callbacks w1) w1;
          cbs = (case dict_get (module_callbacks w2) m of Some cs \<Rightarrow> cs | None \<Rightarrow> [])
      in fold (on_module_loaded e) cbs w2)"

text \<open>
  The import of a module: Python puts it in \<^verbatim>\<open>sys.modules\<close>, and if the installed finder wrapped its
  loader, \<^verbatim>\<open>exec_module\<close> ends with the notification.
\<close>

definition import_module_event ::
  "env \<Rightarrow> (nat \<Rightarrow> string \<Rightarrow> 'cfg world \<Rightarrow> 'cfg world) \<Rightarrow> string \<Rightarrow> 'cfg world \<Rightarrow> 'cfg world" where
  "import_module_event e global m w =
     (if m \<in> sys_modules w then w
      else let w1 = w\<lparr>sys_modules := insert m (sys_modules w)\<rparr>
           in if finder_installed w1 \<and> should_watch_module w1 m then notify_module_loaded e global m w1 else w1)"

definition watcher_start :: "'cfg world \<Rightarrow> 'cfg world" where
  "watcher_start w = (if finder_installed w then w else w\<lparr>finder_installed := True\<rparr>)"

definition watcher_stop :: "'cfg world \<Rightarrow> 'cfg world" where
  "watcher_stop w = (if \<not> finder_installed w then w else w\<lparr>finder_installed := False\<rparr>)"

section \<open>Making and stopping symbols\<close>

text \<open>\<^verbatim>\<open>Symbol(path, watcher, manager, prefixes)\<close>; \<open>None\<close> is the \<^verbatim>\<open>SymbolError\<close> of a path without a colon.\<close>

definition new_symbol :: "env \<Rightarrow> string \<Rightarrow> string list \<Rightarrow> 'cfg world \<Rightarrow> nat option \<times> 'cfg world" where
  "new_symbol e path prefixes w =
     (case split1 (CHR '':'') path of
        None \<Rightarrow> (None, w)
      | Some (m, a) \<Rightarrow>
          (let i = next_symbol w;
               s = \<lparr>symbol_path = path, module_path = m, attr_path = a, sym_handlers = [], hook_applied = False,
                    hook_node = None, hook_chain_of = None, handlers_changed = False, module_loaded = False,
                    pending_hook = False, sym_target = None, sym_prefixes = prefixes\<rparr>
           in (Some i, watch_module e m i (upd_symbol i (\<lambda>_. s) (w\<lparr>next_symbol := Suc i\<rparr>)))))"

definition stop_watching :: "nat \<Rightarrow> 'cfg world \<Rightarrow> 'cfg world" where
  "stop_watching i w = unwatch_module (module_path (symbol_heap w i)) i w"

definition symbol_stop :: "nat \<Rightarrow> 'cfg world \<Rightarrow> 'cfg world" where
  "symbol_stop i w = unhook i (stop_watching i w)"

end
