(* ===== verification/Manager.thy ===== *)
theory Manager
  imports Symbols
begin

text \<open>
  \<^verbatim>\<open>SymbolHandlerManager\<close> of \<^verbatim>\<open>ms_service_metric/core/symbol_handler_manager.py\<close>: the registries of
  symbols and handlers, reconciling them with a target set, the graceful stop that keeps locked
  handlers, and the callback of the control watch with its rollback.

  The configuration side is the record \<open>loader\<close>: \<^verbatim>\<open>self._config.reload()\<close>, the two prefix lists of its
  committed state and \<^verbatim>\<open>MetricHandler.from_config\<close>, each of which may fail. \<^verbatim>\<open>_lock\<close> only orders
  concurrent calls and is not modelled. \<open>last_ts\<close> is \<^verbatim>\<open>self._control_watch.get_last_timestamp()\<close>.
\<close>

datatype manager_error = LoadError | BuildError | SymbolErr

record 'cfg loader =
  reload :: "'cfg \<Rightarrow> (ymap option) \<times> 'cfg"
  handler_prefixes :: "'cfg \<Rightarrow> string list"
  symbol_prefixes :: "'cfg \<Rightarrow> string list"
  user_handler_root :: "'cfg \<Rightarrow> string option"
  from_config :: "ymap \<Rightarrow> string \<Rightarrow> string list \<Rightarrow> string option \<Rightarrow> handler option"

section \<open>Building the target set\<close>

fun build_handlers ::
  "(ymap \<Rightarrow> string \<Rightarrow> handler option) \<Rightarrow> string \<Rightarrow> yaml list \<Rightarrow> (string, handler) dict \<Rightarrow>
   (string, handler) dict option" where
  "build_handlers make_handler path [] acc = Some acc"
| "build_handlers make_handler path (YMap c # cs) acc =
     (case make_handler c path of
        None \<Rightarrow> None
      | Some h \<Rightarrow> build_handlers make_handler path cs
                   (if dict_has (handler_id h) acc then acc else dict_set (handler_id h) h acc))"
| "build_handlers make_handler path (_ # cs) acc = None"

fun build_target_handlers ::
  "(ymap \<Rightarrow> string \<Rightarrow> handler option) \<Rightarrow> ymap \<Rightarrow> (string, handler) dict \<Rightarrow> (string, handler) dict option" where
  "build_target_handlers make_handler [] acc = Some acc"
| "build_target_handlers make_handler ((path, YList cs) # rest) acc =
     (case build_handlers make_handler path cs acc of
        None \<Rightarrow> None
      | Some acc' \<Rightarrow> build_target_handlers make_handler rest acc')"
| "build_target_handlers make_handler ((path, _) # rest) acc = None"

definition make_handler :: "'cfg loader \<Rightarrow> 'cfg \<Rightarrow> ymap \<Rightarrow> string \<Rightarrow> handler option" where
  "make_handler ld cfg c path = from_config ld c path (handler_prefixes ld cfg) (user_handler_root ld cfg)"

section \<open>Single handlers\<close>

text \<open>The flag of \<^verbatim>\<open>_add_handler\<close> is \<open>False\<close> when making the symbol raised.\<close>

definition add_handler :: "'cfg loader \<Rightarrow> env \<Rightarrow> handler \<Rightarrow> 'cfg world \<Rightarrow> bool \<times> 'cfg world" where
  "add_handler ld e h w =
     (let p = handler_symbol h;
          add = (\<lambda>i w. (True, upd_symbol i (sym_add_handler h) w\<lparr>handlers := dict_set (handler_id h) h (handlers w)\<rparr>))
      in case dict_get (symbols w) p of
           Some i \<Rightarrow> add i w
         | None \<Rightarrow>
             (case new_symbol e p (symbol_prefixes ld (config w)) w of
                (None, w1) \<Rightarrow> (False, w1)
              | (Some i, w1) \<Rightarrow> add i (w1\<lparr>symbols := dict_set p i (symbols w1)\<rparr>)))"

definition remove_handler :: "string \<Rightarrow> 'cfg world \<Rightarrow> 'cfg world" where
  "remove_handler hid w =
     (case dict_get (handlers w) hid of
        None \<Rightarrow> w
      | Some h \<Rightarrow>
          (let w1 = w\<lparr>handlers := dict_del hid (handlers w)\<rparr>
           in case dict_get (symbols w1) (handler_symbol h) of
                None \<Rightarrow> w1
              | Some i \<Rightarrow>
                  (let w2 = upd_symbol i (sym_remove_handler hid) w1
                   in if sym_handlers (symbol_heap w2 i) = []
                      then let w3 = symbol_stop i w2 in w3\<lparr>symbols := dict_del (handler_symbol h) (symbols w3)\<rparr>
                      else w2)))"

definition update_handler :: "handler \<Rightarrow> 'cfg world \<Rightarrow> 'cfg world" where
  "update_handler h w =
     (case dict_get (handlers w) (handler_id h) of
        None \<Rightarrow> w
      | Some _ \<Rightarrow>
          (case dict_get (symbols w) (handler_symbol h) of
             None \<Rightarrow> w
           | Some i \<Rightarrow> upd_symbol i (sym_update_handler h) w
                         \<lparr>handlers := dict_set (handler_id h) h (handlers w)\<rparr>))"

section \<open>Reconciling\<close>

fun add_handlers :: "'cfg loader \<Rightarrow> env \<Rightarrow> handler list \<Rightarrow> 'cfg world \<Rightarrow> bool \<times> 'cfg world" where
  "add_handlers ld e [] w = (True, w)"
| "add_handlers ld e (h # hs) w =
     (case add_handler ld e h w of (True, w1) \<Rightarrow> add_handlers ld e hs w1 | (False, w1) \<Rightarrow> (False, w1))"

definition update_if_changed :: "handler \<Rightarrow> 'cfg world \<Rightarrow> 'cfg world" where
  "update_if_changed h w =
     (case dict_get (handlers w) (handler_id h) of
        Some old \<Rightarrow> (if \<not> handler_equals old h then update_handler h w else w)
      | None \<Rightarrow> w)"

definition reconcile_handlers ::
  "'cfg loader \<Rightarrow> env \<Rightarrow> (string, handler) dict \<Rightarrow> 'cfg world \<Rightarrow> bool \<times> 'cfg world" where
  "reconcile_handlers ld e target w =
     (let current_ids = dict_keys (handlers w);
          to_add = filter (\<lambda>(hid, h). hid \<notin> set current_ids) target;
          to_remove = filter (\<lambda>hid. hid \<notin> set (dict_keys target)) current_ids;
          to_update = filter (\<lambda>(hid, h). hid \<in> set current_ids) target
      in case add_handlers ld e (map snd to_add) w of
           (False, w1) \<Rightarrow> (False, w1)
         | (True, w1) \<Rightarrow>
             (True, fold (update_if_changed \<circ> snd) to_update (fold remove_handler to_remove w1)))"

definition apply_all_hooks :: "env \<Rightarrow> 'cfg world \<Rightarrow> 'cfg world" where
  "apply_all_hooks e w = fold (hook e) (map snd (symbols w)) w"

definition stop_all_symbols :: "'cfg world \<Rightarrow> 'cfg world" where
  "stop_all_symbols w = fold symbol_stop (map snd (symbols w)) w"

definition reset_live_handlers :: "'cfg world \<Rightarrow> 'cfg world" where
  "reset_live_handlers w = stop_all_symbols w\<lparr>symbols := [], handlers := []\<rparr>"

text \<open>\<open>graceful_loop\<close> is the loop over the symbols, with the symbols and handlers to remove.\<close>

fun graceful_loop ::
  "env \<Rightarrow> (string \<times> nat) list \<Rightarrow> string list \<Rightarrow> string list \<Rightarrow> 'cfg world \<Rightarrow>
   (string list \<times> string list) \<times> 'cfg world" where
  "graceful_loop e [] syms hids w = ((syms, hids), w)"
| "graceful_loop e ((p, i) # rest) syms hids w =
     (case stop_unlocked e i w of
        ((removed_ids, kept_ids), w1) \<Rightarrow>
          (if kept_ids \<noteq> [] then graceful_loop e rest syms (hids @ removed_ids) w1
           else graceful_loop e rest (syms @ [p]) (hids @ removed_ids) (stop_watching i w1)))"

definition stop_all_symbols_graceful :: "env \<Rightarrow> 'cfg world \<Rightarrow> 'cfg world" where
  "stop_all_symbols_graceful e w =
     (case graceful_loop e (symbols w) [] [] w of
        ((syms, hids), w1) \<Rightarrow> w1\<lparr>symbols := fold dict_del syms (symbols w1),
                                  handlers := fold dict_del hids (handlers w1)\<rparr>)"

section \<open>The control callback\<close>

definition rollback :: "'cfg \<Rightarrow> bool \<Rightarrow> 'cfg world \<Rightarrow> 'cfg world" where
  "rollback config_state on w = w\<lparr>config := config_state, enabled := on, updating := False\<rparr>"

definition on_control_state_change ::
  "'cfg loader \<Rightarrow> env \<Rightarrow> int \<Rightarrow> bool \<Rightarrow> int \<Rightarrow> 'cfg world \<Rightarrow> manager_error option \<times> 'cfg world" where
  "on_control_state_change ld e last_ts is_start timestamp w =
     (if \<not> is_start then
        (if \<not> enabled w then (None, w)
         else (None, stop_all_symbols_graceful e w\<lparr>enabled := False\<rparr>))
      else if enabled w \<and> timestamp = last_ts then (None, w)
      else
        let w0 = w\<lparr>updating := True\<rparr>;
            is_restart = (enabled w0 \<and> timestamp \<noteq> last_ts);
            previous_enabled = enabled w0;
            config_state = config w0
        in case reload ld (config w0) of
             (None, cfg) \<Rightarrow> (Some LoadError, rollback config_state previous_enabled (w0\<lparr>config := cfg\<rparr>))
           | (Some conf, cfg) \<Rightarrow>
               (let w1 = w0\<lparr>config := cfg\<rparr>
                in case build_target_handlers (make_handler ld cfg) conf [] of
                     None \<Rightarrow> (Some BuildError, rollback config_state previous_enabled w1)
                   | Some target_handlers \<Rightarrow>
                       (let w2 = (if is_restart then stop_all_symbols_graceful e (w1\<lparr>enabled := False\<rparr>) else w1)
                        in case reconcile_handlers ld e target_handlers w2 of
                             (False, w3) \<Rightarrow> (Some SymbolErr, rollback config_state False (reset_live_handlers w3))
                           | (True, w3) \<Rightarrow>
                               (None, apply_all_hooks e (w3\<lparr>enabled := True\<rparr>)\<lparr>updating := False\<rparr>))))"

definition manager_shutdown :: "'cfg world \<Rightarrow> 'cfg world" where
  "manager_shutdown w = watcher_stop (stop_all_symbols (w\<lparr>enabled := False\<rparr>))"

text \<open>\<^verbatim>\<open>get_stats\<close>: enabled, updating, the sizes of the registries and the number of hooked symbols.\<close>

definition get_stats :: "'cfg world \<Rightarrow> bool \<times> bool \<times> nat \<times> nat \<times> nat" where
  "get_stats w = (enabled w, updating w, length (symbols w), length (handlers w),
     length (filter (\<lambda>i. hook_applied (symbol_heap w i)) (map snd (symbols w))))"

end
