(* ===== verification/Hook_Owner.thy ===== *)
theory Hook_Owner
  imports Manager
begin

text \<open>
  What the operations of a symbol keep: the registries they do not touch (\<open>same_reg\<close>), and the ownership
  of hooks (\<open>hooks_owned\<close>): every node of a chain that carries a hook function is the current node of a
  hooked symbol of a given set. Ownership is stated for an environment in which building and
  installing a hook does not raise (\<open>env_ok\<close>); \<open>failed_update_leaks\<close> shows what a raise leaves behind.
\<close>

section \<open>Operations that leave the registries alone\<close>

definition same_reg :: "'cfg world \<Rightarrow> 'cfg world \<Rightarrow> bool" where
  "same_reg w w' \<longleftrightarrow> symbols w' = symbols w \<and> handlers w' = handlers w \<and> next_symbol w' = next_symbol w \<and>
     enabled w' = enabled w \<and> updating w' = updating w \<and> config w' = config w \<and>
     (\<forall>i. symbol_path (symbol_heap w' i) = symbol_path (symbol_heap w i) \<and>
          module_path (symbol_heap w' i) = module_path (symbol_heap w i) \<and>
          sym_handlers (symbol_heap w' i) = sym_handlers (symbol_heap w i))"

lemma same_reg_refl [simp, intro]: "same_reg w w"
  by (simp add: same_reg_def)

lemma same_reg_trans [trans]: "same_reg u v \<Longrightarrow> same_reg v w \<Longrightarrow> same_reg u w"
  by (simp add: same_reg_def)

lemma upd_symbol_simps [simp]:
  "symbol_heap (upd_symbol i f w) = (symbol_heap w)(i := f (symbol_heap w i))"
  "chains (upd_symbol i f w) = chains w" "symbols (upd_symbol i f w) = symbols w"
  "handlers (upd_symbol i f w) = handlers w" "next_symbol (upd_symbol i f w) = next_symbol w"
  "module_callbacks (upd_symbol i f w) = module_callbacks w" "enabled (upd_symbol i f w) = enabled w"
  "updating (upd_symbol i f w) = updating w" "config (upd_symbol i f w) = config w"
  "sys_modules (upd_symbol i f w) = sys_modules w" "global_callbacks (upd_symbol i f w) = global_callbacks w"
  by (simp_all add: upd_symbol_def)

lemma upd_chain_simps [simp]:
  "symbol_heap (upd_chain t g w) = symbol_heap w" "chains (upd_chain t g w) = (chains w)(t := g (chains w t))"
  "symbols (upd_chain t g w) = symbols w" "handlers (upd_chain t g w) = handlers w"
  "next_symbol (upd_chain t g w) = next_symbol w" "module_callbacks (upd_chain t g w) = module_callbacks w"
  "enabled (upd_chain t g w) = enabled w" "updating (upd_chain t g w) = updating w"
  "config (upd_chain t g w) = config w" "sys_modules (upd_chain t g w) = sys_modules w"
  "global_callbacks (upd_chain t g w) = global_callbacks w"
  by (simp_all add: upd_chain_def)

lemma same_reg_upd_symbol:
  "(\<And>s. symbol_path (f s) = symbol_path s \<and> module_path (f s) = module_path s \<and> sym_handlers (f s) = sym_handlers s) \<Longrightarrow>
   same_reg w (upd_symbol i f w)"
  by (simp add: same_reg_def)

lemma same_reg_upd_chain: "same_reg w (upd_chain t g w)"
  by (simp add: same_reg_def)

lemma same_reg_obtain: "same_reg w (obtain_node e i t w)"
  by (auto simp: obtain_node_def same_reg_def split: prod.split)

lemma same_reg_apply: "same_reg w (apply_hook e i w)"
proof -
  have o: "same_reg w (obtain_node e i t w)" for t by (rule same_reg_obtain)
  show ?thesis
    using o by (auto simp: apply_hook_def Let_def same_reg_def split: option.split)
qed

lemma same_reg_hook: "same_reg w (hook e i w)"
proof -
  have "same_reg w (upd_symbol i (\<lambda>s. s\<lparr>sym_target := Some t\<rparr>) w)" for t
    by (rule same_reg_upd_symbol) simp
  then have "same_reg w (apply_hook e i (upd_symbol i (\<lambda>s. s\<lparr>sym_target := Some t\<rparr>) w))" for t
    using same_reg_apply same_reg_trans by blast
  then show ?thesis by (auto simp: hook_def Let_def same_reg_apply split: option.split)
qed

lemma same_reg_unhook: "same_reg w (unhook i w)"
  by (auto simp: unhook_def Let_def same_reg_def split: option.split)

lemma same_reg_update_hook: "same_reg w (snd (update_hook e i w))"
  by (simp add: update_hook_def Let_def same_reg_apply same_reg_unhook)

lemma same_reg_on_loaded: "same_reg w (on_module_loaded e i w)"
proof -
  let ?w1 = "upd_symbol i (\<lambda>s. s\<lparr>module_loaded := True, sym_target := import_target e (symbol_heap w i)\<rparr>) w"
  have "same_reg w ?w1" by (rule same_reg_upd_symbol) simp
  moreover have "same_reg ?w1 (upd_symbol i (\<lambda>s. s\<lparr>pending_hook := True\<rparr>) ?w1)" by (rule same_reg_upd_symbol) simp
  moreover have "same_reg ?w1 (apply_hook e i ?w1)" by (rule same_reg_apply)
  ultimately show ?thesis
    using same_reg_trans by (auto simp: on_module_loaded_def Let_def)
qed

lemma same_reg_register: "same_reg w (register_module_callback m i w)"
  by (simp add: register_module_callback_def same_reg_def Let_def)

lemma same_reg_watch: "same_reg w (watch_module e m i w)"
  using same_reg_register same_reg_on_loaded same_reg_trans by (simp add: watch_module_def Let_def) blast

lemma same_reg_unwatch: "same_reg w (unwatch_module m i w)"
  by (auto simp: unwatch_module_def same_reg_def Let_def split: option.split)

lemma same_reg_stop_watching: "same_reg w (stop_watching i w)"
  by (simp add: stop_watching_def same_reg_unwatch)

lemma same_reg_stop: "same_reg w (symbol_stop i w)"
  unfolding symbol_stop_def using same_reg_stop_watching same_reg_unhook same_reg_trans by blast

lemma same_reg_fold: "(\<And>x w. same_reg w (f x w)) \<Longrightarrow> same_reg w (fold f xs w)"
  by (induction xs arbitrary: w) (auto intro: same_reg_trans)

section \<open>Callbacks\<close>

lemma cbs_obtain [simp]: "module_callbacks (obtain_node e i t w) = module_callbacks w"
  by (auto simp: obtain_node_def split: prod.split)

lemma cbs_apply [simp]: "module_callbacks (apply_hook e i w) = module_callbacks w"
  by (auto simp: apply_hook_def Let_def split: option.split)

lemma cbs_hook [simp]: "module_callbacks (hook e i w) = module_callbacks w"
  by (auto simp: hook_def Let_def split: option.split)

lemma cbs_unhook [simp]: "module_callbacks (unhook i w) = module_callbacks w"
  by (auto simp: unhook_def Let_def split: option.split)

lemma cbs_update_hook [simp]: "module_callbacks (snd (update_hook e i w)) = module_callbacks w"
  by (simp add: update_hook_def Let_def)

lemma cbs_on_loaded [simp]: "module_callbacks (on_module_loaded e i w) = module_callbacks w"
  by (simp add: on_module_loaded_def Let_def)

text \<open>Every callback of module \<open>m\<close> is a symbol of the set \<open>R\<close> whose module is \<open>m\<close>, at most once.\<close>

definition callbacks_ok :: "'cfg world \<Rightarrow> nat set \<Rightarrow> bool" where
  "callbacks_ok w R \<longleftrightarrow> (\<forall>m cbs. dict_get (module_callbacks w) m = Some cbs \<longrightarrow>
     distinct cbs \<and> (\<forall>i \<in> set cbs. i \<in> R \<and> module_path (symbol_heap w i) = m))"

lemma callbacks_same:
  "callbacks_ok w R \<Longrightarrow> same_reg w w' \<Longrightarrow> module_callbacks w' = module_callbacks w \<Longrightarrow> callbacks_ok w' R"
  by (simp add: callbacks_ok_def same_reg_def)

lemma callbacks_mono: "callbacks_ok w R \<Longrightarrow> R \<subseteq> S \<Longrightarrow> callbacks_ok w S"
  unfolding callbacks_ok_def by blast

lemma callbacks_register:
  "callbacks_ok w R \<Longrightarrow> module_path (symbol_heap w i) = m \<Longrightarrow> callbacks_ok (register_module_callback m i w) (insert i R)"
  unfolding callbacks_ok_def register_module_callback_def by (auto simp: Let_def split: option.splits if_splits)

lemma callbacks_stop_watching:
  assumes "callbacks_ok w R"
  shows "callbacks_ok (stop_watching i w) (R - {i})"
  using assms unfolding callbacks_ok_def stop_watching_def unwatch_module_def
  by (auto simp: Let_def notin_set_remove1 split: option.splits if_splits dest: notin_set_remove1)

section \<open>Ownership\<close>

definition env_ok :: "env \<Rightarrow> bool" where
  "env_ok e \<longleftrightarrow> (\<forall>hs t. hook_funcs_ok e hs t \<and> build_ok e hs t) \<and> (\<forall>t. helper_ok e t \<and> install_ok e t)"

definition has_hook_at :: "'cfg world \<Rightarrow> nat \<Rightarrow> nat \<Rightarrow> bool" where
  "has_hook_at w c n \<longleftrightarrow> n \<in> members (chains w c) \<and> hook_func (nodes (chains w c) n) \<noteq> CallPrev"

definition owns :: "'cfg world \<Rightarrow> nat \<Rightarrow> nat \<Rightarrow> nat \<Rightarrow> bool" where
  "owns w i c n \<longleftrightarrow> hook_applied (symbol_heap w i) \<and> hook_chain_of (symbol_heap w i) = Some c \<and>
     hook_node (symbol_heap w i) = Some n"

definition hooks_owned :: "'cfg world \<Rightarrow> nat set \<Rightarrow> bool" where
  "hooks_owned w R \<longleftrightarrow> (\<forall>c n. has_hook_at w c n \<longrightarrow> (\<exists>i \<in> R. owns w i c n)) \<and>
     (\<forall>i. hook_applied (symbol_heap w i) \<longrightarrow> hook_chain_of (symbol_heap w i) \<noteq> None \<and> hook_node (symbol_heap w i) \<noteq> None) \<and>
     (\<forall>t. \<exists>xs. chain_list (chains w t) xs)"

lemma owned_at: "hooks_owned w R \<Longrightarrow> has_hook_at w c n \<Longrightarrow> \<exists>i \<in> R. owns w i c n"
  and owned_chain: "hooks_owned w R \<Longrightarrow> \<exists>xs. chain_list (chains w t) xs"
  by (auto simp only: hooks_owned_def)

lemma hooks_owned_mono: "hooks_owned w R \<Longrightarrow> R \<subseteq> S \<Longrightarrow> hooks_owned w S"
  unfolding hooks_owned_def by blast

lemma hooks_owned_frame:
  assumes "hooks_owned w R" "chains w' = chains w"
    and "\<And>i. i \<in> R \<Longrightarrow> hook_applied (symbol_heap w' i) = hook_applied (symbol_heap w i) \<and>
      hook_chain_of (symbol_heap w' i) = hook_chain_of (symbol_heap w i) \<and>
      hook_node (symbol_heap w' i) = hook_node (symbol_heap w i)"
    and "\<And>i. i \<notin> R \<Longrightarrow> hook_applied (symbol_heap w' i) \<Longrightarrow>
      hook_chain_of (symbol_heap w' i) \<noteq> None \<and> hook_node (symbol_heap w' i) \<noteq> None"
  shows "hooks_owned w' R"
  using assms unfolding hooks_owned_def has_hook_at_def owns_def by metis

lemma hooks_owned_drop:
  "hooks_owned w R \<Longrightarrow> \<not> hook_applied (symbol_heap w i) \<Longrightarrow> hooks_owned w (R - {i})"
  unfolding hooks_owned_def owns_def by blast

subsection \<open>Chains under the operations\<close>

lemma add_ok_id: "fst (add_chain_node True True b c) = Some (next_node_id c)"
  by (auto simp: add_chain_node_def replace_chain_def link_node_def Let_def split: prod.splits bool.splits option.splits)

lemma replace_chain_frame [simp]:
  "members (snd (replace_chain a b c)) = members c" "nodes (snd (replace_chain a b c)) = nodes c"
  by (simp_all add: replace_chain_def Let_def)

lemma link_members: "members (snd (link_node b c)) = insert (next_node_id c) (members c)"
  by (simp add: link_node_def Let_def)

lemma hook_func_set_node: "(\<And>m. hook_func (f m) = hook_func m) \<Longrightarrow> hook_func (nodes (set_node j f c) n) = hook_func (nodes c n)"
  by (simp add: set_node_def)

lemma link_hook_func:
  assumes "n \<noteq> next_node_id c"
  shows "hook_func (nodes (snd (link_node b c)) n) = hook_func (nodes c n)"
  using assms by (auto simp: link_node_def Let_def set_node_def split: bool.split option.split)

lemma last_or_in: "last_or d xs = Some y \<Longrightarrow> y \<in> set xs \<or> d = Some y"
  by (induction xs arbitrary: d) auto

lemma first_or_in: "first_or xs None = Some y \<Longrightarrow> y \<in> set xs"
  by (cases xs) auto

lemma link_new_hook:
  assumes "chain_list c xs"
  shows "hook_func (nodes (snd (link_node b c)) (next_node_id c)) = CallPrev"
proof -
  have "chain_head c = first_or xs None" "chain_tail c = last_or None xs" "\<forall>x \<in> set xs. x < next_node_id c"
    using assms by (simp_all add: chain_list_def)
  then have "chain_head c \<noteq> Some (next_node_id c)" "chain_tail c \<noteq> Some (next_node_id c)"
    using last_or_in[of None xs] first_or_in[of xs] by fastforce+
  then show ?thesis
    by (auto simp: link_node_def Let_def set_node_def split: bool.split option.split)
qed

lemma add_members: "members (snd (add_chain_node a b h c)) = insert (next_node_id c) (members c)"
  by (simp add: add_chain_snd link_members)

lemma add_hook_func:
  assumes "chain_list c xs"
  shows "hook_func (nodes (snd (add_chain_node a b h c)) n) =
    (if n = next_node_id c then CallPrev else hook_func (nodes c n))"
  using link_new_hook[OF assms] by (simp add: add_chain_snd link_hook_func)

lemma remove_members: "members (snd (remove_chain_node i c)) = members c - {i}"
  by (simp add: remove_chain_node_def Let_def)

lemma remove_hook_func: "hook_func (nodes (snd (remove_chain_node i c)) n) = hook_func (nodes c n)"
  by (auto simp: remove_chain_node_def Let_def set_node_def split: option.split)

lemma set_hook_simps:
  "members (set_hook_func i h c) = members c"
  "hook_func (nodes (set_hook_func i h c) n) = (if n = i then HookFn h else hook_func (nodes c n))"
  by (simp_all add: set_hook_func_def set_node_def)

lemma remove_list_ex: "\<exists>xs. chain_list c xs \<Longrightarrow> \<exists>xs. chain_list (snd (remove_chain_node i c)) xs"
  using remove_present(2) remove_absent by (metis snd_conv)

subsection \<open>Ownership under the operations of a symbol\<close>

lemma owned_install:
  assumes h: "hooks_owned w R" and i: "i \<in> R"
    and w': "chains w' = (chains w)(c := C)" "symbol_heap w' = (symbol_heap w)(i := s')"
    and s': "hook_applied s'" "hook_chain_of s' = Some c" "hook_node s' = Some n"
    and C: "\<exists>xs. chain_list C xs"
      "\<And>k. k \<noteq> n \<Longrightarrow> k \<in> members C \<Longrightarrow> hook_func (nodes C k) \<noteq> CallPrev \<Longrightarrow> has_hook_at w c k"
    and own: "\<And>c0 n0. owns w i c0 n0 \<Longrightarrow> c0 = c \<and> n0 = n"
  shows "hooks_owned w' R"
  unfolding hooks_owned_def
proof (intro conjI allI impI)
  fix c' k assume at: "has_hook_at w' c' k"
  show "\<exists>j \<in> R. owns w' j c' k"
  proof (cases "c' = c \<and> k = n")
    case True
    then show ?thesis using i s' w'(2) by (auto simp: owns_def)
  next
    case False
    then have "has_hook_at w c' k" using at C(2) w'(1) by (auto simp: has_hook_at_def split: if_splits)
    then obtain j where "j \<in> R" "owns w j c' k" using owned_at[OF h] by blast
    moreover from this have "j \<noteq> i" using own False by blast
    ultimately show ?thesis using w'(2) by (auto simp: owns_def)
  qed
next
  fix j assume "hook_applied (symbol_heap w' j)"
  then show "hook_chain_of (symbol_heap w' j) \<noteq> None" "hook_node (symbol_heap w' j) \<noteq> None"
    using h s' w'(2) by (auto simp: hooks_owned_def split: if_splits)
next
  fix t show "\<exists>xs. chain_list (chains w' t) xs"
    using h C(1) w'(1) by (simp add: hooks_owned_def)
qed

lemma owned_apply:
  assumes e: "env_ok e" and h: "hooks_owned w R" and i: "sym_handlers (symbol_heap w i) = [] \<or> i \<in> R"
  shows "hooks_owned (apply_hook e i w) R"
proof (cases "sym_handlers (symbol_heap w i) = [] \<or> sym_target (symbol_heap w i) = None")
  case True
  then show ?thesis using h by (auto simp: apply_hook_def Let_def split: option.split)
next
  case False
  then obtain t where t: "sym_target (symbol_heap w i) = Some t" and iR: "i \<in> R" using i by auto
  have ok: "hook_funcs_ok e hs u" "build_ok e hs u" "helper_ok e u" "install_ok e u" for hs u
    using e by (auto simp: env_ok_def)
  let ?s = "symbol_heap w i" and ?hs = "handler_list (symbol_heap w i)"
  show ?thesis
  proof (cases "hook_chain_of ?s")
    case None
    let ?n = "next_node_id (chains w t)"
    obtain C where C: "add_chain_node True True True (chains w t) = (Some ?n, C)"
      using add_ok_id[of True "chains w t"] by (cases "add_chain_node True True True (chains w t)") auto
    have C': "C = snd (add_chain_node True True True (chains w t))" using C by simp
    obtain xs where xs: "chain_list (chains w t) xs" using owned_chain[OF h] by blast
    have run: "apply_hook e i w =
        upd_symbol i (\<lambda>s. s\<lparr>hook_applied := True, pending_hook := False, handlers_changed := False\<rparr>)
          (upd_chain t (set_hook_func ?n ?hs)
            (upd_symbol i (\<lambda>s. s\<lparr>hook_chain_of := Some t, hook_node := Some ?n\<rparr>) (upd_chain t (\<lambda>_. C) w)))"
      using False t None by (simp add: apply_hook_def Let_def ok obtain_node_def obtain_fails_def C)
    show ?thesis
    proof (rule owned_install[OF h iR, where c = t and n = ?n and C = "set_hook_func ?n ?hs C"
          and s' = "(symbol_heap (apply_hook e i w)) i"])
      show "\<exists>xs. chain_list (set_hook_func ?n ?hs C) xs"
        using add_chain_list[OF xs] by (auto simp: chain_list_set_hook C')
    next
      fix k assume "k \<noteq> ?n" "k \<in> members (set_hook_func ?n ?hs C)"
        "hook_func (nodes (set_hook_func ?n ?hs C) k) \<noteq> CallPrev"
      then show "has_hook_at w t k"
        by (simp add: set_hook_simps C' add_members add_hook_func[OF xs] has_hook_at_def)
    next
      fix c0 n0 assume "owns w i c0 n0"
      then show "c0 = t \<and> n0 = ?n" using None by (simp add: owns_def)
    qed (auto simp: run)
  next
    case (Some c)
    have nf: "\<not> obtain_fails e i t w" "obtain_node e i t w = w"
      using Some by (simp_all add: obtain_fails_def obtain_node_def)
    show ?thesis
    proof (cases "hook_node ?s")
      case None
      then have na: "\<not> hook_applied ?s" using h by (auto simp: hooks_owned_def)
      have "apply_hook e i w = upd_symbol i (\<lambda>s. s\<lparr>hook_applied := False\<rparr>) w"
        using False t Some None by (simp add: apply_hook_def Let_def ok nf)
      moreover have "hooks_owned (upd_symbol i (\<lambda>s. s\<lparr>hook_applied := False\<rparr>) w) R"
        by (rule hooks_owned_frame[OF h]) (use na h in \<open>auto simp: hooks_owned_def split: if_splits\<close>)
      ultimately show ?thesis by simp
    next
      case n: (Some n)
      have run: "apply_hook e i w =
          upd_symbol i (\<lambda>s. s\<lparr>hook_applied := True, pending_hook := False, handlers_changed := False\<rparr>)
            (upd_chain c (set_hook_func n ?hs) w)"
        using False t Some n by (simp add: apply_hook_def Let_def ok nf)
      show ?thesis
      proof (rule owned_install[OF h iR, where c = c and n = n and C = "set_hook_func n ?hs (chains w c)"
            and s' = "(symbol_heap (apply_hook e i w)) i"])
        show "\<exists>xs. chain_list (set_hook_func n ?hs (chains w c)) xs"
          using h by (simp add: chain_list_set_hook hooks_owned_def)
      qed (use Some n in \<open>auto simp: run set_hook_simps has_hook_at_def owns_def\<close>)
    qed
  qed
qed

lemma owned_unhook:
  assumes h: "hooks_owned w R" shows "hooks_owned (unhook i w) R" "\<not> hook_applied (symbol_heap (unhook i w) i)"
proof -
  have "hooks_owned (unhook i w) R \<and> \<not> hook_applied (symbol_heap (unhook i w) i)"
  proof (cases "hook_applied (symbol_heap w i)")
    case False
    then show ?thesis using h by (simp add: unhook_def Let_def)
  next
    case True
    then obtain c n where cn: "hook_chain_of (symbol_heap w i) = Some c" "hook_node (symbol_heap w i) = Some n"
      using h by (auto simp: hooks_owned_def)
    have run: "unhook i w = upd_symbol i (\<lambda>s. s\<lparr>hook_applied := False, pending_hook := False\<rparr>)
        (upd_symbol i (\<lambda>s. s\<lparr>hook_node := None\<rparr>) (upd_chain c (\<lambda>ch. snd (remove_chain_node n ch)) w))"
      using True cn by (simp add: unhook_def Let_def)
    have "\<exists>j \<in> R. owns (unhook i w) j c' k" if "has_hook_at (unhook i w) c' k" for c' k
    proof -
      have at: "has_hook_at w c' k" "\<not> (c' = c \<and> k = n)"
        using that by (auto simp: run has_hook_at_def remove_members remove_hook_func split: if_splits)
      then obtain j where "j \<in> R" "owns w j c' k" using owned_at[OF h] by blast
      moreover from this have "j \<noteq> i" using at(2) cn by (auto simp: owns_def)
      ultimately show ?thesis by (auto simp: run owns_def)
    qed
    moreover have "\<exists>xs. chain_list (chains (unhook i w) t) xs" for t
      using owned_chain[OF h] remove_list_ex[OF owned_chain[OF h]] by (simp add: run)
    ultimately show ?thesis using h by (auto simp: hooks_owned_def run)
  qed
  then show "hooks_owned (unhook i w) R" "\<not> hook_applied (symbol_heap (unhook i w) i)" by auto
qed

lemma owned_heap_only:
  assumes "hooks_owned w R"
    and "\<And>s. hook_applied (f s) = hook_applied s \<and> hook_chain_of (f s) = hook_chain_of s \<and> hook_node (f s) = hook_node s"
  shows "hooks_owned (upd_symbol i f w) R"
  using assms(1) by (intro hooks_owned_frame[OF assms(1)]) (auto simp: assms(2) hooks_owned_def)

lemma owned_hook:
  assumes e: "env_ok e" and h: "hooks_owned w R" and i: "i \<in> R"
  shows "hooks_owned (hook e i w) R"
proof -
  have "hooks_owned (upd_symbol i (\<lambda>s. s\<lparr>sym_target := Some t\<rparr>) w) R" for t
    by (rule owned_heap_only[OF h]) simp
  then show ?thesis
    using owned_apply[OF e] h i by (auto simp: hook_def Let_def split: option.split)
qed

lemma owned_update_hook:
  "env_ok e \<Longrightarrow> hooks_owned w R \<Longrightarrow> i \<in> R \<Longrightarrow> hooks_owned (snd (update_hook e i w)) R"
  by (simp add: update_hook_def Let_def owned_unhook owned_apply)

lemma owned_on_loaded:
  assumes e: "env_ok e" and h: "hooks_owned w R" and i: "sym_handlers (symbol_heap w i) = [] \<or> i \<in> R"
  shows "hooks_owned (on_module_loaded e i w) R"
proof -
  let ?w1 = "upd_symbol i (\<lambda>s. s\<lparr>module_loaded := True, sym_target := import_target e (symbol_heap w i)\<rparr>) w"
  have h1: "hooks_owned ?w1 R" by (rule owned_heap_only[OF h]) simp
  have "hooks_owned (apply_hook e i ?w1) R" by (rule owned_apply[OF e h1]) (use i in simp)
  moreover have "hooks_owned (upd_symbol i (\<lambda>s. s\<lparr>pending_hook := True\<rparr>) ?w1) R"
    by (rule owned_heap_only[OF h1]) simp
  ultimately show ?thesis
    using h1 by (cases "import_target e (symbol_heap w i)") (simp_all add: on_module_loaded_def Let_def)
qed

lemma owned_register: "hooks_owned (register_module_callback m i w) R = hooks_owned w R"
  by (simp add: hooks_owned_def has_hook_at_def owns_def register_module_callback_def Let_def)

lemma owned_watch:
  assumes "env_ok e" "hooks_owned w R" "sym_handlers (symbol_heap w i) = [] \<or> i \<in> R"
  shows "hooks_owned (watch_module e m i w) R"
proof -
  have "hooks_owned (register_module_callback m i w) R" using assms(2) by (simp add: owned_register)
  moreover have "sym_handlers (symbol_heap (register_module_callback m i w) i) = [] \<or> i \<in> R"
    using assms(3) by (simp add: register_module_callback_def Let_def)
  ultimately show ?thesis using assms(1) by (simp add: watch_module_def Let_def owned_on_loaded)
qed

lemma owned_unwatch: "hooks_owned (unwatch_module m i w) R = hooks_owned w R"
  by (auto simp: hooks_owned_def has_hook_at_def owns_def unwatch_module_def Let_def split: option.split)

lemma owned_stop_watching: "hooks_owned (stop_watching i w) R = hooks_owned w R"
  by (simp add: stop_watching_def owned_unwatch)

lemma owned_stop:
  "hooks_owned w R \<Longrightarrow> hooks_owned (symbol_stop i w) R \<and> \<not> hook_applied (symbol_heap (symbol_stop i w) i)"
  using owned_unhook[of "stop_watching i w" R i] by (simp add: symbol_stop_def owned_stop_watching)

lemma owned_congs [simp]:
  "hooks_owned (w\<lparr>handlers := a\<rparr>) R = hooks_owned w R" "hooks_owned (w\<lparr>symbols := b\<rparr>) R = hooks_owned w R"
  "hooks_owned (w\<lparr>enabled := d\<rparr>) R = hooks_owned w R" "hooks_owned (w\<lparr>updating := d\<rparr>) R = hooks_owned w R"
  "hooks_owned (w\<lparr>config := cfg\<rparr>) R = hooks_owned w R"
  by (simp_all add: hooks_owned_def has_hook_at_def owns_def)

lemma callbacks_congs [simp]:
  "callbacks_ok (w\<lparr>handlers := a\<rparr>) R = callbacks_ok w R" "callbacks_ok (w\<lparr>symbols := b\<rparr>) R = callbacks_ok w R"
  "callbacks_ok (w\<lparr>enabled := d\<rparr>) R = callbacks_ok w R" "callbacks_ok (w\<lparr>updating := d\<rparr>) R = callbacks_ok w R"
  "callbacks_ok (w\<lparr>config := cfg\<rparr>) R = callbacks_ok w R"
  by (simp_all add: callbacks_ok_def)

text \<open>
  A raise while an installed hook is rebuilt clears \<^verbatim>\<open>_hook_applied\<close> and leaves the old hook function in its
  node; \<^verbatim>\<open>unhook\<close> then does nothing, so the hook can no longer be removed.
\<close>

lemma failed_update_leaks:
  assumes "hook_chain_of (symbol_heap w i) = Some c" "hook_node (symbol_heap w i) = Some n" "has_hook_at w c n"
    and "sym_handlers (symbol_heap w i) \<noteq> []" "sym_target (symbol_heap w i) = Some t"
    and "hook_funcs_ok e (handler_list (symbol_heap w i)) t" "\<not> build_ok e (handler_list (symbol_heap w i)) c"
  shows "has_hook_at (unhook i (apply_hook e i w)) c n"
  using assms
  by (simp add: apply_hook_def Let_def obtain_node_def obtain_fails_def unhook_def has_hook_at_def)

end
