(* ===== verification/Manager_Inv.thy ===== *)
theory Manager_Inv
  imports Hook_Owner
begin

text \<open>
  The invariant of the manager and its preservation by adding, removing and updating single handlers.

  \<open>reg_ok\<close>: the registry of symbols is the registry of handlers grouped by symbol path. \<open>wf_world\<close> adds
  that ids determine their symbol (\<open>name\<close>), that hooks belong to registered symbols and that the watcher's
  callbacks are those of registered symbols.
\<close>

declare map_of_eq_Some_iff [simp del] Some_eq_map_of_iff [simp del]

section \<open>The invariant\<close>

definition of_symbol :: "string \<Rightarrow> (string, handler) dict \<Rightarrow> string \<Rightarrow> handler option" where
  "of_symbol p d hid = (case dict_get d hid of
     Some h \<Rightarrow> if handler_symbol h = p then Some h else None | None \<Rightarrow> None)"

definition reg_ok :: "'cfg world \<Rightarrow> bool" where
  "reg_ok w \<longleftrightarrow> dict_ok (symbols w) \<and> dict_ok (handlers w) \<and>
     (\<forall>p i. dict_get (symbols w) p = Some i \<longrightarrow> i < next_symbol w \<and> symbol_path (symbol_heap w i) = p \<and>
        sym_handlers (symbol_heap w i) \<noteq> [] \<and> dict_ok (sym_handlers (symbol_heap w i)) \<and>
        dict_get (sym_handlers (symbol_heap w i)) = of_symbol p (handlers w)) \<and>
     (\<forall>hid h. dict_get (handlers w) hid = Some h \<longrightarrow> dict_get (symbols w) (handler_symbol h) \<noteq> None)"

definition ids_ok :: "(string \<Rightarrow> string) \<Rightarrow> (string, handler) dict \<Rightarrow> bool" where
  "ids_ok name d \<longleftrightarrow> (\<forall>hid h. dict_get d hid = Some h \<longrightarrow> handler_id h = hid \<and> handler_symbol h = name hid)"

definition registered :: "'cfg world \<Rightarrow> nat set" where
  "registered w = {i. \<exists>p. dict_get (symbols w) p = Some i}"

definition wf_world :: "(string \<Rightarrow> string) \<Rightarrow> 'cfg world \<Rightarrow> bool" where
  "wf_world name w \<longleftrightarrow> reg_ok w \<and> ids_ok name (handlers w) \<and> hooks_owned w (registered w) \<and>
     callbacks_ok w (registered w)"

lemma reg_symbol:
  assumes "reg_ok w" "dict_get (symbols w) p = Some i"
  shows "i < next_symbol w" "symbol_path (symbol_heap w i) = p" "sym_handlers (symbol_heap w i) \<noteq> []"
    "dict_ok (sym_handlers (symbol_heap w i))"
    "dict_get (sym_handlers (symbol_heap w i)) = of_symbol p (handlers w)"
  using assms unfolding reg_ok_def by blast+

lemma reg_handler:
  "reg_ok w \<Longrightarrow> dict_get (handlers w) hid = Some h \<Longrightarrow> \<exists>i. dict_get (symbols w) (handler_symbol h) = Some i"
  unfolding reg_ok_def by blast

lemma reg_inj:
  "reg_ok w \<Longrightarrow> dict_get (symbols w) p = Some i \<Longrightarrow> dict_get (symbols w) q = Some i \<Longrightarrow> p = q"
  using reg_symbol(2) by blast

lemma wf_same:
  assumes "wf_world name w" "same_reg w w'" "hooks_owned w' (registered w)" "module_callbacks w' = module_callbacks w"
  shows "wf_world name w'"
proof -
  have "reg_ok w'" "registered w' = registered w" "ids_ok name (handlers w')"
    using assms(1,2) by (simp_all add: wf_world_def reg_ok_def same_reg_def registered_def)
  moreover have "callbacks_ok w' (registered w)"
    using assms callbacks_same by (auto simp: wf_world_def)
  ultimately show ?thesis using assms(3) by (simp add: wf_world_def)
qed

lemma wf_congs [simp]:
  "wf_world name (w\<lparr>enabled := a\<rparr>) = wf_world name w" "wf_world name (w\<lparr>updating := a\<rparr>) = wf_world name w"
  "wf_world name (w\<lparr>config := cfg\<rparr>) = wf_world name w"
  by (simp_all add: wf_world_def reg_ok_def registered_def)

section \<open>Adding a handler\<close>

lemma of_symbol_set:
  "of_symbol p (dict_set hid h d) = (if handler_symbol h = p then (of_symbol p d)(hid \<mapsto> h) else (of_symbol p d)(hid := None))"
  by (rule ext) (simp add: of_symbol_def)

lemma of_symbol_del: "of_symbol p (dict_del hid d) = (of_symbol p d)(hid := None)"
  by (rule ext) (simp add: of_symbol_def)

lemma of_symbol_None: "dict_get d hid = None \<Longrightarrow> of_symbol p d hid = None"
  by (simp add: of_symbol_def)

lemma dict_set_ne [simp]: "dict_set k v d \<noteq> []"
  by (cases d) auto

text \<open>One symbol path \<open>p\<close> gets the handlers \<open>E\<close>, all other paths stay: the shape of every single change.\<close>

lemma regroup:
  assumes reg: "reg_ok w" and hd: "dict_ok (handlers w')" and E: "dict_ok E" "dict_get E = of_symbol p (handlers w')"
    and other: "\<And>q. q \<noteq> p \<Longrightarrow> of_symbol q (handlers w') = of_symbol q (handlers w)"
    and syms: "symbols w' = (if E = [] then dict_del p (symbols w) else dict_set p i (symbols w))"
    and i: "E \<noteq> [] \<Longrightarrow> i < next_symbol w' \<and> symbol_path (symbol_heap w' i) = p \<and> sym_handlers (symbol_heap w' i) = E"
    and own: "\<And>q. dict_get (symbols w) q = Some i \<Longrightarrow> q = p"
    and heap: "\<And>q j. dict_get (symbols w) q = Some j \<Longrightarrow> j \<noteq> i \<Longrightarrow> j < next_symbol w' \<and>
       symbol_path (symbol_heap w' j) = symbol_path (symbol_heap w j) \<and>
       sym_handlers (symbol_heap w' j) = sym_handlers (symbol_heap w j)"
  shows "reg_ok w'"
proof -
  have get: "dict_get (symbols w') q = (if q = p then (if E = [] then None else Some i) else dict_get (symbols w) q)" for q
    using syms by auto
  have old: "j \<noteq> i \<and> dict_get (symbols w) q = Some j" if "dict_get (symbols w') q = Some j" "q \<noteq> p" for q j
    using that own get by auto
  have all: "j < next_symbol w' \<and> symbol_path (symbol_heap w' j) = q \<and> sym_handlers (symbol_heap w' j) \<noteq> [] \<and>
      dict_ok (sym_handlers (symbol_heap w' j)) \<and> dict_get (sym_handlers (symbol_heap w' j)) = of_symbol q (handlers w')"
    if q: "dict_get (symbols w') q = Some j" for q j
  proof (cases "q = p")
    case True
    then show ?thesis using q get i E by (auto split: if_splits)
  next
    case False
    from old[OF q False] have j: "dict_get (symbols w) q = Some j" "j \<noteq> i" by auto
    show ?thesis using heap[OF j] reg_symbol[OF reg j(1)] other[OF False] by simp
  qed
  have known: "dict_get (symbols w') (handler_symbol h) \<noteq> None" if h: "dict_get (handlers w') hid = Some h" for hid h
  proof (cases "handler_symbol h = p")
    case True
    then have "dict_get E hid = Some h" using h E(2) by (simp add: of_symbol_def)
    then have "E \<noteq> []" by auto
    then show ?thesis using True get by simp
  next
    case False
    have "of_symbol (handler_symbol h) (handlers w') hid = Some h" using h by (simp add: of_symbol_def)
    then have "of_symbol (handler_symbol h) (handlers w) hid = Some h" using other[OF False] by simp
    then have "dict_get (handlers w) hid = Some h" by (auto simp: of_symbol_def split: option.splits if_splits)
    then show ?thesis using reg_handler[OF reg] False get by fastforce
  qed
  have "dict_ok (symbols w')" using reg syms by (simp add: reg_ok_def)
  then show ?thesis unfolding reg_ok_def using hd all known by blast
qed

lemma of_symbol_other:
  assumes "dict_get d hid = None \<or> (\<exists>k. dict_get d hid = Some k \<and> handler_symbol k = p)" "q \<noteq> p" "handler_symbol h = p"
  shows "of_symbol q (dict_set hid h d) = of_symbol q d" "of_symbol q (dict_del hid d) = of_symbol q d"
  using assms by (auto simp: of_symbol_def fun_eq_iff)

lemma dict_set_known: "dict_get d k = Some v \<Longrightarrow> dict_set k v d = d"
  by (induction d) (auto split: if_splits)

lemma add_existing:
  assumes wf: "wf_world name w" and new: "dict_get (handlers w) (handler_id h) = None"
    and p: "dict_get (symbols w) (handler_symbol h) = Some i" and id: "name (handler_id h) = handler_symbol h"
  shows "wf_world name (upd_symbol i (sym_add_handler h) w\<lparr>handlers := dict_set (handler_id h) h (handlers w)\<rparr>)"
proof -
  let ?w = "upd_symbol i (sym_add_handler h) w\<lparr>handlers := dict_set (handler_id h) h (handlers w)\<rparr>"
  have reg: "reg_ok w" using wf by (simp add: wf_world_def)
  note s = reg_symbol[OF reg p]
  have fresh: "dict_get (sym_handlers (symbol_heap w i)) (handler_id h) = None"
    using s(5) of_symbol_None[OF new] by simp
  let ?E = "dict_set (handler_id h) h (sym_handlers (symbol_heap w i))"
  have sh: "sym_add_handler h (symbol_heap w i) = (symbol_heap w i)\<lparr>sym_handlers := ?E, handlers_changed := True\<rparr>"
    using fresh by (simp add: sym_add_handler_def dict_has_iff)
  have "reg_ok ?w"
  proof (rule regroup[OF reg, where E = ?E and i = i and p = "handler_symbol h"])
    show "dict_get ?E = of_symbol (handler_symbol h) (handlers ?w)"
      using s(5) by (auto simp: of_symbol_set)
  next
    fix q assume "q \<noteq> handler_symbol h"
    then show "of_symbol q (handlers ?w) = of_symbol q (handlers w)" using new of_symbol_other(1) by simp
  qed (use reg s p sh reg_inj[OF reg] reg_symbol(1)[OF reg] in \<open>auto simp: dict_set_known reg_ok_def\<close>)
  moreover have "ids_ok name (handlers ?w)" using wf id by (simp add: wf_world_def ids_ok_def)
  moreover have "registered ?w = registered w" by (simp add: registered_def)
  moreover have "hooks_owned ?w (registered w)"
    using wf by (simp add: wf_world_def owned_heap_only sym_add_handler_def)
  moreover have "callbacks_ok ?w (registered w)"
    using wf by (auto simp: wf_world_def callbacks_ok_def sym_add_handler_def)
  ultimately show ?thesis by (simp add: wf_world_def)
qed

lemma new_symbol_run:
  assumes wf: "wf_world name w" and e: "env_ok e" and run: "new_symbol e p prefixes w = (Some i, w1)"
  shows "i = next_symbol w" "next_symbol w1 = Suc i" "symbols w1 = symbols w" "handlers w1 = handlers w"
    "symbol_path (symbol_heap w1 i) = p" "sym_handlers (symbol_heap w1 i) = []"
    "\<And>j. j \<noteq> i \<Longrightarrow> symbol_path (symbol_heap w1 j) = symbol_path (symbol_heap w j) \<and>
           sym_handlers (symbol_heap w1 j) = sym_handlers (symbol_heap w j)"
    "hooks_owned w1 (registered w)" "callbacks_ok w1 (insert i (registered w))"
    "enabled w1 = enabled w" "updating w1 = updating w" "config w1 = config w"
proof -
  obtain m a where ma: "split1 (CHR '':'') p = Some (m, a)"
    using run by (auto simp: new_symbol_def split: option.splits)
  let ?i = "next_symbol w"
  let ?s = "\<lparr>symbol_path = p, module_path = m, attr_path = a, sym_handlers = [], hook_applied = False,
     hook_node = None, hook_chain_of = None, handlers_changed = False, module_loaded = False,
     pending_hook = False, sym_target = None, sym_prefixes = prefixes\<rparr>"
  let ?w0 = "upd_symbol ?i (\<lambda>_. ?s) (w\<lparr>next_symbol := Suc ?i\<rparr>)"
  have i: "i = ?i" and w1: "w1 = watch_module e m ?i ?w0" using run ma by (auto simp: new_symbol_def Let_def)
  show "i = ?i" by (rule i)
  have fresh: "?i \<notin> registered w"
    using wf reg_symbol(1) by (auto simp: wf_world_def registered_def)
  have same: "same_reg ?w0 w1" unfolding w1 by (rule same_reg_watch)
  then show "next_symbol w1 = Suc i" "symbols w1 = symbols w" "handlers w1 = handlers w"
    "symbol_path (symbol_heap w1 i) = p" "sym_handlers (symbol_heap w1 i) = []"
    "enabled w1 = enabled w" "updating w1 = updating w" "config w1 = config w"
    by (simp_all add: same_reg_def i)
  show "symbol_path (symbol_heap w1 j) = symbol_path (symbol_heap w j) \<and>
      sym_handlers (symbol_heap w1 j) = sym_handlers (symbol_heap w j)" if "j \<noteq> i" for j
    using same that by (simp add: same_reg_def i)
  have h: "hooks_owned w (registered w)" using wf by (simp add: wf_world_def)
  have "hooks_owned ?w0 (registered w)"
    by (rule hooks_owned_frame[OF h]) (use fresh h in \<open>auto simp: hooks_owned_def split: if_splits\<close>)
  then show "hooks_owned w1 (registered w)" unfolding w1 by (rule owned_watch[OF e]) simp
  have "callbacks_ok ?w0 (registered w)"
    using wf fresh by (auto simp: wf_world_def callbacks_ok_def)
  then have "callbacks_ok (register_module_callback m ?i ?w0) (insert ?i (registered w))"
    by (rule callbacks_register) simp
  then show "callbacks_ok w1 (insert i (registered w))"
    unfolding w1 i watch_module_def Let_def using callbacks_same[OF _ same_reg_on_loaded] by auto
qed

lemma add_new:
  assumes wf: "wf_world name w" and e: "env_ok e" and new: "dict_get (handlers w) (handler_id h) = None"
    and p: "dict_get (symbols w) (handler_symbol h) = None" and id: "name (handler_id h) = handler_symbol h"
    and run: "new_symbol e (handler_symbol h) prefixes w = (Some i, w1)"
  shows "wf_world name (upd_symbol i (sym_add_handler h) (w1\<lparr>symbols := dict_set (handler_symbol h) i (symbols w1)\<rparr>)
           \<lparr>handlers := dict_set (handler_id h) h (handlers w1)\<rparr>)"
proof -
  let ?w = "upd_symbol i (sym_add_handler h) (w1\<lparr>symbols := dict_set (handler_symbol h) i (symbols w1)\<rparr>)
           \<lparr>handlers := dict_set (handler_id h) h (handlers w1)\<rparr>"
  have reg: "reg_ok w" using wf by (simp add: wf_world_def)
  note n = new_symbol_run[OF wf e run]
  let ?E = "[(handler_id h, h)]"
  have sh: "sym_add_handler h (symbol_heap w1 i) = (symbol_heap w1 i)\<lparr>sym_handlers := ?E, handlers_changed := True\<rparr>"
    using n(6) by (simp add: sym_add_handler_def dict_has_def)
  have none: "of_symbol (handler_symbol h) (handlers w) = (\<lambda>_. None)"
    using p reg_handler[OF reg] by (force simp: of_symbol_def split: option.split)
  have lt: "j < i" if "dict_get (symbols w) q = Some j" for q j using reg_symbol(1)[OF reg that] n(1) by simp
  have "reg_ok ?w"
  proof (rule regroup[OF reg, where E = ?E and i = i and p = "handler_symbol h"])
    show "dict_get ?E = of_symbol (handler_symbol h) (handlers ?w)"
      using none n(4) by (auto simp: of_symbol_set)
  next
    fix q assume "q \<noteq> handler_symbol h"
    then show "of_symbol q (handlers ?w) = of_symbol q (handlers w)" using new n(4) of_symbol_other(1) by simp
  next
    fix q assume "dict_get (symbols w) q = Some i"
    then show "q = handler_symbol h" using lt by blast
  next
    fix q j assume "dict_get (symbols w) q = Some j" "j \<noteq> i"
    then show "j < next_symbol ?w \<and> symbol_path (symbol_heap ?w j) = symbol_path (symbol_heap w j) \<and>
       sym_handlers (symbol_heap ?w j) = sym_handlers (symbol_heap w j)" using n lt by fastforce
  qed (use reg n sh in \<open>auto simp: reg_ok_def\<close>)
  moreover have "ids_ok name (handlers ?w)" using wf id n(4) by (simp add: wf_world_def ids_ok_def)
  moreover have r: "registered ?w = insert i (registered w)"
    using p n(3) by (auto simp: registered_def) (metis option.distinct(1))
  moreover have "hooks_owned ?w (insert i (registered w))"
    using hooks_owned_mono[OF n(8), of "insert i (registered w)"]
    by (simp add: owned_heap_only sym_add_handler_def subset_insertI)
  moreover have "callbacks_ok ?w (insert i (registered w))"
    using n(9) by (auto simp: callbacks_ok_def sym_add_handler_def)
  ultimately show ?thesis by (simp add: wf_world_def)
qed

lemma add_handler_wf:
  assumes wf: "wf_world name w" and e: "env_ok e" and new: "dict_get (handlers w) (handler_id h) = None"
    and id: "name (handler_id h) = handler_symbol h" and run: "add_handler ld e h w = (ok, w')"
  shows "wf_world name w'" "enabled w' = enabled w" "updating w' = updating w" "config w' = config w"
    "handlers w' = (if ok then dict_set (handler_id h) h (handlers w) else handlers w)"
proof -
  have "wf_world name w' \<and> enabled w' = enabled w \<and> updating w' = updating w \<and> config w' = config w \<and>
    handlers w' = (if ok then dict_set (handler_id h) h (handlers w) else handlers w)"
  proof (cases "dict_get (symbols w) (handler_symbol h)")
    case (Some i)
    then show ?thesis using run add_existing[OF wf new Some id] by (auto simp: add_handler_def Let_def)
  next
    case None
    show ?thesis
    proof (cases "split1 (CHR '':'') (handler_symbol h)")
      case None
      then show ?thesis using run \<open>dict_get (symbols w) (handler_symbol h) = None\<close> wf
        by (auto simp: add_handler_def Let_def new_symbol_def)
    next
      case (Some ma)
      then obtain i w1 where new_run: "new_symbol e (handler_symbol h) (symbol_prefixes ld (config w)) w = (Some i, w1)"
        by (cases ma) (auto simp: new_symbol_def Let_def)
      show ?thesis
        using run None new_run add_new[OF wf e new None id new_run] new_symbol_run[OF wf e new_run]
        by (auto simp: add_handler_def Let_def)
    qed
  qed
  then show "wf_world name w'" "enabled w' = enabled w" "updating w' = updating w" "config w' = config w"
    "handlers w' = (if ok then dict_set (handler_id h) h (handlers w) else handlers w)" by auto
qed

section \<open>Removing a handler\<close>

lemma registered_del:
  assumes "reg_ok w" "dict_get (symbols w) p = Some i"
  shows "{j. \<exists>q. dict_get (dict_del p (symbols w)) q = Some j} = registered w - {i}"
  using reg_inj[OF assms(1)] assms(2) by (auto simp: registered_def) (metis option.inject)

lemma remove_handler_wf:
  assumes wf: "wf_world name w" and h: "dict_get (handlers w) hid = Some h"
  shows "wf_world name (remove_handler hid w)" "handlers (remove_handler hid w) = dict_del hid (handlers w)"
    "enabled (remove_handler hid w) = enabled w" "updating (remove_handler hid w) = updating w"
    "config (remove_handler hid w) = config w"
proof -
  have reg: "reg_ok w" using wf by (simp add: wf_world_def)
  let ?p = "handler_symbol h"
  obtain i where p: "dict_get (symbols w) ?p = Some i" using reg_handler[OF reg h] by blast
  note s = reg_symbol[OF reg p]
  let ?E = "dict_del hid (sym_handlers (symbol_heap w i))"
  let ?w2 = "upd_symbol i (sym_remove_handler hid) (w\<lparr>handlers := dict_del hid (handlers w)\<rparr>)"
  have "dict_get (sym_handlers (symbol_heap w i)) hid = Some h" using s(5) h by (simp add: of_symbol_def)
  then have sh: "sym_remove_handler hid (symbol_heap w i) = (symbol_heap w i)\<lparr>sym_handlers := ?E, handlers_changed := True\<rparr>"
    by (simp add: sym_remove_handler_def dict_has_iff)
  have own2: "hooks_owned ?w2 (registered w)"
    using wf by (simp add: wf_world_def owned_heap_only sym_remove_handler_def)
  have cb2: "callbacks_ok ?w2 (registered w)"
    using wf by (auto simp: wf_world_def callbacks_ok_def sym_remove_handler_def)
  have E: "dict_get ?E = of_symbol ?p (dict_del hid (handlers w))"
    using s(5) by (auto simp: of_symbol_del)
  have other: "of_symbol q (dict_del hid (handlers w)) = of_symbol q (handlers w)" if "q \<noteq> ?p" for q
    using that h of_symbol_other(2) by blast
  have ids: "ids_ok name (dict_del hid (handlers w))" using wf by (auto simp: wf_world_def ids_ok_def)
  have "wf_world name (remove_handler hid w) \<and> handlers (remove_handler hid w) = dict_del hid (handlers w) \<and>
    enabled (remove_handler hid w) = enabled w \<and> updating (remove_handler hid w) = updating w \<and>
    config (remove_handler hid w) = config w"
  proof (cases "?E = []")
    case False
    have run: "remove_handler hid w = ?w2" using h p False sh by (simp add: remove_handler_def Let_def)
    have "reg_ok ?w2"
    proof (rule regroup[OF reg, where E = ?E and i = i and p = ?p])
      show "dict_get ?E = of_symbol ?p (handlers ?w2)" using E by simp
    qed (use reg s p sh False other reg_inj[OF reg] reg_symbol(1)[OF reg] in
        \<open>auto simp: dict_set_known reg_ok_def\<close>)
    then show ?thesis
      unfolding run using own2 cb2 ids by (simp add: wf_world_def registered_def)
  next
    case True
    let ?w3 = "symbol_stop i ?w2"
    let ?w4 = "?w3\<lparr>symbols := dict_del ?p (symbols ?w3)\<rparr>"
    have run: "remove_handler hid w = ?w4" using h p True sh by (simp add: remove_handler_def Let_def)
    have same: "same_reg ?w2 ?w3" by (rule same_reg_stop)
    have h4: "handlers ?w4 = dict_del hid (handlers w)" "symbols ?w4 = dict_del ?p (symbols w)"
      "enabled ?w4 = enabled w" "updating ?w4 = updating w" "config ?w4 = config w"
      "next_symbol ?w4 = next_symbol w"
      "\<And>j. j \<noteq> i \<Longrightarrow> symbol_path (symbol_heap ?w4 j) = symbol_path (symbol_heap w j) \<and>
        sym_handlers (symbol_heap ?w4 j) = sym_handlers (symbol_heap w j)"
      using same by (simp_all add: same_reg_def)
    have "reg_ok ?w4"
    proof (rule regroup[OF reg, where E = "[]" and i = i and p = ?p])
      show "dict_get [] = of_symbol ?p (handlers ?w4)" using E True h4(1) by simp
    next
      show "symbols ?w4 = (if [] = ([] :: (string, handler) dict) then dict_del ?p (symbols w) else dict_set ?p i (symbols w))"
        using h4(2) by simp
    next
      fix q assume "q \<noteq> ?p"
      then show "of_symbol q (handlers ?w4) = of_symbol q (handlers w)" using other h4(1) by simp
    next
      fix q assume "dict_get (symbols w) q = Some i"
      then show "q = ?p" using reg_inj[OF reg] p by blast
    next
      fix q j assume "dict_get (symbols w) q = Some j" "j \<noteq> i"
      then show "j < next_symbol ?w4 \<and> symbol_path (symbol_heap ?w4 j) = symbol_path (symbol_heap w j) \<and>
        sym_handlers (symbol_heap ?w4 j) = sym_handlers (symbol_heap w j)"
        using h4(6,7) reg_symbol(1)[OF reg] by metis
    qed (use reg h4(1) in \<open>auto simp: reg_ok_def\<close>)
    moreover have "registered ?w4 = registered w - {i}"
      using registered_del[OF reg p] h4(2) by (simp add: registered_def)
    moreover have "hooks_owned ?w4 (registered w - {i})"
      using owned_stop[OF own2, of i] by (simp add: hooks_owned_drop)
    moreover have "callbacks_ok ?w4 (registered w - {i})"
    proof -
      have "callbacks_ok (stop_watching i ?w2) (registered w - {i})" by (rule callbacks_stop_watching[OF cb2])
      then show ?thesis unfolding symbol_stop_def using callbacks_same[OF _ same_reg_unhook] by simp
    qed
    ultimately show ?thesis unfolding run using h4 ids by (simp add: wf_world_def)
  qed
  then show "wf_world name (remove_handler hid w)" "handlers (remove_handler hid w) = dict_del hid (handlers w)"
    "enabled (remove_handler hid w) = enabled w" "updating (remove_handler hid w) = updating w"
    "config (remove_handler hid w) = config w" by auto
qed

section \<open>Updating a handler\<close>

lemma update_handler_wf:
  assumes wf: "wf_world name w" and old: "dict_get (handlers w) (handler_id h) = Some k"
    and id: "name (handler_id h) = handler_symbol h"
  shows "wf_world name (update_handler h w)" "handlers (update_handler h w) = dict_set (handler_id h) h (handlers w)"
    "enabled (update_handler h w) = enabled w" "updating (update_handler h w) = updating w"
    "config (update_handler h w) = config w"
proof -
  have reg: "reg_ok w" using wf by (simp add: wf_world_def)
  have same: "handler_symbol k = handler_symbol h" using wf old id by (auto simp: wf_world_def ids_ok_def)
  obtain i where p: "dict_get (symbols w) (handler_symbol h) = Some i" using reg_handler[OF reg old] same by auto
  note s = reg_symbol[OF reg p]
  let ?E = "dict_set (handler_id h) h (sym_handlers (symbol_heap w i))"
  let ?w = "upd_symbol i (sym_update_handler h) w\<lparr>handlers := dict_set (handler_id h) h (handlers w)\<rparr>"
  have run: "update_handler h w = ?w" using old p by (simp add: update_handler_def)
  have sh: "sym_update_handler h (symbol_heap w i) = (symbol_heap w i)\<lparr>sym_handlers := ?E, handlers_changed := True\<rparr>"
    by (simp add: sym_update_handler_def)
  have "reg_ok ?w"
  proof (rule regroup[OF reg, where E = ?E and i = i and p = "handler_symbol h"])
    show "dict_get ?E = of_symbol (handler_symbol h) (handlers ?w)"
      using s(5) by (auto simp: of_symbol_set)
  next
    fix q assume "q \<noteq> handler_symbol h"
    then show "of_symbol q (handlers ?w) = of_symbol q (handlers w)" using old same of_symbol_other(1) by simp
  qed (use reg s p sh reg_inj[OF reg] reg_symbol(1)[OF reg] in \<open>auto simp: dict_set_known reg_ok_def\<close>)
  moreover have "ids_ok name (handlers ?w)" using wf id by (simp add: wf_world_def ids_ok_def)
  moreover have "registered ?w = registered w" by (simp add: registered_def)
  moreover have "hooks_owned ?w (registered w)"
    using wf by (simp add: wf_world_def owned_heap_only sym_update_handler_def)
  moreover have "callbacks_ok ?w (registered w)"
    using wf by (auto simp: wf_world_def callbacks_ok_def sym_update_handler_def)
  ultimately have "wf_world name ?w" by (simp add: wf_world_def)
  then show "wf_world name (update_handler h w)" "handlers (update_handler h w) = dict_set (handler_id h) h (handlers w)"
    "enabled (update_handler h w) = enabled w" "updating (update_handler h w) = updating w"
    "config (update_handler h w) = config w" unfolding run by simp_all
qed

end
