(* ===== verification/Manager_Run.thy ===== *)
theory Manager_Run
  imports Manager_Inv
begin

text \<open>
  Reconciling, the graceful stop, the reset and the control callback keep the invariant of the manager, and
  what they leave: the registries after each, and the rollback of a start that fails.
\<close>

section \<open>Reconciling\<close>

text \<open>The registry after the additions, the removals and the updates.\<close>

lemma add_handlers_wf:
  assumes "wf_world name w" "env_ok e" "distinct (map handler_id hs)"
    and "\<forall>h \<in> set hs. dict_get (handlers w) (handler_id h) = None \<and> name (handler_id h) = handler_symbol h"
    and "add_handlers ld e hs w = (ok, w')"
  shows "wf_world name w' \<and> enabled w' = enabled w \<and> updating w' = updating w \<and> config w' = config w \<and>
    (ok \<longrightarrow> handlers w' = fold (\<lambda>h. dict_set (handler_id h) h) hs (handlers w))"
  using assms
proof (induction hs arbitrary: w)
  case Nil
  then show ?case by simp
next
  case (Cons h hs)
  obtain o1 w1 where run: "add_handler ld e h w = (o1, w1)" by (cases "add_handler ld e h w")
  note step = add_handler_wf[OF Cons.prems(1,2) _ _ run]
  have h: "dict_get (handlers w) (handler_id h) = None" "name (handler_id h) = handler_symbol h"
    using Cons.prems(4) by simp_all
  show ?case
  proof (cases o1)
    case True
    have "\<forall>k \<in> set hs. dict_get (handlers w1) (handler_id k) = None \<and> name (handler_id k) = handler_symbol k"
      using Cons.prems(3,4) step(5)[OF h] True by (force simp: image_iff)
    moreover have "add_handlers ld e hs w1 = (ok, w')" using Cons.prems(5) run True by simp
    ultimately show ?thesis
      using Cons.IH[OF step(1)[OF h] Cons.prems(2)] Cons.prems(3) step[OF h] True by simp
  next
    case False
    then show ?thesis using Cons.prems(5) run step[OF h] by auto
  qed
qed

lemma remove_handlers_wf:
  assumes "wf_world name w" "distinct hids" "\<forall>hid \<in> set hids. dict_get (handlers w) hid \<noteq> None"
  shows "wf_world name (fold remove_handler hids w) \<and>
    handlers (fold remove_handler hids w) = fold dict_del hids (handlers w) \<and>
    enabled (fold remove_handler hids w) = enabled w \<and> updating (fold remove_handler hids w) = updating w \<and>
    config (fold remove_handler hids w) = config w"
  using assms
proof (induction hids arbitrary: w)
  case (Cons hid hids)
  then obtain h where h: "dict_get (handlers w) hid = Some h" by auto
  note step = remove_handler_wf[OF Cons.prems(1) h]
  have "\<forall>k \<in> set hids. dict_get (handlers (remove_handler hid w)) k \<noteq> None"
    using Cons.prems(2,3) step(2) by auto
  then show ?case using Cons.IH[OF step(1)] Cons.prems(2) step by simp
qed simp

definition updated :: "handler \<Rightarrow> (string, handler) dict \<Rightarrow> (string, handler) dict" where
  "updated h d = (case dict_get d (handler_id h) of
     Some old \<Rightarrow> if \<not> handler_equals old h then dict_set (handler_id h) h d else d | None \<Rightarrow> d)"

lemma update_if_wf:
  assumes "wf_world name w" "name (handler_id h) = handler_symbol h"
  shows "wf_world name (update_if_changed h w) \<and> handlers (update_if_changed h w) = updated h (handlers w) \<and>
    enabled (update_if_changed h w) = enabled w \<and> updating (update_if_changed h w) = updating w \<and>
    config (update_if_changed h w) = config w"
  using update_handler_wf[OF assms(1) _ assms(2)] assms(1)
  by (auto simp: update_if_changed_def updated_def split: option.split)

lemma updates_wf:
  assumes "wf_world name w" "\<forall>h \<in> set hs. name (handler_id h) = handler_symbol h"
  shows "wf_world name (fold update_if_changed hs w) \<and>
    handlers (fold update_if_changed hs w) = fold updated hs (handlers w) \<and>
    enabled (fold update_if_changed hs w) = enabled w \<and> updating (fold update_if_changed hs w) = updating w \<and>
    config (fold update_if_changed hs w) = config w"
  using assms
proof (induction hs arbitrary: w)
  case (Cons h hs)
  then have "wf_world name (update_if_changed h w) \<and> handlers (update_if_changed h w) = updated h (handlers w) \<and>
    enabled (update_if_changed h w) = enabled w \<and> updating (update_if_changed h w) = updating w \<and>
    config (update_if_changed h w) = config w"
    using update_if_wf[of name w h] by simp
  then show ?case using Cons.IH[of "update_if_changed h w"] Cons.prems(2) by simp
qed simp

lemma find_fresh: "a \<notin> set (map f xs) \<Longrightarrow> find (\<lambda>x. f x = a) xs = None"
  by (induction xs) auto

lemma mem_keys: "k \<in> set (dict_keys d) \<longleftrightarrow> dict_get d k \<noteq> None"
  by (simp add: map_of_eq_None_iff)

lemma dict_set_fold_get:
  "distinct (map handler_id hs) \<Longrightarrow>
   dict_get (fold (\<lambda>h. dict_set (handler_id h) h) hs d) hid =
     (case find (\<lambda>h. handler_id h = hid) hs of Some h \<Rightarrow> Some h | None \<Rightarrow> dict_get d hid)"
proof (induction hs arbitrary: d)
  case (Cons h hs)
  have "find (\<lambda>k. handler_id k = handler_id h) hs = None"
    by (rule find_fresh) (use Cons.prems in simp)
  with Cons show ?case by (auto split: option.split)
qed simp

lemma del_fold_get: "dict_get (fold dict_del hids d) hid = (if hid \<in> set hids then None else dict_get d hid)"
  by (induction hids arbitrary: d) auto

lemma updated_dom: "dict_get (updated h d) hid = None \<longleftrightarrow> dict_get d hid = None"
  by (auto simp: updated_def split: option.split)

lemma updated_fold_dom: "dict_get (fold updated hs d) hid = None \<longleftrightarrow> dict_get d hid = None"
  by (induction hs arbitrary: d) (auto simp: updated_dom)

lemma updated_get:
  "dict_get (updated h d) hid = (if hid = handler_id h then
     (case dict_get d hid of Some old \<Rightarrow> Some (if handler_equals old h then old else h) | None \<Rightarrow> None)
     else dict_get d hid)"
  by (auto simp: updated_def split: option.split)

lemma updated_fold_get:
  assumes "distinct (map handler_id hs)"
  shows "dict_get (fold updated hs d) hid =
    (case find (\<lambda>h. handler_id h = hid) hs of
       Some h \<Rightarrow> (case dict_get d hid of Some old \<Rightarrow> Some (if handler_equals old h then old else h) | None \<Rightarrow> None)
     | None \<Rightarrow> dict_get d hid)"
  using assms
proof (induction hs arbitrary: d)
  case (Cons h hs)
  have "find (\<lambda>k. handler_id k = handler_id h) hs = None"
    by (rule find_fresh) (use Cons.prems in simp)
  with Cons show ?case by (auto simp: updated_get split: option.split)
qed simp

text \<open>What is registered under an id once the registry is reconciled with a target set.\<close>

definition reconciled :: "(string, handler) dict \<Rightarrow> (string, handler) dict \<Rightarrow> string \<Rightarrow> handler option" where
  "reconciled current target hid = (case dict_get target hid of
     None \<Rightarrow> None
   | Some h \<Rightarrow> (case dict_get current hid of Some old \<Rightarrow> Some (if handler_equals old h then old else h) | None \<Rightarrow> Some h))"

lemma ids_ok_set: "ids_ok name d \<Longrightarrow> dict_ok d \<Longrightarrow> (k, h) \<in> set d \<Longrightarrow> handler_id h = k \<and> name k = handler_symbol h"
  using dict_get_in_iff[of d k h] unfolding ids_ok_def by metis

lemma find_ids:
  "\<forall>(k, h) \<in> set d. handler_id h = k \<Longrightarrow> dict_ok d \<Longrightarrow>
   find (\<lambda>h. handler_id h = hid) (map snd (filter (\<lambda>(k, h). P k) d)) = (if P hid then dict_get d hid else None)"
  by (induction d) (auto split: if_splits)

lemma find_target:
  assumes "ids_ok name d" "dict_ok d"
  shows "find (\<lambda>h. handler_id h = hid) (map snd (filter (\<lambda>(k, h). P k) d)) = (if P hid then dict_get d hid else None)"
  using ids_ok_set[OF assms] by (intro find_ids assms(2)) auto

lemma ids_distinct:
  assumes "ids_ok name d" "dict_ok d" shows "distinct (map handler_id (map snd (filter P d)))"
proof -
  have "map handler_id (map snd (filter P d)) = map fst (filter P d)"
    using ids_ok_set[OF assms] by (auto simp: split_def)
  then show ?thesis using assms(2) by (simp only: distinct_map_filter)
qed

lemma reconcile_wf:
  assumes wf: "wf_world name w" and e: "env_ok e" and t: "ids_ok name target" "dict_ok target"
    and run: "reconcile_handlers ld e target w = (ok, w')"
  shows "wf_world name w'" "enabled w' = enabled w" "updating w' = updating w" "config w' = config w"
    "ok \<Longrightarrow> dict_get (handlers w') = reconciled (handlers w) target"
proof -
  let ?cur = "set (dict_keys (handlers w))"
  let ?add = "map snd (filter (\<lambda>(hid, h). hid \<notin> ?cur) target)"
  let ?rem = "filter (\<lambda>hid. hid \<notin> set (dict_keys target)) (dict_keys (handlers w))"
  let ?upd = "map snd (filter (\<lambda>(hid, h). hid \<in> ?cur) target)"
  have cur: "hid \<in> ?cur \<longleftrightarrow> dict_get (handlers w) hid \<noteq> None" for hid
    by (rule mem_keys)
  have idh: "handler_id h = hid \<and> name hid = handler_symbol h" if "(hid, h) \<in> set target" for hid h
    using ids_ok_set[OF t that] by simp
  obtain o1 w1 where a: "add_handlers ld e ?add w = (o1, w1)" by (cases "add_handlers ld e ?add w")
  have da: "distinct (map handler_id ?add)" and du: "distinct (map handler_id ?upd)"
    by (rule ids_distinct[OF t])+
  have newa: "\<forall>h \<in> set ?add. dict_get (handlers w) (handler_id h) = None \<and> name (handler_id h) = handler_symbol h"
    using idh cur by fastforce
  note A = add_handlers_wf[OF wf e da newa a]
  have okr: "o1 = ok" and w': "w' = (if ok then fold update_if_changed ?upd (fold remove_handler ?rem w1) else w1)"
    using run a by (auto simp: reconcile_handlers_def Let_def fold_map split: bool.splits)
  have "wf_world name w' \<and> enabled w' = enabled w \<and> updating w' = updating w \<and> config w' = config w \<and>
    (ok \<longrightarrow> dict_get (handlers w') = reconciled (handlers w) target)"
  proof (cases ok)
    case False
    then show ?thesis using A w' by simp
  next
    case True
    have h1: "handlers w1 = fold (\<lambda>h. dict_set (handler_id h) h) ?add (handlers w)" using A okr True by simp
    have get1: "dict_get (handlers w1) hid = (if hid \<notin> ?cur \<and> dict_get target hid \<noteq> None then dict_get target hid
        else dict_get (handlers w) hid)" for hid
      unfolding h1 dict_set_fold_get[OF da] find_target[OF t] by (auto split: option.split)
    have "distinct ?rem" using wf by (simp add: wf_world_def reg_ok_def)
    moreover have "\<forall>hid \<in> set ?rem. dict_get (handlers w1) hid \<noteq> None" using get1 cur by auto
    ultimately have B: "wf_world name (fold remove_handler ?rem w1)"
      "handlers (fold remove_handler ?rem w1) = fold dict_del ?rem (handlers w1)"
      "enabled (fold remove_handler ?rem w1) = enabled w" "updating (fold remove_handler ?rem w1) = updating w"
      "config (fold remove_handler ?rem w1) = config w"
      using remove_handlers_wf[of name w1 ?rem] A by auto
    have "\<forall>h \<in> set ?upd. name (handler_id h) = handler_symbol h" using idh by fastforce
    note C = updates_wf[OF B(1) this]
    have "dict_get (handlers w') hid = reconciled (handlers w) target hid" for hid
    proof -
      have rem: "hid \<in> set ?rem \<longleftrightarrow> dict_get target hid = None \<and> dict_get (handlers w) hid \<noteq> None"
        by (auto simp only: set_filter mem_Collect_eq mem_keys not_not)
      have "dict_get (fold dict_del ?rem (handlers w1)) hid =
          (if hid \<in> set ?rem then None else dict_get (handlers w1) hid)" by (rule del_fold_get)
      also have "\<dots> = (case dict_get target hid of None \<Rightarrow> None
          | Some h \<Rightarrow> (case dict_get (handlers w) hid of Some old \<Rightarrow> Some old | None \<Rightarrow> Some h))"
        unfolding rem get1[of hid] cur[of hid] by (auto split: option.split)
      finally have D: "dict_get (fold dict_del ?rem (handlers w1)) hid = \<dots>" .
      have hw: "handlers w' = fold updated ?upd (fold dict_del ?rem (handlers w1))"
        using C w' True B(2) by (simp only: if_True)
      show ?thesis
        unfolding hw updated_fold_get[OF du] find_target[OF t] D cur[of hid] reconciled_def
        by (auto split: option.split)
    qed
    then have "dict_get (handlers w') = reconciled (handlers w) target" by (rule ext)
    moreover have "wf_world name w' \<and> enabled w' = enabled w \<and> updating w' = updating w \<and> config w' = config w"
      using C w' True B(3-5) by (simp only: if_True simp_thms)
    ultimately show ?thesis by blast
  qed
  then show "wf_world name w'" "enabled w' = enabled w" "updating w' = updating w" "config w' = config w"
    "ok \<Longrightarrow> dict_get (handlers w') = reconciled (handlers w) target" by auto
qed

end
