(* ===== verification/Manager_Control.thy ===== *)
theory Manager_Control
  imports Manager_Run
begin

text \<open>
  Hooking all symbols, stopping all of them, the graceful stop and the control callback
  \<open>on_control_state_change\<close>: each keeps the invariant of the manager, and what each leaves behind.
\<close>

section \<open>All symbols\<close>

lemma registered_ids: "reg_ok w \<Longrightarrow> set (map snd (symbols w)) = registered w"
proof -
  assume "reg_ok w"
  then have "dict_ok (symbols w)" by (simp add: reg_ok_def)
  from dict_get_in_iff[OF this] show ?thesis by (force simp: registered_def)
qed

lemma hooks_fold:
  assumes "wf_world name w" "env_ok e" "set is \<subseteq> registered w"
  shows "wf_world name (fold (hook e) is w) \<and> same_reg w (fold (hook e) is w)"
  using assms
proof (induction "is" arbitrary: w)
  case (Cons i "is")
  have "wf_world name (hook e i w)"
    using Cons.prems by (intro wf_same[OF Cons.prems(1) same_reg_hook] owned_hook) (auto simp: wf_world_def)
  moreover have "registered (hook e i w) = registered w"
    using same_reg_hook[of w e i] by (simp add: same_reg_def registered_def)
  ultimately have "wf_world name (fold (hook e) is (hook e i w)) \<and>
      same_reg (hook e i w) (fold (hook e) is (hook e i w))"
    using Cons.prems(2,3) by (intro Cons.IH) auto
  then show ?case using same_reg_trans[OF same_reg_hook] by auto
qed simp

lemma apply_all_wf:
  assumes "wf_world name w" "env_ok e"
  shows "wf_world name (apply_all_hooks e w) \<and> same_reg w (apply_all_hooks e w)"
  unfolding apply_all_hooks_def
  using assms registered_ids[of w] by (intro hooks_fold) (auto simp: wf_world_def)

lemma stop_fold:
  assumes "hooks_owned w R" "callbacks_ok w R"
  shows "hooks_owned (fold symbol_stop is w) (R - set is) \<and> callbacks_ok (fold symbol_stop is w) (R - set is)"
  using assms
proof (induction "is" arbitrary: w R)
  case (Cons i "is")
  have "hooks_owned (symbol_stop i w) (R - {i})"
    using owned_stop[OF Cons.prems(1), of i] by (simp add: hooks_owned_drop)
  moreover have "callbacks_ok (symbol_stop i w) (R - {i})"
    unfolding symbol_stop_def
    using callbacks_same[OF callbacks_stop_watching[OF Cons.prems(2)] same_reg_unhook] by simp
  ultimately have "hooks_owned (fold symbol_stop is (symbol_stop i w)) (R - {i} - set is) \<and>
      callbacks_ok (fold symbol_stop is (symbol_stop i w)) (R - {i} - set is)" by (rule Cons.IH)
  moreover have "R - {i} - set is = R - set (i # is)" by auto
  ultimately show ?case by simp
qed simp

definition no_hooks :: "'cfg world \<Rightarrow> bool" where
  "no_hooks w \<longleftrightarrow> (\<forall>c n. \<not> has_hook_at w c n)"

lemma no_hooks_owned: "hooks_owned w {} \<Longrightarrow> no_hooks w"
  unfolding hooks_owned_def no_hooks_def by blast

lemma stop_all_none:
  assumes "wf_world name w"
  shows "hooks_owned (stop_all_symbols w) {}" "callbacks_ok (stop_all_symbols w) {}" "same_reg w (stop_all_symbols w)"
  using stop_fold[of w "registered w" "map snd (symbols w)"] assms registered_ids[of w]
    same_reg_fold[of symbol_stop w "map snd (symbols w)", OF same_reg_stop]
  by (simp_all add: wf_world_def stop_all_symbols_def del: set_map)

lemma wf_empty:
  assumes "symbols w = []" "handlers w = []" "hooks_owned w {}" "callbacks_ok w {}"
  shows "wf_world name w"
  using assms by (simp add: wf_world_def reg_ok_def ids_ok_def registered_def)

lemma reset_wf:
  assumes "wf_world name w"
  shows "wf_world name (reset_live_handlers w)" "no_hooks (reset_live_handlers w)"
    "symbols (reset_live_handlers w) = []" "handlers (reset_live_handlers w) = []"
    "config (reset_live_handlers w) = config w"
proof -
  note s = stop_all_none[OF assms]
  show e: "symbols (reset_live_handlers w) = []" "handlers (reset_live_handlers w) = []"
    by (simp_all add: reset_live_handlers_def)
  show "config (reset_live_handlers w) = config w" using s(3) by (simp add: reset_live_handlers_def same_reg_def)
  have h: "hooks_owned (reset_live_handlers w) {}" using s(1) by (simp add: reset_live_handlers_def)
  then show "no_hooks (reset_live_handlers w)" by (rule no_hooks_owned)
  show "wf_world name (reset_live_handlers w)"
    using s(2) by (intro wf_empty e h) (simp add: reset_live_handlers_def)
qed

section \<open>The graceful stop\<close>

definition locked_only :: "(string, handler) dict \<Rightarrow> (string, handler) dict" where
  "locked_only d = filter (\<lambda>(hid, h). locked h) d"

lemma locked_only_get:
  "dict_ok d \<Longrightarrow> dict_get (locked_only d) hid =
     (case dict_get d hid of Some h \<Rightarrow> if locked h then Some h else None | None \<Rightarrow> None)"
  unfolding locked_only_def by (induction d) (auto split: option.split simp: map_of_eq_None_iff)

lemma del_fold_filter: "fold dict_del ids d = filter (\<lambda>(k, v). k \<notin> set ids) d"
proof (induction ids arbitrary: d)
  case (Cons k ids)
  have "dict_del k d = filter (\<lambda>(k', v). k \<noteq> k') d" by (induction d) auto
  with Cons show ?case by (auto intro: filter_cong)
qed (simp add: split_def)

lemma unlocked_in:
  "dict_ok (sym_handlers s) \<Longrightarrow> (hid, h) \<in> set (sym_handlers s) \<Longrightarrow> hid \<in> set (unlocked_ids s) \<longleftrightarrow> \<not> locked h"
  by (force simp: unlocked_ids_def dest: eq_key_imp_eq_value)

lemma unlocked_get:
  "dict_ok (sym_handlers s) \<Longrightarrow> hid \<in> set (unlocked_ids s) \<longleftrightarrow> (\<exists>h. dict_get (sym_handlers s) hid = Some h \<and> \<not> locked h)"
  using dict_get_in_iff[of "sym_handlers s" hid] by (force simp: unlocked_ids_def)

lemma remove_unlocked_run:
  assumes "dict_ok (sym_handlers s)"
  shows "remove_unlocked_handlers s = (unlocked_ids s, s\<lparr>sym_handlers := locked_only (sym_handlers s)\<rparr>)"
    and "filter (\<lambda>hid. hid \<notin> set (unlocked_ids s)) (dict_keys (sym_handlers s)) = dict_keys (locked_only (sym_handlers s))"
proof -
  have eq: "filter (\<lambda>(k, v). k \<notin> set (unlocked_ids s)) (sym_handlers s) = locked_only (sym_handlers s)"
    unfolding locked_only_def using unlocked_in[OF assms] by (intro filter_cong) auto
  then show "remove_unlocked_handlers s = (unlocked_ids s, s\<lparr>sym_handlers := locked_only (sym_handlers s)\<rparr>)"
    by (simp add: remove_unlocked_handlers_def del_fold_filter)
  show "filter (\<lambda>hid. hid \<notin> set (unlocked_ids s)) (dict_keys (sym_handlers s)) = dict_keys (locked_only (sym_handlers s))"
    unfolding eq[symmetric] by (simp add: filter_map comp_def split_def)
qed

lemma no_unlocked: "unlocked_ids s = [] \<Longrightarrow> locked_only (sym_handlers s) = sym_handlers s"
  by (auto simp: unlocked_ids_def locked_only_def filter_empty_conv filter_id_conv)

lemma stop_unlocked_run:
  assumes e: "env_ok e" and h: "hooks_owned w R" and i: "i \<in> R"
    and ok: "dict_ok (sym_handlers (symbol_heap w i))" "sym_handlers (symbol_heap w i) \<noteq> []"
    and run: "stop_unlocked e i w = ((removed_ids, kept_ids), w1)"
  shows "removed_ids = unlocked_ids (symbol_heap w i)"
    "kept_ids = dict_keys (locked_only (sym_handlers (symbol_heap w i)))"
    "same_reg (upd_symbol i (\<lambda>s. s\<lparr>sym_handlers := locked_only (sym_handlers s)\<rparr>) w) w1"
    "module_callbacks w1 = module_callbacks w" "hooks_owned w1 R"
    "kept_ids = [] \<Longrightarrow> \<not> hook_applied (symbol_heap w1 i)"
proof -
  let ?s = "symbol_heap w i"
  let ?w0 = "upd_symbol i (\<lambda>_. ?s\<lparr>sym_handlers := locked_only (sym_handlers ?s)\<rparr>) w"
  have w0: "?w0 = upd_symbol i (\<lambda>s. s\<lparr>sym_handlers := locked_only (sym_handlers s)\<rparr>) w"
    by (simp add: upd_symbol_def)
  have h0: "hooks_owned ?w0 R" unfolding w0 by (rule owned_heap_only[OF h]) simp
  have r: "removed_ids = unlocked_ids ?s" "kept_ids = dict_keys (locked_only (sym_handlers ?s))"
    and w1: "w1 = (if removed_ids = [] then ?w0 else if kept_ids \<noteq> [] then snd (update_hook e i ?w0) else unhook i ?w0)"
    using run remove_unlocked_run[OF ok(1)] by (auto simp: stop_unlocked_def Let_def)
  show "removed_ids = unlocked_ids ?s" "kept_ids = dict_keys (locked_only (sym_handlers ?s))" by (rule r)+
  show "same_reg (upd_symbol i (\<lambda>s. s\<lparr>sym_handlers := locked_only (sym_handlers s)\<rparr>) w) w1"
    unfolding w0[symmetric] w1 by (simp add: same_reg_update_hook same_reg_unhook)
  show "module_callbacks w1 = module_callbacks w" unfolding w1 by simp
  show "hooks_owned w1 R"
    unfolding w1 using h0 owned_update_hook[OF e h0 i] owned_unhook(1)[OF h0] by simp
  show "\<not> hook_applied (symbol_heap w1 i)" if "kept_ids = []"
    using that r no_unlocked[of ?s] ok(2) owned_unhook(2)[OF h0] by (auto simp: w1)
qed

definition dropped :: "'cfg world \<Rightarrow> (string \<times> nat) list \<Rightarrow> nat set" where
  "dropped w ps = {i. \<exists>p. (p, i) \<in> set ps \<and> locked_only (sym_handlers (symbol_heap w i)) = []}"

definition stopped_heap :: "'cfg world \<Rightarrow> nat set \<Rightarrow> 'cfg world \<Rightarrow> bool" where
  "stopped_heap w S w1 \<longleftrightarrow> symbols w1 = symbols w \<and> handlers w1 = handlers w \<and> next_symbol w1 = next_symbol w \<and>
     updating w1 = updating w \<and> config w1 = config w \<and>
     (\<forall>j. symbol_path (symbol_heap w1 j) = symbol_path (symbol_heap w j) \<and>
          sym_handlers (symbol_heap w1 j) =
            (if j \<in> S then locked_only (sym_handlers (symbol_heap w j)) else sym_handlers (symbol_heap w j)))"

lemma graceful_loop_run:
  assumes e: "env_ok e" and "hooks_owned w R" "callbacks_ok w R" "set (map snd ps) \<subseteq> R" "distinct (map snd ps)"
    and "\<forall>(p, i) \<in> set ps. dict_ok (sym_handlers (symbol_heap w i)) \<and> sym_handlers (symbol_heap w i) \<noteq> []"
    and "graceful_loop e ps syms hids w = ((syms', hids'), w1)"
  shows "syms' = syms @ map fst (filter (\<lambda>(p, i). locked_only (sym_handlers (symbol_heap w i)) = []) ps) \<and>
    hids' = hids @ concat (map (\<lambda>(p, i). unlocked_ids (symbol_heap w i)) ps) \<and>
    stopped_heap w (set (map snd ps)) w1 \<and> hooks_owned w1 (R - dropped w ps) \<and> callbacks_ok w1 (R - dropped w ps)"
  using assms(2-)
proof (induction ps arbitrary: w R syms hids)
  case Nil
  then show ?case by (auto simp: stopped_heap_def dropped_def)
next
  case (Cons q ps)
  obtain p i where q: "q = (p, i)" by (cases q)
  obtain removed_ids kept_ids w0 where run: "stop_unlocked e i w = ((removed_ids, kept_ids), w0)"
    by (metis prod.collapse)
  have i: "i \<in> R" "i \<notin> set (map snd ps)"
    and ok: "dict_ok (sym_handlers (symbol_heap w i))" "sym_handlers (symbol_heap w i) \<noteq> []"
    using Cons.prems q by auto
  note su = stop_unlocked_run[OF e Cons.prems(1) i(1) ok run]
  have empty: "kept_ids = [] \<longleftrightarrow> locked_only (sym_handlers (symbol_heap w i)) = []" using su(2) by simp
  let ?w2 = "if kept_ids \<noteq> [] then w0 else stop_watching i w0"
  let ?R2 = "if kept_ids \<noteq> [] then R else R - {i}"
  have same02: "same_reg w0 ?w2" by (simp add: same_reg_stop_watching)
  have heap: "symbol_path (symbol_heap ?w2 j) = symbol_path (symbol_heap w j) \<and>
      sym_handlers (symbol_heap ?w2 j) =
        (if j = i then locked_only (sym_handlers (symbol_heap w j)) else sym_handlers (symbol_heap w j)) \<and>
      module_path (symbol_heap ?w2 j) = module_path (symbol_heap w j)" for j
    using su(3) same02 by (auto simp: same_reg_def)
  have regs: "symbols ?w2 = symbols w" "handlers ?w2 = handlers w" "next_symbol ?w2 = next_symbol w"
    "updating ?w2 = updating w" "config ?w2 = config w"
    using su(3) same02 by (auto simp: same_reg_def)
  have cb0: "callbacks_ok w0 R"
    using Cons.prems(2) su(3,4) by (auto simp: callbacks_ok_def same_reg_def)
  have h2: "hooks_owned ?w2 ?R2"
    using su(5,6) hooks_owned_drop[OF su(5), of i] by (simp add: owned_stop_watching)
  have cb2: "callbacks_ok ?w2 ?R2"
    using cb0 callbacks_stop_watching[OF cb0, of i] by simp
  have loop: "graceful_loop e ps (if kept_ids \<noteq> [] then syms else syms @ [p]) (hids @ removed_ids) ?w2 =
      ((syms', hids'), w1)"
    using Cons.prems(6) q run by (auto split: if_splits)
  have pre: "set (map snd ps) \<subseteq> ?R2" "distinct (map snd ps)" using Cons.prems(3,4) q i(2) by auto
  have ne: "j \<noteq> i" if "(p', j) \<in> set ps" for p' j using that i(2) by force
  have ok2: "\<forall>(p', j) \<in> set ps. dict_ok (sym_handlers (symbol_heap ?w2 j)) \<and> sym_handlers (symbol_heap ?w2 j) \<noteq> []"
    using Cons.prems(5) q heap ne by fastforce
  have sh: "sym_handlers (symbol_heap ?w2 j) = sym_handlers (symbol_heap w j)" if "(p', j) \<in> set ps" for p' j
    using heap ne that by simp
  note IH = Cons.IH[OF h2 cb2 pre ok2 loop]
  have f1: "filter (\<lambda>(p, i). locked_only (sym_handlers (symbol_heap ?w2 i)) = []) ps =
      filter (\<lambda>(p, i). locked_only (sym_handlers (symbol_heap w i)) = []) ps"
    using sh by (intro filter_cong) auto
  have f2: "map (\<lambda>(p, i). unlocked_ids (symbol_heap ?w2 i)) ps = map (\<lambda>(p, i). unlocked_ids (symbol_heap w i)) ps"
    using sh by (auto simp: unlocked_ids_def)
  have f3: "?R2 - dropped ?w2 ps = R - dropped w (q # ps)"
    using sh empty q by (auto simp: dropped_def)
  have f4: "stopped_heap w (set (map snd (q # ps))) w1"
    using IH regs heap i(2) q unfolding stopped_heap_def by (auto simp: image_iff)
  show ?case using IH f4 unfolding f1 f2 f3 using su(1) empty q by auto
qed

lemma graceful_wf:
  assumes wf: "wf_world name w" and e: "env_ok e"
  shows "wf_world name (stop_all_symbols_graceful e w)"
    "dict_get (handlers (stop_all_symbols_graceful e w)) hid =
       (case dict_get (handlers w) hid of Some h \<Rightarrow> if locked h then Some h else None | None \<Rightarrow> None)"
    "updating (stop_all_symbols_graceful e w) = updating w" "config (stop_all_symbols_graceful e w) = config w"
proof -
  let ?ps = "symbols w" and ?R = "registered w"
  have reg: "reg_ok w" and ids: "ids_ok name (handlers w)" and h: "hooks_owned w ?R" and cb: "callbacks_ok w ?R"
    using wf by (simp_all add: wf_world_def)
  have dk: "dict_ok ?ps" using reg by (simp add: reg_ok_def)
  have mem: "(p, i) \<in> set ?ps \<longleftrightarrow> dict_get ?ps p = Some i" for p i using dict_get_in_iff[OF dk] by blast
  obtain syms hids w1 where run: "graceful_loop e ?ps [] [] w = ((syms, hids), w1)" by (metis prod.collapse)
  have ok: "\<forall>(p, i) \<in> set ?ps. dict_ok (sym_handlers (symbol_heap w i)) \<and> sym_handlers (symbol_heap w i) \<noteq> []"
    using mem reg_symbol[OF reg] by auto
  have "inj_on snd (set ?ps)" using mem reg_inj[OF reg] by (auto simp: inj_on_def)
  then have dist: "distinct (map snd ?ps)"
    using dk by (simp add: distinct_map)
  note G = graceful_loop_run[OF e h cb _ dist ok run, unfolded registered_ids[OF reg]]
  have syms: "syms = map fst (filter (\<lambda>(p, i). locked_only (sym_handlers (symbol_heap w i)) = []) ?ps)"
    and hids: "hids = concat (map (\<lambda>(p, i). unlocked_ids (symbol_heap w i)) ?ps)"
    and st: "stopped_heap w ?R w1" and h1: "hooks_owned w1 (?R - dropped w ?ps)"
    and cb1: "callbacks_ok w1 (?R - dropped w ?ps)"
    using G by auto
  let ?w = "w1\<lparr>symbols := fold dict_del syms (symbols w1), handlers := fold dict_del hids (handlers w1)\<rparr>"
  have res: "stop_all_symbols_graceful e w = ?w" using run by (simp add: stop_all_symbols_graceful_def)
  have syms_in: "p \<in> set syms \<longleftrightarrow> (\<exists>i. dict_get ?ps p = Some i \<and> locked_only (sym_handlers (symbol_heap w i)) = [])" for p
    unfolding syms using mem by force
  have hids_in: "hid \<in> set hids \<longleftrightarrow> (\<exists>h. dict_get (handlers w) hid = Some h \<and> \<not> locked h)" for hid
  proof -
    have "hid \<in> set hids \<longleftrightarrow> (\<exists>p i. dict_get ?ps p = Some i \<and> hid \<in> set (unlocked_ids (symbol_heap w i)))"
      unfolding hids using mem by auto
    also have "\<dots> \<longleftrightarrow> (\<exists>p i h. dict_get ?ps p = Some i \<and> dict_get (sym_handlers (symbol_heap w i)) hid = Some h \<and> \<not> locked h)"
      using unlocked_get[OF reg_symbol(4)[OF reg]] by (metis (no_types, lifting))
    also have "\<dots> \<longleftrightarrow> (\<exists>h. dict_get (handlers w) hid = Some h \<and> \<not> locked h)"
    proof
      assume "\<exists>p i h. dict_get ?ps p = Some i \<and> dict_get (sym_handlers (symbol_heap w i)) hid = Some h \<and> \<not> locked h"
      then show "\<exists>h. dict_get (handlers w) hid = Some h \<and> \<not> locked h"
        using reg_symbol(5)[OF reg] by (fastforce simp: of_symbol_def split: option.splits if_splits)
    next
      assume "\<exists>h. dict_get (handlers w) hid = Some h \<and> \<not> locked h"
      then obtain k where k: "dict_get (handlers w) hid = Some k" "\<not> locked k" by blast
      obtain i where i: "dict_get ?ps (handler_symbol k) = Some i" using reg_handler[OF reg k(1)] by blast
      have "dict_get (sym_handlers (symbol_heap w i)) hid = Some k"
        using reg_symbol(5)[OF reg i] k(1) by (simp add: of_symbol_def)
      with i k show "\<exists>p i h. dict_get ?ps p = Some i \<and> dict_get (sym_handlers (symbol_heap w i)) hid = Some h \<and> \<not> locked h"
        by blast
    qed
    finally show ?thesis .
  qed
  have gets: "dict_get (symbols ?w) p = (case dict_get ?ps p of
      Some i \<Rightarrow> if locked_only (sym_handlers (symbol_heap w i)) = [] then None else Some i | None \<Rightarrow> None)" for p
    using st syms_in[of p] by (auto simp: stopped_heap_def del_fold_get split: option.split)
  have geth: "dict_get (handlers ?w) hid =
      (case dict_get (handlers w) hid of Some h \<Rightarrow> if locked h then Some h else None | None \<Rightarrow> None)" for hid
    using st hids_in[of hid] by (auto simp: stopped_heap_def del_fold_get split: option.split)
  have lock: "dict_get (locked_only (sym_handlers (symbol_heap w i))) = of_symbol p (handlers ?w)"
    if "dict_get ?ps p = Some i" for p i
  proof
    fix hid
    show "dict_get (locked_only (sym_handlers (symbol_heap w i))) hid = of_symbol p (handlers ?w) hid"
      using reg_symbol(4,5)[OF reg that] geth[of hid] by (auto simp: of_symbol_def locked_only_get split: option.splits)
  qed
  have in_R: "i \<in> ?R" if "dict_get ?ps p = Some i" for p i using that by (auto simp: registered_def)
  have "reg_ok ?w"
    unfolding reg_ok_def
  proof (intro conjI allI impI)
    show "dict_ok (symbols ?w)" "dict_ok (handlers ?w)"
      using st reg by (simp_all add: stopped_heap_def del_fold_filter reg_ok_def distinct_map_filter)
  next
    fix p i assume "dict_get (symbols ?w) p = Some i"
    then have i: "dict_get ?ps p = Some i" and ne: "locked_only (sym_handlers (symbol_heap w i)) \<noteq> []"
      using gets[of p] by (auto split: option.splits if_splits)
    note s = reg_symbol[OF reg i]
    have sh: "sym_handlers (symbol_heap ?w i) = locked_only (sym_handlers (symbol_heap w i))"
      using st in_R[OF i] by (simp add: stopped_heap_def)
    show "i < next_symbol ?w" "symbol_path (symbol_heap ?w i) = p" using st s by (simp_all add: stopped_heap_def)
    show "sym_handlers (symbol_heap ?w i) \<noteq> []" using sh ne by simp
    show "dict_ok (sym_handlers (symbol_heap ?w i))" unfolding sh locked_only_def using s(4) by simp
    show "dict_get (sym_handlers (symbol_heap ?w i)) = of_symbol p (handlers ?w)" unfolding sh by (rule lock[OF i])
  next
    fix hid k assume k: "dict_get (handlers ?w) hid = Some k"
    then have k0: "dict_get (handlers w) hid = Some k" using geth[of hid] by (auto split: option.splits if_splits)
    obtain i where i: "dict_get ?ps (handler_symbol k) = Some i" using reg_handler[OF reg k0] by blast
    have "dict_get (locked_only (sym_handlers (symbol_heap w i))) hid = Some k"
      using lock[OF i] k by (simp add: of_symbol_def)
    then have "locked_only (sym_handlers (symbol_heap w i)) \<noteq> []" by auto
    then show "dict_get (symbols ?w) (handler_symbol k) \<noteq> None" using gets[of "handler_symbol k"] i by simp
  qed
  moreover have "ids_ok name (handlers ?w)"
    using ids geth by (auto simp: ids_ok_def split: option.splits if_splits)
  moreover have "registered ?w = ?R - dropped w ?ps"
  proof (intro set_eqI)
    fix i
    have "i \<in> registered ?w \<longleftrightarrow> (\<exists>p. dict_get ?ps p = Some i \<and> locked_only (sym_handlers (symbol_heap w i)) \<noteq> [])"
      unfolding registered_def mem_Collect_eq gets by (auto split: option.splits if_splits)
    also have "\<dots> \<longleftrightarrow> i \<in> ?R - dropped w ?ps"
      unfolding registered_def dropped_def mem by blast
    finally show "i \<in> registered ?w \<longleftrightarrow> i \<in> ?R - dropped w ?ps" .
  qed
  ultimately show "wf_world name (stop_all_symbols_graceful e w)"
    unfolding res using h1 cb1 by (simp add: wf_world_def)
  show "dict_get (handlers (stop_all_symbols_graceful e w)) hid =
       (case dict_get (handlers w) hid of Some h \<Rightarrow> if locked h then Some h else None | None \<Rightarrow> None)"
    unfolding res by (rule geth)
  show "updating (stop_all_symbols_graceful e w) = updating w" "config (stop_all_symbols_graceful e w) = config w"
    unfolding res using st by (simp_all add: stopped_heap_def)
qed

section \<open>The control callback\<close>

text \<open>
  What the code relies on of the configuration: the id of a handler determines its symbol path, and the
  empty path, which \<^verbatim>\<open>MetricHandler\<close> cannot tell from the path \<^verbatim>\<open>unknown\<close>, is not configured.
\<close>

definition loader_ok :: "(string \<Rightarrow> string) \<Rightarrow> 'cfg loader \<Rightarrow> bool" where
  "loader_ok name ld \<longleftrightarrow>
     (\<forall>c p hp root h. from_config ld c p hp root = Some h \<longrightarrow> p \<noteq> [] \<longrightarrow>
        handler_symbol h = p \<and> name (handler_id h) = p) \<and>
     (\<forall>cfg conf cfg'. reload ld cfg = (Some conf, cfg') \<longrightarrow> [] \<notin> set (dict_keys conf))"

lemma build_handlers_ok:
  assumes "\<And>c h. mk c path = Some h \<Longrightarrow> name (handler_id h) = handler_symbol h"
    and "ids_ok name acc" "dict_ok acc" "build_handlers (\<lambda>c p. mk c p) path cs acc = Some d"
  shows "ids_ok name d \<and> dict_ok d"
  using assms(2-)
proof (induction cs arbitrary: acc)
  case (Cons c cs)
  then obtain m h where c: "c = YMap m" "mk m path = Some h"
    by (cases c) (auto split: option.splits)
  let ?acc = "if dict_has (handler_id h) acc then acc else dict_set (handler_id h) h acc"
  have "ids_ok name ?acc" using Cons.prems(1) assms(1)[OF c(2)] by (simp add: ids_ok_def)
  moreover have "dict_ok ?acc" using Cons.prems(2) by auto
  moreover have "build_handlers (\<lambda>c p. mk c p) path cs ?acc = Some d" using Cons.prems(3) c by simp
  ultimately show ?case by (rule Cons.IH)
qed simp

lemma build_target_ok:
  assumes mk: "\<And>c p h. mk c p = Some h \<Longrightarrow> p \<noteq> [] \<Longrightarrow> name (handler_id h) = handler_symbol h"
    and "ids_ok name acc" "dict_ok acc" "build_target_handlers mk conf acc = Some d" "[] \<notin> set (dict_keys conf)"
  shows "ids_ok name d \<and> dict_ok d"
  using assms(2-)
proof (induction conf arbitrary: acc)
  case (Cons pc conf)
  obtain p v where pc: "pc = (p, v)" by (cases pc)
  then obtain cs where v: "v = YList cs" using Cons.prems(3) by (cases v) auto
  obtain acc' where acc': "build_handlers mk p cs acc = Some acc'" "build_target_handlers mk conf acc' = Some d"
    using Cons.prems(3) pc v by (auto split: option.splits)
  have "ids_ok name acc' \<and> dict_ok acc'"
    using build_handlers_ok[of mk p name acc cs acc'] mk Cons.prems(1,2,4) acc'(1) pc by auto
  then show ?case using Cons.IH acc'(2) Cons.prems(4) by auto
qed simp

lemma target_ok:
  assumes "loader_ok name ld" "reload ld cfg0 = (Some conf, cfg)"
    "build_target_handlers (make_handler ld cfg) conf [] = Some d"
  shows "ids_ok name d" "dict_ok d"
proof -
  have "[] \<notin> set (dict_keys conf)" using assms(1,2) unfolding loader_ok_def by blast
  moreover have "name (handler_id h) = handler_symbol h" if "make_handler ld cfg c p = Some h" "p \<noteq> []" for c p h
    using assms(1) that unfolding loader_ok_def make_handler_def by metis
  ultimately have "ids_ok name d \<and> dict_ok d"
    using build_target_ok[of "make_handler ld cfg" name "[]" conf d] assms(3) by (simp add: ids_ok_def)
  then show "ids_ok name d" "dict_ok d" by auto
qed

lemma control_wf:
  assumes wf: "wf_world name w" and e: "env_ok e" and ld: "loader_ok name ld"
    and run: "on_control_state_change ld e last_ts is_start ts w = (err, w')"
  shows "wf_world name w'"
proof (cases "is_start \<and> \<not> (enabled w \<and> ts = last_ts)")
  case False
  then show ?thesis
    using run wf graceful_wf(1)[OF wf e] by (auto simp: on_control_state_change_def split: if_splits)
next
  case True
  obtain oc cfg where rel: "reload ld (config w) = (oc, cfg)" by (cases "reload ld (config w)")
  show ?thesis
  proof (cases oc)
    case None
    then show ?thesis using run True rel wf by (auto simp: on_control_state_change_def Let_def rollback_def)
  next
    case (Some conf)
    show ?thesis
    proof (cases "build_target_handlers (make_handler ld cfg) conf []")
      case None
      then show ?thesis using run True rel Some wf by (auto simp: on_control_state_change_def Let_def rollback_def)
    next
      case t: (Some target)
      note tok = target_ok[OF ld rel[unfolded Some] t]
      let ?w1 = "w\<lparr>updating := True, config := cfg\<rparr>"
      define w2 where "w2 = (if enabled w \<and> ts \<noteq> last_ts then stop_all_symbols_graceful e (?w1\<lparr>enabled := False\<rparr>) else ?w1)"
      have wf1: "wf_world name (?w1\<lparr>enabled := False\<rparr>)" "wf_world name ?w1" using wf by simp_all
      have w2: "wf_world name w2"
        unfolding w2_def using graceful_wf(1)[OF wf1(1) e] wf1(2) by (simp only: if_split) blast
      obtain ok w3 where rec: "reconcile_handlers ld e target w2 = (ok, w3)" by (cases "reconcile_handlers ld e target w2")
      have w3: "wf_world name w3" by (rule reconcile_wf(1)[OF w2 e tok rec])
      have "w' = (if ok then apply_all_hooks e (w3\<lparr>enabled := True\<rparr>)\<lparr>updating := False\<rparr>
                  else rollback (config w) False (reset_live_handlers w3))"
        using run True rel Some t rec
        by (auto simp: on_control_state_change_def Let_def w2_def split: bool.splits)
      moreover have "wf_world name (apply_all_hooks e (w3\<lparr>enabled := True\<rparr>))"
        using apply_all_wf[of name "w3\<lparr>enabled := True\<rparr>" e] w3 e by simp
      ultimately show ?thesis using reset_wf(1)[OF w3] by (simp add: rollback_def)
    qed
  qed
qed

end
