(* ===== verification/Manager_Props.thy ===== *)
theory Manager_Props
  imports Manager_Control
begin

text \<open>
  The properties of the manager: its invariant, what a start, a failed start and the off command leave, and two
  ways in which a hook is lost or left behind.
\<close>

section \<open>Hooking one symbol\<close>

lemma hook_installs:
  assumes e: "env_ok e" and s: "sym_handlers (symbol_heap w i) \<noteq> []" "sym_target (symbol_heap w i) = Some t"
    and free: "hook_chain_of (symbol_heap w i) = None \<or> hook_node (symbol_heap w i) \<noteq> None"
    and h: "hooks_owned w R"
  shows "\<exists>c n. owns (apply_hook e i w) i c n \<and>
    hook_func (nodes (chains (apply_hook e i w) c) n) = HookFn (handler_list (symbol_heap w i))"
proof -
  have ok: "hook_funcs_ok e hs u" "build_ok e hs u" "helper_ok e u" "install_ok e u" for hs u
    using e by (auto simp: env_ok_def)
  let ?n = "next_node_id (chains w t)"
  obtain C where C: "add_chain_node True True True (chains w t) = (Some ?n, C)"
    using add_ok_id[of True "chains w t"] by (cases "add_chain_node True True True (chains w t)") auto
  show ?thesis
  proof (cases "hook_chain_of (symbol_heap w i)")
    case None
    then show ?thesis
      using s by (simp add: apply_hook_def Let_def ok obtain_node_def obtain_fails_def C owns_def set_hook_simps)
  next
    case (Some c)
    then obtain n where "hook_node (symbol_heap w i) = Some n" using free by auto
    with Some s show ?thesis
      by (simp add: apply_hook_def Let_def ok obtain_node_def obtain_fails_def owns_def set_hook_simps)
  qed
qed

lemma hook_after_unhook:
  assumes "hook_chain_of (symbol_heap w i) = Some c" "hook_node (symbol_heap w i) = None" "\<not> hook_applied (symbol_heap w i)"
  shows "\<not> hook_applied (symbol_heap (hook e i w) i)" "hook_node (symbol_heap (hook e i w) i) = None"
  using assms
  by (auto simp: hook_def Let_def apply_hook_def obtain_node_def obtain_fails_def split: option.split)

section \<open>Properties\<close>

text \<open>
  Property C1. The callback of the control watch keeps the invariant, for any command, also when it ends with an error because the
  configuration cannot be loaded, a handler cannot be built from it or a symbol path has no colon. The invariant: the registries of
  symbols and handlers agree, every installed hook belongs to a hooked registered symbol, and every callback that a module has is a
  registered symbol of that module, at most once. Two conditions: the hook functions of all handlers can be made, the hook can be
  built from them and installed at its target; and of the configuration, the id of a handler determines its symbol path and the
  empty path is not configured.
\<close>

theorem control_keeps_invariant:
  "wf_world name w \<Longrightarrow> env_ok e \<Longrightarrow> loader_ok name ld \<Longrightarrow>
   wf_world name (snd (on_control_state_change ld e last_ts is_start ts w))"
  by (metis control_wf prod.collapse)

definition example_env :: env where
  "example_env = \<lparr>resolve = (\<lambda>m a. Some 7), hook_funcs_ok = (\<lambda>_ _. True), build_ok = (\<lambda>_ _. True),
     helper_ok = (\<lambda>_. True), install_ok = (\<lambda>_. True)\<rparr>"

definition example_handler :: "string \<Rightarrow> handler" where
  "example_handler p = \<lparr>handler_id = p, handler_name = YStr ''timer'', handler_symbol = p, min_version = YNull,
     max_version = YNull, config_fingerprint = None, lock_patch = YBool False\<rparr>"

definition example_loader :: "nat loader" where
  "example_loader = \<lparr>reload = (\<lambda>n. (if n = 0 then Some [(''vllm.a:f'', YList [YMap []])] else None, Suc n)),
     handler_prefixes = (\<lambda>_. []), symbol_prefixes = (\<lambda>_. []), user_handler_root = (\<lambda>_. None),
     from_config = (\<lambda>c p hp root. Some (example_handler p))\<rparr>"

definition empty_world :: "'cfg \<Rightarrow> 'cfg world" where
  "empty_world cfg = \<lparr>chains = (\<lambda>_. new_chain), symbol_heap = (\<lambda>_. \<lparr>symbol_path = [], module_path = [], attr_path = [],
     sym_handlers = [], hook_applied = False, hook_node = None, hook_chain_of = None, handlers_changed = False,
     module_loaded = False, pending_hook = False, sym_target = None, sym_prefixes = []\<rparr>), next_symbol = 0,
     sys_modules = {''vllm.a''}, loaded_modules = {''vllm.a''}, finder_targets = {}, finder_installed = False,
     module_callbacks = [], global_callbacks = [], symbols = [], handlers = [], enabled = False, updating = False,
     config = cfg\<rparr>"

lemma example_env_ok: "env_ok example_env"
  by (simp add: env_ok_def example_env_def)

lemma example_loader_ok: "loader_ok (\<lambda>s. s) example_loader"
  by (simp add: loader_ok_def example_loader_def example_handler_def)

lemma empty_world_wf: "wf_world name (empty_world cfg)"
  using chain_list_new
  by (intro wf_empty) (auto simp: empty_world_def hooks_owned_def has_hook_at_def callbacks_ok_def new_chain_def)

theorem control_keeps_invariant_witness:
  "wf_world (\<lambda>s. s) (snd (on_control_state_change example_loader example_env 0 True 5 (empty_world 0)))"
  by (rule control_keeps_invariant[OF empty_world_wf example_env_ok example_loader_ok])

text \<open>
  Property C6. A start or restart that fails while the configuration is loaded or the handlers are built changes nothing:
  hooks, registries, the enabled flag and the committed configuration are those from before.
\<close>

theorem failed_load_changes_nothing:
  assumes "on_control_state_change ld e last_ts is_start ts w = (Some err, w')"
    and "err = LoadError \<or> err = BuildError" "\<not> updating w"
  shows "w' = w"
proof -
  obtain oc cfg where rel: "reload ld (config w) = (oc, cfg)" by (cases "reload ld (config w)")
  have "rollback (config w) (enabled w) (w\<lparr>updating := True, config := cfg\<rparr>) = w"
    using assms(3) by (simp add: rollback_def)
  then show ?thesis
    using assms rel
    by (auto simp: on_control_state_change_def Let_def split: if_splits option.splits prod.splits bool.splits)
qed

theorem failed_load_changes_nothing_witness:
  "snd (on_control_state_change example_loader example_env 0 True 5 (empty_world 1)) = empty_world 1"
proof -
  have "fst (on_control_state_change example_loader example_env 0 True 5 (empty_world 1)) = Some LoadError"
    by (simp add: on_control_state_change_def example_loader_def empty_world_def Let_def)
  then obtain w' where run: "on_control_state_change example_loader example_env 0 True 5 (empty_world 1) = (Some LoadError, w')"
    by (metis prod.collapse)
  have "w' = empty_world 1" by (rule failed_load_changes_nothing[OF run]) (simp_all add: empty_world_def)
  with run show ?thesis by simp
qed

lemma no_handlers_no_symbols:
  assumes "reg_ok w" "handlers w = []" shows "symbols w = []"
proof (rule ccontr)
  assume "symbols w \<noteq> []"
  then obtain p i where "(p, i) \<in> set (symbols w)" by (metis list.set_intros(1) neq_Nil_conv surj_pair)
  then have p: "dict_get (symbols w) p = Some i"
    using dict_get_in_iff[of "symbols w" p i] assms(1) by (simp add: reg_ok_def)
  have "dict_get (sym_handlers (symbol_heap w i)) = (\<lambda>_. None)"
    using reg_symbol(5)[OF assms(1) p] assms(2) by (simp add: of_symbol_def fun_eq_iff)
  then have "sym_handlers (symbol_heap w i) = []" by (metis map_of_eq_empty_iff)
  then show False using reg_symbol(3)[OF assms(1) p] by simp
qed

lemma off_gives:
  assumes wf: "wf_world name w" and e: "env_ok e" and on: "enabled w"
    and free: "\<forall>hid h. dict_get (handlers w) hid = Some h \<longrightarrow> \<not> locked h"
    and run: "on_control_state_change ld e last_ts False ts w = (err, w')"
  shows "err = None \<and> symbols w' = [] \<and> handlers w' = [] \<and> \<not> enabled w' \<and> no_hooks w'"
proof -
  have w': "w' = stop_all_symbols_graceful e w\<lparr>enabled := False\<rparr>" and err: "err = None"
    using run on by (auto simp: on_control_state_change_def)
  note G = graceful_wf[OF wf e]
  have "dict_get (handlers (stop_all_symbols_graceful e w)) = (\<lambda>_. None)"
    using G(2) free by (auto simp: fun_eq_iff split: option.split)
  then have h: "handlers w' = []" unfolding w' by (simp add: map_of_eq_empty_iff)
  have wf': "wf_world name w'" unfolding w' using G(1) by simp
  then have s: "symbols w' = []" using no_handlers_no_symbols[of w'] h by (simp add: wf_world_def)
  then have "registered w' = {}" by (simp add: registered_def)
  then have "no_hooks w'" using wf' by (simp add: wf_world_def no_hooks_owned)
  then show ?thesis using err h s by (simp add: w')
qed

text \<open>
  Property C5. The off command removes everything when no handler is locked and hooks can be built and installed: the callback of an
  enabled manager ends normally, both registries are empty, the manager is disabled, and no node of any chain carries a hook function.
\<close>

theorem off_removes_all_hooks:
  assumes wf: "wf_world name w" and e: "env_ok e" and on: "enabled w"
    and free: "\<forall>hid h. dict_get (handlers w) hid = Some h \<longrightarrow> \<not> locked h"
    and run: "on_control_state_change ld e last_ts False ts w = (err, w')"
  shows "err = None \<and> symbols w' = [] \<and> handlers w' = [] \<and> \<not> enabled w' \<and> no_hooks w'"
  by (rule off_gives[OF assms])

definition example_running :: "nat world" where
  "example_running = snd (on_control_state_change example_loader example_env 0 True 5 (empty_world 0))"

lemma example_running_facts:
  "enabled example_running" "handlers example_running = [(''vllm.a:f'', example_handler ''vllm.a:f'')]"
  "fst (on_control_state_change example_loader example_env 0 True 5 (empty_world 0)) = None"
  by code_simp+

lemma example_running_wf: "wf_world (\<lambda>s. s) example_running"
proof -
  obtain err w' where run: "on_control_state_change example_loader example_env 0 True 5 (empty_world 0) = (err, w')"
    by (metis prod.collapse)
  from control_wf[OF empty_world_wf example_env_ok example_loader_ok run] run show ?thesis
    by (simp add: example_running_def)
qed

theorem off_removes_all_hooks_witness:
  "handlers (snd (on_control_state_change example_loader example_env 5 False 9 example_running)) = [] \<and>
   no_hooks (snd (on_control_state_change example_loader example_env 5 False 9 example_running))"
proof -
  have "\<forall>hid h. dict_get (handlers example_running) hid = Some h \<longrightarrow> \<not> locked h"
    by (auto simp: example_running_facts example_handler_def locked_def)
  from off_removes_all_hooks[OF example_running_wf example_env_ok example_running_facts(1) this, of example_loader 5 9]
  show ?thesis by (metis prod.collapse)
qed

lemma started_with:
  assumes wf: "wf_world name w" and e: "env_ok e" and ld: "loader_ok name ld"
    and run: "on_control_state_change ld e last_ts True ts w = (None, w')" "\<not> (enabled w \<and> ts = last_ts)"
  shows "\<exists>conf cfg target. reload ld (config w) = (Some conf, cfg) \<and>
    build_target_handlers (make_handler ld cfg) conf [] = Some target \<and>
    enabled w' \<and> \<not> updating w' \<and> config w' = cfg \<and>
    dict_get (handlers w') = reconciled
      (if enabled w then locked_only (handlers w) else handlers w) target"
proof -
  obtain conf cfg where rel: "reload ld (config w) = (Some conf, cfg)"
    using run by (cases "reload ld (config w)") (auto simp: on_control_state_change_def Let_def split: option.splits)
  obtain target where t: "build_target_handlers (make_handler ld cfg) conf [] = Some target"
    using run rel by (auto simp: on_control_state_change_def Let_def split: option.splits)
  let ?w1 = "w\<lparr>updating := True, config := cfg\<rparr>"
  define w2 where "w2 = (if enabled w \<and> ts \<noteq> last_ts then stop_all_symbols_graceful e (?w1\<lparr>enabled := False\<rparr>) else ?w1)"
  have wf1: "wf_world name (?w1\<lparr>enabled := False\<rparr>)" "wf_world name ?w1" using wf by simp_all
  note G = graceful_wf[OF wf1(1) e]
  have w2: "wf_world name w2" "config w2 = cfg"
    unfolding w2_def using G(1,4) wf1(2) by simp_all
  obtain ok w3 where rec: "reconcile_handlers ld e target w2 = (ok, w3)" by (cases "reconcile_handlers ld e target w2")
  note R = reconcile_wf[OF w2(1) e target_ok[OF ld rel t] rec]
  have w': "ok \<and> w' = apply_all_hooks e (w3\<lparr>enabled := True\<rparr>)\<lparr>updating := False\<rparr>"
    using run rel t rec by (auto simp: on_control_state_change_def Let_def w2_def split: bool.splits)
  have same: "same_reg (w3\<lparr>enabled := True\<rparr>) (apply_all_hooks e (w3\<lparr>enabled := True\<rparr>))"
    using apply_all_wf[of name "w3\<lparr>enabled := True\<rparr>" e] R(1) e by simp
  have dk: "dict_ok (handlers w)" using wf by (simp add: wf_world_def reg_ok_def)
  have "dict_get (handlers w2) = dict_get (if enabled w then locked_only (handlers w) else handlers w)"
    using G(2) run(2) by (auto simp: w2_def fun_eq_iff locked_only_get[OF dk])
  then have "reconciled (handlers w2) target =
      reconciled (if enabled w then locked_only (handlers w) else handlers w) target"
    by (intro ext) (simp only: reconciled_def)
  then show ?thesis using rel t w' same R(4,5) w2(2) by (simp add: same_reg_def)
qed

text \<open>
  Property C4. A start or restart that ends normally leaves the manager enabled, with the configuration that was loaded
  and exactly the handlers it asks for: locked handlers survive a restart only if they are still configured, and an
  already registered handler is replaced only when its version bounds or fingerprint changed.
\<close>

theorem start_registers_configuration:
  assumes wf: "wf_world name w" and e: "env_ok e" and ld: "loader_ok name ld"
    and run: "on_control_state_change ld e last_ts True ts w = (None, w')" "\<not> (enabled w \<and> ts = last_ts)"
  shows "\<exists>conf cfg target. reload ld (config w) = (Some conf, cfg) \<and>
    build_target_handlers (make_handler ld cfg) conf [] = Some target \<and>
    enabled w' \<and> \<not> updating w' \<and> config w' = cfg \<and>
    dict_get (handlers w') = reconciled
      (if enabled w then locked_only (handlers w) else handlers w) target"
  by (rule started_with[OF assms])

theorem start_registers_configuration_witness:
  "enabled example_running \<and> dict_get (handlers example_running) ''vllm.a:f'' = Some (example_handler ''vllm.a:f'')"
proof -
  have run: "on_control_state_change example_loader example_env 0 True 5 (empty_world 0) = (None, example_running)"
    using example_running_facts(3) by (simp add: example_running_def prod_eq_iff)
  have "\<not> (enabled (empty_world 0) \<and> 5 = (0 :: int))" by simp
  from start_registers_configuration[OF empty_world_wf example_env_ok example_loader_ok run this]
  have "enabled example_running \<and> (\<exists>target. build_target_handlers (make_handler example_loader 1)
      [(''vllm.a:f'', YList [YMap []])] [] = Some target \<and>
      dict_get (handlers example_running) = reconciled [] target)"
    by (auto simp: example_loader_def empty_world_def)
  moreover have "build_target_handlers (make_handler example_loader 1) [(''vllm.a:f'', YList [YMap []])] [] =
      Some [(''vllm.a:f'', example_handler ''vllm.a:f'')]"
    by code_simp
  ultimately show ?thesis by (simp add: reconciled_def)
qed

text \<open>
  When a start fails because a configured symbol path has no colon, nothing stays behind of it: the registries
  are empty, the manager is disabled, no chain carries a hook function, and the committed configuration is the old one.
\<close>

theorem failed_reconcile_resets:
  assumes wf: "wf_world name w" and e: "env_ok e" and ld: "loader_ok name ld"
    and run: "on_control_state_change ld e last_ts is_start ts w = (Some SymbolErr, w')"
  shows "symbols w' = [] \<and> handlers w' = [] \<and> \<not> enabled w' \<and> \<not> updating w' \<and> config w' = config w \<and> no_hooks w'"
proof -
  have start: "is_start" "\<not> (enabled w \<and> ts = last_ts)"
    using run by (auto simp: on_control_state_change_def split: if_splits)
  obtain conf cfg where rel: "reload ld (config w) = (Some conf, cfg)"
    using run start by (cases "reload ld (config w)") (auto simp: on_control_state_change_def Let_def split: option.splits)
  obtain target where t: "build_target_handlers (make_handler ld cfg) conf [] = Some target"
    using run rel start by (auto simp: on_control_state_change_def Let_def split: option.splits)
  let ?w1 = "w\<lparr>updating := True, config := cfg\<rparr>"
  define w2 where "w2 = (if enabled w \<and> ts \<noteq> last_ts then stop_all_symbols_graceful e (?w1\<lparr>enabled := False\<rparr>) else ?w1)"
  have wf1: "wf_world name (?w1\<lparr>enabled := False\<rparr>)" "wf_world name ?w1" using wf by simp_all
  have w2: "wf_world name w2" unfolding w2_def using graceful_wf(1)[OF wf1(1) e] wf1(2) by (simp only: if_split) blast
  obtain ok w3 where rec: "reconcile_handlers ld e target w2 = (ok, w3)" by (cases "reconcile_handlers ld e target w2")
  have w3: "wf_world name w3" by (rule reconcile_wf(1)[OF w2 e target_ok[OF ld rel t] rec])
  have "w' = rollback (config w) False (reset_live_handlers w3)"
    using run rel t rec start by (auto simp: on_control_state_change_def Let_def w2_def split: bool.splits)
  then show ?thesis
    using reset_wf[OF w3] by (simp add: rollback_def no_hooks_def has_hook_at_def)
qed

definition bad_loader :: "nat loader" where
  "bad_loader = example_loader\<lparr>reload := (\<lambda>n. (Some [(''vllm.a:f'', YList [YMap []]), (''no colon'', YList [YMap []])], Suc n))\<rparr>"

theorem failed_reconcile_resets_witness:
  "handlers (snd (on_control_state_change bad_loader example_env 5 True 9 example_running)) = [] \<and>
   \<not> enabled (snd (on_control_state_change bad_loader example_env 5 True 9 example_running)) \<and>
   config (snd (on_control_state_change bad_loader example_env 5 True 9 example_running)) = 1"
proof -
  have ld: "loader_ok (\<lambda>s. s) bad_loader"
    using example_loader_ok by (simp add: loader_ok_def bad_loader_def)
  have "fst (on_control_state_change bad_loader example_env 5 True 9 example_running) = Some SymbolErr \<and>
      config example_running = 1"
    by code_simp
  then obtain w' where "on_control_state_change bad_loader example_env 5 True 9 example_running = (Some SymbolErr, w')"
    "config example_running = 1" by (metis prod.collapse)
  with failed_reconcile_resets[OF example_running_wf example_env_ok ld, of 5 True 9 w'] show ?thesis by simp
qed

section \<open>After a shutdown\<close>

text \<open>
  A symbol that has its chain but no node. Neither \<^verbatim>\<open>_apply_hook\<close> nor anything else the manager does gives it a node again.
\<close>

definition spent :: "nat \<Rightarrow> 'cfg world \<Rightarrow> bool" where
  "spent i w \<longleftrightarrow> i < next_symbol w \<and> hook_chain_of (symbol_heap w i) \<noteq> None \<and> hook_node (symbol_heap w i) = None \<and>
     \<not> hook_applied (symbol_heap w i)"

lemma spent_update [simp]:
  "spent i (upd_chain t f w) = spent i w" "spent i (w\<lparr>handlers := a\<rparr>) = spent i w" "spent i (w\<lparr>symbols := b\<rparr>) = spent i w"
  "spent i (w\<lparr>enabled := d\<rparr>) = spent i w" "spent i (w\<lparr>updating := d\<rparr>) = spent i w" "spent i (w\<lparr>config := cfg\<rparr>) = spent i w"
  "spent i (w\<lparr>module_callbacks := cb\<rparr>) = spent i w" "spent i (w\<lparr>finder_targets := ft\<rparr>) = spent i w"
  "spent i (w\<lparr>finder_installed := d\<rparr>) = spent i w"
  by (simp_all add: spent_def upd_chain_def)































text \<open>
  If rebuilding an installed hook raises (the new handlers cannot be injected), the symbol forgets that it is
  hooked and the old hook function can no longer be removed by unhooking.
\<close>

theorem failed_rebuild_leaks_hook:
  assumes "owns w i c n" "has_hook_at w c n"
    and "sym_handlers (symbol_heap w i) \<noteq> []" "sym_target (symbol_heap w i) = Some t"
    and "hook_funcs_ok e (handler_list (symbol_heap w i)) t" "\<not> build_ok e (handler_list (symbol_heap w i)) c"
  shows "has_hook_at (unhook i (apply_hook e i w)) c n"
  using assms by (intro failed_update_leaks) (auto simp: owns_def)

theorem failed_rebuild_leaks_hook_witness:
  "has_hook_at (unhook 0 (apply_hook (example_env\<lparr>build_ok := (\<lambda>_ _. False)\<rparr>) 0 example_running)) 7 0"
proof (rule failed_rebuild_leaks_hook[where t = 7])
  show "owns example_running 0 7 0" unfolding owns_def by code_simp
  show "has_hook_at example_running 7 0" unfolding has_hook_at_def by code_simp
  show "sym_handlers (symbol_heap example_running 0) \<noteq> []" "sym_target (symbol_heap example_running 0) = Some 7"
    by code_simp+
qed (simp_all add: example_env_def)

end
