(* ===== verification/Control_Watch.thy ===== *)
theory Control_Watch
  imports Shm_Life
begin

text \<open>
  The control side and the controlled side of the on/off switch:
  \<^verbatim>\<open>ms_service_metric/core/config/metric_control_watch.py\<close> (\<open>MetricControlWatch\<close>, in the
  process whose metrics are collected) and \<^verbatim>\<open>ms_service_metric/control/cli.py\<close> (the command that
  writes the shared block and signals the processes).

  A callback is an identifier of type \<open>'c\<close>; what it does is the argument \<open>call\<close>, which
  gets the watch's last time stamp (a callback may read it through \<^verbatim>\<open>get_last_timestamp\<close>), the two
  arguments of the call and the client state \<open>'s\<close>, and returns whether it finished without
  raising. A \<open>process\<close> is a Python process with its SIGUSR1 disposition, its watch and its
  client state; \<^verbatim>\<open>_lock\<close> only orders concurrent calls and is not modelled, \<^verbatim>\<open>_signal_lock\<close> is the
  field \<open>signal_busy\<close>.
\<close>

section \<open>The watch\<close>

type_synonym ('c, 's) caller = "'c \<Rightarrow> int \<Rightarrow> bool \<Rightarrow> int \<Rightarrow> 's \<Rightarrow> bool \<times> 's"

datatype disposition = SigDfl | SigIgn | OtherHandler | WatchHandler

record 'c watch =
  callbacks :: "'c list"
  running :: bool
  manager :: "shm_manager option"
  current_state :: int
  last_timestamp :: int
  original_handler :: "disposition option"
  signal_busy :: bool
  watch_prefix :: string
  watch_procs :: nat

record ('c, 's) process =
  proc_pid :: int
  disposition :: disposition
  watch :: "'c watch"
  client :: 's

definition new_watch ::
  "string option \<Rightarrow> nat option \<Rightarrow> string option \<Rightarrow> nat option \<Rightarrow> 'c watch" where
  "new_watch shm_prefix procs env_prefix env_procs =
     \<lparr>callbacks = [], running = False, manager = None, current_state = STATE_OFF,
      last_timestamp = 0, original_handler = None, signal_busy = False,
      watch_prefix = (case shm_prefix of Some (c # s) \<Rightarrow> c # s
                      | _ \<Rightarrow> (case env_prefix of Some p \<Rightarrow> p | None \<Rightarrow> DEFAULT_SHM_PREFIX)),
      watch_procs = (case procs of Some (Suc k) \<Rightarrow> Suc k
                     | _ \<Rightarrow> (case env_procs of Some k \<Rightarrow> k | None \<Rightarrow> DEFAULT_MAX_PROCS))\<rparr>"

definition register_callback :: "('c, 's) caller \<Rightarrow> 'c \<Rightarrow> 'c watch \<Rightarrow> 's \<Rightarrow> 'c watch \<times> 's" where
  "register_callback call cb wt s =
     (let wt' = wt\<lparr>callbacks := callbacks wt @ [cb]\<rparr>
      in if current_state wt = STATE_ON
         then (wt', snd (call cb (last_timestamp wt) True (last_timestamp wt) s)) else (wt', s))"

definition unregister_callback :: "'c \<Rightarrow> 'c watch \<Rightarrow> 'c watch" where
  "unregister_callback cb wt =
     (if cb \<in> set (callbacks wt) then wt\<lparr>callbacks := remove1 cb (callbacks wt)\<rparr> else wt)"

definition read_control_state :: "'c watch \<Rightarrow> os \<Rightarrow> int \<times> int" where
  "read_control_state wt w = (case manager wt of None \<Rightarrow> (STATE_OFF, 0)
     | Some m \<Rightarrow> (get_state m w, get_timestamp m w))"

text \<open>Every callback is called, also after one that raised; the result is whether none raised.\<close>

fun notify_callbacks ::
  "('c, 's) caller \<Rightarrow> 'c list \<Rightarrow> int \<Rightarrow> bool \<Rightarrow> int \<Rightarrow> 's \<Rightarrow> bool \<times> 's" where
  "notify_callbacks call [] prev_ts is_start ts s = (True, s)"
| "notify_callbacks call (cb # cbs) prev_ts is_start ts s =
     (let (ok, s1) = call cb prev_ts is_start ts s;
          (oks, s2) = notify_callbacks call cbs prev_ts is_start ts s1
      in (ok \<and> oks, s2))"

definition check_control_state :: "('c, 's) caller \<Rightarrow> os \<Rightarrow> 'c watch \<Rightarrow> 's \<Rightarrow> 'c watch \<times> 's" where
  "check_control_state call w wt s =
     (if (case manager wt of None \<Rightarrow> False | Some m \<Rightarrow> \<not> is_control_state_valid m w) then (wt, s)
      else let (state, timestamp) = read_control_state wt w;
               is_start = (state = STATE_ON);
               state_changed = (state \<noteq> current_state wt);
               timestamp_changed = (timestamp \<noteq> last_timestamp wt)
           in if state_changed \<or> (is_start \<and> timestamp_changed)
              then let (ok, s') = notify_callbacks call (callbacks wt) (last_timestamp wt) is_start timestamp s
                   in (wt\<lparr>current_state := state, last_timestamp := timestamp\<rparr>, s')
              else (wt, s))"

definition watch_enabled :: "'c watch \<Rightarrow> bool" where
  "watch_enabled wt \<longleftrightarrow> current_state wt = STATE_ON"

text \<open>\<^verbatim>\<open>_signal_handler\<close>; \<open>orig\<close> is the effect of a handler that was installed before.\<close>

definition signal_handler ::
  "('c, 's) caller \<Rightarrow> ('s \<Rightarrow> 's) \<Rightarrow> bool \<Rightarrow> os \<Rightarrow> ('c, 's) process \<Rightarrow> ('c, 's) process" where
  "signal_handler call orig is_usr1 w p =
     (if signal_busy (watch p) then p
      else let (wt, s) = (if is_usr1 then check_control_state call w (watch p) (client p)
                          else (watch p, client p));
               s' = (case original_handler wt of Some OtherHandler \<Rightarrow> orig s
                     | Some WatchHandler \<Rightarrow> s | _ \<Rightarrow> s)
           in p\<lparr>watch := wt, client := s'\<rparr>)"

text \<open>What the kernel does with a SIGUSR1: \<open>None\<close> is the default action, which ends the process.\<close>

definition deliver :: "('c, 's) caller \<Rightarrow> ('s \<Rightarrow> 's) \<Rightarrow> os \<Rightarrow> ('c, 's) process \<Rightarrow> ('c, 's) process option" where
  "deliver call orig w p = (case disposition p of
       SigDfl \<Rightarrow> None
     | SigIgn \<Rightarrow> Some p
     | OtherHandler \<Rightarrow> Some (p\<lparr>client := orig (client p)\<rparr>)
     | WatchHandler \<Rightarrow> Some (signal_handler call orig True w p))"

definition register_signal_handler :: "('c, 's) process \<Rightarrow> ('c, 's) process" where
  "register_signal_handler p =
     p\<lparr>watch := (watch p)\<lparr>original_handler := Some (disposition p)\<rparr>, disposition := WatchHandler\<rparr>"

text \<open>
  \<^verbatim>\<open>start\<close>: the outcome is the error raised, if any, with the process and system left behind.
  A raise resets \<^verbatim>\<open>_running\<close> only.
\<close>

definition watch_start ::
  "('c, 's) caller \<Rightarrow> string option \<Rightarrow> nat option \<Rightarrow> ('c, 's) process \<Rightarrow> os \<Rightarrow>
   shm_error option \<times> ('c, 's) process \<times> os" where
  "watch_start call env_prefix env_procs p w =
     (if running (watch p) then (None, p, w)
      else let m0 = new_manager (Some (watch_prefix (watch p))) (Some (watch_procs (watch p))) env_prefix env_procs
           in (case connect m0 True w of
               (Inl e, w1) \<Rightarrow> (Some e, p\<lparr>watch := (watch p)\<lparr>manager := Some m0\<rparr>\<rparr>, w1)
             | (Inr (m, _), w1) \<Rightarrow>
                 (let p1 = register_signal_handler (p\<lparr>watch := (watch p)\<lparr>manager := Some m\<rparr>\<rparr>)
                  in (case add_process m (proc_pid p) w1 of
                      (Inl e, w2) \<Rightarrow> (Some e, p1, w2)
                    | (Inr _, w2) \<Rightarrow>
                        (let (wt, s) = check_control_state call w2 ((watch p1)\<lparr>running := True\<rparr>) (client p1)
                         in (None, p1\<lparr>watch := wt, client := s\<rparr>, w2))))))"

definition watch_stop :: "('c, 's) process \<Rightarrow> ('c, 's) process" where
  "watch_stop p =
     (if \<not> running (watch p) then p
      else p\<lparr>watch := (watch p)\<lparr>running := False, manager := None\<rparr>,
             disposition := (case original_handler (watch p) of Some h \<Rightarrow> h | None \<Rightarrow> SigDfl)\<rparr>)"

section \<open>The command line\<close>

datatype command = CmdOn | CmdOff | CmdRestart

fun cmd_is_start :: "command \<Rightarrow> bool" where
  "cmd_is_start CmdOn = True" | "cmd_is_start CmdOff = False" | "cmd_is_start CmdRestart = True"

fun cmd_force :: "command \<Rightarrow> bool" where
  "cmd_force CmdOn = False" | "cmd_force CmdOff = False" | "cmd_force CmdRestart = True"

fun cmd_create :: "command \<Rightarrow> bool" where
  "cmd_create CmdOn = True" | "cmd_create CmdOff = False" | "cmd_create CmdRestart = True"

text \<open>The exit code of \<^verbatim>\<open>send_control_command(command, ...)\<close> and the system it leaves; every exception gives 1.\<close>

definition cli_send :: "command \<Rightarrow> shm_manager \<Rightarrow> os \<Rightarrow> int \<times> os" where
  "cli_send cmd m0 w =
     (case connect m0 (cmd_create cmd) w of
        (Inl e, w1) \<Rightarrow> (1, w1)
      | (Inr (m, ok), w1) \<Rightarrow>
          (if \<not> ok then (if cmd = CmdOff then (0, w1) else (1, w1))
           else (case Shm.send_control_command m (cmd_is_start cmd) (cmd_force cmd) True w1 of
               (Inl e, w2) \<Rightarrow> (1, w2)
             | (Inr (success, signaled, cleaned, changed), w2) \<Rightarrow>
                 (if \<not> success then (1, w2)
                  else if cmd = CmdOff
                  then (case should_destroy m w2 of
                          (Inl e, w3) \<Rightarrow> (1, w3)
                        | (Inr True, w3) \<Rightarrow> (0, snd (destroy m w3))
                        | (Inr False, w3) \<Rightarrow> (0, w3))
                  else (0, w2)))))"

definition cli_status :: "shm_manager \<Rightarrow> os \<Rightarrow> int \<times> shm_status option \<times> os" where
  "cli_status m0 w =
     (case connect m0 False w of
        (Inl e, w1) \<Rightarrow> (1, None, w1)
      | (Inr (m, ok), w1) \<Rightarrow>
          (if \<not> ok then (0, None, w1)
           else (case get_status m w1 of
               (Inl e, w2) \<Rightarrow> (1, None, w2)
             | (Inr st, w2) \<Rightarrow>
                 (case should_destroy m w2 of
                    (Inl e, w3) \<Rightarrow> (1, Some st, w3)
                  | (Inr True, w3) \<Rightarrow> (0, Some st, snd (destroy m w3))
                  | (Inr False, w3) \<Rightarrow> (0, Some st, w3)))))"

text \<open>
  \<^verbatim>\<open>MetricControlWatch.set_control_state\<close>, the class method for the control side: the manager
  is disconnected on every exit, the block stays.
\<close>

definition set_control_state :: "bool \<Rightarrow> bool \<Rightarrow> shm_manager \<Rightarrow> os \<Rightarrow> (shm_error + unit) \<times> os" where
  "set_control_state is_start force m0 w =
     (case connect m0 False w of
        (Inl e, w1) \<Rightarrow> (Inl e, w1)
      | (Inr (m, ok), w1) \<Rightarrow>
          (if \<not> ok then (Inl SharedMemoryErr, w1)
           else (case Shm.send_control_command m is_start force True w1 of
               (Inl e, w2) \<Rightarrow> (Inl e, w2)
             | (Inr (success, _), w2) \<Rightarrow> (if \<not> success then (Inl SharedMemoryErr, w2) else (Inr (), w2)))))"

end
