(* ===== verification/Control_Lemmas.thy ===== *)
theory Control_Lemmas
  imports Control_Watch
begin

text \<open>
  What the watch and the command line do to a well-formed block, in the terms of the abstract
  \<open>ring\<close>: attaching, one check of the control state, the commands on, off and restart, and the
  delivery of their signal to a watching process.
\<close>

section \<open>Attaching, with the system left behind\<close>

definition attached :: "shm_manager \<Rightarrow> os \<Rightarrow> nat \<Rightarrow> shm_manager" where
  "attached m w ob = m\<lparr>shm := Some ob, mmap := Some ob, memory_size := int (length (shm_bytes w ob)),
     sem := Some (case sem_names w (sem_name m) of Some s \<Rightarrow> s | None \<Rightarrow> next_sem w),
     version_mismatch := False\<rparr>"

definition with_sem :: "shm_manager \<Rightarrow> os \<Rightarrow> os" where
  "with_sem m w = (case sem_names w (sem_name m) of Some s \<Rightarrow> w
     | None \<Rightarrow> w\<lparr>sem_names := (sem_names w)(sem_name m := Some (next_sem w)),
                 sem_value := (sem_value w)(next_sem w := 1), next_sem := Suc (next_sem w)\<rparr>)"

text \<open>A manager that can be connected to the block \<open>ob\<close> of \<open>n\<close> entries, its semaphore free.\<close>

definition reachable_block :: "shm_manager \<Rightarrow> os \<Rightarrow> nat \<Rightarrow> nat \<Rightarrow> bool" where
  "reachable_block m w ob n \<longleftrightarrow> unconnected m \<and> shm_names w (shm_name m) = Some ob \<and>
     block_ok n (shm_bytes w ob) \<and> 0 \<le> now w \<and> now w < 2 ^ 32 \<and>
     (case sem_names w (sem_name m) of None \<Rightarrow> True | Some s \<Rightarrow> 0 < sem_value w s)"

lemma with_sem_frame [simp]:
  "shm_bytes (with_sem m w) = shm_bytes w" "kill (with_sem m w) = kill w" "now (with_sem m w) = now w"
  "signalled (with_sem m w) = signalled w" "shm_names (with_sem m w) = shm_names w"
  by (simp_all add: with_sem_def split: option.split)

lemma connect_attach_run:
  assumes "unconnected m" "shm_names w (shm_name m) = Some ob" "block_ok n (shm_bytes w ob)"
  shows "connect m create w = (Inr (attached m w ob, True), with_sem m w)"
proof -
  let ?m1 = "m\<lparr>shm := Some ob, mmap := Some ob, memory_size := int (length (shm_bytes w ob))\<rparr>"
  have "check_version_compatibility ?m1 w = ?m1\<lparr>version_mismatch := False\<rparr>"
    using assms(3) by (simp add: check_version_compatibility_def Let_def read_int_cell block_ok_def layout_defs)
  with assms(2) show ?thesis
    by (simp add: connect_def Let_def connect_sem_def attached_def with_sem_def split: option.split)
qed

lemma attached_names [simp]:
  "shm_name (attached m w ob) = shm_name m" "sem_name (attached m w ob) = sem_name m"
  by (simp_all add: attached_def)

lemma attached_ok:
  assumes "reachable_block m w ob n"
  shows "shm_ok (attached m w ob) (with_sem m w) ob n" "lock_free (attached m w ob) (with_sem m w)"
  using assms
  by (auto simp: reachable_block_def shm_ok_def view_ok_def attached_def unconnected_def block_ok_def
      lock_free_def with_sem_def split: option.splits)

section \<open>One check of the control state\<close>

lemma check_again:
  "check_control_state call w wt s = (wt', s') \<Longrightarrow> check_control_state call w wt' s' = (wt', s')"
  by (auto simp: check_control_state_def read_control_state_def Let_def split: if_splits prod.splits option.splits)

lemma check_invalid:
  "manager wt = Some m \<Longrightarrow> \<not> is_control_state_valid m w \<Longrightarrow> check_control_state call w wt s = (wt, s)"
  by (simp add: check_control_state_def)

lemma valid_block:
  assumes "shm_ok m w ob n" shows "is_control_state_valid m w"
  using assms view_okD[of m ob n]
  by (auto simp: is_control_state_valid_def shm_ok_def read_int_cell block_ok_def layout_defs)

definition watch_on :: "'c watch \<Rightarrow> bool \<Rightarrow> int \<Rightarrow> 'c watch" where
  "watch_on wt on t = wt\<lparr>current_state := (if on then STATE_ON else STATE_OFF), last_timestamp := t\<rparr>"

lemma check_valid:
  assumes ok: "shm_ok m w ob n" and m: "manager wt = Some m"
    and st: "current_state wt \<in> {STATE_OFF, STATE_ON}"
  shows "check_control_state call w wt s =
    (let r = block_abs n (shm_bytes w ob) in
     if ring_on r \<noteq> watch_enabled wt \<or> ring_on r \<and> ring_stamp r \<noteq> last_timestamp wt
     then (watch_on wt (ring_on r) (ring_stamp r),
           snd (notify_callbacks call (callbacks wt) (last_timestamp wt) (ring_on r) (ring_stamp r) s))
     else (wt, s))"
proof -
  have view: "view_ok m ob n" and blk: "block_ok n (shm_bytes w ob)" using ok by (simp_all add: shm_ok_def)
  have st': "cell_get (shm_bytes w ob) 12 = STATE_OFF \<or> cell_get (shm_bytes w ob) 12 = STATE_ON"
    using blk by (auto simp: block_ok_def)
  show ?thesis
    using m st st' valid_block[OF ok] get_fields[OF view, of w]
    by (auto simp: check_control_state_def read_control_state_def Let_def watch_on_def watch_enabled_def
        block_abs_def STATE_ON_def STATE_OFF_def split: prod.splits)
qed

section \<open>The commands\<close>

text \<open>The system after a command that takes effect.\<close>

definition commanded :: "shm_manager \<Rightarrow> nat \<Rightarrow> nat \<Rightarrow> bool \<Rightarrow> os \<Rightarrow> os" where
  "commanded m ob n on w = put_block ob (command_bytes (kill w) (now w) n on (shm_bytes w ob))
     (signalled w @ map nat (filter (live_pid (kill w)) (ring_slots (block_abs n (shm_bytes w ob)))))
     (with_sem m w)"

lemma command_runs:
  assumes r: "reachable_block m w ob n"
    and go: "force \<or> ring_on (block_abs n (shm_bytes w ob)) \<noteq> on"
  shows "\<exists>i j. Shm.send_control_command (attached m w ob) on force True (with_sem m w) =
           (Inr (True, i, j, True), commanded m ob n on w)"
proof -
  have t: "0 \<le> now (with_sem m w)" "now (with_sem m w) < 2 ^ 32"
    using r by (simp_all add: reachable_block_def)
  from go have go': "force \<or> ring_on (block_abs n (shm_bytes (with_sem m w) ob)) \<noteq> on" by simp
  show ?thesis
    unfolding send_control_command_run[OF attached_ok[OF r] t go'] commanded_def by auto
qed

lemma cli_start_run:
  assumes r: "reachable_block m w ob n" and cmd: "cmd = CmdRestart \<or> (cmd = CmdOn \<and> \<not> ring_on (block_abs n (shm_bytes w ob)))"
  shows "cli_send cmd m w = (0, commanded m ob n True w)"
proof -
  have "cmd_is_start cmd" "cmd \<noteq> CmdOff" using cmd by auto
  moreover have "cmd_force cmd \<or> ring_on (block_abs n (shm_bytes w ob)) \<noteq> True" using cmd by auto
  ultimately show ?thesis
    using connect_attach_run[of m w ob n] command_runs[OF r, of "cmd_force cmd" True] r
    by (auto simp: cli_send_def reachable_block_def)
qed

lemma cli_on_again:
  assumes r: "reachable_block m w ob n" and on: "ring_on (block_abs n (shm_bytes w ob))"
  shows "cli_send CmdOn m w = (0, with_sem m w)"
  using connect_attach_run[of m w ob n] send_control_command_skip[OF attached_ok[OF r], of True True] r on
  by (simp add: cli_send_def reachable_block_def)

lemma command_slots:
  assumes "block_ok n bs" "0 \<le> t" "t < 2 ^ 32"
  shows "ring_slots (block_abs n (command_bytes k t n on bs)) =
         map (\<lambda>p. if dead_pid k p then 0 else p) (ring_slots (block_abs n bs))"
  by (simp add: command_bytes_ok(2)[OF assms] ring_reap_slots ring_set_def)

lemma commanded_ok:
  assumes r: "reachable_block m w ob n"
  shows "shm_ok (attached m w ob) (commanded m ob n on w) ob n"
    and "block_abs n (shm_bytes (commanded m ob n on w) ob) =
         ring_reap (dead_pid (kill w)) (ring_set on (now w) (block_abs n (shm_bytes w ob)))"
proof -
  have b: "block_ok n (shm_bytes w ob)" "0 \<le> now w" "now w < 2 ^ 32"
    using r by (simp_all add: reachable_block_def)
  show "shm_ok (attached m w ob) (commanded m ob n on w) ob n"
    using attached_ok(1)[OF r] command_bytes_ok(1)[OF b] by (simp add: shm_ok_def commanded_def)
  show "block_abs n (shm_bytes (commanded m ob n on w) ob) =
         ring_reap (dead_pid (kill w)) (ring_set on (now w) (block_abs n (shm_bytes w ob)))"
    using command_bytes_ok(2)[OF b] by (simp add: commanded_def)
qed

lemma commanded_frame [simp]:
  "kill (commanded m ob n on w) = kill w" "now (commanded m ob n on w) = now w"
  "shm_names (commanded m ob n on w) = shm_names w"
  "signalled (commanded m ob n on w) = signalled w @
     map nat (filter (live_pid (kill w)) (ring_slots (block_abs n (shm_bytes w ob))))"
  by (simp_all add: commanded_def)

text \<open>Ids that no longer fit a C int make \<^verbatim>\<open>os.kill\<close> raise; the following exclude them.\<close>

definition killable :: "os \<Rightarrow> nat \<Rightarrow> nat \<Rightarrow> bool" where
  "killable w ob n \<longleftrightarrow> (\<forall>p \<in> set (ring_slots (block_abs n (shm_bytes w ob))). p > 0 \<longrightarrow> kill w (nat p) \<noteq> KillOverflow)"

lemma killable_commanded:
  assumes r: "reachable_block m w ob n" and k: "killable w ob n"
  shows "killable (commanded m ob n on w) ob n"
  using k by (auto simp: killable_def commanded_ok(2)[OF r] ring_reap_slots ring_set_def split: if_splits)

lemma cli_off_run:
  assumes r: "reachable_block m w ob n" and on: "ring_on (block_abs n (shm_bytes w ob))" and k: "killable w ob n"
  shows "cli_send CmdOff m w =
    (if \<exists>p \<in> set (ring_slots (block_abs n (shm_bytes w ob))). live_pid (kill w) p
     then (0, commanded m ob n False w)
     else (0, snd (destroy (attached m w ob) (commanded m ob n False w))))"
proof -
  let ?w = "commanded m ob n False w"
  let ?slots = "ring_slots (block_abs n (shm_bytes w ob))"
  from on have go: "cmd_force CmdOff \<or> ring_on (block_abs n (shm_bytes w ob)) \<noteq> False" by simp
  obtain i j where cmd: "Shm.send_control_command (attached m w ob) False False True (with_sem m w) =
      (Inr (True, i, j, True), ?w)"
    using command_runs[OF r go] by auto
  have k': "\<forall>p \<in> set (ring_slots (block_abs n (shm_bytes ?w ob))). p > 0 \<longrightarrow> kill ?w (nat p) \<noteq> KillOverflow"
    using killable_commanded[OF r k] unfolding killable_def .
  have sl: "ring_slots (block_abs n (shm_bytes ?w ob)) = map (\<lambda>p. if dead_pid (kill w) p then 0 else p) ?slots"
    by (simp add: commanded_ok(2)[OF r] ring_reap_slots ring_set_def)
  have "filter (live_pid (kill w)) (ring_slots (block_abs n (shm_bytes ?w ob))) = filter (live_pid (kill w)) ?slots"
    unfolding sl by (rule filter_live_reap)
  then have live: "(\<exists>p \<in> set (ring_slots (block_abs n (shm_bytes ?w ob))). live_pid (kill w) p) \<longleftrightarrow>
      (\<exists>p \<in> set ?slots. live_pid (kill w) p)"
    by (metis filter_empty_conv)
  have off: "\<not> ring_on (block_abs n (shm_bytes ?w ob))"
    by (simp add: commanded_ok(2)[OF r] ring_reap_def ring_set_def)
  have "\<not> ring_on (block_abs n (shm_bytes ?w ob)) \<and>
      (\<forall>p \<in> set (ring_slots (block_abs n (shm_bytes ?w ob))). \<not> live_pid (kill ?w) p) \<longleftrightarrow>
      \<not> (\<exists>p \<in> set ?slots. live_pid (kill w) p)"
    using live off by auto
  then have "should_destroy (attached m w ob) ?w = (Inr (\<not> (\<exists>p \<in> set ?slots. live_pid (kill w) p)), ?w)"
    using should_destroy_run[OF commanded_ok(1)[OF r] k'] by simp
  with connect_attach_run[of m w ob n] cmd r show ?thesis
    by (cases "\<exists>p \<in> set ?slots. live_pid (kill w) p") (simp_all add: cli_send_def reachable_block_def)
qed

lemma cli_off_absent:
  "shm_names w (shm_name m) = None \<Longrightarrow> cli_send CmdOff m w = (0, w)"
  by (simp add: cli_send_def connect_def)

section \<open>A command seen by a watching process\<close>

definition watching :: "('c, 's) process \<Rightarrow> os \<Rightarrow> nat \<Rightarrow> nat \<Rightarrow> bool" where
  "watching p w ob n \<longleftrightarrow> disposition p = WatchHandler \<and> \<not> signal_busy (watch p) \<and>
     current_state (watch p) \<in> {STATE_OFF, STATE_ON} \<and>
     (\<exists>m. manager (watch p) = Some m \<and> view_ok m ob n) \<and>
     proc_pid p \<in> set (ring_slots (block_abs n (shm_bytes w ob))) \<and> live_pid (kill w) (proc_pid p)"

lemma commanded_signals:
  assumes "watching p w ob n"
  shows "nat (proc_pid p) \<in> set (drop (length (signalled w)) (signalled (commanded m ob n on w)))"
  using assms by (auto simp: watching_def)

lemma deliver_check:
  assumes "disposition p = WatchHandler" "\<not> signal_busy (watch p)" "original_handler (watch p) \<noteq> Some OtherHandler"
  shows "deliver call orig w p =
    Some (p\<lparr>watch := fst (check_control_state call w (watch p) (client p)),
            client := snd (check_control_state call w (watch p) (client p))\<rparr>)"
proof -
  have "original_handler (fst (check_control_state call w (watch p) (client p))) = original_handler (watch p)"
    by (simp add: check_control_state_def Let_def split: prod.split)
  with assms show ?thesis
    by (auto simp: deliver_def signal_handler_def Let_def split: prod.splits option.splits disposition.splits)
qed

lemma deliver_command:
  assumes r: "reachable_block m w ob n" and p: "watching p w ob n"
    and own: "original_handler (watch p) \<noteq> Some OtherHandler"
  shows "deliver call orig (commanded m ob n on w) p = Some
    (if on \<noteq> watch_enabled (watch p) \<or> on \<and> now w \<noteq> last_timestamp (watch p)
     then p\<lparr>watch := watch_on (watch p) on (now w),
            client := snd (notify_callbacks call (callbacks (watch p)) (last_timestamp (watch p)) on (now w) (client p))\<rparr>
     else p)"
proof -
  let ?w = "commanded m ob n on w"
  obtain mp where mp: "manager (watch p) = Some mp" "view_ok mp ob n" using p by (auto simp: watching_def)
  have ok: "shm_ok mp ?w ob n" using commanded_ok(1)[OF r] mp(2) by (simp add: shm_ok_def)
  have st: "current_state (watch p) \<in> {STATE_OFF, STATE_ON}" using p by (simp add: watching_def)
  have ring: "ring_on (block_abs n (shm_bytes ?w ob)) = on" "ring_stamp (block_abs n (shm_bytes ?w ob)) = now w"
    by (simp_all add: commanded_ok(2)[OF r] ring_reap_def ring_set_def)
  have "deliver call orig ?w p =
    Some (p\<lparr>watch := fst (check_control_state call ?w (watch p) (client p)),
            client := snd (check_control_state call ?w (watch p) (client p))\<rparr>)"
    using p own by (intro deliver_check) (simp_all add: watching_def)
  then show ?thesis
    using check_valid[OF ok mp(1) st, of call "client p"] by (simp add: ring Let_def)
qed

text \<open>Stopping the watch gives back the disposition but leaves the id in the block.\<close>

lemma stop_leaves_pid:
  "watching p w ob n \<Longrightarrow> running (watch p) \<Longrightarrow> original_handler (watch p) = Some SigDfl \<Longrightarrow>
   deliver call orig (commanded m ob n on w) (watch_stop p) = None"
  by (simp add: deliver_def watch_stop_def)


text \<open>
  The interface between the control watch and the callback that is registered with it, and what follows for
  a watch with that one callback: the client is on only if the watch's own state is ON, through every check
  of the control state and every delivered signal, and a check that sees a new command leaves the client in
  the commanded state unless the callback raised.
\<close>

locale switch_client =
  fixes call :: "('c, 's) caller" and cb :: 'c and active :: "'s \<Rightarrow> bool"
  assumes started: "call cb prev_ts True ts s = (True, s') \<Longrightarrow> active s'"
    and stopped: "call cb prev_ts False ts s = (ok, s') \<Longrightarrow> \<not> active s'"
begin

definition in_step :: "'c watch \<Rightarrow> 's \<Rightarrow> bool" where
  "in_step wt s \<longleftrightarrow> (active s \<longrightarrow> watch_enabled wt)"

lemma check_in_step:
  assumes one: "callbacks wt = [cb]" and sync: "in_step wt s"
    and run: "check_control_state call w wt s = (wt', s')"
  shows "in_step wt' s'" "callbacks wt' = [cb]"
proof -
  have off: "b" if "call cb p b t s = (ok, s1)" "active s1" for p b t ok s1
    using that stopped[of p t s ok s1] by (cases b) auto
  show "in_step wt' s'"
    using run sync one
    by (auto simp: check_control_state_def Let_def in_step_def watch_enabled_def split: if_splits prod.splits dest: off)
  show "callbacks wt' = [cb]"
    using run one by (auto simp: check_control_state_def Let_def split: if_splits prod.splits)
qed

lemma check_obeys:
  assumes one: "callbacks wt = [cb]" and ok: "shm_ok m w ob n" and m: "manager wt = Some m"
    and st: "current_state wt \<in> {STATE_OFF, STATE_ON}"
    and new: "ring_on (block_abs n (shm_bytes w ob)) \<noteq> watch_enabled wt \<or>
      ring_on (block_abs n (shm_bytes w ob)) \<and> ring_stamp (block_abs n (shm_bytes w ob)) \<noteq> last_timestamp wt"
    and run: "check_control_state call w wt s = (wt', s')"
    and fine: "fst (call cb (last_timestamp wt) (ring_on (block_abs n (shm_bytes w ob)))
      (ring_stamp (block_abs n (shm_bytes w ob))) s)"
  shows "active s' = ring_on (block_abs n (shm_bytes w ob))" "watch_enabled wt' = ring_on (block_abs n (shm_bytes w ob))"
proof -
  let ?r = "block_abs n (shm_bytes w ob)"
  obtain b s1 where c: "call cb (last_timestamp wt) (ring_on ?r) (ring_stamp ?r) s = (b, s1)"
    by (metis prod.collapse)
  have b: b using fine c by simp
  have "(wt', s') = (watch_on wt (ring_on ?r) (ring_stamp ?r), s1)"
    using check_valid[OF ok m st, of call s] run new c one by (simp add: Let_def)
  then have eq: "s' = s1" "wt' = watch_on wt (ring_on ?r) (ring_stamp ?r)" by auto
  show "active s' = ring_on ?r"
    using c b started[of "last_timestamp wt" "ring_stamp ?r" s s1] stopped[of "last_timestamp wt" "ring_stamp ?r" s b s1] eq(1)
    by (cases "ring_on ?r") auto
  show "watch_enabled wt' = ring_on ?r"
    using eq(2) by (simp add: watch_on_def watch_enabled_def STATE_ON_def STATE_OFF_def)
qed

lemma deliver_in_step:
  assumes "callbacks (watch p) = [cb]" "in_step (watch p) (client p)" "disposition p = WatchHandler"
    and "original_handler (watch p) \<noteq> Some OtherHandler" "deliver call orig w p = Some p'"
  shows "in_step (watch p') (client p') \<and> callbacks (watch p') = [cb]"
proof (cases "signal_busy (watch p)")
  case True
  then show ?thesis using assms by (simp add: deliver_def signal_handler_def)
next
  case False
  obtain wt s where "check_control_state call w (watch p) (client p) = (wt, s)" by (metis prod.collapse)
  with check_in_step[OF assms(1,2) this] deliver_check[OF assms(3) False assms(4), of call orig w] assms(5)
  show ?thesis by auto
qed

end

end
