(* ===== verification/Manager_Switch.thy ===== *)
theory Manager_Switch
  imports Manager_Props Control_Lemmas
begin

text \<open>
  The manager as the client of the control watch: \<^verbatim>\<open>SymbolHandlerManager.initialize\<close> registers
  \<^verbatim>\<open>_on_control_state_change\<close> as the only callback. The interface \<open>switch_client\<close> is interpreted with it, and
  its lemmas give the properties of the whole control path, from the command line to the hooks.
\<close>

definition manager_call :: "'cfg loader \<Rightarrow> env \<Rightarrow> (unit, 'cfg world) caller" where
  "manager_call ld e cb prev_ts is_start ts w =
     (case on_control_state_change ld e prev_ts is_start ts w of (err, w') \<Rightarrow> (err = None, w'))"

text \<open>
  \<^verbatim>\<open>initialize\<close>: load the configuration, register the callback, start the watch, install the finder; an error
  of any step is raised and leaves what the steps before it did.
\<close>

definition initialize ::
  "('cfg \<Rightarrow> (ymap option) \<times> 'cfg) \<Rightarrow> 'cfg loader \<Rightarrow> env \<Rightarrow> string option \<Rightarrow> nat option \<Rightarrow>
   (unit, 'cfg world) process \<Rightarrow> os \<Rightarrow> bool \<times> (unit, 'cfg world) process \<times> os" where
  "initialize load ld e env_prefix env_procs p os =
     (case load (config (client p)) of
        (None, cfg) \<Rightarrow> (False, p\<lparr>client := (client p)\<lparr>config := cfg\<rparr>\<rparr>, os)
      | (Some conf, cfg) \<Rightarrow>
          (let (wt, s) = register_callback (manager_call ld e) () (watch p) ((client p)\<lparr>config := cfg\<rparr>)
           in case watch_start (manager_call ld e) env_prefix env_procs (p\<lparr>watch := wt, client := s\<rparr>) os of
                (Some err, p1, os1) \<Rightarrow> (False, p1, os1)
              | (None, p1, os1) \<Rightarrow> (True, p1\<lparr>client := watcher_start (client p1)\<rparr>, os1)))"

lemma enabled_unlock [simp]: "enabled (w\<lparr>updating := b\<rparr>) = enabled w"
  by simp

lemma same_enabled: "same_reg w w' \<Longrightarrow> enabled w' = enabled w"
  by (simp add: same_reg_def)

lemma apply_all_enabled: "enabled (apply_all_hooks e w) = enabled w"
  unfolding apply_all_hooks_def by (rule same_enabled) (rule same_reg_fold, rule same_reg_hook)

lemma manager_started:
  "manager_call ld e cb prev_ts True ts w = (True, w') \<Longrightarrow> enabled w'"
  by (auto simp: manager_call_def on_control_state_change_def Let_def apply_all_enabled
      split: prod.splits if_splits option.splits bool.splits)

lemma manager_stopped:
  "manager_call ld e cb prev_ts False ts w = (ok, w') \<Longrightarrow> \<not> enabled w'"
  by (auto simp: manager_call_def on_control_state_change_def split: if_splits)

interpretation sw: switch_client "manager_call ld e" "()" enabled
  for ld :: "'cfg loader" and e :: env
  by unfold_locales (auto intro: manager_started dest: manager_stopped)

section \<open>A concrete system\<close>

definition example_block :: bytes where
  "example_block = cell_put 36 42 (cell_put 12 STATE_ON (fresh_bytes 1))"

definition example_os :: os where
  "example_os = \<lparr>shm_names = (\<lambda>_. Some 0), shm_bytes = (\<lambda>_. example_block), next_shm = 1, sem_names = (\<lambda>_. None),
     sem_value = (\<lambda>_. 0), next_sem = 0, kill = (\<lambda>_. KillOk), signalled = [], now = 9\<rparr>"

definition example_shm :: shm_manager where
  "example_shm = new_manager None (Some 1) None None"

definition example_process :: "(unit, nat world) process" where
  "example_process = \<lparr>proc_pid = 42, disposition = WatchHandler,
     watch = (new_watch None (Some 1) None None)\<lparr>callbacks := [()], running := True,
        manager := Some (attached example_shm example_os 0), current_state := STATE_ON, last_timestamp := 5,
        original_handler := Some SigDfl\<rparr>, client = example_running\<rparr>"

lemma example_block_ok: "block_ok 1 example_block"
proof -
  have "block_ok 1 (cell_put 12 STATE_ON (fresh_bytes 1))"
    by (rule block_ok_put_state[OF fresh_bytes_ok(1)]) simp_all
  from block_ok_put_slot[OF this, of 0 42] show ?thesis by (simp add: example_block_def)
qed

lemma example_ring:
  "ring_on (block_abs 1 example_block)" "ring_slots (block_abs 1 example_block) = [42]"
proof -
  have len: "length (fresh_bytes 1) = 40" using fresh_bytes_ok(1)[of 1] by (simp add: block_ok_def)
  show "ring_on (block_abs 1 example_block)" "ring_slots (block_abs 1 example_block) = [42]"
    using len by (simp_all add: block_abs_def example_block_def cell_get_put_same cell_get_put_other layout_defs)
qed

lemmas example_rings = example_ring example_ring[unfolded One_nat_def]

lemma example_reachable: "reachable_block example_shm example_os 0 1"
  using example_block_ok
  by (simp add: reachable_block_def example_os_def example_shm_def new_manager_unconnected)

lemma example_watching: "watching example_process example_os 0 1" "killable example_os 0 1"
proof -
  have "view_ok (attached example_shm example_os 0) 0 1"
    using attached_ok(1)[OF example_reachable] by (simp add: shm_ok_def)
  then show "watching example_process example_os 0 1"
    by (simp add: watching_def example_process_def new_watch_def example_os_def example_rings live_pid_def)
  show "killable example_os 0 1" by (simp add: killable_def example_os_def)
qed

section \<open>Properties\<close>

text \<open>
  Property C9. In a process that watches the block with the manager's callback, hooking is enabled only while the watch
  has last seen the state ON: every delivery of SIGUSR1, whatever the block holds, keeps this.
\<close>

theorem signal_keeps_in_step:
  assumes "callbacks (watch p) = [()]" "enabled (client p) \<longrightarrow> watch_enabled (watch p)"
    and "disposition p = WatchHandler" "original_handler (watch p) \<noteq> Some OtherHandler"
    and "deliver (manager_call ld e) orig os p = Some p'"
  shows "enabled (client p') \<longrightarrow> watch_enabled (watch p')"
  using sw.deliver_in_step[of p ld e orig os p'] assms by (simp add: sw.in_step_def)

theorem signal_keeps_in_step_witness:
  "\<exists>p'. deliver (manager_call example_loader example_env) (\<lambda>s. s) example_os example_process = Some p' \<and>
     (enabled (client p') \<longrightarrow> watch_enabled (watch p'))"
proof -
  obtain p' where d: "deliver (manager_call example_loader example_env) (\<lambda>s. s) example_os example_process = Some p'"
    by (simp add: deliver_def example_process_def)
  have "enabled (client p') \<longrightarrow> watch_enabled (watch p')"
    by (rule signal_keeps_in_step[OF _ _ _ _ d]) (simp_all add: example_process_def watch_enabled_def)
  with d show ?thesis by blast
qed

text \<open>
  Property C2. The command line end to end, for a well-formed block that is ON, whose semaphore is free, whose process ids fit a C
  integer, at a time that fits 32 bits. A live process of its list watches the block with the callback of its metrics manager as the
  only one, is not inside the signal handler, had last seen the state ON and had no foreign signal handler before; its manager is
  enabled and keeps its invariant, no handler is locked, and hooks can be built and installed. Then \<^verbatim>\<open>off\<close> exits with 0, the process is among those signalled, and
  once its signal is handled its watch has seen the state OFF, its manager is disabled, both registries are empty, and no chain
  carries a hook function.
\<close>

theorem cli_off_unhooks_process:
  assumes r: "reachable_block m os ob n" and on: "ring_on (block_abs n (shm_bytes os ob))" and k: "killable os ob n"
    and p: "watching p os ob n" "callbacks (watch p) = [()]" "watch_enabled (watch p)"
    and own: "original_handler (watch p) \<noteq> Some OtherHandler"
    and wf: "wf_world name (client p)" "env_ok e" "enabled (client p)"
    and free: "\<forall>hid h. dict_get (handlers (client p)) hid = Some h \<longrightarrow> \<not> locked h"
  shows "\<exists>os' p'. cli_send CmdOff m os = (0, os') \<and>
    nat (proc_pid p) \<in> set (drop (length (signalled os)) (signalled os')) \<and>
    deliver (manager_call ld e) orig os' p = Some p' \<and>
    \<not> watch_enabled (watch p') \<and> \<not> enabled (client p') \<and> symbols (client p') = [] \<and> handlers (client p') = [] \<and>
    no_hooks (client p')"
proof -
  let ?os = "commanded m ob n False os"
  have live: "\<exists>q \<in> set (ring_slots (block_abs n (shm_bytes os ob))). live_pid (kill os) q"
    using p(1) by (auto simp: watching_def)
  have cli: "cli_send CmdOff m os = (0, ?os)" using cli_off_run[OF r on k] live by simp
  let ?w' = "snd (manager_call ld e () (last_timestamp (watch p)) False (now os) (client p))"
  obtain err w' where run: "on_control_state_change ld e (last_timestamp (watch p)) False (now os) (client p) = (err, w')"
    by (metis prod.collapse)
  have "notify_callbacks (manager_call ld e) (callbacks (watch p)) (last_timestamp (watch p)) False (now os) (client p) =
      (err = None, w')"
    using p(2) run by (simp add: manager_call_def)
  then have d: "deliver (manager_call ld e) orig ?os p =
      Some (p\<lparr>watch := watch_on (watch p) False (now os), client := w'\<rparr>)"
    using deliver_command[OF r p(1) own, of "manager_call ld e" orig False] p(3) by simp
  have "symbols w' = [] \<and> handlers w' = [] \<and> \<not> enabled w' \<and> no_hooks w'"
    using off_gives[OF wf(1,2,3) free run] by simp
  moreover have "\<not> watch_enabled (watch_on (watch p) False (now os))"
    by (simp add: watch_on_def watch_enabled_def STATE_ON_def STATE_OFF_def)
  ultimately show ?thesis using cli d commanded_signals[OF p(1), of m False] by simp
qed

theorem cli_off_unhooks_process_witness:
  "\<exists>os' p'. cli_send CmdOff example_shm example_os = (0, os') \<and>
    deliver (manager_call example_loader example_env) (\<lambda>s. s) os' example_process = Some p' \<and>
    \<not> enabled (client p') \<and> handlers (client p') = [] \<and> no_hooks (client p')"
proof -
  have "\<forall>hid h. dict_get (handlers example_running) hid = Some h \<longrightarrow> \<not> locked h"
    by (auto simp: example_running_facts example_handler_def locked_def)
  moreover have "ring_on (block_abs 1 (shm_bytes example_os 0))" by (simp add: example_os_def example_rings)
  ultimately show ?thesis
    using cli_off_unhooks_process[OF example_reachable _ example_watching(2,1), of "\<lambda>s. s" example_env
        example_loader "\<lambda>s. s"] example_running_wf example_env_ok example_running_facts(1)
    by (auto simp: example_process_def new_watch_def watch_enabled_def)
qed

text \<open>
  A restart that is sent in the second of the last handled command is lost: the process is signalled, but
  the time stamp it reads is the one it has already handled, so neither the watch nor the manager changes.
\<close>

theorem same_second_restart_lost:
  assumes r: "reachable_block m os ob n" and p: "watching p os ob n" "watch_enabled (watch p)"
    and own: "original_handler (watch p) \<noteq> Some OtherHandler"
    and same: "now os = last_timestamp (watch p)"
  shows "\<exists>os'. cli_send CmdRestart m os = (0, os') \<and>
    nat (proc_pid p) \<in> set (drop (length (signalled os)) (signalled os')) \<and> deliver call orig os' p = Some p"
  using cli_start_run[OF r, of CmdRestart] commanded_signals[OF p(1), of m True]
    deliver_command[OF r p(1) own, of call orig True] p(2) same
  by simp

theorem same_second_restart_lost_witness:
  "\<exists>os'. cli_send CmdRestart example_shm (example_os\<lparr>now := 5\<rparr>) = (0, os') \<and>
    deliver (manager_call example_loader example_env) (\<lambda>s. s) os' example_process = Some example_process"
proof -
  have "reachable_block example_shm (example_os\<lparr>now := 5\<rparr>) 0 1"
    using example_reachable by (simp add: reachable_block_def example_os_def)
  moreover have "watching example_process (example_os\<lparr>now := 5\<rparr>) 0 1"
    using example_watching(1) by (simp add: watching_def example_os_def)
  ultimately show ?thesis
    using same_second_restart_lost[of example_shm "example_os\<lparr>now := 5\<rparr>" 0 1 example_process
        "manager_call example_loader example_env" "\<lambda>s. s"]
    by (auto simp: example_process_def watch_enabled_def)
qed

text \<open>
  Stopping the watch gives SIGUSR1 back to its default action but leaves the process id in the block: the
  next command that takes effect signals the process, which ends it.
\<close>

theorem stopped_watch_is_killed:
  assumes r: "reachable_block m os ob n" and p: "watching p os ob n" "running (watch p)"
    and own: "original_handler (watch p) = Some SigDfl"
  shows "\<exists>os'. cli_send CmdRestart m os = (0, os') \<and>
    nat (proc_pid p) \<in> set (drop (length (signalled os)) (signalled os')) \<and>
    deliver call orig os' (watch_stop p) = None"
  using cli_start_run[OF r, of CmdRestart] commanded_signals[OF p(1), of m True]
    stop_leaves_pid[OF p(1,2) own, of call orig m True]
  by simp

theorem stopped_watch_is_killed_witness:
  "\<exists>os'. cli_send CmdRestart example_shm example_os = (0, os') \<and>
    deliver (manager_call example_loader example_env) (\<lambda>s. s) os' (watch_stop example_process) = None"
  using stopped_watch_is_killed[OF example_reachable example_watching(1), of "manager_call example_loader example_env" "\<lambda>s. s"]
  by (auto simp: example_process_def)

end
