(* ===== verification/Handlers.thy ===== *)
theory Handlers
  imports Symbols "HOL-Library.Char_ord" "HOL-Library.List_Lexorder"
begin

text \<open>
  Handlers made from configuration: \<^verbatim>\<open>ms_service_metric/core/handler.py\<close> (\<open>MetricHandler.from_config\<close> and what
  it calls) and \<^verbatim>\<open>MetricConfig\<close> of \<^verbatim>\<open>metrics/metrics_manager.py\<close>.

  \<open>None\<close> is any raise: the only caller, the manager, turns every exception into a failed build. The record
  \<open>runtime\<close> holds what the code calls and does not define: the text \<^verbatim>\<open>json.dumps\<close> gives for an identity
  (\<open>None\<close> when keys of mixed types cannot be sorted), the SHA-256 function, the text \<^verbatim>\<open>yaml.safe_dump\<close>
  gives, the callable an import finds (under a root directory for external modules), and what a factory
  returns when it is called.
\<close>

section \<open>Python equality of configuration values\<close>

text \<open>
  \<open>canon\<close> gives values that Python compares as equal the same form: \<^verbatim>\<open>True == 1 == 1.0\<close>, and the
  order of mapping keys does not matter. PyYAML makes every \<^verbatim>\<open>.nan\<close> the same object, which containers
  compare as equal. A finite float is a decimal \<open>Dec m e\<close>, which stands for \<open>m / 10 ^ e\<close>; every double
  has such a form exactly.
\<close>

fun dec_norm :: "int \<Rightarrow> nat \<Rightarrow> yaml" where
  "dec_norm m 0 = YInt m"
| "dec_norm m (Suc e) = (if m mod 10 = 0 then dec_norm (m div 10) e else YFloat (Dec m (Suc e)))"

fun canon_float :: "pyfloat \<Rightarrow> yaml" where
  "canon_float (Dec m e) = dec_norm m e"
| "canon_float f = YFloat f"

primrec canon :: "yaml \<Rightarrow> yaml" where
  "canon YNull = YNull"
| "canon (YBool b) = YInt (if b then 1 else 0)"
| "canon (YInt n) = YInt n"
| "canon (YFloat f) = canon_float f"
| "canon (YStr s) = YStr s"
| "canon (YList xs) = YList (map canon xs)"
| "canon (YMap d) = YMap (sort_key fst (map (map_prod id canon) d))"

definition py_eq :: "yaml \<Rightarrow> yaml \<Rightarrow> bool" where
  "py_eq x y \<longleftrightarrow> canon x = canon y"

lemma py_eq_refl [simp]: "py_eq x x" and py_eq_sym: "py_eq x y \<longleftrightarrow> py_eq y x"
  and py_eq_trans: "py_eq x y \<Longrightarrow> py_eq y z \<Longrightarrow> py_eq x z"
  by (auto simp: py_eq_def)

fun hashable :: "yaml \<Rightarrow> bool" where
  "hashable (YList xs) = False"
| "hashable (YMap d) = False"
| "hashable _ = True"

text \<open>\<^verbatim>\<open>d[k] = v\<close> for a dict with arbitrary hashable keys: an equal key keeps its place and its first spelling.\<close>

definition key_set :: "yaml \<Rightarrow> yaml \<Rightarrow> (yaml \<times> yaml) list \<Rightarrow> (yaml \<times> yaml) list" where
  "key_set k v d = (if list_ex (\<lambda>(k', _). py_eq k k') d
                    then map (\<lambda>(k', v'). (k', if py_eq k k' then v else v')) d else d @ [(k, v)])"

section \<open>Metric configuration\<close>

definition METRIC_TYPES :: "string list" where
  "METRIC_TYPES = [''timer'', ''histogram'', ''counter'', ''gauge'', ''summary'']"

record metric_config =
  mc_name :: yaml
  mc_type :: string
  mc_expr :: yaml
  mc_buckets :: yaml
  mc_labels :: "(yaml \<times> yaml) list"

text \<open>\<^verbatim>\<open>MetricConfig(...)\<close> with \<^verbatim>\<open>__post_init__\<close>: a timer has no expression.\<close>

definition new_metric_config :: "yaml \<Rightarrow> string \<Rightarrow> yaml \<Rightarrow> yaml \<Rightarrow> (yaml \<times> yaml) list \<Rightarrow> metric_config" where
  "new_metric_config name type expr buckets labels =
     \<lparr>mc_name = name, mc_type = type, mc_expr = (if type = ''timer'' then YStr '''' else expr),
      mc_buckets = buckets, mc_labels = labels\<rparr>"

text \<open>\<^verbatim>\<open>MetricType(value)\<close>, with an unknown value replaced by the timer.\<close>

definition metric_type_of :: "yaml \<Rightarrow> string" where
  "metric_type_of v = (case v of YStr s \<Rightarrow> (if s \<in> set METRIC_TYPES then s else ''timer'') | _ \<Rightarrow> ''timer'')"

fun label_dict :: "yaml list \<Rightarrow> (yaml \<times> yaml) list \<Rightarrow> (yaml \<times> yaml) list option" where
  "label_dict [] acc = Some acc"
| "label_dict (YMap label # ls) acc =
     (if hashable (yget ''name'' label)
      then label_dict ls (key_set (yget ''name'' label) (yget ''expr'' label) acc) else None)"
| "label_dict (_ # ls) acc = label_dict ls acc"

fun parse_metrics_config :: "yaml list \<Rightarrow> metric_config list option" where
  "parse_metrics_config [] = Some []"
| "parse_metrics_config (YMap item # items) =
     (case iterate (yget_default ''labels'' (YList []) item) of
        None \<Rightarrow> None
      | Some ls \<Rightarrow>
          (case (label_dict ls [], parse_metrics_config items) of
             (Some labels, Some configs) \<Rightarrow>
               Some (new_metric_config (yget_default ''name'' (YStr ''unknown'') item)
                       (metric_type_of (yget_default ''type'' (YStr ''timer'') item))
                       (yget_default ''expr'' (YStr '''') item) (yget ''buckets'' item) labels # configs)
           | _ \<Rightarrow> None))"
| "parse_metrics_config (_ # items) = parse_metrics_config items"

section \<open>Runtime services\<close>

datatype func_kind = GeneratorFunction | ContextManagerClass | OtherCallable

record pyfunc =
  func_module :: string
  func_name :: string
  func_kind :: func_kind

record identity =
  id_handler :: yaml
  id_name :: yaml
  id_min_version :: yaml
  id_max_version :: yaml
  id_lock_patch :: yaml
  id_root :: "string option"
  id_metrics :: "metric_config list"

record runtime =
  json_dumps :: "identity \<Rightarrow> string option"
  sha256 :: "string \<Rightarrow> 8 word list"
  yaml_dump :: "yaml \<Rightarrow> string"
  module_attr :: "string option \<Rightarrow> string \<Rightarrow> string \<Rightarrow> pyfunc option"
  call_factory :: "pyfunc \<Rightarrow> metric_config list \<Rightarrow> nat \<Rightarrow> pyfunc option option"

definition hex_digit :: "nat \<Rightarrow> char" where
  "hex_digit n = ''0123456789abcdef'' ! n"

definition hexdigest :: "8 word list \<Rightarrow> string" where
  "hexdigest bs = concat (map (\<lambda>b. [hex_digit (unat b div 16), hex_digit (unat b mod 16)]) bs)"

section \<open>Identity\<close>

text \<open>\<^verbatim>\<open>",".join(metric.get("name", "") for metric in metrics if isinstance(metric, dict))\<close>\<close>

fun metric_names :: "yaml list \<Rightarrow> string list option" where
  "metric_names [] = Some []"
| "metric_names (YMap m # ms) =
     (case (yget_default ''name'' (YStr '''') m, metric_names ms) of
        (YStr s, Some ss) \<Rightarrow> Some (s # ss) | _ \<Rightarrow> None)"
| "metric_names (_ # ms) = metric_names ms"

fun join_comma :: "string list \<Rightarrow> string" where
  "join_comma [] = []"
| "join_comma [s] = s"
| "join_comma (s # t # ss) = s @ '','' @ join_comma (t # ss)"

definition resolve_handler_name :: "ymap \<Rightarrow> yaml option" where
  "resolve_handler_name c =
     (if truthy (yget ''name'' c) then Some (yget ''name'' c)
      else if truthy (yget ''handler'' c) then Some (yget ''handler'' c)
      else (case iterate (yget_default ''metrics'' (YList []) c) of
              None \<Rightarrow> None
            | Some ms \<Rightarrow> map_option (YStr \<circ> join_comma) (metric_names ms)))"

definition fingerprint_handler_name :: "ymap \<Rightarrow> yaml option" where
  "fingerprint_handler_name c =
     (let configured_name = yget ''name'' c
      in if \<not> truthy configured_name then Some YNull
         else (case resolve_handler_name (dict_del ''name'' c) of
                 None \<Rightarrow> None
               | Some n \<Rightarrow> Some (if py_eq configured_name n then YNull else configured_name)))"

definition default_handler_path :: string where
  "default_handler_path = ''ms_service_metric.handlers:default_handler''"

definition identity_of :: "ymap \<Rightarrow> string option \<Rightarrow> identity option" where
  "identity_of c root =
     (let raw = yget_default ''metrics'' (YList []) c;
          raw_metrics = (case raw of YList ms \<Rightarrow> ms | _ \<Rightarrow> (if truthy raw then [raw] else []))
      in case (parse_metrics_config raw_metrics, fingerprint_handler_name c) of
           (Some metrics, Some name) \<Rightarrow>
             Some \<lparr>id_handler = (if truthy (yget ''handler'' c) then yget ''handler'' c else YStr default_handler_path),
                   id_name = name, id_min_version = yget ''min_version'' c, id_max_version = yget ''max_version'' c,
                   id_lock_patch = yget_default ''lock_patch'' (YBool False) c, id_root = root, id_metrics = metrics\<rparr>
         | _ \<Rightarrow> None)"

definition fingerprint_config :: "('r) runtime_scheme \<Rightarrow> ymap \<Rightarrow> string option \<Rightarrow> string option" where
  "fingerprint_config rt c root =
     (case identity_of c root of
        None \<Rightarrow> None
      | Some ident \<Rightarrow> map_option (\<lambda>serialized. take 16 (hexdigest (sha256 rt serialized))) (json_dumps rt ident))"

section \<open>Building a handler\<close>

definition import_handler :: "('r) runtime_scheme \<Rightarrow> string \<Rightarrow> string list \<Rightarrow> string option \<Rightarrow> pyfunc option" where
  "import_handler rt handler_path prefixes root =
     (case rsplit1 (CHR '':'') handler_path of
        None \<Rightarrow> None
      | Some (modpath, fname) \<Rightarrow>
          (if is_allowed_handler_module modpath prefixes then module_attr rt None modpath fname
           else if root = None then None else module_attr rt root modpath fname))"

datatype handler_type = WrapType | ContextType

definition classify_hook_func :: "pyfunc option \<Rightarrow> handler_type option" where
  "classify_hook_func f = (case f of None \<Rightarrow> None
     | Some g \<Rightarrow> Some (if func_kind g = OtherCallable then WrapType else ContextType))"

definition generate_id :: "string \<Rightarrow> string option \<Rightarrow> pyfunc \<Rightarrow> string \<Rightarrow> string" where
  "generate_id path fingerprint f name =
     (let spath = (if path = [] then ''unknown'' else path)
      in case fingerprint of
           Some (c # cs) \<Rightarrow> spath @ '':config:'' @ c # cs
         | _ \<Rightarrow> spath @ '':'' @ func_module f @ '':'' @ func_name f @ ''-'' @ name)"

text \<open>A handler with the parts that only hooking uses.\<close>

record metric_handler = handler +
  hook_function :: pyfunc
  metrics_config :: "metric_config list"
  handler_kind :: "handler_type option"

text \<open>\<^verbatim>\<open>str(name)\<close> of a name that is no string is not modelled; an id with a fingerprint does not contain it.\<close>

definition new_metric_handler ::
  "yaml \<Rightarrow> string \<Rightarrow> pyfunc \<Rightarrow> yaml \<Rightarrow> yaml \<Rightarrow> metric_config list \<Rightarrow> yaml \<Rightarrow> string option \<Rightarrow> metric_handler" where
  "new_metric_handler name path f min_v max_v metrics lock fingerprint =
     \<lparr>handler_id = generate_id path fingerprint f (case name of YStr s \<Rightarrow> s | _ \<Rightarrow> []), handler_name = name,
      handler_symbol = path, min_version = min_v, max_version = max_v, config_fingerprint = fingerprint,
      lock_patch = lock, hook_function = f, metrics_config = metrics, handler_kind = classify_hook_func (Some f)\<rparr>"

text \<open>
  The function a configuration names, or the default handler, with the root directory that enters the
  fingerprint; the outer \<open>None\<close> is the raise of a handler path that is no string.
\<close>

definition find_function ::
  "('r) runtime_scheme \<Rightarrow> ymap \<Rightarrow> string list \<Rightarrow> string option \<Rightarrow> (pyfunc option \<times> string option) option" where
  "find_function rt c prefixes root =
     (if \<not> truthy (yget ''handler'' c) then Some (import_handler rt default_handler_path [] None, None)
      else (case yget ''handler'' c of
          YStr path \<Rightarrow>
            (let modpath = (case rsplit1 (CHR '':'') path of Some (m, _) \<Rightarrow> m | None \<Rightarrow> path)
             in Some (import_handler rt path prefixes root,
                      if is_allowed_handler_module modpath prefixes then None else root))
        | _ \<Rightarrow> None))"

definition handler_from_config ::
  "('r) runtime_scheme \<Rightarrow> ymap \<Rightarrow> string \<Rightarrow> string list \<Rightarrow> string option \<Rightarrow> metric_handler option" where
  "handler_from_config rt c path prefixes root =
     (case (iterate (yget_default ''metrics'' (YList []) c), find_function rt c prefixes root) of
        (Some ms, Some (Some f, fingerprint_root)) \<Rightarrow>
          (case (parse_metrics_config ms, resolve_handler_name c, fingerprint_config rt c fingerprint_root) of
             (Some metrics, Some name, Some fp) \<Rightarrow>
               Some (new_metric_handler name path f (yget ''min_version'' c) (yget ''max_version'' c) metrics
                       (yget_default ''lock_patch'' (YBool False) c) (Some fp))
           | _ \<Rightarrow> None)
      | _ \<Rightarrow> None)"

text \<open>
  \<^verbatim>\<open>get_hook_func(target)\<close>: the kind and the function, \<open>None\<close> for the function that just calls the
  original; the outer \<open>None\<close> is the \<^verbatim>\<open>ValueError\<close> of a handler without a kind. A factory that raises or
  returns nothing gives the default.
\<close>

definition get_hook_func :: "('r) runtime_scheme \<Rightarrow> metric_handler \<Rightarrow> nat \<Rightarrow> (handler_type \<times> pyfunc option) option" where
  "get_hook_func rt h target =
     (let (kind, f) = (if metrics_config h \<noteq> []
            then (case call_factory rt (hook_function h) (metrics_config h) target of
                    None \<Rightarrow> (handler_kind h, None)
                  | Some r \<Rightarrow> (case classify_hook_func r of Some k \<Rightarrow> (Some k, r) | None \<Rightarrow> (handler_kind h, None)))
            else (handler_kind h, Some (hook_function h)))
      in case f of None \<Rightarrow> Some (WrapType, None) | Some g \<Rightarrow> map_option (\<lambda>k. (k, Some g)) kind)"

end
