(* ===== verification/Provider.thy ===== *)
theory Provider
  imports Handlers "HOL-Library.Product_Lexorder"
begin

text \<open>
  Metric providers: \<^verbatim>\<open>ms_service_metric/core/config/provider.py\<close>. What an entry point loads to is a value of
  its own making; \<open>raw_provider\<close> holds it as \<^verbatim>\<open>_normalize\<close> leaves it, with unchecked fields, and
  \<open>provider\<close> is the view the rest of the code has of a valid one (tuples and lists are both lists here).
  Importing an entry point is a parameter: \<open>None\<close> when it, or the normalisation, raised.
\<close>

section \<open>Providers\<close>

datatype ownership = Overlay | Exclusive

record raw_provider =
  raw_name :: yaml
  raw_config_paths :: yaml
  raw_priority :: yaml
  raw_framework_package :: yaml
  raw_owned_symbol_prefixes :: yaml
  raw_handler_module_prefixes :: yaml
  raw_ownership_mode :: yaml

record provider =
  provider_name :: string
  config_paths :: "string list"
  priority :: int
  framework_package :: yaml
  owned_symbol_prefixes :: "string list"
  handler_module_prefixes :: "string list"
  ownership_mode :: ownership

definition endswith :: "string \<Rightarrow> string \<Rightarrow> bool" where
  "endswith s p = startswith (rev s) (rev p)"

section \<open>Validation\<close>

text \<open>\<^verbatim>\<open>_validate_module_prefixes\<close> and \<^verbatim>\<open>_is_valid\<close>; \<open>False\<close> is a raise.\<close>

definition is_module_prefix :: "yaml \<Rightarrow> bool" where
  "is_module_prefix v = (case v of YStr p \<Rightarrow> p \<noteq> [] \<and> endswith p ''.'' | _ \<Rightarrow> False)"

definition validate_module_prefixes :: "yaml \<Rightarrow> bool" where
  "validate_module_prefixes prefixes = (case iterate prefixes of None \<Rightarrow> False | Some ps \<Rightarrow> list_all is_module_prefix ps)"

definition is_valid :: "raw_provider \<Rightarrow> bool" where
  "is_valid p \<longleftrightarrow>
     is_str (raw_name p) \<and> truthy (raw_name p) \<and>
     (case raw_priority p of YInt n \<Rightarrow> True | _ \<Rightarrow> False) \<and>
     truthy (raw_config_paths p) \<and> \<not> is_str (raw_config_paths p) \<and>
     (case iterate (raw_config_paths p) of None \<Rightarrow> False | Some ps \<Rightarrow> list_all (\<lambda>v. is_str v \<and> truthy v) ps) \<and>
     \<not> is_str (raw_owned_symbol_prefixes p) \<and> truthy (raw_owned_symbol_prefixes p) \<and>
     validate_module_prefixes (raw_owned_symbol_prefixes p) \<and>
     \<not> is_str (raw_handler_module_prefixes p) \<and>
     validate_module_prefixes (raw_handler_module_prefixes p) \<and>
     raw_ownership_mode p \<in> {YStr ''overlay'', YStr ''exclusive''}"

definition strings_of :: "yaml \<Rightarrow> string list" where
  "strings_of v = (case iterate v of None \<Rightarrow> []
     | Some xs \<Rightarrow> concat (map (\<lambda>x. case x of YStr s \<Rightarrow> [s] | _ \<Rightarrow> []) xs))"

text \<open>The fields of a valid provider, read.\<close>

definition provider_of :: "raw_provider \<Rightarrow> provider" where
  "provider_of p =
     \<lparr>provider_name = (case raw_name p of YStr s \<Rightarrow> s | _ \<Rightarrow> []), config_paths = strings_of (raw_config_paths p),
      priority = (case raw_priority p of YInt n \<Rightarrow> n | _ \<Rightarrow> 0), framework_package = raw_framework_package p,
      owned_symbol_prefixes = strings_of (raw_owned_symbol_prefixes p),
      handler_module_prefixes = strings_of (raw_handler_module_prefixes p),
      ownership_mode = (if raw_ownership_mode p = YStr ''exclusive'' then Exclusive else Overlay)\<rparr>"

section \<open>Discovery\<close>

definition reject_duplicate_names :: "provider list \<Rightarrow> provider list" where
  "reject_duplicate_names ps = filter (\<lambda>p. count_list (map provider_name ps) (provider_name p) \<le> 1) ps"

text \<open>\<^verbatim>\<open>discover\<close> of what each entry point loaded to.\<close>

definition discover :: "raw_provider option list \<Rightarrow> provider list" where
  "discover loaded =
     reject_duplicate_names
       (sort_key (\<lambda>p. (priority p, provider_name p))
          (map provider_of (filter is_valid (concat (map (\<lambda>r. case r of None \<Rightarrow> [] | Some p \<Rightarrow> [p]) loaded)))))"

section \<open>Ownership\<close>

definition prefixes_overlap :: "provider \<Rightarrow> provider \<Rightarrow> bool" where
  "prefixes_overlap p q = list_ex (\<lambda>a. list_ex (\<lambda>b. startswith a b \<or> startswith b a) (owned_symbol_prefixes q))
     (owned_symbol_prefixes p)"

definition ownership_conflict :: "provider \<Rightarrow> provider \<Rightarrow> bool" where
  "ownership_conflict p q \<longleftrightarrow>
     \<not> (ownership_mode p = Overlay \<and> ownership_mode q = Overlay) \<and> prefixes_overlap p q"

text \<open>The two nested loops of \<^verbatim>\<open>resolve_ownership_conflicts\<close> over the indexes.\<close>

definition conflicting_indexes :: "provider list \<Rightarrow> nat list" where
  "conflicting_indexes ps =
     concat (map (\<lambda>i. concat (map (\<lambda>j. if ownership_conflict (ps ! i) (ps ! j) then [i, j] else [])
                              [Suc i..<length ps])) [0..<length ps])"

definition resolve_ownership_conflicts :: "provider list \<Rightarrow> provider list" where
  "resolve_ownership_conflicts ps =
     map snd (filter (\<lambda>(i, p). i \<notin> set (conflicting_indexes ps)) (enumerate 0 ps))"

lemma overlap_sym: "prefixes_overlap p q \<longleftrightarrow> prefixes_overlap q p"
  by (auto simp: prefixes_overlap_def list_ex_iff)

lemma conflict_sym: "ownership_conflict p q \<longleftrightarrow> ownership_conflict q p"
  using overlap_sym by (auto simp: ownership_conflict_def)

lemma concat_map_upper: "x \<in> set xs \<Longrightarrow> set (f x) \<subseteq> set (concat (map f xs))"
  by auto

lemma conflicting_pair:
  assumes "a < b" "b < length ps" "ownership_conflict (ps ! a) (ps ! b)"
  shows "a \<in> set (conflicting_indexes ps)" "b \<in> set (conflicting_indexes ps)"
proof -
  let ?row = "\<lambda>i. concat (map (\<lambda>j. if ownership_conflict (ps ! i) (ps ! j) then [i, j] else []) [Suc i..<length ps])"
  have "b \<in> {Suc a..<length ps} \<inter> {x. ownership_conflict (ps ! a) (ps ! x)}" using assms by simp
  then have "set [a, b] \<subseteq> set (?row a)" by auto
  moreover have "set (?row a) \<subseteq> set (conflicting_indexes ps)"
  proof -
    have "a \<in> set [0..<length ps]" using assms by simp
    then show ?thesis unfolding conflicting_indexes_def by (rule concat_map_upper)
  qed
  ultimately show "a \<in> set (conflicting_indexes ps)" "b \<in> set (conflicting_indexes ps)" by auto
qed

lemma conflicting_pairD:
  assumes "i \<in> set (conflicting_indexes ps)"
  shows "\<exists>a b. a < b \<and> b < length ps \<and> ownership_conflict (ps ! a) (ps ! b) \<and> (i = a \<or> i = b)"
proof -
  obtain a where a: "a < length ps" "i \<in> set (concat (map (\<lambda>j. if ownership_conflict (ps ! a) (ps ! j) then [a, j] else [])
      [Suc a..<length ps]))"
    using assms unfolding conflicting_indexes_def set_concat set_map by force
  then obtain b where "b \<in> {Suc a..<length ps}" "i \<in> set (if ownership_conflict (ps ! a) (ps ! b) then [a, b] else [])"
    unfolding set_concat set_map by force
  then show ?thesis by (intro exI[of _ a] exI[of _ b]) (auto split: if_splits)
qed

lemma conflicting_indexes_iff:
  "i \<in> set (conflicting_indexes ps) \<longleftrightarrow>
     i < length ps \<and> (\<exists>j < length ps. j \<noteq> i \<and> ownership_conflict (ps ! i) (ps ! j))"
proof
  assume "i \<in> set (conflicting_indexes ps)"
  then obtain a b where "a < b" "b < length ps" "ownership_conflict (ps ! a) (ps ! b)" "i = a \<or> i = b"
    using conflicting_pairD by blast
  then show "i < length ps \<and> (\<exists>j < length ps. j \<noteq> i \<and> ownership_conflict (ps ! i) (ps ! j))"
    using conflict_sym[of "ps ! a" "ps ! b"] by (auto intro: exI[of _ a] exI[of _ b])
next
  assume "i < length ps \<and> (\<exists>j < length ps. j \<noteq> i \<and> ownership_conflict (ps ! i) (ps ! j))"
  then obtain j where j: "i < length ps" "j < length ps" "j \<noteq> i" "ownership_conflict (ps ! i) (ps ! j)" by blast
  show "i \<in> set (conflicting_indexes ps)"
  proof (cases "i < j")
    case True
    with j show ?thesis by (intro conflicting_pair(1)[of i j])
  next
    case False
    with j show ?thesis by (intro conflicting_pair(2)[of j i]) (auto simp: conflict_sym)
  qed
qed

end
