(* ===== verification/Config.thy ===== *)
theory Config
  imports Provider
begin

text \<open>
  The symbol configuration: \<^verbatim>\<open>ms_service_metric/core/config/symbol_config.py\<close> (\<open>SymbolConfig\<close>), with the
  version test of \<^verbatim>\<open>utils/version.py\<close> and \<^verbatim>\<open>resolve_external_handler_root\<close> of
  \<^verbatim>\<open>core/external_handler_loader.py\<close>.

  A configuration is a mapping from symbol paths to their handlers. A raise is an \<open>Inl\<close>: \<open>ConfigErr\<close> for the
  \<^verbatim>\<open>ConfigError\<close> that the loading of a provider survives, \<open>OtherErr\<close> for every other exception. The record
  \<open>site\<close> adds to the \<open>runtime\<close> what the code finds outside of itself: the file system, the parsed content of
  each YAML file (\<open>None\<close> when reading or parsing raised), version numbers as the \<^verbatim>\<open>packaging\<close> library reads and
  orders them, installed packages, entry points, and the environment.
\<close>

datatype config_error = ConfigErr | OtherErr

record site = runtime +
  path_exists :: "string \<Rightarrow> bool"
  is_file :: "string \<Rightarrow> bool"
  is_dir :: "string \<Rightarrow> bool"
  scan_dir :: "string \<Rightarrow> (string \<times> string) list option"
  read_yaml :: "string \<Rightarrow> yaml option"
  expanduser :: "string \<Rightarrow> string"
  handler_root :: "string \<Rightarrow> string"
  casefold :: "string \<Rightarrow> string"
  parse_version :: "yaml \<Rightarrow> string option"
  version_less :: "string \<Rightarrow> string \<Rightarrow> bool"
  package_version :: "yaml \<Rightarrow> string option"
  entry_points :: "raw_provider option list"
  config_env :: "string option"

section \<open>Results of a loop\<close>

text \<open>A loop whose body may raise: it stops at the first error.\<close>

fun fold_result :: "('a \<Rightarrow> 'b \<Rightarrow> config_error + 'b) \<Rightarrow> 'a list \<Rightarrow> 'b \<Rightarrow> config_error + 'b" where
  "fold_result f [] acc = Inr acc"
| "fold_result f (x # xs) acc = (case f x acc of Inl e \<Rightarrow> Inl e | Inr acc' \<Rightarrow> fold_result f xs acc')"

definition bind_result :: "config_error + 'a \<Rightarrow> ('a \<Rightarrow> config_error + 'b) \<Rightarrow> config_error + 'b" where
  "bind_result r f = (case r of Inl e \<Rightarrow> Inl e | Inr x \<Rightarrow> f x)"

definition require :: "bool \<Rightarrow> config_error + unit" where
  "require b = (if b then Inr () else Inl ConfigErr)"

section \<open>Versions\<close>

definition check_version_match :: "('s) site_scheme \<Rightarrow> string option \<Rightarrow> yaml \<Rightarrow> yaml \<Rightarrow> bool option" where
  "check_version_match st current min_v max_v =
     (if \<not> truthy min_v \<and> \<not> truthy max_v then Some True
      else if current = None \<or> current = Some '''' then Some False
      else (case parse_version st (YStr (the current)) of
          None \<Rightarrow> None
        | Some cur \<Rightarrow>
            (case (if truthy min_v then map_option (\<lambda>v. version_less st cur v) (parse_version st min_v) else Some False) of
               None \<Rightarrow> None
             | Some True \<Rightarrow> Some False
             | Some False \<Rightarrow>
                 (if truthy max_v then map_option (\<lambda>v. \<not> version_less st v cur) (parse_version st max_v) else Some True))))"

text \<open>One handler of \<^verbatim>\<open>_filter_config_by_version\<close>: the handlers kept so far, with it when it matches.\<close>

definition filter_handler ::
  "('s) site_scheme \<Rightarrow> string option \<Rightarrow> bool \<Rightarrow> yaml \<Rightarrow> yaml list \<Rightarrow> config_error + yaml list" where
  "filter_handler st current strict h kept =
     (case h of
        YMap c \<Rightarrow> (case check_version_match st current (yget ''min_version'' c) (yget ''max_version'' c) of
                      None \<Rightarrow> Inl OtherErr
                    | Some True \<Rightarrow> Inr (kept @ [h])
                    | Some False \<Rightarrow> Inr kept)
      | _ \<Rightarrow> (if strict then Inl ConfigErr else Inr kept))"

definition filter_config_by_version ::
  "('s) site_scheme \<Rightarrow> ymap \<Rightarrow> string option \<Rightarrow> bool \<Rightarrow> config_error + ymap" where
  "filter_config_by_version st conf current strict =
     (if current = None \<or> current = Some '''' then Inr conf
      else fold_result (\<lambda>(path, entries) acc.
             bind_result (fold_result (filter_handler st current strict) (as_list entries) [])
               (\<lambda>kept. Inr (if kept = [] then acc else dict_set path (YList kept) acc))) conf [])"

section \<open>Merging\<close>

definition handler_fingerprint :: "('s) runtime_scheme \<Rightarrow> yaml \<Rightarrow> string option" where
  "handler_fingerprint rt h = (case h of YMap c \<Rightarrow> fingerprint_config rt c None | _ \<Rightarrow> Some (yaml_dump rt h))"

text \<open>The loop shared by deduplication and merging: append what has no fingerprint seen so far.\<close>

fun dedup_loop :: "(yaml \<Rightarrow> string option) \<Rightarrow> yaml list \<Rightarrow> string list \<Rightarrow> yaml list \<Rightarrow> config_error + yaml list" where
  "dedup_loop fp [] seen out = Inr out"
| "dedup_loop fp (h # hs) seen out =
     (case fp h of
        None \<Rightarrow> Inl OtherErr
      | Some f \<Rightarrow> (if f \<in> set seen then dedup_loop fp hs seen out else dedup_loop fp hs (f # seen) (out @ [h])))"

definition deduplicate_handlers :: "('s) runtime_scheme \<Rightarrow> yaml \<Rightarrow> config_error + yaml list" where
  "deduplicate_handlers rt entries = dedup_loop (handler_fingerprint rt) (as_list entries) [] []"

fun fingerprints :: "(yaml \<Rightarrow> string option) \<Rightarrow> yaml list \<Rightarrow> config_error + string list" where
  "fingerprints fp [] = Inr []"
| "fingerprints fp (h # hs) = (case fp h of None \<Rightarrow> Inl OtherErr | Some f \<Rightarrow> map_sum id ((#) f) (fingerprints fp hs))"

definition merge_symbol :: "('s) runtime_scheme \<Rightarrow> string \<times> yaml \<Rightarrow> ymap \<Rightarrow> config_error + ymap" where
  "merge_symbol rt entry merged =
     (case entry of (path, entries) \<Rightarrow>
        bind_result (deduplicate_handlers rt entries) (\<lambda>incoming.
          case dict_get merged path of
            None \<Rightarrow> Inr (dict_set path (YList incoming) merged)
          | Some existing \<Rightarrow>
              bind_result (fingerprints (handler_fingerprint rt) (as_list existing)) (\<lambda>seen.
                bind_result (dedup_loop (handler_fingerprint rt) incoming seen (as_list existing)) (\<lambda>hs.
                  Inr (dict_set path (YList hs) merged)))))"

definition dedup_symbol :: "('s) runtime_scheme \<Rightarrow> string \<times> yaml \<Rightarrow> ymap \<Rightarrow> config_error + ymap" where
  "dedup_symbol rt entry merged =
     (case entry of (path, entries) \<Rightarrow>
        bind_result (deduplicate_handlers rt entries) (\<lambda>hs. Inr (dict_set path (YList hs) merged)))"

definition merge_configs :: "('s) runtime_scheme \<Rightarrow> ymap \<Rightarrow> ymap \<Rightarrow> config_error + ymap" where
  "merge_configs rt base user =
     bind_result (fold_result (dedup_symbol rt) base []) (fold_result (merge_symbol rt) user)"

definition override_configs :: "('s) runtime_scheme \<Rightarrow> ymap \<Rightarrow> ymap \<Rightarrow> config_error + ymap" where
  "override_configs rt base override = fold_result (dedup_symbol rt) override base"

section \<open>Reading files\<close>

fun convert_array_config :: "bool \<Rightarrow> yaml list \<Rightarrow> ymap \<Rightarrow> config_error + ymap" where
  "convert_array_config strict [] result = Inr result"
| "convert_array_config strict (YMap item # rest) result =
     (case yget ''symbol'' item of
        YStr (c # cs) \<Rightarrow>
          (let handler_config = YMap (filter (\<lambda>(k, v). k \<noteq> ''symbol'') item);
               old = (case dict_get result (c # cs) of Some hs \<Rightarrow> as_list hs | None \<Rightarrow> [])
           in convert_array_config strict rest (dict_set (c # cs) (YList (old @ [handler_config])) result))
      | _ \<Rightarrow> (if strict then Inl ConfigErr else convert_array_config strict rest result))"
| "convert_array_config strict (_ # rest) result =
     (if strict then Inl ConfigErr else convert_array_config strict rest result)"


section \<open>Validating metrics\<close>

definition VALID_PROVIDER_METRIC_TYPES :: "string list" where
  "VALID_PROVIDER_METRIC_TYPES = [''timer'', ''counter'', ''gauge'', ''histogram'', ''summary'']"

definition ascii_alpha :: "char \<Rightarrow> bool" where
  "ascii_alpha c \<longleftrightarrow> (CHR ''a'' \<le> c \<and> c \<le> CHR ''z'') \<or> (CHR ''A'' \<le> c \<and> c \<le> CHR ''Z'')"

definition ascii_digit :: "char \<Rightarrow> bool" where
  "ascii_digit c \<longleftrightarrow> CHR ''0'' \<le> c \<and> c \<le> CHR ''9''"

text \<open>\<^verbatim>\<open>fullmatch\<close> of the two patterns: metric names may hold colons, label names may not.\<close>

definition metric_name_ok :: "string \<Rightarrow> bool" where
  "metric_name_ok s = (case s of [] \<Rightarrow> False
     | c # cs \<Rightarrow> (ascii_alpha c \<or> c = CHR ''_'' \<or> c = CHR '':'') \<and>
        list_all (\<lambda>d. ascii_alpha d \<or> ascii_digit d \<or> d = CHR ''_'' \<or> d = CHR '':'') cs)"

definition label_name_ok :: "string \<Rightarrow> bool" where
  "label_name_ok s = (case s of [] \<Rightarrow> False
     | c # cs \<Rightarrow> (ascii_alpha c \<or> c = CHR ''_'') \<and> list_all (\<lambda>d. ascii_alpha d \<or> ascii_digit d \<or> d = CHR ''_'') cs)"

definition normalize_metric_name :: "string \<Rightarrow> string" where
  "normalize_metric_name s =
     (let n = map (\<lambda>c. if c = CHR ''-'' then CHR ''_'' else c) s
      in if n \<noteq> [] \<and> ascii_digit (hd n) then ''fn_'' @ n else n)"

text \<open>A finite number of Python, as numerator and decimal exponent, and \<^verbatim>\<open><\<close> on such numbers.\<close>

fun finite_number :: "yaml \<Rightarrow> (int \<times> nat) option" where
  "finite_number (YInt n) = Some (n, 0)"
| "finite_number (YFloat (Dec m e)) = Some (m, e)"
| "finite_number _ = None"

definition number_less :: "int \<times> nat \<Rightarrow> int \<times> nat \<Rightarrow> bool" where
  "number_less a b \<longleftrightarrow> fst a * 10 ^ snd b < fst b * 10 ^ snd a"

fun increasing :: "(int \<times> nat) list \<Rightarrow> bool" where
  "increasing (a # b # xs) = (number_less a b \<and> increasing (b # xs))"
| "increasing _ = True"

definition buckets_ok :: "ymap \<Rightarrow> bool" where
  "buckets_ok metric =
     (case dict_get metric ''buckets'' of
        None \<Rightarrow> True
      | Some (YList bs) \<Rightarrow> list_all (\<lambda>b. finite_number b \<noteq> None) bs \<and> increasing (map (the \<circ> finite_number) bs)
      | Some _ \<Rightarrow> False)"

definition label_ok :: "yaml \<Rightarrow> bool" where
  "label_ok label = (case label of YMap l \<Rightarrow> is_str (yget ''name'' l) \<and> truthy (yget ''name'' l) \<and> is_str (yget ''expr'' l)
                     | _ \<Rightarrow> False)"

definition label_name :: "yaml \<Rightarrow> string" where
  "label_name label = (case label of YMap l \<Rightarrow> (case yget ''name'' l of YStr s \<Rightarrow> s | _ \<Rightarrow> []) | _ \<Rightarrow> [])"

definition labels_ok :: "ymap \<Rightarrow> bool" where
  "labels_ok metric =
     (case yget_default ''labels'' (YList []) metric of
        YList ls \<Rightarrow> list_all label_ok ls \<and> distinct (map label_name ls) \<and> list_all (label_name_ok \<circ> label_name) ls
      | _ \<Rightarrow> False)"

definition provider_metric_ok :: "yaml \<Rightarrow> bool" where
  "provider_metric_ok m = (case m of
     YMap metric \<Rightarrow>
       (case yget ''name'' metric of
          YStr (c # cs) \<Rightarrow> metric_name_ok (normalize_metric_name (c # cs))
        | _ \<Rightarrow> False) \<and>
       (case yget_default ''type'' (YStr ''timer'') metric of
          YStr t \<Rightarrow> t \<in> set VALID_PROVIDER_METRIC_TYPES | _ \<Rightarrow> False) \<and>
       (case dict_get metric ''expr'' of None \<Rightarrow> True | Some e \<Rightarrow> is_str e) \<and>
       buckets_ok metric \<and> labels_ok metric
   | _ \<Rightarrow> False)"

text \<open>\<^verbatim>\<open>_validate_provider_metrics\<close>; every raise of it is a \<open>False\<close>.\<close>

definition validate_provider_metrics :: "yaml \<Rightarrow> bool" where
  "validate_provider_metrics metrics = (metrics = YNull \<or> list_all provider_metric_ok (as_list metrics))"

text \<open>What a handler entry must be: it names a handler or metrics, the handler with a colon, the metrics valid.\<close>

definition strict_handler_ok :: "yaml \<Rightarrow> bool" where
  "strict_handler_ok h = (case h of
     YMap c \<Rightarrow> (truthy (yget ''handler'' c) \<or> truthy (yget ''metrics'' c)) \<and>
       (truthy (yget ''handler'' c) \<longrightarrow> (case yget ''handler'' c of YStr s \<Rightarrow> CHR '':'' \<in> set s | _ \<Rightarrow> False)) \<and>
       validate_provider_metrics (yget ''metrics'' c)
   | _ \<Rightarrow> False)"

definition validate_strict_config_shape :: "ymap \<Rightarrow> bool" where
  "validate_strict_config_shape conf =
     list_all (\<lambda>(path, entries). CHR '':'' \<in> set path \<and> as_list entries \<noteq> [] \<and>
        list_all strict_handler_ok (as_list entries)) conf"

text \<open>\<^verbatim>\<open>_load_yaml\<close>: every exception becomes a \<^verbatim>\<open>ConfigError\<close>.\<close>

definition load_yaml :: "('s) site_scheme \<Rightarrow> string \<Rightarrow> bool \<Rightarrow> config_error + ymap" where
  "load_yaml st path strict =
     (case read_yaml st path of
        None \<Rightarrow> Inl ConfigErr
      | Some content \<Rightarrow>
          (if \<not> truthy content then Inr []
           else (case content of
               YList items \<Rightarrow>
                 bind_result (convert_array_config strict items []) (\<lambda>conf.
                   if strict \<and> \<not> validate_strict_config_shape conf then Inl ConfigErr else Inr conf)
             | YMap conf \<Rightarrow> (if strict \<and> \<not> validate_strict_config_shape conf then Inl ConfigErr else Inr conf)
             | _ \<Rightarrow> (if strict then Inl ConfigErr else Inr []))))"

text \<open>\<^verbatim>\<open>os.path.splitext(name)[1].lower()\<close> is one of the two YAML extensions.\<close>

definition lower :: "char \<Rightarrow> char" where
  "lower c = (if CHR ''A'' \<le> c \<and> c \<le> CHR ''Z'' then char_of (of_char c + (32::nat)) else c)"

definition is_yaml_name :: "string \<Rightarrow> bool" where
  "is_yaml_name name =
     (case rsplit1 (CHR ''.'') name of
        None \<Rightarrow> False
      | Some (stem, ext) \<Rightarrow> list_ex (\<lambda>c. c \<noteq> CHR ''.'') stem \<and> map lower ext \<in> {''yaml'', ''yml''})"

definition load_config_path :: "('s) site_scheme \<Rightarrow> string option \<Rightarrow> config_error + ymap" where
  "load_config_path st path =
     (case path of
        None \<Rightarrow> Inr []
      | Some p \<Rightarrow>
          (if p = [] \<or> \<not> path_exists st p then Inr []
           else if is_file st p then load_yaml st p False
           else if \<not> is_dir st p then Inr []
           else (case scan_dir st p of
               None \<Rightarrow> Inl ConfigErr
             | Some entries \<Rightarrow>
                 (let yaml_paths = map snd (sort_key (\<lambda>(name, _). (casefold st name, name))
                                     (filter (\<lambda>(name, _). is_yaml_name name) entries))
                  in fold_result (\<lambda>q conf. bind_result (load_yaml st q False) (merge_configs st conf)) yaml_paths []))))"

end
