(* ===== verification/Config_Load.thy ===== *)
theory Config_Load
  imports Config
begin

text \<open>
  Loading of the whole configuration (\<^verbatim>\<open>symbol_config.py\<close>): activation of the providers, compatibility of metric
  schemas, the composition of default, framework, provider and user configuration, and the committed
  state with its snapshot.
\<close>

section \<open>Activating providers\<close>

definition load_provider_config :: "('s) site_scheme \<Rightarrow> provider \<Rightarrow> config_error + ymap" where
  "load_provider_config st p =
     bind_result
       (fold_result (\<lambda>path merged.
          if \<not> is_file st path then Inl ConfigErr
          else bind_result (load_yaml st path True) (\<lambda>conf.
            if conf = [] then Inl ConfigErr else merge_configs st merged conf)) (config_paths p) [])
       (\<lambda>merged. if merged = [] then Inl ConfigErr else Inr merged)"

fun has_version_bounds :: "yaml \<Rightarrow> bool" where
  "has_version_bounds (YMap c) = (truthy (yget ''min_version'' c) \<or> truthy (yget ''max_version'' c))"
| "has_version_bounds _ = False"

definition get_provider_config_version :: "('s) site_scheme \<Rightarrow> provider \<Rightarrow> ymap \<Rightarrow> config_error + string option" where
  "get_provider_config_version st p conf =
     (if \<not> list_ex (\<lambda>(path, hs). list_ex has_version_bounds (as_list hs)) conf then Inr None
      else if \<not> truthy (framework_package p) then Inl ConfigErr
      else (case package_version st (framework_package p) of None \<Rightarrow> Inl ConfigErr | Some v \<Rightarrow> Inr (Some v)))"

definition STABLE_PROVIDER_HANDLER_MODULES :: "string list" where
  "STABLE_PROVIDER_HANDLER_MODULES = [''ms_service_metric.handlers'', ''ms_service_metric.provider_handlers'']"

text \<open>\<^verbatim>\<open>__all__\<close> of \<^verbatim>\<open>provider_handlers.py\<close>\<close>

definition STABLE_HANDLERS :: "string list" where
  "STABLE_HANDLERS = [''init_data_parallel_worker'', ''engine_memory_phase_handler'', ''model_runner_phase_handler'',
     ''phase_all_handler'', ''scheduler_scheduler_hooker'']"

definition provider_handler_ok :: "('s) site_scheme \<Rightarrow> string list \<Rightarrow> yaml \<Rightarrow> bool" where
  "provider_handler_ok st prefixes h = (case h of
     YMap c \<Rightarrow>
       (truthy (yget ''handler'' c) \<or> truthy (yget ''metrics'' c)) \<and>
       (truthy (yget ''handler'' c) \<longrightarrow>
          (case yget ''handler'' c of
             YStr s \<Rightarrow> (case rsplit1 (CHR '':'') s of
                 None \<Rightarrow> False
               | Some (modpath, fname) \<Rightarrow>
                   is_allowed_handler_module modpath prefixes \<and>
                   (startswith_any modpath prefixes \<or> modpath \<in> set STABLE_PROVIDER_HANDLER_MODULES) \<and>
                   (if modpath = ''ms_service_metric.provider_handlers'' then fname \<in> set STABLE_HANDLERS
                    else import_handler st s prefixes None \<noteq> None))
           | _ \<Rightarrow> False)) \<and>
       validate_provider_metrics (yget ''metrics'' c)
   | _ \<Rightarrow> False)"

definition validate_provider_config :: "('s) site_scheme \<Rightarrow> provider \<Rightarrow> ymap \<Rightarrow> bool" where
  "validate_provider_config st p conf =
     (list_all (\<lambda>(path, hs). CHR '':'' \<in> set path \<and>
         (owned_symbol_prefixes p \<noteq> [] \<longrightarrow> startswith_any path (owned_symbol_prefixes p)) \<and>
         as_list hs \<noteq> [] \<and> list_all (provider_handler_ok st (handler_module_prefixes p)) (as_list hs)) conf \<and>
      list_all (\<lambda>prefix. list_ex (\<lambda>(path, _). startswith path prefix) conf) (owned_symbol_prefixes p))"

definition load_provider :: "('s) site_scheme \<Rightarrow> provider \<Rightarrow> config_error + ymap" where
  "load_provider st p =
     bind_result (load_provider_config st p) (\<lambda>conf.
     bind_result (get_provider_config_version st p conf) (\<lambda>version.
     bind_result (filter_config_by_version st conf version True) (\<lambda>filtered.
       if validate_provider_config st p filtered then Inr filtered else Inl ConfigErr)))"

fun loaded_providers :: "('s) site_scheme \<Rightarrow> provider list \<Rightarrow> (provider \<times> ymap) list" where
  "loaded_providers st [] = []"
| "loaded_providers st (p # ps) =
     (case load_provider st p of Inl e \<Rightarrow> loaded_providers st ps | Inr conf \<Rightarrow> (p, conf) # loaded_providers st ps)"

definition activate_providers :: "('s) site_scheme \<Rightarrow> provider list \<Rightarrow> (provider \<times> ymap) list" where
  "activate_providers st ps =
     (let loaded = loaded_providers st ps
      in map snd (filter (\<lambda>(i, _). i \<notin> set (conflicting_indexes (map fst loaded))) (enumerate 0 loaded)))"

section \<open>Metric schemas\<close>

type_synonym schema = "yaml \<times> string list \<times> yaml list"

definition schema_eq :: "schema \<Rightarrow> schema \<Rightarrow> bool" where
  "schema_eq s t \<longleftrightarrow> py_eq (fst s) (fst t) \<and> fst (snd s) = fst (snd t) \<and>
     map canon (snd (snd s)) = map canon (snd (snd t))"

definition metric_schema :: "ymap \<Rightarrow> config_error + schema" where
  "metric_schema metric =
     (let metric_type = yget_default ''type'' (YStr ''timer'') metric;
          buckets = (if truthy (yget ''buckets'' metric) then yget ''buckets'' metric else YList [])
      in case iterate (yget_default ''labels'' (YList []) metric) of
           None \<Rightarrow> Inl OtherErr
         | Some ls \<Rightarrow>
             (let names = sort (concat (map (\<lambda>l. case l of
                             YMap d \<Rightarrow> (case yget ''name'' d of YStr s \<Rightarrow> [s] | _ \<Rightarrow> []) | _ \<Rightarrow> []) ls))
              in if \<not> hashable metric_type then Inl OtherErr
                 else if metric_type \<in> {YStr ''timer'', YStr ''histogram''}
                 then (case iterate buckets of None \<Rightarrow> Inl OtherErr | Some bs \<Rightarrow> Inr (metric_type, names, bs))
                 else Inr (metric_type, names, [])))"

definition add_schema :: "bool \<Rightarrow> yaml \<Rightarrow> (string, schema) dict \<Rightarrow> config_error + (string, schema) dict" where
  "add_schema reject m schemas = (case m of
     YMap metric \<Rightarrow>
       (case yget ''name'' metric of
          YStr s \<Rightarrow>
            bind_result (metric_schema metric) (\<lambda>schema.
              case dict_get schemas (normalize_metric_name s) of
                None \<Rightarrow> Inr (dict_set (normalize_metric_name s) schema schemas)
              | Some old \<Rightarrow> (if \<not> schema_eq old schema \<and> reject then Inl ConfigErr else Inr schemas))
        | _ \<Rightarrow> Inr schemas)
   | _ \<Rightarrow> Inr schemas)"

definition handler_metrics :: "yaml \<Rightarrow> yaml list" where
  "handler_metrics h = (case h of YMap c \<Rightarrow> as_list (yget_default ''metrics'' (YList []) c) | _ \<Rightarrow> [])"

definition collect_metric_schemas :: "ymap \<Rightarrow> bool \<Rightarrow> config_error + (string, schema) dict" where
  "collect_metric_schemas conf reject =
     fold_result (add_schema reject)
       (concat (map (\<lambda>(path, hs). concat (map handler_metrics (as_list hs))) conf)) []"

definition validate_metric_schema_compatibility :: "ymap \<Rightarrow> ymap \<Rightarrow> config_error + unit" where
  "validate_metric_schema_compatibility base provider_config =
     bind_result (collect_metric_schemas base False) (\<lambda>base_schemas.
     bind_result (collect_metric_schemas provider_config True) (\<lambda>provider_schemas.
       require (list_all (\<lambda>(name, s). case dict_get base_schemas name of None \<Rightarrow> True | Some b \<Rightarrow> schema_eq b s)
                  provider_schemas)))"

definition filter_provider_owned_symbols :: "ymap \<Rightarrow> string list \<Rightarrow> ymap" where
  "filter_provider_owned_symbols conf owned =
     (if owned = [] then conf else filter (\<lambda>(path, _). \<not> startswith_any path owned) conf)"

section \<open>Defaults\<close>

definition setdefault :: "string \<Rightarrow> yaml \<Rightarrow> ymap \<Rightarrow> ymap" where
  "setdefault k v d = (if dict_has k d then d else dict_set k v d)"

definition fill_handler :: "yaml \<Rightarrow> yaml" where
  "fill_handler h = (case h of
     YMap c \<Rightarrow>
       (let c' = setdefault ''metrics'' (YList []) (setdefault ''lock_patch'' (YBool False)
                   (setdefault ''need_locals'' (YBool False) (setdefault ''enabled'' (YBool True)
                     (setdefault ''type'' (YStr ''wrap'') c))));
            m = yget ''metrics'' c'
        in YMap (if is_list m then c' else dict_set ''metrics'' (YList (if truthy m then [m] else [])) c'))
   | _ \<Rightarrow> h)"

definition fill_defaults :: "ymap \<Rightarrow> ymap" where
  "fill_defaults conf = map (\<lambda>(path, hs). (path, YList (map fill_handler (as_list hs)))) conf"

section \<open>The configuration object\<close>

record sym_config =
  cfg_config :: ymap
  cfg_version :: "string option"
  cfg_user_path :: "string option"
  cfg_default_path :: string
  cfg_framework_is_user :: bool
  cfg_handler_root :: "string option"
  cfg_handler_prefixes :: "string list"
  cfg_symbol_prefixes :: "string list"
  cfg_active :: "string list"
  cfg_registry :: bool

definition path_set :: "('s) site_scheme \<Rightarrow> string option \<Rightarrow> bool" where
  "path_set st p = (case p of None \<Rightarrow> False | Some q \<Rightarrow> q \<noteq> [] \<and> path_exists st q)"

definition resolve_external_handler_root ::
  "('s) site_scheme \<Rightarrow> string option \<Rightarrow> string option \<Rightarrow> bool \<Rightarrow> string option" where
  "resolve_external_handler_root st env_path framework_path framework_is_user =
     (if path_set st (map_option (expanduser st) env_path) then map_option (handler_root st) env_path
      else if framework_is_user \<and> path_set st (map_option (expanduser st) framework_path)
      then map_option (handler_root st) framework_path else None)"

text \<open>One round of the loop over the candidate providers: the merged configuration and the active providers.\<close>

definition provider_step ::
  "('s) site_scheme \<Rightarrow> provider \<times> ymap \<Rightarrow> ymap \<times> provider list \<Rightarrow> config_error + ymap \<times> provider list" where
  "provider_step st entry acc =
     (case (entry, acc) of ((p, conf), (merged, active)) \<Rightarrow>
        (let base = (if ownership_mode p = Exclusive
                     then filter_provider_owned_symbols merged (owned_symbol_prefixes p) else merged)
         in case validate_metric_schema_compatibility base conf of
              Inl ConfigErr \<Rightarrow> Inr (merged, active)
            | Inl OtherErr \<Rightarrow> Inl OtherErr
            | Inr _ \<Rightarrow> bind_result (override_configs st base conf) (\<lambda>m. Inr (m, active @ [p]))))"

definition discover_providers :: "('s) site_scheme \<Rightarrow> sym_config \<Rightarrow> provider list" where
  "discover_providers st s = (if cfg_registry s then discover (entry_points st) else [])"

definition unique :: "'a list \<Rightarrow> 'a list" where
  "unique xs = rev (remdups (rev xs))"

definition environment_path :: "('s) site_scheme \<Rightarrow> string option" where
  "environment_path st = map_option (\<lambda>p. if p = [] then p else expanduser st p) (config_env st)"

text \<open>The environment configuration replaces the framework's.\<close>

definition framework_source :: "('s) site_scheme \<Rightarrow> string option \<Rightarrow> string option" where
  "framework_source st framework_path = (if path_set st (environment_path st) then None else framework_path)"

text \<open>The configuration of a load and the providers it activates, before anything is committed.\<close>

definition load_sources ::
  "('s) site_scheme \<Rightarrow> provider list \<Rightarrow> string \<Rightarrow> string option \<Rightarrow> string option \<Rightarrow> bool \<Rightarrow>
   config_error + ymap \<times> provider list" where
  "load_sources st providers default_path framework_path version framework_is_user =
     (let read = (\<lambda>path. bind_result (load_config_path st path) (\<lambda>c. filter_config_by_version st c version False))
      in bind_result (read (Some default_path)) (\<lambda>default_config.
         bind_result (read (framework_source st framework_path)) (\<lambda>framework_config.
         bind_result (read (environment_path st)) (\<lambda>user_config.
         bind_result (merge_configs st default_config framework_config) (\<lambda>m0.
         bind_result (fold_result (provider_step st) (activate_providers st providers) (m0, [])) (\<lambda>(m1, active).
         bind_result (if framework_is_user then override_configs st m1 framework_config else Inr m1) (\<lambda>m2.
         bind_result (merge_configs st m2 user_config) (\<lambda>m3. Inr (fill_defaults m3, active)))))))))"

definition load ::
  "('s) site_scheme \<Rightarrow> string option \<Rightarrow> string option \<Rightarrow> string option \<Rightarrow> bool option \<Rightarrow> sym_config \<Rightarrow>
   (config_error + ymap) \<times> sym_config" where
  "load st config_path default_path version framework_is_user s =
     (let eff_version = (case version of Some v \<Rightarrow> Some v | None \<Rightarrow> cfg_version s);
          eff_is_user = (case framework_is_user of Some b \<Rightarrow> b | None \<Rightarrow> cfg_framework_is_user s);
          eff_default = (case default_path of Some d \<Rightarrow> d | None \<Rightarrow> cfg_default_path s);
          eff_framework = (case config_path of Some c \<Rightarrow> Some c | None \<Rightarrow> cfg_user_path s)
      in case load_sources st (discover_providers st s) eff_default eff_framework eff_version eff_is_user of
           Inl e \<Rightarrow> (Inl e, s)
         | Inr (conf, active) \<Rightarrow>
             (Inr conf, s\<lparr>cfg_config := conf, cfg_version := eff_version, cfg_framework_is_user := eff_is_user,
                cfg_default_path := eff_default, cfg_user_path := eff_framework,
                cfg_handler_root := resolve_external_handler_root st (environment_path st) eff_framework eff_is_user,
                cfg_handler_prefixes := unique (concat (map handler_module_prefixes active)),
                cfg_symbol_prefixes := unique (concat (map owned_symbol_prefixes active)),
                cfg_active := map provider_name active\<rparr>))"

definition reload_config :: "('s) site_scheme \<Rightarrow> sym_config \<Rightarrow> (config_error + ymap) \<times> sym_config" where
  "reload_config st s = load st None None None None s"

definition get_symbol_config :: "string \<Rightarrow> sym_config \<Rightarrow> yaml" where
  "get_symbol_config path s = yget_default path (YList []) (cfg_config s)"

end
