(* ===== verification/Config_Merge.thy ===== *)
theory Config_Merge
  imports Config_Load
begin

text \<open>
  Merging and filtering against reference definitions: the loops of the code with their sets of seen
  fingerprints keep the first handler of each fingerprint, symbol by symbol.
\<close>

section \<open>Results\<close>

lemma bind_Inr [simp]: "bind_result r f = Inr y \<longleftrightarrow> (\<exists>x. r = Inr x \<and> f x = Inr y)"
  by (auto simp: bind_result_def split: sum.splits)

lemma bind_simps [simp]: "bind_result (Inl e) f = Inl e" "bind_result (Inr x) f = f x"
  by (simp_all add: bind_result_def)

lemma require_Inr [simp]: "require b = Inr x \<longleftrightarrow> b"
  by (simp add: require_def)

lemma fold_result_Cons [simp]:
  "fold_result f (x # xs) acc = Inr z \<longleftrightarrow> (\<exists>y. f x acc = Inr y \<and> fold_result f xs y = Inr z)"
  by (auto split: sum.splits)

declare fold_result.simps(2) [simp del]

lemma fold_result_append [simp]:
  "fold_result f (xs @ ys) acc = bind_result (fold_result f xs acc) (fold_result f ys)"
  by (induction xs arbitrary: acc) (auto simp: bind_result_def fold_result.simps split: sum.splits)

lemma fold_result_invariant:
  assumes "fold_result f xs acc = Inr z" "P acc"
    and "\<And>x a b. x \<in> set xs \<Longrightarrow> f x a = Inr b \<Longrightarrow> P a \<Longrightarrow> P b"
  shows "P z"
  using assms(1,2,3)
proof (induction xs arbitrary: acc)
  case (Cons x xs)
  then obtain y where y: "f x acc = Inr y" "fold_result f xs y = Inr z" by auto
  have "P y" using Cons.prems(3)[of x acc y] y(1) Cons.prems(2) by simp
  then show ?case by (rule Cons.IH[OF y(2)]) (use Cons.prems(3) in auto)
qed simp

section \<open>The first of each fingerprint\<close>

definition add_new :: "('a \<Rightarrow> 'b) \<Rightarrow> 'a \<Rightarrow> 'a list \<Rightarrow> 'a list" where
  "add_new f x xs = (if f x \<in> f ` set xs then xs else xs @ [x])"

definition add_all_new :: "('a \<Rightarrow> 'b) \<Rightarrow> 'a list \<Rightarrow> 'a list \<Rightarrow> 'a list" where
  "add_all_new f ys xs = fold (add_new f) ys xs"

definition first_of_each :: "('a \<Rightarrow> 'b) \<Rightarrow> 'a list \<Rightarrow> 'a list" where
  "first_of_each f xs = add_all_new f xs []"

lemma add_all_new_simps [simp]:
  "add_all_new f [] xs = xs" "add_all_new f (y # ys) xs = add_all_new f ys (add_new f y xs)"
  "add_all_new f (ys @ zs) xs = add_all_new f zs (add_all_new f ys xs)"
  by (simp_all add: add_all_new_def)

lemma add_all_new_image: "f ` set (add_all_new f ys xs) = f ` set xs \<union> f ` set ys"
  by (induction ys arbitrary: xs) (auto simp: add_new_def)

lemma add_all_new_subset: "x \<in> set xs \<Longrightarrow> x \<in> set (add_all_new f ys xs)"
  by (induction ys arbitrary: xs) (auto simp: add_new_def)

lemma add_all_new_from: "set (add_all_new f ys xs) \<subseteq> set xs \<union> set ys"
proof (induction ys arbitrary: xs)
  case (Cons y ys)
  have "set (add_all_new f ys (add_new f y xs)) \<subseteq> set (add_new f y xs) \<union> set ys" by (rule Cons.IH)
  also have "\<dots> \<subseteq> set xs \<union> set (y # ys)" by (auto simp: add_new_def)
  finally show ?case by simp
qed simp

lemma add_all_new_distinct: "distinct (map f xs) \<Longrightarrow> distinct (map f (add_all_new f ys xs))"
  by (induction ys arbitrary: xs) (auto simp: add_new_def)

lemma first_of_each_distinct: "distinct (map f (first_of_each f xs))"
  unfolding first_of_each_def by (rule add_all_new_distinct) simp

lemma first_of_each_image: "f ` set (first_of_each f xs) = f ` set xs"
  by (simp add: first_of_each_def add_all_new_image)

lemma add_all_new_id: "distinct (map f (xs @ ys)) \<Longrightarrow> add_all_new f ys xs = xs @ ys"
  by (induction ys arbitrary: xs) (auto simp: add_new_def)

lemma first_of_each_id: "distinct (map f xs) \<Longrightarrow> first_of_each f xs = xs"
  using add_all_new_id[of f "[]" xs] by (simp add: first_of_each_def)

lemma add_new_known: "f y \<in> f ` set xs \<Longrightarrow> add_new f y xs = xs"
  by (simp add: add_new_def)

text \<open>Adding the first of each is adding all.\<close>

lemma add_all_first: "add_all_new f (add_all_new f ys zs) xs = add_all_new f ys (add_all_new f zs xs)"
proof (induction ys arbitrary: zs)
  case (Cons y ys)
  have "add_all_new f (add_new f y zs) xs = add_new f y (add_all_new f zs xs)"
  proof (cases "f y \<in> f ` set zs")
    case True
    then have "f y \<in> f ` set (add_all_new f zs xs)" by (simp add: add_all_new_image)
    then show ?thesis using True by (simp add: add_new_def)
  qed (simp add: add_new_def)
  then show ?case by (simp add: Cons.IH)
qed simp

lemma first_of_each_append: "first_of_each f (xs @ ys) = add_all_new f (first_of_each f ys) (first_of_each f xs)"
  by (simp add: first_of_each_def add_all_first)

section \<open>The deduplication loop\<close>

lemma dedup_loop_spec:
  assumes "dedup_loop fp hs seen out = Inr r" "set seen = (the \<circ> fp) ` set out" "\<forall>h \<in> set out. fp h \<noteq> None"
  shows "r = add_all_new fp hs out \<and> (\<forall>h \<in> set hs. fp h \<noteq> None)"
  using assms
proof (induction hs arbitrary: seen out)
  case (Cons h hs)
  then obtain f where f: "fp h = Some f" by (cases "fp h") auto
  have known: "f \<in> set seen \<longleftrightarrow> fp h \<in> fp ` set out"
    using Cons.prems(2,3) f by (force simp: image_iff)
  show ?case
  proof (cases "f \<in> set seen")
    case True
    then show ?thesis using Cons.IH[of seen out] Cons.prems f known by (simp add: add_new_def)
  next
    case False
    have "set (f # seen) = (the \<circ> fp) ` set (out @ [h])" "\<forall>k \<in> set (out @ [h]). fp k \<noteq> None"
      using Cons.prems(2,3) f by auto
    moreover have "dedup_loop fp hs (f # seen) (out @ [h]) = Inr r" using Cons.prems(1) f False by simp
    ultimately show ?thesis using Cons.IH[of "f # seen" "out @ [h]"] f known False by (simp add: add_new_def)
  qed
qed simp

lemma deduplicate_spec:
  assumes "deduplicate_handlers rt entries = Inr r"
  shows "r = first_of_each (handler_fingerprint rt) (as_list entries)"
    "\<forall>h \<in> set (as_list entries). handler_fingerprint rt h \<noteq> None"
  using dedup_loop_spec[of "handler_fingerprint rt" "as_list entries" "[]" "[]" r] assms
  by (simp_all add: deduplicate_handlers_def first_of_each_def)

lemma fingerprints_spec:
  "fingerprints fp hs = Inr seen \<Longrightarrow> set seen = (the \<circ> fp) ` set hs \<and> (\<forall>h \<in> set hs. fp h \<noteq> None)"
proof (induction hs arbitrary: seen)
  case (Cons h hs)
  obtain f where f: "fp h = Some f" using Cons.prems by (cases "fp h") auto
  obtain ss where ss: "fingerprints fp hs = Inr ss" "seen = f # ss"
    using Cons.prems f by (cases "fingerprints fp hs") auto
  show ?case using Cons.IH[OF ss(1)] f ss(2) by auto
qed simp

section \<open>Merging symbol by symbol\<close>

text \<open>The handlers of a symbol, as a list.\<close>

definition entries_of :: "ymap \<Rightarrow> string \<Rightarrow> yaml list" where
  "entries_of c p = (case dict_get c p of None \<Rightarrow> [] | Some v \<Rightarrow> as_list v)"

lemma entries_of_set [simp]: "entries_of (dict_set p v c) q = (if q = p then as_list v else entries_of c q)"
  by (simp add: entries_of_def)

lemma entries_of_absent: "p \<notin> set (dict_keys c) \<Longrightarrow> entries_of c p = []"
  by (simp add: entries_of_def map_of_eq_None_iff[THEN iffD2])

lemma entries_of_in: "dict_ok c \<Longrightarrow> (p, v) \<in> set c \<Longrightarrow> entries_of c p = as_list v"
  by (simp add: entries_of_def)

text \<open>Both loops write a list of handlers per symbol; what they have in common is one step at a symbol.\<close>

definition listed :: "ymap \<Rightarrow> (string \<Rightarrow> yaml list) \<Rightarrow> bool" where
  "listed c hs \<longleftrightarrow> (\<forall>p. dict_get c p = (if p \<in> set (dict_keys c) then Some (YList (hs p)) else None))"

lemma listed_entries: "listed c hs \<Longrightarrow> p \<in> set (dict_keys c) \<Longrightarrow> entries_of c p = hs p"
  by (simp add: listed_def entries_of_def)

lemma listed_set: "listed c hs \<Longrightarrow> listed (dict_set p (YList l) c) (hs(p := l))"
  by (auto simp: listed_def dict_keys_set)

lemma dedup_symbol_Inr:
  "dedup_symbol rt (p, v) c = Inr c' \<Longrightarrow>
   c' = dict_set p (YList (first_of_each (handler_fingerprint rt) (as_list v))) c"
  by (auto simp: dedup_symbol_def dest!: deduplicate_spec(1))

lemma merge_symbol_Inr:
  assumes "merge_symbol rt (p, v) c = Inr c'"
    and "\<And>x. dict_get c p = Some x \<Longrightarrow> distinct (map (handler_fingerprint rt) (as_list x))"
  shows "c' = dict_set p (YList (add_all_new (handler_fingerprint rt) (as_list v) (entries_of c p))) c"
proof -
  let ?fp = "handler_fingerprint rt"
  obtain inc where inc: "deduplicate_handlers rt v = Inr inc" using assms(1) by (auto simp: merge_symbol_def)
  note incs = deduplicate_spec[OF inc]
  show ?thesis
  proof (cases "dict_get c p")
    case None
    then show ?thesis using assms(1) inc incs(1) by (simp add: merge_symbol_def entries_of_def first_of_each_def)
  next
    case (Some x)
    then obtain seen r where r: "fingerprints ?fp (as_list x) = Inr seen" "dedup_loop ?fp inc seen (as_list x) = Inr r"
        "c' = dict_set p (YList r) c"
      using assms(1) inc by (auto simp: merge_symbol_def)
    have "r = add_all_new ?fp inc (as_list x)" using dedup_loop_spec[OF r(2)] fingerprints_spec[OF r(1)] by simp
    then show ?thesis using r(3) incs(1) Some by (simp add: entries_of_def first_of_each_def add_all_first)
  qed
qed

lemma dedup_fold:
  assumes "fold_result (dedup_symbol rt) cs c = Inr c'" "dict_ok cs"
  shows "dict_keys c' = dict_keys c @ filter (\<lambda>p. p \<notin> set (dict_keys c)) (dict_keys cs) \<and>
    (\<forall>p. dict_get c' p = (if p \<in> set (dict_keys cs)
       then Some (YList (first_of_each (handler_fingerprint rt) (entries_of cs p))) else dict_get c p))"
  using assms
proof (induction cs arbitrary: c)
  case (Cons pv cs)
  obtain q v where pv: "pv = (q, v)" by (cases pv)
  let ?c = "dict_set q (YList (first_of_each (handler_fingerprint rt) (as_list v))) c"
  obtain y where y: "dedup_symbol rt (q, v) c = Inr y" "fold_result (dedup_symbol rt) cs y = Inr c'"
    using Cons.prems(1) pv by auto
  have step: "fold_result (dedup_symbol rt) cs ?c = Inr c'" using y dedup_symbol_Inr[OF y(1)] by simp
  have q: "q \<notin> set (dict_keys cs)" "dict_ok cs" using Cons.prems(2) pv by auto
  note IH = Cons.IH[OF step q(2)]
  have "filter (\<lambda>p. p \<notin> set (dict_keys ?c)) (dict_keys cs) = filter (\<lambda>p. p \<notin> set (dict_keys c)) (dict_keys cs)"
    using q by (intro filter_cong) (auto simp: dict_keys_set split: if_splits)
  then have "dict_keys c' = dict_keys c @ filter (\<lambda>p. p \<notin> set (dict_keys c)) (dict_keys (pv # cs))"
    using IH by (auto simp: pv dict_keys_set)
  moreover have "dict_get c' p = (if p \<in> set (dict_keys (pv # cs))
      then Some (YList (first_of_each (handler_fingerprint rt) (entries_of (pv # cs) p))) else dict_get c p)" for p
    using IH q by (auto simp: pv entries_of_def)
  ultimately show ?case by blast
qed simp

lemma merge_fold:
  assumes "fold_result (merge_symbol rt) cs c = Inr c'" "dict_ok cs" "listed c hs"
    and "\<forall>p. distinct (map (handler_fingerprint rt) (hs p))"
  shows "dict_keys c' = dict_keys c @ filter (\<lambda>p. p \<notin> set (dict_keys c)) (dict_keys cs) \<and>
    listed c' (\<lambda>p. add_all_new (handler_fingerprint rt) (entries_of cs p) (entries_of c p))"
  using assms
proof (induction cs arbitrary: c hs)
  case Nil
  then show ?case by (auto simp: entries_of_def listed_def)
next
  case (Cons pv cs)
  obtain p v where pv: "pv = (p, v)" by (cases pv)
  let ?fp = "handler_fingerprint rt"
  let ?l = "add_all_new ?fp (as_list v) (entries_of c p)"
  let ?c = "dict_set p (YList ?l) c"
  have "distinct (map ?fp (as_list x))" if "dict_get c p = Some x" for x
    using that Cons.prems(3,4) by (auto simp: listed_def split: if_splits)
  note ms = merge_symbol_Inr[OF _ this]
  obtain y where y: "merge_symbol rt (p, v) c = Inr y" "fold_result (merge_symbol rt) cs y = Inr c'"
    using Cons.prems(1) pv by auto
  have step: "fold_result (merge_symbol rt) cs ?c = Inr c'" using y ms[OF y(1)] by simp
  have "distinct (map ?fp (entries_of c p))" using Cons.prems(3,4) by (auto simp: listed_def entries_of_def)
  then have dl: "distinct (map ?fp ?l)" by (rule add_all_new_distinct)
  have IH: "dict_keys c' = dict_keys ?c @ filter (\<lambda>p. p \<notin> set (dict_keys ?c)) (dict_keys cs)"
    "listed c' (\<lambda>q. add_all_new ?fp (entries_of cs q) (entries_of ?c q))"
    using Cons.IH[OF step _ listed_set[OF Cons.prems(3), of p ?l]] Cons.prems(2,4) dl by auto
  have p: "p \<notin> set (dict_keys cs)" using Cons.prems(2) pv by simp
  have "(\<lambda>q. add_all_new ?fp (entries_of cs q) (entries_of ?c q)) =
    (\<lambda>q. add_all_new ?fp (entries_of (pv # cs) q) (entries_of c q))"
    using entries_of_absent[OF p] by (auto simp: pv entries_of_def)
  moreover have "filter (\<lambda>q. q \<notin> set (dict_keys ?c)) (dict_keys cs) = filter (\<lambda>q. q \<notin> set (dict_keys c)) (dict_keys cs)"
    using p by (intro filter_cong) (auto simp: dict_keys_set split: if_splits)
  ultimately show ?case using IH by (auto simp: pv dict_keys_set)
qed

lemma merge_configs_spec:
  assumes "merge_configs rt base user = Inr m" "dict_ok base" "dict_ok user"
  shows "dict_keys m = dict_keys base @ filter (\<lambda>p. p \<notin> set (dict_keys base)) (dict_keys user)"
    "listed m (\<lambda>p. first_of_each (handler_fingerprint rt) (entries_of base p @ entries_of user p))"
    "dict_ok m"
proof -
  let ?fp = "handler_fingerprint rt"
  obtain c where c: "fold_result (dedup_symbol rt) base [] = Inr c" "fold_result (merge_symbol rt) user c = Inr m"
    using assms(1) by (auto simp: merge_configs_def)
  define hs where "hs = (\<lambda>p. if p \<in> set (dict_keys base) then first_of_each ?fp (entries_of base p) else [])"
  from dedup_fold[OF c(1) assms(2)] have kc: "dict_keys c = dict_keys base" and lc: "listed c hs"
    by (auto simp: hs_def listed_def)
  have ec: "entries_of c p = first_of_each ?fp (entries_of base p)" for p
    using lc kc entries_of_absent[of p base]
    by (auto simp: listed_def entries_of_def hs_def first_of_each_def split: option.splits)
  have "\<forall>p. distinct (map ?fp (hs p))" by (simp add: hs_def first_of_each_distinct)
  from merge_fold[OF c(2) assms(3) lc this]
  show k: "dict_keys m = dict_keys base @ filter (\<lambda>p. p \<notin> set (dict_keys base)) (dict_keys user)"
    and "listed m (\<lambda>p. first_of_each ?fp (entries_of base p @ entries_of user p))"
    by (simp_all add: kc ec first_of_each_def)
  show "dict_ok m" unfolding k using assms(2,3) by auto
qed

lemma override_configs_spec:
  assumes "override_configs rt base over = Inr m" "dict_ok base" "dict_ok over"
  shows "dict_keys m = dict_keys base @ filter (\<lambda>p. p \<notin> set (dict_keys base)) (dict_keys over)" "dict_ok m"
    "dict_get m p = (if p \<in> set (dict_keys over) then Some (YList (first_of_each (handler_fingerprint rt) (entries_of over p)))
                     else dict_get base p)"
proof -
  note spec = dedup_fold[OF assms(1)[unfolded override_configs_def] assms(3)]
  then show k: "dict_keys m = dict_keys base @ filter (\<lambda>p. p \<notin> set (dict_keys base)) (dict_keys over)" by simp
  show "dict_ok m" unfolding k using assms(2,3) by auto
  show "dict_get m p = (if p \<in> set (dict_keys over) then Some (YList (first_of_each (handler_fingerprint rt) (entries_of over p)))
                     else dict_get base p)" using spec by simp
qed

end
