(* ===== verification/Config_Sources.thy ===== *)
theory Config_Sources
  imports Config_Merge "HOL-Library.Sublist"
begin

text \<open>
  The composition of the sources: the version filter, the defaults and the layers of the providers against reference
  definitions, and the symbol paths a load can produce.
\<close>

section \<open>Version filter\<close>

definition version_matches :: "('s) site_scheme \<Rightarrow> string option \<Rightarrow> yaml \<Rightarrow> bool" where
  "version_matches st current h = (case h of
     YMap c \<Rightarrow> check_version_match st current (yget ''min_version'' c) (yget ''max_version'' c) = Some True
   | _ \<Rightarrow> False)"

definition matching_config :: "('s) site_scheme \<Rightarrow> string option \<Rightarrow> ymap \<Rightarrow> ymap" where
  "matching_config st current conf =
     concat (map (\<lambda>(path, hs). let ks = filter (version_matches st current) (as_list hs)
                                 in if ks = [] then [] else [(path, YList ks)]) conf)"

lemma matching_config_simps [simp]:
  "matching_config st current [] = []"
  "matching_config st current ((p, v) # conf) =
     (if filter (version_matches st current) (as_list v) = [] then matching_config st current conf
      else (p, YList (filter (version_matches st current) (as_list v))) # matching_config st current conf)"
  by (simp_all add: matching_config_def Let_def)

lemma filter_handlers_spec:
  "fold_result (filter_handler st current strict) hs kept = Inr r \<Longrightarrow>
   r = kept @ filter (version_matches st current) hs \<and> (strict \<longrightarrow> list_all is_map hs)"
proof (induction hs arbitrary: kept)
  case (Cons h hs)
  then obtain y where y: "filter_handler st current strict h kept = Inr y"
      "fold_result (filter_handler st current strict) hs y = Inr r" by auto
  have "y = kept @ filter (version_matches st current) [h] \<and> (strict \<longrightarrow> is_map h)"
    using y(1) by (auto simp: filter_handler_def version_matches_def split: yaml.splits option.splits bool.splits if_splits)
  with Cons.IH[OF y(2)] show ?case by auto
qed simp

lemma matching_keys: "set (dict_keys (matching_config st current conf)) \<subseteq> set (dict_keys conf)"
proof (induction conf)
  case (Cons pv conf)
  then show ?case by (cases pv) auto
qed simp

lemma matching_ok: "dict_ok conf \<Longrightarrow> dict_ok (matching_config st current conf)"
proof (induction conf)
  case (Cons pv conf)
  then show ?case using matching_keys[of st current conf] by (cases pv) auto
qed simp

lemma filter_config_spec:
  assumes "filter_config_by_version st conf current strict = Inr c" "dict_ok conf"
    and cur: "current \<noteq> None" "current \<noteq> Some ''''"
  shows "c = matching_config st current conf \<and> (strict \<longrightarrow> (\<forall>(path, hs) \<in> set conf. list_all is_map (as_list hs)))"
proof -
  let ?f = "\<lambda>(path, entries) acc.
             bind_result (fold_result (filter_handler st current strict) (as_list entries) [])
               (\<lambda>kept. Inr (if kept = [] then acc else dict_set path (YList kept) acc))"
  have "acc' = acc @ matching_config st current cs \<and> (strict \<longrightarrow> (\<forall>(path, hs) \<in> set cs. list_all is_map (as_list hs)))"
    if "fold_result ?f cs acc = Inr acc'" "dict_ok cs" "set (dict_keys acc) \<inter> set (dict_keys cs) = {}" for cs acc acc'
    using that
  proof (induction cs arbitrary: acc)
    case (Cons pv cs)
    obtain p v where pv: "pv = (p, v)" by (cases pv)
    then obtain ks where ks: "fold_result (filter_handler st current strict) (as_list v) [] = Inr ks"
        "fold_result ?f cs (if ks = [] then acc else dict_set p (YList ks) acc) = Inr acc'"
      using Cons.prems(1) by auto
    note spec = filter_handlers_spec[OF ks(1)]
    have p: "p \<notin> set (dict_keys acc)" "p \<notin> set (dict_keys cs)" using Cons.prems(2,3) pv by auto
    then have "(if ks = [] then acc else dict_set p (YList ks) acc) = acc @ matching_config st current [pv]"
      using spec by (simp add: pv dict_set_new)
    moreover have "set (dict_keys (acc @ matching_config st current [pv])) \<inter> set (dict_keys cs) = {}"
      using Cons.prems(3) p matching_keys[of st current "[pv]"] by (auto simp: pv)
    ultimately have "acc' = (acc @ matching_config st current [pv]) @ matching_config st current cs \<and>
        (strict \<longrightarrow> (\<forall>(path, hs) \<in> set cs. list_all is_map (as_list hs)))"
      using Cons.IH[of "acc @ matching_config st current [pv]"] ks(2) Cons.prems(2) by simp
    then show ?case using spec by (auto simp: pv)
  qed simp
  from this[of conf "[]" c] show ?thesis using assms by (simp add: filter_config_by_version_def)
qed

lemma filter_config_ok:
  assumes "filter_config_by_version st conf current strict = Inr c" "dict_ok conf"
  shows "dict_ok c" "set (dict_keys c) \<subseteq> set (dict_keys conf)"
proof -
  have "dict_ok c \<and> set (dict_keys c) \<subseteq> set (dict_keys conf)"
  proof (cases "current = None \<or> current = Some ''''")
    case True
    then show ?thesis using assms by (auto simp: filter_config_by_version_def)
  next
    case False
    with filter_config_spec[OF assms] have "c = matching_config st current conf" by simp
    then show ?thesis using matching_ok[OF assms(2), of st current] matching_keys[of st current conf] by blast
  qed
  then show "dict_ok c" "set (dict_keys c) \<subseteq> set (dict_keys conf)" by auto
qed

section \<open>Defaults\<close>

lemma yget_setdefault [simp]:
  "yget k (setdefault k' v d) = (if k = k' \<and> \<not> dict_has k d then v else yget k d)"
  "dict_has k (setdefault k' v d) = (k = k' \<or> dict_has k d)"
  by (auto simp: setdefault_def yget_def dict_has_iff)

lemma setdefault_has [simp]: "dict_has k d \<Longrightarrow> setdefault k v d = d"
  by (simp add: setdefault_def)

lemma yget_set [simp]: "yget k (dict_set k' v d) = (if k = k' then v else yget k d)"
  by (simp add: yget_def)

lemma dict_has_set [simp]: "dict_has k (dict_set k' v d) \<longleftrightarrow> k = k' \<or> dict_has k d"
  by (auto simp: dict_has_iff)

lemma yget_default_has: "yget_default k v d = (if dict_has k d then yget k d else v)"
  by (auto simp: yget_default_def yget_def dict_has_iff)

lemma fill_handler_simps [simp]:
  "fill_handler YNull = YNull" "fill_handler (YBool b) = YBool b" "fill_handler (YInt n) = YInt n"
  "fill_handler (YFloat f) = YFloat f" "fill_handler (YStr s) = YStr s" "fill_handler (YList l) = YList l"
  by (simp_all add: fill_handler_def)

definition filled :: "ymap \<Rightarrow> ymap" where
  "filled c = (case fill_handler (YMap c) of YMap d \<Rightarrow> d | _ \<Rightarrow> [])"

definition defaulted :: "string set" where
  "defaulted = {''type'', ''enabled'', ''need_locals'', ''lock_patch'', ''metrics''}"

lemma fill_map:
  shows "fill_handler (YMap c) = YMap (filled c)"
    and "k \<in> defaulted \<Longrightarrow> dict_has k (filled c)"
    and "is_list (yget ''metrics'' (filled c))"
    and "dict_has k c \<Longrightarrow> k \<noteq> ''metrics'' \<Longrightarrow> yget k (filled c) = yget k c"
    and "k \<notin> defaulted \<Longrightarrow> yget k (filled c) = yget k c"
    and "yget_default ''lock_patch'' (YBool False) (filled c) = yget_default ''lock_patch'' (YBool False) c"
    and "is_list (yget_default ''metrics'' (YList []) c) \<Longrightarrow>
      yget ''metrics'' (filled c) = yget_default ''metrics'' (YList []) c"
proof -
  define c' where "c' = setdefault ''metrics'' (YList []) (setdefault ''lock_patch'' (YBool False)
                   (setdefault ''need_locals'' (YBool False) (setdefault ''enabled'' (YBool True)
                     (setdefault ''type'' (YStr ''wrap'') c))))"
  define d where "d = (if is_list (yget ''metrics'' c') then c'
                       else dict_set ''metrics'' (YList (if truthy (yget ''metrics'' c') then [yget ''metrics'' c'] else [])) c')"
  have f: "fill_handler (YMap c) = YMap d" by (simp add: fill_handler_def c'_def d_def Let_def)
  then have d: "filled c = d" by (simp add: filled_def)
  have m: "yget ''metrics'' c' = yget_default ''metrics'' (YList []) c" by (simp add: c'_def yget_default_has)
  show "fill_handler (YMap c) = YMap (filled c)" using f d by simp
  show "k \<in> defaulted \<Longrightarrow> dict_has k (filled c)" by (auto simp: d d_def c'_def defaulted_def)
  show "is_list (yget ''metrics'' (filled c))" by (simp add: d d_def)
  show "dict_has k c \<Longrightarrow> k \<noteq> ''metrics'' \<Longrightarrow> yget k (filled c) = yget k c" by (simp add: d d_def) (simp add: c'_def)
  show "k \<notin> defaulted \<Longrightarrow> yget k (filled c) = yget k c" by (simp add: d d_def defaulted_def) (simp add: c'_def)
  show "yget_default ''lock_patch'' (YBool False) (filled c) = yget_default ''lock_patch'' (YBool False) c"
    by (simp add: d d_def yget_default_has) (simp add: c'_def)
  show "is_list (yget_default ''metrics'' (YList []) c) \<Longrightarrow>
      yget ''metrics'' (filled c) = yget_default ''metrics'' (YList []) c" by (simp add: d d_def m)
qed

lemma fill_again: "fill_handler (fill_handler h) = fill_handler h"
proof (cases h)
  case (YMap c)
  have "\<forall>k \<in> {''type'', ''enabled'', ''need_locals'', ''lock_patch'', ''metrics''}. dict_has k (filled c)"
    using fill_map(2)[of _ c] by (simp add: defaulted_def)
  then have "fill_handler (YMap (filled c)) = YMap (filled c)"
    using fill_map(3)[of c] by (simp add: fill_handler_def[of "YMap (filled c)"] Let_def)
  then show ?thesis by (simp add: YMap fill_map(1))
qed simp_all

text \<open>The defaults do not change the identity of a handler whose metrics are a list.\<close>

lemma fill_identity:
  assumes "is_list (yget_default ''metrics'' (YList []) c)"
  shows "identity_of (filled c) root = identity_of c root" "resolve_handler_name (filled c) = resolve_handler_name c"
proof -
  have "dict_has ''metrics'' (filled c)" using fill_map(2)[of "''metrics''" c] by (simp add: defaulted_def)
  then have m: "yget_default ''metrics'' (YList []) (filled c) = yget_default ''metrics'' (YList []) c"
    using fill_map(7)[OF assms] by (simp add: yget_default_has)
  have g: "yget ''name'' (filled c) = yget ''name'' c" "yget ''handler'' (filled c) = yget ''handler'' c"
    "yget ''min_version'' (filled c) = yget ''min_version'' c" "yget ''max_version'' (filled c) = yget ''max_version'' c"
    by (simp_all add: fill_map(5) defaulted_def)
  have del: "yget k (dict_del ''name'' x) = (if k = ''name'' then YNull else yget k x)"
    "yget_default ''metrics'' v (dict_del ''name'' x) = yget_default ''metrics'' v x" for k v x
    by (simp_all add: yget_def yget_default_def)
  show r: "resolve_handler_name (filled c) = resolve_handler_name c" by (simp add: resolve_handler_name_def m g)
  have "resolve_handler_name (dict_del ''name'' (filled c)) = resolve_handler_name (dict_del ''name'' c)"
    by (simp add: resolve_handler_name_def m g del)
  note del_r = this
  show "identity_of (filled c) root = identity_of c root"
    unfolding identity_of_def fingerprint_handler_name_def m g fill_map(6) del_r ..
qed

text \<open>Metrics that are no list become one.\<close>

lemma filled_metrics_value:
  "\<not> is_list (yget_default ''metrics'' (YList []) c) \<Longrightarrow> yget ''metrics'' (filled c) =
     YList (if truthy (yget_default ''metrics'' (YList []) c) then [yget_default ''metrics'' (YList []) c] else [])"
  by (cases "dict_has ''metrics'' c") (auto simp: filled_def fill_handler_def Let_def yget_default_has)

lemma filled_single:
  "yget_default ''metrics'' (YList []) c = YMap d \<Longrightarrow> d \<noteq> [] \<Longrightarrow> yget ''metrics'' (filled c) = YList [YMap d]"
  using filled_metrics_value[of c] by simp

lemma filled_null: "yget_default ''metrics'' (YList []) c = YNull \<Longrightarrow> yget ''metrics'' (filled c) = YList []"
  using filled_metrics_value[of c] by simp


text \<open>
  What a load reads and how it composes it: every mapping that is read or built has distinct, non-empty
  symbol paths, and each provider that is accepted is a layer over the sources below it.
\<close>

section \<open>Well-formed sources\<close>

definition paths_ok :: "ymap \<Rightarrow> bool" where
  "paths_ok c \<longleftrightarrow> dict_ok c \<and> [] \<notin> set (dict_keys c)"

text \<open>A Python dict has distinct keys; the empty symbol path is never used in a file.\<close>

definition site_ok :: "('s) site_scheme \<Rightarrow> bool" where
  "site_ok st \<longleftrightarrow> (\<forall>path d. read_yaml st path = Some (YMap d) \<longrightarrow> paths_ok d)"

lemma paths_ok_empty [simp]: "paths_ok []"
  by (simp add: paths_ok_def)

lemma paths_ok_dict: "paths_ok c \<Longrightarrow> dict_ok c"
  by (simp add: paths_ok_def)

lemma paths_ok_set: "paths_ok c \<Longrightarrow> p \<noteq> [] \<Longrightarrow> paths_ok (dict_set p v c)"
  by (auto simp: paths_ok_def dict_keys_set)

lemma convert_array_ok: "convert_array_config strict items c = Inr d \<Longrightarrow> paths_ok c \<Longrightarrow> paths_ok d"
  by (induction strict items c rule: convert_array_config.induct)
    (auto simp: Let_def paths_ok_set split: yaml.splits list.splits if_splits)

lemma load_yaml_ok:
  assumes "site_ok st" "load_yaml st path strict = Inr c"
  shows "paths_ok c"
  using assms convert_array_ok[of strict _ "[]"]
  by (auto simp: load_yaml_def site_ok_def split: option.splits if_splits yaml.splits)

lemma merge_configs_ok: "merge_configs rt a b = Inr m \<Longrightarrow> paths_ok a \<Longrightarrow> paths_ok b \<Longrightarrow> paths_ok m"
  using merge_configs_spec(1,3)[of rt a b m] by (auto simp: paths_ok_def)

lemma override_configs_ok: "override_configs rt a b = Inr m \<Longrightarrow> paths_ok a \<Longrightarrow> paths_ok b \<Longrightarrow> paths_ok m"
  using override_configs_spec(1,2)[of rt a b m] by (auto simp: paths_ok_def)

lemma filter_config_paths: "filter_config_by_version st c v strict = Inr d \<Longrightarrow> paths_ok c \<Longrightarrow> paths_ok d"
  using filter_config_ok[of st c v strict d] by (auto simp: paths_ok_def)

lemma fill_defaults_paths: "paths_ok c \<Longrightarrow> paths_ok (fill_defaults c)"
proof -
  have "dict_keys (fill_defaults c) = dict_keys c" by (simp add: fill_defaults_def split_def)
  then show "paths_ok c \<Longrightarrow> paths_ok (fill_defaults c)" by (simp add: paths_ok_def)
qed

lemma filter_owned_paths: "paths_ok c \<Longrightarrow> paths_ok (filter_provider_owned_symbols c owned)"
  by (auto simp: paths_ok_def filter_provider_owned_symbols_def)

lemma load_config_path_ok:
  assumes "site_ok st" "load_config_path st path = Inr c"
  shows "paths_ok c"
proof -
  have dir: "paths_ok d" if "fold_result (\<lambda>q conf. bind_result (load_yaml st q False) (merge_configs st conf)) qs [] = Inr d" for qs d
    by (rule fold_result_invariant[OF that, of paths_ok]) (auto dest: load_yaml_ok[OF assms(1)] intro: merge_configs_ok)
  show ?thesis
    using assms(2) dir load_yaml_ok[OF assms(1)]
    by (auto simp: load_config_path_def Let_def split: option.splits if_splits)
qed

definition source :: "('s) site_scheme \<Rightarrow> string option \<Rightarrow> string option \<Rightarrow> config_error + ymap" where
  "source st version path = bind_result (load_config_path st path) (\<lambda>c. filter_config_by_version st c version False)"

lemma source_ok: "site_ok st \<Longrightarrow> source st v path = Inr c \<Longrightarrow> paths_ok c"
  by (auto simp: source_def dest: load_config_path_ok intro: filter_config_paths)

lemma load_provider_ok:
  assumes "site_ok st" "load_provider st p = Inr c"
  shows "paths_ok c" "validate_provider_config st p c"
proof -
  obtain m v where m: "load_provider_config st p = Inr m" "filter_config_by_version st m v True = Inr c"
      "validate_provider_config st p c"
    using assms(2) by (auto simp: load_provider_def split: if_splits)
  have "paths_ok m"
  proof -
    obtain m' where m': "fold_result (\<lambda>path merged.
          if \<not> is_file st path then Inl ConfigErr
          else bind_result (load_yaml st path True) (\<lambda>conf.
            if conf = [] then Inl ConfigErr else merge_configs st merged conf)) (config_paths p) [] = Inr m'" "m = m'"
      using m(1) by (auto simp: load_provider_config_def split: if_splits)
    show ?thesis unfolding m'(2)
      by (rule fold_result_invariant[OF m'(1), of paths_ok])
        (auto dest: load_yaml_ok[OF assms(1)] intro: merge_configs_ok split: if_splits)
  qed
  with m(2) show "paths_ok c" by (rule filter_config_paths)
  show "validate_provider_config st p c" by (rule m(3))
qed

lemma loaded_providers_ok:
  "site_ok st \<Longrightarrow> (q, c) \<in> set (loaded_providers st ps) \<Longrightarrow> paths_ok c \<and> validate_provider_config st q c"
  by (induction st ps rule: loaded_providers.induct) (auto split: sum.splits dest: load_provider_ok)

lemma activate_from: "set (activate_providers st ps) \<subseteq> set (loaded_providers st ps)"
  by (auto simp: activate_providers_def Let_def in_set_enumerate_eq) (metis nth_mem)

lemma activate_ok: "site_ok st \<Longrightarrow> (q, c) \<in> set (activate_providers st ps) \<Longrightarrow> paths_ok c \<and> validate_provider_config st q c"
  using activate_from loaded_providers_ok by blast

section \<open>Handlers of a symbol through the operations\<close>

lemma first_of_each_Nil [simp]: "first_of_each f [] = []"
  by (simp add: first_of_each_def)

lemma merge_entries:
  assumes "merge_configs rt base user = Inr m" "dict_ok base" "dict_ok user"
  shows "entries_of m p = first_of_each (handler_fingerprint rt) (entries_of base p @ entries_of user p)"
proof (cases "p \<in> set (dict_keys m)")
  case True
  then show ?thesis using listed_entries[OF merge_configs_spec(2)[OF assms]] by simp
next
  case False
  then have "p \<notin> set (dict_keys base)" "p \<notin> set (dict_keys user)" using merge_configs_spec(1)[OF assms] by auto
  then show ?thesis using False by (simp add: entries_of_absent)
qed

lemma override_entries:
  assumes "override_configs rt base over = Inr m" "dict_ok base" "dict_ok over"
  shows "entries_of m p = (if p \<in> set (dict_keys over) then first_of_each (handler_fingerprint rt) (entries_of over p)
                           else entries_of base p)"
  using override_configs_spec(3)[OF assms, of p] by (simp add: entries_of_def)

lemma fill_entries: "entries_of (fill_defaults c) p = map fill_handler (entries_of c p)"
proof -
  have "dict_get (fill_defaults c) p = map_option (\<lambda>hs. YList (map fill_handler (as_list hs))) (dict_get c p)"
    by (induction c) (auto simp: fill_defaults_def)
  then show ?thesis by (simp add: entries_of_def split: option.split)
qed

lemma filter_owned_entries:
  "entries_of (filter_provider_owned_symbols c owned) p = (if startswith_any p owned then [] else entries_of c p)"
proof (cases "owned = []")
  case True
  then show ?thesis by (simp add: filter_provider_owned_symbols_def startswith_any_def)
next
  case False
  then show ?thesis
    using dict_get_filter_keys[of "\<lambda>p. \<not> startswith_any p owned" c p]
    by (simp add: filter_provider_owned_symbols_def entries_of_def)
qed

section \<open>Layers\<close>

text \<open>What an accepted provider does to the handlers of a symbol.\<close>

definition layer :: "('s) runtime_scheme \<Rightarrow> string \<Rightarrow> provider \<times> ymap \<Rightarrow> yaml list \<Rightarrow> yaml list" where
  "layer rt p u below =
     (if p \<in> set (dict_keys (snd u)) then first_of_each (handler_fingerprint rt) (entries_of (snd u) p)
      else if ownership_mode (fst u) = Exclusive \<and> startswith_any p (owned_symbol_prefixes (fst u)) then [] else below)"

lemma provider_step_cases:
  assumes "provider_step st (q, c) (m, active) = Inr (m', active')" "paths_ok m" "paths_ok c"
  obtains "m' = m" "active' = active"
  | "active' = active @ [q]" "paths_ok m'" "\<And>p. entries_of m' p = layer st p (q, c) (entries_of m p)"
proof -
  let ?base = "if ownership_mode q = Exclusive then filter_provider_owned_symbols m (owned_symbol_prefixes q) else m"
  have base: "paths_ok ?base" using assms(2) filter_owned_paths by simp
  consider "m' = m" "active' = active" | "override_configs st ?base c = Inr m'" "active' = active @ [q]"
    using assms(1) by (auto simp: provider_step_def Let_def split: sum.splits config_error.splits if_splits)
  then show thesis
  proof cases
    case 2
    have "entries_of m' p = layer st p (q, c) (entries_of m p)" for p
      using override_entries[OF 2(1)] base assms(3) by (simp add: paths_ok_dict layer_def filter_owned_entries)
    then show thesis using that(2) 2 override_configs_ok[OF 2(1) base assms(3)] by blast
  qed (rule that(1))
qed

lemma providers_fold:
  assumes "fold_result (provider_step st) us (m, active) = Inr (m', active')" "paths_ok m" "\<forall>(q, c) \<in> set us. paths_ok c"
  shows "\<exists>used. subseq used us \<and> active' = active @ map fst used \<and> paths_ok m' \<and>
    (\<forall>p. entries_of m' p = fold (layer st p) used (entries_of m p))"
  using assms
proof (induction us arbitrary: m active)
  case Nil
  then show ?case by (intro exI[of _ "[]"]) simp
next
  case (Cons u us)
  obtain q c where u: "u = (q, c)" by (cases u)
  then obtain m1 a1 where step: "provider_step st (q, c) (m, active) = Inr (m1, a1)"
      "fold_result (provider_step st) us (m1, a1) = Inr (m', active')"
    using Cons.prems(1) by auto
  have c: "paths_ok c" using Cons.prems(3) u by auto
  have rest: "\<forall>(q, c) \<in> set us. paths_ok c" using Cons.prems(3) by auto
  show ?case
  proof (cases rule: provider_step_cases[OF step(1) Cons.prems(2) c])
    case 1
    then obtain used where used: "subseq used us" "active' = active @ map fst used" "paths_ok m'"
        "\<forall>p. entries_of m' p = fold (layer st p) used (entries_of m p)"
      using Cons.IH[OF step(2)] Cons.prems(2) rest by auto
    then show ?thesis by (intro exI[of _ used]) auto
  next
    case 2
    then obtain used where used: "subseq used us" "active' = a1 @ map fst used" "paths_ok m'"
        "\<forall>p. entries_of m' p = fold (layer st p) used (entries_of m1 p)"
      using Cons.IH[OF step(2)] rest by auto
    with 2 show ?thesis by (intro exI[of _ "u # used"]) (auto simp: u)
  qed
qed

section \<open>A successful load\<close>

lemma load_sources_parts:
  assumes site: "site_ok st" and run: "load_sources st providers d f v is_user = Inr (conf, active)"
  obtains c1 c2 c3 m0 used m1 m2 m3 where
    "source st v (Some d) = Inr c1" "source st v (framework_source st f) = Inr c2" "source st v (environment_path st) = Inr c3"
    "paths_ok c1" "paths_ok c2" "paths_ok c3"
    "merge_configs st c1 c2 = Inr m0" "paths_ok m0"
    "subseq used (activate_providers st providers)" "active = map fst used" "paths_ok m1"
    "\<And>p. entries_of m1 p = fold (layer st p) used (entries_of m0 p)"
    "(if is_user then override_configs st m1 c2 else Inr m1) = Inr m2" "paths_ok m2"
    "merge_configs st m2 c3 = Inr m3" "conf = fill_defaults m3" "paths_ok conf"
proof -
  obtain c1 c2 c3 m0 m1 m2 m3 where
    s: "source st v (Some d) = Inr c1" "source st v (framework_source st f) = Inr c2" "source st v (environment_path st) = Inr c3"
    and m: "merge_configs st c1 c2 = Inr m0"
      "fold_result (provider_step st) (activate_providers st providers) (m0, []) = Inr (m1, active)"
      "(if is_user then override_configs st m1 c2 else Inr m1) = Inr m2" "merge_configs st m2 c3 = Inr m3" "conf = fill_defaults m3"
    using run by (auto simp: load_sources_def source_def Let_def)
  have ok: "paths_ok c1" "paths_ok c2" "paths_ok c3" using s source_ok[OF site] by blast+
  have m0: "paths_ok m0" using merge_configs_ok[OF m(1)] ok by blast
  have "\<forall>(q, c) \<in> set (activate_providers st providers). paths_ok c" using activate_ok[OF site] by blast
  from providers_fold[OF m(2) m0 this] obtain used where used: "subseq used (activate_providers st providers)"
    "active = map fst used" "paths_ok m1" "\<And>p. entries_of m1 p = fold (layer st p) used (entries_of m0 p)" by auto
  have m2: "paths_ok m2" using m(3) used(3) ok(2) override_configs_ok[of st m1 c2 m2] by (auto split: if_splits)
  then have "paths_ok conf" using merge_configs_ok[OF m(4)] ok(3) fill_defaults_paths by (simp add: m(5))
  then show thesis using that s ok m(1) m0 used m(3) m2 m(4,5) by blast
qed

end
