(* ===== verification/Config_Props.thy ===== *)
theory Config_Props
  imports Config_Sources
begin

text \<open>
  The properties of the configuration: merging, version filter, defaults, the composition of a load, and the
  ownership of symbols by the active providers.
\<close>

section \<open>A concrete site\<close>

definition example_site :: site where
  "example_site = \<lparr>json_dumps = (\<lambda>i. case id_handler i of YStr s \<Rightarrow> Some s | _ \<Rightarrow> None),
     sha256 = (\<lambda>s. map (\<lambda>c. word_of_nat (of_char c)) (rev s)), yaml_dump = (\<lambda>_. ''?''),
     module_attr = (\<lambda>root m f. Some \<lparr>func_module = m, func_name = f, func_kind = OtherCallable\<rparr>),
     call_factory = (\<lambda>f ms t. Some (Some f)), path_exists = (\<lambda>p. True), is_file = (\<lambda>p. True), is_dir = (\<lambda>p. False),
     scan_dir = (\<lambda>p. None),
     read_yaml = (\<lambda>p.
       if p = ''d'' then Some (YList [YMap [(''symbol'', YStr ''vllm.a:f''), (''handler'', YStr ''ms_service_metric.h:one'')],
                                      YMap [(''symbol'', YStr ''sglang.b:g''), (''handler'', YStr ''ms_service_metric.h:one'')]])
       else if p = ''u'' then Some (YMap [(''vllm.a:f'', YList [YMap [(''handler'', YStr ''ms_service_metric.h:one'')],
                                                        YMap [(''handler'', YStr ''ms_service_metric.h:two'')]])])
       else if p = ''p'' then Some (YMap [(''sglang.b:h'', YList [YMap [(''handler'', YStr ''sglang.hooks:run'')]])])
       else if p = ''q'' then Some (YMap [(''vllm.c:k'', YMap [(''metrics'', YList [YMap [(''name'', YStr ''m'')]])])])
       else Some YNull),
     expanduser = (\<lambda>p. p), handler_root = (\<lambda>p. p), casefold = (\<lambda>s. s),
     parse_version = (\<lambda>v. case v of YStr s \<Rightarrow> Some s | _ \<Rightarrow> None), version_less = (\<lambda>a b. a < b),
     package_version = (\<lambda>_. None), entry_points = [], config_env = Some ''u''\<rparr>"

definition example_provider :: provider where
  "example_provider = \<lparr>provider_name = ''sgl'', config_paths = [''p''], priority = 100, framework_package = YNull,
     owned_symbol_prefixes = [''sglang.''], handler_module_prefixes = [''sglang.''], ownership_mode = Exclusive\<rparr>"

definition example_raw :: "string \<Rightarrow> string \<Rightarrow> string \<Rightarrow> raw_provider" where
  "example_raw name path pre = \<lparr>raw_name = YStr name, raw_config_paths = YList [YStr path], raw_priority = YInt 100,
     raw_framework_package = YNull, raw_owned_symbol_prefixes = YList [YStr pre],
     raw_handler_module_prefixes = YList [YStr pre], raw_ownership_mode = YStr ''exclusive''\<rparr>"

definition default_entry :: "string \<Rightarrow> yaml" where
  "default_entry path = YMap [(''handler'', YStr path), (''type'', YStr ''wrap''), (''enabled'', YBool True),
     (''need_locals'', YBool False), (''lock_patch'', YBool False), (''metrics'', YList [])]"

definition base_example :: ymap where
  "base_example = [(''a:f'', YMap [(''handler'', YStr ''h:1'')]), (''a:g'', YList [YMap [], YMap []])]"

definition user_example :: ymap where
  "user_example = [(''a:f'', YList [YMap [(''handler'', YStr ''h:1''), (''type'', YStr ''x'')], YMap [(''handler'', YStr ''h:2'')]]),
     (''b:h'', YList [YMap []])]"

lemmas example_site_defs = example_site_def example_provider_def

lemma example_site_ok: "site_ok example_site"
  by (auto simp: site_ok_def example_site_def paths_ok_def split: if_splits)

section \<open>Positions that are kept\<close>

lemma kept_pair:
  assumes "i < length (map snd (filter (\<lambda>(k, _). P k) (enumerate 0 xs)))"
    "j < length (map snd (filter (\<lambda>(k, _). P k) (enumerate 0 xs)))" "i \<noteq> j"
  shows "\<exists>a b. a \<noteq> b \<and> a < length xs \<and> b < length xs \<and> map snd (filter (\<lambda>(k, _). P k) (enumerate 0 xs)) ! i = xs ! a \<and>
    map snd (filter (\<lambda>(k, _). P k) (enumerate 0 xs)) ! j = xs ! b \<and> P a"
proof -
  let ?ys = "filter (\<lambda>(k, _). P k) (enumerate 0 xs)"
  have at: "P (fst (?ys ! k)) \<and> fst (?ys ! k) < length xs \<and> snd (?ys ! k) = xs ! fst (?ys ! k)" if "k < length ?ys" for k
    using nth_mem[OF that] by (auto simp: in_set_enumerate_eq split_def)
  have "distinct ?ys" by simp
  then have "?ys ! i \<noteq> ?ys ! j" using assms by (simp add: nth_eq_iff_index_eq)
  with at[of i] at[of j] assms have "fst (?ys ! i) \<noteq> fst (?ys ! j)" by (simp add: prod_eq_iff)
  with at[of i] at[of j] assms show ?thesis
    by (intro exI[of _ "fst (?ys ! i)"] exI[of _ "fst (?ys ! j)"]) simp
qed

lemma discover_owned: "q \<in> set (discover loaded) \<Longrightarrow> owned_symbol_prefixes q \<noteq> []"
proof -
  assume "q \<in> set (discover loaded)"
  then obtain r where r: "is_valid r" "q = provider_of r"
    by (auto simp: discover_def reject_duplicate_names_def)
  have "strings_of v \<noteq> []" if "truthy v" "\<not> is_str v" "validate_module_prefixes v" for v
    using that by (cases v; cases "iterate v" rule: option.exhaust)
      (auto simp: validate_module_prefixes_def strings_of_def is_module_prefix_def neq_Nil_conv split: yaml.splits)
  then show ?thesis using r by (simp add: is_valid_def provider_of_def)
qed

lemma loaded_from: "(q, c) \<in> set (loaded_providers st ps) \<Longrightarrow> q \<in> set ps"
  by (induction st ps rule: loaded_providers.induct) (auto split: sum.splits)

lemma provider_owns:
  assumes "site_ok st" "(q, c) \<in> set (activate_providers st (discover loaded))" "p \<in> set (dict_keys c)"
  shows "startswith_any p (owned_symbol_prefixes q)"
proof -
  have "owned_symbol_prefixes q \<noteq> []" using assms(2) activate_from loaded_from discover_owned by blast
  moreover have "validate_provider_config st q c" using activate_ok[OF assms(1,2)] by blast
  ultimately show ?thesis using assms(3) by (auto simp: validate_provider_config_def list_all_iff)
qed

section \<open>Properties\<close>

text \<open>
  Merging keeps, for every symbol, the handlers of the default configuration followed by those of the user, and
  of several with the same fingerprint only the first; the symbols keep their order, new ones come last.
\<close>

theorem merge_appends_new_handlers:
  assumes "merge_configs rt base user = Inr m" "dict_ok base" "dict_ok user"
  shows "dict_keys m = dict_keys base @ filter (\<lambda>p. p \<notin> set (dict_keys base)) (dict_keys user) \<and>
    (\<forall>p \<in> set (dict_keys m).
      dict_get m p = Some (YList (first_of_each (handler_fingerprint rt) (entries_of base p @ entries_of user p))))"
  using merge_configs_spec(1,2)[OF assms] by (simp add: listed_def)

theorem merge_appends_new_handlers_witness:
  "\<exists>m. merge_configs example_site base_example user_example = Inr m \<and>
     dict_keys m = [''a:f'', ''a:g'', ''b:h''] \<and>
     dict_get m ''a:f'' = Some (YList [YMap [(''handler'', YStr ''h:1'')], YMap [(''handler'', YStr ''h:2'')]])"
proof -
  have run: "merge_configs example_site base_example user_example =
      Inr [(''a:f'', YList [YMap [(''handler'', YStr ''h:1'')], YMap [(''handler'', YStr ''h:2'')]]),
           (''a:g'', YList [YMap []]), (''b:h'', YList [YMap []])]"
    by code_simp
  have "dict_ok base_example" "dict_ok user_example" by code_simp+
  from merge_appends_new_handlers[OF run this] run show ?thesis by simp
qed

text \<open>
  The version filter keeps exactly the handlers whose bounds admit the framework version, in order, drops
  a symbol without any, and with \<^verbatim>\<open>strict\<close> it ends normally only if every handler is a mapping.
\<close>

theorem version_filter_keeps_matching:
  assumes "filter_config_by_version st conf (Some v) strict = Inr c" "dict_ok conf" "v \<noteq> ''''"
  shows "c = matching_config st (Some v) conf \<and> (strict \<longrightarrow> (\<forall>(path, hs) \<in> set conf. list_all is_map (as_list hs)))"
  using filter_config_spec[OF assms(1,2)] assms(3) by simp

theorem version_filter_keeps_matching_witness:
  "matching_config example_site (Some ''1'') [(''a:f'', YList [YMap [(''min_version'', YStr ''2'')], YMap [(''max_version'', YStr ''2'')], YInt 3]),
      (''a:g'', YMap [(''min_version'', YStr ''9'')])] = [(''a:f'', YList [YMap [(''max_version'', YStr ''2'')]])]"
proof -
  let ?c = "[(''a:f'', YList [YMap [(''min_version'', YStr ''2'')], YMap [(''max_version'', YStr ''2'')], YInt 3]),
      (''a:g'', YMap [(''min_version'', YStr ''9'')])]"
  have run: "filter_config_by_version example_site ?c (Some ''1'') False =
      Inr [(''a:f'', YList [YMap [(''max_version'', YStr ''2'')]])]" by code_simp
  show ?thesis using version_filter_keeps_matching[OF run] by simp
qed

text \<open>
  Property C15. After the defaults are filled in, every symbol has a list of handlers, each mapping among them has all five
  default keys and a list of metrics, a second pass changes nothing, and a handler whose metrics already are a
  list keeps its fingerprint, so that it is still the handler the merge compared.
\<close>

theorem defaults_complete_handlers:
  "(\<forall>p hs. (p, hs) \<in> set (fill_defaults conf) \<longrightarrow> (\<exists>l. hs = YList l \<and>
      (\<forall>d. YMap d \<in> set l \<longrightarrow> defaulted \<subseteq> set (dict_keys d) \<and> is_list (yget ''metrics'' d)))) \<and>
   fill_defaults (fill_defaults conf) = fill_defaults conf \<and>
   (is_list (yget_default ''metrics'' (YList []) c) \<longrightarrow>
      handler_fingerprint rt (fill_handler (YMap c)) = handler_fingerprint rt (YMap c))"
proof (intro conjI allI impI)
  fix p hs
  assume "(p, hs) \<in> set (fill_defaults conf)"
  then obtain v where hs: "hs = YList (map fill_handler (as_list v))" by (auto simp: fill_defaults_def)
  have "defaulted \<subseteq> set (dict_keys d) \<and> is_list (yget ''metrics'' d)" if "YMap d \<in> set (map fill_handler (as_list v))" for d
  proof -
    obtain h where h: "YMap d = fill_handler h" using \<open>YMap d \<in> _\<close> by auto
    then obtain e where "h = YMap e" by (cases h) auto
    with h have "d = filled e" by (simp add: fill_map(1))
    then show ?thesis using fill_map(2)[of _ e] fill_map(3)[of e] by (auto simp: dict_has_def)
  qed
  with hs show "\<exists>l. hs = YList l \<and> (\<forall>d. YMap d \<in> set l \<longrightarrow> defaulted \<subseteq> set (dict_keys d) \<and> is_list (yget ''metrics'' d))"
    by blast
next
  show "fill_defaults (fill_defaults conf) = fill_defaults conf"
    by (simp add: fill_defaults_def split_def fill_again comp_def)
next
  assume "is_list (yget_default ''metrics'' (YList []) c)"
  then show "handler_fingerprint rt (fill_handler (YMap c)) = handler_fingerprint rt (YMap c)"
    by (simp add: handler_fingerprint_def fill_map(1) fingerprint_config_def fill_identity)
qed

theorem defaults_complete_handlers_witness:
  "fill_defaults (fill_defaults user_example) = fill_defaults user_example \<and>
   handler_fingerprint example_site (fill_handler (YMap [(''handler'', YStr ''h:2'')])) =
     handler_fingerprint example_site (YMap [(''handler'', YStr ''h:2'')])"
  using defaults_complete_handlers[of user_example "[(''handler'', YStr ''h:2'')]" example_site]
  by (simp add: yget_default_def)

text \<open>
  Property C14. A successful load composes its sources: a symbol's handlers are those of the highest layer below the
  user, that is the framework configuration if it is the user's own, else the last accepted provider that configures
  the symbol (an exclusive one hides what lies under its namespace), else default and framework together; the
  environment's handlers follow, duplicates are dropped and defaults filled in. The accepted providers are some of
  the activated ones, in order.
\<close>

theorem load_composition:
  assumes site: "site_ok st" and run: "load_sources st providers default_path framework_path version is_user = Inr (conf, active)"
  shows "\<exists>default_config framework_config user_config used.
    source st version (Some default_path) = Inr default_config \<and>
    source st version (framework_source st framework_path) = Inr framework_config \<and>
    source st version (environment_path st) = Inr user_config \<and>
    subseq used (activate_providers st providers) \<and> active = map fst used \<and>
    (\<forall>p. entries_of conf p = map fill_handler (first_of_each (handler_fingerprint st)
       ((if is_user \<and> p \<in> set (dict_keys framework_config)
         then first_of_each (handler_fingerprint st) (entries_of framework_config p)
         else fold (layer st p) used
                (first_of_each (handler_fingerprint st) (entries_of default_config p @ entries_of framework_config p)))
        @ entries_of user_config p)))"
proof -
  let ?fp = "handler_fingerprint st"
  obtain d f u m0 m1 m2 m3 used where P:
    "source st version (Some default_path) = Inr d" "source st version (framework_source st framework_path) = Inr f"
    "source st version (environment_path st) = Inr u" "paths_ok d" "paths_ok f" "paths_ok u"
    "merge_configs st d f = Inr m0" "paths_ok m0"
    "subseq used (activate_providers st providers)" "active = map fst used" "paths_ok m1"
    "\<And>p. entries_of m1 p = fold (layer st p) used (entries_of m0 p)"
    "(if is_user then override_configs st m1 f else Inr m1) = Inr m2" "paths_ok m2"
    "merge_configs st m2 u = Inr m3" "conf = fill_defaults m3" "paths_ok conf"
    by (rule load_sources_parts[OF site run]) (rule that)
  have e2: "entries_of m2 p = (if is_user \<and> p \<in> set (dict_keys f) then first_of_each ?fp (entries_of f p) else entries_of m1 p)" for p
    using P(13) override_entries[of st m1 f m2 p] P(5,11) by (cases is_user) (auto simp: paths_ok_dict)
  have "entries_of conf p = map fill_handler (first_of_each ?fp (entries_of m2 p @ entries_of u p))" for p
    using merge_entries[OF P(15)] P(6,14) by (simp add: P(16) fill_entries paths_ok_dict)
  moreover have "entries_of m0 p = first_of_each ?fp (entries_of d p @ entries_of f p)" for p
    using merge_entries[OF P(7)] P(4,5) by (simp add: paths_ok_dict)
  ultimately show ?thesis
    using P(1,2,3,9,10,12) e2 by (intro exI[of _ d] exI[of _ f] exI[of _ u] exI[of _ used]) simp
qed

theorem load_composition_witness:
  "\<exists>used. subseq used (activate_providers example_site [example_provider]) \<and> map fst used = [example_provider]"
proof -
  have run: "load_sources example_site [example_provider] ''d'' (Some ''f'') None False =
     Inr ([(''vllm.a:f'', YList [default_entry ''ms_service_metric.h:one'', default_entry ''ms_service_metric.h:two'']),
           (''sglang.b:h'', YList [default_entry ''sglang.hooks:run''])], [example_provider])"
    by code_simp
  from load_composition[OF example_site_ok run] show ?thesis by auto
qed

text \<open>
  Among the providers that are activated, no symbol configured by one lies in the namespace of another,
  unless both are overlay providers; in particular an exclusive provider shares no symbol with any other.
\<close>

theorem exclusive_namespaces_disjoint:
  assumes site: "site_ok st" and ij: "i < length us" "j < length us" "i \<noteq> j" and us: "us = activate_providers st (discover loaded)"
    and excl: "ownership_mode (fst (us ! i)) = Exclusive \<or> ownership_mode (fst (us ! j)) = Exclusive"
    and p: "p \<in> set (dict_keys (snd (us ! j)))"
  shows "\<not> startswith_any p (owned_symbol_prefixes (fst (us ! i))) \<and> p \<notin> set (dict_keys (snd (us ! i)))"
proof -
  obtain a b where ab: "a \<noteq> b" "a < length (loaded_providers st (discover loaded))" "b < length (loaded_providers st (discover loaded))"
      "us ! i = loaded_providers st (discover loaded) ! a" "us ! j = loaded_providers st (discover loaded) ! b"
      "a \<notin> set (conflicting_indexes (map fst (loaded_providers st (discover loaded))))"
    using kept_pair[OF ij[unfolded us activate_providers_def Let_def]] unfolding us activate_providers_def Let_def by blast
  obtain q c where q: "us ! i = (q, c)" by (cases "us ! i")
  obtain q' c' where q': "us ! j = (q', c')" by (cases "us ! j")
  have "(q, c) \<in> set us" "(q', c') \<in> set us" using ij q q' by (metis nth_mem)+
  then have own: "r \<in> set (dict_keys c) \<Longrightarrow> startswith_any r (owned_symbol_prefixes q)"
    and own': "startswith_any p (owned_symbol_prefixes q')" for r
    using p q' provider_owns[OF site] unfolding us by auto
  have "\<not> ownership_conflict q q'"
    using ab q[symmetric] q'[symmetric] unfolding conflicting_indexes_iff by (simp add: ab(4,5)) (metis fst_conv)
  with excl q q' have "\<not> prefixes_overlap q q'" by (auto simp: ownership_conflict_def)
  then have "\<not> startswith_any p (owned_symbol_prefixes q)"
    using own' by (auto simp: prefixes_overlap_def startswith_any_def list_ex_iff dest: startswith_common)
  with own q show ?thesis by auto
qed

theorem exclusive_namespaces_disjoint_witness:
  "\<not> startswith_any ''vllm.c:k'' [''sglang.'']"
proof -
  let ?loaded = "[Some (example_raw ''a'' ''p'' ''sglang.''), None, Some (example_raw ''b'' ''q'' ''vllm.'')]"
  have us: "map (\<lambda>u. (fst u, dict_keys (snd u))) (activate_providers example_site (discover ?loaded)) =
    [(provider_of (example_raw ''a'' ''p'' ''sglang.''), [''sglang.b:h'']), (provider_of (example_raw ''b'' ''q'' ''vllm.''), [''vllm.c:k''])]"
    by code_simp
  let ?us = "activate_providers example_site (discover ?loaded)"
  have len: "length ?us = 2" using arg_cong[OF us, of length] by simp
  have at: "(fst (?us ! k), dict_keys (snd (?us ! k))) = map (\<lambda>u. (fst u, dict_keys (snd u))) ?us ! k" if "k < 2" for k
    using that len by simp
  have f: "fst (?us ! 0) = provider_of (example_raw ''a'' ''p'' ''sglang.'')" "dict_keys (snd (?us ! 1)) = [''vllm.c:k'']"
    using at[of 0] at[of 1] unfolding us by simp_all
  have m: "ownership_mode (provider_of (example_raw ''a'' ''p'' ''sglang.'')) = Exclusive"
    "owned_symbol_prefixes (provider_of (example_raw ''a'' ''p'' ''sglang.'')) = [''sglang.'']" by code_simp+
  have mem: "''vllm.c:k'' \<in> set (dict_keys (snd (?us ! 1)))" unfolding f(2) by simp
  have "ownership_mode (fst (?us ! 0)) = Exclusive \<or> ownership_mode (fst (?us ! 1)) = Exclusive" unfolding f(1) m(1) by simp
  from exclusive_namespaces_disjoint[OF example_site_ok _ _ _ refl this mem] len show ?thesis
    unfolding f(1) m(2) by simp
qed

end
