(* ===== verification/Config_Loader.thy ===== *)
theory Config_Loader
  imports Manager_Switch Config_Props
begin

text \<open>
  The configuration as the manager's loader: what \<open>SymbolHandlerManager\<close> uses of \<open>SymbolConfig\<close> and
  \<open>MetricHandler.from_config\<close>. The laws the manager relies on hold for it, so that the properties of the
  manager apply to the program as it is put together.
\<close>

definition config_loader :: "('s) site_scheme \<Rightarrow> sym_config loader" where
  "config_loader st =
     \<lparr>reload = (\<lambda>s. case reload_config st s of (Inr conf, s') \<Rightarrow> (Some conf, s') | (Inl e, s') \<Rightarrow> (None, s')),
      handler_prefixes = cfg_handler_prefixes, symbol_prefixes = cfg_symbol_prefixes, user_handler_root = cfg_handler_root,
      from_config = (\<lambda>c p pres root. map_option handler.truncate (handler_from_config st c p pres root))\<rparr>"

section \<open>Identifiers\<close>

lemma split1_append: "c \<notin> set a \<Longrightarrow> split1 c (a @ c # b) = Some (a, b)"
  by (induction a) auto

lemma rsplit1_append: "c \<notin> set b \<Longrightarrow> rsplit1 c (a @ c # b) = Some (a, b)"
  using split1_append[of c "rev b" "rev a"] by (simp add: rsplit1_def)

lemma hex_digit_in: "n < 16 \<Longrightarrow> hex_digit n \<in> set ''0123456789abcdef''"
  unfolding hex_digit_def by (rule nth_mem) simp

lemma unat_byte: "unat (b :: 8 word) < 256"
  using unsigned_less[where w = b and ?'a = nat] by simp

lemma hexdigest_digits: "set (hexdigest bs) \<subseteq> set ''0123456789abcdef''"
proof
  fix c assume "c \<in> set (hexdigest bs)"
  then have "\<exists>b \<in> set bs. c \<in> set [hex_digit (unat b div 16), hex_digit (unat b mod 16)]"
    unfolding hexdigest_def by auto
  then obtain b :: "8 word" where "c = hex_digit (unat b div 16) \<or> c = hex_digit (unat b mod 16)" by auto
  moreover have "unat b div 16 < 16" "unat b mod 16 < 16" using unat_byte[of b] by simp_all
  ultimately show "c \<in> set ''0123456789abcdef''" using hex_digit_in by metis
qed

lemma hexdigest_length: "length (hexdigest bs) = 2 * length bs"
  by (induction bs) (auto simp: hexdigest_def)

text \<open>SHA-256 gives 32 bytes.\<close>

definition hash_ok :: "('r) runtime_scheme \<Rightarrow> bool" where
  "hash_ok rt \<longleftrightarrow> (\<forall>s. length (sha256 rt s) = 32)"

lemma fingerprint_shape:
  assumes "hash_ok rt" "fingerprint_config rt c root = Some fp"
  shows "length fp = 16" "CHR '':'' \<notin> set fp"
proof -
  obtain s where fp: "fp = take 16 (hexdigest (sha256 rt s))"
    using assms(2) by (auto simp: fingerprint_config_def split: option.splits)
  show "length fp = 16" using assms(1) by (simp add: fp hexdigest_length hash_ok_def)
  have "set fp \<subseteq> set ''0123456789abcdef''" unfolding fp by (rule order_trans[OF set_take_subset hexdigest_digits])
  moreover have "CHR '':'' \<notin> set ''0123456789abcdef''" by simp
  ultimately show "CHR '':'' \<notin> set fp" by (rule contra_subsetD)
qed

text \<open>The symbol path in the id of a configured handler.\<close>

definition symbol_of_id :: "string \<Rightarrow> string" where
  "symbol_of_id hid = (case rsplit1 (CHR '':'') hid of None \<Rightarrow> [] | Some (a, _) \<Rightarrow>
     (case rsplit1 (CHR '':'') a of None \<Rightarrow> [] | Some (p, _) \<Rightarrow> p))"

lemma symbol_of_configured_id: "CHR '':'' \<notin> set fp \<Longrightarrow> symbol_of_id (p @ '':config:'' @ fp) = p"
proof -
  assume "CHR '':'' \<notin> set fp"
  then have "rsplit1 (CHR '':'') ((p @ '':config'') @ CHR '':'' # fp) = Some (p @ '':config'', fp)" by (rule rsplit1_append)
  moreover have "rsplit1 (CHR '':'') (p @ CHR '':'' # ''config'') = Some (p, ''config'')" by (rule rsplit1_append) simp
  ultimately show ?thesis by (simp add: symbol_of_id_def)
qed

text \<open>What a handler made from configuration consists of.\<close>

lemma find_function_root: "find_function rt c pres root = Some (f, r) \<Longrightarrow> r \<in> {None, root}"
  by (auto simp: find_function_def Let_def split: if_splits yaml.splits)

lemma from_config_new:
  assumes "handler_from_config rt c path pres root = Some h"
  shows "\<exists>fp fr name f metrics. fr \<in> {None, root} \<and> fingerprint_config rt c fr = Some fp \<and>
    h = new_metric_handler name path f (yget ''min_version'' c) (yget ''max_version'' c) metrics
          (yget_default ''lock_patch'' (YBool False) c) (Some fp)"
proof -
  obtain ms where ms: "iterate (yget_default ''metrics'' (YList []) c) = Some ms"
    using assms by (cases "iterate (yget_default ''metrics'' (YList []) c)") (simp_all add: handler_from_config_def)
  obtain f r where f: "find_function rt c pres root = Some (Some f, r)"
    using assms by (cases "find_function rt c pres root"; cases "fst (the (find_function rt c pres root))")
      (auto simp: handler_from_config_def ms split: option.splits)
  obtain metrics where m: "parse_metrics_config ms = Some metrics"
    using assms by (cases "parse_metrics_config ms") (simp_all add: handler_from_config_def ms f)
  obtain name where n: "resolve_handler_name c = Some name"
    using assms by (cases "resolve_handler_name c") (simp_all add: handler_from_config_def ms f m)
  obtain fp where fp: "fingerprint_config rt c r = Some fp"
    using assms by (cases "fingerprint_config rt c r") (simp_all add: handler_from_config_def ms f m n)
  have "h = new_metric_handler name path f (yget ''min_version'' c) (yget ''max_version'' c) metrics
          (yget_default ''lock_patch'' (YBool False) c) (Some fp)"
    using assms by (simp add: handler_from_config_def ms f m n fp)
  then show ?thesis using find_function_root[OF f] fp by blast
qed

lemma from_config_parts:
  assumes "handler_from_config rt c path pres root = Some h"
  obtains fp fr where "fr \<in> {None, root}" "fingerprint_config rt c fr = Some fp" "config_fingerprint h = Some fp" "handler_symbol h = path"
    "min_version h = yget ''min_version'' c" "max_version h = yget ''max_version'' c"
    "lock_patch h = yget_default ''lock_patch'' (YBool False) c"
    "handler_id h = generate_id path (Some fp) (hook_function h) (case handler_name h of YStr s \<Rightarrow> s | _ \<Rightarrow> [])"
    "handler_kind h \<noteq> None"
proof -
  obtain fp fr name f metrics where x: "fr \<in> {None, root}" "fingerprint_config rt c fr = Some fp"
    and h: "h = new_metric_handler name path f (yget ''min_version'' c) (yget ''max_version'' c) metrics
          (yget_default ''lock_patch'' (YBool False) c) (Some fp)"
    using from_config_new[OF assms] by blast
  show thesis by (rule that[OF x]) (simp_all add: h new_metric_handler_def classify_hook_func_def)
qed

lemma configured_id_of:
  assumes "hash_ok rt" "handler_from_config rt c path pres root = Some h" "path \<noteq> []"
  shows "\<exists>fp fr. fr \<in> {None, root} \<and> fingerprint_config rt c fr = Some fp \<and> config_fingerprint h = Some fp \<and>
    min_version h = yget ''min_version'' c \<and> max_version h = yget ''max_version'' c \<and>
    handler_id h = path @ '':config:'' @ fp \<and> symbol_of_id (handler_id h) = path"
proof -
  obtain fp fr f n where fr: "fr \<in> {None, root}" and fp: "fingerprint_config rt c fr = Some fp" "config_fingerprint h = Some fp"
      "min_version h = yget ''min_version'' c" "max_version h = yget ''max_version'' c"
      "handler_id h = generate_id path (Some fp) f n"
    by (rule from_config_parts[OF assms(2)]) blast
  note shape = fingerprint_shape[OF assms(1) fp(1)]
  then have "handler_id h = path @ '':config:'' @ fp"
    using fp(5) assms(3) by (cases fp) (auto simp: generate_id_def)
  then show ?thesis using fr fp shape symbol_of_configured_id by metis
qed

lemma identity_versions:
  "identity_of c fr = Some i \<Longrightarrow> id_min_version i = yget ''min_version'' c \<and> id_max_version i = yget ''max_version'' c"
  by (auto simp: identity_of_def Let_def split: option.splits)

section \<open>The laws of the loader\<close>

lemma load_sources_paths:
  assumes "site_ok st" "load_sources st providers d f v is_user = Inr (conf, active)"
  shows "paths_ok conf"
  by (rule load_sources_parts[OF assms])

lemma reload_sources:
  assumes "reload_config st s = (Inr conf, s')"
  shows "\<exists>active. load_sources st (discover_providers st s) (cfg_default_path s) (cfg_user_path s) (cfg_version s)
      (cfg_framework_is_user s) = Inr (conf, active)"
  using assms by (cases "cfg_user_path s") (auto simp: reload_config_def load_def Let_def split: sum.splits option.splits)

lemma config_loader_ok:
  assumes "site_ok st" "hash_ok st"
  shows "loader_ok symbol_of_id (config_loader st)"
proof -
  have "handler_symbol h = p \<and> symbol_of_id (handler_id h) = p"
    if f: "from_config (config_loader st) c p hp root = Some h" and p: "p \<noteq> []" for c p hp root h
  proof -
    obtain k where k: "handler_from_config st c p hp root = Some k" "h = handler.truncate k"
      using f by (auto simp: config_loader_def)
    have "handler_symbol k = p" by (rule from_config_parts[OF k(1)]) simp
    with configured_id_of[OF assms(2) k(1) p] show ?thesis by (auto simp: k(2) handler.defs)
  qed
  moreover have "[] \<notin> set (dict_keys conf)" if "reload (config_loader st) s = (Some conf, s')" for s conf s'
  proof -
    have "reload_config st s = (Inr conf, s')"
      using that by (auto simp: config_loader_def split: prod.splits sum.splits)
    then show ?thesis using reload_sources load_sources_paths[OF assms(1)] unfolding paths_ok_def by blast
  qed
  ultimately show ?thesis unfolding loader_ok_def by blast
qed

section \<open>Validated provider handlers can be built\<close>

text \<open>
  What the build relies on of code outside: \<^verbatim>\<open>json.dumps\<close> with sorted keys accepts an identity whose label
  names are strings, and the handlers of the package itself can be imported.
\<close>

definition builds_ok :: "('r) runtime_scheme \<Rightarrow> bool" where
  "builds_ok rt \<longleftrightarrow>
     (\<forall>i. (\<forall>m \<in> set (id_metrics i). \<forall>kv \<in> set (mc_labels m). is_str (fst kv)) \<longrightarrow> json_dumps rt i \<noteq> None) \<and>
     (\<forall>f \<in> set STABLE_HANDLERS. module_attr rt None ''ms_service_metric.provider_handlers'' f \<noteq> None) \<and>
     module_attr rt None ''ms_service_metric.handlers'' ''default_handler'' \<noteq> None"

lemma is_strD: "is_str v \<Longrightarrow> \<exists>s. v = YStr s"
  by (cases v) auto

lemma key_set_strings:
  "\<forall>kv \<in> set d. is_str (fst kv) \<Longrightarrow> is_str k \<Longrightarrow> \<forall>kv \<in> set (key_set k v d). is_str (fst kv)"
  by (auto simp: key_set_def)

lemma label_dict_ok:
  assumes "list_all label_ok ls" "\<forall>kv \<in> set acc. is_str (fst kv)"
  shows "\<exists>d. label_dict ls acc = Some d \<and> (\<forall>kv \<in> set d. is_str (fst kv))"
  using assms
proof (induction ls arbitrary: acc)
  case (Cons l ls)
  then obtain m where l: "l = YMap m" "is_str (yget ''name'' m)"
    by (auto simp: label_ok_def split: yaml.splits)
  then obtain s where "yget ''name'' m = YStr s" using is_strD by blast
  with l Cons.prems Cons.IH[OF _ key_set_strings[OF Cons.prems(2) l(2)]] show ?case by simp
qed simp

lemma provider_metric_parts:
  assumes "provider_metric_ok m"
  obtains d s ls where "m = YMap d" "yget ''name'' d = YStr s" "yget_default ''labels'' (YList []) d = YList ls"
    "list_all label_ok ls"
  using assms by (auto simp: provider_metric_ok_def labels_ok_def split: yaml.splits list.splits)

lemma parse_metrics_ok:
  "list_all provider_metric_ok ms \<Longrightarrow>
   \<exists>cs. parse_metrics_config ms = Some cs \<and> (\<forall>m \<in> set cs. \<forall>kv \<in> set (mc_labels m). is_str (fst kv))"
proof (induction ms)
  case (Cons m ms)
  then obtain cs where cs: "parse_metrics_config ms = Some cs" "\<forall>m \<in> set cs. \<forall>kv \<in> set (mc_labels m). is_str (fst kv)" by auto
  have "provider_metric_ok m" using Cons.prems by simp
  then obtain d s ls where m: "m = YMap d" "yget_default ''labels'' (YList []) d = YList ls" "list_all label_ok ls"
    by (rule provider_metric_parts)
  obtain ld where "label_dict ls [] = Some ld" "\<forall>kv \<in> set ld. is_str (fst kv)" using label_dict_ok[OF m(3), of "[]"] by auto
  then show ?case using cs m by (auto simp: new_metric_config_def)
qed simp

lemma metric_names_ok: "list_all provider_metric_ok ms \<Longrightarrow> metric_names ms \<noteq> None"
proof (induction ms)
  case (Cons m ms)
  have "provider_metric_ok m" using Cons.prems by simp
  then obtain d s where m: "m = YMap d" "yget ''name'' d = YStr s" by (rule provider_metric_parts)
  then have "yget_default ''name'' (YStr '''') d = YStr s"
    by (auto simp: yget_default_def yget_def split: option.splits)
  then show ?case using Cons m by auto
qed simp

text \<open>The metrics of a validated handler, once the defaults are filled in.\<close>

lemma filled_metrics:
  assumes "validate_provider_metrics (yget ''metrics'' c)"
  shows "\<exists>ms. yget_default ''metrics'' (YList []) (filled c) = YList ms \<and> list_all provider_metric_ok ms"
proof -
  have has: "dict_has ''metrics'' (filled c)" using fill_map(2)[of "''metrics''" c] by (simp add: defaulted_def)
  let ?m = "yget_default ''metrics'' (YList []) c"
  consider "is_list ?m" | d where "?m = YMap d" "provider_metric_ok (YMap d)" | "?m = YNull"
    using assms by (cases ?m) (auto simp: validate_provider_metrics_def yget_default_has provider_metric_ok_def split: if_splits)
  then show ?thesis
  proof cases
    case 1
    then obtain ms where ms: "?m = YList ms" by (cases ?m) auto
    have "list_all provider_metric_ok ms"
      using assms ms by (auto simp: validate_provider_metrics_def yget_default_has split: if_splits)
    then show ?thesis using fill_map(7)[OF 1] has ms by (simp add: yget_default_has)
  next
    case (2 d)
    then have "d \<noteq> []" by (auto simp: provider_metric_ok_def yget_def)
    then have "yget ''metrics'' (filled c) = YList [YMap d]" using 2 by (intro filled_single) simp_all
    then show ?thesis using 2 has by (simp add: yget_default_has)
  next
    case 3
    then have "yget ''metrics'' (filled c) = YList []" by (rule filled_null)
    then show ?thesis using has by (simp add: yget_default_has)
  qed
qed

lemma filled_identity:
  assumes "builds_ok rt" "validate_provider_metrics (yget ''metrics'' c)"
  shows "resolve_handler_name (filled c) \<noteq> None" "fingerprint_config rt (filled c) root \<noteq> None"
    "\<exists>ms cs. iterate (yget_default ''metrics'' (YList []) (filled c)) = Some ms \<and> parse_metrics_config ms = Some cs"
proof -
  obtain ms where ms: "yget_default ''metrics'' (YList []) (filled c) = YList ms" "list_all provider_metric_ok ms"
    using filled_metrics[OF assms(2)] by blast
  obtain cs where cs: "parse_metrics_config ms = Some cs" "\<forall>m \<in> set cs. \<forall>kv \<in> set (mc_labels m). is_str (fst kv)"
    using parse_metrics_ok[OF ms(2)] by blast
  show "\<exists>ms cs. iterate (yget_default ''metrics'' (YList []) (filled c)) = Some ms \<and> parse_metrics_config ms = Some cs"
    using ms cs by simp
  have res: "resolve_handler_name d \<noteq> None" if "yget_default ''metrics'' (YList []) d = YList ms" for d
    using metric_names_ok[OF ms(2)] by (auto simp: resolve_handler_name_def that)
  then show "resolve_handler_name (filled c) \<noteq> None" using ms(1) by blast
  have "yget_default ''metrics'' (YList []) (dict_del ''name'' (filled c)) = YList ms"
    using ms(1) by (simp add: yget_default_def)
  then obtain r where "resolve_handler_name (dict_del ''name'' (filled c)) = Some r" using res by blast
  then have "fingerprint_handler_name (filled c) \<noteq> None"
    by (simp add: fingerprint_handler_name_def Let_def)
  then obtain n where "fingerprint_handler_name (filled c) = Some n" by blast
  then obtain i where i: "identity_of (filled c) root = Some i" "id_metrics i = cs"
    using ms(1) cs(1) by (simp add: identity_of_def Let_def)
  then have "json_dumps rt i \<noteq> None" using assms(1) cs(2) unfolding builds_ok_def by blast
  then show "fingerprint_config rt (filled c) root \<noteq> None" using i(1) by (auto simp: fingerprint_config_def)
qed

lemma allowed_mono: "is_allowed_handler_module m ps \<Longrightarrow> set ps \<subseteq> set qs \<Longrightarrow> is_allowed_handler_module m qs"
  by (auto simp: is_allowed_handler_module_def startswith_any_def list_ex_iff)

lemma default_import:
  assumes "builds_ok rt"
  shows "import_handler rt default_handler_path [] None \<noteq> None"
proof -
  have "rsplit1 (CHR '':'') default_handler_path = Some (''ms_service_metric.handlers'', ''default_handler'')" by code_simp
  moreover have "is_allowed_handler_module ''ms_service_metric.handlers'' []" by code_simp
  ultimately show ?thesis using assms by (simp add: import_handler_def builds_ok_def)
qed

lemma provider_import:
  assumes "builds_ok st" "provider_handler_ok st ps (YMap c)" "set ps \<subseteq> set qs" "truthy (yget ''handler'' c)"
  shows "\<exists>s. yget ''handler'' c = YStr s \<and> s \<noteq> [] \<and> import_handler st s qs root \<noteq> None"
proof -
  obtain s m f where s: "yget ''handler'' c = YStr s" "rsplit1 (CHR '':'') s = Some (m, f)"
      "is_allowed_handler_module m ps"
      "if m = ''ms_service_metric.provider_handlers'' then f \<in> set STABLE_HANDLERS else import_handler st s ps None \<noteq> None"
    using assms(2,4) by (auto simp: provider_handler_ok_def split: yaml.splits option.splits)
  have "module_attr st None m f \<noteq> None"
  proof (cases "m = ''ms_service_metric.provider_handlers''")
    case True
    then show ?thesis using s(4) assms(1) unfolding builds_ok_def by simp
  next
    case False
    then show ?thesis using s by (simp add: import_handler_def)
  qed
  then have "import_handler st s qs root \<noteq> None"
    using s(2) allowed_mono[OF s(3) assms(3)] by (simp add: import_handler_def)
  with s(1) assms(4) show ?thesis by auto
qed

lemma provider_builds:
  assumes b: "builds_ok st" and h: "provider_handler_ok st ps (YMap c)" and qs: "set ps \<subseteq> set qs"
  shows "handler_from_config st (filled c) p qs root \<noteq> None"
proof -
  have m: "validate_provider_metrics (yget ''metrics'' c)" using h by (simp add: provider_handler_ok_def)
  have g: "yget ''handler'' (filled c) = yget ''handler'' c" by (simp add: fill_map(5) defaulted_def)
  obtain ms cs n where id: "iterate (yget_default ''metrics'' (YList []) (filled c)) = Some ms"
      "parse_metrics_config ms = Some cs" "resolve_handler_name (filled c) = Some n"
    using filled_identity[OF b m] by blast
  have "\<forall>r. \<exists>fp. fingerprint_config st (filled c) r = Some fp" using filled_identity(2)[OF b m] by blast
  then obtain F where fp: "fingerprint_config st (filled c) r = Some (F r)" for r by metis
  have "\<exists>f r. find_function st (filled c) qs root = Some (Some f, r)"
  proof (cases "truthy (yget ''handler'' c)")
    case True
    then show ?thesis using provider_import[OF b h qs True, of root] by (auto simp: find_function_def g Let_def)
  next
    case False
    then show ?thesis using default_import[OF b] by (auto simp: find_function_def g)
  qed
  then show ?thesis using id by (auto simp: handler_from_config_def fp)
qed

section \<open>Properties\<close>

text \<open>
  A provider that passed its validation cannot make the manager's build fail: every handler of its
  configuration, with the defaults filled in and under any larger set of allowed prefixes, gives a handler.
\<close>

theorem provider_handlers_build:
  assumes "load_provider st q = Inr conf" "builds_ok st" "site_ok st"
    and "(p, hs) \<in> set conf" "h \<in> set (as_list hs)" "set (handler_module_prefixes q) \<subseteq> set allowed"
  shows "\<exists>c. fill_handler h = YMap c \<and> handler_from_config st c p allowed root \<noteq> None"
proof -
  have "validate_provider_config st q conf" by (rule load_provider_ok(2)[OF assms(3,1)])
  then have h: "provider_handler_ok st (handler_module_prefixes q) h"
    using assms(4,5) by (auto simp: validate_provider_config_def list_all_iff)
  then obtain c where "h = YMap c" by (auto simp: provider_handler_ok_def split: yaml.splits)
  then show ?thesis using provider_builds[OF assms(2) _ assms(6)] h by (auto simp: fill_map(1))
qed

theorem provider_handlers_build_witness:
  "\<exists>c. fill_handler (YMap [(''metrics'', YList [YMap [(''name'', YStr ''m'')]])]) = YMap c \<and>
     handler_from_config (example_site\<lparr>json_dumps := (\<lambda>_. Some ''i'')\<rparr>) c ''vllm.c:k'' [''vllm.'', ''sglang.''] None \<noteq> None"
proof -
  let ?st = "example_site\<lparr>json_dumps := (\<lambda>_. Some ''i'')\<rparr>"
  have run: "load_provider ?st (provider_of (example_raw ''b'' ''q'' ''vllm.'')) =
      Inr [(''vllm.c:k'', YList [YMap [(''metrics'', YList [YMap [(''name'', YStr ''m'')]])]])]" by code_simp
  have site: "site_ok ?st" using example_site_ok by (simp add: site_ok_def)
  have "builds_ok ?st" by (simp add: builds_ok_def example_site_def)
  moreover have "handler_module_prefixes (provider_of (example_raw ''b'' ''q'' ''vllm.'')) = [''vllm.'']" by code_simp
  ultimately show ?thesis
    using provider_handlers_build[OF run _ site, of "''vllm.c:k''" _ _ "[''vllm.'', ''sglang.'']" None] by simp
qed

text \<open>
  With configured handlers the update step of the reconciliation never changes anything: the id of such a
  handler contains the fingerprint of its whole configuration, so a handler that is registered under the same id is
  equal to it (unless two different identities have the same digest), and a changed configuration is a new handler.
\<close>

theorem configured_update_is_dead:
  assumes h: "handler_from_config st c p pres root = Some h" "handler_from_config st c' p' pres' root' = Some h'" "p \<noteq> []" "p' \<noteq> []"
    and hash: "hash_ok st"
    and digest: "\<And>fr fr' i j. fr \<in> {None, root} \<Longrightarrow> fr' \<in> {None, root'} \<Longrightarrow> identity_of c fr = Some i \<Longrightarrow> identity_of c' fr' = Some j \<Longrightarrow>
      fingerprint_config st c fr = fingerprint_config st c' fr' \<Longrightarrow> i = j"
    and reg: "handler_id h = handler_id h'" "dict_get (handlers w) (handler_id h') = Some (handler.truncate h)"
  shows "p = p' \<and> update_if_changed (handler.truncate h') w = w"
proof -
  obtain fp fr where fr: "fr \<in> {None, root}" and f: "fingerprint_config st c fr = Some fp" "config_fingerprint h = Some fp"
      "min_version h = yget ''min_version'' c" "max_version h = yget ''max_version'' c"
      and id: "handler_id h = p @ '':config:'' @ fp" "symbol_of_id (handler_id h) = p"
    using configured_id_of[OF hash h(1,3)] by blast
  obtain fp' fr' where fr': "fr' \<in> {None, root'}" and f': "fingerprint_config st c' fr' = Some fp'" "config_fingerprint h' = Some fp'"
      "min_version h' = yget ''min_version'' c'" "max_version h' = yget ''max_version'' c'"
      and id': "handler_id h' = p' @ '':config:'' @ fp'" "symbol_of_id (handler_id h') = p'"
    using configured_id_of[OF hash h(2,4)] by blast
  have p: "p = p'" using id id' reg(1) by simp
  then have fp: "fp = fp'" using id id' reg(1) by simp
  obtain i where i: "identity_of c fr = Some i" using f(1) by (auto simp: fingerprint_config_def split: option.splits)
  obtain j where j: "identity_of c' fr' = Some j" using f'(1) by (auto simp: fingerprint_config_def split: option.splits)
  have "i = j" using digest[OF fr fr' i j] f(1) f'(1) fp by simp
  then have "yget ''min_version'' c = yget ''min_version'' c'" "yget ''max_version'' c = yget ''max_version'' c'"
    using identity_versions[OF i] identity_versions[OF j] by simp_all
  then have "handler_equals (handler.truncate h) (handler.truncate h')"
    using f f' fp reg(1) by (simp add: handler_equals_def handler.defs)
  then show ?thesis using p reg by (simp add: update_if_changed_def handler.defs)
qed

definition example_hash_site :: site where
  "example_hash_site = example_site\<lparr>sha256 := (\<lambda>s. word_of_nat (length s) # replicate 31 0)\<rparr>"

lemma example_hash_ok: "hash_ok example_hash_site"
  by (simp add: hash_ok_def example_hash_site_def example_site_def)

lemma example_hash_site_ok: "site_ok example_hash_site"
  using example_site_ok by (simp add: site_ok_def example_hash_site_def)

definition example_entry :: ymap where
  "example_entry = [(''handler'', YStr ''ms_service_metric.h:one''), (''min_version'', YStr ''1'')]"

theorem configured_update_is_dead_witness:
  "\<exists>h. handler_from_config example_hash_site example_entry ''vllm.a:f'' [] None = Some h \<and>
     update_if_changed (handler.truncate h) ((empty_world 0)\<lparr>handlers := [(handler_id h, handler.truncate h)]\<rparr>) =
       (empty_world (0::nat))\<lparr>handlers := [(handler_id h, handler.truncate h)]\<rparr>"
proof -
  have "handler_from_config example_hash_site example_entry ''vllm.a:f'' [] None \<noteq> None" by code_simp
  then obtain h where h: "handler_from_config example_hash_site example_entry ''vllm.a:f'' [] None = Some h" by blast
  let ?w = "(empty_world (0::nat))\<lparr>handlers := [(handler_id h, handler.truncate h)]\<rparr>"
  have "update_if_changed (handler.truncate h) ?w = ?w"
    using configured_update_is_dead[OF h h _ _ example_hash_ok, of ?w] by simp
  with h show ?thesis by blast
qed

section \<open>What a start registers\<close>

lemma build_handlers_ids:
  "build_handlers mk path cs acc = Some d \<Longrightarrow>
   (dict_get d hid \<noteq> None \<longleftrightarrow> dict_get acc hid \<noteq> None \<or> (\<exists>c h. YMap c \<in> set cs \<and> mk c path = Some h \<and> handler_id h = hid))"
proof (induction cs arbitrary: acc)
  case (Cons y cs)
  then obtain c h where c: "y = YMap c" "mk c path = Some h" by (cases y) (auto split: option.splits)
  let ?acc = "if dict_has (handler_id h) acc then acc else dict_set (handler_id h) h acc"
  have "build_handlers mk path cs ?acc = Some d" using Cons.prems c by simp
  moreover have "dict_get ?acc hid \<noteq> None \<longleftrightarrow> dict_get acc hid \<noteq> None \<or> hid = handler_id h" by (auto simp: dict_has_iff)
  ultimately show ?case using Cons.IH[of ?acc] c by auto
qed simp

lemma build_target_ids:
  "build_target_handlers mk conf acc = Some d \<Longrightarrow>
   (dict_get d hid \<noteq> None \<longleftrightarrow> dict_get acc hid \<noteq> None \<or>
      (\<exists>p cs c h. (p, YList cs) \<in> set conf \<and> YMap c \<in> set cs \<and> mk c p = Some h \<and> handler_id h = hid))"
proof (induction conf arbitrary: acc)
  case (Cons pv conf)
  then obtain p cs where pv: "pv = (p, YList cs)" by (cases pv; cases "snd pv") auto
  then obtain acc' where acc': "build_handlers mk p cs acc = Some acc'" "build_target_handlers mk conf acc' = Some d"
    using Cons.prems by (auto split: option.splits)
  show ?case unfolding Cons.IH[OF acc'(2)] build_handlers_ids[OF acc'(1)] by (simp add: pv) blast
qed simp

lemma dict_member:
  assumes "d \<noteq> []"
  obtains k v where "dict_get d k = Some v"
proof (cases d)
  case (Cons e es)
  then have "dict_get d (fst e) = Some (snd e)" by (cases e) simp
  then show thesis by (rule that)
qed (use assms in simp)

lemma registered_has_handler:
  assumes "reg_ok w" "dict_get (symbols w) p \<noteq> None"
  shows "\<exists>hid h. dict_get (handlers w) hid = Some h \<and> handler_symbol h = p"
proof -
  obtain i where i: "dict_get (symbols w) p = Some i" using assms(2) by blast
  note s = reg_symbol(3,5)[OF assms(1) i]
  from s(1) obtain hid h where "dict_get (sym_handlers (symbol_heap w i)) hid = Some h" by (rule dict_member)
  then show ?thesis using s(2) by (auto simp: of_symbol_def split: option.splits if_splits)
qed

text \<open>
  Property C13. A first start of metrics with the configuration of the program, when it ends normally: the ids in the registry of handlers are
  exactly those of the handlers that the loaded configuration describes, made from symbol path and fingerprint, and the symbols in
  the registry of symbols are exactly those for which it describes a handler. Conditions: the registry is empty and the manager
  disabled before, hooks can be built and installed, no file configures a key twice or an empty path,
  and SHA-256 gives 32 bytes.
\<close>

theorem configured_handlers_registered:
  assumes wf: "wf_world symbol_of_id w" and e: "env_ok e" and site: "site_ok st" "hash_ok st"
    and fresh: "handlers w = []" "\<not> enabled w"
    and run: "on_control_state_change (config_loader st) e last_ts True ts w = (None, w')"
  shows "\<exists>conf. reload_config st (config w) = (Inr conf, config w') \<and> enabled w' \<and>
    (\<forall>hid. dict_get (handlers w') hid \<noteq> None \<longleftrightarrow>
       (\<exists>p cs c h. (p, YList cs) \<in> set conf \<and> YMap c \<in> set cs \<and>
          handler_from_config st c p (cfg_handler_prefixes (config w')) (cfg_handler_root (config w')) = Some h \<and> handler_id h = hid)) \<and>
    (\<forall>p. dict_get (symbols w') p \<noteq> None \<longleftrightarrow>
       (\<exists>cs c h. (p, YList cs) \<in> set conf \<and> YMap c \<in> set cs \<and>
          handler_from_config st c p (cfg_handler_prefixes (config w')) (cfg_handler_root (config w')) = Some h))"
proof -
  let ?ld = "config_loader st"
  note ld = config_loader_ok[OF site]
  obtain conf cfg target where P: "reload ?ld (config w) = (Some conf, cfg)"
      "build_target_handlers (make_handler ?ld cfg) conf [] = Some target" "enabled w'" "config w' = cfg"
      "dict_get (handlers w') = reconciled [] target"
    using started_with[OF wf e ld run] fresh by auto
  have wf': "wf_world symbol_of_id w'" by (rule control_wf[OF wf e ld run])
  have conf: "reload_config st (config w) = (Inr conf, cfg)"
    using P(1) by (auto simp: config_loader_def split: prod.splits sum.splits)
  then have nonempty: "p \<noteq> []" if "(p, v) \<in> set conf" for p v
    using reload_sources load_sources_paths[OF site(1)] that unfolding paths_ok_def by force
  have mk: "make_handler ?ld cfg c p = map_option handler.truncate
      (handler_from_config st c p (cfg_handler_prefixes cfg) (cfg_handler_root cfg))" for c p
    by (simp add: make_handler_def config_loader_def)
  have sym: "dict_get (symbols w') p \<noteq> None"
    if "handler_from_config st c p pres root = Some h" "p \<noteq> []" "dict_get (handlers w') (handler_id h) \<noteq> None" for c p h pres root
  proof -
    obtain k where k: "dict_get (handlers w') (handler_id h) = Some k" using \<open>dict_get (handlers w') _ \<noteq> None\<close> by blast
    have "handler_symbol k = symbol_of_id (handler_id h)" using wf' k by (auto simp: wf_world_def ids_ok_def)
    also have "\<dots> = p" using configured_id_of[OF site(2) that(1,2)] by blast
    finally show ?thesis using wf' k reg_handler[of w' "handler_id h" k] by (auto simp: wf_world_def)
  qed
  have "dict_get (handlers w') hid \<noteq> None \<longleftrightarrow> dict_get target hid \<noteq> None" for hid
    by (simp add: P(5) reconciled_def split: option.split)
  also have "\<And>hid. dict_get target hid \<noteq> None \<longleftrightarrow> (\<exists>p cs c h. (p, YList cs) \<in> set conf \<and> YMap c \<in> set cs \<and>
      handler_from_config st c p (cfg_handler_prefixes cfg) (cfg_handler_root cfg) = Some h \<and> handler_id h = hid)"
    unfolding build_target_ids[OF P(2)] mk by (fastforce simp: handler.defs)
  finally have ids: "dict_get (handlers w') hid \<noteq> None \<longleftrightarrow> (\<exists>p cs c h. (p, YList cs) \<in> set conf \<and> YMap c \<in> set cs \<and>
      handler_from_config st c p (cfg_handler_prefixes cfg) (cfg_handler_root cfg) = Some h \<and> handler_id h = hid)" for hid .
  have syms: "dict_get (symbols w') p \<noteq> None \<longleftrightarrow> (\<exists>cs c h. (p, YList cs) \<in> set conf \<and> YMap c \<in> set cs \<and>
      handler_from_config st c p (cfg_handler_prefixes cfg) (cfg_handler_root cfg) = Some h)" for p
  proof
    assume "dict_get (symbols w') p \<noteq> None"
    then obtain hid k where k: "dict_get (handlers w') hid = Some k" "handler_symbol k = p"
      using wf' registered_has_handler[of w' p] by (auto simp: wf_world_def)
    then obtain q cs c h where q: "(q, YList cs) \<in> set conf" "YMap c \<in> set cs"
      "handler_from_config st c q (cfg_handler_prefixes cfg) (cfg_handler_root cfg) = Some h" "handler_id h = hid"
      using ids[of hid] by auto
    have "p = symbol_of_id hid" using wf' k by (auto simp: wf_world_def ids_ok_def)
    also have "\<dots> = q" using configured_id_of[OF site(2) q(3) nonempty[OF q(1)]] q(4) by blast
    finally show "\<exists>cs c h. (p, YList cs) \<in> set conf \<and> YMap c \<in> set cs \<and>
      handler_from_config st c p (cfg_handler_prefixes cfg) (cfg_handler_root cfg) = Some h" using q by blast
  next
    assume "\<exists>cs c h. (p, YList cs) \<in> set conf \<and> YMap c \<in> set cs \<and>
      handler_from_config st c p (cfg_handler_prefixes cfg) (cfg_handler_root cfg) = Some h"
    then obtain cs c h where c: "(p, YList cs) \<in> set conf" "YMap c \<in> set cs"
      "handler_from_config st c p (cfg_handler_prefixes cfg) (cfg_handler_root cfg) = Some h" by blast
    then have "dict_get (handlers w') (handler_id h) \<noteq> None" using ids by blast
    then show "dict_get (symbols w') p \<noteq> None" by (rule sym[OF c(3) nonempty[OF c(1)]])
  qed
  show ?thesis
    by (rule exI[of _ conf]) (use conf P(3,4) ids syms in \<open>simp add: P(4)\<close>)
qed

definition example_config :: sym_config where
  "example_config = \<lparr>cfg_config = [], cfg_version = None, cfg_user_path = Some ''f'', cfg_default_path = ''d'',
     cfg_framework_is_user = False, cfg_handler_root = None, cfg_handler_prefixes = [], cfg_symbol_prefixes = [],
     cfg_active = [], cfg_registry = True\<rparr>"

definition example_configured :: "sym_config world" where
  "example_configured = snd (on_control_state_change (config_loader example_hash_site) example_env 0 True 5 (empty_world example_config))"

theorem configured_handlers_registered_witness:
  "\<exists>conf. reload_config example_hash_site example_config = (Inr conf, config example_configured) \<and>
    (\<exists>p cs c h. (p, YList cs) \<in> set conf \<and> YMap c \<in> set cs \<and> handler_from_config example_hash_site c p
        (cfg_handler_prefixes (config example_configured)) (cfg_handler_root (config example_configured)) = Some h \<and>
       dict_get (handlers example_configured) (handler_id h) \<noteq> None \<and> dict_get (symbols example_configured) p \<noteq> None)"
proof -
  let ?r = "on_control_state_change (config_loader example_hash_site) example_env 0 True 5 (empty_world example_config)"
  have "fst ?r = None" by code_simp
  then have run: "?r = (None, example_configured)" by (simp add: example_configured_def prod_eq_iff)
  have "handlers (empty_world example_config) = []" "\<not> enabled (empty_world example_config)" "config (empty_world example_config) = example_config"
    by (simp_all add: empty_world_def)
  from configured_handlers_registered[OF empty_world_wf example_env_ok example_hash_site_ok example_hash_ok this(1,2) run]
  obtain conf where conf: "reload_config example_hash_site (config (empty_world example_config)) = (Inr conf, config example_configured)"
    and ids: "\<And>hid. dict_get (handlers example_configured) hid \<noteq> None \<Longrightarrow>
      \<exists>p cs c h. (p, YList cs) \<in> set conf \<and> YMap c \<in> set cs \<and> handler_from_config example_hash_site c p
        (cfg_handler_prefixes (config example_configured)) (cfg_handler_root (config example_configured)) = Some h \<and> handler_id h = hid"
    and syms: "\<And>p cs c h. (p, YList cs) \<in> set conf \<Longrightarrow> YMap c \<in> set cs \<Longrightarrow> handler_from_config example_hash_site c p
        (cfg_handler_prefixes (config example_configured)) (cfg_handler_root (config example_configured)) = Some h \<Longrightarrow>
      dict_get (symbols example_configured) p \<noteq> None" by (elim exE conjE) (rule that, assumption, blast+)
  have "handlers example_configured \<noteq> []" by code_simp
  then obtain hid h where "dict_get (handlers example_configured) hid = Some h" by (rule dict_member)
  then have some: "dict_get (handlers example_configured) hid \<noteq> None" by simp
  obtain p cs c k where k: "(p, YList cs) \<in> set conf" "YMap c \<in> set cs" "handler_from_config example_hash_site c p
        (cfg_handler_prefixes (config example_configured)) (cfg_handler_root (config example_configured)) = Some k" "handler_id k = hid"
    using ids[OF some] by (elim exE conjE)
  have "reload_config example_hash_site example_config = (Inr conf, config example_configured)" using conf by (simp add: empty_world_def)
  then show ?thesis
    by (intro exI[of _ conf] conjI exI[of _ p] exI[of _ cs] exI[of _ c] exI[of _ k]) (use k some syms[OF k(1-3)] in simp_all)
qed

end
