(* ===== verification/Task_Dag.thy ===== *)
theory Task_Dag
  imports Prelude
begin

text \<open>
  The dependency graph of the parsing tasks: \<^verbatim>\<open>ms_service_profiler/task/task_register.py\<close>.

  Every task declares the data it depends on and the data it outputs; a task that depends on exactly
  \<^verbatim>\<open>["prof_path"]\<close> is a data source. \<open>get_dag\<close> walks back from the exporters, \<open>get_task_run_order\<close> orders the tasks
  found, \<open>filter_dag\<close> cuts the graph down to what one data source reaches.

  The loop of \<open>get_task_run_order\<close> need not end: \<open>None\<close> is a run that does not return. A set of Python has no fixed
  iteration order; the order in which the data sources are listed is the parameter \<open>order\<close>.
\<close>

section \<open>Registration\<close>

record reg =
  data_depends :: "string list"
  data_outputs :: "string list"

type_synonym regs = "(string, reg) dict"

definition register :: "string \<Rightarrow> string list \<Rightarrow> string list \<Rightarrow> regs \<Rightarrow> regs" where
  "register task_name depends outputs regist_map =
     dict_set task_name \<lparr>data_depends = depends, data_outputs = outputs\<rparr> regist_map"

section \<open>Data flow\<close>

record data_edge =
  from_task :: "string list"
  to_task :: "string list"

record task_edge =
  prev_task :: "string list"
  next_task :: "string list"

text \<open>\<^verbatim>\<open>d.setdefault(k, new)\<close> followed by an update of the entry.\<close>

definition upd_default :: "'v \<Rightarrow> 'k \<Rightarrow> ('v \<Rightarrow> 'v) \<Rightarrow> ('k, 'v) dict \<Rightarrow> ('k, 'v) dict" where
  "upd_default new k f d = dict_set k (f (case dict_get d k of None \<Rightarrow> new | Some v \<Rightarrow> v)) d"

abbreviation no_data :: data_edge where "no_data \<equiv> \<lparr>from_task = [], to_task = []\<rparr>"

abbreviation no_task :: task_edge where "no_task \<equiv> \<lparr>prev_task = [], next_task = []\<rparr>"

definition add_task_data :: "string \<times> reg \<Rightarrow> (string, data_edge) dict \<Rightarrow> (string, data_edge) dict" where
  "add_task_data entry flow = (case entry of (task_name, r) \<Rightarrow>
     fold (\<lambda>d. upd_default no_data d (\<lambda>e. e\<lparr>to_task := to_task e @ [task_name]\<rparr>)) (data_depends r)
       (fold (\<lambda>d. upd_default no_data d (\<lambda>e. e\<lparr>from_task := from_task e @ [task_name]\<rparr>)) (data_outputs r) flow))"

definition get_data_dag :: "regs \<Rightarrow> (string, data_edge) dict \<times> string list" where
  "get_data_dag regs = (fold add_task_data regs [],
     map fst (filter (\<lambda>(task_name, r). data_depends r = [''prof_path'']) regs))"

definition get_from_task_names :: "string \<Rightarrow> (string, data_edge) dict \<Rightarrow> string list" where
  "get_from_task_names d flow = (case dict_get flow d of None \<Rightarrow> [] | Some e \<Rightarrow> from_task e)"

definition get_to_task_names :: "string \<Rightarrow> (string, data_edge) dict \<Rightarrow> string list" where
  "get_to_task_names d flow = (case dict_get flow d of None \<Rightarrow> [] | Some e \<Rightarrow> to_task e)"

section \<open>Task flow\<close>

type_synonym task_flow = "(string, task_edge) dict"

definition get_prev_task_names :: "task_flow \<Rightarrow> string \<Rightarrow> string list" where
  "get_prev_task_names flow t = (case dict_get flow t of None \<Rightarrow> [] | Some e \<Rightarrow> prev_task e)"

definition get_next_task_names :: "task_flow \<Rightarrow> string \<Rightarrow> string list" where
  "get_next_task_names flow t = (case dict_get flow t of None \<Rightarrow> [] | Some e \<Rightarrow> next_task e)"

text \<open>One round of the inner loop of \<open>get_dag\<close>: an edge from a predecessor, and the predecessor becomes a task to walk.\<close>

definition link_prev :: "string \<Rightarrow> string \<Rightarrow> task_flow \<times> string list \<Rightarrow> task_flow \<times> string list" where
  "link_prev t p acc = (case acc of (flow, tasks) \<Rightarrow>
     (upd_default no_task p (\<lambda>e. e\<lparr>next_task := next_task e @ [t]\<rparr>)
        (upd_default no_task t (\<lambda>e. e\<lparr>prev_task := prev_task e @ [p]\<rparr>) flow),
      if p \<in> set tasks then tasks else tasks @ [p]))"

text \<open>The tasks whose output is a dependency of the task.\<close>

definition producers :: "regs \<Rightarrow> reg \<Rightarrow> string list" where
  "producers regs r = concat (map (\<lambda>d. get_from_task_names d (fst (get_data_dag regs))) (data_depends r))"

definition visit_task :: "regs \<Rightarrow> string \<Rightarrow> reg \<Rightarrow> task_flow \<times> string list \<Rightarrow> task_flow \<times> string list" where
  "visit_task regs t r acc = fold (link_prev t) (producers regs r) (upd_default no_task t id (fst acc), snd acc)"

lemma get_from_add:
  "set (get_from_task_names d (add_task_data (t, r) flow)) =
     set (get_from_task_names d flow) \<union> (if d \<in> set (data_outputs r) then {t} else {})"
proof -
  have to: "get_from_task_names d (fold (\<lambda>d. upd_default no_data d (\<lambda>e. e\<lparr>to_task := to_task e @ [t]\<rparr>)) ds flow) =
      get_from_task_names d flow" for ds flow
    by (induction ds arbitrary: flow) (auto simp: get_from_task_names_def upd_default_def split: option.split)
  have "set (get_from_task_names d (fold (\<lambda>d. upd_default no_data d (\<lambda>e. e\<lparr>from_task := from_task e @ [t]\<rparr>)) ds flow)) =
      set (get_from_task_names d flow) \<union> (if d \<in> set ds then {t} else {})" for ds flow
  proof (induction ds arbitrary: flow)
    case (Cons x xs)
    have "set (get_from_task_names d (upd_default no_data x (\<lambda>e. e\<lparr>from_task := from_task e @ [t]\<rparr>) flow)) =
        set (get_from_task_names d flow) \<union> (if d = x then {t} else {})"
      by (auto simp: get_from_task_names_def upd_default_def split: option.split)
    then show ?case using Cons by auto
  qed simp
  then show ?thesis by (simp add: add_task_data_def to)
qed

lemma from_task_names_set:
  "set (get_from_task_names d (fst (get_data_dag regs))) = {t. \<exists>r. (t, r) \<in> set regs \<and> d \<in> set (data_outputs r)}"
proof -
  have "set (get_from_task_names d (fold add_task_data rs flow)) =
      set (get_from_task_names d flow) \<union> {t. \<exists>r. (t, r) \<in> set rs \<and> d \<in> set (data_outputs r)}" for rs flow
  proof (induction rs arbitrary: flow)
    case (Cons x rs)
    obtain t r where x: "x = (t, r)" by (cases x)
    have "set (get_from_task_names d (fold add_task_data (x # rs) flow)) =
        set (get_from_task_names d (add_task_data (t, r) flow)) \<union> {t. \<exists>r. (t, r) \<in> set rs \<and> d \<in> set (data_outputs r)}"
      using Cons x by simp
    then show ?case by (auto simp: get_from_add x)
  qed simp
  then show ?thesis by (simp add: get_data_dag_def get_from_task_names_def)
qed

lemma producers_set:
  "set (producers regs r) = {t. \<exists>q d. (t, q) \<in> set regs \<and> d \<in> set (data_depends r) \<and> d \<in> set (data_outputs q)}"
  by (auto simp: producers_def from_task_names_set)

lemma producers_registered: "set (producers regs r) \<subseteq> set (dict_keys regs)"
  by (force simp: producers_set)

text \<open>The names a visit adds are new and registered.\<close>

lemma visit_tasks: "snd (visit_task regs t r (flow, tasks)) = fold (\<lambda>p ts. if p \<in> set ts then ts else ts @ [p]) (producers regs r) tasks"
proof -
  have "snd (fold (link_prev t) ps (flow, tasks)) = fold (\<lambda>p ts. if p \<in> set ts then ts else ts @ [p]) ps tasks" for ps flow
    by (induction ps arbitrary: flow tasks) (simp_all add: link_prev_def)
  then show ?thesis by (simp add: visit_task_def)
qed

lemma fold_new_names:
  "\<exists>new. fold (\<lambda>p ts. if p \<in> set ts then ts else ts @ [p]) ps ts = ts @ new \<and> set new = set ps - set ts \<and> distinct new"
proof (induction ps arbitrary: ts)
  case (Cons p ps)
  let ?ts = "if p \<in> set ts then ts else ts @ [p]"
  obtain new where new: "fold (\<lambda>p ts. if p \<in> set ts then ts else ts @ [p]) ps ?ts = ?ts @ new"
      "set new = set ps - set ?ts" "distinct new"
    using Cons by blast
  show ?case
  proof (cases "p \<in> set ts")
    case True
    then show ?thesis using new by (intro exI[of _ new]) auto
  next
    case False
    then show ?thesis using new by (intro exI[of _ "p # new"]) auto
  qed
qed simp

lemma visit_new_names:
  "\<exists>new. snd (visit_task regs t r (flow, tasks)) = tasks @ new \<and> set new = set (producers regs r) - set tasks \<and> distinct new"
  unfolding visit_tasks by (rule fold_new_names)

text \<open>The walk of \<open>get_dag\<close>; a task that is not registered is an \<^verbatim>\<open>AttributeError\<close>, here \<open>None\<close>.\<close>

function walk_tasks :: "regs \<Rightarrow> nat \<Rightarrow> string list \<Rightarrow> task_flow \<Rightarrow> string list \<Rightarrow> (task_flow \<times> string list) option" where
  "walk_tasks regs i tasks flow heads =
     (if i < length tasks
      then (case dict_get regs (tasks ! i) of
              None \<Rightarrow> None
            | Some r \<Rightarrow>
                (case visit_task regs (tasks ! i) r (flow, tasks) of (flow', tasks') \<Rightarrow>
                   walk_tasks regs (Suc i) tasks' flow'
                     (if data_depends r = [''prof_path''] \<and> tasks ! i \<notin> set heads then heads @ [tasks ! i] else heads)))
      else Some (flow, heads))"
  by pat_completeness auto

termination walk_tasks
proof (relation "measures [\<lambda>(regs, i, tasks, flow, heads). card (set (dict_keys regs) - set tasks),
    \<lambda>(regs, i, tasks, flow, heads). length tasks - i]")
  fix regs :: regs and i :: nat and tasks :: "string list" and flow :: task_flow and heads :: "string list" and r flow' tasks'
  assume i: "i < length tasks" and x: "(flow', tasks') = visit_task regs (tasks ! i) r (flow, tasks)"
  obtain new where new: "tasks' = tasks @ new" "set new = set (producers regs r) - set tasks"
    using visit_new_names[of regs "tasks ! i" r flow tasks] x by (metis snd_conv)
  show "((regs, Suc i, tasks', flow', if data_depends r = [''prof_path''] \<and> tasks ! i \<notin> set heads then heads @ [tasks ! i] else heads),
      regs, i, tasks, flow, heads) \<in> measures [\<lambda>(regs, i, tasks, flow, heads). card (set (dict_keys regs) - set tasks),
        \<lambda>(regs, i, tasks, flow, heads). length tasks - i]"
  proof (cases "new = []")
    case True
    then show ?thesis using i new by simp
  next
    case False
    then have "set (dict_keys regs) - set tasks' \<subset> set (dict_keys regs) - set tasks"
      using new producers_registered[of regs r] by (cases new) auto
    then have "card (set (dict_keys regs) - set tasks') < card (set (dict_keys regs) - set tasks)"
      by (intro psubset_card_mono) auto
    then show ?thesis by simp
  qed
qed simp

declare walk_tasks.simps [simp del]

section \<open>Running order\<close>

text \<open>The set of tasks that are done has the same elements as the list of ordered tasks.\<close>

partial_function (option) run_loop :: "task_flow \<Rightarrow> string list \<Rightarrow> string list \<Rightarrow> string list option" where
  "run_loop flow walking_queue ordered =
     (case walking_queue of
        [] \<Rightarrow> Some ordered
      | t # q \<Rightarrow>
          (if t \<in> set ordered then run_loop flow q ordered
           else if list_all (\<lambda>p. p \<in> set ordered) (get_prev_task_names flow t)
           then run_loop flow (q @ get_next_task_names flow t) (ordered @ [t])
           else run_loop flow (q @ [t]) ordered))"

declare run_loop.simps [code]

definition get_task_run_order :: "string list \<Rightarrow> task_flow \<Rightarrow> string list option" where
  "get_task_run_order head_tasks flow = run_loop flow head_tasks []"

record task_dag =
  dag_data_flow :: "(string, data_edge) dict"
  dag_task_flow :: task_flow
  head_tasks_name :: "string list"
  ordered_tasks_name :: "string list"

datatype dag_error = NotRegistered

definition get_dag :: "regs \<Rightarrow> (string list \<Rightarrow> string list) \<Rightarrow> string list \<Rightarrow> (dag_error + task_dag) option" where
  "get_dag regs order exporter_names =
     (case walk_tasks regs 0 exporter_names [] [] of
        None \<Rightarrow> Some (Inl NotRegistered)
      | Some (flow, heads) \<Rightarrow>
          map_option (\<lambda>ordered. Inr \<lparr>dag_data_flow = fst (get_data_dag regs), dag_task_flow = flow,
              head_tasks_name = order heads, ordered_tasks_name = ordered\<rparr>)
            (get_task_run_order (order heads) flow))"

text \<open>\<open>get_ordered_task_names\<close>: every task with its successor in the order.\<close>

definition get_ordered_task_names :: "string list \<Rightarrow> (string \<times> string option) list" where
  "get_ordered_task_names ordered =
     map (\<lambda>i. (ordered ! i, if i + 1 < length ordered then Some (ordered ! (i + 1)) else None)) [0..<length ordered]"

section \<open>Restriction to one data source\<close>

definition new_next :: "task_flow \<Rightarrow> string \<Rightarrow> string list \<Rightarrow> string list" where
  "new_next flow t walk = fold (\<lambda>n ws. if n \<in> set ws then ws else ws @ [n]) (get_next_task_names flow t) walk"

lemma next_names_finite: "finite (\<Union>t. set (get_next_task_names flow t))"
proof -
  have "(\<Union>t. set (get_next_task_names flow t)) \<subseteq> (\<Union>e \<in> set (map snd flow). set (next_task e))"
  proof
    fix n assume "n \<in> (\<Union>t. set (get_next_task_names flow t))"
    then obtain t where "n \<in> set (get_next_task_names flow t)" by blast
    then obtain e where "dict_get flow t = Some e" "n \<in> set (next_task e)"
      by (cases "dict_get flow t") (simp_all add: get_next_task_names_def)
    then show "n \<in> (\<Union>e \<in> set (map snd flow). set (next_task e))" by (force dest: map_of_SomeD)
  qed
  then show ?thesis by (rule finite_subset) simp
qed

function filter_walk :: "task_flow \<Rightarrow> nat \<Rightarrow> string list \<Rightarrow> string list" where
  "filter_walk flow i walk = (if i < length walk then filter_walk flow (Suc i) (new_next flow (walk ! i) walk) else walk)"
  by pat_completeness auto

termination filter_walk
proof (relation "measures [\<lambda>(flow, i, walk). card ((\<Union>t. set (get_next_task_names flow t)) - set walk),
    \<lambda>(flow, i, walk). length walk - i]")
  fix flow :: task_flow and i :: nat and walk :: "string list"
  assume i: "i < length walk"
  let ?all = "\<Union>t. set (get_next_task_names flow t)"
  obtain new where new: "new_next flow (walk ! i) walk = walk @ new" "set new = set (get_next_task_names flow (walk ! i)) - set walk"
    using fold_new_names[of "get_next_task_names flow (walk ! i)" walk] unfolding new_next_def by metis
  show "((flow, Suc i, new_next flow (walk ! i) walk), flow, i, walk)
      \<in> measures [\<lambda>(flow, i, walk). card ((\<Union>t. set (get_next_task_names flow t)) - set walk), \<lambda>(flow, i, walk). length walk - i]"
  proof (cases "new = []")
    case True
    then show ?thesis using i new by simp
  next
    case False
    then have "?all - set (walk @ new) \<subset> ?all - set walk" using new(2) by (cases new) auto
    then have "card (?all - set (walk @ new)) < card (?all - set walk)"
      by (intro psubset_card_mono) (use next_names_finite in auto)
    then show ?thesis using new(1) by simp
  qed
qed simp

declare filter_walk.simps [simp del]

definition filter_dag :: "task_dag \<Rightarrow> string \<Rightarrow> task_dag" where
  "filter_dag dag source =
     (let filtered = filter_walk (dag_task_flow dag) 0 [source]
      in \<lparr>dag_data_flow = dag_data_flow dag,
          dag_task_flow = filter (\<lambda>(k, v). k \<in> set filtered) (dag_task_flow dag),
          head_tasks_name = [source],
          ordered_tasks_name = filter (\<lambda>t. t \<in> set filtered) (ordered_tasks_name dag)\<rparr>)"

end
