(* ===== verification/Task_Manager.thy ===== *)
theory Task_Manager
  imports Task_Dag
begin

text \<open>
  The manager of the parsing tasks: \<^verbatim>\<open>TaskManager\<close> and \<^verbatim>\<open>tasks_run\<close> of \<^verbatim>\<open>ms_service_profiler/task/task_manager.py\<close>.

  Every data source with data gets a pool of processes, one per piece of data. A process runs the tasks its
  source reaches, in the common order; the processes of all pools that run the same task synchronise through
  the manager: \<open>gather\<close> rows collect one contribution of each, a pool is handed from a finished task to its next
  one, and a task is started when all its pools have arrived and its predecessors are done.

  A receiving queue of a process is a number; \<open>outbox\<close> holds what was put into it. \<open>None\<close> as a result is an
  exception that leaves the manager's loop (an index out of range, or a row of a finished task that holds
  something else than hand-over pairs). Python's sets have no fixed order: \<open>order\<close> lists the elements of one.
  Entries of \<open>task_manager_info_dict\<close> are created on every access; a missing entry reads as a new one.
\<close>

section \<open>State\<close>

datatype task_state = Unstart | Started | Finished | Failed | NoSourceData

text \<open>What a process contributes to a row: data, the hand-over of its pool, or an error text.\<close>

datatype 'd cell = Data 'd | HandOver nat "string option" | ErrMsg "string option"

datatype 'd message =
    Go nat
  | GoError nat
  | FinishedMsg
  | ErrorMsg "(nat \<times> string) option"
  | ErrorGather "'d cell list"
  | GatherMsg "'d cell list"
  | AllGatherMsg "'d cell list"
  | BroadcastMsg 'd
  | P2P 'd

record 'd task_info =
  wait_pools :: "nat list"
  queues :: "nat list"
  state :: task_state
  gather_data :: "'d cell option list list"

definition new_info :: "'d task_info" where
  "new_info = \<lparr>wait_pools = [], queues = [], state = Unstart, gather_data = []\<rparr>"

record 'd manager =
  infos :: "(string, 'd task_info) dict"
  pools :: "nat list list"
  pool_owner :: "string option list"
  outbox :: "nat \<Rightarrow> 'd message list"
  next_queue :: nat
  total_tasks :: nat
  finished_tasks :: nat
  error_tasks :: nat

definition new_task_manager :: "'d manager" where
  "new_task_manager = \<lparr>infos = [], pools = [], pool_owner = [], outbox = (\<lambda>_. []), next_queue = 0,
     total_tasks = 0, finished_tasks = 0, error_tasks = 0\<rparr>"

definition init_task :: "'d manager \<Rightarrow> string \<Rightarrow> 'd task_info" where
  "init_task m t = (case dict_get (infos m) t of None \<Rightarrow> new_info | Some i \<Rightarrow> i)"

definition upd_info :: "string \<Rightarrow> ('d task_info \<Rightarrow> 'd task_info) \<Rightarrow> 'd manager \<Rightarrow> 'd manager" where
  "upd_info t f m = m\<lparr>infos := dict_set t (f (init_task m t)) (infos m)\<rparr>"

lemma init_task_upd [simp]: "init_task (upd_info t f m) x = (if x = t then f (init_task m t) else init_task m x)"
  by (simp add: init_task_def upd_info_def)

lemma init_new: "init_task new_task_manager t = new_info"
  by (simp add: init_task_def new_task_manager_def)

lemma new_task_manager_fields [simp]: "pools new_task_manager = []" "pool_owner new_task_manager = []"
  by (simp_all add: new_task_manager_def)

lemma upd_info_fields [simp]:
  "pools (upd_info t f m) = pools m" "pool_owner (upd_info t f m) = pool_owner m" "outbox (upd_info t f m) = outbox m"
  "next_queue (upd_info t f m) = next_queue m" "total_tasks (upd_info t f m) = total_tasks m"
  by (simp_all add: upd_info_def)

abbreviation get_task_state :: "'d manager \<Rightarrow> string \<Rightarrow> task_state" where
  "get_task_state m t \<equiv> state (init_task m t)"

section \<open>Messages to processes\<close>

definition put :: "nat \<Rightarrow> 'd message \<Rightarrow> 'd manager \<Rightarrow> 'd manager" where
  "put q msg m = m\<lparr>outbox := (outbox m)(q := outbox m q @ [msg])\<rparr>"

definition send_msg_to_one_process :: "string \<Rightarrow> nat \<Rightarrow> 'd message \<Rightarrow> 'd manager \<Rightarrow> 'd manager" where
  "send_msg_to_one_process t i msg m =
     (if i < length (queues (init_task m t)) then put (queues (init_task m t) ! i) msg m else m)"

definition send_msg_to_one_task :: "string \<Rightarrow> 'd message \<Rightarrow> 'd manager \<Rightarrow> 'd manager" where
  "send_msg_to_one_task t msg m = fold (\<lambda>q. put q msg) (queues (init_task m t)) m"

definition send_go :: "string \<Rightarrow> (nat \<Rightarrow> 'd message) \<Rightarrow> 'd manager \<Rightarrow> 'd manager" where
  "send_go t go m = fold (\<lambda>i. send_msg_to_one_process t i (go i)) [0..<length (queues (init_task m t))] m"

section \<open>Gathering\<close>

text \<open>The loop over the rows: the first row in which the process has no entry takes it; the result tells which row that was.\<close>

fun fill_loop :: "nat \<Rightarrow> 'd cell \<Rightarrow> 'd cell option list list \<Rightarrow> ('d cell option list list \<times> nat option) option" where
  "fill_loop i x [] = Some ([], None)"
| "fill_loop i x (row # rows) =
     (if length row \<le> i then None
      else if row ! i \<noteq> None then map_option (\<lambda>(rs, k). (row # rs, map_option Suc k)) (fill_loop i x rows)
      else Some (row[i := Some x] # rows, Some 0))"

definition fill_rows :: "nat \<Rightarrow> nat \<Rightarrow> 'd cell \<Rightarrow> 'd cell option list list \<Rightarrow> ('d cell option list list \<times> 'd cell list option) option" where
  "fill_rows cnt i x rows =
     (case fill_loop i x rows of
        None \<Rightarrow> None
      | Some (rows', Some deque_index) \<Rightarrow>
          (if deque_index = 0 \<and> list_all (\<lambda>c. c \<noteq> None) (hd rows')
           then Some (tl rows', Some (map the (hd rows'))) else Some (rows', None))
      | Some (rows', None) \<Rightarrow>
          (if cnt = 1 then Some (rows', Some [x])
           else if cnt \<le> i then None
           else Some (rows' @ [(replicate cnt None)[i := Some x]], None)))"

definition fill_gater_data ::
  "string \<Rightarrow> nat \<Rightarrow> 'd cell \<Rightarrow> bool \<Rightarrow> 'd manager \<Rightarrow> ('d cell list option \<times> 'd manager) option" where
  "fill_gater_data t i x ignore_error_state m =
     (if get_task_state m t = Failed \<and> \<not> ignore_error_state then Some (None, m)
      else (case fill_rows (length (queues (init_task m t))) i x (gather_data (init_task m t)) of
              None \<Rightarrow> None
            | Some (rows, res) \<Rightarrow> Some (res, upd_info t (\<lambda>n. n\<lparr>gather_data := rows\<rparr>) m)))"

section \<open>Task states\<close>

text \<open>A process object is alive according to \<open>is_alive\<close> whenever it exists: the method is not called there.\<close>

definition pool_alive :: "nat list \<Rightarrow> bool" where
  "pool_alive processes \<longleftrightarrow> list_ex (\<lambda>_. True) processes"

definition is_all_finished :: "'d manager \<Rightarrow> bool" where
  "is_all_finished m \<longleftrightarrow> list_all (\<lambda>x. x = None) (pool_owner m) \<or> list_all (\<lambda>p. \<not> pool_alive p) (pools m)"

fun prevs_finished :: "'d manager \<Rightarrow> string list \<Rightarrow> bool \<Rightarrow> bool \<times> bool" where
  "prevs_finished m [] error_flag = (True, error_flag)"
| "prevs_finished m (p # ps) error_flag =
     (let flag = (error_flag \<or> get_task_state m p = Failed)
      in if get_task_state m p \<notin> {Finished, NoSourceData, Failed} then (False, flag) else prevs_finished m ps flag)"

definition is_all_prev_finished :: "task_flow \<Rightarrow> string \<Rightarrow> 'd manager \<Rightarrow> bool \<times> bool" where
  "is_all_prev_finished flow t m =
     (case prevs_finished m (get_prev_task_names flow t) False of (ok, flag) \<Rightarrow>
        (ok \<and> list_all (\<lambda>p. pool_owner m ! p = Some t) (wait_pools (init_task m t)), flag))"

definition update_task_progress :: "bool \<Rightarrow> 'd manager \<Rightarrow> 'd manager" where
  "update_task_progress err m =
     (if err then m\<lparr>error_tasks := error_tasks m + 1\<rparr> else m\<lparr>finished_tasks := finished_tasks m + 1\<rparr>)"

text \<open>One round of the loop of \<open>set_task_finished\<close>: a pool is handed to the next task.\<close>

definition hand_over :: "task_flow \<Rightarrow> nat \<times> string option \<Rightarrow> 'd manager \<Rightarrow> 'd manager" where
  "hand_over flow pn m = (case pn of (p, n) \<Rightarrow>
     (let m1 = m\<lparr>pool_owner := (pool_owner m)[p := n]\<rparr>
      in case n of
           None \<Rightarrow> m1
         | Some t \<Rightarrow>
             (let m2 = upd_info t (\<lambda>i. i\<lparr>queues := queues i @ pools m1 ! p\<rparr>) m1;
                  (all_finished, has_err) = is_all_prev_finished flow t m2
              in if get_task_state m2 t \<noteq> Unstart then m2
                 else if all_finished
                 then send_go t (if has_err then GoError else Go) (upd_info t (\<lambda>i. i\<lparr>state := Started\<rparr>) m2)
                 else m2)))"

definition set_task_finished :: "task_flow \<Rightarrow> string \<Rightarrow> (nat \<times> string option) list \<Rightarrow> 'd manager \<Rightarrow> 'd manager option" where
  "set_task_finished flow t next_task_set m =
     (let m1 = (if get_task_state m t = Failed then m
                else update_task_progress False (upd_info t (\<lambda>i. i\<lparr>state := Finished\<rparr>) m))
      in if list_all (\<lambda>(p, n). p < length (pool_owner m)) next_task_set
         then Some (fold (hand_over flow) next_task_set m1) else None)"

definition set_task_error ::
  "string \<Rightarrow> nat \<Rightarrow> string option \<Rightarrow> 'd manager \<Rightarrow> ('d cell list option \<times> 'd manager) option" where
  "set_task_error t i err_msg m =
     (let m1 = (if get_task_state m t \<noteq> Failed then upd_info t (\<lambda>n. n\<lparr>gather_data := []\<rparr>) m else m);
          m2 = (case err_msg of Some (c # cs) \<Rightarrow> update_task_progress True m1 | _ \<Rightarrow> m1)
      in fill_gater_data t i (ErrMsg err_msg) True (upd_info t (\<lambda>n. n\<lparr>state := Failed\<rparr>) m2))"

section \<open>Sources without data\<close>

text \<open>
  \<open>set_no_source_data\<close> marks the task and calls itself for every successor all of whose predecessors are
  marked; the list holds the successors the loop still visits. On a cyclic graph the recursion need not end.
\<close>

definition all_no_source :: "task_flow \<Rightarrow> string \<Rightarrow> 'd manager \<Rightarrow> bool" where
  "all_no_source flow t m \<longleftrightarrow> list_all (\<lambda>p. get_task_state m p = NoSourceData) (get_prev_task_names flow t)"

abbreviation mark_no_source :: "string \<Rightarrow> 'd manager \<Rightarrow> 'd manager" where
  "mark_no_source t m \<equiv> upd_info t (\<lambda>i. i\<lparr>state := NoSourceData\<rparr>) m"

partial_function (option) no_source_loop :: "task_flow \<Rightarrow> string list \<Rightarrow> 'd manager \<Rightarrow> 'd manager option" where
  "no_source_loop flow ts m =
     (case ts of
        [] \<Rightarrow> Some m
      | t # rest \<Rightarrow>
          (if all_no_source flow t m
           then Option.bind (no_source_loop flow (get_next_task_names flow t) (mark_no_source t m)) (no_source_loop flow rest)
           else no_source_loop flow rest m))"

definition set_no_source_data :: "task_flow \<Rightarrow> string \<Rightarrow> 'd manager \<Rightarrow> 'd manager option" where
  "set_no_source_data flow t m = no_source_loop flow (get_next_task_names flow t) (mark_no_source t m)"

section \<open>Pools\<close>

definition create_pool :: "string \<Rightarrow> nat \<Rightarrow> string list \<Rightarrow> 'd manager \<Rightarrow> 'd manager" where
  "create_pool source n src_tasks m =
     (let pool_index = length (pools m);
          qs = [next_queue m ..< next_queue m + n];
          m1 = m\<lparr>pools := pools m @ [qs], pool_owner := pool_owner m @ [Some source], next_queue := next_queue m + n\<rparr>;
          m2 = fold (\<lambda>t. upd_info t (\<lambda>i. i\<lparr>wait_pools := wait_pools i @ [pool_index]\<rparr>)) src_tasks m1
      in send_go source Go (upd_info source (\<lambda>i. i\<lparr>queues := queues i @ qs\<rparr>) m2))"

text \<open>\<open>tasks_run\<close> up to the start of the loop: the data sources with the number of their pieces of data.\<close>

fun tasks_setup :: "task_dag \<Rightarrow> (string \<times> nat) list \<Rightarrow> 'd manager \<Rightarrow> 'd manager option" where
  "tasks_setup dag [] m = Some m"
| "tasks_setup dag ((source, n) # sources) m =
     (if n = 0 then Option.bind (set_no_source_data (dag_task_flow dag) source m) (tasks_setup dag sources)
      else tasks_setup dag sources (create_pool source n (ordered_tasks_name (filter_dag dag source)) m))"

definition tasks_run :: "task_dag \<Rightarrow> (string \<times> nat) list \<Rightarrow> 'd manager option" where
  "tasks_run dag sources =
     map_option (\<lambda>m. m\<lparr>total_tasks := length (remdups (concat (map (\<lambda>(s, n).
         if n = 0 then [] else ordered_tasks_name (filter_dag dag s)) sources)))\<rparr>) (tasks_setup dag sources new_task_manager)"

section \<open>The loop of the manager\<close>

datatype 'd request =
    ReqFinished nat "string option" bool
  | ReqError "string option"
  | ReqCrash
  | ReqGather nat 'd
  | ReqAllGather 'd
  | ReqBroadcast 'd
  | ReqSendTo nat 'd
  | ReqOther

text \<open>The hand-over pairs of a row.\<close>

fun hand_overs :: "'d cell list \<Rightarrow> (nat \<times> string option) list option" where
  "hand_overs [] = Some []"
| "hand_overs (HandOver p n # cs) = map_option (\<lambda>ps. (p, n) # ps) (hand_overs cs)"
| "hand_overs (_ # cs) = None"

text \<open>The messages of a crash: an error to every queue of every task.\<close>

definition crash_all :: "'d manager \<Rightarrow> 'd manager" where
  "crash_all m = fold (\<lambda>t. send_msg_to_one_task t (ErrorMsg None)) (dict_keys (infos m)) m"

text \<open>One round of \<open>start\<close>: the new state and whether the loop ends.\<close>

definition handle ::
  "task_flow \<Rightarrow> ((nat \<times> string option) list \<Rightarrow> (nat \<times> string option) list) \<Rightarrow> string \<Rightarrow> nat \<Rightarrow> 'd request \<Rightarrow> 'd manager \<Rightarrow>
   ('d manager \<times> bool) option" where
  "handle flow order t i req m = (case req of
     ReqFinished p n after_error \<Rightarrow>
       (case fill_gater_data t i (HandOver p n) after_error m of
          None \<Rightarrow> None
        | Some (None, m1) \<Rightarrow> Some (m1, is_all_finished m1)
        | Some (Some row, m1) \<Rightarrow>
            (case hand_overs row of
               None \<Rightarrow> None
             | Some pairs \<Rightarrow>
                 map_option (\<lambda>m2. (m2, is_all_finished m2))
                   (set_task_finished flow t (order pairs) (send_msg_to_one_task t FinishedMsg m1))))
   | ReqError err_msg \<Rightarrow>
       (let m0 = (case err_msg of None \<Rightarrow> m | Some e \<Rightarrow> send_msg_to_one_task t (ErrorMsg (Some (i, e))) m)
        in case set_task_error t i err_msg m0 of
             None \<Rightarrow> None
           | Some (res, m1) \<Rightarrow>
               (let m2 = (case res of None \<Rightarrow> m1 | Some row \<Rightarrow> send_msg_to_one_task t (ErrorGather row) m1)
                in Some (m2, is_all_finished m2)))
   | ReqCrash \<Rightarrow> Some (crash_all m, True)
   | ReqGather dst d \<Rightarrow>
       map_option (\<lambda>(res, m1). (case res of None \<Rightarrow> m1 | Some row \<Rightarrow> send_msg_to_one_process t dst (GatherMsg row) m1, False))
         (fill_gater_data t i (Data d) False m)
   | ReqAllGather d \<Rightarrow>
       map_option (\<lambda>(res, m1). (case res of None \<Rightarrow> m1 | Some row \<Rightarrow> send_msg_to_one_task t (AllGatherMsg row) m1, False))
         (fill_gater_data t i (Data d) False m)
   | ReqBroadcast d \<Rightarrow> Some (send_msg_to_one_task t (BroadcastMsg d) m, False)
   | ReqSendTo dst d \<Rightarrow> Some (send_msg_to_one_process t dst (P2P d) m, False)
   | ReqOther \<Rightarrow> Some (m, False))"

end
