(* ===== verification/Task_Gather.thy ===== *)
theory Task_Gather
  imports Task_Manager
begin

text \<open>
  The rows of a task as queues: the matrix of partly filled rows stands for one queue of contributions per
  process, and a row leaves when every queue holds one. The abstract gather pops the oldest contribution of
  every process, so the k-th row holds the k-th contribution of each.
\<close>

section \<open>The abstract gather\<close>

text \<open>One queue per process; a contribution that makes the last queue non-empty lets a row out.\<close>

definition gather_spec :: "nat \<Rightarrow> 'c \<Rightarrow> 'c list list \<Rightarrow> 'c list list \<times> 'c list option" where
  "gather_spec i x pending =
     (let pending' = pending[i := pending ! i @ [x]]
      in if list_all (\<lambda>q. q \<noteq> []) pending' then (map tl pending', Some (map hd pending')) else (pending', None))"

text \<open>The entries of one process, from the front row on.\<close>

definition column :: "nat \<Rightarrow> 'c option list list \<Rightarrow> 'c list" where
  "column i rows = map the (takeWhile (\<lambda>c. c \<noteq> None) (map (\<lambda>row. row ! i) rows))"

definition columns :: "nat \<Rightarrow> 'c option list list \<Rightarrow> 'c list list" where
  "columns n rows = map (\<lambda>i. column i rows) [0..<n]"

text \<open>Entries fill the rows from the front, no row is empty and the front row is not complete.\<close>

definition staircase :: "nat \<Rightarrow> 'c option list list \<Rightarrow> bool" where
  "staircase n rows \<longleftrightarrow>
     (\<forall>row \<in> set rows. length row = n \<and> (\<exists>i < n. row ! i \<noteq> None)) \<and>
     (\<forall>i < n. sorted_wrt (\<lambda>a b. b \<noteq> None \<longrightarrow> a \<noteq> None) (map (\<lambda>row. row ! i) rows)) \<and>
     (rows \<noteq> [] \<longrightarrow> (\<exists>i < n. hd rows ! i = None))"

lemma staircase_Nil [simp]: "staircase n []"
  by (simp add: staircase_def)

lemma column_Nil [simp]: "column i [] = []"
  by (simp add: column_def)

lemma column_Cons: "column i (row # rows) = (case row ! i of None \<Rightarrow> [] | Some x \<Rightarrow> x # column i rows)"
  by (simp add: column_def split: option.split)

section \<open>One contribution\<close>

lemma fill_loop_rows:
  assumes "\<forall>row \<in> set rows. length row = n" "i < n"
  shows "\<exists>rows' k. fill_loop i x rows = Some (rows', k) \<and>
    (case k of
       None \<Rightarrow> rows' = rows \<and> (\<forall>row \<in> set rows. row ! i \<noteq> None)
     | Some j \<Rightarrow> j < length rows \<and> rows ! j ! i = None \<and> (\<forall>l < j. rows ! l ! i \<noteq> None) \<and> rows' = rows[j := (rows ! j)[i := Some x]])"
  using assms(1)
proof (induction rows)
  case (Cons row rows)
  then obtain rows' k where IH: "fill_loop i x rows = Some (rows', k)"
      "case k of None \<Rightarrow> rows' = rows \<and> (\<forall>row \<in> set rows. row ! i \<noteq> None)
       | Some j \<Rightarrow> j < length rows \<and> rows ! j ! i = None \<and> (\<forall>l < j. rows ! l ! i \<noteq> None) \<and> rows' = rows[j := (rows ! j)[i := Some x]]"
    by auto
  have len: "\<not> length row \<le> i" using Cons.prems assms(2) by simp
  show ?case
  proof (cases "row ! i = None")
    case True
    then show ?thesis using len by auto
  next
    case False
    then show ?thesis using IH len by (cases k) (auto simp: nth_Cons' less_Suc_eq_0_disj)
  qed
qed simp

lemma column_full: "\<forall>row \<in> set rows. row ! i \<noteq> None \<Longrightarrow> column i rows = map (\<lambda>row. the (row ! i)) rows"
  by (induction rows) (auto simp: column_Cons)

lemma column_empty: "column i rows = [] \<longleftrightarrow> rows = [] \<or> hd rows ! i = None"
  by (cases rows) (auto simp: column_Cons split: option.split)

lemma column_snoc_full:
  "\<forall>row \<in> set rows. row ! i \<noteq> None \<Longrightarrow> column i (rows @ [row]) = column i rows @ (case row ! i of None \<Rightarrow> [] | Some x \<Rightarrow> [x])"
  by (induction rows) (auto simp: column_Cons split: option.split)

lemma column_snoc_None: "row ! i = None \<Longrightarrow> column i (rows @ [row]) = column i rows"
  by (induction rows) (auto simp: column_Cons split: option.split)

lemma column_update_other:
  assumes "c \<noteq> i" shows "column c (rows[j := (rows ! j)[i := v]]) = column c rows"
proof -
  have "map (\<lambda>row. row ! c) (rows[j := (rows ! j)[i := v]]) = (map (\<lambda>row. row ! c) rows)[j := rows ! j ! c]"
    using assms by (simp add: map_update)
  also have "\<dots> = map (\<lambda>row. row ! c) rows"
    by (cases "j < length rows") (simp_all add: list_update_same_conv list_update_beyond)
  finally show ?thesis by (simp add: column_def)
qed

lemma column_update:
  "j < length rows \<Longrightarrow> (\<forall>l < j. rows ! l ! i \<noteq> None) \<Longrightarrow> (\<forall>l < length rows. j \<le> l \<longrightarrow> rows ! l ! i = None) \<Longrightarrow>
   i < length (rows ! j) \<Longrightarrow> column i (rows[j := (rows ! j)[i := Some x]]) = column i rows @ [x]"
proof (induction rows arbitrary: j)
  case (Cons row rows)
  show ?case
  proof (cases j)
    case 0
    have "column i rows = []"
      using Cons.prems(3) 0 by (cases rows) (auto simp: column_Cons dest: spec[of _ 1])
    then show ?thesis using 0 Cons.prems by (auto simp: column_Cons dest: spec[of _ 0])
  next
    case (Suc j')
    have "row ! i \<noteq> None" using Cons.prems(2) Suc by (metis nth_Cons_0 zero_less_Suc)
    moreover have "column i (rows[j' := (rows ! j')[i := Some x]]) = column i rows @ [x]"
    proof (rule Cons.IH)
      show "\<forall>l < length rows. j' \<le> l \<longrightarrow> rows ! l ! i = None" using Cons.prems(3) Suc by (metis Suc_le_mono Suc_less_eq length_Cons nth_Cons_Suc)
    qed (use Cons.prems Suc in auto)
    ultimately show ?thesis using Suc by (auto simp: column_Cons)
  qed
qed simp

lemma staircase_below:
  assumes "staircase n rows" "i < n" "rows ! j ! i = None" "j \<le> l" "l < length rows"
  shows "rows ! l ! i = None"
proof (cases "j = l")
  case False
  then have "j < l" using assms(4) by simp
  moreover have "sorted_wrt (\<lambda>a b. b \<noteq> None \<longrightarrow> a \<noteq> None) (map (\<lambda>row. row ! i) rows)"
    using assms(1,2) by (simp add: staircase_def)
  ultimately have "(map (\<lambda>row. row ! i) rows) ! l \<noteq> None \<longrightarrow> (map (\<lambda>row. row ! i) rows) ! j \<noteq> None"
    using assms(5) unfolding sorted_wrt_iff_nth_less by simp
  then show ?thesis using assms(3,5) \<open>j < l\<close> by auto
qed (use assms in simp)

lemma columns_nth [simp]: "i < n \<Longrightarrow> columns n rows ! i = column i rows" "length (columns n rows) = n"
  by (simp_all add: columns_def)

lemma columns_eqI: "length cs = n \<Longrightarrow> (\<And>i. i < n \<Longrightarrow> column i rows = cs ! i) \<Longrightarrow> columns n rows = cs"
  by (rule nth_equalityI) simp_all

section \<open>Refinement\<close>

lemma new_row:
  fixes x :: "'c"
  assumes st: "staircase n rows" and i: "i < n" "n \<noteq> 1" and full: "\<forall>row \<in> set rows. row ! i \<noteq> None"
  defines "rows' \<equiv> rows @ [(replicate n None)[i := Some x]]"
  shows "gather_spec i x (columns n rows) = (columns n rows', None) \<and> staircase n rows'"
proof -
  obtain c where c: "c < n" "c \<noteq> i" "column c rows = []"
  proof (cases "rows = []")
    case True
    with i show thesis by (intro that[of "if i = 0 then 1 else 0"]) auto
  next
    case False
    then obtain c where "c < n" "hd rows ! c = None" using st by (auto simp: staircase_def)
    moreover from this full False have "c \<noteq> i" by (cases rows) auto
    ultimately show thesis using that[of c] by (simp add: column_empty)
  qed
  have cols: "columns n rows' = (columns n rows)[i := columns n rows ! i @ [x]]"
    using i(1) full by (intro columns_eqI) (auto simp: rows'_def nth_list_update column_snoc_full column_snoc_None)
  have "(columns n rows)[i := columns n rows ! i @ [x]] ! c = []" using c by simp
  moreover have "(columns n rows)[i := columns n rows ! i @ [x]] ! c \<in> set ((columns n rows)[i := columns n rows ! i @ [x]])"
    using c by (intro nth_mem) simp
  ultimately have "gather_spec i x (columns n rows) = (columns n rows', None)"
    unfolding gather_spec_def cols Let_def by (auto simp: list_all_iff)
  moreover have "staircase n rows'"
    unfolding staircase_def
  proof (intro conjI)
    show "\<forall>row \<in> set rows'. length row = n \<and> (\<exists>i < n. row ! i \<noteq> None)"
      using st i(1) by (auto simp: rows'_def staircase_def intro!: exI[of _ i])
    show "\<forall>k < n. sorted_wrt (\<lambda>a b. b \<noteq> None \<longrightarrow> a \<noteq> None) (map (\<lambda>row. row ! k) rows')"
    proof (intro allI impI)
      fix k assume k: "k < n"
      then have "sorted_wrt (\<lambda>a b. b \<noteq> None \<longrightarrow> a \<noteq> None) (map (\<lambda>row. row ! k) rows)" using st by (simp add: staircase_def)
      then show "sorted_wrt (\<lambda>a b. b \<noteq> None \<longrightarrow> a \<noteq> None) (map (\<lambda>row. row ! k) rows')"
        using full k by (cases "k = i") (auto simp: rows'_def sorted_wrt_append)
    qed
    show "rows' \<noteq> [] \<longrightarrow> (\<exists>k < n. hd rows' ! k = None)"
    proof (cases "rows = []")
      case True
      then show ?thesis using c by (auto simp: rows'_def intro!: exI[of _ c])
    next
      case False
      then show ?thesis using c by (auto simp: rows'_def column_empty)
    qed
  qed
  ultimately show ?thesis by blast
qed

lemma filled_row:
  fixes x :: "'c"
  assumes st: "staircase n rows" and i: "i < n" and j: "j < length rows" "rows ! j ! i = None" "\<forall>l < j. rows ! l ! i \<noteq> None"
  defines "rows' \<equiv> rows[j := (rows ! j)[i := Some x]]"
  shows "columns n rows' = (columns n rows)[i := columns n rows ! i @ [x]]"
    "\<forall>row \<in> set rows'. length row = n \<and> (\<exists>i < n. row ! i \<noteq> None)"
    "\<forall>k < n. sorted_wrt (\<lambda>a b. b \<noteq> None \<longrightarrow> a \<noteq> None) (map (\<lambda>row. row ! k) rows')"
proof -
  have rows: "\<forall>row \<in> set rows. length row = n \<and> (\<exists>i < n. row ! i \<noteq> None)" using st by (simp add: staircase_def)
  then have len: "length (rows ! j) = n" using j(1) by simp
  have below: "\<forall>l < length rows. j \<le> l \<longrightarrow> rows ! l ! i = None" using staircase_below[OF st i j(2)] by blast
  show "columns n rows' = (columns n rows)[i := columns n rows ! i @ [x]]"
  proof (rule columns_eqI)
    fix c assume "c < n"
    then show "column c rows' = (columns n rows)[i := columns n rows ! i @ [x]] ! c"
      using i len column_update[OF j(1,3) below] column_update_other[of c i rows j "Some x"]
      by (cases "c = i") (simp_all add: rows'_def)
  qed simp
  show "\<forall>row \<in> set rows'. length row = n \<and> (\<exists>i < n. row ! i \<noteq> None)"
  proof
    fix row assume "row \<in> set rows'"
    then have "row = (rows ! j)[i := Some x] \<or> row \<in> set rows" using set_update_subset_insert[of rows j] unfolding rows'_def by blast
    then show "length row = n \<and> (\<exists>i < n. row ! i \<noteq> None)"
    proof
      assume "row = (rows ! j)[i := Some x]"
      then show ?thesis using len i by (auto intro!: exI[of _ i])
    qed (use rows in blast)
  qed
  show "\<forall>k < n. sorted_wrt (\<lambda>a b. b \<noteq> None \<longrightarrow> a \<noteq> None) (map (\<lambda>row. row ! k) rows')"
  proof (intro allI impI)
    fix k assume k: "k < n"
    have sorted: "sorted_wrt (\<lambda>a b. b \<noteq> None \<longrightarrow> a \<noteq> None) (map (\<lambda>row. row ! k) rows)"
      using st k by (simp add: staircase_def)
    show "sorted_wrt (\<lambda>a b. b \<noteq> None \<longrightarrow> a \<noteq> None) (map (\<lambda>row. row ! k) rows')"
    proof (cases "k = i")
      case True
      have val: "rows' ! l ! i = (if l = j then Some x else rows ! l ! i)" if "l < length rows" for l
        using that len i by (simp add: rows'_def nth_list_update)
      have "rows' ! a ! i \<noteq> None" if "a < b" "b < length rows" "rows' ! b ! i \<noteq> None" for a b
      proof -
        have "b \<le> j" using that below by (auto simp: val split: if_splits)
        then show ?thesis using that j by (simp add: val)
      qed
      then show ?thesis using True by (simp add: sorted_wrt_iff_nth_less rows'_def)
    next
      case False
      then have "rows' ! l ! k = rows ! l ! k" if "l < length rows" for l
        using that by (cases "l = j") (simp_all add: rows'_def)
      then show ?thesis using sorted by (simp add: sorted_wrt_iff_nth_less rows'_def)
    qed
  qed
qed

lemma fill_rows_refines:
  assumes st: "staircase n rows" and i: "i < n"
  shows "\<exists>rows' res. fill_rows n i x rows = Some (rows', res) \<and> gather_spec i x (columns n rows) = (columns n rows', res) \<and> staircase n rows'"
proof -
  have lens: "\<forall>row \<in> set rows. length row = n" using st by (simp add: staircase_def)
  obtain rows' k where loop: "fill_loop i x rows = Some (rows', k)" and k: "case k of
       None \<Rightarrow> rows' = rows \<and> (\<forall>row \<in> set rows. row ! i \<noteq> None)
     | Some j \<Rightarrow> j < length rows \<and> rows ! j ! i = None \<and> (\<forall>l < j. rows ! l ! i \<noteq> None) \<and> rows' = rows[j := (rows ! j)[i := Some x]]"
    using fill_loop_rows[OF lens i] by blast
  show ?thesis
  proof (cases k)
    case None
    show ?thesis
    proof (cases "n = 1")
      case True
      then have "rows = []" using st i by (cases rows) (auto simp: staircase_def)
      then show ?thesis using True i by (simp add: fill_rows_def gather_spec_def columns_def)
    next
      case False
      then show ?thesis using None k loop i new_row[OF st i False] by (simp add: fill_rows_def)
    qed
  next
    case (Some j)
    then have j: "j < length rows" "rows ! j ! i = None" "\<forall>l < j. rows ! l ! i \<noteq> None" and rows': "rows' = rows[j := (rows ! j)[i := Some x]]"
      using k by simp_all
    note F = filled_row[OF st i j, of x, folded rows']
    have ne: "rows' \<noteq> []" using j(1) rows' by auto
    have all: "list_all (\<lambda>q. q \<noteq> []) (columns n rows') \<longleftrightarrow> list_all (\<lambda>c. c \<noteq> None) (hd rows')"
      using F(2) ne by (cases rows') (auto simp: list_all_iff columns_def column_Cons in_set_conv_nth split: option.splits)
    show ?thesis
    proof (cases "list_all (\<lambda>c. c \<noteq> None) (hd rows')")
      case True
      have "j = 0"
      proof (rule ccontr)
        assume "j \<noteq> 0"
        then have "hd rows' = hd rows" using rows' j(1) by (cases rows; cases j) auto
        moreover obtain c where "c < n" "hd rows ! c = None" using st ne rows' by (auto simp: staircase_def)
        ultimately have "hd rows' ! c = None" "c < n" by simp_all
        moreover have "length (hd rows') = n" using F(2) ne by simp
        ultimately have "None \<in> set (hd rows')" by (metis nth_mem)
        then show False using True by (auto simp: list_all_iff)
      qed
      obtain row rs where rs: "rows' = row # rs" using ne by (cases rows') auto
      have row: "length row = n" "\<And>c. c < n \<Longrightarrow> \<exists>y. row ! c = Some y"
        using F(2) True rs by (auto simp: list_all_iff)
      have col: "column c rows' = the (row ! c) # column c rs" if "c < n" for c
        using row(2)[OF that] by (auto simp: rs column_Cons)
      have hdtl: "columns n rs = map tl (columns n rows')" "map hd (columns n rows') = map the row"
        using col row(1) by (auto intro!: nth_equalityI)
      have "staircase n rs"
        unfolding staircase_def
      proof (intro conjI)
        show "rs \<noteq> [] \<longrightarrow> (\<exists>k < n. hd rs ! k = None)"
        proof
          assume "rs \<noteq> []"
          then have "1 < length rows" "hd rs = rows ! 1" using rs rows' \<open>j = 0\<close> by (cases rows; cases "tl rows"; auto)+
          then show "\<exists>k < n. hd rs ! k = None" using staircase_below[OF st i j(2), of 1] i \<open>j = 0\<close> by auto
        qed
      qed (use F(2,3) rs in auto)
      then show ?thesis using Some loop \<open>j = 0\<close> True F(1) all rs hdtl
        by (simp add: fill_rows_def gather_spec_def)
    next
      case False
      then have "\<exists>k < n. hd rows' ! k = None" using F(2) ne by (cases rows') (auto simp: list_all_iff in_set_conv_nth)
      then have "staircase n rows'" using F(2,3) by (simp add: staircase_def)
      then show ?thesis using Some loop False F(1) all by (simp add: fill_rows_def gather_spec_def)
    qed
  qed
qed

section \<open>Sequences of contributions\<close>

lemma fill_gater_refines:
  assumes "staircase (length (queues (init_task m t))) (gather_data (init_task m t))" "i < length (queues (init_task m t))"
    and "get_task_state m t \<noteq> Failed \<or> ign"
  shows "\<exists>res m'. fill_gater_data t i x ign m = Some (res, m') \<and>
    gather_spec i x (columns (length (queues (init_task m t))) (gather_data (init_task m t))) =
      (columns (length (queues (init_task m t))) (gather_data (init_task m' t)), res) \<and>
    staircase (length (queues (init_task m t))) (gather_data (init_task m' t)) \<and>
    (\<exists>rows. m' = upd_info t (\<lambda>n. n\<lparr>gather_data := rows\<rparr>) m)"
  using fill_rows_refines[OF assms(1,2), of x] assms(3) by (auto simp: fill_gater_data_def)

text \<open>The rows that come out of a sequence of contributions of the processes of one task.\<close>

fun feed :: "string \<Rightarrow> (nat \<times> 'd cell) list \<Rightarrow> 'd manager \<Rightarrow> ('d cell list list \<times> 'd manager) option" where
  "feed t [] m = Some ([], m)"
| "feed t ((i, x) # cs) m =
     (case fill_gater_data t i x False m of
        None \<Rightarrow> None
      | Some (res, m1) \<Rightarrow>
          map_option (\<lambda>(rows, m2). ((case res of None \<Rightarrow> rows | Some row \<Rightarrow> row # rows), m2)) (feed t cs m1))"

lemma spec_row:
  assumes "gather_spec i x pending = (pending', res)" "i < length pending"
  shows "length pending' = length pending" "res = Some row \<Longrightarrow> length row = length pending"
    "k < length pending \<Longrightarrow> (case res of None \<Rightarrow> [] | Some row \<Rightarrow> [row ! k]) @ pending' ! k = pending ! k @ (if k = i then [x] else [])"
    "\<exists>q \<in> set pending. q = [] \<Longrightarrow> \<exists>q \<in> set pending'. q = [] \<or> res \<noteq> None"
proof -
  let ?p = "pending[i := pending ! i @ [x]]"
  show "length pending' = length pending" "res = Some row \<Longrightarrow> length row = length pending"
    using assms by (auto simp: gather_spec_def Let_def split: if_splits)
  show "(case res of None \<Rightarrow> [] | Some row \<Rightarrow> [row ! k]) @ pending' ! k = pending ! k @ (if k = i then [x] else [])"
    if k: "k < length pending"
  proof (cases "list_all (\<lambda>q. q \<noteq> []) ?p")
    case True
    then have "?p ! k \<noteq> []" using k by (simp add: list_all_length)
    then show ?thesis using assms True k by (auto simp: gather_spec_def Let_def nth_list_update split: if_splits)
  next
    case False
    then show ?thesis using assms k by (auto simp: gather_spec_def Let_def nth_list_update)
  qed
  show "\<exists>q \<in> set pending. q = [] \<Longrightarrow> \<exists>q \<in> set pending'. q = [] \<or> res \<noteq> None"
    using assms by (auto simp: gather_spec_def Let_def list_all_iff split: if_splits)
qed

definition contributions :: "nat \<Rightarrow> (nat \<times> 'c) list \<Rightarrow> 'c list" where
  "contributions k cs = map snd (filter (\<lambda>c. fst c = k) cs)"

lemma feed_rows:
  assumes "\<forall>c \<in> set cs. fst c < n" "get_task_state m t \<noteq> Failed" "length (queues (init_task m t)) = n"
    and "staircase n (gather_data (init_task m t))"
  shows "\<exists>rows m'. feed t cs m = Some (rows, m') \<and> (\<forall>row \<in> set rows. length row = n) \<and> staircase n (gather_data (init_task m' t)) \<and>
    (\<forall>k < n. map (\<lambda>row. row ! k) rows @ column k (gather_data (init_task m' t)) =
       column k (gather_data (init_task m t)) @ contributions k cs)"
  using assms
proof (induction cs arbitrary: m)
  case Nil
  then show ?case by (simp add: contributions_def)
next
  case (Cons c cs)
  obtain i x where c: "c = (i, x)" by (cases c)
  obtain res m1 rows1 where fill: "fill_gater_data t i x False m = Some (res, m1)"
      "gather_spec i x (columns n (gather_data (init_task m t))) = (columns n (gather_data (init_task m1 t)), res)"
      "staircase n (gather_data (init_task m1 t))" "m1 = upd_info t (\<lambda>n. n\<lparr>gather_data := rows1\<rparr>) m"
    using fill_gater_refines[of m t i False x] Cons.prems c by auto
  have i: "i < length (columns n (gather_data (init_task m t)))" using Cons.prems(1) c by simp
  note row = spec_row[OF fill(2) i]
  obtain rows m' where IH: "feed t cs m1 = Some (rows, m')" "\<forall>row \<in> set rows. length row = n" "staircase n (gather_data (init_task m' t))"
      "\<forall>k < n. map (\<lambda>row. row ! k) rows @ column k (gather_data (init_task m' t)) = column k (gather_data (init_task m1 t)) @ contributions k cs"
    using Cons.IH[of m1] Cons.prems fill by auto
  let ?rows = "case res of None \<Rightarrow> rows | Some row \<Rightarrow> row # rows"
  have "map (\<lambda>row. row ! k) ?rows @ column k (gather_data (init_task m' t)) =
      column k (gather_data (init_task m t)) @ contributions k (c # cs)" if k: "k < n" for k
  proof -
    have "map (\<lambda>row. row ! k) ?rows @ column k (gather_data (init_task m' t)) =
        (case res of None \<Rightarrow> [] | Some row \<Rightarrow> [row ! k]) @ column k (gather_data (init_task m1 t)) @ contributions k cs"
      using IH(4) k by (cases res) auto
    also have "\<dots> = (column k (gather_data (init_task m t)) @ (if k = i then [x] else [])) @ contributions k cs"
      using row(3)[of k] k by (simp flip: append_assoc)
    finally show ?thesis by (simp add: contributions_def c)
  qed
  moreover have "\<forall>row \<in> set ?rows. length row = n" using IH(2) row(2) by (cases res) auto
  ultimately show ?case using fill(1) IH(1,3) by (auto simp: c)
qed

text \<open>A process is always behind with an open contribution, so the number of rows is the smallest number of contributions.\<close>

lemma staircase_gap: "0 < n \<Longrightarrow> staircase n rows \<Longrightarrow> \<exists>k < n. column k rows = []"
  by (cases "rows = []") (auto simp: staircase_def column_empty)

lemma rows_behind:
  assumes "0 < n" "staircase n rows'" "\<forall>k < n. map (\<lambda>row. row ! k) rows @ column k rows' = contributions k cs"
  shows "\<exists>k < n. length rows = length (contributions k cs)" "\<forall>k < n. length rows \<le> length (contributions k cs)"
proof -
  obtain k where k: "k < n" "column k rows' = []" using staircase_gap[OF assms(1,2)] by blast
  then have "length rows = length (contributions k cs)" using assms(3) by (metis append_Nil2 length_map)
  then show "\<exists>k < n. length rows = length (contributions k cs)" using k by blast
  show "\<forall>k < n. length rows \<le> length (contributions k cs)" using assms(3) by (metis le_add1 length_append length_map)
qed

section \<open>Property\<close>

text \<open>
  Property C19. Whatever the order in which the messages of the processes of a task arrive, the k-th row that leaves the
  gathering holds exactly the k-th contribution of every process, in the order of the processes, and it leaves
  as soon as the slowest process has made that contribution; nothing is lost, duplicated or mixed between
  rounds.
\<close>

theorem gather_rows_in_step:
  assumes "\<forall>c \<in> set cs. fst c < n" "get_task_state m t \<noteq> Failed" "length (queues (init_task m t)) = n" "0 < n"
    and "gather_data (init_task m t) = []"
  shows "\<exists>rows m'. feed t cs m = Some (rows, m') \<and>
    (\<forall>r < length rows. length (rows ! r) = n \<and> (\<forall>k < n. rows ! r ! k = contributions k cs ! r)) \<and>
    (\<exists>k < n. length rows = length (contributions k cs)) \<and> (\<forall>k < n. length rows \<le> length (contributions k cs))"
proof -
  obtain rows m' where F: "feed t cs m = Some (rows, m')" "\<forall>row \<in> set rows. length row = n" "staircase n (gather_data (init_task m' t))"
      "\<forall>k < n. map (\<lambda>row. row ! k) rows @ column k (gather_data (init_task m' t)) = contributions k cs"
    using feed_rows[OF assms(1-3)] assms(5) by auto
  have "rows ! r ! k = contributions k cs ! r" if "r < length rows" "k < n" for r k
    using F(4) that by (metis length_map nth_append nth_map)
  then show ?thesis using F(1,2) rows_behind[OF assms(4) F(3,4)] by auto
qed

theorem gather_rows_in_step_witness:
  "\<exists>rows m'. feed ''t'' [(1, Data 10), (0, Data (20 :: nat)), (1, Data 30)]
     (upd_info ''t'' (\<lambda>i. i\<lparr>queues := [4, 7]\<rparr>) new_task_manager) = Some (rows, m') \<and> rows = [[Data 20, Data 10]]"
proof -
  let ?m = "upd_info ''t'' (\<lambda>i. i\<lparr>queues := [4, 7]\<rparr>) (new_task_manager :: nat manager)"
  let ?cs = "[(1, Data 10), (0, Data (20 :: nat)), (1, Data 30)]"
  have m: "get_task_state ?m ''t'' \<noteq> Failed" "length (queues (init_task ?m ''t'')) = 2" "gather_data (init_task ?m ''t'') = []"
    by (simp_all add: init_new new_info_def)
  have cs: "\<forall>c \<in> set ?cs. fst c < (2 :: nat)" by simp
  obtain rows m' where F: "feed ''t'' ?cs ?m = Some (rows, m')"
    and R: "\<forall>r < length rows. length (rows ! r) = 2 \<and> (\<forall>k < 2. rows ! r ! k = contributions k ?cs ! r)"
    and len: "\<exists>k < 2. length rows = length (contributions k ?cs)" "\<forall>k < 2. length rows \<le> length (contributions k ?cs)"
    using gather_rows_in_step[OF cs m(1,2) _ m(3)] by auto
  have c: "contributions 0 ?cs = [Data 20]" "contributions 1 ?cs = [Data 10, Data 30]" by (simp_all add: contributions_def)
  have "length rows = 1"
  proof -
    obtain k where "k < 2" "length rows = length (contributions k ?cs)" using len(1) by blast
    moreover have "length rows \<le> 1" using spec[OF len(2), of 0] c(1) by simp
    ultimately show ?thesis using c by (cases k) (auto simp: less_2_cases_iff)
  qed
  then obtain row where row: "rows = [row]" by (cases rows) auto
  then have "length row = 2" "row ! 0 = Data 20" "row ! 1 = Data 10" using R c by auto
  then have "row = [Data 20, Data 10]" by (auto intro!: nth_equalityI simp: less_2_cases_iff)
  then show ?thesis using F row by blast
qed

end
