(* ===== verification/Task_Order.thy ===== *)
theory Task_Order
  imports Task_Dag "HOL-Library.Sublist"
begin

text \<open>
  When the running order exists and what it promises. \<open>runnable\<close> is the least set of tasks that can be run:
  a head, or a successor of a runnable task, all of whose predecessors are runnable. The loop returns exactly if
  every task that enters its queue is runnable.
\<close>

section \<open>Runnable tasks\<close>

inductive_set runnable :: "string list \<Rightarrow> task_flow \<Rightarrow> string set" for heads flow where
  head: "t \<in> set heads \<Longrightarrow> (\<And>p. p \<in> set (get_prev_task_names flow t) \<Longrightarrow> p \<in> runnable heads flow) \<Longrightarrow> t \<in> runnable heads flow"
| successor: "p \<in> runnable heads flow \<Longrightarrow> t \<in> set (get_next_task_names flow p) \<Longrightarrow>
    (\<And>p. p \<in> set (get_prev_task_names flow t) \<Longrightarrow> p \<in> runnable heads flow) \<Longrightarrow> t \<in> runnable heads flow"

definition entered :: "string list \<Rightarrow> task_flow \<Rightarrow> string set" where
  "entered heads flow = set heads \<union> (\<Union>p \<in> runnable heads flow. set (get_next_task_names flow p))"

lemma runnable_iff:
  "t \<in> runnable heads flow \<longleftrightarrow> t \<in> entered heads flow \<and> set (get_prev_task_names flow t) \<subseteq> runnable heads flow"
  by (auto simp: entered_def intro: runnable.intros elim: runnable.cases)

lemma runnable_finite: "finite (runnable heads flow)"
proof -
  have "runnable heads flow \<subseteq> set heads \<union> (\<Union>t. set (get_next_task_names flow t))"
    by (auto elim: runnable.cases)
  then show ?thesis by (rule finite_subset) (simp only: finite_Un finite_set next_names_finite simp_thms)
qed

text \<open>A list in which every task comes after its predecessors.\<close>

definition follows_prevs :: "task_flow \<Rightarrow> string list \<Rightarrow> bool" where
  "follows_prevs flow ord \<longleftrightarrow> (\<forall>i < length ord. set (get_prev_task_names flow (ord ! i)) \<subseteq> set (take i ord))"

lemma follows_prevs_snoc:
  "follows_prevs flow (ord @ [t]) \<longleftrightarrow> follows_prevs flow ord \<and> set (get_prev_task_names flow t) \<subseteq> set ord"
  by (auto simp: follows_prevs_def nth_append less_Suc_eq)

lemma follows_prevs_Nil [simp]: "follows_prevs flow []"
  by (simp add: follows_prevs_def)

section \<open>The invariant of the loop\<close>

definition order_inv :: "string list \<Rightarrow> task_flow \<Rightarrow> string list \<Rightarrow> string list \<Rightarrow> bool" where
  "order_inv heads flow queue ord \<longleftrightarrow>
     distinct ord \<and> set ord \<subseteq> runnable heads flow \<and> set queue \<subseteq> entered heads flow \<and>
     set heads \<union> (\<Union>p \<in> set ord. set (get_next_task_names flow p)) \<subseteq> set queue \<union> set ord \<and> follows_prevs flow ord"

lemma order_inv_init: "order_inv heads flow heads []"
  by (auto simp: order_inv_def entered_def)

lemma order_inv_done: "order_inv heads flow (t # q) ord \<Longrightarrow> t \<in> set ord \<Longrightarrow> order_inv heads flow q ord"
  by (auto simp: order_inv_def)

lemma order_inv_rotate: "order_inv heads flow (t # q) ord \<Longrightarrow> order_inv heads flow (q @ [t]) ord"
  by (auto simp: order_inv_def)

lemma order_inv_run:
  assumes inv: "order_inv heads flow (t # q) ord" and t: "t \<notin> set ord" "set (get_prev_task_names flow t) \<subseteq> set ord"
  shows "order_inv heads flow (q @ get_next_task_names flow t) (ord @ [t])" "t \<in> runnable heads flow"
proof -
  show run: "t \<in> runnable heads flow" using inv t by (auto simp: order_inv_def runnable_iff[of t])
  then have "set (get_next_task_names flow t) \<subseteq> entered heads flow" by (auto simp: entered_def)
  then show "order_inv heads flow (q @ get_next_task_names flow t) (ord @ [t])"
    using inv t run by (auto simp: order_inv_def follows_prevs_snoc)
qed

text \<open>As long as a runnable task is not done, one that is ready waits in the queue.\<close>

lemma ready_in_queue:
  assumes inv: "order_inv heads flow queue ord"
  shows "t \<in> runnable heads flow \<Longrightarrow> t \<notin> set ord \<Longrightarrow> \<exists>u \<in> set queue. u \<notin> set ord \<and> set (get_prev_task_names flow u) \<subseteq> set ord"
proof (induction rule: runnable.induct)
  case (head t)
  then show ?case using inv by (cases "set (get_prev_task_names flow t) \<subseteq> set ord") (auto simp: order_inv_def)
next
  case (successor p t)
  consider "p \<notin> set ord" | "p \<in> set ord" "set (get_prev_task_names flow t) \<subseteq> set ord"
    | q where "q \<in> set (get_prev_task_names flow t)" "q \<notin> set ord" by blast
  then show ?case
  proof cases
    case 2
    then have "t \<in> set queue" using inv successor.hyps successor.prems by (auto simp: order_inv_def)
    then show ?thesis using 2 successor.prems by blast
  qed (use successor in blast)+
qed

section \<open>Partial correctness\<close>

lemma run_loop_Nil [simp]: "run_loop flow [] ord = Some ord"
  by (subst run_loop.simps) simp

lemma run_loop_Cons:
  "run_loop flow (t # q) ord =
     (if t \<in> set ord then run_loop flow q ord
      else if set (get_prev_task_names flow t) \<subseteq> set ord then run_loop flow (q @ get_next_task_names flow t) (ord @ [t])
      else run_loop flow (q @ [t]) ord)"
  by (subst run_loop.simps) (auto simp: list_all_iff subset_iff)

lemma run_loop_partial:
  assumes "run_loop flow queue ord = Some res" "order_inv heads flow queue ord"
  shows "order_inv heads flow [] res"
proof -
  have "order_inv heads flow queue ord \<longrightarrow> order_inv heads flow [] res"
  proof (rule run_loop.raw_induct[OF _ assms(1), where P = "\<lambda>fl queue ord res. fl = flow \<longrightarrow> order_inv heads flow queue ord \<longrightarrow> order_inv heads flow [] res", THEN mp])
    fix f fl queue ord res
    assume IH: "\<And>fl queue ord res. f fl queue ord = Some res \<Longrightarrow> fl = flow \<longrightarrow> order_inv heads flow queue ord \<longrightarrow> order_inv heads flow [] res"
      and run: "(case queue of [] \<Rightarrow> Some ord
          | t # q \<Rightarrow> if t \<in> set ord then f fl q ord
              else if list_all (\<lambda>p. p \<in> set ord) (get_prev_task_names fl t) then f fl (q @ get_next_task_names fl t) (ord @ [t])
              else f fl (q @ [t]) ord) = Some res"
    show "fl = flow \<longrightarrow> order_inv heads flow queue ord \<longrightarrow> order_inv heads flow [] res"
    proof (intro impI)
      assume fl: "fl = flow" and inv: "order_inv heads flow queue ord"
      show "order_inv heads flow [] res"
      proof (cases queue)
        case Nil
        then show ?thesis using run inv by simp
      next
        case (Cons t q)
        consider "t \<in> set ord" | "t \<notin> set ord" "set (get_prev_task_names flow t) \<subseteq> set ord"
          | "t \<notin> set ord" "\<not> set (get_prev_task_names flow t) \<subseteq> set ord" by blast
        then show ?thesis
        proof cases
          case 1
          then show ?thesis using IH[of fl q ord res] run Cons fl inv order_inv_done by simp
        next
          case 2
          then show ?thesis using IH[of fl "q @ get_next_task_names flow t" "ord @ [t]" res] run Cons fl inv order_inv_run(1)[of heads flow t q ord]
            by (simp add: list_all_iff subset_iff)
        next
          case 3
          then have "\<not> list_all (\<lambda>p. p \<in> set ord) (get_prev_task_names fl t)" using fl by (auto simp: list_all_iff)
          then show ?thesis using 3 IH[of fl "q @ [t]" ord res] run Cons fl inv order_inv_rotate[of heads flow t q ord] by simp
        qed
      qed
    qed
  qed simp
  then show ?thesis using assms(2) by blast
qed

lemma runnable_all_done: "order_inv heads flow [] ord \<Longrightarrow> set ord = runnable heads flow"
  using ready_in_queue[of heads flow "[]" ord] by (auto simp: order_inv_def)

section \<open>Termination\<close>

text \<open>The tasks at the front of the queue that are neither done nor ready.\<close>

definition blocked :: "task_flow \<Rightarrow> string list \<Rightarrow> string \<Rightarrow> bool" where
  "blocked flow ord t \<longleftrightarrow> t \<notin> set ord \<and> \<not> set (get_prev_task_names flow t) \<subseteq> set ord"

lemma run_loop_total:
  "order_inv heads flow queue ord \<Longrightarrow> entered heads flow \<subseteq> runnable heads flow \<Longrightarrow> \<exists>res. run_loop flow queue ord = Some res"
proof (induction "(queue, ord)" arbitrary: queue ord
    rule: wf_induct[where r = "measures [\<lambda>(q, ord). card (runnable heads flow - set ord), \<lambda>(q, ord). length q,
      \<lambda>(q, ord). length (takeWhile (blocked flow ord) q)]", OF wf_measures])
  case 1
  note IH = 1(1)[rule_format, OF _ refl] and inv = 1(2) and ent = 1(3)
  show ?case
  proof (cases queue)
    case (Cons t q)
    consider "t \<in> set ord" | "t \<notin> set ord" "set (get_prev_task_names flow t) \<subseteq> set ord" | "blocked flow ord t"
      by (auto simp: blocked_def)
    then show ?thesis
    proof cases
      case 1
      then show ?thesis using IH[of q ord] Cons inv ent order_inv_done by (auto simp: run_loop_Cons)
    next
      case 2
      note run = order_inv_run[OF inv[unfolded Cons] 2]
      have "card (runnable heads flow - set (ord @ [t])) < card (runnable heads flow - set ord)"
        by (rule psubset_card_mono) (use run(2) 2 runnable_finite in auto)
      then have "\<exists>res. run_loop flow (q @ get_next_task_names flow t) (ord @ [t]) = Some res"
        by (intro IH run(1) ent) simp
      then show ?thesis using 2 Cons by (simp add: run_loop_Cons)
    next
      case 3
      have "t \<in> runnable heads flow" using inv ent Cons by (auto simp: order_inv_def)
      then obtain u where u: "u \<in> set q" "\<not> blocked flow ord u"
        using ready_in_queue[OF inv, of t] 3 Cons by (auto simp: blocked_def)
      then have "takeWhile (blocked flow ord) (q @ [t]) = takeWhile (blocked flow ord) q" by (rule takeWhile_append1)
      then have "\<exists>res. run_loop flow (q @ [t]) ord = Some res"
        using IH[of "q @ [t]" ord] 3 Cons inv ent order_inv_rotate[of heads flow t q ord] by simp
      then show ?thesis using 3 Cons by (auto simp: run_loop_Cons blocked_def)
    qed
  qed simp
qed

lemma run_order_result:
  assumes "get_task_run_order heads flow = Some ord"
  shows "set ord = runnable heads flow" "distinct ord" "follows_prevs flow ord" "entered heads flow \<subseteq> runnable heads flow"
proof -
  have inv: "order_inv heads flow [] ord"
    using run_loop_partial[OF _ order_inv_init] assms unfolding get_task_run_order_def by blast
  show "set ord = runnable heads flow" by (rule runnable_all_done[OF inv])
  then show "distinct ord" "follows_prevs flow ord" "entered heads flow \<subseteq> runnable heads flow"
    using inv by (auto simp: order_inv_def entered_def)
qed

lemma run_order_exists:
  "entered heads flow \<subseteq> runnable heads flow \<Longrightarrow> \<exists>ord. get_task_run_order heads flow = Some ord"
  unfolding get_task_run_order_def by (rule run_loop_total[OF order_inv_init])

end
