(* ===== verification/Task_Graph.thy ===== *)
theory Task_Graph
  imports Task_Order
begin

text \<open>
  The graph that \<open>get_dag\<close> builds: its edges are the producer relation of the registered tasks, restricted to
  the tasks the exporters need; the restriction to one data source keeps what the source reaches. The
  properties of the running order follow.
\<close>

section \<open>Needed tasks\<close>

definition producers_of :: "regs \<Rightarrow> string \<Rightarrow> string set" where
  "producers_of regs t = (case dict_get regs t of None \<Rightarrow> {} | Some r \<Rightarrow> set (producers regs r))"

inductive_set needed :: "regs \<Rightarrow> string list \<Rightarrow> string set" for regs exporters where
  exporter: "t \<in> set exporters \<Longrightarrow> t \<in> needed regs exporters"
| producer: "t \<in> needed regs exporters \<Longrightarrow> p \<in> producers_of regs t \<Longrightarrow> p \<in> needed regs exporters"

section \<open>Edges\<close>

lemma prev_upd:
  "get_prev_task_names (upd_default no_task k f flow) x =
     (if x = k then prev_task (f (case dict_get flow k of None \<Rightarrow> no_task | Some e \<Rightarrow> e)) else get_prev_task_names flow x)"
  "get_next_task_names (upd_default no_task k f flow) x =
     (if x = k then next_task (f (case dict_get flow k of None \<Rightarrow> no_task | Some e \<Rightarrow> e)) else get_next_task_names flow x)"
  by (simp_all add: get_prev_task_names_def get_next_task_names_def upd_default_def)

lemma edge_default:
  "prev_task (case dict_get flow k of None \<Rightarrow> no_task | Some e \<Rightarrow> e) = get_prev_task_names flow k"
  "next_task (case dict_get flow k of None \<Rightarrow> no_task | Some e \<Rightarrow> e) = get_next_task_names flow k"
  by (simp_all add: get_prev_task_names_def get_next_task_names_def split: option.split)

lemma link_edges:
  "get_prev_task_names (fst (link_prev t p (flow, tasks))) x = get_prev_task_names flow x @ (if x = t then [p] else [])"
  "get_next_task_names (fst (link_prev t p (flow, tasks))) x = get_next_task_names flow x @ (if x = p then [t] else [])"
  by (simp_all add: link_prev_def prev_upd edge_default)

lemma link_all_edges:
  "get_prev_task_names (fst (fold (link_prev t) ps acc)) x = get_prev_task_names (fst acc) x @ (if x = t then ps else []) \<and>
   set (get_next_task_names (fst (fold (link_prev t) ps acc)) x) =
     set (get_next_task_names (fst acc) x) \<union> (if x \<in> set ps then {t} else {})"
proof (induction ps arbitrary: acc)
  case (Cons p ps)
  have "get_prev_task_names (fst (link_prev t p acc)) x = get_prev_task_names (fst acc) x @ (if x = t then [p] else [])"
      "get_next_task_names (fst (link_prev t p acc)) x = get_next_task_names (fst acc) x @ (if x = p then [t] else [])"
    using link_edges[of t p "fst acc" "snd acc" x] by simp_all
  then show ?case using Cons[of "link_prev t p acc"]
    by (cases "x = t"; cases "x = p"; cases "x \<in> set ps"; simp)
qed simp

lemma visit_edges:
  "set (get_prev_task_names (fst (visit_task regs t r (flow, tasks))) x) =
     set (get_prev_task_names flow x) \<union> (if x = t then set (producers regs r) else {})"
  "set (get_next_task_names (fst (visit_task regs t r (flow, tasks))) x) =
     set (get_next_task_names flow x) \<union> (if x \<in> set (producers regs r) then {t} else {})"
  unfolding visit_task_def link_all_edges[THEN conjunct1] link_all_edges[THEN conjunct2] fst_conv snd_conv prev_upd id_apply edge_default by (cases "x = t"; simp)+

section \<open>The walk\<close>

definition walk_inv :: "regs \<Rightarrow> string list \<Rightarrow> nat \<Rightarrow> string list \<Rightarrow> task_flow \<Rightarrow> string list \<Rightarrow> bool" where
  "walk_inv regs exporters i tasks flow heads \<longleftrightarrow>
     set exporters \<subseteq> set tasks \<and> set tasks \<subseteq> needed regs exporters \<and>
     (\<forall>t. set (get_prev_task_names flow t) = (if t \<in> set (take i tasks) then producers_of regs t else {})) \<and>
     (\<forall>p. set (get_next_task_names flow p) = {t \<in> set (take i tasks). p \<in> producers_of regs t}) \<and>
     (\<Union>t \<in> set (take i tasks). producers_of regs t) \<subseteq> set tasks \<and>
     set heads = {t \<in> set (take i tasks). \<exists>r. dict_get regs t = Some r \<and> data_depends r = [''prof_path'']}"

lemma walk_inv_init: "walk_inv regs exporters 0 exporters [] []"
  by (auto simp: walk_inv_def get_prev_task_names_def get_next_task_names_def intro: needed.exporter)

lemma walk_inv_step:
  assumes inv: "walk_inv regs exporters i tasks flow heads" and i: "i < length tasks" and r: "dict_get regs (tasks ! i) = Some r"
    and v: "visit_task regs (tasks ! i) r (flow, tasks) = (flow', tasks')"
  shows "walk_inv regs exporters (Suc i) tasks' flow'
    (if data_depends r = [''prof_path''] \<and> tasks ! i \<notin> set heads then heads @ [tasks ! i] else heads)"
proof -
  let ?t = "tasks ! i"
  have p: "producers_of regs ?t = set (producers regs r)" by (simp add: producers_of_def r)
  obtain new where new: "tasks' = tasks @ new" "set new = producers_of regs ?t - set tasks"
    using visit_new_names[of regs ?t r flow tasks] v p by auto
  have take: "set (take (Suc i) tasks') = insert ?t (set (take i tasks))"
    using i by (simp add: new(1) take_Suc_conv_app_nth nth_append)
  have "?t \<in> needed regs exporters" using inv i by (auto simp: walk_inv_def)
  then have "set tasks' \<subseteq> needed regs exporters"
    using inv new by (auto simp: walk_inv_def intro: needed.producer)
  moreover have "set (get_prev_task_names flow' t) = (if t \<in> set (take (Suc i) tasks') then producers_of regs t else {})" for t
    using inv visit_edges(1)[of regs ?t r flow tasks t] unfolding take walk_inv_def by (auto simp: v p)
  moreover have "set (get_next_task_names flow' q) = {t \<in> set (take (Suc i) tasks'). q \<in> producers_of regs t}" for q
    using inv visit_edges(2)[of regs ?t r flow tasks q] unfolding take walk_inv_def by (auto simp: v p)
  moreover have "set exporters \<subseteq> set tasks'" "(\<Union>t \<in> set (take (Suc i) tasks'). producers_of regs t) \<subseteq> set tasks'"
    using inv new unfolding take walk_inv_def by auto
  ultimately show ?thesis using inv r unfolding walk_inv_def take by auto
qed

lemma walk_result:
  "walk_tasks regs i tasks flow heads = Some (flow', heads') \<Longrightarrow> walk_inv regs exporters i tasks flow heads \<Longrightarrow>
   \<exists>tasks'. walk_inv regs exporters (length tasks') tasks' flow' heads'"
proof (induction regs i tasks flow heads rule: walk_tasks.induct)
  case (1 regs i tasks flow heads)
  show ?case
  proof (cases "i < length tasks")
    case True
    then obtain r where r: "dict_get regs (tasks ! i) = Some r"
      using "1.prems"(1) by (cases "dict_get regs (tasks ! i)") (simp_all add: walk_tasks.simps[of regs i])
    obtain flow1 tasks1 where v: "visit_task regs (tasks ! i) r (flow, tasks) = (flow1, tasks1)" by fastforce
    show ?thesis
      by (rule "1.IH"[OF True r v[symmetric]])
        (use "1.prems"(1) True r v walk_inv_step[OF "1.prems"(2) True r v] in \<open>simp_all add: walk_tasks.simps[of regs i]\<close>)
  next
    case False
    then have "walk_inv regs exporters (length tasks) tasks flow' heads'"
      using "1.prems" by (simp add: walk_tasks.simps[of regs i] walk_inv_def)
    then show ?thesis by blast
  qed
qed

lemma walk_total:
  "set tasks \<subseteq> set (dict_keys regs) \<Longrightarrow> walk_tasks regs i tasks flow heads \<noteq> None"
proof (induction regs i tasks flow heads rule: walk_tasks.induct)
  case (1 regs i tasks flow heads)
  show ?case
  proof (cases "i < length tasks")
    case True
    then have "tasks ! i \<in> set (dict_keys regs)" using "1.prems" nth_mem by blast
    then obtain r where r: "dict_get regs (tasks ! i) = Some r"
      by (cases "dict_get regs (tasks ! i)") (auto simp: map_of_eq_None_iff)
    obtain flow1 tasks1 where v: "visit_task regs (tasks ! i) r (flow, tasks) = (flow1, tasks1)" by fastforce
    have "set tasks1 \<subseteq> set (dict_keys regs)"
      using visit_new_names[of regs "tasks ! i" r flow tasks] v "1.prems" producers_registered[of regs r] by auto
    from "1.IH"[OF True r v[symmetric] this] show ?thesis
      by (simp add: walk_tasks.simps[of regs i] True r v)
  qed (simp add: walk_tasks.simps[of regs i])
qed

text \<open>The edges of the finished graph.\<close>

lemma walk_graph:
  assumes "walk_tasks regs 0 exporters [] [] = Some (flow, heads)"
  shows "set (get_prev_task_names flow t) = (if t \<in> needed regs exporters then producers_of regs t else {})"
    "set (get_next_task_names flow p) = {t \<in> needed regs exporters. p \<in> producers_of regs t}"
    "set heads = {t \<in> needed regs exporters. \<exists>r. dict_get regs t = Some r \<and> data_depends r = [''prof_path'']}"
proof -
  obtain tasks where inv: "walk_inv regs exporters (length tasks) tasks flow heads"
    using walk_result[OF assms walk_inv_init] by blast
  have "t \<in> set tasks" if "t \<in> needed regs exporters" for t
    using that inv by induction (auto simp: walk_inv_def)
  then have "set tasks = needed regs exporters" using inv by (auto simp: walk_inv_def)
  then show "set (get_prev_task_names flow t) = (if t \<in> needed regs exporters then producers_of regs t else {})"
      "set (get_next_task_names flow p) = {t \<in> needed regs exporters. p \<in> producers_of regs t}"
      "set heads = {t \<in> needed regs exporters. \<exists>r. dict_get regs t = Some r \<and> data_depends r = [''prof_path'']}"
    using inv by (auto simp: walk_inv_def)
qed

text \<open>With an acyclic producer relation in which only data sources have no producer, every needed task can run.\<close>

definition grounded :: "regs \<Rightarrow> string list \<Rightarrow> bool" where
  "grounded regs exporters \<longleftrightarrow>
     (\<forall>t \<in> needed regs exporters. producers_of regs t \<noteq> {} \<or> (\<exists>r. dict_get regs t = Some r \<and> data_depends r = [''prof_path'']))"

lemma needed_runnable:
  assumes walk: "walk_tasks regs 0 exporters [] [] = Some (flow, heads)" and g: "grounded regs exporters"
    and rank: "\<And>t p. t \<in> needed regs exporters \<Longrightarrow> p \<in> producers_of regs t \<Longrightarrow> rank p < (rank t :: nat)"
    and hs: "set hs = set heads"
  shows "t \<in> needed regs exporters \<Longrightarrow> t \<in> runnable hs flow"
proof (induction "rank t" arbitrary: t rule: less_induct)
  case less
  note G = walk_graph[OF walk]
  have prevs: "q \<in> runnable hs flow" if "q \<in> set (get_prev_task_names flow t)" for q
    using that less rank needed.producer[of t] by (simp add: G(1))
  show ?case
  proof (cases "producers_of regs t = {}")
    case True
    then have "t \<in> set hs" using g less.prems by (auto simp: grounded_def hs G(3))
    then show ?thesis using prevs by (rule runnable.head)
  next
    case False
    then obtain p where p: "p \<in> producers_of regs t" by blast
    then have "t \<in> set (get_next_task_names flow p)" "p \<in> runnable hs flow"
      using less.prems prevs by (simp_all add: G(1,2))
    then show ?thesis using prevs by (blast intro: runnable.successor)
  qed
qed

lemma entered_needed:
  assumes "walk_tasks regs 0 exporters [] [] = Some (flow, heads)" "set hs = set heads"
  shows "entered hs flow \<subseteq> needed regs exporters"
  using assms(2) walk_graph(2,3)[OF assms(1)] by (auto simp: entered_def)

lemma get_dag_ordered:
  assumes exp: "set exporters \<subseteq> set (dict_keys regs)" and ord: "\<And>xs. set (order xs) = set xs"
    and g: "grounded regs exporters"
    and rank: "\<And>t p. t \<in> needed regs exporters \<Longrightarrow> p \<in> producers_of regs t \<Longrightarrow> rank p < (rank t :: nat)"
  shows "\<exists>dag. get_dag regs order exporters = Some (Inr dag) \<and> set (ordered_tasks_name dag) = needed regs exporters \<and>
    distinct (ordered_tasks_name dag) \<and>
    (\<forall>i < length (ordered_tasks_name dag). producers_of regs (ordered_tasks_name dag ! i) \<subseteq> set (take i (ordered_tasks_name dag)))"
proof -
  obtain flow heads where walk: "walk_tasks regs 0 exporters [] [] = Some (flow, heads)"
    using walk_total[OF exp, of 0 "[]" "[]"] by fastforce
  have run: "t \<in> runnable (order heads) flow" if "t \<in> needed regs exporters" for t
    by (rule needed_runnable[OF walk g _ ord that]) (rule rank)
  note ent = entered_needed[OF walk ord[of heads]]
  have "entered (order heads) flow \<subseteq> runnable (order heads) flow" using ent run by blast
  then obtain ordered where o: "get_task_run_order (order heads) flow = Some ordered" using run_order_exists by blast
  note R = run_order_result[OF o]
  have "runnable (order heads) flow \<subseteq> entered (order heads) flow" using runnable_iff by blast
  then have all: "set ordered = needed regs exporters" using R(1) run ent by blast
  have "producers_of regs (ordered ! i) \<subseteq> set (take i ordered)" if "i < length ordered" for i
  proof -
    have "set (get_prev_task_names flow (ordered ! i)) \<subseteq> set (take i ordered)" using that R(3) by (simp add: follows_prevs_def)
    moreover have "ordered ! i \<in> needed regs exporters" using nth_mem[OF that] all by simp
    ultimately show ?thesis by (simp add: walk_graph(1)[OF walk])
  qed
  then show ?thesis using R(2) all by (simp add: get_dag_def walk o)
qed

section \<open>What one data source reaches\<close>

inductive_set reached :: "task_flow \<Rightarrow> string \<Rightarrow> string set" for flow source where
  source: "source \<in> reached flow source"
| step: "t \<in> reached flow source \<Longrightarrow> n \<in> set (get_next_task_names flow t) \<Longrightarrow> n \<in> reached flow source"

lemma filter_walk_set:
  "set walk \<subseteq> reached flow s \<Longrightarrow> (\<Union>t \<in> set (take i walk). set (get_next_task_names flow t)) \<subseteq> set walk \<Longrightarrow> s \<in> set walk \<Longrightarrow>
   set (filter_walk flow i walk) = reached flow s"
proof (induction flow i walk rule: filter_walk.induct)
  case (1 flow i walk)
  show ?case
  proof (cases "i < length walk")
    case True
    obtain new where new: "new_next flow (walk ! i) walk = walk @ new" "set new = set (get_next_task_names flow (walk ! i)) - set walk"
      using fold_new_names[of "get_next_task_names flow (walk ! i)" walk] unfolding new_next_def by metis
    have w: "walk ! i \<in> reached flow s" using "1.prems"(1) nth_mem[OF True] by blast
    have sub: "set (walk @ new) \<subseteq> reached flow s"
      using "1.prems"(1) w by (auto simp: new(2) intro: reached.step)
    have closed: "(\<Union>t \<in> set (take (Suc i) (walk @ new)). set (get_next_task_names flow t)) \<subseteq> set (walk @ new)"
      using "1.prems"(2) True new(2) by (auto simp: take_Suc_conv_app_nth nth_append)
    show ?thesis unfolding filter_walk.simps[of flow i]
      using "1.IH"[OF True, unfolded new(1), OF sub closed] "1.prems"(3) True by (simp add: new(1))
  next
    case False
    have "t \<in> set walk" if "t \<in> reached flow s" for t
      using that by induction (use "1.prems" False in auto)
    then show ?thesis using False "1.prems"(1) by (auto simp: filter_walk.simps[of flow i])
  qed
qed

lemma filter_walk_reached: "set (filter_walk flow 0 [s]) = reached flow s"
  by (rule filter_walk_set) (auto intro: reached.source)

lemma filter_dag_order:
  "ordered_tasks_name (filter_dag dag s) = filter (\<lambda>t. t \<in> reached (dag_task_flow dag) s) (ordered_tasks_name dag)"
  by (simp add: filter_dag_def Let_def filter_walk_reached)

section \<open>Properties\<close>

text \<open>
  Property C17. The loop that orders the tasks returns if and only if every task that ever enters its queue, a head or a
  successor of a task that was run, has all its predecessors among the runnable tasks; a cycle or a
  predecessor that is not reached makes it run forever.
\<close>

theorem run_order_returns_iff:
  "(\<exists>ord. get_task_run_order heads flow = Some ord) \<longleftrightarrow> entered heads flow \<subseteq> runnable heads flow"
proof
  assume "\<exists>ord. get_task_run_order heads flow = Some ord"
  then show "entered heads flow \<subseteq> runnable heads flow" using run_order_result(4) by blast
qed (rule run_order_exists)

text \<open>
  Property C18. For registered exporters whose producer relation has no cycle and in which only data sources have no
  producer, the graph is built and ordered: the order holds every task the exporters need exactly once, each
  after all tasks that produce its data, whatever order the set of data sources has.
\<close>

theorem dag_order_complete:
  assumes "set exporters \<subseteq> set (dict_keys regs)" "\<And>xs. set (order xs) = set xs" "grounded regs exporters"
    and "\<forall>t \<in> needed regs exporters. \<forall>p \<in> producers_of regs t. rank p < (rank t :: nat)"
  shows "\<exists>dag. get_dag regs order exporters = Some (Inr dag) \<and> set (ordered_tasks_name dag) = needed regs exporters \<and>
    distinct (ordered_tasks_name dag) \<and>
    (\<forall>i < length (ordered_tasks_name dag). producers_of regs (ordered_tasks_name dag ! i) \<subseteq> set (take i (ordered_tasks_name dag)))"
  using assms(4) by (intro get_dag_ordered[OF assms(1-3), of rank]) blast

definition example_regs :: regs where
  "example_regs =
     [(''db'', \<lparr>data_depends = [''prof_path''], data_outputs = [''data_source:service'']\<rparr>),
      (''torch'', \<lparr>data_depends = [''prof_path''], data_outputs = [''data_source:torch_profiler'']\<rparr>),
      (''service'', \<lparr>data_depends = [''data_source:service''], data_outputs = [''pipeline:service'']\<rparr>),
      (''trace'', \<lparr>data_depends = [''pipeline:service'', ''data_source:torch_profiler''], data_outputs = [''trace'']\<rparr>)]"

lemma example_producers:
  "producers_of example_regs ''db'' = {}" "producers_of example_regs ''torch'' = {}"
  "producers_of example_regs ''service'' = {''db''}" "producers_of example_regs ''trace'' = {''service'', ''torch''}"
  by code_simp+

lemma example_needed: "needed example_regs [''trace''] \<subseteq> {''db'', ''torch'', ''service'', ''trace''}"
proof
  fix t assume "t \<in> needed example_regs [''trace'']"
  then show "t \<in> {''db'', ''torch'', ''service'', ''trace''}"
    by induction (auto simp: example_producers)
qed

theorem dag_order_complete_witness:
  "\<exists>dag. get_dag example_regs rev [''trace''] = Some (Inr dag) \<and>
     set (ordered_tasks_name dag) = needed example_regs [''trace''] \<and> distinct (ordered_tasks_name dag)"
proof -
  have depends: "\<exists>r. dict_get example_regs t = Some r \<and> data_depends r = [''prof_path'']" if "t \<in> {''db'', ''torch''}" for t
    using that by (auto simp: example_regs_def)
  have g: "grounded example_regs [''trace'']"
    unfolding grounded_def
  proof
    fix t assume "t \<in> needed example_regs [''trace'']"
    then have t: "t \<in> {''db'', ''torch'', ''service'', ''trace''}" by (rule subsetD[OF example_needed])
    then consider "t \<in> {''db'', ''torch''}" | "t = ''service''" | "t = ''trace''" by blast
    then show "producers_of example_regs t \<noteq> {} \<or> (\<exists>r. dict_get example_regs t = Some r \<and> data_depends r = [''prof_path''])"
    proof cases
      case 1
      then show ?thesis by (intro disjI2 depends)
    next
      case 2
      show ?thesis unfolding 2 example_producers(3) by (rule disjI1) (rule insert_not_empty)
    next
      case 3
      show ?thesis unfolding 3 example_producers(4) by (rule disjI1) (rule insert_not_empty)
    qed
  qed
  define rank :: "string \<Rightarrow> nat" where "rank t = (if t = ''trace'' then 2 else if t = ''service'' then 1 else 0)" for t
  have rank: "rank p < rank t" if "t \<in> needed example_regs [''trace'']" "p \<in> producers_of example_regs t" for t p
  proof -
    have "t \<in> {''db'', ''torch'', ''service'', ''trace''}" by (rule subsetD[OF example_needed that(1)])
    then consider "t = ''db''" | "t = ''torch''" | "t = ''service''" | "t = ''trace''" by blast
    then show ?thesis using that(2) by cases (auto simp: example_producers rank_def)
  qed
  have "set [''trace''] \<subseteq> set (dict_keys example_regs)" by (simp add: example_regs_def)
  moreover have "\<forall>t \<in> needed example_regs [''trace'']. \<forall>p \<in> producers_of example_regs t. rank p < rank t" using rank by blast
  ultimately show ?thesis using dag_order_complete[OF _ _ g, of rev rank] by (auto simp del: set_simps)
qed

end
