(* ===== verification/Task_Plan.thy ===== *)
theory Task_Plan
  imports Task_Gather Task_Graph
begin

text \<open>
  The static plan of a run: the order of all tasks, the tasks each data source reaches, and the
  position of a pool in its list of tasks. The invariant of the manager is stated over these positions.
\<close>

section \<open>Positions\<close>

text \<open>The successor of a task in the list of a pool, as \<open>task_run\<close> reads it from \<open>get_ordered_task_names\<close>.\<close>

definition next_of :: "string list \<Rightarrow> string \<Rightarrow> string option" where
  "next_of tasks t = (case map_of (get_ordered_task_names tasks) t of None \<Rightarrow> None | Some n \<Rightarrow> n)"

text \<open>What a pool has still to run, the current task included.\<close>

definition rest_of :: "string list \<Rightarrow> string option \<Rightarrow> string list" where
  "rest_of tasks here = (case here of None \<Rightarrow> [] | Some t \<Rightarrow> dropWhile (\<lambda>x. x \<noteq> t) tasks)"

lemma rest_of_split: "t \<notin> set pre \<Longrightarrow> rest_of (pre @ t # post) (Some t) = t # post"
proof -
  assume "t \<notin> set pre"
  then have "\<And>x. x \<in> set pre \<Longrightarrow> x \<noteq> t" by auto
  then show ?thesis by (simp add: rest_of_def dropWhile_append2)
qed

lemma ordered_names_split:
  "get_ordered_task_names (pre @ t # post) =
     map (\<lambda>i. (pre ! i, Some ((pre @ [t]) ! Suc i))) [0..<length pre] @ get_ordered_task_names (t # post)"
  by (auto simp: get_ordered_task_names_def nth_append intro!: nth_equalityI)

lemma next_of_split:
  assumes "t \<notin> set pre"
  shows "next_of (pre @ t # post) t = (case post of [] \<Rightarrow> None | n # _ \<Rightarrow> Some n)"
proof -
  have "map_of (map (\<lambda>i. (pre ! i, Some ((pre @ [t]) ! Suc i))) [0..<length pre]) t = None"
    using assms by (auto simp: map_of_eq_None_iff)
  moreover have "get_ordered_task_names (t # post) = (t, case post of [] \<Rightarrow> None | n # _ \<Rightarrow> Some n) # tl (get_ordered_task_names (t # post))"
    by (cases post) (simp_all add: get_ordered_task_names_def upt_conv_Cons del: upt_Suc)
  then have "map_of (get_ordered_task_names (t # post)) t = Some (case post of [] \<Rightarrow> None | n # _ \<Rightarrow> Some n)"
    by (metis map_of_Cons_code(2) fst_conv snd_conv map_of.simps(2) fun_upd_same)
  ultimately show ?thesis by (simp add: next_of_def ordered_names_split map_add_def)
qed

text \<open>The next position.\<close>

lemma rest_of_next:
  assumes "distinct tasks" "t \<in> set tasks"
  shows "rest_of tasks (Some t) = t # rest_of tasks (next_of tasks t)" "t \<notin> set (rest_of tasks (next_of tasks t))"
    "next_of tasks t = Some n \<Longrightarrow> n \<in> set tasks" "next_of tasks t \<noteq> Some t"
proof -
  obtain pre post where s: "tasks = pre @ t # post" "t \<notin> set pre" using assms(2) by (metis split_list_first)
  have "rest_of tasks (next_of tasks t) = post"
  proof (cases post)
    case (Cons n post')
    have "n \<notin> set (pre @ [t])" using assms(1) s Cons by auto
    then have "rest_of ((pre @ [t]) @ n # post') (Some n) = n # post'" by (rule rest_of_split)
    then show ?thesis using s Cons next_of_split[OF s(2), of post] by simp
  qed (use s next_of_split[OF s(2), of post] in \<open>simp add: rest_of_def\<close>)
  then show "rest_of tasks (Some t) = t # rest_of tasks (next_of tasks t)" "t \<notin> set (rest_of tasks (next_of tasks t))"
    using s assms(1) rest_of_split[OF s(2), of post] by auto
  show "next_of tasks t = Some n \<Longrightarrow> n \<in> set tasks" "next_of tasks t \<noteq> Some t"
    using s assms(1) next_of_split[OF s(2), of post] by (auto split: list.splits)
qed

lemma rest_of_subset: "set (rest_of tasks here) \<subseteq> set tasks"
  by (auto simp: rest_of_def split: option.splits dest: set_dropWhileD)

lemma rest_of_hd: "t \<in> set tasks \<Longrightarrow> \<exists>r. rest_of tasks (Some t) = t # r"
  using rest_of_split by (metis split_list_first)

section \<open>Plans\<close>

definition before :: "'a list \<Rightarrow> 'a \<Rightarrow> 'a \<Rightarrow> bool" where
  "before xs a b \<longleftrightarrow> (\<exists>i j. i < j \<and> j < length xs \<and> xs ! i = a \<and> xs ! j = b)"

lemma before_in: "before xs a b \<Longrightarrow> a \<in> set xs \<and> b \<in> set xs"
  by (auto simp: before_def)

lemma before_filter: "before xs a b \<Longrightarrow> P a \<Longrightarrow> P b \<Longrightarrow> before (filter P xs) a b"
proof -
  assume "before xs a b" and P: "P a" "P b"
  then obtain i j where ij: "i < j" "j < length xs" "xs ! i = a" "xs ! j = b" by (auto simp: before_def)
  then have "xs = take j xs @ b # drop (Suc j) xs" using id_take_nth_drop[of j xs] by simp
  then have f: "filter P xs = filter P (take j xs) @ b # filter P (drop (Suc j) xs)"
    using P by (metis filter.simps(2) filter_append)
  have "a \<in> set (filter P (take j xs))" using ij P by (auto simp: in_set_conv_nth intro!: exI[of _ i])
  then obtain k where "k < length (filter P (take j xs))" "filter P (take j xs) ! k = a" by (metis in_set_conv_nth)
  then show "before (filter P xs) a b"
    unfolding before_def f by (intro exI[of _ k] exI[of _ "length (filter P (take j xs))"]) (simp add: nth_append)
qed

lemma before_rest: "distinct xs \<Longrightarrow> before xs a b \<Longrightarrow> a \<notin> set (rest_of xs (Some b))"
proof -
  assume d: "distinct xs" and "before xs a b"
  then obtain i j where ij: "i < j" "j < length xs" "xs ! i = a" "xs ! j = b" by (auto simp: before_def)
  then have s: "xs = take j xs @ b # drop (Suc j) xs" using id_take_nth_drop[of j xs] by simp
  have "a \<in> set (take j xs)" using ij by (auto simp: in_set_conv_nth intro!: exI[of _ i])
  moreover have "b \<notin> set (take j xs)" "set (take j xs) \<inter> set (b # drop (Suc j) xs) = {}"
    using d s by (metis distinct_append disjoint_iff list.set_intros(1))+
  ultimately show ?thesis using s rest_of_split[of b "take j xs" "drop (Suc j) xs"] by (metis disjoint_iff)
qed

lemma rest_order:
  assumes "distinct xs" "y \<in> set xs" "x \<in> set (rest_of xs (Some y))" "x \<noteq> y"
  shows "before xs y x"
proof -
  obtain pre post where s: "xs = pre @ y # post" "y \<notin> set pre" using assms(2) by (metis split_list_first)
  then have "x \<in> set post" using assms(3,4) rest_of_split[OF s(2), of post] by auto
  then obtain k where "k < length post" "post ! k = x" by (metis in_set_conv_nth)
  then show ?thesis unfolding before_def s(1)
    by (intro exI[of _ "length pre"] exI[of _ "Suc (length pre + k)"]) (simp add: nth_append)
qed

text \<open>
  A plan: a distinct order in which every task follows its predecessors, closed under successors, in which exactly
  the data sources have no predecessor.
\<close>

definition plan_ok :: "task_flow \<Rightarrow> string list \<Rightarrow> string set \<Rightarrow> bool" where
  "plan_ok flow ord srcs \<longleftrightarrow>
     distinct ord \<and> (\<forall>x \<in> set ord. \<forall>z \<in> set (get_prev_task_names flow x). before ord z x) \<and>
     (\<forall>x z. x \<in> set (get_next_task_names flow z) \<longleftrightarrow> z \<in> set (get_prev_task_names flow x)) \<and>
     (\<forall>z \<in> set ord. set (get_next_task_names flow z) \<subseteq> set ord) \<and>
     srcs \<subseteq> set ord \<and> (\<forall>x \<in> set ord. get_prev_task_names flow x = [] \<longleftrightarrow> x \<in> srcs)"

definition reach_list :: "task_flow \<Rightarrow> string list \<Rightarrow> string \<Rightarrow> string list" where
  "reach_list flow ord s = filter (\<lambda>t. t \<in> reached flow s) ord"

lemma plan_order_induct [consumes 2]:
  assumes plan: "plan_ok flow ord srcs" and x: "x \<in> set ord"
    and step: "\<And>x. x \<in> set ord \<Longrightarrow> (\<And>z. before ord z x \<Longrightarrow> P z) \<Longrightarrow> P x"
  shows "P x"
proof -
  have d: "distinct ord" using plan by (simp add: plan_ok_def)
  have "i < length ord \<Longrightarrow> P (ord ! i)" for i
  proof (induction i rule: less_induct)
    case (less i)
    show ?case
    proof (rule step)
      fix z assume "before ord z (ord ! i)"
      then obtain k j where "k < j" "j < length ord" "ord ! k = z" "ord ! j = ord ! i" by (auto simp: before_def)
      then show "P z" using less d by (metis nth_eq_iff_index_eq order.strict_trans)
    qed (use less.prems in simp)
  qed
  then show ?thesis using x by (metis in_set_conv_nth)
qed

lemma plan_reached:
  assumes plan: "plan_ok flow ord srcs" and s: "s \<in> srcs"
  shows "x \<in> reached flow s \<Longrightarrow> x \<in> set ord \<and> (x = s \<or> (\<exists>z \<in> reached flow s. z \<in> set (get_prev_task_names flow x)))"
proof (induction rule: reached.induct)
  case (step t n)
  then have "t \<in> set (get_prev_task_names flow n)" "n \<in> set ord" using plan unfolding plan_ok_def by blast+
  then show ?case using step.hyps(1) by blast
qed (use plan s in \<open>auto simp: plan_ok_def\<close>)

lemma reach_list_set: "plan_ok flow ord srcs \<Longrightarrow> s \<in> srcs \<Longrightarrow> set (reach_list flow ord s) = reached flow s"
  using plan_reached[of flow ord srcs s] by (auto simp: reach_list_def)

lemma plan_sources:
  assumes "plan_ok flow ord srcs" "s \<in> srcs" "x \<in> srcs" "x \<in> reached flow s"
  shows "x = s"
proof -
  have "x \<in> set ord" "get_prev_task_names flow x = []" using assms(1,3) by (auto simp: plan_ok_def)
  then show ?thesis using plan_reached[OF assms(1,2,4)] by auto
qed

lemma reach_before:
  assumes "plan_ok flow ord srcs" "x \<in> reached flow s" "s \<in> srcs" "z \<in> reached flow s" "z \<in> set (get_prev_task_names flow x)"
  shows "before (reach_list flow ord s) z x"
  unfolding reach_list_def using assms plan_reached[OF assms(1,3,2)] by (intro before_filter) (auto simp: plan_ok_def)

lemma reach_list_hd:
  assumes plan: "plan_ok flow ord srcs" and s: "s \<in> srcs"
  shows "distinct (reach_list flow ord s)" "s \<in> set (reach_list flow ord s)" "hd (reach_list flow ord s) = s"
    "rest_of (reach_list flow ord s) (Some s) = reach_list flow ord s"
proof -
  let ?l = "reach_list flow ord s"
  note set = reach_list_set[OF plan s]
  show d: "distinct ?l" using plan by (simp add: reach_list_def plan_ok_def)
  show "s \<in> set ?l" unfolding set by (rule reached.source)
  then have ne: "?l \<noteq> []" by auto
  show hd: "hd ?l = s"
  proof (rule ccontr)
    assume n: "hd ?l \<noteq> s"
    have h: "hd ?l \<in> reached flow s" using ne hd_in_set set by blast
    then obtain z where z: "z \<in> reached flow s" "z \<in> set (get_prev_task_names flow (hd ?l))"
      using plan_reached[OF plan s h] n by blast
    have "before ?l z (hd ?l)" by (rule reach_before[OF plan h s z])
    then obtain i j where "i < j" "j < length ?l" "?l ! j = ?l ! 0" using ne by (auto simp: before_def hd_conv_nth)
    then show False using d ne by (metis length_greater_0_conv less_nat_zero_code nth_eq_iff_index_eq)
  qed
  then show "rest_of ?l (Some s) = ?l" using ne by (cases ?l) (auto simp: rest_of_def)
qed


text \<open>
  The invariant of the manager in a run without errors, over the positions of the pools, and its preservation
  when a task is finished and its pools are handed over one by one.
\<close>

section \<open>Messages\<close>

lemma put_fields [simp]:
  "infos (put q msg m) = infos m" "pools (put q msg m) = pools m" "pool_owner (put q msg m) = pool_owner m"
  "next_queue (put q msg m) = next_queue m" "init_task (put q msg m) x = init_task m x"
  "outbox (put q msg m) r = (if r = q then outbox m q @ [msg] else outbox m r)"
  by (simp_all add: put_def init_task_def)

lemma put_all_fields:
  "infos (fold (\<lambda>q. put q msg) qs m) = infos m" "pools (fold (\<lambda>q. put q msg) qs m) = pools m"
  "pool_owner (fold (\<lambda>q. put q msg) qs m) = pool_owner m" "init_task (fold (\<lambda>q. put q msg) qs m) x = init_task m x"
  "r \<notin> set qs \<Longrightarrow> outbox (fold (\<lambda>q. put q msg) qs m) r = outbox m r"
  by (induction qs arbitrary: m) simp_all

lemma send_task_fields [simp]:
  "pools (send_msg_to_one_task t msg m) = pools m" "pool_owner (send_msg_to_one_task t msg m) = pool_owner m"
  "init_task (send_msg_to_one_task t msg m) x = init_task m x"
  "r \<notin> set (queues (init_task m t)) \<Longrightarrow> outbox (send_msg_to_one_task t msg m) r = outbox m r"
  by (simp_all add: send_msg_to_one_task_def put_all_fields)

lemma send_go_loop:
  fixes go :: "nat \<Rightarrow> 'd message" and m :: "'d manager"
  assumes "n \<le> length (queues (init_task m t))" "distinct (queues (init_task m t))"
  defines "m' \<equiv> fold (\<lambda>i. send_msg_to_one_process t i (go i)) [0..<n] m"
  shows "infos m' = infos m \<and> pools m' = pools m \<and> pool_owner m' = pool_owner m \<and> next_queue m' = next_queue m \<and>
    (\<forall>x. init_task m' x = init_task m x) \<and>
    (\<forall>i < n. outbox m' (queues (init_task m t) ! i) = outbox m (queues (init_task m t) ! i) @ [go i]) \<and>
    (\<forall>r. r \<notin> set (take n (queues (init_task m t))) \<longrightarrow> outbox m' r = outbox m r)"
  using assms(1) unfolding m'_def
proof (induction n)
  case (Suc n)
  let ?qs = "queues (init_task m t)"
  let ?m = "fold (\<lambda>i. send_msg_to_one_process t i (go i)) [0..<n] m"
  note IH = Suc.IH[OF Suc_leD[OF Suc.prems]]
  have n: "n < length ?qs" using Suc.prems by simp
  have "fold (\<lambda>i. send_msg_to_one_process t i (go i)) [0..<Suc n] m = send_msg_to_one_process t n (go n) ?m" by simp
  also have "\<dots> = put (?qs ! n) (go n) ?m"
    using IH n unfolding send_msg_to_one_process_def[of t n "go n" ?m] by simp
  finally have step: "fold (\<lambda>i. send_msg_to_one_process t i (go i)) [0..<Suc n] m = put (?qs ! n) (go n) ?m" .
  have new: "?qs ! n \<notin> set (take n ?qs)" using assms(2) n by (auto simp: in_set_conv_nth nth_eq_iff_index_eq)
  have other: "?qs ! i \<noteq> ?qs ! n" if "i < n" for i using assms(2) n that by (simp add: nth_eq_iff_index_eq)
  have take: "set (take (Suc n) ?qs) = insert (?qs ! n) (set (take n ?qs))" using n by (simp add: take_Suc_conv_app_nth)
  have "\<forall>i < Suc n. outbox (put (?qs ! n) (go n) ?m) (?qs ! i) = outbox m (?qs ! i) @ [go i]"
    using IH new other by (auto simp: less_Suc_eq)
  moreover have "\<forall>r. r \<notin> set (take (Suc n) ?qs) \<longrightarrow> outbox (put (?qs ! n) (go n) ?m) r = outbox m r"
    using IH unfolding take by simp
  ultimately show ?case unfolding step using IH by simp
qed simp

lemma send_go_fields [simp]:
  assumes "distinct (queues (init_task m t))"
  shows "pools (send_go t go m) = pools m" "pool_owner (send_go t go m) = pool_owner m" "next_queue (send_go t go m) = next_queue m"
    "init_task (send_go t go m) x = init_task m x"
    "i < length (queues (init_task m t)) \<Longrightarrow>
      outbox (send_go t go m) (queues (init_task m t) ! i) = outbox m (queues (init_task m t) ! i) @ [go i]"
    "r \<notin> set (queues (init_task m t)) \<Longrightarrow> outbox (send_go t go m) r = outbox m r"
  using send_go_loop[OF le_refl assms, of go] by (simp_all add: send_go_def)

section \<open>The invariant\<close>

definition pool_rest :: "string list list \<Rightarrow> 'd manager \<Rightarrow> nat \<Rightarrow> string list" where
  "pool_rest plans m p = rest_of (plans ! p) (pool_owner m ! p)"

definition waiting :: "string list list \<Rightarrow> string \<Rightarrow> nat set" where
  "waiting plans x = {p. p < length plans \<and> x \<in> set (plans ! p)}"

text \<open>It is the turn of a task when all its pools have arrived and it is not finished.\<close>

definition turn :: "string list list \<Rightarrow> 'd manager \<Rightarrow> string \<Rightarrow> bool" where
  "turn plans m x \<longleftrightarrow> waiting plans x \<noteq> {} \<and> (\<forall>p \<in> waiting plans x. pool_owner m ! p = Some x) \<and> get_task_state m x \<noteq> Finished"

definition arrived :: "string list list \<Rightarrow> 'd manager \<Rightarrow> string \<Rightarrow> nat set" where
  "arrived plans m x = {p \<in> waiting plans x. x \<notin> set (pool_rest plans m p) \<or> pool_owner m ! p = Some x}"

definition pools_inv :: "string list list \<Rightarrow> 'd manager \<Rightarrow> bool" where
  "pools_inv plans m \<longleftrightarrow>
     length (pools m) = length plans \<and> length (pool_owner m) = length plans \<and> distinct (concat (pools m)) \<and>
     (\<forall>p < length plans. pools m ! p \<noteq> []) \<and>
     (\<forall>p < length plans. \<forall>y. pool_owner m ! p = Some y \<longrightarrow> y \<in> set (plans ! p)) \<and>
     (\<forall>x. set (wait_pools (init_task m x)) = waiting plans x) \<and> (\<forall>x. gather_data (init_task m x) = [])"

text \<open>The pools of \<open>pend\<close> still belong to the finished task \<open>t\<close>.\<close>

definition states_inv :: "string list \<Rightarrow> string set \<Rightarrow> string list list \<Rightarrow> 'd manager \<Rightarrow> string \<Rightarrow> nat list \<Rightarrow> bool" where
  "states_inv ord srcs plans m t pend \<longleftrightarrow>
     distinct pend \<and> (\<forall>p \<in> set pend. p < length plans \<and> pool_owner m ! p = Some t) \<and>
     (\<forall>x. \<forall>p \<in> waiting plans x. get_task_state m x = Finished \<longleftrightarrow> x \<notin> set (pool_rest plans m p) \<or> (p \<in> set pend \<and> x = t)) \<and>
     (\<forall>x. get_task_state m x = Started \<longleftrightarrow> x \<notin> srcs \<and> turn plans m x) \<and>
     (\<forall>x \<in> set ord. get_task_state m x = NoSourceData \<longleftrightarrow> waiting plans x = {}) \<and> (\<forall>x. get_task_state m x \<noteq> Failed)"

definition queues_inv :: "string list list \<Rightarrow> 'd manager \<Rightarrow> bool" where
  "queues_inv plans m \<longleftrightarrow>
     (\<forall>x. \<exists>arr. distinct arr \<and> set arr = arrived plans m x \<and> queues (init_task m x) = concat (map ((!) (pools m)) arr)) \<and>
     (\<forall>x. turn plans m x \<longrightarrow> (\<forall>i < length (queues (init_task m x)). \<exists>ms. outbox m (queues (init_task m x) ! i) = ms @ [Go i]))"

definition sched_inv :: "string list \<Rightarrow> string set \<Rightarrow> string list list \<Rightarrow> 'd manager \<Rightarrow> string \<Rightarrow> nat list \<Rightarrow> bool" where
  "sched_inv ord srcs plans m t pend \<longleftrightarrow> pools_inv plans m \<and> states_inv ord srcs plans m t pend \<and> queues_inv plans m"

section \<open>Queues of different pools\<close>

lemma nth_subset_concat: "a < length xs \<Longrightarrow> set (xs ! a) \<subseteq> set (concat xs)"
  using nth_mem by fastforce

lemma concat_nth_disjoint:
  "distinct (concat xs) \<Longrightarrow> a < length xs \<Longrightarrow> b < length xs \<Longrightarrow> a \<noteq> b \<Longrightarrow> set (xs ! a) \<inter> set (xs ! b) = {}"
proof (induction xs arbitrary: a b)
  case (Cons x xs)
  have d: "set x \<inter> set (concat xs) = {}" "distinct (concat xs)" using Cons.prems(1) by simp_all
  consider b' where "a = 0" "b = Suc b'" | a' where "a = Suc a'" "b = 0" | a' b' where "a = Suc a'" "b = Suc b'" "a' \<noteq> b'"
    using Cons.prems(4) by (cases a; cases b) auto
  then show ?case
  proof cases
    case (1 b')
    then have "set (xs ! b') \<subseteq> set (concat xs)" using Cons.prems by (intro nth_subset_concat) simp
    then show ?thesis using 1 d(1) by (simp only: nth_Cons_0 nth_Cons_Suc) blast
  next
    case (2 a')
    then have "set (xs ! a') \<subseteq> set (concat xs)" using Cons.prems by (intro nth_subset_concat) simp
    then show ?thesis using 2 d(1) by (simp only: nth_Cons_0 nth_Cons_Suc) blast
  next
    case (3 a' b')
    then show ?thesis using Cons.IH[OF d(2), of a' b'] Cons.prems by simp
  qed
qed simp

lemma concat_nth_distinct: "distinct (concat xs) \<Longrightarrow> a < length xs \<Longrightarrow> distinct (xs ! a)"
  by (induction xs arbitrary: a) (auto simp: nth_Cons split: nat.splits)

lemma distinct_concat_map:
  assumes "distinct (concat xs)" "distinct arr" "set arr \<subseteq> {..<length xs}"
  shows "distinct (concat (map ((!) xs) arr))"
  using assms(2,3)
proof (induction arr)
  case (Cons a arr)
  have "set (xs ! a) \<inter> set (xs ! b) = {}" if "b \<in> set arr" for b
    using Cons.prems that by (intro concat_nth_disjoint[OF assms(1)]) auto
  then show ?case using Cons concat_nth_distinct[OF assms(1), of a] by auto
qed simp

lemma queues_arrived:
  assumes "pools_inv plans m" "queues_inv plans m"
  shows "set (queues (init_task m x)) = (\<Union>p \<in> arrived plans m x. set (pools m ! p))" "distinct (queues (init_task m x))"
proof -
  obtain arr where arr: "distinct arr" "set arr = arrived plans m x" "queues (init_task m x) = concat (map ((!) (pools m)) arr)"
    using assms(2) unfolding queues_inv_def by blast
  then show "set (queues (init_task m x)) = (\<Union>p \<in> arrived plans m x. set (pools m ! p))" by simp
  have "set arr \<subseteq> {..<length (pools m)}" using assms(1) arr(2) by (auto simp: arrived_def waiting_def pools_inv_def)
  then show "distinct (queues (init_task m x))"
    unfolding arr(3) using assms(1) arr(1) by (intro distinct_concat_map) (simp_all add: pools_inv_def)
qed

lemma turn_arrived: "turn plans m x \<Longrightarrow> arrived plans m x = waiting plans x"
  by (auto simp: turn_def arrived_def)

text \<open>Two tasks whose turn it is have no queue in common.\<close>

lemma turns_disjoint:
  assumes "pools_inv plans m" "queues_inv plans m" "turn plans m x" "turn plans m y" "x \<noteq> y"
  shows "set (queues (init_task m x)) \<inter> set (queues (init_task m y)) = {}"
proof -
  have "set (pools m ! p) \<inter> set (pools m ! q) = {}" if "p \<in> waiting plans x" "q \<in> waiting plans y" for p q
  proof -
    have "p \<noteq> q" using assms(3-5) that by (auto simp: turn_def)
    then show ?thesis using assms(1) that by (intro concat_nth_disjoint) (auto simp: pools_inv_def waiting_def)
  qed
  then show ?thesis
    unfolding queues_arrived(1)[OF assms(1,2)] turn_arrived[OF assms(3)] turn_arrived[OF assms(4)] by blast
qed

end
