(* ===== verification/Task_Step.thy ===== *)
theory Task_Step
  imports Task_Plan
begin

text \<open>A finished task and the hand-over of its pools preserve the invariant.\<close>

section \<open>The lists of the pools\<close>

definition plans_ok :: "task_flow \<Rightarrow> string list \<Rightarrow> string set \<Rightarrow> string list list \<Rightarrow> bool" where
  "plans_ok flow ord srcs plans \<longleftrightarrow>
     plan_ok flow ord srcs \<and> (\<exists>ss. distinct ss \<and> set ss \<subseteq> srcs \<and> plans = map (reach_list flow ord) ss)"

lemma plans_facts:
  assumes plans: "plans_ok flow ord srcs plans" and p: "p < length plans"
  shows "distinct (plans ! p)" "set (plans ! p) \<subseteq> set ord"
    "\<And>x y. x \<in> set (plans ! p) \<Longrightarrow> y \<in> set (get_next_task_names flow x) \<Longrightarrow> y \<in> set (plans ! p)"
    "\<And>y z. y \<in> set (plans ! p) \<Longrightarrow> z \<in> set (plans ! p) \<Longrightarrow> z \<in> set (get_prev_task_names flow y) \<Longrightarrow> before (plans ! p) z y"
    "\<And>x. x \<in> srcs \<Longrightarrow> x \<in> set (plans ! p) \<Longrightarrow> x = hd (plans ! p)"
    "\<And>x y. before (plans ! p) y x \<Longrightarrow> before ord y x"
proof -
  obtain ss where plan: "plan_ok flow ord srcs" and ss: "set ss \<subseteq> srcs" "plans = map (reach_list flow ord) ss"
    using plans unfolding plans_ok_def by blast
  define s where "s = ss ! p"
  have s: "s \<in> srcs" "plans ! p = reach_list flow ord s" using ss p nth_mem[of p ss] by (auto simp: s_def)
  note R = reach_list_set[OF plan s(1)] and H = reach_list_hd[OF plan s(1)]
  show "distinct (plans ! p)" "set (plans ! p) \<subseteq> set ord" using H(1) by (auto simp: s(2) reach_list_def)
  show "y \<in> set (plans ! p)" if "x \<in> set (plans ! p)" "y \<in> set (get_next_task_names flow x)" for x y
    using that unfolding s(2) R by (rule reached.step)
  show "before (plans ! p) z y" if "y \<in> set (plans ! p)" "z \<in> set (plans ! p)" "z \<in> set (get_prev_task_names flow y)" for y z
    using that reach_before[OF plan _ s(1)] unfolding s(2) R by blast
  show "x = hd (plans ! p)" if "x \<in> srcs" "x \<in> set (plans ! p)" for x
    using plan_sources[OF plan s(1) that(1)] that(2) unfolding s(2) R H(3) by blast
  show "before ord y x" if b: "before (plans ! p) y x" for x y
  proof -
    have y: "y \<in> set ord" and x: "x \<in> set ord" and r: "x \<in> set (rest_of ord (Some y))" "x \<noteq> y"
    proof -
      obtain i j where ij: "i < j" "j < length (plans ! p)" "plans ! p ! i = y" "plans ! p ! j = x" using b by (auto simp: before_def)
      show "y \<in> set ord" "x \<in> set ord" using before_in[OF b] by (auto simp: s(2) reach_list_def)
      show "x \<noteq> y" using ij \<open>distinct (plans ! p)\<close> by (auto simp: nth_eq_iff_index_eq)
      show "x \<in> set (rest_of ord (Some y))"
      proof (rule ccontr)
        assume n: "x \<notin> set (rest_of ord (Some y))"
        obtain pre post where sp: "ord = pre @ y # post" "y \<notin> set pre" using \<open>y \<in> set ord\<close> by (metis split_list_first)
        then have "x \<in> set pre" using n \<open>x \<in> set ord\<close> rest_of_split[OF sp(2), of post] by auto
        then have xy: "x \<in> set (filter (\<lambda>t. t \<in> reached flow s) pre)" using before_in[OF b] by (auto simp: s(2) reach_list_def)
        have split: "plans ! p = filter (\<lambda>t. t \<in> reached flow s) pre @ y # filter (\<lambda>t. t \<in> reached flow s) post"
        proof -
          have "y \<in> reached flow s" using before_in[OF b] by (simp add: s(2) reach_list_def)
          then show ?thesis by (simp add: s(2) reach_list_def sp(1))
        qed
        have "y \<notin> set (rest_of (plans ! p) (Some x))" using \<open>distinct (plans ! p)\<close> b
          by (intro before_rest) auto
        moreover have "y \<in> set (rest_of (plans ! p) (Some x))"
        proof -
          obtain a c where ac: "filter (\<lambda>t. t \<in> reached flow s) pre = a @ x # c" "x \<notin> set a" using xy by (metis split_list_first)
          show ?thesis using rest_of_split[OF ac(2), of "c @ y # filter (\<lambda>t. t \<in> reached flow s) post"] split ac(1) by simp
        qed
        ultimately show False by blast
      qed
    qed
    have "distinct ord" using plan by (simp add: plan_ok_def)
    then show ?thesis using rest_order y r by blast
  qed
qed

lemma plans_prevs:
  assumes "plans_ok flow ord srcs plans" "x \<in> set ord" "z \<in> set (get_prev_task_names flow x)"
  shows "z \<in> set ord" "x \<in> set (get_next_task_names flow z)"
  using assms before_in[of ord z x] by (auto simp: plans_ok_def plan_ok_def)

lemma waiting_plan: "p \<in> waiting plans x \<longleftrightarrow> p < length plans \<and> x \<in> set (plans ! p)"
  by (simp add: waiting_def)

lemma states_fin:
  "states_inv ord srcs plans m t pend \<Longrightarrow> p \<in> waiting plans x \<Longrightarrow>
   get_task_state m x = Finished \<longleftrightarrow> x \<notin> set (pool_rest plans m p) \<or> p \<in> set pend \<and> x = t"
  by (simp add: states_inv_def)

section \<open>Finishing\<close>

definition mark_finished :: "string \<Rightarrow> 'd manager \<Rightarrow> 'd manager" where
  "mark_finished t m = update_task_progress False (upd_info t (\<lambda>i. i\<lparr>state := Finished\<rparr>) m)"

lemma mark_finished_fields [simp]:
  "pools (mark_finished t m) = pools m" "pool_owner (mark_finished t m) = pool_owner m" "outbox (mark_finished t m) = outbox m"
  "init_task (mark_finished t m) x = (if x = t then (init_task m t)\<lparr>state := Finished\<rparr> else init_task m x)"
proof -
  have "infos (mark_finished t m) = infos (upd_info t (\<lambda>i. i\<lparr>state := Finished\<rparr>) m)"
    by (simp add: mark_finished_def update_task_progress_def)
  then have "init_task (mark_finished t m) x = init_task (upd_info t (\<lambda>i. i\<lparr>state := Finished\<rparr>) m) x"
    by (simp only: init_task_def)
  then show "init_task (mark_finished t m) x = (if x = t then (init_task m t)\<lparr>state := Finished\<rparr> else init_task m x)" by simp
qed (simp_all add: mark_finished_def update_task_progress_def)

lemma finish_inv:
  assumes inv: "sched_inv ord srcs plans m u []" and t: "turn plans m t" and pend: "distinct pend" "set pend = waiting plans t"
  shows "sched_inv ord srcs plans (mark_finished t (send_msg_to_one_task t FinishedMsg m)) t pend"
proof -
  let ?m = "mark_finished t (send_msg_to_one_task t FinishedMsg m)"
  have P: "pools_inv plans m" and S: "states_inv ord srcs plans m u []" and Q: "queues_inv plans m"
    using inv by (simp_all add: sched_inv_def)
  have rest: "pool_rest plans ?m = pool_rest plans m" by (simp add: pool_rest_def fun_eq_iff)
  have turn: "turn plans ?m x \<longleftrightarrow> turn plans m x \<and> x \<noteq> t" for x by (auto simp: turn_def)
  have arr: "arrived plans ?m = arrived plans m" by (simp add: arrived_def rest fun_eq_iff)
  have st: "get_task_state ?m x = (if x = t then Finished else get_task_state m x)" for x by simp
  have wt: "waiting plans t \<noteq> {}" "\<And>p. p \<in> waiting plans t \<Longrightarrow> pool_owner m ! p = Some t"
    using t by (auto simp: turn_def)
  have P': "pools_inv plans ?m" using P by (auto simp: pools_inv_def)
  have S': "states_inv ord srcs plans ?m t pend"
    unfolding states_inv_def
  proof (intro conjI)
    show "\<forall>p \<in> set pend. p < length plans \<and> pool_owner ?m ! p = Some t"
      using wt(2) by (simp add: pend(2) waiting_plan)
    show "\<forall>x. \<forall>p \<in> waiting plans x. get_task_state ?m x = Finished \<longleftrightarrow> x \<notin> set (pool_rest plans ?m p) \<or> p \<in> set pend \<and> x = t"
      using S unfolding st rest by (auto simp: states_inv_def pend(2))
    show "\<forall>x. get_task_state ?m x = Started \<longleftrightarrow> x \<notin> srcs \<and> turn plans ?m x"
      using S unfolding st turn by (auto simp: states_inv_def)
    show "\<forall>x \<in> set ord. get_task_state ?m x = NoSourceData \<longleftrightarrow> waiting plans x = {}"
      using S wt(1) unfolding st by (auto simp: states_inv_def)
    show "\<forall>x. get_task_state ?m x \<noteq> Failed" using S unfolding st by (auto simp: states_inv_def)
  qed (rule pend(1))
  have go: "\<exists>ms. outbox ?m (queues (init_task ?m x) ! i) = ms @ [Go i]"
    if x: "turn plans m x" "x \<noteq> t" and i: "i < length (queues (init_task ?m x))" for x i
  proof -
    have "queues (init_task m x) ! i \<in> set (queues (init_task m x))" using i x(2) by simp
    then have "queues (init_task m x) ! i \<notin> set (queues (init_task m t))" using turns_disjoint[OF P Q x(1) t x(2)] by blast
    then show ?thesis using Q x i by (simp add: queues_inv_def)
  qed
  have "\<exists>ar. distinct ar \<and> set ar = arrived plans m x \<and> queues (init_task ?m x) = concat (map ((!) (pools m)) ar)" for x
    using Q by (auto simp: queues_inv_def)
  then have "queues_inv plans ?m" using go unfolding queues_inv_def turn arr by simp
  with P' S' show ?thesis by (simp add: sched_inv_def)
qed

section \<open>Handing over\<close>

lemma prevs_finished_all:
  "(\<And>z. z \<in> set zs \<Longrightarrow> get_task_state m z \<in> {Finished, NoSourceData}) \<Longrightarrow> prevs_finished m zs False = (True, False)"
proof (induction zs)
  case (Cons a zs)
  have "get_task_state m a \<in> {Finished, NoSourceData}" by (rule Cons.prems) simp
  then have "get_task_state m a \<noteq> Failed" "get_task_state m a \<in> {Finished, NoSourceData, Failed}" by auto
  then show ?case using Cons by (simp add: Let_def)
qed simp

lemma moved_owner:
  assumes "pools_inv plans m" "p < length plans"
  shows "(pool_owner m)[p := n] ! q = (if q = p then n else pool_owner m ! q)"
  using assms by (simp add: pools_inv_def nth_list_update)

lemma hand_over_last:
  assumes plans: "plans_ok flow ord srcs plans" and inv: "sched_inv ord srcs plans m t (p # pend)" and n: "next_of (plans ! p) t = None"
  shows "sched_inv ord srcs plans (hand_over flow (p, None) m) t pend"
proof -
  let ?m = "m\<lparr>pool_owner := (pool_owner m)[p := None]\<rparr>"
  have m': "hand_over flow (p, None) m = ?m" by (simp add: hand_over_def)
  have P: "pools_inv plans m" and S: "states_inv ord srcs plans m t (p # pend)" and Q: "queues_inv plans m"
    using inv by (simp_all add: sched_inv_def)
  have p: "p < length plans" "pool_owner m ! p = Some t" "p \<notin> set pend" "distinct pend" using S by (auto simp: states_inv_def)
  note F = plans_facts[OF plans p(1)]
  have t: "t \<in> set (plans ! p)" using P p(1,2) by (simp add: pools_inv_def)
  note own = moved_owner[OF P p(1), of None]
  have info: "init_task ?m x = init_task m x" for x by (simp add: init_task_def)
  have rest: "pool_rest plans ?m q = (if q = p then [] else pool_rest plans m q)" for q
    by (simp add: pool_rest_def own rest_of_def)
  have old: "pool_rest plans m p = [t]"
    using rest_of_next(1)[OF F(1) t] n p(2) by (simp add: pool_rest_def rest_of_def)
  have tfin: "get_task_state m t = Finished" using states_fin[OF S, of p t] p(1) t by (simp add: waiting_plan)
  have turn: "turn plans ?m x = turn plans m x" for x
    using p(2) tfin by (auto simp: turn_def own info)
  have arr: "arrived plans ?m x = arrived plans m x" for x
    by (auto simp: arrived_def rest own old p(2))
  have "pools_inv plans ?m" using P by (auto simp: pools_inv_def info own nth_list_update split: if_splits)
  moreover have "states_inv ord srcs plans ?m t pend"
    unfolding states_inv_def
  proof (intro conjI)
    show "\<forall>q \<in> set pend. q < length plans \<and> pool_owner ?m ! q = Some t" using S p(3) by (auto simp: states_inv_def own)
    show "\<forall>x. \<forall>q \<in> waiting plans x. get_task_state ?m x = Finished \<longleftrightarrow> x \<notin> set (pool_rest plans ?m q) \<or> q \<in> set pend \<and> x = t"
    proof (intro allI ballI)
      fix x q assume q: "q \<in> waiting plans x"
      from states_fin[OF S this] show "get_task_state ?m x = Finished \<longleftrightarrow> x \<notin> set (pool_rest plans ?m q) \<or> q \<in> set pend \<and> x = t"
        using old p(3) by (auto simp: info rest)
    qed
  qed (use S p(4) in \<open>auto simp: states_inv_def info turn\<close>)
  moreover have "queues_inv plans ?m" using Q by (simp add: queues_inv_def turn arr info)
  ultimately show ?thesis by (simp add: m' sched_inv_def)
qed

text \<open>A hand-over to a next task, seen through its fields.\<close>

definition hand_over_ctx ::
  "task_flow \<Rightarrow> string list \<Rightarrow> string set \<Rightarrow> string list list \<Rightarrow> 'd manager \<Rightarrow> string \<Rightarrow> nat \<Rightarrow> nat list \<Rightarrow> string \<Rightarrow> bool" where
  "hand_over_ctx flow ord srcs plans m t p pend y \<longleftrightarrow>
     plans_ok flow ord srcs plans \<and> sched_inv ord srcs plans m t (p # pend) \<and> next_of (plans ! p) t = Some y"

lemma ho_plans: "hand_over_ctx flow ord srcs plans m t p pend y \<Longrightarrow> plans_ok flow ord srcs plans"
  and ho_n: "hand_over_ctx flow ord srcs plans m t p pend y \<Longrightarrow> next_of (plans ! p) t = Some y"
  by (simp_all add: hand_over_ctx_def)

lemma ho_invs:
  assumes c: "hand_over_ctx flow ord srcs plans m t p pend y"
  shows "pools_inv plans m" "states_inv ord srcs plans m t (p # pend)" "queues_inv plans m"
  using c by (simp_all add: sched_inv_def hand_over_ctx_def)

lemma ho_p:
  assumes c: "hand_over_ctx flow ord srcs plans m t p pend y"
  shows "p < length plans" "pool_owner m ! p = Some t" "p \<notin> set pend" "distinct pend"
  using ho_invs(2)[OF c] by (auto simp: states_inv_def)

lemma ho_t_in:
  assumes c: "hand_over_ctx flow ord srcs plans m t p pend y"
  shows "t \<in> set (plans ! p)"
  using ho_invs(1)[OF c] ho_p(1,2)[OF c] by (simp add: pools_inv_def)

lemma ho_y:
  assumes c: "hand_over_ctx flow ord srcs plans m t p pend y"
  shows "y \<in> set (plans ! p)" "y \<noteq> t" "pool_rest plans m p = t # rest_of (plans ! p) (Some y)" "t \<notin> set (rest_of (plans ! p) (Some y))"
  "y \<in> set (rest_of (plans ! p) (Some y))" "y \<in> set ord"
proof -
  note R = rest_of_next[OF plans_facts(1)[OF ho_plans[OF c] ho_p(1)[OF c]] ho_t_in[OF c]]
  show y: "y \<in> set (plans ! p)" by (rule R(3)[OF ho_n[OF c]])
  show "y \<noteq> t" using R(4) ho_n[OF c] by auto
  show "pool_rest plans m p = t # rest_of (plans ! p) (Some y)" "t \<notin> set (rest_of (plans ! p) (Some y))"
    using R(1,2) ho_n[OF c] ho_p(2)[OF c] by (simp_all add: pool_rest_def)
  show "y \<in> set (rest_of (plans ! p) (Some y))" using rest_of_hd[OF y] by auto
  show "y \<in> set ord" using plans_facts(2)[OF ho_plans[OF c] ho_p(1)[OF c]] y by blast
qed

lemma ho_p_waiting:
  assumes c: "hand_over_ctx flow ord srcs plans m t p pend y"
  shows "p \<in> waiting plans y" "p \<in> waiting plans t"
  using ho_p(1)[OF c] ho_y(1)[OF c] ho_t_in[OF c] by (simp_all add: waiting_plan)

lemma ho_t_finished:
  assumes c: "hand_over_ctx flow ord srcs plans m t p pend y"
  shows "get_task_state m t = Finished"
  using states_fin[OF ho_invs(2)[OF c] ho_p_waiting(2)[OF c]] by simp

lemma ho_y_source:
  assumes c: "hand_over_ctx flow ord srcs plans m t p pend y"
  shows "y \<notin> srcs"
proof
  assume "y \<in> srcs"
  then have hd: "y = hd (plans ! p)" using plans_facts(5)[OF ho_plans[OF c] ho_p(1)[OF c]] ho_y(1)[OF c] by blast
  have "before (plans ! p) t y"
    by (rule rest_order[OF plans_facts(1)[OF ho_plans[OF c] ho_p(1)[OF c]] ho_t_in[OF c]]) (use ho_y[OF c] ho_p(2)[OF c] in \<open>auto simp: pool_rest_def\<close>)
  then obtain i j where ij: "i < j" "j < length (plans ! p)" "plans ! p ! j = y" by (auto simp: before_def)
  have "plans ! p \<noteq> []" using ho_t_in[OF c] by (metis empty_iff list.set(1))
  then have "plans ! p ! j = plans ! p ! 0" using hd ij by (simp add: hd_conv_nth)
  then show False using ij nth_eq_iff_index_eq[OF plans_facts(1)[OF ho_plans[OF c] ho_p(1)[OF c]], of j 0] \<open>plans ! p \<noteq> []\<close> by simp
qed

lemma ho_y_state:
  assumes c: "hand_over_ctx flow ord srcs plans m t p pend y"
  shows "get_task_state m y = Unstart" "\<not> turn plans m y"
proof -
  show nt: "\<not> turn plans m y" using ho_p_waiting(1)[OF c] ho_p(2)[OF c] ho_y(2)[OF c] by (auto simp: turn_def)
  have "get_task_state m y \<noteq> Finished" using states_fin[OF ho_invs(2)[OF c] ho_p_waiting(1)[OF c]] ho_y[OF c] by auto
  moreover have "get_task_state m y \<noteq> Started" "get_task_state m y \<noteq> Failed" using ho_invs(2)[OF c] nt by (auto simp: states_inv_def)
  moreover have "get_task_state m y \<noteq> NoSourceData" using ho_invs(2)[OF c] ho_y(6)[OF c] ho_p_waiting(1)[OF c] by (auto simp: states_inv_def)
  ultimately show "get_task_state m y = Unstart" by (cases "get_task_state m y") auto
qed

definition all_here :: "string list list \<Rightarrow> 'd manager \<Rightarrow> nat \<Rightarrow> string \<Rightarrow> bool" where
  "all_here plans m p y \<longleftrightarrow> (\<forall>q \<in> waiting plans y. (pool_owner m)[p := Some y] ! q = Some y)"

lemma ho_owner:
  assumes c: "hand_over_ctx flow ord srcs plans m t p pend y"
  shows "(pool_owner m)[p := Some y] ! q = (if q = p then Some y else pool_owner m ! q)"
  by (rule moved_owner[OF ho_invs(1)[OF c] ho_p(1)[OF c]])

definition handed :: "'d manager \<Rightarrow> nat \<Rightarrow> string \<Rightarrow> 'd manager" where
  "handed m p y = upd_info y (\<lambda>i. i\<lparr>queues := queues i @ pools m ! p\<rparr>) (m\<lparr>pool_owner := (pool_owner m)[p := Some y]\<rparr>)"

lemma ho_info_owner: "init_task (m\<lparr>pool_owner := o'\<rparr>) x = init_task m x"
  by (simp add: init_task_def)

lemma handed_fields:
  "pools (handed m p y) = pools m" "pool_owner (handed m p y) = (pool_owner m)[p := Some y]" "outbox (handed m p y) = outbox m"
  "init_task (handed m p y) x = (if x = y then (init_task m y)\<lparr>queues := queues (init_task m y) @ pools m ! p\<rparr> else init_task m x)"
  by (simp_all add: handed_def ho_info_owner)

lemma ho_prevs_done:
  assumes c: "hand_over_ctx flow ord srcs plans m t p pend y" and "all_here plans m p y" and z: "z \<in> set (get_prev_task_names flow y)"
  shows "get_task_state m z \<in> {Finished, NoSourceData}"
proof (cases "waiting plans z = {}")
  case True
  then show ?thesis using ho_invs(2)[OF c] plans_prevs(1)[OF ho_plans[OF c] ho_y(6)[OF c] z] by (auto simp: states_inv_def)
next
  case False
  then obtain r where r: "r \<in> waiting plans z" by blast
  then have r': "r < length plans" "z \<in> set (plans ! r)" by (auto simp: waiting_plan)
  have yr: "y \<in> set (plans ! r)"
    by (rule plans_facts(3)[OF ho_plans[OF c] r'(1) r'(2) plans_prevs(2)[OF ho_plans[OF c] ho_y(6)[OF c] z]])
  have own: "(pool_owner m)[p := Some y] ! r = Some y" using assms(2) yr r'(1) by (simp add: all_here_def waiting_plan)
  have out: "z \<notin> set (rest_of (plans ! r) (Some y))"
    by (rule before_rest[OF plans_facts(1)[OF ho_plans[OF c] r'(1)] plans_facts(4)[OF ho_plans[OF c] r'(1) yr r'(2) z]])
  have "z \<notin> set (pool_rest plans m r) \<or> r \<in> set (p # pend) \<and> z = t"
  proof (cases "r = p")
    case True
    then show ?thesis using out ho_y(3)[OF c] by auto
  next
    case False
    then show ?thesis using own out by (simp add: ho_owner[OF c] pool_rest_def)
  qed
  then have "get_task_state m z = Finished" using states_fin[OF ho_invs(2)[OF c] r] by blast
  then show ?thesis by simp
qed

lemma ho_check:
  assumes c: "hand_over_ctx flow ord srcs plans m t p pend y"
  shows "is_all_prev_finished flow y (handed m p y) = (fst (is_all_prev_finished flow y (handed m p y)), snd (is_all_prev_finished flow y (handed m p y)))"
  "all_here plans m p y \<Longrightarrow> is_all_prev_finished flow y (handed m p y) = (True, False)" "\<not> all_here plans m p y \<Longrightarrow> \<not> fst (is_all_prev_finished flow y (handed m p y))"
proof -
  have w: "set (wait_pools (init_task (handed m p y) y)) = waiting plans y" using ho_invs(1)[OF c] by (simp add: handed_fields pools_inv_def)
  have st: "get_task_state (handed m p y) x = get_task_state m x" for x by (simp add: handed_fields)
  show "is_all_prev_finished flow y (handed m p y) = (True, False)" if "all_here plans m p y"
  proof -
    have "prevs_finished (handed m p y) (get_prev_task_names flow y) False = (True, False)"
      by (rule prevs_finished_all) (use ho_prevs_done[OF c that] st in simp)
    then show ?thesis using that w by (simp add: is_all_prev_finished_def handed_fields all_here_def list_all_iff)
  qed
  show "\<not> fst (is_all_prev_finished flow y (handed m p y))" if "\<not> all_here plans m p y"
    using that w by (auto simp: is_all_prev_finished_def handed_fields all_here_def list_all_iff split: prod.split)
qed simp

definition started :: "string list list \<Rightarrow> 'd manager \<Rightarrow> nat \<Rightarrow> string \<Rightarrow> 'd manager" where
  "started plans m p y = (if all_here plans m p y then send_go y Go (upd_info y (\<lambda>i. i\<lparr>state := Started\<rparr>) (handed m p y)) else handed m p y)"

lemma ho_hand_over_started:
  assumes c: "hand_over_ctx flow ord srcs plans m t p pend y"
  shows "hand_over flow (p, Some y) m = (started plans m p y)"
proof -
  have m2: "upd_info y (\<lambda>i. i\<lparr>queues := queues i @ pools (m\<lparr>pool_owner := (pool_owner m)[p := Some y]\<rparr>) ! p\<rparr>)
      (m\<lparr>pool_owner := (pool_owner m)[p := Some y]\<rparr>) = (handed m p y)" by (simp add: handed_def)
  have st: "get_task_state (handed m p y) y = Unstart" using ho_y_state(1)[OF c] by (simp add: handed_fields)
  show ?thesis
    unfolding hand_over_def prod.case Let_def option.case m2
    using ho_check[OF c] st by (cases "all_here plans m p y"; cases "is_all_prev_finished flow y (handed m p y)") (simp_all add: started_def)
qed

lemma ho_arrived_handed:
  assumes c: "hand_over_ctx flow ord srcs plans m t p pend y"
  shows "arrived plans (handed m p y) x = (if x = y then insert p (arrived plans m y) else arrived plans m x)"
proof -
  have rest: "pool_rest plans (handed m p y) q = (if q = p then rest_of (plans ! p) (Some y) else pool_rest plans m q)" for q
    by (simp add: pool_rest_def handed_fields ho_owner[OF c])
  have "q \<in> arrived plans (handed m p y) x \<longleftrightarrow> q \<in> (if x = y then insert p (arrived plans m y) else arrived plans m x)" for q
  proof (cases "q = p")
    case True
    then show ?thesis using ho_p_waiting[OF c] ho_p(2)[OF c] ho_y[OF c] by (auto simp: arrived_def rest handed_fields ho_owner[OF c])
  next
    case False
    then show ?thesis by (auto simp: arrived_def rest handed_fields ho_owner[OF c])
  qed
  then show ?thesis by blast
qed

lemma ho_p_new:
  assumes c: "hand_over_ctx flow ord srcs plans m t p pend y"
  shows "p \<notin> arrived plans m y"
  using ho_p(2)[OF c] ho_y[OF c] by (auto simp: arrived_def)

lemma ho_queues_handed:
  assumes c: "hand_over_ctx flow ord srcs plans m t p pend y"
  shows
  "\<exists>ar. distinct ar \<and> set ar = arrived plans (handed m p y) x \<and> queues (init_task (handed m p y) x) = concat (map ((!) (pools m)) ar)"
proof -
  obtain ar where ar: "distinct ar" "set ar = arrived plans m x" "queues (init_task m x) = concat (map ((!) (pools m)) ar)"
    using ho_invs(3)[OF c] unfolding queues_inv_def by blast
  show ?thesis
  proof (cases "x = y")
    case True
    then show ?thesis using ar ho_p_new[OF c] by (intro exI[of _ "ar @ [p]"]) (auto simp: handed_fields ho_arrived_handed[OF c])
  next
    case False
    then show ?thesis using ar by (intro exI[of _ ar]) (simp add: handed_fields ho_arrived_handed[OF c])
  qed
qed

lemma ho_queues_handed_distinct:
  assumes c: "hand_over_ctx flow ord srcs plans m t p pend y"
  shows "distinct (queues (init_task (handed m p y) x))"
proof -
  obtain ar where ar: "distinct ar" "set ar = arrived plans (handed m p y) x" "queues (init_task (handed m p y) x) = concat (map ((!) (pools m)) ar)"
    using ho_queues_handed[OF c] by blast
  have "set ar \<subseteq> {..<length (pools m)}" using ho_invs(1)[OF c] ar(2) by (auto simp: arrived_def waiting_def pools_inv_def)
  then show ?thesis unfolding ar(3) using ho_invs(1)[OF c] ar(1) by (intro distinct_concat_map) (simp_all add: pools_inv_def)
qed

lemma ho_started_fields:
  assumes c: "hand_over_ctx flow ord srcs plans m t p pend y"
  shows
  "pools (started plans m p y) = pools m" "pool_owner (started plans m p y) = (pool_owner m)[p := Some y]"
  "init_task (started plans m p y) x = (if x = y \<and> all_here plans m p y then (init_task (handed m p y) y)\<lparr>state := Started\<rparr> else init_task (handed m p y) x)"
  "r \<notin> set (queues (init_task (handed m p y) y)) \<Longrightarrow> outbox (started plans m p y) r = outbox m r"
  "all_here plans m p y \<Longrightarrow> i < length (queues (init_task (handed m p y) y)) \<Longrightarrow>
     outbox (started plans m p y) (queues (init_task (handed m p y) y) ! i) = outbox m (queues (init_task (handed m p y) y) ! i) @ [Go i]"
proof -
  let ?m = "upd_info y (\<lambda>i. i\<lparr>state := Started\<rparr>) (handed m p y)"
  have q: "queues (init_task ?m y) = queues (init_task (handed m p y) y)" by simp
  have d: "distinct (queues (init_task ?m y))" using ho_queues_handed_distinct[OF c, of y] by simp
  note G = send_go_fields[OF d, unfolded q]
  show "pools (started plans m p y) = pools m" "pool_owner (started plans m p y) = (pool_owner m)[p := Some y]"
    using G(1,2) by (simp_all add: started_def handed_fields)
  show "init_task (started plans m p y) x = (if x = y \<and> all_here plans m p y then (init_task (handed m p y) y)\<lparr>state := Started\<rparr> else init_task (handed m p y) x)"
    using G(4) by (simp add: started_def)
  show "r \<notin> set (queues (init_task (handed m p y) y)) \<Longrightarrow> outbox (started plans m p y) r = outbox m r"
    using G(6) by (simp add: started_def handed_fields(3))
  show "all_here plans m p y \<Longrightarrow> i < length (queues (init_task (handed m p y) y)) \<Longrightarrow>
     outbox (started plans m p y) (queues (init_task (handed m p y) y) ! i) = outbox m (queues (init_task (handed m p y) y) ! i) @ [Go i]"
    using G(5) by (simp add: started_def handed_fields(3))
qed

lemma ho_state_started:
  assumes c: "hand_over_ctx flow ord srcs plans m t p pend y"
  shows "get_task_state (started plans m p y) x = (if x = y \<and> all_here plans m p y then Started else get_task_state m x)"
  by (simp add: ho_started_fields[OF c] handed_fields)

lemma ho_turn_started:
  assumes c: "hand_over_ctx flow ord srcs plans m t p pend y"
  shows "turn plans (started plans m p y) x \<longleftrightarrow> (if x = y then all_here plans m p y else turn plans m x)"
proof (cases "x = y")
  case True
  then show ?thesis using ho_p_waiting(1)[OF c] ho_y_state(1)[OF c] by (auto simp: turn_def ho_started_fields[OF c] ho_state_started[OF c] all_here_def)
next
  case False
  show ?thesis
  proof (cases "p \<in> waiting plans x")
    case True
    have "\<not> turn plans m x" using True ho_p(2)[OF c] ho_t_finished[OF c] by (auto simp: turn_def)
    moreover have "\<not> turn plans (started plans m p y) x" using True False by (auto simp: turn_def ho_started_fields[OF c] ho_owner[OF c])
    ultimately show ?thesis using False by simp
  next
    case notp: False
    then show ?thesis using False by (auto simp: turn_def ho_started_fields(2)[OF c] ho_owner[OF c] ho_state_started[OF c])
  qed
qed

lemma ho_started_rest:
  assumes c: "hand_over_ctx flow ord srcs plans m t p pend y"
  shows "pool_rest plans (started plans m p y) q = (if q = p then rest_of (plans ! p) (Some y) else pool_rest plans m q)"
  by (simp add: pool_rest_def ho_started_fields[OF c] ho_owner[OF c])

lemma ho_started_states:
  assumes c: "hand_over_ctx flow ord srcs plans m t p pend y"
  shows "states_inv ord srcs plans (started plans m p y) t pend"
  unfolding states_inv_def
proof (intro conjI)
  show "\<forall>q \<in> set pend. q < length plans \<and> pool_owner (started plans m p y) ! q = Some t"
    using ho_invs(2)[OF c] ho_p(3)[OF c] by (auto simp: states_inv_def ho_started_fields[OF c] ho_owner[OF c])
  show "\<forall>x. \<forall>q \<in> waiting plans x. get_task_state (started plans m p y) x = Finished \<longleftrightarrow> x \<notin> set (pool_rest plans (started plans m p y) q) \<or> q \<in> set pend \<and> x = t"
  proof (intro allI ballI)
    fix x q assume q: "q \<in> waiting plans x"
    have "get_task_state (started plans m p y) x = Finished \<longleftrightarrow> get_task_state m x = Finished"
      using ho_y_state(1)[OF c] by (simp add: ho_state_started[OF c])
    then show "get_task_state (started plans m p y) x = Finished \<longleftrightarrow> x \<notin> set (pool_rest plans (started plans m p y) q) \<or> q \<in> set pend \<and> x = t"
      using states_fin[OF ho_invs(2)[OF c] q] ho_y(3,4)[OF c] ho_p(3)[OF c] by (auto simp: ho_started_rest[OF c])
  qed
  show "\<forall>x. get_task_state (started plans m p y) x = Started \<longleftrightarrow> x \<notin> srcs \<and> turn plans (started plans m p y) x"
    using ho_invs(2)[OF c] ho_y_source[OF c] ho_y_state(1)[OF c] by (auto simp: states_inv_def ho_state_started[OF c] ho_turn_started[OF c])
  show "\<forall>x \<in> set ord. get_task_state (started plans m p y) x = NoSourceData \<longleftrightarrow> waiting plans x = {}"
    using ho_invs(2)[OF c] ho_p_waiting(1)[OF c] by (auto simp: states_inv_def ho_state_started[OF c])
  show "\<forall>x. get_task_state (started plans m p y) x \<noteq> Failed" using ho_invs(2)[OF c] by (auto simp: states_inv_def ho_state_started[OF c])
qed (rule ho_p(4)[OF c])

lemma ho_started_go:
  assumes c: "hand_over_ctx flow ord srcs plans m t p pend y" and x: "turn plans (started plans m p y) x" and i: "i < length (queues (init_task (started plans m p y) x))"
  shows "\<exists>ms. outbox (started plans m p y) (queues (init_task (started plans m p y) x) ! i) = ms @ [Go i]"
proof (cases "x = y")
  case True
  then have "all_here plans m p y" using x by (simp add: ho_turn_started[OF c])
  then show ?thesis using ho_started_fields(5)[OF c] i True by (simp add: ho_started_fields(3)[OF c])
next
  case False
  then have tx: "turn plans m x" using x by (simp add: ho_turn_started[OF c])
  have q: "queues (init_task (started plans m p y) x) = queues (init_task m x)" using False by (simp add: ho_started_fields[OF c] handed_fields)
  have in_x: "queues (init_task m x) ! i \<in> set (queues (init_task m x))" using i q by simp
  have old: "\<exists>ms. outbox m (queues (init_task m x) ! i) = ms @ [Go i]" using ho_invs(3)[OF c] tx i q by (simp add: queues_inv_def)
  show ?thesis
  proof (cases "all_here plans m p y")
    case True
    have "set (queues (init_task m x)) \<inter> set (queues (init_task (handed m p y) y)) = {}"
    proof -
      have "set (pools m ! a) \<inter> set (pools m ! b) = {}" if "a \<in> waiting plans x" "b \<in> waiting plans y" for a b
      proof -
        have "p \<notin> waiting plans x" using tx ho_p(2)[OF c] ho_t_finished[OF c] by (auto simp: turn_def)
        moreover have "pool_owner m ! a = Some x" "(pool_owner m)[p := Some y] ! b = Some y"
          using tx True that by (auto simp: turn_def all_here_def)
        ultimately have "a \<noteq> b" using False that by (auto simp: ho_owner[OF c] split: if_splits)
        then show ?thesis using ho_invs(1)[OF c] that by (intro concat_nth_disjoint) (auto simp: pools_inv_def waiting_plan)
      qed
      moreover have "set (queues (init_task (handed m p y) y)) \<subseteq> (\<Union>b \<in> waiting plans y. set (pools m ! b))"
      proof -
        obtain ar where "set ar = arrived plans (handed m p y) y" "queues (init_task (handed m p y) y) = concat (map ((!) (pools m)) ar)"
          using ho_queues_handed[OF c] by blast
        then show ?thesis by (auto simp: arrived_def)
      qed
      moreover have "set (queues (init_task m x)) = (\<Union>a \<in> waiting plans x. set (pools m ! a))"
        using queues_arrived(1)[OF ho_invs(1,3)[OF c]] turn_arrived[OF tx] by simp
      ultimately show ?thesis by blast
    qed
    then have "queues (init_task m x) ! i \<notin> set (queues (init_task (handed m p y) y))" using in_x by blast
    then show ?thesis unfolding q using old ho_started_fields(4)[OF c] by simp
  next
    case False
    then have "outbox (started plans m p y) = outbox m" by (simp add: started_def handed_fields)
    then show ?thesis using old q by simp
  qed
qed

lemma ho_started_inv:
  assumes c: "hand_over_ctx flow ord srcs plans m t p pend y"
  shows "sched_inv ord srcs plans (started plans m p y) t pend"
proof -
  have "pools_inv plans (started plans m p y)"
    using ho_invs(1)[OF c] ho_y(1)[OF c] by (auto simp: pools_inv_def ho_started_fields[OF c] handed_fields ho_owner[OF c] nth_list_update)
  moreover have "arrived plans (started plans m p y) = arrived plans (handed m p y)"
    by (simp add: arrived_def pool_rest_def ho_started_fields(2)[OF c] handed_fields(2) fun_eq_iff)
  then have "queues_inv plans (started plans m p y)"
    using ho_queues_handed[OF c] ho_started_go[OF c] by (auto simp: queues_inv_def ho_started_fields(1,3)[OF c])
  ultimately show ?thesis using ho_started_states[OF c] by (simp add: sched_inv_def)
qed

end
