(* ===== verification/Task_Report.thy ===== *)
theory Task_Report
  imports Task_Step
begin

text \<open>
  Whole rounds of the manager: all processes of a task report, the task is finished and its pools move on. Some task
  can always run until every pool is released, and every round shortens what is left.
\<close>

section \<open>Finishing a task\<close>

lemma hand_over_inv:
  assumes plans: "plans_ok flow ord srcs plans" and inv: "sched_inv ord srcs plans m t (p # pend)"
  shows "sched_inv ord srcs plans (hand_over flow (p, next_of (plans ! p) t) m) t pend"
proof (cases "next_of (plans ! p) t")
  case None
  then show ?thesis using hand_over_last[OF plans inv] by simp
next
  case (Some y)
  then have c: "hand_over_ctx flow ord srcs plans m t p pend y" using plans inv by (simp add: hand_over_ctx_def)
  show ?thesis unfolding Some ho_hand_over_started[OF c] by (rule ho_started_inv[OF c])
qed

text \<open>The pairs the processes of a finished task report.\<close>

abbreviation moves :: "string list list \<Rightarrow> string \<Rightarrow> nat list \<Rightarrow> (nat \<times> string option) list" where
  "moves plans t ps \<equiv> map (\<lambda>p. (p, next_of (plans ! p) t)) ps"

lemma hand_over_all:
  "plans_ok flow ord srcs plans \<Longrightarrow> sched_inv ord srcs plans m t pend \<Longrightarrow>
   sched_inv ord srcs plans (fold (hand_over flow) (moves plans t pend) m) t []"
proof (induction pend arbitrary: m)
  case (Cons p pend)
  then show ?case using hand_over_inv[OF Cons.prems] by simp
qed simp

lemma finish_task:
  assumes plans: "plans_ok flow ord srcs plans" and inv: "sched_inv ord srcs plans m u []" and t: "turn plans m t"
    and ps: "distinct ps" "set ps = waiting plans t"
  shows "\<exists>m'. set_task_finished flow t (moves plans t ps) (send_msg_to_one_task t FinishedMsg m) = Some m' \<and>
    sched_inv ord srcs plans m' t []"
proof -
  let ?m = "send_msg_to_one_task t FinishedMsg m"
  have "get_task_state m t \<noteq> Failed" using inv by (simp add: sched_inv_def states_inv_def)
  moreover have "list_all (\<lambda>(p, n). p < length (pool_owner ?m)) (moves plans t ps)"
    using inv ps(2) by (auto simp: list_all_iff waiting_def sched_inv_def pools_inv_def)
  ultimately have "set_task_finished flow t (moves plans t ps) ?m = Some (fold (hand_over flow) (moves plans t ps) (mark_finished t ?m))"
    by (simp add: set_task_finished_def mark_finished_def)
  then show ?thesis using hand_over_all[OF plans finish_inv[OF inv t ps]] by auto
qed

section \<open>Progress\<close>

text \<open>As long as a pool has an owner, it is the turn of the first task in the order that owns one.\<close>

lemma some_turn:
  assumes plans: "plans_ok flow ord srcs plans" and inv: "sched_inv ord srcs plans m u []" and busy: "\<not> list_all (\<lambda>x. x = None) (pool_owner m)"
  shows "\<exists>t. turn plans m t"
proof -
  have P: "pools_inv plans m" and S: "states_inv ord srcs plans m u []" using inv by (simp_all add: sched_inv_def)
  define owners where "owners = {x. \<exists>p < length plans. pool_owner m ! p = Some x}"
  have in_ord: "x \<in> set ord" if "x \<in> owners" for x
    using that P plans_facts(2)[OF plans] unfolding owners_def pools_inv_def by blast
  obtain q x where "q < length (pool_owner m)" "pool_owner m ! q = Some x" using busy by (auto simp: list_all_length)
  then have "x \<in> owners" using P by (auto simp: owners_def pools_inv_def)
  moreover have "x \<in> owners \<Longrightarrow> \<exists>t. turn plans m t" if "x \<in> set ord" for x
    using _ that
  proof (rule plan_order_induct[of flow ord srcs, where P = "\<lambda>x. x \<in> owners \<longrightarrow> (\<exists>t. turn plans m t)", THEN mp])
    show "plan_ok flow ord srcs" using plans by (simp add: plans_ok_def)
    fix x assume IH: "\<And>z. before ord z x \<Longrightarrow> z \<in> owners \<longrightarrow> (\<exists>t. turn plans m t)"
    show "x \<in> owners \<longrightarrow> (\<exists>t. turn plans m t)"
    proof
      assume "x \<in> owners"
      then obtain p where p: "p < length plans" "pool_owner m ! p = Some x" by (auto simp: owners_def)
      have px: "x \<in> set (plans ! p)" using P p by (simp add: pools_inv_def)
      then have wp: "p \<in> waiting plans x" using p(1) by (simp add: waiting_plan)
      have "x \<in> set (pool_rest plans m p)" using rest_of_hd[OF px] p(2) by (auto simp: pool_rest_def)
      then have nf: "get_task_state m x \<noteq> Finished" using states_fin[OF S wp] by simp
      show "\<exists>t. turn plans m t"
      proof (cases "\<forall>q \<in> waiting plans x. pool_owner m ! q = Some x")
        case True
        then show ?thesis using nf wp by (auto simp: turn_def)
      next
        case False
        then obtain q where q: "q \<in> waiting plans x" "pool_owner m ! q \<noteq> Some x" by blast
        then have q': "q < length plans" "x \<in> set (plans ! q)" by (simp_all add: waiting_plan)
        have rest: "x \<in> set (pool_rest plans m q)" using states_fin[OF S q(1)] nf by simp
        then obtain y where y: "pool_owner m ! q = Some y" by (cases "pool_owner m ! q") (auto simp: pool_rest_def rest_of_def)
        have "y \<in> set (plans ! q)" using P q'(1) y by (simp add: pools_inv_def)
        then have "before (plans ! q) y x"
          using rest y q(2) by (intro rest_order[OF plans_facts(1)[OF plans q'(1)]]) (auto simp: pool_rest_def)
        then have "before ord y x" by (rule plans_facts(6)[OF plans q'(1)])
        moreover have "y \<in> owners" using y q'(1) by (auto simp: owners_def)
        ultimately show ?thesis using IH by blast
      qed
    qed
  qed
  ultimately show ?thesis using in_ord by blast
qed

text \<open>What is left to run.\<close>

definition remaining :: "string list list \<Rightarrow> 'd manager \<Rightarrow> nat" where
  "remaining plans m = (\<Sum>p < length plans. length (pool_rest plans m p))"

lemma hand_over_owner:
  assumes "p < length (pool_owner m)"
  shows "pool_owner (hand_over flow (p, n) m) = (pool_owner m)[p := n]"
proof -
  have put: "pool_owner (send_msg_to_one_process t i msg m) = pool_owner m" for t i msg m
    by (simp add: send_msg_to_one_process_def)
  have "pool_owner (fold (\<lambda>i. send_msg_to_one_process t i (go i)) is m) = pool_owner m" for t go "is" m
    by (induction "is" arbitrary: m) (simp_all add: put)
  then have go: "pool_owner (send_go t go m) = pool_owner m" for t go m by (simp add: send_go_def)
  show ?thesis by (cases n) (simp_all add: hand_over_def Let_def go split: prod.split)
qed

lemma moves_owner:
  "distinct ps \<Longrightarrow> set ps \<subseteq> {..<length (pool_owner m)} \<Longrightarrow>
   length (pool_owner (fold (hand_over flow) (moves plans t ps) m)) = length (pool_owner m) \<and>
   pool_owner (fold (hand_over flow) (moves plans t ps) m) ! q = (if q \<in> set ps then next_of (plans ! q) t else pool_owner m ! q)"
proof (induction ps arbitrary: m)
  case (Cons p ps)
  have p: "pool_owner (hand_over flow (p, next_of (plans ! p) t) m) = (pool_owner m)[p := next_of (plans ! p) t]"
    using Cons.prems by (intro hand_over_owner) simp
  then show ?case using Cons by (auto simp: nth_list_update)
qed simp

lemma finish_shortens:
  assumes plans: "plans_ok flow ord srcs plans" and inv: "sched_inv ord srcs plans m u []" and t: "turn plans m t"
    and ps: "distinct ps" "set ps = waiting plans t"
    and run: "set_task_finished flow t (moves plans t ps) (send_msg_to_one_task t FinishedMsg m) = Some m'"
  shows "remaining plans m' < remaining plans m"
proof -
  have P: "pools_inv plans m" using inv by (simp add: sched_inv_def)
  have "get_task_state m t \<noteq> Failed" using inv by (simp add: sched_inv_def states_inv_def)
  then have m': "m' = fold (hand_over flow) (moves plans t ps) (mark_finished t (send_msg_to_one_task t FinishedMsg m))"
    using run by (simp add: set_task_finished_def mark_finished_def split: if_splits)
  have sub: "set ps \<subseteq> {..<length (pool_owner (mark_finished t (send_msg_to_one_task t FinishedMsg m)))}"
    using P ps(2) by (auto simp: waiting_def pools_inv_def)
  have own: "pool_owner m' ! q = (if q \<in> waiting plans t then next_of (plans ! q) t else pool_owner m ! q)" for q
    using moves_owner[OF ps(1) sub, of flow plans t q] by (simp add: m' ps(2))
  have rest: "pool_rest plans m q = t # pool_rest plans m' q" if q: "q \<in> waiting plans t" for q
  proof -
    have "pool_owner m ! q = Some t" "q < length plans" "t \<in> set (plans ! q)" using t q by (auto simp: turn_def waiting_plan)
    then show ?thesis using rest_of_next(1)[OF plans_facts(1)[OF plans, of q], of t] q by (simp add: pool_rest_def own)
  qed
  obtain r where r: "r \<in> waiting plans t" using t by (auto simp: turn_def)
  show ?thesis
    unfolding remaining_def
  proof (rule sum_strict_mono_ex1)
    show "\<forall>q \<in> {..<length plans}. length (pool_rest plans m' q) \<le> length (pool_rest plans m q)"
    proof
      fix q
      show "length (pool_rest plans m' q) \<le> length (pool_rest plans m q)"
        using rest[of q] by (cases "q \<in> waiting plans t") (simp_all add: pool_rest_def own)
    qed
    show "\<exists>q \<in> {..<length plans}. length (pool_rest plans m' q) < length (pool_rest plans m q)"
      using rest[OF r] r by (intro bexI[of _ r]) (auto simp: waiting_def)
  qed simp
qed


text \<open>
  The messages of a round: the processes of a task whose turn it is report in any order, each the hand-over of its
  pool; the last report completes the row, and the manager finishes the task.
\<close>

section \<open>Reports\<close>

text \<open>The pool a queue belongs to, and what its process reports at the end of a task.\<close>

definition pool_of :: "'d manager \<Rightarrow> nat \<Rightarrow> nat" where
  "pool_of m q = length (takeWhile (\<lambda>qs. q \<notin> set qs) (pools m))"

definition report_pair :: "string list list \<Rightarrow> 'd manager \<Rightarrow> string \<Rightarrow> nat \<Rightarrow> nat \<times> string option" where
  "report_pair plans m t i =
     (let p = pool_of m (queues (init_task m t) ! i) in (p, next_of (plans ! p) t))"

text \<open>The manager's loop over the reports of the processes of one task; the flag tells that the loop has ended.\<close>

fun report_all ::
  "task_flow \<Rightarrow> ((nat \<times> string option) list \<Rightarrow> (nat \<times> string option) list) \<Rightarrow> string list list \<Rightarrow> string \<Rightarrow> nat list \<Rightarrow> 'd manager \<Rightarrow>
   ('d manager \<times> bool) option" where
  "report_all flow order plans t [] m = Some (m, False)"
| "report_all flow order plans t (i # is) m =
     (case report_pair plans m t i of (p, n) \<Rightarrow>
        (case handle flow order t i (ReqFinished p n False) m of
           None \<Rightarrow> None
         | Some (m', stop) \<Rightarrow> if stop \<or> is = [] then Some (m', stop) else report_all flow order plans t is m'))"

definition set_order :: "((nat \<times> string option) list \<Rightarrow> (nat \<times> string option) list) \<Rightarrow> bool" where
  "set_order order \<longleftrightarrow> (\<forall>xs. set (order xs) = set xs \<and> distinct (order xs))"

section \<open>The invariant depends on the fields only\<close>

definition same_fields :: "'d manager \<Rightarrow> 'd manager \<Rightarrow> bool" where
  "same_fields m m' \<longleftrightarrow> pools m' = pools m \<and> pool_owner m' = pool_owner m \<and> outbox m' = outbox m \<and> (\<forall>x. init_task m' x = init_task m x)"

lemma same_sched: "same_fields m m' \<Longrightarrow> sched_inv ord srcs plans m u pend \<longleftrightarrow> sched_inv ord srcs plans m' u pend"
  "same_fields m m' \<Longrightarrow> turn plans m = turn plans m'" "same_fields m m' \<Longrightarrow> remaining plans m = remaining plans m'"
  by (simp_all add: same_fields_def sched_inv_def pools_inv_def states_inv_def queues_inv_def turn_def arrived_def pool_rest_def
      remaining_def fun_eq_iff)

text \<open>The state in which some reports have been gathered.\<close>

definition gathering :: "string \<Rightarrow> 'd cell option list list \<Rightarrow> 'd manager \<Rightarrow> 'd manager \<Rightarrow> bool" where
  "gathering t rows m m' \<longleftrightarrow> pools m' = pools m \<and> pool_owner m' = pool_owner m \<and> outbox m' = outbox m \<and>
     (\<forall>x. init_task m' x = (if x = t then (init_task m t)\<lparr>gather_data := rows\<rparr> else init_task m x))"

lemma gathering_same: "gather_data (init_task m t) = [] \<Longrightarrow> gathering t [] m m' \<Longrightarrow> same_fields m m'"
  by (auto simp: gathering_def same_fields_def)

lemma gathering_start: "gather_data (init_task m t) = [] \<Longrightarrow> gathering t [] m m"
  by (auto simp: gathering_def)

lemma gathering_pair: "gathering t rows m m' \<Longrightarrow> report_pair plans m' t i = report_pair plans m t i"
  by (simp add: gathering_def report_pair_def pool_of_def)

lemma gathering_step:
  "gathering t rows m m' \<Longrightarrow> gathering t rows' m (upd_info t (\<lambda>n. n\<lparr>gather_data := rows'\<rparr>) m')"
  by (simp add: gathering_def)

section \<open>The gathered hand-overs\<close>

definition report_cell :: "string list list \<Rightarrow> 'd manager \<Rightarrow> string \<Rightarrow> nat \<Rightarrow> 'd cell" where
  "report_cell plans m t i = HandOver (fst (report_pair plans m t i)) (snd (report_pair plans m t i))"

lemma hand_overs_cells: "hand_overs (map (report_cell plans m t) is) = Some (map (report_pair plans m t) is)"
  by (induction "is") (simp_all add: report_cell_def)

definition reported_columns :: "(nat \<Rightarrow> 'c) \<Rightarrow> nat \<Rightarrow> nat set \<Rightarrow> 'c list list" where
  "reported_columns cell n D = map (\<lambda>i. if i \<in> D then [cell i] else []) [0..<n]"

lemma reported_spec:
  assumes "i < n" "i \<notin> D"
  shows "gather_spec i (cell i) (reported_columns cell n D) =
    (if {..<n} \<subseteq> insert i D then (reported_columns cell n {}, Some (map cell [0..<n])) else (reported_columns cell n (insert i D), None))"
proof -
  have upd: "(reported_columns cell n D)[i := reported_columns cell n D ! i @ [cell i]] = reported_columns cell n (insert i D)"
    using assms by (auto simp: reported_columns_def nth_list_update intro!: nth_equalityI)
  have full: "list_all (\<lambda>q. q \<noteq> []) (reported_columns cell n (insert i D)) \<longleftrightarrow> {..<n} \<subseteq> insert i D"
    by (auto simp: reported_columns_def list_all_iff split: if_splits)
  show ?thesis
  proof (cases "{..<n} \<subseteq> insert i D")
    case True
    then have "map tl (reported_columns cell n (insert i D)) = reported_columns cell n {}"
        "map hd (reported_columns cell n (insert i D)) = map cell [0..<n]"
      by (auto simp: reported_columns_def)
    then show ?thesis using True full by (simp add: gather_spec_def upd)
  next
    case False
    then show ?thesis using full by (simp add: gather_spec_def upd)
  qed
qed

lemma staircase_no_entry: "staircase n rows \<Longrightarrow> columns n rows = reported_columns cell n {} \<Longrightarrow> rows = []"
proof (rule ccontr)
  assume st: "staircase n rows" and c: "columns n rows = reported_columns cell n {}" and ne: "rows \<noteq> []"
  have "hd rows \<in> set rows" using ne by simp
  then obtain k where k: "k < n" "hd rows ! k \<noteq> None" using st unfolding staircase_def by blast
  then have "column k rows \<noteq> []" using ne by (simp add: column_empty)
  moreover have "column k rows = reported_columns cell n {} ! k" using columns_nth(1)[OF k(1), of rows] c by simp
  then have "column k rows = []" using k(1) by (simp add: reported_columns_def)
  ultimately show False by simp
qed

text \<open>One more report.\<close>

lemma handle_report:
  fixes flow :: task_flow and order :: "(nat \<times> string option) list \<Rightarrow> (nat \<times> string option) list"
  assumes g: "gathering t rows m m'" and st: "staircase n rows" "columns n rows = reported_columns (report_cell plans m t) n D"
    and n: "n = length (queues (init_task m t))" and i: "i < n" "i \<notin> D" and state: "get_task_state m t \<noteq> Failed"
    and busy: "\<not> is_all_finished m"
  defines "res \<equiv> handle flow order t i (ReqFinished (fst (report_pair plans m t i)) (snd (report_pair plans m t i)) False) m'"
  shows "\<not> {..<n} \<subseteq> insert i D \<Longrightarrow> \<exists>m1 rows'. res = Some (m1, False) \<and> gathering t rows' m m1 \<and> staircase n rows' \<and>
      columns n rows' = reported_columns (report_cell plans m t) n (insert i D)"
    "{..<n} \<subseteq> insert i D \<Longrightarrow> \<exists>m1. gathering t [] m m1 \<and>
      res = map_option (\<lambda>m2. (m2, is_all_finished m2))
        (set_task_finished flow t (order (map (report_pair plans m t) [0..<n])) (send_msg_to_one_task t FinishedMsg m1))"
proof -
  have q: "queues (init_task m' t) = queues (init_task m t)" "gather_data (init_task m' t) = rows" "get_task_state m' t \<noteq> Failed"
    using g state by (simp_all add: gathering_def)
  have "staircase (length (queues (init_task m' t))) (gather_data (init_task m' t))" "i < length (queues (init_task m' t))"
    using st(1) i(1) n q by simp_all
  from fill_gater_refines[OF this, of False "report_cell plans m t i"]
  obtain out m1 rows' where F: "fill_gater_data t i (report_cell plans m t i) False m' = Some (out, m1)"
      "gather_spec i (report_cell plans m t i) (columns n rows) = (columns n (gather_data (init_task m1 t)), out)"
      "staircase n (gather_data (init_task m1 t))" "m1 = upd_info t (\<lambda>n. n\<lparr>gather_data := rows'\<rparr>) m'"
    using q n by auto
  have g1: "gathering t rows' m m1" using gathering_step[OF g] F(4) by simp
  have gd: "gather_data (init_task m1 t) = rows'" by (simp add: F(4))
  note spec = F(2)[unfolded st(2) reported_spec[OF i] gd]
  have nb: "\<not> is_all_finished m1" using g1 busy by (simp add: gathering_def is_all_finished_def)
  have res: "res = (case out of None \<Rightarrow> Some (m1, is_all_finished m1)
      | Some row \<Rightarrow> (case hand_overs row of None \<Rightarrow> None
          | Some pairs \<Rightarrow> map_option (\<lambda>m2. (m2, is_all_finished m2)) (set_task_finished flow t (order pairs) (send_msg_to_one_task t FinishedMsg m1))))"
    using F(1) by (simp add: res_def handle_def report_cell_def split: option.split)
  { assume "\<not> {..<n} \<subseteq> insert i D"
    then have "out = None" "columns n rows' = reported_columns (report_cell plans m t) n (insert i D)" using spec by auto
    then show "\<exists>m1 rows'. res = Some (m1, False) \<and> gathering t rows' m m1 \<and> staircase n rows' \<and>
        columns n rows' = reported_columns (report_cell plans m t) n (insert i D)"
      using res nb g1 F(3) gd by auto }
  { assume "{..<n} \<subseteq> insert i D"
    then have out: "out = Some (map (report_cell plans m t) [0..<n])" "columns n rows' = reported_columns (report_cell plans m t) n {}" using spec by auto
    have "rows' = []" by (rule staircase_no_entry[OF F(3)[unfolded gd] out(2)])
    then show "\<exists>m1. gathering t [] m m1 \<and> res = map_option (\<lambda>m2. (m2, is_all_finished m2))
        (set_task_finished flow t (order (map (report_pair plans m t) [0..<n])) (send_msg_to_one_task t FinishedMsg m1))"
      using g1 res out(1) by (auto simp: hand_overs_cells) }
qed

section \<open>All reports\<close>

lemma report_rest:
  assumes g: "gathering t rows m m'" and st: "staircase n rows" "columns n rows = reported_columns (report_cell plans m t) n D"
    and n: "n = length (queues (init_task m t))" and state: "get_task_state m t \<noteq> Failed" and busy: "\<not> is_all_finished m"
    and "is": "distinct is" "set is = {..<n} - D" "is \<noteq> []"
  shows "\<exists>m1. gathering t [] m m1 \<and> report_all flow order plans t is m' = map_option (\<lambda>m2. (m2, is_all_finished m2))
        (set_task_finished flow t (order (map (report_pair plans m t) [0..<n])) (send_msg_to_one_task t FinishedMsg m1))"
  using g st "is"
proof (induction "is" arbitrary: m' rows D)
  case (Cons i "is")
  have i: "i < n" "i \<notin> D" using Cons.prems(5) by auto
  obtain p k where pk: "report_pair plans m t i = (p, k)" by fastforce
  note H = handle_report[OF Cons.prems(1-3) n i state busy, of flow order, unfolded pk fst_conv snd_conv]
  have pair: "report_pair plans m' t i = (p, k)" using gathering_pair[OF Cons.prems(1), of plans i] pk by simp
  show ?case
  proof (cases "is = []")
    case True
    then have "{..<n} \<subseteq> insert i D" using Cons.prems(5) by auto
    from H(2)[OF this] show ?thesis using True pair by (auto simp: map_option_case split: option.splits)
  next
    case False
    then have more: "\<not> {..<n} \<subseteq> insert i D" using Cons.prems(4,5) by (cases "is") auto
    obtain m1 rows' where m1: "handle flow order t i (ReqFinished p k False) m' = Some (m1, False)" "gathering t rows' m m1"
        "staircase n rows'" "columns n rows' = reported_columns (report_cell plans m t) n (insert i D)"
      using H(1)[OF more] by blast
    have "set is = {..<n} - insert i D" "distinct is" using Cons.prems(4,5) by auto
    from Cons.IH[OF m1(2-4) this(2,1) False] show ?thesis using m1(1) pair False by simp
  qed
qed simp

lemma pool_of_queue:
  assumes "pools_inv plans m" "q \<in> set (pools m ! p)" "p < length (pools m)"
  shows "pool_of m q = p"
proof -
  have "q \<notin> set (pools m ! k)" if "k < p" for k
    using concat_nth_disjoint[of "pools m" k p] assms that by (auto simp: pools_inv_def)
  then have "takeWhile (\<lambda>qs. q \<notin> set qs) (pools m) = take p (pools m)"
    using assms(2,3) by (intro takeWhile_eq_take_P_nth) auto
  then show ?thesis using assms(3) by (simp add: pool_of_def)
qed

text \<open>The set of the reported pairs is the set of the moves of the task's pools.\<close>

lemma report_pairs:
  assumes P: "pools_inv plans m" and Q: "queues_inv plans m" and t: "turn plans m t"
  shows "set (map (report_pair plans m t) [0..<length (queues (init_task m t))]) = (\<lambda>p. (p, next_of (plans ! p) t)) ` waiting plans t"
proof -
  have qs: "set (queues (init_task m t)) = (\<Union>p \<in> waiting plans t. set (pools m ! p))"
    using queues_arrived(1)[OF P Q] turn_arrived[OF t] by simp
  have len: "p < length (pools m)" "pools m ! p \<noteq> []" if "p \<in> waiting plans t" for p
    using that P by (auto simp: waiting_def pools_inv_def)
  have "pool_of m ` set (queues (init_task m t)) = waiting plans t"
  proof
    show "pool_of m ` set (queues (init_task m t)) \<subseteq> waiting plans t"
      using pool_of_queue[OF P] len unfolding qs by auto
    show "waiting plans t \<subseteq> pool_of m ` set (queues (init_task m t))"
    proof
      fix p assume p: "p \<in> waiting plans t"
      then have "hd (pools m ! p) \<in> set (pools m ! p)" using len by simp
      moreover from this have "pool_of m (hd (pools m ! p)) = p" using pool_of_queue[OF P] len(1)[OF p] by blast
      ultimately show "p \<in> pool_of m ` set (queues (init_task m t))" using p unfolding qs by (intro image_eqI[of _ _ "hd (pools m ! p)"]) auto
    qed
  qed
  moreover have "set (map (report_pair plans m t) [0..<length (queues (init_task m t))]) =
      (\<lambda>p. (p, next_of (plans ! p) t)) ` pool_of m ` set (queues (init_task m t))"
    by (force simp: report_pair_def Let_def set_conv_nth image_def)
  ultimately show ?thesis by simp
qed

lemma pairs_moves:
  assumes "distinct xs" "set xs = (\<lambda>p. (p, f p)) ` A"
  shows "xs = map (\<lambda>p. (p, f p)) (map fst xs)" "distinct (map fst xs)" "set (map fst xs) = A"
proof -
  show "xs = map (\<lambda>p. (p, f p)) (map fst xs)" 
  proof -
    have "map (\<lambda>x. (fst x, f (fst x))) xs = xs" by (rule map_idI) (use assms(2) in auto)
    then show ?thesis by (simp add: comp_def)
  qed
  show "distinct (map fst xs)" using assms by (auto simp: distinct_map inj_on_def)
  show "set (map fst xs) = A" using assms(2) by (auto simp: image_image)
qed

lemma round_of_task:
  assumes plans: "plans_ok flow ord srcs plans" and inv: "sched_inv ord srcs plans m u []" and t: "turn plans m t"
    and order: "set_order order" and "is": "distinct is" "set is = {..<length (queues (init_task m t))}"
  shows "\<exists>m'. report_all flow order plans t is m = Some (m', is_all_finished m') \<and> sched_inv ord srcs plans m' t [] \<and>
    remaining plans m' < remaining plans m"
proof -
  have P: "pools_inv plans m" and S: "states_inv ord srcs plans m u []" and Q: "queues_inv plans m"
    using inv by (simp_all add: sched_inv_def)
  let ?n = "length (queues (init_task m t))"
  let ?pairs = "order (map (report_pair plans m t) [0..<?n])"
  obtain p where p: "p \<in> waiting plans t" using t by (auto simp: turn_def)
  then have own: "pool_owner m ! p = Some t" "p < length (pool_owner m)" "pools m ! p \<noteq> []" "p < length (pools m)"
    using t P by (auto simp: turn_def waiting_def pools_inv_def)
  have "set (pools m ! p) \<subseteq> set (queues (init_task m t))"
    unfolding queues_arrived(1)[OF P Q] turn_arrived[OF t] using p by blast
  then have "queues (init_task m t) \<noteq> []" using own(3) by (metis list.set(1) set_empty2 subset_empty)
  then have n0: "0 < ?n" by simp
  then have "0 \<in> set is" unfolding "is"(2) by (simp only: lessThan_iff)
  then have ne: "is \<noteq> []" by (metis empty_iff list.set(1))
  have busy: "\<not> is_all_finished m"
  proof -
    have "pool_alive (pools m ! p)" using own(3) by (cases "pools m ! p") (auto simp: pool_alive_def)
    then have "\<not> list_all (\<lambda>p. \<not> pool_alive p) (pools m)" using own(4) unfolding list_all_length by blast
    moreover have "\<not> list_all (\<lambda>x. x = None) (pool_owner m)"
    proof
      assume "list_all (\<lambda>x. x = None) (pool_owner m)"
      then have "pool_owner m ! p = None" using own(2) by (simp only: list_all_length)
      then show False using own(1) by simp
    qed
    ultimately show ?thesis by (simp add: is_all_finished_def)
  qed
  have all: "set is = {..<?n} - {}" using "is"(2) by (simp only: Diff_empty)
  have gd: "gather_data (init_task m t) = []" using P by (simp add: pools_inv_def)
  have cols: "columns ?n [] = reported_columns (report_cell plans m t) ?n {}" by (simp add: columns_def reported_columns_def)
  have state: "get_task_state m t \<noteq> Failed" using S by (simp add: states_inv_def)
  obtain m1 where m1: "gathering t [] m m1" "report_all flow order plans t is m = map_option (\<lambda>m2. (m2, is_all_finished m2))
        (set_task_finished flow t ?pairs (send_msg_to_one_task t FinishedMsg m1))"
    using report_rest[OF gathering_start[OF gd] staircase_Nil cols refl state busy "is"(1) all ne, of flow order] by blast
  note same = gathering_same[OF gd m1(1)]
  have inv1: "sched_inv ord srcs plans m1 u []" "turn plans m1 t" "remaining plans m1 = remaining plans m"
    using same_sched[OF same] inv t by auto
  have pairs: "distinct ?pairs" "set ?pairs = (\<lambda>p. (p, next_of (plans ! p) t)) ` waiting plans t"
    using order report_pairs[OF P Q t] by (simp_all add: set_order_def)
  note M = pairs_moves[OF pairs]
  obtain m' where m': "set_task_finished flow t (moves plans t (map fst ?pairs)) (send_msg_to_one_task t FinishedMsg m1) = Some m'"
      "sched_inv ord srcs plans m' t []"
    using finish_task[OF plans inv1(1,2) M(2,3)] by blast
  have "remaining plans m' < remaining plans m"
    using finish_shortens[OF plans inv1(1,2) M(2,3) m'(1)] inv1(3) by simp
  then show ?thesis using m1(2) m' M(1) by auto
qed

end
