(* ===== verification/Task_Setup.thy ===== *)
theory Task_Setup
  imports Task_Report
begin

text \<open>
  The state in which the manager's loop starts: sources without data are marked together with everything that
  depends on them alone, every other source has its pool. It satisfies the invariant of the loop.
\<close>

section \<open>Tasks without data\<close>

inductive_set dataless :: "task_flow \<Rightarrow> string set \<Rightarrow> string set" for flow dead where
  dead: "x \<in> dead \<Longrightarrow> x \<in> dataless flow dead"
| follows: "z \<in> set (get_prev_task_names flow x) \<Longrightarrow> (\<And>z. z \<in> set (get_prev_task_names flow x) \<Longrightarrow> z \<in> dataless flow dead) \<Longrightarrow>
    x \<in> dataless flow dead"

definition marked :: "'d manager \<Rightarrow> string set" where
  "marked m = {x. get_task_state m x = NoSourceData}"

text \<open>Two states that differ in marks only.\<close>

definition only_marks :: "'d manager \<Rightarrow> 'd manager \<Rightarrow> bool" where
  "only_marks m m' \<longleftrightarrow> pools m' = pools m \<and> pool_owner m' = pool_owner m \<and> outbox m' = outbox m \<and> next_queue m' = next_queue m \<and>
     marked m \<subseteq> marked m' \<and> (\<forall>x. init_task m' x = (if x \<in> marked m' then (init_task m x)\<lparr>state := NoSourceData\<rparr> else init_task m x))"

lemma marked_same: "x \<in> marked m \<Longrightarrow> init_task m x = (init_task m x)\<lparr>state := NoSourceData\<rparr>"
  by (cases "init_task m x") (simp add: marked_def)

lemma only_marks_refl: "only_marks m m"
  using marked_same by (auto simp: only_marks_def)

lemma only_marks_trans: "only_marks m m1 \<Longrightarrow> only_marks m1 m2 \<Longrightarrow> only_marks m m2"
  unfolding only_marks_def by (simp add: subset_iff)

lemma marked_mark: "marked (mark_no_source t m) = insert t (marked m)"
  by (auto simp: marked_def)

lemma only_marks_mark: "only_marks m (mark_no_source t m)"
  using marked_same by (auto simp: only_marks_def marked_mark)

lemma all_no_source_iff: "all_no_source flow t m \<longleftrightarrow> set (get_prev_task_names flow t) \<subseteq> marked m"
  by (auto simp: all_no_source_def marked_def list_all_iff)

lemma no_source_loop_simps:
  "no_source_loop flow [] m = Some m"
  "no_source_loop flow (t # ts) m =
     (if set (get_prev_task_names flow t) \<subseteq> marked m
      then Option.bind (no_source_loop flow (get_next_task_names flow t) (mark_no_source t m)) (no_source_loop flow ts)
      else no_source_loop flow ts m)"
  by (subst no_source_loop.simps, simp add: all_no_source_iff)+

definition marks_closed :: "task_flow \<Rightarrow> string set \<Rightarrow> 'd manager \<Rightarrow> bool" where
  "marks_closed flow open m \<longleftrightarrow>
     (\<forall>x. get_prev_task_names flow x \<noteq> [] \<and> set (get_prev_task_names flow x) \<subseteq> marked m \<longrightarrow> x \<in> marked m \<or> x \<in> open)"

definition marks_founded :: "task_flow \<Rightarrow> 'd manager \<Rightarrow> 'd manager \<Rightarrow> bool" where
  "marks_founded flow m m' \<longleftrightarrow>
     (\<forall>dead. marked m \<subseteq> dataless flow dead \<longrightarrow> marked m' \<subseteq> dataless flow dead)"

lemma later_in_drop:
  assumes "distinct xs" "x \<in> set (drop k xs)" "before xs x y"
  shows "y \<in> set (drop (Suc k) xs)"
proof -
  obtain i j where ij: "i < j" "j < length xs" "xs ! i = x" "xs ! j = y" using assms(3) by (auto simp: before_def)
  obtain l where l: "l < length xs - k" "xs ! (k + l) = x" using assms(2) by (auto simp: in_set_conv_nth)
  have "i = k + l" using assms(1) ij l nth_eq_iff_index_eq[OF assms(1), of i "k + l"] by auto
  then have "Suc k \<le> j" using ij by simp
  then show ?thesis using ij by (auto simp: in_set_conv_nth intro!: exI[of _ "j - Suc k"])
qed

lemma no_source_total:
  assumes plan: "plan_ok flow ord srcs"
  shows "set ts \<subseteq> set (drop k ord) \<Longrightarrow> (\<And>t. t \<in> set ts \<Longrightarrow> get_prev_task_names flow t \<noteq> []) \<Longrightarrow> marks_closed flow (set ts \<union> open) m \<Longrightarrow>
    \<exists>m'. no_source_loop flow ts m = Some m' \<and> only_marks m m' \<and> marks_closed flow open m' \<and> marks_founded flow m m'"
proof (induction "length ord - k" arbitrary: k ts m "open" rule: less_induct)
  case (less k ts m "open")
  note outer = less.hyps
  from less.prems show ?case
  proof (induction ts arbitrary: m)
    case Nil
    then show ?case by (auto simp: no_source_loop_simps only_marks_refl marks_founded_def)
  next
    case (Cons t ts)
    have t: "t \<in> set (drop k ord)" "get_prev_task_names flow t \<noteq> []" using Cons.prems by auto
    then have k: "k < length ord" by (cases "k < length ord") auto
    have t_ord: "t \<in> set ord" using t(1) by (meson in_set_dropD)
    show ?case
    proof (cases "set (get_prev_task_names flow t) \<subseteq> marked m")
      case False
      have "marks_closed flow (set ts \<union> open) m"
        using Cons.prems(3) False by (auto simp: marks_closed_def)
      then show ?thesis using Cons.IH[of m] Cons.prems False by (simp add: no_source_loop_simps)
    next
      case True
      let ?m = "mark_no_source t m"
      let ?ns = "get_next_task_names flow t"
      have next_prev: "t \<in> set (get_prev_task_names flow x)" if "x \<in> set ?ns" for x
        using plan that by (simp add: plan_ok_def)
      have ns: "set ?ns \<subseteq> set (drop (Suc k) ord)"
      proof
        fix x assume x: "x \<in> set ?ns"
        then have "x \<in> set ord" using plan t_ord unfolding plan_ok_def by blast
        then have "before ord t x" using plan next_prev[OF x] by (simp add: plan_ok_def)
        then show "x \<in> set (drop (Suc k) ord)" using later_in_drop[OF _ t(1)] plan by (simp add: plan_ok_def)
      qed
      have ne: "get_prev_task_names flow x \<noteq> []" if "x \<in> set ?ns" for x using next_prev[OF that] by auto
      have closed: "marks_closed flow (set ?ns \<union> (set ts \<union> open)) ?m"
        unfolding marks_closed_def marked_mark
      proof (intro allI impI)
        fix x assume x: "get_prev_task_names flow x \<noteq> [] \<and> set (get_prev_task_names flow x) \<subseteq> insert t (marked m)"
        show "x \<in> insert t (marked m) \<or> x \<in> set ?ns \<union> (set ts \<union> open)"
        proof (cases "t \<in> set (get_prev_task_names flow x)")
          case True
          then have "x \<in> set ?ns" using plan by (simp add: plan_ok_def)
          then show ?thesis by blast
        next
          case False
          then have "set (get_prev_task_names flow x) \<subseteq> marked m" using x by blast
          then show ?thesis using Cons.prems(3) x unfolding marks_closed_def by auto
        qed
      qed
      have "length ord - Suc k < length ord - k" using k by simp
      from outer[OF this ns ne closed] obtain m1 where m1: "no_source_loop flow ?ns ?m = Some m1" "only_marks ?m m1"
          "marks_closed flow (set ts \<union> open) m1" "marks_founded flow ?m m1" by blast
      obtain m2 where m2: "no_source_loop flow ts m1 = Some m2" "only_marks m1 m2" "marks_closed flow open m2" "marks_founded flow m1 m2"
        using Cons.IH[OF _ _ m1(3)] Cons.prems(1,2) by auto
      have f0: "marks_founded flow m ?m"
        unfolding marks_founded_def marked_mark
      proof (intro allI impI)
        fix dead assume d: "marked m \<subseteq> dataless flow dead"
        obtain z where "z \<in> set (get_prev_task_names flow t)" using t(2) by (cases "get_prev_task_names flow t") auto
        then have "t \<in> dataless flow dead" by (rule dataless.follows) (use True d in blast)
        then show "insert t (marked m) \<subseteq> dataless flow dead" using d by simp
      qed
      have "marks_founded flow m m2" using f0 m1(4) m2(4) by (simp add: marks_founded_def)
      moreover have "only_marks m m2" by (rule only_marks_trans[OF only_marks_mark only_marks_trans[OF m1(2) m2(2)]])
      ultimately show ?thesis using True m1(1) m2(1,3) by (simp add: no_source_loop_simps)
    qed
  qed
qed

lemma set_no_source_marks:
  assumes plan: "plan_ok flow ord srcs" and s: "s \<in> srcs" and m: "marked m = dataless flow dead"
  shows "\<exists>m'. set_no_source_data flow s m = Some m' \<and> only_marks m m' \<and> marked m' = dataless flow (insert s dead)"
proof -
  let ?m = "mark_no_source s m" and ?ns = "get_next_task_names flow s"
  have mono: "dataless flow dead \<subseteq> dataless flow (insert s dead)"
  proof
    fix x assume "x \<in> dataless flow dead"
    then show "x \<in> dataless flow (insert s dead)" by induction (auto intro: dataless.intros)
  qed
  have s_ord: "s \<in> set ord" "get_prev_task_names flow s = []" using plan s by (auto simp: plan_ok_def)
  have ns: "set ?ns \<subseteq> set (drop 0 ord)" using plan s_ord by (simp add: plan_ok_def)
  have prev: "s \<in> set (get_prev_task_names flow x) \<longleftrightarrow> x \<in> set ?ns" for x using plan by (simp add: plan_ok_def)
  have ne: "get_prev_task_names flow x \<noteq> []" if "x \<in> set ?ns" for x using that prev[of x] by auto
  have closed: "marks_closed flow (set ?ns \<union> {}) ?m"
    unfolding marks_closed_def marked_mark m
  proof (intro allI impI)
    fix x assume x: "get_prev_task_names flow x \<noteq> [] \<and> set (get_prev_task_names flow x) \<subseteq> insert s (dataless flow dead)"
    show "x \<in> insert s (dataless flow dead) \<or> x \<in> set ?ns \<union> {}"
    proof (cases "x \<in> set ?ns")
      case False
      then have "set (get_prev_task_names flow x) \<subseteq> dataless flow dead" using x prev[of x] by blast
      moreover obtain z where "z \<in> set (get_prev_task_names flow x)" using x by (cases "get_prev_task_names flow x") auto
      ultimately have "x \<in> dataless flow dead" by (auto intro: dataless.follows)
      then show ?thesis by blast
    qed blast
  qed
  from no_source_total[OF plan ns ne closed] obtain m' where m': "no_source_loop flow ?ns ?m = Some m'" "only_marks ?m m'"
      "marks_closed flow {} m'" "marks_founded flow ?m m'" by blast
  have "marked ?m \<subseteq> dataless flow (insert s dead)"
    using mono by (auto simp: marked_mark m intro: dataless.dead)
  then have sub: "marked m' \<subseteq> dataless flow (insert s dead)" using m'(4) by (simp add: marks_founded_def)
  have "x \<in> marked m'" if "x \<in> dataless flow (insert s dead)" for x
    using that
  proof induction
    case (dead x)
    then have "x \<in> marked ?m" by (auto simp: marked_mark m intro: dataless.dead)
    then show ?case using m'(2) by (auto simp: only_marks_def)
  next
    case (follows z x)
    then have "get_prev_task_names flow x \<noteq> []" "set (get_prev_task_names flow x) \<subseteq> marked m'" by auto
    then show ?case using m'(3) unfolding marks_closed_def by blast
  qed
  then have "marked m' = dataless flow (insert s dead)" using sub by blast
  then show ?thesis using m'(1) only_marks_trans[OF only_marks_mark m'(2)] by (simp add: set_no_source_data_def)
qed

text \<open>A task has no data exactly if no source with data reaches it.\<close>

lemma no_data_iff:
  assumes plan: "plan_ok flow ord srcs" and dead: "dead \<subseteq> srcs" and x: "x \<in> set ord"
  shows "x \<in> dataless flow dead \<longleftrightarrow> (\<forall>s \<in> srcs - dead. x \<notin> reached flow s)"
proof
  show "\<forall>s \<in> srcs - dead. x \<notin> reached flow s" if "x \<in> dataless flow dead"
    using that
  proof induction
    case (dead x)
    then show ?case using plan_sources[OF plan] \<open>dead \<subseteq> srcs\<close> by blast
  next
    case (follows z x)
    show ?case
    proof (intro ballI notI)
      fix s assume s: "s \<in> srcs - dead" "x \<in> reached flow s"
      have "get_prev_task_names flow s = []" using plan s(1) by (auto simp: plan_ok_def)
      then have "x \<noteq> s" using follows.hyps(1) by auto
      then obtain z where "z \<in> reached flow s" "z \<in> set (get_prev_task_names flow x)"
        using plan_reached[OF plan _ s(2)] s(1) by blast
      then show False using follows s(1) by blast
    qed
  qed
  show "x \<in> dataless flow dead" if "\<forall>s \<in> srcs - dead. x \<notin> reached flow s"
  proof -
    have "(\<forall>s \<in> srcs - dead. x \<notin> reached flow s) \<longrightarrow> x \<in> dataless flow dead"
      using plan x
    proof (induction rule: plan_order_induct)
      case (1 x)
      show ?case
      proof
        assume un: "\<forall>s \<in> srcs - dead. x \<notin> reached flow s"
        show "x \<in> dataless flow dead"
        proof (cases "get_prev_task_names flow x = []")
          case True
          then have "x \<in> srcs" using plan 1(1) by (simp add: plan_ok_def)
          then show ?thesis using un by (auto intro: dataless.dead reached.source)
        next
          case False
          have "z \<in> dataless flow dead" if z: "z \<in> set (get_prev_task_names flow x)" for z
          proof -
            have "before ord z x" using plan 1(1) z by (simp add: plan_ok_def)
            moreover have "x \<in> set (get_next_task_names flow z)" using plan z by (simp add: plan_ok_def)
            then have "\<forall>s \<in> srcs - dead. z \<notin> reached flow s" using un by (auto intro: reached.step)
            ultimately show ?thesis using 1(2) by blast
          qed
          moreover obtain z where "z \<in> set (get_prev_task_names flow x)" using False by (cases "get_prev_task_names flow x") auto
          ultimately show ?thesis by (auto intro: dataless.follows)
        qed
      qed
    qed
    then show ?thesis using that by blast
  qed
qed

end
