(* ===== verification/Task_Live.thy ===== *)
theory Task_Live
  imports Task_Setup
begin

text \<open>
  The whole parsing run without errors: from the graph of the registered tasks to the last pool. The manager
  never waits for ever.
\<close>

section \<open>The pools\<close>

text \<open>The state after the sources \<open>ss\<close> have got their pools and those of \<open>dead\<close> were marked.\<close>

definition setup_inv :: "task_flow \<Rightarrow> string list \<Rightarrow> string list \<Rightarrow> string set \<Rightarrow> 'd manager \<Rightarrow> bool" where
  "setup_inv flow ord ss dead m \<longleftrightarrow>
     pool_owner m = map Some ss \<and> length (pools m) = length ss \<and> distinct (concat (pools m)) \<and> (\<forall>p < length ss. pools m ! p \<noteq> []) \<and>
     (\<forall>q \<in> set (concat (pools m)). q < next_queue m) \<and>
     (\<forall>x. set (wait_pools (init_task m x)) = waiting (map (reach_list flow ord) ss) x) \<and>
     (\<forall>x. gather_data (init_task m x) = []) \<and>
     (\<forall>x. get_task_state m x = (if x \<in> dataless flow dead then NoSourceData else Unstart)) \<and>
     (\<forall>p < length ss. queues (init_task m (ss ! p)) = pools m ! p) \<and> (\<forall>x. x \<notin> set ss \<longrightarrow> queues (init_task m x) = []) \<and>
     (\<forall>p < length ss. \<forall>i < length (pools m ! p). \<exists>ms. outbox m (pools m ! p ! i) = ms @ [Go i])"

lemma setup_init: "setup_inv flow ord [] {} new_task_manager"
proof -
  have "x \<notin> dataless flow {}" for x
  proof
    assume "x \<in> dataless flow {}"
    then show False by induction auto
  qed
  then show ?thesis by (simp add: setup_inv_def init_new new_info_def waiting_def)
qed

lemma wait_fold:
  "distinct ts \<Longrightarrow> init_task (fold (\<lambda>t. upd_info t (\<lambda>i. i\<lparr>wait_pools := wait_pools i @ [k]\<rparr>)) ts m) x =
     (if x \<in> set ts then (init_task m x)\<lparr>wait_pools := wait_pools (init_task m x) @ [k]\<rparr> else init_task m x) \<and>
   pools (fold (\<lambda>t. upd_info t (\<lambda>i. i\<lparr>wait_pools := wait_pools i @ [k]\<rparr>)) ts m) = pools m \<and>
   pool_owner (fold (\<lambda>t. upd_info t (\<lambda>i. i\<lparr>wait_pools := wait_pools i @ [k]\<rparr>)) ts m) = pool_owner m \<and>
   outbox (fold (\<lambda>t. upd_info t (\<lambda>i. i\<lparr>wait_pools := wait_pools i @ [k]\<rparr>)) ts m) = outbox m \<and>
   next_queue (fold (\<lambda>t. upd_info t (\<lambda>i. i\<lparr>wait_pools := wait_pools i @ [k]\<rparr>)) ts m) = next_queue m"
  by (induction ts arbitrary: m) auto

lemma create_pool_fields:
  fixes n :: nat
  assumes d: "distinct ts" and q: "queues (init_task m s) = []"
  defines "qs \<equiv> [next_queue m ..< next_queue m + n]" and "m' \<equiv> create_pool s n ts m"
  shows "pools m' = pools m @ [qs] \<and> pool_owner m' = pool_owner m @ [Some s] \<and> next_queue m' = next_queue m + n \<and>
    (\<forall>x. wait_pools (init_task m' x) = wait_pools (init_task m x) @ (if x \<in> set ts then [length (pools m)] else [])) \<and>
    (\<forall>x. gather_data (init_task m' x) = gather_data (init_task m x) \<and> get_task_state m' x = get_task_state m x) \<and>
    (\<forall>x. queues (init_task m' x) = (if x = s then qs else queues (init_task m x))) \<and>
    (\<forall>i < n. outbox m' (qs ! i) = outbox m (qs ! i) @ [Go i]) \<and> (\<forall>r. r \<notin> set qs \<longrightarrow> outbox m' r = outbox m r)"
proof -
  let ?m1 = "m\<lparr>pools := pools m @ [qs], pool_owner := pool_owner m @ [Some s], next_queue := next_queue m + n\<rparr>"
  let ?m2 = "fold (\<lambda>t. upd_info t (\<lambda>i. i\<lparr>wait_pools := wait_pools i @ [length (pools m)]\<rparr>)) ts ?m1"
  let ?m3 = "upd_info s (\<lambda>i. i\<lparr>queues := queues i @ qs\<rparr>) ?m2"
  have m': "m' = send_go s Go ?m3" by (simp add: m'_def create_pool_def qs_def Let_def)
  have i1: "init_task ?m1 x = init_task m x" for x by (simp add: init_task_def)
  note W = wait_fold[OF d, of "length (pools m)" ?m1]
  have i2: "init_task ?m2 x = (if x \<in> set ts then (init_task m x)\<lparr>wait_pools := wait_pools (init_task m x) @ [length (pools m)]\<rparr> else init_task m x)" for x
    using W[of x] unfolding i1 by blast
  have q3: "queues (init_task ?m3 s) = qs" using q by (simp add: i2)
  have "distinct (queues (init_task ?m3 s))" unfolding q3 by (simp add: qs_def)
  note G = send_go_fields[OF this, where go = Go, unfolded q3, folded m']
  have other: "init_task m' x = init_task ?m3 x" for x using G(4) by simp
  have len: "length qs = n" by (simp add: qs_def)
  have out: "outbox ?m3 = outbox m" using W by simp
  have f: "pools ?m3 = pools m @ [qs]" "pool_owner ?m3 = pool_owner m @ [Some s]" "next_queue ?m3 = next_queue m + n"
    using W by simp_all
  show ?thesis
  proof (intro conjI)
    show "pools m' = pools m @ [qs]" using G(1) f(1) by simp
    show "pool_owner m' = pool_owner m @ [Some s]" using G(2) f(2) by simp
    show "next_queue m' = next_queue m + n" using G(3) f(3) by simp
    show "\<forall>i < n. outbox m' (qs ! i) = outbox m (qs ! i) @ [Go i]" using G(5) len out by simp
    show "\<forall>r. r \<notin> set qs \<longrightarrow> outbox m' r = outbox m r" using G(6) out by simp
  qed (use q in \<open>simp_all add: other i2\<close>)
qed

lemma waiting_snoc: "waiting (ls @ [l]) x = waiting ls x \<union> (if x \<in> set l then {length ls} else {})"
  by (auto simp: waiting_def nth_append less_Suc_eq)

lemma create_pool_setup:
  assumes inv: "setup_inv flow ord ss dead m" and s: "s \<notin> set ss" "distinct ord" "0 < n"
  shows "setup_inv flow ord (ss @ [s]) dead (create_pool s n (reach_list flow ord s) m)"
proof -
  define m' where "m' = create_pool s n (reach_list flow ord s) m"
  define qs where "qs = [next_queue m ..< next_queue m + n]"
  note inv' = inv[unfolded setup_inv_def]
  have "distinct (reach_list flow ord s)" using s(2) by (simp add: reach_list_def)
  moreover have "queues (init_task m s) = []" using inv' s(1) by blast
  ultimately have F: "pools m' = pools m @ [qs] \<and> pool_owner m' = pool_owner m @ [Some s] \<and> next_queue m' = next_queue m + n \<and>
    (\<forall>x. wait_pools (init_task m' x) = wait_pools (init_task m x) @ (if x \<in> set (reach_list flow ord s) then [length (pools m)] else [])) \<and>
    (\<forall>x. gather_data (init_task m' x) = gather_data (init_task m x) \<and> get_task_state m' x = get_task_state m x) \<and>
    (\<forall>x. queues (init_task m' x) = (if x = s then qs else queues (init_task m x))) \<and>
    (\<forall>i < n. outbox m' (qs ! i) = outbox m (qs ! i) @ [Go i]) \<and> (\<forall>r. r \<notin> set qs \<longrightarrow> outbox m' r = outbox m r)"
    unfolding m'_def qs_def by (rule create_pool_fields)
  have bound: "\<forall>q \<in> set (concat (pools m)). q < next_queue m" using inv' by blast
  have qs: "set (concat (pools m)) \<inter> set qs = {}" "distinct qs" "length qs = n" "\<forall>q \<in> set qs. q < next_queue m + n"
  proof -
    have "q \<notin> set qs" if "q \<in> set (concat (pools m))" for q
    proof -
      have "q < next_queue m" using bound that by blast
      then show ?thesis by (simp add: qs_def)
    qed
    then show "set (concat (pools m)) \<inter> set qs = {}" by blast
  qed (simp_all add: qs_def)
  have len: "length (pools m) = length ss" using inv' by blast
  show ?thesis
    unfolding m'_def[symmetric] setup_inv_def
  proof (intro conjI)
    show "distinct (concat (pools m'))" using F inv' qs by auto
    show "\<forall>q \<in> set (concat (pools m')). q < next_queue m'"
    proof
      fix q assume "q \<in> set (concat (pools m'))"
      then have "q \<in> set (concat (pools m)) \<or> q \<in> set qs" using F by simp
      then have "q < next_queue m + n" using bound qs(4) by (meson trans_less_add1)
      then show "q < next_queue m'" using F by simp
    qed
    show "\<forall>p < length (ss @ [s]). pools m' ! p \<noteq> []" using F inv' s(3) len by (auto simp: nth_append less_Suc_eq qs_def)
    show "\<forall>x. set (wait_pools (init_task m' x)) = waiting (map (reach_list flow ord) (ss @ [s])) x"
    proof
      fix x
      have "set (wait_pools (init_task m x)) = waiting (map (reach_list flow ord) ss) x" using inv' by blast
      then show "set (wait_pools (init_task m' x)) = waiting (map (reach_list flow ord) (ss @ [s])) x"
        using F len by (simp add: waiting_snoc)
    qed
    show "\<forall>p < length (ss @ [s]). queues (init_task m' ((ss @ [s]) ! p)) = pools m' ! p"
    proof (intro allI impI)
      fix p assume p: "p < length (ss @ [s])"
      show "queues (init_task m' ((ss @ [s]) ! p)) = pools m' ! p"
      proof (cases "p < length ss")
        case True
        then have "ss ! p \<noteq> s" using s(1) nth_mem by metis
        then show ?thesis using F inv' len True by (simp add: nth_append)
      next
        case False
        then have "p = length ss" using p by simp
        then show ?thesis using F len by (simp add: nth_append)
      qed
    qed
    show "\<forall>p < length (ss @ [s]). \<forall>i < length (pools m' ! p). \<exists>ms. outbox m' (pools m' ! p ! i) = ms @ [Go i]"
    proof (intro allI impI)
      fix p i assume p: "p < length (ss @ [s])" and i: "i < length (pools m' ! p)"
      show "\<exists>ms. outbox m' (pools m' ! p ! i) = ms @ [Go i]"
      proof (cases "p < length ss")
        case True
        then have e: "pools m' ! p = pools m ! p" using F len by (simp add: nth_append)
        have "pools m ! p ! i \<in> set (pools m ! p)" using i e by simp
        then have "pools m ! p ! i \<in> set (concat (pools m))" by (rule subsetD[OF nth_subset_concat, rotated]) (use True len in simp)
        then have "pools m ! p ! i \<notin> set qs" using qs(1) by blast
        then show ?thesis using F inv' True i e by simp
      next
        case False
        then have "pools m' ! p = qs" using F len p by (simp add: nth_append)
        then show ?thesis using F i qs(3) by simp
      qed
    qed
  qed (use F inv' in \<open>simp_all add: len\<close>)
qed

lemma marks_setup:
  assumes inv: "setup_inv flow ord ss dead m" and m: "only_marks m m'" "marked m' = dataless flow (insert s dead)"
  shows "setup_inv flow ord ss (insert s dead) m'"
proof -
  note inv' = inv[unfolded setup_inv_def]
  have info: "init_task m' x = (if x \<in> dataless flow (insert s dead) then (init_task m x)\<lparr>state := NoSourceData\<rparr> else init_task m x)" for x
    using m by (simp add: only_marks_def)
  have sub: "dataless flow dead \<subseteq> dataless flow (insert s dead)"
  proof -
    have "marked m = dataless flow dead" using inv' by (auto simp: marked_def)
    then show ?thesis using m by (simp add: only_marks_def)
  qed
  have f: "pools m' = pools m" "pool_owner m' = pool_owner m" "outbox m' = outbox m" "next_queue m' = next_queue m"
    using m(1) by (simp_all add: only_marks_def)
  have st: "get_task_state m' x = (if x \<in> dataless flow (insert s dead) then NoSourceData else Unstart)" for x
    using inv' sub by (auto simp: info)
  show ?thesis unfolding setup_inv_def st unfolding f using inv' by (simp add: info)
qed

section \<open>Setting up all sources\<close>

definition live :: "(string \<times> nat) list \<Rightarrow> string list" where
  "live sources = map fst (filter (\<lambda>(s, n). n \<noteq> 0) sources)"

definition dead_sources :: "(string \<times> nat) list \<Rightarrow> string set" where
  "dead_sources sources = {s. (s, 0) \<in> set sources}"

lemma setup_all:
  assumes plan: "plan_ok (dag_task_flow dag) (ordered_tasks_name dag) srcs"
  shows "fst ` set sources \<subseteq> srcs \<Longrightarrow> distinct (map fst sources) \<Longrightarrow> set ss \<inter> fst ` set sources = {} \<Longrightarrow>
    setup_inv (dag_task_flow dag) (ordered_tasks_name dag) ss dead m \<Longrightarrow>
    \<exists>m'. tasks_setup dag sources m = Some m' \<and>
      setup_inv (dag_task_flow dag) (ordered_tasks_name dag) (ss @ live sources) (dead \<union> dead_sources sources) m'"
proof (induction sources arbitrary: ss dead m)
  case Nil
  then show ?case by (simp add: live_def dead_sources_def)
next
  case (Cons x sources)
  obtain s n where x: "x = (s, n)" by (cases x)
  show ?case
  proof (cases "n = 0")
    case True
    have "marked m = dataless (dag_task_flow dag) dead" using Cons.prems(4) by (auto simp: setup_inv_def marked_def)
    moreover have "s \<in> srcs" using Cons.prems(1) x by simp
    ultimately obtain m1 where m1: "set_no_source_data (dag_task_flow dag) s m = Some m1" "only_marks m m1"
        "marked m1 = dataless (dag_task_flow dag) (insert s dead)"
      using set_no_source_marks[OF plan] by blast
    have "live (x # sources) = live sources" "insert s dead \<union> dead_sources sources = dead \<union> dead_sources (x # sources)"
      using x True by (auto simp: live_def dead_sources_def)
    then show ?thesis
      using Cons.IH[OF _ _ _ marks_setup[OF Cons.prems(4) m1(2,3)]] Cons.prems x True m1(1) by auto
  next
    case False
    have "s \<notin> set ss" "distinct (ordered_tasks_name dag)" "0 < n"
      using Cons.prems(3) plan x False by (auto simp: plan_ok_def)
    note inv = create_pool_setup[OF Cons.prems(4) this]
    have "live (x # sources) = s # live sources" "dead_sources (x # sources) = dead_sources sources"
      using x False by (auto simp: live_def dead_sources_def)
    moreover have "ordered_tasks_name (filter_dag dag s) = reach_list (dag_task_flow dag) (ordered_tasks_name dag) s"
      by (simp add: filter_dag_order reach_list_def)
    ultimately show ?thesis
      using Cons.IH[OF _ _ _ inv] Cons.prems x False by auto
  qed
qed

text \<open>The set-up state satisfies the invariant of the loop.\<close>

lemma setup_sched:
  assumes plan: "plan_ok flow ord srcs" and inv: "setup_inv flow ord ss dead m"
    and ss: "distinct ss" "set ss = srcs - dead" "dead \<subseteq> srcs"
  shows "sched_inv ord srcs (map (reach_list flow ord) ss) m u []"
proof -
  let ?plans = "map (reach_list flow ord) ss"
  note inv' = inv[unfolded setup_inv_def]
  have src: "ss ! p \<in> srcs" if "p < length ss" for p using that ss(2) nth_mem by blast
  note hd = reach_list_hd[OF plan src]
  have own: "pool_owner m ! p = Some (ss ! p)" if "p < length ss" for p using inv' that by simp
  have rest: "pool_rest ?plans m p = reach_list flow ord (ss ! p)" if "p < length ss" for p
    using hd(4)[OF that] own[OF that] that by (simp add: pool_rest_def)
  have st: "get_task_state m x \<noteq> Finished" "get_task_state m x \<noteq> Started" "get_task_state m x \<noteq> Failed" for x
    using inv' by auto
  have turn: "\<exists>p < length ss. x = ss ! p" if t: "turn ?plans m x" for x
  proof -
    obtain p where p: "p \<in> waiting ?plans x" using t by (auto simp: turn_def)
    then have "pool_owner m ! p = Some x" using t by (simp add: turn_def)
    then show ?thesis using own p by (auto simp: waiting_def)
  qed
  have nth_eq: "ss ! p = ss ! q \<longleftrightarrow> p = q" if "p < length ss" "q < length ss" for p q
    using ss(1) that by (simp add: nth_eq_iff_index_eq)
  have arrived: "arrived ?plans m x = {p. p < length ss \<and> ss ! p = x}" for x
    using own rest hd(2) by (auto simp: arrived_def waiting_def)
  have "pools_inv ?plans m" using inv' own hd(2) by (auto simp: pools_inv_def)
  moreover have "states_inv ord srcs ?plans m u []"
    unfolding states_inv_def
  proof (intro conjI)
    show "\<forall>x. \<forall>p \<in> waiting ?plans x. get_task_state m x = Finished \<longleftrightarrow> x \<notin> set (pool_rest ?plans m p) \<or> p \<in> set [] \<and> x = u"
      using st(1) rest by (auto simp: waiting_def)
    show "\<forall>x. get_task_state m x = Started \<longleftrightarrow> x \<notin> srcs \<and> turn ?plans m x" using st(2) turn src by blast
    show "\<forall>x \<in> set ord. get_task_state m x = NoSourceData \<longleftrightarrow> waiting ?plans x = {}"
    proof
      fix x assume x: "x \<in> set ord"
      have "get_task_state m x = NoSourceData \<longleftrightarrow> x \<in> dataless flow dead" using inv' by simp
      also have "\<dots> \<longleftrightarrow> (\<forall>s \<in> set ss. x \<notin> reached flow s)" using no_data_iff[OF plan ss(3) x] ss(2) by simp
      also have "\<dots> \<longleftrightarrow> waiting ?plans x = {}"
      proof -
        have "set (map (reach_list flow ord) ss ! p) = reached flow (ss ! p)" if "p < length ss" for p
          using reach_list_set[OF plan src[OF that]] that by simp
        then have "waiting ?plans x = {p. p < length ss \<and> x \<in> reached flow (ss ! p)}" by (auto simp: waiting_def)
        then show ?thesis by (auto simp: all_set_conv_all_nth)
      qed
      finally show "get_task_state m x = NoSourceData \<longleftrightarrow> waiting ?plans x = {}" .
    qed
  qed (use st(3) in simp_all)
  moreover have "queues_inv ?plans m"
    unfolding queues_inv_def
  proof (intro conjI allI impI)
    fix x
    show "\<exists>ar. distinct ar \<and> set ar = arrived ?plans m x \<and> queues (init_task m x) = concat (map ((!) (pools m)) ar)"
    proof (cases "x \<in> set ss")
      case True
      then obtain p where p: "p < length ss" "x = ss ! p" by (auto simp: in_set_conv_nth)
      then have "arrived ?plans m x = {p}" using nth_eq by (auto simp: arrived)
      then show ?thesis using inv' p by (intro exI[of _ "[p]"]) simp
    next
      case False
      then have "arrived ?plans m x = {}" by (auto simp: arrived)
      moreover have "queues (init_task m x) = []" using inv' False by blast
      ultimately show ?thesis by (intro exI[of _ "[]"]) simp
    qed
  next
    fix x i assume "turn ?plans m x" and i: "i < length (queues (init_task m x))"
    then obtain p where p: "p < length ss" "x = ss ! p" using turn by blast
    then have "queues (init_task m x) = pools m ! p" using inv' by blast
    then show "\<exists>ms. outbox m (queues (init_task m x) ! i) = ms @ [Go i]" using inv' p(1) i by simp
  qed
  ultimately show ?thesis by (simp add: sched_inv_def)
qed

section \<open>The plan of a graph\<close>

lemma dag_plan:
  assumes dag: "get_dag regs sorder exporters = Some (Inr dag)" and so: "\<And>xs. set (sorder xs) = set xs"
    and heads: "\<forall>h \<in> set (head_tasks_name dag). producers_of regs h = {}"
  shows "plan_ok (dag_task_flow dag) (ordered_tasks_name dag) (set (head_tasks_name dag))"
proof -
  obtain flow hs ordered where walk: "walk_tasks regs 0 exporters [] [] = Some (flow, hs)"
      and ord: "get_task_run_order (sorder hs) flow = Some ordered"
      and d: "dag_task_flow dag = flow" "ordered_tasks_name dag = ordered" "head_tasks_name dag = sorder hs"
    using dag by (auto simp: get_dag_def split: option.splits)
  note W = walk_graph[OF walk] and R = run_order_result[OF ord]
  have edge: "x \<in> set (get_next_task_names flow z) \<longleftrightarrow> z \<in> set (get_prev_task_names flow x)" for x z by (simp add: W)
  have bef: "before ordered z x" if x: "x \<in> set ordered" and z: "z \<in> set (get_prev_task_names flow x)" for x z
  proof -
    obtain i where i: "i < length ordered" "ordered ! i = x" using x by (auto simp: in_set_conv_nth)
    then have "z \<in> set (take i ordered)" using R(3) z by (auto simp: follows_prevs_def)
    then obtain k where "k < i" "ordered ! k = z" using i by (auto simp: in_set_conv_nth)
    then show ?thesis using i by (auto simp: before_def)
  qed
  have nexts: "set (get_next_task_names flow z) \<subseteq> set ordered" if "z \<in> set ordered" for z
    using that R(1,4) by (auto simp: entered_def)
  have srcs: "set (sorder hs) \<subseteq> set ordered" using R(1,4) by (auto simp: entered_def)
  have first: "get_prev_task_names flow x = [] \<longleftrightarrow> x \<in> set (sorder hs)" if x: "x \<in> set ordered" for x
  proof
    assume none: "get_prev_task_names flow x = []"
    have "x \<in> runnable (sorder hs) flow" using x R(1) by simp
    then show "x \<in> set (sorder hs)"
    proof cases
      case (successor p)
      then show ?thesis using none edge[of x p] by simp
    qed
  next
    assume "x \<in> set (sorder hs)"
    then have "producers_of regs x = {}" using heads unfolding d(3) by blast
    then have "set (get_prev_task_names flow x) = {}" by (simp add: W(1))
    then show "get_prev_task_names flow x = []" by simp
  qed
  show ?thesis
    unfolding plan_ok_def d
  proof (intro conjI allI ballI)
    show "x \<in> set (get_next_task_names flow z) \<longleftrightarrow> z \<in> set (get_prev_task_names flow x)" for x z by (rule edge)
  qed (use R(2) bef nexts srcs first in blast)+
qed

section \<open>Rounds\<close>

text \<open>
  A round of a task whose turn it is: its processes, which have all been told to go, report in some order. The lists of
  the pools are those the processes got.
\<close>

definition pool_plans :: "task_dag \<Rightarrow> (string \<times> nat) list \<Rightarrow> string list list" where
  "pool_plans dag sources = map (\<lambda>s. ordered_tasks_name (filter_dag dag s)) (live sources)"

inductive rounds ::
  "task_dag \<Rightarrow> ((nat \<times> string option) list \<Rightarrow> (nat \<times> string option) list) \<Rightarrow> string list list \<Rightarrow> 'd manager \<Rightarrow> 'd manager \<Rightarrow> bool"
  for dag order plans where
  none: "rounds dag order plans m m"
| round: "rounds dag order plans m m1 \<Longrightarrow> turn plans m1 t \<Longrightarrow> distinct is \<Longrightarrow> set is = {..<length (queues (init_task m1 t))} \<Longrightarrow>
    report_all (dag_task_flow dag) order plans t is m1 = Some (m2, stop) \<Longrightarrow> rounds dag order plans m m2"

lemma pool_plans_reach:
  "pool_plans dag sources = map (reach_list (dag_task_flow dag) (ordered_tasks_name dag)) (live sources)"
  by (simp add: pool_plans_def filter_dag_order reach_list_def)

lemma live_facts:
  "distinct (map fst sources) \<Longrightarrow> distinct (live sources)"
  "distinct (map fst sources) \<Longrightarrow> set (live sources) = fst ` set sources - dead_sources sources"
  "dead_sources sources \<subseteq> fst ` set sources"
proof -
  show "distinct (live sources)" if "distinct (map fst sources)"
    using that by (simp add: live_def distinct_map_filter)
  show "set (live sources) = fst ` set sources - dead_sources sources" if d: "distinct (map fst sources)"
  proof -
    have "n = 0 \<longleftrightarrow> (s, 0) \<in> set sources" if "(s, n) \<in> set sources" for s n
      using d that by (metis eq_key_imp_eq_value)
    then show ?thesis by (force simp: live_def dead_sources_def)
  qed
  show "dead_sources sources \<subseteq> fst ` set sources" by (force simp: dead_sources_def)
qed

lemma rounds_inv:
  assumes "rounds dag order plans m m'" "plans_ok (dag_task_flow dag) ord srcs plans" "set_order order" "sched_inv ord srcs plans m u []"
  shows "\<exists>u. sched_inv ord srcs plans m' u []"
  using assms
proof induction
  case (round m m1 t "is" m2 stop)
  then obtain u' where "sched_inv ord srcs plans m1 u' []" by blast
  from round_of_task[OF round.prems(1) this round.hyps(2) round.prems(2) round.hyps(3,4)] show ?case using round.hyps(5) by auto
qed blast

section \<open>Property\<close>

lemma total_same: "same_fields m (m\<lparr>total_tasks := n\<rparr>)"
  by (simp add: same_fields_def init_task_def)

lemma run_setup:
  assumes plan: "plan_ok (dag_task_flow dag) (ordered_tasks_name dag) srcs" and s: "fst ` set sources = srcs" "distinct (map fst sources)"
  shows "\<exists>m0 :: 'd manager. tasks_run dag sources = Some m0 \<and> sched_inv (ordered_tasks_name dag) srcs (pool_plans dag sources) m0 u [] \<and>
    plans_ok (dag_task_flow dag) (ordered_tasks_name dag) srcs (pool_plans dag sources)"
proof -
  note L = live_facts(1,2)[OF s(2)] live_facts(3)[of sources]
  obtain m' :: "'d manager" where m': "tasks_setup dag sources new_task_manager = Some m'"
      "setup_inv (dag_task_flow dag) (ordered_tasks_name dag) (live sources) (dead_sources sources) m'"
    using setup_all[OF plan _ s(2) _ setup_init] s(1) by auto
  define m0 where "m0 = m'\<lparr>total_tasks := length (remdups (concat (map (\<lambda>(s, n).
         if n = 0 then [] else ordered_tasks_name (filter_dag dag s)) sources)))\<rparr>"
  have run: "tasks_run dag sources = Some m0" by (simp add: tasks_run_def m'(1) m0_def)
  have "sched_inv (ordered_tasks_name dag) srcs (pool_plans dag sources) m' u []"
    unfolding pool_plans_reach by (rule setup_sched[OF plan m'(2)]) (use L s in auto)
  then have "sched_inv (ordered_tasks_name dag) srcs (pool_plans dag sources) m0 u []"
    using same_sched(1)[OF total_same] unfolding m0_def by blast
  moreover have "plans_ok (dag_task_flow dag) (ordered_tasks_name dag) srcs (pool_plans dag sources)"
    unfolding plans_ok_def pool_plans_reach using plan L s by (intro conjI exI[of _ "live sources"]) auto
  ultimately show ?thesis using run by blast
qed

lemma progress_from:
  assumes plans: "plans_ok flow ord srcs plans" and inv: "sched_inv ord srcs plans m u []" and order: "set_order order"
  shows "is_all_finished m \<or> (\<exists>t. turn plans m t)"
    "turn plans m t \<Longrightarrow> \<forall>i < length (queues (init_task m t)). \<exists>ms. outbox m (queues (init_task m t) ! i) = ms @ [Go i]"
    "turn plans m t \<Longrightarrow> distinct is \<and> set is = {..<length (queues (init_task m t))} \<Longrightarrow>
      \<exists>m'. report_all flow order plans t is m = Some (m', is_all_finished m') \<and> remaining plans m' < remaining plans m"
proof -
  show "is_all_finished m \<or> (\<exists>t. turn plans m t)"
    using some_turn[OF plans inv] by (auto simp: is_all_finished_def)
  show "turn plans m t \<Longrightarrow> \<forall>i < length (queues (init_task m t)). \<exists>ms. outbox m (queues (init_task m t) ! i) = ms @ [Go i]"
    using inv by (simp add: sched_inv_def queues_inv_def)
  show "turn plans m t \<Longrightarrow> distinct is \<and> set is = {..<length (queues (init_task m t))} \<Longrightarrow>
      \<exists>m'. report_all flow order plans t is m = Some (m', is_all_finished m') \<and> remaining plans m' < remaining plans m"
    using round_of_task[OF plans inv _ order] by blast
qed

text \<open>
  Property C16. A parsing run without errors never gets stuck. With the graph of the registered tasks, sources that nothing
  produces and any amount of data per source, the set-up returns; and in every state that rounds of reports lead
  to, either the manager is done or it is the turn of some task whose processes have all been told to go. When they
  report, in whatever order, the manager's loop goes through without an exception, ends exactly when every pool is
  released, and less is left to run than before.
\<close>

theorem tasks_always_progress:
  assumes "get_dag regs sorder exporters = Some (Inr dag)" "\<forall>xs. set (sorder xs) = set xs"
    and "\<forall>h \<in> set (head_tasks_name dag). producers_of regs h = {}"
    and "fst ` set sources = set (head_tasks_name dag)" "distinct (map fst sources)" "set_order order"
  shows "\<exists>m0 :: 'd manager. tasks_run dag sources = Some m0 \<and>
    (\<forall>m. rounds dag order (pool_plans dag sources) m0 m \<longrightarrow>
       (is_all_finished m \<or> (\<exists>t. turn (pool_plans dag sources) m t)) \<and>
       (\<forall>t. turn (pool_plans dag sources) m t \<longrightarrow>
          (\<forall>i < length (queues (init_task m t)). \<exists>ms. outbox m (queues (init_task m t) ! i) = ms @ [Go i]) \<and>
          (\<forall>is. distinct is \<and> set is = {..<length (queues (init_task m t))} \<longrightarrow>
             (\<exists>m'. report_all (dag_task_flow dag) order (pool_plans dag sources) t is m = Some (m', is_all_finished m') \<and>
                remaining (pool_plans dag sources) m' < remaining (pool_plans dag sources) m))))"
proof -
  have so: "\<And>xs. set (sorder xs) = set xs" using assms(2) by blast
  obtain m0 :: "'d manager" where m0: "tasks_run dag sources = Some m0"
      "sched_inv (ordered_tasks_name dag) (set (head_tasks_name dag)) (pool_plans dag sources) m0 [] []"
      "plans_ok (dag_task_flow dag) (ordered_tasks_name dag) (set (head_tasks_name dag)) (pool_plans dag sources)"
    using run_setup[OF dag_plan[OF assms(1) so assms(3)] assms(4,5)] by blast
  show ?thesis
  proof (rule exI[of _ m0], intro conjI allI impI m0(1))
    fix m :: "'d manager" assume "rounds dag order (pool_plans dag sources) m0 m"
    from rounds_inv[OF this m0(3) assms(6) m0(2)] obtain u where
      inv: "sched_inv (ordered_tasks_name dag) (set (head_tasks_name dag)) (pool_plans dag sources) m u []" by blast
    note P = progress_from[OF m0(3) inv assms(6)]
    show "is_all_finished m \<or> (\<exists>t. turn (pool_plans dag sources) m t)" by (rule P(1))
    fix t assume t: "turn (pool_plans dag sources) m t"
    show "\<And>i. i < length (queues (init_task m t)) \<Longrightarrow> \<exists>ms. outbox m (queues (init_task m t) ! i) = ms @ [Go i]" using P(2)[OF t] by blast
    show "\<And>is. distinct is \<and> set is = {..<length (queues (init_task m t))} \<Longrightarrow>
        \<exists>m'. report_all (dag_task_flow dag) order (pool_plans dag sources) t is m = Some (m', is_all_finished m') \<and>
          remaining (pool_plans dag sources) m' < remaining (pool_plans dag sources) m" by (rule P(3)[OF t])
  qed
qed

definition example_dag :: task_dag where
  "example_dag = (case get_dag example_regs rev [''trace''] of Some (Inr dag) \<Rightarrow> dag
     | _ \<Rightarrow> \<lparr>dag_data_flow = [], dag_task_flow = [], head_tasks_name = [], ordered_tasks_name = []\<rparr>)"

theorem tasks_always_progress_witness:
  "\<exists>m0 :: nat manager. tasks_run example_dag [(''torch'', 2), (''db'', 0)] = Some m0 \<and>
     (is_all_finished m0 \<or> (\<exists>t. turn (pool_plans example_dag [(''torch'', 2), (''db'', 0)]) m0 t))"
proof -
  have "get_dag example_regs rev [''trace''] = Some (Inr example_dag)" by code_simp
  moreover have "\<forall>xs. set (rev xs) = set (xs :: string list)" by simp
  moreover have heads: "head_tasks_name example_dag = [''db'', ''torch''] \<or> head_tasks_name example_dag = [''torch'', ''db'']" by code_simp
  then have h: "set (head_tasks_name example_dag) = {''db'', ''torch''}" by (elim disjE) (simp_all add: insert_commute)
  then have "\<forall>h \<in> set (head_tasks_name example_dag). producers_of example_regs h = {}"
    by (simp add: example_producers)
  moreover have "fst ` set [(''torch'', 2 :: nat), (''db'', 0)] = set (head_tasks_name example_dag)" unfolding h by (simp add: insert_commute)
  moreover have "distinct (map fst [(''torch'', 2 :: nat), (''db'', 0)])" by simp
  moreover have "set_order remdups" by (simp add: set_order_def)
  ultimately show ?thesis
    by (blast dest: tasks_always_progress intro: rounds.none)
qed

end
