(* ===== verification/Trace_Socket.thy ===== *)
theory Trace_Socket
  imports Prelude
begin

text \<open>
  The receiving end of the trace forwarders, \<^verbatim>\<open>ms_service_profiler/tracer/socket_server.py\<close>
  (\<open>AbstractSocketServer\<close>), and the framing of the sender in \<^verbatim>\<open>tracer/perfetto_socket.py\<close>.

  A connection is the list of what its \<^verbatim>\<open>recv\<close> calls give: chunks of bytes (the empty one is the end of
  the stream) or an error. A connection is served by a thread of its own; the model runs one at a time. The clock
  gives the successive results of \<^verbatim>\<open>time.time()\<close>, in seconds; it only decides whether a warning is logged.
\<close>

type_synonym octets = "8 word list"

section \<open>Big-endian numbers\<close>

text \<open>\<^verbatim>\<open>int.from_bytes(b, byteorder='big')\<close> and \<^verbatim>\<open>n.to_bytes(k, byteorder='big')\<close>, which raises for a number that does not fit.\<close>

definition from_bytes_big :: "octets \<Rightarrow> nat" where
  "from_bytes_big bs = foldl (\<lambda>n b. 256 * n + unat b) 0 bs"

fun low_bytes_big :: "nat \<Rightarrow> nat \<Rightarrow> octets" where
  "low_bytes_big 0 n = []"
| "low_bytes_big (Suc k) n = low_bytes_big k (n div 256) @ [of_nat n]"

definition to_bytes_big :: "nat \<Rightarrow> nat \<Rightarrow> octets option" where
  "to_bytes_big k n = (if n < 256 ^ k then Some (low_bytes_big k n) else None)"

section \<open>The server\<close>

definition OTEL_Length_Field :: nat where
  "OTEL_Length_Field = 4"

definition WARNING_INTERVAL :: int where
  "WARNING_INTERVAL = 3600"

record server =
  buffer_size :: nat
  data_queue :: "octets list"
  max_queue_size :: nat
  warning_queue_size :: nat
  running :: bool
  server_socket :: bool
  server_thread :: bool
  last_stack_warning_time :: int
  last_full_warning_time :: int
  clock :: "nat \<Rightarrow> int"
  clock_reads :: nat

definition new_server :: "nat \<Rightarrow> nat \<Rightarrow> nat \<Rightarrow> (nat \<Rightarrow> int) \<Rightarrow> server" where
  "new_server bufsize max_size warning_size clk =
     \<lparr>buffer_size = bufsize, data_queue = [], max_queue_size = max_size, warning_queue_size = warning_size,
      running = False, server_socket = False, server_thread = False,
      last_stack_warning_time = 0, last_full_warning_time = 0, clock = clk, clock_reads = 0\<rparr>"

definition time_now :: "server \<Rightarrow> int \<times> server" where
  "time_now s = (clock s (clock_reads s), s\<lparr>clock_reads := Suc (clock_reads s)\<rparr>)"

text \<open>\<^verbatim>\<open>queue.Queue.full\<close>: a size of zero is no bound.\<close>

definition queue_full :: "server \<Rightarrow> bool" where
  "queue_full s \<longleftrightarrow> 0 < max_queue_size s \<and> max_queue_size s \<le> length (data_queue s)"

section \<open>The queue of frames\<close>

definition check_queue_size :: "server \<Rightarrow> server" where
  "check_queue_size s =
     (if warning_queue_size s < length (data_queue s)
      then case time_now s of (current_time, s') \<Rightarrow>
             if WARNING_INTERVAL \<le> current_time - last_stack_warning_time s'
             then s'\<lparr>last_stack_warning_time := current_time\<rparr> else s'
      else s)"

definition handle_queue_full :: "octets \<Rightarrow> server \<Rightarrow> server" where
  "handle_queue_full data s =
     (case time_now s of (current_time, s') \<Rightarrow>
        let s'' = (if WARNING_INTERVAL \<le> current_time - last_full_warning_time s'
                   then s'\<lparr>last_full_warning_time := current_time\<rparr> else s')
        in s''\<lparr>data_queue := tl (data_queue s'') @ [data]\<rparr>)"

definition handle_data :: "octets \<Rightarrow> server \<Rightarrow> server" where
  "handle_data data s =
     (let s' = check_queue_size s
      in if queue_full s' then handle_queue_full data s' else s'\<lparr>data_queue := data_queue s' @ [data]\<rparr>)"

definition get_data :: "server \<Rightarrow> octets option \<times> server" where
  "get_data s = (case data_queue s of [] \<Rightarrow> (None, s) | d # ds \<Rightarrow> (Some d, s\<lparr>data_queue := ds\<rparr>))"

definition clear_data :: "server \<Rightarrow> server" where
  "clear_data s = s\<lparr>data_queue := []\<rparr>"

section \<open>Frames\<close>

definition process_data_frame :: "octets \<Rightarrow> nat \<Rightarrow> octets option \<times> octets" where
  "process_data_frame buffer k =
     (let len = from_bytes_big (take k buffer)
      in if k + len \<le> length buffer then (Some (take len (drop k buffer)), drop (k + len) buffer) else (None, buffer))"

partial_function (option) frame_loop :: "nat \<Rightarrow> octets \<Rightarrow> server \<Rightarrow> (octets \<times> server) option" where
  "frame_loop k buffer s =
     (if k \<le> length buffer
      then (case process_data_frame buffer k of
              (Some data, buffer') \<Rightarrow> frame_loop k buffer' (handle_data data s)
            | (None, buffer') \<Rightarrow> Some (buffer', s))
      else Some (buffer, s))"

declare frame_loop.simps [code]

datatype recv = Chunk octets | RecvError

text \<open>How a connection ends: closed by the peer with bytes left over, by an exception, or not yet.\<close>

datatype recv_end = Closed octets | Broken | Waiting octets

fun handle_recv :: "nat \<Rightarrow> recv list \<Rightarrow> octets \<Rightarrow> server \<Rightarrow> (recv_end \<times> server) option" where
  "handle_recv k [] buffer s = Some (Waiting buffer, s)"
| "handle_recv k (RecvError # rs) buffer s = Some (Broken, s)"
| "handle_recv k (Chunk chunk # rs) buffer s =
     (if chunk = [] then Some (Closed buffer, s)
      else case frame_loop k (buffer @ chunk) s of
             None \<Rightarrow> None
           | Some (buffer', s') \<Rightarrow> handle_recv k rs buffer' s')"

section \<open>Who may connect\<close>

text \<open>
  The bytes of \<^verbatim>\<open>SO_PEERCRED\<close> (\<open>None\<close> when \<^verbatim>\<open>getsockopt\<close> raises), the own ids, and the inode of a namespace of a process
  (\<open>None\<close> when \<^verbatim>\<open>os.stat\<close> raises).
\<close>

record peer_env =
  peer_cred :: "octets option"
  self_uid :: nat
  self_gid :: nat
  self_pid :: nat
  namespace_inode :: "nat \<Rightarrow> string \<Rightarrow> nat option"

record ucred =
  cred_pid :: nat
  cred_uid :: nat
  cred_gid :: nat

text \<open>Three little-endian 32-bit fields.\<close>

definition ucred_of :: "octets \<Rightarrow> ucred" where
  "ucred_of bs = \<lparr>cred_pid = from_bytes_big (rev (take 4 bs)), cred_uid = from_bytes_big (rev (take 4 (drop 4 bs))),
                  cred_gid = from_bytes_big (rev (take 4 (drop 8 bs)))\<rparr>"

definition same_namespace :: "peer_env \<Rightarrow> nat \<Rightarrow> string \<Rightarrow> bool option" where
  "same_namespace p peer ns =
     (case (namespace_inode p (self_pid p) ns, namespace_inode p peer ns) of
        (Some i, Some j) \<Rightarrow> Some (i = j) | _ \<Rightarrow> None)"

definition validate_peer_cred :: "peer_env \<Rightarrow> bool" where
  "validate_peer_cred p =
     (case peer_cred p of
        None \<Rightarrow> False
      | Some bs \<Rightarrow>
          (let cred = ucred_of bs
           in if cred_uid cred \<noteq> self_uid p \<or> cred_gid cred \<noteq> self_gid p then False
              else case same_namespace p (cred_pid cred) ''pid'' of
                     None \<Rightarrow> False
                   | Some False \<Rightarrow> False
                   | Some True \<Rightarrow>
                       (case same_namespace p (cred_pid cred) ''user'' of None \<Rightarrow> False | Some b \<Rightarrow> b)))"

definition handle_client :: "peer_env \<Rightarrow> recv list \<Rightarrow> server \<Rightarrow> (recv_end \<times> server) option" where
  "handle_client p rs s =
     (if \<not> validate_peer_cred p then Some (Broken, s) else handle_recv OTEL_Length_Field rs [] s)"

section \<open>Start and stop\<close>

text \<open>\<open>created\<close> tells whether \<^verbatim>\<open>_create_socket\<close> returned; the result is whether \<^verbatim>\<open>start\<close> returned.\<close>

definition server_start :: "bool \<Rightarrow> server \<Rightarrow> bool \<times> server" where
  "server_start created s =
     (if running s then (True, s)
      else let s' = s\<lparr>running := True\<rparr>
           in if created then (True, s'\<lparr>server_socket := True, server_thread := True\<rparr>) else (False, s'))"

definition server_stop :: "server \<Rightarrow> server" where
  "server_stop s = (if \<not> running s then s else s\<lparr>running := False, server_socket := False, server_thread := False\<rparr>)"

section \<open>The sender\<close>

definition PERFETTO_MAX_QUEUE_SIZE :: nat where
  "PERFETTO_MAX_QUEUE_SIZE = 10000"

text \<open>\<^verbatim>\<open>PerfettoSocketSender.submit\<close>: a span that finds the queue full is dropped.\<close>

definition submit :: "octets \<Rightarrow> octets list \<Rightarrow> octets list" where
  "submit payload q = (if PERFETTO_MAX_QUEUE_SIZE \<le> length q then q else q @ [payload])"

text \<open>
  What \<^verbatim>\<open>_send\<close> writes to its connection: \<open>None\<close> when the length does not fit, an \<^verbatim>\<open>OverflowError\<close>, which \<^verbatim>\<open>_run\<close>
  does not catch.
\<close>

definition frame :: "octets \<Rightarrow> octets option" where
  "frame payload = map_option (\<lambda>h. h @ payload) (to_bytes_big 4 (length payload))"

end
