(* ===== verification/Trace_Span.thy ===== *)
theory Trace_Span
  imports Trace_Socket Yaml
begin

text \<open>
  What the profiler sends of a finished span: \<^verbatim>\<open>ms_service_profiler/tracer/perfetto_socket.py\<close>, with the JSON
  values as \<open>yaml\<close> values.

  \<^verbatim>\<open>json.dumps\<close>, \<^verbatim>\<open>json.loads\<close> and UTF-8 are the record \<open>codec\<close>. A character of the model stands for any
  character of the program; \<open>utf8\<close> gives its bytes, or \<open>None\<close> for a lone surrogate. The other fields are what
  Python's \<^verbatim>\<open>int\<close>, \<^verbatim>\<open>str\<close>, \<^verbatim>\<open>dict\<close> and the division of a time by 1000 give where their result
  depends on more than the model holds.
\<close>

section \<open>Services\<close>

record codec =
  dumps :: "yaml \<Rightarrow> string option"
  loads :: "string \<Rightarrow> yaml option"
  utf8 :: "char \<Rightarrow> octets option"
  decode :: "octets \<Rightarrow> string option"
  parse_int :: "yaml \<Rightarrow> int option"
  show_value :: "yaml \<Rightarrow> string"
  other_dict :: "yaml \<Rightarrow> ymap option"
  micros :: "int \<Rightarrow> yaml"
  own_pid :: int

definition encode :: "codec \<Rightarrow> string \<Rightarrow> octets option" where
  "encode c s = map_option concat (those (map (utf8 c) s))"

section \<open>Attribute values\<close>

definition PERFETTO_MAX_ATTRIBUTE_COUNT :: nat where
  "PERFETTO_MAX_ATTRIBUTE_COUNT = 64"

definition PERFETTO_MAX_ATTRIBUTE_LENGTH :: nat where
  "PERFETTO_MAX_ATTRIBUTE_LENGTH = 2048"

text \<open>A tuple is a \<open>PyList\<close>; \<open>PyOther\<close> is any other object, given by its \<^verbatim>\<open>str\<close>.\<close>

datatype pyvalue = PyNone | PyBool bool | PyInt int | PyFloat pyfloat | PyStr string | PyList "pyvalue list" | PyOther string

function safe_value :: "pyvalue \<Rightarrow> yaml" where
  "safe_value PyNone = YNull"
| "safe_value (PyBool b) = YBool b"
| "safe_value (PyInt n) = YInt n"
| "safe_value (PyFloat f) = YFloat f"
| "safe_value (PyStr s) = YStr (take PERFETTO_MAX_ATTRIBUTE_LENGTH s)"
| "safe_value (PyList xs) = YList (map safe_value (take PERFETTO_MAX_ATTRIBUTE_COUNT xs))"
| "safe_value (PyOther s) = YStr (take PERFETTO_MAX_ATTRIBUTE_LENGTH s)"
  by pat_completeness auto
termination
  by (relation "measure size") (auto dest!: in_set_takeD simp: less_Suc_eq_le intro: size_list_estimation')

definition safe_attributes :: "(string \<times> pyvalue) list \<Rightarrow> ymap" where
  "safe_attributes items =
     fold (\<lambda>(k, v). dict_set (take PERFETTO_MAX_ATTRIBUTE_LENGTH k) (safe_value v))
       (take PERFETTO_MAX_ATTRIBUTE_COUNT items) []"

section \<open>Identifiers\<close>

text \<open>\<^verbatim>\<open>format(n, "032x")\<close> and \<^verbatim>\<open>format(n, "016x")\<close>\<close>

definition hex_char :: "nat \<Rightarrow> char" where
  "hex_char d = ''0123456789abcdef'' ! d"

fun hex_digits :: "nat \<Rightarrow> string" where
  "hex_digits n = (if n < 16 then [hex_char n] else hex_digits (n div 16) @ [hex_char (n mod 16)])"

declare hex_digits.simps [simp del]

definition format_hex :: "nat \<Rightarrow> nat \<Rightarrow> string" where
  "format_hex width n = replicate (width - length (hex_digits n)) (CHR ''0'') @ hex_digits n"

record span_context =
  ctx_valid :: bool
  ctx_trace_id :: nat
  ctx_span_id :: nat

text \<open>The trace id and the span id.\<close>

definition span_context_ids :: "span_context option \<Rightarrow> string \<times> string" where
  "span_context_ids ctx =
     (case ctx of
        None \<Rightarrow> ([], [])
      | Some c \<Rightarrow> if \<not> ctx_valid c then ([], [])
                  else (format_hex 32 (ctx_trace_id c), format_hex 16 (ctx_span_id c)))"

section \<open>Serialization\<close>

record readable_span =
  span_name :: string
  span_ctx :: "span_context option"
  span_parent :: "span_context option"
  span_attributes :: "(string \<times> pyvalue) list option"
  span_resource :: "(string \<times> pyvalue) list option"
  span_links :: "span_context option list option"
  span_scope :: "string option"
  span_kind :: "int option"
  span_status :: "int option"
  start_time :: "int option"
  end_time :: "int option"

definition int_or_zero :: "int option \<Rightarrow> int" where
  "int_or_zero v = (case v of None \<Rightarrow> 0 | Some n \<Rightarrow> n)"

definition items_or_empty :: "'a list option \<Rightarrow> 'a list" where
  "items_or_empty v = (case v of None \<Rightarrow> [] | Some xs \<Rightarrow> xs)"

definition link_ids :: "span_context option list \<Rightarrow> yaml list" where
  "link_ids ls =
     map (\<lambda>(t, s). YMap [(''trace_id'', YStr t), (''span_id'', YStr s)])
       (filter (\<lambda>(t, s). t \<noteq> [] \<and> s \<noteq> []) (map span_context_ids (take PERFETTO_MAX_ATTRIBUTE_COUNT ls)))"

definition span_payload :: "readable_span \<Rightarrow> ymap" where
  "span_payload span =
     [(''name'', YStr (take PERFETTO_MAX_ATTRIBUTE_LENGTH (span_name span))),
      (''category'', YStr (take PERFETTO_MAX_ATTRIBUTE_LENGTH
                            (case span_scope span of None \<Rightarrow> ''Tracing'' | Some n \<Rightarrow> n))),
      (''trace_id'', YStr (fst (span_context_ids (span_ctx span)))),
      (''span_id'', YStr (snd (span_context_ids (span_ctx span)))),
      (''parent_span_id'', YStr (snd (span_context_ids (span_parent span)))),
      (''start_time_ns'', YInt (int_or_zero (start_time span))),
      (''end_time_ns'', YInt (int_or_zero (end_time span))),
      (''kind'', YInt (int_or_zero (span_kind span))),
      (''status'', YInt (int_or_zero (span_status span))),
      (''attributes'', YMap (safe_attributes (items_or_empty (span_attributes span)))),
      (''resource_attributes'', YMap (safe_attributes (items_or_empty (span_resource span)))),
      (''links'', YList (link_ids (items_or_empty (span_links span))))]"

text \<open>\<^verbatim>\<open>b"MSPF_PERFETTO_V1\n"\<close>\<close>

definition PERFETTO_EVENT_MAGIC :: octets where
  "PERFETTO_EVENT_MAGIC = map of_char ''MSPF_PERFETTO_V1'' @ [10]"

definition serialize_readable_span :: "codec \<Rightarrow> readable_span \<Rightarrow> octets option" where
  "serialize_readable_span c span =
     (case dumps c (YMap (span_payload span)) of
        None \<Rightarrow> None
      | Some text \<Rightarrow> map_option (\<lambda>bs. PERFETTO_EVENT_MAGIC @ bs) (encode c text))"

section \<open>The processor\<close>

definition HOOK_SCOPE_PREFIX :: string where
  "HOOK_SCOPE_PREFIX = ''ms_service_profiler.hook''"

text \<open>\<^verbatim>\<open>PerfettoSpanProcessor.on_end\<close>, on the queue of the sender; \<open>trace_enable\<close> is the environment variable.\<close>

definition on_end :: "codec \<Rightarrow> string option \<Rightarrow> readable_span \<Rightarrow> octets list \<Rightarrow> octets list" where
  "on_end c trace_enable span q =
     (if trace_enable \<noteq> Some ''1'' then q
      else if \<not> startswith (case span_scope span of None \<Rightarrow> [] | Some n \<Rightarrow> n) HOOK_SCOPE_PREFIX then q
      else case serialize_readable_span c span of None \<Rightarrow> q | Some payload \<Rightarrow> submit payload q)"

text \<open>
  \<^verbatim>\<open>PerfettoSocketSender._run\<close> until its queue is empty: each payload on a connection of its own. \<open>reach\<close> says for each
  payload whether connecting worked, and writing where it came to that; otherwise the payload is dropped. The result holds the
  frames that were written and whether the thread is still alive: the \<^verbatim>\<open>OverflowError\<close> of a payload whose length does
  not fit is not caught.
\<close>

fun run_sender :: "(octets \<Rightarrow> bool) \<Rightarrow> octets list \<Rightarrow> octets list \<times> bool" where
  "run_sender reach [] = ([], True)"
| "run_sender reach (p # q) =
     (if \<not> reach p then run_sender reach q
      else case frame p of
             None \<Rightarrow> ([], False)
           | Some f \<Rightarrow> (case run_sender reach q of (fs, alive) \<Rightarrow> (f # fs, alive)))"

end
