(* ===== verification/Trace_Perfetto.thy ===== *)
theory Trace_Perfetto
  imports Trace_Span
begin

text \<open>
  The Perfetto exporter, \<^verbatim>\<open>ms_service_profiler/tracer/perfetto_exporter.py\<close>: a packet becomes trace
  events, links between spans become pairs of flow events, and the events are appended to a JSON array in a file
  that is a complete array after every write.

  The file is its bytes and the position of the next write; buffering is not visible. A raise is an \<open>Inl\<close>. \<^verbatim>\<open>_lock\<close>
  orders concurrent calls and is not modelled, \<^verbatim>\<open>validate_perfetto_output_path\<close> only admits the path.
\<close>

section \<open>State\<close>

type_synonym span_key = "string \<times> string"
type_synonym span_position = "int \<times> int \<times> yaml"
type_synonym flow_end = "int \<times> int \<times> yaml \<times> string"

record exporter =
  content :: octets
  file_pos :: nat
  has_events :: bool
  closed :: bool
  span_positions :: "(span_key, span_position) dict"
  pending_links :: "(span_key, flow_end list) dict"

definition MAX_TRACKED_SPANS :: nat where
  "MAX_TRACKED_SPANS = 100000"

definition ascii :: "string \<Rightarrow> octets" where
  "ascii s = map of_char s"

definition new_exporter :: exporter where
  "new_exporter = \<lparr>content = ascii ''[]'', file_pos = 2, has_events = False, closed = False,
                   span_positions = [], pending_links = []\<rparr>"

section \<open>Reading a packet\<close>

text \<open>\<^verbatim>\<open>int(v)\<close>, \<^verbatim>\<open>str(v)\<close> and \<^verbatim>\<open>dict(v or {})\<close>\<close>

fun to_int :: "codec \<Rightarrow> yaml \<Rightarrow> int option" where
  "to_int c (YInt n) = Some n"
| "to_int c (YBool b) = Some (if b then 1 else 0)"
| "to_int c v = parse_int c v"

fun to_str :: "codec \<Rightarrow> yaml \<Rightarrow> string" where
  "to_str c (YStr s) = s"
| "to_str c v = show_value c v"

fun to_dict :: "codec \<Rightarrow> yaml \<Rightarrow> ymap option" where
  "to_dict c (YMap d) = Some d"
| "to_dict c v = (if truthy v then other_dict c v else Some [])"

text \<open>What the conversion reads of a span before it looks at links.\<close>

record span_fields =
  sf_pid :: int
  sf_tid :: int
  sf_start :: yaml
  sf_key :: span_key
  sf_event :: yaml

definition span_args :: "codec \<Rightarrow> ymap \<Rightarrow> ymap \<Rightarrow> ymap \<Rightarrow> span_key \<Rightarrow> int \<Rightarrow> int \<Rightarrow> ymap" where
  "span_args c span attributes resource key kind status =
     (let service = yget ''service_name'' span;
          service_name = (if truthy service then service
                          else yget_default ''service.name'' (YStr ''ms_service_profiler'') resource);
          args = fold (\<lambda>(k, v). dict_set k v)
                   [(''trace_id'', YStr (fst key)), (''span_id'', YStr (snd key)),
                    (''parent_span_id'', YStr (to_str c (yget_default ''parent_span_id'' (YStr []) span))),
                    (''span.kind'', YInt kind), (''span.status'', YInt status), (''service.name'', service_name)]
                   attributes
      in fold (\<lambda>(k, v) a. if dict_has (''resource.'' @ k) a then a else dict_set (''resource.'' @ k) v a) resource args)"

definition read_span :: "codec \<Rightarrow> ymap \<Rightarrow> span_fields option" where
  "read_span c span =
     (case to_dict c (yget ''attributes'' span) of None \<Rightarrow> None | Some attrs \<Rightarrow>
      case to_int c (yget_default ''process.pid'' (YInt (own_pid c)) attrs) of None \<Rightarrow> None | Some pid \<Rightarrow>
      case to_int c (yget_default ''thread.id'' (YInt 0) (dict_del ''process.pid'' attrs)) of None \<Rightarrow> None | Some tid \<Rightarrow>
      case to_int c (yget_default ''start_time_ns'' (YInt 0) span) of None \<Rightarrow> None | Some start_ns \<Rightarrow>
      case to_int c (yget_default ''end_time_ns'' (YInt 0) span) of None \<Rightarrow> None | Some end_ns \<Rightarrow>
      case to_dict c (yget ''resource_attributes'' span) of None \<Rightarrow> None | Some resource \<Rightarrow>
      case to_int c (yget_default ''kind'' (YInt 0) span) of None \<Rightarrow> None | Some kind \<Rightarrow>
      case to_int c (yget_default ''status'' (YInt 0) span) of None \<Rightarrow> None | Some status \<Rightarrow>
        (let attributes = dict_del ''thread.id'' (dict_del ''process.pid'' attrs);
             key = (to_str c (yget_default ''trace_id'' (YStr []) span), to_str c (yget_default ''span_id'' (YStr []) span));
             event = YMap [(''name'', yget_default ''name'' (YStr []) span),
                           (''cat'', yget_default ''category'' (YStr ''Tracing'') span), (''ph'', YStr ''X''),
                           (''ts'', micros c start_ns), (''dur'', micros c (max (end_ns - start_ns) 0)),
                           (''pid'', YInt pid), (''tid'', YInt tid),
                           (''args'', YMap (span_args c span attributes resource key kind status))]
         in Some \<lparr>sf_pid = pid, sf_tid = tid, sf_start = micros c start_ns, sf_key = key, sf_event = event\<rparr>))"

section \<open>Flow events\<close>

definition make_flow_events :: "span_key \<Rightarrow> span_position \<Rightarrow> flow_end \<Rightarrow> yaml list" where
  "make_flow_events source_key source dest =
     (case source of (source_pid, source_tid, source_ts) \<Rightarrow>
      case dest of (dest_pid, dest_tid, dest_ts, flow_id) \<Rightarrow>
        [YMap [(''name'', YStr ''request.link''), (''cat'', YStr ''Tracing.Flow''), (''ph'', YStr ''s''), (''ts'', source_ts),
               (''pid'', YInt source_pid), (''tid'', YInt source_tid), (''id'', YStr flow_id),
               (''args'', YMap [(''source.span_id'', YStr (snd source_key))])],
         YMap [(''name'', YStr ''request.link''), (''cat'', YStr ''Tracing.Flow''), (''ph'', YStr ''f''), (''ts'', dest_ts),
               (''pid'', YInt dest_pid), (''tid'', YInt dest_tid), (''id'', YStr flow_id), (''bp'', YStr ''e'')]])"

definition remember_position :: "span_key \<Rightarrow> span_position \<Rightarrow> exporter \<Rightarrow> exporter" where
  "remember_position key position x =
     (let ps = (if MAX_TRACKED_SPANS \<le> length (span_positions x) then tl (span_positions x) else span_positions x)
      in x\<lparr>span_positions := dict_set key position ps\<rparr>)"

text \<open>One link of a span: its flow events when the source is known, otherwise it waits for the source.\<close>

definition add_link :: "span_key \<Rightarrow> flow_end \<Rightarrow> exporter \<Rightarrow> yaml list \<times> exporter" where
  "add_link source_key dest x =
     (case dict_get (span_positions x) source_key of
        None \<Rightarrow>
          ([], if length (pending_links x) < MAX_TRACKED_SPANS
               then x\<lparr>pending_links := dict_set source_key
                        ((case dict_get (pending_links x) source_key of None \<Rightarrow> [] | Some ds \<Rightarrow> ds) @ [dest]) (pending_links x)\<rparr>
               else x)
      | Some source_position \<Rightarrow> (make_flow_events source_key source_position dest, x))"

definition flow_id_of :: "span_key \<Rightarrow> span_key \<Rightarrow> string" where
  "flow_id_of source key = fst source @ '':'' @ snd source @ '':'' @ snd key"

fun add_links :: "codec \<Rightarrow> span_fields \<Rightarrow> yaml list \<Rightarrow> (exporter, unit, yaml list) prog" where
  "add_links c f [] = ret []"
| "add_links c f (YMap link # ls) =
     (let source_key = (to_str c (yget_default ''trace_id'' (YStr []) link), to_str c (yget_default ''span_id'' (YStr []) link))
      in andthen (\<lambda>x. case add_link source_key (sf_pid f, sf_tid f, sf_start f, flow_id_of source_key (sf_key f)) x of
                         (es, x') \<Rightarrow> (Inr es, x'))
           (\<lambda>es. andthen (add_links c f ls) (\<lambda>rest. ret (es @ rest))))"
| "add_links c f (_ # ls) = raise ()"

definition position_of :: "span_fields \<Rightarrow> span_position" where
  "position_of f = (sf_pid f, sf_tid f, sf_start f)"

text \<open>The links that waited for this span.\<close>

definition pop_pending :: "span_fields \<Rightarrow> (exporter, unit, yaml list) prog" where
  "pop_pending f =
     (\<lambda>x. (Inr (concat (map (make_flow_events (sf_key f) (position_of f))
                  (case dict_get (pending_links x) (sf_key f) of None \<Rightarrow> [] | Some ds \<Rightarrow> ds))),
           x\<lparr>pending_links := dict_del (sf_key f) (pending_links x)\<rparr>))"

definition convert_normalized_span :: "codec \<Rightarrow> ymap \<Rightarrow> (exporter, unit, yaml list) prog" where
  "convert_normalized_span c span =
     (case read_span c span of
        None \<Rightarrow> raise ()
      | Some f \<Rightarrow>
          andthen (modify (remember_position (sf_key f) (position_of f))) (\<lambda>_.
          andthen (pop_pending f) (\<lambda>flows.
            (let links = yget ''links'' span
             in case (if truthy links then iterate links else Some []) of
                  None \<Rightarrow> raise ()
                | Some ls \<Rightarrow> andthen (add_links c f ls) (\<lambda>more. ret (sf_event f # flows @ more))))))"

section \<open>The file\<close>

definition write_bytes :: "octets \<Rightarrow> exporter \<Rightarrow> exporter" where
  "write_bytes bs x =
     x\<lparr>content := take (file_pos x) (content x) @ bs @ drop (file_pos x + length bs) (content x),
       file_pos := file_pos x + length bs\<rparr>"

definition seek_before_end :: "exporter \<Rightarrow> exporter" where
  "seek_before_end x = x\<lparr>file_pos := length (content x) - 1\<rparr>"

definition truncate_file :: "exporter \<Rightarrow> exporter" where
  "truncate_file x = x\<lparr>content := take (file_pos x) (content x)\<rparr>"

fun join_with :: "string \<Rightarrow> string list \<Rightarrow> string" where
  "join_with sep [] = []"
| "join_with sep [s] = s"
| "join_with sep (s # t # ss) = s @ sep @ join_with sep (t # ss)"

definition append_events :: "codec \<Rightarrow> yaml list \<Rightarrow> (exporter, unit, unit) prog" where
  "append_events c events =
     (case those (map (dumps c) events) of
        None \<Rightarrow> raise ()
      | Some [] \<Rightarrow> ret ()
      | Some encoded \<Rightarrow>
          (\<lambda>x. if closed x then (Inr (), x)
               else let x1 = seek_before_end x;
                        x2 = (if has_events x1 then write_bytes (ascii '','') x1 else x1)
                    in case encode c (join_with '','' encoded) of
                         None \<Rightarrow> (Inl (), x2)
                       | Some bs \<Rightarrow> (Inr (), (truncate_file (write_bytes (ascii '']'') (write_bytes bs x2)))\<lparr>has_events := True\<rparr>)))"

section \<open>Operations\<close>

definition packet_payload :: "codec \<Rightarrow> octets \<Rightarrow> yaml option" where
  "packet_payload c data =
     (let n = length PERFETTO_EVENT_MAGIC
      in if take n data \<noteq> PERFETTO_EVENT_MAGIC then None
         else case decode c (drop n data) of None \<Rightarrow> None | Some text \<Rightarrow> loads c text)"

text \<open>\<^verbatim>\<open>export\<close>: every exception is caught; what was done before it stays.\<close>

definition export :: "codec \<Rightarrow> octets \<Rightarrow> exporter \<Rightarrow> bool \<times> exporter" where
  "export c data x =
     (case packet_payload c data of
        Some (YMap span) \<Rightarrow>
          (case andthen (convert_normalized_span c span) (append_events c) x of (r, x') \<Rightarrow> (r = Inr (), x'))
      | _ \<Rightarrow> (False, x))"

definition close_file :: "exporter \<Rightarrow> exporter" where
  "close_file x = x\<lparr>closed := True\<rparr>"

end
