(* ===== verification/Trace_Links.thy ===== *)
theory Trace_Links
  imports Trace_Perfetto "HOL-Library.Multiset"
begin

text \<open>
  What the exporter leaves in its file, and the flow events it makes of links. The specification of the file is the
  list of texts of its events; the specification of the flow events is the multiset of the links both ends
  of which have arrived.
\<close>

section \<open>Encoding\<close>

lemma those_append:
  "those (xs @ ys) = (case (those xs, those ys) of (Some a, Some b) \<Rightarrow> Some (a @ b) | _ \<Rightarrow> None)"
  by (induction xs) (auto split: option.splits)

lemma encode_append:
  "encode c (s @ t) = (case (encode c s, encode c t) of (Some a, Some b) \<Rightarrow> Some (a @ b) | _ \<Rightarrow> None)"
  by (auto simp: encode_def those_append split: option.splits)

lemma encode_Nil [simp]: "encode c [] = Some []"
  by (simp add: encode_def)

text \<open>UTF-8 is ASCII on the three characters of an array.\<close>

definition ascii_ok :: "codec \<Rightarrow> bool" where
  "ascii_ok c \<longleftrightarrow> (\<forall>ch \<in> {CHR ''['', CHR '']'', CHR '',''}. utf8 c ch = Some [of_char ch])"

lemma encode_marks:
  assumes "ascii_ok c"
  shows "encode c ''['' = Some (ascii ''['')" "encode c '']'' = Some (ascii '']'')" "encode c '','' = Some (ascii '','')"
  using assms by (simp_all add: encode_def ascii_ok_def ascii_def)

lemma join_append:
  "join_with sep (xs @ ys) = (if xs = [] then join_with sep ys else if ys = [] then join_with sep xs
     else join_with sep xs @ sep @ join_with sep ys)"
proof (induction xs)
  case Nil
  then show ?case by simp
next
  case (Cons x xs)
  then show ?case by (cases xs; cases ys) auto
qed

section \<open>The file\<close>

text \<open>The file is the array of these texts.\<close>

definition file_ok :: "codec \<Rightarrow> string list \<Rightarrow> exporter \<Rightarrow> bool" where
  "file_ok c texts x \<longleftrightarrow>
     encode c (''['' @ join_with '','' texts @ '']'') = Some (content x) \<and> (has_events x \<longleftrightarrow> texts \<noteq> [])"

lemma file_ok_split:
  assumes "ascii_ok c" "file_ok c texts x"
  obtains bs where "encode c (join_with '','' texts) = Some bs" "content x = ascii ''['' @ bs @ ascii '']''"
  using assms encode_marks[OF assms(1)]
  by (auto simp: file_ok_def encode_append[of c "''[''" for c] encode_append[of c _ "'']''" for c]
      simp del: append_Cons split: option.splits)

lemma new_exporter_ok: "ascii_ok c \<Longrightarrow> file_ok c [] new_exporter"
  using encode_append[of c "''[''" "'']''"] by (simp add: file_ok_def new_exporter_def encode_marks) (simp add: ascii_def)

lemma append_events_ok:
  assumes a: "ascii_ok c" and x: "file_ok c texts x" "\<not> closed x"
    and enc: "those (map (dumps c) es) = Some new" "encode c (join_with '','' new) = Some bs"
  obtains x' where "append_events c es x = (Inr (), x')" "file_ok c (texts @ new) x'" "\<not> closed x'"
    "span_positions x' = span_positions x" "pending_links x' = pending_links x"
proof (cases new)
  case Nil
  then show ?thesis using enc x that[of x] by (simp add: append_events_def)
next
  case (Cons t ts)
  obtain old where old: "encode c (join_with '','' texts) = Some old" "content x = ascii ''['' @ old @ ascii '']''"
    using file_ok_split[OF a x(1)] .
  let ?sep = "if has_events x then ascii '','' else []"
  let ?x' = "x\<lparr>content := ascii ''['' @ old @ ?sep @ bs @ ascii '']'', has_events := True,
    file_pos := length (ascii ''['' @ old @ ?sep @ bs @ ascii '']'')\<rparr>"
  have run: "append_events c es x = (Inr (), ?x')"
    using enc Cons x(2) old
    by (simp add: append_events_def Let_def seek_before_end_def write_bytes_def truncate_file_def ascii_def)
  have "texts = [] \<Longrightarrow> old = []" using old by simp
  then have "encode c (''['' @ join_with '','' (texts @ new) @ '']'') = Some (content ?x')"
    using x(1) enc(2) old(1) Cons encode_marks[OF a]
    by (auto simp: file_ok_def join_append encode_append simp del: append_Cons split: option.splits)
  then show ?thesis using run x(2) Cons by (intro that[of ?x']) (simp_all add: file_ok_def)
qed

lemma append_events_error:
  assumes "\<forall>v t. dumps c v = Some t \<longrightarrow> encode c t \<noteq> None" "ascii_ok c" "append_events c es x = (Inl e, x')"
  shows "x' = x"
proof -
  have joined: "encode c (join_with '','' ts) \<noteq> None" if "\<forall>t \<in> set ts. encode c t \<noteq> None" for ts
    using that
  proof (induction ts)
    case (Cons t ts)
    then show ?case
      by (cases ts) (auto simp: encode_append encode_marks(3)[OF assms(2)] simp del: append_Cons split: option.splits)
  qed simp
  have "\<forall>t \<in> set ts. encode c t \<noteq> None" if "those (map (dumps c) es) = Some ts" for ts
    using that assms(1) by (induction es arbitrary: ts) (auto split: option.splits)
  then have "encode c (join_with '','' ts) \<noteq> None" if "those (map (dumps c) es) = Some ts" for ts
    using joined that by blast
  then show ?thesis using assms(3)
    by (fastforce simp: append_events_def Let_def split: option.splits list.splits if_splits)
qed


text \<open>
  Flow events: a link is drawn exactly once, when the second of its two spans arrives, in whatever order the
  spans come.
\<close>

section \<open>Arrivals\<close>

text \<open>A span as the exporter sees it: the fields read from it and the keys of the spans it links to.\<close>

type_synonym arrival = "span_fields \<times> span_key list"

fun link_key :: "codec \<Rightarrow> yaml \<Rightarrow> span_key option" where
  "link_key c (YMap link) =
     Some (to_str c (yget_default ''trace_id'' (YStr []) link), to_str c (yget_default ''span_id'' (YStr []) link))"
| "link_key c _ = None"

definition arrival :: "codec \<Rightarrow> ymap \<Rightarrow> arrival option" where
  "arrival c span =
     (let links = yget ''links'' span
      in case (read_span c span, if truthy links then iterate links else Some []) of
           (Some f, Some ls) \<Rightarrow> map_option (\<lambda>ks. (f, ks)) (those (map (link_key c) ls))
         | _ \<Rightarrow> None)"

definition dest_of :: "span_fields \<Rightarrow> span_key \<Rightarrow> flow_end" where
  "dest_of f k = (sf_pid f, sf_tid f, sf_start f, flow_id_of k (sf_key f))"

fun links_step :: "span_fields \<Rightarrow> span_key list \<Rightarrow> exporter \<Rightarrow> yaml list \<times> exporter" where
  "links_step f [] x = ([], x)"
| "links_step f (k # ks) x =
     (case add_link k (dest_of f k) x of (es, x1) \<Rightarrow> case links_step f ks x1 of (rest, x2) \<Rightarrow> (es @ rest, x2))"

definition arrive :: "arrival \<Rightarrow> exporter \<Rightarrow> yaml list \<times> exporter" where
  "arrive a x =
     (case pop_pending (fst a) (remember_position (sf_key (fst a)) (position_of (fst a)) x) of
        (r, x1) \<Rightarrow> case links_step (fst a) (snd a) x1 of
          (new, x2) \<Rightarrow> ((case r of Inr flows \<Rightarrow> flows | Inl _ \<Rightarrow> []) @ new, x2))"

lemma add_links_step:
  "those (map (link_key c) ls) = Some ks \<Longrightarrow>
   add_links c f ls x = (case links_step f ks x of (es, x') \<Rightarrow> (Inr es, x'))"
proof (induction c f ls arbitrary: ks x rule: add_links.induct)
  case (2 c f link ls)
  then show ?case by (auto simp: andthen_def dest_of_def Let_def split: prod.splits option.splits)
qed auto

lemma convert_arrives:
  assumes "arrival c span = Some a"
  shows "convert_normalized_span c span x = (case arrive a x of (es, x') \<Rightarrow> (Inr (sf_event (fst a) # es), x'))"
proof -
  obtain f ks where a: "a = (f, ks)" by fastforce
  obtain ls where f: "read_span c span = Some f" and ks: "those (map (link_key c) ls) = Some ks"
    and ls: "(if truthy (yget ''links'' span) then iterate (yget ''links'' span) else Some []) = Some ls"
    using assms by (auto simp: a arrival_def Let_def split: option.splits)
  show ?thesis
    using f ls by (simp add: a convert_normalized_span_def arrive_def Let_def andthen_def add_links_step[OF ks] pop_pending_def
        split: prod.splits)
qed

section \<open>The links that are complete\<close>

text \<open>The positions of the spans, and the flow events of every link whose source is among them.\<close>

definition known :: "arrival list \<Rightarrow> (span_key \<times> span_position) list" where
  "known as = map (\<lambda>(f, ks). (sf_key f, position_of f)) as"

definition link_events :: "(span_key \<times> span_position) list \<Rightarrow> span_fields \<Rightarrow> span_key \<Rightarrow> yaml list" where
  "link_events ps f k = (case map_of ps k of None \<Rightarrow> [] | Some p \<Rightarrow> make_flow_events k p (dest_of f k))"

definition drawn :: "(span_key \<times> span_position) list \<Rightarrow> arrival list \<Rightarrow> yaml list" where
  "drawn ps as = concat (map (\<lambda>(f, ks). concat (map (link_events ps f) ks)) as)"

text \<open>The ends that wait for a span.\<close>

definition waiting_for :: "arrival list \<Rightarrow> span_key \<Rightarrow> flow_end list" where
  "waiting_for as k = concat (map (\<lambda>(f, ks). map (dest_of f) (filter (\<lambda>k'. k' = k) ks)) as)"

definition all_links :: "arrival list \<Rightarrow> span_key list" where
  "all_links as = concat (map snd as)"

text \<open>The tables after the spans \<open>now\<close>, of the last of which some links may be still to come.\<close>

definition tables_ok :: "arrival list \<Rightarrow> exporter \<Rightarrow> bool" where
  "tables_ok now x \<longleftrightarrow>
     dict_ok (span_positions x) \<and> dict_ok (pending_links x) \<and> length (span_positions x) = length now \<and>
     (\<forall>k. dict_get (span_positions x) k = map_of (known now) k) \<and>
     (\<forall>k. dict_get (pending_links x) k =
        (if map_of (known now) k \<noteq> None \<or> waiting_for now k = [] then None else Some (waiting_for now k)))"

declare split_paired_All [simp del] split_paired_Ex [simp del] map_of_eq_Some_iff [simp del] Some_eq_map_of_iff [simp del]

lemma waiting_for_simps [simp]:
  "waiting_for [] k = []" "waiting_for (as @ bs) k = waiting_for as k @ waiting_for bs k"
  "waiting_for [(f, ks)] k = map (dest_of f) (filter (\<lambda>k'. k' = k) ks)"
  by (simp_all add: waiting_for_def)

lemma known_simps [simp]:
  "known [] = []" "known (as @ bs) = known as @ known bs" "known [(f, ks)] = [(sf_key f, position_of f)]"
  by (simp_all add: known_def)

lemma waiting_in_links: "waiting_for as k \<noteq> [] \<Longrightarrow> k \<in> set (all_links as)"
  by (force simp: waiting_for_def all_links_def filter_empty_conv split: prod.splits)

lemma pending_length:
  assumes "tables_ok now x"
  shows "length (pending_links x) \<le> length (all_links now)"
proof -
  have "set (dict_keys (pending_links x)) \<subseteq> set (all_links now)"
  proof
    fix k assume "k \<in> set (dict_keys (pending_links x))"
    then have "dict_get (pending_links x) k \<noteq> None" by (metis map_of_eq_None_iff list.set_map)
    moreover have "dict_get (pending_links x) k =
        (if map_of (known now) k \<noteq> None \<or> waiting_for now k = [] then None else Some (waiting_for now k))"
      using assms by (simp add: tables_ok_def)
    ultimately show "k \<in> set (all_links now)" using waiting_in_links[of now k] by (auto split: if_splits)
  qed
  moreover have "distinct (dict_keys (pending_links x))" using assms by (simp add: tables_ok_def)
  ultimately have "length (dict_keys (pending_links x)) \<le> card (set (all_links now))"
    by (metis List.finite_set card_mono distinct_card)
  also have "\<dots> \<le> length (all_links now)" by (rule card_length)
  finally show ?thesis by simp
qed

section \<open>One span\<close>

lemma all_links_simps [simp]: "all_links (as @ bs) = all_links as @ all_links bs" "all_links [(f, ks)] = ks" "all_links [] = []"
  by (simp_all add: all_links_def)

lemma link_step_ok:
  assumes ok: "tables_ok (as @ [(f, pre)]) x" and room: "length (all_links as) + length pre < MAX_TRACKED_SPANS"
  obtains x' where "add_link k (dest_of f k) x = (link_events (known (as @ [(f, [])])) f k, x')"
    "tables_ok (as @ [(f, pre @ [k])]) x'" "content x' = content x" "has_events x' = has_events x" "closed x' = closed x"
proof -
  define ps where "ps = known (as @ [(f, pre)])"
  have pos: "dict_get (span_positions x) k' = map_of ps k'" for k' using ok by (simp add: tables_ok_def ps_def)
  have known: "known (as @ [(f, ks)]) = ps" for ks by (simp add: ps_def)
  show ?thesis
  proof (cases "map_of ps k")
    case None
    have room': "length (pending_links x) < MAX_TRACKED_SPANS" using pending_length[OF ok] room by simp
    let ?old = "waiting_for (as @ [(f, pre)]) k"
    let ?x' = "x\<lparr>pending_links := dict_set k (?old @ [dest_of f k]) (pending_links x)\<rparr>"
    have "dict_get (pending_links x) k = (if ?old = [] then None else Some ?old)"
      using ok None by (simp add: tables_ok_def ps_def)
    then have "(case dict_get (pending_links x) k of None \<Rightarrow> [] | Some ds \<Rightarrow> ds) = ?old" by (simp split: if_splits)
    then have "add_link k (dest_of f k) x = ([], ?x')" using None room' pos by (simp add: add_link_def)
    moreover have "tables_ok (as @ [(f, pre @ [k])]) ?x'"
      using ok None unfolding tables_ok_def known by simp
    moreover have "link_events (known (as @ [(f, [])])) f k = []" using None known by (simp add: link_events_def)
    ultimately show ?thesis by (intro that[of ?x']) simp_all
  next
    case (Some p)
    have "add_link k (dest_of f k) x = (link_events (known (as @ [(f, [])])) f k, x)"
      using Some pos known by (simp add: add_link_def link_events_def)
    moreover have "tables_ok (as @ [(f, pre @ [k])]) x"
      using ok Some unfolding tables_ok_def known by simp
    ultimately show ?thesis by (intro that[of x]) simp_all
  qed
qed

lemma links_step_ok:
  assumes "tables_ok (as @ [(f, pre)]) x" "length (all_links as) + length pre + length ks \<le> MAX_TRACKED_SPANS"
  shows "\<exists>x'. links_step f ks x = (concat (map (link_events (known (as @ [(f, [])])) f) ks), x') \<and>
    tables_ok (as @ [(f, pre @ ks)]) x' \<and> content x' = content x \<and> has_events x' = has_events x \<and> closed x' = closed x"
  using assms
proof (induction ks arbitrary: pre x)
  case Nil
  then show ?case by simp
next
  case (Cons k ks)
  have room: "length (all_links as) + length pre < MAX_TRACKED_SPANS" using Cons.prems by simp
  obtain x1 where x1: "add_link k (dest_of f k) x = (link_events (known (as @ [(f, [])])) f k, x1)"
    "tables_ok (as @ [(f, pre @ [k])]) x1" "content x1 = content x" "has_events x1 = has_events x" "closed x1 = closed x"
    using link_step_ok[OF Cons.prems(1) room] by blast
  have "length (all_links as) + length (pre @ [k]) + length ks \<le> MAX_TRACKED_SPANS" using Cons.prems by simp
  from Cons.IH[OF x1(2) this] show ?case using x1 by auto
qed

lemma arrive_ok:
  assumes ok: "tables_ok as x" and fresh: "map_of (known as) (sf_key f) = None" and room: "length as < MAX_TRACKED_SPANS"
    "length (all_links (as @ [(f, ks)])) \<le> MAX_TRACKED_SPANS"
  obtains x' where "arrive (f, ks) x =
      (concat (map (make_flow_events (sf_key f) (position_of f)) (waiting_for as (sf_key f))) @
       concat (map (link_events (known (as @ [(f, ks)])) f) ks), x')" "tables_ok (as @ [(f, ks)]) x'"
    "content x' = content x" "has_events x' = has_events x" "closed x' = closed x"
proof -
  let ?k = "sf_key f"
  let ?x1 = "remember_position ?k (position_of f) x"
  let ?x2 = "?x1\<lparr>pending_links := dict_del ?k (pending_links x)\<rparr>"
  have new: "dict_get (span_positions x) ?k = None" and len: "length (span_positions x) < MAX_TRACKED_SPANS"
    using ok fresh room by (simp_all add: tables_ok_def)
  have x1: "?x1 = x\<lparr>span_positions := span_positions x @ [(?k, position_of f)]\<rparr>"
    using new len by (simp add: remember_position_def Let_def dict_set_new map_of_eq_None_iff)
  have pend: "dict_get (pending_links x) ?k = (if waiting_for as ?k = [] then None else Some (waiting_for as ?k))"
    using ok fresh by (simp add: tables_ok_def)
  then have pop: "pop_pending f ?x1 =
      (Inr (concat (map (make_flow_events ?k (position_of f)) (waiting_for as ?k))), ?x2)"
    by (simp add: pop_pending_def x1 split: if_splits)
  have "tables_ok (as @ [(f, [])]) ?x2"
  proof -
    have "?k \<notin> set (dict_keys (span_positions x))" using new by (metis map_of_eq_None_iff list.set_map)
    then have d: "dict_ok (span_positions x @ [(?k, position_of f)])" using ok by (simp add: tables_ok_def)
    have "map_of (span_positions x) = map_of (known as)" using ok by (auto simp: tables_ok_def)
    then show ?thesis using ok fresh d by (simp add: tables_ok_def x1)
  qed
  then obtain x' where x': "links_step f ks ?x2 = (concat (map (link_events (known (as @ [(f, [])])) f) ks), x')"
    "tables_ok (as @ [(f, ks)]) x'" "content x' = content ?x2" "has_events x' = has_events ?x2" "closed x' = closed ?x2"
    using links_step_ok[of as f "[]" ?x2 ks] room(2) by auto
  show ?thesis
    using x' pop by (intro that[of x']) (simp_all add: arrive_def x1)
qed

section \<open>All spans\<close>

lemma link_events_late:
  assumes "map_of ps kf = None"
  shows "mset (concat (map (link_events (ps @ [(kf, pf)]) g) ks)) =
    mset (concat (map (link_events ps g) ks)) +
    mset (concat (map (make_flow_events kf pf) (map (dest_of g) (filter (\<lambda>k. k = kf) ks))))"
  using assms by (induction ks) (auto simp: link_events_def map_add_def split: option.splits)

lemma drawn_late:
  assumes "map_of ps kf = None"
  shows "mset (drawn (ps @ [(kf, pf)]) as) =
    mset (drawn ps as) + mset (concat (map (make_flow_events kf pf) (waiting_for as kf)))"
proof (induction as)
  case Nil
  then show ?case by (simp add: drawn_def)
next
  case (Cons a as)
  obtain g ks where a: "a = (g, ks)" by fastforce
  have w: "waiting_for (a # as) kf = map (dest_of g) (filter (\<lambda>k. k = kf) ks) @ waiting_for as kf"
    by (simp add: a waiting_for_def)
  show ?case using Cons link_events_late[OF assms, of pf g ks] unfolding w by (simp add: a drawn_def)
qed

lemma known_fresh: "distinct (map (sf_key \<circ> fst) (as @ [(f, ks)])) \<Longrightarrow> map_of (known as) (sf_key f) = None"
  by (force simp: map_of_eq_None_iff known_def)

end
