(* ===== verification/Trace_Export.thy ===== *)
theory Trace_Export
  imports Trace_Links
begin

text \<open>
  A run of the exporter over packets: the file holds the events of the accepted packets at every moment, and every
  link between two exported spans is drawn once.
\<close>

section \<open>Runs\<close>

definition export_all :: "codec \<Rightarrow> octets list \<Rightarrow> exporter \<Rightarrow> exporter" where
  "export_all c ps x = fold (\<lambda>p x. snd (export c p x)) ps x"

text \<open>The events a packet is turned into.\<close>

definition packet_events :: "codec \<Rightarrow> octets \<Rightarrow> exporter \<Rightarrow> yaml list" where
  "packet_events c p x =
     (case packet_payload c p of
        Some (YMap span) \<Rightarrow> (case convert_normalized_span c span x of (Inr es, _) \<Rightarrow> es | _ \<Rightarrow> [])
      | _ \<Rightarrow> [])"

fun events_of :: "codec \<Rightarrow> octets list \<Rightarrow> exporter \<Rightarrow> yaml list" where
  "events_of c [] x = []"
| "events_of c (p # ps) x =
     (case export c p x of (ok, x') \<Rightarrow> (if ok then packet_events c p x else []) @ events_of c ps x')"

section \<open>The conversion leaves the file alone\<close>

definition same_file :: "exporter \<Rightarrow> exporter \<Rightarrow> bool" where
  "same_file x y \<longleftrightarrow> content y = content x \<and> has_events y = has_events x \<and> closed y = closed x"

lemma same_file_ok: "same_file x y \<Longrightarrow> file_ok c ts y = file_ok c ts x"
  by (simp add: same_file_def file_ok_def)

lemma add_link_same: "same_file x (snd (add_link k d x))"
  by (auto simp: add_link_def same_file_def split: option.splits)

lemma add_links_same: "same_file x (snd (add_links c f ls x))"
proof (induction c f ls arbitrary: x rule: add_links.induct)
  case (2 c f link ls)
  define k where "k = (to_str c (yget_default ''trace_id'' (YStr []) link), to_str c (yget_default ''span_id'' (YStr []) link))"
  obtain es x1 where x1: "add_link k (sf_pid f, sf_tid f, sf_start f, flow_id_of k (sf_key f)) x = (es, x1)" by fastforce
  obtain r x2 where x2: "add_links c f ls x1 = (r, x2)" by fastforce
  have "same_file x x1" using add_link_same[of x k] x1 by (metis snd_conv)
  moreover have "same_file x1 x2" using 2[of _ x1] x2 by (metis snd_conv)
  moreover have "snd (add_links c f (YMap link # ls) x) = x2"
    using x1 x2 by (cases r) (simp_all add: andthen_def Let_def flip: k_def)
  ultimately show ?case by (simp add: same_file_def)
qed (simp_all add: same_file_def)

lemma convert_same:
  assumes "convert_normalized_span c span x = (r, x')"
  shows "same_file x x'"
proof (cases "read_span c span")
  case None
  then show ?thesis using assms by (simp add: convert_normalized_span_def same_file_def)
next
  case (Some f)
  let ?links = "if truthy (yget ''links'' span) then iterate (yget ''links'' span) else Some []"
  let ?x1 = "snd (pop_pending f (remember_position (sf_key f) (position_of f) x))"
  have same: "same_file x ?x1" by (simp add: pop_pending_def remember_position_def same_file_def Let_def)
  show ?thesis
  proof (cases ?links)
    case None
    then show ?thesis using assms Some same
      by (auto simp: convert_normalized_span_def andthen_def pop_pending_def Let_def split: if_splits option.splits)
  next
    case ls: (Some ls)
    then have "x' = snd (add_links c f ls ?x1)" using assms Some
      by (auto simp: convert_normalized_span_def andthen_def pop_pending_def Let_def split: prod.splits sum.splits)
    then show ?thesis using same add_links_same[of ?x1 c f ls] by (simp add: same_file_def)
  qed
qed

section \<open>The file\<close>

text \<open>
  The texts of events that can be encoded, which excludes lone surrogates; and a run in which this holds for the
  events of every packet that is converted. \<open>encodable\<close>: no text has a lone surrogate at all.
\<close>

definition clean :: "codec \<Rightarrow> yaml list \<Rightarrow> bool" where
  "clean c es \<longleftrightarrow> (\<forall>e \<in> set es. \<forall>t. dumps c e = Some t \<longrightarrow> encode c t \<noteq> None)"

fun clean_run :: "codec \<Rightarrow> octets list \<Rightarrow> exporter \<Rightarrow> bool" where
  "clean_run c [] x = True"
| "clean_run c (p # ps) x \<longleftrightarrow> clean c (packet_events c p x) \<and> clean_run c ps (snd (export c p x))"

definition encodable :: "codec \<Rightarrow> bool" where
  "encodable c \<longleftrightarrow> ascii_ok c \<and> (\<forall>v t. dumps c v = Some t \<longrightarrow> encode c t \<noteq> None)"

lemma encodable_clean: "encodable c \<Longrightarrow> clean c es"
  by (simp add: encodable_def clean_def)

lemma encode_joined:
  assumes "ascii_ok c" "\<forall>t \<in> set ts. encode c t \<noteq> None"
  shows "encode c (join_with '','' ts) \<noteq> None"
  using assms(2)
proof (induction ts)
  case (Cons t ts)
  then show ?case
    by (cases ts) (auto simp: encode_append encode_marks(3)[OF assms(1)] simp del: append_Cons split: option.splits)
qed simp

lemma those_dumps: "those (map (dumps c) es) = Some ts \<Longrightarrow> clean c es \<Longrightarrow> t \<in> set ts \<Longrightarrow> encode c t \<noteq> None"
  by (induction es arbitrary: ts) (auto simp: clean_def split: option.splits)

lemma export_step:
  assumes a: "ascii_ok c" "clean c (packet_events c p x)" and "file_ok c texts x" "\<not> closed x"
  obtains new x' where "export c p x = (fst (export c p x), x')" "file_ok c (texts @ new) x'" "\<not> closed x'"
    "those (map (dumps c) (if fst (export c p x) then packet_events c p x else [])) = Some new"
proof (cases "\<exists>span es x1. packet_payload c p = Some (YMap span) \<and> convert_normalized_span c span x = (Inr es, x1)")
  case True
  then obtain span es x1 where p: "packet_payload c p = Some (YMap span)"
    and conv: "convert_normalized_span c span x = (Inr es, x1)" by blast
  have same: "file_ok c texts x1" "\<not> closed x1"
    using convert_same[OF conv] assms(3,4) by (simp_all add: same_file_ok) (simp add: same_file_def)
  have ev: "packet_events c p x = es" using p conv by (simp add: packet_events_def)
  show ?thesis
  proof (cases "those (map (dumps c) es)")
    case None
    then have "export c p x = (False, x1)" using p conv by (simp add: export_def andthen_def append_events_def)
    then show ?thesis using same by (intro that[of x1 "[]"]) simp_all
  next
    case (Some ts)
    then obtain bs where bs: "encode c (join_with '','' ts) = Some bs"
      using encode_joined[OF a(1), of ts] those_dumps[OF Some] a(2) ev by auto
    obtain x2 where "append_events c es x1 = (Inr (), x2)" "file_ok c (texts @ ts) x2" "\<not> closed x2"
      using append_events_ok[OF a(1) same Some bs] by metis
    then show ?thesis using p conv Some ev by (intro that[of x2 ts]) (simp_all add: export_def andthen_def)
  qed
next
  case False
  have "fst (export c p x) = False \<and> same_file x (snd (export c p x))"
  proof (cases "\<exists>span. packet_payload c p = Some (YMap span)")
    case True
    then obtain span where p: "packet_payload c p = Some (YMap span)" by blast
    then obtain e x1 where conv: "convert_normalized_span c span x = (Inl e, x1)"
      using False by (metis old.sum.exhaust surj_pair)
    then show ?thesis using p convert_same[OF conv] by (simp add: export_def andthen_def)
  next
    case False
    then show ?thesis by (auto simp: export_def same_file_def split: option.splits yaml.splits)
  qed
  then show ?thesis using assms(3,4)
    by (intro that[of "snd (export c p x)" "[]"]) (auto simp: same_file_ok prod_eq_iff, simp_all add: same_file_def)
qed

lemma export_all_Cons [simp]: "export_all c (p # ps) x = export_all c ps (snd (export c p x))"
  by (simp add: export_all_def)

lemma run_file_ok:
  assumes "ascii_ok c" "clean_run c ps x" "file_ok c texts x" "\<not> closed x"
  shows "\<exists>new. those (map (dumps c) (events_of c ps x)) = Some new \<and> file_ok c (texts @ new) (export_all c ps x) \<and>
    \<not> closed (export_all c ps x)"
  using assms(2-)
proof (induction ps arbitrary: texts x)
  case Nil
  then show ?case by (simp add: export_all_def)
next
  case (Cons p ps)
  have cl: "clean c (packet_events c p x)" using Cons.prems(1) by simp
  obtain new x' where step: "export c p x = (fst (export c p x), x')" "file_ok c (texts @ new) x'" "\<not> closed x'"
    "those (map (dumps c) (if fst (export c p x) then packet_events c p x else [])) = Some new"
    by (rule export_step[OF assms(1) cl Cons.prems(2,3)])
  obtain rest where rest: "those (map (dumps c) (events_of c ps x')) = Some rest"
    "file_ok c ((texts @ new) @ rest) (export_all c ps x')" "\<not> closed (export_all c ps x')"
    using Cons.IH[OF _ step(2,3)] Cons.prems(1) step(1) by (metis clean_run.simps(2) snd_conv)
  obtain b where b: "export c p x = (b, x')" using step(1) by metis
  then have "those (map (dumps c) (events_of c (p # ps) x)) = Some (new @ rest)"
    using step(4) rest(1) by (simp add: those_append)
  then show ?case using rest(2,3) b by simp
qed

section \<open>The links\<close>

lemma export_arrives:
  assumes c: "encodable c" "\<forall>v. dumps c v \<noteq> None" and x: "file_ok c texts x" "\<not> closed x" "tables_ok as x"
    and p: "packet_payload c p = Some (YMap span)" and a: "arrival c span = Some (f, ks)"
    and fresh: "map_of (known as) (sf_key f) = None"
    and room: "length as < MAX_TRACKED_SPANS" "length (all_links (as @ [(f, ks)])) \<le> MAX_TRACKED_SPANS"
  obtains x' where "export c p x = (True, x')" "tables_ok (as @ [(f, ks)]) x'"
    "packet_events c p x = sf_event f #
       concat (map (make_flow_events (sf_key f) (position_of f)) (waiting_for as (sf_key f))) @
       concat (map (link_events (known (as @ [(f, ks)])) f) ks)"
proof -
  obtain x1 where x1: "arrive (f, ks) x =
      (concat (map (make_flow_events (sf_key f) (position_of f)) (waiting_for as (sf_key f))) @
       concat (map (link_events (known (as @ [(f, ks)])) f) ks), x1)" "tables_ok (as @ [(f, ks)]) x1"
    "content x1 = content x" "has_events x1 = has_events x" "closed x1 = closed x"
    using arrive_ok[OF x(3) fresh room] by blast
  define es where "es = sf_event f # fst (arrive (f, ks) x)"
  have conv: "convert_normalized_span c span x = (Inr es, x1)"
    using convert_arrives[OF a, of x] x1(1) by (simp add: es_def)
  have "those (map (dumps c) es) \<noteq> None" using c(2) by (induction es) (auto split: option.splits)
  then obtain ts where ts: "those (map (dumps c) es) = Some ts" by blast
  obtain bs where bs: "encode c (join_with '','' ts) = Some bs"
    using encode_joined[of c ts] those_dumps[OF ts encodable_clean[OF c(1)]] c(1) by (auto simp: encodable_def)
  have same: "file_ok c texts x1" "\<not> closed x1" using x x1 by (simp_all add: file_ok_def)
  obtain x2 where x2: "append_events c es x1 = (Inr (), x2)" "span_positions x2 = span_positions x1"
    "pending_links x2 = pending_links x1"
    using append_events_ok[OF _ same ts bs] c(1) unfolding encodable_def by metis
  have "export c p x = (True, x2)" using p conv x2(1) by (simp add: export_def andthen_def)
  moreover have "tables_ok (as @ [(f, ks)]) x2" using x1(2) x2 by (simp add: tables_ok_def)
  moreover have "packet_events c p x = es" using p conv by (simp add: packet_events_def)
  ultimately show ?thesis using x1(1) by (intro that[of x2]) (simp_all add: es_def)
qed

lemma run_links:
  assumes c: "encodable c" "\<forall>v. dumps c v \<noteq> None" and x: "file_ok c texts x" "\<not> closed x" "tables_ok as x"
    and "map (packet_payload c) ps = map (Some \<circ> YMap) spans" "map (arrival c) spans = map Some bs"
    and "distinct (map (sf_key \<circ> fst) (as @ bs))" "length (as @ bs) \<le> MAX_TRACKED_SPANS"
      "length (all_links (as @ bs)) \<le> MAX_TRACKED_SPANS"
  shows "mset (drawn (known as) as) + mset (events_of c ps x) =
    mset (map (sf_event \<circ> fst) bs) + mset (drawn (known (as @ bs)) (as @ bs))"
  using x assms(6-)
proof (induction ps arbitrary: spans bs as texts x)
  case Nil
  then show ?case by simp
next
  case (Cons p ps)
  from Cons.prems obtain span spans' where spans: "spans = span # spans'" "packet_payload c p = Some (YMap span)"
    "map (packet_payload c) ps = map (Some \<circ> YMap) spans'" by (cases spans) auto
  with Cons.prems obtain f ks bs' where bs: "bs = (f, ks) # bs'" "arrival c span = Some (f, ks)"
    "map (arrival c) spans' = map Some bs'" by (cases bs) auto
  have fresh: "map_of (known as) (sf_key f) = None" using Cons.prems(6) bs(1) by (intro known_fresh[of as f ks]) (auto simp: comp_def)
  have room: "length as < MAX_TRACKED_SPANS" "length (all_links (as @ [(f, ks)])) \<le> MAX_TRACKED_SPANS"
    using Cons.prems(7,8) bs(1) by (simp_all add: all_links_def)
  obtain x' where x': "export c p x = (True, x')" "tables_ok (as @ [(f, ks)]) x'"
    "packet_events c p x = sf_event f #
       concat (map (make_flow_events (sf_key f) (position_of f)) (waiting_for as (sf_key f))) @
       concat (map (link_events (known (as @ [(f, ks)])) f) ks)"
    using export_arrives[OF c Cons.prems(1-3) spans(2) bs(2) fresh room] by blast
  obtain new where new: "file_ok c new x'" "\<not> closed x'"
    using export_step[OF _ encodable_clean[OF c(1)] Cons.prems(1,2), of p] x'(1) c(1) by (metis encodable_def snd_conv)
  have bounds: "map (sf_key \<circ> fst) ((as @ [(f, ks)]) @ bs') = map (sf_key \<circ> fst) (as @ bs)"
    "length ((as @ [(f, ks)]) @ bs') = length (as @ bs)" "all_links ((as @ [(f, ks)]) @ bs') = all_links (as @ bs)"
    using bs(1) by (simp_all add: all_links_def)
  have IH: "mset (drawn (known (as @ [(f, ks)])) (as @ [(f, ks)])) + mset (events_of c ps x') =
      mset (map (sf_event \<circ> fst) bs') + mset (drawn (known ((as @ [(f, ks)]) @ bs')) ((as @ [(f, ks)]) @ bs'))"
    by (rule Cons.IH[OF new x'(2) spans(3) bs(3)]) (simp_all only: bounds Cons.prems(6-8))
  have late: "mset (drawn (known as @ [(sf_key f, position_of f)]) as) = mset (drawn (known as) as) +
      mset (concat (map (make_flow_events (sf_key f) (position_of f)) (waiting_for as (sf_key f))))"
    by (rule drawn_late[OF fresh])
  have "drawn ps' (as @ [(f, ks)]) = drawn ps' as @ concat (map (link_events ps' f) ks)" for ps'
    by (simp add: drawn_def)
  then show ?case using IH late x' bs(1) by (simp add: comp_def ac_simps)
qed

lemma tables_new: "tables_ok [] new_exporter"
  by (simp add: tables_ok_def new_exporter_def)

section \<open>Packets of the sender\<close>

text \<open>
  The packet of a span is read back as the payload it was made from: what JSON and UTF-8 promise for this span. Every event has
  a text, and the attributes \<^verbatim>\<open>process.pid\<close> and \<^verbatim>\<open>thread.id\<close>, if the span has them, are integers.
\<close>

definition reads_back :: "codec \<Rightarrow> readable_span \<Rightarrow> bool" where
  "reads_back c span \<longleftrightarrow>
     (\<forall>t bs. dumps c (YMap (span_payload span)) = Some t \<longrightarrow> encode c t = Some bs \<longrightarrow>
        decode c bs = Some t \<and> loads c t = Some (YMap (span_payload span)))"

definition integral :: "yaml option \<Rightarrow> bool" where
  "integral v = (case v of None \<Rightarrow> True | Some (YInt n) \<Rightarrow> True | Some (YBool b) \<Rightarrow> True | _ \<Rightarrow> False)"

definition ids_integral :: "readable_span \<Rightarrow> bool" where
  "ids_integral span \<longleftrightarrow>
     (let d = safe_attributes (items_or_empty (span_attributes span))
      in integral (dict_get d ''process.pid'') \<and> integral (dict_get d ''thread.id''))"

lemma integral_read: "integral (dict_get d k) \<Longrightarrow> \<exists>n. to_int c (yget_default k (YInt m) d) = Some n"
  by (auto simp: integral_def yget_default_def split: option.splits yaml.splits)

lemma serialized_payload:
  assumes "serialize_readable_span c span = Some p" "reads_back c span"
  shows "packet_payload c p = Some (YMap (span_payload span))" "p \<noteq> []"
  using assms by (auto simp: serialize_readable_span_def packet_payload_def reads_back_def Let_def PERFETTO_EVENT_MAGIC_def
      split: option.splits)

lemma link_ids_keys: "those (map (link_key c) (link_ids ls)) \<noteq> None"
proof -
  have "those (map (link_key c) (map (\<lambda>(t, s). YMap [(''trace_id'', YStr t), (''span_id'', YStr s)]) ks)) \<noteq> None" for ks
    by (induction ks) (auto split: prod.split option.splits)
  then show ?thesis unfolding link_ids_def .
qed

lemma payload_fields:
  "yget ''attributes'' (span_payload s) = YMap (safe_attributes (items_or_empty (span_attributes s)))"
  "yget ''resource_attributes'' (span_payload s) = YMap (safe_attributes (items_or_empty (span_resource s)))"
  "yget ''links'' (span_payload s) = YList (link_ids (items_or_empty (span_links s)))"
  "yget_default ''start_time_ns'' d (span_payload s) = YInt (int_or_zero (start_time s))"
  "yget_default ''end_time_ns'' d (span_payload s) = YInt (int_or_zero (end_time s))"
  "yget_default ''kind'' d (span_payload s) = YInt (int_or_zero (span_kind s))"
  "yget_default ''status'' d (span_payload s) = YInt (int_or_zero (span_status s))"
  by (simp_all add: span_payload_def yget_def yget_default_def)

lemma integral_del: "k \<noteq> k' \<Longrightarrow> integral (dict_get (dict_del k' d) k) = integral (dict_get d k)"
  by simp

lemma span_arrives:
  assumes "ids_integral span"
  obtains a where "arrival c (span_payload span) = Some a"
proof -
  let ?d = "safe_attributes (items_or_empty (span_attributes span))"
  obtain pid where pid: "to_int c (yget_default ''process.pid'' (YInt (own_pid c)) ?d) = Some pid"
    using integral_read[of ?d "''process.pid''" c "own_pid c"] assms by (auto simp: ids_integral_def Let_def)
  obtain tid where tid: "to_int c (yget_default ''thread.id'' (YInt 0) (dict_del ''process.pid'' ?d)) = Some tid"
    using integral_read[of "dict_del ''process.pid'' ?d" "''thread.id''" c 0] assms by (auto simp: ids_integral_def Let_def)
  obtain f where f: "read_span c (span_payload span) = Some f"
    using pid tid by (simp add: read_span_def payload_fields Let_def)
  obtain ks where "those (map (link_key c) (link_ids (items_or_empty (span_links span)))) = Some ks"
    using link_ids_keys[of c] by blast
  then have "arrival c (span_payload span) = Some (f, ks)"
    using f by (auto simp: arrival_def payload_fields Let_def split: if_splits)
  then show ?thesis by (rule that)
qed

lemma export_accepts:
  assumes a: "ascii_ok c" "clean c (packet_events c p x)" and d: "\<forall>v. dumps c v \<noteq> None" and x: "file_ok c texts x" "\<not> closed x"
    and p: "packet_payload c p = Some (YMap span)" "arrival c span = Some (f, ks)"
  shows "fst (export c p x) \<and> sf_event f \<in> set (packet_events c p x)"
proof -
  obtain new x1 where arr: "arrive (f, ks) x = (new, x1)" by fastforce
  have conv: "convert_normalized_span c span x = (Inr (sf_event f # new), x1)"
    using convert_arrives[OF p(2), of x] arr by simp
  then have ev: "packet_events c p x = sf_event f # new" using p(1) by (simp add: packet_events_def)
  have "those (map (dumps c) es) \<noteq> None" for es using d by (induction es) (auto split: option.splits)
  then obtain ts where ts: "those (map (dumps c) (sf_event f # new)) = Some ts" by blast
  obtain bs where bs: "encode c (join_with '','' ts) = Some bs"
    using encode_joined[OF a(1), of ts] those_dumps[OF ts] a(2) ev by auto
  have same: "file_ok c texts x1" "\<not> closed x1"
    using convert_same[OF conv] x by (simp_all add: same_file_ok) (simp add: same_file_def)
  obtain x2 where "append_events c (sf_event f # new) x1 = (Inr (), x2)"
    using append_events_ok[OF a(1) same ts bs] by metis
  then show ?thesis using p(1) conv ev by (simp add: export_def andthen_def)
qed

text \<open>Every packet of a run of such packets is accepted.\<close>

lemma run_accepts:
  assumes "ascii_ok c" "clean_run c ps x" "\<forall>v. dumps c v \<noteq> None" "file_ok c texts x" "\<not> closed x"
    and "map (serialize_readable_span c) spans = map Some ps" "list_all (\<lambda>s. reads_back c s \<and> ids_integral s) spans"
  shows "list_all (\<lambda>s. \<exists>f ks. arrival c (span_payload s) = Some (f, ks) \<and> sf_event f \<in> set (events_of c ps x)) spans"
  using assms(2,4-)
proof (induction spans arbitrary: ps texts x)
  case Nil
  then show ?case by simp
next
  case (Cons s spans)
  then obtain p ps' where ps: "ps = p # ps'" "serialize_readable_span c s = Some p" "map (serialize_readable_span c) spans = map Some ps'"
    by (cases ps) auto
  have s: "reads_back c s" "ids_integral s" "list_all (\<lambda>s. reads_back c s \<and> ids_integral s) spans" using Cons.prems(5) by simp_all
  have cl: "clean c (packet_events c p x)" "clean_run c ps' (snd (export c p x))" using Cons.prems(1) ps(1) by simp_all
  obtain f ks where arr: "arrival c (span_payload s) = Some (f, ks)" using span_arrives[OF s(2), of c] by (metis surj_pair)
  note acc = export_accepts[OF assms(1) cl(1) assms(3) Cons.prems(2,3) serialized_payload(1)[OF ps(2) s(1)] arr]
  obtain new x' where step: "export c p x = (fst (export c p x), x')" "file_ok c (texts @ new) x'" "\<not> closed x'"
    using export_step[OF assms(1) cl(1) Cons.prems(2,3)] by metis
  have x': "export c p x = (True, x')" using step(1) acc by (metis fst_conv)
  have "clean_run c ps' x'" using cl(2) x' by simp
  from Cons.IH[OF this step(2,3) ps(3) s(3)]
  have "list_all (\<lambda>s. \<exists>f ks. arrival c (span_payload s) = Some (f, ks) \<and> sf_event f \<in> set (events_of c ps' x')) spans" .
  moreover have "events_of c ps x = packet_events c p x @ events_of c ps' x'" using x' ps(1) by simp
  ultimately show ?case using acc arr by (auto simp: list_all_iff)
qed

section \<open>An example\<close>

text \<open>A codec with a single text: the span of a fixed id, started at time 0, that links to itself and to another one.\<close>

definition example_span :: "string \<Rightarrow> string list \<Rightarrow> ymap" where
  "example_span i ls =
     [(''trace_id'', YStr ''t''), (''span_id'', YStr i),
      (''links'', YList (map (\<lambda>l. YMap [(''trace_id'', YStr ''t''), (''span_id'', YStr l)]) ls))]"

definition example_codec :: codec where
  "example_codec = \<lparr>dumps = (\<lambda>v. Some ''{}''),
     loads = (\<lambda>t. if t = ''b'' then Some (YMap (example_span ''b'' [''a''])) else if t = ''a'' then Some (YMap (example_span ''a'' [''a'']))
                  else None),
     utf8 = (\<lambda>ch. Some [of_char ch]), decode = (\<lambda>bs. Some (map (\<lambda>b. char_of (unat b)) bs)), parse_int = (\<lambda>v. None),
     show_value = (\<lambda>v. ''?''), other_dict = (\<lambda>v. None), micros = (\<lambda>n. YInt (n div 1000)), own_pid = 7\<rparr>"

definition example_packet :: "char \<Rightarrow> octets" where
  "example_packet ch = PERFETTO_EVENT_MAGIC @ [of_char ch]"

lemma example_encodable: "encodable example_codec"
  by (auto simp: encodable_def ascii_ok_def example_codec_def encode_def)

section \<open>The properties\<close>

text \<open>
  Property C22. After any packets, accepted or not, whose events have texts that UTF-8 can encode (no lone surrogate in what a packet is
  converted to), the file of the exporter is the bytes of a JSON array whose elements are the texts of the events of the
  accepted packets, in order: it is complete after every packet.
\<close>

theorem perfetto_file_complete:
  assumes "ascii_ok c" "clean_run c packets new_exporter"
  shows "\<exists>texts. those (map (dumps c) (events_of c packets new_exporter)) = Some texts \<and>
    encode c (''['' @ join_with '','' texts @ '']'') = Some (content (export_all c packets new_exporter))"
proof -
  have "file_ok c [] new_exporter" using assms(1) by (rule new_exporter_ok)
  from run_file_ok[OF assms this] show ?thesis
    by (auto simp: new_exporter_def file_ok_def)
qed

theorem perfetto_file_complete_witness:
  "\<exists>texts. those (map (dumps example_codec)
       (events_of example_codec [example_packet CHR ''b'', [0], example_packet CHR ''a''] new_exporter)) = Some texts \<and>
     encode example_codec (''['' @ join_with '','' texts @ '']'') =
       Some (content (export_all example_codec [example_packet CHR ''b'', [0], example_packet CHR ''a''] new_exporter))"
  by (rule perfetto_file_complete) (use example_encodable in \<open>simp_all add: encodable_clean, simp add: encodable_def\<close>)

text \<open>
  Spans with distinct keys, fewer than the tables hold and with fewer links, give one event each, and
  for every link whose source is among them exactly one pair of flow events, in whatever order the spans arrive.
\<close>

theorem links_drawn_once:
  assumes "encodable c" "\<forall>v. dumps c v \<noteq> None"
    and "map (packet_payload c) packets = map (Some \<circ> YMap) spans" "map (arrival c) spans = map Some arrivals"
    and "distinct (map (sf_key \<circ> fst) arrivals)" "length arrivals \<le> MAX_TRACKED_SPANS"
      "length (all_links arrivals) \<le> MAX_TRACKED_SPANS"
  shows "mset (events_of c packets new_exporter) =
    mset (map (sf_event \<circ> fst) arrivals) + mset (drawn (known arrivals) arrivals)"
proof -
  have "file_ok c [] new_exporter" using assms(1) by (simp add: new_exporter_ok encodable_def)
  moreover have "\<not> closed new_exporter" by (simp add: new_exporter_def)
  ultimately show ?thesis
    using run_links[OF assms(1,2) _ _ tables_new, of "[]" packets spans arrivals] assms(3-) by (simp add: drawn_def)
qed

definition example_arrivals :: "arrival list" where
  "example_arrivals = map (\<lambda>i. the (arrival example_codec (example_span i [''a'']))) [''b'', ''a'']"

theorem links_drawn_once_witness:
  "mset (events_of example_codec [example_packet CHR ''b'', example_packet CHR ''a''] new_exporter) =
     mset (map (sf_event \<circ> fst) example_arrivals) + mset (drawn (known example_arrivals) example_arrivals) \<and>
   length (drawn (known example_arrivals) example_arrivals) = 4"
proof
  have d: "\<forall>v. dumps example_codec v \<noteq> None" by (simp add: example_codec_def)
  have p: "map (packet_payload example_codec) [example_packet CHR ''b'', example_packet CHR ''a''] =
      map (Some \<circ> YMap) [example_span ''b'' [''a''], example_span ''a'' [''a'']]"
    by code_simp
  have a: "map (arrival example_codec) [example_span ''b'' [''a''], example_span ''a'' [''a'']] = map Some example_arrivals"
    by code_simp
  have u: "distinct (map (sf_key \<circ> fst) example_arrivals)" by code_simp
  have "length example_arrivals = 2" "length (all_links example_arrivals) = 2" by code_simp+
  then have l: "length example_arrivals \<le> MAX_TRACKED_SPANS" "length (all_links example_arrivals) \<le> MAX_TRACKED_SPANS"
    by (simp_all add: MAX_TRACKED_SPANS_def)
  show "mset (events_of example_codec [example_packet CHR ''b'', example_packet CHR ''a''] new_exporter) =
     mset (map (sf_event \<circ> fst) example_arrivals) + mset (drawn (known example_arrivals) example_arrivals)"
    by (rule links_drawn_once[OF example_encodable d p a u l])
  show "length (drawn (known example_arrivals) example_arrivals) = 4" by code_simp
qed

end
