(* ===== verification/Trace_Frames.thy ===== *)
theory Trace_Frames
  imports Trace_Socket
begin

text \<open>
  Framing over a byte stream: the frames that a receiver extracts depend on the bytes alone, not on the chunks
  they arrive in, and are the payloads that were sent. The queue of the server keeps the youngest of them.
\<close>

section \<open>Numbers\<close>

lemma length_low_bytes [simp]: "length (low_bytes_big k n) = k"
  by (induction k arbitrary: n) simp_all

lemma from_low_bytes: "from_bytes_big (low_bytes_big k n) = n mod 256 ^ k"
proof (induction k arbitrary: n)
  case 0
  then show ?case by (simp add: from_bytes_big_def)
next
  case (Suc k)
  have "from_bytes_big (low_bytes_big (Suc k) n) = 256 * (n div 256 mod 256 ^ k) + n mod 256"
    using Suc.IH[of "n div 256"] by (simp add: from_bytes_big_def unat_of_nat)
  also have "\<dots> = n mod (256 * 256 ^ k)" by (simp add: mod_mult2_eq)
  finally show ?case by simp
qed

lemma frame_Some: "frame p = Some f \<longleftrightarrow> length p < 256 ^ 4 \<and> f = low_bytes_big 4 (length p) @ p"
  by (auto simp: frame_def to_bytes_big_def split: if_splits)

section \<open>The frames of a byte sequence\<close>

text \<open>The complete frames at the front, and the bytes behind them.\<close>

function split_frames :: "nat \<Rightarrow> octets \<Rightarrow> octets list \<times> octets" where
  "split_frames k bs =
     (if k = 0 \<or> length bs < k then ([], bs)
      else case process_data_frame bs k of
             (None, bs') \<Rightarrow> ([], bs)
           | (Some d, bs') \<Rightarrow> (case split_frames k bs' of (ds, r) \<Rightarrow> (d # ds, r)))"
  by auto
termination
  by (relation "measure (length \<circ> snd)") (auto simp: process_data_frame_def Let_def split: if_splits)

declare split_frames.simps [simp del]

lemma frame_loop_run:
  "0 < k \<Longrightarrow> frame_loop k bs s = Some (snd (split_frames k bs), fold handle_data (fst (split_frames k bs)) s)"
proof (induction k bs arbitrary: s rule: split_frames.induct)
  case (1 k bs)
  show ?case
  proof (cases "length bs < k")
    case True
    then show ?thesis by (simp add: frame_loop.simps[of k bs] split_frames.simps[of k bs])
  next
    case long: False
    obtain d bs' where step: "process_data_frame bs k = (d, bs')" by fastforce
    show ?thesis
    proof (cases d)
      case None
      then have "bs' = bs" using step by (auto simp: process_data_frame_def Let_def split: if_splits)
      then show ?thesis using long step None by (simp add: frame_loop.simps[of k bs] split_frames.simps[of k bs])
    next
      case (Some x)
      have "frame_loop k bs' (handle_data x s) =
          Some (snd (split_frames k bs'), fold handle_data (fst (split_frames k bs')) (handle_data x s))"
        using 1 long step Some by simp
      then show ?thesis using long step Some \<open>0 < k\<close>
        by (simp add: frame_loop.simps[of k bs] split_frames.simps[of k bs] split: prod.splits)
    qed
  qed
qed

lemma split_step:
  assumes "0 < k" "length h = k" "from_bytes_big h = length p"
  shows "split_frames k (h @ p @ bs) = (p # fst (split_frames k bs), snd (split_frames k bs))"
  using assms by (simp add: split_frames.simps[of k "h @ p @ bs"] process_data_frame_def split: prod.splits)

text \<open>More bytes behind complete frames leave these as they are.\<close>

lemma split_append:
  "split_frames k (a @ b) =
     (fst (split_frames k a) @ fst (split_frames k (snd (split_frames k a) @ b)),
      snd (split_frames k (snd (split_frames k a) @ b)))"
proof (induction k a rule: split_frames.induct)
  case (1 k a)
  show ?case
  proof (cases "k = 0 \<or> length a < k \<or> fst (process_data_frame a k) = None")
    case True
    then have "split_frames k a = ([], a)" by (auto simp: split_frames.simps[of k a] split: prod.splits option.splits)
    then show ?thesis by simp
  next
    case False
    then obtain d a' where step: "process_data_frame a k = (Some d, a')" by (metis fst_eqD not_None_eq surj_pair)
    then have fits: "k + from_bytes_big (take k a) \<le> length a" and d: "d = take (from_bytes_big (take k a)) (drop k a)"
      and a': "a' = drop (k + from_bytes_big (take k a)) a"
      by (auto simp: process_data_frame_def Let_def split: if_splits)
    have "process_data_frame (a @ b) k = (Some d, a' @ b)"
      using False fits by (simp add: process_data_frame_def d a' Let_def)
    then show ?thesis using 1 False step
      by (simp add: split_frames.simps[of k a] split_frames.simps[of k "a @ b"] split: prod.splits)
  qed
qed

lemma split_rest: "split_frames k (snd (split_frames k a)) = ([], snd (split_frames k a))"
proof (induction k a rule: split_frames.induct)
  case (1 k a)
  show ?case
  proof (cases "k = 0 \<or> length a < k \<or> fst (process_data_frame a k) = None")
    case True
    then have "split_frames k a = ([], a)" by (auto simp: split_frames.simps[of k a] split: prod.splits option.splits)
    then show ?thesis by simp
  next
    case False
    then obtain d a' where step: "process_data_frame a k = (Some d, a')" by (metis fst_eqD not_None_eq surj_pair)
    then have "snd (split_frames k a) = snd (split_frames k a')"
      using False by (simp add: split_frames.simps[of k a] split: prod.splits)
    then show ?thesis using 1 False step by simp
  qed
qed

section \<open>A whole connection\<close>

lemma handle_recv_run:
  assumes "0 < k" "[] \<notin> set chunks" "split_frames k buffer = ([], buffer)"
  shows "handle_recv k (map Chunk chunks @ [Chunk []]) buffer s =
    (let r = split_frames k (buffer @ concat chunks) in Some (Closed (snd r), fold handle_data (fst r) s))"
  using assms(2,3)
proof (induction chunks arbitrary: buffer s)
  case Nil
  then show ?case by simp
next
  case (Cons c cs)
  let ?r = "split_frames k (buffer @ c)"
  have "handle_recv k (map Chunk (c # cs) @ [Chunk []]) buffer s =
      handle_recv k (map Chunk cs @ [Chunk []]) (snd ?r) (fold handle_data (fst ?r) s)"
    using Cons.prems \<open>0 < k\<close> by (auto simp: frame_loop_run)
  also have "\<dots> = (let r = split_frames k (snd ?r @ concat cs)
      in Some (Closed (snd r), fold handle_data (fst r) (fold handle_data (fst ?r) s)))"
    using Cons.IH[of "snd ?r"] Cons.prems split_rest by simp
  finally show ?case using split_append[of k "buffer @ c" "concat cs"] by (simp add: Let_def)
qed

lemma split_sent:
  assumes "map frame payloads = map Some frames"
  shows "split_frames OTEL_Length_Field (concat frames @ bs) =
    (payloads @ fst (split_frames OTEL_Length_Field bs), snd (split_frames OTEL_Length_Field bs))"
  using assms
proof (induction payloads arbitrary: frames)
  case Nil
  then show ?case by simp
next
  case (Cons p ps)
  then obtain f fs where fs: "frames = f # fs" and f: "frame p = Some f" and rest: "map frame ps = map Some fs" by auto
  have len: "length p < 256 ^ 4" and f': "f = low_bytes_big 4 (length p) @ p" using f by (auto simp: frame_Some)
  have "from_bytes_big (low_bytes_big 4 (length p)) = length p" using len by (simp add: from_low_bytes)
  then have "split_frames OTEL_Length_Field (low_bytes_big 4 (length p) @ p @ (concat fs @ bs)) =
      (p # fst (split_frames OTEL_Length_Field (concat fs @ bs)), snd (split_frames OTEL_Length_Field (concat fs @ bs)))"
    by (intro split_step) (simp_all add: OTEL_Length_Field_def)
  then show ?case using Cons.IH[OF rest] by (simp add: fs f')
qed

text \<open>A frame that is cut off is no frame.\<close>

lemma split_cut:
  assumes "frame p = Some f" "i < length f"
  shows "split_frames OTEL_Length_Field (take i f) = ([], take i f)"
proof (cases "i < 4")
  case True
  then show ?thesis using assms by (simp add: split_frames.simps[of _ "take i f"] OTEL_Length_Field_def)
next
  case False
  then have "take 4 (take i f) = low_bytes_big 4 (length p)" using assms by (auto simp: frame_Some min_def)
  moreover have "length p < 256 ^ 4" "length f = 4 + length p" using assms by (auto simp: frame_Some)
  ultimately have "fst (process_data_frame (take i f) 4) = None"
    using assms(2) by (simp add: process_data_frame_def Let_def from_low_bytes)
  then show ?thesis by (auto simp: split_frames.simps[of _ "take i f"] OTEL_Length_Field_def split: prod.splits option.splits)
qed

section \<open>The queue\<close>

definition last_n :: "nat \<Rightarrow> 'a list \<Rightarrow> 'a list" where
  "last_n n xs = drop (length xs - n) xs"

text \<open>What the operations of the server leave as it was configured.\<close>

lemma check_queue_size_fields [simp]:
  "data_queue (check_queue_size s) = data_queue s" "max_queue_size (check_queue_size s) = max_queue_size s"
  by (simp_all add: check_queue_size_def time_now_def)

lemma handle_data_fields [simp]: "max_queue_size (handle_data d s) = max_queue_size s"
  by (simp add: handle_data_def handle_queue_full_def time_now_def Let_def)

lemma handle_data_queue:
  assumes "0 < max_queue_size s" "length (data_queue s) \<le> max_queue_size s"
  shows "data_queue (handle_data d s) = last_n (max_queue_size s) (data_queue s @ [d])"
proof (cases "queue_full s")
  case True
  then have "length (data_queue s) = max_queue_size s" "data_queue s \<noteq> []" using assms by (auto simp: queue_full_def)
  then show ?thesis using assms
    by (cases "data_queue s") (auto simp: handle_data_def handle_queue_full_def time_now_def queue_full_def last_n_def Let_def)
next
  case False
  then show ?thesis using assms by (auto simp: handle_data_def queue_full_def last_n_def Let_def)
qed

lemma length_last_n [simp]: "length (last_n n xs) = min (length xs) n"
  by (simp add: last_n_def min_def)

lemma last_n_append: "last_n n (last_n n xs @ ys) = last_n n (xs @ ys)"
proof (cases "length xs \<le> n")
  case True
  then show ?thesis by (simp add: last_n_def)
next
  case False
  then show ?thesis by (cases "length ys \<le> n") (simp_all add: last_n_def add.commute)
qed

lemma handle_all_queue:
  assumes "0 < max_queue_size s" "length (data_queue s) \<le> max_queue_size s"
  shows "data_queue (fold handle_data ds s) = last_n (max_queue_size s) (data_queue s @ ds)"
  using assms
proof (induction ds arbitrary: s)
  case Nil
  then show ?case by (simp add: last_n_def)
next
  case (Cons d ds)
  then have "data_queue (fold handle_data ds (handle_data d s)) =
      last_n (max_queue_size s) (last_n (max_queue_size s) (data_queue s @ [d]) @ ds)"
    using Cons.IH[of "handle_data d s"] by (simp add: handle_data_queue)
  then show ?case by (simp add: last_n_append)
qed

end
