(* ===== verification/Trace_Service.thy ===== *)
theory Trace_Service
  imports Trace_Export Trace_Frames
begin

text \<open>
  The two forwarders: \<^verbatim>\<open>ms_service_profiler/tracer/perfetto_forward_service.py\<close> writes what arrives into the
  Perfetto file; \<^verbatim>\<open>tracer/otlp_forward_service.py\<close> passes it to an OTLP receiver, with \<^verbatim>\<open>tracer/scheduler.py\<close> and
  \<^verbatim>\<open>tracer/binary_otlp_exporter.py\<close>.

  Time passes in the sleeps of the scheduler: in a sleep that begins after \<open>n\<close> seconds of sleeping the server receives
  the frames \<open>arrives n\<close>. The receiver's answer to the \<open>n\<close>-th export is \<open>answer n\<close>.
\<close>

section \<open>The Perfetto forwarder\<close>

record perfetto_service =
  ps_stopped :: bool
  ps_stop_event :: bool
  ps_exporter :: exporter
  ps_server :: server

text \<open>\<^verbatim>\<open>_drain\<close>: until \<^verbatim>\<open>get_data\<close> gives nothing, or an empty frame.\<close>

fun drain_list :: "codec \<Rightarrow> octets list \<Rightarrow> exporter \<Rightarrow> octets list \<times> exporter" where
  "drain_list c [] x = ([], x)"
| "drain_list c (d # ds) x = (if d = [] then (ds, x) else drain_list c ds (snd (export c d x)))"

definition drain :: "codec \<Rightarrow> perfetto_service \<Rightarrow> perfetto_service" where
  "drain c p =
     (case drain_list c (data_queue (ps_server p)) (ps_exporter p) of
        (q, x) \<Rightarrow> p\<lparr>ps_exporter := x, ps_server := (ps_server p)\<lparr>data_queue := q\<rparr>\<rparr>)"

text \<open>One round of the loop of \<^verbatim>\<open>start\<close>; \<^verbatim>\<open>wait\<close> lets time pass and changes nothing here.\<close>

definition poll :: "codec \<Rightarrow> perfetto_service \<Rightarrow> perfetto_service" where
  "poll c p =
     (if ps_stop_event p then p
      else case get_data (ps_server p) of
             (None, s) \<Rightarrow> p\<lparr>ps_server := s\<rparr>
           | (Some d, s) \<Rightarrow> if d = [] then p\<lparr>ps_server := s\<rparr>
                           else p\<lparr>ps_server := s, ps_exporter := snd (export c d (ps_exporter p))\<rparr>)"

definition handle_signal :: "perfetto_service \<Rightarrow> perfetto_service" where
  "handle_signal p = p\<lparr>ps_stop_event := True\<rparr>"

definition perfetto_stop :: "codec \<Rightarrow> perfetto_service \<Rightarrow> perfetto_service" where
  "perfetto_stop c p =
     (if ps_stopped p then p
      else let p1 = p\<lparr>ps_stopped := True, ps_stop_event := True, ps_server := server_stop (ps_server p)\<rparr>;
               p2 = drain c p1
           in p2\<lparr>ps_exporter := close_file (ps_exporter p2)\<rparr>)"

section \<open>The OTLP exporter\<close>

definition PROTOCOLS :: "string list" where
  "PROTOCOLS = [''http/protobuf'', ''grpc'']"

definition SCHEME :: "string list" where
  "SCHEME = [''http'', ''https'']"

text \<open>
  The environment: variables, \<^verbatim>\<open>urlparse\<close> as scheme and port (\<open>None\<close> when it or \<^verbatim>\<open>port\<close> raises), files with their
  mode and owner, and whether the constructor of the exporter returns.
\<close>

record otlp_env =
  getenv :: "string \<Rightarrow> string option"
  parse_url :: "string \<Rightarrow> (string \<times> nat option) option"
  is_file :: "string \<Rightarrow> bool"
  dirname :: "string \<Rightarrow> string"
  cwd :: string
  file_mode :: "string \<Rightarrow> (nat \<times> nat) option"
  user_id :: nat
  exporter_starts :: "string \<Rightarrow> string \<Rightarrow> bool"

text \<open>\<^verbatim>\<open>os.environ.get(v)\<close> as a truth value\<close>

definition env_set :: "otlp_env \<Rightarrow> string \<Rightarrow> bool" where
  "env_set e v \<longleftrightarrow> (case getenv e v of None \<Rightarrow> False | Some s \<Rightarrow> s \<noteq> [])"

definition validation_endpoint :: "otlp_env \<Rightarrow> string \<Rightarrow> bool" where
  "validation_endpoint e url =
     (case parse_url e url of
        None \<Rightarrow> False
      | Some (scheme, port) \<Rightarrow>
          if scheme \<notin> set SCHEME then False else (case port of None \<Rightarrow> False | Some p \<Rightarrow> p \<noteq> 0))"

definition endpoint_and_protocol :: "otlp_env \<Rightarrow> (string \<times> string) option" where
  "endpoint_and_protocol e =
     (case getenv e ''OTEL_EXPORTER_OTLP_PROTOCOL'' of
        None \<Rightarrow> None
      | Some protocol \<Rightarrow>
          if protocol \<notin> set PROTOCOLS then None
          else case getenv e ''OTEL_EXPORTER_OTLP_ENDPOINT'' of
                 None \<Rightarrow> None
               | Some endpoint \<Rightarrow>
                   if endpoint = [] \<or> \<not> validation_endpoint e endpoint then None else Some (endpoint, protocol))"

text \<open>0o700 and 0o600\<close>

definition check_tls_config :: "otlp_env \<Rightarrow> bool" where
  "check_tls_config e =
     (if env_set e ''OTEL_EXPORTER_OTLP_TRACES_CLIENT_KEY'' \<or> env_set e ''OTEL_EXPORTER_OTLP_CLIENT_KEY'' \<or>
         env_set e ''OTEL_EXPORTER_OTLP_TRACES_CLIENT_CERTIFICATE'' \<or> env_set e ''OTEL_EXPORTER_OTLP_CLIENT_CERTIFICATE''
      then False
      else case getenv e ''OTEL_EXPORTER_OTLP_CERTIFICATE'' of
             None \<Rightarrow> True
           | Some cert \<Rightarrow>
               if cert = [] then True
               else if \<not> is_file e cert then False
               else (let dir = (if dirname e cert = [] then cwd e else dirname e cert)
                     in case (file_mode e dir, file_mode e cert) of
                          (Some (dmode, duid), Some (fmode, fuid)) \<Rightarrow>
                            dmode = 448 \<and> duid = user_id e \<and> fmode = 384 \<and> fuid = user_id e
                        | _ \<Rightarrow> False))"

text \<open>The global exporter: whether there is one, and whether it is initialised.\<close>

type_synonym otlp = "bool option"

definition create_exporter_from_env :: "otlp_env \<Rightarrow> otlp \<Rightarrow> otlp" where
  "create_exporter_from_env e g =
     (case g of
        Some i \<Rightarrow> g
      | None \<Rightarrow> if \<not> check_tls_config e then None
                else map_option (\<lambda>(endpoint, protocol). exporter_starts e protocol endpoint) (endpoint_and_protocol e))"

definition check_export_initialization :: "otlp_env \<Rightarrow> otlp \<Rightarrow> bool \<times> otlp" where
  "check_export_initialization e g =
     (let g' = create_exporter_from_env e g in ((case g' of None \<Rightarrow> False | Some i \<Rightarrow> i), g'))"

text \<open>What the receiver does with a request; a request that cannot be parsed raises before it is sent.\<close>

datatype answer = Success | Failure | ExportRaised

definition exporter_export :: "bool \<Rightarrow> answer \<Rightarrow> octets \<Rightarrow> bool" where
  "exporter_export initialized a data = (if \<not> initialized then False else if data = [] then False else a = Success)"

definition export_binary_data :: "otlp_env \<Rightarrow> answer \<Rightarrow> octets \<Rightarrow> otlp \<Rightarrow> bool \<times> otlp" where
  "export_binary_data e a data g =
     (let g' = create_exporter_from_env e g
      in ((case g' of None \<Rightarrow> False | Some i \<Rightarrow> exporter_export i a data), g'))"

section \<open>The scheduler\<close>

record outside =
  outside_env :: otlp_env
  answer :: "nat \<Rightarrow> octets \<Rightarrow> answer"
  arrives :: "nat \<Rightarrow> octets list"

record scheduler =
  sched_running :: bool
  sched_server :: server
  waiting_queue :: "string list"
  current_retry_index :: nat
  timer_set :: bool
  global_exporter :: otlp
  exports_made :: nat
  slept :: nat

definition retry_intervals :: "nat list" where
  "retry_intervals = [30, 60, 120, 240, 480, 960, 1800]"

definition try_export :: "outside \<Rightarrow> octets \<Rightarrow> scheduler \<Rightarrow> bool \<times> scheduler" where
  "try_export w data s =
     (case export_binary_data (outside_env w) (answer w (exports_made s) data) data (global_exporter s) of
        (ok, g) \<Rightarrow> (ok, s\<lparr>global_exporter := g, exports_made := Suc (exports_made s)\<rparr>))"

text \<open>\<^verbatim>\<open>time.sleep(retry_intervals[current_retry_index])\<close>: the index is in range, see \<open>retry_index_ok\<close>.\<close>

definition sleep_retry :: "outside \<Rightarrow> scheduler \<Rightarrow> scheduler" where
  "sleep_retry w s =
     s\<lparr>sched_server := fold handle_data (arrives w (slept s)) (sched_server s),
       slept := slept s + retry_intervals ! current_retry_index s\<rparr>"

partial_function (option) heart_beat_connect :: "outside \<Rightarrow> octets \<Rightarrow> scheduler \<Rightarrow> scheduler option" where
  "heart_beat_connect w data s =
     (let r = try_export w data (sleep_retry w s); s' = snd r
      in if fst r
         then Some (s'\<lparr>waiting_queue := [], current_retry_index := 0, sched_server := clear_data (sched_server s')\<rparr>)
         else heart_beat_connect w data
                (s'\<lparr>current_retry_index := min (current_retry_index s' + 1) (length retry_intervals - 1)\<rparr>))"

partial_function (option) export_loop :: "outside \<Rightarrow> scheduler \<Rightarrow> scheduler option" where
  "export_loop w s =
     (if waiting_queue s \<noteq> [] then Some s
      else case get_data (sched_server s) of
             (None, server) \<Rightarrow> Some (s\<lparr>sched_server := server\<rparr>)
           | (Some data, server) \<Rightarrow>
               if data = [] then Some (s\<lparr>sched_server := server\<rparr>)
               else (let r = try_export w data (s\<lparr>sched_server := server\<rparr>); s' = snd r
                     in if fst r then export_loop w s'
                        else (case heart_beat_connect w data (s'\<lparr>waiting_queue := waiting_queue s' @ [''0'']\<rparr>) of
                                None \<Rightarrow> None
                              | Some s'' \<Rightarrow> export_loop w s'')))"

declare heart_beat_connect.simps [code] export_loop.simps [code]

definition run_task :: "outside \<Rightarrow> scheduler \<Rightarrow> scheduler option" where
  "run_task w s =
     (if \<not> sched_running s then Some s
      else map_option (\<lambda>s'. s'\<lparr>timer_set := True\<rparr>) (export_loop w s))"

definition scheduler_start :: "outside \<Rightarrow> scheduler \<Rightarrow> scheduler option" where
  "scheduler_start w s = (if sched_running s then Some s else run_task w (s\<lparr>sched_running := True\<rparr>))"

definition scheduler_stop :: "scheduler \<Rightarrow> scheduler" where
  "scheduler_stop s = (if \<not> sched_running s then s else s\<lparr>sched_running := False, timer_set := False\<rparr>)"

end
