(* ===== verification/Trace_Forward.thy ===== *)
theory Trace_Forward
  imports Trace_Service
begin

text \<open>
  The forwarders as a whole: what the Perfetto forwarder writes of the spans it is sent, and what the OTLP forwarder
  does when its receiver does not answer.
\<close>

section \<open>Draining\<close>

lemma drain_list_split:
  "[] \<notin> set ds \<Longrightarrow> drain_list c (ds @ rest) x = drain_list c rest (export_all c ds x)"
  by (induction ds arbitrary: x) (auto simp: export_all_def)

lemma drain_list_all: "[] \<notin> set ds \<Longrightarrow> drain_list c ds x = ([], export_all c ds x)"
  using drain_list_split[of ds c "[]" x] by simp

text \<open>An empty frame ends the draining: what is behind it is never exported.\<close>

lemma drain_stops_at_empty:
  "[] \<notin> set ds \<Longrightarrow> drain_list c (ds @ [] # rest) x = (rest, export_all c ds x)"
  by (simp add: drain_list_split)

text \<open>
  Property C20. The payloads that a permitted client sends as frames come out of the server's queue in the order
  they were sent, whatever the chunks the stream arrives in; a frame that was cut off when the connection
  ended is left over. If the queue overflows, the youngest frames are kept.
\<close>

theorem frames_received_in_order:
  assumes "validate_peer_cred p" and "map frame (payloads @ [last_payload]) = map Some (frames @ [last_frame])"
    and "[] \<notin> set chunks" "concat chunks = concat frames @ take i last_frame" "i < length last_frame"
    and "0 < max_queue_size s" "length (data_queue s) \<le> max_queue_size s"
  shows "\<exists>s'. handle_client p (map Chunk chunks @ [Chunk []]) s = Some (Closed (take i last_frame), s') \<and>
    data_queue s' = last_n (max_queue_size s) (data_queue s @ payloads)"
proof -
  have sent: "map frame payloads = map Some frames" "frame last_payload = Some last_frame" using assms(2)
    by (auto dest: map_eq_imp_length_eq)
  have "split_frames OTEL_Length_Field (concat chunks) = (payloads, take i last_frame)"
    using split_sent[OF sent(1), of "take i last_frame"] split_cut[OF sent(2) assms(5)] by (simp add: assms(4))
  moreover have "handle_recv OTEL_Length_Field (map Chunk chunks @ [Chunk []]) [] s =
      (let r = split_frames OTEL_Length_Field ([] @ concat chunks) in Some (Closed (snd r), fold handle_data (fst r) s))"
    by (rule handle_recv_run) (use assms(3) in \<open>simp_all add: OTEL_Length_Field_def split_frames.simps\<close>)
  ultimately show ?thesis using assms(1,6,7) by (simp add: handle_client_def handle_all_queue)
qed

lemma frame_short:
  "length p < 256 \<Longrightarrow> frame p = Some ([0, 0, 0, of_nat (length p)] @ p)"
proof -
  assume len: "length p < 256"
  have "low_bytes_big (Suc (Suc (Suc (Suc 0)))) (length p) = [0, 0, 0, of_nat (length p)]" using len by simp
  moreover have "Suc (Suc (Suc (Suc 0))) = 4" by simp
  ultimately have "low_bytes_big 4 (length p) = [0, 0, 0, of_nat (length p)]" by metis
  then show ?thesis using len by (simp add: frame_Some)
qed

definition example_peer :: peer_env where
  "example_peer = \<lparr>peer_cred = Some ([9, 0, 0, 0] @ [1, 0, 0, 0] @ [1, 0, 0, 0]), self_uid = 1, self_gid = 1, self_pid = 3,
                   namespace_inode = (\<lambda>pid ns. Some 5)\<rparr>"

definition small_server :: server where
  "small_server = (new_server 4096 1 1 (\<lambda>n. 0))\<lparr>running := True\<rparr>"

theorem frames_received_in_order_witness:
  "\<exists>s'. handle_client example_peer (map Chunk [[0, 0, 0, 2, 7], [8, 0, 0, 0], [1, 9, 0, 0]] @ [Chunk []]) small_server =
      Some (Closed (take 2 [0, 0, 0, 1, 5]), s') \<and> data_queue s' = last_n (max_queue_size small_server) (data_queue small_server @ [[7, 8], [9]])"
proof -
  have p: "validate_peer_cred example_peer" by code_simp
  have f: "map frame ([[7, 8], [9]] @ [[5]]) = map Some ([[0, 0, 0, 2, 7, 8], [0, 0, 0, 1, 9]] @ [[0, 0, 0, 1, 5]])"
    by (simp add: frame_short)
  show ?thesis
    by (rule frames_received_in_order[OF p f]) (simp_all add: small_server_def new_server_def)
qed

section \<open>From the socket to the file\<close>

lemma perfetto_stop_writes:
  assumes "\<not> ps_stopped p" "[] \<notin> set (data_queue (ps_server p))"
  shows "ps_exporter (perfetto_stop c p) = close_file (export_all c (data_queue (ps_server p)) (ps_exporter p))"
  using assms by (simp add: perfetto_stop_def drain_def Let_def drain_list_all server_stop_def)

lemma close_file_content [simp]: "content (close_file x) = content x"
  by (simp add: close_file_def)

lemma poll_queue:
  assumes "\<not> ps_stop_event p" "data_queue (ps_server p) = d # ds" "d \<noteq> []"
  shows "data_queue (ps_server (poll c p)) = ds" "ps_exporter (poll c p) = snd (export c d (ps_exporter p))"
    "ps_stop_event (poll c p) = ps_stop_event p" "ps_stopped (poll c p) = ps_stopped p"
  using assms by (simp_all add: poll_def get_data_def)

text \<open>The loop may run as often as it likes before the service is stopped.\<close>

lemma polls_then_stop:
  assumes "\<not> ps_stopped p" "\<not> ps_stop_event p" "[] \<notin> set (data_queue (ps_server p))"
  shows "ps_exporter (perfetto_stop c ((poll c ^^ n) p)) =
    close_file (export_all c (data_queue (ps_server p)) (ps_exporter p))"
  using assms
proof (induction n arbitrary: p)
  case 0
  then show ?case by (simp add: perfetto_stop_writes)
next
  case (Suc n)
  show ?case
  proof (cases "data_queue (ps_server p)")
    case Nil
    then have idle: "data_queue (ps_server (poll c p)) = []" "ps_exporter (poll c p) = ps_exporter p"
      "ps_stop_event (poll c p) = ps_stop_event p" "ps_stopped (poll c p) = ps_stopped p"
      using Suc.prems(2) by (simp_all add: poll_def get_data_def)
    have "ps_exporter (perfetto_stop c ((poll c ^^ n) (poll c p))) =
        close_file (export_all c (data_queue (ps_server (poll c p))) (ps_exporter (poll c p)))"
      using Suc.prems idle by (intro Suc.IH) simp_all
    then show ?thesis using idle Nil by (simp add: funpow_swap1)
  next
    case (Cons d ds)
    then have d: "d \<noteq> []" using Suc.prems(3) by auto
    note step = poll_queue[OF Suc.prems(2) Cons d, where c = c]
    have "ps_exporter (perfetto_stop c ((poll c ^^ n) (poll c p))) =
        close_file (export_all c (data_queue (ps_server (poll c p))) (ps_exporter (poll c p)))"
      using Suc.prems step Cons by (intro Suc.IH) simp_all
    then show ?thesis using step Cons by (simp add: funpow_swap1)
  qed
qed

text \<open>Connections one after the other, each given by the chunks that arrive on it; every one must end between two frames.\<close>

fun serve :: "peer_env \<Rightarrow> octets list list \<Rightarrow> server \<Rightarrow> server option" where
  "serve p [] s = Some s"
| "serve p (chunks # conns) s =
     (case handle_client p (map Chunk chunks @ [Chunk []]) s of
        Some (Closed [], s') \<Rightarrow> serve p conns s'
      | _ \<Rightarrow> None)"

lemma split_nothing: "split_frames OTEL_Length_Field [] = ([], [])"
  by (simp add: split_frames.simps OTEL_Length_Field_def)

lemma serve_frames:
  assumes "validate_peer_cred p"
  shows "map frame payloads = map Some (map concat conns) \<Longrightarrow> list_all (\<lambda>chunks. [] \<notin> set chunks) conns \<Longrightarrow>
    serve p conns s = Some (fold handle_data payloads s)"
proof (induction conns arbitrary: payloads s)
  case Nil
  then show ?case by simp
next
  case (Cons chunks conns)
  then obtain d ds where d: "payloads = d # ds" "frame d = Some (concat chunks)" "map frame ds = map Some (map concat conns)"
    by (cases payloads) auto
  have "split_frames OTEL_Length_Field (concat chunks) = ([d], [])"
    using split_sent[of "[d]" "[concat chunks]" "[]"] d(2) split_nothing by simp
  moreover have "handle_recv OTEL_Length_Field (map Chunk chunks @ [Chunk []]) [] s =
      (let r = split_frames OTEL_Length_Field ([] @ concat chunks) in Some (Closed (snd r), fold handle_data (fst r) s))"
    by (rule handle_recv_run) (use Cons.prems(2) split_nothing in \<open>simp_all add: OTEL_Length_Field_def\<close>)
  ultimately have "handle_client p (map Chunk chunks @ [Chunk []]) s = Some (Closed [], handle_data d s)"
    using assms by (simp add: handle_client_def)
  then show ?case using Cons.IH[OF d(3)] Cons.prems(2) d(1) by simp
qed

lemma run_sender_frames: "run_sender (\<lambda>_. True) payloads = (frames, True) \<Longrightarrow> map frame payloads = map Some frames"
  by (induction payloads arbitrary: frames) (auto split: option.splits prod.splits)

text \<open>
  Property C21. From the sender to the file. Spans, whose attributes \<^verbatim>\<open>process.pid\<close> and \<^verbatim>\<open>thread.id\<close> are integers if they are there,
  are serialised into packets and written by the sender, each on a connection of its own that does not fail, to an idle Perfetto
  forwarder of a permitted peer with room for all of them, and each arrives in any chunks. When
  the forwarder has been stopped, however often its loop has run in between, its file is the JSON array of the events of
  these packets in order, and it holds the event of every one of the spans. JSON has a text for every value, packets are read back as
  they were written, and the texts of the events have no lone surrogates.
\<close>

theorem forwarder_writes_spans:
  assumes "validate_peer_cred peer"
    and sent: "map (serialize_readable_span c) spans = map Some payloads" "run_sender (\<lambda>_. True) payloads = (frames, True)"
    and conns: "map concat conns = frames" "list_all (\<lambda>chunks. [] \<notin> set chunks) conns"
    and idle: "length payloads \<le> max_queue_size s" "data_queue s = []" "\<not> ps_stopped p" "\<not> ps_stop_event p" "ps_exporter p = new_exporter"
    and codec: "ascii_ok c" "\<forall>v. dumps c v \<noteq> None" "clean_run c payloads new_exporter"
      "list_all (\<lambda>span. reads_back c span \<and> ids_integral span) spans"
  shows "\<exists>s' texts. serve peer conns s = Some s' \<and>
    those (map (dumps c) (events_of c payloads new_exporter)) = Some texts \<and>
    encode c (''['' @ join_with '','' texts @ '']'') =
      Some (content (ps_exporter (perfetto_stop c ((poll c ^^ rounds) (p\<lparr>ps_server := s'\<rparr>))))) \<and>
    list_all (\<lambda>span. \<exists>f ks. arrival c (span_payload span) = Some (f, ks) \<and>
      sf_event f \<in> set (events_of c payloads new_exporter)) spans"
proof -
  define s' where "s' = fold handle_data payloads s"
  have run: "serve peer conns s = Some s'"
    unfolding s'_def using run_sender_frames[OF sent(2)] conns by (intro serve_frames[OF assms(1)]) simp_all
  have queue: "data_queue s' = payloads"
  proof (cases "payloads = []")
    case True
    then show ?thesis using idle(2) by (simp add: s'_def)
  next
    case False
    then show ?thesis using handle_all_queue[of s payloads] idle(1,2) by (cases payloads) (auto simp: s'_def last_n_def)
  qed
  have "list_all (\<lambda>p. p \<noteq> []) ps" if "map (serialize_readable_span c) ss = map Some ps" "list_all (reads_back c) ss" for ss ps
    using that by (induction ss arbitrary: ps) (auto dest: serialized_payload(2))
  then have "list_all (\<lambda>p. p \<noteq> []) payloads" using sent(1) codec(4) by (auto simp: list_all_iff)
  then have ne: "[] \<notin> set payloads" by (auto simp: list_all_iff)
  have new: "file_ok c [] new_exporter" "\<not> closed new_exporter" using new_exporter_ok[OF codec(1)] by (simp_all add: new_exporter_def)
  from run_file_ok[OF codec(1,3) new]
  obtain texts where texts: "those (map (dumps c) (events_of c payloads new_exporter)) = Some texts"
    "file_ok c texts (export_all c payloads new_exporter)" by auto
  have "ps_exporter (perfetto_stop c ((poll c ^^ rounds) (p\<lparr>ps_server := s'\<rparr>))) =
      close_file (export_all c payloads new_exporter)"
    using polls_then_stop[of "p\<lparr>ps_server := s'\<rparr>" c rounds] ne idle(3-) queue by simp
  then show ?thesis using run texts run_accepts[OF codec(1,3,2) new sent(1) codec(4)] by (auto simp: file_ok_def)
qed

definition idle_service :: perfetto_service where
  "idle_service = \<lparr>ps_stopped = False, ps_stop_event = False, ps_exporter = new_exporter, ps_server = small_server\<rparr>"

definition sent_span :: readable_span where
  "sent_span = \<lparr>span_name = ''f'', span_ctx = Some \<lparr>ctx_valid = True, ctx_trace_id = 5, ctx_span_id = 6\<rparr>, span_parent = None,
     span_attributes = Some [(''process.pid'', PyInt 3)], span_resource = None, span_links = None, span_scope = None,
     span_kind = None, span_status = None, start_time = Some 1000, end_time = Some 2000\<rparr>"

definition sender_codec :: codec where
  "sender_codec = example_codec\<lparr>dumps := (\<lambda>v. Some (if v = YMap (span_payload sent_span) then ''p'' else ''{}'')),
     loads := (\<lambda>t. if t = ''p'' then Some (YMap (span_payload sent_span)) else None)\<rparr>"

text \<open>One span, which arrives in two chunks.\<close>

theorem forwarder_writes_spans_witness:
  "\<exists>s' texts. serve example_peer [[[0, 0, 0, 18], PERFETTO_EVENT_MAGIC @ [112]]] (small_server\<lparr>max_queue_size := 1\<rparr>) = Some s' \<and>
    encode sender_codec (''['' @ join_with '','' texts @ '']'') =
      Some (content (ps_exporter (perfetto_stop sender_codec ((poll sender_codec ^^ 3) (idle_service\<lparr>ps_server := s'\<rparr>))))) \<and>
    texts \<noteq> []"
proof -
  let ?p = "PERFETTO_EVENT_MAGIC @ [112]"
  have peer: "validate_peer_cred example_peer" by code_simp
  have ser: "map (serialize_readable_span sender_codec) [sent_span] = map Some [?p]"
    by (simp add: serialize_readable_span_def sender_codec_def example_codec_def encode_def)
  have fr: "frame ?p = Some ([0, 0, 0, 18] @ ?p)" using frame_short[of ?p] by (simp add: PERFETTO_EVENT_MAGIC_def)
  have run: "run_sender (\<lambda>_. True) [?p] = ([[0, 0, 0, 18] @ ?p], True)" by (simp add: fr)
  have ok: "ascii_ok sender_codec" "\<forall>v. dumps sender_codec v \<noteq> None"
    by (simp_all add: ascii_ok_def sender_codec_def example_codec_def)
  have cl: "clean_run sender_codec [?p] new_exporter"
    by (simp add: clean_def sender_codec_def example_codec_def encode_def)
  have "char_of (112 :: nat) = CHR ''p''" by code_simp
  then have rb: "reads_back sender_codec sent_span"
    by (auto simp: reads_back_def sender_codec_def example_codec_def encode_def)
  have ids: "ids_integral sent_span" by code_simp
  let ?s = "small_server\<lparr>max_queue_size := 1\<rparr>"
  have idle: "length [?p] \<le> max_queue_size ?s" "data_queue ?s = []" "\<not> ps_stopped idle_service" "\<not> ps_stop_event idle_service"
    "ps_exporter idle_service = new_exporter"
    by (simp_all add: small_server_def new_server_def idle_service_def)
  have conns: "map concat [[[0, 0, 0, 18], ?p]] = [[0, 0, 0, 18] @ ?p]" "list_all (\<lambda>chunks. [] \<notin> set chunks) [[[0, 0, 0, 18], ?p]]"
    by (simp_all add: PERFETTO_EVENT_MAGIC_def)
  have spans: "list_all (\<lambda>span. reads_back sender_codec span \<and> ids_integral span) [sent_span]" using rb ids by simp
  obtain s' texts where r: "serve example_peer [[[0, 0, 0, 18], ?p]] ?s = Some s'"
    "those (map (dumps sender_codec) (events_of sender_codec [?p] new_exporter)) = Some texts"
    "encode sender_codec (''['' @ join_with '','' texts @ '']'') =
      Some (content (ps_exporter (perfetto_stop sender_codec ((poll sender_codec ^^ 3) (idle_service\<lparr>ps_server := s'\<rparr>)))))"
    "list_all (\<lambda>span. \<exists>f ks. arrival sender_codec (span_payload span) = Some (f, ks) \<and>
      sf_event f \<in> set (events_of sender_codec [?p] new_exporter)) [sent_span]"
    using forwarder_writes_spans[OF peer ser run conns idle ok cl spans, of 3] by blast
  have "events_of sender_codec [?p] new_exporter \<noteq> []" using r(4) by (auto simp del: events_of.simps)
  then have "texts \<noteq> []" using r(2) by (cases "events_of sender_codec [?p] new_exporter") (auto split: option.splits)
  then show ?thesis using r(1,3) by blast
qed

section \<open>The OTLP forwarder\<close>

lemma try_export_run:
  assumes "global_exporter s = Some True" "data \<noteq> []"
  shows "try_export w data s = (answer w (exports_made s) data = Success, s\<lparr>exports_made := Suc (exports_made s)\<rparr>)"
  using assms by (simp add: try_export_def export_binary_data_def exporter_export_def create_exporter_from_env_def)

lemma sleep_fields [simp]:
  "exports_made (sleep_retry w s) = exports_made s" "global_exporter (sleep_retry w s) = global_exporter s"
  "waiting_queue (sleep_retry w s) = waiting_queue s" "sched_running (sleep_retry w s) = sched_running s"
  by (simp_all add: sleep_retry_def)

text \<open>The index into the retry intervals stays in range.\<close>

definition retry_index_ok :: "scheduler \<Rightarrow> bool" where
  "retry_index_ok s \<longleftrightarrow> current_retry_index s < length retry_intervals"

text \<open>The state after a retry that succeeded: everything received in the meantime is gone.\<close>

definition reconnected :: "outside \<Rightarrow> octets \<Rightarrow> scheduler \<Rightarrow> scheduler \<Rightarrow> bool" where
  "reconnected w data s s' \<longleftrightarrow>
     data_queue (sched_server s') = [] \<and> waiting_queue s' = [] \<and> current_retry_index s' = 0 \<and>
     global_exporter s' = Some True \<and> sched_running s' = sched_running s \<and> exports_made s < exports_made s' \<and>
     answer w (exports_made s' - 1) data = Success \<and>
     (\<forall>n \<ge> exports_made s. n < exports_made s' - 1 \<longrightarrow> answer w n data \<noteq> Success)"

lemma reconnected_later:
  assumes "reconnected w data s1 s'" "exports_made s1 = Suc (exports_made s)" "sched_running s1 = sched_running s"
    "answer w (exports_made s) data \<noteq> Success"
  shows "reconnected w data s s'"
proof -
  have "answer w n data \<noteq> Success" if "exports_made s \<le> n" "n < exports_made s' - 1" for n
    using assms that by (cases "n = exports_made s") (auto simp: reconnected_def)
  then show ?thesis using assms by (auto simp: reconnected_def)
qed

lemma heart_beat_result:
  assumes "heart_beat_connect w data s = Some s'" "global_exporter s = Some True" "data \<noteq> []"
  shows "reconnected w data s s'"
proof -
  have "global_exporter s = Some True \<longrightarrow> data \<noteq> [] \<longrightarrow> reconnected w data s s'"
  proof (rule heart_beat_connect.raw_induct[OF _ assms(1),
        where P = "\<lambda>w data s s'. global_exporter s = Some True \<longrightarrow> data \<noteq> [] \<longrightarrow> reconnected w data s s'"], intro impI)
    fix f w data s s'
    assume IH: "\<And>w data s s'. f w data s = Some s' \<Longrightarrow>
        global_exporter s = Some True \<longrightarrow> data \<noteq> [] \<longrightarrow> reconnected w data s s'"
      and run: "(let r = try_export w data (sleep_retry w s); s' = snd r
        in if fst r
           then Some (s'\<lparr>waiting_queue := [], current_retry_index := 0, sched_server := clear_data (sched_server s')\<rparr>)
           else f w data (s'\<lparr>current_retry_index := min (current_retry_index s' + 1) (length retry_intervals - 1)\<rparr>)) = Some s'"
      and s: "global_exporter s = Some True" "data \<noteq> []"
    let ?s1 = "sleep_retry w s"
    have att: "try_export w data ?s1 = (answer w (exports_made s) data = Success, ?s1\<lparr>exports_made := Suc (exports_made s)\<rparr>)"
      using s by (simp add: try_export_run)
    show "reconnected w data s s'"
    proof (cases "answer w (exports_made s) data = Success")
      case True
      then show ?thesis using run s att by (auto simp: clear_data_def Let_def reconnected_def)
    next
      case False
      let ?s2 = "?s1\<lparr>exports_made := Suc (exports_made s),
        current_retry_index := min (current_retry_index ?s1 + 1) (length retry_intervals - 1)\<rparr>"
      have "f w data ?s2 = Some s'" using run att False by (simp add: Let_def)
      then have "reconnected w data ?s2 s'" using IH s by simp
      then show ?thesis by (rule reconnected_later) (simp_all add: False)
    qed
  qed
  then show ?thesis using assms by simp
qed

lemma heart_beat_returns:
  assumes "answer w n data = Success" "exports_made s \<le> n" "global_exporter s = Some True" "data \<noteq> []"
  shows "\<exists>s'. heart_beat_connect w data s = Some s'"
  using assms(2,3)
proof (induction "n - exports_made s" arbitrary: s)
  case 0
  then have "exports_made s = n" by simp
  then show ?case using 0 assms(1,4) by (subst heart_beat_connect.simps) (simp add: try_export_run Let_def)
next
  case (Suc k)
  show ?case
  proof (cases "answer w (exports_made s) data = Success")
    case True
    then show ?thesis using Suc.prems assms(4) by (subst heart_beat_connect.simps) (simp add: try_export_run Let_def)
  next
    case False
    let ?s2 = "(sleep_retry w s)\<lparr>exports_made := Suc (exports_made s),
      current_retry_index := min (current_retry_index (sleep_retry w s) + 1) (length retry_intervals - 1)\<rparr>"
    have "\<exists>s'. heart_beat_connect w data ?s2 = Some s'" using Suc by (intro Suc.hyps(1)) simp_all
    then show ?thesis using False Suc.prems assms(4)
      by (subst heart_beat_connect.simps) (simp add: try_export_run Let_def)
  qed
qed

lemma retry_index_kept: "retry_index_ok (s\<lparr>current_retry_index := min (current_retry_index s + 1) (length retry_intervals - 1)\<rparr>)"
  by (simp add: retry_index_ok_def retry_intervals_def)

lemma export_loop_idle:
  assumes "waiting_queue s = []" "data_queue (sched_server s) = []"
  shows "export_loop w s = Some s"
  using assms by (subst export_loop.simps) (simp add: get_data_def)

text \<open>While the receiver answers, everything is delivered in order.\<close>

lemma export_loop_delivers:
  assumes "waiting_queue s = []" "global_exporter s = Some True" "[] \<notin> set ds"
    and "\<forall>i < length ds. answer w (exports_made s + i) (ds ! i) = Success" "data_queue (sched_server s) = ds @ rest"
  shows "export_loop w s = export_loop w (s\<lparr>sched_server := (sched_server s)\<lparr>data_queue := rest\<rparr>,
    exports_made := exports_made s + length ds\<rparr>)"
  using assms
proof (induction ds arbitrary: s)
  case Nil
  then have "s\<lparr>sched_server := (sched_server s)\<lparr>data_queue := rest\<rparr>, exports_made := exports_made s + length []\<rparr> = s" by simp
  then show ?case by simp
next
  case (Cons d ds)
  let ?s' = "s\<lparr>sched_server := (sched_server s)\<lparr>data_queue := ds @ rest\<rparr>, exports_made := Suc (exports_made s)\<rparr>"
  have ans: "answer w (exports_made s) d = Success" using Cons.prems(4)[rule_format, of 0] by simp
  have later: "\<forall>i < length ds. answer w (exports_made ?s' + i) (ds ! i) = Success"
  proof (intro allI impI)
    fix i assume "i < length ds"
    then show "answer w (exports_made ?s' + i) (ds ! i) = Success" using Cons.prems(4)[rule_format, of "Suc i"] by simp
  qed
  have d: "d \<noteq> []" using Cons.prems(3) by auto
  have "export_loop w s = export_loop w ?s'"
    using Cons.prems ans d by (subst export_loop.simps) (simp add: get_data_def try_export_run Let_def)
  also have "\<dots> = export_loop w (?s'\<lparr>sched_server := (sched_server ?s')\<lparr>data_queue := rest\<rparr>,
      exports_made := exports_made ?s' + length ds\<rparr>)"
    using Cons.prems later by (intro Cons.IH) simp_all
  finally show ?case by simp
qed

text \<open>
  Property C23. When the receiver does not accept an item, the scheduler tries that one item until it is accepted and
  nothing else: a task whose item is never accepted, such as one that cannot be parsed, does not return, and a
  task that returns has dropped every item that was waiting behind it or came in the meantime.
\<close>

theorem outage_blocks_and_drops:
  assumes s: "sched_running s" "waiting_queue s = []" "global_exporter s = Some True"
    and queue: "data_queue (sched_server s) = delivered @ item # rest" "[] \<notin> set (delivered @ [item])"
    and answers: "\<forall>i < length delivered. answer w (exports_made s + i) (delivered ! i) = Success"
      "answer w (exports_made s + length delivered) item \<noteq> Success"
  shows "(run_task w s = None \<longleftrightarrow> (\<forall>n > exports_made s + length delivered. answer w n item \<noteq> Success)) \<and>
    (\<forall>s'. run_task w s = Some s' \<longrightarrow>
       data_queue (sched_server s') = [] \<and> answer w (exports_made s' - 1) item = Success \<and>
       (\<forall>n > exports_made s + length delivered. n < exports_made s' - 1 \<longrightarrow> answer w n item \<noteq> Success))"
proof -
  define n0 where "n0 = exports_made s + length delivered"
  define s1 where "s1 = s\<lparr>sched_server := (sched_server s)\<lparr>data_queue := item # rest\<rparr>, exports_made := n0\<rparr>"
  define s2 where "s2 = s1\<lparr>sched_server := (sched_server s)\<lparr>data_queue := rest\<rparr>, exports_made := Suc n0,
    waiting_queue := [''0'']\<rparr>"
  have item: "item \<noteq> []" using queue(2) by auto
  have "export_loop w s = export_loop w s1"
    using export_loop_delivers[OF s(2,3) _ answers(1) queue(1)] queue(2) by (simp add: s1_def n0_def)
  also have "\<dots> = (case heart_beat_connect w item s2 of None \<Rightarrow> None | Some s' \<Rightarrow> export_loop w s')"
    using s queue(2) item answers(2)
    by (subst export_loop.simps) (simp add: s1_def s2_def get_data_def try_export_run Let_def n0_def)
  finally have loop: "export_loop w s = (case heart_beat_connect w item s2 of None \<Rightarrow> None | Some s' \<Rightarrow> export_loop w s')" .
  have g: "global_exporter s2 = Some True" "item \<noteq> []" "exports_made s2 = Suc n0" using s queue by (auto simp: s1_def s2_def)
  have conn: "reconnected w item s2 s' \<and> export_loop w s = Some s'" if "heart_beat_connect w item s2 = Some s'" for s'
    using heart_beat_result[OF that g(1,2)] that loop export_loop_idle[of s' w] by (simp add: reconnected_def)
  have returns: "(\<exists>s'. heart_beat_connect w item s2 = Some s') \<longleftrightarrow> (\<exists>n > n0. answer w n item = Success)"
  proof
    assume "\<exists>s'. heart_beat_connect w item s2 = Some s'"
    then obtain s' where "reconnected w item s2 s'" using heart_beat_result[OF _ g(1,2)] by blast
    then show "\<exists>n > n0. answer w n item = Success" using g(3)
      by (intro exI[of _ "exports_made s' - 1"]) (auto simp: reconnected_def)
  next
    assume "\<exists>n > n0. answer w n item = Success"
    then show "\<exists>s'. heart_beat_connect w item s2 = Some s'" using heart_beat_returns[OF _ _ g(1,2), of w] g(3) by auto
  qed
  have "run_task w s = None \<longleftrightarrow> heart_beat_connect w item s2 = None"
    using s(1) conn loop by (cases "heart_beat_connect w item s2") (auto simp: run_task_def)
  moreover have "\<exists>s''. reconnected w item s2 s'' \<and> s' = s''\<lparr>timer_set := True\<rparr>" if "run_task w s = Some s'" for s'
    using that s(1) conn loop by (cases "heart_beat_connect w item s2") (auto simp: run_task_def)
  ultimately show ?thesis using returns g(3)
    by (auto simp: reconnected_def n0_def[symmetric] Suc_le_eq)
qed

definition deaf_receiver :: "nat \<Rightarrow> outside" where
  "deaf_receiver k = \<lparr>outside_env = \<lparr>getenv = (\<lambda>v. None), parse_url = (\<lambda>u. None), is_file = (\<lambda>f. False), dirname = id, cwd = [],
      file_mode = (\<lambda>f. None), user_id = 0, exporter_starts = (\<lambda>p e. True)\<rparr>,
     answer = (\<lambda>n d. if d = [8] \<and> n < k then Failure else Success), arrives = (\<lambda>n. [[5]])\<rparr>"

definition busy_scheduler :: scheduler where
  "busy_scheduler = \<lparr>sched_running = True, sched_server = small_server\<lparr>data_queue := [[7], [8], [9]]\<rparr>, waiting_queue = [],
     current_retry_index = 0, timer_set = False, global_exporter = Some True, exports_made = 0, slept = 0\<rparr>"

theorem outage_blocks_and_drops_witness:
  "\<exists>s'. run_task (deaf_receiver 4) busy_scheduler = Some s' \<and> data_queue (sched_server s') = [] \<and>
     answer (deaf_receiver 4) (exports_made s' - 1) [8] = Success"
proof -
  have late: "answer (deaf_receiver 4) 4 [8] = Success" and
    facts: "exports_made busy_scheduler = 0" "sched_running busy_scheduler" "waiting_queue busy_scheduler = []"
      "global_exporter busy_scheduler = Some True" "data_queue (sched_server busy_scheduler) = [[7]] @ [8] # [[9]]"
      "answer (deaf_receiver 4) 0 [7] = Success" "answer (deaf_receiver 4) 1 [8] = Failure"
    by (simp_all add: deaf_receiver_def busy_scheduler_def)
  have "(run_task (deaf_receiver 4) busy_scheduler = None \<longleftrightarrow> (\<forall>n > 1. answer (deaf_receiver 4) n [8] \<noteq> Success)) \<and>
      (\<forall>s'. run_task (deaf_receiver 4) busy_scheduler = Some s' \<longrightarrow>
         data_queue (sched_server s') = [] \<and> answer (deaf_receiver 4) (exports_made s' - 1) [8] = Success)"
    using outage_blocks_and_drops[of busy_scheduler "[[7]]" "[8]" "[[9]]" "deaf_receiver 4"] facts by simp
  moreover have "\<not> (\<forall>n > 1. answer (deaf_receiver 4) n [8] \<noteq> Success)" using late by (auto intro!: exI[of _ 4])
  ultimately show ?thesis by (metis not_None_eq)
qed

end
