(* ===== verification/Expr_Eval.thy ===== *)
theory Expr_Eval
  imports Prelude
begin

text \<open>
  The expression evaluator of the metric handlers: \<^verbatim>\<open>ms_service_metric/utils/expr_eval.py\<close> (\<open>ExprEval\<close>) and the
  context it reads from, \<^verbatim>\<open>utils/function_context.py\<close>.

  An expression is the tree that \<^verbatim>\<open>ast.parse\<close> gives; node types without a visitor are \<open>OtherNode\<close>. Values are Python
  objects. Integers, strings, lists and dictionaries behave as written here; \<open>OOther\<close> is any other object (a float, a
  tensor), and what operators, attributes, items and functions give for it is the record \<open>python\<close>. Evaluation
  is taken to have no effects on these objects. A raise is an \<open>Inl\<close>.
\<close>

section \<open>Values and expressions\<close>

datatype 'o obj = ONone | OBool bool | OInt int | OStr string | OList "'o obj list" | ODict "('o obj \<times> 'o obj) list" | OOther 'o

datatype binop = Add | Sub | Mult | Div | Pow | FloorDiv | Mod | OtherBinOp

datatype unop = USub | UAdd | OtherUnaryOp

datatype 'o expr =
    Constant "'o obj" | Name string | Call "'o callee" "'o expr list" "(string option \<times> 'o expr) list"
  | Attribute "'o expr" string | Subscript "'o expr" "'o expr" | UnaryOp unop "'o expr" | BinOp binop "'o expr" "'o expr"
  | OtherNode
and 'o callee = CName string | CAttr "'o expr" string | COther

datatype eval_error = NameErr | TypeErr | KeyErr | IndexErr | ZeroDivErr | Raised

type_synonym 'o result = "eval_error + 'o obj"
type_synonym 'o func = "'o obj list \<Rightarrow> (string \<times> 'o obj) list \<Rightarrow> 'o result"

record 'o python =
  other_binary :: "binop \<Rightarrow> 'o obj \<Rightarrow> 'o obj \<Rightarrow> 'o result"
  other_unary :: "unop \<Rightarrow> 'o obj \<Rightarrow> 'o result"
  get_attribute :: "'o obj \<Rightarrow> string \<Rightarrow> 'o result"
  other_item :: "'o obj \<Rightarrow> 'o obj \<Rightarrow> 'o result"
  other_call :: "string \<Rightarrow> 'o func"
  other_equal :: "'o obj \<Rightarrow> 'o obj \<Rightarrow> bool"
  other_hashable :: "'o \<Rightarrow> bool"
  parse :: "string \<Rightarrow> 'o expr option"

section \<open>Python's operators\<close>

text \<open>\<^verbatim>\<open>isinstance(x, int)\<close> and its value: a \<^verbatim>\<open>bool\<close> is an \<^verbatim>\<open>int\<close>.\<close>

fun int_of :: "'o obj \<Rightarrow> int option" where
  "int_of (OInt n) = Some n"
| "int_of (OBool b) = Some (if b then 1 else 0)"
| "int_of _ = None"

definition int_binary :: "'o python \<Rightarrow> binop \<Rightarrow> int \<Rightarrow> int \<Rightarrow> 'o result" where
  "int_binary py op m n =
     (case op of
        Add \<Rightarrow> Inr (OInt (m + n))
      | Sub \<Rightarrow> Inr (OInt (m - n))
      | Mult \<Rightarrow> Inr (OInt (m * n))
      | FloorDiv \<Rightarrow> if n = 0 then Inl ZeroDivErr else Inr (OInt (m div n))
      | Mod \<Rightarrow> if n = 0 then Inl ZeroDivErr else Inr (OInt (m mod n))
      | Div \<Rightarrow> if n = 0 then Inl ZeroDivErr else other_binary py op (OInt m) (OInt n)
      | Pow \<Rightarrow> if 0 \<le> n then Inr (OInt (m ^ nat n)) else other_binary py op (OInt m) (OInt n)
      | OtherBinOp \<Rightarrow> other_binary py op (OInt m) (OInt n))"

definition binary :: "'o python \<Rightarrow> binop \<Rightarrow> 'o obj \<Rightarrow> 'o obj \<Rightarrow> 'o result" where
  "binary py op x y =
     (case (int_of x, int_of y) of
        (Some m, Some n) \<Rightarrow> int_binary py op m n
      | _ \<Rightarrow>
          (case (op, x, y) of
             (Add, OStr s, OStr t) \<Rightarrow> Inr (OStr (s @ t))
           | (Add, OList xs, OList ys) \<Rightarrow> Inr (OList (xs @ ys))
           | _ \<Rightarrow> other_binary py op x y))"

definition unary :: "'o python \<Rightarrow> unop \<Rightarrow> 'o obj \<Rightarrow> 'o result" where
  "unary py op x =
     (case (op, int_of x) of
        (USub, Some n) \<Rightarrow> Inr (OInt (- n))
      | (UAdd, Some n) \<Rightarrow> Inr (OInt n)
      | _ \<Rightarrow> other_unary py op x)"

fun hashable_obj :: "'o python \<Rightarrow> 'o obj \<Rightarrow> bool" where
  "hashable_obj py (OList xs) = False"
| "hashable_obj py (ODict d) = False"
| "hashable_obj py (OOther x) = other_hashable py x"
| "hashable_obj py _ = True"

definition obj_equal :: "'o python \<Rightarrow> 'o obj \<Rightarrow> 'o obj \<Rightarrow> bool" where
  "obj_equal py x y =
     (case (int_of x, int_of y) of
        (Some m, Some n) \<Rightarrow> m = n
      | _ \<Rightarrow>
          (case (x, y) of
             (ONone, ONone) \<Rightarrow> True
           | (OStr s, OStr t) \<Rightarrow> s = t
           | (OOther _, _) \<Rightarrow> other_equal py x y
           | (_, OOther _) \<Rightarrow> other_equal py x y
           | _ \<Rightarrow> False))"

text \<open>\<^verbatim>\<open>xs[i]\<close> of a list or a string: a negative index counts from the end.\<close>

definition at_index :: "'a list \<Rightarrow> int \<Rightarrow> 'a option" where
  "at_index xs i =
     (let j = (if i < 0 then int (length xs) + i else i)
      in if 0 \<le> j \<and> j < int (length xs) then Some (xs ! nat j) else None)"

definition dict_item :: "'o python \<Rightarrow> ('o obj \<times> 'o obj) list \<Rightarrow> 'o obj \<Rightarrow> 'o obj option" where
  "dict_item py d key = map_option snd (find (\<lambda>(k, v). obj_equal py k key) d)"

text \<open>\<^verbatim>\<open>container[key]\<close>\<close>

definition get_item :: "'o python \<Rightarrow> 'o obj \<Rightarrow> 'o obj \<Rightarrow> 'o result" where
  "get_item py container key =
     (case container of
        OList xs \<Rightarrow>
          (case int_of key of
             Some i \<Rightarrow> (case at_index xs i of Some v \<Rightarrow> Inr v | None \<Rightarrow> Inl IndexErr)
           | None \<Rightarrow> other_item py container key)
      | OStr s \<Rightarrow>
          (case int_of key of
             Some i \<Rightarrow> (case at_index s i of Some c \<Rightarrow> Inr (OStr [c]) | None \<Rightarrow> Inl IndexErr)
           | None \<Rightarrow> other_item py container key)
      | ODict d \<Rightarrow>
          if \<not> hashable_obj py key then Inl TypeErr
          else (case dict_item py d key of Some v \<Rightarrow> Inr v | None \<Rightarrow> Inl KeyErr)
      | _ \<Rightarrow> other_item py container key)"

section \<open>Functions\<close>

definition FUNCTION_NAMES :: "string list" where
  "FUNCTION_NAMES = [''abs'', ''round'', ''len'', ''int'', ''float'', ''str'', ''max'', ''min'', ''pow'', ''sqrt'', ''sin'', ''cos'',
     ''tan'', ''log'', ''exp'', ''ceil'', ''floor'']"

definition ints_of :: "'o obj list \<Rightarrow> int list option" where
  "ints_of args = those (map (\<lambda>x. case x of OInt n \<Rightarrow> Some n | _ \<Rightarrow> None) args)"

text \<open>The functions of the table on integers and containers; everything else is \<open>other_call\<close>.\<close>

definition call_builtin :: "'o python \<Rightarrow> string \<Rightarrow> 'o func" where
  "call_builtin py name args kwargs =
     (if kwargs \<noteq> [] then other_call py name args kwargs
      else case (name = ''len'', args) of
        (True, [OStr s]) \<Rightarrow> Inr (OInt (int (length s)))
      | (True, [OList xs]) \<Rightarrow> Inr (OInt (int (length xs)))
      | (True, [ODict d]) \<Rightarrow> Inr (OInt (int (length d)))
      | _ \<Rightarrow>
          (case ints_of args of
             None \<Rightarrow> other_call py name args kwargs
           | Some [n] \<Rightarrow>
               if name = ''abs'' then Inr (OInt \<bar>n\<bar>)
               else if name \<in> {''int'', ''round'', ''ceil'', ''floor''} then Inr (OInt n)
               else other_call py name args kwargs
           | Some (m # n # ns) \<Rightarrow>
               if name = ''max'' then Inr (OInt (fold max (n # ns) m))
               else if name = ''min'' then Inr (OInt (fold min (n # ns) m))
               else other_call py name args kwargs
           | Some [] \<Rightarrow> other_call py name args kwargs))"

definition FUNCTION :: "'o python \<Rightarrow> (string, 'o func) dict" where
  "FUNCTION py = map (\<lambda>n. (n, call_builtin py n)) FUNCTION_NAMES"

section \<open>The evaluator\<close>

record 'o expr_eval =
  ev_params :: "(string, 'o obj) dict"
  ev_functions :: "(string, 'o func) dict"
  ev_expr :: "'o expr"

text \<open>\<^verbatim>\<open>ExprEval(expression)\<close>; \<open>None\<close> is its \<^verbatim>\<open>SyntaxError\<close>.\<close>

definition new_expr_eval :: "'o python \<Rightarrow> string \<Rightarrow> 'o expr_eval option" where
  "new_expr_eval py expression =
     map_option (\<lambda>e. \<lparr>ev_params = [], ev_functions = FUNCTION py, ev_expr = e\<rparr>) (parse py expression)"

definition register_function :: "string \<Rightarrow> 'o func \<Rightarrow> 'o expr_eval \<Rightarrow> 'o expr_eval" where
  "register_function name f ev = ev\<lparr>ev_functions := dict_set name f (ev_functions ev)\<rparr>"

definition visit_name :: "'o expr_eval \<Rightarrow> string \<Rightarrow> 'o result" where
  "visit_name ev x = (case dict_get (ev_params ev) x of None \<Rightarrow> Inl NameErr | Some v \<Rightarrow> Inr v)"

fun callee_name :: "'o callee \<Rightarrow> string option" where
  "callee_name (CName f) = Some f"
| "callee_name (CAttr e f) = Some f"
| "callee_name COther = None"

text \<open>The subscript of an evaluated container and key, with the checks of \<^verbatim>\<open>_visit_subscript\<close>.\<close>

definition subscript :: "'o python \<Rightarrow> 'o obj \<Rightarrow> 'o obj \<Rightarrow> 'o result" where
  "subscript py container key =
     (case (container, int_of key) of
        (OList xs, Some i) \<Rightarrow>
          (let j = (if i < 0 then int (length xs) + i else i)
           in if j < 0 \<or> int (length xs) \<le> j then Inl IndexErr else get_item py container (if i < 0 then OInt j else key))
      | (ODict d, _) \<Rightarrow>
          if \<not> hashable_obj py key then Inl TypeErr
          else if dict_item py d key = None then Inl KeyErr
          else get_item py container key
      | _ \<Rightarrow> get_item py container key)"

text \<open>\<^verbatim>\<open>func(*args, **kwargs)\<close>: a keyword of \<^verbatim>\<open>**d\<close> has no name and is rejected by Python.\<close>

definition apply_func :: "'o func \<Rightarrow> 'o obj list \<Rightarrow> (string option \<times> 'o obj) list \<Rightarrow> 'o result" where
  "apply_func f args kwargs =
     (if None \<in> fst ` set kwargs then Inl TypeErr else f args (map (\<lambda>(k, v). (the k, v)) kwargs))"

fun evaluate :: "'o python \<Rightarrow> 'o expr_eval \<Rightarrow> 'o expr \<Rightarrow> 'o result"
  and evaluate_all :: "'o python \<Rightarrow> 'o expr_eval \<Rightarrow> 'o expr list \<Rightarrow> eval_error + 'o obj list"
  and evaluate_keywords ::
    "'o python \<Rightarrow> 'o expr_eval \<Rightarrow> (string option \<times> 'o expr) list \<Rightarrow> (string option \<times> 'o obj) list \<Rightarrow>
     eval_error + (string option \<times> 'o obj) list" where
  "evaluate py ev (Constant v) = Inr v"
| "evaluate py ev (Name x) = visit_name ev x"
| "evaluate py ev (Call callee args keywords) =
     (case callee_name callee of
        None \<Rightarrow> Inl NameErr
      | Some name \<Rightarrow>
          (case dict_get (ev_functions ev) name of
             None \<Rightarrow> Inl NameErr
           | Some f \<Rightarrow>
               (case evaluate_all py ev args of
                  Inl err \<Rightarrow> Inl err
                | Inr xs \<Rightarrow>
                    (case evaluate_keywords py ev keywords [] of
                       Inl err \<Rightarrow> Inl err
                     | Inr kws \<Rightarrow> apply_func f xs kws))))"
| "evaluate py ev (Attribute e name) =
     (case evaluate py ev e of Inl err \<Rightarrow> Inl err | Inr v \<Rightarrow> get_attribute py v name)"
| "evaluate py ev (Subscript e i) =
     (case evaluate py ev e of
        Inl err \<Rightarrow> Inl err
      | Inr container \<Rightarrow> (case evaluate py ev i of Inl err \<Rightarrow> Inl err | Inr key \<Rightarrow> subscript py container key))"
| "evaluate py ev (UnaryOp op e) =
     (if op = OtherUnaryOp then Inl NameErr
      else case evaluate py ev e of Inl err \<Rightarrow> Inl err | Inr v \<Rightarrow> unary py op v)"
| "evaluate py ev (BinOp op l r) =
     (if op = OtherBinOp then Inl NameErr
      else case evaluate py ev l of
             Inl err \<Rightarrow> Inl err
           | Inr x \<Rightarrow> (case evaluate py ev r of Inl err \<Rightarrow> Inl err | Inr y \<Rightarrow> binary py op x y))"
| "evaluate py ev OtherNode = Inl TypeErr"
| "evaluate_all py ev [] = Inr []"
| "evaluate_all py ev (e # es) =
     (case evaluate py ev e of
        Inl err \<Rightarrow> Inl err
      | Inr v \<Rightarrow> (case evaluate_all py ev es of Inl err \<Rightarrow> Inl err | Inr vs \<Rightarrow> Inr (v # vs)))"
| "evaluate_keywords py ev [] acc = Inr acc"
| "evaluate_keywords py ev ((k, e) # ks) acc =
     (case evaluate py ev e of
        Inl err \<Rightarrow> Inl err
      | Inr v \<Rightarrow> evaluate_keywords py ev ks (dict_set k v acc))"

text \<open>\<^verbatim>\<open>__call__\<close> replaces the parameters of the last call.\<close>

definition call_expr :: "'o python \<Rightarrow> (string, 'o obj) dict \<Rightarrow> 'o expr_eval \<Rightarrow> 'o result \<times> 'o expr_eval" where
  "call_expr py params ev = (let ev' = ev\<lparr>ev_params := params\<rparr> in (evaluate py ev' (ev_expr ev'), ev'))"

definition evaluate_expression :: "'o python \<Rightarrow> string \<Rightarrow> (string, 'o obj) dict \<Rightarrow> 'o result option" where
  "evaluate_expression py expression params =
     map_option (\<lambda>ev. fst (call_expr py params ev)) (new_expr_eval py expression)"

section \<open>The context of a function\<close>

record 'o function_context =
  local_values :: "(string, 'o obj) dict option"
  return_value :: "'o obj"

definition new_context :: "'o function_context" where
  "new_context = \<lparr>local_values = None, return_value = ONone\<rparr>"

definition context_get :: "string \<Rightarrow> 'o obj \<Rightarrow> 'o function_context \<Rightarrow> 'o obj" where
  "context_get key dflt c =
     (case local_values c of
        None \<Rightarrow> dflt
      | Some d \<Rightarrow> (case dict_get d key of None \<Rightarrow> dflt | Some v \<Rightarrow> v))"

definition context_item :: "string \<Rightarrow> 'o function_context \<Rightarrow> 'o result" where
  "context_item key c =
     (case local_values c of
        None \<Rightarrow> Inl KeyErr
      | Some d \<Rightarrow> (case dict_get d key of None \<Rightarrow> Inl KeyErr | Some v \<Rightarrow> Inr v))"

definition context_contains :: "string \<Rightarrow> 'o function_context \<Rightarrow> bool" where
  "context_contains key c = (case local_values c of None \<Rightarrow> False | Some d \<Rightarrow> dict_has key d)"

end
