(* ===== verification/Metrics.thy ===== *)
theory Metrics
  imports Expr_Eval Handlers
begin

text \<open>
  Metrics: \<^verbatim>\<open>ms_service_metric/metrics/metrics_manager.py\<close>, the labels it takes from \<^verbatim>\<open>metrics/meta_state.py\<close>, and
  the handlers of \<^verbatim>\<open>handlers/builtin.py\<close>, which evaluate the configured expressions and record the values.

  The Prometheus client is the record \<open>client\<close> over a state \<open>'r\<close>: creating a metric object, and one call of
  \<^verbatim>\<open>metric.labels(**labels).observe(value)\<close> (or \<^verbatim>\<open>inc\<close>, \<^verbatim>\<open>set\<close>), which may raise. Names and label names are values
  of the configuration. The registry is chosen once and is part of the client.
\<close>

section \<open>Meta state\<close>

type_synonym 'o meta_state = "(string, 'o obj) dict"

definition meta_get :: "string \<Rightarrow> 'o obj \<Rightarrow> 'o meta_state \<Rightarrow> 'o obj" where
  "meta_get key dflt s = (case dict_get s key of None \<Rightarrow> dflt | Some v \<Rightarrow> v)"

definition meta_set :: "string \<Rightarrow> 'o obj \<Rightarrow> 'o meta_state \<Rightarrow> 'o meta_state" where
  "meta_set key v s = dict_set key v s"

definition meta_update :: "(string, 'o obj) dict \<Rightarrow> 'o meta_state \<Rightarrow> 'o meta_state" where
  "meta_update d s = fold (\<lambda>(k, v). dict_set k v) d s"

definition meta_remove :: "string \<Rightarrow> 'o meta_state \<Rightarrow> bool \<times> 'o meta_state" where
  "meta_remove key s = (if dict_has key s then (True, dict_del key s) else (False, s))"

definition dp_rank :: "'o meta_state \<Rightarrow> 'o obj" where
  "dp_rank s = meta_get ''dp_rank'' (OInt (- 1)) s"

section \<open>The manager\<close>

datatype metric_kind = Histogram | Counter | Gauge | Summary

datatype buckets = NoBuckets | Given yaml | TIMER_BUCKETS | CustomBuckets

datatype create_error = ValueErr | OtherCreateErr

type_synonym 'o labels = "(yaml \<times> 'o obj) list"

record ('r, 'o) client =
  create :: "metric_kind \<Rightarrow> string \<Rightarrow> yaml list \<Rightarrow> buckets \<Rightarrow> 'r \<Rightarrow> (create_error + nat) \<times> 'r"
  sample :: "nat \<Rightarrow> 'o labels \<Rightarrow> 'o obj \<Rightarrow> 'r \<Rightarrow> bool \<times> 'r"
  positive :: "'o obj \<Rightarrow> bool option"
  is_minus_one :: "'o \<Rightarrow> bool option"

text \<open>A metric object is its kind and its identity.\<close>

record 'r metrics_manager =
  mm_metrics :: "(string, metric_kind \<times> nat) dict"
  label_definitions :: "(string, (string \<times> string) list) dict"
  metric_prefix :: string
  registry :: 'r

definition new_metrics_manager :: "'r \<Rightarrow> 'r metrics_manager" where
  "new_metrics_manager r = \<lparr>mm_metrics = [], label_definitions = [], metric_prefix = [], registry = r\<rparr>"

definition add_prefix :: "'r metrics_manager \<Rightarrow> string \<Rightarrow> string" where
  "add_prefix m name = (if metric_prefix m \<noteq> [] then metric_prefix m @ ''_'' @ name else name)"

text \<open>\<^verbatim>\<open>c.isdigit()\<close> for the characters of the model: the ten digits and the three superscripts.\<close>

definition is_digit :: "char \<Rightarrow> bool" where
  "is_digit c \<longleftrightarrow> c \<in> set ''0123456789'' \<or> (of_char c :: nat) \<in> {178, 179, 185}"

definition sanitize_metric_name :: "string \<Rightarrow> string" where
  "sanitize_metric_name name =
     (let s = map (\<lambda>c. if c = CHR ''-'' then CHR ''_'' else c) name
      in if s \<noteq> [] \<and> is_digit (hd s) then ''fn_'' @ s else s)"

definition full_name :: "'r metrics_manager \<Rightarrow> string \<Rightarrow> string" where
  "full_name m name = add_prefix m (sanitize_metric_name name)"

definition add_missing :: "string \<Rightarrow> yaml list \<Rightarrow> yaml list" where
  "add_missing l names = (if YStr l \<in> set names then names else names @ [YStr l])"

definition add_dp_label_name :: "yaml list \<Rightarrow> yaml list" where
  "add_dp_label_name names = add_missing ''phase'' (add_missing ''role'' (add_missing ''dp'' names))"

text \<open>A comparison with -1 that raises counts as 0, as every exception here does.\<close>

definition normalize_dp :: "('r, 'o) client \<Rightarrow> 'o obj \<Rightarrow> 'o obj" where
  "normalize_dp c v =
     (case v of
        ONone \<Rightarrow> OInt 0
      | OInt n \<Rightarrow> if n = - 1 then OInt 0 else v
      | OOther x \<Rightarrow> (case is_minus_one c x of None \<Rightarrow> OInt 0 | Some True \<Rightarrow> OInt 0 | Some False \<Rightarrow> v)
      | _ \<Rightarrow> v)"

definition label_missing :: "string \<Rightarrow> 'o obj \<Rightarrow> 'o labels \<Rightarrow> 'o labels" where
  "label_missing l v labels = (if dict_has (YStr l) labels then labels else dict_set (YStr l) v labels)"

definition add_dp_label_value :: "('r, 'o) client \<Rightarrow> 'o meta_state \<Rightarrow> 'o labels \<Rightarrow> 'o labels" where
  "add_dp_label_value c meta labels =
     (let dp = (case dict_get labels (YStr ''dp'') of None \<Rightarrow> dp_rank meta | Some v \<Rightarrow> v);
          labels1 = dict_set (YStr ''dp'') (normalize_dp c dp) labels;
          labels2 = label_missing ''role'' (meta_get ''pd_role'' (meta_get ''role'' (OStr ''mixed'') meta) meta) labels1
      in label_missing ''phase'' (meta_get ''phase'' (OStr ''mixed'') meta) labels2)"

text \<open>The object of a configured type; an unknown type makes none.\<close>

definition metric_shape :: "string \<Rightarrow> yaml \<Rightarrow> (metric_kind \<times> buckets) option" where
  "metric_shape type given =
     (if type = ''timer'' then Some (Histogram, if truthy given then Given given else TIMER_BUCKETS)
      else if type = ''histogram'' then Some (Histogram, if truthy given then Given given else CustomBuckets)
      else if type = ''counter'' then Some (Counter, NoBuckets)
      else if type = ''gauge'' then Some (Gauge, NoBuckets)
      else if type = ''summary'' then Some (Summary, NoBuckets)
      else None)"

text \<open>\<^verbatim>\<open>register_metric\<close>: the result is the object, or \<open>Inl\<close> for an exception other than \<^verbatim>\<open>ValueError\<close>.\<close>

definition register_metric ::
  "('r, 'o) client \<Rightarrow> string \<Rightarrow> string \<Rightarrow> yaml \<Rightarrow> yaml list \<Rightarrow> 'r metrics_manager \<Rightarrow>
   (unit + (metric_kind \<times> nat) option) \<times> 'r metrics_manager" where
  "register_metric c name type given label_names m =
     (let full = full_name m name
      in case metric_shape type given of
           None \<Rightarrow> (Inr None, m)
         | Some (kind, bs) \<Rightarrow>
             (case create c kind full (add_dp_label_name label_names) bs (registry m) of
                (Inr i, r) \<Rightarrow> (Inr (Some (kind, i)), m\<lparr>registry := r, mm_metrics := dict_set full (kind, i) (mm_metrics m)\<rparr>)
              | (Inl ValueErr, r) \<Rightarrow> (Inr (dict_get (mm_metrics m) full), m\<lparr>registry := r\<rparr>)
              | (Inl OtherCreateErr, r) \<Rightarrow> (Inl (), m\<lparr>registry := r\<rparr>)))"

definition get_or_create_metric ::
  "('r, 'o) client \<Rightarrow> string \<Rightarrow> yaml list \<Rightarrow> string \<Rightarrow> yaml \<Rightarrow> 'r metrics_manager \<Rightarrow> (unit + unit) \<times> 'r metrics_manager" where
  "get_or_create_metric c name label_names type given m =
     (if dict_has (full_name m name) (mm_metrics m) then (Inr (), m)
      else case register_metric c name type given label_names m of
             (Inl e, m') \<Rightarrow> (Inl e, m')
           | (Inr _, m') \<Rightarrow> (Inr (), m'))"

definition add_label_definition :: "string \<Rightarrow> string \<Rightarrow> string \<Rightarrow> 'r metrics_manager \<Rightarrow> 'r metrics_manager" where
  "add_label_definition name label expr m =
     (let full = full_name m name;
          old = (case dict_get (label_definitions m) full of None \<Rightarrow> [] | Some ds \<Rightarrow> ds)
      in m\<lparr>label_definitions := dict_set full (old @ [(label, expr)]) (label_definitions m)\<rparr>)"

text \<open>\<^verbatim>\<open>record_metric\<close>: the flag tells whether a sample was recorded. It never raises.\<close>

definition record_metric ::
  "('r, 'o) client \<Rightarrow> 'o meta_state \<Rightarrow> string \<Rightarrow> 'o obj \<Rightarrow> 'o labels \<Rightarrow> 'r metrics_manager \<Rightarrow> bool \<times> 'r metrics_manager" where
  "record_metric c meta name value labels m =
     (let labels' = add_dp_label_value c meta labels
      in case dict_get (mm_metrics m) (full_name m name) of
           None \<Rightarrow> (False, m)
         | Some (kind, i) \<Rightarrow>
             (case (if kind = Counter then map_option (\<lambda>p. if p then value else OInt 1) (positive c value) else Some value) of
                None \<Rightarrow> (False, m)
              | Some v \<Rightarrow> (case sample c i labels' v (registry m) of (ok, r) \<Rightarrow> (ok, m\<lparr>registry := r\<rparr>))))"

definition clear_metrics :: "'r metrics_manager \<Rightarrow> 'r metrics_manager" where
  "clear_metrics m = m\<lparr>mm_metrics := [], label_definitions := []\<rparr>"

section \<open>Building the default handler\<close>

text \<open>\<^verbatim>\<open>_has_expr_key\<close>\<close>

definition has_expr_key :: "metric_config \<Rightarrow> bool" where
  "has_expr_key mc \<longleftrightarrow> truthy (mc_expr mc) \<or> mc_labels mc \<noteq> []"

text \<open>\<^verbatim>\<open>ExprEval(expr)\<close> of a configured value: \<^verbatim>\<open>ast.parse\<close> raises for anything but a string.\<close>

fun compile :: "'o python \<Rightarrow> yaml \<Rightarrow> 'o expr_eval option" where
  "compile py (YStr s) = new_expr_eval py s"
| "compile py _ = None"

definition compile_labels :: "'o python \<Rightarrow> (yaml \<times> yaml) list \<Rightarrow> (yaml \<times> 'o expr_eval) list" where
  "compile_labels py labels =
     List.map_filter (\<lambda>(name, expr). if truthy name \<and> truthy expr then map_option (\<lambda>ev. (name, ev)) (compile py expr) else None)
       labels"

record 'o handler_state =
  expr_evaluators :: "(string, 'o expr_eval) dict"
  label_evaluators :: "(string, (yaml \<times> 'o expr_eval) list) dict"

text \<open>
  One metric of \<^verbatim>\<open>default_handler\<close>. A name that is no string raises, at the latest when it is sanitized; what the
  evaluators hold for it is lost with the handler.
\<close>

definition prepare_metric ::
  "('r, 'o) client \<Rightarrow> 'o python \<Rightarrow> metric_config \<Rightarrow> 'o handler_state \<Rightarrow> 'r metrics_manager \<Rightarrow>
   ('o handler_state option) \<times> 'r metrics_manager" where
  "prepare_metric c py mc h m =
     (case mc_name mc of
        YStr name \<Rightarrow>
          (let h1 = (if truthy (mc_expr mc)
                     then (case compile py (mc_expr mc) of
                             None \<Rightarrow> h
                           | Some ev \<Rightarrow> h\<lparr>expr_evaluators := dict_set name ev (expr_evaluators h)\<rparr>)
                     else h);
               ls = compile_labels py (mc_labels mc);
               h2 = (if ls \<noteq> [] then h1\<lparr>label_evaluators := dict_set name ls (label_evaluators h1)\<rparr> else h1)
           in case get_or_create_metric c name (map fst ls) (mc_type mc) (mc_buckets mc) m of
                (Inl _, m') \<Rightarrow> (None, m')
              | (Inr _, m') \<Rightarrow> (Some h2, m'))
      | _ \<Rightarrow> (None, m))"

fun prepare_metrics ::
  "('r, 'o) client \<Rightarrow> 'o python \<Rightarrow> metric_config list \<Rightarrow> 'o handler_state \<Rightarrow> 'r metrics_manager \<Rightarrow>
   ('o handler_state option) \<times> 'r metrics_manager" where
  "prepare_metrics c py [] h m = (Some h, m)"
| "prepare_metrics c py (mc # mcs) h m =
     (case prepare_metric c py mc h m of
        (None, m') \<Rightarrow> (None, m')
      | (Some h', m') \<Rightarrow> prepare_metrics c py mcs h' m')"

record 'o default_handler =
  dh_metrics :: "metric_config list"
  dh_evaluators :: "'o handler_state"
  need_locals :: bool
  is_async :: bool

definition make_default_handler ::
  "('r, 'o) client \<Rightarrow> 'o python \<Rightarrow> metric_config list \<Rightarrow> bool \<Rightarrow> 'r metrics_manager \<Rightarrow>
   ('o default_handler option) \<times> 'r metrics_manager" where
  "make_default_handler c py metrics async m =
     (case prepare_metrics c py metrics \<lparr>expr_evaluators = [], label_evaluators = []\<rparr> m of
        (None, m') \<Rightarrow> (None, m')
      | (Some h, m') \<Rightarrow>
          (Some \<lparr>dh_metrics = metrics, dh_evaluators = h, need_locals = list_ex has_expr_key metrics, is_async = async\<rparr>, m'))"

section \<open>Calling it\<close>

definition name_of :: "metric_config \<Rightarrow> string" where
  "name_of mc = (case mc_name mc of YStr s \<Rightarrow> s | _ \<Rightarrow> [])"

type_synonym 'o scope = "(string, 'o obj) dict"

definition metric_value :: "'o python \<Rightarrow> 'o handler_state \<Rightarrow> 'o scope \<Rightarrow> metric_config \<Rightarrow> 'o obj" where
  "metric_value py h context mc =
     (if mc_type mc = ''timer'' then (case dict_get context ''duration'' of None \<Rightarrow> OInt 0 | Some d \<Rightarrow> d)
      else case dict_get (expr_evaluators h) (name_of mc) of
             None \<Rightarrow> OInt 1
           | Some ev \<Rightarrow> (case fst (call_expr py context ev) of Inl err \<Rightarrow> OInt 1 | Inr v \<Rightarrow> v))"

definition metric_labels :: "'o python \<Rightarrow> 'o handler_state \<Rightarrow> 'o scope \<Rightarrow> metric_config \<Rightarrow> 'o labels" where
  "metric_labels py h context mc =
     (case dict_get (label_evaluators h) (name_of mc) of
        None \<Rightarrow> []
      | Some ls \<Rightarrow>
          fold (\<lambda>(name, ev) labels.
                  case fst (call_expr py context ev) of Inl err \<Rightarrow> labels | Inr v \<Rightarrow> dict_set name v labels) ls [])"

text \<open>\<^verbatim>\<open>_record_metrics_common\<close>: the flags tell which samples were recorded.\<close>

fun record_metrics_common ::
  "('r, 'o) client \<Rightarrow> 'o python \<Rightarrow> 'o meta_state \<Rightarrow> 'o handler_state \<Rightarrow> 'o scope \<Rightarrow> metric_config list \<Rightarrow>
   'r metrics_manager \<Rightarrow> bool list \<times> 'r metrics_manager" where
  "record_metrics_common c py meta h context [] m = ([], m)"
| "record_metrics_common c py meta h context (mc # mcs) m =
     (case record_metric c meta (name_of mc) (metric_value py h context mc) (metric_labels py h context mc) m of
        (ok, m') \<Rightarrow> (case record_metrics_common c py meta h context mcs m' of (oks, m'') \<Rightarrow> (ok # oks, m'')))"

text \<open>The context of an evaluation: the local variables of the function replace entries of the same name.\<close>

definition eval_context :: "'o obj \<Rightarrow> 'o obj \<Rightarrow> (string, 'o obj) dict \<Rightarrow> 'o scope" where
  "eval_context duration result locs = fold (\<lambda>(k, v). dict_set k v) locs [(''duration'', duration), (''ret'', result)]"

text \<open>
  What a handler does after the function returned: \<^verbatim>\<open>default_timer_handler\<close> after its \<^verbatim>\<open>yield\<close> reads the locals of the
  context, and raises without any; the wrapping handlers, synchronous or not, see the result alone.
\<close>

definition handler_exit ::
  "('r, 'o) client \<Rightarrow> 'o python \<Rightarrow> 'o meta_state \<Rightarrow> 'o default_handler \<Rightarrow> 'o obj \<Rightarrow> 'o function_context \<Rightarrow>
   'r metrics_manager \<Rightarrow> (eval_error + bool list) \<times> 'r metrics_manager" where
  "handler_exit c py meta dh duration ctx m =
     (case (if need_locals dh then local_values ctx else Some []) of
        None \<Rightarrow> (Inl TypeErr, m)
      | Some locs \<Rightarrow>
          (case record_metrics_common c py meta (dh_evaluators dh) (eval_context duration (return_value ctx) locs) (dh_metrics dh) m of
             (oks, m') \<Rightarrow> (Inr oks, m')))"

end
