(* ===== verification/Metrics_Record.thy ===== *)
theory Metrics_Record
  imports Metrics
begin

text \<open>
  The default handler and the metrics it created: a sample is recorded exactly if its labels are those the metric
  was declared with, that is if every configured label has evaluated.
\<close>

section \<open>Labels\<close>

definition AUTO_LABELS :: "yaml set" where
  "AUTO_LABELS = {YStr ''dp'', YStr ''role'', YStr ''phase''}"

lemma declared_names: "set (add_dp_label_name ns) = set ns \<union> AUTO_LABELS"
  by (auto simp: add_dp_label_name_def add_missing_def AUTO_LABELS_def)

lemma keys_set [simp]: "fst ` set (dict_set k v d) = insert k (fst ` set d)"
  by (induction d) auto

lemma recorded_names: "fst ` set (add_dp_label_value c meta labels) = fst ` set labels \<union> AUTO_LABELS"
  by (auto simp: add_dp_label_value_def label_missing_def AUTO_LABELS_def Let_def dict_has_def)

definition label_value :: "'o python \<Rightarrow> 'o scope \<Rightarrow> 'o expr_eval \<Rightarrow> 'o obj option" where
  "label_value py context ev = (case fst (call_expr py context ev) of Inl err \<Rightarrow> None | Inr v \<Rightarrow> Some v)"

lemma evaluated_names:
  "fst ` set (fold (\<lambda>(name, ev) labels.
      case fst (call_expr py context ev) of Inl err \<Rightarrow> labels | Inr v \<Rightarrow> dict_set name v labels) ls labels) =
   fst ` set labels \<union> {name. \<exists>ev. (name, ev) \<in> set ls \<and> label_value py context ev \<noteq> None}"
proof (induction ls arbitrary: labels)
  case Nil
  then show ?case by simp
next
  case (Cons l ls)
  obtain name ev where l: "l = (name, ev)" by fastforce
  show ?case
  proof (cases "fst (call_expr py context ev)")
    case (Inl err)
    then show ?thesis using Cons[of labels] by (auto simp: l label_value_def)
  next
    case (Inr v)
    then show ?thesis using Cons[of "dict_set name v labels"]
      by (auto simp: l label_value_def)
  qed
qed

text \<open>All configured labels evaluate, those apart that the manager fills in itself.\<close>

definition labels_evaluate :: "'o python \<Rightarrow> 'o scope \<Rightarrow> metric_config \<Rightarrow> bool" where
  "labels_evaluate py context mc \<longleftrightarrow>
     (\<forall>(name, ev) \<in> set (compile_labels py (mc_labels mc)). name \<in> AUTO_LABELS \<or> label_value py context ev \<noteq> None)"

lemma compile_labels_simps [simp]:
  "compile_labels py [] = []"
  "compile_labels py ((name, expr) # ls) =
     (case if truthy name \<and> truthy expr then compile py expr else None of
        None \<Rightarrow> compile_labels py ls | Some ev \<Rightarrow> (name, ev) # compile_labels py ls)"
  by (auto simp: compile_labels_def List.map_filter_simps split: option.splits)

lemma compiled_name: "(n, ev) \<in> set (compile_labels py ls) \<Longrightarrow> n \<in> fst ` set ls"
  by (induction ls) (auto split: option.splits if_splits)

lemma compiled_distinct: "distinct (map fst ls) \<Longrightarrow> distinct (map fst (compile_labels py ls))"
proof (induction ls)
  case (Cons l ls)
  then show ?case using compiled_name[of _ _ py ls] by (cases l) (auto split: option.splits)
qed simp

text \<open>The evaluators that the handler keeps for a metric.\<close>

definition evaluators_ok :: "'o python \<Rightarrow> 'o handler_state \<Rightarrow> metric_config \<Rightarrow> bool" where
  "evaluators_ok py h mc \<longleftrightarrow>
     (let ls = compile_labels py (mc_labels mc)
      in dict_get (label_evaluators h) (name_of mc) = (if ls = [] then None else Some ls)) \<and>
     dict_get (expr_evaluators h) (name_of mc) = (if truthy (mc_expr mc) then compile py (mc_expr mc) else None)"

lemma labels_match:
  assumes "evaluators_ok py h mc" "distinct (map fst (mc_labels mc))"
  shows "fst ` set (add_dp_label_value c meta (metric_labels py h context mc)) =
      set (add_dp_label_name (map fst (compile_labels py (mc_labels mc)))) \<longleftrightarrow> labels_evaluate py context mc"
proof -
  let ?ls = "compile_labels py (mc_labels mc)"
  have "metric_labels py h context mc = fold (\<lambda>(name, ev) labels.
      case fst (call_expr py context ev) of Inl err \<Rightarrow> labels | Inr v \<Rightarrow> dict_set name v labels) ?ls []"
    using assms(1) by (cases "?ls = []") (auto simp: evaluators_ok_def metric_labels_def Let_def)
  then have keys: "fst ` set (metric_labels py h context mc) =
      {name. \<exists>ev. (name, ev) \<in> set ?ls \<and> label_value py context ev \<noteq> None}"
    using evaluated_names[of py "context" ?ls "[]"] by simp
  have unique: "ev = ev'" if "(name, ev) \<in> set ?ls" "(name, ev') \<in> set ?ls" for name ev ev'
    using that compiled_distinct[OF assms(2)] by (metis map_of_eq_Some_iff option.inject)
  show ?thesis unfolding recorded_names declared_names keys set_map
  proof
    assume eq: "{name. \<exists>ev. (name, ev) \<in> set ?ls \<and> label_value py context ev \<noteq> None} \<union> AUTO_LABELS =
        fst ` set ?ls \<union> AUTO_LABELS"
    have "name \<in> AUTO_LABELS \<or> label_value py context ev \<noteq> None" if l: "(name, ev) \<in> set ?ls" for name ev
    proof -
      have "name \<in> fst ` set ?ls" using l by force
      then have "name \<in> AUTO_LABELS \<or> (\<exists>ev'. (name, ev') \<in> set ?ls \<and> label_value py context ev' \<noteq> None)" using eq by blast
      then show ?thesis using unique[OF l] by metis
    qed
    then show "labels_evaluate py context mc" by (auto simp: labels_evaluate_def)
  next
    assume "labels_evaluate py context mc"
    then show "{name. \<exists>ev. (name, ev) \<in> set ?ls \<and> label_value py context ev \<noteq> None} \<union> AUTO_LABELS =
        fst ` set ?ls \<union> AUTO_LABELS"
      unfolding labels_evaluate_def by force
  qed
qed

section \<open>The Prometheus client\<close>

text \<open>
  What the documentation of the client promises: an object is declared with its label names when it is created, and a
  call with labels adds one sample if the names are the declared ones and the value is a number; otherwise it
  raises and changes nothing.
\<close>

definition client_ok ::
  "('r, 'o) client \<Rightarrow> ('r \<Rightarrow> nat \<Rightarrow> yaml list option) \<Rightarrow> ('r \<Rightarrow> nat \<Rightarrow> ('o labels \<times> 'o obj) list) \<Rightarrow> ('o obj \<Rightarrow> bool) \<Rightarrow> bool" where
  "client_ok c declared samples numeric \<longleftrightarrow>
     (\<forall>kind name ls bs r i r'. create c kind name ls bs r = (Inr i, r') \<longrightarrow>
        declared r i = None \<and> declared r' = (declared r)(i \<mapsto> ls)) \<and>
     (\<forall>kind name ls bs r e r'. create c kind name ls bs r = (Inl e, r') \<longrightarrow> declared r' = declared r) \<and>
     (\<forall>i ls labels v r ok r'. declared r i = Some ls \<longrightarrow> sample c i labels v r = (ok, r') \<longrightarrow>
        (ok \<longleftrightarrow> fst ` set labels = set ls \<and> numeric v) \<and> declared r' = declared r \<and>
        samples r' = (if ok then (samples r)(i := samples r i @ [(labels, v)]) else samples r))"

lemma client_create:
  "client_ok c declared samples numeric \<Longrightarrow> create c kind name ls bs r = (Inr i, r') \<Longrightarrow>
   declared r i = None \<and> declared r' = (declared r)(i \<mapsto> ls)"
  unfolding client_ok_def by metis

lemma client_create_fails:
  "client_ok c declared samples numeric \<Longrightarrow> create c kind name ls bs r = (Inl e, r') \<Longrightarrow> declared r' = declared r"
  unfolding client_ok_def by metis

lemma client_sample:
  "client_ok c declared samples numeric \<Longrightarrow> declared r i = Some ls \<Longrightarrow> sample c i labels v r = (ok, r') \<Longrightarrow>
   (ok \<longleftrightarrow> fst ` set labels = set ls \<and> numeric v) \<and> declared r' = declared r \<and>
   samples r' = (if ok then (samples r)(i := samples r i @ [(labels, v)]) else samples r)"
  unfolding client_ok_def by metis

section \<open>Building\<close>

text \<open>The object of a metric, and that it is declared with the labels of the metric.\<close>

definition object_of :: "'r metrics_manager \<Rightarrow> metric_config \<Rightarrow> nat option" where
  "object_of m mc = map_option snd (dict_get (mm_metrics m) (full_name m (name_of mc)))"

definition declared_for :: "('r \<Rightarrow> nat \<Rightarrow> yaml list option) \<Rightarrow> 'o python \<Rightarrow> 'r metrics_manager \<Rightarrow> metric_config \<Rightarrow> bool" where
  "declared_for declared py m mc \<longleftrightarrow>
     (\<exists>kind bs i. metric_shape (mc_type mc) (mc_buckets mc) = Some (kind, bs) \<and>
        dict_get (mm_metrics m) (full_name m (name_of mc)) = Some (kind, i) \<and>
        declared (registry m) i = Some (add_dp_label_name (map fst (compile_labels py (mc_labels mc)))))"

lemma full_name_prefix: "metric_prefix m' = metric_prefix m \<Longrightarrow> full_name m' n = full_name m n"
  by (simp add: full_name_def add_prefix_def)

text \<open>Registering: nothing, a failed attempt, or a new object.\<close>

lemma register_cases:
  assumes "register_metric c name type given ls m = (r, m')"
  obtains (none) "m' = m"
    | (failed) kind bs e reg where "create c kind (full_name m name) (add_dp_label_name ls) bs (registry m) = (Inl e, reg)"
      "m' = m\<lparr>registry := reg\<rparr>"
    | (made) kind bs i reg where "metric_shape type given = Some (kind, bs)"
      "create c kind (full_name m name) (add_dp_label_name ls) bs (registry m) = (Inr i, reg)"
      "m' = m\<lparr>registry := reg, mm_metrics := dict_set (full_name m name) (kind, i) (mm_metrics m)\<rparr>"
proof (cases "metric_shape type given")
  case None
  then show ?thesis using assms none by (simp add: register_metric_def)
next
  case (Some shape)
  obtain kind bs where shape: "shape = (kind, bs)" by fastforce
  obtain o' reg where run: "create c kind (full_name m name) (add_dp_label_name ls) bs (registry m) = (o', reg)" by fastforce
  show ?thesis
  proof (cases o')
    case (Inl e)
    have "m' = m\<lparr>registry := reg\<rparr>" using assms Some shape run Inl by (cases e) (simp_all add: register_metric_def)
    then show ?thesis using failed run Inl by blast
  next
    case (Inr i)
    have "m' = m\<lparr>registry := reg, mm_metrics := dict_set (full_name m name) (kind, i) (mm_metrics m)\<rparr>"
      using assms Some shape run Inr by (simp add: register_metric_def Let_def)
    then show ?thesis using made Some shape run Inr by blast
  qed
qed

lemma prepare_runs:
  assumes run: "prepare_metric c py mc h m = (Some h', m')" and fresh: "\<not> dict_has (full_name m (name_of mc)) (mm_metrics m)"
  obtains r where "register_metric c (name_of mc) (mc_type mc) (mc_buckets mc) (map fst (compile_labels py (mc_labels mc))) m = (r, m')"
    "h' = (let ls = compile_labels py (mc_labels mc);
               h1 = (if truthy (mc_expr mc)
                     then (case compile py (mc_expr mc) of
                             None \<Rightarrow> h | Some ev \<Rightarrow> h\<lparr>expr_evaluators := dict_set (name_of mc) ev (expr_evaluators h)\<rparr>)
                     else h)
           in if ls \<noteq> [] then h1\<lparr>label_evaluators := dict_set (name_of mc) ls (label_evaluators h1)\<rparr> else h1)"
proof -
  obtain name where name: "mc_name mc = YStr name" using run by (auto simp: prepare_metric_def split: yaml.splits)
  then have n: "name_of mc = name" by (simp add: name_of_def)
  obtain r m1 where reg: "register_metric c name (mc_type mc) (mc_buckets mc) (map fst (compile_labels py (mc_labels mc))) m = (r, m1)"
    by fastforce
  have get: "get_or_create_metric c name (map fst (compile_labels py (mc_labels mc))) (mc_type mc) (mc_buckets mc) m =
      (case r of Inl e \<Rightarrow> (Inl e, m1) | Inr _ \<Rightarrow> (Inr (), m1))"
    using fresh reg n by (simp add: get_or_create_metric_def split: sum.splits)
  show ?thesis
  proof (cases r)
    case (Inl e)
    then show ?thesis using run get name by (simp add: prepare_metric_def Let_def)
  next
    case (Inr v)
    then show ?thesis using run get name reg n by (intro that[of r]) (auto simp: prepare_metric_def Let_def)
  qed
qed

text \<open>What the preparation of one metric changes, and what it leaves.\<close>

definition evaluators_keep :: "string \<Rightarrow> 'o handler_state \<Rightarrow> 'o handler_state \<Rightarrow> bool" where
  "evaluators_keep n h h' \<longleftrightarrow> dict_get (label_evaluators h') n = dict_get (label_evaluators h) n \<and>
     dict_get (expr_evaluators h') n = dict_get (expr_evaluators h) n"

lemma prepare_evaluators:
  assumes "prepare_metric c py mc h m = (Some h', m')" "\<not> dict_has (full_name m (name_of mc)) (mm_metrics m)"
  shows "n \<noteq> name_of mc \<Longrightarrow> evaluators_keep n h h'"
    and "dict_get (label_evaluators h) (name_of mc) = None \<Longrightarrow> dict_get (expr_evaluators h) (name_of mc) = None \<Longrightarrow>
      evaluators_ok py h' mc"
  by (rule prepare_runs[OF assms]; simp add: evaluators_keep_def evaluators_ok_def Let_def split: option.splits)+

lemma prepare_manager:
  assumes c: "client_ok c declared samples numeric" and run: "prepare_metric c py mc h m = (Some h', m')"
    and fresh: "\<not> dict_has (full_name m (name_of mc)) (mm_metrics m)"
  shows "metric_prefix m' = metric_prefix m"
    and "n \<noteq> full_name m (name_of mc) \<Longrightarrow> dict_get (mm_metrics m') n = dict_get (mm_metrics m) n"
    and "declared (registry m) i = Some ls \<Longrightarrow> declared (registry m') i = Some ls"
    and "dict_has (full_name m (name_of mc)) (mm_metrics m') \<Longrightarrow>
      declared_for declared py m' mc \<and> (\<exists>i. object_of m' mc = Some i \<and> declared (registry m) i = None)"
proof -
  obtain r where "register_metric c (name_of mc) (mc_type mc) (mc_buckets mc) (map fst (compile_labels py (mc_labels mc))) m = (r, m')"
    by (rule prepare_runs[OF run fresh])
  then have "metric_prefix m' = metric_prefix m \<and>
    (\<forall>n. n \<noteq> full_name m (name_of mc) \<longrightarrow> dict_get (mm_metrics m') n = dict_get (mm_metrics m) n) \<and>
    (\<forall>i ls. declared (registry m) i = Some ls \<longrightarrow> declared (registry m') i = Some ls) \<and>
    (dict_has (full_name m (name_of mc)) (mm_metrics m') \<longrightarrow>
      declared_for declared py m' mc \<and> (\<exists>i. object_of m' mc = Some i \<and> declared (registry m) i = None))"
  proof (cases rule: register_cases)
    case none
    then show ?thesis using fresh by simp
  next
    case (failed kind bs e reg)
    then show ?thesis using fresh client_create_fails[OF c failed(1)] by simp
  next
    case (made kind bs i reg)
    have new: "declared (registry m) i = None" "declared reg = (declared (registry m))
        (i \<mapsto> add_dp_label_name (map fst (compile_labels py (mc_labels mc))))"
      using client_create[OF c made(2)] by simp_all
    have full: "full_name m' n = full_name m n" for n by (rule full_name_prefix) (simp add: made(3))
    have "declared_for declared py m' mc" unfolding declared_for_def full using made(1,3) new(2) by simp
    moreover have "object_of m' mc = Some i" unfolding object_of_def full using made(3) by simp
    moreover have "i' \<noteq> i" if "declared (registry m) i' = Some ls" for i' ls using that new(1) by auto
    ultimately show ?thesis using made(3) new by (auto simp del: not_None_eq)
  qed
  then show "metric_prefix m' = metric_prefix m"
    and "n \<noteq> full_name m (name_of mc) \<Longrightarrow> dict_get (mm_metrics m') n = dict_get (mm_metrics m) n"
    and "declared (registry m) i = Some ls \<Longrightarrow> declared (registry m') i = Some ls"
    and "dict_has (full_name m (name_of mc)) (mm_metrics m') \<Longrightarrow>
      declared_for declared py m' mc \<and> (\<exists>i. object_of m' mc = Some i \<and> declared (registry m) i = None)"
    by blast+
qed

end
