(* ===== verification/Expr_Types.thy ===== *)
theory Expr_Types
  imports Expr_Eval
begin

text \<open>
  Types of expressions over integers, strings, lists and dictionaries. A typed expression never raises for a name, a type
  or an operator; the errors that are left are those of its data: a division by zero, an index out of range, a
  missing key.
\<close>

section \<open>Typing\<close>

datatype ty = TInt | TStr | TList ty | TDict ty

fun has_type :: "'o obj \<Rightarrow> ty \<Rightarrow> bool" where
  "has_type (OInt n) TInt = True"
| "has_type (OStr s) TStr = True"
| "has_type (OList xs) (TList t) = list_all (\<lambda>x. has_type x t) xs"
| "has_type (ODict d) (TDict t) = list_all (\<lambda>(k, v). has_type k TStr \<and> has_type v t) d"
| "has_type _ _ = False"

definition INT_FUNCTIONS :: "string set" where
  "INT_FUNCTIONS = {''abs'', ''int'', ''round'', ''ceil'', ''floor''}"

text \<open>\<open>G\<close> gives the types of the parameters.\<close>

inductive typed :: "(string \<Rightarrow> ty option) \<Rightarrow> 'o expr \<Rightarrow> ty \<Rightarrow> bool" for G where
  int: "typed G (Constant (OInt n)) TInt"
| str: "typed G (Constant (OStr s)) TStr"
| name: "G x = Some t \<Longrightarrow> typed G (Name x) t"
| arith: "op \<in> {Add, Sub, Mult, FloorDiv, Mod} \<Longrightarrow> typed G l TInt \<Longrightarrow> typed G r TInt \<Longrightarrow> typed G (BinOp op l r) TInt"
| concat_str: "typed G l TStr \<Longrightarrow> typed G r TStr \<Longrightarrow> typed G (BinOp Add l r) TStr"
| concat_list: "typed G l (TList t) \<Longrightarrow> typed G r (TList t) \<Longrightarrow> typed G (BinOp Add l r) (TList t)"
| sign: "op \<noteq> OtherUnaryOp \<Longrightarrow> typed G e TInt \<Longrightarrow> typed G (UnaryOp op e) TInt"
| func1: "callee_name callee = Some f \<Longrightarrow> f \<in> INT_FUNCTIONS \<Longrightarrow> typed G e TInt \<Longrightarrow> typed G (Call callee [e] []) TInt"
| len: "callee_name callee = Some ''len'' \<Longrightarrow> typed G e t \<Longrightarrow> t \<noteq> TInt \<Longrightarrow> typed G (Call callee [e] []) TInt"
| extremum: "callee_name callee = Some f \<Longrightarrow> f \<in> {''max'', ''min''} \<Longrightarrow> 2 \<le> length es \<Longrightarrow>
    (\<And>e. e \<in> set es \<Longrightarrow> typed G e TInt) \<Longrightarrow> typed G (Call callee es []) TInt"
| item: "typed G e (TList t) \<Longrightarrow> typed G i TInt \<Longrightarrow> typed G (Subscript e i) t"
| char: "typed G e TStr \<Longrightarrow> typed G i TInt \<Longrightarrow> typed G (Subscript e i) TStr"
| entry: "typed G e (TDict t) \<Longrightarrow> typed G i TStr \<Longrightarrow> typed G (Subscript e i) t"

definition data_error :: "eval_error \<Rightarrow> bool" where
  "data_error err \<longleftrightarrow> err \<in> {ZeroDivErr, IndexErr, KeyErr}"

definition sound :: "'o result \<Rightarrow> ty \<Rightarrow> bool" where
  "sound r t \<longleftrightarrow> (case r of Inl err \<Rightarrow> data_error err | Inr v \<Rightarrow> has_type v t)"

lemma sound_simps [simp]: "sound (Inl err) t = data_error err" "sound (Inr v) t = has_type v t"
  by (simp_all add: sound_def)

lemma sound_bind:
  assumes "sound r t" "\<And>x. has_type x t \<Longrightarrow> sound (f x) t'"
  shows "sound (case r of Inl err \<Rightarrow> Inl err | Inr x \<Rightarrow> f x) t'"
  using assms by (cases r) simp_all

lemma data_errors [simp]: "data_error ZeroDivErr" "data_error IndexErr" "data_error KeyErr"
  by (simp_all add: data_error_def)

section \<open>Values of a type\<close>

lemma has_type_cases:
  "has_type v TInt \<longleftrightarrow> (\<exists>n. v = OInt n)" "has_type v TStr \<longleftrightarrow> (\<exists>s. v = OStr s)"
  "has_type v (TList t) \<longleftrightarrow> (\<exists>xs. v = OList xs \<and> (\<forall>x \<in> set xs. has_type x t))"
  "has_type v (TDict t) \<longleftrightarrow> (\<exists>d. v = ODict d \<and> (\<forall>(k, x) \<in> set d. has_type k TStr \<and> has_type x t))"
  by (cases v; simp add: list_all_iff)+

lemma at_index_in: "at_index xs i = Some x \<Longrightarrow> x \<in> set xs"
  by (auto simp: at_index_def Let_def split: if_splits)

lemma at_index_normalized:
  assumes "\<not> (j < 0 \<or> int (length xs) \<le> j)" "j = (if i < 0 then int (length xs) + i else i)"
  shows "at_index xs j = Some (xs ! nat j)" "at_index xs i = Some (xs ! nat j)"
  using assms by (auto simp: at_index_def Let_def)

text \<open>The bounds check and the normalization of \<^verbatim>\<open>_visit_subscript\<close> change nothing: it is Python's own subscript.\<close>

lemma subscript_is_item: "subscript py container key = get_item py container key"
proof (cases container)
  case (OList xs)
  show ?thesis
  proof (cases "int_of key")
    case (Some i)
    define j where "j = (if i < 0 then int (length xs) + i else i)"
    show ?thesis
    proof (cases "j < 0 \<or> int (length xs) \<le> j")
      case True
      then have "at_index xs i = None" by (auto simp: at_index_def j_def Let_def split: if_splits)
      then show ?thesis using OList Some True by (simp add: subscript_def get_item_def flip: j_def)
    next
      case False
      from at_index_normalized[OF this j_def] show ?thesis
        using OList Some False by (simp add: subscript_def get_item_def flip: j_def)
    qed
  qed (simp add: OList subscript_def)
qed (simp_all add: subscript_def get_item_def split: option.splits)

section \<open>Operations on values of a type\<close>

lemma binary_sound:
  "op \<in> {Add, Sub, Mult, FloorDiv, Mod} \<Longrightarrow> has_type x TInt \<Longrightarrow> has_type y TInt \<Longrightarrow> sound (binary py op x y) TInt"
  "has_type x TStr \<Longrightarrow> has_type y TStr \<Longrightarrow> sound (binary py Add x y) TStr"
  "has_type x (TList t) \<Longrightarrow> has_type y (TList t) \<Longrightarrow> sound (binary py Add x y) (TList t)"
  by (auto simp: has_type_cases binary_def int_binary_def)

lemma unary_sound: "op \<noteq> OtherUnaryOp \<Longrightarrow> has_type x TInt \<Longrightarrow> sound (unary py op x) TInt"
  by (cases op) (auto simp: has_type_cases unary_def)

lemma item_sound:
  "has_type x (TList t) \<Longrightarrow> has_type i TInt \<Longrightarrow> sound (get_item py x i) t"
  "has_type x TStr \<Longrightarrow> has_type i TInt \<Longrightarrow> sound (get_item py x i) TStr"
  by (auto simp: has_type_cases get_item_def dest!: at_index_in split: option.splits)

lemma entry_sound:
  assumes "has_type x (TDict t)" "has_type i TStr"
  shows "sound (get_item py x i) t"
proof -
  obtain d s where d: "x = ODict d" "\<forall>(k, v) \<in> set d. has_type k TStr \<and> has_type v t" "i = OStr s"
    using assms by (auto simp: has_type_cases)
  have "has_type v t" if v: "dict_item py d i = Some v" for v
  proof -
    obtain k where "find (\<lambda>(k, v). obj_equal py k i) d = Some (k, v)" using v by (auto simp: dict_item_def)
    then have "(k, v) \<in> set d" by (metis find_Some_iff nth_mem)
    then show ?thesis using d(2) by blast
  qed
  then show ?thesis using d by (auto simp: get_item_def split: option.splits)
qed

lemma ints_of_typed: "\<forall>v \<in> set vs. has_type v TInt \<Longrightarrow> \<exists>ns. ints_of vs = Some ns \<and> length ns = length vs"
  by (induction vs) (auto simp: ints_of_def has_type_cases)

lemma builtin_sound:
  "f \<in> INT_FUNCTIONS \<Longrightarrow> has_type v TInt \<Longrightarrow> sound (call_builtin py f [v] []) TInt"
  "has_type v t \<Longrightarrow> t \<noteq> TInt \<Longrightarrow> sound (call_builtin py ''len'' [v] []) TInt"
  by (auto simp: has_type_cases call_builtin_def INT_FUNCTIONS_def ints_of_def) (cases t; auto simp: has_type_cases)

lemma extremum_sound:
  assumes f: "f \<in> {''max'', ''min''}" and vs: "\<forall>v \<in> set vs. has_type v TInt" "2 \<le> length vs"
  shows "sound (call_builtin py f vs []) TInt"
proof -
  obtain m n ns where "ints_of vs = Some (m # n # ns)"
    using ints_of_typed[OF vs(1)] vs(2) by (metis Suc_le_length_iff numeral_2_eq_2)
  then show ?thesis using f by (auto simp: call_builtin_def)
qed

section \<open>Soundness\<close>

text \<open>The parameters have the types of \<open>G\<close> and the functions of the table have not been replaced.\<close>

definition fits :: "'o python \<Rightarrow> (string \<Rightarrow> ty option) \<Rightarrow> 'o expr_eval \<Rightarrow> bool" where
  "fits py G ev \<longleftrightarrow>
     (\<forall>x t. G x = Some t \<longrightarrow> (\<exists>v. dict_get (ev_params ev) x = Some v \<and> has_type v t)) \<and>
     (\<forall>f \<in> INT_FUNCTIONS \<union> {''len'', ''max'', ''min''}. dict_get (ev_functions ev) f = Some (call_builtin py f))"

lemma evaluate_all_sound:
  assumes "\<And>e. e \<in> set es \<Longrightarrow> sound (evaluate py ev e) t"
  shows "(\<exists>err. evaluate_all py ev es = Inl err \<and> data_error err) \<or>
    (\<exists>vs. evaluate_all py ev es = Inr vs \<and> length vs = length es \<and> (\<forall>v \<in> set vs. has_type v t))"
  using assms
proof (induction es)
  case (Cons e es)
  have "sound (evaluate py ev e) t" using Cons.prems by simp
  then show ?case using Cons by (cases "evaluate py ev e") auto
qed simp

lemma call_sound:
  assumes "callee_name callee = Some f" "dict_get (ev_functions ev) f = Some (call_builtin py f)"
    and "\<And>e. e \<in> set es \<Longrightarrow> sound (evaluate py ev e) t"
    and "\<And>vs. length vs = length es \<Longrightarrow> \<forall>v \<in> set vs. has_type v t \<Longrightarrow> sound (call_builtin py f vs []) t'"
  shows "sound (evaluate py ev (Call callee es [])) t'"
  using evaluate_all_sound[where es = es, OF assms(3)] assms(1,2,4) by (fastforce simp: apply_func_def)

lemma typed_sound: "typed G e t \<Longrightarrow> fits py G ev \<Longrightarrow> sound (evaluate py ev e) t"
proof (induction rule: typed.induct)
  case (name x t)
  then obtain v where "dict_get (ev_params ev) x = Some v" "has_type v t" unfolding fits_def by blast
  then show ?case by (simp add: visit_name_def)
next
  case (arith op l r)
  then have "op \<noteq> OtherBinOp" by auto
  then show ?case using arith binary_sound(1)[OF arith.hyps(1)] by (auto intro!: sound_bind)
next
  case (concat_str l r)
  then show ?case using binary_sound(2) by (auto intro!: sound_bind)
next
  case (concat_list l t r)
  then show ?case using binary_sound(3) by (auto intro!: sound_bind)
next
  case (sign op e)
  then show ?case using unary_sound[OF sign.hyps(1)] by (auto intro!: sound_bind)
next
  case (func1 callee f e)
  then have "dict_get (ev_functions ev) f = Some (call_builtin py f)" by (simp add: fits_def)
  then show ?case using func1 builtin_sound(1)[OF func1.hyps(2)]
    by (intro call_sound[of callee f]) (auto simp: length_Suc_conv)
next
  case (len callee e t)
  then have "dict_get (ev_functions ev) ''len'' = Some (call_builtin py ''len'')" by (simp add: fits_def)
  then show ?case using len builtin_sound(2)
    by (intro call_sound[of callee "''len''"]) (auto simp: length_Suc_conv)
next
  case (extremum callee f es)
  then have fn: "dict_get (ev_functions ev) f = Some (call_builtin py f)" by (auto simp: fits_def)
  show ?case
  proof (rule call_sound[OF extremum.hyps(1) fn])
    show "sound (evaluate py ev e) TInt" if "e \<in> set es" for e using extremum that by blast
    show "sound (call_builtin py f vs []) TInt" if "length vs = length es" "\<forall>v \<in> set vs. has_type v TInt" for vs
      using extremum_sound[OF extremum.hyps(2) that(2)] that(1) extremum.hyps(3) by simp
  qed
next
  case (item e t i)
  then show ?case using item_sound(1) by (auto intro!: sound_bind simp: subscript_is_item)
next
  case (char e i)
  then show ?case using item_sound(2) by (auto intro!: sound_bind simp: subscript_is_item)
next
  case (entry e t i)
  then show ?case using entry_sound by (auto intro!: sound_bind simp: subscript_is_item)
qed simp_all

lemma fresh_table:
  "f \<in> INT_FUNCTIONS \<union> {''len'', ''max'', ''min''} \<Longrightarrow> dict_get (FUNCTION py) f = Some (call_builtin py f)"
  by (auto simp: FUNCTION_def FUNCTION_NAMES_def INT_FUNCTIONS_def)

text \<open>
  Property C24. An expression that is typed for its parameters evaluates to a value of its type, or raises one of the
  three errors its data can cause: it never raises for an unknown name or function, an unsupported node or
  operator, or an operand of the wrong type.
\<close>

theorem typed_expression_safe:
  assumes "parse py expression = Some e" "typed G e t"
    and "\<forall>x t. G x = Some t \<longrightarrow> (\<exists>v. dict_get params x = Some v \<and> has_type v t)"
  shows "\<exists>r. evaluate_expression py expression params = Some r \<and>
    (case r of Inr v \<Rightarrow> has_type v t | Inl err \<Rightarrow> err \<in> {ZeroDivErr, IndexErr, KeyErr})"
proof -
  let ?ev = "\<lparr>ev_params = params, ev_functions = FUNCTION py, ev_expr = e\<rparr>"
  have "fits py G ?ev" using assms(3) fresh_table by (auto simp: fits_def)
  from typed_sound[OF assms(2) this] show ?thesis using assms(1)
    by (simp add: evaluate_expression_def new_expr_eval_def call_expr_def Let_def sound_def data_error_def split: sum.splits)
qed

definition example_python :: "unit python" where
  "example_python = \<lparr>other_binary = (\<lambda>op x y. Inl Raised), other_unary = (\<lambda>op x. Inl Raised), get_attribute = (\<lambda>x a. Inl Raised),
     other_item = (\<lambda>x i. Inl Raised), other_call = (\<lambda>f xs ks. Inl Raised), other_equal = (\<lambda>x y. False),
     other_hashable = (\<lambda>x. True),
     parse = (\<lambda>s. if s = ''ret[0] // max(n, 1)''
                  then Some (BinOp FloorDiv (Subscript (Name ''ret'') (Constant (OInt 0)))
                               (Call (CName ''max'') [Name ''n'', Constant (OInt 1)] [])) else None)\<rparr>"

theorem typed_expression_safe_witness:
  "\<exists>r. evaluate_expression example_python ''ret[0] // max(n, 1)'' [(''n'', OInt 4), (''ret'', OList [OInt 9])] = Some r \<and>
    (case r of Inr v \<Rightarrow> has_type v TInt | Inl err \<Rightarrow> err \<in> {ZeroDivErr, IndexErr, KeyErr})"
proof (rule typed_expression_safe[where G = "[''n'' \<mapsto> TInt, ''ret'' \<mapsto> TList TInt]"])
  show "parse example_python ''ret[0] // max(n, 1)'' =
      Some (BinOp FloorDiv (Subscript (Name ''ret'') (Constant (OInt 0))) (Call (CName ''max'') [Name ''n'', Constant (OInt 1)] []))"
    by (simp add: example_python_def)
  show "typed [''n'' \<mapsto> TInt, ''ret'' \<mapsto> TList TInt]
      (BinOp FloorDiv (Subscript (Name ''ret'') (Constant (OInt 0))) (Call (CName ''max'') [Name ''n'', Constant (OInt 1)] [])) TInt"
    by (auto intro!: typed.arith typed.item[where t = TInt] typed.extremum[where f = "''max''"] typed.name typed.int)
qed (auto split: if_splits)

lemma example_value: "evaluate_expression example_python ''ret[0] // max(n, 1)'' [(''n'', OInt 4), (''ret'', OList [OInt 9])] = Some (Inr (OInt 2))"
  by code_simp

end
