(* ===== verification/Metrics_Props.thy ===== *)
theory Metrics_Props
  imports Metrics_Record Expr_Types
begin

text \<open>The whole default handler: what its samples are, and two ways in which they are wrong or lost.\<close>

section \<open>Building\<close>

definition built_ok :: "('r \<Rightarrow> nat \<Rightarrow> yaml list option) \<Rightarrow> 'o python \<Rightarrow> 'o handler_state \<Rightarrow> 'r metrics_manager \<Rightarrow> metric_config \<Rightarrow> bool" where
  "built_ok declared py h m mc \<longleftrightarrow> evaluators_ok py h mc \<and> declared_for declared py m mc"

lemma built_ok_mono:
  assumes "built_ok declared py h m mc" "metric_prefix m' = metric_prefix m" "evaluators_keep (name_of mc) h h'"
    and "dict_get (mm_metrics m') (full_name m (name_of mc)) = dict_get (mm_metrics m) (full_name m (name_of mc))"
    and "\<And>i ls. declared (registry m) i = Some ls \<Longrightarrow> declared (registry m') i = Some ls"
  shows "built_ok declared py h' m' mc" "object_of m' mc = object_of m mc"
  using assms unfolding built_ok_def evaluators_ok_def evaluators_keep_def declared_for_def object_of_def
  by (auto simp: full_name_prefix[OF assms(2)] Let_def)

lemma prepare_all:
  assumes c: "client_ok c declared samples numeric"
    and run: "prepare_metrics c py mcs h m = (Some h', m')"
    and names: "distinct (map (full_name m \<circ> name_of) mcs)"
    and fresh: "\<forall>mc \<in> set mcs. \<not> dict_has (full_name m (name_of mc)) (mm_metrics m)"
      "\<forall>mc \<in> set mcs. dict_get (label_evaluators h) (name_of mc) = None \<and> dict_get (expr_evaluators h) (name_of mc) = None"
    and made: "\<forall>mc \<in> set mcs. dict_has (full_name m (name_of mc)) (mm_metrics m')"
  shows "metric_prefix m' = metric_prefix m \<and>
    (\<forall>n. n \<notin> full_name m ` name_of ` set mcs \<longrightarrow> dict_get (mm_metrics m') n = dict_get (mm_metrics m) n) \<and>
    (\<forall>i ls. declared (registry m) i = Some ls \<longrightarrow> declared (registry m') i = Some ls) \<and>
    (\<forall>n. n \<notin> name_of ` set mcs \<longrightarrow> evaluators_keep n h h') \<and>
    (\<forall>mc \<in> set mcs. built_ok declared py h' m' mc \<and> (\<exists>i. object_of m' mc = Some i \<and> declared (registry m) i = None)) \<and>
    distinct (map (object_of m') mcs)"
  using run names fresh made
proof (induction mcs arbitrary: h m)
  case Nil
  then show ?case by (simp add: evaluators_keep_def)
next
  case (Cons mc mcs)
  obtain h1 m1 where one: "prepare_metric c py mc h m = (Some h1, m1)" and rest: "prepare_metrics c py mcs h1 m1 = (Some h', m')"
    using Cons.prems(1) by (auto split: prod.splits option.splits)
  have fr: "\<not> dict_has (full_name m (name_of mc)) (mm_metrics m)" using Cons.prems(3) by simp
  note man = prepare_manager[OF c one fr] and evs = prepare_evaluators[OF one fr]
  have full: "full_name m1 n = full_name m n" for n by (rule full_name_prefix[OF man(1)])
  have other: "full_name m (name_of mc') \<noteq> full_name m (name_of mc)" "name_of mc' \<noteq> name_of mc" if "mc' \<in> set mcs" for mc'
    using Cons.prems(2) that by (auto simp: image_iff)
  have IH: "metric_prefix m' = metric_prefix m1 \<and>
    (\<forall>n. n \<notin> full_name m1 ` name_of ` set mcs \<longrightarrow> dict_get (mm_metrics m') n = dict_get (mm_metrics m1) n) \<and>
    (\<forall>i ls. declared (registry m1) i = Some ls \<longrightarrow> declared (registry m') i = Some ls) \<and>
    (\<forall>n. n \<notin> name_of ` set mcs \<longrightarrow> evaluators_keep n h1 h') \<and>
    (\<forall>mc \<in> set mcs. built_ok declared py h' m' mc \<and> (\<exists>i. object_of m' mc = Some i \<and> declared (registry m1) i = None)) \<and>
    distinct (map (object_of m') mcs)"
  proof (rule Cons.IH[OF rest])
    show "distinct (map (full_name m1 \<circ> name_of) mcs)" using Cons.prems(2) by (simp add: comp_def full)
    show "\<forall>mc \<in> set mcs. \<not> dict_has (full_name m1 (name_of mc)) (mm_metrics m1)"
      using Cons.prems(3) man(2) other by (simp add: full dict_has_iff del: not_None_eq)
    show "\<forall>mc \<in> set mcs. dict_get (label_evaluators h1) (name_of mc) = None \<and> dict_get (expr_evaluators h1) (name_of mc) = None"
      using Cons.prems(4) evs(1) other by (simp add: evaluators_keep_def)
    show "\<forall>mc \<in> set mcs. dict_has (full_name m1 (name_of mc)) (mm_metrics m')" using Cons.prems(5) by (simp add: full)
  qed
  have notin: "full_name m (name_of mc) \<notin> full_name m1 ` name_of ` set mcs" "name_of mc \<notin> name_of ` set mcs"
    using other by (auto simp: full image_iff) metis+
  have same: "dict_get (mm_metrics m') (full_name m (name_of mc)) = dict_get (mm_metrics m1) (full_name m (name_of mc))"
    using IH notin by blast
  then have "dict_has (full_name m (name_of mc)) (mm_metrics m1)" using Cons.prems(5) by (simp add: dict_has_iff del: not_None_eq)
  then obtain i where decl: "declared_for declared py m1 mc" and i: "object_of m1 mc = Some i" "declared (registry m) i = None"
    using man(4) by blast
  have built1: "built_ok declared py h1 m1 mc" using decl evs(2) Cons.prems(4) by (simp add: built_ok_def)
  have keep: "evaluators_keep (name_of mc) h1 h'" using IH notin by blast
  have same1: "dict_get (mm_metrics m') (full_name m1 (name_of mc)) = dict_get (mm_metrics m1) (full_name m1 (name_of mc))"
    using same by (simp add: full)
  have later: "built_ok declared py h' m' mc" "object_of m' mc = object_of m1 mc"
    using built_ok_mono[OF built1 _ keep same1] IH by auto
  obtain ls where "declared (registry m1) i = Some ls" using decl i(1) by (auto simp: declared_for_def object_of_def)
  then have "object_of m' mc \<notin> set (map (object_of m') mcs)" using IH later(2) i(1) by (auto simp: image_iff)
  moreover have "\<exists>j. object_of m' mc' = Some j \<and> declared (registry m) j = None" if mem: "mc' \<in> set mcs" for mc'
  proof -
    obtain j where j: "object_of m' mc' = Some j" "declared (registry m1) j = None" using IH mem by blast
    then have "declared (registry m) j = None" using man(3) by (metis not_None_eq option.distinct(1))
    then show ?thesis using j by blast
  qed
  moreover have "evaluators_keep n h h'" if "n \<notin> name_of ` set (mc # mcs)" for n
    using that evs(1)[of n] IH by (simp add: evaluators_keep_def)
  moreover have "dict_get (mm_metrics m') n = dict_get (mm_metrics m) n" if "n \<notin> full_name m ` name_of ` set (mc # mcs)" for n
    using that man(2)[of n] IH by (simp add: full)
  ultimately show ?case using IH man(1,3) later i by simp
qed

section \<open>Recording\<close>

definition recorded_value :: "('r, 'o) client \<Rightarrow> metric_config \<Rightarrow> 'o obj \<Rightarrow> 'o obj option" where
  "recorded_value c mc v =
     (case metric_shape (mc_type mc) (mc_buckets mc) of
        Some (Counter, _) \<Rightarrow> map_option (\<lambda>p. if p then v else OInt 1) (positive c v)
      | _ \<Rightarrow> Some v)"

definition value_accepted :: "('r, 'o) client \<Rightarrow> ('o obj \<Rightarrow> bool) \<Rightarrow> metric_config \<Rightarrow> 'o obj \<Rightarrow> bool" where
  "value_accepted c numeric mc v \<longleftrightarrow> (case recorded_value c mc v of None \<Rightarrow> False | Some x \<Rightarrow> numeric x)"

text \<open>A sample of one metric: the labels with those of the manager, and the value.\<close>

definition sample_of ::
  "('r, 'o) client \<Rightarrow> 'o python \<Rightarrow> 'o meta_state \<Rightarrow> 'o handler_state \<Rightarrow> 'o scope \<Rightarrow> metric_config \<Rightarrow> 'o labels \<times> 'o obj" where
  "sample_of c py meta h context mc =
     (add_dp_label_value c meta (metric_labels py h context mc), the (recorded_value c mc (metric_value py h context mc)))"

definition recorded :: "('r, 'o) client \<Rightarrow> ('o obj \<Rightarrow> bool) \<Rightarrow> 'o python \<Rightarrow> 'o handler_state \<Rightarrow> 'o scope \<Rightarrow> metric_config \<Rightarrow> bool" where
  "recorded c numeric py h context mc \<longleftrightarrow>
     labels_evaluate py context mc \<and> value_accepted c numeric mc (metric_value py h context mc)"

lemma record_one:
  assumes c: "client_ok c declared samples numeric" and b: "built_ok declared py h m mc" and d: "distinct (map fst (mc_labels mc))"
    and i: "object_of m mc = Some i"
    and run: "record_metric c meta (name_of mc) (metric_value py h context mc) (metric_labels py h context mc) m = (ok, m')"
  shows "(ok \<longleftrightarrow> recorded c numeric py h context mc) \<and> mm_metrics m' = mm_metrics m \<and> metric_prefix m' = metric_prefix m \<and>
    declared (registry m') = declared (registry m) \<and>
    samples (registry m') = (if ok then (samples (registry m))(i := samples (registry m) i @ [sample_of c py meta h context mc])
      else samples (registry m))"
proof -
  let ?labels = "add_dp_label_value c meta (metric_labels py h context mc)"
  let ?v = "metric_value py h context mc"
  obtain kind bs where kind: "metric_shape (mc_type mc) (mc_buckets mc) = Some (kind, bs)"
    "dict_get (mm_metrics m) (full_name m (name_of mc)) = Some (kind, i)"
    and decl: "declared (registry m) i = Some (add_dp_label_name (map fst (compile_labels py (mc_labels mc))))"
    using b i by (auto simp: built_ok_def declared_for_def object_of_def)
  have val: "(if kind = Counter then map_option (\<lambda>p. if p then ?v else OInt 1) (positive c ?v) else Some ?v) = recorded_value c mc ?v"
    using kind(1) by (cases kind) (simp_all add: recorded_value_def)
  show ?thesis
  proof (cases "recorded_value c mc ?v")
    case None
    then have "(ok, m') = (False, m)" using run kind(2) val by (simp add: record_metric_def Let_def)
    then show ?thesis using None by (simp add: recorded_def value_accepted_def)
  next
    case (Some x)
    obtain ok' r where s: "sample c i ?labels x (registry m) = (ok', r)" by fastforce
    then have "(ok, m') = (ok', m\<lparr>registry := r\<rparr>)" using run kind(2) val Some by (simp add: record_metric_def Let_def)
    moreover have "ok' \<longleftrightarrow> recorded c numeric py h context mc"
      using client_sample[OF c decl s] labels_match[of py h mc c meta "context"] b d Some
      by (simp add: recorded_def value_accepted_def built_ok_def)
    ultimately show ?thesis using client_sample[OF c decl s] Some by (simp add: sample_of_def)
  qed
qed

lemma record_all:
  assumes c: "client_ok c declared samples numeric" and b: "\<forall>mc \<in> set mcs. built_ok declared py h m mc"
    and d: "\<forall>mc \<in> set mcs. distinct (map fst (mc_labels mc))" and u: "distinct (map (object_of m) mcs)"
    and run: "record_metrics_common c py meta h context mcs m = (oks, m')"
  shows "oks = map (recorded c numeric py h context) mcs \<and>
    (\<forall>i. (\<forall>mc \<in> set mcs. object_of m mc \<noteq> Some i) \<longrightarrow> samples (registry m') i = samples (registry m) i) \<and>
    (\<forall>mc \<in> set mcs. \<forall>i. object_of m mc = Some i \<longrightarrow> samples (registry m') i = samples (registry m) i @
       (if recorded c numeric py h context mc then [sample_of c py meta h context mc] else []))"
  using b d u run
proof (induction mcs arbitrary: m oks)
  case Nil
  then show ?case by simp
next
  case (Cons mc mcs)
  obtain ok m1 where one: "record_metric c meta (name_of mc) (metric_value py h context mc) (metric_labels py h context mc) m = (ok, m1)"
    by fastforce
  obtain oks' where rest: "record_metrics_common c py meta h context mcs m1 = (oks', m')" and oks: "oks = ok # oks'"
    using Cons.prems(4) one by (auto split: prod.splits)
  obtain i where i: "object_of m mc = Some i" using Cons.prems(1) by (auto simp: built_ok_def declared_for_def object_of_def)
  have step: "(ok \<longleftrightarrow> recorded c numeric py h context mc) \<and> mm_metrics m1 = mm_metrics m \<and> metric_prefix m1 = metric_prefix m \<and>
    declared (registry m1) = declared (registry m) \<and>
    samples (registry m1) = (if ok then (samples (registry m))(i := samples (registry m) i @ [sample_of c py meta h context mc])
      else samples (registry m))"
    using Cons.prems by (intro record_one[OF c _ _ i one]) simp_all
  have obj: "object_of m1 mc' = object_of m mc'" for mc'
    using step by (simp add: object_of_def full_name_prefix[of m1 m])
  have "oks' = map (recorded c numeric py h context) mcs \<and>
    (\<forall>i. (\<forall>mc \<in> set mcs. object_of m1 mc \<noteq> Some i) \<longrightarrow> samples (registry m') i = samples (registry m1) i) \<and>
    (\<forall>mc \<in> set mcs. \<forall>i. object_of m1 mc = Some i \<longrightarrow> samples (registry m') i = samples (registry m1) i @
       (if recorded c numeric py h context mc then [sample_of c py meta h context mc] else []))"
  proof (rule Cons.IH[OF _ _ _ rest])
    show "\<forall>mc \<in> set mcs. built_ok declared py h m1 mc"
      using Cons.prems(1) step by (auto simp: built_ok_def declared_for_def full_name_prefix[of m1 m])
  qed (use Cons.prems in \<open>simp_all add: obj\<close>)
  note IH = this
  have other: "i' \<noteq> i" if "mc' \<in> set mcs" "object_of m mc' = Some i'" for mc' i'
    using Cons.prems(3) i that by (auto simp: image_iff)
  have "\<forall>mc' \<in> set mcs. object_of m mc' \<noteq> Some i" using other by blast
  then have own: "samples (registry m') i = samples (registry m1) i" using IH by (simp add: obj)
  have others: "samples (registry m') i' = samples (registry m) i' @
      (if recorded c numeric py h context mc' then [sample_of c py meta h context mc'] else [])"
    if "mc' \<in> set mcs" "object_of m mc' = Some i'" for mc' i'
    using IH that other[OF that] step by (simp add: obj)
  have frame: "samples (registry m') i' = samples (registry m) i'" if "\<forall>mc' \<in> set (mc # mcs). object_of m mc' \<noteq> Some i'" for i'
    using IH that i step by (auto simp: obj)
  show ?case using IH step oks own others frame i by auto
qed

section \<open>Properties\<close>

text \<open>
  A local variable with the name \<open>duration\<close> replaces the measured time, so a timer records the variable.
\<close>

lemma timer_reads_local:
  assumes "dict_ok locs" "dict_get locs ''duration'' = Some v" "mc_type mc = ''timer''"
  shows "metric_value py h (eval_context d r locs) mc = v"
proof -
  have "dict_get (fold (\<lambda>(k, v). dict_set k v) locs init) k = (case dict_get locs k of None \<Rightarrow> dict_get init k | Some v \<Rightarrow> Some v)"
    if "dict_ok locs" for locs :: "(string, 'a obj) dict" and init k
    using that
  proof (induction locs arbitrary: init)
    case (Cons l ls)
    obtain a b where l: "l = (a, b)" by fastforce
    have "dict_get ls a = None" using Cons.prems by (simp add: l map_of_eq_None_iff)
    moreover have "dict_get (fold (\<lambda>(k, v). dict_set k v) ls (dict_set a b init)) k =
        (case dict_get ls k of None \<Rightarrow> dict_get (dict_set a b init) k | Some v \<Rightarrow> Some v)"
      using Cons.prems by (intro Cons.IH) simp
    ultimately show ?case by (cases "k = a") (simp_all add: l split: option.split)
  qed simp
  then show ?thesis using assms by (simp add: metric_value_def eval_context_def)
qed

text \<open>
  Property C25. For metrics with distinct names and distinct labels that the default handler created itself, a call of the handler records
  exactly one sample of a metric if every label expression evaluates (those for dp, role and phase, which have
  defaults, may fail) and the value is accepted as a number, and none otherwise. The expressions see the duration and the result
  of the call, both hidden by local variables of these names. The value of the sample is that of the expression, 1 when there is none or
  it raises, and for a timer what \<^verbatim>\<open>duration\<close> means there; a counter records 1 instead of a value that is not
  positive, and nothing if the comparison with 0 raises. The labels are those evaluated, with the rank, role and phase of the
  process for dp, role and phase where these were not; a dp of None or -1, or one that cannot be compared, becomes 0.
\<close>

theorem samples_of_handler:
  assumes c: "client_ok c declared samples numeric" and build: "make_default_handler c py mcs async m = (Some dh, m1)"
    and names: "distinct (map (full_name m \<circ> name_of) mcs)" "\<forall>mc \<in> set mcs. distinct (map fst (mc_labels mc))"
    and new: "\<forall>mc \<in> set mcs. \<not> dict_has (full_name m (name_of mc)) (mm_metrics m)"
      "\<forall>mc \<in> set mcs. dict_has (full_name m (name_of mc)) (mm_metrics m1)"
    and call: "handler_exit c py meta dh d ctx m1 = (Inr oks, m2)" "(if need_locals dh then local_values ctx else Some []) = Some locs"
  shows "oks = map (recorded c numeric py (dh_evaluators dh) (eval_context d (return_value ctx) locs)) mcs \<and>
    (\<forall>mc \<in> set mcs. \<exists>i. object_of m1 mc = Some i \<and>
       samples (registry m2) i = samples (registry m1) i @
         (if recorded c numeric py (dh_evaluators dh) (eval_context d (return_value ctx) locs) mc
          then [sample_of c py meta (dh_evaluators dh) (eval_context d (return_value ctx) locs) mc] else []))"
proof -
  obtain h where prep: "prepare_metrics c py mcs \<lparr>expr_evaluators = [], label_evaluators = []\<rparr> m = (Some h, m1)"
    and dh: "dh_evaluators dh = h" "dh_metrics dh = mcs"
    using build by (auto simp: make_default_handler_def split: prod.splits option.splits)
  have built: "(\<forall>mc \<in> set mcs. built_ok declared py h m1 mc \<and> (\<exists>i. object_of m1 mc = Some i \<and> declared (registry m) i = None)) \<and>
      distinct (map (object_of m1) mcs)"
    using prepare_all[OF c prep names(1) new(1) _ new(2)] by simp
  have run: "record_metrics_common c py meta h (eval_context d (return_value ctx) locs) mcs m1 = (oks, m2)"
    using call dh by (auto simp: handler_exit_def split: prod.splits)
  show ?thesis
    using record_all[OF c _ names(2) _ run] built unfolding dh by fastforce
qed

section \<open>An example\<close>

type_synonym test_registry = "(yaml list \<times> (unit labels \<times> unit obj) list) list"

definition test_client :: "(test_registry, unit) client" where
  "test_client = \<lparr>create = (\<lambda>kind name ls bs r. (Inr (length r), r @ [(ls, [])])),
     sample = (\<lambda>i labels v r.
       if i < length r \<and> fst ` set labels = set (fst (r ! i)) \<and> int_of v \<noteq> None
       then (True, r[i := (fst (r ! i), snd (r ! i) @ [(labels, v)])]) else (False, r)),
     positive = (\<lambda>v. map_option (\<lambda>n. 0 < n) (int_of v)), is_minus_one = (\<lambda>x. None)\<rparr>"

definition test_declared :: "test_registry \<Rightarrow> nat \<Rightarrow> yaml list option" where
  "test_declared r i = (if i < length r then Some (fst (r ! i)) else None)"

definition test_samples :: "test_registry \<Rightarrow> nat \<Rightarrow> (unit labels \<times> unit obj) list" where
  "test_samples r i = (if i < length r then snd (r ! i) else [])"

lemma test_client_ok: "client_ok test_client test_declared test_samples (\<lambda>v. int_of v \<noteq> None)"
  unfolding client_ok_def
  by (auto simp: test_client_def test_declared_def test_samples_def fun_eq_iff nth_append nth_list_update split: if_splits)

definition label_python :: "unit python" where
  "label_python = example_python\<lparr>parse := (\<lambda>s. Some (if s = ''len(ret)'' then Call (CName ''len'') [Name ''ret''] [] else Name s))\<rparr>"

definition example_metrics :: "metric_config list" where
  "example_metrics = [new_metric_config (YStr ''2-calls'') ''counter'' (YStr '''') YNull [(YStr ''size'', YStr ''len(ret)'')],
     new_metric_config (YStr ''items'') ''gauge'' (YStr ''len(ret)'') YNull [(YStr ''who'', YStr ''user'')]]"

definition example_ctx :: "unit function_context" where
  "example_ctx = \<lparr>local_values = Some [(''k'', OInt 3)], return_value = OStr ''abc''\<rparr>"

definition example_built :: "unit default_handler option \<times> test_registry metrics_manager" where
  "example_built = make_default_handler test_client label_python example_metrics False (new_metrics_manager [])"

definition example_call :: "(eval_error + bool list) \<times> test_registry metrics_manager" where
  "example_call = handler_exit test_client label_python [] (the (fst example_built)) (OInt 5) example_ctx (snd example_built)"

text \<open>The first metric is recorded, with its label; the second one is not, as there is no variable \<open>user\<close>.\<close>

lemma example_runs:
  "fst example_call = Inr [True, False]"
  "map (\<lambda>(ls, ss). map snd ss) (registry (snd example_call)) = [[OInt 1], []]"
  by code_simp+

theorem samples_of_handler_witness:
  "map (recorded test_client (\<lambda>v. int_of v \<noteq> None) label_python (dh_evaluators (the (fst example_built)))
      (eval_context (OInt 5) (return_value example_ctx) [(''k'', OInt 3)])) example_metrics = [True, False]"
proof -
  let ?dh = "the (fst example_built)" and ?m = "new_metrics_manager [] :: test_registry metrics_manager"
  have "fst example_built \<noteq> None" by code_simp
  then have build: "make_default_handler test_client label_python example_metrics False ?m = (Some ?dh, snd example_built)"
    by (simp add: example_built_def prod_eq_iff)
  have names: "distinct (map (full_name ?m \<circ> name_of) example_metrics)" "\<forall>mc \<in> set example_metrics. distinct (map fst (mc_labels mc))"
    by code_simp+
  have new: "\<forall>mc \<in> set example_metrics. \<not> dict_has (full_name ?m (name_of mc)) (mm_metrics ?m)"
    "\<forall>mc \<in> set example_metrics. dict_has (full_name ?m (name_of mc)) (mm_metrics (snd example_built))"
    by code_simp+
  have call: "handler_exit test_client label_python [] ?dh (OInt 5) example_ctx (snd example_built) = (Inr [True, False], snd example_call)"
    using example_runs(1) by (simp add: example_call_def prod_eq_iff)
  have locs: "(if need_locals ?dh then local_values example_ctx else Some []) = Some [(''k'', OInt 3)]" by code_simp
  from samples_of_handler[OF test_client_ok build names new call locs] show ?thesis by simp
qed

end
