(* ===== verification/Opt_Field.thy ===== *)
theory Opt_Field
  imports Expr_Eval
begin

text \<open>
  The fields of the parameter optimizer: \<^verbatim>\<open>ms_serviceparam_optimizer/config/config.py\<close>, from \<open>OptimizerConfigField\<close> to
  \<open>resolve_priority\<close>.

  Values are Python objects as in \<open>Expr_Eval\<close>; the other objects \<open>OOther\<close> are the floats here. Integer arithmetic and
  comparison are written out. What Python does with a float, and what it parses or prints, is the record \<open>numbers\<close>. A raise
  is an \<open>Inl\<close>. A \<open>dtype_param\<close> that is no string, list or dictionary is \<open>OtherParam\<close>.
\<close>

section \<open>Steps that may raise\<close>

definition bind_sum :: "'e + 'a \<Rightarrow> ('a \<Rightarrow> 'e + 'b) \<Rightarrow> 'e + 'b" where
  "bind_sum r f = (case r of Inl e \<Rightarrow> Inl e | Inr x \<Rightarrow> f x)"

lemma bind_sum_simps [simp]: "bind_sum (Inl e) f = Inl e" "bind_sum (Inr x) f = f x"
  by (simp_all add: bind_sum_def)

lemma bind_sum_Inr: "bind_sum r f = Inr y \<longleftrightarrow> (\<exists>x. r = Inr x \<and> f x = Inr y)"
  by (cases r) simp_all

lemma bind_sum_cong [fundef_cong]: "r = r' \<Longrightarrow> (\<And>x. r' = Inr x \<Longrightarrow> f x = f' x) \<Longrightarrow> bind_sum r f = bind_sum r' f'"
  by (cases r') simp_all

fun map_sum_list :: "('a \<Rightarrow> 'e + 'b) \<Rightarrow> 'a list \<Rightarrow> 'e + 'b list" where
  "map_sum_list f [] = Inr []"
| "map_sum_list f (x # xs) = bind_sum (f x) (\<lambda>y. bind_sum (map_sum_list f xs) (\<lambda>ys. Inr (y # ys)))"

fun fold_sum :: "('a \<Rightarrow> 'b \<Rightarrow> 'e + 'b) \<Rightarrow> 'a list \<Rightarrow> 'b \<Rightarrow> 'e + 'b" where
  "fold_sum f [] b = Inr b"
| "fold_sum f (x # xs) b = bind_sum (f x b) (fold_sum f xs)"

lemma map_sum_list_Inr: "(\<And>x. x \<in> set xs \<Longrightarrow> f x = Inr (g x)) \<Longrightarrow> map_sum_list f xs = Inr (map g xs)"
  by (induction xs) simp_all

section \<open>Numbers\<close>

datatype perr = PyErr eval_error | BadValue | TooLarge | NoAttribute

record 'o numbers =
  py :: "'o python"
  float_literal :: "int \<Rightarrow> nat \<Rightarrow> 'o"
  other_truthy :: "'o \<Rightarrow> bool"
  other_less :: "'o obj \<Rightarrow> 'o obj \<Rightarrow> bool"
  other_less_eq :: "'o obj \<Rightarrow> 'o obj \<Rightarrow> bool"
  trunc_float :: "'o \<Rightarrow> perr + int"
  parse_int :: "string \<Rightarrow> perr + int"
  float_of_int :: "int \<Rightarrow> perr + 'o"
  parse_float :: "string \<Rightarrow> perr + 'o"
  show_obj :: "'o obj \<Rightarrow> string"
  isclose :: "'o obj \<Rightarrow> 'o obj \<Rightarrow> bool"
  isclose_5 :: "'o obj \<Rightarrow> 'o obj \<Rightarrow> bool"
  other_isinf :: "'o \<Rightarrow> bool"
  other_isnan :: "'o \<Rightarrow> bool"
  linspace :: "'o obj \<Rightarrow> 'o obj \<Rightarrow> nat \<Rightarrow> 'o list"

text \<open>\<^verbatim>\<open>isinstance(x, (int, float))\<close>\<close>

fun is_number :: "'o obj \<Rightarrow> bool" where
  "is_number (OInt n) = True"
| "is_number (OBool b) = True"
| "is_number (OOther x) = True"
| "is_number _ = False"

fun truthy_obj :: "'o numbers \<Rightarrow> 'o obj \<Rightarrow> bool" where
  "truthy_obj nm ONone = False"
| "truthy_obj nm (OBool b) = b"
| "truthy_obj nm (OInt n) = (n \<noteq> 0)"
| "truthy_obj nm (OStr s) = (s \<noteq> [])"
| "truthy_obj nm (OList xs) = (xs \<noteq> [])"
| "truthy_obj nm (ODict d) = (d \<noteq> [])"
| "truthy_obj nm (OOther x) = other_truthy nm x"

definition py_eq :: "'o numbers \<Rightarrow> 'o obj \<Rightarrow> 'o obj \<Rightarrow> bool" where
  "py_eq nm x y = obj_equal (py nm) x y"

definition mem :: "'o numbers \<Rightarrow> 'o obj \<Rightarrow> 'o obj list \<Rightarrow> bool" where
  "mem nm x xs = list_ex (\<lambda>y. py_eq nm y x) xs"

definition py_binary :: "'o numbers \<Rightarrow> binop \<Rightarrow> 'o obj \<Rightarrow> 'o obj \<Rightarrow> perr + 'o obj" where
  "py_binary nm op x y = (case binary (py nm) op x y of Inl e \<Rightarrow> Inl (PyErr e) | Inr v \<Rightarrow> Inr v)"

text \<open>Comparisons: numbers with numbers, strings with strings; everything else raises.\<close>

definition compare_with ::
  "(int \<Rightarrow> int \<Rightarrow> bool) \<Rightarrow> ('o obj \<Rightarrow> 'o obj \<Rightarrow> bool) \<Rightarrow> 'o obj \<Rightarrow> 'o obj \<Rightarrow> perr + bool" where
  "compare_with f g x y =
     (case (int_of x, int_of y) of
        (Some m, Some n) \<Rightarrow> Inr (f m n)
      | _ \<Rightarrow>
          (case (x, y) of
             (OStr s, OStr t) \<Rightarrow> Inr (g x y)
           | _ \<Rightarrow> if is_number x \<and> is_number y then Inr (g x y) else Inl (PyErr TypeErr)))"

definition py_less :: "'o numbers \<Rightarrow> 'o obj \<Rightarrow> 'o obj \<Rightarrow> perr + bool" where
  "py_less nm = compare_with (<) (other_less nm)"

definition py_less_eq :: "'o numbers \<Rightarrow> 'o obj \<Rightarrow> 'o obj \<Rightarrow> perr + bool" where
  "py_less_eq nm = compare_with (\<le>) (other_less_eq nm)"

fun py_int :: "'o numbers \<Rightarrow> 'o obj \<Rightarrow> perr + int" where
  "py_int nm (OInt n) = Inr n"
| "py_int nm (OBool b) = Inr (if b then 1 else 0)"
| "py_int nm (OOther x) = trunc_float nm x"
| "py_int nm (OStr s) = parse_int nm s"
| "py_int nm _ = Inl (PyErr TypeErr)"

fun py_float :: "'o numbers \<Rightarrow> 'o obj \<Rightarrow> perr + 'o" where
  "py_float nm (OInt n) = float_of_int nm n"
| "py_float nm (OBool b) = float_of_int nm (if b then 1 else 0)"
| "py_float nm (OOther x) = Inr x"
| "py_float nm (OStr s) = parse_float nm s"
| "py_float nm _ = Inl (PyErr TypeErr)"

fun py_str :: "'o numbers \<Rightarrow> 'o obj \<Rightarrow> string" where
  "py_str nm (OStr s) = s"
| "py_str nm x = show_obj nm x"

text \<open>\<^verbatim>\<open>isinf\<close> and \<^verbatim>\<open>isnan\<close> convert an integer to a float and raise for a string.\<close>

fun float_test :: "'o numbers \<Rightarrow> ('o \<Rightarrow> bool) \<Rightarrow> 'o obj \<Rightarrow> perr + bool" where
  "float_test nm test (OOther x) = Inr (test x)"
| "float_test nm test (OInt n) = bind_sum (float_of_int nm n) (\<lambda>x. Inr (test x))"
| "float_test nm test (OBool b) = Inr False"
| "float_test nm test _ = Inl (PyErr TypeErr)"

text \<open>\<^verbatim>\<open>dtype_func\<close>, and its lookup with a default conversion.\<close>

definition to_int :: "'o numbers \<Rightarrow> 'o obj \<Rightarrow> perr + 'o obj" where
  "to_int nm x = bind_sum (py_int nm x) (\<lambda>n. Inr (OInt n))"

definition to_float :: "'o numbers \<Rightarrow> 'o obj \<Rightarrow> perr + 'o obj" where
  "to_float nm x = bind_sum (py_float nm x) (\<lambda>f. Inr (OOther f))"

definition dtype_func :: "'o numbers \<Rightarrow> string \<Rightarrow> ('o obj \<Rightarrow> perr + 'o obj) option" where
  "dtype_func nm dtype =
     (if dtype = ''int'' then Some (to_int nm)
      else if dtype = ''float'' then Some (to_float nm)
      else if dtype = ''str'' then Some (\<lambda>x. Inr (OStr (py_str nm x)))
      else None)"

definition conv_float :: "'o numbers \<Rightarrow> string \<Rightarrow> 'o obj \<Rightarrow> perr + 'o obj" where
  "conv_float nm dtype = (case dtype_func nm dtype of None \<Rightarrow> to_float nm | Some f \<Rightarrow> f)"

definition conv_int :: "'o numbers \<Rightarrow> string \<Rightarrow> 'o obj \<Rightarrow> perr + 'o obj" where
  "conv_int nm dtype = (case dtype_func nm dtype of None \<Rightarrow> to_int nm | Some f \<Rightarrow> f)"

section \<open>Fields\<close>

text \<open>The dictionary of a derived field: the keys the code reads. An absent key is \<open>None\<close>.\<close>

record 'o options =
  target_name :: "string option"
  target_names :: "string list option"
  product :: "'o obj option"
  result_dtype :: "string option"
  min_value :: "'o obj option"
  max_value :: "'o obj option"
  priority_policy :: "string option"
  priority :: "string list option"

datatype 'o param = NoParam | Target string | Values "'o obj list" | Options "'o options" | OtherParam "'o obj"

record 'o field =
  fname :: string
  config_position :: string
  fmin :: "'o obj"
  fmax :: "'o obj"
  dtype :: string
  fvalue :: "'o obj"
  dtype_param :: "'o param"
  fconstant :: "'o obj"

text \<open>\<^verbatim>\<open>update_constant\<close>, the validator that runs when a field is built.\<close>

definition update_constant :: "'o numbers \<Rightarrow> 'o field \<Rightarrow> perr + 'o field" where
  "update_constant nm f =
     bind_sum (py_less nm (fmax f) (fmin f)) (\<lambda>reversed.
       if reversed then Inl BadValue
       else if truthy_obj nm (fconstant f) \<and> \<not> isclose nm (fmin f) (fmax f)
       then Inr (f\<lparr>fmin := fconstant f, fmax := fconstant f\<rparr>)
       else if fconstant f = ONone \<and> isclose_5 nm (fmin f) (fmax f) \<and> dtype_func nm (dtype f) \<noteq> None
       then bind_sum (conv_float nm (dtype f) (fmax f)) (\<lambda>c. Inr (f\<lparr>fconstant := c\<rparr>))
       else Inr f)"

definition is_constant :: "'o numbers \<Rightarrow> 'o field \<Rightarrow> bool" where
  "is_constant nm f \<longleftrightarrow> fconstant f \<noteq> ONone \<or> isclose_5 nm (fmin f) (fmax f)"

definition convert_dtype :: "'o numbers \<Rightarrow> 'o field \<Rightarrow> 'o obj \<Rightarrow> perr + 'o obj" where
  "convert_dtype nm f v = (if dtype f = ''str'' then Inr (OStr (py_str nm v)) else conv_float nm (dtype f) v)"

text \<open>\<^verbatim>\<open>bisect.bisect_left(xs, x)\<close>: binary search, on any list.\<close>

function bisect_between :: "'o numbers \<Rightarrow> 'o obj list \<Rightarrow> 'o obj \<Rightarrow> nat \<Rightarrow> nat \<Rightarrow> perr + nat" where
  "bisect_between nm xs x lo hi =
     (if lo < hi
      then (let mid = (lo + hi) div 2
            in bind_sum (py_less nm (xs ! mid) x) (\<lambda>less.
                 if less then bisect_between nm xs x (mid + 1) hi else bisect_between nm xs x lo mid))
      else Inr lo)"
  by pat_completeness auto
termination
  by (relation "measure (\<lambda>(nm, xs, x, lo, hi). hi - lo)") auto

definition bisect_left :: "'o numbers \<Rightarrow> 'o obj list \<Rightarrow> 'o obj \<Rightarrow> perr + nat" where
  "bisect_left nm xs x = bisect_between nm xs x 0 (length xs)"

fun enum_values :: "'o param \<Rightarrow> 'o obj list" where
  "enum_values (Values xs) = xs"
| "enum_values _ = []"

fun is_str :: "'o obj \<Rightarrow> bool" where
  "is_str (OStr s) = True"
| "is_str _ = False"

definition clamp_field :: "'o numbers \<Rightarrow> 'o field \<Rightarrow> 'o obj \<Rightarrow> perr + 'o obj" where
  "clamp_field nm f x =
     bind_sum (py_less_eq nm (fmin f) x) (\<lambda>above.
       bind_sum (if above then py_less_eq nm x (fmax f) else Inr False) (\<lambda>inside.
         if inside then Inr x
         else bind_sum (py_less nm x (fmin f)) (\<lambda>below.
           conv_float nm (dtype f) (if below then fmin f else fmax f))))"

definition find_available_value :: "'o numbers \<Rightarrow> 'o field \<Rightarrow> 'o obj \<Rightarrow> perr + 'o obj" where
  "find_available_value nm f v =
     (if dtype f = ''str'' then Inr (OStr (py_str nm v))
      else bind_sum (conv_float nm (dtype f) v) (\<lambda>new_value.
        if dtype f = ''enum''
        then (let vs = enum_values (dtype_param f)
              in if vs = [] then Inr new_value
                 else if is_str (hd vs) then Inr (if mem nm v vs then v else hd vs)
                 else if mem nm v vs then Inr v
                 else bind_sum (bisect_left nm vs v) (\<lambda>i. Inr (if i = length vs then last vs else vs ! i)))
        else clamp_field nm f new_value))"

text \<open>\<^verbatim>\<open>list(range(start, stop, step))\<close>; a step of 0 raises.\<close>

definition py_range :: "int \<Rightarrow> int \<Rightarrow> int \<Rightarrow> perr + int list" where
  "py_range start stop step =
     (if step = 0 then Inl BadValue
      else (let n = nat (if step > 0 then (stop - start + step - 1) div step else (start - stop - step - 1) div (- step))
            in Inr (map (\<lambda>i. start + int i * step) [0..<n])))"

fun param_truthy :: "'o numbers \<Rightarrow> 'o param \<Rightarrow> bool" where
  "param_truthy nm NoParam = False"
| "param_truthy nm (Target s) = (s \<noteq> [])"
| "param_truthy nm (Values xs) = (xs \<noteq> [])"
| "param_truthy nm (Options d) = True"
| "param_truthy nm (OtherParam x) = truthy_obj nm x"

fun param_int :: "'o numbers \<Rightarrow> 'o param \<Rightarrow> perr + int" where
  "param_int nm (Target s) = parse_int nm s"
| "param_int nm (OtherParam x) = py_int nm x"
| "param_int nm _ = Inl (PyErr TypeErr)"

text \<open>One field of \<^verbatim>\<open>range_to_enum\<close>: a failed conversion leaves it, unless the error is an overflow.\<close>

definition range_field :: "'o numbers \<Rightarrow> 'o field \<Rightarrow> perr + 'o field" where
  "range_field nm v =
     (if dtype v \<noteq> ''range'' \<or> \<not> param_truthy nm (dtype_param v) then Inr v
      else case bind_sum (py_int nm (fmin v)) (\<lambda>s. bind_sum (py_int nm (fmax v)) (\<lambda>e.
                  bind_sum (param_int nm (dtype_param v)) (\<lambda>st. Inr (s, e, st)))) of
             Inl err \<Rightarrow> if err \<in> {BadValue, PyErr TypeErr} then Inr v else Inl err
           | Inr (start, stop, step) \<Rightarrow>
               bind_sum (py_range start (stop + step) step) (\<lambda>enums.
                 Inr (v\<lparr>fmin := OInt 0, fmax := OInt 1, dtype_param := Values (map OInt enums), dtype := ''enum''\<rparr>)))"

definition range_to_enum :: "'o numbers \<Rightarrow> 'o field list \<Rightarrow> perr + 'o field list" where
  "range_to_enum nm fs = map_sum_list (range_field nm) fs"

section \<open>The order in which fields are repaired\<close>

record decode_context =
  particle_index :: "int option"
  n_particles :: "int option"
  iteration :: "int option"

text \<open>The comparison with \<^verbatim>\<open>n_particles / 2\<close> is exact for the numbers of particles that are configured.\<close>

definition resolve_priority :: "'o options \<Rightarrow> decode_context option \<Rightarrow> string list" where
  "resolve_priority d context =
     (let names = (case target_names d of None \<Rightarrow> [] | Some ns \<Rightarrow> ns);
          policy = (case priority_policy d of None \<Rightarrow> ''balanced'' | Some p \<Rightarrow> p)
      in if length names < 2 then names
         else if policy = ''fixed''
         then (let order = (case priority d of None \<Rightarrow> names | Some p \<Rightarrow> p)
               in if length order \<noteq> length names \<or> set order \<noteq> set names then names else order)
         else if policy = ''balanced''
         then (case context of
                 None \<Rightarrow> names
               | Some c \<Rightarrow>
                   (case (particle_index c, n_particles c) of
                      (Some i, Some n) \<Rightarrow>
                        (let second_half = (2 * i \<ge> n);
                             odd_round = (case iteration c of None \<Rightarrow> False | Some r \<Rightarrow> r mod 2 = 1)
                         in if second_half \<noteq> odd_round then rev names else names)
                    | _ \<Rightarrow> names))
         else names)"

end
