(* ===== verification/Opt_Repair.thy ===== *)
theory Opt_Repair
  imports Opt_Field
begin

text \<open>
  Derived fields: \<^verbatim>\<open>ms_serviceparam_optimizer/config/config.py\<close>, from \<open>_repair_ternary_factories_with_priority\<close> to
  \<open>update_optimizer_value\<close>. The copies of the fields that are being decoded are a list, updated in place. A dictionary
  from names to fields holds the last field of a name, a search for a name finds the first.
\<close>

section \<open>Fields by name\<close>

definition first_named :: "string \<Rightarrow> 'o field list \<Rightarrow> nat option" where
  "first_named n fs = find (\<lambda>i. fname (fs ! i) = n) [0..<length fs]"

definition last_named :: "string \<Rightarrow> 'o field list \<Rightarrow> nat option" where
  "last_named n fs = find (\<lambda>i. fname (fs ! i) = n) (rev [0..<length fs])"

definition set_value :: "nat \<Rightarrow> 'o obj \<Rightarrow> 'o field list \<Rightarrow> 'o field list" where
  "set_value i v fs = fs[i := (fs ! i)\<lparr>fvalue := v\<rparr>]"

section \<open>Repair\<close>

definition int_list :: "int \<Rightarrow> int \<Rightarrow> int list" where
  "int_list lo hi = map (\<lambda>i. lo + int i) [0..<nat (hi - lo + 1)]"

text \<open>\<^verbatim>\<open>_get_field_candidates\<close>: the values a field can take, \<open>None\<close> if they are not enumerated.\<close>

definition field_candidates :: "'o numbers \<Rightarrow> 'o field \<Rightarrow> perr + 'o obj list option" where
  "field_candidates nm f =
     (if dtype f = ''enum''
      then (case dtype_param f of
              OtherParam x \<Rightarrow> if truthy_obj nm x then Inl (PyErr TypeErr) else Inr (Some [])
            | p \<Rightarrow> Inr (Some (filter is_number (enum_values p))))
      else if dtype f = ''int''
      then bind_sum (py_int nm (fmin f)) (\<lambda>lo. bind_sum (py_int nm (fmax f)) (\<lambda>hi.
             Inr (if 0 \<le> hi - lo \<and> hi - lo \<le> 256 then Some (map OInt (int_list lo hi)) else None)))
      else Inr None)"

definition py_abs :: "'o numbers \<Rightarrow> 'o obj \<Rightarrow> perr + 'o obj" where
  "py_abs nm x = (case call_builtin (py nm) ''abs'' [x] [] of Inl e \<Rightarrow> Inl (PyErr e) | Inr v \<Rightarrow> Inr v)"

text \<open>\<^verbatim>\<open>sorted(xs, key=...)\<close>, stable. The keys are numbers, which Python always compares.\<close>

definition less_num :: "'o numbers \<Rightarrow> 'o obj \<Rightarrow> 'o obj \<Rightarrow> bool" where
  "less_num nm x y = (case py_less nm x y of Inl e \<Rightarrow> False | Inr b \<Rightarrow> b)"

fun insert_by :: "'o numbers \<Rightarrow> 'o obj \<times> 'o obj \<Rightarrow> ('o obj \<times> 'o obj) list \<Rightarrow> ('o obj \<times> 'o obj) list" where
  "insert_by nm x [] = [x]"
| "insert_by nm x (y # ys) = (if less_num nm (fst y) (fst x) then y # insert_by nm x ys else x # y # ys)"

definition sort_by_distance :: "'o numbers \<Rightarrow> 'o obj \<Rightarrow> 'o obj list \<Rightarrow> perr + 'o obj list" where
  "sort_by_distance nm cur cands =
     bind_sum (map_sum_list (\<lambda>c. bind_sum (py_binary nm Sub c (if truthy_obj nm cur then cur else OInt 0)) (py_abs nm)) cands)
       (\<lambda>keys. Inr (map snd (foldr (insert_by nm) (zip keys cands) [])))"

text \<open>The range and the conversion of the derived value.\<close>

record 'o target =
  t_product :: "'o obj"
  t_min :: "'o obj"
  t_max :: "'o obj"
  t_conv :: "'o obj \<Rightarrow> perr + 'o obj"
  t_int :: bool

definition under_min :: "'o numbers \<Rightarrow> 'o target \<Rightarrow> 'o obj \<Rightarrow> perr + bool" where
  "under_min nm t r = (if t_min t = ONone then Inr False else py_less nm r (t_min t))"

definition over_max :: "'o numbers \<Rightarrow> 'o target \<Rightarrow> 'o obj \<Rightarrow> perr + bool" where
  "over_max nm t r = (if t_max t = ONone then Inr False else py_less nm (t_max t) r)"

definition not_divisible :: "'o numbers \<Rightarrow> 'o target \<Rightarrow> 'o obj \<Rightarrow> perr + bool" where
  "not_divisible nm t divisor =
     (if t_int t then bind_sum (py_binary nm Mod (t_product t) divisor) (\<lambda>r. Inr (\<not> py_eq nm r (OInt 0))) else Inr False)"

definition quotient :: "'o numbers \<Rightarrow> 'o target \<Rightarrow> 'o obj \<Rightarrow> perr + 'o obj" where
  "quotient nm t divisor = bind_sum (py_binary nm Div (t_product t) divisor) (t_conv t)"

text \<open>\<^verbatim>\<open>is_valid_combination\<close>: the derived value, or \<open>None\<close>.\<close>

definition valid_combination :: "'o numbers \<Rightarrow> 'o target \<Rightarrow> 'o obj \<Rightarrow> 'o obj \<Rightarrow> perr + 'o obj option" where
  "valid_combination nm t keep adjust =
     (if \<not> truthy_obj nm keep \<or> \<not> truthy_obj nm adjust then Inr None
      else bind_sum (py_binary nm Mult keep adjust) (\<lambda>divisor.
        if py_eq nm divisor (OInt 0) then Inr None
        else bind_sum (not_divisible nm t divisor) (\<lambda>bad.
          if bad then Inr None
          else bind_sum (quotient nm t divisor) (\<lambda>result.
            bind_sum (under_min nm t result) (\<lambda>under.
              if under then Inr None
              else bind_sum (over_max nm t result) (\<lambda>over.
                Inr (if over then None else Some result)))))))"

text \<open>The first valid combination of the loops, with its derived value.\<close>

fun search_adjust :: "'o numbers \<Rightarrow> 'o target \<Rightarrow> 'o obj \<Rightarrow> 'o obj list \<Rightarrow> perr + ('o obj \<times> 'o obj \<times> 'o obj) option" where
  "search_adjust nm t keep [] = Inr None"
| "search_adjust nm t keep (a # adjusts) =
     bind_sum (valid_combination nm t keep a) (\<lambda>r.
       case r of Some result \<Rightarrow> Inr (Some (keep, a, result)) | None \<Rightarrow> search_adjust nm t keep adjusts)"

fun search_both :: "'o numbers \<Rightarrow> 'o target \<Rightarrow> 'o obj list \<Rightarrow> 'o obj list \<Rightarrow> perr + ('o obj \<times> 'o obj \<times> 'o obj) option" where
  "search_both nm t [] adjusts = Inr None"
| "search_both nm t (k # kvs) adjusts =
     bind_sum (search_adjust nm t k adjusts) (\<lambda>r.
       case r of Some c \<Rightarrow> Inr (Some c) | None \<Rightarrow> search_both nm t kvs adjusts)"

definition search_repair ::
  "'o numbers \<Rightarrow> 'o target \<Rightarrow> 'o obj \<Rightarrow> 'o obj list \<Rightarrow> 'o obj list \<Rightarrow> perr + ('o obj \<times> 'o obj \<times> 'o obj) option" where
  "search_repair nm t cur_keep kvs adjusts =
     bind_sum (search_adjust nm t cur_keep adjusts) (\<lambda>r.
       case r of Some c \<Rightarrow> Inr (Some c) | None \<Rightarrow> search_both nm t kvs adjusts)"

definition value_named :: "string \<Rightarrow> 'o field list \<Rightarrow> 'o obj" where
  "value_named n sim = (case last_named n sim of None \<Rightarrow> OInt 0 | Some i \<Rightarrow> fvalue (sim ! i))"

definition assign_named :: "string \<Rightarrow> 'o obj \<Rightarrow> 'o field list \<Rightarrow> perr + 'o field list" where
  "assign_named n v sim = (case last_named n sim of None \<Rightarrow> Inl (PyErr KeyErr) | Some i \<Rightarrow> Inr (set_value i v sim))"

text \<open>\<^verbatim>\<open>_repair_ternary_factories_with_priority\<close>: \<open>None\<close> when there is no repair.\<close>

definition repair_ternary_factories ::
  "'o numbers \<Rightarrow> 'o field \<Rightarrow> 'o options \<Rightarrow> 'o target \<Rightarrow> 'o field list \<Rightarrow> decode_context option \<Rightarrow> 'o field list \<Rightarrow>
   perr + 'o field list option" where
  "repair_ternary_factories nm v d t params_field context sim =
     (let names = (case target_names d of None \<Rightarrow> [] | Some ns \<Rightarrow> ns)
      in if length names < 2 then Inr None
         else (let order = resolve_priority d context; keep = order ! 0; adjust = order ! 1
               in case (last_named keep params_field, last_named adjust params_field) of
                    (Some k, Some a) \<Rightarrow>
                      bind_sum (field_candidates nm (params_field ! k)) (\<lambda>ks.
                      bind_sum (field_candidates nm (params_field ! a)) (\<lambda>as.
                        case (ks, as) of
                          (Some (k1 # ks'), Some (a1 # as')) \<Rightarrow>
                            bind_sum (sort_by_distance nm (value_named keep sim) (k1 # ks')) (\<lambda>kvs.
                            bind_sum (sort_by_distance nm (value_named adjust sim) (a1 # as')) (\<lambda>adjusts.
                            bind_sum (search_repair nm t (value_named keep sim) kvs adjusts) (\<lambda>r.
                              case r of
                                None \<Rightarrow> Inr None
                              | Some (kv, av, result) \<Rightarrow>
                                  bind_sum (assign_named keep kv sim) (\<lambda>sim1.
                                  bind_sum (assign_named adjust av sim1) (\<lambda>sim2.
                                  bind_sum (assign_named (fname v) result sim2) (\<lambda>sim3. Inr (Some sim3)))))))
                        | _ \<Rightarrow> Inr None))
                  | _ \<Rightarrow> Inr None))"

section \<open>The derived values\<close>

definition target_value :: "'o field list \<Rightarrow> string \<Rightarrow> perr + 'o field" where
  "target_value sim n = (case first_named n sim of None \<Rightarrow> Inl (PyErr IndexErr) | Some i \<Rightarrow> Inr (sim ! i))"

fun param_options :: "'o param \<Rightarrow> perr + 'o options" where
  "param_options (Options d) = Inr d"
| "param_options _ = Inl NoAttribute"

definition required :: "'a option \<Rightarrow> perr + 'a" where
  "required x = (case x of None \<Rightarrow> Inl (PyErr KeyErr) | Some v \<Rightarrow> Inr v)"

definition update_ratio_field :: "'o numbers \<Rightarrow> 'o field \<Rightarrow> nat \<Rightarrow> 'o field list \<Rightarrow> perr + 'o field list" where
  "update_ratio_field nm f i sim =
     bind_sum (case dtype_param f of Target n \<Rightarrow> target_value sim n | _ \<Rightarrow> Inl (PyErr IndexErr)) (\<lambda>t.
     bind_sum (py_binary nm Mult (fvalue (sim ! i)) (fvalue t)) (\<lambda>x.
     bind_sum (to_int nm x) (\<lambda>v. Inr (set_value i v sim))))"

definition update_factories_field :: "'o numbers \<Rightarrow> 'o field \<Rightarrow> nat \<Rightarrow> 'o field list \<Rightarrow> perr + 'o field list" where
  "update_factories_field nm f i sim =
     bind_sum (param_options (dtype_param f)) (\<lambda>d.
     bind_sum (required (target_name d)) (\<lambda>n.
     bind_sum (target_value sim n) (\<lambda>t.
       if py_eq nm (fvalue t) (OInt 0) then Inr sim
       else bind_sum (required (result_dtype d)) (\<lambda>dt.
            bind_sum (required (product d)) (\<lambda>p.
            bind_sum (py_binary nm Div p (fvalue t)) (\<lambda>q.
            bind_sum (conv_int nm dt q) (\<lambda>v. Inr (set_value i v sim))))))))"

text \<open>\<^verbatim>\<open>value is not None and not (isnan(value) if isinstance(value, float) else False)\<close>\<close>

fun is_valid_value :: "'o numbers \<Rightarrow> 'o obj \<Rightarrow> bool" where
  "is_valid_value nm ONone = False"
| "is_valid_value nm (OOther x) = (\<not> other_isnan nm x)"
| "is_valid_value nm _ = True"

definition update_times_field :: "'o numbers \<Rightarrow> 'o field \<Rightarrow> nat \<Rightarrow> 'o field list \<Rightarrow> perr + 'o field list" where
  "update_times_field nm f i sim =
     bind_sum (param_options (dtype_param f)) (\<lambda>d.
     bind_sum (required (target_name d)) (\<lambda>n.
     bind_sum (target_value sim n) (\<lambda>t.
       if \<not> is_valid_value nm (fvalue t) then Inr sim
       else bind_sum (required (result_dtype d)) (\<lambda>dt.
            bind_sum (required (product d)) (\<lambda>p.
            bind_sum (py_binary nm Mult p (fvalue t)) (\<lambda>q.
            bind_sum (conv_int nm dt q) (\<lambda>v. Inr (set_value i v sim))))))))"

definition names_of :: "'o options \<Rightarrow> string list" where
  "names_of d = (case target_names d of None \<Rightarrow> [] | Some ns \<Rightarrow> ns)"

definition target_ops :: "string list \<Rightarrow> 'o field list \<Rightarrow> 'o field list" where
  "target_ops names sim = filter (\<lambda>op. fname op \<in> set names) sim"

definition all_found :: "string list \<Rightarrow> 'o field list \<Rightarrow> bool" where
  "all_found names sim \<longleftrightarrow> list_all (\<lambda>n. n \<in> fname ` set sim) names"

text \<open>The product of the source values; \<open>None\<close> when one of them is 0.\<close>

fun divisor_of :: "'o numbers \<Rightarrow> 'o obj list \<Rightarrow> 'o obj \<Rightarrow> perr + 'o obj option" where
  "divisor_of nm [] acc = Inr (Some acc)"
| "divisor_of nm (v # vs) acc =
     (if py_eq nm v (OInt 0) then Inr None else bind_sum (py_binary nm Mult acc v) (divisor_of nm vs))"

definition option_dtype :: "'o options \<Rightarrow> string" where
  "option_dtype d = (case result_dtype d of None \<Rightarrow> ''int'' | Some s \<Rightarrow> s)"

definition target_of :: "'o numbers \<Rightarrow> 'o options \<Rightarrow> 'o target" where
  "target_of nm d =
     (let is_int = (option_dtype d = ''int'')
      in \<lparr>t_product = (case product d of None \<Rightarrow> OInt 1 | Some p \<Rightarrow> p),
          t_min = (case min_value d of None \<Rightarrow> if is_int then OInt 1 else ONone | Some m \<Rightarrow> m),
          t_max = (case max_value d of None \<Rightarrow> ONone | Some m \<Rightarrow> m),
          t_conv = conv_int nm (option_dtype d), t_int = is_int\<rparr>)"

definition needs_repair :: "'o numbers \<Rightarrow> 'o target \<Rightarrow> 'o obj \<Rightarrow> 'o obj \<Rightarrow> perr + bool" where
  "needs_repair nm t divisor result =
     bind_sum (under_min nm t result) (\<lambda>under.
       if under then Inr True
       else bind_sum (over_max nm t result) (\<lambda>over.
         if over then Inr True else not_divisible nm t divisor))"

text \<open>What is done when there is no repair: the value is cut off at a bound, or the decoding fails.\<close>

definition cut_off :: "'o numbers \<Rightarrow> 'o target \<Rightarrow> 'o obj \<Rightarrow> 'o obj \<Rightarrow> nat \<Rightarrow> 'o field list \<Rightarrow> perr + 'o field list" where
  "cut_off nm t divisor result i sim =
     bind_sum (under_min nm t result) (\<lambda>under.
     bind_sum (if under then bind_sum (t_conv t (t_min t)) (\<lambda>v. Inr (set_value i v sim)) else Inr sim) (\<lambda>sim1.
     bind_sum (over_max nm t result) (\<lambda>over.
     bind_sum (if over then bind_sum (t_conv t (t_max t)) (\<lambda>v. Inr (set_value i v sim1)) else Inr sim1) (\<lambda>sim2.
       if under \<or> over then Inr sim2
       else bind_sum (not_divisible nm t divisor) (\<lambda>bad.
         if bad then Inl BadValue else Inr (set_value i result sim2))))))"

definition update_ternary_factories_field ::
  "'o numbers \<Rightarrow> 'o field \<Rightarrow> nat \<Rightarrow> 'o field list \<Rightarrow> decode_context option \<Rightarrow> 'o field list \<Rightarrow> perr + 'o field list" where
  "update_ternary_factories_field nm f i params_field context sim =
     bind_sum (param_options (dtype_param f)) (\<lambda>d.
       if \<not> all_found (names_of d) sim then Inr sim
       else bind_sum (divisor_of nm (map fvalue (target_ops (names_of d) sim)) (OInt 1)) (\<lambda>dv.
         case dv of
           None \<Rightarrow> Inr sim
         | Some divisor \<Rightarrow>
             (let t = target_of nm d
              in bind_sum (quotient nm t divisor) (\<lambda>result.
                 bind_sum (needs_repair nm t divisor result) (\<lambda>needed.
                   if \<not> needed then Inr (set_value i result sim)
                   else bind_sum (repair_ternary_factories nm f d t params_field context sim) (\<lambda>r.
                     case r of
                       Some sim' \<Rightarrow> Inr sim'
                     | None \<Rightarrow> cut_off nm t divisor result i sim))))))"

text \<open>The product of the source values with the configured factor; \<open>None\<close> when a value is invalid.\<close>

fun product_of :: "'o numbers \<Rightarrow> 'o obj list \<Rightarrow> 'o obj \<Rightarrow> perr + 'o obj option" where
  "product_of nm [] acc = Inr (Some acc)"
| "product_of nm (v # vs) acc =
     (if is_valid_value nm v then bind_sum (py_binary nm Mult acc v) (product_of nm vs) else Inr None)"

definition update_ternary_times_field :: "'o numbers \<Rightarrow> 'o field \<Rightarrow> nat \<Rightarrow> 'o field list \<Rightarrow> perr + 'o field list" where
  "update_ternary_times_field nm f i sim =
     bind_sum (param_options (dtype_param f)) (\<lambda>d.
       if \<not> all_found (names_of d) sim then Inr sim
       else bind_sum (product_of nm (map fvalue (target_ops (names_of d) sim))
                        (case product d of None \<Rightarrow> OInt 1 | Some p \<Rightarrow> p)) (\<lambda>r.
         case r of
           None \<Rightarrow> Inr sim
         | Some x \<Rightarrow> bind_sum (conv_int nm (option_dtype d) x) (\<lambda>v. Inr (set_value i v sim))))"

definition update_share_field :: "'o numbers \<Rightarrow> 'o field \<Rightarrow> nat \<Rightarrow> 'o field list \<Rightarrow> perr + 'o field list" where
  "update_share_field nm f i sim =
     (case (case dtype_param f of Target n \<Rightarrow> first_named n sim | _ \<Rightarrow> None) of
        None \<Rightarrow> Inr sim
      | Some j \<Rightarrow>
          bind_sum (py_binary nm Add (fmin (sim ! j)) (fmax (sim ! j))) (\<lambda>s.
          bind_sum (py_binary nm Sub s (fvalue (sim ! j))) (\<lambda>x.
          bind_sum (to_int nm x) (\<lambda>v. Inr (set_value i v sim)))))"

text \<open>\<^verbatim>\<open>DERIVED_FIELD_HANDLERS\<close>\<close>

definition derive ::
  "'o numbers \<Rightarrow> 'o field \<Rightarrow> nat \<Rightarrow> 'o field list \<Rightarrow> decode_context option \<Rightarrow> 'o field list \<Rightarrow> perr + 'o field list" where
  "derive nm f i params_field context sim =
     (if dtype f = ''ratio'' then update_ratio_field nm f i sim
      else if dtype f = ''share'' then update_share_field nm f i sim
      else if dtype f = ''factories'' then update_factories_field nm f i sim
      else if dtype f = ''times'' then update_times_field nm f i sim
      else if dtype f = ''ternary_factories'' then update_ternary_factories_field nm f i params_field context sim
      else if dtype f = ''ternary_times'' then update_ternary_times_field nm f i sim
      else Inr sim)"

text \<open>\<^verbatim>\<open>t in s\<close> for strings.\<close>

fun contains :: "string \<Rightarrow> string \<Rightarrow> bool" where
  "contains [] t = (t = [])"
| "contains (c # s) t = (startswith (c # s) t \<or> contains s t)"

definition update_field_value ::
  "'o numbers \<Rightarrow> 'o field list \<Rightarrow> bool \<Rightarrow> decode_context option \<Rightarrow> nat \<Rightarrow> 'o field list \<Rightarrow> perr + 'o field list" where
  "update_field_value nm params_field support_select_is_false context i sim =
     bind_sum (derive nm (params_field ! i) i params_field context sim) (\<lambda>sim1.
       let sim2 = (if contains (config_position (params_field ! i)) ''maxPrefillBatchSize'' \<and> py_eq nm (fvalue (sim1 ! i)) (OInt 0)
                   then set_value i (OInt 1) sim1 else sim1);
           pos = config_position (sim2 ! i)
       in Inr (if support_select_is_false \<and> (contains pos ''prefillTimeMsPerReq'' \<or> contains pos ''decodeTimeMsPerReq'')
               then set_value i (OInt 0) sim2 else sim2))"

definition update_optimizer_value ::
  "'o numbers \<Rightarrow> 'o field list \<Rightarrow> bool \<Rightarrow> decode_context option \<Rightarrow> 'o field list \<Rightarrow> perr + 'o field list" where
  "update_optimizer_value nm params_field support_select_is_false context sim =
     fold_sum (update_field_value nm params_field support_select_is_false context) [0..<length params_field] sim"

end
