(* ===== verification/Opt_Params.thy ===== *)
theory Opt_Params
  imports Opt_Repair
begin

text \<open>
  Decoding a position of the particle swarm into field values and encoding field values into a position:
  \<open>map_param_with_value\<close>, \<open>field_to_param\<close> and \<open>reverse_special_field\<close> of
  \<^verbatim>\<open>ms_serviceparam_optimizer/config/config.py\<close>. A position is a list of floats. The \<open>dtype_param\<close> of an \<^verbatim>\<open>enum\<close> is a list; with
  anything else the model raises. Encoding may extend the list of an \<^verbatim>\<open>enum\<close>, so it returns the fields as well.
\<close>

section \<open>Decoding\<close>

definition position_at :: "'o list \<Rightarrow> nat \<Rightarrow> perr + 'o obj" where
  "position_at ps i = (if i < length ps then Inr (OOther (ps ! i)) else Inl (PyErr IndexErr))"

text \<open>The value of a constant field. The warning about a failed conversion reads the position and may raise itself.\<close>

definition decode_constant :: "'o numbers \<Rightarrow> 'o list \<Rightarrow> nat \<Rightarrow> 'o field \<Rightarrow> perr + 'o obj" where
  "decode_constant nm ps i v =
     (if \<not> truthy_obj nm (fvalue v) then Inr (fvalue v)
      else bind_sum (float_test nm (other_isinf nm) (fvalue v)) (\<lambda>inf.
        if inf then Inr (fvalue v)
        else case conv_int nm (dtype v) (fvalue v) of
               Inr x \<Rightarrow> Inr x
             | Inl e \<Rightarrow>
                 if e \<in> {BadValue, PyErr TypeErr} then bind_sum (position_at ps i) (\<lambda>_. Inr (fvalue v)) else Inl e))"

definition decode_int :: "'o numbers \<Rightarrow> 'o obj \<Rightarrow> perr + 'o obj" where
  "decode_int nm p =
     (case to_int nm p of
        Inr x \<Rightarrow> Inr x
      | Inl e \<Rightarrow> if e \<in> {BadValue, PyErr TypeErr} then Inr p else Inl e)"

text \<open>A list of strings: the position is scaled to the indices and rounded.\<close>

definition decode_string_enum :: "'o numbers \<Rightarrow> 'o obj \<Rightarrow> 'o field \<Rightarrow> 'o obj list \<Rightarrow> perr + 'o obj" where
  "decode_string_enum nm p v vs =
     (if length vs = 1 then Inr (hd vs)
      else bind_sum (py_less nm (fmin v) (fmax v)) (\<lambda>wide.
           bind_sum (if wide
                     then bind_sum (py_binary nm Sub p (fmin v)) (\<lambda>x. bind_sum (py_binary nm Sub (fmax v) (fmin v)) (\<lambda>w.
                            py_binary nm Div x w))
                     else Inr (OInt 0)) (\<lambda>normalized.
           bind_sum (py_binary nm Mult normalized (OInt (int (length vs) - 1))) (\<lambda>x.
           bind_sum (py_binary nm Add x (OOther (float_literal nm 5 1))) (\<lambda>y.
           bind_sum (py_int nm y) (\<lambda>k.
             Inr (vs ! nat (max 0 (min k (int (length vs) - 1))))))))))"

text \<open>\<^verbatim>\<open>np.searchsorted(segment, p)\<close> of a sorted array: the number of its entries below \<open>p\<close>.\<close>

definition searchsorted :: "'o numbers \<Rightarrow> 'o list \<Rightarrow> 'o obj \<Rightarrow> nat" where
  "searchsorted nm segment p = length (filter (\<lambda>s. less_num nm (OOther s) p) segment)"

definition item :: "'o obj list \<Rightarrow> int \<Rightarrow> perr + 'o obj" where
  "item vs i = (case at_index vs i of None \<Rightarrow> Inl (PyErr IndexErr) | Some v \<Rightarrow> Inr v)"

text \<open>A list of numbers: the range is cut into one segment per value.\<close>

definition decode_number_enum :: "'o numbers \<Rightarrow> 'o obj \<Rightarrow> 'o field \<Rightarrow> 'o obj list \<Rightarrow> perr + 'o obj" where
  "decode_number_enum nm p v vs =
     bind_sum (py_less_eq nm p (fmin v)) (\<lambda>low.
       if low then item vs 0
       else bind_sum (py_less_eq nm (fmax v) p) (\<lambda>high.
         if high then item vs (- 1)
         else item vs (int (searchsorted nm (linspace nm (fmin v) (fmax v) (length vs + 1)) p) - 1)))"

definition decode_enum :: "'o numbers \<Rightarrow> 'o obj \<Rightarrow> 'o field \<Rightarrow> perr + 'o obj" where
  "decode_enum nm p v =
     (case dtype_param v of
        Values vs \<Rightarrow> if vs \<noteq> [] \<and> is_str (hd vs) then decode_string_enum nm p v vs else decode_number_enum nm p v vs
      | _ \<Rightarrow> Inl (PyErr TypeErr))"

text \<open>A searched field: its value, and whether it is the switch \<^verbatim>\<open>supportSelectBatch\<close>, turned on.\<close>

definition decode_searched :: "'o numbers \<Rightarrow> 'o obj \<Rightarrow> 'o field \<Rightarrow> perr + 'o obj \<times> bool" where
  "decode_searched nm p v =
     (if dtype v = ''int'' then bind_sum (decode_int nm p) (\<lambda>x. Inr (x, False))
      else if dtype v = ''bool''
      then bind_sum (py_less nm (OOther (float_literal nm 5 1)) p) (\<lambda>on.
             Inr (OBool on, on \<and> contains (fname v) ''supportSelectBatch''))
      else if dtype v = ''enum'' then bind_sum (decode_enum nm p v) (\<lambda>x. Inr (x, False))
      else Inr (p, False))"

fun decode_fields :: "'o numbers \<Rightarrow> 'o list \<Rightarrow> nat \<Rightarrow> 'o field list \<Rightarrow> perr + 'o field list \<times> bool" where
  "decode_fields nm ps i [] = Inr ([], False)"
| "decode_fields nm ps i (v # vs) =
     (if is_constant nm v
      then bind_sum (decode_constant nm ps i v) (\<lambda>x.
           bind_sum (decode_fields nm ps i vs) (\<lambda>(fs, s). Inr (v\<lparr>fvalue := x\<rparr> # fs, s)))
      else bind_sum (position_at ps i) (\<lambda>p.
           bind_sum (decode_searched nm p v) (\<lambda>(x, s1).
           bind_sum (decode_fields nm ps (i + 1) vs) (\<lambda>(fs, s2). Inr (v\<lparr>fvalue := x\<rparr> # fs, s1 \<or> s2)))))"

definition map_param_with_value ::
  "'o numbers \<Rightarrow> 'o list \<Rightarrow> 'o field list \<Rightarrow> decode_context option \<Rightarrow> perr + 'o field list" where
  "map_param_with_value nm ps params_field context =
     bind_sum (decode_fields nm ps 0 params_field) (\<lambda>(sim, select). update_optimizer_value nm params_field select context sim)"

section \<open>Encoding\<close>

text \<open>A number that is not in the list is sorted into it, a string goes to its end.\<close>

definition insert_enum :: "'o numbers \<Rightarrow> 'o obj \<Rightarrow> 'o obj list \<Rightarrow> perr + 'o obj list" where
  "insert_enum nm x vs =
     (if mem nm x vs then Inr vs
      else if is_str x then Inr (vs @ [x])
      else if is_number x
      then (if list_all is_number vs
            then (let sorted = map snd (foldr (insert_by nm) (zip vs vs) [])
                  in bind_sum (bisect_left nm sorted x) (\<lambda>i. Inr (take i sorted @ x # drop i sorted)))
            else Inl (PyErr TypeErr))
      else Inr vs)"

fun index_of :: "'o numbers \<Rightarrow> 'o obj \<Rightarrow> 'o obj list \<Rightarrow> nat option" where
  "index_of nm x [] = None"
| "index_of nm x (v # vs) = (if py_eq nm v x then Some 0 else map_option Suc (index_of nm x vs))"

text \<open>The middle of the segment of a value.\<close>

definition encode_enum :: "'o numbers \<Rightarrow> 'o field \<Rightarrow> perr + 'o obj \<times> 'o field" where
  "encode_enum nm v =
     (case dtype_param v of
        Values vs \<Rightarrow>
          bind_sum (insert_enum nm (fvalue v) vs) (\<lambda>vs'.
            case index_of nm (fvalue v) vs' of
              None \<Rightarrow> Inl BadValue
            | Some k \<Rightarrow>
                (let segment = linspace nm (fmin v) (fmax v) (length vs' + 1)
                 in bind_sum (py_binary nm Add (OOther (segment ! k)) (OOther (segment ! (k + 1)))) (\<lambda>s.
                    bind_sum (py_binary nm Div s (OInt 2)) (\<lambda>m. Inr (m, v\<lparr>dtype_param := Values vs'\<rparr>)))))
      | _ \<Rightarrow> Inl (PyErr TypeErr))"

definition encode_field :: "'o numbers \<Rightarrow> 'o field \<Rightarrow> perr + 'o obj \<times> 'o field" where
  "encode_field nm v =
     (if dtype v = ''int''
      then (case to_int nm (fvalue v) of Inr x \<Rightarrow> Inr (x, v) | Inl e \<Rightarrow> Inr (fvalue v, v))
      else if dtype v = ''bool'' then Inr (OInt (if truthy_obj nm (fvalue v) then 1 else 0), v)
      else if dtype v = ''enum'' then encode_enum nm v
      else Inr (fvalue v, v))"

definition sets_concurrency :: "'o field \<Rightarrow> bool" where
  "sets_concurrency v \<longleftrightarrow>
     config_position v = ''BackendConfig.ScheduleConfig.maxBatchSize'' \<or> fname v \<in> {''MAX_NUM_SEQS'', ''max_batch_size''}"

fun encode_fields :: "'o numbers \<Rightarrow> 'o field list \<Rightarrow> 'o obj \<Rightarrow> perr + 'o obj list \<times> 'o field list \<times> 'o obj" where
  "encode_fields nm [] conc = Inr ([], [], conc)"
| "encode_fields nm (v # vs) conc =
     (if is_constant nm v
      then bind_sum (encode_fields nm vs conc) (\<lambda>(ps, fs, c). Inr (ps, v # fs, c))
      else bind_sum (encode_field nm v) (\<lambda>(p, v').
           bind_sum (encode_fields nm vs (if sets_concurrency v then fvalue v else conc)) (\<lambda>(ps, fs, c).
             Inr (p # ps, v' # fs, c))))"

definition CONCURRENCYS :: "string list" where
  "CONCURRENCYS = [''CONCURRENCY'', ''MAXCONCURRENCY'']"

definition REQUESTRATES :: "string list" where
  "REQUESTRATES = [''REQUESTRATE'']"

text \<open>The entry of a ratio: its value relative to each field of the name it depends on, the last one counts.\<close>

fun ratio_entry :: "'o numbers \<Rightarrow> 'o field \<Rightarrow> 'o field list \<Rightarrow> 'o \<Rightarrow> perr + 'o" where
  "ratio_entry nm v [] p = Inr p"
| "ratio_entry nm v (f # fs) p =
     (if dtype_param v = Target (fname f) \<and> \<not> py_eq nm (fvalue f) (OInt 0)
      then bind_sum (py_binary nm Div (fvalue v) (fvalue f)) (\<lambda>q. bind_sum (py_float nm q) (ratio_entry nm v fs))
      else ratio_entry nm v fs p)"

definition concurrency_entry :: "'o numbers \<Rightarrow> 'o field \<Rightarrow> 'o obj \<Rightarrow> 'o \<Rightarrow> perr + 'o" where
  "concurrency_entry nm v conc p =
     (if fname v \<notin> set CONCURRENCYS then Inr p
      else if py_eq nm (fvalue v) (OInt 0) \<and> dtype v = ''ratio'' then py_float nm (OInt 1)
      else bind_sum (if fvalue v \<noteq> ONone \<and> dtype v = ''ratio'' then py_less nm (OInt 0) conc else Inr False) (\<lambda>relative.
        if relative then bind_sum (py_binary nm Div (fvalue v) conc) (py_float nm)
        else py_float nm (if fvalue v \<noteq> ONone then fvalue v else conc)))"

fun reverse_special_field :: "'o numbers \<Rightarrow> 'o field list \<Rightarrow> 'o field list \<Rightarrow> 'o obj \<Rightarrow> 'o list \<Rightarrow> perr + 'o list" where
  "reverse_special_field nm all [] conc ps = Inr ps"
| "reverse_special_field nm all (v # vs) conc ps =
     (if is_constant nm v then reverse_special_field nm all vs conc ps
      else case ps of
             [] \<Rightarrow> Inl (PyErr IndexErr)
           | p # rest \<Rightarrow>
               bind_sum (if dtype v = ''ratio'' then ratio_entry nm v all p else Inr p) (\<lambda>p1.
               bind_sum (concurrency_entry nm v conc p1) (\<lambda>p2.
               bind_sum (reverse_special_field nm all vs conc rest) (\<lambda>ps'. Inr (p2 # ps')))))"

definition field_to_param :: "'o numbers \<Rightarrow> 'o field list \<Rightarrow> perr + 'o list \<times> 'o field list" where
  "field_to_param nm params_field =
     bind_sum (encode_fields nm params_field ONone) (\<lambda>(objs, fs, conc).
     bind_sum (map_sum_list (py_float nm) objs) (\<lambda>ps.
     bind_sum (reverse_special_field nm fs fs conc ps) (\<lambda>ps'. Inr (ps', fs))))"

end
