(* ===== verification/Opt_Laws.thy ===== *)
theory Opt_Laws
  imports Opt_Params Complex_Main
begin

text \<open>
  Laws of Python's numbers that the optimizer relies on, an instance with exact rational arithmetic, and the rules by which
  the component reduces to integer arithmetic.
\<close>

section \<open>Division of integers\<close>

text \<open>
  \<^verbatim>\<open>int(a / b)\<close> for integers below \<open>2 ^ 53\<close>: the quotient is correctly rounded, so cutting off its fraction gives the
  exact quotient, rounded towards zero.
\<close>

definition quot :: "int \<Rightarrow> int \<Rightarrow> int" where
  "quot a b = sgn a * sgn b * (\<bar>a\<bar> div \<bar>b\<bar>)"

lemma quot_exact: "b dvd a \<Longrightarrow> quot a b = a div b"
proof (cases "b = 0")
  case False
  assume "b dvd a"
  then obtain c where c: "a = b * c" by (elim dvdE)
  have "\<bar>a\<bar> div \<bar>b\<bar> = \<bar>c\<bar>" using False c by (simp add: abs_mult)
  moreover have "sgn a * sgn b = sgn c" using False c by (simp add: sgn_if mult_less_0_iff zero_less_mult_iff)
  ultimately show ?thesis using False c by (simp add: quot_def mult.commute[of "sgn b"] sgn_mult_abs)
qed (simp add: quot_def)

definition small :: "int \<Rightarrow> bool" where
  "small n \<longleftrightarrow> \<bar>n\<bar> < 2 ^ 53"

definition division_ok :: "'o numbers \<Rightarrow> bool" where
  "division_ok nm \<longleftrightarrow>
     (\<forall>a b. small a \<longrightarrow> small b \<longrightarrow> b \<noteq> 0 \<longrightarrow>
        (\<exists>q. other_binary (py nm) Div (OInt a) (OInt b) = Inr q \<and> py_int nm q = Inr (quot a b)))"

section \<open>Operations on integers\<close>

named_theorems int_ops \<open>operations of Python on integers\<close>

lemma binary_int [int_ops]:
  "py_binary nm Add (OInt a) (OInt b) = Inr (OInt (a + b))"
  "py_binary nm Sub (OInt a) (OInt b) = Inr (OInt (a - b))"
  "py_binary nm Mult (OInt a) (OInt b) = Inr (OInt (a * b))"
  by (simp_all add: py_binary_def binary_def int_binary_def)

lemma mod_int [int_ops]: "b \<noteq> 0 \<Longrightarrow> py_binary nm Mod (OInt a) (OInt b) = Inr (OInt (a mod b))"
  by (simp add: py_binary_def binary_def int_binary_def)

lemma eq_int [int_ops]: "py_eq nm (OInt a) (OInt b) \<longleftrightarrow> a = b"
  by (simp add: py_eq_def obj_equal_def)

lemma less_int [int_ops]: "py_less nm (OInt a) (OInt b) = Inr (a < b)" "py_less_eq nm (OInt a) (OInt b) = Inr (a \<le> b)"
  by (simp_all add: py_less_def py_less_eq_def compare_with_def)

lemma less_num_int [int_ops]: "less_num nm (OInt a) (OInt b) \<longleftrightarrow> a < b"
  by (simp add: less_num_def int_ops)

lemma to_int_int [int_ops]: "to_int nm (OInt n) = Inr (OInt n)"
  by (simp add: to_int_def)

lemma abs_int [int_ops]: "py_abs nm (OInt n) = Inr (OInt \<bar>n\<bar>)"
  by (simp add: py_abs_def call_builtin_def ints_of_def)

lemma mem_int [int_ops]: "mem nm (OInt x) (map OInt xs) \<longleftrightarrow> x \<in> set xs"
  by (induction xs) (auto simp: mem_def int_ops)

section \<open>Sorting by distance\<close>

lemma insert_by_int:
  "insert_by nm (OInt (f x), OInt x) (map (\<lambda>c. (OInt (f c), OInt c)) ys) = map (\<lambda>c. (OInt (f c), OInt c)) (insort_key f x ys)"
  by (induction ys) (auto simp: int_ops)

lemma sort_int:
  "foldr (insert_by nm) (map (\<lambda>c. (OInt (f c), OInt c)) xs) [] = map (\<lambda>c. (OInt (f c), OInt c)) (sort_key f xs)"
  by (induction xs) (simp_all add: insert_by_int)

lemma zip_map_pair: "zip (map f xs) (map g xs) = map (\<lambda>x. (f x, g x)) xs"
  by (induction xs) simp_all

lemma sort_by_distance_int [int_ops]:
  "sort_by_distance nm (OInt cur) (map OInt xs) = Inr (map OInt (sort_key (\<lambda>c. \<bar>c - cur\<bar>) xs))"
proof -
  have "map_sum_list (\<lambda>c. bind_sum (py_binary nm Sub c (if truthy_obj nm (OInt cur) then OInt cur else OInt 0)) (py_abs nm)) (map OInt xs) =
    Inr (map (\<lambda>c. OInt \<bar>c - cur\<bar>) xs)"
    by (induction xs) (simp_all add: int_ops)
  then show ?thesis unfolding sort_by_distance_def by (simp add: zip_map_pair sort_int comp_def)
qed

section \<open>The valid combinations\<close>

fun obound :: "int option \<Rightarrow> 'o obj" where
  "obound None = ONone"
| "obound (Some n) = OInt n"

definition in_range :: "int option \<Rightarrow> int option \<Rightarrow> int \<Rightarrow> bool" where
  "in_range lo hi v \<longleftrightarrow> (case lo of None \<Rightarrow> True | Some l \<Rightarrow> l \<le> v) \<and> (case hi of None \<Rightarrow> True | Some h \<Rightarrow> v \<le> h)"

definition valid_pair :: "int \<Rightarrow> int option \<Rightarrow> int option \<Rightarrow> int \<Rightarrow> int \<Rightarrow> bool" where
  "valid_pair p lo hi k a \<longleftrightarrow> k \<noteq> 0 \<and> a \<noteq> 0 \<and> k * a dvd p \<and> in_range lo hi (p div (k * a))"

text \<open>The derived value of an integer field.\<close>

definition int_target :: "'o numbers \<Rightarrow> int \<Rightarrow> int option \<Rightarrow> int option \<Rightarrow> 'o target" where
  "int_target nm p lo hi = \<lparr>t_product = OInt p, t_min = obound lo, t_max = obound hi, t_conv = to_int nm, t_int = True\<rparr>"

lemma target_sel [simp]:
  "t_product (int_target nm p lo hi) = OInt p" "t_min (int_target nm p lo hi) = obound lo" "t_max (int_target nm p lo hi) = obound hi"
  "t_conv (int_target nm p lo hi) = to_int nm" "t_int (int_target nm p lo hi)"
  by (simp_all add: int_target_def)

lemma bounds_int [int_ops]:
  "under_min nm (int_target nm p lo hi) (OInt r) = Inr (case lo of None \<Rightarrow> False | Some l \<Rightarrow> r < l)"
  "over_max nm (int_target nm p lo hi) (OInt r) = Inr (case hi of None \<Rightarrow> False | Some h \<Rightarrow> h < r)"
  by (auto simp: under_min_def over_max_def int_ops split: option.splits)

lemma divisible_int [int_ops]: "d \<noteq> 0 \<Longrightarrow> not_divisible nm (int_target nm p lo hi) (OInt d) = Inr (\<not> d dvd p)"
  by (auto simp: not_divisible_def int_ops dvd_eq_mod_eq_0)

lemma quotient_int:
  assumes "division_ok nm" "small p" "small d" "d \<noteq> 0"
  shows "quotient nm (int_target nm p lo hi) (OInt d) = Inr (OInt (quot p d))"
proof -
  obtain q where "other_binary (py nm) Div (OInt p) (OInt d) = Inr q" "py_int nm q = Inr (quot p d)"
    using assms unfolding division_ok_def by blast
  then show ?thesis using assms(4) by (simp add: quotient_def py_binary_def binary_def int_binary_def to_int_def)
qed

lemma divisor_small: "small p \<Longrightarrow> p \<noteq> 0 \<Longrightarrow> d dvd p \<Longrightarrow> small d"
  by (metis small_def abs_dvd_iff dvd_abs_iff dvd_imp_le abs_ge_zero le_less_trans zdvd_imp_le zero_less_abs_iff)

lemma valid_combination_int:
  assumes "division_ok nm" "small p" "p \<noteq> 0"
  shows "valid_combination nm (int_target nm p lo hi) (OInt k) (OInt a) =
    Inr (if valid_pair p lo hi k a then Some (OInt (p div (k * a))) else None)"
proof (cases "k \<noteq> 0 \<and> a \<noteq> 0 \<and> k * a dvd p")
  case True
  then have "small (k * a)" using divisor_small assms by blast
  then have "quotient nm (int_target nm p lo hi) (OInt (k * a)) = Inr (OInt (p div (k * a)))"
    using quotient_int[OF assms(1,2)] True by (simp add: quot_exact)
  then show ?thesis using True
    by (auto simp: valid_combination_def valid_pair_def in_range_def int_ops split: option.splits)
next
  case False
  then show ?thesis by (auto simp: valid_combination_def valid_pair_def int_ops)
qed


text \<open>Python's numbers with exact rational arithmetic in place of floats, on which the theorems are evaluated.\<close>

fun rat_of :: "rat obj \<Rightarrow> rat option" where
  "rat_of (OInt n) = Some (of_int n)"
| "rat_of (OBool b) = Some (if b then 1 else 0)"
| "rat_of (OOther x) = Some x"
| "rat_of _ = None"

definition rat_arith :: "binop \<Rightarrow> rat \<Rightarrow> rat \<Rightarrow> rat result" where
  "rat_arith op a b =
     (case op of
        Add \<Rightarrow> Inr (OOther (a + b))
      | Sub \<Rightarrow> Inr (OOther (a - b))
      | Mult \<Rightarrow> Inr (OOther (a * b))
      | Div \<Rightarrow> if b = 0 then Inl ZeroDivErr else Inr (OOther (a / b))
      | _ \<Rightarrow> Inl TypeErr)"

definition rat_binary :: "binop \<Rightarrow> rat obj \<Rightarrow> rat obj \<Rightarrow> rat result" where
  "rat_binary op x y =
     (case (rat_of x, rat_of y) of
        (Some a, Some b) \<Rightarrow> rat_arith op a b
      | _ \<Rightarrow> Inl TypeErr)"

definition rat_compare :: "(rat \<Rightarrow> rat \<Rightarrow> bool) \<Rightarrow> rat obj \<Rightarrow> rat obj \<Rightarrow> bool" where
  "rat_compare f x y = (case (rat_of x, rat_of y) of (Some a, Some b) \<Rightarrow> f a b | _ \<Rightarrow> False)"

definition truncate :: "rat \<Rightarrow> int" where
  "truncate r = (if 0 \<le> r then floor r else ceiling r)"

definition rat_python :: "rat python" where
  "rat_python = \<lparr>other_binary = rat_binary, other_unary = (\<lambda>_ _. Inl TypeErr), get_attribute = (\<lambda>_ _. Inl TypeErr),
     other_item = (\<lambda>_ _. Inl TypeErr), other_call = (\<lambda>n args _. case map rat_of args of
       [Some a] \<Rightarrow> if n = ''abs'' then Inr (OOther \<bar>a\<bar>) else Inl TypeErr | _ \<Rightarrow> Inl TypeErr),
     other_equal = rat_compare (=), other_hashable = (\<lambda>_. True), parse = (\<lambda>_. None)\<rparr>"

definition rat_numbers :: "rat numbers" where
  "rat_numbers = \<lparr>py = rat_python, float_literal = (\<lambda>m k. of_int m / 10 ^ k), other_truthy = (\<lambda>x. x \<noteq> 0),
     other_less = rat_compare (<), other_less_eq = rat_compare (\<le>), trunc_float = (\<lambda>x. Inr (truncate x)),
     parse_int = (\<lambda>_. Inl BadValue), float_of_int = (\<lambda>n. Inr (of_int n)), parse_float = (\<lambda>_. Inl BadValue),
     show_obj = (\<lambda>_. []), isclose = rat_compare (=), isclose_5 = rat_compare (=), other_isinf = (\<lambda>_. False),
     other_isnan = (\<lambda>_. False),
     linspace = (\<lambda>lo hi n. case (rat_of lo, rat_of hi) of
       (Some a, Some b) \<Rightarrow> map (\<lambda>i. a + (b - a) * of_nat i / of_nat (n - 1)) [0..<n] | _ \<Rightarrow> [])\<rparr>"

lemma truncate_quot: "b \<noteq> 0 \<Longrightarrow> truncate (of_int a / of_int b) = quot a b"
proof -
  assume b: "b \<noteq> 0"
  let ?q = "of_int a / of_int b :: rat"
  have swap: "?q = of_int (- a) / of_int (- b)" by simp
  have "\<bar>a\<bar> div \<bar>b\<bar> = (if b > 0 then (if a \<ge> 0 then a div b else (- a) div b) else (if a \<ge> 0 then a div (- b) else a div b))"
    using b by (simp add: abs_if)
  moreover have "floor ?q = a div b" by (rule floor_divide_of_int_eq)
  moreover have "- ?q = of_int (- a) / of_int b" by simp
  then have "ceiling ?q = - ((- a) div b)" unfolding ceiling_def by (simp only: floor_divide_of_int_eq)
  ultimately show ?thesis using b
    by (auto simp: truncate_def quot_def zero_le_divide_iff sgn_if div_minus_right)
qed

lemma rat_division_ok: "division_ok rat_numbers"
  by (simp add: division_ok_def rat_numbers_def rat_python_def rat_binary_def rat_arith_def truncate_quot)

end
