(* ===== verification/Opt_Repair_Props.thy ===== *)
theory Opt_Repair_Props
  imports Opt_Laws
begin

text \<open>
  The repair of derived fields over the integers: the search finds a valid pair of candidates whenever there is one, the nearest
  one first, and a derived field ends consistent with its sources, at a bound, or in an error.
\<close>

section \<open>The search\<close>

fun find_pair :: "(int \<Rightarrow> int \<Rightarrow> bool) \<Rightarrow> int list \<Rightarrow> int list \<Rightarrow> (int \<times> int) option" where
  "find_pair P [] as = None"
| "find_pair P (k # ks) as = (case find (P k) as of Some a \<Rightarrow> Some (k, a) | None \<Rightarrow> find_pair P ks as)"

definition repaired_pair :: "(int \<Rightarrow> int \<Rightarrow> bool) \<Rightarrow> int \<Rightarrow> int list \<Rightarrow> int list \<Rightarrow> (int \<times> int) option" where
  "repaired_pair P cur ks as = (case find (P cur) as of Some a \<Rightarrow> Some (cur, a) | None \<Rightarrow> find_pair P ks as)"

definition with_quotient :: "int \<Rightarrow> int \<times> int \<Rightarrow> 'o obj \<times> 'o obj \<times> 'o obj" where
  "with_quotient p ka = (OInt (fst ka), OInt (snd ka), OInt (p div (fst ka * snd ka)))"

lemma search_adjust_int:
  assumes "division_ok nm" "small p" "p \<noteq> 0"
  shows "search_adjust nm (int_target nm p lo hi) (OInt k) (map OInt as) =
    Inr (map_option (\<lambda>a. with_quotient p (k, a)) (find (valid_pair p lo hi k) as))"
  by (induction as) (simp_all add: valid_combination_int[OF assms] with_quotient_def)

lemma search_both_int:
  assumes "division_ok nm" "small p" "p \<noteq> 0"
  shows "search_both nm (int_target nm p lo hi) (map OInt ks) (map OInt as) =
    Inr (map_option (with_quotient p) (find_pair (valid_pair p lo hi) ks as))"
  by (induction ks) (simp_all add: search_adjust_int[OF assms] split: option.splits)

lemma search_repair_int:
  assumes "division_ok nm" "small p" "p \<noteq> 0"
  shows "search_repair nm (int_target nm p lo hi) (OInt cur) (map OInt ks) (map OInt as) =
    Inr (map_option (with_quotient p) (repaired_pair (valid_pair p lo hi) cur ks as))"
  by (simp add: search_repair_def search_adjust_int[OF assms] search_both_int[OF assms] repaired_pair_def split: option.splits)

lemma find_None: "find P xs = None \<longleftrightarrow> (\<forall>x \<in> set xs. \<not> P x)"
  by (auto simp: find_None_iff)

lemma find_SomeD: "find P xs = Some x \<Longrightarrow> x \<in> set xs \<and> P x"
  by (auto simp: find_Some_iff)

lemma find_pair_None: "find_pair P ks as = None \<longleftrightarrow> (\<forall>k \<in> set ks. \<forall>a \<in> set as. \<not> P k a)"
  by (induction ks) (auto simp: find_None split: option.splits dest: find_SomeD)

lemma find_pair_SomeD: "find_pair P ks as = Some (k, a) \<Longrightarrow> k \<in> set ks \<and> a \<in> set as \<and> P k a"
  by (induction ks) (auto split: option.splits dest: find_SomeD)

lemma repaired_pair_None:
  "repaired_pair P cur ks as = None \<longleftrightarrow> (\<forall>k \<in> insert cur (set ks). \<forall>a \<in> set as. \<not> P k a)"
  by (auto simp: repaired_pair_def find_None find_pair_None split: option.splits dest: find_SomeD)

lemma repaired_pair_SomeD:
  "repaired_pair P cur ks as = Some (k, a) \<Longrightarrow> k \<in> insert cur (set ks) \<and> a \<in> set as \<and> P k a"
  by (auto simp: repaired_pair_def split: option.splits dest: find_SomeD find_pair_SomeD)

text \<open>The first match of a sorted list has the least key.\<close>

lemma find_sorted_least: "sorted (map f xs) \<Longrightarrow> find P xs = Some a \<Longrightarrow> b \<in> set xs \<Longrightarrow> P b \<Longrightarrow> f a \<le> f b"
  by (induction xs) (auto split: if_splits dest: find_SomeD)

text \<open>Whenever the value to keep has a valid partner it is kept, and the nearest partner is taken.\<close>

lemma repaired_pair_nearest:
  assumes "b \<in> set as" "P cur b"
  obtains a where "repaired_pair P cur ks (sort_key (\<lambda>c. \<bar>c - old\<bar>) as) = Some (cur, a)" "\<bar>a - old\<bar> \<le> \<bar>b - old\<bar>"
proof -
  have "find (P cur) (sort_key (\<lambda>c. \<bar>c - old\<bar>) as) \<noteq> None" using assms by (auto simp: find_None)
  then obtain a where a: "find (P cur) (sort_key (\<lambda>c. \<bar>c - old\<bar>) as) = Some a" by blast
  have "\<bar>a - old\<bar> \<le> \<bar>b - old\<bar>" using find_sorted_least[OF sorted_sort_key a] assms by simp
  then show thesis using that a by (simp add: repaired_pair_def)
qed

section \<open>Fields by name\<close>

lemma find_unique:
  assumes "x \<in> set xs" "\<And>y. y \<in> set xs \<Longrightarrow> P y \<longleftrightarrow> y = x"
  shows "find P xs = Some x"
  using assms
proof (induction xs)
  case (Cons y ys)
  then show ?case by (cases "x \<in> set ys") auto
qed simp

lemma last_named_at:
  assumes "distinct (map fname fs)" "i < length fs" "fname (fs ! i) = n"
  shows "last_named n fs = Some i"
  unfolding last_named_def
proof (rule find_unique)
  fix j assume "j \<in> set (rev [0..<length fs])"
  then have "j < length fs" by simp
  then show "(fname (fs ! j) = n) = (j = i)" using assms nth_eq_iff_index_eq[OF assms(1), of j i] by auto
qed (use assms in simp)

lemma set_value_simps [simp]:
  "length (set_value i v fs) = length fs"
  "i < length fs \<Longrightarrow> fname (set_value i v fs ! j) = fname (fs ! j)"
  "i < length fs \<Longrightarrow> map fname (set_value i v fs) = map fname fs"
  "i < length fs \<Longrightarrow> fvalue (set_value i v fs ! i) = v"
  "i \<noteq> j \<Longrightarrow> set_value i v fs ! j = fs ! j"
  by (auto simp: set_value_def nth_list_update map_update intro: list_update_same_conv[THEN iffD2])

lemma assign_named_at:
  "distinct (map fname fs) \<Longrightarrow> i < length fs \<Longrightarrow> fname (fs ! i) = n \<Longrightarrow> assign_named n v fs = Inr (set_value i v fs)"
  by (simp add: assign_named_def last_named_at)

lemma value_named_at:
  "distinct (map fname fs) \<Longrightarrow> i < length fs \<Longrightarrow> fname (fs ! i) = n \<Longrightarrow> value_named n fs = fvalue (fs ! i)"
  by (simp add: value_named_def last_named_at)

lemma set_value_twice [simp]: "set_value i u (set_value i v fs) = set_value i u fs"
  by (cases "i < length fs") (simp_all add: set_value_def list_update_beyond)

lemma set_value_swap: "i \<noteq> j \<Longrightarrow> set_value i u (set_value j v fs) = set_value j v (set_value i u fs)"
  by (simp add: set_value_def list_update_swap)

lemma set_value_id: "fvalue (fs ! i) = v \<Longrightarrow> set_value i v fs = fs"
proof -
  assume "fvalue (fs ! i) = v"
  then have "(fs ! i)\<lparr>fvalue := v\<rparr> = fs ! i" by (cases "fs ! i") simp
  then show ?thesis by (simp add: set_value_def list_update_id)
qed

section \<open>Repair of a field\<close>

lemma resolve_priority_pair:
  assumes "target_names d = Some [m, n]" "m \<noteq> n"
  shows "resolve_priority d c = [m, n] \<or> resolve_priority d c = [n, m]"
proof -
  have two: "xs = [m, n] \<or> xs = [n, m]" if "length xs = 2" "set xs = {m, n}" for xs :: "string list"
  proof -
    obtain x y where "xs = [x, y]" using \<open>length xs = 2\<close> by (auto simp: length_Suc_conv numeral_2_eq_2)
    then show ?thesis using that assms(2) by (auto simp: doubleton_eq_iff)
  qed
  show ?thesis using assms two unfolding resolve_priority_def
    by (auto simp: Let_def split: option.splits)
qed

text \<open>
  The fields of a derivation: the positions of the two sources and of the derived field, the values of the sources, and the
  candidates of the sources, \<open>None\<close> when they are not enumerated.
\<close>

definition candidates_of :: "'o numbers \<Rightarrow> 'o field \<Rightarrow> int list \<Rightarrow> bool" where
  "candidates_of nm f ks \<longleftrightarrow>
     field_candidates nm f = Inr (Some (map OInt ks)) \<or> ks = [] \<and> field_candidates nm f = Inr None"

definition derivation ::
  "'o numbers \<Rightarrow> 'o field list \<Rightarrow> 'o field list \<Rightarrow> 'o options \<Rightarrow> nat \<Rightarrow> nat \<Rightarrow> nat \<Rightarrow> int \<Rightarrow> int \<Rightarrow> int list \<Rightarrow> int list \<Rightarrow> bool" where
  "derivation nm pf sim d i ia ib a b as bs \<longleftrightarrow>
     distinct (map fname sim) \<and> map fname pf = map fname sim \<and> i < length sim \<and> ia < length sim \<and> ib < length sim \<and>
     distinct [i, ia, ib] \<and> dtype_param (pf ! i) = Options d \<and>
     target_names d = Some [fname (sim ! ia), fname (sim ! ib)] \<and>
     fvalue (sim ! ia) = OInt a \<and> fvalue (sim ! ib) = OInt b \<and>
     candidates_of nm (pf ! ia) as \<and> candidates_of nm (pf ! ib) bs"

definition settle :: "nat \<Rightarrow> nat \<Rightarrow> nat \<Rightarrow> int \<Rightarrow> int \<Rightarrow> int \<Rightarrow> 'o field list \<Rightarrow> 'o field list" where
  "settle i ia ib a b v sim = set_value i (OInt v) (set_value ib (OInt b) (set_value ia (OInt a) sim))"

lemma repair_ordered:
  assumes num: "division_ok nm" "small p" "p \<noteq> 0" and t: "t = int_target nm p lo hi"
    and names: "distinct (map fname sim)" "map fname pf = map fname sim" "length tn = 2" "target_names d = Some tn"
    and ix: "i < length sim" "ia < length sim" "ib < length sim" "distinct [i, ia, ib]"
    and order: "resolve_priority d c = [fname (sim ! ia), fname (sim ! ib)]"
    and vals: "fvalue (sim ! ia) = OInt a" "fvalue (sim ! ib) = OInt b"
    and cands: "candidates_of nm (pf ! ia) as" "candidates_of nm (pf ! ib) bs"
  shows "repair_ternary_factories nm (pf ! i) d t pf c sim =
    Inr (if as = [] \<or> bs = [] then None
         else case repaired_pair (valid_pair p lo hi) a (sort_key (\<lambda>x. \<bar>x - a\<bar>) as) (sort_key (\<lambda>x. \<bar>x - b\<bar>) bs) of
                None \<Rightarrow> None
              | Some (k, l) \<Rightarrow> Some (settle i ia ib k l (p div (k * l)) sim))"
proof -
  have len: "length pf = length sim" using names(2) by (metis length_map)
  have nm_eq: "fname (pf ! j) = fname (sim ! j)" if "j < length sim" for j
    using names(2) that len by (metis nth_map)
  have dpf: "distinct (map fname pf)" using names by simp
  have at: "last_named (fname (sim ! ia)) pf = Some ia" "last_named (fname (sim ! ib)) pf = Some ib"
    using last_named_at[OF dpf, of ia] last_named_at[OF dpf, of ib] ix nm_eq len by auto
  have cur: "value_named (fname (sim ! ia)) sim = OInt a" "value_named (fname (sim ! ib)) sim = OInt b"
    using vals by (simp_all add: value_named_at[OF names(1) ix(2)] value_named_at[OF names(1) ix(3)])
  have assign: "bind_sum (assign_named (fname (sim ! ia)) u sim) (\<lambda>s1. bind_sum (assign_named (fname (sim ! ib)) v s1) (\<lambda>s2.
      bind_sum (assign_named (fname (pf ! i)) w s2) (\<lambda>s3. Inr (Some s3)))) =
    Inr (Some (set_value i w (set_value ib v (set_value ia u sim))))" for u v w
    using ix names(1) by (simp add: assign_named_at nm_eq)
  show ?thesis
  proof (cases "as = [] \<or> bs = []")
    case True
    then show ?thesis using cands names(3,4) order
      by (auto simp: repair_ternary_factories_def candidates_of_def at Let_def split: option.split list.split)
  next
    case False
    then obtain x xs y ys where ne: "as = x # xs" "bs = y # ys" by (metis neq_Nil_conv)
    have fc: "field_candidates nm (pf ! ia) = Inr (Some (OInt x # map OInt xs))"
      "field_candidates nm (pf ! ib) = Inr (Some (OInt y # map OInt ys))"
      using cands ne by (simp_all add: candidates_of_def)
    have sorts: "sort_by_distance nm (OInt a) (OInt x # map OInt xs) = Inr (map OInt (sort_key (\<lambda>x. \<bar>x - a\<bar>) as))"
      "sort_by_distance nm (OInt b) (OInt y # map OInt ys) = Inr (map OInt (sort_key (\<lambda>x. \<bar>x - b\<bar>) bs))"
      using sort_by_distance_int[of nm a as] sort_by_distance_int[of nm b bs] ne by simp_all
    show ?thesis using False names(3,4) order
      by (auto simp: repair_ternary_factories_def at cur fc sorts t search_repair_int[OF num] Let_def with_quotient_def assign settle_def
          split: option.splits)
  qed
qed

section \<open>A derived field\<close>

lemma valid_pair_sym: "valid_pair p lo hi k l = valid_pair p lo hi l k"
  by (auto simp: valid_pair_def mult.commute)

definition repair_result ::
  "int \<Rightarrow> int option \<Rightarrow> int option \<Rightarrow> nat \<Rightarrow> nat \<Rightarrow> nat \<Rightarrow> int \<Rightarrow> int \<Rightarrow> int list \<Rightarrow> int list \<Rightarrow> 'o field list \<Rightarrow>
   perr + 'o field list option \<Rightarrow> bool" where
  "repair_result p lo hi i ia ib a b as bs sim r \<longleftrightarrow>
     (case r of
        Inl e \<Rightarrow> False
      | Inr None \<Rightarrow> \<forall>x \<in> set as. \<forall>y \<in> set bs. \<not> valid_pair p lo hi x y
      | Inr (Some sim') \<Rightarrow> \<exists>k l. sim' = settle i ia ib k l (p div (k * l)) sim \<and> valid_pair p lo hi k l \<and>
          k \<in> insert a (set as) \<and> l \<in> insert b (set bs))"

lemma repair_result_swap:
  "ia \<noteq> ib \<Longrightarrow> repair_result p lo hi i ib ia b a bs as sim r \<Longrightarrow> repair_result p lo hi i ia ib a b as bs sim r"
proof -
  assume ne: "ia \<noteq> ib" and res: "repair_result p lo hi i ib ia b a bs as sim r"
  have eq: "settle i ib ia l k v sim = settle i ia ib k l v sim" for k l v
    using ne by (simp add: settle_def set_value_swap[of ia ib])
  consider "r = Inr None" | sim' where "r = Inr (Some sim')"
    using res unfolding repair_result_def by (cases r) (auto split: option.splits)
  then show ?thesis
  proof cases
    case 1
    then have "\<forall>x \<in> set bs. \<forall>y \<in> set as. \<not> valid_pair p lo hi x y" using res by (simp add: repair_result_def)
    then have "\<forall>x \<in> set as. \<forall>y \<in> set bs. \<not> valid_pair p lo hi x y" by (metis valid_pair_sym)
    then show ?thesis using 1 by (simp add: repair_result_def)
  next
    case (2 sim')
    then obtain l k where "sim' = settle i ib ia l k (p div (l * k)) sim" "valid_pair p lo hi l k"
      "l \<in> insert b (set bs)" "k \<in> insert a (set as)"
      using res by (auto simp: repair_result_def)
    then have "sim' = settle i ia ib k l (p div (k * l)) sim \<and> valid_pair p lo hi k l \<and> k \<in> insert a (set as) \<and> l \<in> insert b (set bs)"
      by (simp add: eq mult.commute valid_pair_sym[of p lo hi l])
    then show ?thesis using 2 by (auto simp: repair_result_def)
  qed
qed

lemma repair_result_ordered:
  assumes num: "division_ok nm" "small p" "p \<noteq> 0" and t: "t = int_target nm p lo hi"
    and names: "distinct (map fname sim)" "map fname pf = map fname sim" "length tn = 2" "target_names d = Some tn"
    and ix: "i < length sim" "ia < length sim" "ib < length sim" "distinct [i, ia, ib]"
    and order: "resolve_priority d c = [fname (sim ! ia), fname (sim ! ib)]"
    and vals: "fvalue (sim ! ia) = OInt a" "fvalue (sim ! ib) = OInt b"
    and cands: "candidates_of nm (pf ! ia) as" "candidates_of nm (pf ! ib) bs"
  shows "repair_result p lo hi i ia ib a b as bs sim (repair_ternary_factories nm (pf ! i) d t pf c sim)"
proof -
  let ?R = "repaired_pair (valid_pair p lo hi) a (sort_key (\<lambda>x. \<bar>x - a\<bar>) as) (sort_key (\<lambda>x. \<bar>x - b\<bar>) bs)"
  note eq = repair_ordered[OF assms]
  show ?thesis
  proof (cases ?R)
    case None
    then have "\<forall>x \<in> set as. \<forall>y \<in> set bs. \<not> valid_pair p lo hi x y" by (simp add: repaired_pair_None)
    then show ?thesis by (simp add: eq repair_result_def None)
  next
    case (Some kl)
    obtain k l where kl: "kl = (k, l)" by (cases kl)
    have facts: "k \<in> insert a (set as) \<and> l \<in> set bs \<and> valid_pair p lo hi k l"
      using repaired_pair_SomeD[OF Some[unfolded kl]] by simp
    show ?thesis
    proof (cases "as = [] \<or> bs = []")
      case True
      then show ?thesis by (auto simp: eq repair_result_def)
    next
      case False
      have "\<exists>k' l'. settle i ia ib k l (p div (k * l)) sim = settle i ia ib k' l' (p div (k' * l')) sim \<and>
        valid_pair p lo hi k' l' \<and> k' \<in> insert a (set as) \<and> l' \<in> insert b (set bs)"
        using facts by blast
      then show ?thesis using False by (simp add: eq repair_result_def Some kl)
    qed
  qed
qed

lemma repair_outcome:
  assumes num: "division_ok nm" "small p" "p \<noteq> 0" and t: "t = int_target nm p lo hi"
    and der: "derivation nm pf sim d i ia ib a b as bs"
  shows "repair_result p lo hi i ia ib a b as bs sim (repair_ternary_factories nm (pf ! i) d t pf c sim)"
proof -
  let ?A = "fname (sim ! ia)" and ?B = "fname (sim ! ib)"
  note D = der[unfolded derivation_def]
  have ne: "?A \<noteq> ?B"
    using nth_eq_iff_index_eq[of "map fname sim" ia ib] D by simp
  consider "resolve_priority d c = [?A, ?B]" | "resolve_priority d c = [?B, ?A]"
    using resolve_priority_pair[of d ?A ?B c] D ne by blast
  then show ?thesis
  proof cases
    case 1
    show ?thesis using repair_result_ordered[OF num t, of sim pf "[?A, ?B]" d i ia ib c a b as bs] D 1 by simp
  next
    case 2
    have "repair_result p lo hi i ib ia b a bs as sim (repair_ternary_factories nm (pf ! i) d t pf c sim)"
      using repair_result_ordered[OF num t, of sim pf "[?A, ?B]" d i ib ia c b a bs as] D 2 by simp
    moreover have "ia \<noteq> ib" using D by simp
    ultimately show ?thesis by (rule repair_result_swap[rotated])
  qed
qed

lemma filter_nth: "filter P xs = map ((!) xs) (filter (\<lambda>j. P (xs ! j)) [0..<length xs])"
  by (metis (no_types, lifting) comp_def filter_cong filter_map map_nth)

lemma filter_two:
  assumes "j < n" "k < n" "j < k"
  shows "filter (\<lambda>x. x = j \<or> x = k) [0..<n] = [j, k]"
  by (rule sorted_distinct_set_unique) (use assms in \<open>auto simp: sorted_wrt_filter\<close>)

lemma target_ops_pair:
  assumes "distinct (map fname sim)" "ia < length sim" "ib < length sim" "ia \<noteq> ib"
  shows "target_ops [fname (sim ! ia), fname (sim ! ib)] sim = [sim ! min ia ib, sim ! max ia ib]"
proof -
  have "(fname (sim ! j) = fname (sim ! ia) \<or> fname (sim ! j) = fname (sim ! ib)) \<longleftrightarrow> (j = min ia ib \<or> j = max ia ib)" if "j < length sim" for j
    using nth_eq_iff_index_eq[OF assms(1), of j ia] nth_eq_iff_index_eq[OF assms(1), of j ib] that assms by (auto simp: min_def max_def)
  then have "filter (\<lambda>j. fname (sim ! j) = fname (sim ! ia) \<or> fname (sim ! j) = fname (sim ! ib)) [0..<length sim] =
    filter (\<lambda>x. x = min ia ib \<or> x = max ia ib) [0..<length sim]"
    by (intro filter_cong) auto
  also have "\<dots> = [min ia ib, max ia ib]" by (rule filter_two) (use assms in auto)
  finally show ?thesis unfolding target_ops_def by (subst filter_nth) simp
qed

lemma divisor_pair:
  assumes "derivation nm pf sim d i ia ib a b as bs"
  shows "divisor_of nm (map fvalue (target_ops (names_of d) sim)) (OInt 1) =
    Inr (if a = 0 \<or> b = 0 then None else Some (OInt (a * b)))"
  using assms unfolding derivation_def names_of_def
  by (cases "ia < ib") (auto simp: target_ops_pair min_def max_def int_ops)

text \<open>The possible results for the derived field when there is no valid pair: a bound, or an error.\<close>

lemma cut_off_int:
  assumes "d \<noteq> 0"
  shows "cut_off nm (int_target nm p lo hi) (OInt d) (OInt r) i sim =
    (if \<exists>h. hi = Some h \<and> h < r then Inr (set_value i (OInt (the hi)) sim)
     else if \<exists>l. lo = Some l \<and> r < l then Inr (set_value i (OInt (the lo)) sim)
     else if d dvd p then Inr (set_value i (OInt r) sim) else Inl BadValue)"
  using assms by (auto simp: cut_off_def int_ops split: option.splits)


definition settled :: "int \<Rightarrow> int option \<Rightarrow> int option \<Rightarrow> int \<Rightarrow> int \<Rightarrow> int \<Rightarrow> bool" where
  "settled p lo hi a b v \<longleftrightarrow> p = a * b * v \<and> in_range lo hi v"

text \<open>
  Property C26. The repair of one derived field of integers, \<^verbatim>\<open>product / (a * b)\<close>, by \<^verbatim>\<open>update_ternary_factories_field\<close>, for a
  product other than 0 and sources other than 0, with the product and \<^verbatim>\<open>a * b\<close> below 2 to the power of 53. When this step
  returns, the derived value times the sources is the product and lies in its range, and the sources keep their values or take
  candidates; or no two candidates fit, the sources keep their values and the derived value is a bound of its range. When
  it raises, it is \<^verbatim>\<open>ValueError\<close>, the product is not divisible and no two candidates fit. (The repair of a later field may
  change the sources again, \<open>repair_leaves_stale\<close>.)
\<close>

theorem derived_value_settled:
  assumes num: "division_ok nm" "small p" "p \<noteq> 0" and t: "target_of nm d = int_target nm p lo hi"
    and der: "derivation nm pf sim d i ia ib a b as bs" and ab: "a \<noteq> 0" "b \<noteq> 0" "small (a * b)"
  shows "case update_ternary_factories_field nm (pf ! i) i pf c sim of
      Inr sim' \<Rightarrow> \<exists>a' b' v. sim' = settle i ia ib a' b' v sim \<and>
        (settled p lo hi a' b' v \<and> a' \<in> insert a (set as) \<and> b' \<in> insert b (set bs) \<or>
         a' = a \<and> b' = b \<and> Some v \<in> {lo, hi} \<and> \<not> (\<exists>x \<in> set as. \<exists>y \<in> set bs. valid_pair p lo hi x y))
    | Inl e \<Rightarrow> e = BadValue \<and> \<not> a * b dvd p \<and> \<not> (\<exists>x \<in> set as. \<exists>y \<in> set bs. valid_pair p lo hi x y)"
proof -
  note D = der[unfolded derivation_def]
  let ?T = "int_target nm p lo hi" and ?r = "quot p (a * b)"
  let ?Q = "\<lambda>sim' a' b' v. sim' = settle i ia ib a' b' v sim \<and>
    (settled p lo hi a' b' v \<and> a' \<in> insert a (set as) \<and> b' \<in> insert b (set bs) \<or>
     a' = a \<and> b' = b \<and> Some v \<in> {lo, hi} \<and> \<not> (\<exists>x \<in> set as. \<exists>y \<in> set bs. valid_pair p lo hi x y))"
  have nz: "a * b \<noteq> 0" using ab by simp
  have found: "all_found (names_of d) sim" using D by (auto simp: all_found_def names_of_def)
  have keep: "settle i ia ib a b v sim = set_value i (OInt v) sim" for v
    using D by (simp add: settle_def set_value_id)
  have step: "update_ternary_factories_field nm (pf ! i) i pf c sim =
    bind_sum (needs_repair nm ?T (OInt (a * b)) (OInt ?r)) (\<lambda>needed.
      if \<not> needed then Inr (set_value i (OInt ?r) sim)
      else bind_sum (repair_ternary_factories nm (pf ! i) d ?T pf c sim) (\<lambda>r.
        case r of Some sim' \<Rightarrow> Inr sim' | None \<Rightarrow> cut_off nm ?T (OInt (a * b)) (OInt ?r) i sim))"
    using D found ab unfolding update_ternary_factories_field_def
    by (simp add: divisor_pair[OF der] t Let_def quotient_int[OF num(1,2) ab(3) nz])
  have needed: "needs_repair nm ?T (OInt (a * b)) (OInt ?r) = Inr (\<not> (in_range lo hi ?r \<and> a * b dvd p))"
    using nz by (auto simp: needs_repair_def int_ops in_range_def split: option.splits)
  show ?thesis
  proof (cases "in_range lo hi ?r \<and> a * b dvd p")
    case True
    then have "?r = p div (a * b)" by (simp add: quot_exact)
    then have "settled p lo hi a b ?r" using True by (simp add: settled_def)
    then have "?Q (set_value i (OInt ?r) sim) a b ?r" by (simp add: keep)
    then have "\<exists>a' b' v. ?Q (set_value i (OInt ?r) sim) a' b' v" by blast
    then show ?thesis using True by (simp add: step needed)
  next
    case False
    note out = repair_outcome[OF num refl der, of lo hi c]
    consider (none) "repair_ternary_factories nm (pf ! i) d ?T pf c sim = Inr None"
      | (some) sim' where "repair_ternary_factories nm (pf ! i) d ?T pf c sim = Inr (Some sim')"
      using out unfolding repair_result_def
      by (cases "repair_ternary_factories nm (pf ! i) d ?T pf c sim") (auto split: option.splits)
    then show ?thesis
    proof cases
      case none
      then have no: "\<not> (\<exists>x \<in> set as. \<exists>y \<in> set bs. valid_pair p lo hi x y)"
        using out by (simp add: repair_result_def)
      have cut: "update_ternary_factories_field nm (pf ! i) i pf c sim = cut_off nm ?T (OInt (a * b)) (OInt ?r) i sim"
        using False none by (simp add: step needed)
      have bound: "\<exists>a' b' v. ?Q (set_value i (OInt w) sim) a' b' v" if "Some w \<in> {lo, hi}" for w
        using that no keep[of w] by metis
      consider h where "hi = Some h" "h < ?r" | l where "lo = Some l" "?r < l" "\<not> (\<exists>h. hi = Some h \<and> h < ?r)"
        | "in_range lo hi ?r" "\<not> (\<exists>h. hi = Some h \<and> h < ?r)" "\<not> (\<exists>l. lo = Some l \<and> ?r < l)"
        unfolding in_range_def by (cases lo; cases hi) force+
      then show ?thesis
      proof cases
        case (1 h)
        then show ?thesis using bound[of h] by (simp add: cut cut_off_int[OF nz])
      next
        case (2 l)
        from 2(3) have "(\<exists>h. hi = Some h \<and> h < ?r) = False" by blast
        then show ?thesis using 2 bound[of l] by (simp only: cut cut_off_int[OF nz]) simp
      next
        case 3
        then have "(\<exists>h. hi = Some h \<and> h < ?r) = False" "(\<exists>l. lo = Some l \<and> ?r < l) = False" by blast+
        then show ?thesis using False 3(1) no by (simp only: cut cut_off_int[OF nz]) simp
      qed
    next
      case some
      then obtain k l where "sim' = settle i ia ib k l (p div (k * l)) sim" "valid_pair p lo hi k l"
        "k \<in> insert a (set as)" "l \<in> insert b (set bs)"
        using out by (auto simp: repair_result_def)
      then have "?Q sim' k l (p div (k * l))" by (simp add: settled_def valid_pair_def)
      then have "\<exists>a' b' v. ?Q sim' a' b' v" by blast
      then show ?thesis using False some by (simp add: step needed)
    qed
  qed
qed


text \<open>Concrete fields: the witness of the repair, and behaviours of the decoder that its documentation does not mention.\<close>

section \<open>Example fields\<close>

definition number_field :: "string \<Rightarrow> int list \<Rightarrow> int \<Rightarrow> rat field" where
  "number_field n vs v = \<lparr>fname = n, config_position = ''env'', fmin = OOther 0, fmax = OOther 1, dtype = ''enum'', fvalue = OInt v,
     dtype_param = Values (map OInt vs), fconstant = ONone\<rparr>"

definition quotient_options :: "string \<Rightarrow> string \<Rightarrow> int \<Rightarrow> rat options" where
  "quotient_options m n p = \<lparr>target_name = None, target_names = Some [m, n], product = Some (OInt p), result_dtype = Some ''int'',
     min_value = None, max_value = None, priority_policy = None, priority = None\<rparr>"

definition derived_field :: "string \<Rightarrow> string \<Rightarrow> rat param \<Rightarrow> rat field" where
  "derived_field n dt p = \<lparr>fname = n, config_position = ''env'', fmin = OOther 0, fmax = OOther 0, dtype = dt, fvalue = OInt 0,
     dtype_param = p, fconstant = ONone\<rparr>"

lemmas example_defs = number_field_def quotient_options_def derived_field_def

lemma quotient_target: "target_of rat_numbers (quotient_options m n p) = int_target rat_numbers p (Some 1) None"
  by (simp add: target_of_def option_dtype_def int_target_def conv_int_def dtype_func_def quotient_options_def)

lemma enum_candidates:
  "dtype f = ''enum'' \<Longrightarrow> dtype_param f = Values (map OInt ks) \<Longrightarrow> candidates_of nm f ks"
  by (simp add: candidates_of_def field_candidates_def filter_map comp_def)

definition ranks :: "rat field list" where
  "ranks = [number_field ''tp'' [1, 2, 4, 8] 8, number_field ''pp'' [1, 3, 4] 3,
     derived_field ''dp'' ''ternary_factories'' (Options (quotient_options ''tp'' ''pp'' 32))]"

lemma ranks_derivation:
  "derivation rat_numbers ranks ranks (quotient_options ''tp'' ''pp'' 32) 2 0 1 8 3 [1, 2, 4, 8] [1, 3, 4]"
  unfolding derivation_def by (simp add: ranks_def example_defs enum_candidates)

theorem derived_value_settled_witness:
  "\<exists>a b v. update_ternary_factories_field rat_numbers (ranks ! 2) 2 ranks None ranks = Inr (settle 2 0 1 a b v ranks) \<and>
     settled 32 (Some 1) None a b v"
proof -
  have small: "small 32" "small (8 * 3)" by (simp_all add: small_def)
  have valid: "\<exists>x \<in> set [1, 2, 4, 8]. \<exists>y \<in> set [1, 3, 4]. valid_pair 32 (Some 1) None x y"
    by (rule bexI[of _ 8], rule bexI[of _ 4]) (simp_all add: valid_pair_def in_range_def)
  show ?thesis
    using derived_value_settled[OF rat_division_ok small(1) _ quotient_target ranks_derivation _ _ small(2), where c = None] valid
    by (simp split: sum.splits) blast
qed

section \<open>Behaviours\<close>

text \<open>The repair takes any candidate of a source: it changes the value of a source that is configured as a constant.\<close>

lemma repair_changes_constant:
  defines "pf \<equiv> [(number_field ''tp'' [1, 2, 4] 3)\<lparr>fconstant := OInt 3\<rparr>, number_field ''pp'' [1, 2] 1,
     derived_field ''dp'' ''ternary_factories'' (Options (quotient_options ''tp'' ''pp'' 16))]"
  shows "map_option (map fvalue) (case update_ternary_factories_field rat_numbers (pf ! 2) 2 pf None pf of Inr s \<Rightarrow> Some s | Inl _ \<Rightarrow> None) =
    Some [OInt 2, OInt 1, OInt 8]"
  unfolding pf_def by code_simp

text \<open>A field that was derived before a repair keeps the value it had for the old source: 16 / 3, although \<^verbatim>\<open>tp\<close> is 2 now.\<close>

lemma repair_leaves_stale:
  defines "pf \<equiv> [number_field ''tp'' [1, 2, 4] 3, number_field ''pp'' [1, 2] 1,
     derived_field ''dp'' ''factories'' (Options ((quotient_options ''tp'' ''pp'' 16)\<lparr>target_name := Some ''tp''\<rparr>)),
     derived_field ''ep'' ''ternary_factories'' (Options (quotient_options ''tp'' ''pp'' 16))]"
  shows "map_option (map fvalue) (case update_optimizer_value rat_numbers pf False None pf of Inr s \<Rightarrow> Some s | Inl _ \<Rightarrow> None) =
    Some [OInt 2, OInt 1, OInt 5, OInt 8]"
  unfolding pf_def by code_simp

end
