(* ===== verification/Opt_Round.thy ===== *)
theory Opt_Round
  imports Opt_Repair_Props
begin

text \<open>
  Available values, and the round trip of encoding: the position of a set of values decodes to these values.
\<close>

section \<open>Binary search\<close>

lemma sorted_nth_less:
  fixes xs :: "int list"
  assumes "sorted xs" "i < length xs"
  shows "xs ! i < x \<longleftrightarrow> i < length (filter (\<lambda>y. y < x) xs)"
  using assms
proof (induction xs arbitrary: i)
  case (Cons y ys)
  show ?case
  proof (cases "y < x")
    case True
    then show ?thesis using Cons by (cases i) auto
  next
    case False
    then have "filter (\<lambda>z. z < x) (y # ys) = []" using Cons.prems(1) by (auto simp: filter_empty_conv)
    moreover have "\<not> (y # ys) ! i < x" using False Cons.prems sorted_nth_mono[of "y # ys" 0 i] by simp
    ultimately show ?thesis by simp
  qed
qed simp

declare bisect_between.simps [simp del]

lemma bisect_between_int:
  assumes "sorted xs" "lo \<le> length (filter (\<lambda>y. y < x) xs)" "length (filter (\<lambda>y. y < x) xs) \<le> hi" "hi \<le> length xs"
  shows "bisect_between nm (map OInt xs) (OInt x) lo hi = Inr (length (filter (\<lambda>y. y < x) xs))"
  using assms
proof (induction "hi - lo" arbitrary: lo hi rule: less_induct)
  case less
  let ?c = "length (filter (\<lambda>y. y < x) xs)" and ?mid = "(lo + hi) div 2"
  show ?case
  proof (cases "lo < hi")
    case True
    then have mid: "lo \<le> ?mid" "?mid < hi" "?mid < length xs" using less.prems(4) by auto
    have split: "xs ! ?mid < x \<longleftrightarrow> ?mid < ?c" by (rule sorted_nth_less[OF less.prems(1) mid(3)])
    have "bisect_between nm (map OInt xs) (OInt x) (?mid + 1) hi = Inr ?c" if "xs ! ?mid < x"
      using less.hyps[of hi "?mid + 1"] less.prems mid split that by simp
    moreover have "bisect_between nm (map OInt xs) (OInt x) lo ?mid = Inr ?c" if "\<not> xs ! ?mid < x"
      using less.hyps[of ?mid lo] less.prems mid split that by simp
    ultimately show ?thesis using True mid(3) by (subst bisect_between.simps) (simp add: Let_def int_ops)
  next
    case False
    then show ?thesis using less.prems by (subst bisect_between.simps) simp
  qed
qed

lemma bisect_left_int: "sorted xs \<Longrightarrow> bisect_left nm (map OInt xs) (OInt x) = Inr (length (filter (\<lambda>y. y < x) xs))"
  by (simp add: bisect_left_def bisect_between_int)

text \<open>
  For a field with a sorted list of integers as its values, the available value for a request is the
  request itself when it is in the list, otherwise the least larger value of the list, or its last value when there is none.
\<close>

theorem available_value_next:
  fixes f :: "'o field"
  assumes "dtype f = ''enum''" "dtype_param f = Values (map OInt vs)" "vs \<noteq> []" "sorted vs" "float_of_int nm v = Inr x"
  shows "\<exists>w. find_available_value nm f (OInt v) = Inr (OInt w) \<and> w \<in> set vs \<and>
    (if \<exists>u \<in> set vs. v \<le> u then v \<le> w \<and> (\<forall>u \<in> set vs. v \<le> u \<longrightarrow> w \<le> u) else \<forall>u \<in> set vs. u \<le> w)"
proof -
  let ?c = "length (filter (\<lambda>y. y < v) vs)"
  have nostr: "\<not> is_str (hd (map OInt vs :: 'o obj list))" using assms(3) by (auto simp: hd_map)
  have conv: "conv_float nm (dtype f) (OInt v) = Inr (OOther x)"
    using assms(1,5) by (simp add: conv_float_def dtype_func_def to_float_def)
  have found: "find_available_value nm f (OInt v) =
      (if v \<in> set vs then Inr (OInt v) else Inr (if ?c = length vs then last (map OInt vs) else map OInt vs ! ?c))"
    using assms(1-4) nostr by (simp add: find_available_value_def conv[unfolded assms(1)] Let_def bisect_left_int mem_int)
  have le: "?c \<le> length vs" by simp
  show ?thesis
  proof (cases "v \<in> set vs")
    case True
    then show ?thesis by (auto simp: found)
  next
    case False
    show ?thesis
    proof (cases "?c = length vs")
      case True
      then have small: "\<forall>u \<in> set vs. u < v" by (metis filter_True length_filter_less less_irrefl)
      have "u \<le> last vs" if u: "u \<in> set vs" for u
      proof -
        obtain j where "j < length vs" "u = vs ! j" using u by (auto simp: in_set_conv_nth)
        then show ?thesis using assms(3,4) by (simp add: last_conv_nth sorted_nth_mono)
      qed
      then show ?thesis using False True assms(3) small by (force simp: found last_map)
    next
      case less: False
      with le have c: "?c < length vs" by (metis le_neq_implies_less)
      then have ge: "v \<le> vs ! ?c" using sorted_nth_less[OF assms(4) c, of v] by simp
      have "vs ! ?c \<le> u" if u: "u \<in> set vs" "v \<le> u" for u
      proof -
        obtain j where j: "j < length vs" "u = vs ! j" using u(1) by (auto simp: in_set_conv_nth)
        then have "?c \<le> j" using sorted_nth_less[OF assms(4) j(1), of v] u(2) by simp
        then show ?thesis using j assms(4) by (simp add: sorted_nth_mono)
      qed
      then show ?thesis using False less c ge by (auto simp: found intro!: exI[of _ "vs ! ?c"] bexI[of _ "vs ! ?c"])
    qed
  qed
qed

theorem available_value_next_witness:
  "find_available_value rat_numbers (number_field ''tp'' [1, 2, 4, 8] 1) (OInt 3) = Inr (OInt 4)"
proof -
  have f: "dtype (number_field ''tp'' [1, 2, 4, 8] 1) = ''enum''"
    "dtype_param (number_field ''tp'' [1, 2, 4, 8] 1) = Values (map OInt [1, 2, 4, 8])" "float_of_int rat_numbers 3 = Inr 3"
    by (simp_all add: number_field_def rat_numbers_def)
  obtain w where w: "find_available_value rat_numbers (number_field ''tp'' [1, 2, 4, 8] 1) (OInt 3) = Inr (OInt w)"
    "w \<in> set [1, 2, 4, 8]" "3 \<le> w" "\<forall>u \<in> set [1, 2, 4, 8]. 3 \<le> u \<longrightarrow> w \<le> u"
    using available_value_next[OF f(1,2) _ _ f(3)] by auto
  then have "w = 4" by auto
  then show ?thesis using w(1) by simp
qed

section \<open>Round trip of positions\<close>

text \<open>Floats that Python orders in the usual way: the switch threshold, and the segments of a list of values.\<close>

definition switch_ok :: "'o numbers \<Rightarrow> bool" where
  "switch_ok nm \<longleftrightarrow>
     (\<exists>off on. float_of_int nm 0 = Inr off \<and> float_of_int nm 1 = Inr on \<and>
        \<not> other_less nm (OOther (float_literal nm 5 1)) (OOther off) \<and> other_less nm (OOther (float_literal nm 5 1)) (OOther on))"

text \<open>The middle of each segment lies strictly inside of the range, above the entries before it and not above those after it.\<close>

definition middle_ok :: "'o numbers \<Rightarrow> 'o field \<Rightarrow> nat \<Rightarrow> nat \<Rightarrow> bool" where
  "middle_ok nm f n k \<longleftrightarrow>
     (let seg = linspace nm (fmin f) (fmax f) (n + 1)
      in length seg = n + 1 \<and>
         (\<exists>s m. py_binary nm Add (OOther (seg ! k)) (OOther (seg ! (k + 1))) = Inr s \<and> py_binary nm Div s (OInt 2) = Inr (OOther m) \<and>
            py_less_eq nm (OOther m) (fmin f) = Inr False \<and> py_less_eq nm (fmax f) (OOther m) = Inr False \<and>
            (\<forall>j < n + 1. less_num nm (OOther (seg ! j)) (OOther m) \<longleftrightarrow> j \<le> k)))"

text \<open>The value of a field has the type of the field.\<close>

definition value_fits :: "'o numbers \<Rightarrow> 'o field \<Rightarrow> bool" where
  "value_fits nm f \<longleftrightarrow>
     (if is_constant nm f
      then truthy_obj nm (fvalue f) \<longrightarrow> float_test nm (other_isinf nm) (fvalue f) = Inr True \<or>
        float_test nm (other_isinf nm) (fvalue f) = Inr False \<and> conv_int nm (dtype f) (fvalue f) = Inr (fvalue f)
      else if dtype f = ''int'' then \<exists>n x. fvalue f = OInt n \<and> float_of_int nm n = Inr x \<and> trunc_float nm x = Inr n
      else if dtype f = ''bool'' then \<exists>b. fvalue f = OBool b
      else if dtype f = ''enum''
      then \<exists>vs k. dtype_param f = Values (map OInt vs) \<and> distinct vs \<and> k < length vs \<and> fvalue f = OInt (vs ! k) \<and>
        middle_ok nm f (length vs) k
      else \<exists>x. fvalue f = OOther x)"

definition switched_on :: "'o numbers \<Rightarrow> 'o field \<Rightarrow> bool" where
  "switched_on nm f \<longleftrightarrow>
     \<not> is_constant nm f \<and> dtype f = ''bool'' \<and> fvalue f = OBool True \<and> contains (fname f) ''supportSelectBatch''"

definition time_field :: "'o field \<Rightarrow> bool" where
  "time_field f \<longleftrightarrow> contains (config_position f) ''prefillTimeMsPerReq'' \<or> contains (config_position f) ''decodeTimeMsPerReq''"

text \<open>A field that decoding does not treat in a special way.\<close>

definition plain :: "'o numbers \<Rightarrow> bool \<Rightarrow> 'o field \<Rightarrow> bool" where
  "plain nm on f \<longleftrightarrow>
     dtype f \<notin> {''ratio'', ''share'', ''factories'', ''times'', ''ternary_factories'', ''ternary_times''} \<and>
     fname f \<notin> set CONCURRENCYS \<and>
     (contains (config_position f) ''maxPrefillBatchSize'' \<longrightarrow> \<not> py_eq nm (fvalue f) (OInt 0)) \<and>
     (on \<longrightarrow> time_field f \<longrightarrow> fvalue f = OInt 0)"

lemma update_fvalue_id: "fvalue f = v \<Longrightarrow> f\<lparr>fvalue := v\<rparr> = f"
  by (cases f) simp

lemma searchsorted_middle:
  assumes "length seg = n" "k < n" "\<forall>j < n. less_num nm (OOther (seg ! j)) p \<longleftrightarrow> j \<le> k"
  shows "searchsorted nm seg p = k + 1"
proof -
  have "filter (\<lambda>j. j \<le> k) [0..<n] = [0..<k + 1]"
    by (rule sorted_distinct_set_unique) (use assms(2) in \<open>auto simp: sorted_wrt_filter sorted_append\<close>)
  moreover have "filter (\<lambda>j. less_num nm (OOther (seg ! j)) p) [0..<length seg] = filter (\<lambda>j. j \<le> k) [0..<n]"
    using assms(1,3) by (intro filter_cong) auto
  ultimately show ?thesis by (simp add: searchsorted_def filter_nth[of _ seg])
qed

lemma index_of_nth: "distinct vs \<Longrightarrow> k < length vs \<Longrightarrow> index_of nm (OInt (vs ! k)) (map OInt vs) = Some k"
proof (induction vs arbitrary: k)
  case (Cons v vs)
  then show ?case by (cases k) (auto simp: int_ops)
qed simp

lemma encode_decode_enum:
  assumes f: "dtype_param f = Values (map OInt vs)" "distinct vs" "k < length vs" "fvalue f = OInt (vs ! k)" "middle_ok nm f (length vs) k"
  shows "\<exists>m. encode_enum nm f = Inr (OOther m, f) \<and> decode_enum nm (OOther m) f = Inr (fvalue f)"
proof -
  let ?n = "length vs" and ?seg = "linspace nm (fmin f) (fmax f) (length vs + 1)"
  obtain s m where m: "py_binary nm Add (OOther (?seg ! k)) (OOther (?seg ! (k + 1))) = Inr s" "py_binary nm Div s (OInt 2) = Inr (OOther m)"
    "py_less_eq nm (OOther m) (fmin f) = Inr False" "py_less_eq nm (fmax f) (OOther m) = Inr False"
    "\<forall>j < ?n + 1. less_num nm (OOther (?seg ! j)) (OOther m) \<longleftrightarrow> j \<le> k" and len: "length ?seg = ?n + 1"
    using f(5) unfolding middle_ok_def Let_def by blast
  have mem: "mem nm (OInt (vs ! k)) (map OInt vs)" using f(3) by (simp add: mem_int)
  have same: "f\<lparr>dtype_param := Values (map OInt vs)\<rparr> = f" using f(1) by (cases f) simp
  have "encode_enum nm f = Inr (OOther m, f)"
    using f m by (simp add: encode_enum_def insert_enum_def mem index_of_nth Let_def same)
  moreover have "searchsorted nm ?seg (OOther m) = k + 1"
    by (rule searchsorted_middle[OF len]) (use f(3) m(5) in auto)
  then have "decode_number_enum nm (OOther m) f (map OInt vs) = Inr (OInt (vs ! k))"
    using m f(3) by (simp add: decode_number_enum_def item_def at_index_def Let_def)
  then have "decode_enum nm (OOther m) f = Inr (fvalue f)"
    using f by (cases vs) (auto simp: decode_enum_def)
  ultimately show ?thesis by blast
qed

lemma encode_decode_field:
  assumes "switch_ok nm" "value_fits nm f" "\<not> is_constant nm f"
  shows "\<exists>p x. encode_field nm f = Inr (p, f) \<and> py_float nm p = Inr x \<and>
    decode_searched nm (OOther x) f = Inr (fvalue f, switched_on nm f)"
proof -
  consider (int) "dtype f = ''int''" | (bool) "dtype f = ''bool''" | (enum) "dtype f = ''enum''"
    | (float) "dtype f \<notin> {''int'', ''bool'', ''enum''}" by auto
  then show ?thesis
  proof cases
    case int
    then obtain n x where "fvalue f = OInt n" "float_of_int nm n = Inr x" "trunc_float nm x = Inr n"
      using assms unfolding value_fits_def by auto
    then show ?thesis using int
      by (auto simp: encode_field_def decode_searched_def decode_int_def to_int_def switched_on_def)
  next
    case bool
    then obtain b where b: "fvalue f = OBool b" using assms unfolding value_fits_def by auto
    obtain off on where sw: "float_of_int nm 0 = Inr off" "float_of_int nm 1 = Inr on"
      "\<not> other_less nm (OOther (float_literal nm 5 1)) (OOther off)" "other_less nm (OOther (float_literal nm 5 1)) (OOther on)"
      using assms(1) unfolding switch_ok_def by blast
    show ?thesis using bool b sw assms(3)
      by (cases b) (auto simp: encode_field_def decode_searched_def switched_on_def py_less_def compare_with_def)
  next
    case enum
    then obtain vs k where "dtype_param f = Values (map OInt vs)" "distinct vs" "k < length vs" "fvalue f = OInt (vs ! k)"
      "middle_ok nm f (length vs) k"
      using assms unfolding value_fits_def by auto
    from encode_decode_enum[OF this] show ?thesis using enum
      by (auto simp: encode_field_def decode_searched_def switched_on_def)
  next
    case float
    then obtain x where "fvalue f = OOther x" using assms unfolding value_fits_def by auto
    then show ?thesis using float by (auto simp: encode_field_def decode_searched_def switched_on_def)
  qed
qed


lemma encode_decode_fields:
  assumes "switch_ok nm" "list_all (value_fits nm) fs"
  shows "\<exists>objs ps c. encode_fields nm fs conc = Inr (objs, fs, c) \<and> map_sum_list (py_float nm) objs = Inr ps \<and>
    (\<forall>pre. decode_fields nm (pre @ ps) (length pre) fs = Inr (fs, list_ex (switched_on nm) fs)) \<and>
    (list_all (\<lambda>f. dtype f \<noteq> ''ratio'' \<and> fname f \<notin> set CONCURRENCYS) fs \<longrightarrow>
       (\<forall>all c. reverse_special_field nm all fs c ps = Inr ps))"
  using assms(2)
proof (induction fs arbitrary: conc)
  case Nil
  then show ?case by simp
next
  case (Cons f fs)
  have fits: "value_fits nm f" and rest: "list_all (value_fits nm) fs" using Cons.prems by simp_all
  show ?case
  proof (cases "is_constant nm f")
    case True
    obtain objs ps c where IH: "encode_fields nm fs conc = Inr (objs, fs, c)" "map_sum_list (py_float nm) objs = Inr ps"
      "\<forall>pre. decode_fields nm (pre @ ps) (length pre) fs = Inr (fs, list_ex (switched_on nm) fs)"
      "list_all (\<lambda>f. dtype f \<noteq> ''ratio'' \<and> fname f \<notin> set CONCURRENCYS) fs \<longrightarrow>
         (\<forall>all c. reverse_special_field nm all fs c ps = Inr ps)"
      using Cons.IH[OF rest, of conc] by blast
    have "decode_constant nm (pre @ ps) (length pre) f = Inr (fvalue f)" for pre
      using fits True by (auto simp: value_fits_def decode_constant_def)
    then have "decode_fields nm (pre @ ps) (length pre) (f # fs) = Inr (f # fs, list_ex (switched_on nm) (f # fs))" for pre
      using True IH(3) by (simp add: update_fvalue_id switched_on_def)
    then show ?thesis using True IH by (intro exI[of _ objs] exI[of _ ps] exI[of _ c]) simp
  next
    case False
    obtain p x where f: "encode_field nm f = Inr (p, f)" "py_float nm p = Inr x"
      "decode_searched nm (OOther x) f = Inr (fvalue f, switched_on nm f)"
      using encode_decode_field[OF assms(1) fits False] by blast
    obtain objs ps c where IH: "encode_fields nm fs (if sets_concurrency f then fvalue f else conc) = Inr (objs, fs, c)"
      "map_sum_list (py_float nm) objs = Inr ps"
      "\<forall>pre. decode_fields nm (pre @ ps) (length pre) fs = Inr (fs, list_ex (switched_on nm) fs)"
      "list_all (\<lambda>f. dtype f \<noteq> ''ratio'' \<and> fname f \<notin> set CONCURRENCYS) fs \<longrightarrow>
         (\<forall>all c. reverse_special_field nm all fs c ps = Inr ps)"
      using Cons.IH[OF rest, of "if sets_concurrency f then fvalue f else conc"] by blast
    have "decode_fields nm (pre @ x # ps) (length pre) (f # fs) = Inr (f # fs, list_ex (switched_on nm) (f # fs))" for pre
      using False f(3) IH(3)[rule_format, of "pre @ [x]"] by (simp add: position_at_def update_fvalue_id)
    then show ?thesis using False f IH
      by (intro exI[of _ "p # objs"] exI[of _ "x # ps"] exI[of _ c]) (simp add: concurrency_entry_def)
  qed
qed

lemma update_plain:
  assumes "plain nm on (fs ! i)" "i < length fs"
  shows "update_field_value nm fs on c i fs = Inr fs"
  using assms by (auto simp: update_field_value_def derive_def plain_def time_field_def Let_def set_value_id)

lemma fold_sum_fixed: "(\<And>x. x \<in> set xs \<Longrightarrow> f x b = Inr b) \<Longrightarrow> fold_sum f xs b = Inr b"
  by (induction xs) simp_all

text \<open>
  Property C28. Encoding the values of fields succeeds and leaves the fields as they are, and decoding the position gives the values back,
  under these conditions. Every value fits its field: an integer that floats represent, a Boolean, one of the distinct integers of an
  enumeration whose segments are told apart, a float, or for a constant a value that its type converts to itself. No field is
  derived from another one (ratio, share, factories, times and their ternary forms), and none is one of the concurrency fields.
  A \<^verbatim>\<open>maxPrefillBatchSize\<close> is not 0, and when the switch \<^verbatim>\<open>supportSelectBatch\<close> is on the times per
  request are 0. The floats of 0 and 1 are on the two sides of 0.5.
\<close>

theorem position_round_trip:
  assumes "switch_ok nm" "list_all (value_fits nm) fs" "list_all (plain nm (list_ex (switched_on nm) fs)) fs"
  shows "\<exists>ps. field_to_param nm fs = Inr (ps, fs) \<and> map_param_with_value nm ps fs context = Inr fs"
proof -
  obtain objs ps c where E: "encode_fields nm fs ONone = Inr (objs, fs, c)" "map_sum_list (py_float nm) objs = Inr ps"
    "\<forall>pre. decode_fields nm (pre @ ps) (length pre) fs = Inr (fs, list_ex (switched_on nm) fs)"
    "list_all (\<lambda>f. dtype f \<noteq> ''ratio'' \<and> fname f \<notin> set CONCURRENCYS) fs \<longrightarrow>
       (\<forall>all c. reverse_special_field nm all fs c ps = Inr ps)"
    using encode_decode_fields[OF assms(1,2), of ONone] by blast
  have "list_all (\<lambda>f. dtype f \<noteq> ''ratio'' \<and> fname f \<notin> set CONCURRENCYS) fs"
    using assms(3) by (auto simp: list_all_iff plain_def)
  then have "field_to_param nm fs = Inr (ps, fs)" using E by (simp add: field_to_param_def)
  moreover have "update_optimizer_value nm fs (list_ex (switched_on nm) fs) context fs = Inr fs"
    unfolding update_optimizer_value_def
    by (rule fold_sum_fixed, rule update_plain) (use assms(3) in \<open>auto simp: list_all_length\<close>)
  then have "map_param_with_value nm ps fs context = Inr fs"
    using E(3)[rule_format, of "[]"] by (simp add: map_param_with_value_def)
  ultimately show ?thesis by blast
qed

definition plain_fields :: "rat field list" where
  "plain_fields = [number_field ''tp'' [1, 2, 4, 8] 4,
     \<lparr>fname = ''max_batch_size'', config_position = ''BackendConfig.ScheduleConfig.maxBatchSize'', fmin = OOther 10,
       fmax = OOther 1000, dtype = ''int'', fvalue = OInt 128, dtype_param = NoParam, fconstant = ONone\<rparr>,
     \<lparr>fname = ''support_select_batch'', config_position = ''BackendConfig.ScheduleConfig.supportSelectBatch'', fmin = OOther 0,
       fmax = OOther 1, dtype = ''bool'', fvalue = OBool True, dtype_param = NoParam, fconstant = ONone\<rparr>,
     \<lparr>fname = ''host'', config_position = ''env'', fmin = OOther 3, fmax = OOther 3, dtype = ''int'', fvalue = OInt 3,
       dtype_param = NoParam, fconstant = OInt 3\<rparr>]"

lemma rat_switch_ok: "switch_ok rat_numbers"
  by (simp add: switch_ok_def rat_numbers_def rat_compare_def)

lemma plain_middle: "middle_ok rat_numbers (number_field ''tp'' [1, 2, 4, 8] 4) 4 2"
proof -
  have seg: "linspace rat_numbers (OOther 0) (OOther 1) 5 = [0, 1 / 4, 1 / 2, 3 / 4, 1]" by code_simp
  have five: "j < 5 \<longleftrightarrow> j = 0 \<or> j = 1 \<or> j = 2 \<or> j = 3 \<or> j = (4::nat)" for j by auto
  have "py_binary rat_numbers Add (OOther (1 / 2)) (OOther (3 / 4)) = Inr (OOther (5 / 4))" by code_simp
  moreover have "py_binary rat_numbers Div (OOther (5 / 4)) (OInt 2) = Inr (OOther (5 / 8))" by code_simp
  moreover have "less_num rat_numbers (OOther a) (OOther b) \<longleftrightarrow> a < b" for a b
    by (simp add: less_num_def py_less_def compare_with_def rat_numbers_def rat_compare_def)
  moreover have "py_less_eq rat_numbers (OOther a) (OOther b) = Inr (a \<le> b)" for a b
    by (simp add: py_less_eq_def compare_with_def rat_numbers_def rat_compare_def)
  ultimately show ?thesis
    unfolding middle_ok_def by (auto simp: number_field_def seg Let_def five intro!: exI[of _ "OOther (5 / 4)"] exI[of _ "5 / 8"])
qed

lemma plain_fields_fit: "list_all (value_fits rat_numbers) plain_fields"
proof -
  have "value_fits rat_numbers (number_field ''tp'' [1, 2, 4, 8] 4)"
  proof -
    have "\<exists>vs k. Values (map OInt [1, 2, 4, 8]) = (Values (map OInt vs) :: rat param) \<and> distinct vs \<and> k < length vs \<and>
      OInt 4 = (OInt (vs ! k) :: rat obj) \<and> middle_ok rat_numbers (number_field ''tp'' [1, 2, 4, 8] 4) (length vs) k"
      using plain_middle by (intro exI[of _ "[1, 2, 4, 8]"] exI[of _ 2]) (simp add: eval_nat_numeral)
    then show ?thesis
      by (simp add: value_fits_def is_constant_def number_field_def rat_numbers_def rat_compare_def)
  qed
  moreover have "list_all (value_fits rat_numbers) (tl plain_fields)"
    by (auto simp: plain_fields_def value_fits_def is_constant_def rat_numbers_def rat_compare_def truncate_def conv_int_def
        dtype_func_def to_int_def)
  moreover have "plain_fields = number_field ''tp'' [1, 2, 4, 8] 4 # tl plain_fields" by (simp add: plain_fields_def)
  ultimately show ?thesis by (metis list_all_iff list.set_sel set_ConsD)
qed

lemma plain_fields_plain: "list_all (plain rat_numbers b) plain_fields"
  by (simp add: plain_fields_def plain_def time_field_def number_field_def CONCURRENCYS_def)

theorem position_round_trip_witness:
  "\<exists>ps. field_to_param rat_numbers plain_fields = Inr (ps, plain_fields) \<and>
     map_param_with_value rat_numbers ps plain_fields None = Inr plain_fields"
  by (rule position_round_trip[OF rat_switch_ok plain_fields_fit plain_fields_plain])

section \<open>Special treatment\<close>

text \<open>
  The times are cleared when the switch \<^verbatim>\<open>supportSelectBatch\<close> is on, although the parameter is called
  \<open>support_select_is_false\<close> and the comment says that the times take effect when it is on.
\<close>

lemma switch_on_clears_times:
  assumes "dtype v = ''bool''" "contains (fname v) ''supportSelectBatch''" "py_less nm (OOther (float_literal nm 5 1)) p = Inr True"
    and "update_field_value nm pf True c i sim = Inr sim'" "i < length sim'" "time_field (sim' ! i)"
  shows "decode_searched nm p v = Inr (OBool True, True)" "fvalue (sim' ! i) = OInt 0"
proof -
  show "decode_searched nm p v = Inr (OBool True, True)" using assms(1-3) by (simp add: decode_searched_def)
  obtain sim1 where "derive nm (pf ! i) i pf c sim = Inr sim1" using assms(4) by (auto simp: update_field_value_def bind_sum_Inr)
  then show "fvalue (sim' ! i) = OInt 0" using assms(4-6)
    by (auto simp: update_field_value_def Let_def time_field_def set_value_def split: if_splits)
qed

text \<open>A constant field with a string makes the decoder raise: the test for infinity does not accept strings.\<close>

lemma constant_string_raises:
  "fvalue v = OStr s \<Longrightarrow> s \<noteq> [] \<Longrightarrow> decode_constant nm ps i v = Inl (PyErr TypeErr)"
  by (simp add: decode_constant_def)

text \<open>A string that is no number is not accepted for a field with string values: it is converted to a float first.\<close>

lemma string_enum_raises:
  "dtype f = ''enum'' \<Longrightarrow> parse_float nm s = Inl e \<Longrightarrow> find_available_value nm f (OStr s) = Inl e"
  by (simp add: find_available_value_def conv_float_def dtype_func_def to_float_def)

text \<open>A step that does not divide the range gives a value beyond its maximum.\<close>

lemma range_exceeds_maximum:
  "range_field nm \<lparr>fname = n, config_position = p, fmin = OInt 0, fmax = OInt 5, dtype = ''range'', fvalue = v,
     dtype_param = OtherParam (OInt 2), fconstant = k\<rparr> =
   Inr \<lparr>fname = n, config_position = p, fmin = OInt 0, fmax = OInt 1, dtype = ''enum'', fvalue = v,
     dtype_param = Values [OInt 0, OInt 2, OInt 4, OInt 6], fconstant = k\<rparr>"
  by (simp add: range_field_def py_range_def upt_rec)

end
