(* ===== verification/Opt_Health.thy ===== *)
theory Opt_Health
  imports Opt_Field
begin

text \<open>
  Health checks of the optimizer: \<^verbatim>\<open>ms_serviceparam_optimizer/optimizer/health_check.py\<close>, the error kinds of
  \<^verbatim>\<open>config/config.py\<close> and the cost of a measurement, \<^verbatim>\<open>optimizer/performance_tunner.py\<close>.

  A check is a program over the state of the servers. What it raises is one of the exceptions the scheduler tells apart.
\<close>

section \<open>Errors\<close>

datatype severity = FATAL | RETRYABLE

datatype error_type = OUT_OF_MEMORY | DEVICE_ERROR | NETWORK_ERROR | IO_ERROR | UNKNOWN

datatype exn = FatalError | RetryableError | SubprocessError | TimeoutError | OtherException

record error_context =
  context_type :: error_type
  context_severity :: severity
  log_snippet :: string

record health_result =
  is_healthy :: bool
  error_context :: "error_context option"

definition healthy :: health_result where
  "healthy = \<lparr>is_healthy = True, error_context = None\<rparr>"

definition unhealthy :: "error_type \<Rightarrow> severity \<Rightarrow> string \<Rightarrow> health_result" where
  "unhealthy t s log = \<lparr>is_healthy = False, error_context = Some \<lparr>context_type = t, context_severity = s, log_snippet = log\<rparr>\<rparr>"

section \<open>Patterns in logs\<close>

definition lower_char :: "char \<Rightarrow> char" where
  "lower_char c = (let n = of_char c :: nat in if 65 \<le> n \<and> n \<le> 90 then char_of (n + 32) else c)"

definition lower_string :: "string \<Rightarrow> string" where
  "lower_string s = map lower_char s"

fun substring :: "string \<Rightarrow> string \<Rightarrow> bool" where
  "substring t [] = (t = [])"
| "substring t (c # s) = (startswith (c # s) t \<or> substring t s)"

definition last_chars :: "nat \<Rightarrow> string \<Rightarrow> string" where
  "last_chars n s = (if n = 0 then s else drop (length s - n) s)"

text \<open>\<^verbatim>\<open>_check_log_patterns\<close>\<close>

fun check_log_patterns :: "string \<Rightarrow> (error_type \<times> string list) list \<Rightarrow> severity \<Rightarrow> nat \<Rightarrow> health_result option" where
  "check_log_patterns log [] s n = None"
| "check_log_patterns log ((t, ps) # rest) s n =
     (if list_ex (\<lambda>p. substring (lower_string p) (lower_string log)) ps
      then Some (unhealthy t s (last_chars n log)) else check_log_patterns log rest s n)"

record pattern_config =
  fatal_patterns :: "(error_type \<times> string list) list"
  retryable_patterns :: "(error_type \<times> string list) list"

text \<open>\<^verbatim>\<open>check_log_errors\<close> of either side; \<open>None\<close> for an object without a log.\<close>

definition check_log_errors :: "pattern_config \<Rightarrow> nat \<Rightarrow> (nat \<Rightarrow> ('s, exn, string) prog) option \<Rightarrow> ('s, exn, health_result option) prog" where
  "check_log_errors cfg n get_last_log =
     (case get_last_log of
        None \<Rightarrow> ret (Some healthy)
      | Some get \<Rightarrow>
          andthen (get n) (\<lambda>log.
            case check_log_patterns log (fatal_patterns cfg) FATAL n of
              Some r \<Rightarrow> ret (Some r)
            | None \<Rightarrow>
                (case check_log_patterns log (retryable_patterns cfg) RETRYABLE n of
                   Some r \<Rightarrow> ret (Some r)
                 | None \<Rightarrow> ret (Some healthy))))"

section \<open>Hooks\<close>

datatype hook_point = STARTUP_POLLING | RUNTIME_MONITOR

type_synonym 's check = "('s, exn, health_result option) prog"
type_synonym 's hooks = "(hook_point, (int \<times> 's check) list) dict"

definition register_check :: "hook_point \<Rightarrow> 's check \<Rightarrow> int \<Rightarrow> 's hooks \<Rightarrow> 's hooks" where
  "register_check p f prio hooks =
     dict_set p ((case dict_get hooks p of None \<Rightarrow> [] | Some hs \<Rightarrow> hs) @ [(prio, f)]) hooks"

text \<open>The loop over the sorted checks: the first failure counts; a check that raises is a fatal failure.\<close>

fun run_checks :: "(int \<times> 's check) list \<Rightarrow> 's \<Rightarrow> health_result \<times> 's" where
  "run_checks [] s = (healthy, s)"
| "run_checks ((prio, f) # hs) s =
     (case f s of
        (Inl e, s') \<Rightarrow> (unhealthy UNKNOWN FATAL [], s')
      | (Inr (Some r), s') \<Rightarrow> if \<not> is_healthy r then (r, s') else run_checks hs s'
      | (Inr None, s') \<Rightarrow> run_checks hs s')"

definition run_hooks :: "'s hooks \<Rightarrow> hook_point \<Rightarrow> 's \<Rightarrow> health_result \<times> 's" where
  "run_hooks hooks p s =
     (case dict_get hooks p of None \<Rightarrow> (healthy, s) | Some hs \<Rightarrow> run_checks (sort_key fst hs) s)"

section \<open>Cost\<close>

record 'o performance =
  generate_speed :: "'o obj"
  time_to_first_token :: "'o obj"
  time_per_output_token :: "'o obj"
  success_rate :: "'o obj"
  throughput :: "'o obj"

definition no_performance :: "'o performance" where
  "no_performance = \<lparr>generate_speed = ONone, time_to_first_token = ONone, time_per_output_token = ONone, success_rate = ONone,
     throughput = ONone\<rparr>"

record 'o tuner =
  gen_speed_target :: "'o obj"
  ttft_slo :: "'o obj"
  tpot_slo :: "'o obj"
  success_rate_slo :: "'o obj"
  ttft_penalty :: "'o obj"
  tpot_penalty :: "'o obj"
  success_rate_penalty :: "'o obj"
  exp_float :: "'o obj \<Rightarrow> 'o option"

text \<open>\<^verbatim>\<open>exp(penalty * (a / b - 1))\<close>; \<open>None\<close> is an overflow or a division by zero.\<close>

definition exp_cost :: "'o numbers \<Rightarrow> 'o tuner \<Rightarrow> 'o obj \<Rightarrow> 'o obj \<Rightarrow> 'o obj \<Rightarrow> perr + 'o obj option" where
  "exp_cost nm t penalty a b =
     (case bind_sum (py_binary nm Div a b) (\<lambda>q. bind_sum (py_binary nm Sub q (OInt 1)) (py_binary nm Mult penalty)) of
        Inl (PyErr ZeroDivErr) \<Rightarrow> Inr None
      | Inl TooLarge \<Rightarrow> Inr None
      | Inl e \<Rightarrow> Inl e
      | Inr x \<Rightarrow> Inr (map_option OOther (exp_float t x)))"

definition add_cost :: "'o numbers \<Rightarrow> 'o \<Rightarrow> 'o obj option \<Rightarrow> 'o obj \<Rightarrow> perr + 'o obj option" where
  "add_cost nm w cost acc =
     (case cost of
        None \<Rightarrow> Inr None
      | Some c \<Rightarrow> bind_sum (py_binary nm Mult (OOther w) c) (\<lambda>x. bind_sum (py_binary nm Add acc x) (\<lambda>y. Inr (Some y))))"

definition positive_value :: "'o numbers \<Rightarrow> 'o obj \<Rightarrow> perr + bool" where
  "positive_value nm x = (if x = ONone then Inr False else py_less nm (OInt 0) x)"

text \<open>One part of the cost that is skipped unless its condition holds.\<close>

definition cost_part ::
  "'o numbers \<Rightarrow> 'o tuner \<Rightarrow> 'o \<Rightarrow> 'o obj \<Rightarrow> 'o obj \<Rightarrow> 'o obj \<Rightarrow> perr + 'o obj option \<Rightarrow> perr + 'o obj option" where
  "cost_part nm t w penalty measured slo acc =
     bind_sum acc (\<lambda>r.
       case r of
         None \<Rightarrow> Inr None
       | Some x \<Rightarrow>
           bind_sum (if measured = ONone then Inr False else py_less nm (OInt 0) slo) (\<lambda>used.
             if used then bind_sum (exp_cost nm t penalty measured slo) (\<lambda>c. add_cost nm w c x) else Inr (Some x)))"

text \<open>\<^verbatim>\<open>minimum_algorithm\<close>; \<open>None\<close> is the cost \<^verbatim>\<open>inf\<close>.\<close>

definition minimum_algorithm :: "'o numbers \<Rightarrow> 'o tuner \<Rightarrow> 'o performance \<Rightarrow> perr + 'o obj option" where
  "minimum_algorithm nm t p =
     bind_sum (positive_value nm (generate_speed p)) (\<lambda>ok.
       if \<not> ok then Inr None
       else
         bind_sum
           (cost_part nm t (float_literal nm 3 1) (tpot_penalty t) (time_per_output_token p) (tpot_slo t)
             (cost_part nm t (float_literal nm 2 1) (ttft_penalty t) (time_to_first_token p) (ttft_slo t)
               (bind_sum (py_binary nm Div (gen_speed_target t) (generate_speed p)) (\<lambda>c.
                  add_cost nm (float_literal nm 4 1) (Some c) (OOther (float_literal nm 0 0))))))
           (\<lambda>r.
             case r of
               None \<Rightarrow> Inr None
             | Some acc \<Rightarrow>
                 bind_sum (positive_value nm (success_rate p)) (\<lambda>ok.
                   if \<not> ok then Inr None
                   else bind_sum (exp_cost nm t (success_rate_penalty t) (success_rate_slo t) (success_rate p)) (\<lambda>c.
                          add_cost nm (float_literal nm 1 1) c acc))))"

end
