(* ===== verification/Opt_Sched.thy ===== *)
theory Opt_Sched
  imports Opt_Params Opt_Health
begin

text \<open>
  Running the server under test: \<^verbatim>\<open>ms_serviceparam_optimizer/optimizer/scheduler.py\<close> (\<open>Scheduler\<close>).

  The inference server (\<open>simulator\<close>) and the benchmark are the record \<open>servers\<close> of programs over a state \<open>'s\<close>, which also holds the
  clock, the files and the backup folders. The methods an object may lack are optional. \<open>bench_update_command\<close> hands the
  fields to the benchmark and rebuilds its command. Loops that sleep have as many rounds as the code gives them. Log
  messages and the time stamps of a row are not modelled. When one of several request rates cannot be set, none is.
\<close>

section \<open>State\<close>

datatype stage = Start | Running | Error | Stop

type_synonym ('s, 'a) action = "('s, exn, 'a) prog"

record ('o, 's) servers =
  pause :: "'s \<Rightarrow> 's"
  set_back_up_path :: "('s, unit) action"
  sim_run :: "'o field list \<Rightarrow> ('s, unit) action"
  sim_check_success :: "('s, bool) action option"
  sim_health :: "('s, stage) action option"
  sim_poll :: "('s, int option) action option"
  sim_stop :: "bool \<Rightarrow> ('s, unit) action"
  bench_prepare :: "('s, unit) action option"
  bench_run :: "'o field list \<Rightarrow> ('s, unit) action"
  bench_check_success :: "('s, bool) action"
  bench_health :: "('s, stage) action"
  bench_stop :: "bool \<Rightarrow> ('s, unit) action"
  bench_update_command :: "'o field list \<Rightarrow> ('s, unit) action"
  get_performance_index :: "('s, 'o performance) action"
  update_data_field :: "'o field list \<Rightarrow> ('s, unit) action"
  backup :: "('s, unit) action"
  store_row :: "('s, unit) action"
  service_checks :: "'s hooks"
  benchmark_checks :: "'s hooks"
  builtin_simulator :: bool
  wait_time :: nat
  particles_time_out :: nat
  retry_number :: nat

text \<open>What ended a run: an exception, or the note that the parameters were evaluated before.\<close>

datatype run_note = Failed exn | Skipped

record 'o row =
  row_performance :: "'o performance"
  row_params :: "'o field list"
  row_error :: "run_note option"
  row_fitness :: "'o obj option"

record ('o, 's) sched =
  env :: 's
  simulate_run_info :: "'o field list"
  performance_index :: "'o performance"
  error_info :: "run_note option"
  rows :: "'o row list"

definition lift_env :: "('s, 'a) action \<Rightarrow> (('o, 's) sched, 'a) action" where
  "lift_env f s = (case f (env s) of (r, e) \<Rightarrow> (r, s\<lparr>env := e\<rparr>))"

definition optional :: "('s, unit) action option \<Rightarrow> ('s, unit) action" where
  "optional f = (case f of None \<Rightarrow> ret () | Some g \<Rightarrow> g)"

definition sleep :: "('o, 's) servers \<Rightarrow> ('s, unit) action" where
  "sleep sv = modify (pause sv)"

section \<open>Starting and watching\<close>

definition handle_error :: "error_context option \<Rightarrow> ('s, 'a) action" where
  "handle_error c =
     (case c of
        None \<Rightarrow> raise OtherException
      | Some c \<Rightarrow> raise (if context_severity c = FATAL then FatalError else RetryableError))"

definition check_health :: "'s hooks \<Rightarrow> hook_point \<Rightarrow> ('s, unit) action" where
  "check_health hooks p s = (case run_hooks hooks p s of (r, s') \<Rightarrow> if is_healthy r then (Inr (), s') else handle_error (error_context r) s')"

text \<open>One poll of a server that starts: \<open>True\<close> when it is up.\<close>

definition poll_start :: "('o, 's) servers \<Rightarrow> ('s, bool) action" where
  "poll_start sv =
     andthen (case sim_check_success sv of None \<Rightarrow> ret False | Some f \<Rightarrow> f) (\<lambda>up.
       if up then ret True
       else case sim_health sv of
              None \<Rightarrow> raise OtherException
            | Some health \<Rightarrow>
                andthen health (\<lambda>st.
                  if st = Running then ret True
                  else if st \<in> {Stop, Error} then raise SubprocessError
                  else ret False))"

fun wait_simulate :: "('o, 's) servers \<Rightarrow> nat \<Rightarrow> ('s, unit) action" where
  "wait_simulate sv 0 = raise TimeoutError"
| "wait_simulate sv (Suc n) =
     andthen (sleep sv) (\<lambda>_.
     andthen (check_health (service_checks sv) STARTUP_POLLING) (\<lambda>_.
     andthen (poll_start sv) (\<lambda>up. if up then ret () else wait_simulate sv n)))"

definition run_simulate :: "('o, 's) servers \<Rightarrow> 'o field list \<Rightarrow> ('s, unit) action" where
  "run_simulate sv info =
     andthen (optional (bench_prepare sv)) (\<lambda>_.
     andthen (sim_run sv info) (\<lambda>_. wait_simulate sv (wait_time sv)))"

text \<open>One round of \<^verbatim>\<open>monitoring_status\<close>: \<open>True\<close> when the benchmark is done.\<close>

definition poll_process :: "('o, 's) servers \<Rightarrow> ('s, unit) action" where
  "poll_process sv =
     (case sim_poll sv of
        None \<Rightarrow> ret ()
      | Some p \<Rightarrow> andthen p (\<lambda>code. if code \<noteq> None then raise SubprocessError else ret ()))"

definition monitor_round :: "('o, 's) servers \<Rightarrow> ('s, bool) action" where
  "monitor_round sv =
     andthen (check_health (service_checks sv) RUNTIME_MONITOR) (\<lambda>_.
     andthen (check_health (benchmark_checks sv) RUNTIME_MONITOR) (\<lambda>_.
     andthen (if sim_check_success sv = None then ret False
              else andthen (poll_process sv) (\<lambda>_. bench_check_success sv)) (\<lambda>finished.
       if finished then ret True
       else case sim_health sv of
              None \<Rightarrow> ret False
            | Some health \<Rightarrow>
                andthen (if builtin_simulator sv then ret ()
                         else andthen health (\<lambda>st. if st \<noteq> Running then raise SubprocessError else ret ())) (\<lambda>_.
                andthen (bench_health sv) (\<lambda>st. ret (st \<noteq> Running))))))"

fun monitoring_status :: "('o, 's) servers \<Rightarrow> nat \<Rightarrow> ('s, unit) action" where
  "monitoring_status sv 0 = raise TimeoutError"
| "monitoring_status sv (Suc n) =
     andthen (monitor_round sv) (\<lambda>finished.
       if finished then ret () else andthen (sleep sv) (\<lambda>_. monitoring_status sv n))"

definition stop_target_server :: "('o, 's) servers \<Rightarrow> bool \<Rightarrow> ('s, unit) action" where
  "stop_target_server sv del_log = andthen (sim_stop sv del_log) (\<lambda>_. bench_stop sv del_log)"

definition attempt :: "('o, 's) servers \<Rightarrow> 'o field list \<Rightarrow> ('s, unit) action" where
  "attempt sv info =
     andthen (run_simulate sv info) (\<lambda>_.
     andthen (sleep sv) (\<lambda>_.
     andthen (bench_run sv info) (\<lambda>_.
     andthen (sleep sv) (\<lambda>_. monitoring_status sv (particles_time_out sv)))))"

text \<open>\<^verbatim>\<open>run_target_server\<close>: a fatal error ends it, a retryable one starts the next attempt, everything else passes through.\<close>

fun run_target_server :: "('o, 's) servers \<Rightarrow> 'o field list \<Rightarrow> nat \<Rightarrow> ('s, unit) action" where
  "run_target_server sv info 0 = raise OtherException"
| "run_target_server sv info (Suc n) =
     (\<lambda>s. case attempt sv info s of
        (Inr _, s') \<Rightarrow> (Inr (), s')
      | (Inl FatalError, s') \<Rightarrow> andthen (stop_target_server sv False) (\<lambda>_. raise FatalError) s'
      | (Inl RetryableError, s') \<Rightarrow> andthen (stop_target_server sv False) (\<lambda>_. run_target_server sv info n) s'
      | (Inl e, s') \<Rightarrow> (Inl e, s'))"

section \<open>Evaluating a position\<close>

fun exn_of :: "perr \<Rightarrow> exn" where
  "exn_of _ = OtherException"

definition pure_step :: "perr + 'a \<Rightarrow> ('s, 'a) action" where
  "pure_step r = (case r of Inl e \<Rightarrow> raise (exn_of e) | Inr x \<Rightarrow> ret x)"

definition set_run_info :: "'o field list \<Rightarrow> (('o, 's) sched, unit) action" where
  "set_run_info info = modify (\<lambda>s. s\<lparr>simulate_run_info := info\<rparr>)"

text \<open>The values of the request rates after the first run; the flag tells whether there was one to set.\<close>

fun set_request_rates :: "'o numbers \<Rightarrow> 'o obj \<Rightarrow> 'o field list \<Rightarrow> perr + 'o field list \<times> bool" where
  "set_request_rates nm rate [] = Inr ([], False)"
| "set_request_rates nm rate (f # fs) =
     bind_sum (if fname f \<in> set REQUESTRATES \<and> \<not> isclose nm (fmin f) (fmax f)
               then bind_sum (py_binary nm Mult rate (OOther (float_literal nm 105 2))) (\<lambda>r.
                    bind_sum (find_available_value nm f r) (\<lambda>v. Inr (f\<lparr>fvalue := v\<rparr>, True)))
               else Inr (f, False)) (\<lambda>(f', used).
     bind_sum (set_request_rates nm rate fs) (\<lambda>(fs', used'). Inr (f' # fs', used \<or> used')))"

definition measure_performance :: "('o, 's) servers \<Rightarrow> (('o, 's) sched, unit) action" where
  "measure_performance sv =
     andthen (lift_env (get_performance_index sv)) (\<lambda>p. modify (\<lambda>s. s\<lparr>performance_index := p\<rparr>))"

definition first_run :: "('o, 's) servers \<Rightarrow> (('o, 's) sched, unit) action" where
  "first_run sv s =
     andthen (lift_env (update_data_field sv (simulate_run_info s))) (\<lambda>_.
     andthen (lift_env (run_target_server sv (simulate_run_info s) (retry_number sv))) (\<lambda>_.
     andthen (lift_env (sleep sv)) (\<lambda>_. measure_performance sv))) s"

definition second_run :: "('o, 's) servers \<Rightarrow> 'o field list \<Rightarrow> (('o, 's) sched, unit) action" where
  "second_run sv pf s =
     andthen (lift_env (bench_update_command sv pf)) (\<lambda>_.
     andthen (lift_env (optional (bench_prepare sv))) (\<lambda>_.
     andthen (lift_env (bench_run sv (simulate_run_info s))) (\<lambda>_.
     andthen (lift_env (monitoring_status sv (particles_time_out sv))) (\<lambda>_.
     andthen (lift_env (sleep sv)) (\<lambda>_. measure_performance sv))))) s"

text \<open>A position that does not decode raises before anything of the last run is reset.\<close>

definition prepare_run ::
  "'o numbers \<Rightarrow> ('o, 's) servers \<Rightarrow> 'o list \<Rightarrow> 'o field list \<Rightarrow> decode_context option \<Rightarrow> (('o, 's) sched, unit) action" where
  "prepare_run nm sv ps pf context =
     andthen (lift_env (set_back_up_path sv)) (\<lambda>_.
     andthen (pure_step (map_param_with_value nm ps pf context)) (\<lambda>info.
       modify (\<lambda>s. s\<lparr>simulate_run_info := info, error_info := None, performance_index := no_performance\<rparr>)))"

definition catch_run :: "(('o, 's) sched, unit) action \<Rightarrow> (('o, 's) sched, 'o performance) action" where
  "catch_run body =
     andthen (try_except body (\<lambda>e. modify (\<lambda>s. s\<lparr>error_info := Some (Failed e)\<rparr>))) (\<lambda>_. gets performance_index)"

definition run ::
  "'o numbers \<Rightarrow> ('o, 's) servers \<Rightarrow> 'o list \<Rightarrow> 'o field list \<Rightarrow> decode_context option \<Rightarrow> (('o, 's) sched, 'o performance) action" where
  "run nm sv ps pf context = andthen (prepare_run nm sv ps pf context) (\<lambda>_. catch_run (first_run sv))"

definition rate_run :: "'o numbers \<Rightarrow> ('o, 's) servers \<Rightarrow> 'o field list \<Rightarrow> (('o, 's) sched, unit) action" where
  "rate_run nm sv pf =
     andthen (first_run sv) (\<lambda>_.
     andthen (lift_env (bench_stop sv True)) (\<lambda>_.
     andthen (gets (\<lambda>s. (throughput (performance_index s), simulate_run_info s))) (\<lambda>(rate, info).
     andthen (pure_step (set_request_rates nm rate info)) (\<lambda>(info', used).
     andthen (set_run_info info') (\<lambda>_. if used then second_run sv pf else ret ())))))"

definition run_with_request_rate ::
  "'o numbers \<Rightarrow> ('o, 's) servers \<Rightarrow> 'o list \<Rightarrow> 'o field list \<Rightarrow> decode_context option \<Rightarrow> (('o, 's) sched, 'o performance) action" where
  "run_with_request_rate nm sv ps pf context = andthen (prepare_run nm sv ps pf context) (\<lambda>_. catch_run (rate_run nm sv pf))"

text \<open>\<^verbatim>\<open>save_result\<close>: the row is written, the logs are backed up, and the servers are stopped.\<close>

definition save_result :: "('o, 's) servers \<Rightarrow> bool \<Rightarrow> 'o obj option \<Rightarrow> (('o, 's) sched, unit) action" where
  "save_result sv has_bak_path fitness =
     andthen (lift_env (store_row sv)) (\<lambda>_.
     andthen (modify (\<lambda>s. s\<lparr>rows := rows s @ [\<lparr>row_performance = performance_index s, row_params = simulate_run_info s,
         row_error = error_info s, row_fitness = fitness\<rparr>]\<rparr>)) (\<lambda>_.
     andthen (if has_bak_path then lift_env (backup sv) else ret ()) (\<lambda>_.
       lift_env (stop_target_server sv False))))"

end
