(* ===== verification/Opt_Search.thy ===== *)
theory Opt_Search
  imports Opt_Sched
begin

text \<open>
  The objective of the particle swarm: \<open>op_func\<close> and what it calls in \<^verbatim>\<open>ms_serviceparam_optimizer/optimizer/optimizer.py\<close>. A
  position is replaced by the position of the values it decodes to, positions that were evaluated before are skipped, and every
  particle leaves one row in the storage. The cost \<^verbatim>\<open>inf\<close> is \<open>None\<close>; \<open>round_6\<close> is \<^verbatim>\<open>np.round(x, decimals=6)\<close>.
\<close>

record ('o, 's) problem =
  nums :: "'o numbers"
  the_servers :: "('o, 's) servers"
  tuner_of :: "'o tuner"
  target_field :: "'o field list"
  round_6 :: "'o \<Rightarrow> 'o"
  has_bak_path :: bool

record ('o, 's) pso =
  sched :: "('o, 's) sched"
  op_calls :: int
  seen_params :: "('o list, int \<times> nat) dict"

definition lift_sched :: "(('o, 's) sched, 'a) action \<Rightarrow> (('o, 's) pso, 'a) action" where
  "lift_sched f s = (case f (sched s) of (r, e) \<Rightarrow> (r, s\<lparr>sched := e\<rparr>))"

definition decode_context_of :: "nat \<Rightarrow> nat \<Rightarrow> int \<Rightarrow> decode_context" where
  "decode_context_of i n k = \<lparr>particle_index = Some (int i), n_particles = Some (int n), iteration = Some k\<rparr>"

definition normalize_particle_position :: "('o, 's) problem \<Rightarrow> 'o list \<Rightarrow> decode_context \<Rightarrow> 'o list" where
  "normalize_particle_position P x c =
     (case bind_sum (map_param_with_value (nums P) x (target_field P) (Some c)) (field_to_param (nums P)) of
        Inl e \<Rightarrow> x
      | Inr (y, _) \<Rightarrow> y)"

definition param_key :: "('o, 's) problem \<Rightarrow> 'o list \<Rightarrow> 'o list" where
  "param_key P x = map (round_6 P) x"

definition skip_if_duplicate ::
  "('o, 's) problem \<Rightarrow> nat \<Rightarrow> int \<Rightarrow> 'o list \<Rightarrow> decode_context \<Rightarrow> (('o, 's) pso, bool) action" where
  "skip_if_duplicate P i k y c s =
     (if \<not> dict_has (param_key P y) (seen_params s)
      then (Inr False, s\<lparr>seen_params := dict_set (param_key P y) (k, i) (seen_params s)\<rparr>)
      else andthen (pure_step (map_param_with_value (nums P) y (target_field P) (Some c))) (\<lambda>info.
           andthen (lift_sched (modify (\<lambda>s. s\<lparr>simulate_run_info := info, error_info := Some Skipped, performance_index := no_performance\<rparr>))) (\<lambda>_.
           andthen (lift_sched (save_result (the_servers P) (has_bak_path P) None)) (\<lambda>_. ret True))) s)"

text \<open>The cost of a run; whatever raises, the cost is infinite.\<close>

definition evaluate_particle :: "('o, 's) problem \<Rightarrow> 'o list \<Rightarrow> decode_context \<Rightarrow> (('o, 's) sched, 'o obj option) action" where
  "evaluate_particle P y c =
     try_except
       (andthen (run_with_request_rate (nums P) (the_servers P) y (target_field P) (Some c)) (\<lambda>p.
          pure_step (minimum_algorithm (nums P) (tuner_of P) p)))
       (\<lambda>e. ret None)"

definition particle_step ::
  "('o, 's) problem \<Rightarrow> nat \<Rightarrow> int \<Rightarrow> nat \<Rightarrow> 'o list \<Rightarrow> (('o, 's) pso, 'o obj option \<times> 'o list) action" where
  "particle_step P n k i x =
     (let c = decode_context_of i n k; y = normalize_particle_position P x c
      in andthen (skip_if_duplicate P i k y c) (\<lambda>skipped.
           if skipped then ret (None, y)
           else andthen (lift_sched (evaluate_particle P y c)) (\<lambda>cost.
                andthen (lift_sched (save_result (the_servers P) (has_bak_path P) cost)) (\<lambda>_. ret (cost, y)))))"

fun particle_loop ::
  "('o, 's) problem \<Rightarrow> nat \<Rightarrow> int \<Rightarrow> nat \<Rightarrow> 'o list list \<Rightarrow> (('o, 's) pso, 'o obj option list \<times> 'o list list) action" where
  "particle_loop P n k i [] = ret ([], [])"
| "particle_loop P n k i (x # xs) =
     andthen (particle_step P n k i x) (\<lambda>(cost, y).
     andthen (particle_loop P n k (i + 1) xs) (\<lambda>(costs, ys). ret (cost # costs, y # ys)))"

definition op_func :: "('o, 's) problem \<Rightarrow> 'o list list \<Rightarrow> (('o, 's) pso, 'o obj option list \<times> 'o list list) action" where
  "op_func P xs s = particle_loop P (length xs) (op_calls s) 0 xs (s\<lparr>op_calls := op_calls s + 1\<rparr>)"

section \<open>What a run leaves alone\<close>

text \<open>A part of the scheduler's state that neither the servers nor the measurement belong to: the rows, the error.\<close>

definition untouched :: "(('o, 's) sched \<Rightarrow> 'v) \<Rightarrow> bool" where
  "untouched g \<longleftrightarrow> (\<forall>s e p i. g (s\<lparr>env := e\<rparr>) = g s \<and> g (s\<lparr>performance_index := p\<rparr>) = g s \<and> g (s\<lparr>simulate_run_info := i\<rparr>) = g s)"

lemma untouched_parts: "untouched rows" "untouched error_info"
  by (simp_all add: untouched_def)

definition same :: "(('o, 's) sched \<Rightarrow> 'v) \<Rightarrow> (('o, 's) sched, 'a) action \<Rightarrow> bool" where
  "same g f \<longleftrightarrow> (\<forall>v. keeps (\<lambda>s. g s = v) f)"

lemma sameD: "same g f \<Longrightarrow> f s = (r, s') \<Longrightarrow> g s' = g s"
  by (metis (mono_tags, lifting) keepsD same_def)

lemma same_simps [simp, intro]: "same g (ret x)" "same g (raise e)" "same g (gets h)" "same g (pure_step r)"
  by (auto simp: same_def keeps_def pure_step_def split: sum.splits)

lemma same_lift [intro]: "untouched g \<Longrightarrow> same g (lift_env f)"
  by (auto simp: same_def keeps_def lift_env_def untouched_def split: prod.splits)

lemma same_modify [intro]: "(\<And>s. g (h s) = g s) \<Longrightarrow> same g (modify h)"
  by (simp add: same_def keeps_def)

lemma same_andthen [intro]: "same g f \<Longrightarrow> (\<And>x. same g (h x)) \<Longrightarrow> same g (andthen f h)"
  by (simp add: same_def keeps_andthen)

lemma same_try [intro]: "same g f \<Longrightarrow> (\<And>e. same g (h e)) \<Longrightarrow> same g (try_except f h)"
  by (auto simp: same_def keeps_def try_except_def split: prod.splits sum.splits) (metis snd_conv)+

lemma same_at [intro]: "(\<And>s. same g (f s)) \<Longrightarrow> same g (\<lambda>s. f s s)"
  by (simp add: same_def keeps_def)

lemma same_measure [intro]: "untouched g \<Longrightarrow> same g (measure_performance sv)"
  unfolding measure_performance_def by (intro same_andthen same_modify same_lift) (auto simp: untouched_def)

lemma same_first_run [intro]: "untouched g \<Longrightarrow> same g (first_run sv)"
  unfolding first_run_def by (rule same_at) (intro same_andthen same_lift same_measure)

lemma same_second_run [intro]: "untouched g \<Longrightarrow> same g (second_run sv pf)"
  unfolding second_run_def by (rule same_at) (intro same_andthen same_lift same_measure)

lemma same_rate_run [intro]: "untouched g \<Longrightarrow> same g (rate_run nm sv pf)"
  unfolding rate_run_def set_run_info_def
  by (auto simp: untouched_def split: prod.splits intro!: same_andthen same_modify same_lift same_first_run same_second_run)

lemma same_rows_prepare [intro]: "same rows (prepare_run nm sv ps pf c)"
  unfolding prepare_run_def by (intro same_andthen same_modify same_lift untouched_parts) auto

lemma same_rows_catch [intro]: "same rows f \<Longrightarrow> same rows (catch_run f)"
  unfolding catch_run_def by (intro same_andthen same_try same_modify) auto

lemma evaluate_rows: "same rows (evaluate_particle P y c)"
  unfolding evaluate_particle_def run_with_request_rate_def
  by (intro same_andthen same_try same_rows_prepare same_rows_catch same_rate_run untouched_parts) auto

lemma evaluate_returns: "\<exists>cost s'. evaluate_particle P y c s = (Inr cost, s')"
  by (auto simp: evaluate_particle_def try_except_def split: prod.splits sum.splits)

section \<open>Every particle leaves one row\<close>

text \<open>Cleaning up does not raise: the backup folder, the row, the backup, and stopping both servers.\<close>

definition cleanup_ok :: "('o, 's) servers \<Rightarrow> ('s \<Rightarrow> bool) \<Rightarrow> bool" where
  "cleanup_ok sv stopped \<longleftrightarrow>
     (\<forall>s. \<exists>s'. set_back_up_path sv s = (Inr (), s')) \<and> (\<forall>s. \<exists>s'. store_row sv s = (Inr (), s')) \<and>
     (\<forall>s. \<exists>s'. backup sv s = (Inr (), s')) \<and> (\<forall>s. \<exists>s'. stop_target_server sv False s = (Inr (), s') \<and> stopped s')"

lemma lift_env_Inr: "f (env s) = (Inr x, e) \<Longrightarrow> lift_env f s = (Inr x, s\<lparr>env := e\<rparr>)"
  by (simp add: lift_env_def)

lemma save_result_run:
  assumes "cleanup_ok sv stopped"
  shows "\<exists>e. save_result sv b fit s = (Inr (), s\<lparr>env := e, rows := rows s @ [\<lparr>row_performance = performance_index s,
      row_params = simulate_run_info s, row_error = error_info s, row_fitness = fit\<rparr>]\<rparr>) \<and> stopped e"
proof -
  obtain e1 where e1: "store_row sv (env s) = (Inr (), e1)" using assms unfolding cleanup_ok_def by blast
  obtain e2 where e2: "backup sv e1 = (Inr (), e2)" using assms unfolding cleanup_ok_def by blast
  obtain e3 where e3: "stop_target_server sv False (if b then e2 else e1) = (Inr (), e3)" "stopped e3"
    using assms unfolding cleanup_ok_def by blast
  then show ?thesis
    by (intro exI[of _ e3]) (cases b; simp add: save_result_def andthen_def lift_env_def e1 e2 split: prod.splits)
qed

text \<open>A run that decodes does not leave the note that it was skipped.\<close>

lemma evaluate_not_skipped:
  assumes "cleanup_ok (the_servers P) stopped" "map_param_with_value (nums P) y (target_field P) (Some c) = Inr info"
    and "evaluate_particle P y c s = (r, s')"
  shows "error_info s' \<noteq> Some Skipped"
proof -
  obtain e where e: "set_back_up_path (the_servers P) (env s) = (Inr (), e)" using assms(1) unfolding cleanup_ok_def by blast
  let ?s = "s\<lparr>env := e, simulate_run_info := info, error_info := None, performance_index := no_performance\<rparr>"
  have prep: "prepare_run (nums P) (the_servers P) y (target_field P) (Some c) s = (Inr (), ?s)"
    by (simp add: prepare_run_def andthen_def lift_env_def e pure_step_def assms(2))
  obtain r1 s1 where run: "rate_run (nums P) (the_servers P) (target_field P) ?s = (r1, s1)" by fastforce
  have none: "error_info s1 = None" using sameD[OF same_rate_run[OF untouched_parts(2)] run] by simp
  obtain p s2 where caught: "catch_run (rate_run (nums P) (the_servers P) (target_field P)) ?s = (Inr p, s2)" and s2: "error_info s2 \<noteq> Some Skipped"
    using run none by (cases r1) (simp_all add: catch_run_def andthen_def try_except_def)
  have "run_with_request_rate (nums P) (the_servers P) y (target_field P) (Some c) s = (Inr p, s2)"
    unfolding run_with_request_rate_def by (simp add: andthen_def prep caught)
  then have "s' = s2" using assms(3)
    by (cases "minimum_algorithm (nums P) (tuner_of P) p") (auto simp: evaluate_particle_def try_except_def andthen_def pure_step_def)
  then show ?thesis using s2 by simp
qed

fun rows_fit ::
  "('o, 's) problem \<Rightarrow> nat \<Rightarrow> int \<Rightarrow> nat \<Rightarrow> 'o list set \<Rightarrow> 'o list list \<Rightarrow> 'o row list \<Rightarrow> bool" where
  "rows_fit P n k i seen [] [] = True"
| "rows_fit P n k i seen (y # ys) (r # rs) =
     ((if param_key P y \<in> seen then row_error r = Some Skipped \<and> row_fitness r = None
       else (\<exists>info. map_param_with_value (nums P) y (target_field P) (Some (decode_context_of i n k)) = Inr info) \<longrightarrow>
         row_error r \<noteq> Some Skipped) \<and>
      rows_fit P n k (i + 1) (insert (param_key P y) seen) ys rs)"
| "rows_fit P n k i seen _ _ = False"

text \<open>A particle whose position was seen before and does not decode; and whether there is one in a call.\<close>

definition stuck :: "('o, 's) problem \<Rightarrow> nat \<Rightarrow> int \<Rightarrow> nat \<Rightarrow> 'o list set \<Rightarrow> 'o list \<Rightarrow> bool" where
  "stuck P n k i seen y \<longleftrightarrow>
     param_key P y \<in> seen \<and> (\<exists>e. map_param_with_value (nums P) y (target_field P) (Some (decode_context_of i n k)) = Inl e)"

fun gets_stuck :: "('o, 's) problem \<Rightarrow> nat \<Rightarrow> int \<Rightarrow> nat \<Rightarrow> 'o list set \<Rightarrow> 'o list list \<Rightarrow> bool" where
  "gets_stuck P n k i seen [] = False"
| "gets_stuck P n k i seen (x # xs) =
     (let y = normalize_particle_position P x (decode_context_of i n k)
      in stuck P n k i seen y \<or> gets_stuck P n k (i + 1) (insert (param_key P y) seen) xs)"

text \<open>The positions that replace those of the particles.\<close>

fun positions :: "('o, 's) problem \<Rightarrow> nat \<Rightarrow> int \<Rightarrow> nat \<Rightarrow> 'o list list \<Rightarrow> 'o list list" where
  "positions P n k i [] = []"
| "positions P n k i (x # xs) = normalize_particle_position P x (decode_context_of i n k) # positions P n k (i + 1) xs"

lemma particle_step_run:
  assumes clean: "cleanup_ok (the_servers P) stopped"
  shows "case particle_step P n k i x s of
      (Inr (cost, y), s') \<Rightarrow> y = normalize_particle_position P x (decode_context_of i n k) \<and>
        \<not> stuck P n k i (set (dict_keys (seen_params s))) y \<and> (\<exists>r. rows (sched s') = rows (sched s) @ [r] \<and> row_fitness r = cost \<and> stopped (env (sched s')) \<and>
        set (dict_keys (seen_params s')) = insert (param_key P y) (set (dict_keys (seen_params s))) \<and>
        rows_fit P n k i (set (dict_keys (seen_params s))) [y] [r])
    | (Inl e, s') \<Rightarrow> e = OtherException \<and>
        stuck P n k i (set (dict_keys (seen_params s))) (normalize_particle_position P x (decode_context_of i n k))"
proof -
  let ?c = "decode_context_of i n k"
  let ?y = "normalize_particle_position P x ?c"
  show ?thesis
  proof (cases "dict_has (param_key P ?y) (seen_params s)")
    case True
    then have seen: "param_key P ?y \<in> set (dict_keys (seen_params s))" by (simp add: dict_has_def)
    show ?thesis
    proof (cases "map_param_with_value (nums P) ?y (target_field P) (Some ?c)")
      case (Inl e)
      then show ?thesis using True
        by (auto simp: particle_step_def skip_if_duplicate_def andthen_def pure_step_def Let_def stuck_def dict_has_def)
    next
      case (Inr info)
      let ?s = "(sched s)\<lparr>simulate_run_info := info, error_info := Some Skipped, performance_index := no_performance\<rparr>"
      obtain e where "save_result (the_servers P) (has_bak_path P) None ?s = (Inr (), ?s\<lparr>env := e, rows := rows ?s @
          [\<lparr>row_performance = performance_index ?s, row_params = simulate_run_info ?s, row_error = error_info ?s, row_fitness = None\<rparr>]\<rparr>)"
        "stopped e"
        using save_result_run[OF clean] by blast
      then show ?thesis using True Inr seen
        by (simp add: particle_step_def skip_if_duplicate_def andthen_def pure_step_def lift_sched_def Let_def insert_absorb stuck_def)
    qed
  next
    case False
    then have new: "param_key P ?y \<notin> set (dict_keys (seen_params s))" by (simp add: dict_has_def)
    obtain cost s1 where ev: "evaluate_particle P ?y ?c (sched s) = (Inr cost, s1)" using evaluate_returns by blast
    have rows: "rows s1 = rows (sched s)" by (rule sameD[OF evaluate_rows ev])
    obtain e where save: "save_result (the_servers P) (has_bak_path P) cost s1 = (Inr (), s1\<lparr>env := e, rows := rows s1 @
        [\<lparr>row_performance = performance_index s1, row_params = simulate_run_info s1, row_error = error_info s1, row_fitness = cost\<rparr>]\<rparr>)"
      "stopped e"
      using save_result_run[OF clean] by blast
    show ?thesis using False new ev save rows evaluate_not_skipped[OF clean _ ev]
      by (auto simp: particle_step_def skip_if_duplicate_def andthen_def lift_sched_def Let_def dom_update dict_keys_set stuck_def)
  qed
qed

end
