(* ===== verification/Opt_Search_Props.thy ===== *)
theory Opt_Search_Props
  imports Opt_Search Opt_Repair_Props
begin

text \<open>
  The objective of the swarm: every particle leaves one row and stopped servers, and no position is evaluated twice; what goes wrong
  for positions that cannot be decoded; the retries of the scheduler.
\<close>

section \<open>One row for each particle\<close>

lemma particle_loop_run:
  assumes clean: "cleanup_ok (the_servers P) stopped"
  shows "case particle_loop P n k i xs s of
      (Inr (costs, ys), s') \<Rightarrow> ys = positions P n k i xs \<and> \<not> gets_stuck P n k i (set (dict_keys (seen_params s))) xs \<and>
        (\<exists>rs. rows (sched s') = rows (sched s) @ rs \<and> map row_fitness rs = costs \<and> length rs = length xs \<and>
        (xs \<noteq> [] \<longrightarrow> stopped (env (sched s'))) \<and> rows_fit P n k i (set (dict_keys (seen_params s))) ys rs)
    | (Inl e, s') \<Rightarrow> e = OtherException \<and> gets_stuck P n k i (set (dict_keys (seen_params s))) xs"
proof (induction xs arbitrary: i s)
  case Nil
  then show ?case by simp
next
  case (Cons x xs)
  note step = particle_step_run[OF clean, where n = n and k = k and i = i and x = x and s = s]
  obtain r s1 where one: "particle_step P n k i x s = (r, s1)" by fastforce
  show ?case
  proof (cases r)
    case (Inl e)
    then show ?thesis using step one by (simp add: andthen_def Let_def)
  next
    case (Inr cy)
    obtain cost y where cy: "cy = (cost, y)" by fastforce
    have y: "y = normalize_particle_position P x (decode_context_of i n k)" "\<not> stuck P n k i (set (dict_keys (seen_params s))) y"
      using step one Inr cy by auto
    obtain row where row: "rows (sched s1) = rows (sched s) @ [row]" "row_fitness row = cost" "stopped (env (sched s1))"
      "set (dict_keys (seen_params s1)) = insert (param_key P y) (set (dict_keys (seen_params s)))"
      "rows_fit P n k i (set (dict_keys (seen_params s))) [y] [row]"
      using step one Inr cy by auto
    obtain r2 s2 where rest: "particle_loop P n k (i + 1) xs s1 = (r2, s2)" by fastforce
    note IH = Cons.IH[where i = "i + 1" and s = s1, unfolded rest]
    show ?thesis
    proof (cases r2)
      case (Inl e)
      then show ?thesis using IH one Inr cy rest row(4) y(1) by (simp add: andthen_def Let_def)
    next
      case (Inr costs_ys)
      obtain costs ys where cys: "costs_ys = (costs, ys)" by fastforce
      obtain rs where rs: "rows (sched s2) = rows (sched s1) @ rs" "map row_fitness rs = costs" "length rs = length xs"
        "xs \<noteq> [] \<longrightarrow> stopped (env (sched s2))" "rows_fit P n k (i + 1) (set (dict_keys (seen_params s1))) ys rs"
        using IH Inr cys by auto
      have ys: "ys = positions P n k (i + 1) xs"
        "\<not> gets_stuck P n k (i + 1) (insert (param_key P y) (set (dict_keys (seen_params s)))) xs"
        using IH Inr cys row(4) by auto
      have last: "stopped (env (sched s2))" using rs(4) row(3) rest by (cases "xs = []") auto
      have "rows_fit P n k i (set (dict_keys (seen_params s))) (y # ys) (row # rs)" 
        using row(5) rs(5)[unfolded row(4)] by simp
      then show ?thesis using \<open>r = Inr cy\<close> one cy rest Inr cys row(1,2) rs(1-3) last y ys
        by (simp add: andthen_def Let_def) (simp split: if_splits)
    qed
  qed
qed

text \<open>
  Property C27. A call of the objective, when cleaning up does not raise. It raises if and only if some particle has a position that was
  seen before, in this call or an earlier one, and that does not decode. Otherwise it appends one row for every particle, the returned
  costs are those of the rows, the returned positions are those that the particles decode to (their own where they do not decode), and both servers are stopped at the
  end. A particle whose position was seen before is marked as skipped and has an infinite cost; one that is evaluated and
  decodes is not marked.
\<close>

theorem objective_evaluates_once:
  assumes "cleanup_ok (the_servers P) stopped"
  shows "case op_func P xs s of
      (Inr (costs, ys), s') \<Rightarrow> ys = positions P (length xs) (op_calls s) 0 xs \<and>
        \<not> gets_stuck P (length xs) (op_calls s) 0 (set (dict_keys (seen_params s))) xs \<and>
        (\<exists>rs. rows (sched s') = rows (sched s) @ rs \<and> map row_fitness rs = costs \<and> length rs = length xs \<and>
        (xs \<noteq> [] \<longrightarrow> stopped (env (sched s'))) \<and>
        rows_fit P (length xs) (op_calls s) 0 (set (dict_keys (seen_params s))) ys rs)
    | (Inl e, s') \<Rightarrow> e = OtherException \<and> gets_stuck P (length xs) (op_calls s) 0 (set (dict_keys (seen_params s))) xs"
proof -
  have sel: "sched (s\<lparr>op_calls := k\<rparr>) = sched s" "seen_params (s\<lparr>op_calls := k\<rparr>) = seen_params s" for k by simp_all
  show ?thesis
    using particle_loop_run[OF assms, where n = "length xs" and k = "op_calls s" and i = 0 and xs = xs and
      s = "s\<lparr>op_calls := op_calls s + 1\<rparr>", unfolded sel]
    unfolding op_func_def .
qed

section \<open>Positions that cannot be decoded\<close>

text \<open>
  A position that does not decode is stored as a row with the parameters, the measurement and the error of the run before. Its
  second occurrence ends the search.
\<close>

lemma undecodable_row_is_stale:
  assumes "map_param_with_value (nums P) y (target_field P) (Some c) = Inl e" "set_back_up_path (the_servers P) (env s) = (Inr (), e1)"
  shows "evaluate_particle P y c s = (Inr None, s\<lparr>env := e1\<rparr>)"
  using assms
  by (simp add: evaluate_particle_def run_with_request_rate_def prepare_run_def andthen_def lift_env_def pure_step_def try_except_def)

lemma undecodable_twice_raises:
  assumes "map_param_with_value (nums P) y (target_field P) (Some c) = Inl e" "dict_has (param_key P y) (seen_params s)"
  shows "skip_if_duplicate P i k y c s = (Inl OtherException, s)"
  using assms by (simp add: skip_if_duplicate_def andthen_def pure_step_def)

section \<open>Retries\<close>

text \<open>\<open>k\<close> attempts that failed with a retryable error, each followed by stopping the servers.\<close>

inductive retried :: "('o, 's) servers \<Rightarrow> 'o field list \<Rightarrow> nat \<Rightarrow> 's \<Rightarrow> 's \<Rightarrow> bool" for sv info where
  none: "retried sv info 0 s s"
| again: "attempt sv info s = (Inl RetryableError, s1) \<Longrightarrow> stop_target_server sv False s1 = (Inr (), s2) \<Longrightarrow>
    retried sv info k s2 s' \<Longrightarrow> retried sv info (Suc k) s s'"

inductive_cases retried_SucE: "retried sv info (Suc k) s s'"

text \<open>
  Property C29. When stopping the servers does not raise, running the target ends in one of four ways, after fewer than \<open>n\<close> attempts
  that failed with a retryable error and after each of which the servers were stopped: an attempt succeeds; an attempt fails with a
  fatal error, and the servers are stopped; an attempt raises anything else, which is passed on at once, the servers still running;
  or all \<open>n\<close> attempts failed with a retryable error and the servers are stopped.
\<close>

theorem only_retryable_errors_retried:
  assumes stop: "\<And>s. \<exists>s'. stop_target_server sv False s = (Inr (), s')"
    and run: "run_target_server sv info n s = (r, s')"
  shows "(\<exists>k s1. k < n \<and> retried sv info k s s1 \<and>
      (attempt sv info s1 = (r, s') \<and> r \<notin> {Inl FatalError, Inl RetryableError} \<or>
       (\<exists>s2. attempt sv info s1 = (Inl FatalError, s2) \<and> stop_target_server sv False s2 = (Inr (), s') \<and> r = Inl FatalError))) \<or>
    retried sv info n s s' \<and> r = Inl OtherException"
  using run
proof (induction n arbitrary: s)
  case 0
  then show ?case by (auto intro: retried.none)
next
  case (Suc n)
  obtain a s1 where a: "attempt sv info s = (a, s1)" by fastforce
  show ?case
  proof (cases "a = Inl RetryableError")
    case True
    obtain s2 where s2: "stop_target_server sv False s1 = (Inr (), s2)" using stop by blast
    have rest: "run_target_server sv info n s2 = (r, s')" using Suc.prems a True s2 by (simp add: andthen_def)
    have more: "retried sv info k s2 t \<Longrightarrow> retried sv info (Suc k) s t" for k t
      using a True s2 by (auto intro: retried.again)
    from Suc.IH[OF rest] show ?thesis using more by (meson Suc_mono)
  next
    case other: False
    have start: "retried sv info 0 s s" by (rule retried.none)
    show ?thesis
    proof (cases "a = Inl FatalError")
      case True
      obtain s2 where s2: "stop_target_server sv False s1 = (Inr (), s2)" using stop by blast
      have "r = Inl FatalError" "s' = s2" using Suc.prems a True s2 by (simp_all add: andthen_def)
      moreover have "0 < Suc n" by simp
      ultimately show ?thesis using start a True s2 by blast
    next
      case False
      have "r = a \<and> s' = s1"
      proof (cases a)
        case (Inl e)
        then show ?thesis using Suc.prems a other False by (cases e) simp_all
      next
        case (Inr u)
        then show ?thesis using Suc.prems a by simp
      qed
      then have "attempt sv info s = (r, s') \<and> r \<notin> {Inl FatalError, Inl RetryableError}" using a other False by simp
      moreover have "0 < Suc n" by simp
      ultimately show ?thesis using start by blast
    qed
  qed
qed

section \<open>A small search\<close>

text \<open>The state is the number of attempts to come that fail with a retryable error, and whether the servers are stopped.\<close>

definition demo_servers :: "(rat, nat \<times> bool) servers" where
  "demo_servers = \<lparr>pause = id, set_back_up_path = ret (), sim_run = (\<lambda>_. modify (\<lambda>(k, b). (k, False))), sim_check_success = None,
     sim_health = Some (ret Running), sim_poll = None, sim_stop = (\<lambda>_. ret ()), bench_prepare = None, bench_run = (\<lambda>_. ret ()),
     bench_check_success = ret False, bench_health = ret Stop, bench_stop = (\<lambda>_. modify (\<lambda>(k, b). (k - 1, True))),
     bench_update_command = (\<lambda>_. ret ()),
     get_performance_index = ret no_performance, update_data_field = (\<lambda>_. ret ()), backup = ret (), store_row = ret (),
     service_checks = register_check STARTUP_POLLING
       (\<lambda>(k, b). (Inr (Some (if k > 0 then unhealthy NETWORK_ERROR RETRYABLE [] else healthy)), (k, b))) 10 [],
     benchmark_checks = [], builtin_simulator = False, wait_time = 2, particles_time_out = 2, retry_number = 3\<rparr>"

lemma demo_stop: "stop_target_server demo_servers b (k, c) = (Inr (), (k - 1, True))"
  by (simp add: stop_target_server_def demo_servers_def andthen_def)

lemma demo_cleanup: "cleanup_ok demo_servers snd"
  unfolding cleanup_ok_def split_paired_All by (simp add: demo_stop) (simp add: demo_servers_def)

theorem only_retryable_errors_retried_witness:
  "\<exists>s1 s2. attempt demo_servers [] (1, True) = (Inl RetryableError, s1) \<and> stop_target_server demo_servers False s1 = (Inr (), s2) \<and>
     attempt demo_servers [] s2 = (Inr (), (0, False)) \<and> run_target_server demo_servers [] 3 (1, True) = (Inr (), (0, False))"
proof -
  have run: "run_target_server demo_servers [] 3 (1, True) = (Inr (), (0, False))" by code_simp
  have one: "attempt demo_servers [] (1, True) = (Inl RetryableError, (1, False))" by code_simp
  have stop: "\<exists>s'. stop_target_server demo_servers False s = (Inr (), s')" for s by (cases s) (auto simp: demo_stop)
  from only_retryable_errors_retried[OF stop run] obtain k s1 where
    k: "retried demo_servers [] k (1, True) s1" "attempt demo_servers [] s1 = (Inr (), (0, False))" by auto
  have "k \<noteq> 0" using k one by (auto elim: retried.cases)
  then obtain k' where k': "k = Suc k'" by (cases k) auto
  then have "retried demo_servers [] k' (0, True) s1" using k(1) one by (auto simp: demo_stop elim!: retried_SucE)
  moreover have "attempt demo_servers [] (0, True) = (Inr (), (0, False))" by code_simp
  ultimately have "s1 = (0, True)" by (auto elim: retried.cases)
  then show ?thesis using run one k(2) by (auto simp: demo_stop)
qed

definition demo_problem :: "(rat, nat \<times> bool) problem" where
  "demo_problem = \<lparr>nums = rat_numbers, the_servers = demo_servers,
     tuner_of = \<lparr>gen_speed_target = OInt 5300, ttft_slo = OInt 1, tpot_slo = OInt 1, success_rate_slo = OInt 1, ttft_penalty = OInt 3,
       tpot_penalty = OInt 3, success_rate_penalty = OInt 5, exp_float = (\<lambda>_. None)\<rparr>,
     target_field = [number_field ''tp'' [1, 2, 4, 8] 4], round_6 = id, has_bak_path = True\<rparr>"

definition demo_start :: "(rat, nat \<times> bool) pso" where
  "demo_start = \<lparr>sched = \<lparr>env = (1, True), simulate_run_info = [], performance_index = no_performance, error_info = None, rows = []\<rparr>,
     op_calls = 0, seen_params = []\<rparr>"

theorem objective_evaluates_once_witness:
  "case op_func demo_problem [[5 / 8], [3 / 4]] demo_start of
     (Inr (costs, ys), s') \<Rightarrow> \<exists>rs. rows (sched s') = rs \<and> length rs = 2 \<and> map row_fitness rs = costs \<and> snd (env (sched s')) \<and>
       ys = positions demo_problem 2 0 0 [[5 / 8], [3 / 4]] \<and> rows_fit demo_problem 2 0 0 {} ys rs
   | (Inl e, s') \<Rightarrow> gets_stuck demo_problem 2 0 0 {} [[5 / 8], [3 / 4]]"
proof -
  have "cleanup_ok (the_servers demo_problem) snd" by (simp add: demo_problem_def demo_cleanup)
  from objective_evaluates_once[OF this, where xs = "[[5 / 8], [3 / 4]]" and s = demo_start] show ?thesis
    by (simp add: demo_start_def numeral_2_eq_2 del: gets_stuck.simps positions.simps split: sum.splits prod.splits) auto
qed

text \<open>Both positions stand for the value 4: the second one is skipped.\<close>

lemma objective_run:
  "map_option (\<lambda>(costs, ys). ys) (case fst (op_func demo_problem [[5 / 8], [3 / 4]] demo_start) of Inr r \<Rightarrow> Some r | Inl _ \<Rightarrow> None) =
     Some [[5 / 8], [5 / 8]]"
  "map row_error (rows (sched (snd (op_func demo_problem [[5 / 8], [3 / 4]] demo_start)))) = [None, Some Skipped]"
  by code_simp+


end
