(* ===== verification/Opt_Tune.thy ===== *)
theory Opt_Tune
  imports Opt_Params Opt_Health
begin

text \<open>
  Fine tuning and the choice of the best parameters: \<^verbatim>\<open>ms_serviceparam_optimizer/optimizer/experience_fine_tunning.py\<close> (\<open>FineTune\<close>)
  and \<open>best_params\<close>, \<open>constructing_bounds\<close> and their neighbours in \<^verbatim>\<open>optimizer/optimizer.py\<close>. Numbers are those of \<open>Opt_Field\<close>.
\<close>

section \<open>Python's min and max of two values\<close>

definition py_min :: "'o numbers \<Rightarrow> 'o obj \<Rightarrow> 'o obj \<Rightarrow> perr + 'o obj" where
  "py_min nm a b = bind_sum (py_less nm b a) (\<lambda>l. Inr (if l then b else a))"

definition py_max :: "'o numbers \<Rightarrow> 'o obj \<Rightarrow> 'o obj \<Rightarrow> perr + 'o obj" where
  "py_max nm a b = bind_sum (py_less nm a b) (\<lambda>l. Inr (if l then b else a))"

definition py_neg :: "'o numbers \<Rightarrow> 'o obj \<Rightarrow> perr + 'o obj" where
  "py_neg nm x = (case unary (py nm) USub x of Inl e \<Rightarrow> Inl (PyErr e) | Inr v \<Rightarrow> Inr v)"

text \<open>\<^verbatim>\<open>isinf(x) or isnan(x)\<close>\<close>

definition not_finite :: "'o numbers \<Rightarrow> 'o obj \<Rightarrow> perr + bool" where
  "not_finite nm x =
     bind_sum (float_test nm (other_isinf nm) x) (\<lambda>a. if a then Inr True else float_test nm (other_isnan nm) x)"

section \<open>Moving a field\<close>

definition matches_name :: "string list \<Rightarrow> 'o field \<Rightarrow> bool" where
  "matches_name names f \<longleftrightarrow> strip (upper (fname f)) \<in> set names"

definition moved_value :: "'o numbers \<Rightarrow> 'o obj \<Rightarrow> 'o obj \<Rightarrow> 'o obj option \<Rightarrow> perr + 'o obj" where
  "moved_value nm v factor prev =
     (case prev of
        Some l \<Rightarrow>
          bind_sum (py_binary nm Sub v l) (\<lambda>d. bind_sum (py_abs nm d) (\<lambda>a. bind_sum (py_binary nm Mult factor a) (py_binary nm Add v)))
      | None \<Rightarrow> bind_sum (py_binary nm Add (OInt 1) factor) (py_binary nm Mult v))"

text \<open>The field that matches: whether it changed by at least 0.1, and the field.\<close>

definition move_field :: "'o numbers \<Rightarrow> 'o obj \<Rightarrow> 'o obj option \<Rightarrow> 'o field \<Rightarrow> perr + bool \<times> 'o field" where
  "move_field nm factor prev f =
     (if fconstant f \<noteq> ONone \<or> py_eq nm (fmin f) (fmax f) then Inr (False, f)
      else bind_sum (moved_value nm (fvalue f) factor prev) (\<lambda>v1.
           bind_sum (not_finite nm v1) (\<lambda>bad1.
             if bad1 then Inr (False, f)
             else bind_sum (py_min nm (fmax f) v1) (\<lambda>x.
                  bind_sum (py_max nm (fmin f) x) (\<lambda>v2.
                  bind_sum (not_finite nm v2) (\<lambda>bad2.
                    if bad2 then Inr (False, f)
                    else bind_sum (py_binary nm Sub v2 (fvalue f)) (\<lambda>d. bind_sum (py_abs nm d) (\<lambda>a.
                         bind_sum (py_less_eq nm (OOther (float_literal nm 1 1)) a) (\<lambda>big. Inr (big, f\<lparr>fvalue := v2\<rparr>))))))))))"

fun move_first :: "'o numbers \<Rightarrow> 'o obj \<Rightarrow> string list \<Rightarrow> 'o obj option \<Rightarrow> 'o field list \<Rightarrow> perr + bool \<times> 'o field list" where
  "move_first nm factor names prev [] = Inr (False, [])"
| "move_first nm factor names prev (f # fs) =
     (if matches_name names f
      then bind_sum (move_field nm factor prev f) (\<lambda>(b, f'). Inr (b, f' # fs))
      else bind_sum (move_first nm factor names prev fs) (\<lambda>(b, fs'). Inr (b, f # fs')))"

text \<open>\<^verbatim>\<open>update_field\<close>: a last value that is 0 counts as none.\<close>

definition update_field :: "'o numbers \<Rightarrow> 'o obj \<Rightarrow> string list \<Rightarrow> 'o obj option \<Rightarrow> 'o field list \<Rightarrow> perr + bool \<times> 'o field list" where
  "update_field nm factor names prev fs =
     (if py_eq nm factor (OInt 0) then Inr (False, fs)
      else bind_sum (not_finite nm factor) (\<lambda>bad.
        if bad then Inr (False, fs)
        else move_first nm factor names
               (case prev of Some l \<Rightarrow> if truthy_obj nm l then Some l else None | None \<Rightarrow> None) fs))"

section \<open>The tuner's state\<close>

record 'o fine_tune =
  ft_ttft_penalty :: "'o obj"
  ft_tpot_penalty :: "'o obj"
  ft_ttft_slo :: "'o obj"
  ft_tpot_slo :: "'o obj"
  step_size :: "'o obj"
  ttft_lower_bound :: "'o obj"
  ttft_upper_bound :: "'o obj"
  tpot_lower_bound :: "'o obj"
  tpot_upper_bound :: "'o obj"
  ttft_over_slo :: bool
  ttft_under_lower_bound :: bool
  tpot_over_slo :: bool
  tpot_under_lower_bound :: bool
  conc_factors :: "'o obj list"
  rate_factors :: "'o obj list"
  conc_values :: "'o obj list"
  rate_values :: "'o obj list"

datatype tune_error = StopFineTune | TuneError perr

definition tune_sum :: "perr + 'a \<Rightarrow> tune_error + 'a" where
  "tune_sum r = (case r of Inl e \<Rightarrow> Inl (TuneError e) | Inr x \<Rightarrow> Inr x)"

definition is_zero :: "'o numbers \<Rightarrow> 'o obj \<Rightarrow> bool" where
  "is_zero nm x = py_eq nm x (OInt 0)"

definition reset_history :: "'o fine_tune \<Rightarrow> 'o fine_tune" where
  "reset_history t = t\<lparr>conc_factors := [], rate_factors := [], conc_values := [], rate_values := []\<rparr>"

definition check_penalties :: "'o numbers \<Rightarrow> 'o fine_tune \<Rightarrow> tune_error + unit" where
  "check_penalties nm t =
     (if is_zero nm (ft_ttft_penalty t) \<and> is_zero nm (ft_tpot_penalty t) then Inl StopFineTune
      else if \<not> is_zero nm (ft_ttft_penalty t) \<and> is_zero nm (ft_ttft_slo t) \<or> \<not> is_zero nm (ft_tpot_penalty t) \<and> is_zero nm (ft_tpot_slo t)
      then Inl (TuneError BadValue) else Inr ())"

definition check_config_and_performance :: "'o numbers \<Rightarrow> 'o fine_tune \<Rightarrow> 'o performance \<Rightarrow> tune_error + unit" where
  "check_config_and_performance nm t p =
     bind_sum (check_penalties nm t) (\<lambda>_.
       if time_per_output_token p = ONone then Inl (TuneError BadValue)
       else if \<not> is_zero nm (ft_ttft_penalty t) \<and> time_to_first_token p = ONone then Inl (TuneError BadValue)
       else Inr ())"

definition direction_of_field_update :: "'o numbers \<Rightarrow> 'o performance \<Rightarrow> 'o fine_tune \<Rightarrow> perr + 'o fine_tune" where
  "direction_of_field_update nm p t =
     bind_sum (py_less nm (tpot_upper_bound t) (time_per_output_token p)) (\<lambda>po.
     bind_sum (py_less nm (time_per_output_token p) (tpot_lower_bound t)) (\<lambda>pu.
     bind_sum (if is_zero nm (ft_ttft_penalty t) then Inr False else py_less nm (ttft_upper_bound t) (time_to_first_token p)) (\<lambda>fo.
     bind_sum (if is_zero nm (ft_ttft_penalty t) then Inr False else py_less nm (time_to_first_token p) (ttft_lower_bound t)) (\<lambda>fu.
       Inr (t\<lparr>ttft_over_slo := fo, ttft_under_lower_bound := fu, tpot_over_slo := po, tpot_under_lower_bound := pu\<rparr>)))))"

text \<open>\<^verbatim>\<open>(a - b) / slo * step\<close>, the factor of a deviation, negated or not.\<close>

definition deviation_factor :: "'o numbers \<Rightarrow> bool \<Rightarrow> 'o obj \<Rightarrow> 'o obj \<Rightarrow> 'o obj \<Rightarrow> 'o obj \<Rightarrow> perr + 'o obj" where
  "deviation_factor nm negated a b slo step =
     bind_sum (py_binary nm Sub a b) (\<lambda>d. bind_sum (py_binary nm Div d slo) (\<lambda>r.
     bind_sum (if negated then py_neg nm r else Inr r) (\<lambda>x. py_binary nm Mult x step)))"

definition clamp_step :: "'o numbers \<Rightarrow> 'o obj \<Rightarrow> 'o obj \<Rightarrow> perr + 'o obj" where
  "clamp_step nm step x =
     bind_sum (py_neg nm step) (\<lambda>low. bind_sum (py_min nm step x) (py_max nm low))"

definition opposite :: "'o numbers \<Rightarrow> 'o obj list \<Rightarrow> perr + bool" where
  "opposite nm xs =
     (if length xs < 2 then Inr False
      else bind_sum (py_binary nm Mult (xs ! (length xs - 2)) (xs ! (length xs - 1))) (\<lambda>x. py_less nm x (OInt 0)))"

definition second_last :: "'o obj list \<Rightarrow> perr + 'o obj" where
  "second_last xs = (if length xs < 2 then Inl (PyErr IndexErr) else Inr (xs ! (length xs - 2)))"

definition handle_concurrency ::
  "'o numbers \<Rightarrow> 'o performance \<Rightarrow> 'o fine_tune \<Rightarrow> 'o field list \<Rightarrow> perr + bool \<times> 'o fine_tune \<times> 'o field list" where
  "handle_concurrency nm p t fs =
     bind_sum (if tpot_over_slo t
               then bind_sum (deviation_factor nm True (time_per_output_token p) (ft_tpot_slo t) (ft_tpot_slo t) (step_size t)) (\<lambda>x. Inr (Some x))
               else if tpot_under_lower_bound t
               then bind_sum (deviation_factor nm False (ft_tpot_slo t) (time_per_output_token p) (ft_tpot_slo t) (step_size t)) (\<lambda>x. Inr (Some x))
               else Inr None) (\<lambda>factor.
       case factor of
         None \<Rightarrow> Inr (False, t, fs)
       | Some x \<Rightarrow>
           if \<not> truthy_obj nm x then Inr (False, t, fs)
           else (let t1 = t\<lparr>conc_factors := conc_factors t @ [x]\<rparr>
                 in bind_sum (clamp_step nm (step_size t) x) (\<lambda>y.
                    bind_sum (opposite nm (conc_factors t1)) (\<lambda>turned.
                    bind_sum (if turned
                              then bind_sum (second_last (conc_values t1)) (\<lambda>v.
                                     Inr (if py_eq nm v (last (conc_values t1)) then None else Some v))
                              else Inr None) (\<lambda>prev.
                    bind_sum (update_field nm y CONCURRENCYS prev fs) (\<lambda>(b, fs'). Inr (b, t1, fs')))))))"

definition handle_request_rate ::
  "'o numbers \<Rightarrow> 'o performance \<Rightarrow> 'o fine_tune \<Rightarrow> 'o field list \<Rightarrow> perr + bool \<times> 'o fine_tune \<times> 'o field list" where
  "handle_request_rate nm p t fs =
     bind_sum (if ttft_over_slo t
               then bind_sum (deviation_factor nm True (time_to_first_token p) (ft_ttft_slo t) (ft_ttft_slo t) (step_size t)) (\<lambda>x.
                    bind_sum (clamp_step nm (step_size t) x) (\<lambda>y. Inr (Some y)))
               else if ttft_under_lower_bound t then Inr (Some (step_size t))
               else Inr None) (\<lambda>factor.
       case factor of
         None \<Rightarrow> Inr (False, t, fs)
       | Some x \<Rightarrow>
           if \<not> truthy_obj nm x then Inr (False, t, fs)
           else (let t1 = t\<lparr>rate_factors := rate_factors t @ [x]\<rparr>
                 in bind_sum (opposite nm (rate_factors t1)) (\<lambda>turned.
                    bind_sum (if turned then bind_sum (second_last (rate_values t1)) (\<lambda>v. Inr (Some v)) else Inr None) (\<lambda>prev.
                    bind_sum (update_field nm x REQUESTRATES prev fs) (\<lambda>(b, fs'). Inr (b, t1, fs'))))))"

section \<open>One step of fine tuning\<close>

definition note_values :: "'o field list \<Rightarrow> 'o fine_tune \<Rightarrow> 'o fine_tune" where
  "note_values fs t =
     t\<lparr>rate_values := rate_values t @ map fvalue (filter (\<lambda>f. fname f \<in> set REQUESTRATES) fs),
       conc_values := conc_values t @ map fvalue (filter (\<lambda>f. fname f \<in> set CONCURRENCYS) fs)\<rparr>"

definition last_of :: "string list \<Rightarrow> 'o field list \<Rightarrow> nat option" where
  "last_of names fs = find (\<lambda>i. fname (fs ! i) \<in> set names) (rev [0..<length fs])"

text \<open>When the concurrency moved, the request rate goes back to its first value.\<close>

definition restore_rate :: "'o numbers \<Rightarrow> 'o fine_tune \<Rightarrow> 'o field list \<Rightarrow> 'o field list" where
  "restore_rate nm t fs =
     (case (last_of CONCURRENCYS fs, last_of REQUESTRATES fs) of
        (Some c, Some r) \<Rightarrow>
          if \<not> py_eq nm (fvalue (fs ! c)) (last (conc_values t)) then set_value r (hd (rate_values t)) fs else fs
      | _ \<Rightarrow> fs)"

fun cap_rates :: "'o numbers \<Rightarrow> 'o obj option \<Rightarrow> 'o field list \<Rightarrow> perr + 'o field list" where
  "cap_rates nm conc [] = Inr []"
| "cap_rates nm conc (f # fs) =
     bind_sum (case conc of
                 Some c \<Rightarrow> if fname f \<in> set REQUESTRATES
                   then bind_sum (py_less nm c (fmax f)) (\<lambda>l. Inr (if l then f\<lparr>fmax := c\<rparr> else f)) else Inr f
               | None \<Rightarrow> Inr f) (\<lambda>f'.
     bind_sum (cap_rates nm conc fs) (\<lambda>fs'. Inr (f' # fs')))"

definition fine_tune_step ::
  "'o numbers \<Rightarrow> 'o field list \<Rightarrow> 'o list \<Rightarrow> 'o performance \<Rightarrow> 'o fine_tune \<Rightarrow> tune_error + 'o fine_tune \<times> 'o field list" where
  "fine_tune_step nm pf ps p t =
     bind_sum (check_config_and_performance nm t p) (\<lambda>_.
     bind_sum (tune_sum (direction_of_field_update nm p t)) (\<lambda>t1.
     bind_sum (tune_sum (map_param_with_value nm ps pf None)) (\<lambda>fs.
       let t2 = note_values fs t1; has_conc = (last_of CONCURRENCYS fs \<noteq> None); has_rate = (last_of REQUESTRATES fs \<noteq> None)
       in bind_sum (if has_conc then tune_sum (handle_concurrency nm p t2 fs) else Inr (False, t2, fs)) (\<lambda>(moved, t3, fs1).
            if moved then Inr (t3, restore_rate nm t3 fs1)
            else if \<not> has_rate then Inl StopFineTune
            else bind_sum (tune_sum (cap_rates nm (if has_conc then Some (last (conc_values t3)) else None) fs1)) (\<lambda>fs2.
                 bind_sum (tune_sum (handle_request_rate nm p t3 fs2)) (\<lambda>(moved, t4, fs3).
                   if moved then Inr (t4, fs3) else Inl StopFineTune))))))"

section \<open>Bounds of the search\<close>

definition constructing_bounds :: "'o numbers \<Rightarrow> 'o field list \<Rightarrow> 'o obj list \<times> 'o obj list" where
  "constructing_bounds nm fs = (let s = filter (\<lambda>f. \<not> is_constant nm f) fs in (map fmin s, map fmax s))"

definition dimensions :: "'o numbers \<Rightarrow> 'o field list \<Rightarrow> nat" where
  "dimensions nm fs = length (filter (\<lambda>f. \<not> is_constant nm f) fs)"

fun is_within_boundary :: "'o numbers \<Rightarrow> 'o list \<Rightarrow> 'o obj list \<Rightarrow> 'o obj list \<Rightarrow> perr + bool" where
  "is_within_boundary nm [] los his = Inr True"
| "is_within_boundary nm (v # vs) (lo # los) (hi # his) =
     bind_sum (py_less_eq nm lo (OOther v)) (\<lambda>a.
     bind_sum (if a then py_less_eq nm (OOther v) hi else Inr False) (\<lambda>b.
       if b then is_within_boundary nm vs los his else Inr False))"
| "is_within_boundary nm (v # vs) _ _ = Inl (PyErr IndexErr)"

section \<open>The best parameters\<close>

definition with_defaults :: "'o \<Rightarrow> 'o performance \<Rightarrow> 'o performance" where
  "with_defaults infinity p =
     \<lparr>generate_speed = (if generate_speed p = ONone then OInt 0 else generate_speed p),
      time_to_first_token = (if time_to_first_token p = ONone then OOther infinity else time_to_first_token p),
      time_per_output_token = (if time_per_output_token p = ONone then OOther infinity else time_per_output_token p),
      success_rate = success_rate p, throughput = throughput p\<rparr>"

text \<open>\<^verbatim>\<open>xs.index(max(xs))\<close> and \<^verbatim>\<open>xs.index(min(xs))\<close> with a strict comparison that decides which of two values is taken.\<close>

fun index_best :: "('a \<Rightarrow> 'a \<Rightarrow> perr + bool) \<Rightarrow> 'a list \<Rightarrow> nat \<Rightarrow> nat \<Rightarrow> 'a \<Rightarrow> perr + nat" where
  "index_best better [] i k b = Inr k"
| "index_best better (x # xs) i k b =
     bind_sum (better x b) (\<lambda>y. if y then index_best better xs (i + 1) i x else index_best better xs (i + 1) k b)"

definition best_index :: "('a \<Rightarrow> 'a \<Rightarrow> perr + bool) \<Rightarrow> 'a list \<Rightarrow> perr + nat" where
  "best_index better xs = (case xs of [] \<Rightarrow> Inl BadValue | x # ys \<Rightarrow> index_best better ys 1 0 x)"

text \<open>\<^verbatim>\<open>get_max_generate_speed_index\<close>: 0 when no feasible measurement has a positive speed.\<close>

fun max_speed_from :: "'o numbers \<Rightarrow> 'o performance list \<Rightarrow> nat list \<Rightarrow> nat \<Rightarrow> nat \<Rightarrow> 'o obj \<Rightarrow> perr + nat" where
  "max_speed_from nm [] ok i best m = Inr best"
| "max_speed_from nm (p # ps) ok i best m =
     (if i \<notin> set ok then max_speed_from nm ps ok (i + 1) best m
      else bind_sum (py_less nm m (generate_speed p)) (\<lambda>l.
             if l then max_speed_from nm ps ok (i + 1) i (generate_speed p) else max_speed_from nm ps ok (i + 1) best m))"

definition get_max_generate_speed_index :: "'o numbers \<Rightarrow> 'o performance list \<Rightarrow> nat list \<Rightarrow> perr + nat" where
  "get_max_generate_speed_index nm ps ok = max_speed_from nm ps ok 0 0 (OInt 0)"

definition relative :: "'o numbers \<Rightarrow> 'o obj \<Rightarrow> 'o obj \<Rightarrow> perr + 'o obj" where
  "relative nm x threshold = bind_sum (py_binary nm Sub x threshold) (\<lambda>d. py_binary nm Div d threshold)"

fun below_zero :: "'o numbers \<Rightarrow> 'o obj list \<Rightarrow> perr + bool" where
  "below_zero nm [] = Inr True"
| "below_zero nm (x # xs) = bind_sum (py_less nm x (OInt 0)) (\<lambda>l. if l then below_zero nm xs else Inr False)"

definition feasible_indices :: "'o numbers \<Rightarrow> 'o obj list list \<Rightarrow> perr + nat list" where
  "feasible_indices nm diffs =
     bind_sum (map_sum_list (below_zero nm) diffs) (\<lambda>bs. Inr (filter (\<lambda>i. bs ! i) [0..<length bs]))"

fun sum_objs :: "'o numbers \<Rightarrow> 'o obj list \<Rightarrow> 'o obj \<Rightarrow> perr + 'o obj" where
  "sum_objs nm [] acc = Inr acc"
| "sum_objs nm (x # xs) acc = bind_sum (py_binary nm Add acc x) (sum_objs nm xs)"

text \<open>The choice by the distances to the limits: a feasible one with the largest speed, else the least sum of distances.\<close>

definition choose_by_distance :: "'o numbers \<Rightarrow> 'o obj list list \<Rightarrow> 'o performance list \<Rightarrow> perr + nat" where
  "choose_by_distance nm diffs ps =
     bind_sum (feasible_indices nm diffs) (\<lambda>ok.
       if ok \<noteq> [] then get_max_generate_speed_index nm ps ok
       else bind_sum (map_sum_list (\<lambda>d. case d of [x] \<Rightarrow> Inr x | _ \<Rightarrow> sum_objs nm d (OInt 0)) diffs) (best_index (py_less nm)))"

definition best_position :: "'o numbers \<Rightarrow> 'o fine_tune \<Rightarrow> 'o performance list \<Rightarrow> perr + nat" where
  "best_position nm t ps =
     (let no_ttft = is_zero nm (ft_ttft_penalty t); no_tpot = is_zero nm (ft_tpot_penalty t)
      in if no_tpot \<and> no_ttft then best_index (\<lambda>x y. py_less nm y x) (map generate_speed ps)
         else if no_ttft
         then (if is_zero nm (tpot_upper_bound t) then Inr 0
               else bind_sum (map_sum_list (\<lambda>p. bind_sum (relative nm (time_per_output_token p) (tpot_upper_bound t)) (\<lambda>x. Inr [x])) ps)
                 (\<lambda>diffs. choose_by_distance nm diffs ps))
         else if \<not> no_tpot
         then (if is_zero nm (tpot_upper_bound t) \<or> is_zero nm (ttft_upper_bound t) then Inr 0
               else bind_sum (map_sum_list (\<lambda>p.
                      bind_sum (relative nm (time_per_output_token p) (tpot_upper_bound t)) (\<lambda>x.
                      bind_sum (relative nm (time_to_first_token p) (ttft_upper_bound t)) (\<lambda>y. Inr [x, y]))) ps)
                 (\<lambda>diffs. choose_by_distance nm diffs ps))
         else Inr 0)"

text \<open>
  \<^verbatim>\<open>best_params\<close>: \<open>None\<close> for empty input. The test of the lengths, \<^verbatim>\<open>a != b != c\<close>, is \<^verbatim>\<open>a != b and b != c\<close>; after it
  the lists are indexed with the chosen position.
\<close>

definition best_params ::
  "'o numbers \<Rightarrow> 'o fine_tune \<Rightarrow> 'o \<Rightarrow> 'f list \<Rightarrow> 'p list \<Rightarrow> 'o performance list \<Rightarrow> perr + ('f \<times> 'p \<times> 'o performance) option" where
  "best_params nm t infinity fits params ps =
     (if ps = [] \<or> fits = [] \<or> params = [] then Inr None
      else if length fits \<noteq> length params \<and> length params \<noteq> length ps then Inr None
      else (let ps' = map (with_defaults infinity) ps
            in bind_sum (best_position nm t ps') (\<lambda>k.
                 if k < length fits \<and> k < length params \<and> k < length ps'
                 then Inr (Some (fits ! k, params ! k, ps' ! k)) else Inl (PyErr IndexErr))))"

end
