(* ===== verification/Prof_Track.thy ===== *)
theory Prof_Track
  imports Hook_Exec
begin

text \<open>
  What a call of a hooked function does in the profiler package: \<open>TrackableOriginalFunc\<close> and the wrappers that
  \<open>VLLMHookerBase.replace_func\<close> builds, of \<^verbatim>\<open>ms_service_profiler/patcher/core/module_hook.py\<close>.

  Callables are those of \<open>Hook_Exec\<close>; the state is the world, what the trackable function remembers, and the count of
  failures. Two exceptions are equal when they are the same object. A coroutine runs when it is awaited. A function
  that calls itself through its own hook is outside the model: the inner call would overwrite what is remembered.
\<close>

section \<open>The trackable function\<close>

definition HOOK_FAILURES :: nat where
  "HOOK_FAILURES = 5"

record 'v track =
  executed :: bool
  cached_result :: 'v
  cached_exception :: "'v option"

type_synonym ('a, 'v, 'w) tracked = "('a, 'v, 'w \<times> 'v track) plain"

text \<open>\<open>reset\<close>; \<open>none\<close> is \<^verbatim>\<open>None\<close>.\<close>

definition reset_track :: "'v \<Rightarrow> 'v track" where
  "reset_track none = \<lparr>executed = False, cached_result = none, cached_exception = None\<rparr>"

definition execute_and_cache :: "('v \<Rightarrow> bool) \<Rightarrow> ('a, 'v, 'w) plain \<Rightarrow> ('a, 'v, 'w) tracked" where
  "execute_and_cache is_exc ori a s =
     (case ori a (fst s) of
        (Ret v, w) \<Rightarrow> (Ret v, (w, (snd s)\<lparr>cached_result := v, executed := True\<rparr>))
      | (Raise e, w) \<Rightarrow> (Raise e, (w, if is_exc e then (snd s)\<lparr>cached_exception := Some e, executed := True\<rparr> else snd s)))"

definition check_cached_result :: "'v \<Rightarrow> 'v track \<Rightarrow> 'v outcome" where
  "check_cached_result none t =
     (if executed t then (case cached_exception t of Some e \<Rightarrow> Raise e | None \<Rightarrow> Ret (cached_result t)) else Ret none)"

text \<open>\<open>__call__\<close>: a cached result is returned unless it is \<^verbatim>\<open>None\<close>.\<close>

definition call_trackable :: "'v \<Rightarrow> ('v \<Rightarrow> bool) \<Rightarrow> ('a, 'v, 'w) plain \<Rightarrow> ('a, 'v, 'w) tracked" where
  "call_trackable none is_exc ori a s =
     (case check_cached_result none (snd s) of
        Raise e \<Rightarrow> (Raise e, s)
      | Ret v \<Rightarrow> if v \<noteq> none then (Ret v, s) else execute_and_cache is_exc ori a s)"

text \<open>\<^verbatim>\<open>await\<close> of a call: a cached result is no awaitable, \<open>type_err\<close> is raised.\<close>

definition await_trackable :: "'v \<Rightarrow> 'v \<Rightarrow> ('v \<Rightarrow> bool) \<Rightarrow> ('a, 'v, 'w) plain \<Rightarrow> ('a, 'v, 'w) tracked" where
  "await_trackable type_err none is_exc ori a s =
     (case check_cached_result none (snd s) of
        Raise e \<Rightarrow> (Raise e, s)
      | Ret v \<Rightarrow> if v \<noteq> none then (Raise type_err, s) else execute_and_cache is_exc ori a s)"

section \<open>The wrapper\<close>

text \<open>\<open>on_recover\<close> removes the hook; what it raises is caught by \<open>_recover_current\<close>.\<close>

definition permanent_fallback :: "('w \<Rightarrow> 'w) \<Rightarrow> nat \<Rightarrow> 'w \<Rightarrow> 'w" where
  "permanent_fallback on_recover failures w = (if HOOK_FAILURES \<le> failures then on_recover w else w)"

text \<open>After a failure of the hook, \<open>is_context\<close> tells whether the hook is a generator function.\<close>

definition after_failure ::
  "('v \<Rightarrow> bool) \<Rightarrow> bool \<Rightarrow> ('w \<Rightarrow> 'w) \<Rightarrow> ('a, 'v, 'w) tracked \<Rightarrow> nat \<Rightarrow> 'a \<Rightarrow> 'w \<times> 'v track \<Rightarrow> 'v outcome \<times> 'w \<times> 'v track" where
  "after_failure is_exc is_context on_recover trackable failures a s =
     (if is_context then trackable a (on_recover (fst s), snd s)
      else case trackable a s of
             (Ret v, (w, t)) \<Rightarrow> (Ret v, (permanent_fallback on_recover failures w, t))
           | (Raise e, (w, t)) \<Rightarrow> (Raise e, (if is_exc e then permanent_fallback on_recover failures w else w, t)))"

text \<open>
  \<^verbatim>\<open>_create_sync_wrapper\<close> and \<^verbatim>\<open>_create_async_wrapper\<close>, which differ in how they call the trackable function. \<open>other_caller\<close> is
  the test of the filter, \<open>profiler\<close> the hook around the trackable function.
\<close>

definition create_wrapper ::
  "'v \<Rightarrow> ('v \<Rightarrow> bool) \<Rightarrow> ('w \<Rightarrow> bool) \<Rightarrow> bool \<Rightarrow> ('w \<Rightarrow> 'w) \<Rightarrow> ('a, 'v, 'w) tracked \<Rightarrow> ('a, 'v, 'w) tracked \<Rightarrow>
   'a \<Rightarrow> 'w \<times> nat \<Rightarrow> 'v outcome \<times> 'w \<times> nat" where
  "create_wrapper none is_exc other_caller is_context on_recover trackable profiler a s =
     (let s0 = (fst s, reset_track none); failures = snd s
      in if other_caller (fst s) \<or> HOOK_FAILURES \<le> failures
         then (case trackable a s0 of (r, (w, t)) \<Rightarrow> (r, (w, failures)))
         else case profiler a s0 of
                (Ret v, (w, t)) \<Rightarrow> (Ret v, (w, failures))
              | (Raise e, (w, t)) \<Rightarrow>
                  if \<not> is_exc e \<or> executed t \<and> cached_exception t = Some e then (Raise e, (w, failures))
                  else (case after_failure is_exc is_context on_recover trackable (failures + 1) a (w, t) of
                          (r, (w', t')) \<Rightarrow> (r, (w', failures + 1))))"

text \<open>
  The hook \<open>do_hook\<close> passes to \<open>replace_func\<close>: without a wrap function it is the original function itself, not the
  trackable one, unless there is an outer wrapper.
\<close>

definition untracked :: "('a, 'v, 'w) plain \<Rightarrow> ('a, 'v, 'w) tracked" where
  "untracked ori a s = (case ori a (fst s) of (r, w) \<Rightarrow> (r, (w, snd s)))"

definition profiler_func ::
  "(('a, 'v, 'w) tracked \<Rightarrow> ('a, 'v, 'w) tracked) option \<Rightarrow> (('a, 'v, 'w) tracked \<Rightarrow> ('a, 'v, 'w) tracked) option \<Rightarrow>
   ('a, 'v, 'w) tracked \<Rightarrow> ('a, 'v, 'w) plain \<Rightarrow> ('a, 'v, 'w) tracked" where
  "profiler_func wrap_hook around trackable ori =
     (let f = (case wrap_hook of
                 None \<Rightarrow> if around \<noteq> None then trackable else untracked ori
               | Some h \<Rightarrow> h trackable)
      in case around of None \<Rightarrow> f | Some g \<Rightarrow> g f)"


section \<open>A hook that calls the function at most once\<close>

text \<open>\<open>before\<close> ends the call or passes arguments on, \<open>after\<close> sees how the function ended. Both may raise.\<close>

definition once_hook ::
  "('a \<Rightarrow> 'w \<Rightarrow> ('v outcome + 'a) \<times> 'w) \<Rightarrow> ('a \<Rightarrow> 'v outcome \<Rightarrow> 'w \<Rightarrow> 'v outcome \<times> 'w) \<Rightarrow>
   ('a, 'v, 'w) tracked \<Rightarrow> ('a, 'v, 'w) tracked" where
  "once_hook before after call a s =
     (case before a (fst s) of
        (Inl r, w) \<Rightarrow> (r, (w, snd s))
      | (Inr b, w) \<Rightarrow> (case call b (w, snd s) of (r, (w1, t)) \<Rightarrow> (case after b r w1 of (r', w2) \<Rightarrow> (r', (w2, t)))))"

text \<open>The world with a record of what the original function was called with and how it ended.\<close>

type_synonym ('a, 'v, 'u) logged = "('a \<times> 'v outcome) list \<times> 'u"

definition log_calls :: "('a \<Rightarrow> 'u \<Rightarrow> 'v outcome \<times> 'u) \<Rightarrow> ('a, 'v, ('a, 'v, 'u) logged) plain" where
  "log_calls ori a w = (case ori a (snd w) of (r, u) \<Rightarrow> (r, (fst w @ [(a, r)], u)))"

definition beside_log :: "('u \<Rightarrow> 'b \<times> 'u) \<Rightarrow> ('a, 'v, 'u) logged \<Rightarrow> 'b \<times> ('a, 'v, 'u) logged" where
  "beside_log f w = (case f (snd w) of (b, u) \<Rightarrow> (b, (fst w, u)))"

definition logged_hook ::
  "('a \<Rightarrow> 'u \<Rightarrow> ('v outcome + 'a) \<times> 'u) \<Rightarrow> ('a \<Rightarrow> 'v outcome \<Rightarrow> 'u \<Rightarrow> 'v outcome \<times> 'u) \<Rightarrow>
   ('a, 'v, ('a, 'v, 'u) logged) tracked \<Rightarrow> ('a, 'v, ('a, 'v, 'u) logged) tracked" where
  "logged_hook before after = once_hook (\<lambda>a. beside_log (before a)) (\<lambda>a r. beside_log (after a r))"

definition log_recover :: "('u \<Rightarrow> 'u) \<Rightarrow> ('a, 'v, 'u) logged \<Rightarrow> ('a, 'v, 'u) logged" where
  "log_recover f w = (fst w, f (snd w))"

text \<open>The runs that one call adds, and what the caller may rely on.\<close>

definition business_kept :: "('v \<Rightarrow> bool) \<Rightarrow> bool \<Rightarrow> ('a \<times> 'v outcome) list \<Rightarrow> 'v outcome \<Rightarrow> bool" where
  "business_kept is_exc failed runs r \<longleftrightarrow> length runs \<le> 1 \<and>
     (if failed then \<exists>b. runs = [(b, r)] else (\<forall>e. r = Raise e \<and> is_exc e \<longrightarrow> (\<exists>b. runs = [(b, Raise e)])))"

text \<open>What the trackable function remembers after a run that ended with \<open>q\<close>.\<close>

definition remembered :: "'v \<Rightarrow> ('v \<Rightarrow> bool) \<Rightarrow> 'v outcome \<Rightarrow> 'v track" where
  "remembered none is_exc q =
     (case q of
        Ret v \<Rightarrow> \<lparr>executed = True, cached_result = v, cached_exception = None\<rparr>
      | Raise e \<Rightarrow> if is_exc e then \<lparr>executed = True, cached_result = none, cached_exception = Some e\<rparr> else reset_track none)"

lemma first_call:
  "call_trackable none is_exc (log_calls ori) a (w, reset_track none) =
     (case ori a (snd w) of (q, u) \<Rightarrow> (q, ((fst w @ [(a, q)], u), remembered none is_exc q)))"
  by (auto simp: call_trackable_def check_cached_result_def reset_track_def execute_and_cache_def log_calls_def
      remembered_def split: outcome.splits prod.splits)

lemma later_call:
  assumes "q \<noteq> Ret none" "\<And>e. q = Raise e \<Longrightarrow> is_exc e"
  shows "call_trackable none is_exc ori a (w, remembered none is_exc q) = (q, (w, remembered none is_exc q))"
  using assms by (cases q) (auto simp: remembered_def call_trackable_def check_cached_result_def)

lemma logged_hook_run:
  "logged_hook before after (call_trackable none is_exc (log_calls ori)) a (w, reset_track none) =
     (case before a (snd w) of
        (Inl r, u) \<Rightarrow> (r, ((fst w, u), reset_track none))
      | (Inr b, u) \<Rightarrow>
          (case ori b u of
             (q, u1) \<Rightarrow> (case after b q u1 of (r, u2) \<Rightarrow> (r, ((fst w @ [(b, q)], u2), remembered none is_exc q)))))"
  by (auto simp: logged_hook_def once_hook_def beside_log_def first_call split: prod.splits sum.splits)

lemma after_failure_new:
  "after_failure is_exc ctx (log_recover rec) (call_trackable none is_exc (log_calls ori)) k a (w, reset_track none) = (r, (w', t)) \<Longrightarrow>
   fst w' = fst w @ [(a, r)]"
  by (auto simp: after_failure_def first_call log_recover_def permanent_fallback_def split: if_splits prod.splits outcome.splits)

lemma after_failure_again:
  assumes "q \<noteq> Ret none" "\<And>e. q = Raise e \<Longrightarrow> is_exc e"
    and "after_failure is_exc ctx (log_recover rec) (call_trackable none is_exc (log_calls ori)) k a (w, remembered none is_exc q) = (r, (w', t))"
  shows "fst w' = fst w \<and> r = q"
proof -
  have again: "call_trackable none is_exc f a (v, remembered none is_exc q) = (q, (v, remembered none is_exc q))" for f v
    by (rule later_call) (use assms(1,2) in auto)
  show ?thesis using assms(3) unfolding after_failure_def fst_conv snd_conv again
    by (cases q) (auto simp: log_recover_def permanent_fallback_def split: if_splits)
qed

text \<open>
  Property C30. A call of a hooked synchronous function that never returns \<^verbatim>\<open>None\<close> and raises nothing but Exceptions, with a wrap
  function as its hook that either ends the call itself or calls the trackable function once and then ends in any way: the original
  function runs at most once; when the hook fails, it has run exactly once and the caller gets what it returned or raised; and no
  Exception of the hook reaches the caller, only one the original function raised in this call. (Coroutines and hooks without a
  wrap function are excluded, see the last section.)
\<close>

theorem hook_failures_contained:
  assumes ori: "\<And>b u. fst (ori b u) \<noteq> Ret none" "\<And>b u e. fst (ori b u) = Raise e \<Longrightarrow> is_exc e"
    and run: "create_wrapper none is_exc other_caller is_context (log_recover rec) (call_trackable none is_exc (log_calls ori))
      (logged_hook before after (call_trackable none is_exc (log_calls ori))) a ((l, u), k) = (r, (l', u'), k')"
  shows "\<exists>runs. l' = l @ runs \<and> business_kept is_exc (k' \<noteq> k) runs r \<and> k' \<le> k + 1"
proof -
  let ?T = "call_trackable none is_exc (log_calls ori)" and ?R = "reset_track none"
  consider (direct) "other_caller (l, u) \<or> HOOK_FAILURES \<le> k"
    | (hooked) "\<not> (other_caller (l, u) \<or> HOOK_FAILURES \<le> k)" by blast
  then show ?thesis
  proof cases
    case direct
    then show ?thesis using run
      by (auto simp: create_wrapper_def first_call Let_def business_kept_def split: prod.splits)
  next
    case hooked
    obtain p u1 where before: "before a u = (p, u1)" by fastforce
    show ?thesis
    proof (cases p)
      case (Inl r0)
      then have hook: "logged_hook before after ?T a ((l, u), ?R) = (r0, ((l, u1), ?R))" by (simp add: logged_hook_run before)
      show ?thesis
      proof (cases "\<exists>e. r0 = Raise e \<and> is_exc e")
        case True
        then obtain e where "r0 = Raise e" "is_exc e" by blast
        with run hooked hook have "after_failure is_exc is_context (log_recover rec) ?T (k + 1) a ((l, u1), ?R) = (r, ((l', u'), snd (snd
            (after_failure is_exc is_context (log_recover rec) ?T (k + 1) a ((l, u1), ?R)))))" "k' = k + 1"
          by (auto simp: create_wrapper_def Let_def reset_track_def split: prod.splits)
        from after_failure_new[OF this(1)] this(2) show ?thesis by (simp add: business_kept_def)
      next
        case False
        with run hooked hook have "r = r0" "l' = l" "k' = k"
          by (auto simp: create_wrapper_def Let_def split: prod.splits outcome.splits)
        with False show ?thesis by (auto simp: business_kept_def)
      qed
    next
      case (Inr b)
      obtain q u2 where q: "ori b u1 = (q, u2)" by fastforce
      obtain r1 u3 where r1: "after b q u2 = (r1, u3)" by fastforce
      let ?M = "remembered none is_exc q"
      have exc: "q \<noteq> Ret none" "\<And>e. q = Raise e \<Longrightarrow> is_exc e" using ori[of b u1] q by auto
      have hook: "logged_hook before after ?T a ((l, u), ?R) = (r1, ((l @ [(b, q)], u3), ?M))"
        by (simp add: logged_hook_run before Inr q r1)
      show ?thesis
      proof (cases "\<exists>e. r1 = Raise e \<and> is_exc e \<and> q \<noteq> Raise e")
        case True
        then obtain e where e: "r1 = Raise e" "is_exc e" "q \<noteq> Raise e" by blast
        have "\<not> (executed ?M \<and> cached_exception ?M = Some e)" using e(3) exc
          by (cases q) (auto simp: remembered_def)
        with run hooked hook e have "after_failure is_exc is_context (log_recover rec) ?T (k + 1) a ((l @ [(b, q)], u3), ?M) = (r, ((l', u'), snd (snd
            (after_failure is_exc is_context (log_recover rec) ?T (k + 1) a ((l @ [(b, q)], u3), ?M)))))" "k' = k + 1"
          by (auto simp: create_wrapper_def Let_def split: prod.splits)
        from after_failure_again[OF exc this(1)] this(2) show ?thesis by (simp add: business_kept_def)
      next
        case False
        have "r = r1 \<and> l' = l @ [(b, q)] \<and> k' = k"
        proof (cases r1)
          case (Ret v)
          then show ?thesis using run hooked hook by (auto simp: create_wrapper_def Let_def)
        next
          case (Raise e)
          then have "\<not> is_exc e \<or> executed ?M \<and> cached_exception ?M = Some e" using False exc by (auto simp: remembered_def)
          then show ?thesis using Raise run hooked hook by (auto simp: create_wrapper_def Let_def)
        qed
        with False show ?thesis by (auto simp: business_kept_def)
      qed
    qed
  qed
qed


text \<open>A hook that fails after the original function.\<close>

theorem hook_failures_contained_witness:
  "create_wrapper 0 (\<lambda>e. 100 \<le> e) (\<lambda>_. False) False (log_recover id)
     (call_trackable 0 (\<lambda>e. 100 \<le> e) (log_calls (\<lambda>b u. (Ret (b + 1), u + 1))))
     (logged_hook (\<lambda>b u. (Inr b, u)) (\<lambda>b q u. (Raise 100, u)) (call_trackable 0 (\<lambda>e. 100 \<le> e) (log_calls (\<lambda>b u. (Ret (b + 1), u + 1)))))
     (3 :: nat) (([], 0 :: nat), 0) = (Ret 4, ([(3, Ret 4)], 1), 1) \<and>
   (\<exists>runs. [(3 :: nat, Ret 4)] = [] @ runs \<and> business_kept (\<lambda>e. 100 \<le> e) ((1 :: nat) \<noteq> 0) runs (Ret (4 :: nat)) \<and> (1 :: nat) \<le> 0 + 1)"
proof -
  let ?ori = "\<lambda>b u. (Ret (b + 1 :: nat), u + 1 :: nat)"
  let ?T = "call_trackable 0 (\<lambda>e. 100 \<le> e) (log_calls ?ori)"
  have run: "create_wrapper 0 (\<lambda>e. 100 \<le> e) (\<lambda>_. False) False (log_recover id) ?T
      (logged_hook (\<lambda>b u. (Inr b, u)) (\<lambda>b q u. (Raise 100, u)) ?T) 3 (([], 0), 0) = (Ret 4, ([(3, Ret 4)], 1), 1)"
    by code_simp
  show ?thesis
    using run hook_failures_contained[where ori = ?ori and none = 0 and is_exc = "\<lambda>e. 100 \<le> e", OF _ _ run] by simp
qed

section \<open>Where the wrapper does not keep the promise\<close>

text \<open>A function that returned \<^verbatim>\<open>None\<close> runs again when the hook fails after it.\<close>

lemma none_result_runs_twice:
  assumes "before a u = (Inr a, u0)" "ori a u0 = (Ret none, u1)" "after a (Ret none) u1 = (Raise e, u2)" "is_exc e"
    "ori a u2 = (q, u3)" "k < HOOK_FAILURES"
  shows "\<exists>w'. create_wrapper none is_exc (\<lambda>_. False) False (log_recover rec) (call_trackable none is_exc (log_calls ori))
      (logged_hook before after (call_trackable none is_exc (log_calls ori))) a ((l, u), k) = (q, (w', k + 1)) \<and>
    fst w' = l @ [(a, Ret none), (a, q)]"
  using assms
  by (cases q) (auto simp: create_wrapper_def logged_hook_run after_failure_def call_trackable_def check_cached_result_def remembered_def
      execute_and_cache_def log_calls_def log_recover_def permanent_fallback_def Let_def)

text \<open>
  Without a wrap function and an outer wrapper the hook is the original function itself: when it raises, this counts as
  a failure of the hook, and it runs again.
\<close>

lemma raising_function_runs_twice:
  assumes "ori a u = (Raise e, u1)" "is_exc e" "ori a u1 = (q, u2)" "k < HOOK_FAILURES"
  shows "\<exists>w'. create_wrapper none is_exc (\<lambda>_. False) False (log_recover rec) (call_trackable none is_exc (log_calls ori))
      (profiler_func None None (call_trackable none is_exc (log_calls ori)) (log_calls ori)) a ((l, u), k) = (q, (w', k + 1)) \<and>
    fst w' = l @ [(a, Raise e), (a, q)]"
  using assms
  by (cases q) (auto simp: create_wrapper_def profiler_func_def untracked_def after_failure_def call_trackable_def
      check_cached_result_def reset_track_def execute_and_cache_def log_calls_def log_recover_def permanent_fallback_def Let_def)

text \<open>An asynchronous function that returned a value: when the hook fails after it, the caller gets a \<^verbatim>\<open>TypeError\<close>.\<close>

lemma async_failure_raises:
  assumes "before a u = (Inr a, u0)" "ori a u0 = (Ret v, u1)" "v \<noteq> none" "after a (Ret v) u1 = (Raise e, u2)" "is_exc e" "k < HOOK_FAILURES"
  shows "\<exists>w'. create_wrapper none is_exc (\<lambda>_. False) False (log_recover rec) (await_trackable type_err none is_exc (log_calls ori))
      (logged_hook before after (await_trackable type_err none is_exc (log_calls ori))) a ((l, u), k) = (Raise type_err, (w', k + 1)) \<and>
    fst w' = l @ [(a, Ret v)]"
  using assms
  by (auto simp: create_wrapper_def logged_hook_def once_hook_def beside_log_def after_failure_def await_trackable_def
      check_cached_result_def reset_track_def execute_and_cache_def log_calls_def log_recover_def permanent_fallback_def Let_def)

end
