(* ===== verification/Prof_Hooker.thy ===== *)
theory Prof_Hooker
  imports Prof_Track
begin

text \<open>
  Installing and removing the hooks of the profiler package: \<open>ConfigHooker\<close>, \<open>MultiHandlerDynamicHooker\<close> of
  \<^verbatim>\<open>ms_service_profiler/patcher/core/dynamic_hook.py\<close>, \<open>do_hook\<close>, \<open>recover\<close> and \<open>HookHelper\<close> of \<^verbatim>\<open>module_hook.py\<close>, and the registry.

  A hook point is a module and a path of attributes. When the metric package is there, a hook is a node of the hook chain of
  the function at the point (\<open>Hook_Chain\<close>), otherwise the attribute itself is replaced. A hook function is a value of
  type \<open>'h\<close>; \<open>None\<close> stands for \<open>default_hook_func\<close>. A Python set is a list of its elements, without two that are equal in the
  sense of \<open>ConfigHooker.__eq__\<close>. When the program iterates over a set, the elements come in an arbitrary order, which may be
  another one each time: \<open>set_order n\<close> ranks them in the \<open>n\<close>-th iteration.
\<close>

section \<open>Hookers\<close>

type_synonym point = "string \<times> string"

record 'h hooker =
  symbol_path :: string
  applied_hook_func_name :: string
  hook_list :: "point list"
  min_version :: "string option"
  max_version :: "string option"
  caller_filter :: "string option"
  framework_version :: "string option"
  need_locals :: bool
  wrap_hook_func :: "'h option"
  context_hook_funcs :: "'h list"
  around_hook_factory :: "'h option"

text \<open>\<open>context_of\<close> is \<open>create_context_manager\<close>: the context manager of a generator function or of a class of managers.\<close>

fun wrap_hooks :: "('h \<Rightarrow> 'h option) \<Rightarrow> 'h list \<Rightarrow> 'h list" where
  "wrap_hooks context_of [] = []"
| "wrap_hooks context_of (f # fs) = (if context_of f = None then f # wrap_hooks context_of fs else wrap_hooks context_of fs)"

fun context_hooks :: "('h \<Rightarrow> 'h option) \<Rightarrow> 'h list \<Rightarrow> 'h list" where
  "context_hooks context_of [] = []"
| "context_hooks context_of (f # fs) =
     (case context_of f of None \<Rightarrow> context_hooks context_of fs | Some c \<Rightarrow> c # context_hooks context_of fs)"

definition first_hook :: "'h list \<Rightarrow> 'h option" where
  "first_hook fs = (case fs of [] \<Rightarrow> None | f # _ \<Rightarrow> Some f)"

definition new_config_hooker ::
  "('h \<Rightarrow> 'h option) \<Rightarrow> point list \<Rightarrow> 'h list \<Rightarrow> string \<Rightarrow> string \<Rightarrow> string option \<Rightarrow> string option \<Rightarrow> string option \<Rightarrow>
   string option \<Rightarrow> bool \<Rightarrow> 'h option \<Rightarrow> 'h hooker" where
  "new_config_hooker context_of points fs name path lo hi filter_name version locals around =
     \<lparr>symbol_path = path, applied_hook_func_name = name, hook_list = points, min_version = lo, max_version = hi, caller_filter = filter_name,
      framework_version = version, need_locals = locals, wrap_hook_func = first_hook (wrap_hooks context_of fs),
      context_hook_funcs = context_hooks context_of fs, around_hook_factory = around\<rparr>"

text \<open>\<open>__eq__\<close>\<close>

definition same_hooker :: "'h hooker \<Rightarrow> 'h hooker \<Rightarrow> bool" where
  "same_hooker h g \<longleftrightarrow> symbol_path h = symbol_path g \<and> applied_hook_func_name h = applied_hook_func_name g"

definition hooker_key :: "'h hooker \<Rightarrow> string list" where
  "hooker_key h = [symbol_path h, applied_hook_func_name h]"

definition has_hooker :: "'h hooker \<Rightarrow> 'h hooker list \<Rightarrow> bool" where
  "has_hooker h hs = list_ex (same_hooker h) hs"

fun remove_hooker :: "'h hooker \<Rightarrow> 'h hooker list \<Rightarrow> 'h hooker list" where
  "remove_hooker h [] = []"
| "remove_hooker h (g # gs) = (if same_hooker h g then gs else g # remove_hooker h gs)"

definition insert_hooker :: "'h hooker \<Rightarrow> 'h hooker list \<Rightarrow> 'h hooker list" where
  "insert_hooker h hs = (if has_hooker h hs then hs else hs @ [h])"

text \<open>\<open>later v w\<close> is \<^verbatim>\<open>Version(v) > Version(w)\<close>.\<close>

definition support_version :: "(string \<Rightarrow> string \<Rightarrow> bool) \<Rightarrow> 'h hooker \<Rightarrow> bool" where
  "support_version later h =
     (case framework_version h of
        None \<Rightarrow> True
      | Some v \<Rightarrow>
          (case min_version h of None \<Rightarrow> True | Some lo \<Rightarrow> \<not> later lo v) \<and> (case max_version h of None \<Rightarrow> True | Some hi \<Rightarrow> \<not> later v hi))"

section \<open>The state\<close>

text \<open>What \<open>replace_func\<close> builds: the wrap functions, the outermost first, the outer wrapper and the filter.\<close>

record 'h wrapped =
  w_hooks :: "'h list"
  w_around :: "'h option"
  w_pname :: "string option"

text \<open>What an attribute holds: a plain function, or a static or class method.\<close>

datatype slot_kind = PlainSlot | StaticSlot | ClassSlot

datatype 'h target_func = Original | Hooked "'h wrapped" "'h target_func"

type_synonym 'h slot = "slot_kind \<times> 'h target_func"

text \<open>The helper objects that \<^verbatim>\<open>self.hooks\<close> holds.\<close>

datatype 'h hook_ref = NodeRef point nat | SlotRef point "'h target_func"

record 'h multi =
  m_points :: "point list"
  m_handlers :: "'h hooker list"
  m_wrap :: "'h list"
  m_context :: "'h list"
  m_around :: "'h option"
  m_locals :: bool
  m_hooks :: "'h hook_ref list"

record 'h hooks =
  managers :: "(string, 'h multi) dict"
  chain_at :: "point \<Rightarrow> 'h wrapped hook_chain"
  slot_at :: "point \<Rightarrow> 'h slot"
  hook_registry :: "'h hooker list"
  set_draws :: nat

definition no_hooks :: "(point \<Rightarrow> 'h slot) \<Rightarrow> 'h hooks" where
  "no_hooks slots = \<lparr>managers = [], chain_at = (\<lambda>_. new_chain), slot_at = slots, hook_registry = [], set_draws = 0\<rparr>"

text \<open>What the interpreter and the installed packages decide.\<close>

record runtime =
  metric_chain :: bool
  resolvable :: "point \<Rightarrow> bool"
  chain_built :: "point \<Rightarrow> bool"
  chain_replaces :: "point \<Rightarrow> bool"
  locatable :: "point \<Rightarrow> bool"
  settable :: "point \<Rightarrow> bool"
  later_version :: "string \<Rightarrow> string \<Rightarrow> bool"
  set_order :: "nat \<Rightarrow> string list \<Rightarrow> nat"

text \<open>The elements of a set in the order of the next iteration; \<open>set_draws\<close> counts the iterations.\<close>

definition iterate_set :: "runtime \<Rightarrow> ('b \<Rightarrow> string list) \<Rightarrow> 'b list \<Rightarrow> 'h hooks \<Rightarrow> 'b list \<times> 'h hooks" where
  "iterate_set rt key xs w =
     (if xs = [] then ([], w)
      else (sort_key (\<lambda>x. set_order rt (set_draws w) (key x)) xs, w\<lparr>set_draws := Suc (set_draws w)\<rparr>))"

section \<open>Hooking a point\<close>

definition PROFILER_SYMBOL_PREFIXES :: "string list" where
  "PROFILER_SYMBOL_PREFIXES = [''vllm.'', ''vllm_ascend.'', ''sglang.'', ''ms_service_profiler.'', ''ms_service_metric.'']"

definition import_object :: "runtime \<Rightarrow> point \<Rightarrow> bool" where
  "import_object rt p \<longleftrightarrow> fst p \<noteq> [] \<and> startswith_any (fst p) PROFILER_SYMBOL_PREFIXES \<and> resolvable rt p"

definition wrapped_of :: "'h multi \<Rightarrow> 'h wrapped" where
  "wrapped_of m = \<lparr>w_hooks = m_wrap m, w_around = m_around m, w_pname = None\<rparr>"

text \<open>\<open>HookHelper._get_method\<close>: a class method becomes a static method.\<close>

fun method_kind :: "slot_kind \<Rightarrow> slot_kind" where
  "method_kind PlainSlot = PlainSlot"
| "method_kind StaticSlot = StaticSlot"
| "method_kind ClassSlot = StaticSlot"

definition set_slot :: "point \<Rightarrow> 'h target_func \<Rightarrow> 'h hooks \<Rightarrow> 'h hooks" where
  "set_slot p f w = w\<lparr>slot_at := (slot_at w)(p := (method_kind (fst (slot_at w p)), f))\<rparr>"

text \<open>One point of \<open>do_hook\<close>; \<open>False\<close> when it raises.\<close>

definition install_point :: "runtime \<Rightarrow> point \<Rightarrow> 'h multi \<times> 'h hooks \<Rightarrow> bool \<times> 'h multi \<times> 'h hooks" where
  "install_point rt p s =
     (case s of (m, w) \<Rightarrow>
        if metric_chain rt
        then (case add_chain_node (chain_built rt p) (chain_replaces rt p) False (chain_at w p) of
                (None, c) \<Rightarrow> (False, (m, w\<lparr>chain_at := (chain_at w)(p := c)\<rparr>))
              | (Some i, c) \<Rightarrow>
                  (True, (m\<lparr>m_hooks := m_hooks m @ [NodeRef p i]\<rparr>,
                          w\<lparr>chain_at := (chain_at w)(p := set_hook_func i (wrapped_of m) c)\<rparr>)))
        else if \<not> locatable rt p \<or> \<not> settable rt p then (False, (m, w))
        else (let f = snd (slot_at w p)
              in (True, (m\<lparr>m_hooks := m_hooks m @ [SlotRef p f]\<rparr>, set_slot p (Hooked (wrapped_of m) f) w))))"

fun do_hook :: "runtime \<Rightarrow> point list \<Rightarrow> 'h multi \<times> 'h hooks \<Rightarrow> bool \<times> 'h multi \<times> 'h hooks" where
  "do_hook rt [] s = (True, s)"
| "do_hook rt (p # ps) s =
     (if \<not> import_object rt p then do_hook rt ps s
      else case install_point rt p s of (ok, s') \<Rightarrow> if ok then do_hook rt ps s' else (False, s'))"

text \<open>\<open>recover\<close> of one helper object; \<open>None\<close> when it raises, which ends the loop of \<open>recover\<close>.\<close>

definition recover_ref :: "runtime \<Rightarrow> 'h hook_ref \<Rightarrow> 'h hooks \<Rightarrow> 'h hooks option" where
  "recover_ref rt r w =
     (case r of
        NodeRef p i \<Rightarrow> Some (w\<lparr>chain_at := (chain_at w)(p := snd (remove_chain_node i (chain_at w p)))\<rparr>)
      | SlotRef p f \<Rightarrow> if settable rt p then Some (set_slot p f w) else None)"

fun recover_refs :: "runtime \<Rightarrow> 'h hook_ref list \<Rightarrow> 'h hooks \<Rightarrow> 'h hooks" where
  "recover_refs rt [] w = w"
| "recover_refs rt (r # rs) w = (case recover_ref rt r w of None \<Rightarrow> w | Some w' \<Rightarrow> recover_refs rt rs w')"

section \<open>All handlers of one symbol\<close>

text \<open>The handlers are given in the order in which the set is iterated over.\<close>

definition build_wrap_hook_func :: "'h hooker list \<Rightarrow> 'h list" where
  "build_wrap_hook_func hs = List.map_filter wrap_hook_func hs"

text \<open>\<open>select_around_hook_factory\<close>: the outer wrapper in use stays if a handler still has it.\<close>

definition select_around_hook_factory :: "'h option \<Rightarrow> 'h hooker list \<Rightarrow> 'h option" where
  "select_around_hook_factory current hs =
     (let factories = List.map_filter around_hook_factory hs
      in case current of
           Some f \<Rightarrow> if f \<in> set factories then current else first_hook factories
         | None \<Rightarrow> first_hook factories)"

definition new_multi :: "'h hooker \<Rightarrow> 'h multi" where
  "new_multi h = \<lparr>m_points = hook_list h, m_handlers = [], m_wrap = [], m_context = [], m_around = None, m_locals = need_locals h, m_hooks = []\<rparr>"

definition set_handlers :: "'h hooker list \<Rightarrow> 'h multi \<Rightarrow> 'h multi" where
  "set_handlers hs m =
     m\<lparr>m_handlers := hs, m_wrap := build_wrap_hook_func hs, m_context := concat (map context_hook_funcs hs),
       m_around := select_around_hook_factory (m_around m) hs, m_locals := list_ex need_locals hs\<rparr>"

text \<open>
  \<open>add_handler\<close> and \<open>recover_handler\<close> on the manager of a symbol. \<^verbatim>\<open>self.handlers\<close> is a set; what is made of it, the
  composed wrap function included, follows the order in which it is iterated over after the change.
\<close>

definition multi_add :: "runtime \<Rightarrow> 'h hooker \<Rightarrow> 'h multi \<times> 'h hooks \<Rightarrow> bool \<times> 'h multi \<times> 'h hooks" where
  "multi_add rt h s =
     (case s of (m, w) \<Rightarrow>
        if has_hooker h (m_handlers m) then (True, s)
        else case iterate_set rt hooker_key (m_handlers m @ [h]) (recover_refs rt (m_hooks m) w) of
               (hs, w1) \<Rightarrow> do_hook rt (m_points m) (set_handlers hs m, w1))"

definition multi_recover :: "runtime \<Rightarrow> 'h hooker \<Rightarrow> 'h multi \<times> 'h hooks \<Rightarrow> bool \<times> 'h multi \<times> 'h hooks" where
  "multi_recover rt h s =
     (case s of (m, w) \<Rightarrow>
        if \<not> has_hooker h (m_handlers m) then (True, s)
        else (let hs = remove_hooker h (m_handlers m); w1 = recover_refs rt (m_hooks m) w
              in if hs = [] then (True, (m\<lparr>m_handlers := []\<rparr>, w1))
                 else case iterate_set rt hooker_key hs w1 of
                        (hs', w2) \<Rightarrow> do_hook rt (m_points m) (set_handlers hs' m, w2)))"

section \<open>ConfigHooker\<close>

definition store_manager :: "string \<Rightarrow> bool \<times> 'h multi \<times> 'h hooks \<Rightarrow> bool \<times> 'h hooks" where
  "store_manager path r = (case r of (ok, (m, w)) \<Rightarrow> (ok, w\<lparr>managers := dict_set path m (managers w)\<rparr>))"

definition hooker_init :: "runtime \<Rightarrow> 'h hooker \<Rightarrow> 'h hooks \<Rightarrow> bool \<times> 'h hooks" where
  "hooker_init rt h w =
     (if \<not> support_version (later_version rt) h then (True, w)
      else (let m = (case dict_get (managers w) (symbol_path h) of None \<Rightarrow> new_multi h | Some m \<Rightarrow> m)
            in store_manager (symbol_path h) (multi_add rt h (m, w))))"

definition hooker_recover :: "runtime \<Rightarrow> 'h hooker \<Rightarrow> 'h hooks \<Rightarrow> bool \<times> 'h hooks" where
  "hooker_recover rt h w =
     (case dict_get (managers w) (symbol_path h) of
        None \<Rightarrow> (True, w)
      | Some m \<Rightarrow>
          (case multi_recover rt h (m, w) of
             (ok, (m', w')) \<Rightarrow>
               if ok \<and> m_handlers m' = [] then (True, w'\<lparr>managers := dict_del (symbol_path h) (managers w')\<rparr>)
               else store_manager (symbol_path h) (ok, (m', w'))))"

definition hooker_register :: "'h hooker \<Rightarrow> 'h hooks \<Rightarrow> 'h hooks" where
  "hooker_register h w = w\<lparr>hook_registry := hook_registry w @ [h]\<rparr>"

end
