(* ===== verification/Prof_Watch.thy ===== *)
theory Prof_Watch
  imports Prof_Hooker
begin

text \<open>
  Which hooks are installed when: \<open>SymbolWatchFinder\<close> of \<^verbatim>\<open>ms_service_profiler/patcher/core/symbol_watcher.py\<close>,
  \<open>HookController\<close> of \<^verbatim>\<open>hook_controller.py\<close> and the configurations of \<^verbatim>\<open>config_loader.py\<close> it is given.

  \<open>modules\<close> is \<^verbatim>\<open>sys.modules\<close>: the classes of a module with the module each was defined in and the callables it has, each
  with the module it was defined in. A Python set is a list of its elements without duplicates; a loop over one follows the
  arbitrary order of \<open>iterate_set\<close> (\<open>Prof_Hooker\<close>). A flag \<open>False\<close> is a raised exception.
\<close>

section \<open>Configurations\<close>

record 'h pattern_entry =
  module_pattern :: string
  method_name :: string
  class_pattern :: string
  handler_func :: 'h
  handler_name :: string
  entry_min :: "string option"
  entry_max :: "string option"
  entry_filter :: "string option"
  entry_locals :: bool
  pattern_id :: string
  entry_around :: "'h option"

record 'h hook_config =
  concrete :: "(string, 'h hooker list) dict"
  patterns :: "'h pattern_entry list"

definition empty_config :: "'h hook_config" where
  "empty_config = \<lparr>concrete = [], patterns = []\<rparr>"

text \<open>\<open>_merge_config_impl\<close>\<close>

definition extend_symbol :: "string \<times> 'h hooker list \<Rightarrow> (string, 'h hooker list) dict \<Rightarrow> (string, 'h hooker list) dict" where
  "extend_symbol e d = dict_set (fst e) ((case dict_get d (fst e) of None \<Rightarrow> [] | Some hs \<Rightarrow> hs) @ snd e) d"

definition merge_config :: "'h hook_config option list \<Rightarrow> 'h hook_config" where
  "merge_config cs =
     \<lparr>concrete = fold extend_symbol (concat (map (\<lambda>c. case c of None \<Rightarrow> [] | Some c \<Rightarrow> concrete c) cs)) [],
      patterns = concat (map (\<lambda>c. case c of None \<Rightarrow> [] | Some c \<Rightarrow> patterns c) cs)\<rparr>"

definition config_has_handlers :: "'h hook_config option \<Rightarrow> bool" where
  "config_has_handlers c = (case c of None \<Rightarrow> False | Some c \<Rightarrow> concrete c \<noteq> [] \<or> patterns c \<noteq> [])"

section \<open>Patterns\<close>

definition rstrip :: "char \<Rightarrow> string \<Rightarrow> string" where
  "rstrip c s = rev (dropWhile (\<lambda>x. x = c) (rev s))"

definition module_prefix_from_pattern :: "string \<Rightarrow> string" where
  "module_prefix_from_pattern s = (let p = rstrip (CHR ''.'') (rstrip (CHR ''*'') s) in if p = [] then [] else p @ ''.'')"

definition pattern_matches_module :: "string \<Rightarrow> string \<Rightarrow> bool" where
  "pattern_matches_module pat name =
     (let p = module_prefix_from_pattern pat in p \<noteq> [] \<and> startswith name p \<and> length p < length name)"

record py_class =
  class_name :: string
  class_module :: string
  class_callables :: "(string, string) dict"

definition discover_classes :: "py_class list \<Rightarrow> string \<Rightarrow> string \<Rightarrow> string list" where
  "discover_classes cs meth name =
     map class_name (filter (\<lambda>c. class_module c = name \<and> dict_get (class_callables c) meth = Some name) cs)"

text \<open>\<^verbatim>\<open>symbol_path.split(':')[0]\<close>\<close>

definition module_of :: "string \<Rightarrow> string" where
  "module_of s = (case split1 (CHR '':'') s of None \<Rightarrow> s | Some (a, b) \<Rightarrow> a)"

section \<open>The state of the watcher\<close>

record 'h watcher =
  sym_profiling :: "(string, 'h hooker list) dict"
  sym_metrics :: "(string, 'h hooker list) dict"
  pat_profiling :: "'h pattern_entry list"
  pat_metrics :: "'h pattern_entry list"
  concrete_profiling :: "(string, (string \<times> 'h hooker) list) dict"
  concrete_metrics :: "(string, (string \<times> 'h hooker) list) dict"
  pattern_cache :: "(string, ('h pattern_entry \<times> bool) list) dict"
  config_loaded :: bool
  applied_symbols :: "string list"
  prepared_hookers :: "'h hooker list"
  applied_hookers :: "'h hooker list"
  symbol_to_hooker :: "(string, 'h hooker list) dict"
  auto_apply :: bool
  watch_hooks :: "'h hooks"

record 'h machine =
  rt :: runtime
  context_of :: "'h \<Rightarrow> 'h option"
  modules :: "(string, py_class list) dict"

definition new_watcher :: "'h hooks \<Rightarrow> 'h watcher" where
  "new_watcher w = \<lparr>sym_profiling = [], sym_metrics = [], pat_profiling = [], pat_metrics = [], concrete_profiling = [],
     concrete_metrics = [], pattern_cache = [], config_loaded = False, applied_symbols = [], prepared_hookers = [],
     applied_hookers = [], symbol_to_hooker = [], auto_apply = False, watch_hooks = w\<rparr>"

definition combined_symbol_paths :: "'h watcher \<Rightarrow> string list" where
  "combined_symbol_paths w =
     dict_keys (sym_profiling w) @ filter (\<lambda>s. \<not> dict_has s (sym_profiling w)) (dict_keys (sym_metrics w))"

definition listed :: "('k, 'b list) dict \<Rightarrow> 'k \<Rightarrow> 'b list" where
  "listed d k = (case dict_get d k of None \<Rightarrow> [] | Some xs \<Rightarrow> xs)"

definition handlers_for_symbol :: "'h watcher \<Rightarrow> string \<Rightarrow> 'h hooker list" where
  "handlers_for_symbol w s = listed (sym_profiling w) s @ listed (sym_metrics w) s"

definition add_symbol :: "string \<Rightarrow> string list \<Rightarrow> string list" where
  "add_symbol s xs = (if s \<in> set xs then xs else xs @ [s])"

definition discard :: "string \<Rightarrow> string list \<Rightarrow> string list" where
  "discard s xs = filter (\<lambda>x. x \<noteq> s) xs"

text \<open>The elements of a set in the order in which a loop meets them.\<close>

definition watch_iterate :: "'h machine \<Rightarrow> ('b \<Rightarrow> string list) \<Rightarrow> 'b list \<Rightarrow> 'h watcher \<Rightarrow> 'b list \<times> 'h watcher" where
  "watch_iterate M key xs w =
     (case iterate_set (rt M) key xs (watch_hooks w) of (ys, hk) \<Rightarrow> (ys, w\<lparr>watch_hooks := hk\<rparr>))"

section \<open>Preparing and applying\<close>

text \<open>\<^verbatim>\<open>handler.init()\<close> in a \<^verbatim>\<open>try\<close>: a hooker that raises is not recorded as applied.\<close>

definition apply_hooker :: "'h machine \<Rightarrow> 'h hooker \<Rightarrow> 'h watcher \<Rightarrow> 'h watcher" where
  "apply_hooker M h w =
     (case hooker_init (rt M) h (watch_hooks w) of
        (ok, hk) \<Rightarrow> if ok then w\<lparr>watch_hooks := hk, applied_hookers := insert_hooker h (applied_hookers w)\<rparr>
                     else w\<lparr>watch_hooks := hk\<rparr>)"

definition prepare_hooker :: "'h machine \<Rightarrow> 'h hooker \<Rightarrow> 'h watcher \<Rightarrow> 'h watcher" where
  "prepare_hooker M h w =
     (let w1 = w\<lparr>watch_hooks := hooker_register h (watch_hooks w), prepared_hookers := insert_hooker h (prepared_hookers w)\<rparr>
      in if auto_apply w1 then apply_hooker M h w1 else w1)"

text \<open>\<open>_prepare_handlers_for_module\<close>, one symbol.\<close>

definition prepare_symbol :: "'h machine \<Rightarrow> string \<Rightarrow> 'h watcher \<Rightarrow> 'h watcher" where
  "prepare_symbol M s w =
     (let hs = handlers_for_symbol w s; w1 = fold (prepare_hooker M) hs w
      in w1\<lparr>symbol_to_hooker := dict_set s hs (symbol_to_hooker w1), applied_symbols := add_symbol s (applied_symbols w1)\<rparr>)"

definition pattern_hooker :: "'h machine \<Rightarrow> string \<Rightarrow> string \<Rightarrow> 'h pattern_entry \<Rightarrow> 'h hooker" where
  "pattern_hooker M name cls e =
     new_config_hooker (context_of M) [(name, cls @ ''.'' @ method_name e)] [handler_func e] (handler_name e)
       (name @ '':'' @ cls @ '':'' @ method_name e) (entry_min e) (entry_max e) (entry_filter e) None (entry_locals e) (entry_around e)"

text \<open>\<open>_apply_one_pattern_hook\<close>\<close>

definition apply_pattern_hook :: "'h machine \<Rightarrow> string \<Rightarrow> 'h pattern_entry \<times> bool \<Rightarrow> string \<Rightarrow> 'h watcher \<Rightarrow> 'h watcher" where
  "apply_pattern_hook M name ep cls w =
     (case ep of (e, profiling) \<Rightarrow>
        let h = pattern_hooker M name cls e; s = symbol_path h
        in if dict_has s (symbol_to_hooker w) then w
           else (let w1 = w\<lparr>watch_hooks := hooker_register h (watch_hooks w), prepared_hookers := insert_hooker h (prepared_hookers w),
                       symbol_to_hooker := dict_set s [h] (symbol_to_hooker w), applied_symbols := add_symbol s (applied_symbols w)\<rparr>;
                     add = (\<lambda>d. dict_set (pattern_id e) (listed d (pattern_id e) @ [(s, h)]) d);
                     w2 = (if profiling then w1\<lparr>concrete_profiling := add (concrete_profiling w1)\<rparr>
                           else w1\<lparr>concrete_metrics := add (concrete_metrics w1)\<rparr>)
                 in if auto_apply w2 then apply_hooker M h w2 else w2))"

text \<open>\<open>_prepare_hooks_for_module\<close>: what the cache holds for the module is used once.\<close>

definition prepare_hooks_for_module :: "'h machine \<Rightarrow> string \<Rightarrow> 'h watcher \<Rightarrow> 'h watcher" where
  "prepare_hooks_for_module M name w =
     (case watch_iterate M (\<lambda>s. [s]) (combined_symbol_paths w) w of
        (paths, w0) \<Rightarrow>
          (let symbols = filter (\<lambda>s. module_of s = name \<and> handlers_for_symbol w s \<noteq> []) paths;
               entries = listed (pattern_cache w) name;
               w1 = w0\<lparr>pattern_cache := dict_del name (pattern_cache w)\<rparr>;
               w2 = (case dict_get (modules M) name of
                       None \<Rightarrow> w1
                     | Some cs \<Rightarrow>
                         fold (\<lambda>ep. fold (apply_pattern_hook M name ep) (discover_classes cs (method_name (fst ep)) name)) entries w1)
           in fold (prepare_symbol M) symbols w2))"

text \<open>\<open>_is_target_symbol\<close> fills the cache when it finds a match.\<close>

definition is_target_symbol :: "string \<Rightarrow> 'h watcher \<Rightarrow> bool \<times> 'h watcher" where
  "is_target_symbol name w =
     (if \<not> config_loaded w then (False, w)
      else (let exact = list_ex (\<lambda>s. module_of s = name \<or> startswith (module_of s) (name @ ''.'')) (combined_symbol_paths w);
                matching = filter (\<lambda>e. pattern_matches_module (module_pattern e) name) (pat_profiling w @ pat_metrics w)
            in if exact \<or> matching \<noteq> []
               then (True, w\<lparr>pattern_cache := dict_set name (map (\<lambda>e. (e, e \<in> set (pat_profiling w))) matching) (pattern_cache w)\<rparr>)
               else (False, w)))"

text \<open>
  A module that is imported: with the finder in \<^verbatim>\<open>sys.meta_path\<close> (\<open>find_spec\<close>) the module is tested first; with the
  \<open>SymbolWatcher\<close> of the metric package \<open>on_symbol_module_loaded\<close> is called for every module.
\<close>

definition import_event :: "'h machine \<Rightarrow> string \<Rightarrow> 'h watcher \<Rightarrow> 'h watcher" where
  "import_event M name w =
     (if metric_chain (rt M) then prepare_hooks_for_module M name w
      else case is_target_symbol name w of (target, w1) \<Rightarrow> if target then prepare_hooks_for_module M name w1 else w1)"

definition apply_prepared_hooks :: "'h machine \<Rightarrow> 'h watcher \<Rightarrow> 'h watcher" where
  "apply_prepared_hooks M w =
     (case watch_iterate M hooker_key (prepared_hookers w) (w\<lparr>auto_apply := True\<rparr>) of (hs, w1) \<Rightarrow> fold (apply_hooker M) hs w1)"

fun concrete_modules :: "'h machine \<Rightarrow> string list \<Rightarrow> string list \<Rightarrow> 'h watcher \<Rightarrow> string list \<times> 'h watcher" where
  "concrete_modules M [] seen w = (seen, w)"
| "concrete_modules M (s # ss) seen w =
     (if dict_has (module_of s) (modules M) \<and> module_of s \<notin> set seen
      then concrete_modules M ss (seen @ [module_of s]) (prepare_hooks_for_module M (module_of s) w)
      else concrete_modules M ss seen w)"

fun pattern_modules :: "'h machine \<Rightarrow> string list \<Rightarrow> string list \<Rightarrow> 'h watcher \<Rightarrow> 'h watcher" where
  "pattern_modules M [] seen w = w"
| "pattern_modules M (name # names) seen w =
     (if name = [] \<or> name \<in> set seen then pattern_modules M names seen w
      else case is_target_symbol name w of
             (target, w1) \<Rightarrow>
               if target then pattern_modules M names (seen @ [name]) (prepare_hooks_for_module M name w1)
               else pattern_modules M names seen w1)"

definition check_existing_modules :: "'h machine \<Rightarrow> 'h watcher \<Rightarrow> 'h watcher" where
  "check_existing_modules M w =
     (case watch_iterate M (\<lambda>s. [s]) (combined_symbol_paths w) w of
        (paths, w0) \<Rightarrow>
          (case concrete_modules M paths [] w0 of (seen, w1) \<Rightarrow> pattern_modules M (dict_keys (modules M)) seen w1))"


text \<open>
  Loading a configuration into the watcher (\<open>load_handlers\<close> of \<^verbatim>\<open>ms_service_profiler/patcher/core/symbol_watcher.py\<close>) and the
  controller that enables, updates and disables the hooks (\<^verbatim>\<open>hook_controller.py\<close>).
\<close>

section \<open>Removing what is no longer configured\<close>

definition all_hookers :: "(string, 'h hooker list) dict \<Rightarrow> 'h hooker list" where
  "all_hookers d = fold insert_hooker (concat (map snd d)) []"

definition configured_hookers :: "(string, 'h hooker list) dict \<Rightarrow> (string, 'h hooker list) dict \<Rightarrow> 'h hooker list" where
  "configured_hookers d e = fold insert_hooker (all_hookers d @ all_hookers e) []"

definition recover_if :: "'h machine \<Rightarrow> bool \<Rightarrow> 'h hooker \<Rightarrow> 'h watcher \<Rightarrow> bool \<times> 'h watcher" where
  "recover_if M enabled h w =
     (if enabled then (case hooker_recover (rt M) h (watch_hooks w) of (ok, hk) \<Rightarrow> (ok, w\<lparr>watch_hooks := hk\<rparr>)) else (True, w))"

fun remove_hookers :: "'h machine \<Rightarrow> bool \<Rightarrow> 'h hooker list \<Rightarrow> 'h watcher \<Rightarrow> bool \<times> 'h watcher" where
  "remove_hookers M enabled [] w = (True, w)"
| "remove_hookers M enabled (h # hs) w =
     (case recover_if M enabled h w of
        (ok, w1) \<Rightarrow>
          if \<not> ok then (False, w1)
          else remove_hookers M enabled hs
                 (w1\<lparr>prepared_hookers := remove_hooker h (prepared_hookers w1), applied_hookers := remove_hooker h (applied_hookers w1)\<rparr>))"

text \<open>Symbols that lose their last hooker disappear; the order of the removals does not matter, the hookers \<open>gone\<close> being distinct.\<close>

definition strip_symbols :: "'h hooker list \<Rightarrow> 'h watcher \<Rightarrow> 'h watcher" where
  "strip_symbols gone w =
     (let d = map (\<lambda>(s, hs). (s, fold remove_hooker gone hs)) (symbol_to_hooker w)
      in w\<lparr>symbol_to_hooker := filter (\<lambda>(s, hs). hs \<noteq> []) d,
           applied_symbols := filter (\<lambda>s. listed d s \<noteq> [] \<or> \<not> dict_has s d) (applied_symbols w)\<rparr>)"

definition strip_symbol :: "string \<Rightarrow> 'h hooker \<Rightarrow> 'h watcher \<Rightarrow> 'h watcher" where
  "strip_symbol s h w =
     (case dict_get (symbol_to_hooker w) s of
        None \<Rightarrow> w
      | Some hs \<Rightarrow>
          (if remove_hooker h hs = []
           then w\<lparr>symbol_to_hooker := dict_del s (symbol_to_hooker w), applied_symbols := discard s (applied_symbols w)\<rparr>
           else w\<lparr>symbol_to_hooker := dict_set s (remove_hooker h hs) (symbol_to_hooker w)\<rparr>))"

text \<open>\<open>_recover_and_remove_pattern_hookers\<close> for the hookers of one pattern and for all patterns that disappeared.\<close>

fun remove_pattern_hookers :: "'h machine \<Rightarrow> bool \<Rightarrow> (string \<times> 'h hooker) list \<Rightarrow> 'h watcher \<Rightarrow> bool \<times> 'h watcher" where
  "remove_pattern_hookers M enabled [] w = (True, w)"
| "remove_pattern_hookers M enabled ((s, h) # hs) w =
     (let w1 = w\<lparr>prepared_hookers := remove_hooker h (prepared_hookers w)\<rparr>
      in case (if has_hooker h (applied_hookers w1) then recover_if M enabled h w1 else (True, w1)) of
           (ok, w2) \<Rightarrow>
             if \<not> ok then (False, w2)
             else remove_pattern_hookers M enabled hs
                    (strip_symbol s h (w2\<lparr>applied_hookers := remove_hooker h (applied_hookers w2)\<rparr>)))"

fun remove_patterns :: "'h machine \<Rightarrow> bool \<Rightarrow> bool \<Rightarrow> string list \<Rightarrow> 'h watcher \<Rightarrow> bool \<times> 'h watcher" where
  "remove_patterns M enabled profiling [] w = (True, w)"
| "remove_patterns M enabled profiling (pid # pids) w =
     (case remove_pattern_hookers M enabled (listed (if profiling then concrete_profiling w else concrete_metrics w) pid) w of
        (ok, w1) \<Rightarrow>
          if \<not> ok then (False, w1)
          else remove_patterns M enabled profiling pids
                 (if profiling then w1\<lparr>concrete_profiling := dict_del pid (concrete_profiling w1)\<rparr>
                  else w1\<lparr>concrete_metrics := dict_del pid (concrete_metrics w1)\<rparr>))"

text \<open>A set difference, over which the loop above runs.\<close>

definition gone_patterns :: "(string, 'b) dict \<Rightarrow> 'h pattern_entry list \<Rightarrow> string list" where
  "gone_patterns d ps = filter (\<lambda>pid. pid \<notin> pattern_id ` set ps) (dict_keys d)"

definition remove_gone_patterns :: "'h machine \<Rightarrow> bool \<Rightarrow> bool \<Rightarrow> 'h pattern_entry list \<Rightarrow> 'h watcher \<Rightarrow> bool \<times> 'h watcher" where
  "remove_gone_patterns M enabled profiling ps w =
     (case watch_iterate M (\<lambda>pid. [pid]) (gone_patterns (if profiling then concrete_profiling w else concrete_metrics w) ps) w of
        (pids, w1) \<Rightarrow> remove_patterns M enabled profiling pids w1)"

definition remove_unconfigured ::
  "'h machine \<Rightarrow> bool \<Rightarrow> 'h hook_config \<Rightarrow> 'h hook_config \<Rightarrow> 'h watcher \<Rightarrow> bool \<times> 'h watcher" where
  "remove_unconfigured M enabled p m w =
     (let removed_symbols = filter (\<lambda>s. \<not> dict_has s (concrete p) \<and> \<not> dict_has s (concrete m)) (applied_symbols w);
          removed = filter (\<lambda>h. \<not> has_hooker h (configured_hookers (concrete p) (concrete m)))
                      (configured_hookers (sym_profiling w) (sym_metrics w));
          w1 = w\<lparr>applied_symbols := filter (\<lambda>s. s \<notin> set removed_symbols) (applied_symbols w)\<rparr>
      in if removed_symbols = [] \<and> removed = [] then (True, w1)
         else case watch_iterate M hooker_key removed w1 of
                (gone, w1') \<Rightarrow>
                  (case remove_hookers M enabled gone w1' of
                     (ok, w2) \<Rightarrow>
                       if \<not> ok then (False, w2)
                       else (let w3 = (if removed = [] then w2 else strip_symbols gone w2)
                             in case remove_gone_patterns M enabled True (patterns p) w3 of
                                  (ok, w4) \<Rightarrow> if \<not> ok then (False, w4) else remove_gone_patterns M enabled False (patterns m) w4)))"

text \<open>\<open>load_handlers\<close>; an absent configuration is an empty one.\<close>

definition config_or_empty :: "'h hook_config option \<Rightarrow> 'h hook_config" where
  "config_or_empty c = (case c of None \<Rightarrow> empty_config | Some c \<Rightarrow> c)"

definition load_handlers ::
  "'h machine \<Rightarrow> 'h hook_config option \<Rightarrow> 'h hook_config option \<Rightarrow> bool \<Rightarrow> 'h watcher \<Rightarrow> bool \<times> 'h watcher" where
  "load_handlers M po mo enabled w =
     (let p = config_or_empty po; m = config_or_empty mo
      in case (if config_loaded w then remove_unconfigured M enabled p m w else (True, w)) of
           (ok, w1) \<Rightarrow>
             if \<not> ok then (False, w1)
             else (True, w1\<lparr>sym_profiling := concrete p, sym_metrics := concrete m, pat_profiling := patterns p, pat_metrics := patterns m,
                            pattern_cache := [], config_loaded := True\<rparr>))"

section \<open>The controller\<close>

record 'h controller =
  ctl_watcher :: "'h watcher"
  ctl_enabled :: bool

definition current_profiling :: "'h watcher \<Rightarrow> 'h hook_config" where
  "current_profiling w = \<lparr>concrete = sym_profiling w, patterns = pat_profiling w\<rparr>"

definition current_metrics :: "'h watcher \<Rightarrow> 'h hook_config" where
  "current_metrics w = \<lparr>concrete = sym_metrics w, patterns = pat_metrics w\<rparr>"

text \<open>Loading, preparing for the modules that are there, applying. The number is what is logged and returned.\<close>

definition install_config ::
  "'h machine \<Rightarrow> 'h hook_config option \<Rightarrow> 'h hook_config option \<Rightarrow> 'h controller \<Rightarrow> nat \<times> 'h controller" where
  "install_config M p m c =
     (case load_handlers M p m (ctl_enabled c) (ctl_watcher c) of
        (False, w) \<Rightarrow> (0, c\<lparr>ctl_watcher := w\<rparr>)
      | (True, w) \<Rightarrow>
          (let w1 = apply_prepared_hooks M (check_existing_modules M w)
           in (length (applied_hookers w1), c\<lparr>ctl_watcher := w1, ctl_enabled := True\<rparr>)))"

text \<open>\<open>enable\<close>; \<open>apply_prepared_hooks\<close> has already turned on \<open>auto_apply\<close>.\<close>

definition enable :: "'h machine \<Rightarrow> 'h hook_config option \<Rightarrow> 'h hook_config option \<Rightarrow> 'h controller \<Rightarrow> nat \<times> 'h controller" where
  "enable M p m c =
     (let m' = (if m = None \<and> ctl_enabled c then Some (current_metrics (ctl_watcher c)) else m)
      in if \<not> config_has_handlers p \<and> \<not> config_has_handlers m' then (0, c) else install_config M p m' c)"

definition update_metrics_handlers :: "'h machine \<Rightarrow> 'h hook_config option \<Rightarrow> 'h controller \<Rightarrow> nat \<times> 'h controller" where
  "update_metrics_handlers M m c =
     (if ctl_enabled c
      then install_config M (Some (current_profiling (ctl_watcher c))) (Some (config_or_empty m)) c
      else install_config M (Some empty_config) m c)"

text \<open>
  \<open>disable\<close>: the helper objects are read from the attribute \<^verbatim>\<open>hooks\<close> of a hooker, with an empty default. A \<open>ConfigHooker\<close> has
  no such attribute; they are in the manager of its symbol.
\<close>

definition hooks_attribute :: "'h hooker \<Rightarrow> 'h hook_ref list" where
  "hooks_attribute h = []"

fun recover_helpers :: "'h machine \<Rightarrow> 'h hook_ref list \<Rightarrow> 'h hooks \<Rightarrow> bool \<times> 'h hooks" where
  "recover_helpers M [] w = (True, w)"
| "recover_helpers M (r # rs) w = (case recover_ref (rt M) r w of None \<Rightarrow> (False, w) | Some w' \<Rightarrow> recover_helpers M rs w')"

fun disable_loop :: "'h machine \<Rightarrow> 'h hooker list \<Rightarrow> nat \<Rightarrow> 'h hooks \<Rightarrow> nat \<times> 'h hooks" where
  "disable_loop M [] n w = (n, w)"
| "disable_loop M (h # hs) n w =
     (case recover_helpers M (hooks_attribute h) w of (ok, w') \<Rightarrow> disable_loop M hs (if ok then n + 1 else n) w')"

definition disable :: "'h machine \<Rightarrow> 'h controller \<Rightarrow> nat \<times> 'h controller" where
  "disable M c =
     (if \<not> ctl_enabled c then (0, c)
      else (let w = (ctl_watcher c)\<lparr>auto_apply := False\<rparr>
            in case disable_loop M (applied_hookers w) 0 (watch_hooks w) of
                 (n, hk) \<Rightarrow> (n, c\<lparr>ctl_watcher := w\<lparr>watch_hooks := hk\<rparr>, ctl_enabled := False\<rparr>)))"

text \<open>The callbacks of \<open>get_callbacks\<close>: what \<^verbatim>\<open>get_handlers()\<close> returned, \<open>None\<close> if it raised.\<close>

definition on_start :: "'h machine \<Rightarrow> ('h hook_config option \<times> 'h hook_config option) option \<Rightarrow> 'h controller \<Rightarrow> 'h controller" where
  "on_start M r c = (case r of None \<Rightarrow> c | Some (p, m) \<Rightarrow> snd (enable M p m c))"

definition on_stop :: "'h machine \<Rightarrow> 'h controller \<Rightarrow> 'h controller" where
  "on_stop M c = snd (disable M c)"

end
