(* ===== verification/Prof_Hooker_Props.thy ===== *)
theory Prof_Hooker_Props
  imports Prof_Hooker "HOL-Library.Multiset"
begin

text \<open>
  The hooks that are installed are those of the handlers: a specification of \<open>Prof_Hooker\<close> that keeps only the handlers of every
  symbol, and the invariant under which adding and removing a handler implements it. Hooks are nodes of hook chains here.
\<close>

section \<open>One chain\<close>

definition node_hooks :: "'h hook_chain \<Rightarrow> nat \<Rightarrow> 'h node_hook" where
  "node_hooks c i = hook_func (nodes c i)"

definition linked :: "'h hook_chain \<Rightarrow> bool" where
  "linked c \<longleftrightarrow> (\<exists>xs. chain_list c xs)"

lemma set_node_view [simp]:
  "members (set_node i f c) = members c" "next_node_id (set_node i f c) = next_node_id c"
  "nodes (set_node i f c) j = (if j = i then f (nodes c i) else nodes c j)"
  by (simp_all add: set_node_def)

lemma remove_view:
  "members (snd (remove_chain_node i c)) = members c - {i}"
  "node_hooks (snd (remove_chain_node i c)) = node_hooks c"
  "next_node_id (snd (remove_chain_node i c)) = next_node_id c"
  by (auto simp: remove_chain_node_def node_hooks_def fun_eq_iff Let_def split: option.splits)

lemma remove_linked: "linked c \<Longrightarrow> linked (snd (remove_chain_node i c))"
  unfolding linked_def by (metis remove_absent remove_present(2) snd_conv)

lemma add_view:
  assumes "linked c"
  shows "\<exists>c'. add_chain_node True True False c = (Some (next_node_id c), c') \<and> linked c' \<and>
     members c' = insert (next_node_id c) (members c) \<and> next_node_id c' = Suc (next_node_id c) \<and>
     (\<forall>j. j \<noteq> next_node_id c \<longrightarrow> node_hooks c' j = node_hooks c j)"
proof -
  obtain xs where xs: "chain_list c xs" using assms by (auto simp: linked_def)
  let ?r = "add_chain_node True True False c"
  have "linked (snd ?r)" unfolding linked_def using add_node_represents[OF xs] by blast
  then show ?thesis
    by (intro exI[of _ "snd ?r"])
      (auto simp: add_chain_node_def link_node_def replace_chain_def node_hooks_def Let_def split: option.splits prod.splits)
qed

lemma set_hook_view:
  "members (set_hook_func i h c) = members c" "next_node_id (set_hook_func i h c) = next_node_id c"
  "node_hooks (set_hook_func i h c) j = (if j = i then HookFn h else node_hooks c j)" "linked (set_hook_func i h c) = linked c"
  by (simp_all add: set_hook_func_def node_hooks_def linked_def chain_list_set_hook[unfolded set_hook_func_def])

section \<open>The runtime\<close>

definition chains_work :: "runtime \<Rightarrow> bool" where
  "chains_work rt \<longleftrightarrow> metric_chain rt \<and> (\<forall>p. chain_built rt p \<and> chain_replaces rt p)"

lemma chains_workD: "chains_work rt \<Longrightarrow> metric_chain rt" "chains_work rt \<Longrightarrow> chain_built rt p" "chains_work rt \<Longrightarrow> chain_replaces rt p"
  unfolding chains_work_def by blast+

definition all_linked :: "'h hooks \<Rightarrow> bool" where
  "all_linked w \<longleftrightarrow> (\<forall>q. linked (chain_at w q))"

definition node_at :: "'h hooks \<Rightarrow> point \<Rightarrow> nat \<Rightarrow> bool" where
  "node_at w q i \<longleftrightarrow> i \<in> members (chain_at w q)"

lemma all_linkedD: "all_linked w \<Longrightarrow> linked (chain_at w q)"
  unfolding all_linked_def by blast

lemma all_linked_upd: "all_linked w \<Longrightarrow> linked c \<Longrightarrow> all_linked (w\<lparr>chain_at := (chain_at w)(p := c)\<rparr>)"
  by (simp add: all_linked_def del: split_paired_All)

fun is_node :: "'h hook_ref \<Rightarrow> bool" where
  "is_node (NodeRef q i) = True"
| "is_node (SlotRef q f) = False"

lemma recover_refs_view:
  assumes "list_all is_node rs" "all_linked w"
  shows "all_linked (recover_refs rt rs w) \<and> managers (recover_refs rt rs w) = managers w \<and>
    (\<forall>q i. node_at (recover_refs rt rs w) q i \<longleftrightarrow> node_at w q i \<and> NodeRef q i \<notin> set rs) \<and>
    (\<forall>q. node_hooks (chain_at (recover_refs rt rs w) q) = node_hooks (chain_at w q) \<and>
         next_node_id (chain_at (recover_refs rt rs w) q) = next_node_id (chain_at w q))"
  using assms
proof (induction rs arbitrary: w)
  case Nil
  then show ?case by simp
next
  case (Cons r rs)
  then obtain p j where r: "r = NodeRef p j" by (cases r) auto
  let ?w = "w\<lparr>chain_at := (chain_at w)(p := snd (remove_chain_node j (chain_at w p)))\<rparr>"
  have "all_linked ?w" using Cons.prems(2) by (intro all_linked_upd remove_linked all_linkedD)
  note ih = Cons.IH[of ?w, OF _ this]
  show ?case using ih Cons.prems(1) by (auto simp: r recover_ref_def node_at_def remove_view)
qed

text \<open>The nodes \<open>N\<close> were added with the hook \<open>f\<close>, nothing else changed.\<close>

definition hooked :: "'h wrapped \<Rightarrow> (point \<times> nat) set \<Rightarrow> 'h hooks \<Rightarrow> 'h hooks \<Rightarrow> bool" where
  "hooked f N w w' \<longleftrightarrow> all_linked w' \<and> managers w' = managers w \<and>
     (\<forall>q i. (q, i) \<in> N \<longrightarrow> node_hooks (chain_at w' q) i = HookFn f \<and> next_node_id (chain_at w q) \<le> i \<and> i < next_node_id (chain_at w' q)) \<and>
     (\<forall>q i. node_at w' q i \<longleftrightarrow> node_at w q i \<or> (q, i) \<in> N) \<and>
     (\<forall>q. next_node_id (chain_at w q) \<le> next_node_id (chain_at w' q)) \<and>
     (\<forall>q i. i < next_node_id (chain_at w q) \<longrightarrow> node_hooks (chain_at w' q) i = node_hooks (chain_at w q) i)"

lemma hookedD:
  assumes "hooked f N w w'"
  shows "all_linked w'" "managers w' = managers w"
    "(q, i) \<in> N \<Longrightarrow> node_hooks (chain_at w' q) i = HookFn f"
    "(q, i) \<in> N \<Longrightarrow> next_node_id (chain_at w q) \<le> i" "(q, i) \<in> N \<Longrightarrow> i < next_node_id (chain_at w' q)"
    "node_at w' q i \<longleftrightarrow> node_at w q i \<or> (q, i) \<in> N" "next_node_id (chain_at w q) \<le> next_node_id (chain_at w' q)"
    "i < next_node_id (chain_at w q) \<Longrightarrow> node_hooks (chain_at w' q) i = node_hooks (chain_at w q) i"
  using assms unfolding hooked_def by blast+

lemma hooked_refl: "all_linked w \<Longrightarrow> hooked f {} w w"
  by (simp add: hooked_def)

lemma hooked_trans:
  assumes a: "hooked f N w w1" and b: "hooked f N' w1 w2"
  shows "hooked f (N \<union> N') w w2"
  unfolding hooked_def
proof (intro conjI allI impI)
  fix q i
  show "next_node_id (chain_at w q) \<le> next_node_id (chain_at w2 q)"
    using hookedD(7)[OF a, of q] hookedD(7)[OF b, of q] by simp
  show "node_at w2 q i \<longleftrightarrow> node_at w q i \<or> (q, i) \<in> N \<union> N'"
    using hookedD(6)[OF a, of q i] hookedD(6)[OF b, of q i] by blast
next
  fix q i
  assume "i < next_node_id (chain_at w q)"
  then show "node_hooks (chain_at w2 q) i = node_hooks (chain_at w q) i"
    using hookedD(8)[OF a, of i q] hookedD(8)[OF b, of i q] hookedD(7)[OF a, of q] by simp
next
  fix q i
  assume "(q, i) \<in> N \<union> N'"
  then show "node_hooks (chain_at w2 q) i = HookFn f"
    using hookedD(3,5)[OF a, of q i] hookedD(3)[OF b, of q i] hookedD(8)[OF b, of i q] by auto
next
  fix q i
  assume "(q, i) \<in> N \<union> N'"
  then show "next_node_id (chain_at w q) \<le> i"
    using hookedD(4)[OF a, of q i] hookedD(4)[OF b, of q i] hookedD(7)[OF a, of q] by auto
next
  fix q i
  assume "(q, i) \<in> N \<union> N'"
  then show "i < next_node_id (chain_at w2 q)"
    using hookedD(5)[OF a, of q i] hookedD(5)[OF b, of q i] hookedD(7)[OF b, of q] by auto
qed (simp_all add: hookedD(1)[OF b] hookedD(2)[OF a] hookedD(2)[OF b])

lemma install_point_view:
  assumes "chains_work rt" "all_linked w"
  shows "\<exists>i w'. install_point rt p (m, w) = (True, (m\<lparr>m_hooks := m_hooks m @ [NodeRef p i]\<rparr>, w')) \<and> hooked (wrapped_of m) {(p, i)} w w'"
proof -
  from add_view[OF all_linkedD[OF assms(2), of p]] obtain c' where
    c': "add_chain_node True True False (chain_at w p) = (Some (next_node_id (chain_at w p)), c')"
    "linked c'" "members c' = insert (next_node_id (chain_at w p)) (members (chain_at w p))"
    "next_node_id c' = Suc (next_node_id (chain_at w p))" "\<forall>j. j \<noteq> next_node_id (chain_at w p) \<longrightarrow> node_hooks c' j = node_hooks (chain_at w p) j"
    by blast
  let ?i = "next_node_id (chain_at w p)"
  let ?w = "w\<lparr>chain_at := (chain_at w)(p := set_hook_func ?i (wrapped_of m) c')\<rparr>"
  have "install_point rt p (m, w) = (True, (m\<lparr>m_hooks := m_hooks m @ [NodeRef p ?i]\<rparr>, ?w))"
    using c'(1) by (simp add: install_point_def chains_workD[OF assms(1)])
  moreover have "hooked (wrapped_of m) {(p, ?i)} w ?w"
    using c' assms(2) all_linked_upd[OF assms(2), of "set_hook_func ?i (wrapped_of m) c'" p]
    by (auto simp: hooked_def node_at_def set_hook_view)
  ultimately show ?thesis by blast
qed

lemma wrapped_hooks [simp]: "wrapped_of (m\<lparr>m_hooks := hs\<rparr>) = wrapped_of m"
  by (simp add: wrapped_of_def)

text \<open>Hooking the points: one new node for each point that is found.\<close>

lemma do_hook_view:
  assumes "chains_work rt" "all_linked w"
  shows "\<exists>ks w'. do_hook rt ps (m, w) = (True, (m\<lparr>m_hooks := m_hooks m @ map2 NodeRef (filter (import_object rt) ps) ks\<rparr>, w')) \<and>
    length ks = length (filter (import_object rt) ps) \<and> hooked (wrapped_of m) (set (zip (filter (import_object rt) ps) ks)) w w'"
  using assms(2)
proof (induction ps arbitrary: m w)
  case Nil
  then show ?case using hooked_refl[OF Nil] by simp
next
  case (Cons p ps)
  show ?case
  proof (cases "import_object rt p")
    case False
    then show ?thesis using Cons by simp
  next
    case True
    from install_point_view[OF assms(1) Cons.prems, of p m] obtain i w1 where
      p: "install_point rt p (m, w) = (True, (m\<lparr>m_hooks := m_hooks m @ [NodeRef p i]\<rparr>, w1))" "hooked (wrapped_of m) {(p, i)} w w1" by blast
    let ?m = "m\<lparr>m_hooks := m_hooks m @ [NodeRef p i]\<rparr>" and ?fs = "filter (import_object rt) ps"
    from Cons.IH[OF hookedD(1)[OF p(2)], of ?m] obtain ks w' where
      ih: "do_hook rt ps (?m, w1) = (True, (?m\<lparr>m_hooks := m_hooks ?m @ map2 NodeRef ?fs ks\<rparr>, w'))" "length ks = length ?fs"
      "hooked (wrapped_of m) (set (zip ?fs ks)) w1 w'" by auto
    show ?thesis using True p(1) ih(1,2) hooked_trans[OF p(2) ih(3)]
      by (intro exI[of _ "i # ks"] exI[of _ w']) simp
  qed
qed


section \<open>The managers and their nodes\<close>

fun live_ref :: "'h hooks \<Rightarrow> 'h hook_ref \<Rightarrow> bool" where
  "live_ref w (NodeRef q i) = node_at w q i"
| "live_ref w (SlotRef q f) = False"

definition points_of :: "runtime \<Rightarrow> 'h multi \<Rightarrow> point list" where
  "points_of rt m = filter (import_object rt) (m_points m)"

text \<open>A manager has one live node at each of its points, with the hook that its handlers call for.\<close>

definition manager_ok :: "runtime \<Rightarrow> 'h hooks \<Rightarrow> string \<Rightarrow> 'h multi \<Rightarrow> bool" where
  "manager_ok rt w s m \<longleftrightarrow>
     list_all is_node (m_hooks m) \<and> m_handlers m \<noteq> [] \<and> distinct (map hooker_key (m_handlers m)) \<and>
     (\<forall>h \<in> set (m_handlers m). symbol_path h = s) \<and>
     m_wrap m = build_wrap_hook_func (m_handlers m) \<and>
     (\<exists>ks. length ks = length (points_of rt m) \<and> filter (live_ref w) (m_hooks m) = map2 NodeRef (points_of rt m) ks) \<and>
     (\<forall>q i. NodeRef q i \<in> set (m_hooks m) \<and> node_at w q i \<longrightarrow> node_hooks (chain_at w q) i = HookFn (wrapped_of m)) \<and>
     (\<forall>q i. NodeRef q i \<in> set (m_hooks m) \<longrightarrow> i < next_node_id (chain_at w q))"

definition owner :: "'h hooks \<Rightarrow> point \<Rightarrow> nat \<Rightarrow> string \<Rightarrow> bool" where
  "owner w q i s \<longleftrightarrow> (\<exists>m. dict_get (managers w) s = Some m \<and> NodeRef q i \<in> set (m_hooks m))"

definition hooks_ok :: "runtime \<Rightarrow> 'h hooks \<Rightarrow> bool" where
  "hooks_ok rt w \<longleftrightarrow> dict_ok (managers w) \<and> all_linked w \<and>
     (\<forall>s m. dict_get (managers w) s = Some m \<longrightarrow> manager_ok rt w s m) \<and>
     (\<forall>q i s s'. owner w q i s \<and> owner w q i s' \<longrightarrow> s = s') \<and> (\<forall>q i. node_at w q i \<longrightarrow> (\<exists>s. owner w q i s))"

lemma hooks_okD:
  assumes "hooks_ok rt w"
  shows "dict_ok (managers w)" "all_linked w" "dict_get (managers w) s = Some m \<Longrightarrow> manager_ok rt w s m"
    "owner w q i s \<Longrightarrow> owner w q i s' \<Longrightarrow> s = s'" "node_at w q i \<Longrightarrow> \<exists>s. owner w q i s"
  using assms unfolding hooks_ok_def by blast+

lemma manager_okD:
  assumes "manager_ok rt w s m"
  shows "list_all is_node (m_hooks m)" "m_handlers m \<noteq> []" "h \<in> set (m_handlers m) \<Longrightarrow> symbol_path h = s"
    "m_wrap m = build_wrap_hook_func (m_handlers m)"
    "\<exists>ks. length ks = length (points_of rt m) \<and> filter (live_ref w) (m_hooks m) = map2 NodeRef (points_of rt m) ks"
    "NodeRef q i \<in> set (m_hooks m) \<Longrightarrow> node_at w q i \<Longrightarrow> node_hooks (chain_at w q) i = HookFn (wrapped_of m)"
    "NodeRef q i \<in> set (m_hooks m) \<Longrightarrow> i < next_node_id (chain_at w q)" "distinct (map hooker_key (m_handlers m))"
  using assms unfolding manager_ok_def by blast+

text \<open>A manager is not concerned by changes of nodes that are not its own.\<close>

lemma manager_ok_frame:
  assumes ok: "manager_ok rt w s m"
    and live: "\<And>q i. NodeRef q i \<in> set (m_hooks m) \<Longrightarrow> node_at w' q i = node_at w q i"
    and hook: "\<And>q i. NodeRef q i \<in> set (m_hooks m) \<Longrightarrow> node_hooks (chain_at w' q) i = node_hooks (chain_at w q) i"
    and id: "\<And>q. next_node_id (chain_at w q) \<le> next_node_id (chain_at w' q)"
  shows "manager_ok rt w' s m"
proof -
  have "live_ref w' r = live_ref w r" if r: "r \<in> set (m_hooks m)" for r
    using live r by (cases r) auto
  then have "filter (live_ref w') (m_hooks m) = filter (live_ref w) (m_hooks m)" by (rule filter_cong[OF refl])
  moreover have "i < next_node_id (chain_at w' q)" if "NodeRef q i \<in> set (m_hooks m)" for q i
    using manager_okD(7)[OF ok that] id[of q] by simp
  ultimately show ?thesis using ok live hook unfolding manager_ok_def by auto
qed

text \<open>Removing all nodes of a manager.\<close>

lemma recovered_view:
  assumes ok: "hooks_ok rt w" and m: "list_all is_node (m_hooks m)"
  defines "w1 \<equiv> recover_refs rt (m_hooks m) w"
  shows "all_linked w1" "managers w1 = managers w" "node_at w1 q i \<longleftrightarrow> node_at w q i \<and> NodeRef q i \<notin> set (m_hooks m)"
    "node_hooks (chain_at w1 q) = node_hooks (chain_at w q)" "next_node_id (chain_at w1 q) = next_node_id (chain_at w q)"
  using recover_refs_view[OF m hooks_okD(2)[OF ok], of rt] unfolding w1_def by blast+

text \<open>The order in which a set is iterated over changes nothing but the count of iterations.\<close>

lemma iterate_view:
  assumes "iterate_set rt key xs w = (ys, w')"
  shows "mset ys = mset xs" "w' = w\<lparr>set_draws := set_draws w'\<rparr>"
  using assms by (cases w; auto simp: iterate_set_def split: if_splits)+

lemma drawn_view:
  fixes d :: nat
  assumes ok: "hooks_ok rt w" and m: "list_all is_node (m_hooks m)"
  defines "w1 \<equiv> (recover_refs rt (m_hooks m) w)\<lparr>set_draws := d\<rparr>"
  shows "all_linked w1" "managers w1 = managers w" "node_at w1 q i \<longleftrightarrow> node_at w q i \<and> NodeRef q i \<notin> set (m_hooks m)"
    "node_hooks (chain_at w1 q) = node_hooks (chain_at w q)" "next_node_id (chain_at w1 q) = next_node_id (chain_at w q)"
  using recovered_view[OF ok m] unfolding w1_def by (simp_all add: all_linked_def node_at_def)

text \<open>The manager of \<open>s\<close>: the one that is stored, or a new one.\<close>

definition manager_for :: "'h hooks \<Rightarrow> string \<Rightarrow> 'h multi \<Rightarrow> bool" where
  "manager_for w s m \<longleftrightarrow> dict_get (managers w) s = Some m \<or> dict_get (managers w) s = None \<and> m_hooks m = []"

lemma manager_for_refs:
  assumes "hooks_ok rt w" "manager_for w s m"
  shows "list_all is_node (m_hooks m)" "NodeRef q i \<in> set (m_hooks m) \<Longrightarrow> owner w q i s"
    "NodeRef q i \<in> set (m_hooks m) \<Longrightarrow> i < next_node_id (chain_at w q)" "owner w q i s \<Longrightarrow> NodeRef q i \<in> set (m_hooks m)"
proof -
  consider (stored) "dict_get (managers w) s = Some m" | (fresh) "dict_get (managers w) s = None" "m_hooks m = []"
    using assms(2) by (auto simp: manager_for_def)
  note cases = this
  show "list_all is_node (m_hooks m)" "NodeRef q i \<in> set (m_hooks m) \<Longrightarrow> owner w q i s"
    "NodeRef q i \<in> set (m_hooks m) \<Longrightarrow> i < next_node_id (chain_at w q)" "owner w q i s \<Longrightarrow> NodeRef q i \<in> set (m_hooks m)"
    by (cases rule: cases; use manager_okD(1,7)[OF hooks_okD(3)[OF assms(1)], of s m] in \<open>simp add: owner_def\<close>)+
qed

lemma hooks_ok_uninstall:
  assumes ok: "hooks_ok rt w" and m: "dict_get (managers w) s = Some m"
  shows "hooks_ok rt ((recover_refs rt (m_hooks m) w)\<lparr>managers := dict_del s (managers w)\<rparr>)" (is "hooks_ok rt ?w")
proof -
  have mf: "manager_for w s m" using m by (simp add: manager_for_def)
  note v = recovered_view[OF ok manager_for_refs(1)[OF ok mf]]
  have own: "owner ?w q i t \<longleftrightarrow> owner w q i t \<and> t \<noteq> s" for q i t by (auto simp: owner_def)
  have at: "node_at ?w q i \<longleftrightarrow> node_at w q i \<and> NodeRef q i \<notin> set (m_hooks m)" for q i
    using v(3)[of q i] by (simp add: node_at_def)
  show ?thesis
    unfolding hooks_ok_def
  proof (intro conjI allI impI)
    show "dict_ok (managers ?w)" using hooks_okD(1)[OF ok] by simp
    show "all_linked ?w" using v(1) by (simp add: all_linked_def)
  next
    fix t k
    assume "dict_get (managers ?w) t = Some k"
    then have k: "dict_get (managers w) t = Some k" "t \<noteq> s" by (auto split: if_splits)
    have "NodeRef q i \<notin> set (m_hooks m)" if "NodeRef q i \<in> set (m_hooks k)" for q i
      using hooks_okD(4)[OF ok, of q i t s] manager_for_refs(2)[OF ok mf, of q i] k that by (auto simp: owner_def)
    then show "manager_ok rt ?w t k"
      by (intro manager_ok_frame[OF hooks_okD(3)[OF ok k(1)]]) (auto simp: at v(4,5))
  next
    fix q i t t'
    assume "owner ?w q i t \<and> owner ?w q i t'"
    then show "t = t'" using hooks_okD(4)[OF ok] own by blast
  next
    fix q i
    assume "node_at ?w q i"
    then show "\<exists>t. owner ?w q i t" using at own hooks_okD(5)[OF ok] manager_for_refs(4)[OF ok mf] by metis
  qed
qed


lemma set_handlers_sel [simp]:
  "m_handlers (set_handlers hs m) = hs" "m_points (set_handlers hs m) = m_points m" "m_hooks (set_handlers hs m) = m_hooks m"
  "m_wrap (set_handlers hs m) = build_wrap_hook_func hs"
  by (simp_all add: set_handlers_def)

text \<open>The nodes of the manager after it was hooked again: the new ones are the live ones.\<close>

lemma installed_manager_ok:
  assumes m: "list_all is_node (m_hooks m)" "\<And>q i. NodeRef q i \<in> set (m_hooks m) \<Longrightarrow> \<not> node_at w1 q i \<and> i < next_node_id (chain_at w1 q)"
    and hs: "hs \<noteq> []" "\<forall>h \<in> set hs. symbol_path h = s" "distinct (map hooker_key hs)"
    and ks: "length ks = length (points_of rt m)" and N: "hooked (wrapped_of (set_handlers hs m)) (set (zip (points_of rt m) ks)) w1 w2"
  shows "manager_ok rt w2 s ((set_handlers hs m)\<lparr>m_hooks := m_hooks m @ map2 NodeRef (points_of rt m) ks\<rparr>)" (is "manager_ok rt w2 s ?m")
proof -
  have new: "NodeRef q i \<in> set (map2 NodeRef (points_of rt m) ks) \<longleftrightarrow> (q, i) \<in> set (zip (points_of rt m) ks)" for q i by auto
  have old: "\<not> node_at w2 q i" if "NodeRef q i \<in> set (m_hooks m)" for q i
    using m(2)[OF that] hookedD(4)[OF N, of q i] hookedD(6)[OF N, of q i] by auto
  have dead: "filter (live_ref w2) (m_hooks m) = []"
    using m(1) old by (auto simp: filter_empty_conv list_all_iff elim!: is_node.elims(2) live_ref.elims(2))
  have live: "filter (live_ref w2) (map2 NodeRef (points_of rt m) ks) = map2 NodeRef (points_of rt m) ks"
    using hookedD(6)[OF N] by (auto simp: filter_id_conv)
  have pts: "points_of rt ?m = points_of rt m" by (simp add: points_of_def)
  show ?thesis
    unfolding manager_ok_def pts
  proof (intro conjI allI impI)
    show "list_all is_node (m_hooks ?m)" using m(1) by (auto simp: list_all_iff set_zip)
    show "\<exists>js. length js = length (points_of rt m) \<and> filter (live_ref w2) (m_hooks ?m) = map2 NodeRef (points_of rt m) js"
      using ks dead live by auto
  next
    fix q i
    assume "NodeRef q i \<in> set (m_hooks ?m) \<and> node_at w2 q i"
    then have "(q, i) \<in> set (zip (points_of rt m) ks)" using old[of q i] new[of q i] by auto
    then show "node_hooks (chain_at w2 q) i = HookFn (wrapped_of ?m)" using hookedD(3)[OF N] by simp
  next
    fix q i
    assume "NodeRef q i \<in> set (m_hooks ?m)"
    then consider "NodeRef q i \<in> set (m_hooks m)" | "(q, i) \<in> set (zip (points_of rt m) ks)" using new[of q i] by auto
    then show "i < next_node_id (chain_at w2 q)"
      by cases (use m(2)[of q i] hookedD(5)[OF N, of q i] hookedD(7)[OF N, of q] in auto)
  qed (use hs in simp_all)
qed

lemma hooks_ok_install:
  assumes ok: "hooks_ok rt w" and rt: "chains_work rt" and mf: "manager_for w s m"
    and hs: "hs \<noteq> []" "\<forall>h \<in> set hs. symbol_path h = s" "distinct (map hooker_key hs)"
  shows "\<exists>m2 w2. do_hook rt (m_points m) (set_handlers hs m, (recover_refs rt (m_hooks m) w)\<lparr>set_draws := d\<rparr>) = (True, (m2, w2)) \<and>
    m_handlers m2 = hs \<and> m_points m2 = m_points m \<and> managers w2 = managers w \<and> hooks_ok rt (w2\<lparr>managers := dict_set s m2 (managers w)\<rparr>)"
proof -
  let ?w1 = "(recover_refs rt (m_hooks m) w)\<lparr>set_draws := d\<rparr>"
  note v = drawn_view[OF ok manager_for_refs(1)[OF ok mf], where d = d]
  from do_hook_view[OF rt v(1), of "m_points m" "set_handlers hs m"] obtain ks w2 where
    run: "do_hook rt (m_points m) (set_handlers hs m, ?w1) =
      (True, ((set_handlers hs m)\<lparr>m_hooks := m_hooks m @ map2 NodeRef (points_of rt m) ks\<rparr>, w2))"
    and ks: "length ks = length (points_of rt m)" and N: "hooked (wrapped_of (set_handlers hs m)) (set (zip (points_of rt m) ks)) ?w1 w2"
    by (auto simp: points_of_def)
  let ?m2 = "(set_handlers hs m)\<lparr>m_hooks := m_hooks m @ map2 NodeRef (points_of rt m) ks\<rparr>"
  let ?w = "w2\<lparr>managers := dict_set s ?m2 (managers w)\<rparr>"
  have new: "NodeRef q i \<in> set (map2 NodeRef (points_of rt m) ks) \<longleftrightarrow> (q, i) \<in> set (zip (points_of rt m) ks)" for q i by auto
  have fresh: "next_node_id (chain_at w q) \<le> i" if "(q, i) \<in> set (zip (points_of rt m) ks)" for q i
    using hookedD(4)[OF N that] v(5) by simp
  have at: "node_at ?w q i \<longleftrightarrow> node_at w q i \<and> NodeRef q i \<notin> set (m_hooks m) \<or> (q, i) \<in> set (zip (points_of rt m) ks)" for q i
    using hookedD(6)[OF N, of q i] v(3)[of q i] by (simp add: node_at_def)
  have own_s: "owner ?w q i s \<longleftrightarrow> NodeRef q i \<in> set (m_hooks m) \<or> (q, i) \<in> set (zip (points_of rt m) ks)" for q i
    using new[of q i] by (auto simp: owner_def)
  have own: "owner ?w q i t \<longleftrightarrow> owner w q i t" if "t \<noteq> s" for q i t using that by (simp add: owner_def)
  have old: "i < next_node_id (chain_at w q)" if "owner w q i t" for q i t
    using that manager_okD(7)[OF hooks_okD(3)[OF ok, of t], where q = q and i = i] by (auto simp: owner_def)
  have "hooks_ok rt ?w"
    unfolding hooks_ok_def
  proof (intro conjI allI impI)
    show "dict_ok (managers ?w)" using hooks_okD(1)[OF ok] by simp
    show "all_linked ?w" using hookedD(1)[OF N] by (simp add: all_linked_def)
  next
    fix t k
    assume get: "dict_get (managers ?w) t = Some k"
    show "manager_ok rt ?w t k"
    proof (cases "t = s")
      case True
      have "\<not> node_at ?w1 q i \<and> i < next_node_id (chain_at ?w1 q)" if "NodeRef q i \<in> set (m_hooks m)" for q i
        using v(3,5) manager_for_refs(3)[OF ok mf that] that by simp
      from installed_manager_ok[OF manager_for_refs(1)[OF ok mf] this hs ks N]
      have "manager_ok rt ?w s ?m2" by (rule manager_ok_frame) (simp_all add: node_at_def)
      with get True show ?thesis by simp
    next
      case False
      then have k: "dict_get (managers w) t = Some k" using get by simp
      have other: "owner w q i t \<and> NodeRef q i \<notin> set (m_hooks m) \<and> (q, i) \<notin> set (zip (points_of rt m) ks)"
        if "NodeRef q i \<in> set (m_hooks k)" for q i
      proof -
        have o: "owner w q i t" using k that by (auto simp: owner_def)
        have "NodeRef q i \<notin> set (m_hooks m)" using hooks_okD(4)[OF ok o, of s] manager_for_refs(2)[OF ok mf, of q i] False by blast
        moreover have "(q, i) \<notin> set (zip (points_of rt m) ks)" using old[OF o] fresh[of q i] by linarith
        ultimately show ?thesis using o by blast
      qed
      show ?thesis
      proof (rule manager_ok_frame[OF hooks_okD(3)[OF ok k]])
        fix q i
        assume r: "NodeRef q i \<in> set (m_hooks k)"
        show "node_at ?w q i = node_at w q i" using at other[OF r] by blast
        have "i < next_node_id (chain_at ?w1 q)" using old[of q i t] other[OF r] v(5)[of q] by simp
        then show "node_hooks (chain_at ?w q) i = node_hooks (chain_at w q) i" using hookedD(8)[OF N, of i q] v(4)[of q] by simp
      next
        fix q
        show "next_node_id (chain_at w q) \<le> next_node_id (chain_at ?w q)" using hookedD(7)[OF N, of q] v(5)[of q] by simp
      qed
    qed
  next
    fix q i t t'
    assume o: "owner ?w q i t \<and> owner ?w q i t'"
    have s: "owner w q i s \<or> next_node_id (chain_at w q) \<le> i" if "owner ?w q i s"
      using that own_s fresh manager_for_refs(2)[OF ok mf] by blast
    show "t = t'"
      using o s own[of t q i] own[of t' q i] hooks_okD(4)[OF ok, of q i] old[of q i] by (metis not_le)
  next
    fix q i
    assume "node_at ?w q i"
    then consider "(q, i) \<in> set (zip (points_of rt m) ks)" | "node_at w q i" "NodeRef q i \<notin> set (m_hooks m)" using at by blast
    then show "\<exists>t. owner ?w q i t"
    proof cases
      case 1
      then show ?thesis using own_s by blast
    next
      case 2
      then obtain t where "owner w q i t" using hooks_okD(5)[OF ok] by blast
      then show ?thesis using own manager_for_refs(4)[OF ok mf] 2(2) by metis
    qed
  qed
  moreover have "managers w2 = managers w" using hookedD(2)[OF N] v(2) by simp
  ultimately show ?thesis using run by (intro exI[of _ ?m2] exI[of _ w2]) simp
qed


section \<open>The specification\<close>

text \<open>
  The handlers of every symbol are all there is to know. They are a set, in which no two are equal; the list is the order in which it
  was iterated over last.
\<close>

definition handlers_of :: "'h hooks \<Rightarrow> string \<Rightarrow> 'h hooker list" where
  "handlers_of w s = (case dict_get (managers w) s of None \<Rightarrow> [] | Some m \<Rightarrow> m_handlers m)"

definition handler_set :: "'h hooks \<Rightarrow> string \<Rightarrow> 'h hooker set" where
  "handler_set w s = set (handlers_of w s)"

definition set_add :: "'h hooker \<Rightarrow> 'h hooker set \<Rightarrow> 'h hooker set" where
  "set_add h H = (if \<exists>g \<in> H. same_hooker h g then H else insert h H)"

definition set_remove :: "'h hooker \<Rightarrow> 'h hooker set \<Rightarrow> 'h hooker set" where
  "set_remove h H = {g \<in> H. \<not> same_hooker h g}"

lemma same_key: "same_hooker h g \<longleftrightarrow> hooker_key h = hooker_key g"
  by (simp add: same_hooker_def hooker_key_def)

lemma has_hooker_set: "has_hooker h hs \<longleftrightarrow> (\<exists>g \<in> set hs. same_hooker h g)"
  by (auto simp: has_hooker_def list_ex_iff)

lemma remove_hooker_set:
  "distinct (map hooker_key hs) \<Longrightarrow> set (remove_hooker h hs) = set_remove h (set hs) \<and> distinct (map hooker_key (remove_hooker h hs))"
  by (induction hs) (auto simp: set_remove_def same_key)

text \<open>What the chains hold: every node carries the hook that the handlers of its symbol call for.\<close>

lemma installed_hook:
  assumes "hooks_ok rt w" "node_at w q i"
  shows "\<exists>s f. owner w q i s \<and> node_hooks (chain_at w q) i = HookFn f \<and> w_hooks f = build_wrap_hook_func (handlers_of w s)"
proof -
  obtain s m where m: "dict_get (managers w) s = Some m" "NodeRef q i \<in> set (m_hooks m)"
    using hooks_okD(5)[OF assms] by (auto simp: owner_def)
  note ok = hooks_okD(3)[OF assms(1) m(1)]
  show ?thesis using manager_okD(4)[OF ok] manager_okD(6)[OF ok m(2) assms(2)] m
    by (intro exI[of _ s] exI[of _ "wrapped_of m"]) (auto simp: owner_def handlers_of_def wrapped_of_def)
qed

text \<open>A symbol with handlers has one live node for each of its points that is found.\<close>

lemma installed_points:
  assumes "hooks_ok rt w" "dict_get (managers w) s = Some m"
  shows "\<exists>ks. length ks = length (points_of rt m) \<and> (\<forall>q i. node_at w q i \<and> owner w q i s \<longleftrightarrow> (q, i) \<in> set (zip (points_of rt m) ks))"
proof -
  obtain ks where ks: "length ks = length (points_of rt m)" "filter (live_ref w) (m_hooks m) = map2 NodeRef (points_of rt m) ks"
    using manager_okD(5)[OF hooks_okD(3)[OF assms]] by blast
  have "node_at w q i \<and> owner w q i s \<longleftrightarrow> (q, i) \<in> set (zip (points_of rt m) ks)" for q i
  proof -
    have "node_at w q i \<and> owner w q i s \<longleftrightarrow> NodeRef q i \<in> set (filter (live_ref w) (m_hooks m))" using assms(2) by (auto simp: owner_def)
    also have "\<dots> \<longleftrightarrow> (q, i) \<in> set (zip (points_of rt m) ks)" unfolding ks(2) by auto
    finally show ?thesis .
  qed
  then show ?thesis using ks(1) by blast
qed

text \<open>The nodes of \<open>s\<close>: exactly one at each of the points \<open>ps\<close> that can be imported, with the hook composed of \<open>hs\<close>.\<close>

definition hooked_with :: "runtime \<Rightarrow> 'h hooks \<Rightarrow> string \<Rightarrow> point list \<Rightarrow> 'h hooker list \<Rightarrow> bool" where
  "hooked_with rt w s ps hs \<longleftrightarrow>
     (\<exists>ks. length ks = length (filter (import_object rt) ps) \<and>
        (\<forall>q i. node_at w q i \<and> owner w q i s \<longleftrightarrow> (q, i) \<in> set (zip (filter (import_object rt) ps) ks)) \<and>
        (\<forall>q i. (q, i) \<in> set (zip (filter (import_object rt) ps) ks) \<longrightarrow>
           (\<exists>f. node_hooks (chain_at w q) i = HookFn f \<and> w_hooks f = build_wrap_hook_func hs)))"

lemma stored_hooked_with:
  assumes "hooks_ok rt w" "dict_get (managers w) s = Some m"
  shows "hooked_with rt w s (m_points m) (m_handlers m)"
proof -
  from installed_points[OF assms] obtain ks where ks: "length ks = length (points_of rt m)"
    "\<And>q i. node_at w q i \<and> owner w q i s \<longleftrightarrow> (q, i) \<in> set (zip (points_of rt m) ks)" by blast
  have "\<exists>f. node_hooks (chain_at w q) i = HookFn f \<and> w_hooks f = build_wrap_hook_func (m_handlers m)"
    if "(q, i) \<in> set (zip (points_of rt m) ks)" for q i
  proof -
    from that ks(2)[of q i] have n: "node_at w q i" "owner w q i s" by blast+
    then obtain t f where f: "owner w q i t" "node_hooks (chain_at w q) i = HookFn f" "w_hooks f = build_wrap_hook_func (handlers_of w t)"
      using installed_hook[OF assms(1)] by blast
    have "t = s" using hooks_okD(4)[OF assms(1) f(1) n(2)] .
    then show ?thesis using f(2,3) assms(2) by (simp add: handlers_of_def)
  qed
  then show ?thesis using ks unfolding hooked_with_def points_of_def by blast
qed

lemma remove_hooker_subset: "set (remove_hooker h hs) \<subseteq> set hs"
  by (induction hs) auto

lemma remove_absent_hooker: "\<not> has_hooker h hs \<Longrightarrow> remove_hooker h hs = hs"
  by (induction hs) (auto simp: has_hooker_def)

lemma hooks_ok_symbols: "hooks_ok rt w \<Longrightarrow> h \<in> set (handlers_of w s) \<Longrightarrow> symbol_path h = s"
  by (cases "dict_get (managers w) s") (auto simp: handlers_of_def dest: manager_okD(3)[OF hooks_okD(3)])

lemma stored_handlers:
  "handler_set (w\<lparr>managers := dict_set s m (managers w)\<rparr>) = (handler_set w)(s := set (m_handlers m))"
  "handler_set (w\<lparr>managers := dict_del s (managers w)\<rparr>) = (handler_set w)(s := {})"
  by (auto simp: handler_set_def handlers_of_def fun_eq_iff)

lemma same_handlers: "managers w' = managers w \<Longrightarrow> handler_set w' = handler_set w"
  by (simp add: handler_set_def handlers_of_def fun_eq_iff)

text \<open>What a run leaves of the points of the managers: those of \<open>h\<close> for a new one, the old ones otherwise.\<close>

definition points_kept :: "'h hooker \<Rightarrow> 'h hooks \<Rightarrow> 'h hooks \<Rightarrow> bool" where
  "points_kept h w w' \<longleftrightarrow> (\<forall>s m'. dict_get (managers w') s = Some m' \<longrightarrow>
     (case dict_get (managers w) s of None \<Rightarrow> s = symbol_path h \<and> m_points m' = hook_list h | Some m \<Rightarrow> m_points m' = m_points m))"

lemma distinct_mset: "mset hs = mset gs \<Longrightarrow> distinct (map hooker_key hs) = distinct (map hooker_key gs)"
  by (metis mset_eq_imp_distinct_iff mset_map)

lemma hooker_init_refines:
  assumes "chains_work rt" "hooks_ok rt w" "support_version (later_version rt) h"
  shows "\<exists>w'. hooker_init rt h w = (True, w') \<and> hooks_ok rt w' \<and> points_kept h w w' \<and>
    handler_set w' = (handler_set w)(symbol_path h := set_add h (handler_set w (symbol_path h)))"
proof -
  let ?s = "symbol_path h"
  define m where "m = (case dict_get (managers w) ?s of None \<Rightarrow> new_multi h | Some m \<Rightarrow> m)"
  have mf: "manager_for w ?s m" by (simp add: m_def manager_for_def new_multi_def split: option.split)
  have hs: "m_handlers m = handlers_of w ?s" by (simp add: m_def handlers_of_def new_multi_def split: option.split)
  have run: "hooker_init rt h w = store_manager ?s (multi_add rt h (m, w))" using assms(3) by (simp add: hooker_init_def m_def)
  show ?thesis
  proof (cases "has_hooker h (handlers_of w ?s)")
    case True
    then have "dict_get (managers w) ?s = Some m"
      by (auto simp: m_def handlers_of_def has_hooker_def split: option.splits)
    then have "w\<lparr>managers := dict_set ?s m (managers w)\<rparr> = w" by (simp add: update_triv)
    then have "hooker_init rt h w = (True, w)" using run hs True by (simp add: multi_add_def store_manager_def)
    then show ?thesis using assms(2) True
      by (auto simp: set_add_def handler_set_def has_hooker_set points_kept_def fun_eq_iff split: option.split)
  next
    case False
    let ?r = "recover_refs rt (m_hooks m) w"
    obtain gs w1 where it: "iterate_set rt hooker_key (handlers_of w ?s @ [h]) ?r = (gs, w1)" by fastforce
    note iv = iterate_view[OF it]
    have set: "set gs = insert h (set (handlers_of w ?s))" using iv(1) by (metis set_mset_mset set_append empty_set list.simps(15) Un_insert_right sup_bot_right)
    have sym: "\<forall>g \<in> set gs. symbol_path g = ?s" using hooks_ok_symbols[OF assms(2)] set by auto
    have "distinct (map hooker_key (handlers_of w ?s))"
      using manager_okD(8)[OF hooks_okD(3)[OF assms(2)], of ?s] by (auto simp: handlers_of_def split: option.split)
    then have "distinct (map hooker_key (handlers_of w ?s @ [h]))" using False by (auto simp: has_hooker_set same_key)
    then have dist: "distinct (map hooker_key gs)" using distinct_mset[OF iv(1)] by simp
    have ne: "gs \<noteq> []" using set by auto
    from hooks_ok_install[OF assms(2,1) mf ne sym dist, of "set_draws w1"] iv(2) obtain m2 w2 where
      d: "do_hook rt (m_points m) (set_handlers gs m, w1) = (True, (m2, w2))"
      "m_handlers m2 = gs" "m_points m2 = m_points m" "managers w2 = managers w" "hooks_ok rt (w2\<lparr>managers := dict_set ?s m2 (managers w)\<rparr>)" by auto
    have "hooker_init rt h w = (True, w2\<lparr>managers := dict_set ?s m2 (managers w2)\<rparr>)"
      using run hs False d(1) it by (simp add: multi_add_def store_manager_def)
    moreover have "handler_set (w2\<lparr>managers := dict_set ?s m2 (managers w2)\<rparr>) = (handler_set w)(?s := insert h (handler_set w ?s))"
      unfolding stored_handlers(1) same_handlers[OF d(4)] d(2) set by (simp add: handler_set_def)
    moreover have "points_kept h w (w2\<lparr>managers := dict_set ?s m2 (managers w2)\<rparr>)"
      using d(3,4) by (auto simp: points_kept_def m_def new_multi_def split: option.split)
    ultimately show ?thesis using d(5) False unfolding set_add_def d(4) by (auto simp: handler_set_def has_hooker_set)
  qed
qed

lemma hooker_recover_refines:
  assumes "chains_work rt" "hooks_ok rt w"
  shows "\<exists>w'. hooker_recover rt h w = (True, w') \<and> hooks_ok rt w' \<and>
    handler_set w' = (handler_set w)(symbol_path h := set_remove h (handler_set w (symbol_path h)))"
proof (cases "dict_get (managers w) (symbol_path h)")
  case None
  then show ?thesis using assms(2) by (auto simp: hooker_recover_def handler_set_def handlers_of_def set_remove_def fun_eq_iff)
next
  case (Some m)
  let ?s = "symbol_path h" and ?w1 = "recover_refs rt (m_hooks m) w"
  have hs: "handler_set w ?s = set (m_handlers m)" using Some by (simp add: handler_set_def handlers_of_def)
  have mf: "manager_for w ?s m" using Some by (simp add: manager_for_def)
  note mo = hooks_okD(3)[OF assms(2) Some]
  have ne: "m_handlers m \<noteq> []" using manager_okD(2)[OF mo] .
  note v = recovered_view[OF assms(2) manager_for_refs(1)[OF assms(2) mf]]
  note rem = remove_hooker_set[OF manager_okD(8)[OF mo], of h]
  have triv: "w\<lparr>managers := dict_set ?s m (managers w)\<rparr> = w" using Some by (simp add: update_triv)
  consider (absent) "\<not> has_hooker h (m_handlers m)" | (last) "has_hooker h (m_handlers m)" "remove_hooker h (m_handlers m) = []"
    | (more) "has_hooker h (m_handlers m)" "remove_hooker h (m_handlers m) \<noteq> []" by blast
  then show ?thesis
  proof cases
    case absent
    then have "hooker_recover rt h w = (True, w)" using Some ne triv by (simp add: hooker_recover_def multi_recover_def store_manager_def)
    moreover have "set_remove h (handler_set w ?s) = handler_set w ?s" using absent rem hs by (simp add: remove_absent_hooker)
    ultimately show ?thesis using assms(2) by simp
  next
    case last
    then have "hooker_recover rt h w = (True, ?w1\<lparr>managers := dict_del ?s (managers w)\<rparr>)"
      using Some v(2) by (simp add: hooker_recover_def multi_recover_def)
    moreover have "set_remove h (handler_set w ?s) = {}" using last rem hs by simp
    moreover have "handler_set (?w1\<lparr>managers := dict_del ?s (managers w)\<rparr>) = (handler_set w)(?s := {})"
      using stored_handlers(2)[of ?s ?w1] same_handlers[OF v(2)] unfolding v(2) by simp
    ultimately show ?thesis using hooks_ok_uninstall[OF assms(2) Some] by simp
  next
    case more
    obtain gs w1 where it: "iterate_set rt hooker_key (remove_hooker h (m_handlers m)) ?w1 = (gs, w1)" by fastforce
    note iv = iterate_view[OF it]
    have set: "set gs = set_remove h (set (m_handlers m))" using iv(1) rem by (metis set_mset_mset)
    have sym: "\<forall>g \<in> set gs. symbol_path g = ?s" using manager_okD(3)[OF mo] set by (auto simp: set_remove_def)
    have dist: "distinct (map hooker_key gs)" using distinct_mset[OF iv(1)] rem by simp
    have gne: "gs \<noteq> []" using more(2) iv(1) by auto
    from hooks_ok_install[OF assms(2,1) mf gne sym dist, of "set_draws w1"] iv(2) obtain m2 w2 where
      d: "do_hook rt (m_points m) (set_handlers gs m, w1) = (True, (m2, w2))"
      "m_handlers m2 = gs" "managers w2 = managers w" "hooks_ok rt (w2\<lparr>managers := dict_set ?s m2 (managers w)\<rparr>)" by auto
    have dk: "m_handlers m2 \<noteq> []" using d(2) gne by simp
    have "hooker_recover rt h w = (True, w2\<lparr>managers := dict_set ?s m2 (managers w2)\<rparr>)"
      using Some more d(1) dk it by (simp add: hooker_recover_def multi_recover_def store_manager_def Let_def)
    moreover have "handler_set (w2\<lparr>managers := dict_set ?s m2 (managers w2)\<rparr>) = (handler_set w)(?s := set_remove h (handler_set w ?s))"
      unfolding stored_handlers(1) same_handlers[OF d(3)] d(2) set hs ..
    ultimately show ?thesis using d(3,4) by simp
  qed
qed

text \<open>
  Property C31. The hooks at all points are in step with the handlers, in whatever order Python iterates over the sets of handlers. When the
  metric package is there and every chain can be built and installed, adding a handler of a supported version to a symbol and
  removing one implement the insertion into and the removal from the set of its handlers, where handlers with the same symbol
  and function name are equal. They keep the invariant that every symbol with handlers has exactly one node at each of its points
  that can be imported, that the node carries the hook composed of all these handlers, in the order of the last iteration, and that there
  is no other node.
\<close>

theorem hooker_operations_refine:
  assumes "chains_work rt" "hooks_ok rt w"
  shows "(support_version (later_version rt) h \<longrightarrow> (\<exists>w'. hooker_init rt h w = (True, w') \<and> hooks_ok rt w' \<and>
      handler_set w' = (handler_set w)(symbol_path h := set_add h (handler_set w (symbol_path h))))) \<and>
    (\<exists>w'. hooker_recover rt h w = (True, w') \<and> hooks_ok rt w' \<and>
      handler_set w' = (handler_set w)(symbol_path h := set_remove h (handler_set w (symbol_path h))))"
  using hooker_init_refines[OF assms] hooker_recover_refines[OF assms] by blast


lemma no_hooks_ok: "hooks_ok rt (no_hooks slots)"
  by (auto simp: hooks_ok_def no_hooks_def all_linked_def linked_def owner_def node_at_def intro: chain_list_new) (simp add: new_chain_def)

definition chain_runtime :: runtime where
  "chain_runtime = \<lparr>metric_chain = True, resolvable = (\<lambda>_. True), chain_built = (\<lambda>_. True), chain_replaces = (\<lambda>_. True),
     locatable = (\<lambda>_. True), settable = (\<lambda>_. True), later_version = (\<lambda>v w. False),
     set_order = (\<lambda>n key. n + length (concat key))\<rparr>"

definition timer_hooker :: "nat hooker" where
  "timer_hooker = new_config_hooker (\<lambda>_. None) [(''vllm.a'', ''f'')] [7] ''_default'' ''vllm.a:f'' None None None (Some ''0.9.2'') False None"

lemma chain_runtime_works: "chains_work chain_runtime"
  by (simp add: chains_work_def chain_runtime_def)

theorem hooker_operations_refine_witness:
  "(let w = no_hooks (\<lambda>_. (PlainSlot, Original)); w1 = snd (hooker_init chain_runtime timer_hooker w)
    in fst (hooker_init chain_runtime timer_hooker w) \<and> handler_set w1 ''vllm.a:f'' = {timer_hooker} \<and>
       handler_set (snd (hooker_recover chain_runtime timer_hooker w1)) ''vllm.a:f'' = {})"
proof -
  let ?w = "no_hooks (\<lambda>_. (PlainSlot, Original)) :: nat hooks"
  have s: "support_version (later_version chain_runtime) timer_hooker" "symbol_path timer_hooker = ''vllm.a:f''" by code_simp+
  have none: "handler_set ?w ''vllm.a:f'' = {}" by (simp add: handler_set_def handlers_of_def no_hooks_def)
  note a = hooker_operations_refine[OF chain_runtime_works no_hooks_ok, where h = timer_hooker]
  obtain w1 where w1: "hooker_init chain_runtime timer_hooker ?w = (True, w1)" "hooks_ok chain_runtime w1"
    "handler_set w1 = (handler_set ?w)(''vllm.a:f'' := set_add timer_hooker {})"
    using a[of "\<lambda>_. (PlainSlot, Original)"] s none by auto
  have one: "handler_set w1 ''vllm.a:f'' = {timer_hooker}" using w1(3) by (simp add: set_add_def)
  obtain w2 where w2: "hooker_recover chain_runtime timer_hooker w1 = (True, w2)"
    "handler_set w2 = (handler_set w1)(''vllm.a:f'' := set_remove timer_hooker (handler_set w1 ''vllm.a:f''))"
    using hooker_operations_refine[OF chain_runtime_works w1(2), of timer_hooker] s(2) by auto
  show ?thesis using w1(1) one w2 by (simp add: Let_def set_remove_def same_hooker_def)
qed

section \<open>Handlers that are never installed\<close>

text \<open>Two handlers of a symbol whose functions have the same name, such as two timers: the second one is ignored.\<close>

lemma second_timer_ignored:
  assumes "chains_work rt" "hooks_ok rt w" "support_version (later_version rt) g"
    and "h \<in> set (handlers_of w (symbol_path g))" "applied_hook_func_name g = applied_hook_func_name h"
  shows "\<exists>w'. hooker_init rt g w = (True, w') \<and> handler_set w' = handler_set w"
proof -
  have "\<exists>k \<in> handler_set w (symbol_path g). same_hooker g k"
    using assms(4,5) hooks_ok_symbols[OF assms(2,4)] by (auto simp: handler_set_def same_hooker_def intro!: bexI[of _ h])
  then show ?thesis using hooker_init_refines[OF assms(1-3)] by (auto simp: set_add_def)
qed

text \<open>A hooker whose installation raised is taken for installed the next time.\<close>

lemma do_hook_handlers: "do_hook rt ps (m, w) = (ok, (m', w')) \<Longrightarrow> m_handlers m' = m_handlers m"
proof (induction ps arbitrary: m w)
  case (Cons p ps)
  have keep: "install_point rt p (m, w) = (b, (m1, w1)) \<Longrightarrow> m_handlers m1 = m_handlers m" for b m1 w1
    by (auto simp: install_point_def Let_def split: if_splits prod.splits option.splits)
  obtain b m1 w1 where h: "install_point rt p (m, w) = (b, (m1, w1))" by (metis prod.exhaust)
  show ?case using Cons.prems Cons.IH keep[OF h] h by (auto split: if_splits)
qed simp

lemma failed_init_not_retried:
  assumes "hooker_init rt h w = (False, w')"
  shows "hooker_init rt h w' = (True, w')"
proof -
  define m where "m = (case dict_get (managers w) (symbol_path h) of None \<Rightarrow> new_multi h | Some m \<Rightarrow> m)"
  obtain m1 w1 where r: "multi_add rt h (m, w) = (False, (m1, w1))" "w' = w1\<lparr>managers := dict_set (symbol_path h) m1 (managers w1)\<rparr>"
    "support_version (later_version rt) h"
    using assms by (auto simp: hooker_init_def store_manager_def Let_def m_def split: if_splits prod.splits)
  then obtain gs v where it: "iterate_set rt hooker_key (m_handlers m @ [h]) (recover_refs rt (m_hooks m) w) = (gs, v)"
    "m_handlers m1 = gs" by (auto simp: multi_add_def split: if_splits prod.splits dest: do_hook_handlers)
  have "h \<in> set gs" using iterate_view(1)[OF it(1)] by (metis in_set_conv_decomp set_mset_mset)
  then have "has_hooker h (m_handlers m1)" using it(2) by (auto simp: has_hooker_set same_hooker_def)
  then show ?thesis using r(2,3) by (simp add: hooker_init_def multi_add_def store_manager_def update_triv)
qed

end
