(* ===== verification/Prof_Control_Props.thy ===== *)
theory Prof_Control_Props
  imports Prof_Watch Prof_Hooker_Props
begin

text \<open>
  Enabling installs the configured hooks of all modules that are loaded, disabling removes none of them; and what reloading
  forgets. Hooks are nodes of hook chains, configurations have no patterns unless said otherwise.
\<close>

section \<open>Lists of hookers without duplicates\<close>

definition hooker_set :: "'h hooker list \<Rightarrow> 'h hooker list" where
  "hooker_set hs = fold insert_hooker hs []"

lemma same_hooker_refl [simp]: "same_hooker h h" and same_hooker_sym: "same_hooker h g = same_hooker g h"
  by (auto simp: same_hooker_def)

lemma has_hooker_insert: "has_hooker h (insert_hooker g hs) \<longleftrightarrow> same_hooker h g \<or> has_hooker h hs"
  by (auto simp: insert_hooker_def has_hooker_def list_ex_iff same_hooker_def)

lemma has_hooker_mem: "h \<in> set hs \<Longrightarrow> has_hooker h hs"
  by (auto simp: has_hooker_def list_ex_iff intro!: bexI[of _ h])

lemma insert_known: "has_hooker h hs \<Longrightarrow> insert_hooker h hs = hs"
  by (simp add: insert_hooker_def)

lemma fold_insert_grows: "has_hooker h hs \<Longrightarrow> has_hooker h (fold insert_hooker gs hs)"
  by (induction gs arbitrary: hs) (simp_all add: has_hooker_insert)

lemma fold_insert_known: "list_all (\<lambda>h. has_hooker h hs) gs \<Longrightarrow> fold insert_hooker gs hs = hs"
  by (induction gs) (simp_all add: insert_known)

lemma fold_insert_has: "h \<in> set gs \<Longrightarrow> has_hooker h (fold insert_hooker gs hs)"
  by (induction gs arbitrary: hs) (auto simp: has_hooker_insert intro: fold_insert_grows)

lemma fold_insert_subset: "set (fold insert_hooker gs hs) \<subseteq> set gs \<union> set hs"
  by (induction gs arbitrary: hs) (force simp: insert_hooker_def split: if_splits)+

text \<open>A list without duplicates is built by inserting its elements in order.\<close>

fun fresh_hookers :: "'h hooker list \<Rightarrow> 'h hooker list \<Rightarrow> bool" where
  "fresh_hookers seen [] = True"
| "fresh_hookers seen (h # hs) \<longleftrightarrow> \<not> has_hooker h seen \<and> fresh_hookers (seen @ [h]) hs"

lemma fold_insert_fresh: "fresh_hookers seen hs \<Longrightarrow> fold insert_hooker hs seen = seen @ hs"
  by (induction hs arbitrary: seen) (simp_all add: insert_hooker_def)

lemma fresh_append: "fresh_hookers seen (hs @ [h]) \<longleftrightarrow> fresh_hookers seen hs \<and> \<not> has_hooker h (seen @ hs)"
  by (induction hs arbitrary: seen) auto

lemma fresh_insert: "fresh_hookers [] hs \<Longrightarrow> fresh_hookers [] (insert_hooker h hs)"
  by (simp add: insert_hooker_def fresh_append)

lemma fresh_fold_insert: "fresh_hookers [] hs \<Longrightarrow> fresh_hookers [] (fold insert_hooker gs hs)"
  by (induction gs arbitrary: hs) (simp_all add: fresh_insert)

lemma hooker_set_twice: "fresh_hookers [] hs \<Longrightarrow> hooker_set hs = hs"
  using fold_insert_fresh[of "[]" hs] by (simp add: hooker_set_def)

text \<open>The hookers of one symbol in a list.\<close>

definition at_symbol :: "string \<Rightarrow> 'h hooker list \<Rightarrow> 'h hooker list" where
  "at_symbol s hs = filter (\<lambda>h. symbol_path h = s) hs"

lemma has_at_symbol: "has_hooker h (at_symbol (symbol_path h) hs) = has_hooker h hs"
  by (induction hs) (auto simp: has_hooker_def at_symbol_def same_hooker_def)

lemma at_symbol_insert:
  "at_symbol s (insert_hooker h hs) = (if symbol_path h = s then insert_hooker h (at_symbol s hs) else at_symbol s hs)"
  using has_at_symbol[of h hs] by (cases "symbol_path h = s"; cases "has_hooker h hs") (auto simp: insert_hooker_def at_symbol_def)

lemma at_symbol_fold: "at_symbol s (fold insert_hooker gs hs) = fold insert_hooker (at_symbol s gs) (at_symbol s hs)"
  by (induction gs arbitrary: hs) (simp_all add: at_symbol_insert, simp_all add: at_symbol_def)

lemma fresh_at_symbol: "fresh_hookers [] hs \<Longrightarrow> fresh_hookers [] (at_symbol s hs)"
  using at_symbol_fold[of s hs "[]"] fold_insert_fresh[of "[]" hs] fresh_fold_insert[of "[]" "at_symbol s hs"]
  by (simp add: at_symbol_def)

section \<open>Applying hookers\<close>

definition supported_all :: "'h machine \<Rightarrow> 'h hooker list \<Rightarrow> bool" where
  "supported_all M hs \<longleftrightarrow> (\<forall>h \<in> set hs. support_version (later_version (rt M)) h)"

lemma live_ref_register: "live_ref (w\<lparr>hook_registry := r\<rparr>) = live_ref w"
proof
  fix x
  show "live_ref (w\<lparr>hook_registry := r\<rparr>) x = live_ref w x" by (cases x) (simp_all add: node_at_def)
qed

lemma hooks_ok_register:
  "hooks_ok r (hooker_register h w) = hooks_ok r w" "handlers_of (hooker_register h w) = handlers_of w"
  "managers (hooker_register h w) = managers w"
  by (simp_all add: hooker_register_def hooks_ok_def all_linked_def manager_ok_def owner_def node_at_def handlers_of_def fun_eq_iff
      live_ref_register)

lemma live_ref_draws: "live_ref (w\<lparr>set_draws := d\<rparr>) = live_ref w"
proof
  fix x
  show "live_ref (w\<lparr>set_draws := d\<rparr>) x = live_ref w x" by (cases x) (simp_all add: node_at_def)
qed

lemma hooks_ok_draws: "hooks_ok r (w\<lparr>set_draws := d\<rparr>) = hooks_ok r w" "handlers_of (w\<lparr>set_draws := d\<rparr>) = handlers_of w"
  by (simp_all add: hooks_ok_def all_linked_def manager_ok_def owner_def node_at_def handlers_of_def fun_eq_iff live_ref_draws)

lemma watch_iterate_view:
  assumes "watch_iterate M key xs w = (ys, w')"
  shows "mset ys = mset xs" "\<exists>d. w' = w\<lparr>watch_hooks := (watch_hooks w)\<lparr>set_draws := d\<rparr>\<rparr>"
proof -
  obtain hk where i: "iterate_set (rt M) key xs (watch_hooks w) = (ys, hk)" "w' = w\<lparr>watch_hooks := hk\<rparr>"
    using assms by (auto simp: watch_iterate_def split: prod.splits)
  show "mset ys = mset xs" by (rule iterate_view(1)[OF i(1)])
  show "\<exists>d. w' = w\<lparr>watch_hooks := (watch_hooks w)\<lparr>set_draws := d\<rparr>\<rparr>" using iterate_view(2)[OF i(1)] i(2) by metis
qed

text \<open>The points of the managers come from the hookers that were applied.\<close>

definition points_from :: "'h hooker list \<Rightarrow> 'h hooks \<Rightarrow> 'h hooks \<Rightarrow> bool" where
  "points_from hs w w' \<longleftrightarrow> (\<forall>s m. dict_get (managers w') s = Some m \<longrightarrow>
     (\<exists>h \<in> set hs. symbol_path h = s \<and> m_points m = hook_list h) \<or> (\<exists>k. dict_get (managers w) s = Some k \<and> m_points m = m_points k))"

lemma points_from_refl: "points_from [] w w"
  by (simp add: points_from_def)

lemma points_from_step:
  assumes "points_kept h w w1" "points_from hs w1 w2"
  shows "points_from (h # hs) w w2"
  unfolding points_from_def
proof (intro allI impI)
  fix s m
  assume m: "dict_get (managers w2) s = Some m"
  consider (applied) "\<exists>g \<in> set hs. symbol_path g = s \<and> m_points m = hook_list g"
    | (stored) k where "dict_get (managers w1) s = Some k" "m_points m = m_points k"
    using assms(2) m unfolding points_from_def by blast
  then show "(\<exists>g \<in> set (h # hs). symbol_path g = s \<and> m_points m = hook_list g) \<or>
      (\<exists>k. dict_get (managers w) s = Some k \<and> m_points m = m_points k)"
  proof cases
    case applied
    then show ?thesis by auto
  next
    case stored
    then show ?thesis using assms(1)[unfolded points_kept_def, rule_format, OF stored(1)]
      by (cases "dict_get (managers w) s") auto
  qed
qed

lemma apply_hooker_view:
  assumes "chains_work (rt M)" "hooks_ok (rt M) (watch_hooks w)" "support_version (later_version (rt M)) h"
  shows "\<exists>hk. apply_hooker M h w = w\<lparr>watch_hooks := hk, applied_hookers := insert_hooker h (applied_hookers w)\<rparr> \<and>
    hooks_ok (rt M) hk \<and> points_kept h (watch_hooks w) hk \<and>
    handler_set hk = (handler_set (watch_hooks w))(symbol_path h := set_add h (handler_set (watch_hooks w) (symbol_path h)))"
  using hooker_init_refines[OF assms] by (auto simp: apply_hooker_def)

lemma fold_apply_view:
  assumes "chains_work (rt M)" "hooks_ok (rt M) (watch_hooks w)" "supported_all M hs"
  shows "\<exists>hk. fold (apply_hooker M) hs w = w\<lparr>watch_hooks := hk, applied_hookers := fold insert_hooker hs (applied_hookers w)\<rparr> \<and>
    hooks_ok (rt M) hk \<and> points_from hs (watch_hooks w) hk \<and>
    (\<forall>s. handler_set hk s = fold set_add (at_symbol s hs) (handler_set (watch_hooks w) s))"
  using assms(2,3)
proof (induction hs arbitrary: w)
  case Nil
  then show ?case by (intro exI[of _ "watch_hooks w"]) (simp add: at_symbol_def points_from_refl)
next
  case (Cons h hs)
  have "support_version (later_version (rt M)) h" "supported_all M hs" using Cons.prems(2) by (simp_all add: supported_all_def)
  from apply_hooker_view[OF assms(1) Cons.prems(1) this(1)] obtain hk where
    hk: "apply_hooker M h w = w\<lparr>watch_hooks := hk, applied_hookers := insert_hooker h (applied_hookers w)\<rparr>" "hooks_ok (rt M) hk"
    "points_kept h (watch_hooks w) hk"
    "handler_set hk = (handler_set (watch_hooks w))(symbol_path h := set_add h (handler_set (watch_hooks w) (symbol_path h)))" by blast
  let ?w = "w\<lparr>watch_hooks := hk, applied_hookers := insert_hooker h (applied_hookers w)\<rparr>"
  from Cons.IH[of ?w] hk(2) \<open>supported_all M hs\<close> obtain hk' where
    hk': "fold (apply_hooker M) hs ?w = ?w\<lparr>watch_hooks := hk', applied_hookers := fold insert_hooker hs (applied_hookers ?w)\<rparr>"
    "hooks_ok (rt M) hk'" "points_from hs hk hk'" "\<forall>s. handler_set hk' s = fold set_add (at_symbol s hs) (handler_set hk s)" by auto
  then show ?case using hk(1,4) points_from_step[OF hk(3) hk'(3)] by (intro exI[of _ hk']) (simp add: at_symbol_def)
qed

text \<open>Hookers that are pairwise different are all kept, in whatever order they come.\<close>

lemma fold_add_distinct:
  "distinct (map hooker_key hs) \<Longrightarrow> (\<forall>h \<in> set hs. \<forall>g \<in> H. \<not> same_hooker h g) \<Longrightarrow> fold set_add hs H = set hs \<union> H"
proof (induction hs arbitrary: H)
  case (Cons h hs)
  have "set_add h H = insert h H" using Cons.prems(2) by (auto simp: set_add_def)
  moreover have "\<forall>k \<in> set hs. \<forall>g \<in> insert h H. \<not> same_hooker k g"
    using Cons.prems by (auto simp: same_key) (metis image_eqI)
  ultimately show ?case using Cons.IH[of "insert h H"] Cons.prems(1) by simp
qed simp

lemma fresh_distinct: "fresh_hookers seen hs \<longleftrightarrow> distinct (map hooker_key hs) \<and> (\<forall>h \<in> set hs. \<not> has_hooker h seen)"
proof (induction hs arbitrary: seen)
  case (Cons h hs)
  show ?case unfolding fresh_hookers.simps Cons.IH by (auto simp: has_hooker_set same_key) (metis image_eqI)
qed simp

lemma at_symbol_set: "set (at_symbol s hs) = {h \<in> set hs. symbol_path h = s}"
  by (simp add: at_symbol_def)

section \<open>Preparing the loaded modules\<close>

definition wf_config :: "'h machine \<Rightarrow> 'h hook_config \<Rightarrow> bool" where
  "wf_config M p \<longleftrightarrow> dict_ok (concrete p) \<and> patterns p = [] \<and>
     (\<forall>s hs. dict_get (concrete p) s = Some hs \<longrightarrow> supported_all M hs \<and> (\<forall>h \<in> set hs. symbol_path h = s))"

text \<open>The state while modules are prepared, with the symbols \<open>S\<close> that were.\<close>

definition prepared_for :: "'h machine \<Rightarrow> 'h hook_config \<Rightarrow> string set \<Rightarrow> 'h watcher \<Rightarrow> bool" where
  "prepared_for M p S w \<longleftrightarrow>
     hooks_ok (rt M) (watch_hooks w) \<and> (\<forall>s. handlers_of (watch_hooks w) s = []) \<and> sym_profiling w = concrete p \<and> sym_metrics w = [] \<and>
     pat_profiling w = [] \<and> pat_metrics w = [] \<and> \<not> auto_apply w \<and> applied_hookers w = [] \<and>
     (\<forall>n. listed (pattern_cache w) n = []) \<and> fresh_hookers [] (prepared_hookers w) \<and> supported_all M (prepared_hookers w) \<and>
     (\<forall>s. at_symbol s (prepared_hookers w) = (if s \<in> S then hooker_set (listed (concrete p) s) else []))"

lemma fold_prepare_view:
  "\<not> auto_apply w \<Longrightarrow> hooks_ok (rt M) (watch_hooks w) \<Longrightarrow>
   \<exists>hk. fold (prepare_hooker M) hs w = w\<lparr>watch_hooks := hk, prepared_hookers := fold insert_hooker hs (prepared_hookers w)\<rparr> \<and>
     hooks_ok (rt M) hk \<and> handlers_of hk = handlers_of (watch_hooks w)"
proof (induction hs arbitrary: w)
  case Nil
  then show ?case by (intro exI[of _ "watch_hooks w"]) simp
next
  case (Cons h hs)
  let ?w = "w\<lparr>watch_hooks := hooker_register h (watch_hooks w), prepared_hookers := insert_hooker h (prepared_hookers w)\<rparr>"
  have "prepare_hooker M h w = ?w" using Cons.prems(1) by (simp add: prepare_hooker_def)
  then show ?case using Cons.IH[of ?w] Cons.prems by (auto simp: hooks_ok_register)
qed

lemma wf_symbols: "wf_config M p \<Longrightarrow> at_symbol t (listed (concrete p) s) = (if t = s then listed (concrete p) s else [])"
  by (cases "dict_get (concrete p) s") (auto simp: wf_config_def listed_def at_symbol_def filter_empty_conv filter_id_conv)

lemma wf_supported: "wf_config M p \<Longrightarrow> supported_all M (listed (concrete p) s)"
  by (cases "dict_get (concrete p) s") (auto simp: wf_config_def listed_def supported_all_def)

lemma hooker_set_known: "fold insert_hooker hs (hooker_set hs) = hooker_set hs"
  by (rule fold_insert_known) (auto simp: list_all_iff hooker_set_def intro: fold_insert_has)

lemma prepare_symbol_view:
  assumes wf: "wf_config M p" and w: "prepared_for M p S w"
  shows "prepared_for M p (insert s S) (prepare_symbol M s w)"
proof -
  have hs: "handlers_for_symbol w s = listed (concrete p) s" using w by (simp add: handlers_for_symbol_def prepared_for_def listed_def)
  from fold_prepare_view[of w M "listed (concrete p) s"] w obtain hk where
    hk: "fold (prepare_hooker M) (listed (concrete p) s) w =
      w\<lparr>watch_hooks := hk, prepared_hookers := fold insert_hooker (listed (concrete p) s) (prepared_hookers w)\<rparr>"
    "hooks_ok (rt M) hk" "handlers_of hk = handlers_of (watch_hooks w)" by (auto simp: prepared_for_def)
  have sup: "supported_all M (fold insert_hooker (listed (concrete p) s) (prepared_hookers w))"
    using fold_insert_subset[of "listed (concrete p) s" "prepared_hookers w"] wf_supported[OF wf, of s] w
    by (auto simp: supported_all_def prepared_for_def)
  have at: "at_symbol t (fold insert_hooker (listed (concrete p) s) (prepared_hookers w)) =
      (if t \<in> insert s S then hooker_set (listed (concrete p) t) else [])" for t
  proof -
    have "at_symbol t (fold insert_hooker (listed (concrete p) s) (prepared_hookers w)) =
        fold insert_hooker (if t = s then listed (concrete p) s else []) (if t \<in> S then hooker_set (listed (concrete p) t) else [])"
      using w by (simp add: at_symbol_fold wf_symbols[OF wf] prepared_for_def)
    then show ?thesis by (auto simp: hooker_set_known) (simp add: hooker_set_def)
  qed
  show ?thesis using w hk(2,3) sup at
    by (simp add: prepare_symbol_def hs hk(1) Let_def prepared_for_def fresh_fold_insert)
qed

lemma fold_prepare_symbol_view:
  "wf_config M p \<Longrightarrow> prepared_for M p S w \<Longrightarrow> prepared_for M p (S \<union> set ss) (fold (prepare_symbol M) ss w)"
proof (induction ss arbitrary: S w)
  case (Cons s ss)
  then show ?case using Cons.IH[OF Cons.prems(1) prepare_symbol_view[OF Cons.prems], of s] by simp
qed simp

text \<open>A symbol without handlers counts as prepared.\<close>

lemma prepared_for_empty:
  assumes "prepared_for M p S w" "\<And>s. s \<in> T \<Longrightarrow> s \<in> S \<or> listed (concrete p) s = []" "S \<subseteq> T"
  shows "prepared_for M p T w"
proof -
  have "hooker_set (listed (concrete p) s) = []" if "s \<notin> S" "s \<in> T" for s using assms(2)[OF that(2)] that(1) by (simp add: hooker_set_def)
  then show ?thesis using assms(1,3) unfolding prepared_for_def by auto
qed

lemma prepared_for_draws:
  "prepared_for M p S w \<Longrightarrow> \<exists>d. w' = w\<lparr>watch_hooks := (watch_hooks w)\<lparr>set_draws := d\<rparr>\<rparr> \<Longrightarrow> prepared_for M p S w'"
  by (auto simp: prepared_for_def hooks_ok_draws)

lemma prepare_module_view:
  assumes wf: "wf_config M p" and w: "prepared_for M p S w"
  shows "prepared_for M p (S \<union> {s \<in> set (dict_keys (concrete p)). module_of s = name}) (prepare_hooks_for_module M name w)"
proof -
  obtain paths w0 where it: "watch_iterate M (\<lambda>s. [s]) (combined_symbol_paths w) w = (paths, w0)" by fastforce
  note d = watch_iterate_view(2)[OF it]
  have paths: "set paths = set (combined_symbol_paths w)" by (rule mset_eq_setD[OF watch_iterate_view(1)[OF it]])
  let ?w = "w0\<lparr>pattern_cache := dict_del name (pattern_cache w)\<rparr>"
  let ?ss = "filter (\<lambda>s. module_of s = name \<and> handlers_for_symbol w s \<noteq> []) paths"
  have run: "prepare_hooks_for_module M name w = fold (prepare_symbol M) ?ss ?w"
    using w it by (auto simp: prepare_hooks_for_module_def prepared_for_def Let_def split: option.split)
  have "prepared_for M p S ?w" using w d by (auto simp: prepared_for_def listed_def hooks_ok_draws)
  from fold_prepare_symbol_view[OF wf this, of ?ss]
  show ?thesis unfolding run
    by (rule prepared_for_empty) (use w in \<open>auto simp: paths combined_symbol_paths_def prepared_for_def handlers_for_symbol_def listed_def\<close>)
qed


definition loaded_symbols :: "'h machine \<Rightarrow> 'h hook_config \<Rightarrow> string set" where
  "loaded_symbols M p = {s \<in> set (dict_keys (concrete p)). dict_has (module_of s) (modules M)}"

lemma concrete_modules_view:
  "wf_config M p \<Longrightarrow> prepared_for M p S w \<Longrightarrow> set ss \<subseteq> set (dict_keys (concrete p)) \<Longrightarrow> S \<subseteq> loaded_symbols M p \<Longrightarrow>
   {s \<in> loaded_symbols M p. module_of s \<in> set seen} \<subseteq> S \<Longrightarrow> concrete_modules M ss seen w = (seen', w') \<Longrightarrow>
   \<exists>S'. prepared_for M p S' w' \<and> S \<union> (set ss \<inter> loaded_symbols M p) \<subseteq> S' \<and> S' \<subseteq> loaded_symbols M p"
proof (induction ss arbitrary: S w seen)
  case Nil
  then show ?case by (auto intro!: exI[of _ S])
next
  case (Cons s ss)
  show ?case
  proof (cases "dict_has (module_of s) (modules M) \<and> module_of s \<notin> set seen")
    case True
    let ?S = "S \<union> {t \<in> set (dict_keys (concrete p)). module_of t = module_of s}"
    have sub: "?S \<subseteq> loaded_symbols M p" using Cons.prems(4) True by (auto simp: loaded_symbols_def)
    have "{t \<in> loaded_symbols M p. module_of t \<in> set (seen @ [module_of s])} \<subseteq> ?S" using Cons.prems(5) by (auto simp: loaded_symbols_def)
    from Cons.IH[OF Cons.prems(1) prepare_module_view[OF Cons.prems(1,2), of "module_of s"] _ sub this] Cons.prems(3,6) True
    obtain S' where "prepared_for M p S' w'" "?S \<union> (set ss \<inter> loaded_symbols M p) \<subseteq> S'" "S' \<subseteq> loaded_symbols M p" by auto
    then show ?thesis using Cons.prems(3) by (intro exI[of _ S']) auto
  next
    case False
    then obtain S' where S': "prepared_for M p S' w'" "S \<union> (set ss \<inter> loaded_symbols M p) \<subseteq> S'" "S' \<subseteq> loaded_symbols M p"
      using Cons.IH[OF Cons.prems(1,2) _ Cons.prems(4,5)] Cons.prems(3,6) by auto
    have "s \<in> loaded_symbols M p \<Longrightarrow> s \<in> S" using False Cons.prems(5) by (auto simp: loaded_symbols_def)
    then show ?thesis using S' by (intro exI[of _ S']) auto
  qed
qed

lemma target_view: "prepared_for M p S w \<Longrightarrow> is_target_symbol n w = (b, w') \<Longrightarrow> prepared_for M p S w'"
  by (auto simp: is_target_symbol_def prepared_for_def listed_def Let_def split: if_splits)

lemma pattern_modules_view:
  "wf_config M p \<Longrightarrow> prepared_for M p S w \<Longrightarrow> set names \<subseteq> set (dict_keys (modules M)) \<Longrightarrow> S = loaded_symbols M p \<Longrightarrow>
   prepared_for M p S (pattern_modules M names seen w)"
proof (induction names arbitrary: w seen)
  case (Cons n names)
  obtain b w1 where t: "is_target_symbol n w = (b, w1)" by fastforce
  have w1: "prepared_for M p S w1" by (rule target_view[OF Cons.prems(2) t])
  have "S \<union> {s \<in> set (dict_keys (concrete p)). module_of s = n} = S"
    using Cons.prems(3,4) by (auto simp: loaded_symbols_def dict_has_def)
  then have "prepared_for M p S (prepare_hooks_for_module M n w1)" using prepare_module_view[OF Cons.prems(1) w1, of n] by simp
  then show ?case using Cons.IH[OF Cons.prems(1)] Cons.prems w1 t by (auto split: if_splits)
qed simp

lemma existing_modules_view:
  assumes wf: "wf_config M p" and w: "prepared_for M p {} w"
  shows "prepared_for M p (loaded_symbols M p) (check_existing_modules M w)"
proof -
  have keys: "set (combined_symbol_paths w) = set (dict_keys (concrete p))" using w by (simp add: combined_symbol_paths_def prepared_for_def)
  obtain paths w0 where it: "watch_iterate M (\<lambda>s. [s]) (combined_symbol_paths w) w = (paths, w0)" by fastforce
  have paths: "set paths = set (dict_keys (concrete p))" using keys mset_eq_setD[OF watch_iterate_view(1)[OF it]] by simp
  obtain seen w1 where c: "concrete_modules M paths [] w0 = (seen, w1)" by fastforce
  from concrete_modules_view[OF wf prepared_for_draws[OF w watch_iterate_view(2)[OF it]] _ _ _ c] paths have "prepared_for M p (loaded_symbols M p) w1"
    by (auto simp: loaded_symbols_def) (metis (no_types, lifting) IntI mem_Collect_eq subset_antisym subset_iff)
  then show ?thesis using pattern_modules_view[OF wf] by (simp add: check_existing_modules_def it c)
qed

section \<open>Enabling and disabling\<close>

definition fresh_controller :: "(point \<Rightarrow> 'h slot) \<Rightarrow> 'h controller" where
  "fresh_controller slots = \<lparr>ctl_watcher = new_watcher (no_hooks slots), ctl_enabled = False\<rparr>"

abbreviation ctl_hooks :: "'h controller \<Rightarrow> 'h hooks" where
  "ctl_hooks c \<equiv> watch_hooks (ctl_watcher c)"

lemma handlers_of_none: "handlers_of (no_hooks slots) s = []"
  by (simp add: handlers_of_def no_hooks_def)

lemma existing_managers_none: "prepared_for M p S w \<Longrightarrow> dict_get (managers (watch_hooks w)) s = None"
  using manager_okD(2)[OF hooks_okD(3), of "rt M" "watch_hooks w" s]
  by (cases "dict_get (managers (watch_hooks w)) s") (auto simp: prepared_for_def handlers_of_def split: option.splits)

text \<open>The hooks \<open>hk\<close> that a configuration calls for: the handlers of the symbols of the loaded modules, and nodes only for these.\<close>

definition installed_for :: "'h machine \<Rightarrow> 'h hook_config \<Rightarrow> 'h hooks \<Rightarrow> bool" where
  "installed_for M p hk \<longleftrightarrow>
     (\<forall>s. handler_set hk s = (if s \<in> loaded_symbols M p then set (hooker_set (listed (concrete p) s)) else {})) \<and>
     (\<forall>s. s \<in> loaded_symbols M p \<and> listed (concrete p) s \<noteq> [] \<longrightarrow>
        (\<exists>h \<in> set (listed (concrete p) s). \<exists>hs. mset hs = mset (hooker_set (listed (concrete p) s)) \<and> hooked_with (rt M) hk s (hook_list h) hs)) \<and>
     (\<forall>q i. node_at hk q i \<longrightarrow> (\<exists>s \<in> loaded_symbols M p. owner hk q i s))"

lemma hooker_set_distinct: "distinct (map hooker_key (hooker_set hs))"
  using fresh_fold_insert[of "[]" hs] by (simp add: fresh_distinct hooker_set_def)

lemma hooker_set_empty: "hooker_set hs = [] \<longleftrightarrow> hs = []"
proof (cases hs)
  case (Cons h gs)
  have "has_hooker h (hooker_set hs)" unfolding hooker_set_def by (rule fold_insert_has) (simp add: Cons)
  then show ?thesis using Cons by (auto simp: has_hooker_def)
qed (simp add: hooker_set_def)

lemma distinct_lists: "distinct (map hooker_key xs) \<Longrightarrow> distinct (map hooker_key ys) \<Longrightarrow> set xs = set ys \<Longrightarrow> mset xs = mset ys"
  by (metis distinct_map set_eq_iff_mset_eq_distinct)

lemma applied_installs:
  assumes rt: "chains_work (rt M)" and wf: "wf_config M p" and prep: "prepared_for M p (loaded_symbols M p) w"
  shows "\<exists>w'. apply_prepared_hooks M w = w' \<and> hooks_ok (rt M) (watch_hooks w') \<and> installed_for M p (watch_hooks w')"
proof -
  obtain gs w1 where it: "watch_iterate M hooker_key (prepared_hookers w) (w\<lparr>auto_apply := True\<rparr>) = (gs, w1)" by fastforce
  obtain d where d: "w1 = w\<lparr>auto_apply := True, watch_hooks := (watch_hooks w)\<lparr>set_draws := d\<rparr>\<rparr>" using watch_iterate_view(2)[OF it] by auto
  have gs: "mset gs = mset (prepared_hookers w)" using watch_iterate_view(1)[OF it] .
  have ok: "hooks_ok (rt M) (watch_hooks w1)" "supported_all M gs"
    using prep mset_eq_setD[OF gs] by (simp_all add: d hooks_ok_draws prepared_for_def supported_all_def)
  from fold_apply_view[OF rt ok] obtain hk where
    hk: "fold (apply_hooker M) gs w1 = w1\<lparr>watch_hooks := hk, applied_hookers := fold insert_hooker gs (applied_hookers w1)\<rparr>"
    "hooks_ok (rt M) hk" "points_from gs (watch_hooks w1) hk"
    "\<forall>s. handler_set hk s = fold set_add (at_symbol s gs) (handler_set (watch_hooks w1) s)" by blast
  have dist: "distinct (map hooker_key gs)" using prep distinct_mset[OF gs] by (simp add: prepared_for_def fresh_distinct)
  have at: "set (at_symbol s gs) = (if s \<in> loaded_symbols M p then set (hooker_set (listed (concrete p) s)) else {})" for s
  proof -
    have "set (at_symbol s gs) = set (at_symbol s (prepared_hookers w))" using mset_eq_setD[OF gs] by (simp add: at_symbol_set)
    then show ?thesis using prep by (simp add: prepared_for_def)
  qed
  have set: "handler_set hk s = (if s \<in> loaded_symbols M p then set (hooker_set (listed (concrete p) s)) else {})" for s
  proof -
    have "handler_set (watch_hooks w1) s = {}" using prep by (simp add: d prepared_for_def handler_set_def hooks_ok_draws)
    moreover have "distinct (map hooker_key (at_symbol s gs))" using dist by (simp add: at_symbol_def distinct_map_filter)
    ultimately show ?thesis using hk(4) fold_add_distinct[of "at_symbol s gs" "{}"] at[of s] by simp
  qed
  have managed: "dict_get (managers hk) s = Some m \<Longrightarrow> handler_set hk s \<noteq> {}" for s m
    using manager_okD(2)[OF hooks_okD(3)[OF hk(2)], of s m] by (simp add: handler_set_def handlers_of_def)
  have "installed_for M p hk"
    unfolding installed_for_def
  proof (intro conjI allI impI)
    fix q i
    assume "node_at hk q i"
    then obtain s where "owner hk q i s" using hooks_okD(5)[OF hk(2)] by blast
    then show "\<exists>s \<in> loaded_symbols M p. owner hk q i s" using managed[of s] set[of s] by (auto simp: owner_def split: if_splits)
  next
    fix s
    assume s: "s \<in> loaded_symbols M p \<and> listed (concrete p) s \<noteq> []"
    then obtain m where m: "dict_get (managers hk) s = Some m"
      using set[of s] by (cases "dict_get (managers hk) s") (auto simp: handler_set_def handlers_of_def hooker_set_empty)
    have "dict_get (managers (watch_hooks w1)) s = None" using existing_managers_none[OF prep] by (simp add: d)
    then obtain h where h: "h \<in> set gs" "symbol_path h = s" "m_points m = hook_list h"
      using hk(3) m unfolding points_from_def by fastforce
    have "h \<in> set (hooker_set (listed (concrete p) s))" using at[of s] h(1,2) s by (auto simp: at_symbol_set)
    then have mem: "h \<in> set (listed (concrete p) s)" using fold_insert_subset[of "listed (concrete p) s" "[]"] by (auto simp: hooker_set_def)
    have "set (m_handlers m) = set (hooker_set (listed (concrete p) s))" using set[of s] s m by (simp add: handler_set_def handlers_of_def)
    then have "mset (m_handlers m) = mset (hooker_set (listed (concrete p) s))"
      by (intro distinct_lists manager_okD(8)[OF hooks_okD(3)[OF hk(2) m]] hooker_set_distinct)
    then show "\<exists>h \<in> set (listed (concrete p) s). \<exists>hs. mset hs = mset (hooker_set (listed (concrete p) s)) \<and> hooked_with (rt M) hk s (hook_list h) hs"
      using stored_hooked_with[OF hk(2) m] mem h(3) by metis
  qed (use set in blast)
  then show ?thesis using hk(1,2) it by (auto simp: apply_prepared_hooks_def)
qed

lemma enable_installs:
  assumes rt: "chains_work (rt M)" and wf: "wf_config M p" and ne: "concrete p \<noteq> []"
  shows "let c = snd (enable M (Some p) None (fresh_controller slots))
    in ctl_enabled c \<and> hooks_ok (rt M) (ctl_hooks c) \<and> installed_for M p (ctl_hooks c)"
proof -
  define w0 where "w0 = (new_watcher (no_hooks slots))\<lparr>sym_profiling := concrete p, sym_metrics := [], pat_profiling := [], pat_metrics := [],
      pattern_cache := [], config_loaded := True\<rparr>"
  have load: "load_handlers M (Some p) None False (new_watcher (no_hooks slots)) = (True, w0)"
    using wf by (simp add: load_handlers_def w0_def config_or_empty_def empty_config_def wf_config_def new_watcher_def Let_def)
  have "prepared_for M p {} w0"
    by (auto simp: prepared_for_def w0_def new_watcher_def no_hooks_ok handlers_of_none listed_def supported_all_def at_symbol_def)
  from existing_modules_view[OF wf this] have prep: "prepared_for M p (loaded_symbols M p) (check_existing_modules M w0)" .
  have "snd (enable M (Some p) None (fresh_controller slots)) =
      \<lparr>ctl_watcher = apply_prepared_hooks M (check_existing_modules M w0), ctl_enabled = True\<rparr>"
    using load ne by (simp add: enable_def fresh_controller_def config_has_handlers_def install_config_def Let_def)
  then show ?thesis using applied_installs[OF rt wf prep] by (simp add: Let_def)
qed

lemma disable_loop_hooks: "disable_loop M hs n w = (n + length hs, w)"
  by (induction hs arbitrary: n) (simp_all add: hooks_attribute_def)

lemma disable_keeps:
  "ctl_enabled c \<Longrightarrow> disable M c =
     (length (applied_hookers (ctl_watcher c)), c\<lparr>ctl_watcher := (ctl_watcher c)\<lparr>auto_apply := False\<rparr>, ctl_enabled := False\<rparr>)"
  by (simp add: disable_def disable_loop_hooks Let_def)

text \<open>
  Property C32. A first start with a configuration that names symbols, all of supported versions, hooks the symbols of the modules that
  are loaded and no others, when the metric package is there and every chain can be built and installed, and in whatever order Python
  iterates over its sets. The manager of such a symbol holds the handlers of the symbol, of those with equal names the first. At
  each point of the symbol whose module has one of the allowed prefixes and whose attribute can be resolved there is exactly one
  node of it, with the hook composed of these handlers in some order; other points get no node. The
  stop that follows reports the controller as disabled but removes none of these hooks.
\<close>

theorem started_hooks_survive_stop:
  assumes "chains_work (rt M)" "wf_config M p" "concrete p \<noteq> []"
  shows "let c1 = on_start M (Some (Some p, None)) (fresh_controller slots); c2 = on_stop M c1
    in ctl_enabled c1 \<and> \<not> ctl_enabled c2 \<and> ctl_hooks c2 = ctl_hooks c1 \<and> hooks_ok (rt M) (ctl_hooks c1) \<and>
       installed_for M p (ctl_hooks c1)"
  using enable_installs[OF assms, of slots]
  by (simp add: on_start_def on_stop_def disable_keeps Let_def)


definition one_module :: "nat machine" where
  "one_module = \<lparr>rt = chain_runtime, context_of = (\<lambda>_. None), modules = [(''vllm.a'', [])]\<rparr>"

definition two_timers :: "nat hook_config" where
  "two_timers = \<lparr>concrete = [(''vllm.a:f'', [timer_hooker, timer_hooker\<lparr>wrap_hook_func := Some 8\<rparr>]), (''vllm.b:g'', [timer_hooker\<lparr>symbol_path := ''vllm.b:g''\<rparr>])],
     patterns = []\<rparr>"

text \<open>Two timers for a symbol of a loaded module, and a symbol of a module that is not loaded.\<close>

theorem started_hooks_survive_stop_witness:
  "(let c1 = on_start one_module (Some (Some two_timers, None)) (fresh_controller (\<lambda>_. (PlainSlot, Original))); c2 = on_stop one_module c1
    in ctl_enabled c1 \<and> \<not> ctl_enabled c2 \<and> handler_set (ctl_hooks c2) ''vllm.a:f'' = {timer_hooker} \<and> handler_set (ctl_hooks c2) ''vllm.b:g'' = {})"
proof -
  have wf: "wf_config one_module two_timers"
    by (auto simp: wf_config_def two_timers_def one_module_def chain_runtime_def timer_hooker_def new_config_hooker_def supported_all_def
        support_version_def split: if_splits)
  have works: "chains_work (rt one_module)" by (simp add: one_module_def chain_runtime_works)
  have ne: "concrete two_timers \<noteq> []" by (simp add: two_timers_def)
  have s: "''vllm.a:f'' \<in> loaded_symbols one_module two_timers" "''vllm.b:g'' \<notin> loaded_symbols one_module two_timers"
    "hooker_set (listed (concrete two_timers) ''vllm.a:f'') = [timer_hooker]"
    by (simp_all add: loaded_symbols_def two_timers_def one_module_def module_of_def dict_has_def listed_def hooker_set_def insert_hooker_def
        has_hooker_def same_hooker_def)
  show ?thesis using started_hooks_survive_stop[OF works wf ne, of "\<lambda>_. (PlainSlot, Original)"] s by (simp add: Let_def installed_for_def)
qed

section \<open>What reloading and importing miss\<close>

text \<open>A handler that is a generator function is kept apart as a context hook, and these are never called.\<close>

lemma context_handler_not_run:
  assumes "ctx f \<noteq> None"
  shows "build_wrap_hook_func [new_config_hooker ctx points [f] name path lo hi flt version locals around] = []"
  using assms by (simp add: build_wrap_hook_func_def new_config_hooker_def first_hook_def List.map_filter_def)

text \<open>With the metric package, a module that only patterns name is not examined when it is imported.\<close>

lemma pattern_module_missed:
  assumes "metric_chain (rt M)" "listed (pattern_cache w) name = []" "\<And>s. s \<in> set (combined_symbol_paths w) \<Longrightarrow> module_of s \<noteq> name"
  shows "\<exists>d. import_event M name w = w\<lparr>watch_hooks := (watch_hooks w)\<lparr>set_draws := d\<rparr>, pattern_cache := dict_del name (pattern_cache w)\<rparr>"
proof -
  obtain paths w0 where it: "watch_iterate M (\<lambda>s. [s]) (combined_symbol_paths w) w = (paths, w0)" by fastforce
  have "set paths = set (combined_symbol_paths w)" by (rule mset_eq_setD[OF watch_iterate_view(1)[OF it]])
  then have "filter (\<lambda>s. module_of s = name \<and> handlers_for_symbol w s \<noteq> []) paths = []" using assms(3) by (auto simp: filter_empty_conv)
  then have "import_event M name w = w0\<lparr>pattern_cache := dict_del name (pattern_cache w)\<rparr>"
    using assms(1,2) it by (simp add: import_event_def prepare_hooks_for_module_def Let_def split: option.split)
  then show ?thesis using watch_iterate_view(2)[OF it] by auto
qed

text \<open>
  A reload that keeps a pattern takes its symbols off the list of applied symbols, since only symbols written out in the
  configuration stay there. A later reload that drops the pattern then finds nothing that changed, and returns before the
  patterns are compared: the hooks of the pattern stay.
\<close>

lemma watch_iterate_none [simp]: "watch_iterate M key [] w = ([], w)"
  by (simp add: watch_iterate_def iterate_set_def)

lemma nothing_unconfigured:
  "filter (\<lambda>h. \<not> has_hooker h hs) hs = []"
  by (auto simp: filter_empty_conv has_hooker_def list_ex_iff same_hooker_def)

lemma kept_pattern_symbols_forgotten:
  assumes "config_loaded w" "sym_profiling w = concrete p" "sym_metrics w = concrete m"
    "gone_patterns (concrete_profiling w) (patterns p) = []" "gone_patterns (concrete_metrics w) (patterns m) = []"
  shows "load_handlers M (Some p) (Some m) on w =
    (True, w\<lparr>applied_symbols := filter (\<lambda>s. dict_has s (concrete p) \<or> dict_has s (concrete m)) (applied_symbols w),
       pat_profiling := patterns p, pat_metrics := patterns m, pattern_cache := []\<rparr>)"
proof -
  have "filter (\<lambda>s. s \<notin> set (filter (\<lambda>s. \<not> dict_has s (concrete p) \<and> \<not> dict_has s (concrete m)) ss)) ss =
      filter (\<lambda>s. dict_has s (concrete p) \<or> dict_has s (concrete m)) ss" for ss by (induction ss rule: rev_induct) (auto intro: filter_cong)
  moreover have "filter (\<lambda>s. dict_has s (concrete p) \<or> dict_has s (concrete m)) ss = ss"
    if "filter (\<lambda>s. \<not> dict_has s (concrete p) \<and> \<not> dict_has s (concrete m)) ss = []" for ss
    using that by (induction ss) (simp_all split: if_splits)
  ultimately show ?thesis
    using assms by (cases w) (simp add: load_handlers_def config_or_empty_def remove_unconfigured_def remove_gone_patterns_def nothing_unconfigured Let_def)
qed

lemma dropped_pattern_stays:
  assumes "config_loaded w" "sym_profiling w = concrete p" "sym_metrics w = concrete m"
    "\<And>s. s \<in> set (applied_symbols w) \<Longrightarrow> dict_has s (concrete p) \<or> dict_has s (concrete m)"
  shows "load_handlers M (Some p) (Some m) on w = (True, w\<lparr>pat_profiling := patterns p, pat_metrics := patterns m, pattern_cache := []\<rparr>)"
proof -
  have none: "filter (\<lambda>s. \<not> dict_has s (concrete p) \<and> \<not> dict_has s (concrete m)) (applied_symbols w) = []"
    using assms(4) by (auto simp: filter_empty_conv)
  then show ?thesis using assms(1-3) by (cases w) (simp add: load_handlers_def config_or_empty_def remove_unconfigured_def remove_gone_patterns_def nothing_unconfigured Let_def none)
qed

end
