(* ===== verification/Prof_Config.thy ===== *)
theory Prof_Config
  imports Prof_Control_Props Yaml
begin

text \<open>
  From the entries of a configuration file to hookers and patterns: \<open>ConfigLoader\<close> of \<^verbatim>\<open>ms_service_profiler/patcher/core/config_loader.py\<close>
  and the tracing metadata of \<^verbatim>\<open>trace_hook.py\<close>.

  The version limits and the caller filter of an entry are strings when they are given. Making a timer, the handler of a
  metric or the wrapper of a trace, \<^verbatim>\<open>json.dumps\<close> and importing a function are parameters. Only ASCII letters have an
  upper case.
\<close>

section \<open>Parsing symbols\<close>

definition is_pattern_symbol :: "string \<Rightarrow> bool" where
  "is_pattern_symbol s \<longleftrightarrow> CHR ''*'' \<in> set s"

definition parse_symbol_pattern :: "string \<Rightarrow> (string \<times> string \<times> string) option" where
  "parse_symbol_pattern s =
     (case split1 (CHR '':'') s of
        None \<Rightarrow> None
      | Some (m, rest) \<Rightarrow>
          (case split1 (CHR ''.'') (strip rest) of
             None \<Rightarrow> None
           | Some (c, f) \<Rightarrow>
               (let f' = strip f in if f' = [] \<or> CHR ''*'' \<in> set f' then None else Some (strip m, strip c, f'))))"

text \<open>The module, the method and the class; a path without a colon has an empty module.\<close>

definition parse_symbol_path :: "string \<Rightarrow> string \<times> string \<times> string option" where
  "parse_symbol_path s =
     (case split1 (CHR '':'') s of
        None \<Rightarrow> ([], [], None)
      | Some (m, r) \<Rightarrow> (case split1 (CHR ''.'') r of None \<Rightarrow> (m, r, None) | Some (c, f) \<Rightarrow> (m, f, Some c)))"

definition build_hook_points :: "string \<Rightarrow> string \<Rightarrow> string option \<Rightarrow> point list" where
  "build_hook_points m f c =
     [(m, case c of None \<Rightarrow> f | Some c \<Rightarrow> if c = [] then f else c @ ''.'' @ f)]"

section \<open>Tracing metadata\<close>

record trace_spec =
  ts_name :: string
  ts_domain :: string
  ts_kind :: string
  ts_adapter :: string

definition SUPPORTED_KINDS :: "string list" where
  "SUPPORTED_KINDS = [''INTERNAL'', ''SERVER'', ''CLIENT'', ''PRODUCER'', ''CONSUMER'']"

definition SUPPORTED_ADAPTERS :: "string list" where
  "SUPPORTED_ADAPTERS = [''call'', ''request'', ''request_context'', ''schedule'', ''model'', ''output'']"

datatype spec_error = SpecValueError | SpecTypeError

text \<open>An adapter that is a list or a mapping cannot be looked up in the set: \<^verbatim>\<open>TypeError\<close>.\<close>

definition parse_hook_trace_spec :: "(yaml \<Rightarrow> string) \<Rightarrow> ymap \<Rightarrow> string \<Rightarrow> spec_error + trace_spec option" where
  "parse_hook_trace_spec str_of item meth =
     (case yget ''trace'' item of
        YNull \<Rightarrow> Inr None
      | YBool False \<Rightarrow> Inr None
      | v \<Rightarrow>
          (case (if v = YBool True then YMap [] else v) of
             YMap raw \<Rightarrow>
               (let name = yget_default ''name'' (yget_default ''name'' (YStr meth) item) raw;
                    domain = yget_default ''domain'' (yget_default ''domain'' (YStr ''Tracing'') item) raw;
                    kind = upper (str_of (yget_default ''kind'' (YStr ''INTERNAL'') raw));
                    adapter = yget_default ''adapter'' (YStr ''call'') raw
                in case (name, domain) of
                     (YStr n, YStr d) \<Rightarrow>
                       if n = [] \<or> d = [] \<or> kind \<notin> set SUPPORTED_KINDS then Inl SpecValueError
                       else (case adapter of
                               YStr a \<Rightarrow>
                                 if a \<in> set SUPPORTED_ADAPTERS
                                 then Inr (Some \<lparr>ts_name = n, ts_domain = d, ts_kind = kind, ts_adapter = a\<rparr>) else Inl SpecValueError
                             | YList xs \<Rightarrow> Inl SpecTypeError
                             | YMap d' \<Rightarrow> Inl SpecTypeError
                             | _ \<Rightarrow> Inl SpecValueError)
                   | _ \<Rightarrow> Inl SpecValueError)
           | _ \<Rightarrow> Inl SpecValueError))"

section \<open>Handlers\<close>

record 'h loader =
  lo_context :: "'h \<Rightarrow> 'h option"
  dumps :: "ymap \<Rightarrow> string option"
  str_of :: "yaml \<Rightarrow> string"
  make_timer :: "yaml \<Rightarrow> yaml \<Rightarrow> yaml \<Rightarrow> 'h"
  wrap_with_metrics :: "ymap \<Rightarrow> 'h"
  profiling_noop :: 'h
  trace_around :: "trace_spec \<Rightarrow> 'h"
  import_callable :: "string \<Rightarrow> string \<Rightarrow> 'h option"
  func_name :: "'h \<Rightarrow> string"
  lo_version :: "string option"

text \<open>A handler \<^verbatim>\<open>module:function\<close> of an allowed module that can be imported, or \<open>None\<close>.\<close>

definition imported_handler :: "'h loader \<Rightarrow> yaml \<Rightarrow> 'h option" where
  "imported_handler L v =
     (case v of
        YStr s \<Rightarrow>
          (case split1 (CHR '':'') s of
             None \<Rightarrow> None
           | Some (m, f) \<Rightarrow> if is_allowed_handler_module m [] then import_callable L m f else None)
      | _ \<Rightarrow> None)"

definition default_timer :: "'h loader \<Rightarrow> ymap \<Rightarrow> string \<Rightarrow> 'h" where
  "default_timer L item meth =
     make_timer L (yget_default ''domain'' (YStr ''Default'') item) (yget_default ''name'' (YStr meth) item) (yget ''attributes'' item)"

definition resolve_handler_func :: "'h loader \<Rightarrow> ymap \<Rightarrow> string \<Rightarrow> 'h" where
  "resolve_handler_func L item meth =
     (let v = yget ''handler'' item
      in if \<not> truthy v then default_timer L item meth
         else case imported_handler L v of Some h \<Rightarrow> h | None \<Rightarrow> default_timer L item meth)"

definition resolve_metrics_handler_func :: "'h loader \<Rightarrow> ymap \<Rightarrow> 'h" where
  "resolve_metrics_handler_func L item =
     (let v = yget ''handler'' item
      in if \<not> truthy v then wrap_with_metrics L item
         else case imported_handler L v of Some h \<Rightarrow> h | None \<Rightarrow> wrap_with_metrics L item)"

section \<open>Loading\<close>

text \<open>\<open>_make_trace_factory\<close>: an invalid specification is skipped, and so is a second one for a symbol.\<close>

definition make_trace_factory ::
  "'h loader \<Rightarrow> ymap \<Rightarrow> string \<Rightarrow> string \<Rightarrow> bool \<Rightarrow> string list \<Rightarrow> ('h option \<times> string list) option" where
  "make_trace_factory L item meth path tracing traced =
     (if \<not> tracing then Some (None, traced)
      else case parse_hook_trace_spec (str_of L) item meth of
             Inl SpecTypeError \<Rightarrow> None
           | Inl SpecValueError \<Rightarrow> Some (None, traced)
           | Inr None \<Rightarrow> Some (None, traced)
           | Inr (Some spec) \<Rightarrow>
               if path \<in> set traced then Some (None, traced) else Some (Some (trace_around L spec), add_symbol path traced))"

definition text_field :: "string \<Rightarrow> ymap \<Rightarrow> string option" where
  "text_field k item = (case yget k item of YStr s \<Rightarrow> Some s | _ \<Rightarrow> None)"

fun occurs :: "string \<Rightarrow> string \<Rightarrow> bool" where
  "occurs p [] \<longleftrightarrow> p = []"
| "occurs p (c # s) \<longleftrightarrow> startswith (c # s) p \<or> occurs p s"

definition mentions_expr :: "'h loader \<Rightarrow> ymap \<Rightarrow> bool option" where
  "mentions_expr L item = map_option (\<lambda>t. occurs ''expr'' t \<or> occurs ''handler'' t) (dumps L item)"

record 'h loading =
  ld_config :: "'h hook_config"
  ld_traced :: "string list"

definition make_hooker ::
  "'h loader \<Rightarrow> ymap \<Rightarrow> string \<Rightarrow> point list \<Rightarrow> 'h \<Rightarrow> bool \<Rightarrow> 'h option \<Rightarrow> 'h hooker" where
  "make_hooker L item path points f locs around =
     new_config_hooker (lo_context L) points [f] (func_name L f) path (text_field ''min_version'' item) (text_field ''max_version'' item)
       (text_field ''caller_filter'' item) (lo_version L) locs around"

definition make_pattern ::
  "'h loader \<Rightarrow> ymap \<Rightarrow> string \<Rightarrow> string \<times> string \<times> string \<Rightarrow> 'h \<Rightarrow> bool \<Rightarrow> 'h option \<Rightarrow> 'h pattern_entry" where
  "make_pattern L item path parsed f locs around =
     (case parsed of (m, c, meth) \<Rightarrow>
        \<lparr>module_pattern = m, method_name = meth, class_pattern = c, handler_func = f, handler_name = func_name L f,
         entry_min = text_field ''min_version'' item, entry_max = text_field ''max_version'' item, entry_filter = text_field ''caller_filter'' item,
         entry_locals = locs, pattern_id = path, entry_around = around\<rparr>)"

definition add_pattern :: "'h pattern_entry \<Rightarrow> 'h loading \<Rightarrow> 'h loading" where
  "add_pattern e ld = ld\<lparr>ld_config := (ld_config ld)\<lparr>patterns := patterns (ld_config ld) @ [e]\<rparr>\<rparr>"

definition add_hooker :: "string \<Rightarrow> 'h hooker \<Rightarrow> 'h loading \<Rightarrow> 'h loading" where
  "add_hooker path h ld =
     ld\<lparr>ld_config := (ld_config ld)\<lparr>concrete := dict_set path (listed (concrete (ld_config ld)) path @ [h]) (concrete (ld_config ld))\<rparr>\<rparr>"

text \<open>
  One entry of \<open>load_profiling\<close>, for a symbol that is a string; \<open>None\<close> is an exception that ends the loading. With tracing alone
  an entry without a trace is left out.
\<close>

definition profiling_item :: "'h loader \<Rightarrow> bool \<Rightarrow> bool \<Rightarrow> ymap \<Rightarrow> string \<Rightarrow> 'h loading \<Rightarrow> 'h loading option" where
  "profiling_item L profiling tracing item path ld =
     (case (if profiling then mentions_expr L item else Some False) of
        None \<Rightarrow> None
      | Some locs \<Rightarrow>
          if is_pattern_symbol path
          then (case parse_symbol_pattern path of
                  None \<Rightarrow> Some ld
                | Some (m, c, meth) \<Rightarrow>
                    (case make_trace_factory L item meth path tracing (ld_traced ld) of
                       None \<Rightarrow> None
                     | Some (around, traced) \<Rightarrow>
                         let f = (if profiling then resolve_handler_func L item meth else profiling_noop L); ld1 = ld\<lparr>ld_traced := traced\<rparr>
                         in if \<not> profiling \<and> around = None then Some ld1
                            else Some (add_pattern (make_pattern L item path (m, c, meth) f locs around) ld1)))
          else (case parse_symbol_path path of
                  (m, meth, c) \<Rightarrow>
                    if m = [] then Some ld
                    else case make_trace_factory L item meth path tracing (ld_traced ld) of
                           None \<Rightarrow> None
                         | Some (around, traced) \<Rightarrow>
                             let f = (if profiling then resolve_handler_func L item meth else profiling_noop L); ld1 = ld\<lparr>ld_traced := traced\<rparr>
                             in if \<not> profiling \<and> around = None then Some ld1
                                else Some (add_hooker path (make_hooker L item path (build_hook_points m meth c) f locs around) ld1)))"

definition metrics_item :: "'h loader \<Rightarrow> ymap \<Rightarrow> string \<Rightarrow> 'h loading \<Rightarrow> 'h loading option" where
  "metrics_item L item path ld =
     (case mentions_expr L item of
        None \<Rightarrow> None
      | Some locs \<Rightarrow>
          if is_pattern_symbol path
          then (case parse_symbol_pattern path of
                  None \<Rightarrow> Some ld
                | Some p \<Rightarrow> Some (add_pattern (make_pattern L item path p (resolve_metrics_handler_func L item) locs None) ld))
          else (case parse_symbol_path path of
                  (m, meth, c) \<Rightarrow>
                    if m = [] then Some ld
                    else Some (add_hooker path
                           (make_hooker L item path (build_hook_points m meth c) (resolve_metrics_handler_func L item) locs None) ld)))"

text \<open>
  An entry: it is skipped when it is no mapping or has no symbol. A symbol that is no string: a container without a colon in it
  is skipped, anything else raises.
\<close>

definition load_item :: "'h loader \<Rightarrow> bool \<Rightarrow> (ymap \<Rightarrow> string \<Rightarrow> 'h loading \<Rightarrow> 'h loading option) \<Rightarrow> yaml \<Rightarrow> 'h loading \<Rightarrow> 'h loading option" where
  "load_item L dumped step v ld =
     (case v of
        YMap item \<Rightarrow>
          (case dict_get item ''symbol'' of
             None \<Rightarrow> Some ld
           | Some (YStr path) \<Rightarrow> step item path ld
           | Some s \<Rightarrow>
               if dumped \<and> dumps L item = None then None
               else (case s of
                       YList xs \<Rightarrow> if YStr '':'' \<in> set xs then None else Some ld
                     | YMap d \<Rightarrow> if dict_has '':'' d then None else Some ld
                     | _ \<Rightarrow> None))
      | _ \<Rightarrow> Some ld)"

fun load_items :: "(yaml \<Rightarrow> 'h loading \<Rightarrow> 'h loading option) \<Rightarrow> yaml list \<Rightarrow> 'h loading \<Rightarrow> 'h loading option" where
  "load_items step [] ld = Some ld"
| "load_items step (v # vs) ld = (case step v ld of None \<Rightarrow> None | Some ld' \<Rightarrow> load_items step vs ld')"

text \<open>\<open>raw\<close> is what \<open>load_yaml_config\<close> returned: the list of the file, empty for another document, or nothing.\<close>

definition load_yaml_config :: "yaml option \<Rightarrow> yaml list option" where
  "load_yaml_config doc = (case doc of None \<Rightarrow> None | Some YNull \<Rightarrow> None | Some (YList vs) \<Rightarrow> Some vs | Some _ \<Rightarrow> Some [])"

definition no_loading :: "'h loading" where
  "no_loading = \<lparr>ld_config = empty_config, ld_traced = []\<rparr>"

definition load_profiling :: "'h loader \<Rightarrow> bool \<Rightarrow> bool \<Rightarrow> yaml option \<Rightarrow> 'h hook_config option" where
  "load_profiling L profiling tracing doc =
     (case load_yaml_config doc of
        None \<Rightarrow> Some empty_config
      | Some vs \<Rightarrow> map_option ld_config (load_items (load_item L profiling (profiling_item L profiling tracing)) vs no_loading))"

definition load_metrics :: "'h loader \<Rightarrow> yaml option \<Rightarrow> 'h hook_config option" where
  "load_metrics L doc =
     (case load_yaml_config doc of
        None \<Rightarrow> Some empty_config
      | Some vs \<Rightarrow> map_option ld_config (load_items (load_item L True (metrics_item L)) vs no_loading))"

section \<open>What a file configures\<close>

text \<open>Without tracing: the hookers that one entry of the file contributes to the symbol \<open>s\<close>, and its pattern.\<close>

definition entry_hookers :: "'h loader \<Rightarrow> string \<Rightarrow> yaml \<Rightarrow> 'h hooker list" where
  "entry_hookers L s v =
     (case (v, parse_symbol_path s) of
        (YMap item, (m, meth, c)) \<Rightarrow>
          if dict_get item ''symbol'' = Some (YStr s) \<and> \<not> is_pattern_symbol s \<and> m \<noteq> []
          then [make_hooker L item s (build_hook_points m meth c) (resolve_handler_func L item meth) (mentions_expr L item = Some True) None]
          else []
      | _ \<Rightarrow> [])"

definition entry_patterns :: "'h loader \<Rightarrow> yaml \<Rightarrow> 'h pattern_entry list" where
  "entry_patterns L v =
     (case v of
        YMap item \<Rightarrow>
          (case dict_get item ''symbol'' of
             Some (YStr s) \<Rightarrow>
               (case (is_pattern_symbol s, parse_symbol_pattern s) of
                  (True, Some (m, c, meth)) \<Rightarrow>
                    [make_pattern L item s (m, c, meth) (resolve_handler_func L item meth) (mentions_expr L item = Some True) None]
                | _ \<Rightarrow> [])
           | _ \<Rightarrow> [])
      | _ \<Rightarrow> [])"

lemma listed_dict_set: "listed (dict_set k v d) s = (if s = k then v else listed d s)"
  by (simp add: listed_def)

lemma add_hooker_view:
  "listed (concrete (ld_config (add_hooker s h ld))) t =
     (if t = s then listed (concrete (ld_config ld)) t @ [h] else listed (concrete (ld_config ld)) t)"
  "patterns (ld_config (add_hooker s h ld)) = patterns (ld_config ld)"
  "dict_ok (concrete (ld_config ld)) \<Longrightarrow> dict_ok (concrete (ld_config (add_hooker s h ld)))"
  "ld_traced (add_hooker s h ld) = ld_traced ld"
  by (simp_all add: add_hooker_def listed_dict_set)

lemma add_pattern_view:
  "concrete (ld_config (add_pattern e ld)) = concrete (ld_config ld)"
  "patterns (ld_config (add_pattern e ld)) = patterns (ld_config ld) @ [e]"
  "ld_traced (add_pattern e ld) = ld_traced ld"
  by (simp_all add: add_pattern_def)

lemmas loading_views = add_hooker_view add_pattern_view

text \<open>One entry adds what it contributes, and leaves everything else as it is.\<close>

definition adds_entry :: "'h loader \<Rightarrow> yaml \<Rightarrow> 'h loading \<Rightarrow> 'h loading \<Rightarrow> bool" where
  "adds_entry L v ld ld' \<longleftrightarrow>
     (\<forall>s. listed (concrete (ld_config ld')) s = listed (concrete (ld_config ld)) s @ entry_hookers L s v) \<and>
     patterns (ld_config ld') = patterns (ld_config ld) @ entry_patterns L v \<and>
     (dict_ok (concrete (ld_config ld)) \<longrightarrow> dict_ok (concrete (ld_config ld')))"

lemma adds_nothing: "(\<And>s. entry_hookers L s v = []) \<Longrightarrow> entry_patterns L v = [] \<Longrightarrow> adds_entry L v ld ld"
  by (simp add: adds_entry_def)

lemma no_trace_factory [simp]: "make_trace_factory L item meth path False traced = Some (None, traced)"
  by (simp add: make_trace_factory_def)

lemma same_traced [simp]: "ld\<lparr>ld_traced := ld_traced ld\<rparr> = ld"
  by (cases ld) simp

lemma profiling_item_adds:
  assumes "profiling_item L True False item path ld = Some ld'" and sym: "dict_get item ''symbol'' = Some (YStr path)"
  shows "adds_entry L (YMap item) ld ld'"
proof -
  from assms(1) obtain locs where locs: "mentions_expr L item = Some locs" by (auto simp: profiling_item_def split: option.splits)
  have other: "entry_hookers L s (YMap item) = []" if "s \<noteq> path" for s using that sym by (simp add: entry_hookers_def split: prod.split)
  obtain m meth c where p: "parse_symbol_path path = (m, meth, c)" by (metis prod_cases3)
  show ?thesis
  proof (cases "is_pattern_symbol path")
    case True
    then have "entry_hookers L s (YMap item) = []" for s using sym by (cases "s = path") (simp_all add: other entry_hookers_def p)
    then show ?thesis using assms(1) True
      by (auto simp: profiling_item_def locs adds_entry_def entry_patterns_def sym loading_views Let_def split: option.splits)
  next
    case False
    then have pats: "entry_patterns L (YMap item) = []" by (simp add: entry_patterns_def sym)
    show ?thesis
    proof (cases "m = []")
      case True
      then have "entry_hookers L s (YMap item) = []" for s using sym by (cases "s = path") (simp_all add: other entry_hookers_def p)
      then show ?thesis using assms(1) True False by (simp add: profiling_item_def locs p adds_entry_def pats)
    next
      case ne: False
      then have "entry_hookers L path (YMap item) =
          [make_hooker L item path (build_hook_points m meth c) (resolve_handler_func L item meth) locs None]"
        using False sym by (simp add: entry_hookers_def p locs)
      moreover have "ld' = add_hooker path (make_hooker L item path (build_hook_points m meth c) (resolve_handler_func L item meth) locs None) ld"
        using assms(1) False ne by (simp add: profiling_item_def locs p Let_def)
      ultimately show ?thesis by (simp add: adds_entry_def loading_views pats other)
    qed
  qed
qed

lemma load_item_adds:
  assumes "load_item L True (profiling_item L True False) v ld = Some ld'"
  shows "adds_entry L v ld ld'"
proof -
  have none: "adds_entry L v ld ld" if "\<And>item s. v = YMap item \<Longrightarrow> dict_get item ''symbol'' \<noteq> Some (YStr s)"
    using that by (intro adds_nothing) (auto simp: entry_hookers_def entry_patterns_def split: yaml.split prod.split option.split)
  show ?thesis
  proof (cases "\<exists>item s. v = YMap item \<and> dict_get item ''symbol'' = Some (YStr s)")
    case True
    then show ?thesis using assms by (auto simp: load_item_def intro: profiling_item_adds)
  next
    case False
    then have "ld' = ld" using assms by (auto simp: load_item_def split: yaml.splits option.splits if_splits)
    then show ?thesis using none False by blast
  qed
qed

lemma load_items_add:
  "load_items (load_item L True (profiling_item L True False)) vs ld = Some ld' \<Longrightarrow>
   (\<forall>s. listed (concrete (ld_config ld')) s = listed (concrete (ld_config ld)) s @ concat (map (entry_hookers L s) vs)) \<and>
   patterns (ld_config ld') = patterns (ld_config ld) @ concat (map (entry_patterns L) vs) \<and>
   (dict_ok (concrete (ld_config ld)) \<longrightarrow> dict_ok (concrete (ld_config ld')))"
proof (induction vs arbitrary: ld)
  case (Cons v vs)
  from Cons.prems obtain ld1 where ld1: "load_item L True (profiling_item L True False) v ld = Some ld1"
    "load_items (load_item L True (profiling_item L True False)) vs ld1 = Some ld'" by (auto split: option.splits)
  then show ?case using load_item_adds[OF ld1(1)] Cons.IH[OF ld1(2)] by (simp add: adds_entry_def)
qed simp

lemma loaded_entries:
  assumes "load_profiling L True False (Some (YList vs)) = Some p"
  shows "dict_ok (concrete p)" "listed (concrete p) s = concat (map (entry_hookers L s) vs)" "patterns p = concat (map (entry_patterns L) vs)"
  using assms load_items_add[of L vs no_loading]
  by (auto simp: load_profiling_def load_yaml_config_def no_loading_def empty_config_def listed_def)

lemma entry_symbol: "h \<in> set (entry_hookers L s v) \<Longrightarrow> symbol_path h = s"
  by (auto simp: entry_hookers_def make_hooker_def new_config_hooker_def split: yaml.splits prod.splits if_splits)


lemma listed_unknown: "k \<notin> set (dict_keys d) \<Longrightarrow> listed d k = []"
  by (cases "dict_get d k") (auto simp: listed_def dest: map_of_SomeD intro: rev_image_eqI)

lemma loaded_wf:
  assumes "load_profiling L True False (Some (YList vs)) = Some p"
    and "\<And>v. v \<in> set vs \<Longrightarrow> entry_patterns L v = []"
    and "\<And>v s. v \<in> set vs \<Longrightarrow> supported_all M (entry_hookers L s v)"
  shows "wf_config M p"
  unfolding wf_config_def
proof (intro conjI allI impI)
  fix s hs assume "dict_get (concrete p) s = Some hs"
  then have hs: "hs = concat (map (entry_hookers L s) vs)" using loaded_entries(2)[OF assms(1), of s] by (simp add: listed_def)
  show "supported_all M hs" using assms(3) by (auto simp: hs supported_all_def)
  show "\<forall>h\<in>set hs. symbol_path h = s" by (auto simp: hs dest: entry_symbol)
qed (use loaded_entries[OF assms(1)] assms(2) in auto)

lemma start_without_handlers:
  "concrete p = [] \<Longrightarrow> patterns p = [] \<Longrightarrow> on_start M (Some (Some p, None)) (fresh_controller slots) = fresh_controller slots"
  by (simp add: on_start_def enable_def config_has_handlers_def fresh_controller_def)

text \<open>The one hook point of a symbol.\<close>

definition symbol_points :: "string \<Rightarrow> point list" where
  "symbol_points s = (case parse_symbol_path s of (m, meth, c) \<Rightarrow> build_hook_points m meth c)"

lemma entry_points: "h \<in> set (entry_hookers L s v) \<Longrightarrow> hook_list h = symbol_points s"
  by (auto simp: entry_hookers_def make_hooker_def new_config_hooker_def symbol_points_def split: yaml.splits prod.splits if_splits)

text \<open>
  Property C33. From the file to the hooks, for a file whose entries name no patterns and only versions that the framework has,
  without tracing, when the metric package is there and every chain can be built and installed. After a first start with what was
  loaded from the file, a symbol of a loaded module has as handlers the hookers that its entries describe, of those with equal names
  the first, and another symbol has none. If the point that the symbol names has one of the allowed prefixes and
  can be resolved, the symbol has exactly one node there, with the hook composed of these hookers, in an order that Python's
  iteration over sets decides.
\<close>

theorem file_entries_hooked:
  assumes "chains_work (rt M)" and load: "load_profiling L True False (Some (YList vs)) = Some p"
    and "\<And>v. v \<in> set vs \<Longrightarrow> entry_patterns L v = []"
    and "\<And>v s. v \<in> set vs \<Longrightarrow> supported_all M (entry_hookers L s v)"
  shows "let c = on_start M (Some (Some p, None)) (fresh_controller slots); hs = hooker_set (concat (map (entry_hookers L s) vs))
    in hooks_ok (rt M) (ctl_hooks c) \<and>
       (if dict_has (module_of s) (modules M) \<and> hs \<noteq> []
        then handler_set (ctl_hooks c) s = set hs \<and> (\<exists>gs. mset gs = mset hs \<and> hooked_with (rt M) (ctl_hooks c) s (symbol_points s) gs)
        else handler_set (ctl_hooks c) s = {} \<and> (\<forall>q i. node_at (ctl_hooks c) q i \<longrightarrow> \<not> owner (ctl_hooks c) q i s))"
proof (cases "concrete p = []")
  case True
  have e: "patterns p = []" "concat (map (entry_hookers L s) vs) = []"
    using loaded_entries(2)[OF load, of s] loaded_entries(3)[OF load] assms(3) True by (simp_all add: listed_def)
  have "hooks_ok (rt M) (ctl_hooks (fresh_controller slots))" "handler_set (ctl_hooks (fresh_controller slots)) s = {}"
    "\<not> owner (ctl_hooks (fresh_controller slots)) q i s" for q i
    by (simp_all add: fresh_controller_def new_watcher_def no_hooks_ok handlers_of_none handler_set_def)
      (simp add: owner_def no_hooks_def)
  then show ?thesis unfolding start_without_handlers[OF True e(1)] e(2) by (simp add: Let_def hooker_set_def)
next
  case False
  have wf: "wf_config M p" by (rule loaded_wf[OF load assms(3,4)])
  let ?hk = "ctl_hooks (snd (enable M (Some p) None (fresh_controller slots)))" and ?hs = "concat (map (entry_hookers L s) vs)"
  have listed: "listed (concrete p) s = ?hs" by (rule loaded_entries(2)[OF load])
  have here: "s \<in> loaded_symbols M p \<longleftrightarrow> dict_has (module_of s) (modules M)" if "?hs \<noteq> []"
    using that listed_unknown[of s "concrete p"] listed by (auto simp: loaded_symbols_def)
  have ok: "hooks_ok (rt M) ?hk" and inst: "installed_for M p ?hk" using enable_installs[OF assms(1) wf False, of slots] by (simp_all add: Let_def)
  have set: "handler_set ?hk s = (if s \<in> loaded_symbols M p then set (hooker_set ?hs) else {})"
    using inst listed by (simp add: installed_for_def)
  show ?thesis
  proof (cases "dict_has (module_of s) (modules M) \<and> hooker_set ?hs \<noteq> []")
    case True
    then have s: "s \<in> loaded_symbols M p" "?hs \<noteq> []" using here by (simp_all add: hooker_set_empty)
    then obtain h gs where h: "h \<in> set ?hs" "mset gs = mset (hooker_set ?hs)" "hooked_with (rt M) ?hk s (hook_list h) gs"
      using inst unfolding installed_for_def listed[symmetric] by blast
    have "hook_list h = symbol_points s" using h(1) by (auto dest: entry_points)
    then show ?thesis using True s set h(2,3) ok by (auto simp: on_start_def Let_def)
  next
    case none: False
    then have "handler_set ?hk s = {}" using set here by (cases "?hs = []") (auto simp: hooker_set_empty)
    moreover have "\<not> owner ?hk q i s" for q i
      using calculation manager_okD(2)[OF hooks_okD(3)[OF ok]] by (auto simp: owner_def handler_set_def handlers_of_def)
    ultimately show ?thesis unfolding on_start_def option.case prod.case Let_def using none ok by (simp only: if_False) blast
  qed
qed

definition small_loader :: "nat loader" where
  "small_loader = \<lparr>lo_context = (\<lambda>_. None), dumps = (\<lambda>d. Some (concat (dict_keys d))), str_of = (\<lambda>v. case v of YStr s \<Rightarrow> s | _ \<Rightarrow> []),
     make_timer = (\<lambda>d n a. 7), wrap_with_metrics = (\<lambda>_. 5), profiling_noop = 6, trace_around = (\<lambda>_. 9),
     import_callable = (\<lambda>m f. if f = ''count'' then Some 8 else None), func_name = (\<lambda>h. if h = 7 then ''_default'' else ''count''),
     lo_version = Some ''0.9.2''\<rparr>"

definition timer_entry :: "string \<Rightarrow> yaml" where
  "timer_entry s = YMap [(''symbol'', YStr s), (''domain'', YStr ''Engine''), (''trace'', YBool True)]"

definition count_entry :: "string \<Rightarrow> yaml" where
  "count_entry s = YMap [(''symbol'', YStr s), (''handler'', YStr ''ms_service_profiler.patcher.h:count''), (''trace'', YMap [(''kind'', YStr ''client'')])]"

definition small_file :: "yaml list" where
  "small_file = [timer_entry ''vllm.a:C.f'', YMap [(''name'', YStr ''x'')], timer_entry ''vllm.b:g'', count_entry ''vllm.a:C.f'', timer_entry ''vllm.a:C.f'']"

definition installed_names :: "nat machine \<Rightarrow> yaml list \<Rightarrow> string \<Rightarrow> string set" where
  "installed_names M vs s =
     (case load_profiling small_loader True False (Some (YList vs)) of
        None \<Rightarrow> {}
      | Some p \<Rightarrow> applied_hook_func_name `
          handler_set (ctl_hooks (on_start M (Some (Some p, None)) (fresh_controller (\<lambda>_. (PlainSlot, Original))))) s)"

text \<open>A method with a timer, a counter and a second timer in a loaded module, an entry without a symbol, a function of another module.\<close>

theorem file_entries_hooked_witness:
  "installed_names one_module small_file ''vllm.a:C.f'' = {''_default'', ''count''} \<and> installed_names one_module small_file ''vllm.b:g'' = {}"
proof -
  obtain p where p: "load_profiling small_loader True False (Some (YList small_file)) = Some p"
  proof (cases "load_profiling small_loader True False (Some (YList small_file))")
    case None
    moreover have "load_profiling small_loader True False (Some (YList small_file)) \<noteq> None" by code_simp
    ultimately show ?thesis by simp
  qed
  have pats: "entry_patterns small_loader v = []" if "v \<in> set small_file" for v
    using that by (auto simp: small_file_def timer_entry_def count_entry_def entry_patterns_def is_pattern_symbol_def)
  have sup: "supported_all one_module (entry_hookers small_loader s v)" for v s
    by (auto simp: supported_all_def one_module_def chain_runtime_def support_version_def split: option.split)
  have works: "chains_work (rt one_module)" by (simp add: one_module_def chain_runtime_works)
  note installed = file_entries_hooked[OF works p pats sup, of "\<lambda>_. (PlainSlot, Original)", unfolded Let_def, THEN conjunct2]
  have names: "map applied_hook_func_name (hooker_set (concat (map (entry_hookers small_loader ''vllm.a:C.f'') small_file))) = [''_default'', ''count'']"
    by code_simp
  have "applied_hook_func_name ` set (hooker_set (concat (map (entry_hookers small_loader ''vllm.a:C.f'') small_file))) = {''_default'', ''count''}"
    unfolding set_map[symmetric] names by simp
  moreover have "hooker_set (concat (map (entry_hookers small_loader ''vllm.a:C.f'') small_file)) \<noteq> []" using names by auto
  moreover have "dict_has (module_of ''vllm.a:C.f'') (modules one_module)" "\<not> dict_has (module_of ''vllm.b:g'') (modules one_module)"
    by code_simp+
  ultimately show ?thesis using installed[of "''vllm.a:C.f''"] installed[of "''vllm.b:g''"] by (simp add: installed_names_def p)
qed

section \<open>Tracing\<close>

definition traced_hookers :: "string \<Rightarrow> 'h hook_config \<Rightarrow> 'h hooker list" where
  "traced_hookers s p = filter (\<lambda>h. around_hook_factory h \<noteq> None) (listed (concrete p) s)"

definition traced_patterns :: "string \<Rightarrow> 'h hook_config \<Rightarrow> 'h pattern_entry list" where
  "traced_patterns s p = filter (\<lambda>e. pattern_id e = s \<and> entry_around e \<noteq> None) (patterns p)"

definition traces_counted :: "bool \<Rightarrow> 'h loading \<Rightarrow> bool" where
  "traces_counted profiling ld \<longleftrightarrow>
     (\<forall>s. length (traced_hookers s (ld_config ld)) + length (traced_patterns s (ld_config ld)) = (if s \<in> set (ld_traced ld) then 1 else 0) \<and>
       (profiling \<or> traced_hookers s (ld_config ld) = listed (concrete (ld_config ld)) s))"

lemma trace_factory_counts:
  assumes "make_trace_factory L item meth path tracing traced = Some (around, traced')"
  shows "around = None \<and> traced' = traced \<or> path \<notin> set traced \<and> around \<noteq> None \<and> traced' = traced @ [path]"
  using assms by (auto simp: make_trace_factory_def add_symbol_def split: if_splits sum.splits spec_error.splits option.splits)

lemma around_hooker [simp]: "around_hook_factory (make_hooker L item path points f locs around) = around"
  by (simp add: make_hooker_def new_config_hooker_def)

lemma around_pattern [simp]:
  "entry_around (make_pattern L item path q f locs around) = around" "pattern_id (make_pattern L item path q f locs around) = path"
  by (simp_all add: make_pattern_def split: prod.split)

lemma traced_views:
  "traced_hookers t (ld_config (add_hooker s h ld)) = traced_hookers t (ld_config ld) @ (if t = s \<and> around_hook_factory h \<noteq> None then [h] else [])"
  "traced_patterns t (ld_config (add_hooker s h ld)) = traced_patterns t (ld_config ld)"
  "traced_hookers t (ld_config (add_pattern e ld)) = traced_hookers t (ld_config ld)"
  "traced_patterns t (ld_config (add_pattern e ld)) =
     traced_patterns t (ld_config ld) @ (if pattern_id e = t \<and> entry_around e \<noteq> None then [e] else [])"
  by (auto simp: traced_hookers_def traced_patterns_def loading_views)

lemma add_traced_hooker:
  assumes ok: "traces_counted profiling ld" and f: "make_trace_factory L item meth path tracing (ld_traced ld) = Some (around, traced)"
    and keep: "profiling \<or> around \<noteq> None"
  shows "traces_counted profiling (add_hooker path (make_hooker L item path points f locs around) (ld\<lparr>ld_traced := traced\<rparr>))"
  unfolding traces_counted_def
proof
  fix t
  show "length (traced_hookers t (ld_config (add_hooker path (make_hooker L item path points f locs around) (ld\<lparr>ld_traced := traced\<rparr>)))) +
      length (traced_patterns t (ld_config (add_hooker path (make_hooker L item path points f locs around) (ld\<lparr>ld_traced := traced\<rparr>)))) =
      (if t \<in> set (ld_traced (add_hooker path (make_hooker L item path points f locs around) (ld\<lparr>ld_traced := traced\<rparr>))) then 1 else 0) \<and>
    (profiling \<or> traced_hookers t (ld_config (add_hooker path (make_hooker L item path points f locs around) (ld\<lparr>ld_traced := traced\<rparr>))) =
       listed (concrete (ld_config (add_hooker path (make_hooker L item path points f locs around) (ld\<lparr>ld_traced := traced\<rparr>)))) t)"
    using spec[OF ok[unfolded traces_counted_def], of t] keep trace_factory_counts[OF f]
    by (cases "t = path") (auto simp: traced_views loading_views)
qed

lemma add_traced_pattern:
  assumes ok: "traces_counted profiling ld" and f: "make_trace_factory L item meth path tracing (ld_traced ld) = Some (around, traced)"
  shows "traces_counted profiling (add_pattern (make_pattern L item path q f locs around) (ld\<lparr>ld_traced := traced\<rparr>))"
  unfolding traces_counted_def
proof
  fix t
  show "length (traced_hookers t (ld_config (add_pattern (make_pattern L item path q f locs around) (ld\<lparr>ld_traced := traced\<rparr>)))) +
      length (traced_patterns t (ld_config (add_pattern (make_pattern L item path q f locs around) (ld\<lparr>ld_traced := traced\<rparr>)))) =
      (if t \<in> set (ld_traced (add_pattern (make_pattern L item path q f locs around) (ld\<lparr>ld_traced := traced\<rparr>))) then 1 else 0) \<and>
    (profiling \<or> traced_hookers t (ld_config (add_pattern (make_pattern L item path q f locs around) (ld\<lparr>ld_traced := traced\<rparr>))) =
       listed (concrete (ld_config (add_pattern (make_pattern L item path q f locs around) (ld\<lparr>ld_traced := traced\<rparr>)))) t)"
    using spec[OF ok[unfolded traces_counted_def], of t] trace_factory_counts[OF f]
    by (cases "t = path") (auto simp: traced_views loading_views)
qed

lemma untraced_same:
  "make_trace_factory L item meth path tracing (ld_traced ld) = Some (None, traced) \<Longrightarrow> ld\<lparr>ld_traced := traced\<rparr> = ld"
  using trace_factory_counts by (cases ld) fastforce

lemma profiling_item_counts:
  assumes "traces_counted profiling ld" "profiling_item L profiling tracing item path ld = Some ld'"
  shows "traces_counted profiling ld'"
proof -
  from assms(2) obtain locs where locs: "(if profiling then mentions_expr L item else Some False) = Some locs"
    by (cases "if profiling then mentions_expr L item else Some False") (simp_all add: profiling_item_def)
  note item = assms(2)[unfolded profiling_item_def locs, simplified]
  obtain m meth c where p: "parse_symbol_path path = (m, meth, c)" by (metis prod_cases3)
  show ?thesis
  proof (cases "is_pattern_symbol path")
    case True
    then show ?thesis using item assms(1) add_traced_pattern[OF assms(1)]
      by (auto simp: Let_def untraced_same split: option.splits if_splits prod.splits)
  next
    case False
    show ?thesis
    proof (cases "m = []")
      case ne: False
      then obtain around traced where f: "make_trace_factory L item meth path tracing (ld_traced ld) = Some (around, traced)"
        using item False by (cases "make_trace_factory L item meth path tracing (ld_traced ld)") (auto simp: p)
      show ?thesis
      proof (cases "\<not> profiling \<and> around = None")
        case True
        then show ?thesis using item False ne f assms(1) untraced_same[of L item meth path tracing ld traced] by (auto simp: p Let_def)
      next
        case keep: False
        then have "ld' = add_hooker path (make_hooker L item path (build_hook_points m meth c)
            (if profiling then resolve_handler_func L item meth else profiling_noop L) locs around) (ld\<lparr>ld_traced := traced\<rparr>)"
          using item False ne f by (auto simp: p Let_def)
        then show ?thesis using add_traced_hooker[OF assms(1) f] keep by simp
      qed
    qed (use item False assms(1) in \<open>simp add: p\<close>)
  qed
qed

lemma load_item_counts:
  assumes "traces_counted profiling ld" "load_item L dumped (profiling_item L profiling tracing) v ld = Some ld'"
  shows "traces_counted profiling ld'"
  using assms by (auto simp: load_item_def split: yaml.splits option.splits if_splits intro: profiling_item_counts)

lemma load_items_count:
  "traces_counted profiling ld \<Longrightarrow> load_items (load_item L dumped (profiling_item L profiling tracing)) vs ld = Some ld' \<Longrightarrow>
   traces_counted profiling ld'"
  by (induction vs arbitrary: ld) (auto split: option.splits dest: load_item_counts)

text \<open>
  Whatever the file says, at most one trace wraps what is written for a symbol, over its hookers and its patterns; and
  when profiling is off, every hooker that was loaded carries a trace.
\<close>

theorem one_trace_per_symbol:
  assumes "load_profiling L profiling tracing doc = Some p"
  shows "length (traced_hookers s p) + length (traced_patterns s p) \<le> 1 \<and> (profiling \<or> traced_hookers s p = listed (concrete p) s)"
proof (cases "load_yaml_config doc")
  case None
  then have "p = \<lparr>concrete = [], patterns = []\<rparr>" using assms by (simp add: load_profiling_def empty_config_def)
  then show ?thesis by (simp add: traced_hookers_def traced_patterns_def listed_def)
next
  case (Some vs)
  then obtain ld where ld: "load_items (load_item L profiling (profiling_item L profiling tracing)) vs no_loading = Some ld" "p = ld_config ld"
    using assms by (auto simp: load_profiling_def)
  have "traces_counted profiling (no_loading :: 'a loading)"
    by (simp add: traces_counted_def no_loading_def empty_config_def traced_hookers_def traced_patterns_def listed_def)
  from load_items_count[OF this ld(1)] have "traces_counted profiling ld" .
  from spec[OF this[unfolded traces_counted_def], of s] show ?thesis by (cases "s \<in> set (ld_traced ld)") (auto simp: ld(2))
qed


text \<open>Tracing alone: the second trace of the symbol is dropped with its hooker.\<close>

theorem one_trace_per_symbol_witness:
  "(case load_profiling small_loader False True (Some (YList small_file)) of
      None \<Rightarrow> False
    | Some p \<Rightarrow> length (traced_hookers ''vllm.a:C.f'' p) + length (traced_patterns ''vllm.a:C.f'' p) \<le> 1 \<and>
        listed (concrete p) ''vllm.a:C.f'' \<noteq> [])"
proof (cases "load_profiling small_loader False True (Some (YList small_file))")
  case None
  moreover have "load_profiling small_loader False True (Some (YList small_file)) \<noteq> None" by code_simp
  ultimately show ?thesis by simp
next
  case (Some p)
  have "(case load_profiling small_loader False True (Some (YList small_file)) of None \<Rightarrow> False | Some p \<Rightarrow> listed (concrete p) ''vllm.a:C.f'' \<noteq> [])"
    by code_simp
  then have "listed (concrete p) ''vllm.a:C.f'' \<noteq> []" unfolding Some by simp
  then show ?thesis unfolding Some option.case using one_trace_per_symbol[OF Some, of "''vllm.a:C.f''"] by blast
qed

section \<open>What the loading lets through\<close>

text \<open>
  The loading of the whole file fails on one trace whose adapter is a list or a mapping: only \<^verbatim>\<open>ValueError\<close> is caught.
\<close>

lemma unhashable_adapter_aborts:
  assumes "dict_get item ''symbol'' = Some (YStr path)" "\<not> is_pattern_symbol path" "parse_symbol_path path = (m, meth, c)" "m \<noteq> []"
    and "yget ''trace'' item = YMap [(''adapter'', YList xs)]" "yget_default ''name'' (YStr meth) item = YStr n" "n \<noteq> []"
    "yget_default ''domain'' (YStr ''Tracing'') item = YStr d" "d \<noteq> []" and "upper (str_of L (YStr ''INTERNAL'')) = ''INTERNAL''"
  shows "load_items (load_item L False (profiling_item L False True)) (YMap item # vs) ld = None"
proof -
  have "parse_hook_trace_spec (str_of L) item meth = Inl SpecTypeError"
    using assms(5-) by (simp add: parse_hook_trace_spec_def yget_default_def SUPPORTED_KINDS_def Let_def)
  then have "profiling_item L False True item path ld = None"
    using assms(2-4) by (simp add: profiling_item_def make_trace_factory_def)
  then show ?thesis using assms(1) by (simp add: load_item_def)
qed

text \<open>The version limits of a pattern are never compared: its hookers have no framework version.\<close>

lemma pattern_versions_ignored: "support_version later (pattern_hooker M name cls e)"
  by (simp add: pattern_hooker_def new_config_hooker_def support_version_def)

end
