(* ===== verification/Prof_Expr.thy ===== *)
theory Prof_Expr
  imports Prof_Config Hook_Exec
begin

text \<open>
  The default timer of the profiler hooks and the expressions it evaluates: \<open>_SafeExpressionEvaluator\<close>, the pipes,
  \<open>make_default_time_hook\<close> and \<open>HandlerResolver\<close> of \<^verbatim>\<open>ms_service_profiler/patcher/core/dynamic_hook.py\<close>.

  An expression is the tree of \<^verbatim>\<open>ast.parse\<close>; the values are any Python objects, and what the code asks of them is the record \<open>py_ops\<close>,
  where \<open>None\<close> is a raise. Every failure of an expression ends as \<^verbatim>\<open>None\<close>, so the kinds of exceptions are not kept apart. The recorder is there;
  without it the timer is the function itself.
\<close>

section \<open>Python\<close>

datatype 'o node =
    NConst 'o | NName string | NTuple "'o node list" | NList "'o node list" | NSubscript "'o node" "'o node" | NAttribute "'o node" string
  | NCall "'o node" "'o node list" bool | NOther

datatype 'k tokens = Tokens "'k list" | TokenError | TokenizerRaised

text \<open>A token is a name or anything else; \<open>NCall\<close> tells whether there are keywords.\<close>

datatype token = TName string | TOther string

record 'o py_ops =
  tokenize :: "string \<Rightarrow> token tokens"
  untokenize :: "token list \<Rightarrow> string"
  ast_parse :: "string \<Rightarrow> 'o node option"
  is_callable :: "'o \<Rightarrow> bool"
  py_getattr :: "'o \<Rightarrow> string \<Rightarrow> 'o option"
  object_getattribute :: "'o \<Rightarrow> string \<Rightarrow> 'o option"
  py_getitem :: "'o \<Rightarrow> 'o \<Rightarrow> 'o option"
  py_function :: "string \<Rightarrow> 'o list \<Rightarrow> 'o option"
  py_tuple :: "'o list \<Rightarrow> 'o"
  py_list :: "'o list \<Rightarrow> 'o"
  py_dict :: "(string \<times> 'o) list \<Rightarrow> 'o"
  py_none :: 'o

definition SAFE_EXPR_FUNCTIONS :: "string list" where
  "SAFE_EXPR_FUNCTIONS = [''len'', ''str'', ''int'', ''float'', ''bool'']"

definition normalize_expr :: "'o py_ops \<Rightarrow> string \<Rightarrow> string option" where
  "normalize_expr P s =
     (case tokenize P s of
        Tokens ts \<Rightarrow> Some (untokenize P (map (\<lambda>t. if t = TName ''return'' then TName ''ret'' else t) ts))
      | TokenError \<Rightarrow> Some s
      | TokenizerRaised \<Rightarrow> None)"

definition is_safe_attribute_name :: "string \<Rightarrow> bool" where
  "is_safe_attribute_name s \<longleftrightarrow> s \<noteq> [] \<and> \<not> startswith s ''_'' \<and> \<not> occurs ''__'' s"

section \<open>The evaluator\<close>

fun is_call :: "'o node \<Rightarrow> bool" where
  "is_call (NCall f args kw) = True"
| "is_call _ = False"

text \<open>\<open>validate\<close>: whether it returns.\<close>

fun validate :: "'o node \<Rightarrow> bool" where
  "validate (NConst c) = True"
| "validate (NName x) = True"
| "validate (NTuple es) = list_all validate es"
| "validate (NList es) = list_all validate es"
| "validate (NSubscript e k) = (validate e \<and> validate k)"
| "validate (NAttribute e n) = (is_safe_attribute_name n \<and> validate e)"
| "validate (NCall f args kw) =
     ((case f of NName g \<Rightarrow> g \<in> set SAFE_EXPR_FUNCTIONS | _ \<Rightarrow> False) \<and> \<not> kw \<and> list_all (\<lambda>a. \<not> is_call a \<and> validate a) args)"
| "validate NOther = False"

definition not_callable :: "'o py_ops \<Rightarrow> 'o option \<Rightarrow> 'o option" where
  "not_callable P r = (case r of None \<Rightarrow> None | Some v \<Rightarrow> if is_callable P v then None else Some v)"

fun eval_node :: "'o py_ops \<Rightarrow> (string, 'o) dict \<Rightarrow> 'o node \<Rightarrow> 'o option" where
  "eval_node P locs (NConst c) = Some c"
| "eval_node P locs (NName x) = (if x \<in> set SAFE_EXPR_FUNCTIONS then None else not_callable P (dict_get locs x))"
| "eval_node P locs (NTuple es) = map_option (py_tuple P) (those (map (eval_node P locs) es))"
| "eval_node P locs (NList es) = map_option (py_list P) (those (map (eval_node P locs) es))"
| "eval_node P locs (NSubscript e k) =
     (case eval_node P locs e of
        None \<Rightarrow> None
      | Some v \<Rightarrow> (case eval_node P locs k of None \<Rightarrow> None | Some i \<Rightarrow> py_getitem P v i))"
| "eval_node P locs (NAttribute e n) =
     (case eval_node P locs e of None \<Rightarrow> None | Some v \<Rightarrow> not_callable P (py_getattr P v n))"
| "eval_node P locs (NCall f args kw) =
     (case f of
        NName g \<Rightarrow>
          if g \<in> set SAFE_EXPR_FUNCTIONS
          then (case those (map (eval_node P locs) args) of None \<Rightarrow> None | Some vs \<Rightarrow> py_function P g vs) else None
      | _ \<Rightarrow> None)"
| "eval_node P locs NOther = None"

definition parse_safe_expression :: "'o py_ops \<Rightarrow> string \<Rightarrow> 'o node option" where
  "parse_safe_expression P s = (case normalize_expr P s of None \<Rightarrow> None | Some t \<Rightarrow> ast_parse P t)"

definition validate_direct_expression :: "'o py_ops \<Rightarrow> string \<Rightarrow> bool" where
  "validate_direct_expression P s = (case parse_safe_expression P s of None \<Rightarrow> False | Some e \<Rightarrow> validate e)"

text \<open>The value of \<open>_execute_direct_expression_ast\<close>; \<^verbatim>\<open>return\<close> alone is read without the check for callables.\<close>

definition execute_direct_expression :: "'o py_ops \<Rightarrow> (string, 'o) dict \<Rightarrow> string \<Rightarrow> 'o" where
  "execute_direct_expression P locs s =
     (if strip s = ''return'' then (case dict_get locs ''return'' of None \<Rightarrow> py_none P | Some v \<Rightarrow> v)
      else case parse_safe_expression P s of
             None \<Rightarrow> py_none P
           | Some e \<Rightarrow> if validate e then (case eval_node P locs e of None \<Rightarrow> py_none P | Some v \<Rightarrow> v) else py_none P)"

section \<open>Pipes\<close>

text \<open>\<^verbatim>\<open>s.split('|')\<close>\<close>

fun split_pipes :: "string \<Rightarrow> string list" where
  "split_pipes [] = [[]]"
| "split_pipes (c # s) = (if c = CHR ''|'' then [] # split_pipes s else case split_pipes s of [] \<Rightarrow> [[c]] | p # ps \<Rightarrow> (c # p) # ps)"

definition pipe_parts :: "string \<Rightarrow> string list" where
  "pipe_parts s = map strip (split_pipes s)"

text \<open>An expression without a pipe, or with nothing before the first, is taken as it is.\<close>

definition is_piped :: "string \<Rightarrow> bool" where
  "is_piped s \<longleftrightarrow> CHR ''|'' \<in> set s \<and> \<not> (length (pipe_parts s) < 2 \<or> hd (pipe_parts s) = [])"

definition pipe_attribute :: "string \<Rightarrow> string option" where
  "pipe_attribute p =
     (if startswith p ''attr '' \<and> is_safe_attribute_name (strip (drop 5 p)) then Some (strip (drop 5 p)) else None)"

definition validate_expression_safety :: "'o py_ops \<Rightarrow> string \<Rightarrow> bool" where
  "validate_expression_safety P s =
     (if is_piped s
      then validate_direct_expression P (hd (pipe_parts s)) \<and>
        list_all (\<lambda>p. p = ''len'' \<or> p = ''str'' \<or> pipe_attribute p \<noteq> None) (tl (pipe_parts s))
      else validate_direct_expression P s)"

text \<open>One operation; \<open>Inl\<close> ends with a value, \<open>None\<close> raises. The operations were validated before.\<close>

definition pipe_operation :: "'o py_ops \<Rightarrow> string \<Rightarrow> 'o \<Rightarrow> 'o option" where
  "pipe_operation P p v =
     (if p = ''len'' then (if v = py_none P then Some (py_none P) else py_function P ''len'' [v])
      else if p = ''str'' then py_function P ''str'' [v]
      else case pipe_attribute p of
             Some n \<Rightarrow> (case object_getattribute P v n of None \<Rightarrow> Some (py_none P) | Some w \<Rightarrow> Some w)
           | None \<Rightarrow> Some (py_none P))"

fun pipe_operations :: "'o py_ops \<Rightarrow> string list \<Rightarrow> 'o \<Rightarrow> 'o option" where
  "pipe_operations P [] v = Some v"
| "pipe_operations P (p # ps) v =
     (case pipe_operation P p v of
        None \<Rightarrow> None
      | Some w \<Rightarrow> if w = py_none P then Some w else pipe_operations P ps w)"

definition execute_safe_expression :: "'o py_ops \<Rightarrow> (string, 'o) dict \<Rightarrow> string \<Rightarrow> 'o option" where
  "execute_safe_expression P locs s =
     (if \<not> validate_expression_safety P s then Some (py_none P)
      else if is_piped s then pipe_operations P (tl (pipe_parts s)) (execute_direct_expression P locs (hd (pipe_parts s)))
      else Some (execute_direct_expression P locs s))"

section \<open>The timer\<close>

text \<open>The call the expressions see; \<open>named_self\<close> is the argument \<^verbatim>\<open>self\<close> of the signature, when it can be bound.\<close>

record 'o call_context =
  named_self :: "'o option"
  this_obj :: 'o
  ctx_args :: "'o list"
  ctx_kwargs :: "(string \<times> 'o) list"
  ret_val :: 'o

definition build_safe_locals :: "'o py_ops \<Rightarrow> 'o call_context \<Rightarrow> (string, 'o) dict" where
  "build_safe_locals P c =
     (let self = (case named_self c of Some x \<Rightarrow> x | None \<Rightarrow> this_obj c)
      in [(''this'', self), (''args'', py_tuple P (ctx_args c)), (''kwargs'', py_dict P (ctx_kwargs c)), (''return'', ret_val c),
          (''ret'', ret_val c), (''self'', self)])"

definition safe_eval_expr :: "'o py_ops \<Rightarrow> yaml \<Rightarrow> 'o call_context \<Rightarrow> 'o" where
  "safe_eval_expr P v c =
     (case v of
        YStr s \<Rightarrow> (case execute_safe_expression P (build_safe_locals P c) s of None \<Rightarrow> py_none P | Some w \<Rightarrow> w)
      | _ \<Rightarrow> py_none P)"

datatype 'o prof_event = SpanStart yaml yaml | SpanAttr yaml 'o | SpanEnd

text \<open>The attributes of the configuration, in order; an entry that is no mapping raises.\<close>

fun collect_attributes :: "'o py_ops \<Rightarrow> 'o call_context \<Rightarrow> yaml list \<Rightarrow> 'o prof_event list \<times> bool" where
  "collect_attributes P c [] = ([], True)"
| "collect_attributes P c (v # vs) =
     (case v of
        YMap item \<Rightarrow>
          (let n = yget ''name'' item; x = yget ''expr'' item; w = safe_eval_expr P x c;
               es = (if truthy n \<and> truthy x \<and> w \<noteq> py_none P then [SpanAttr n w] else [])
           in case collect_attributes P c vs of (es', ok) \<Rightarrow> (es @ es', ok))
      | _ \<Rightarrow> ([], False))"

type_synonym 'o py_args = "'o list \<times> (string \<times> 'o) list"

text \<open>The hook of \<open>make_default_time_hook\<close>; \<open>attr_err\<close> is the exception of an entry that is no mapping.\<close>

definition default_time_hook ::
  "'o py_ops \<Rightarrow> 'o \<Rightarrow> ('o py_args \<Rightarrow> 'o option) \<Rightarrow> yaml \<Rightarrow> yaml \<Rightarrow> yaml \<Rightarrow>
   ('o py_args, 'o, 'w) plain \<Rightarrow> ('o py_args, 'o, 'w \<times> 'o prof_event list) plain" where
  "default_time_hook P attr_err self_of domain name attributes f a s =
     (let log = snd s @ [SpanStart domain name]
      in case f a (fst s) of
           (Raise e, w) \<Rightarrow> (Raise e, (w, log))
         | (Ret v, w) \<Rightarrow>
             (let c = \<lparr>named_self = self_of a, this_obj = (case fst a of [] \<Rightarrow> py_none P | x # _ \<Rightarrow> x), ctx_args = fst a,
                    ctx_kwargs = snd a, ret_val = v\<rparr>
              in case (case attributes of YList vs \<Rightarrow> collect_attributes P c vs | _ \<Rightarrow> ([], True)) of
                   (es, True) \<Rightarrow> (Ret v, (w, log @ es @ [SpanEnd]))
                 | (es, False) \<Rightarrow> (Raise attr_err, (w, log @ es))))"

section \<open>Choosing a handler\<close>

definition py_or :: "yaml \<Rightarrow> yaml \<Rightarrow> yaml" where
  "py_or v w = (if truthy v then v else w)"

text \<open>\<open>HandlerResolver.resolve\<close>; \<open>_try_import\<close> looks the function up in the dictionary of the module.\<close>

definition try_import :: "(string \<Rightarrow> string \<Rightarrow> 'h option) \<Rightarrow> string \<Rightarrow> 'h option" where
  "try_import lookup s =
     (case split1 (CHR '':'') s of
        None \<Rightarrow> None
      | Some (m, f) \<Rightarrow> if is_allowed_handler_module m [] then lookup m f else None)"

definition resolve_handler :: "(yaml \<Rightarrow> yaml \<Rightarrow> yaml \<Rightarrow> 'h) \<Rightarrow> (string \<Rightarrow> string \<Rightarrow> 'h option) \<Rightarrow> ymap \<Rightarrow> point list \<Rightarrow> 'h" where
  "resolve_handler timer lookup item points =
     (let domain = py_or (yget ''domain'' item) (YStr ''Custom'');
          name = py_or (yget ''name'' item) (YStr (case points of [] \<Rightarrow> ''custom'' | p # _ \<Rightarrow> snd p));
          t = timer domain name (yget ''attributes'' item)
      in case yget ''handler'' item of
           YStr s \<Rightarrow> if upper s = ''TIMER'' then t else (case try_import lookup s of Some h \<Rightarrow> h | None \<Rightarrow> t)
         | _ \<Rightarrow> t)"

section \<open>What expressions can reach\<close>

text \<open>Two Pythons that may differ in what private attributes hold, and in every function but the five.\<close>

definition agree_public :: "'o py_ops \<Rightarrow> 'o py_ops \<Rightarrow> bool" where
  "agree_public P Q \<longleftrightarrow>
     tokenize P = tokenize Q \<and> untokenize P = untokenize Q \<and> ast_parse P = ast_parse Q \<and> is_callable P = is_callable Q \<and>
     py_getitem P = py_getitem Q \<and> py_tuple P = py_tuple Q \<and> py_list P = py_list Q \<and> py_dict P = py_dict Q \<and> py_none P = py_none Q \<and>
     (\<forall>n. n \<noteq> [] \<and> hd n \<noteq> CHR ''_'' \<longrightarrow> (\<forall>v. py_getattr P v n = py_getattr Q v n \<and> object_getattribute P v n = object_getattribute Q v n)) \<and>
     (\<forall>g \<in> {''len'', ''str'', ''int'', ''float'', ''bool''}. py_function P g = py_function Q g)"

lemma safe_name_public: "is_safe_attribute_name n \<Longrightarrow> n \<noteq> [] \<and> hd n \<noteq> CHR ''_''"
  by (cases n) (auto simp: is_safe_attribute_name_def)

lemma agree_attribute:
  "agree_public P Q \<Longrightarrow> is_safe_attribute_name n \<Longrightarrow> py_getattr P v n = py_getattr Q v n \<and> object_getattribute P v n = object_getattribute Q v n"
  using safe_name_public[of n] unfolding agree_public_def by blast

lemma agree_function: "agree_public P Q \<Longrightarrow> g \<in> set SAFE_EXPR_FUNCTIONS \<Longrightarrow> py_function P g = py_function Q g"
  by (auto simp: agree_public_def SAFE_EXPR_FUNCTIONS_def)

lemma agree_rest:
  assumes "agree_public P Q"
  shows "tokenize P = tokenize Q" "untokenize P = untokenize Q" "ast_parse P = ast_parse Q" "is_callable P = is_callable Q"
    "py_getitem P = py_getitem Q" "py_tuple P = py_tuple Q" "py_list P = py_list Q" "py_dict P = py_dict Q" "py_none P = py_none Q"
  using assms by (simp_all add: agree_public_def)

lemma eval_node_list_agree:
  "(\<And>x. x \<in> set es \<Longrightarrow> validate x \<Longrightarrow> eval_node P locs x = eval_node Q locs x) \<Longrightarrow> list_all validate es \<Longrightarrow>
   map (eval_node P locs) es = map (eval_node Q locs) es"
  by (induction es) auto

lemma eval_node_agree:
  assumes PQ: "agree_public P Q"
  shows "validate e \<Longrightarrow> eval_node P locs e = eval_node Q locs e"
proof (induction e)
  case (NTuple es)
  then have m: "map (eval_node P locs) es = map (eval_node Q locs) es" by (intro eval_node_list_agree) simp_all
  show ?case unfolding eval_node.simps m agree_rest[OF PQ] ..
next
  case (NList es)
  then have m: "map (eval_node P locs) es = map (eval_node Q locs) es" by (intro eval_node_list_agree) simp_all
  show ?case unfolding eval_node.simps m agree_rest[OF PQ] ..
next
  case (NAttribute e n)
  then have e: "eval_node P locs e = eval_node Q locs e" "\<And>v. py_getattr P v n = py_getattr Q v n" using agree_attribute[OF PQ, of n] by simp_all
  show ?case unfolding eval_node.simps not_callable_def e agree_rest[OF PQ] ..
next
  case (NCall f args kw)
  then obtain g where g: "f = NName g" "g \<in> set SAFE_EXPR_FUNCTIONS" by (cases f) auto
  have "list_all validate args" using NCall.prems by (auto simp: list_all_iff)
  then have m: "map (eval_node P locs) args = map (eval_node Q locs) args" using NCall.IH(2) by (intro eval_node_list_agree)
  show ?case unfolding eval_node.simps g(1) node.case m agree_function[OF PQ g(2)] using g(2) by simp
qed (auto simp: not_callable_def agree_rest[OF PQ] split: option.split)

lemma parse_agree:
  assumes "agree_public P Q"
  shows "parse_safe_expression P s = parse_safe_expression Q s"
  unfolding parse_safe_expression_def normalize_expr_def agree_rest[OF assms] ..

lemma direct_agree:
  assumes "agree_public P Q"
  shows "execute_direct_expression P locs s = execute_direct_expression Q locs s"
  by (auto simp: execute_direct_expression_def parse_agree[OF assms] eval_node_agree[OF assms] agree_rest[OF assms] split: option.split)

lemma pipe_operation_agree:
  assumes "agree_public P Q"
  shows "pipe_operation P p v = pipe_operation Q p v"
proof -
  have "py_function P ''len'' = py_function Q ''len''" "py_function P ''str'' = py_function Q ''str''"
    using agree_function[OF assms] by (simp_all add: SAFE_EXPR_FUNCTIONS_def)
  moreover have "object_getattribute P v n = object_getattribute Q v n" if "pipe_attribute p = Some n" for n
    using that agree_attribute[OF assms, of n v] by (auto simp: pipe_attribute_def split: if_splits)
  ultimately show ?thesis by (auto simp: pipe_operation_def agree_rest[OF assms] split: option.split)
qed

lemma pipes_agree: "agree_public P Q \<Longrightarrow> pipe_operations P ps v = pipe_operations Q ps v"
  by (induction ps arbitrary: v) (auto simp: pipe_operation_agree agree_rest split: option.split)

lemma safe_expression_agree:
  assumes "agree_public P Q"
  shows "execute_safe_expression P locs s = execute_safe_expression Q locs s"
  unfolding execute_safe_expression_def validate_expression_safety_def validate_direct_expression_def parse_agree[OF assms] direct_agree[OF assms]
    pipes_agree[OF assms] agree_rest[OF assms] ..

lemma safe_eval_agree:
  assumes "agree_public P Q"
  shows "safe_eval_expr P x c = safe_eval_expr Q x c"
  unfolding safe_eval_expr_def build_safe_locals_def safe_expression_agree[OF assms] agree_rest[OF assms] ..

lemma collect_agree:
  assumes "agree_public P Q"
  shows "collect_attributes P c vs = collect_attributes Q c vs"
proof (induction vs)
  case (Cons v vs)
  show ?case unfolding collect_attributes.simps Cons.IH safe_eval_agree[OF assms] agree_rest[OF assms] ..
qed simp

text \<open>
  Property C34. Whatever expressions the configuration has, the timer reaches only public attributes and the five functions \<^verbatim>\<open>len\<close>,
  \<^verbatim>\<open>str\<close>, \<^verbatim>\<open>int\<close>, \<^verbatim>\<open>float\<close> and \<^verbatim>\<open>bool\<close>: what an attribute that starts with an underscore holds, and what any other function does, has
  no influence on the result, the effect and the recorded events of a call.
\<close>

theorem timer_reaches_public_only:
  assumes "agree_public P Q"
  shows "default_time_hook P attr_err self_of domain name attributes f a s = default_time_hook Q attr_err self_of domain name attributes f a s"
  unfolding default_time_hook_def collect_agree[OF assms] agree_rest[OF assms] ..

definition demo_py :: "string \<Rightarrow> string py_ops" where
  "demo_py secret = \<lparr>tokenize = (\<lambda>s. TokenError), untokenize = (\<lambda>_. []),
     ast_parse = (\<lambda>s. if s = ''this.name'' then Some (NAttribute (NName ''this'') ''name'')
       else if s = ''this._key'' then Some (NAttribute (NName ''this'') ''_key'')
       else if s = ''open(this)'' then Some (NCall (NName ''open'') [NName ''this''] False) else None),
     is_callable = (\<lambda>_. False), py_getattr = (\<lambda>v n. if n = ''name'' then Some ''llama'' else if startswith n ''_'' then Some secret else None),
     object_getattribute = (\<lambda>v n. if n = ''name'' then Some ''llama'' else if startswith n ''_'' then Some secret else None),
     py_getitem = (\<lambda>_ _. None), py_function = (\<lambda>g vs. if g = ''len'' then Some ''5'' else if g = ''open'' then Some secret else None),
     py_tuple = concat, py_list = concat, py_dict = (\<lambda>d. concat (map snd d)), py_none = ''None''\<rparr>"

definition secret_attributes :: yaml where
  "secret_attributes = YList [YMap [(''name'', YStr ''model''), (''expr'', YStr ''this.name | len'')], YMap [(''name'', YStr ''key''), (''expr'', YStr ''this._key'')],
     YMap [(''name'', YStr ''file''), (''expr'', YStr ''open(this)'')], YMap [(''name'', YStr ''piped''), (''expr'', YStr ''this.name | attr _key'')]]"

definition demo_timer :: "string py_ops \<Rightarrow> string outcome \<times> nat \<times> string prof_event list" where
  "demo_timer P = default_time_hook P ''AttributeError'' (\<lambda>_. None) (YStr ''Model'') (YStr ''forward'') secret_attributes (\<lambda>a n. (Ret ''ok'', n + 1))
     ([''model''], []) (0, [])"

text \<open>A private attribute and a function that opens a file, in three ways: none of them is recorded.\<close>

theorem timer_reaches_public_only_witness:
  "demo_timer (demo_py ''key'') = demo_timer (demo_py ''other'') \<and>
   demo_timer (demo_py ''other'') = (Ret ''ok'', 1, [SpanStart (YStr ''Model'') (YStr ''forward''), SpanAttr (YStr ''model'') ''5'', SpanEnd])"
proof -
  have "agree_public (demo_py ''key'') (demo_py ''other'')"
    by (auto simp: agree_public_def demo_py_def startswith_iff)
  then have "demo_timer (demo_py ''key'') = demo_timer (demo_py ''other'')"
    unfolding demo_timer_def by (rule timer_reaches_public_only)
  moreover have "demo_timer (demo_py ''other'') = (Ret ''ok'', 1, [SpanStart (YStr ''Model'') (YStr ''forward''), SpanAttr (YStr ''model'') ''5'', SpanEnd])"
    by code_simp
  ultimately show ?thesis by simp
qed

section \<open>Limits of the timer\<close>

text \<open>When the function raises, the span stays open.\<close>

lemma raising_call_leaves_span:
  "f a w = (Raise e, w') \<Longrightarrow>
   default_time_hook P err self_of domain name attributes f a (w, log) = (Raise e, (w', log @ [SpanStart domain name]))"
  by (simp add: default_time_hook_def Let_def)

text \<open>An expression that fails gives the text \<^verbatim>\<open>None\<close> when it is piped to \<^verbatim>\<open>str\<close>.\<close>

lemma failure_piped_to_text:
  assumes "pipe_parts s = [x, ''str'']" "x \<noteq> []" "CHR ''|'' \<in> set s" "validate_direct_expression P x"
    "execute_direct_expression P locs x = py_none P" "py_function P ''str'' [py_none P] = Some t"
  shows "execute_safe_expression P locs s = Some t"
  using assms by (simp add: execute_safe_expression_def is_piped_def validate_expression_safety_def pipe_operation_def)

text \<open>The attributes of an object that can be called, such as a module of a network, are out of reach.\<close>

lemma callable_self_unreadable:
  assumes "is_callable P x" "dict_get locs ''this'' = Some x"
  shows "eval_node P locs (NAttribute (NName ''this'') n) = None"
  using assms by (simp add: not_callable_def SAFE_EXPR_FUNCTIONS_def)

text \<open>An item of a container is not tested, and neither is an attribute behind a pipe.\<close>

lemma callable_item_passes:
  assumes "is_callable P f" "eval_node P locs e = Some v" "eval_node P locs k = Some i" "py_getitem P v i = Some f"
  shows "eval_node P locs (NSubscript e k) = Some f"
  using assms by simp

text \<open>A pipe inside a string literal splits the expression.\<close>

lemma literal_is_split: "pipe_parts ''kwargs['a|b']'' = [''kwargs['a'', ''b']'']"
  by code_simp

end
