(* ===== verification/Trace_Otel.thy ===== *)
theory Trace_Otel
  imports Trace_Span Prof_Config Complex_Main
begin

text \<open>
  Spans of hooks over the OpenTelemetry provider of the server: \<^verbatim>\<open>tracer/otel_hook.py\<close> and \<^verbatim>\<open>tracer/hook_runtime.py\<close>.

  OpenTelemetry is a parameter: \<open>otel\<close> says what its functions return and which calls raise. Every call that changes something
  there is recorded in \<open>api_calls\<close>, in order, with whether it returned. The three queries of the provider, of whether a span records and
  of the context of a span give \<open>None\<close> when they raise; so does a step of the code that an exception of a query leaves, or \<open>False\<close>.
  A span is known by the number of its start, the token of an attach by the number of
  its span. Locks are left out, so are the flags that only limit the logging, and the parent of a span, which no caller passes.
\<close>

section \<open>OpenTelemetry\<close>

datatype attr_value = AStr string | ABool bool | AInt int | AFloat rat | AList "attr_value list" | AOther

datatype 'c api_call =
    MakeProcessor | AddProcessor nat | ShutdownProcessor
  | StartSpan nat string string string "('c \<times> string) list" "int option"
  | SetAttribute nat string attr_value | AttachSpan nat | DetachToken nat
  | SetStatus nat bool "string option" | EndSpan nat "int option"

text \<open>The answers, for the state \<open>'w\<close> of everything outside. \<open>api\<close> tells whether the call returns, and its effect.\<close>

record ('c, 'w) otel =
  otel_available :: bool
  trace_enabled :: "'w \<Rightarrow> bool"
  active_provider :: "'w \<Rightarrow> nat option option"
  perfetto_probe :: "'w \<Rightarrow> bool"
  monotonic :: "'w \<Rightarrow> rat"
  time_ns :: "'w \<Rightarrow> int"
  process_pid :: "'w \<Rightarrow> int"
  thread_id :: "'w \<Rightarrow> int"
  api :: "'c api_call \<Rightarrow> 'w \<Rightarrow> bool \<times> 'w"
  recording :: "nat \<Rightarrow> 'w \<Rightarrow> bool option"
  span_context :: "nat \<Rightarrow> 'w \<Rightarrow> 'c option"
  extract_context :: "(string \<times> string) list \<Rightarrow> 'w \<Rightarrow> 'c option"
  current_span_context :: "'w \<Rightarrow> 'c option"
  context_valid :: "'c \<Rightarrow> bool"

text \<open>The state: outside, the backend, the requests of the runtime, oldest first.\<close>

record ('c, 'w) tracing =
  world :: 'w
  perfetto_providers :: "nat list"
  retry_after :: "(nat, rat) dict"
  inflight :: "(string, 'c option) dict"
  next_span :: nat
  api_calls :: "('c api_call \<times> bool) list"

definition call_api :: "('c, 'w) otel \<Rightarrow> 'c api_call \<Rightarrow> ('c, 'w) tracing \<Rightarrow> bool \<times> ('c, 'w) tracing" where
  "call_api E x s =
     (case api E x (world s) of (ok, w) \<Rightarrow> (ok, s\<lparr>world := w, api_calls := api_calls s @ [(x, ok)]\<rparr>))"

section \<open>Span contexts and spans\<close>

definition ctx_valid :: "('c, 'w) otel \<Rightarrow> 'c option \<Rightarrow> bool" where
  "ctx_valid E c = (case c of None \<Rightarrow> False | Some n \<Rightarrow> context_valid E n)"

record 'c hook_span =
  hs_span :: "nat option"
  hs_context :: "'c option"
  hs_ended :: bool
  attribute_count :: nat

definition MAX_ATTRIBUTE_COUNT :: nat where "MAX_ATTRIBUTE_COUNT = 32"
definition MAX_ATTRIBUTE_KEY_LENGTH :: nat where "MAX_ATTRIBUTE_KEY_LENGTH = 128"
definition MAX_ATTRIBUTE_VALUE_LENGTH :: nat where "MAX_ATTRIBUTE_VALUE_LENGTH = 1024"
definition RETRY_INTERVAL :: rat where "RETRY_INTERVAL = 5"

definition new_noop_hook_span :: "'c hook_span" where
  "new_noop_hook_span = \<lparr>hs_span = None, hs_context = None, hs_ended = False, attribute_count = 0\<rparr>"

text \<open>\<open>HookTraceSpan(span)\<close>, which asks the span for its context, and \<open>is_recording\<close>\<close>

definition new_hook_span :: "('c, 'w) otel \<Rightarrow> nat \<Rightarrow> 'w \<Rightarrow> 'c hook_span option" where
  "new_hook_span E n w =
     map_option (\<lambda>c. \<lparr>hs_span = Some n, hs_context = Some c, hs_ended = False, attribute_count = 0\<rparr>) (span_context E n w)"

definition is_recording :: "('c, 'w) otel \<Rightarrow> 'w \<Rightarrow> 'c hook_span \<Rightarrow> bool option" where
  "is_recording E w sp =
     (case hs_span sp of None \<Rightarrow> Some False | Some n \<Rightarrow> if hs_ended sp then Some False else recording E n w)"

fun safe_scalar :: "attr_value \<Rightarrow> attr_value option" where
  "safe_scalar (AStr s) = Some (AStr (take MAX_ATTRIBUTE_VALUE_LENGTH s))"
| "safe_scalar (ABool b) = Some (ABool b)"
| "safe_scalar (AInt n) = Some (AInt n)"
| "safe_scalar (AFloat r) = Some (AFloat r)"
| "safe_scalar _ = None"

definition safe_attribute :: "attr_value \<Rightarrow> attr_value option" where
  "safe_attribute v =
     (case v of AList vs \<Rightarrow> map_option AList (those (map safe_scalar (take MAX_ATTRIBUTE_COUNT vs))) | _ \<Rightarrow> safe_scalar v)"

type_synonym ('c, 'w) span_step = "'c hook_span \<times> ('c, 'w) tracing"

definition set_attribute :: "('c, 'w) otel \<Rightarrow> string \<Rightarrow> attr_value \<Rightarrow> ('c, 'w) span_step \<Rightarrow> bool \<times> ('c, 'w) span_step" where
  "set_attribute E key v st =
     (case st of (sp, s) \<Rightarrow>
        case is_recording E (world s) sp of
          None \<Rightarrow> (False, (sp, s))
        | Some b \<Rightarrow>
            if \<not> b \<or> MAX_ATTRIBUTE_COUNT \<le> attribute_count sp then (True, (sp, s))
            else if key = [] \<or> MAX_ATTRIBUTE_KEY_LENGTH < length key then (True, (sp, s))
            else case (safe_attribute v, hs_span sp) of
                   (Some x, Some n) \<Rightarrow>
                     (case call_api E (SetAttribute n key x) s of
                        (True, s1) \<Rightarrow> (True, (sp\<lparr>attribute_count := attribute_count sp + 1\<rparr>, s1))
                      | (False, s1) \<Rightarrow> (True, (sp, s1)))
                 | _ \<Rightarrow> (True, (sp, s)))"

text \<open>The next attribute, unless an exception came before it.\<close>

definition then_attribute ::
  "('c, 'w) otel \<Rightarrow> string \<Rightarrow> attr_value \<Rightarrow> bool \<times> ('c, 'w) span_step \<Rightarrow> bool \<times> ('c, 'w) span_step" where
  "then_attribute E key v r = (if fst r then set_attribute E key v (snd r) else r)"

definition activate :: "('c, 'w) otel \<Rightarrow> ('c, 'w) span_step \<Rightarrow> nat option option \<times> ('c, 'w) tracing" where
  "activate E st =
     (case st of (sp, s) \<Rightarrow>
        case is_recording E (world s) sp of
          None \<Rightarrow> (None, s)
        | Some b \<Rightarrow>
            if \<not> b \<or> \<not> otel_available E then (Some None, s)
            else case hs_span sp of
                   None \<Rightarrow> (Some None, s)
                 | Some n \<Rightarrow> (case call_api E (AttachSpan n) s of (ok, s1) \<Rightarrow> (Some (if ok then Some n else None), s1)))"

definition deactivate :: "('c, 'w) otel \<Rightarrow> nat option \<Rightarrow> ('c, 'w) tracing \<Rightarrow> ('c, 'w) tracing" where
  "deactivate E token s =
     (case token of None \<Rightarrow> s | Some n \<Rightarrow> if otel_available E then snd (call_api E (DetachToken n) s) else s)"

text \<open>\<open>end\<close>: when the status cannot be set, the span of the provider is not ended.\<close>

definition end_span :: "('c, 'w) otel \<Rightarrow> bool \<Rightarrow> string \<Rightarrow> int option \<Rightarrow> ('c, 'w) span_step \<Rightarrow> ('c, 'w) span_step" where
  "end_span E success message until st =
     (case st of (sp, s) \<Rightarrow>
        case hs_span sp of
          None \<Rightarrow> (sp, s)
        | Some n \<Rightarrow>
            if hs_ended sp then (sp, s)
            else (let text = take MAX_ATTRIBUTE_VALUE_LENGTH message
                  in case call_api E (SetStatus n success (if text = [] then None else Some text)) s of
                       (True, s1) \<Rightarrow> (sp\<lparr>hs_ended := True\<rparr>, snd (call_api E (EndSpan n until) s1))
                     | (False, s1) \<Rightarrow> (sp\<lparr>hs_ended := True\<rparr>, s1)))"

section \<open>The backend\<close>

text \<open>\<open>_get_provider\<close>: the Perfetto processor is added to a provider once; after a failure not before the interval has passed.\<close>

definition register_perfetto :: "('c, 'w) otel \<Rightarrow> nat \<Rightarrow> ('c, 'w) tracing \<Rightarrow> ('c, 'w) tracing" where
  "register_perfetto E p s =
     (let now = monotonic E (world s);
          due = (case dict_get (retry_after s) p of None \<Rightarrow> 0 | Some t \<Rightarrow> t);
          failed = (\<lambda>s. s\<lparr>retry_after := dict_set p (now + RETRY_INTERVAL) (retry_after s)\<rparr>)
      in if now < due then s
         else case call_api E MakeProcessor s of
                (False, s1) \<Rightarrow> failed s1
              | (True, s1) \<Rightarrow>
                  (case call_api E (AddProcessor p) s1 of
                     (False, s2) \<Rightarrow> snd (call_api E ShutdownProcessor (failed s2))
                   | (True, s2) \<Rightarrow> s2\<lparr>perfetto_providers := perfetto_providers s2 @ [p], retry_after := dict_del p (retry_after s2)\<rparr>))"

definition get_provider :: "('c, 'w) otel \<Rightarrow> ('c, 'w) tracing \<Rightarrow> nat option option \<times> ('c, 'w) tracing" where
  "get_provider E s =
     (if \<not> trace_enabled E (world s) \<or> \<not> otel_available E then (Some None, s)
      else case active_provider E (world s) of
             None \<Rightarrow> (None, s)
           | Some None \<Rightarrow> (Some None, s)
           | Some (Some p) \<Rightarrow>
               (Some (Some p), if p \<notin> set (perfetto_providers s) \<and> perfetto_probe E (world s) then register_perfetto E p s else s))"

definition context_from_headers :: "('c, 'w) otel \<Rightarrow> (string \<times> string) list option \<Rightarrow> ('c, 'w) tracing \<Rightarrow> 'c option" where
  "context_from_headers E headers s =
     (if \<not> otel_available E then None
      else case headers of None \<Rightarrow> None | Some hs \<Rightarrow> if hs = [] then None else extract_context E hs (world s))"

definition current_context :: "('c, 'w) otel \<Rightarrow> ('c, 'w) tracing \<Rightarrow> 'c option" where
  "current_context E s = (if otel_available E then current_span_context E (world s) else None)"

definition native_links :: "('c, 'w) otel \<Rightarrow> ('c option \<times> string) list \<Rightarrow> ('c \<times> string) list" where
  "native_links E links = List.map_filter (\<lambda>(c, i). if ctx_valid E c then map_option (\<lambda>n. (n, i)) c else None) links"

definition SPAN_KINDS :: "(string \<times> string) list" where
  "SPAN_KINDS = map (\<lambda>k. (k, k)) [''INTERNAL'', ''SERVER'', ''CLIENT'', ''PRODUCER'', ''CONSUMER'']"

text \<open>
  The query of the provider is not guarded. The context of a span that was started is read inside the \<^verbatim>\<open>try\<close>: when that raises, the span
  is lost.
\<close>

definition backend_start_span ::
  "('c, 'w) otel \<Rightarrow> string \<Rightarrow> string \<Rightarrow> string \<Rightarrow> ('c option \<times> string) list \<Rightarrow> int option \<Rightarrow> ('c, 'w) tracing \<Rightarrow>
   'c hook_span option \<times> ('c, 'w) tracing" where
  "backend_start_span E name domain kind links start s =
     (case get_provider E s of
        (None, s1) \<Rightarrow> (None, s1)
      | (Some None, s1) \<Rightarrow> (Some new_noop_hook_span, s1)
      | (Some (Some p), s1) \<Rightarrow>
          (let n = next_span s1;
               native_kind = (case dict_get SPAN_KINDS kind of None \<Rightarrow> ''INTERNAL'' | Some k \<Rightarrow> k);
               scope = HOOK_SCOPE_PREFIX @ ''.'' @ (if domain = [] then ''tracing'' else domain)
           in case call_api E (StartSpan n name scope native_kind (native_links E links) start) (s1\<lparr>next_span := n + 1\<rparr>) of
                (True, s2) \<Rightarrow>
                  (case new_hook_span E n (world s2) of None \<Rightarrow> (Some new_noop_hook_span, s2) | Some sp \<Rightarrow> (Some sp, s2))
              | (False, s2) \<Rightarrow> (Some new_noop_hook_span, s2)))"

section \<open>The runtime\<close>

definition MAX_INFLIGHT_REQUESTS :: nat where "MAX_INFLIGHT_REQUESTS = 10000"
definition MAX_LINKS_PER_SPAN :: nat where "MAX_LINKS_PER_SPAN = 128"

definition store_request :: "string \<Rightarrow> 'c option \<Rightarrow> (string, 'c option) dict \<Rightarrow> (string, 'c option) dict" where
  "store_request i c rs =
     (let rs1 = dict_set i c (dict_del i rs) in if MAX_INFLIGHT_REQUESTS < length rs1 then tl rs1 else rs1)"

definition register_request_context ::
  "('c, 'w) otel \<Rightarrow> string \<Rightarrow> (string \<times> string) list option \<Rightarrow> ('c, 'w) tracing \<Rightarrow> bool \<times> ('c, 'w) tracing" where
  "register_request_context E i headers s =
     (let c0 = context_from_headers E headers s;
          c = (if ctx_valid E c0 then c0 else current_context E s)
      in if ctx_valid E c then (True, s\<lparr>inflight := store_request i c (inflight s)\<rparr>) else (False, s))"

definition start_request ::
  "('c, 'w) otel \<Rightarrow> string \<Rightarrow> (string \<times> string) list option \<Rightarrow> ('c, 'w) tracing \<Rightarrow> bool \<times> ('c, 'w) tracing" where
  "start_request E i headers s = register_request_context E i headers s"

definition finish_request :: "string \<Rightarrow> ('c, 'w) tracing \<Rightarrow> bool \<times> ('c, 'w) tracing" where
  "finish_request i s = (dict_has i (inflight s), s\<lparr>inflight := dict_del i (inflight s)\<rparr>)"

definition request_links :: "('c, 'w) otel \<Rightarrow> string list \<Rightarrow> ('c, 'w) tracing \<Rightarrow> ('c option \<times> string) list" where
  "request_links E ids s =
     List.map_filter (\<lambda>i. case dict_get (inflight s) i of None \<Rightarrow> None | Some c \<Rightarrow> if ctx_valid E c then Some (c, i) else None)
       (take MAX_LINKS_PER_SPAN ids)"

definition request_context :: "string \<Rightarrow> ('c, 'w) tracing \<Rightarrow> 'c option option" where
  "request_context i s = dict_get (inflight s) i"

text \<open>\<open>start_span\<close>; no caller passes attributes.\<close>

definition runtime_start_span ::
  "('c, 'w) otel \<Rightarrow> string \<Rightarrow> string \<Rightarrow> string \<Rightarrow> string list \<Rightarrow> int option \<Rightarrow> ('c, 'w) tracing \<Rightarrow>
   'c hook_span option \<times> ('c, 'w) tracing" where
  "runtime_start_span E name domain kind ids start s =
     (if \<not> trace_enabled E (world s) then (Some new_noop_hook_span, s)
      else let ids1 = take MAX_LINKS_PER_SPAN ids
           in case backend_start_span E name domain kind (request_links E ids1 s) start s of
                (None, s1) \<Rightarrow> (None, s1)
              | (Some sp, s1) \<Rightarrow>
                  (case is_recording E (world s1) sp of
                     None \<Rightarrow> (None, s1)
                   | Some b \<Rightarrow>
                       if \<not> b then (Some sp, s1)
                       else (let r1 = set_attribute E ''process.pid'' (AInt (process_pid E (world s1))) (sp, s1);
                                 r2 = then_attribute E ''thread.id'' (AInt (thread_id E (world (snd (snd r1))))) r1;
                                 r3 = (if ids1 = [] then r2 else then_attribute E ''request.ids'' (AList (map AStr ids1)) r2)
                             in (if fst r3 then Some (fst (snd r3)) else None, snd (snd r3)))))"

definition clear_runtime :: "('c, 'w) tracing \<Rightarrow> ('c, 'w) tracing" where
  "clear_runtime s = s\<lparr>inflight := []\<rparr>"

end
