(* ===== verification/Trace_Scope.thy ===== *)
theory Trace_Scope
  imports Trace_Otel Hook_Exec
begin

text \<open>
  The wrapper that gives a call of the server a span: \<^verbatim>\<open>ms_service_profiler/patcher/core/trace_hook.py\<close>.

  Objects of the server are what the code reads of them, the record \<open>views\<close>; reading an attribute has no effect and does not raise,
  taking the keys of an object or iterating over it may (\<open>None\<close>, the exception is \<open>read_error\<close>). An exception of a query of OpenTelemetry
  that nothing catches is \<open>query_error\<close>. The asynchronous wrapper differs in awaiting the
  function and is the same here.
\<close>

section \<open>Reading a call\<close>

record 'o views =
  attr_of :: "'o \<Rightarrow> string \<Rightarrow> 'o option"
  is_none :: "'o \<Rightarrow> bool"
  truth :: "'o \<Rightarrow> bool"
  as_text :: "'o \<Rightarrow> string"
  str_or_int :: "'o \<Rightarrow> bool"
  keys_of :: "'o \<Rightarrow> 'o list option"
  items_of :: "'o \<Rightarrow> 'o list option"
  headers_of :: "'o \<Rightarrow> (string \<times> string) list"
  as_attr :: "'o \<Rightarrow> attr_value"
  read_error :: 'o
  query_error :: 'o

record 'o invocation =
  inv_args :: "'o list"
  inv_kwargs :: "(string, 'o) dict"

definition request_id_from_call :: "'o views \<Rightarrow> 'o invocation \<Rightarrow> string" where
  "request_id_from_call V iv =
     (case dict_get (inv_kwargs iv) ''request_id'' of
        Some r \<Rightarrow> as_text V r
      | None \<Rightarrow>
          (case inv_args iv of
             _ # candidate # _ \<Rightarrow>
               (let r = (case attr_of V candidate ''request_id'' of None \<Rightarrow> candidate | Some r \<Rightarrow> r)
                in if str_or_int V r then as_text V r else [])
           | _ \<Rightarrow> []))"

fun first_headers :: "'o views \<Rightarrow> 'o list \<Rightarrow> 'o option" where
  "first_headers V [] = None"
| "first_headers V (x # xs) =
     (case attr_of V x ''trace_headers'' of Some h \<Rightarrow> if truth V h then Some h else first_headers V xs | None \<Rightarrow> first_headers V xs)"

definition trace_headers_from_call :: "'o views \<Rightarrow> 'o invocation \<Rightarrow> (string \<times> string) list option" where
  "trace_headers_from_call V iv =
     map_option (headers_of V)
       (case dict_get (inv_kwargs iv) ''trace_headers'' of
          Some h \<Rightarrow> if truth V h then Some h else first_headers V (drop 1 (inv_args iv))
        | None \<Rightarrow> first_headers V (drop 1 (inv_args iv)))"

definition request_ids_from_scheduler_output :: "'o views \<Rightarrow> 'o \<Rightarrow> string list option" where
  "request_ids_from_scheduler_output V out =
     (case attr_of V out ''num_scheduled_tokens'' of
        None \<Rightarrow> Some []
      | Some d \<Rightarrow> if truth V d then map_option (map (as_text V)) (keys_of V d) else Some [])"

text \<open>\<^verbatim>\<open>outputs or []\<close>\<close>

definition engine_outputs :: "'o views \<Rightarrow> 'o \<Rightarrow> 'o list option" where
  "engine_outputs V outs = (if truth V outs then items_of V outs else Some [])"

definition request_ids_from_engine_outputs :: "'o views \<Rightarrow> 'o \<Rightarrow> string list option" where
  "request_ids_from_engine_outputs V outs =
     map_option (List.map_filter (\<lambda>out. case attr_of V out ''request_id'' of
         Some r \<Rightarrow> if is_none V r then None else Some (as_text V r)
       | None \<Rightarrow> None)) (engine_outputs V outs)"

definition request_ids_on_enter :: "'o views \<Rightarrow> trace_spec \<Rightarrow> 'o invocation \<Rightarrow> string list option" where
  "request_ids_on_enter V spec iv =
     (case inv_args iv of
        _ # x # _ \<Rightarrow>
          if ts_adapter spec = ''model'' then request_ids_from_scheduler_output V x
          else if ts_adapter spec = ''output'' then request_ids_from_engine_outputs V x
          else Some []
      | _ \<Rightarrow> Some [])"

section \<open>Around a call\<close>

text \<open>\<open>_add_exit_semantics\<close> for the result \<open>v\<close>, with the exception it raises if it does.\<close>

definition schedule_exit :: "('c, 'w) otel \<Rightarrow> 'o views \<Rightarrow> 'o \<Rightarrow> string list \<Rightarrow> ('c, 'w) span_step \<Rightarrow> bool \<times> ('c, 'w) span_step" where
  "schedule_exit E V v ids st =
     (let r1 = set_attribute E ''batch.request_count'' (AInt (int (length ids))) st
      in case attr_of V v ''total_num_scheduled_tokens'' of
           Some n \<Rightarrow> if is_none V n then r1 else then_attribute E ''batch.scheduled_tokens'' (as_attr V n) r1
         | None \<Rightarrow> r1)"

definition output_exit :: "'o views \<Rightarrow> 'o list \<Rightarrow> ('c, 'w) tracing \<Rightarrow> ('c, 'w) tracing" where
  "output_exit V outs s =
     fold (\<lambda>out s. case attr_of V out ''finish_reason'' of
         Some r \<Rightarrow> if is_none V r then s
           else snd (finish_request (case attr_of V out ''request_id'' of Some i \<Rightarrow> as_text V i | None \<Rightarrow> []) s)
       | None \<Rightarrow> s) outs s"

definition add_exit_semantics ::
  "('c, 'w) otel \<Rightarrow> 'o views \<Rightarrow> trace_spec \<Rightarrow> 'o invocation \<Rightarrow> 'o \<Rightarrow> ('c, 'w) span_step \<Rightarrow> 'o option \<times> ('c, 'w) span_step" where
  "add_exit_semantics E V spec iv v st =
     (case (if ts_adapter spec = ''schedule''
            then (case request_ids_from_scheduler_output V v of
                    None \<Rightarrow> (Some (read_error V), st)
                  | Some ids \<Rightarrow> (case schedule_exit E V v ids st of (ok, st1) \<Rightarrow> (if ok then None else Some (query_error V), st1)))
            else (None, st)) of
        (Some e, st1) \<Rightarrow> (Some e, st1)
      | (None, st1) \<Rightarrow>
          (case inv_args iv of
             _ # x # _ \<Rightarrow>
               if ts_adapter spec = ''output''
               then (case engine_outputs V x of
                       None \<Rightarrow> (Some (read_error V), st1)
                     | Some outs \<Rightarrow> (None, (fst st1, output_exit V outs (snd st1))))
               else (None, st1)
           | _ \<Rightarrow> (None, st1)))"

text \<open>The four ways of \<open>_trace_scope\<close>, around the program \<open>body\<close>.\<close>

type_synonym ('o, 's) body = "'s \<Rightarrow> 'o outcome \<times> 's"

definition request_scope ::
  "('c, 'w) otel \<Rightarrow> 'o views \<Rightarrow> 'o invocation \<Rightarrow> ('o, ('c, 'w) tracing) body \<Rightarrow> ('o, ('c, 'w) tracing) body" where
  "request_scope E V iv body s =
     (let i = request_id_from_call V iv;
          s1 = (if i \<noteq> [] then snd (start_request E i (trace_headers_from_call V iv) s) else s)
      in case body s1 of
           (Raise e, s2) \<Rightarrow> (Raise e, if i \<noteq> [] then snd (finish_request i s2) else s2)
         | (Ret v, s2) \<Rightarrow> (Ret v, s2))"

definition context_scope ::
  "('c, 'w) otel \<Rightarrow> 'o views \<Rightarrow> 'o invocation \<Rightarrow> ('o, ('c, 'w) tracing) body \<Rightarrow> ('o, ('c, 'w) tracing) body" where
  "context_scope E V iv body s =
     (let i = request_id_from_call V iv
      in body (if i \<noteq> [] then snd (register_request_context E i (trace_headers_from_call V iv) s) else s))"

definition schedule_scope ::
  "('c, 'w) otel \<Rightarrow> 'o views \<Rightarrow> trace_spec \<Rightarrow> 'o invocation \<Rightarrow> ('o, ('c, 'w) tracing) body \<Rightarrow> ('o, ('c, 'w) tracing) body" where
  "schedule_scope E V spec iv body s =
     (let start = Some (time_ns E (world s))
      in case body s of
           (Raise e, s1) \<Rightarrow>
             (case runtime_start_span E (ts_name spec) (ts_domain spec) (ts_kind spec) [] start s1 of
                (None, s2) \<Rightarrow> (Raise (query_error V), s2)
              | (Some sp, s2) \<Rightarrow> (Raise e, snd (end_span E False (as_text V e) (Some (time_ns E (world s2))) (sp, s2))))
         | (Ret v, s1) \<Rightarrow>
             (case request_ids_from_scheduler_output V v of
                None \<Rightarrow> (Raise (read_error V), s1)
              | Some ids \<Rightarrow>
                  (case runtime_start_span E (ts_name spec) (ts_domain spec) (ts_kind spec) ids start s1 of
                     (None, s2) \<Rightarrow> (Raise (query_error V), s2)
                   | (Some sp, s2) \<Rightarrow>
                       (case add_exit_semantics E V spec iv v (sp, s2) of
                          (Some e, st1) \<Rightarrow> (Raise e, snd st1)
                        | (None, st1) \<Rightarrow> (Ret v, snd (end_span E True [] (Some (time_ns E (world (snd st1)))) st1))))))"

definition span_scope_around ::
  "('c, 'w) otel \<Rightarrow> 'o views \<Rightarrow> trace_spec \<Rightarrow> 'o invocation \<Rightarrow> ('o, ('c, 'w) tracing) body \<Rightarrow> ('o, ('c, 'w) tracing) body" where
  "span_scope_around E V spec iv body s =
     (case request_ids_on_enter V spec iv of
        None \<Rightarrow> (Raise (read_error V), s)
      | Some ids \<Rightarrow>
          (case runtime_start_span E (ts_name spec) (ts_domain spec) (ts_kind spec) ids None s of
             (None, s1) \<Rightarrow> (Raise (query_error V), s1)
           | (Some sp, s1) \<Rightarrow>
               (case activate E (sp, s1) of
                  (None, s2) \<Rightarrow> (Raise (query_error V), s2)
                | (Some token, s2) \<Rightarrow>
                    (case body s2 of
                       (Raise e, s3) \<Rightarrow> (Raise e, deactivate E token (snd (end_span E False (as_text V e) None (sp, s3))))
                     | (Ret v, s3) \<Rightarrow>
                         (case add_exit_semantics E V spec iv v (sp, s3) of
                            (Some e, st1) \<Rightarrow> (Raise e, deactivate E token (snd st1))
                          | (None, st1) \<Rightarrow> (Ret v, deactivate E token (snd (end_span E True [] None st1))))))))"

definition trace_scope ::
  "('c, 'w) otel \<Rightarrow> 'o views \<Rightarrow> trace_spec \<Rightarrow> 'o invocation \<Rightarrow> ('o, ('c, 'w) tracing) body \<Rightarrow> ('o, ('c, 'w) tracing) body" where
  "trace_scope E V spec iv body s =
     (if \<not> trace_enabled E (world s) then body s
      else if ts_adapter spec = ''request'' then request_scope E V iv body s
      else if ts_adapter spec = ''request_context'' then context_scope E V iv body s
      else if ts_adapter spec = ''schedule'' then schedule_scope E V spec iv body s
      else span_scope_around E V spec iv body s)"

text \<open>\<open>make_trace_around_factory\<close>\<close>

definition make_trace_around ::
  "('c, 'w) otel \<Rightarrow> 'o views \<Rightarrow> trace_spec \<Rightarrow> ('o invocation, 'o, ('c, 'w) tracing) plain \<Rightarrow> ('o invocation, 'o, ('c, 'w) tracing) plain" where
  "make_trace_around E V spec f iv = trace_scope E V spec iv (f iv)"

end
