(* ===== verification/Trace_Scope_Props.thy ===== *)
theory Trace_Scope_Props
  imports Trace_Scope
begin

text \<open>
  What the tracing wrapper does to a call: the calls into OpenTelemetry nest, every span that was started is ended once, the call keeps
  its result, and a span links the requests that were registered recently.
\<close>

section \<open>Nested calls\<close>

fun is_start :: "nat \<Rightarrow> 'c api_call \<Rightarrow> bool" where
  "is_start n (StartSpan m _ _ _ _ _) = (m = n)"
| "is_start n _ = False"

fun is_attribute :: "nat \<Rightarrow> 'c api_call \<Rightarrow> bool" where
  "is_attribute n (SetAttribute m _ _) = (m = n)"
| "is_attribute n _ = False"

fun is_end :: "nat \<Rightarrow> 'c api_call \<Rightarrow> bool" where
  "is_end n (EndSpan m _) = (m = n)"
| "is_end n _ = False"

fun is_processor :: "'c api_call \<Rightarrow> bool" where
  "is_processor MakeProcessor = True"
| "is_processor (AddProcessor _) = True"
| "is_processor ShutdownProcessor = True"
| "is_processor _ = False"

type_synonym 'c calls = "('c api_call \<times> bool) list"

definition attributes_of :: "nat \<Rightarrow> 'c calls \<Rightarrow> bool" where
  "attributes_of n l = list_all (is_attribute n \<circ> fst) l"

definition brackets :: "nat \<Rightarrow> 'c calls \<Rightarrow> 'c calls \<Rightarrow> bool" where
  "brackets n att det \<longleftrightarrow>
     att = [] \<and> det = [] \<or> att = [(AttachSpan n, False)] \<and> det = [] \<or> (\<exists>b. att = [(AttachSpan n, True)] \<and> det = [(DetachToken n, b)])"

text \<open>
  The grammar of the recorded calls. A span that was started gets its attributes, surrounds other calls, gets a status and is ended; if it
  was attached it is detached after that. Spans are numbered from the first index up to the second.
\<close>

inductive nested :: "nat \<Rightarrow> 'c calls \<Rightarrow> nat \<Rightarrow> bool" where
  nested_nil: "nested n [] n"
| nested_append: "nested n l m \<Longrightarrow> nested m l' k \<Longrightarrow> nested n (l @ l') k"
| nested_processor: "list_all (is_processor \<circ> fst) l \<Longrightarrow> nested n l n"
| nested_failed: "is_start n x \<Longrightarrow> nested n [(x, False)] (Suc n)"
| nested_span: "is_start n x \<Longrightarrow> attributes_of n pre \<Longrightarrow> brackets n att det \<Longrightarrow> nested (Suc n) l m \<Longrightarrow> attributes_of n post \<Longrightarrow>
    nested n ((x, True) # pre @ att @ l @ post @ [(SetStatus n ok msg, True), (EndSpan n until, b)] @ det) m"

definition started_call :: "nat \<Rightarrow> 'c api_call \<times> bool \<Rightarrow> bool" where
  "started_call k c \<longleftrightarrow> is_start k (fst c) \<and> snd c"

definition ended_call :: "nat \<Rightarrow> 'c api_call \<times> bool \<Rightarrow> bool" where
  "ended_call k c \<longleftrightarrow> is_end k (fst c)"

definition times :: "('a \<Rightarrow> bool) \<Rightarrow> 'a list \<Rightarrow> nat" where
  "times P l = length (filter P l)"

lemma times_simps [simp]:
  "times P [] = 0" "times P (x # l) = (if P x then Suc (times P l) else times P l)" "times P (l @ l') = times P l + times P l'"
  by (simp_all add: times_def)

lemma times_none: "(\<And>x. x \<in> set l \<Longrightarrow> \<not> P x) \<Longrightarrow> times P l = 0"
  by (simp add: times_def filter_empty_conv)

lemma attributes_not_counted: "attributes_of n l \<Longrightarrow> times (started_call k) l = 0" "attributes_of n l \<Longrightarrow> times (ended_call k) l = 0"
proof -
  have "\<not> started_call k x" "\<not> ended_call k x" if "attributes_of n l" "x \<in> set l" for x
    using that by (auto simp: attributes_of_def list_all_iff started_call_def ended_call_def elim!: is_attribute.elims is_start.elims is_end.elims
        dest: bspec)
  then show "attributes_of n l \<Longrightarrow> times (started_call k) l = 0" "attributes_of n l \<Longrightarrow> times (ended_call k) l = 0"
    by (auto intro: times_none)
qed

lemma processors_not_counted:
  "list_all (is_processor \<circ> fst) l \<Longrightarrow> times (started_call k) l = 0" "list_all (is_processor \<circ> fst) l \<Longrightarrow> times (ended_call k) l = 0"
proof -
  have "\<not> started_call k x" "\<not> ended_call k x" if "list_all (is_processor \<circ> fst) l" "x \<in> set l" for x
    using that by (auto simp: list_all_iff started_call_def ended_call_def elim!: is_processor.elims is_start.elims is_end.elims dest: bspec)
  then show "list_all (is_processor \<circ> fst) l \<Longrightarrow> times (started_call k) l = 0"
    "list_all (is_processor \<circ> fst) l \<Longrightarrow> times (ended_call k) l = 0" by (auto intro: times_none)
qed

lemma brackets_not_counted:
  "brackets n att det \<Longrightarrow> times (started_call k) att = 0 \<and> times (ended_call k) att = 0 \<and> times (started_call k) det = 0 \<and> times (ended_call k) det = 0"
  by (auto simp: brackets_def started_call_def ended_call_def)

lemma start_counted [simp]: "is_start n x \<Longrightarrow> started_call k (x, b) \<longleftrightarrow> k = n \<and> b"
  by (cases x) (auto simp: started_call_def)

lemma start_no_end [simp]: "is_start n x \<Longrightarrow> \<not> ended_call k (x, b)"
  by (cases x) (auto simp: ended_call_def)

lemma end_counted [simp]:
  "\<not> started_call k (SetStatus n ok msg, b)" "\<not> started_call k (EndSpan n until, b)"
  "\<not> ended_call k (SetStatus n ok msg, b)" "ended_call k (EndSpan n until, b) \<longleftrightarrow> n = k"
  by (simp_all add: started_call_def ended_call_def)

text \<open>Every span whose start returned is ended exactly once, and no other.\<close>

lemma nested_counts:
  "nested n l m \<Longrightarrow> n \<le> m \<and> times (ended_call k) l = times (started_call k) l \<and> times (started_call k) l \<le> (if n \<le> k \<and> k < m then 1 else 0)"
proof (induction rule: nested.induct)
  case (nested_append n l m l' k')
  then show ?case by (auto split: if_splits)
next
  case (nested_processor l n)
  then show ?case using processors_not_counted[of l k] by simp
next
  case (nested_failed n x)
  then show ?case by simp
next
  case (nested_span n x pre att det l m post ok msg until b)
  then show ?case using brackets_not_counted[of n att det k] attributes_not_counted[of n pre k] attributes_not_counted[of n post k]
    by (auto split: if_splits)
qed simp

section \<open>The calls of a scope\<close>

definition steps_nested :: "('c, 'w) tracing \<Rightarrow> ('c, 'w) tracing \<Rightarrow> bool" where
  "steps_nested s s' \<longleftrightarrow> (\<exists>l. api_calls s' = api_calls s @ l \<and> nested (next_span s) l (next_span s'))"

lemma steps_refl: "api_calls s' = api_calls s \<Longrightarrow> next_span s' = next_span s \<Longrightarrow> steps_nested s s'"
  by (auto simp: steps_nested_def intro!: exI[of _ "[]"] nested_nil)

lemma steps_trans: "steps_nested s s' \<Longrightarrow> steps_nested s' s'' \<Longrightarrow> steps_nested s s''"
  by (auto simp: steps_nested_def intro: nested_append)

lemma call_api_view:
  "call_api E x s = (ok, s') \<Longrightarrow> \<exists>w. api E x (world s) = (ok, w) \<and> s' = s\<lparr>world := w, api_calls := api_calls s @ [(x, ok)]\<rparr>"
  by (auto simp: call_api_def split: prod.splits)

text \<open>Setting attributes of a span.\<close>

definition only_attributes :: "('c, 'w) span_step \<Rightarrow> ('c, 'w) span_step \<Rightarrow> bool" where
  "only_attributes st st' \<longleftrightarrow>
     hs_span (fst st') = hs_span (fst st) \<and> hs_ended (fst st') = hs_ended (fst st) \<and> next_span (snd st') = next_span (snd st) \<and>
     (\<exists>l. api_calls (snd st') = api_calls (snd st) @ l \<and> (case hs_span (fst st) of None \<Rightarrow> l = [] | Some n \<Rightarrow> attributes_of n l))"

lemma attributes_append: "attributes_of n l \<Longrightarrow> attributes_of n l' \<Longrightarrow> attributes_of n (l @ l')"
  by (simp add: attributes_of_def)

lemma only_attributes_refl: "only_attributes st st"
  by (auto simp: only_attributes_def attributes_of_def split: option.split)

lemma only_attributes_trans: "only_attributes st st' \<Longrightarrow> only_attributes st' st'' \<Longrightarrow> only_attributes st st''"
  by (cases "hs_span (fst st)") (auto simp: only_attributes_def intro: attributes_append)

lemma set_attribute_only: "only_attributes st (snd (set_attribute E key v st))"
proof -
  obtain sp s where st: "st = (sp, s)" by (cases st)
  show ?thesis
  proof (cases "is_recording E (world s) sp = Some True \<and> attribute_count sp < MAX_ATTRIBUTE_COUNT \<and> key \<noteq> [] \<and> length key \<le> MAX_ATTRIBUTE_KEY_LENGTH")
    case True
    then obtain n where n: "hs_span sp = Some n" by (auto simp: is_recording_def split: option.splits)
    show ?thesis
    proof (cases "safe_attribute v")
      case None
      then show ?thesis using True n by (simp add: set_attribute_def st only_attributes_refl)
    next
      case (Some x)
      obtain ok s1 where c: "call_api E (SetAttribute n key x) s = (ok, s1)" by (cases "call_api E (SetAttribute n key x) s")
      from call_api_view[OF c] obtain w where "s1 = s\<lparr>world := w, api_calls := api_calls s @ [(SetAttribute n key x, ok)]\<rparr>" by blast
      then show ?thesis using True Some n c
        by (cases ok) (simp_all add: set_attribute_def st only_attributes_def attributes_of_def)
    qed
  qed (auto simp: set_attribute_def st only_attributes_refl split: option.split)
qed

lemma then_attribute_only: "only_attributes st (snd r) \<Longrightarrow> only_attributes st (snd (then_attribute E key v r))"
  by (auto simp: then_attribute_def intro: only_attributes_trans[OF _ set_attribute_only])

text \<open>What the code asks OpenTelemetry without a guard, and the context of a span, are assumed not to raise where that is needed.\<close>

definition queries_return :: "('c, 'w) otel \<Rightarrow> bool" where
  "queries_return E \<longleftrightarrow> (\<forall>w. active_provider E w \<noteq> None) \<and> (\<forall>n w. recording E n w \<noteq> None)"

definition contexts_return :: "('c, 'w) otel \<Rightarrow> bool" where
  "contexts_return E \<longleftrightarrow> (\<forall>n w. span_context E n w \<noteq> None)"

lemma recording_returns: "queries_return E \<Longrightarrow> \<exists>b. is_recording E w sp = Some b"
  by (auto simp: is_recording_def queries_return_def split: option.split)

lemma set_attribute_returns: "queries_return E \<Longrightarrow> fst (set_attribute E key v st)"
  using recording_returns[of E "world (snd st)" "fst st"]
  by (cases st) (auto simp: set_attribute_def split: option.split prod.split bool.split)

lemma then_attribute_returns: "queries_return E \<Longrightarrow> fst (then_attribute E key v r) = fst r"
  by (simp add: then_attribute_def set_attribute_returns)

lemma activate_returns:
  assumes "queries_return E"
  shows "\<exists>token s. activate E st = (Some token, s)"
  using recording_returns[OF assms, of "world (snd st)" "fst st"]
  by (cases st) (auto simp: activate_def split: option.split prod.split)

text \<open>Starting a span.\<close>

definition opened :: "('c, 'w) tracing \<Rightarrow> ('c, 'w) span_step \<Rightarrow> bool" where
  "opened s st \<longleftrightarrow>
     (case hs_span (fst st) of
        None \<Rightarrow> steps_nested s (snd st)
      | Some n \<Rightarrow> n = next_span s \<and> \<not> hs_ended (fst st) \<and> next_span (snd st) = Suc n \<and>
          (\<exists>p a x. api_calls (snd st) = api_calls s @ p @ (x, True) # a \<and> list_all (is_processor \<circ> fst) p \<and> is_start n x \<and> attributes_of n a))"

lemma opened_attributes:
  assumes "opened s st" "only_attributes st st'"
  shows "opened s st'"
proof (cases "hs_span (fst st)")
  case None
  then show ?thesis using assms by (auto simp: opened_def only_attributes_def steps_nested_def)
next
  case (Some n)
  obtain p a x where c: "api_calls (snd st) = api_calls s @ p @ (x, True) # a" "list_all (is_processor \<circ> fst) p" "is_start n x" "attributes_of n a"
    using assms(1) Some by (auto simp: opened_def)
  obtain l where "api_calls (snd st') = api_calls (snd st) @ l" "attributes_of n l" using assms(2) Some by (auto simp: only_attributes_def)
  then have "api_calls (snd st') = api_calls s @ p @ (x, True) # (a @ l)" "attributes_of n (a @ l)" using c by (simp_all add: attributes_append)
  then show ?thesis using assms Some c(2,3) unfolding opened_def only_attributes_def by auto
qed

lemma opened_set_attribute: "opened s st \<Longrightarrow> opened s (snd (set_attribute E key v st))"
  by (rule opened_attributes[OF _ set_attribute_only])

lemma opened_then_attribute: "opened s (snd r) \<Longrightarrow> opened s (snd (then_attribute E key v r))"
  by (simp add: then_attribute_def opened_set_attribute)

definition only_processors :: "('c, 'w) tracing \<Rightarrow> ('c, 'w) tracing \<Rightarrow> bool" where
  "only_processors s s' \<longleftrightarrow> next_span s' = next_span s \<and> inflight s' = inflight s \<and>
     (\<exists>p. api_calls s' = api_calls s @ p \<and> list_all (is_processor \<circ> fst) p)"

lemma register_perfetto_calls: "only_processors s (register_perfetto E p s)"
proof -
  obtain ok1 s1 where c1: "call_api E MakeProcessor s = (ok1, s1)" by (cases "call_api E MakeProcessor s")
  obtain ok2 s2 where c2: "call_api E (AddProcessor p) s1 = (ok2, s2)" by (cases "call_api E (AddProcessor p) s1")
  from call_api_view[OF c1] obtain w1 where s1: "s1 = s\<lparr>world := w1, api_calls := api_calls s @ [(MakeProcessor, ok1)]\<rparr>" by blast
  from call_api_view[OF c2] obtain w2 where s2: "s2 = s1\<lparr>world := w2, api_calls := api_calls s1 @ [(AddProcessor p, ok2)]\<rparr>" by blast
  show ?thesis
    by (cases ok1; cases ok2) (auto simp: register_perfetto_def Let_def c1 c2 only_processors_def, auto simp: s1 s2 call_api_def split: prod.split)
qed

lemma get_provider_calls: "get_provider E s = (r, s') \<Longrightarrow> only_processors s s'"
  using register_perfetto_calls[of s E] by (auto simp: get_provider_def only_processors_def split: if_splits option.splits)

lemma processors_nested: "only_processors s s' \<Longrightarrow> steps_nested s s'"
  by (auto simp: only_processors_def steps_nested_def intro: nested_processor)

text \<open>The four ways a start can go.\<close>

lemma backend_start_cases:
  assumes "backend_start_span E name domain kind links start s = (r, s')"
  obtains (raised) "r = None" "active_provider E (world s) = None" "s' = s"
  | (off) "r = Some new_noop_hook_span" "get_provider E s = (Some None, s')"
  | (failed) s1 x w ok where "r = Some new_noop_hook_span" "only_processors s s1" "is_start (next_span s1) x"
      "s' = s1\<lparr>next_span := Suc (next_span s1), world := w, api_calls := api_calls s1 @ [(x, ok)]\<rparr>"
      "ok \<Longrightarrow> span_context E (next_span s1) w = None" "api E x (world s1) = (ok, w)"
      "\<exists>scope k. x = StartSpan (next_span s1) name scope k (native_links E links) start"
  | (started) s1 x w sp where "r = Some sp" "hs_span sp = Some (next_span s1)" "\<not> hs_ended sp" "only_processors s s1" "is_start (next_span s1) x"
      "s' = s1\<lparr>next_span := Suc (next_span s1), world := w, api_calls := api_calls s1 @ [(x, True)]\<rparr>" "api E x (world s1) = (True, w)"
      "\<exists>scope k. x = StartSpan (next_span s1) name scope k (native_links E links) start"
proof -
  obtain q s1 where g: "get_provider E s = (q, s1)" by (cases "get_provider E s")
  note p = get_provider_calls[OF g]
  consider "q = None" | "q = Some None" | i where "q = Some (Some i)" by (metis option.exhaust)
  then show ?thesis
  proof cases
    case 1
    then have "active_provider E (world s) = None" "s1 = s" using g by (auto simp: get_provider_def split: if_splits option.splits)
    moreover have "r = None" "s' = s1" using assms 1 g by (simp_all add: backend_start_span_def)
    ultimately show ?thesis by (intro raised) simp_all
  next
    case 2
    then have "r = Some new_noop_hook_span" "s' = s1" using assms g by (simp_all add: backend_start_span_def)
    then show ?thesis using 2 g by (intro off) simp_all
  next
    case 3
    define x where "x = StartSpan (next_span s1) name (HOOK_SCOPE_PREFIX @ ''.'' @ (if domain = [] then ''tracing'' else domain))
      (case dict_get SPAN_KINDS kind of None \<Rightarrow> ''INTERNAL'' | Some k \<Rightarrow> k) (native_links E links) start"
    obtain ok s2 where c: "call_api E x (s1\<lparr>next_span := next_span s1 + 1\<rparr>) = (ok, s2)"
      by (cases "call_api E x (s1\<lparr>next_span := next_span s1 + 1\<rparr>)")
    from call_api_view[OF c] obtain w where w: "api E x (world s1) = (ok, w)"
      "s2 = s1\<lparr>next_span := Suc (next_span s1), world := w, api_calls := api_calls s1 @ [(x, ok)]\<rparr>" by auto
    have st: "(r, s') = (if ok then case new_hook_span E (next_span s1) w of None \<Rightarrow> (Some new_noop_hook_span, s2) | Some sp \<Rightarrow> (Some sp, s2)
        else (Some new_noop_hook_span, s2))"
      using c assms w(2) by (cases ok) (auto simp: backend_start_span_def g 3 x_def Let_def)
    have x: "is_start (next_span s1) x" "\<exists>scope k. x = StartSpan (next_span s1) name scope k (native_links E links) start"
      by (simp_all add: x_def)
    show ?thesis
    proof (cases "ok \<and> span_context E (next_span s1) w \<noteq> None")
      case True
      then obtain sp where sp: "new_hook_span E (next_span s1) w = Some sp" "hs_span sp = Some (next_span s1)" "\<not> hs_ended sp"
        by (auto simp: new_hook_span_def)
      show ?thesis by (rule started[OF _ sp(2,3) p x(1) _ _ x(2)]) (use st True sp(1) w in auto)
    next
      case False
      show ?thesis by (rule failed[OF _ p x(1) _ _ w(1) x(2)]) (use st False w(2) in \<open>auto simp: new_hook_span_def split: if_splits\<close>)
    qed
  qed
qed

lemma backend_start_opened:
  assumes ctx: "contexts_return E" and run: "backend_start_span E name domain kind links start s = (Some sp, s')"
  shows "opened s (sp, s')"
  using run
proof (cases rule: backend_start_cases)
  case off
  then show ?thesis using processors_nested[OF get_provider_calls[OF off(2)]] by (simp add: opened_def new_noop_hook_span_def)
next
  case (failed s1 x w ok)
  have "span_context E (next_span s1) w \<noteq> None" using ctx unfolding contexts_return_def by blast
  then have no: "\<not> ok" using failed(5) by auto
  have "steps_nested s1 s'" unfolding steps_nested_def
    by (rule exI[of _ "[(x, ok)]"]) (use nested_failed[OF failed(3)] no in \<open>simp add: failed(4)\<close>)
  then show ?thesis using failed(1) steps_trans[OF processors_nested[OF failed(2)]] by (simp add: opened_def new_noop_hook_span_def)
next
  case (started s1 x w sp')
  obtain l where l: "api_calls s1 = api_calls s @ l" "list_all (is_processor \<circ> fst) l" "next_span s1 = next_span s"
    using started(4) by (auto simp: only_processors_def)
  have "api_calls s' = api_calls s @ l @ (x, True) # [] \<and> list_all (is_processor \<circ> fst) l \<and> is_start (next_span s1) x \<and>
      attributes_of (next_span s1) []" using l started(5) by (simp add: started(6) attributes_of_def)
  then have "\<exists>p a x. api_calls s' = api_calls s @ p @ (x, True) # a \<and> list_all (is_processor \<circ> fst) p \<and> is_start (next_span s1) x \<and>
      attributes_of (next_span s1) a" by blast
  then show ?thesis unfolding opened_def using started(1-3) l(3) by (simp add: started(6))
qed simp

lemma backend_start_returns:
  assumes "queries_return E"
  shows "\<exists>sp s'. backend_start_span E name domain kind links start s = (Some sp, s')"
proof -
  obtain r s' where run: "backend_start_span E name domain kind links start s = (r, s')" by fastforce
  have "active_provider E (world s) \<noteq> None" using assms unfolding queries_return_def by blast
  then have "r \<noteq> None" by (cases rule: backend_start_cases[OF run]) simp_all
  then show ?thesis using run by blast
qed

text \<open>After the start come the attributes.\<close>

lemma runtime_start_cases:
  assumes "runtime_start_span E name domain kind ids start s = (r, s')"
  obtains (off) "\<not> trace_enabled E (world s)" "r = Some new_noop_hook_span" "s' = s"
  | (raised) "trace_enabled E (world s)" "r = None"
      "backend_start_span E name domain kind (request_links E (take MAX_LINKS_PER_SPAN ids) s) start s = (None, s')"
  | (attributed) sp s1 sp' ok where "trace_enabled E (world s)" "r = (if ok then Some sp' else None)"
      "backend_start_span E name domain kind (request_links E (take MAX_LINKS_PER_SPAN ids) s) start s = (Some sp, s1)"
      "only_attributes (sp, s1) (sp', s')" "queries_return E \<Longrightarrow> ok"
proof (cases "trace_enabled E (world s)")
  case False
  then have "r = Some new_noop_hook_span" "s' = s" using assms by (simp_all add: runtime_start_span_def)
  then show ?thesis using False by (intro off) simp_all
next
  case True
  let ?ids = "take MAX_LINKS_PER_SPAN ids"
  obtain q s1 where b': "backend_start_span E name domain kind (request_links E ?ids s) start s = (q, s1)"
    by (cases "backend_start_span E name domain kind (request_links E ?ids s) start s")
  show ?thesis
  proof (cases q)
    case None
    then have "r = None" "s' = s1" using assms True b' by (simp_all add: runtime_start_span_def Let_def)
    then show ?thesis using True b' None by (intro raised) simp_all
  next
    case (Some sp)
    define r1 where "r1 = set_attribute E ''process.pid'' (AInt (process_pid E (world s1))) (sp, s1)"
    define r2 where "r2 = then_attribute E ''thread.id'' (AInt (thread_id E (world (snd (snd r1))))) r1"
    define r3 where "r3 = (if ?ids = [] then r2 else then_attribute E ''request.ids'' (AList (map AStr ?ids)) r2)"
    have run: "runtime_start_span E name domain kind ids start s =
        (case is_recording E (world s1) sp of None \<Rightarrow> (None, s1)
         | Some b \<Rightarrow> if \<not> b then (Some sp, s1) else (if fst r3 then Some (fst (snd r3)) else None, snd (snd r3)))"
      unfolding runtime_start_span_def Let_def b' Some r1_def r2_def r3_def using True by (simp only: not_not option.case prod.case if_False simp_thms)
    have only: "only_attributes (sp, s1) (snd r3)"
      unfolding r3_def r2_def r1_def by (auto intro!: then_attribute_only set_attribute_only)
    have returns: "queries_return E \<Longrightarrow> fst r3" by (simp add: r3_def r2_def r1_def then_attribute_returns set_attribute_returns)
    show ?thesis
    proof (cases "is_recording E (world s1) sp")
      case None
      have "r = None" "s' = s1" using run assms None by simp_all
      moreover have "\<not> queries_return E" using None recording_returns[of E "world s1" sp] by auto
      ultimately show ?thesis using True b' Some only_attributes_refl[of "(sp, s1)"] by (intro attributed[of False sp sp s1]) simp_all
    next
      case rec: (Some b)
      show ?thesis
      proof (cases b)
        case False
        then have "r = Some sp" "s' = s1" using run assms rec by simp_all
        then show ?thesis using True b' Some only_attributes_refl[of "(sp, s1)"] by (intro attributed[of True sp sp s1]) simp_all
      next
        case b: True
        have "r = (if fst r3 then Some (fst (snd r3)) else None)" "s' = snd (snd r3)" using run assms rec b by simp_all
        then show ?thesis using True b' Some only returns by (intro attributed[of "fst r3" "fst (snd r3)" sp s1]) simp_all
      qed
    qed
  qed
qed

lemma runtime_start_opened:
  assumes "contexts_return E" "runtime_start_span E name domain kind ids start s = (Some sp, s')"
  shows "opened s (sp, s')"
  using assms(2)
proof (cases rule: runtime_start_cases)
  case off
  then show ?thesis by (simp add: opened_def new_noop_hook_span_def steps_refl)
next
  case (attributed sp0 s1 sp' ok)
  then show ?thesis using opened_attributes[OF backend_start_opened[OF assms(1) attributed(3)], of "(sp', s')"] by (simp split: if_splits)
qed simp

lemma runtime_start_returns:
  assumes "queries_return E"
  shows "\<exists>sp s'. runtime_start_span E name domain kind ids start s = (Some sp, s')"
proof -
  obtain r s' where run: "runtime_start_span E name domain kind ids start s = (r, s')" by fastforce
  obtain sp s1 where begun: "backend_start_span E name domain kind (request_links E (take MAX_LINKS_PER_SPAN ids) s) start s = (Some sp, s1)"
    using backend_start_returns[OF assms] by blast
  have "r \<noteq> None" by (cases rule: runtime_start_cases[OF run]) (use begun assms in simp_all)
  then show ?thesis using run by blast
qed

text \<open>Ending it. Setting the status is assumed not to raise.\<close>

definition status_returns :: "('c, 'w) otel \<Rightarrow> bool" where
  "status_returns E \<longleftrightarrow> (\<forall>n ok msg w. fst (api E (SetStatus n ok msg) w))"

lemma end_span_calls:
  assumes "status_returns E" "hs_span sp = Some n" "\<not> hs_ended sp"
  shows "\<exists>msg' b. api_calls (snd (end_span E ok msg until (sp, s))) = api_calls s @ [(SetStatus n ok msg', True), (EndSpan n until, b)] \<and>
    next_span (snd (end_span E ok msg until (sp, s))) = next_span s"
proof -
  let ?msg = "if take MAX_ATTRIBUTE_VALUE_LENGTH msg = [] then None else Some (take MAX_ATTRIBUTE_VALUE_LENGTH msg)"
  obtain r s1 where c: "call_api E (SetStatus n ok ?msg) s = (r, s1)" by (cases "call_api E (SetStatus n ok ?msg) s")
  obtain b s2 where c2: "call_api E (EndSpan n until) s1 = (b, s2)" by (cases "call_api E (EndSpan n until) s1")
  from call_api_view[OF c] obtain w where w: "api E (SetStatus n ok ?msg) (world s) = (r, w)"
    "s1 = s\<lparr>world := w, api_calls := api_calls s @ [(SetStatus n ok ?msg, r)]\<rparr>" by blast
  from call_api_view[OF c2] obtain w2 where w2: "s2 = s1\<lparr>world := w2, api_calls := api_calls s1 @ [(EndSpan n until, b)]\<rparr>" by blast
  have "r" using assms(1) w(1) unfolding status_returns_def by (metis fst_conv)
  then have "end_span E ok msg until (sp, s) = (sp\<lparr>hs_ended := True\<rparr>, s2)"
    using assms(2,3) c c2 by (simp add: end_span_def Let_def)
  then show ?thesis using \<open>r\<close> by (auto simp: w(2) w2)
qed

lemma end_noop: "hs_span sp = None \<Longrightarrow> end_span E ok msg until (sp, s) = (sp, s)"
  by (simp add: end_span_def)

text \<open>How an attach and its token relate.\<close>

definition attached :: "('c, 'w) otel \<Rightarrow> ('c, 'w) span_step \<Rightarrow> nat option \<Rightarrow> ('c, 'w) tracing \<Rightarrow> bool" where
  "attached E st token s \<longleftrightarrow> next_span s = next_span (snd st) \<and>
     (\<exists>att. api_calls s = api_calls (snd st) @ att \<and>
       (token = None \<and> att = [] \<or>
        (\<exists>n. hs_span (fst st) = Some n \<and>
          (token = None \<and> att = [(AttachSpan n, False)] \<or> token = Some n \<and> otel_available E \<and> att = [(AttachSpan n, True)]))))"

lemma activate_attached: "activate E st = (Some token, s) \<Longrightarrow> attached E st token s"
  by (cases st) (auto simp: activate_def attached_def split: if_splits option.splits prod.splits dest!: call_api_view)

lemma not_attached: "attached E st None (snd st)"
  by (simp add: attached_def)

lemma scope_closes:
  assumes E: "status_returns E" and st: "opened s st" and att: "attached E st token s1" and body: "steps_nested s1 s2"
    and a: "only_attributes (fst st, s2) st1"
  shows "steps_nested s (deactivate E token (snd (end_span E ok msg until st1)))"
proof (cases "hs_span (fst st)")
  case None
  then have t: "token = None" "api_calls s1 = api_calls (snd st)" "next_span s1 = next_span (snd st)" using att by (auto simp: attached_def)
  obtain sp2 s3 where st1: "st1 = (sp2, s3)" by (cases st1)
  have "hs_span sp2 = None" "api_calls s3 = api_calls s2" "next_span s3 = next_span s2"
    using a None by (auto simp: only_attributes_def st1)
  moreover have "steps_nested s (snd st)" "steps_nested (snd st) s2" using st None body t by (simp_all add: opened_def steps_nested_def)
  ultimately show ?thesis using t(1) steps_trans[of s "snd st" s2]
    by (simp add: deactivate_def st1 end_noop) (simp add: steps_nested_def)
next
  case (Some n)
  obtain sp2 s3 where st1: "st1 = (sp2, s3)" by (cases st1)
  obtain p pre x where o: "api_calls (snd st) = api_calls s @ p @ (x, True) # pre" "list_all (is_processor \<circ> fst) p" "is_start n x"
    "attributes_of n pre" "n = next_span s" "\<not> hs_ended (fst st)" "next_span (snd st) = Suc n" using st Some by (auto simp: opened_def)
  obtain l where l: "api_calls s2 = api_calls s1 @ l" "nested (next_span s1) l (next_span s2)" using body by (auto simp: steps_nested_def)
  obtain post where post: "api_calls s3 = api_calls s2 @ post" "attributes_of n post" "hs_span sp2 = Some n" "\<not> hs_ended sp2" "next_span s3 = next_span s2"
    using a Some o(6) by (auto simp: only_attributes_def st1)
  let ?s4 = "snd (end_span E ok msg until (sp2, s3))"
  obtain msg' b where e: "api_calls ?s4 = api_calls s3 @ [(SetStatus n ok msg', True), (EndSpan n until, b)]" "next_span ?s4 = next_span s3"
    using end_span_calls[OF E post(3,4)] by blast
  obtain att' det where d: "api_calls s1 = api_calls (snd st) @ att'" "brackets n att' det"
    "api_calls (deactivate E token ?s4) = api_calls ?s4 @ det" "next_span (deactivate E token ?s4) = next_span ?s4" "next_span s1 = Suc n"
  proof -
    from att Some obtain att' where att': "api_calls s1 = api_calls (snd st) @ att'" "next_span s1 = Suc n"
      "token = None \<and> att' = [] \<or> token = None \<and> att' = [(AttachSpan n, False)] \<or> token = Some n \<and> otel_available E \<and> att' = [(AttachSpan n, True)]"
      using o(7) by (auto simp: attached_def)
    obtain r s5 where c: "call_api E (DetachToken n) ?s4 = (r, s5)" by (cases "call_api E (DetachToken n) ?s4")
    from call_api_view[OF c] obtain w where s5: "s5 = ?s4\<lparr>world := w, api_calls := api_calls ?s4 @ [(DetachToken n, r)]\<rparr>" by blast
    show ?thesis
      by (rule that[of att' "if token = None then [] else [(DetachToken n, r)]"])
        (use att' c in \<open>auto simp: brackets_def deactivate_def s5\<close>)
  qed
  have "nested n ((x, True) # pre @ att' @ l @ post @ [(SetStatus n ok msg', True), (EndSpan n until, b)] @ det) (next_span s2)"
    using nested_span[OF o(3,4) d(2) _ post(2)] l(2) d(5) by simp
  from nested_append[OF nested_processor[OF o(2)] this]
  have "nested n (p @ (x, True) # pre @ att' @ l @ post @ [(SetStatus n ok msg', True), (EndSpan n until, b)] @ det) (next_span s2)" .
  then show ?thesis using o(1,5) l(1) post(1,5) e d unfolding steps_nested_def st1 by auto
qed

section \<open>The four scopes\<close>

lemma output_exit_calls: "api_calls (output_exit V outs s) = api_calls s" "next_span (output_exit V outs s) = next_span s"
  "world (output_exit V outs s) = world s"
  by (induction outs arbitrary: s) (simp_all add: output_exit_def finish_request_def split: option.split)

lemma output_exit_only: "only_attributes st (fst st, output_exit V outs (snd st))"
  by (auto simp: only_attributes_def output_exit_calls attributes_of_def split: option.split)

lemma schedule_exit_only: "only_attributes st (snd (schedule_exit E V v ids st))"
  by (auto simp: schedule_exit_def Let_def intro!: then_attribute_only set_attribute_only split: option.split)

lemma schedule_exit_returns: "queries_return E \<Longrightarrow> fst (schedule_exit E V v ids st)"
  by (auto simp: schedule_exit_def Let_def then_attribute_returns set_attribute_returns split: option.split)

lemma exit_only:
  assumes "add_exit_semantics E V spec iv v st = (r, st1)"
  shows "only_attributes st st1"
proof (cases "ts_adapter spec = ''schedule''")
  case True
  then show ?thesis using assms schedule_exit_only[of st E V v]
    by (auto simp: add_exit_semantics_def intro: only_attributes_refl split: if_splits option.splits list.splits prod.splits) (metis snd_conv)+
next
  case False
  then show ?thesis using assms
    by (auto simp: add_exit_semantics_def intro: output_exit_only only_attributes_refl split: if_splits option.splits list.splits)
qed

lemma exit_readable:
  assumes "request_ids_on_enter V spec iv = Some ids" "ts_adapter spec \<noteq> ''schedule''"
  shows "\<exists>st1. add_exit_semantics E V spec iv v st = (None, st1)"
  using assms by (auto simp: add_exit_semantics_def request_ids_on_enter_def request_ids_from_engine_outputs_def split: list.splits if_splits)

lemma schedule_exit_readable:
  assumes "queries_return E" "request_ids_from_scheduler_output V v = Some ids" "ts_adapter spec = ''schedule''"
  shows "\<exists>st1. add_exit_semantics E V spec iv v st = (None, st1)"
  using assms schedule_exit_returns[OF assms(1), of V v ids st] by (auto simp: add_exit_semantics_def split: list.split prod.split)

lemma register_calls: "steps_nested s (snd (register_request_context E i hs s))"
  by (auto simp: register_request_context_def Let_def intro: steps_refl)

lemma finish_calls: "steps_nested s (snd (finish_request i s))"
  by (auto simp: finish_request_def intro: steps_refl)

lemma request_scope_nested:
  assumes "\<And>s. steps_nested s (snd (body s))"
  shows "steps_nested s (snd (request_scope E V iv body s))"
proof -
  let ?i = "request_id_from_call V iv"
  define s1 where "s1 = (if ?i \<noteq> [] then snd (start_request E ?i (trace_headers_from_call V iv) s) else s)"
  have "steps_nested s s1" by (simp add: s1_def start_request_def register_calls steps_refl)
  moreover obtain r s2 where b: "body s1 = (r, s2)" by (cases "body s1")
  have "steps_nested s1 s2" using assms[of s1] by (simp add: b)
  ultimately have "steps_nested s s2" by (rule steps_trans)
  then show ?thesis using steps_trans[OF _ finish_calls, of s s2 ?i] b
    by (cases r) (simp_all add: request_scope_def Let_def flip: s1_def)
qed

lemma context_scope_nested:
  assumes "\<And>s. steps_nested s (snd (body s))"
  shows "steps_nested s (snd (context_scope E V iv body s))"
  using steps_trans[OF register_calls assms] assms by (simp add: context_scope_def Let_def)

text \<open>The calls that must return for the spans to be ended.\<close>

definition endings_return :: "('c, 'w) otel \<Rightarrow> bool" where
  "endings_return E \<longleftrightarrow> status_returns E \<and> queries_return E \<and> contexts_return E"

lemma endings_returnD: "endings_return E \<Longrightarrow> status_returns E" "endings_return E \<Longrightarrow> queries_return E" "endings_return E \<Longrightarrow> contexts_return E"
  by (simp_all add: endings_return_def)

lemma schedule_scope_nested:
  assumes E: "endings_return E" and body: "\<And>s. steps_nested s (snd (body s))" and spec: "ts_adapter spec = ''schedule''"
  shows "steps_nested s (snd (schedule_scope E V spec iv body s))"
proof -
  note ret = endings_returnD[OF E]
  obtain r s1 where b: "body s = (r, s1)" by (cases "body s")
  have s1: "steps_nested s s1" using body[of s] by (simp add: b)
  have ends: "steps_nested s (snd (end_span E ok msg until st1))"
    if "runtime_start_span E (ts_name spec) (ts_domain spec) (ts_kind spec) ids start s1 = (Some sp, s2)" "only_attributes (sp, s2) st1"
    for ok msg until sp s2 st1 ids start
  proof -
    have o: "opened s1 (sp, s2)" by (rule runtime_start_opened[OF ret(3) that(1)])
    have "only_attributes (fst (sp, s2), snd (sp, s2)) st1" using that(2) by simp
    from steps_trans[OF s1 scope_closes[OF ret(1) o not_attached steps_refl[OF refl refl] this]] show ?thesis by (simp add: deactivate_def)
  qed
  show ?thesis
  proof (cases r)
    case (Raise e)
    obtain sp s2 where run: "runtime_start_span E (ts_name spec) (ts_domain spec) (ts_kind spec) [] (Some (time_ns E (world s))) s1 = (Some sp, s2)"
      using runtime_start_returns[OF ret(2)] by blast
    show ?thesis using ends[OF run only_attributes_refl] b run Raise by (simp add: schedule_scope_def Let_def)
  next
    case (Ret v)
    show ?thesis
    proof (cases "request_ids_from_scheduler_output V v")
      case None
      then show ?thesis using b Ret s1 by (simp add: schedule_scope_def Let_def)
    next
      case (Some ids)
      obtain sp s2 where run: "runtime_start_span E (ts_name spec) (ts_domain spec) (ts_kind spec) ids (Some (time_ns E (world s))) s1 = (Some sp, s2)"
        using runtime_start_returns[OF ret(2)] by blast
      obtain st1 where st1: "add_exit_semantics E V spec iv v (sp, s2) = (None, st1)"
        using schedule_exit_readable[OF ret(2) Some spec, of iv "(sp, s2)"] by blast
      then show ?thesis using b Ret Some run ends[OF run exit_only[OF st1]] by (simp add: schedule_scope_def Let_def)
    qed
  qed
qed

lemma span_scope_nested:
  assumes E: "endings_return E" and body: "\<And>s. steps_nested s (snd (body s))" and spec: "ts_adapter spec \<noteq> ''schedule''"
  shows "steps_nested s (snd (span_scope_around E V spec iv body s))"
proof (cases "request_ids_on_enter V spec iv")
  case None
  then show ?thesis by (simp add: span_scope_around_def steps_refl)
next
  case (Some ids)
  note ret = endings_returnD[OF E]
  obtain sp s0 where run: "runtime_start_span E (ts_name spec) (ts_domain spec) (ts_kind spec) ids None s = (Some sp, s0)"
    using runtime_start_returns[OF ret(2)] by blast
  obtain token s1 where a: "activate E (sp, s0) = (Some token, s1)" using activate_returns[OF ret(2)] by blast
  obtain r s2 where b: "body s1 = (r, s2)" by (cases "body s1")
  have s2: "steps_nested s1 s2" using body[of s1] by (simp add: b)
  note closes = scope_closes[OF ret(1) runtime_start_opened[OF ret(3) run] activate_attached[OF a] s2]
  show ?thesis
  proof (cases r)
    case (Raise e)
    then show ?thesis using closes[OF only_attributes_refl] a b Some run by (simp add: span_scope_around_def)
  next
    case (Ret v)
    obtain st1 where st1: "add_exit_semantics E V spec iv v (sp, s2) = (None, st1)"
      using exit_readable[OF Some spec, of E v "(sp, s2)"] by blast
    have "only_attributes (fst (sp, s0), s2) st1" using exit_only[OF st1] by simp
    then show ?thesis using closes a b Some run Ret st1 by (simp add: span_scope_around_def)
  qed
qed

text \<open>
  Property C35. When the calls that a function makes into OpenTelemetry nest, so do those of the function with the tracing wrapper, for every
  kind of trace, whatever the function does, and whichever of the calls raise that add a processor, start a span, set an attribute,
  attach, detach or end. So wrappers can be stacked: every span whose start returned gets a status, is
  ended exactly once, and is detached if it was attached. It is assumed that setting the status, \<^verbatim>\<open>get_tracer_provider\<close>, \<^verbatim>\<open>is_recording\<close> and
  \<^verbatim>\<open>get_span_context\<close> do not raise.
\<close>

theorem traced_calls_nest:
  assumes "endings_return E" and "\<And>s. steps_nested s (snd (f iv s))"
  shows "\<exists>l. api_calls (snd (make_trace_around E V spec f iv s)) = api_calls s @ l \<and>
    nested (next_span s) l (next_span (snd (make_trace_around E V spec f iv s))) \<and>
    (\<forall>k. times (ended_call k) l = times (started_call k) l \<and> times (started_call k) l \<le> 1)"
proof -
  have "steps_nested s (snd (make_trace_around E V spec f iv s))"
    using request_scope_nested[OF assms(2)] context_scope_nested[OF assms(2)] schedule_scope_nested[OF assms] span_scope_nested[OF assms] assms(2)
    by (simp add: make_trace_around_def trace_scope_def)
  then obtain l where l: "api_calls (snd (make_trace_around E V spec f iv s)) = api_calls s @ l"
    "nested (next_span s) l (next_span (snd (make_trace_around E V spec f iv s)))" by (auto simp: steps_nested_def)
  have "times (ended_call k) l = times (started_call k) l \<and> times (started_call k) l \<le> 1" for k
    using nested_counts[OF l(2), of k] by (auto split: if_splits)
  then show ?thesis using l by blast
qed

text \<open>When the context of a span that was started cannot be read, the span is lost: the scope gets one whose end does nothing.\<close>

lemma failed_context_leaks_span:
  assumes "get_provider E s = (Some (Some p), s1)" "\<And>x w. fst (api E x w)" "\<And>n w. span_context E n w = None"
  shows "\<exists>x s2. backend_start_span E name domain kind links start s = (Some new_noop_hook_span, s2) \<and>
    is_start (next_span s1) x \<and> api_calls s2 = api_calls s1 @ [(x, True)] \<and>
    (\<forall>ok msg until t. end_span E ok msg until (new_noop_hook_span, t) = (new_noop_hook_span, t))"
proof -
  define x where "x = StartSpan (next_span s1) name (HOOK_SCOPE_PREFIX @ ''.'' @ (if domain = [] then ''tracing'' else domain))
    (case dict_get SPAN_KINDS kind of None \<Rightarrow> ''INTERNAL'' | Some k \<Rightarrow> k) (native_links E links) start"
  obtain w where w: "api E x (world s1) = (True, w)" using assms(2)[of x "world s1"] by (metis prod.collapse)
  then have "backend_start_span E name domain kind links start s =
      (Some new_noop_hook_span, s1\<lparr>next_span := next_span s1 + 1, world := w, api_calls := api_calls s1 @ [(x, True)]\<rparr>)"
    using assms(1,3) by (simp add: backend_start_span_def call_api_def Let_def new_hook_span_def x_def)
  then show ?thesis by (auto simp: x_def end_noop new_noop_hook_span_def)
qed

section \<open>The function is left alone\<close>

text \<open>Outside is the part of the function and a part of its own for OpenTelemetry.\<close>

abbreviation user_part :: "('c, 'u \<times> 'x) tracing \<Rightarrow> 'u" where
  "user_part s \<equiv> fst (world s)"

definition api_beside :: "('c, 'u \<times> 'x) otel \<Rightarrow> bool" where
  "api_beside E \<longleftrightarrow> (\<forall>x w. fst (snd (api E x w)) = fst w)"

definition on_user :: "('o invocation, 'o, 'u) plain \<Rightarrow> ('o invocation, 'o, ('c, 'u \<times> 'x) tracing) plain" where
  "on_user f iv s = (case f iv (user_part s) of (r, u) \<Rightarrow> (r, s\<lparr>world := (u, snd (world s))\<rparr>))"

lemma call_api_user:
  assumes "api_beside E" "call_api E x s = (ok, s')"
  shows "user_part s' = user_part s"
proof -
  obtain w where w: "api E x (world s) = (ok, w)" "s' = s\<lparr>world := w, api_calls := api_calls s @ [(x, ok)]\<rparr>"
    using call_api_view[OF assms(2)] by blast
  have "fst (snd (api E x (world s))) = fst (world s)" using assms(1) unfolding api_beside_def by blast
  then show ?thesis by (simp add: w)
qed

lemma call_api_user' [simp]: "api_beside E \<Longrightarrow> user_part (snd (call_api E x s)) = user_part s"
  by (cases "call_api E x s") (auto dest: call_api_user)

lemma set_attribute_user [simp]: "api_beside E \<Longrightarrow> user_part (snd (snd (set_attribute E key v st))) = user_part (snd st)"
  by (cases st) (auto simp: set_attribute_def call_api_user split: option.split prod.split bool.split)

lemma then_attribute_user [simp]: "api_beside E \<Longrightarrow> user_part (snd (snd (then_attribute E key v r))) = user_part (snd (snd r))"
  by (simp add: then_attribute_def)

lemma activate_user: "api_beside E \<Longrightarrow> activate E st = (r, s') \<Longrightarrow> user_part s' = user_part (snd st)"
  by (cases st) (auto simp: activate_def call_api_user split: option.splits prod.splits if_splits)

lemma deactivate_user [simp]: "api_beside E \<Longrightarrow> user_part (deactivate E token s) = user_part s"
  by (auto simp: deactivate_def split: option.split)

lemma end_span_user [simp]: "api_beside E \<Longrightarrow> user_part (snd (end_span E ok msg until st)) = user_part (snd st)"
  by (cases st) (auto simp: end_span_def Let_def call_api_user split: option.split prod.split bool.split)

lemma register_perfetto_user [simp]:
  assumes E: "api_beside E"
  shows "user_part (register_perfetto E p s) = user_part s"
proof -
  obtain ok1 s1 where c1: "call_api E MakeProcessor s = (ok1, s1)" by (cases "call_api E MakeProcessor s")
  obtain ok2 s2 where c2: "call_api E (AddProcessor p) s1 = (ok2, s2)" by (cases "call_api E (AddProcessor p) s1")
  show ?thesis using call_api_user[OF E c1] call_api_user[OF E c2] E by (cases ok1; cases ok2) (simp_all add: register_perfetto_def Let_def c1 c2)
qed

lemma get_provider_user: "api_beside E \<Longrightarrow> get_provider E s = (r, s') \<Longrightarrow> user_part s' = user_part s"
  by (auto simp: get_provider_def split: if_splits option.splits)

lemma backend_start_user:
  assumes E: "api_beside E" and run: "backend_start_span E name domain kind links start s = (r, s')"
  shows "user_part s' = user_part s"
proof -
  obtain q s1 where g: "get_provider E s = (q, s1)" by (cases "get_provider E s")
  define x where "x = StartSpan (next_span s1) name (HOOK_SCOPE_PREFIX @ ''.'' @ (if domain = [] then ''tracing'' else domain))
    (case dict_get SPAN_KINDS kind of None \<Rightarrow> ''INTERNAL'' | Some k \<Rightarrow> k) (native_links E links) start"
  obtain ok s2 where c: "call_api E x (s1\<lparr>next_span := next_span s1 + 1\<rparr>) = (ok, s2)"
    by (cases "call_api E x (s1\<lparr>next_span := next_span s1 + 1\<rparr>)")
  have "s' = s1 \<or> s' = s2"
    using c run by (auto simp: backend_start_span_def g x_def Let_def split: option.splits bool.splits)
  then show ?thesis using get_provider_user[OF E g] call_api_user[OF E c] by auto
qed

lemma runtime_start_user:
  assumes E: "api_beside E" and run: "runtime_start_span E name domain kind ids start s = (r, s')"
  shows "user_part s' = user_part s"
proof (cases "trace_enabled E (world s)")
  case True
  obtain q s1 where b: "backend_start_span E name domain kind (request_links E (take MAX_LINKS_PER_SPAN ids) s) start s = (q, s1)" by fastforce
  have "user_part s' = user_part s1"
    using run True b E by (auto simp: runtime_start_span_def Let_def split: option.splits if_splits)
  then show ?thesis using backend_start_user[OF E b] by simp
qed (use run in \<open>simp add: runtime_start_span_def\<close>)

lemma register_user [simp]: "user_part (snd (register_request_context E i hs s)) = user_part s"
  by (simp add: register_request_context_def Let_def)

lemma finish_user [simp]: "user_part (snd (finish_request i s)) = user_part s"
  by (simp add: finish_request_def)

lemma exit_user:
  assumes "api_beside E" "add_exit_semantics E V spec iv v st = (r, st1)"
  shows "user_part (snd st1) = user_part (snd st)"
proof -
  have "user_part (snd (snd (schedule_exit E V v ids st))) = user_part (snd st)" for ids
    using assms(1) by (auto simp: schedule_exit_def Let_def split: option.split)
  then show ?thesis using assms(2)
    by (auto simp: add_exit_semantics_def output_exit_calls split: if_splits option.splits list.splits prod.splits) (metis snd_conv)+
qed

text \<open>The wrapper can read what it looks for: before the call in the arguments, after it in the result of a scheduler.\<close>

definition readable_call :: "'o views \<Rightarrow> trace_spec \<Rightarrow> 'o invocation \<Rightarrow> 'o outcome \<Rightarrow> bool" where
  "readable_call V spec iv r \<longleftrightarrow>
     (if ts_adapter spec = ''schedule'' then (case r of Ret v \<Rightarrow> request_ids_from_scheduler_output V v \<noteq> None | Raise e \<Rightarrow> True)
      else request_ids_on_enter V spec iv \<noteq> None)"

lemma span_scope_transparent:
  assumes E: "api_beside E" "queries_return E" and r: "request_ids_on_enter V spec iv \<noteq> None" "ts_adapter spec \<noteq> ''schedule''"
    and f: "f iv (user_part s) = (res, u)"
  shows "fst (span_scope_around E V spec iv (on_user f iv) s) = res \<and> user_part (snd (span_scope_around E V spec iv (on_user f iv) s)) = u"
proof -
  obtain ids where ids: "request_ids_on_enter V spec iv = Some ids" using r(1) by blast
  obtain sp s0 where run: "runtime_start_span E (ts_name spec) (ts_domain spec) (ts_kind spec) ids None s = (Some sp, s0)"
    using runtime_start_returns[OF E(2)] by blast
  obtain token s1 where a: "activate E (sp, s0) = (Some token, s1)" using activate_returns[OF E(2)] by blast
  have "user_part s1 = user_part s" using activate_user[OF E(1) a] runtime_start_user[OF E(1) run] by simp
  then have b: "on_user f iv s1 = (res, s1\<lparr>world := (u, snd (world s1))\<rparr>)" by (simp add: on_user_def f)
  show ?thesis
  proof (cases res)
    case (Raise e)
    then show ?thesis using a b ids run E(1) by (simp add: span_scope_around_def)
  next
    case (Ret v)
    obtain st1 where st1: "add_exit_semantics E V spec iv v (sp, s1\<lparr>world := (u, snd (world s1))\<rparr>) = (None, st1)"
      using exit_readable[OF ids r(2)] by blast
    then show ?thesis using a b ids run Ret E(1) exit_user[OF E(1) st1] by (simp add: span_scope_around_def)
  qed
qed

lemma schedule_scope_transparent:
  assumes E: "api_beside E" "queries_return E" and r: "readable_call V spec iv res" "ts_adapter spec = ''schedule''"
    and f: "f iv (user_part s) = (res, u)"
  shows "fst (schedule_scope E V spec iv (on_user f iv) s) = res \<and> user_part (snd (schedule_scope E V spec iv (on_user f iv) s)) = u"
proof -
  let ?s = "s\<lparr>world := (u, snd (world s))\<rparr>"
  have body: "on_user f iv s = (res, ?s)" by (simp add: on_user_def f)
  have start: "\<exists>sp s2. runtime_start_span E (ts_name spec) (ts_domain spec) (ts_kind spec) ids (Some (time_ns E (world s))) ?s = (Some sp, s2) \<and>
      user_part s2 = u" for ids
  proof -
    obtain sp s2 where run: "runtime_start_span E (ts_name spec) (ts_domain spec) (ts_kind spec) ids (Some (time_ns E (world s))) ?s = (Some sp, s2)"
      using runtime_start_returns[OF E(2)] by blast
    have "user_part s2 = u" using runtime_start_user[OF E(1) run] by simp
    then show ?thesis using run by blast
  qed
  show ?thesis
  proof (cases res)
    case (Raise e)
    obtain sp s2 where "runtime_start_span E (ts_name spec) (ts_domain spec) (ts_kind spec) [] (Some (time_ns E (world s))) ?s = (Some sp, s2)"
      "user_part s2 = u" using start by blast
    then show ?thesis using E(1) body Raise by (simp add: schedule_scope_def Let_def)
  next
    case (Ret v)
    then obtain ids where ids: "request_ids_from_scheduler_output V v = Some ids" using r by (auto simp: readable_call_def)
    obtain sp s2 where run: "runtime_start_span E (ts_name spec) (ts_domain spec) (ts_kind spec) ids (Some (time_ns E (world s))) ?s = (Some sp, s2)"
      "user_part s2 = u" using start by blast
    obtain st1 where st1: "add_exit_semantics E V spec iv v (sp, s2) = (None, st1)" using schedule_exit_readable[OF E(2) ids r(2)] by blast
    show ?thesis using E(1) body Ret ids run st1 exit_user[OF E(1) st1] by (simp add: schedule_scope_def Let_def)
  qed
qed

text \<open>
  Property C36. Tracing leaves the function alone: with any kind of trace, enabled or not, with or without a provider, and whichever of
  the calls raise that add a processor, start a span, read its context, set an attribute or the status, attach, detach or end, the traced
  call has the result or the exception and the effect of the function. It is assumed that the wrapper can read the requests of the call
  and that \<^verbatim>\<open>get_tracer_provider\<close> and \<^verbatim>\<open>is_recording\<close>, which are not guarded, do not raise.
\<close>

theorem tracing_transparent:
  assumes "api_beside E" "queries_return E" and "f iv (user_part s) = (res, u)" and "readable_call V spec iv res"
  shows "fst (make_trace_around E V spec (on_user f) iv s) = res \<and> user_part (snd (make_trace_around E V spec (on_user f) iv s)) = u"
proof -
  have req: "fst (request_scope E V iv (on_user f iv) s) = res \<and> user_part (snd (request_scope E V iv (on_user f iv) s)) = u"
    using assms(3) by (auto simp: request_scope_def on_user_def start_request_def Let_def split: outcome.split)
  have con: "fst (context_scope E V iv (on_user f iv) s) = res \<and> user_part (snd (context_scope E V iv (on_user f iv) s)) = u"
    using assms(3) by (auto simp: context_scope_def on_user_def Let_def)
  have plain: "fst (on_user f iv s) = res \<and> user_part (snd (on_user f iv s)) = u" using assms(3) by (simp add: on_user_def)
  show ?thesis
    using req con plain schedule_scope_transparent[where f = f, OF assms(1,2,4) _ assms(3)]
      span_scope_transparent[where f = f, OF assms(1,2) _ _ assms(3), of V spec] assms(4)
    by (auto simp: make_trace_around_def trace_scope_def readable_call_def split: if_splits)
qed

text \<open>When the provider cannot be asked for, the call raises before the function runs.\<close>

lemma unreadable_provider_raises:
  assumes "trace_enabled E (world s)" "otel_available E" "active_provider E (world s) = None"
    "ts_adapter spec = ''call''"
  shows "make_trace_around E V spec f iv s = (Raise (query_error V), s)"
  using assms by (auto simp: make_trace_around_def trace_scope_def span_scope_around_def request_ids_on_enter_def runtime_start_span_def
      backend_start_span_def get_provider_def Let_def split: list.split)

section \<open>Requests in flight\<close>

text \<open>The operations of the runtime, and changes elsewhere.\<close>

datatype 'w runtime_op = RegisterRequest string "(string \<times> string) list option" | FinishRequest string | ClearRuntime | Elsewhere 'w

fun run_op :: "('c, 'w) otel \<Rightarrow> 'w runtime_op \<Rightarrow> ('c, 'w) tracing \<Rightarrow> ('c, 'w) tracing" where
  "run_op E (RegisterRequest i headers) s = snd (register_request_context E i headers s)"
| "run_op E (FinishRequest i) s = snd (finish_request i s)"
| "run_op E ClearRuntime s = clear_runtime s"
| "run_op E (Elsewhere w) s = s\<lparr>world := w\<rparr>"

fun concerns :: "string \<Rightarrow> 'w runtime_op \<Rightarrow> bool" where
  "concerns i (RegisterRequest j _) = (j = i)"
| "concerns i (FinishRequest j) = (j = i)"
| "concerns i ClearRuntime = True"
| "concerns i (Elsewhere w) = False"

fun is_registration :: "'w runtime_op \<Rightarrow> bool" where
  "is_registration (RegisterRequest _ _) = True"
| "is_registration _ = False"

definition inflight_ok :: "(string, 'c option) dict \<Rightarrow> bool" where
  "inflight_ok rs \<longleftrightarrow> dict_ok rs \<and> length rs \<le> MAX_INFLIGHT_REQUESTS"

lemma length_del: "length (dict_del i rs) \<le> length rs"
  by (induction rs) auto

lemma set_after_del: "dict_set i c (dict_del i rs) = dict_del i rs @ [(i, c)]"
  by (rule dict_set_new) (simp add: dict_keys_del)

lemma store_request_ok: "inflight_ok rs \<Longrightarrow> inflight_ok (store_request i c rs)"
  using length_del[of i rs]
  by (auto simp: inflight_ok_def store_request_def Let_def set_after_del dict_keys_del distinct_tl map_tl)

lemma run_op_ok: "inflight_ok (inflight s) \<Longrightarrow> inflight_ok (inflight (run_op E x s))"
proof (cases x)
  case (FinishRequest i)
  assume "inflight_ok (inflight s)"
  then show ?thesis using FinishRequest length_del[of i "inflight s"] by (simp add: finish_request_def inflight_ok_def)
next
  case ClearRuntime
  assume "inflight_ok (inflight s)"
  then show ?thesis using ClearRuntime by (simp add: clear_runtime_def inflight_ok_def)
qed (auto simp: register_request_context_def Let_def store_request_ok)

lemma run_ops_ok: "inflight_ok (inflight s) \<Longrightarrow> inflight_ok (inflight (fold (run_op E) ops s))"
  by (induction ops arbitrary: s) (simp_all add: run_op_ok)

text \<open>The request has at most \<open>n\<close> younger ones behind it.\<close>

definition recent :: "nat \<Rightarrow> string \<Rightarrow> 'c option \<Rightarrow> (string, 'c option) dict \<Rightarrow> bool" where
  "recent n i c rs \<longleftrightarrow> inflight_ok rs \<and> (\<exists>pre post. rs = pre @ (i, c) # post \<and> length post \<le> n)"

lemma del_other: "j \<noteq> i \<Longrightarrow> dict_del j (pre @ (i, c) # post) = dict_del j pre @ (i, c) # dict_del j post"
  by (induction pre) simp_all

lemma store_newest: "\<exists>pre. store_request i c rs = pre @ [(i, c)]"
proof (cases "dict_del i rs = []")
  case False
  then have "tl (dict_del i rs @ [(i, c)]) = tl (dict_del i rs) @ [(i, c)]" by simp
  then show ?thesis unfolding store_request_def set_after_del Let_def by auto
qed (auto simp: store_request_def set_after_del MAX_INFLIGHT_REQUESTS_def)

lemma recent_mono: "recent n i c rs \<Longrightarrow> n \<le> m \<Longrightarrow> recent m i c rs"
  unfolding recent_def
proof (elim conjE exE, intro conjI exI)
  fix pre post
  assume "n \<le> m" "length post \<le> n" "rs = pre @ (i, c) # post"
  then show "rs = pre @ (i, c) # post" "length post \<le> m" by simp_all
qed

lemma recent_del: "recent n i c rs \<Longrightarrow> j \<noteq> i \<Longrightarrow> recent n i c (dict_del j rs)"
proof -
  assume w: "recent n i c rs" and "j \<noteq> i"
  then obtain pre post where rs: "rs = pre @ (i, c) # post" "length post \<le> n" by (auto simp: recent_def)
  have "inflight_ok (dict_del j rs)" using w length_del[of j rs] by (simp add: recent_def inflight_ok_def)
  moreover have "length (dict_del j post) \<le> n" using rs(2) length_del[of j post] by simp
  ultimately show ?thesis using rs(1) del_other[OF \<open>j \<noteq> i\<close>, of pre c post] unfolding recent_def by blast
qed

lemma recent_store:
  assumes w: "recent n i c rs" and j: "j \<noteq> i" and n: "Suc n < MAX_INFLIGHT_REQUESTS"
  shows "recent (Suc n) i c (store_request j d rs)"
proof -
  obtain pre post where rs: "dict_del j rs = pre @ (i, c) # post" "length post \<le> n"
    using recent_del[OF w j] by (auto simp: recent_def)
  have ok: "inflight_ok (store_request j d rs)" using w store_request_ok unfolding recent_def by blast
  show ?thesis
  proof (cases "MAX_INFLIGHT_REQUESTS < length (dict_del j rs @ [(j, d)])")
    case True
    then have "pre \<noteq> []" using rs n by auto
    then have "store_request j d rs = tl pre @ (i, c) # (post @ [(j, d)])"
      unfolding store_request_def set_after_del Let_def using True rs(1) by simp
    then show ?thesis using ok rs(2) unfolding recent_def by (metis Suc_le_mono length_append_singleton)
  next
    case False
    then have "store_request j d rs = pre @ (i, c) # (post @ [(j, d)])"
      unfolding store_request_def set_after_del Let_def using rs(1) by simp
    then show ?thesis using ok rs(2) unfolding recent_def by (metis Suc_le_mono length_append_singleton)
  qed
qed

lemma recent_run:
  assumes "recent n i c (inflight s)" "\<not> concerns i x" "n + (if is_registration x then 1 else 0) < MAX_INFLIGHT_REQUESTS"
  shows "recent (n + (if is_registration x then 1 else 0)) i c (inflight (run_op E x s))"
proof (cases x)
  case (RegisterRequest j hs)
  then show ?thesis using assms recent_store[OF assms(1), of j] recent_mono[OF assms(1)]
    by (auto simp: register_request_context_def Let_def)
next
  case (FinishRequest j)
  then show ?thesis using assms recent_del[OF assms(1), of j] by (simp add: finish_request_def)
qed (use assms in simp_all)

lemma recent_runs:
  "recent n i c (inflight s) \<Longrightarrow> list_all (\<lambda>x. \<not> concerns i x) ops \<Longrightarrow> n + times is_registration ops < MAX_INFLIGHT_REQUESTS \<Longrightarrow>
   recent (n + times is_registration ops) i c (inflight (fold (run_op E) ops s))"
proof (induction ops arbitrary: n s)
  case (Cons x ops)
  let ?n = "n + (if is_registration x then 1 else 0)"
  have "recent ?n i c (inflight (run_op E x s))" using Cons.prems by (intro recent_run) auto
  then show ?case using Cons.IH[of ?n "run_op E x s"] Cons.prems by (simp split: if_splits)
qed simp

lemma recent_get: "recent n i c rs \<Longrightarrow> dict_get rs i = Some c"
  by (auto simp: recent_def inflight_ok_def)

text \<open>The context a registration keeps: the one of the headers if it is valid, else the current one.\<close>

definition context_for :: "('c, 'w) otel \<Rightarrow> (string \<times> string) list option \<Rightarrow> ('c, 'w) tracing \<Rightarrow> 'c option" where
  "context_for E headers s =
     (if ctx_valid E (context_from_headers E headers s) then context_from_headers E headers s else current_context E s)"

lemma links_recorded:
  assumes "trace_enabled E (world s)" "otel_available E" "active_provider E (world s) = Some (Some p)"
  shows "\<exists>l n scope k ok. api_calls (snd (runtime_start_span E name domain kind ids start s)) = api_calls s @ l \<and>
    (StartSpan n name scope k (native_links E (request_links E ids s)) start, ok) \<in> set l"
proof -
  let ?links = "request_links E (take MAX_LINKS_PER_SPAN ids) s"
  have links: "?links = request_links E ids s" by (simp add: request_links_def)
  have provider: "fst (get_provider E s) = Some (Some p)" using assms by (simp add: get_provider_def)
  have recorded: "\<exists>l n scope k ok. api_calls s' = api_calls s @ l \<and> (StartSpan n name scope k (native_links E ?links) start, ok) \<in> set l"
    if run: "backend_start_span E name domain kind ?links start s = (Some sp, s')" for sp s'
    using run
  proof (cases rule: backend_start_cases)
    case off
    then show ?thesis using provider by simp
  next
    case (failed s1 x w ok)
    obtain scope k where x: "x = StartSpan (next_span s1) name scope k (native_links E ?links) start" using failed(7) by blast
    obtain pr where "api_calls s1 = api_calls s @ pr" using failed(2) by (auto simp: only_processors_def)
    then have "api_calls s' = api_calls s @ (pr @ [(x, ok)])" "(x, ok) \<in> set (pr @ [(x, ok)])" by (simp_all add: failed(4))
    then show ?thesis unfolding x by blast
  next
    case (started s1 x w sp)
    obtain scope k where x: "x = StartSpan (next_span s1) name scope k (native_links E ?links) start" using started(8) by blast
    obtain pr where "api_calls s1 = api_calls s @ pr" using started(4) by (auto simp: only_processors_def)
    then have "api_calls s' = api_calls s @ (pr @ [(x, True)])" "(x, True) \<in> set (pr @ [(x, True)])" by (simp_all add: started(6))
    then show ?thesis unfolding x by blast
  qed simp
  obtain r s' where run: "runtime_start_span E name domain kind ids start s = (r, s')" by fastforce
  from run show ?thesis
  proof (cases rule: runtime_start_cases)
    case off
    then show ?thesis using assms(1) by simp
  next
    case raised
    from raised(3) show ?thesis
    proof (cases rule: backend_start_cases)
      case raised
      then show ?thesis using assms(3) by simp
    qed simp_all
  next
    case (attributed sp s1 sp' ok)
    obtain l n scope k b where l: "api_calls s1 = api_calls s @ l" "(StartSpan n name scope k (native_links E ?links) start, b) \<in> set l"
      using recorded[OF attributed(3)] by blast
    obtain l' where "api_calls s' = api_calls s1 @ l'" using attributed(4) by (auto simp: only_attributes_def)
    then have "api_calls s' = api_calls s @ (l @ l')" using l(1) by simp
    moreover have "(StartSpan n name scope k (native_links E (request_links E ids s)) start, b) \<in> set (l @ l')" using l(2) links by simp
    ultimately show ?thesis unfolding run snd_conv by blast
  qed
qed

text \<open>
  Property C37. The table of requests stays within its bound, and a request stays in it, with the context it was registered with,
  while it is neither finished nor registered again, the table is not cleared and fewer than 10000 others are registered. A span that
  is started after that, for a list of requests with this one among its first 128, while tracing is enabled and OpenTelemetry has a
  provider, is asked for with a link to that context.
\<close>

theorem recent_request_linked:
  assumes "inflight_ok (inflight s)" and c: "context_for E headers s = Some c" "context_valid E c"
    and "list_all (\<lambda>x. \<not> concerns i x) ops" "times is_registration ops < MAX_INFLIGHT_REQUESTS" and i: "i \<in> set (take MAX_LINKS_PER_SPAN ids)"
    and s': "s' = fold (run_op E) ops (snd (register_request_context E i headers s))"
    and on: "trace_enabled E (world s')" "otel_available E" "active_provider E (world s') = Some (Some p)"
  shows "length (inflight s') \<le> MAX_INFLIGHT_REQUESTS \<and>
    (\<exists>l n scope k links ok. api_calls (snd (runtime_start_span E name domain kind ids start s')) = api_calls s' @ l \<and>
       (StartSpan n name scope k links start, ok) \<in> set l \<and> (c, i) \<in> set links)"
proof -
  define s1 where "s1 = snd (register_request_context E i headers s)"
  have v: "ctx_valid E (Some c)" using c(2) by (simp add: ctx_valid_def)
  have s1: "inflight s1 = store_request i (Some c) (inflight s)"
    using c(1) v by (auto simp: s1_def register_request_context_def context_for_def Let_def split: if_splits)
  have ok: "inflight_ok (inflight s1)" using assms(1) by (simp add: s1 store_request_ok)
  obtain pre where pre: "inflight s1 = pre @ (i, Some c) # []"
    using store_newest[of i "Some c" "inflight s"] by (auto simp: s1)
  then have "recent 0 i (Some c) (inflight s1)" using ok unfolding recent_def by blast
  from recent_runs[OF this assms(4)] assms(5) have w: "recent (times is_registration ops) i (Some c) (inflight s')" by (simp add: s' s1_def)
  have "(Some c, i) \<in> set (request_links E ids s')"
    using recent_get[OF w] i v by (force simp: request_links_def List.map_filter_def)
  then have "(c, i) \<in> set (native_links E (request_links E ids s'))"
    using v by (force simp: native_links_def List.map_filter_def)
  then show ?thesis using w links_recorded[OF on] unfolding recent_def inflight_ok_def by blast
qed

section \<open>The theorems at work\<close>

definition demo_otel :: "(nat, nat \<times> nat) otel" where
  "demo_otel = \<lparr>otel_available = True, trace_enabled = (\<lambda>_. True), active_provider = (\<lambda>_. Some (Some 1)), perfetto_probe = (\<lambda>_. True),
     monotonic = (\<lambda>_. 10), time_ns = (\<lambda>w. int (snd w)), process_pid = (\<lambda>_. 7), thread_id = (\<lambda>_. 8),
     api = (\<lambda>x w. (\<not> is_attribute 0 x, (fst w, snd w + 1))), recording = (\<lambda>_ _. Some True), span_context = (\<lambda>n _. Some n),
     extract_context = (\<lambda>_ _. None), current_span_context = (\<lambda>_. Some 42), context_valid = (\<lambda>_. True)\<rparr>"

definition demo_views :: "string views" where
  "demo_views = \<lparr>attr_of = (\<lambda>x k. if k = ''num_scheduled_tokens'' then Some ''r1 r2'' else None), is_none = (\<lambda>_. False), truth = (\<lambda>x. x \<noteq> []),
     as_text = (\<lambda>x. x), str_or_int = (\<lambda>_. True), keys_of = (\<lambda>_. Some [''r1'', ''r2'']), items_of = (\<lambda>_. None), headers_of = (\<lambda>_. []),
     as_attr = AStr, read_error = ''AttributeError'', query_error = ''RuntimeError''\<rparr>"

definition demo_tracing :: "(nat, nat \<times> nat) tracing" where
  "demo_tracing = \<lparr>world = (0, 0), perfetto_providers = [], retry_after = [], inflight = [], next_span = 0, api_calls = []\<rparr>"

definition model_spec :: trace_spec where
  "model_spec = \<lparr>ts_name = ''execute_model'', ts_domain = ''Model'', ts_kind = ''INTERNAL'', ts_adapter = ''model''\<rparr>"

definition model_call :: "string invocation" where
  "model_call = \<lparr>inv_args = [''self'', ''output''], inv_kwargs = []\<rparr>"

definition failing_model :: "(string invocation, string, nat) plain" where
  "failing_model iv u = (Raise ''out of memory'', u + 1)"

definition traced_model :: "string outcome \<times> (nat, nat \<times> nat) tracing" where
  "traced_model = make_trace_around demo_otel demo_views model_spec (on_user failing_model) model_call demo_tracing"

lemma demo_status: "endings_return demo_otel"
  by (simp add: endings_return_def status_returns_def queries_return_def contexts_return_def demo_otel_def)

lemma demo_beside: "api_beside demo_otel"
  by (simp add: api_beside_def demo_otel_def)

lemma on_user_nested: "steps_nested s (snd (on_user f iv s))"
  by (auto simp: on_user_def intro: steps_refl split: prod.split)

text \<open>A model step that raises, with a provider that refuses the attributes: its one span is ended once.\<close>

theorem traced_calls_nest_witness:
  "nested 0 (api_calls (snd traced_model)) 1 \<and> times (started_call 0) (api_calls (snd traced_model)) = 1 \<and>
   times (ended_call 0) (api_calls (snd traced_model)) = 1"
proof -
  note t = traced_calls_nest[of demo_otel "on_user failing_model" model_call demo_views model_spec demo_tracing, OF demo_status on_user_nested,
      folded traced_model_def]
  have s: "api_calls demo_tracing = []" "next_span demo_tracing = 0" by (simp_all add: demo_tracing_def)
  have n: "next_span (snd traced_model) = 1" "times (started_call 0) (api_calls (snd traced_model)) = 1" by code_simp+
  from t show ?thesis unfolding s append_Nil n(1) using n(2) by auto
qed

theorem tracing_transparent_witness: "fst traced_model = Raise ''out of memory'' \<and> user_part (snd traced_model) = 1"
proof -
  have "failing_model model_call (user_part demo_tracing) = (Raise ''out of memory'', 1)" by (simp add: failing_model_def demo_tracing_def)
  moreover have "readable_call demo_views model_spec model_call (Raise ''out of memory'')" by code_simp
  ultimately show ?thesis unfolding traced_model_def by (rule tracing_transparent[OF demo_beside endings_returnD(2)[OF demo_status]])
qed

definition demo_requests :: "(nat, nat \<times> nat) tracing" where
  "demo_requests = fold (run_op demo_otel) [RegisterRequest ''r2'' None, FinishRequest ''r3'', Elsewhere (0, 5)]
     (snd (register_request_context demo_otel ''r1'' None demo_tracing))"

theorem recent_request_linked_witness:
  "length (inflight demo_requests) \<le> MAX_INFLIGHT_REQUESTS \<and>
   (\<exists>l n scope k links ok.
      api_calls (snd (runtime_start_span demo_otel ''execute_model'' ''Model'' ''INTERNAL'' [''r0'', ''r1''] None demo_requests)) = api_calls demo_requests @ l \<and>
      (StartSpan n ''execute_model'' scope k links None, ok) \<in> set l \<and> (42, ''r1'') \<in> set links)"
proof -
  have "inflight_ok (inflight demo_tracing)" "context_for demo_otel None demo_tracing = Some 42" "context_valid demo_otel 42"
    by (simp_all add: inflight_ok_def demo_tracing_def demo_otel_def context_for_def context_from_headers_def current_context_def ctx_valid_def)
  moreover have "list_all (\<lambda>x. \<not> concerns ''r1'' x) [RegisterRequest ''r2'' None, FinishRequest ''r3'', Elsewhere (0, 5) :: (nat \<times> nat) runtime_op]"
    "times is_registration [RegisterRequest ''r2'' None, FinishRequest ''r3'', Elsewhere (0, 5) :: (nat \<times> nat) runtime_op] < MAX_INFLIGHT_REQUESTS"
    "''r1'' \<in> set (take MAX_LINKS_PER_SPAN [''r0'', ''r1''])"
    by (simp_all add: MAX_INFLIGHT_REQUESTS_def MAX_LINKS_PER_SPAN_def)
  moreover note demo_requests_def
  moreover have "trace_enabled demo_otel (world demo_requests)" "otel_available demo_otel" "active_provider demo_otel (world demo_requests) = Some (Some 1)"
    by (simp_all add: demo_otel_def)
  ultimately show ?thesis by (rule recent_request_linked)
qed

section \<open>Limits\<close>

text \<open>A provider has the Perfetto processor at most once.\<close>

definition processors_ok :: "('c, 'w) tracing \<Rightarrow> bool" where
  "processors_ok s \<longleftrightarrow> distinct (perfetto_providers s) \<and>
     (\<forall>p. times (\<lambda>c. c = (AddProcessor p, True)) (api_calls s) = (if p \<in> set (perfetto_providers s) then 1 else 0))"

lemma provider_registered_once:
  assumes "processors_ok s" "get_provider E s = (r, s')"
  shows "processors_ok s'"
proof -
  have reg: "processors_ok (register_perfetto E p s)" if "p \<notin> set (perfetto_providers s)" for p
  proof -
    obtain ok1 s1 where c1: "call_api E MakeProcessor s = (ok1, s1)" by (cases "call_api E MakeProcessor s")
    obtain ok2 s2 where c2: "call_api E (AddProcessor p) s1 = (ok2, s2)" by (cases "call_api E (AddProcessor p) s1")
    from call_api_view[OF c1] obtain w1 where s1: "s1 = s\<lparr>world := w1, api_calls := api_calls s @ [(MakeProcessor, ok1)]\<rparr>" by blast
    from call_api_view[OF c2] obtain w2 where s2: "s2 = s1\<lparr>world := w2, api_calls := api_calls s1 @ [(AddProcessor p, ok2)]\<rparr>" by blast
    show ?thesis using assms(1) that
      by (cases ok1; cases ok2) (auto simp: register_perfetto_def Let_def c1 c2, auto simp: s1 s2 call_api_def processors_ok_def split: prod.split)
  qed
  then show ?thesis using assms by (auto simp: get_provider_def split: if_splits option.splits)
qed

text \<open>When the result of a scheduler cannot be read, the call raises although the function returned.\<close>

lemma unreadable_result_lost:
  assumes "trace_enabled E (world s)" "ts_adapter spec = ''schedule''" "f iv s = (Ret v, s1)" "request_ids_from_scheduler_output V v = None"
  shows "make_trace_around E V spec f iv s = (Raise (read_error V), s1)"
  using assms by (simp add: make_trace_around_def trace_scope_def schedule_scope_def Let_def)

text \<open>When setting the status raises, the span of the provider stays open.\<close>

lemma failed_status_leaves_open:
  assumes "hs_span sp = Some n" "\<not> hs_ended sp" "\<And>ok msg w. \<not> fst (api E (SetStatus n ok msg) w)"
  shows "\<exists>msg'. api_calls (snd (end_span E ok msg until (sp, s))) = api_calls s @ [(SetStatus n ok msg', False)]"
proof -
  let ?msg = "if take MAX_ATTRIBUTE_VALUE_LENGTH msg = [] then None else Some (take MAX_ATTRIBUTE_VALUE_LENGTH msg)"
  obtain r s1 where c: "call_api E (SetStatus n ok ?msg) s = (r, s1)" by (cases "call_api E (SetStatus n ok ?msg) s")
  from call_api_view[OF c] obtain w where w: "api E (SetStatus n ok ?msg) (world s) = (r, w)"
    "s1 = s\<lparr>world := w, api_calls := api_calls s @ [(SetStatus n ok ?msg, r)]\<rparr>" by blast
  have "\<not> r" using assms(3)[of ok ?msg "world s"] w(1) by simp
  then show ?thesis using assms(1,2) c w(2) by (auto simp: end_span_def Let_def)
qed

text \<open>A span lists at most 32 of the requests it links.\<close>

lemma request_ids_cut: "safe_attribute (AList (map AStr ids)) = Some (AList (map (\<lambda>i. AStr (take MAX_ATTRIBUTE_VALUE_LENGTH i)) (take 32 ids)))"
proof -
  have "those (map safe_scalar (map AStr xs)) = Some (map (\<lambda>i. AStr (take MAX_ATTRIBUTE_VALUE_LENGTH i)) xs)" for xs
    by (induction xs) simp_all
  then show ?thesis by (simp add: safe_attribute_def MAX_ATTRIBUTE_COUNT_def take_map)
qed

end
