(* ===== verification/Adapt_Phase.thy ===== *)
theory Adapt_Phase
  imports Metrics
begin

text \<open>
  Splitting a scheduled batch into prefill and decode: \<^verbatim>\<open>adapters/vllm/handlers/utils.py\<close> of the metric package.

  Objects of the serving framework are what the code reads of them with \<^verbatim>\<open>getattr(obj, name, None)\<close>: an attribute is an option,
  \<open>None\<close> when it is absent or \<^verbatim>\<open>None\<close>. Of a list of token ids only the length is used.
\<close>

section \<open>Objects of the framework\<close>

datatype py_req = PyReq
  (r_request_id: "string option") (r_req_id: "string option") (r_num_prompt_tokens: "int option") (r_prompt_token_ids: "nat option")
  (r_num_computed_tokens: "int option") (r_request: "py_req option") (r_request_state: "py_req option")

text \<open>Cached requests come as one object with parallel lists, or as a list of requests.\<close>

datatype cached_reqs = NoCached | CachedData "string list" "int list" | CachedList "py_req list" | NotIterable

text \<open>The scheduled tokens: a dictionary, a sequence (\<open>None\<close> for an item that is no number), or anything else.\<close>

datatype token_counts = TokenDict "(string, int) dict" | TokenSeq "int option list" | TokenMissing | TokenBad

record sched_output =
  scheduled_new_reqs :: "py_req list option"
  scheduled_cached_reqs :: cached_reqs
  num_scheduled_tokens :: token_counts
  finished_req_ids :: "string list"
  total_num_scheduled_tokens :: "int option"

section \<open>Reading a request\<close>

fun first_some :: "'b option list \<Rightarrow> 'b option" where
  "first_some [] = None"
| "first_some (Some x # xs) = Some x"
| "first_some (None # xs) = first_some xs"

definition iter_req_candidates :: "py_req \<Rightarrow> py_req list" where
  "iter_req_candidates r = r # List.map_filter id [r_request r, r_request_state r]"

definition extract_req_id :: "py_req \<Rightarrow> string option" where
  "extract_req_id r = first_some (concat (map (\<lambda>c. [r_request_id c, r_req_id c]) (iter_req_candidates r)))"

text \<open>The state: the prompt lengths of the requests seen.\<close>

type_synonym prompt_lens = "(string, int) dict"

definition extract_prompt_len :: "py_req \<Rightarrow> prompt_lens \<Rightarrow> int option" where
  "extract_prompt_len r st =
     (case first_some (concat (map (\<lambda>c. [r_num_prompt_tokens c, map_option int (r_prompt_token_ids c)]) (iter_req_candidates r))) of
        Some n \<Rightarrow> Some n
      | None \<Rightarrow> (case extract_req_id r of None \<Rightarrow> None | Some i \<Rightarrow> dict_get st i))"

definition extract_num_computed_tokens :: "py_req \<Rightarrow> int option" where
  "extract_num_computed_tokens r = first_some (map r_num_computed_tokens (iter_req_candidates r))"

definition classify_phase_from_lengths :: "int option \<Rightarrow> int option \<Rightarrow> string" where
  "classify_phase_from_lengths prompt_len num_computed =
     (case (prompt_len, num_computed) of
        (Some p, Some c) \<Rightarrow> if c < p then ''prefill'' else ''decode''
      | _ \<Rightarrow> ''unknown'')"

text \<open>\<open>get_scheduler_phase_state\<close>: the state of the thread, a new one in a process that was forked.\<close>

definition get_scheduler_phase_state :: "nat \<Rightarrow> (nat \<times> prompt_lens) option \<Rightarrow> prompt_lens" where
  "get_scheduler_phase_state pid tls = (case tls of None \<Rightarrow> [] | Some (p, st) \<Rightarrow> if p = pid then st else [])"

definition clear_request_phase_state :: "py_req list \<Rightarrow> prompt_lens \<Rightarrow> prompt_lens" where
  "clear_request_phase_state reqs st =
     fold (\<lambda>r st. case extract_req_id r of None \<Rightarrow> st | Some i \<Rightarrow> dict_del i st) reqs st"

section \<open>Requests in the queues\<close>

definition QUEUE_PHASES :: "string list" where
  "QUEUE_PHASES = [''prefill'', ''decode'', ''unknown'']"

definition count_phase :: "string \<Rightarrow> (string, nat) dict \<Rightarrow> (string, nat) dict" where
  "count_phase p d = dict_set p (Suc (case dict_get d p of None \<Rightarrow> 0 | Some n \<Rightarrow> n)) d"

definition queue_req :: "py_req \<Rightarrow> (string, nat) dict \<times> prompt_lens \<Rightarrow> (string, nat) dict \<times> prompt_lens" where
  "queue_req r s =
     (case s of (counts, st) \<Rightarrow>
        let prompt_len = extract_prompt_len r st;
            st1 = (case (extract_req_id r, prompt_len) of (Some i, Some n) \<Rightarrow> dict_set i n st | _ \<Rightarrow> st)
        in (count_phase (classify_phase_from_lengths prompt_len (extract_num_computed_tokens r)) counts, st1))"

definition collect_queue_phase_metrics :: "py_req list option \<Rightarrow> prompt_lens \<Rightarrow> (string, nat) dict \<times> prompt_lens" where
  "collect_queue_phase_metrics reqs st = fold queue_req (case reqs of None \<Rightarrow> [] | Some rs \<Rightarrow> rs) (map (\<lambda>p. (p, 0)) QUEUE_PHASES, st)"

section \<open>A scheduled batch\<close>

definition req_and_computed :: "py_req \<Rightarrow> (string \<times> int) option" where
  "req_and_computed r = (case (r_req_id r, r_num_computed_tokens r) of (Some i, Some n) \<Rightarrow> Some (i, n) | _ \<Rightarrow> None)"

definition iter_cached :: "cached_reqs \<Rightarrow> (string \<times> int) list" where
  "iter_cached c =
     (case c of CachedData ids ns \<Rightarrow> zip ids ns | CachedList rs \<Rightarrow> List.map_filter req_and_computed rs | _ \<Rightarrow> [])"

definition iter_new :: "py_req list option \<Rightarrow> (string \<times> int) list" where
  "iter_new rs = (case rs of None \<Rightarrow> [] | Some rs \<Rightarrow> List.map_filter req_and_computed rs)"

definition iter_scheduled_tokens :: "token_counts \<Rightarrow> (string option \<times> int) list" where
  "iter_scheduled_tokens t =
     (case t of
        TokenDict d \<Rightarrow> map (\<lambda>(i, n). (Some i, n)) d
      | TokenSeq ns \<Rightarrow> map (\<lambda>n. (None, n)) (List.map_filter id ns)
      | _ \<Rightarrow> [])"

definition note_new_req :: "py_req \<Rightarrow> prompt_lens \<Rightarrow> prompt_lens" where
  "note_new_req r st = (case (r_req_id r, r_prompt_token_ids r) of (Some i, Some n) \<Rightarrow> dict_set i (int n) st | _ \<Rightarrow> st)"

definition note_new_reqs :: "sched_output \<Rightarrow> prompt_lens \<Rightarrow> prompt_lens" where
  "note_new_reqs out st = fold note_new_req (case scheduled_new_reqs out of None \<Rightarrow> [] | Some rs \<Rightarrow> rs) st"

definition num_comp_by_rid :: "sched_output \<Rightarrow> (string, int) dict" where
  "num_comp_by_rid out =
     fold (\<lambda>(i, n). dict_set i n) (iter_cached (scheduled_cached_reqs out) @ iter_new (scheduled_new_reqs out)) []"

definition lookup_rid :: "(string, int) dict \<Rightarrow> string option \<Rightarrow> int option" where
  "lookup_rid d rid = (case rid of None \<Rightarrow> None | Some i \<Rightarrow> dict_get d i)"

text \<open>Batch size and sum of tokens of each phase; the average is added at the end, \<open>quot\<close> being the division.\<close>

record 'f phase_values =
  batch_size :: nat
  scheduled_tokens_sum :: int
  scheduled_tokens_avg :: 'f

definition add_scheduled ::
  "prompt_lens \<Rightarrow> (string, int) dict \<Rightarrow> string option \<times> int \<Rightarrow> (string, nat \<times> int) dict \<Rightarrow> (string, nat \<times> int) dict" where
  "add_scheduled st computed e stats =
     (let p = classify_phase_from_lengths (lookup_rid st (fst e)) (lookup_rid computed (fst e))
      in case dict_get stats p of None \<Rightarrow> stats | Some (b, t) \<Rightarrow> dict_set p (Suc b, t + snd e) stats)"

definition phase_average :: "(int \<Rightarrow> nat \<Rightarrow> 'f) \<Rightarrow> 'f \<Rightarrow> nat \<times> int \<Rightarrow> 'f phase_values" where
  "phase_average quot zero v =
     \<lparr>batch_size = fst v, scheduled_tokens_sum = snd v, scheduled_tokens_avg = (if 0 < fst v then quot (snd v) (fst v) else zero)\<rparr>"

definition collect_phase_metrics ::
  "(int \<Rightarrow> nat \<Rightarrow> 'f) \<Rightarrow> 'f \<Rightarrow> sched_output \<Rightarrow> prompt_lens \<Rightarrow> (string, 'f phase_values) dict \<times> prompt_lens" where
  "collect_phase_metrics quot zero out st =
     (let st1 = note_new_reqs out st;
          stats = fold (add_scheduled st1 (num_comp_by_rid out)) (iter_scheduled_tokens (num_scheduled_tokens out))
                    (map (\<lambda>p. (p, (0, 0))) QUEUE_PHASES)
      in (map (\<lambda>(p, v). (p, phase_average quot zero v)) stats, fold dict_del (finished_req_ids out) st1))"

definition phase_batch_size :: "(string, 'f phase_values) dict \<Rightarrow> string \<Rightarrow> nat" where
  "phase_batch_size stats p = (case dict_get stats p of None \<Rightarrow> 0 | Some v \<Rightarrow> batch_size v)"

text \<open>One phase for the whole batch.\<close>

definition single_phase :: "string list \<Rightarrow> string" where
  "single_phase phases =
     (if phases = [] then ''unknown''
      else if phases = [''prefill''] then ''prefill''
      else if phases = [''decode''] then ''decode''
      else if phases = [''unknown''] then ''unknown''
      else ''mixed'')"

definition infer_batch_phase ::
  "(int \<Rightarrow> nat \<Rightarrow> 'f) \<Rightarrow> 'f \<Rightarrow> sched_output \<Rightarrow> prompt_lens \<Rightarrow> string \<times> prompt_lens" where
  "infer_batch_phase quot zero out st =
     (case collect_phase_metrics quot zero out st of
        (stats, st') \<Rightarrow>
          (let phases = filter (\<lambda>p. 0 < phase_batch_size stats p) QUEUE_PHASES
           in (if phases = [] then ''unknown''
               else if phases = [''prefill''] then ''prefill''
               else if phases = [''decode''] then ''decode''
               else if ''unknown'' \<in> set phases \<and> length phases = 1 then ''unknown''
               else ''mixed'', st')))"

definition get_batch_phase_details ::
  "(int \<Rightarrow> nat \<Rightarrow> 'f) \<Rightarrow> 'f \<Rightarrow> sched_output \<Rightarrow> prompt_lens \<Rightarrow> (string \<times> (string, nat) dict) \<times> prompt_lens" where
  "get_batch_phase_details quot zero out st =
     (case collect_phase_metrics quot zero out st of
        (stats, st') \<Rightarrow>
          (let detail = map (\<lambda>p. (p, phase_batch_size stats p)) QUEUE_PHASES
           in ((single_phase (map fst (filter (\<lambda>(p, n). 0 < n) detail)), detail), st')))"

end
