(* ===== verification/Adapt_Meta.thy ===== *)
theory Adapt_Meta
  imports Adapt_Phase
begin

text \<open>
  The handlers of the vLLM adapter that set the phase around a call and measure it: \<^verbatim>\<open>adapters/vllm/handlers/metric_handlers.py\<close>
  and the scopes of \<^verbatim>\<open>utils.py\<close>, of the metric package.

  A hooked function is a program over the state of the process; \<open>'x\<close> is what belongs to the serving framework, the clock
  included. \<open>args\<close> and \<open>kwargs\<close> of a call appear as what the handlers read of them. A coroutine runs when it is awaited, so
  that the two variants of a handler that only differ in \<^verbatim>\<open>await\<close> are one definition.
\<close>

section \<open>State\<close>

record ('r, 'o, 'f, 'x) serving =
  meta :: "'o meta_state"
  manager :: "'r metrics_manager"
  tls_phase :: "(nat \<times> prompt_lens) option"
  time_recorded :: "(string, 'f \<times> 'f) dict"
  pending_recorded :: "nat \<Rightarrow> bool"
  outside :: 'x

text \<open>The parameters: the client, the process id, the clock and the operations on floats.\<close>

record ('r, 'o, 'f, 'x) adapter_env =
  prom :: "('r, 'o) client"
  getpid :: "'x \<Rightarrow> nat"
  now :: "'x \<Rightarrow> 'f"
  fadd :: "'f \<Rightarrow> 'f \<Rightarrow> 'f"
  fsub :: "'f \<Rightarrow> 'f \<Rightarrow> 'f"
  is_negative :: "'f \<Rightarrow> bool"
  float_obj :: "'f \<Rightarrow> 'o obj"
  quotient :: "int \<Rightarrow> nat \<Rightarrow> 'f"
  zero_avg :: 'f

type_synonym ('r, 'o, 'f, 'x, 'e, 'v) hooked_prog = "(('r, 'o, 'f, 'x) serving, 'e, 'v) prog"

definition upd_meta :: "('o meta_state \<Rightarrow> 'o meta_state) \<Rightarrow> ('r, 'o, 'f, 'x) serving \<Rightarrow> ('r, 'o, 'f, 'x) serving" where
  "upd_meta f s = s\<lparr>meta := f (meta s)\<rparr>"

section \<open>Recording\<close>

definition str_label :: "string \<Rightarrow> string \<Rightarrow> 'o labels" where
  "str_label k v = [(YStr k, OStr v)]"

definition with_phase_all :: "'o labels \<Rightarrow> 'o labels" where
  "with_phase_all labels = label_missing ''phase'' (OStr ''all'') labels"

text \<open>\<^verbatim>\<open>metrics_client.record_metric\<close> reads the meta state and never raises.\<close>

definition record_sample ::
  "('r, 'o, 'f, 'x) adapter_env \<Rightarrow> string \<Rightarrow> 'o obj \<Rightarrow> 'o labels \<Rightarrow> ('r, 'o, 'f, 'x) serving \<Rightarrow> ('r, 'o, 'f, 'x) serving" where
  "record_sample env name v labels s = s\<lparr>manager := snd (record_metric (prom env) (meta s) name v labels (manager s))\<rparr>"

type_synonym 'o recording = "string \<times> 'o obj \<times> 'o labels"

definition record_all ::
  "('r, 'o, 'f, 'x) adapter_env \<Rightarrow> 'o recording list \<Rightarrow> ('r, 'o, 'f, 'x) serving \<Rightarrow> ('r, 'o, 'f, 'x) serving" where
  "record_all env rs s = fold (\<lambda>(name, v, labels). record_sample env name v labels) rs s"

definition time_now :: "('r, 'o, 'f, 'x) adapter_env \<Rightarrow> ('r, 'o, 'f, 'x, 'e, 'f) hooked_prog" where
  "time_now env = gets (\<lambda>s. now env (outside s))"

section \<open>Scopes\<close>

text \<open>\<open>phase_scope\<close>\<close>

definition phase_scope :: "'o obj \<Rightarrow> ('r, 'o, 'f, 'x, 'e, 'v) hooked_prog \<Rightarrow> ('r, 'o, 'f, 'x, 'e, 'v) hooked_prog" where
  "phase_scope phase body s =
     (let previous = meta_get ''phase'' (OStr ''mixed'') (meta s)
      in finally_do body (upd_meta (meta_set ''phase'' previous)) (upd_meta (meta_set ''phase'' phase) s))"

text \<open>\<open>meta_state_scope\<close>: a key that was absent is removed again.\<close>

definition restore_key :: "string \<times> 'o obj option \<Rightarrow> 'o meta_state \<Rightarrow> 'o meta_state" where
  "restore_key p m = (case snd p of None \<Rightarrow> snd (meta_remove (fst p) m) | Some v \<Rightarrow> meta_set (fst p) v m)"

definition meta_state_scope ::
  "(string, 'o obj) dict \<Rightarrow> ('r, 'o, 'f, 'x, 'e, 'v) hooked_prog \<Rightarrow> ('r, 'o, 'f, 'x, 'e, 'v) hooked_prog" where
  "meta_state_scope overrides body s =
     (let previous = map (\<lambda>(k, v). (k, dict_get (meta s) k)) overrides
      in finally_do body (upd_meta (fold restore_key previous)) (upd_meta (fold (\<lambda>(k, v). meta_set k v) overrides) s))"

section \<open>The handlers around a call\<close>

text \<open>
  A call of the handler that \<^verbatim>\<open>default_handler\<close> made, with \<open>nargs\<close> arguments after the function. Its variant that needs the local
  variables is a generator function of one argument: the call raises, or returns the generator without calling anything.
\<close>

definition call_base ::
  "('r, 'o, 'f, 'x) adapter_env \<Rightarrow> 'o python \<Rightarrow> 'e \<Rightarrow> 'v \<Rightarrow> ('v \<Rightarrow> 'o obj) \<Rightarrow> 'o default_handler \<Rightarrow> nat \<Rightarrow>
   ('r, 'o, 'f, 'x, 'e, 'v) hooked_prog \<Rightarrow> ('r, 'o, 'f, 'x, 'e, 'v) hooked_prog" where
  "call_base env py type_err gen obj_of dh nargs ori =
     (if Metrics.need_locals dh then (if nargs = 0 then ret gen else raise type_err)
      else andthen (time_now env) (\<lambda>start. andthen ori (\<lambda>res. andthen (time_now env) (\<lambda>stop.
             andthen (modify (\<lambda>s. s\<lparr>manager := snd (record_metrics_common (prom env) py (meta s) (dh_evaluators dh)
                        (eval_context (float_obj env (fsub env stop start)) (obj_of res) []) (dh_metrics dh) (manager s))\<rparr>))
               (\<lambda>_. ret res)))))"

text \<open>What is read of iteration statistics: \<open>None\<close> for an attribute that is absent, \<^verbatim>\<open>None\<close> or zero.\<close>

record iteration_stats =
  num_prompt_tokens :: "int option"
  num_generation_tokens :: "int option"

definition infer_phase_from_iteration_stats :: "iteration_stats option \<Rightarrow> string" where
  "infer_phase_from_iteration_stats st =
     (case st of
        None \<Rightarrow> ''mixed''
      | Some i \<Rightarrow>
          (let p = (case num_prompt_tokens i of None \<Rightarrow> 0 | Some n \<Rightarrow> n); g = (case num_generation_tokens i of None \<Rightarrow> 0 | Some n \<Rightarrow> n)
           in if p > 0 \<and> 0 \<ge> g then ''prefill''
              else if p \<le> 0 \<and> 0 < g then ''decode''
              else if p > 0 \<and> g > 0 then ''mixed''
              else ''mixed''))"

text \<open>The keyword argument, else the first positional argument with both attributes (\<open>None\<close> for one without).\<close>

definition infer_iteration_stats_from_args :: "iteration_stats option list \<Rightarrow> iteration_stats option \<Rightarrow> iteration_stats option" where
  "infer_iteration_stats_from_args args kwarg = (case kwarg of Some i \<Rightarrow> Some i | None \<Rightarrow> first_some args)"

text \<open>The phase of a label is any object of the meta state.\<close>

definition resolve_phase_from_iteration_stats_or_last ::
  "iteration_stats option list \<Rightarrow> iteration_stats option \<Rightarrow> 'o meta_state \<Rightarrow> 'o obj" where
  "resolve_phase_from_iteration_stats_or_last args kwarg m =
     (let phase = infer_phase_from_iteration_stats (infer_iteration_stats_from_args args kwarg)
      in if phase \<noteq> ''mixed'' then OStr phase else meta_get ''last_async_llm_phase'' (OStr ''mixed'') m)"

definition phase_overrides :: "'o obj \<Rightarrow> (string, 'o obj) dict" where
  "phase_overrides phase = [(''phase'', phase), (''last_async_llm_phase'', phase)]"


section \<open>The recorder of configured metrics\<close>

text \<open>\<open>_build_metrics_recorder\<close> compiles and registers like \<^verbatim>\<open>default_handler\<close>; the labels start from the default ones.\<close>

definition build_metrics_recorder ::
  "('r, 'o, 'f, 'x) adapter_env \<Rightarrow> 'o python \<Rightarrow> metric_config list \<Rightarrow> ('r, 'o, 'f, 'x) serving \<Rightarrow>
   'o handler_state option \<times> ('r, 'o, 'f, 'x) serving" where
  "build_metrics_recorder env py mcs s =
     (case prepare_metrics (prom env) py mcs \<lparr>expr_evaluators = [], label_evaluators = []\<rparr> (manager s) of
        (h, m) \<Rightarrow> (h, s\<lparr>manager := m\<rparr>))"

definition recorder_value :: "'o python \<Rightarrow> 'o handler_state \<Rightarrow> 'o obj \<Rightarrow> 'o scope \<Rightarrow> metric_config \<Rightarrow> 'o obj" where
  "recorder_value py h duration sc mc = (if mc_type mc = ''timer'' then duration else metric_value py h sc mc)"

definition recorder_labels :: "'o python \<Rightarrow> 'o handler_state \<Rightarrow> 'o labels \<Rightarrow> 'o scope \<Rightarrow> metric_config \<Rightarrow> 'o labels" where
  "recorder_labels py h defaults sc mc =
     (case dict_get (label_evaluators h) (name_of mc) of
        None \<Rightarrow> defaults
      | Some ls \<Rightarrow>
          fold (\<lambda>(name, ev) labels.
                  case fst (call_expr py sc ev) of Inl err \<Rightarrow> labels | Inr v \<Rightarrow> dict_set name v labels) ls defaults)"

definition recorder_samples ::
  "'o python \<Rightarrow> 'o handler_state \<Rightarrow> 'o labels \<Rightarrow> 'o obj \<Rightarrow> 'o obj \<Rightarrow> (string, 'o obj) dict \<Rightarrow> metric_config list \<Rightarrow> 'o recording list" where
  "recorder_samples py h defaults duration res locs mcs =
     (let sc = eval_context duration res locs
      in map (\<lambda>mc. (name_of mc, recorder_value py h duration sc mc, recorder_labels py h defaults sc mc)) mcs)"

text \<open>A call measured by a recorder.\<close>

definition recorded_call ::
  "('r, 'o, 'f, 'x) adapter_env \<Rightarrow> ('v \<Rightarrow> 'o obj) \<Rightarrow> ('o obj \<Rightarrow> 'o obj \<Rightarrow> 'o recording list) \<Rightarrow>
   ('r, 'o, 'f, 'x, 'e, 'v) hooked_prog \<Rightarrow> ('r, 'o, 'f, 'x, 'e, 'v) hooked_prog" where
  "recorded_call env obj_of samples ori =
     andthen (time_now env) (\<lambda>start. andthen ori (\<lambda>res. andthen (time_now env) (\<lambda>stop.
       andthen (modify (record_all env (samples (float_obj env (fsub env stop start)) (obj_of res)))) (\<lambda>_. ret res))))"

definition phase_all_handler ::
  "('r, 'o, 'f, 'x) adapter_env \<Rightarrow> 'o python \<Rightarrow> metric_config list \<Rightarrow> 'o handler_state \<Rightarrow> ('v \<Rightarrow> 'o obj) \<Rightarrow>
   ('r, 'o, 'f, 'x, 'e, 'v) hooked_prog \<Rightarrow> ('r, 'o, 'f, 'x, 'e, 'v) hooked_prog" where
  "phase_all_handler env py mcs h obj_of ori =
     recorded_call env obj_of (\<lambda>d res. recorder_samples py h (with_phase_all []) d res [] mcs) ori"

text \<open>\<open>outputs\<close> are the outputs of the engine among the arguments.\<close>

definition process_outputs_phase_handler ::
  "('r, 'o, 'f, 'x) adapter_env \<Rightarrow> 'o python \<Rightarrow> metric_config list \<Rightarrow> 'o handler_state \<Rightarrow> ('v \<Rightarrow> 'o obj) \<Rightarrow>
   iteration_stats option list \<Rightarrow> iteration_stats option \<Rightarrow> 'o obj option \<Rightarrow>
   ('r, 'o, 'f, 'x, 'e, 'v) hooked_prog \<Rightarrow> ('r, 'o, 'f, 'x, 'e, 'v) hooked_prog" where
  "process_outputs_phase_handler env py mcs h obj_of args kwarg outputs ori s =
     (let phase = resolve_phase_from_iteration_stats_or_last args kwarg (meta s);
          locs = (case outputs of None \<Rightarrow> [] | Some v \<Rightarrow> [(''engine_core_outputs'', v)])
      in meta_state_scope (phase_overrides phase)
           (recorded_call env obj_of (\<lambda>d res. recorder_samples py h [] d res locs mcs) ori) s)"

definition record_stats_phase_handler ::
  "iteration_stats option list \<Rightarrow> iteration_stats option \<Rightarrow> ('r, 'o, 'f, 'x, 'e, 'v) hooked_prog \<Rightarrow> ('r, 'o, 'f, 'x, 'e, 'v) hooked_prog" where
  "record_stats_phase_handler args kwarg base s =
     meta_state_scope (phase_overrides (resolve_phase_from_iteration_stats_or_last args kwarg (meta s))) base s"

definition abort_requests_phase_handler ::
  "('r, 'o, 'f, 'x, 'e, 'v) hooked_prog \<Rightarrow> ('r, 'o, 'f, 'x, 'e, 'v) hooked_prog" where
  "abort_requests_phase_handler base s =
     phase_scope (meta_get ''last_async_llm_phase'' (meta_get ''phase'' (OStr ''mixed'') (meta s)) (meta s)) base s"

section \<open>Phases of the worker and of the engine\<close>

text \<open>The thread-local state of the process that runs.\<close>

definition phase_lens :: "('r, 'o, 'f, 'x) adapter_env \<Rightarrow> ('r, 'o, 'f, 'x) serving \<Rightarrow> prompt_lens" where
  "phase_lens env s = get_scheduler_phase_state (getpid env (outside s)) (tls_phase s)"

definition set_phase_lens ::
  "('r, 'o, 'f, 'x) adapter_env \<Rightarrow> prompt_lens \<Rightarrow> ('r, 'o, 'f, 'x) serving \<Rightarrow> ('r, 'o, 'f, 'x) serving" where
  "set_phase_lens env st s = s\<lparr>tls_phase := Some (getpid env (outside s), st)\<rparr>"

definition batch_phase_details ::
  "('r, 'o, 'f, 'x) adapter_env \<Rightarrow> sched_output \<Rightarrow> ('r, 'o, 'f, 'x) serving \<Rightarrow> string \<times> ('r, 'o, 'f, 'x) serving" where
  "batch_phase_details env out s =
     (case get_batch_phase_details (quotient env) (zero_avg env) out (phase_lens env s) of
        ((phase, detail), st) \<Rightarrow> (phase, set_phase_lens env st s))"

text \<open>\<open>execute_model_state\<close> of a model runner: its first item, if that looks like the output of the scheduler.\<close>

definition infer_model_runner_phase ::
  "('r, 'o, 'f, 'x) adapter_env \<Rightarrow> sched_output option \<Rightarrow> ('r, 'o, 'f, 'x) serving \<Rightarrow> string \<times> ('r, 'o, 'f, 'x) serving" where
  "infer_model_runner_phase env out s = (case out of None \<Rightarrow> (''mixed'', s) | Some o' \<Rightarrow> batch_phase_details env o' s)"

definition infer_phase_from_scheduler_output :: "sched_output option \<Rightarrow> string" where
  "infer_phase_from_scheduler_output out =
     (case out of
        None \<Rightarrow> ''mixed''
      | Some o' \<Rightarrow>
          (let has_new = (case scheduled_new_reqs o' of None \<Rightarrow> False | Some rs \<Rightarrow> rs \<noteq> []);
               has_cached = (iter_cached (scheduled_cached_reqs o') \<noteq> [])
           in if has_new \<and> \<not> has_cached then ''prefill''
              else if has_cached \<and> \<not> has_new then ''decode''
              else if has_new \<and> has_cached then ''mixed''
              else ''mixed''))"

definition resolve_worker_phase ::
  "('r, 'o, 'f, 'x) adapter_env \<Rightarrow> sched_output option \<Rightarrow> sched_output option \<Rightarrow> ('r, 'o, 'f, 'x) serving \<Rightarrow>
   'o obj \<times> ('r, 'o, 'f, 'x) serving" where
  "resolve_worker_phase env runner_out arg0 s =
     (case infer_model_runner_phase env runner_out s of
        (phase, s1) \<Rightarrow>
          if phase \<noteq> ''mixed'' then (OStr phase, s1)
          else (let phase1 = infer_phase_from_scheduler_output arg0
                in if phase1 \<noteq> ''mixed'' then (OStr phase1, s1)
                   else (meta_get ''pd_role'' (meta_get ''role'' (OStr ''mixed'') (meta s1)) (meta s1), s1)))"

definition model_runner_phase_handler ::
  "('r, 'o, 'f, 'x) adapter_env \<Rightarrow> sched_output option \<Rightarrow> sched_output option \<Rightarrow>
   ('r, 'o, 'f, 'x, 'e, 'v) hooked_prog \<Rightarrow> ('r, 'o, 'f, 'x, 'e, 'v) hooked_prog" where
  "model_runner_phase_handler env runner_out arg0 base s =
     (case resolve_worker_phase env runner_out arg0 s of
        (phase, s1) \<Rightarrow> phase_scope phase base (upd_meta (meta_set ''last_model_runner_phase'' phase) s1))"

definition last_scheduler_phase :: "'o meta_state \<Rightarrow> 'o obj" where
  "last_scheduler_phase m = meta_get ''last_scheduler_phase'' (meta_get ''pd_role'' (OStr ''mixed'') m) m"

definition engine_core_phase_handler ::
  "('r, 'o, 'f, 'x, 'e, 'v) hooked_prog \<Rightarrow> ('r, 'o, 'f, 'x, 'e, 'v) hooked_prog" where
  "engine_core_phase_handler base s = phase_scope (last_scheduler_phase (meta s)) base s"

definition executor_execute_model_phase_handler ::
  "('r, 'o, 'f, 'x) adapter_env \<Rightarrow> sched_output option \<Rightarrow> ('r, 'o, 'f, 'x, 'e, 'v) hooked_prog \<Rightarrow> ('r, 'o, 'f, 'x, 'e, 'v) hooked_prog" where
  "executor_execute_model_phase_handler env out base s =
     (case infer_model_runner_phase env out s of
        (phase, s1) \<Rightarrow>
          phase_scope (if phase = ''mixed'' then last_scheduler_phase (meta s1) else OStr phase) base s1)"

end
