(* ===== verification/Adapt_Sched.thy ===== *)
theory Adapt_Sched
  imports Adapt_Meta
begin

text \<open>
  The hooks of the vLLM scheduler, of the block manager, of the health check and of the timing contexts:
  \<^verbatim>\<open>adapters/vllm/handlers/metric_handlers.py\<close> of the metric package. \<open>attr_err\<close> is raised for a missing attribute that is read without
  a default, or for the length of what has none.
\<close>

section \<open>Timeline\<close>

definition duration_config :: "(string \<times> string \<times> string \<times> bool) list" where
  "duration_config =
     [(''npu:forward_duration'', ''forward'', ''model_runner_get_output'', False),
      (''npu:kernel_launch'', ''forward'', ''post process'', False),
      (''npu:non_forward_duration'', ''model_runner_get_output'', ''post process'', True)]"

text \<open>The names whose times are kept, and what a name triggers: the start, the metric, and whether it counts from the end of the start.\<close>

definition time_record_set :: "string list" where
  "time_record_set = map (\<lambda>(metric, start, trigger, at_end). start) duration_config @ [''model_runner_get_output'']"

definition activated_by :: "string \<Rightarrow> (string \<times> string \<times> bool) list" where
  "activated_by name =
     List.map_filter (\<lambda>(metric, start, trigger, at_end). if trigger = name then Some (start, metric, at_end) else None) duration_config"

definition record_duration ::
  "('r, 'o, 'f, 'x) adapter_env \<Rightarrow> 'f \<Rightarrow> string \<times> string \<times> bool \<Rightarrow> ('r, 'o, 'f, 'x) serving \<Rightarrow> ('r, 'o, 'f, 'x) serving" where
  "record_duration env end_time a s =
     (case a of (start, metric, at_end) \<Rightarrow>
        case dict_get (time_recorded s) start of
          None \<Rightarrow> s
        | Some (t0, t1) \<Rightarrow>
            (let d = fsub env end_time (if at_end then t1 else t0)
             in if is_negative env d then s else record_sample env metric (float_obj env d) (with_phase_all []) s))"

definition timeline_record ::
  "('r, 'o, 'f, 'x) adapter_env \<Rightarrow> string \<Rightarrow> 'f \<Rightarrow> 'f \<Rightarrow> ('r, 'o, 'f, 'x) serving \<Rightarrow> ('r, 'o, 'f, 'x) serving" where
  "timeline_record env name start duration s =
     (let stop = fadd env start duration;
          s1 = (if name \<in> set time_record_set then s\<lparr>time_recorded := dict_set name (start, stop) (time_recorded s)\<rparr> else s)
      in fold (record_duration env stop) (activated_by name) s1)"

section \<open>Timing contexts\<close>

record ('o, 'f) timing =
  label_name :: string
  t_start :: 'f
  captured_phase :: "'o obj"
  captured_role :: "'o obj"

text \<open>\<open>TimingContextManager\<close> up to the entry of the wrapped context, and its exit before the exit of that context.\<close>

definition timing_enter ::
  "('r, 'o, 'f, 'x) adapter_env \<Rightarrow> string \<Rightarrow> ('r, 'o, 'f, 'x) serving \<Rightarrow> ('o, 'f) timing" where
  "timing_enter env name s =
     (let phase = meta_get ''phase'' (OStr ''mixed'') (meta s)
      in \<lparr>label_name = name, t_start = now env (outside s),
          captured_phase = (if name \<in> {''sample_token'', ''draft_token''} then meta_get ''last_model_runner_phase'' phase (meta s) else phase),
          captured_role = meta_get ''pd_role'' (meta_get ''role'' (OStr ''mixed'') (meta s)) (meta s)\<rparr>)"

definition timing_exit ::
  "('r, 'o, 'f, 'x) adapter_env \<Rightarrow> ('o, 'f) timing \<Rightarrow> ('r, 'o, 'f, 'x) serving \<Rightarrow> ('r, 'o, 'f, 'x) serving" where
  "timing_exit env t s =
     (let d = fsub env (now env (outside s)) (t_start t)
      in timeline_record env (label_name t) (t_start t) d
           (record_sample env ''record_function_or_nullcontext'' (float_obj env d)
              [(YStr ''name'', OStr (label_name t)), (YStr ''phase'', captured_phase t), (YStr ''role'', captured_role t)] s))"

text \<open>
  \<^verbatim>\<open>with TimingContextManager(name, context): body\<close>. The exit of the wrapped context is told whether the body raised, and its
  result tells whether to go on after the exception.
\<close>

definition timed_block ::
  "('r, 'o, 'f, 'x) adapter_env \<Rightarrow> string \<Rightarrow> ('r, 'o, 'f, 'x, 'e, unit) hooked_prog \<Rightarrow> (bool \<Rightarrow> ('r, 'o, 'f, 'x, 'e, bool) hooked_prog) \<Rightarrow>
   ('r, 'o, 'f, 'x, 'e, unit) hooked_prog \<Rightarrow> ('r, 'o, 'f, 'x, 'e, unit) hooked_prog" where
  "timed_block env name enter leave body s =
     (let t = timing_enter env name s
      in case enter s of
           (Inl e, s1) \<Rightarrow> (Inl e, s1)
         | (Inr _, s1) \<Rightarrow>
             (case body s1 of
                (Inr _, s2) \<Rightarrow> (case leave False (timing_exit env t s2) of (Inl e, s3) \<Rightarrow> (Inl e, s3) | (Inr _, s3) \<Rightarrow> (Inr (), s3))
              | (Inl e, s2) \<Rightarrow>
                  (case leave True s2 of
                     (Inl e', s3) \<Rightarrow> (Inl e', s3)
                   | (Inr suppress, s3) \<Rightarrow> (if suppress then Inr () else Inl e, s3))))"

definition PHASE_SENSITIVE :: "string list" where
  "PHASE_SENSITIVE = [''prepare input'', ''forward'', ''post process'', ''sample_token'', ''draft_token'']"

text \<open>
  \<open>record_function_timer_hook_vllm_ascend\<close> around a \<^verbatim>\<open>with\<close> block: the scope is opened before the wrapped context is entered and
  closed by the exit, which does not run when entering raises. \<open>orig\<close> is the call of the original function.
\<close>

definition phase_timed_block ::
  "('r, 'o, 'f, 'x) adapter_env \<Rightarrow> sched_output option \<Rightarrow> string \<Rightarrow> ('r, 'o, 'f, 'x, 'e, unit) hooked_prog \<Rightarrow>
   ('r, 'o, 'f, 'x, 'e, unit) hooked_prog \<Rightarrow> (bool \<Rightarrow> ('r, 'o, 'f, 'x, 'e, bool) hooked_prog) \<Rightarrow>
   ('r, 'o, 'f, 'x, 'e, unit) hooked_prog \<Rightarrow> ('r, 'o, 'f, 'x, 'e, unit) hooked_prog" where
  "phase_timed_block env runner_out name orig enter leave body s =
     (case (if name \<in> set PHASE_SENSITIVE then infer_model_runner_phase env runner_out s else (''mixed'', s)) of
        (phase, s1) \<Rightarrow>
          andthen orig (\<lambda>_ s2.
            if phase = ''mixed'' then timed_block env name enter leave body s2
            else (let previous = meta_get ''phase'' (OStr ''mixed'') (meta s2);
                      restore = upd_meta (meta_set ''phase'' previous);
                      s3 = upd_meta (meta_set ''phase'' (OStr phase)) s2;
                      t = timing_enter env name s3
                  in case enter s3 of
                       (Inl e, s4) \<Rightarrow> (Inl e, s4)
                     | (Inr _, s4) \<Rightarrow>
                         (case body s4 of
                            (Inr _, s5) \<Rightarrow>
                              (case leave False (timing_exit env t s5) of (Inl e, s6) \<Rightarrow> (Inl e, restore s6) | (Inr _, s6) \<Rightarrow> (Inr (), restore s6))
                          | (Inl e, s5) \<Rightarrow>
                              (case leave True s5 of
                                 (Inl e', s6) \<Rightarrow> (Inl e', restore s6)
                               | (Inr suppress, s6) \<Rightarrow> (if suppress then Inr () else Inl e, restore s6))))) s1)"

definition runner_get_output_hooker ::
  "('r, 'o, 'f, 'x) adapter_env \<Rightarrow> ('r, 'o, 'f, 'x, 'e, 'v) hooked_prog \<Rightarrow> ('r, 'o, 'f, 'x, 'e, 'v) hooked_prog" where
  "runner_get_output_hooker env ori =
     andthen (time_now env) (\<lambda>start. andthen ori (\<lambda>res. andthen (time_now env) (\<lambda>stop.
       let d = fsub env stop start
       in andthen (modify (\<lambda>s. timeline_record env ''model_runner_get_output'' start d
              (record_sample env ''worker:model_runner_get_output:duration'' (float_obj env d) (with_phase_all []) s))) (\<lambda>_. ret res))))"

section \<open>The scheduler\<close>

text \<open>A queue: absent, with a length, with a truth value only, or with neither.\<close>

datatype queue = NoQueue | Sized nat | Truthy bool | Opaque

record scheduler_view =
  running :: queue
  max_num_running_reqs :: "int option"
  waiting :: queue
  skipped_waiting :: queue

definition queue_has_items :: "queue \<Rightarrow> bool" where
  "queue_has_items q = (case q of Sized n \<Rightarrow> 0 < n | Truthy b \<Rightarrow> b | _ \<Rightarrow> False)"

definition is_running_capacity_blocked :: "scheduler_view \<Rightarrow> bool" where
  "is_running_capacity_blocked v =
     (case (running v, max_num_running_reqs v) of
        (Sized n, Some k) \<Rightarrow> int n = k \<and> (queue_has_items (waiting v) \<or> queue_has_items (skipped_waiting v))
      | _ \<Rightarrow> False)"

text \<open>The counter of blocked requests goes up when the scheduler becomes blocked; the flag is an attribute of the scheduler object.\<close>

definition note_pending ::
  "('r, 'o, 'f, 'x) adapter_env \<Rightarrow> nat \<Rightarrow> bool \<Rightarrow> ('r, 'o, 'f, 'x) serving \<Rightarrow> ('r, 'o, 'f, 'x) serving" where
  "note_pending env i blocked s =
     (if blocked
      then (if pending_recorded s i then s
            else (record_sample env ''request_prefill_pending_nums'' (OInt 1) (with_phase_all []) s)\<lparr>pending_recorded := (pending_recorded s)(i := True)\<rparr>)
      else s\<lparr>pending_recorded := (pending_recorded s)(i := False)\<rparr>)"

definition engine_core_pending_hooker ::
  "('r, 'o, 'f, 'x) adapter_env \<Rightarrow> ('x \<Rightarrow> nat \<Rightarrow> scheduler_view) \<Rightarrow> nat option \<Rightarrow>
   ('r, 'o, 'f, 'x, 'e, 'v) hooked_prog \<Rightarrow> ('r, 'o, 'f, 'x, 'e, 'v) hooked_prog" where
  "engine_core_pending_hooker env view sched ori s =
     (case sched of None \<Rightarrow> ori s | Some i \<Rightarrow> ori (note_pending env i (is_running_capacity_blocked (view (outside s) i)) s))"

definition tokens_length :: "token_counts \<Rightarrow> nat option" where
  "tokens_length t = (case t of TokenDict d \<Rightarrow> Some (length d) | TokenSeq ns \<Rightarrow> Some (length ns) | _ \<Rightarrow> None)"

definition cached_computed :: "cached_reqs \<Rightarrow> int list option" where
  "cached_computed c = (case c of CachedData ids ns \<Rightarrow> Some ns | _ \<Rightarrow> None)"

fun all_some :: "'b option list \<Rightarrow> 'b list option" where
  "all_some [] = Some []"
| "all_some (None # xs) = None"
| "all_some (Some x # xs) = map_option ((#) x) (all_some xs)"

text \<open>What is recorded of the lengths: the number of scheduled sequences and their computed and scheduled tokens.\<close>

definition sequence_lengths :: "sched_output \<Rightarrow> (nat \<times> int) option" where
  "sequence_lengths out =
     (case (scheduled_new_reqs out, cached_computed (scheduled_cached_reqs out)) of
        (Some new, Some ns) \<Rightarrow>
          (case (all_some (map r_num_computed_tokens new), total_num_scheduled_tokens out) of
             (Some cs, Some scheduled) \<Rightarrow> Some (length new + length ns, sum_list cs + sum_list ns + scheduled)
           | _ \<Rightarrow> None)
      | _ \<Rightarrow> None)"

definition length_recordings :: "('r, 'o, 'f, 'x) adapter_env \<Rightarrow> nat \<times> int \<Rightarrow> 'o recording list" where
  "length_recordings env l =
     (case l of (cnt, tot) \<Rightarrow>
        (if cnt > 0 \<and> tot > 0 then [(''scheduler:seqlen:avg'', float_obj env (quotient env tot cnt), with_phase_all [])] else []) @
        (if tot > 0 then [(''scheduler:seqlen:sum'', OInt tot, with_phase_all [])] else []))"

definition phase_recordings :: "string \<times> 'f phase_values \<Rightarrow> 'o recording list" where
  "phase_recordings e =
     (case e of (p, v) \<Rightarrow>
        let labels = with_phase_all (str_label ''req_phase'' p)
        in if batch_size v = 0 then []
           else [(''scheduler:phase_batch_size'', OInt (int (batch_size v)), labels),
                 (''scheduler:phase_scheduled_tokens'', OInt (scheduled_tokens_sum v), labels)] @
                (if scheduled_tokens_sum v > 0 then [(''scheduler:phase_scheduled_token_counter'', OInt (scheduled_tokens_sum v), labels)] else []))"

definition if_some :: "'e \<Rightarrow> 'b option \<Rightarrow> ('b \<Rightarrow> ('s, 'e, 'v) prog) \<Rightarrow> ('s, 'e, 'v) prog" where
  "if_some err x f = (case x of None \<Rightarrow> raise err | Some y \<Rightarrow> f y)"

text \<open>\<open>scheduler_scheduler_hooker\<close> after the original function returned \<open>out\<close>.\<close>

definition record_schedule ::
  "('r, 'o, 'f, 'x) adapter_env \<Rightarrow> 'e \<Rightarrow> ('x \<Rightarrow> nat \<Rightarrow> scheduler_view) \<Rightarrow> nat \<Rightarrow> 'f \<Rightarrow> sched_output \<Rightarrow>
   ('r, 'o, 'f, 'x, 'e, unit) hooked_prog" where
  "record_schedule env attr_err view i duration out s =
     (case collect_phase_metrics (quotient env) (zero_avg env) out (phase_lens env s) of
        (stats, st) \<Rightarrow>
          (case batch_phase_details env out (set_phase_lens env st s) of
             (phase, s1) \<Rightarrow>
               (let s2 = upd_meta (\<lambda>m. meta_set ''phase'' (OStr phase) (meta_set ''last_scheduler_phase'' (OStr phase) m)) s1;
                    rec = (\<lambda>name v. modify (record_sample env name v (with_phase_all [])))
                in andthen (rec ''scheduler:duration'' (float_obj env duration)) (\<lambda>_.
                   if_some attr_err (tokens_length (num_scheduled_tokens out)) (\<lambda>n.
                   andthen (rec ''scheduler:batch_size'' (OInt (int n))) (\<lambda>_ s3.
                   if_some attr_err (case running (view (outside s3) i) of Sized k \<Rightarrow> Some k | _ \<Rightarrow> None) (\<lambda>k.
                   andthen (rec ''scheduler:running_queue_size'' (OInt (int k))) (\<lambda>_.
                   if_some attr_err (sequence_lengths out) (\<lambda>l.
                   modify (record_all env (length_recordings env l @ concat (map phase_recordings stats)))))) s3))) s2)))"

definition scheduler_scheduler_hooker ::
  "('r, 'o, 'f, 'x) adapter_env \<Rightarrow> 'e \<Rightarrow> ('x \<Rightarrow> nat \<Rightarrow> scheduler_view) \<Rightarrow> nat \<Rightarrow>
   ('r, 'o, 'f, 'x, 'e, sched_output) hooked_prog \<Rightarrow> ('r, 'o, 'f, 'x, 'e, sched_output) hooked_prog" where
  "scheduler_scheduler_hooker env attr_err view i ori s =
     (let s0 = note_pending env i (is_running_capacity_blocked (view (outside s) i)) s
      in andthen (time_now env) (\<lambda>start. andthen ori (\<lambda>out. andthen (time_now env) (\<lambda>stop.
           andthen (record_schedule env attr_err view i (fsub env stop start) out) (\<lambda>_. ret out)))) s0)"

text \<open>\<open>reqs\<close> are the arguments and the result.\<close>

definition scheduler_preempt_request_hooker ::
  "('r, 'o, 'f, 'x) adapter_env \<Rightarrow> ('v \<Rightarrow> py_req list) \<Rightarrow>
   ('r, 'o, 'f, 'x, 'e, 'v) hooked_prog \<Rightarrow> ('r, 'o, 'f, 'x, 'e, 'v) hooked_prog" where
  "scheduler_preempt_request_hooker env reqs ori =
     andthen ori (\<lambda>res. andthen (modify (\<lambda>s.
       record_all env [(''running_to_waiting_count'', OInt 1, with_phase_all []), (''scheduler:recompute_events'', OInt 1, with_phase_all [])]
         (set_phase_lens env (clear_request_phase_state (reqs res) (phase_lens env s)) s))) (\<lambda>_. ret res))"

end
