(* ===== verification/Adapt_Stats.thy ===== *)
theory Adapt_Stats
  imports Adapt_Sched
begin

text \<open>
  Hooks of the vLLM adapter that count failures and read statistics: the rest of \<^verbatim>\<open>adapters/vllm/handlers/metric_handlers.py\<close>, and
  \<^verbatim>\<open>adapters/vllm/handlers/meta_handlers.py\<close>.
\<close>

section \<open>Failures\<close>

definition count_one :: "('r, 'o, 'f, 'x) adapter_env \<Rightarrow> string \<Rightarrow> 'o labels \<Rightarrow> ('r, 'o, 'f, 'x) serving \<Rightarrow> ('r, 'o, 'f, 'x) serving" where
  "count_one env name labels = record_sample env name (OInt 1) (with_phase_all labels)"

text \<open>
  What an allocation returned: \<^verbatim>\<open>None\<close>, \<^verbatim>\<open>False\<close>, or an object with the truth values of three attributes (called if they can be),
  \<open>None\<close> for one that raises.
\<close>

datatype alloc_result = AllocNone | AllocFalse | AllocObj "bool option" "bool option" "bool option"

definition is_failed_allocation_result :: "alloc_result \<Rightarrow> bool" where
  "is_failed_allocation_result r =
     (case r of AllocObj a b c \<Rightarrow> Some True \<in> {a, b, c} | _ \<Rightarrow> True)"

text \<open>\<open>is_exc\<close> tells which exceptions \<^verbatim>\<open>except Exception\<close> catches.\<close>

definition block_allocate_failure_hooker ::
  "('r, 'o, 'f, 'x) adapter_env \<Rightarrow> ('e \<Rightarrow> bool) \<Rightarrow> ('v \<Rightarrow> alloc_result) \<Rightarrow>
   ('r, 'o, 'f, 'x, 'e, 'v) hooked_prog \<Rightarrow> ('r, 'o, 'f, 'x, 'e, 'v) hooked_prog" where
  "block_allocate_failure_hooker env is_exc result ori s =
     (case ori s of
        (Inl e, s1) \<Rightarrow> (Inl e, if is_exc e then count_one env ''block_allocate_failures'' [] s1 else s1)
      | (Inr v, s1) \<Rightarrow> (Inr v, if is_failed_allocation_result (result v) then count_one env ''block_allocate_failures'' [] s1 else s1))"

definition rpc_error_hooker ::
  "('r, 'o, 'f, 'x) adapter_env \<Rightarrow> ('e \<Rightarrow> bool) \<Rightarrow> ('e \<Rightarrow> string) \<Rightarrow>
   ('r, 'o, 'f, 'x, 'e, 'v) hooked_prog \<Rightarrow> ('r, 'o, 'f, 'x, 'e, 'v) hooked_prog" where
  "rpc_error_hooker env is_exc type_name ori s =
     (case ori s of
        (Inl e, s1) \<Rightarrow> (Inl e, if is_exc e then count_one env ''rpc_errors'' (str_label ''exception_type'' (type_name e)) s1 else s1)
      | r \<Rightarrow> r)"

text \<open>A health check: a failed engine counts, and so does a response with the status 503. \<open>awaits\<close> is the awaitable a call returned.\<close>

definition is_engine_dead_error :: "('e \<Rightarrow> string) \<Rightarrow> 'e \<Rightarrow> bool" where
  "is_engine_dead_error type_name e \<longleftrightarrow> type_name e = ''EngineDeadError''"

definition count_engine_dead ::
  "('r, 'o, 'f, 'x) adapter_env \<Rightarrow> ('e \<Rightarrow> bool) \<Rightarrow> ('e \<Rightarrow> string) \<Rightarrow>
   ('r, 'o, 'f, 'x, 'e, 'v) hooked_prog \<Rightarrow> ('r, 'o, 'f, 'x, 'e, 'v) hooked_prog" where
  "count_engine_dead env is_exc type_name ori s =
     (case ori s of
        (Inl e, s1) \<Rightarrow>
          (Inl e, if is_exc e \<and> is_engine_dead_error type_name e then count_one env ''health_check_failed'' [] s1 else s1)
      | r \<Rightarrow> r)"

definition record_health_check_failed_if_needed ::
  "('r, 'o, 'f, 'x) adapter_env \<Rightarrow> ('v \<Rightarrow> int option) \<Rightarrow> 'v \<Rightarrow> ('r, 'o, 'f, 'x, 'e, 'v) hooked_prog" where
  "record_health_check_failed_if_needed env status v s =
     (Inr v, if status v = Some 503 then count_one env ''health_check_failed'' [] s else s)"

definition health_check_failed_hooker ::
  "('r, 'o, 'f, 'x) adapter_env \<Rightarrow> ('e \<Rightarrow> bool) \<Rightarrow> ('e \<Rightarrow> string) \<Rightarrow> ('v \<Rightarrow> int option) \<Rightarrow>
   ('v \<Rightarrow> ('r, 'o, 'f, 'x, 'e, 'v) hooked_prog option) \<Rightarrow>
   ('r, 'o, 'f, 'x, 'e, 'v) hooked_prog \<Rightarrow> ('r, 'o, 'f, 'x, 'e, 'v) hooked_prog" where
  "health_check_failed_hooker env is_exc type_name status awaits ori =
     andthen (count_engine_dead env is_exc type_name ori) (\<lambda>res.
       case awaits res of
         None \<Rightarrow> record_health_check_failed_if_needed env status res
       | Some p \<Rightarrow> andthen (count_engine_dead env is_exc type_name p) (record_health_check_failed_if_needed env status))"

text \<open>
  \<open>health_engine_client_hooker\<close>: the check of a client is wrapped once. A client has a flag, a callable check or not, and
  attributes that can be set or not; when the flag cannot be set after the check was replaced, the check stays replaced.
\<close>

record ('r, 'o, 'f, 'x, 'e, 'v) health_client =
  health_wrapped :: bool
  check_health :: "('r, 'o, 'f, 'x, 'e, 'v) hooked_prog option"
  check_settable :: bool
  flag_settable :: bool

definition wrap_health_check_once ::
  "('r, 'o, 'f, 'x) adapter_env \<Rightarrow> ('e \<Rightarrow> bool) \<Rightarrow> ('e \<Rightarrow> string) \<Rightarrow>
   ('r, 'o, 'f, 'x, 'e, 'v) health_client \<Rightarrow> ('r, 'o, 'f, 'x, 'e, 'v) health_client" where
  "wrap_health_check_once env is_exc type_name c =
     (if health_wrapped c then c
      else case check_health c of
             None \<Rightarrow> c
           | Some p \<Rightarrow>
               if \<not> check_settable c then c
               else c\<lparr>check_health := Some (count_engine_dead env is_exc type_name p), health_wrapped := flag_settable c\<rparr>)"

definition health_engine_client ::
  "('r, 'o, 'f, 'x) adapter_env \<Rightarrow> ('e \<Rightarrow> bool) \<Rightarrow> ('e \<Rightarrow> string) \<Rightarrow> string option \<Rightarrow>
   ('r, 'o, 'f, 'x, 'e, 'v) health_client option \<Rightarrow> ('r, 'o, 'f, 'x, 'e, 'v) health_client option" where
  "health_engine_client env is_exc type_name path c =
     (if path = Some ''/health'' then map_option (wrap_health_check_once env is_exc type_name) c else c)"

section \<open>Hotness of experts\<close>

record 'o hotness =
  current_mean :: "'o obj option"
  current_max :: "'o obj option"
  update_mean :: "'o obj option"
  update_max :: "'o obj option"
  current_imbalance :: "'o obj list option"
  update_imbalance :: "'o obj list option"

text \<open>\<open>to_float\<close> is \<^verbatim>\<open>float(value)\<close>, which may raise \<open>err\<close>; \<open>dec\<close> is \<^verbatim>\<open>str\<close> of a number.\<close>

definition hotness_summary :: "('o obj \<Rightarrow> 'o obj option) \<Rightarrow> string \<Rightarrow> 'o obj option \<Rightarrow> 'o recording option list" where
  "hotness_summary to_float suffix v =
     (case v of
        None \<Rightarrow> []
      | Some x \<Rightarrow> [map_option (\<lambda>f. (''eplb:expert_hotness:'' @ suffix, f, with_phase_all (str_label ''rank'' ''0''))) (to_float x)])"

definition imbalance_samples ::
  "('o obj \<Rightarrow> 'o obj option) \<Rightarrow> (nat \<Rightarrow> string) \<Rightarrow> string \<Rightarrow> 'o obj list option \<Rightarrow> 'o recording option list" where
  "imbalance_samples to_float dec phase vs =
     (case vs of
        None \<Rightarrow> []
      | Some xs \<Rightarrow>
          map (\<lambda>(k, x). map_option (\<lambda>f. (''eplb:expert_hotness:imbalance'', f,
                 [(YStr ''rank'', OStr ''0''), (YStr ''phase'', OStr phase), (YStr ''layer'', OStr (dec k))])) (to_float x)) (List.enumerate 0 xs))"

text \<open>The samples up to the first that raises.\<close>

fun record_until_raise ::
  "('r, 'o, 'f, 'x) adapter_env \<Rightarrow> 'e \<Rightarrow> 'o recording option list \<Rightarrow> ('r, 'o, 'f, 'x, 'e, unit) hooked_prog" where
  "record_until_raise env err [] s = (Inr (), s)"
| "record_until_raise env err (None # rs) s = (Inl err, s)"
| "record_until_raise env err (Some (name, v, labels) # rs) s = record_until_raise env err rs (record_sample env name v labels s)"

definition eplb_do_update_hotness_handler ::
  "('r, 'o, 'f, 'x) adapter_env \<Rightarrow> 'e \<Rightarrow> ('o obj \<Rightarrow> 'o obj option) \<Rightarrow> (nat \<Rightarrow> string) \<Rightarrow> ('x \<Rightarrow> int) \<Rightarrow> ('x \<Rightarrow> 'o hotness option) \<Rightarrow>
   ('r, 'o, 'f, 'x, 'e, 'v) hooked_prog \<Rightarrow> ('r, 'o, 'f, 'x, 'e, 'v) hooked_prog" where
  "eplb_do_update_hotness_handler env err to_float dec rank_id latest ori =
     andthen ori (\<lambda>res s.
       if rank_id (outside s) \<noteq> 0 then (Inr res, s)
       else case latest (outside s) of
              None \<Rightarrow> (Inr res, s)
            | Some h \<Rightarrow>
                andthen (record_until_raise env err
                  (hotness_summary to_float ''current_mean'' (current_mean h) @ hotness_summary to_float ''current_max'' (current_max h) @
                   hotness_summary to_float ''update_mean'' (update_mean h) @ hotness_summary to_float ''update_max'' (update_max h) @
                   imbalance_samples to_float dec ''current'' (current_imbalance h) @
                   imbalance_samples to_float dec ''update'' (update_imbalance h))) (\<lambda>_. ret res) s)"

section \<open>Memory\<close>

definition ENGINE_MEMORY_METRICS :: "string list" where
  "ENGINE_MEMORY_METRICS = map (\<lambda>n. ''engine:memory:'' @ n)
     [''total_gb'', ''utilization_ratio'', ''reserved_gb'', ''weights_gb'', ''kvcache_gb'', ''non_torch_gb'', ''activation_gb'', ''graph_gb'']"

definition RUNTIME_MEMORY_METRICS :: "string list" where
  "RUNTIME_MEMORY_METRICS = [''engine:memory:torch_reserved_gb'', ''engine:memory:torch_allocated_gb'']"

text \<open>\<open>attribute name\<close> reads the value of a known metric from the worker; the first that raises ends the recording.\<close>

fun record_memory ::
  "('r, 'o, 'f, 'x) adapter_env \<Rightarrow> string list \<Rightarrow> (string \<Rightarrow> 'x \<Rightarrow> 'o obj option) \<Rightarrow> string list \<Rightarrow>
   ('r, 'o, 'f, 'x) serving \<Rightarrow> ('r, 'o, 'f, 'x) serving" where
  "record_memory env known attribute [] s = s"
| "record_memory env known attribute (n # ns) s =
     (if n \<notin> set known then record_memory env known attribute ns s
      else case attribute n (outside s) of
             None \<Rightarrow> s
           | Some v \<Rightarrow> record_memory env known attribute ns (record_sample env n v (with_phase_all []) s))"

definition memory_phase_handler ::
  "('r, 'o, 'f, 'x) adapter_env \<Rightarrow> string list \<Rightarrow> (string \<Rightarrow> 'x \<Rightarrow> 'o obj option) \<Rightarrow> string list \<Rightarrow>
   ('r, 'o, 'f, 'x, 'e, 'v) hooked_prog \<Rightarrow> ('r, 'o, 'f, 'x, 'e, 'v) hooked_prog" where
  "memory_phase_handler env known attribute configured ori =
     andthen ori (\<lambda>res. andthen (modify (record_memory env known attribute configured)) (\<lambda>_. ret res))"


section \<open>The rank of the process\<close>

text \<open>Ranks are integers. The rank of a process is taken once, while it is unknown.\<close>

definition rank_known :: "'o meta_state \<Rightarrow> bool" where
  "rank_known m \<longleftrightarrow> dict_has ''dp_rank'' m \<and> dp_rank m \<noteq> OInt (- 1)"

definition init_data_parallel ::
  "('x \<Rightarrow> int) \<Rightarrow> ('r, 'o, 'f, 'x, 'e, 'v) hooked_prog \<Rightarrow> ('r, 'o, 'f, 'x, 'e, 'v) hooked_prog" where
  "init_data_parallel rank ori =
     andthen ori (\<lambda>res. andthen (modify (\<lambda>s.
       if rank_known (meta s) then s else upd_meta (meta_set ''dp_rank'' (OInt (rank (outside s)))) s)) (\<lambda>_. ret res))"

text \<open>
  \<open>own\<close> is the attribute \<^verbatim>\<open>dp_rank\<close> of the worker; \<open>parallel\<close> is \<^verbatim>\<open>parallel_config\<close>, with its attribute \<^verbatim>\<open>data_parallel_rank\<close>: absent,
  \<^verbatim>\<open>None\<close> or a number.
\<close>

definition ensure_dp_rank_meta_collected ::
  "int option \<Rightarrow> int option option option \<Rightarrow> ('r, 'o, 'f, 'x) serving \<Rightarrow> ('r, 'o, 'f, 'x) serving" where
  "ensure_dp_rank_meta_collected own parallel s =
     (if rank_known (meta s) then s
      else (let r = (case own of
                       Some r \<Rightarrow> r
                     | None \<Rightarrow> (case parallel of None \<Rightarrow> - 1 | Some None \<Rightarrow> - 1 | Some (Some None) \<Rightarrow> - 1 | Some (Some (Some r)) \<Rightarrow> r))
            in upd_meta (meta_set ''dp_rank'' (OInt r)) s))"

definition init_data_parallel_worker ::
  "int option \<Rightarrow> int option option option \<Rightarrow> ('r, 'o, 'f, 'x, 'e, 'v) hooked_prog \<Rightarrow> ('r, 'o, 'f, 'x, 'e, 'v) hooked_prog" where
  "init_data_parallel_worker own parallel ori s = ori (ensure_dp_rank_meta_collected own parallel s)"

section \<open>Statistics of the scheduler\<close>

record ('x, 'o) stats_view =
  total_blocks :: "'x \<Rightarrow> int"
  free_blocks :: "'x \<Rightarrow> int"
  running_reqs :: "'x \<Rightarrow> py_req list option"
  waiting_reqs :: "'x \<Rightarrow> py_req list option"

text \<open>What \<^verbatim>\<open>make_stats\<close> returns: of it only the connector statistics are touched.\<close>

record 'o scheduler_stats =
  num_running_reqs :: "'o obj"
  num_waiting_reqs :: "'o obj"
  num_spec_tokens :: "'o obj option"
  kv_connector_stats :: "(string, 'o obj) dict option"

definition queue_recordings :: "string \<Rightarrow> (string, nat) dict \<Rightarrow> 'o recording list" where
  "queue_recordings name counts =
     map (\<lambda>p. (name, OInt (int (case dict_get counts p of None \<Rightarrow> 0 | Some n \<Rightarrow> n)), with_phase_all (str_label ''req_phase'' p))) QUEUE_PHASES"

definition record_queues ::
  "('r, 'o, 'f, 'x) adapter_env \<Rightarrow> ('x, 'o) stats_view \<Rightarrow> ('r, 'o, 'f, 'x) serving \<Rightarrow> ('r, 'o, 'f, 'x) serving" where
  "record_queues env sv s =
     (case collect_queue_phase_metrics (running_reqs sv (outside s)) (phase_lens env s) of
        (run, st1) \<Rightarrow>
          (case collect_queue_phase_metrics (waiting_reqs sv (outside s)) st1 of
             (wait, st2) \<Rightarrow>
               record_all env (queue_recordings ''running_phase_batch_size'' run @ queue_recordings ''waiting_phase_batch_size'' wait)
                 (set_phase_lens env st2 s)))"

definition block_recordings :: "'o obj \<Rightarrow> int \<Rightarrow> int \<Rightarrow> 'o recording list" where
  "block_recordings rank total_n free_n =
     (let labels = with_phase_all [(YStr ''dp'', rank)]
      in [(''total_kvcache_blocks'', OInt total_n, labels), (''free_kvcache_blocks'', OInt free_n, labels),
          (''allocated_kvcache_blocks'', OInt (total_n - free_n - 1), labels)])"

definition make_stats ::
  "('r, 'o, 'f, 'x) adapter_env \<Rightarrow> ('x, 'o) stats_view \<Rightarrow>
   ('r, 'o, 'f, 'x, 'e, 'o scheduler_stats) hooked_prog \<Rightarrow> ('r, 'o, 'f, 'x, 'e, 'o scheduler_stats) hooked_prog" where
  "make_stats env sv ori =
     andthen (modify (\<lambda>s. record_all env (block_recordings (dp_rank (meta s)) (total_blocks sv (outside s)) (free_blocks sv (outside s))) s))
       (\<lambda>_. andthen ori (\<lambda>st. andthen (modify (record_queues env sv)) (\<lambda>_ s.
          (Inr (st\<lparr>kv_connector_stats := Some (case kv_connector_stats st of
                     None \<Rightarrow> [(''dp'', dp_rank (meta s))]
                   | Some d \<Rightarrow> dict_set ''dp'' (dp_rank (meta s)) d)\<rparr>), s))))"

definition scheduler_recordings :: "'o obj \<Rightarrow> 'o scheduler_stats option \<Rightarrow> 'o recording list" where
  "scheduler_recordings engine st =
     (case st of
        None \<Rightarrow> []
      | Some s \<Rightarrow>
          (let labels = with_phase_all [(YStr ''engine'', engine)]
           in [(''batch_size'', num_running_reqs s, labels), (''waiting_batch_size'', num_waiting_reqs s, labels)] @
              (case num_spec_tokens s of None \<Rightarrow> [] | Some n \<Rightarrow> [(''num_spec_tokens'', n, labels)])))"

record ('o, 'f) iteration_view = iteration_stats +
  time_to_first_tokens :: "'f list"
  inter_token_latencies :: "'f list"
  finished_tpots :: "'f list"

definition iteration_recordings ::
  "('f \<Rightarrow> 'o obj) \<Rightarrow> 'o obj \<Rightarrow> ('o, 'f) iteration_view option \<Rightarrow> 'o recording list" where
  "iteration_recordings obj engine st =
     (case st of
        None \<Rightarrow> []
      | Some i \<Rightarrow>
          (let labels = with_phase_all [(YStr ''engine'', engine)]
           in (case (num_prompt_tokens i, num_generation_tokens i) of
                 (Some p, Some g) \<Rightarrow> [(''total_tokens'', OInt (p + g), labels)] | _ \<Rightarrow> []) @
              (case num_prompt_tokens i of None \<Rightarrow> [] | Some p \<Rightarrow> [(''input'', OInt p, labels)]) @
              (case num_generation_tokens i of None \<Rightarrow> [] | Some g \<Rightarrow> [(''output'', OInt g, labels)]) @
              map (\<lambda>t. (''fine_grained_ttft'', obj t, labels)) (time_to_first_tokens i) @
              map (\<lambda>t. (''fine_grained_tpot'', obj t, labels)) (finished_tpots i)))"

definition record_hook ::
  "('r, 'o, 'f, 'x) adapter_env \<Rightarrow> 'o obj \<Rightarrow> ('x \<Rightarrow> 'o scheduler_stats option) \<Rightarrow> ('x \<Rightarrow> ('o, 'f) iteration_view option) \<Rightarrow>
   ('r, 'o, 'f, 'x, 'e, 'v) hooked_prog \<Rightarrow> ('r, 'o, 'f, 'x, 'e, 'v) hooked_prog" where
  "record_hook env engine sched iter ori =
     andthen ori (\<lambda>res. andthen (modify (\<lambda>s.
       record_all env (scheduler_recordings engine (sched (outside s)) @ iteration_recordings (float_obj env) engine (iter (outside s))) s))
       (\<lambda>_. ret res))"

definition record_dp_rank_stats :: "'o scheduler_stats option \<Rightarrow> 'o meta_state \<Rightarrow> 'o scheduler_stats option \<times> 'o meta_state" where
  "record_dp_rank_stats st m =
     (case st of
        None \<Rightarrow> (None, m)
      | Some s \<Rightarrow>
          (case kv_connector_stats s of
             None \<Rightarrow> (st, m)
           | Some d \<Rightarrow>
               (let m1 = (case dict_get d ''dp'' of
                            None \<Rightarrow> m
                          | Some r \<Rightarrow> if r \<noteq> ONone \<and> r \<noteq> OInt (- 1) \<and> \<not> rank_known m then meta_set ''dp_rank'' r m else m);
                    d1 = dict_del ''dp'' d
                in (Some (s\<lparr>kv_connector_stats := if d1 = [] then None else Some d1\<rparr>), m1))))"

section \<open>Latencies\<close>

text \<open>\<open>beyond k t\<close> is \<^verbatim>\<open>t > k\<close> for a number of seconds.\<close>

definition PREFILL_THRESHOLDS :: "(string \<times> nat) list" where
  "PREFILL_THRESHOLDS = [(''5s'', 5), (''10s'', 10), (''20s'', 20)]"

definition slow_recordings :: "(nat \<Rightarrow> 'f \<Rightarrow> bool) \<Rightarrow> ('o, 'f) iteration_view \<Rightarrow> 'o recording list" where
  "slow_recordings beyond i =
     (let n = length (filter (beyond 1) (inter_token_latencies i))
      in if n > 0 then [(''decode_over_1s_count'', OInt (int n), with_phase_all [])] else []) @
     concat (map (\<lambda>(label, k).
       let n = length (filter (beyond k) (time_to_first_tokens i))
       in if n > 0 then [(''prefill_over_threshold_count'', OInt (int n), with_phase_all (str_label ''threshold'' label))] else []) PREFILL_THRESHOLDS)"

record 'f req_stats =
  generated_tokens :: "int option"
  last_token_ts :: "'f option"

text \<open>\<open>args\<close> are the arguments after the first three, \<open>None\<close> for one that is no request statistics.\<close>

definition find_req_stats :: "'f req_stats option \<Rightarrow> 'f req_stats option list \<Rightarrow> 'f req_stats option" where
  "find_req_stats kwarg args = (case kwarg of Some r \<Rightarrow> Some r | None \<Rightarrow> first_some (take 2 args))"

definition second_token_latency ::
  "('r, 'o, 'f, 'x) adapter_env \<Rightarrow> ('f \<Rightarrow> bool) \<Rightarrow> 'f req_stats option \<Rightarrow> bool \<Rightarrow> 'f option \<Rightarrow> 'f option" where
  "second_token_latency env nonneg r is_prefilling ts =
     (case (r, ts) of
        (Some q, Some t) \<Rightarrow>
          (case last_token_ts q of
             None \<Rightarrow> None
           | Some t0 \<Rightarrow> if \<not> is_prefilling \<and> generated_tokens q = Some 1 \<and> nonneg (fsub env t t0) then Some (fsub env t t0) else None)
      | _ \<Rightarrow> None)"

text \<open>The statistics of the request are read before the call, those of the iteration after it.\<close>

definition update_from_output_hooker ::
  "('r, 'o, 'f, 'x) adapter_env \<Rightarrow> (nat \<Rightarrow> 'f \<Rightarrow> bool) \<Rightarrow> ('f \<Rightarrow> bool) \<Rightarrow> ('x \<Rightarrow> ('o, 'f) iteration_view) \<Rightarrow>
   ('x \<Rightarrow> 'f req_stats option) \<Rightarrow> bool \<Rightarrow> 'f option \<Rightarrow> ('r, 'o, 'f, 'x, 'e, 'v) hooked_prog \<Rightarrow> ('r, 'o, 'f, 'x, 'e, 'v) hooked_prog" where
  "update_from_output_hooker env beyond nonneg this req is_prefilling ts ori s =
     (let r = req (outside s)
      in andthen ori (\<lambda>res. andthen (modify (\<lambda>s1.
           record_all env (slow_recordings beyond (this (outside s1)) @
             (case second_token_latency env nonneg r is_prefilling ts of
                None \<Rightarrow> []
              | Some d \<Rightarrow> [(''second_token_latency'', float_obj env d, with_phase_all [(YStr ''dp'', dp_rank (meta s1))])])) s1)) (\<lambda>_. ret res)) s)"

end

