(* ===== verification/Adapt_Props.thy ===== *)
theory Adapt_Props
  imports Adapt_Stats
begin

text \<open>
  What the phase metrics of the vLLM adapter count. The prompt lengths the process remembers are refined to the set of requests it
  knows, given their true lengths; a batch is split by comparing these with the computed tokens.
\<close>

section \<open>Counting by phase\<close>

definition tally :: "('b \<Rightarrow> string) \<Rightarrow> ('b \<times> int) list \<Rightarrow> string \<Rightarrow> nat \<times> int" where
  "tally ph es p = (let xs = filter (\<lambda>e. ph (fst e) = p) es in (length xs, sum_list (map snd xs)))"

lemma tally_Nil [simp]: "tally ph [] p = (0, 0)"
  by (simp add: tally_def)

lemma tally_Cons [simp]:
  "tally ph (e # es) p = (if ph (fst e) = p then (Suc (fst (tally ph es p)), snd e + snd (tally ph es p)) else tally ph es p)"
  by (simp add: tally_def Let_def)

lemma classify_cases: "classify_phase_from_lengths a b \<in> set QUEUE_PHASES"
  by (simp add: classify_phase_from_lengths_def QUEUE_PHASES_def split: option.split)

definition phase_of :: "prompt_lens \<Rightarrow> (string, int) dict \<Rightarrow> string option \<Rightarrow> string" where
  "phase_of st computed rid = classify_phase_from_lengths (lookup_rid st rid) (lookup_rid computed rid)"

definition plus_pair :: "nat \<times> int \<Rightarrow> nat \<times> int \<Rightarrow> nat \<times> int" where
  "plus_pair x y = (fst x + fst y, snd x + snd y)"

lemma add_scheduled_tally:
  "fold (add_scheduled st computed) es (map (\<lambda>p. (p, f p)) QUEUE_PHASES) =
   map (\<lambda>p. (p, plus_pair (f p) (tally (phase_of st computed) es p))) QUEUE_PHASES"
proof (induction es arbitrary: f)
  case Nil
  then show ?case by (simp add: plus_pair_def QUEUE_PHASES_def)
next
  case (Cons e es)
  define q where "q = phase_of st computed (fst e)"
  have q: "q \<in> {''prefill'', ''decode'', ''unknown''}" using classify_cases by (simp add: q_def phase_of_def QUEUE_PHASES_def)
  have "add_scheduled st computed e (map (\<lambda>p. (p, f p)) QUEUE_PHASES) =
      map (\<lambda>p. (p, (f(q := (Suc (fst (f q)), snd (f q) + snd e))) p)) QUEUE_PHASES"
    using q by (auto simp: add_scheduled_def QUEUE_PHASES_def phase_of_def[symmetric] q_def[symmetric] split: prod.split)
  then show ?case using Cons.IH[of "f(q := (Suc (fst (f q)), snd (f q) + snd e))"] q
    by (auto simp: QUEUE_PHASES_def plus_pair_def q_def[symmetric])
qed

definition split_of :: "prompt_lens \<Rightarrow> sched_output \<Rightarrow> string \<Rightarrow> nat \<times> int" where
  "split_of st out = tally (phase_of (note_new_reqs out st) (num_comp_by_rid out)) (iter_scheduled_tokens (num_scheduled_tokens out))"

lemma collected:
  "collect_phase_metrics quot zero out st =
     (map (\<lambda>p. (p, phase_average quot zero (split_of st out p))) QUEUE_PHASES, fold dict_del (finished_req_ids out) (note_new_reqs out st))"
  using add_scheduled_tally[of "note_new_reqs out st" "num_comp_by_rid out" "iter_scheduled_tokens (num_scheduled_tokens out)" "\<lambda>_. (0, 0)"]
  by (simp add: collect_phase_metrics_def Let_def split_of_def plus_pair_def)

lemma detailed:
  "get_batch_phase_details quot zero out st =
     ((single_phase (filter (\<lambda>p. 0 < fst (split_of st out p)) QUEUE_PHASES), map (\<lambda>p. (p, fst (split_of st out p))) QUEUE_PHASES),
      fold dict_del (finished_req_ids out) (note_new_reqs out st))"
  by (simp add: get_batch_phase_details_def collected phase_batch_size_def phase_average_def QUEUE_PHASES_def)

text \<open>Every scheduled request is in exactly one phase.\<close>

lemma split_total:
  assumes "\<And>x. ph x \<in> set QUEUE_PHASES"
  shows "sum_list (map (\<lambda>p. fst (tally ph es p)) QUEUE_PHASES) = length es"
    "sum_list (map (\<lambda>p. snd (tally ph es p)) QUEUE_PHASES) = sum_list (map snd es)"
  using assms by (induction es) (auto simp: QUEUE_PHASES_def)

section \<open>The requests the process knows\<close>

definition represents :: "(string \<Rightarrow> int) \<Rightarrow> string set \<Rightarrow> prompt_lens \<Rightarrow> bool" where
  "represents lens K st \<longleftrightarrow> (\<forall>i. dict_get st i = (if i \<in> K then Some (lens i) else None))"

text \<open>The attributes of a request agree with its true prompt length.\<close>

definition true_new :: "(string \<Rightarrow> int) \<Rightarrow> py_req \<Rightarrow> bool" where
  "true_new lens r \<longleftrightarrow> (case (r_req_id r, r_prompt_token_ids r) of (Some i, Some n) \<Rightarrow> int n = lens i | _ \<Rightarrow> True)"

definition own_len :: "py_req \<Rightarrow> int option" where
  "own_len r = first_some (concat (map (\<lambda>c. [r_num_prompt_tokens c, map_option int (r_prompt_token_ids c)]) (iter_req_candidates r)))"

definition true_req :: "(string \<Rightarrow> int) \<Rightarrow> py_req \<Rightarrow> bool" where
  "true_req lens r \<longleftrightarrow> (case (extract_req_id r, own_len r) of (Some i, Some n) \<Rightarrow> n = lens i | _ \<Rightarrow> True)"

definition new_ids :: "sched_output \<Rightarrow> string set" where
  "new_ids out = {i. \<exists>r \<in> set (case scheduled_new_reqs out of None \<Rightarrow> [] | Some rs \<Rightarrow> rs). r_req_id r = Some i \<and> r_prompt_token_ids r \<noteq> None}"

definition req_ids :: "py_req list \<Rightarrow> string set" where
  "req_ids rs = {i. \<exists>r \<in> set rs. extract_req_id r = Some i}"

definition measured_ids :: "py_req list \<Rightarrow> string set" where
  "measured_ids rs = {i. \<exists>r \<in> set rs. extract_req_id r = Some i \<and> own_len r \<noteq> None}"

lemma note_new_represents:
  "represents lens K st \<Longrightarrow> \<forall>r \<in> set rs. true_new lens r \<Longrightarrow>
   represents lens (K \<union> {i. \<exists>r \<in> set rs. r_req_id r = Some i \<and> r_prompt_token_ids r \<noteq> None}) (fold note_new_req rs st)"
proof (induction rs arbitrary: K st)
  case (Cons r rs)
  let ?K = "K \<union> {i. r_req_id r = Some i \<and> r_prompt_token_ids r \<noteq> None}"
  have "represents lens ?K (note_new_req r st)"
    using Cons.prems by (auto simp: represents_def note_new_req_def true_new_def split: option.splits)
  from Cons.IH[OF this] have "represents lens (?K \<union> {i. \<exists>r \<in> set rs. r_req_id r = Some i \<and> r_prompt_token_ids r \<noteq> None})
      (fold note_new_req (r # rs) st)" using Cons.prems by simp
  moreover have "?K \<union> {i. \<exists>r \<in> set rs. r_req_id r = Some i \<and> r_prompt_token_ids r \<noteq> None} =
      K \<union> {i. \<exists>q \<in> set (r # rs). r_req_id q = Some i \<and> r_prompt_token_ids q \<noteq> None}" by auto
  ultimately show ?case by simp
qed simp

lemma drop_represents: "represents lens K st \<Longrightarrow> represents lens (K - set is) (fold dict_del is st)"
proof (induction "is" arbitrary: K st)
  case (Cons i "is")
  have "represents lens (K - {i}) (dict_del i st)" using Cons.prems by (auto simp: represents_def)
  moreover have "K - set (i # is) = K - {i} - set is" by auto
  ultimately show ?case using Cons.IH by simp
qed simp

lemma clear_represents: "represents lens K st \<Longrightarrow> represents lens (K - req_ids rs) (clear_request_phase_state rs st)"
proof (induction rs arbitrary: K st)
  case (Cons r rs)
  define st1 where "st1 = (case extract_req_id r of None \<Rightarrow> st | Some i \<Rightarrow> dict_del i st)"
  have "represents lens (K - req_ids [r]) st1"
    using Cons.prems by (auto simp: represents_def req_ids_def st1_def split: option.splits)
  from Cons.IH[OF this] have "represents lens (K - req_ids [r] - req_ids rs) (clear_request_phase_state rs st1)" .
  moreover have "K - req_ids [r] - req_ids rs = K - req_ids (r # rs)" by (auto simp: req_ids_def)
  ultimately show ?case by (simp add: clear_request_phase_state_def st1_def)
qed (simp add: clear_request_phase_state_def req_ids_def)

lemma extract_prompt_len_own:
  "extract_prompt_len r st = (case own_len r of Some n \<Rightarrow> Some n | None \<Rightarrow> (case extract_req_id r of None \<Rightarrow> None | Some i \<Rightarrow> dict_get st i))"
  by (simp add: extract_prompt_len_def own_len_def)

lemma queue_represents:
  "represents lens K st \<Longrightarrow> \<forall>r \<in> set rs. true_req lens r \<Longrightarrow>
   represents lens (K \<union> measured_ids rs) (snd (fold queue_req rs (counts, st)))"
proof (induction rs arbitrary: K st counts)
  case (Cons r rs)
  obtain counts1 st1 where q: "queue_req r (counts, st) = (counts1, st1)" by fastforce
  have "represents lens (K \<union> measured_ids [r]) st1"
    using Cons.prems q by (auto simp: represents_def queue_req_def extract_prompt_len_own true_req_def measured_ids_def Let_def split: option.splits if_splits)
  from Cons.IH[OF this] have "represents lens (K \<union> measured_ids [r] \<union> measured_ids rs) (snd (fold queue_req rs (counts1, st1)))"
    using Cons.prems by simp
  moreover have "K \<union> measured_ids [r] \<union> measured_ids rs = K \<union> measured_ids (r # rs)" by (auto simp: measured_ids_def)
  ultimately show ?case using q by simp
qed (simp add: measured_ids_def)


section \<open>The split of a batch\<close>

text \<open>The phase of a scheduled request: whether its computed tokens reach its true prompt length.\<close>

definition true_phase :: "(string \<Rightarrow> int) \<Rightarrow> string set \<Rightarrow> (string, int) dict \<Rightarrow> string option \<Rightarrow> string" where
  "true_phase lens K computed rid =
     (case rid of
        None \<Rightarrow> ''unknown''
      | Some i \<Rightarrow>
          (case dict_get computed i of
             None \<Rightarrow> ''unknown''
           | Some c \<Rightarrow> if i \<notin> K then ''unknown'' else if c < lens i then ''prefill'' else ''decode''))"

lemma phase_of_known: "represents lens K st \<Longrightarrow> phase_of st computed rid = true_phase lens K computed rid"
  by (auto simp: represents_def phase_of_def true_phase_def lookup_rid_def classify_phase_from_lengths_def split: option.split)

lemma true_phase_cases: "true_phase lens K computed rid \<in> set QUEUE_PHASES"
  by (simp add: true_phase_def QUEUE_PHASES_def split: option.split)

lemma tally_cong: "(\<And>e. e \<in> set es \<Longrightarrow> ph (fst e) = ph' (fst e)) \<Longrightarrow> tally ph es p = tally ph' es p"
  by (simp add: tally_def cong: filter_cong)

definition true_output :: "(string \<Rightarrow> int) \<Rightarrow> sched_output \<Rightarrow> bool" where
  "true_output lens out \<longleftrightarrow> list_all (true_new lens) (case scheduled_new_reqs out of None \<Rightarrow> [] | Some rs \<Rightarrow> rs)"

lemma noted_represents:
  "represents lens K st \<Longrightarrow> true_output lens out \<Longrightarrow> represents lens (K \<union> new_ids out) (note_new_reqs out st)"
  unfolding note_new_reqs_def new_ids_def true_output_def by (rule note_new_represents) (auto simp: list_all_iff)

lemma split_known:
  "represents lens K st \<Longrightarrow> true_output lens out \<Longrightarrow>
   split_of st out p = tally (true_phase lens (K \<union> new_ids out) (num_comp_by_rid out)) (iter_scheduled_tokens (num_scheduled_tokens out)) p"
  unfolding split_of_def by (rule tally_cong) (simp add: phase_of_known noted_represents)

text \<open>
  Splitting a batch: given that the process remembers the true prompt lengths of the requests it knows, every scheduled
  request is counted in one phase, prefill if its computed tokens do not reach its prompt length, decode if they do, and unknown if
  the process does not know it or its computed tokens; the batch sizes and token sums of the phases add up to those of the
  batch. If no scheduled request is also reported as finished, the second pass over the batch, which names its phase, sees the same split.
\<close>

theorem batch_split_exact:
  assumes "represents lens K st" "true_output lens out"
    and "\<And>i. Some i \<in> fst ` set (iter_scheduled_tokens (num_scheduled_tokens out)) \<Longrightarrow> i \<notin> set (finished_req_ids out)"
  shows "let es = iter_scheduled_tokens (num_scheduled_tokens out);
             truth = true_phase lens (K \<union> new_ids out) (num_comp_by_rid out);
             r = collect_phase_metrics quot zero out st
    in map (\<lambda>(p, v). (p, (batch_size v, scheduled_tokens_sum v))) (fst r) = map (\<lambda>p. (p, tally truth es p)) QUEUE_PHASES \<and>
       sum_list (map (\<lambda>(p, v). batch_size v) (fst r)) = length es \<and>
       sum_list (map (\<lambda>(p, v). scheduled_tokens_sum v) (fst r)) = sum_list (map snd es) \<and>
       fst (get_batch_phase_details quot zero out (snd r)) =
         (single_phase (filter (\<lambda>p. 0 < fst (tally truth es p)) QUEUE_PHASES), map (\<lambda>p. (p, fst (tally truth es p))) QUEUE_PHASES)"
proof -
  let ?es = "iter_scheduled_tokens (num_scheduled_tokens out)"
  let ?truth = "true_phase lens (K \<union> new_ids out) (num_comp_by_rid out)"
  let ?st = "snd (collect_phase_metrics quot zero out st)"
  note first = split_known[OF assms(1,2)]
  have st: "represents lens (K \<union> new_ids out - set (finished_req_ids out)) ?st"
    using drop_represents[OF noted_represents[OF assms(1,2)]] by (simp add: collected)
  have "true_phase lens (K \<union> new_ids out - set (finished_req_ids out) \<union> new_ids out) (num_comp_by_rid out) rid = ?truth rid"
    if "rid \<in> fst ` set ?es" for rid using that assms(3) by (cases rid) (auto simp: true_phase_def split: option.split)
  then have second: "split_of ?st out p = tally ?truth ?es p" for p
    unfolding split_known[OF st assms(2)] by (intro tally_cong) auto
  show ?thesis
    using split_total[of ?truth ?es, OF true_phase_cases]
    by (simp add: Let_def detailed second) (simp add: collected first phase_average_def comp_def)
qed

section \<open>Events\<close>

text \<open>What changes the remembered lengths: a scheduled batch (two passes), a preempted request, the statistics of the queues.\<close>

datatype sched_event = Schedule sched_output | Preempt "py_req list" | QueueStats "py_req list" "py_req list"

definition run_event :: "(int \<Rightarrow> nat \<Rightarrow> 'f) \<Rightarrow> 'f \<Rightarrow> sched_event \<Rightarrow> prompt_lens \<Rightarrow> prompt_lens" where
  "run_event quot zero ev st =
     (case ev of
        Schedule out \<Rightarrow> snd (get_batch_phase_details quot zero out (snd (collect_phase_metrics quot zero out st)))
      | Preempt rs \<Rightarrow> clear_request_phase_state rs st
      | QueueStats run wait \<Rightarrow> snd (collect_queue_phase_metrics (Some wait) (snd (collect_queue_phase_metrics (Some run) st))))"

definition known_after :: "sched_event \<Rightarrow> string set \<Rightarrow> string set" where
  "known_after ev K =
     (case ev of
        Schedule out \<Rightarrow> (K \<union> new_ids out) - set (finished_req_ids out)
      | Preempt rs \<Rightarrow> K - req_ids rs
      | QueueStats run wait \<Rightarrow> K \<union> measured_ids run \<union> measured_ids wait)"

definition true_event :: "(string \<Rightarrow> int) \<Rightarrow> sched_event \<Rightarrow> bool" where
  "true_event lens ev =
     (case ev of
        Schedule out \<Rightarrow> true_output lens out
      | Preempt rs \<Rightarrow> True
      | QueueStats run wait \<Rightarrow> list_all (true_req lens) (run @ wait))"

lemma event_represents:
  assumes "represents lens K st" "true_event lens ev"
  shows "represents lens (known_after ev K) (run_event quot zero ev st)"
proof (cases ev)
  case (Schedule out)
  then have t: "true_output lens out" using assms(2) by (simp add: true_event_def)
  have "represents lens (K \<union> new_ids out - set (finished_req_ids out) \<union> new_ids out - set (finished_req_ids out)) (run_event quot zero ev st)"
    using drop_represents[OF noted_represents[OF drop_represents[OF noted_represents[OF assms(1) t]] t]]
    by (simp add: Schedule run_event_def collected detailed)
  moreover have "K \<union> new_ids out - set (finished_req_ids out) \<union> new_ids out - set (finished_req_ids out) = known_after ev K"
    by (auto simp: Schedule known_after_def)
  ultimately show ?thesis by simp
next
  case (Preempt rs)
  then show ?thesis using clear_represents[OF assms(1)] by (simp add: known_after_def run_event_def)
next
  case (QueueStats run wait)
  then have t: "\<forall>r \<in> set run. true_req lens r" "\<forall>r \<in> set wait. true_req lens r" using assms(2) by (auto simp: true_event_def list_all_iff)
  have "represents lens (K \<union> measured_ids run) (snd (collect_queue_phase_metrics (Some run) st))"
    using queue_represents[OF assms(1) t(1)] by (simp add: collect_queue_phase_metrics_def)
  from queue_represents[OF this t(2)] show ?thesis
    by (simp add: QueueStats known_after_def run_event_def collect_queue_phase_metrics_def)
qed

text \<open>
  Property C39. Over any sequence of scheduled batches, preempted requests and queue statistics, the prompt lengths the process
  remembers are the true lengths of the requests it knows: those that were scheduled as new or seen in a queue with their
  length, and neither finished nor preempted since.
\<close>

theorem phase_tracking_refines:
  assumes "represents lens K st" "list_all (true_event lens) evs"
  shows "represents lens (fold known_after evs K) (fold (run_event quot zero) evs st)"
  using assms by (induction evs arbitrary: K st) (auto intro: event_represents)



section \<open>Scopes\<close>

lemma upd_meta_sel [simp]: "meta (upd_meta f s) = f (meta s)"
  by (simp add: upd_meta_def)

lemma restore_key_get: "dict_get (restore_key p m) k = (if fst p = k then snd p else dict_get m k)"
  by (auto simp: restore_key_def meta_remove_def meta_set_def dict_has_iff split: option.split)

lemma overrides_restored:
  "dict_get (meta (snd (meta_state_scope (phase_overrides p) body s))) ''phase'' = dict_get (meta s) ''phase''"
  "dict_get (meta (snd (meta_state_scope (phase_overrides p) body s))) ''last_async_llm_phase'' = dict_get (meta s) ''last_async_llm_phase''"
  by (simp_all add: meta_state_scope_def finally_do_def phase_overrides_def Let_def restore_key_get split: prod.split)

lemma phase_restored: "meta_get ''phase'' (OStr ''mixed'') (meta (snd (phase_scope p body s))) = meta_get ''phase'' (OStr ''mixed'') (meta s)"
  by (simp add: phase_scope_def finally_do_def meta_get_def meta_set_def Let_def split: prod.split)

lemma scope_result: "fst (phase_scope p body s) = fst (body (upd_meta (meta_set ''phase'' p) s))"
  by (simp add: phase_scope_def finally_do_def Let_def split: prod.split)

lemma inferred_meta: "meta (snd (infer_model_runner_phase env out s)) = meta s"
  by (simp add: infer_model_runner_phase_def batch_phase_details_def set_phase_lens_def split: option.split prod.split)

lemma resolved_meta: "meta (snd (resolve_worker_phase env runner_out arg0 s)) = meta s"
  using inferred_meta[of env runner_out s] by (cases "infer_model_runner_phase env runner_out s") (simp add: resolve_worker_phase_def Let_def)

definition current_phase :: "('r, 'o, 'f, 'x) serving \<Rightarrow> 'o obj" where
  "current_phase s = meta_get ''phase'' (OStr ''mixed'') (meta s)"

definition same_phases :: "('r, 'o, 'f, 'x) serving \<Rightarrow> ('r, 'o, 'f, 'x) serving \<Rightarrow> bool" where
  "same_phases s s' \<longleftrightarrow> (\<forall>k \<in> {''phase'', ''last_async_llm_phase''}. dict_get (meta s') k = dict_get (meta s) k)"

lemma model_runner_restores: "current_phase (snd (model_runner_phase_handler env runner_out arg0 base s)) = current_phase s"
proof -
  obtain p s1 where r: "resolve_worker_phase env runner_out arg0 s = (p, s1)" by fastforce
  then have "meta s1 = meta s" using resolved_meta[of env runner_out arg0 s] by simp
  then show ?thesis by (simp add: model_runner_phase_handler_def r current_phase_def phase_restored) (simp add: meta_get_def meta_set_def)
qed

lemma executor_restores: "current_phase (snd (executor_execute_model_phase_handler env out base s)) = current_phase s"
proof -
  obtain p s1 where r: "infer_model_runner_phase env out s = (p, s1)" by fastforce
  then have "meta s1 = meta s" using inferred_meta[of env out s] by simp
  then show ?thesis by (simp add: executor_execute_model_phase_handler_def r current_phase_def phase_restored)
qed

lemma recorded_result: "fst (recorded_call env obj_of samples ori s) = fst (ori s)"
  by (simp add: recorded_call_def andthen_def time_now_def split: prod.split sum.split)

lemma overrides_result: "fst (meta_state_scope (phase_overrides p) body s) =
    fst (body (upd_meta (meta_set ''last_async_llm_phase'' p \<circ> meta_set ''phase'' p) s))"
  by (simp add: meta_state_scope_def finally_do_def phase_overrides_def Let_def comp_def split: prod.split)

text \<open>
  Property C40. The six handlers that do nothing but set the phase around a call restore it, whatever the call does and however it ends:
  after those that process the outputs and record the statistics of the asynchronous engine, both of their keys hold what they held
  before; after those that abort requests, run the engine core, the executor and the model runner, the phase is the one before,
  where an absent phase counts as mixed. And the caller gets the outcome that the call has under the phase that was chosen.
\<close>

theorem scopes_restore_phase:
  "let async = resolve_phase_from_iteration_stats_or_last args kwarg (meta s);
       under = (\<lambda>p. upd_meta (meta_set ''phase'' p));
       runner = resolve_worker_phase env runner_out arg0 s; batch = infer_model_runner_phase env out s
   in same_phases s (snd (process_outputs_phase_handler env py mcs h obj_of args kwarg outputs ori s)) \<and>
      same_phases s (snd (record_stats_phase_handler args kwarg base s)) \<and>
      current_phase (snd (abort_requests_phase_handler base s)) = current_phase s \<and>
      current_phase (snd (engine_core_phase_handler base s)) = current_phase s \<and>
      current_phase (snd (model_runner_phase_handler env runner_out arg0 base s)) = current_phase s \<and>
      current_phase (snd (executor_execute_model_phase_handler env out base s)) = current_phase s \<and>
      fst (process_outputs_phase_handler env py mcs h obj_of args kwarg outputs ori s) =
        fst (ori (upd_meta (meta_set ''last_async_llm_phase'' async \<circ> meta_set ''phase'' async) s)) \<and>
      fst (record_stats_phase_handler args kwarg base s) =
        fst (base (upd_meta (meta_set ''last_async_llm_phase'' async \<circ> meta_set ''phase'' async) s)) \<and>
      fst (abort_requests_phase_handler base s) = fst (base (under (meta_get ''last_async_llm_phase'' (current_phase s) (meta s)) s)) \<and>
      fst (engine_core_phase_handler base s) = fst (base (under (last_scheduler_phase (meta s)) s)) \<and>
      fst (model_runner_phase_handler env runner_out arg0 base s) =
        fst (base (under (fst runner) (upd_meta (meta_set ''last_model_runner_phase'' (fst runner)) (snd runner)))) \<and>
      fst (executor_execute_model_phase_handler env out base s) =
        fst (base (under (if fst batch = ''mixed'' then last_scheduler_phase (meta (snd batch)) else OStr (fst batch)) (snd batch)))"
  unfolding Let_def
proof (intro conjI)
  show "same_phases s (snd (process_outputs_phase_handler env py mcs h obj_of args kwarg outputs ori s))"
    "same_phases s (snd (record_stats_phase_handler args kwarg base s))"
    by (simp_all add: same_phases_def process_outputs_phase_handler_def record_stats_phase_handler_def overrides_restored Let_def)
  show "current_phase (snd (abort_requests_phase_handler base s)) = current_phase s"
    "current_phase (snd (engine_core_phase_handler base s)) = current_phase s"
    by (simp_all add: abort_requests_phase_handler_def engine_core_phase_handler_def current_phase_def phase_restored)
qed (simp_all add: process_outputs_phase_handler_def record_stats_phase_handler_def abort_requests_phase_handler_def
    engine_core_phase_handler_def model_runner_phase_handler_def executor_execute_model_phase_handler_def model_runner_restores[unfolded
    model_runner_phase_handler_def] executor_restores[unfolded executor_execute_model_phase_handler_def] current_phase_def[symmetric]
    overrides_result recorded_result scope_result Let_def split: prod.split)

text \<open>So the phase the engine was last in is gone when the next call asks for it: aborting requests runs under the current phase.\<close>

lemma last_phase_not_kept:
  assumes "dict_get (meta s) ''last_async_llm_phase'' = None"
    and "s1 = snd (process_outputs_phase_handler env py mcs h obj_of args kwarg outputs ori s) \<or> s1 = snd (record_stats_phase_handler args kwarg base s)"
  shows "abort_requests_phase_handler act s1 = phase_scope (current_phase s) act s1"
proof -
  have "dict_get (meta s1) ''phase'' = dict_get (meta s) ''phase''" "dict_get (meta s1) ''last_async_llm_phase'' = None"
    using assms by (auto simp: process_outputs_phase_handler_def record_stats_phase_handler_def overrides_restored Let_def)
  then show ?thesis by (simp add: abort_requests_phase_handler_def meta_get_def current_phase_def)
qed

text \<open>With an expression or a label among the metrics, the wrapped handler raises before the function is called.\<close>

lemma labelled_metric_raises:
  assumes "Metrics.need_locals dh" "nargs \<noteq> 0"
  shows "fst (model_runner_phase_handler env runner_out arg0 (call_base env py type_err gen obj_of dh nargs ori) s) = Inl type_err"
    and "call_base env py type_err gen obj_of dh nargs ori = call_base env py type_err gen obj_of dh nargs ori'"
  using assms by (simp_all add: model_runner_phase_handler_def call_base_def scope_result split: prod.split)

text \<open>A timed block whose context raises on entry: the phase that was set for it stays.\<close>

lemma failed_entry_keeps_phase:
  assumes "infer_model_runner_phase env runner_out s = (p, s1)" "p \<noteq> ''mixed''" "name \<in> set PHASE_SENSITIVE" "orig s1 = (Inr (), s2)"
    and "\<And>t. enter t = (Inl e, t)"
  shows "\<exists>s3. phase_timed_block env runner_out name orig enter leave body s = (Inl e, s3) \<and> current_phase s3 = OStr p"
  using assms by (simp add: phase_timed_block_def current_phase_def Let_def) (simp add: meta_get_def meta_set_def)

section \<open>Blocked requests\<close>

text \<open>The counter of blocked requests counts how often the scheduler became blocked.\<close>

fun rising :: "bool \<Rightarrow> bool list \<Rightarrow> nat" where
  "rising before [] = 0"
| "rising before (b # bs) = (if b \<and> \<not> before then 1 else 0) + rising b bs"

lemma record_sample_pending:
  "record_sample env n v ls (s\<lparr>pending_recorded := f\<rparr>) = (record_sample env n v ls s)\<lparr>pending_recorded := f\<rparr>"
  "pending_recorded (record_sample env n v ls s) = pending_recorded s"
  by (simp_all add: record_sample_def)

lemma record_all_pending:
  "record_all env rs (s\<lparr>pending_recorded := f\<rparr>) = (record_all env rs s)\<lparr>pending_recorded := f\<rparr>"
  "pending_recorded (record_all env rs s) = pending_recorded s"
  by (induction rs arbitrary: s) (auto simp: record_all_def record_sample_pending)

lemma blocked_counted_once:
  "fold (note_pending env i) bs s =
     (record_all env (replicate (rising (pending_recorded s i) bs) (''request_prefill_pending_nums'', OInt 1, with_phase_all [])) s)
       \<lparr>pending_recorded := (pending_recorded s)(i := last (pending_recorded s i # bs))\<rparr>"
proof (induction bs arbitrary: s)
  case Nil
  then show ?case by (simp add: record_all_def)
next
  case (Cons b bs)
  define x where "x = (''request_prefill_pending_nums'', OInt 1 :: 'b obj, with_phase_all [] :: 'b labels)"
  have one: "note_pending env i b s = (record_all env (if b \<and> \<not> pending_recorded s i then [x] else []) s)
      \<lparr>pending_recorded := (pending_recorded s)(i := b)\<rparr>"
    by (auto simp: note_pending_def record_all_def fun_upd_idem record_sample_pending x_def)
  have join: "record_all env ys (record_all env [x] s) = record_all env (x # ys) s" for ys by (simp add: record_all_def)
  have none: "record_all env [] s = s" by (simp add: record_all_def)
  have "(record_all env (replicate (rising b bs) x) (note_pending env i b s)) =
      (record_all env (replicate (rising (pending_recorded s i) (b # bs)) x) s)\<lparr>pending_recorded := (pending_recorded s)(i := b)\<rparr>"
    unfolding one by (cases "b \<and> \<not> pending_recorded s i") (auto simp: record_all_pending join none)
  moreover have "pending_recorded (note_pending env i b s) = (pending_recorded s)(i := b)" by (simp add: one)
  ultimately show ?case using Cons.IH[of "note_pending env i b s"] by (simp add: x_def[symmetric])
qed


section \<open>The hook of the scheduler\<close>

lemma phase_lens_set [simp]: "phase_lens env (set_phase_lens env st s) = st"
  by (simp add: phase_lens_def set_phase_lens_def get_scheduler_phase_state_def)

lemma set_phase_lens_twice [simp]: "set_phase_lens env st (set_phase_lens env st' s) = set_phase_lens env st s"
  by (simp add: set_phase_lens_def)

lemma record_all_append: "record_all env (rs @ rs') s = record_all env rs' (record_all env rs s)"
  by (simp add: record_all_def)

lemma record_all_Cons: "record_all env ((n, v, ls) # rs) s = record_all env rs (record_sample env n v ls s)"
  by (simp add: record_all_def)

lemma record_sample_outside [simp]: "outside (record_sample env n v ls s) = outside s"
  by (simp add: record_sample_def)

definition set_phases :: "string \<Rightarrow> ('r, 'o, 'f, 'x) serving \<Rightarrow> ('r, 'o, 'f, 'x) serving" where
  "set_phases p = upd_meta (\<lambda>m. meta_set ''phase'' (OStr p) (meta_set ''last_scheduler_phase'' (OStr p) m))"

lemma set_phases_outside [simp]: "outside (set_phases p s) = outside s" "outside (set_phase_lens env st s) = outside s"
  by (simp_all add: set_phases_def upd_meta_def set_phase_lens_def)

definition schedule_samples ::
  "('r, 'o, 'f, 'x) adapter_env \<Rightarrow> 'f \<Rightarrow> nat \<Rightarrow> nat \<Rightarrow> nat \<times> int \<Rightarrow> (string, 'f phase_values) dict \<Rightarrow> 'o recording list" where
  "schedule_samples env d n k l stats =
     [(''scheduler:duration'', float_obj env d, with_phase_all []), (''scheduler:batch_size'', OInt (int n), with_phase_all []),
      (''scheduler:running_queue_size'', OInt (int k), with_phase_all [])] @ length_recordings env l @ concat (map phase_recordings stats)"

lemma record_schedule_run:
  assumes "collect_phase_metrics (quotient env) (zero_avg env) out (phase_lens env s) = (stats, st)"
    and "get_batch_phase_details (quotient env) (zero_avg env) out st = ((phase, detail), st')"
    and "tokens_length (num_scheduled_tokens out) = Some n" "running (view (outside s) i) = Sized k" "sequence_lengths out = Some l"
  shows "record_schedule env attr_err view i d out s =
    (Inr (), record_all env (schedule_samples env d n k l stats) (set_phases phase (set_phase_lens env st' s)))"
proof -
  have "batch_phase_details env out (set_phase_lens env st s) = (phase, set_phase_lens env st' s)"
    using assms(2) by (simp add: batch_phase_details_def)
  then show ?thesis using assms
    by (simp add: record_schedule_def if_some_def set_phases_def[symmetric] schedule_samples_def record_all_append record_all_Cons prog_simps)
qed

lemma pending_outside: "outside (note_pending env i b s) = outside s"
  by (simp add: note_pending_def record_sample_def)

text \<open>
  Property C38. A call of the scheduler through its hook, when the output has the attributes the hook reads, no scheduled request is also
  reported as finished, and the process remembers the true prompt lengths of the requests it knows: the caller gets the output; the
  samples are the duration, which is the clock after the call minus the clock before it, the batch size, the length of the running
  queue, the sequence lengths and, for every phase with requests, how many of the scheduled requests are truly in it and their tokens;
  the meta state names the phase of the batch; and the process knows the requests of the batch and has forgotten the finished ones.
\<close>

theorem schedule_recorded:
  assumes "represents lens K (phase_lens env s1)" "true_output lens out"
    and "\<And>i. Some i \<in> fst ` set (iter_scheduled_tokens (num_scheduled_tokens out)) \<Longrightarrow> i \<notin> set (finished_req_ids out)"
    and "ori (note_pending env i (is_running_capacity_blocked (view (outside s) i)) s) = (Inr out, s1)"
    and "tokens_length (num_scheduled_tokens out) = Some n" "running (view (outside s1) i) = Sized k" "sequence_lengths out = Some l"
  shows "let es = iter_scheduled_tokens (num_scheduled_tokens out); truth = true_phase lens (K \<union> new_ids out) (num_comp_by_rid out);
             phase = single_phase (filter (\<lambda>p. 0 < fst (tally truth es p)) QUEUE_PHASES);
             d = fsub env (now env (outside s1)) (now env (outside s))
    in \<exists>stats st. scheduler_scheduler_hooker env attr_err view i ori s =
         (Inr out, record_all env (schedule_samples env d n k l stats) (set_phases phase (set_phase_lens env st s1))) \<and>
       map (\<lambda>(p, v). (p, (batch_size v, scheduled_tokens_sum v))) stats = map (\<lambda>p. (p, tally truth es p)) QUEUE_PHASES \<and>
       represents lens (K \<union> new_ids out - set (finished_req_ids out)) st"
proof -
  obtain stats st1 where c: "collect_phase_metrics (quotient env) (zero_avg env) out (phase_lens env s1) = (stats, st1)" by fastforce
  obtain phase detail st where g: "get_batch_phase_details (quotient env) (zero_avg env) out st1 = ((phase, detail), st)"
    by (metis prod.exhaust)
  let ?s0 = "note_pending env i (is_running_capacity_blocked (view (outside s) i)) s"
  let ?d = "fsub env (now env (outside s1)) (now env (outside s))"
  have split: "map (\<lambda>(p, v). (p, (batch_size v, scheduled_tokens_sum v))) stats =
      map (\<lambda>p. (p, tally (true_phase lens (K \<union> new_ids out) (num_comp_by_rid out)) (iter_scheduled_tokens (num_scheduled_tokens out)) p)) QUEUE_PHASES"
    "phase = single_phase (filter (\<lambda>p. 0 < fst (tally (true_phase lens (K \<union> new_ids out) (num_comp_by_rid out))
      (iter_scheduled_tokens (num_scheduled_tokens out)) p)) QUEUE_PHASES)"
    using batch_split_exact[OF assms(1-3), where quot = "quotient env" and zero = "zero_avg env"] by (simp_all add: c g Let_def)
  have known: "represents lens (K \<union> new_ids out - set (finished_req_ids out)) st"
    using event_represents[OF assms(1), of "Schedule out" "quotient env" "zero_avg env"] assms(2)
    by (simp add: true_event_def run_event_def known_after_def c g)
  have "scheduler_scheduler_hooker env attr_err view i ori s =
      (Inr out, record_all env (schedule_samples env ?d n k l stats) (set_phases phase (set_phase_lens env st s1)))"
    using record_schedule_run[OF c g, of n view i k l attr_err ?d] assms(4-7)
    by (simp add: pending_outside scheduler_scheduler_hooker_def time_now_def Let_def andthen_def)
  then show ?thesis using split known by (auto simp: Let_def)
qed


section \<open>Examples\<close>

definition example_env :: "(unit, nat, int, nat) adapter_env" where
  "example_env =
     \<lparr>prom = \<lparr>create = (\<lambda>_ _ _ _ r. (Inr 0, r)), sample = (\<lambda>_ _ _ r. (True, r)), positive = (\<lambda>_. Some True), is_minus_one = (\<lambda>_. None)\<rparr>,
      getpid = (\<lambda>_. 1), now = int, fadd = (+), fsub = (-), is_negative = (\<lambda>x. x < 0), float_obj = OInt,
      quotient = (\<lambda>a b. a div int b), zero_avg = 0\<rparr>"

definition example_serving :: "(unit, nat, int, nat) serving" where
  "example_serving = \<lparr>meta = [], manager = new_metrics_manager (), tls_phase = Some (1, [(''b'', 4)]), time_recorded = [],
     pending_recorded = (\<lambda>_. False), outside = 0\<rparr>"

text \<open>A new request of five tokens and a cached one whose four prompt tokens are computed.\<close>

definition plain_req :: "string \<Rightarrow> nat option \<Rightarrow> int option \<Rightarrow> py_req" where
  "plain_req i n c = PyReq None (Some i) None n c None None"

definition example_output :: sched_output where
  "example_output = \<lparr>scheduled_new_reqs = Some [plain_req ''a'' (Some 5) (Some 0)], scheduled_cached_reqs = CachedData [''b''] [7],
     num_scheduled_tokens = TokenDict [(''a'', 5), (''b'', 1)], finished_req_ids = [], total_num_scheduled_tokens = Some 6\<rparr>"

definition example_lens :: "string \<Rightarrow> int" where
  "example_lens i = (if i = ''a'' then 5 else 4)"

lemma example_known: "represents example_lens {''b''} [(''b'', 4)]"
  by (simp add: represents_def example_lens_def)

theorem phase_tracking_refines_witness:
  "dict_get (fold (run_event (\<lambda>a b. a) 0)
      [Schedule example_output, Preempt [plain_req ''b'' None None], QueueStats [] [plain_req ''b'' (Some 4) None]] [(''b'', 4)]) ''b'' = Some 4"
proof -
  let ?evs = "[Schedule example_output, Preempt [plain_req ''b'' None None], QueueStats [] [plain_req ''b'' (Some 4) None]]"
  have t: "list_all (true_event example_lens) ?evs" by code_simp
  have b: "''b'' \<in> fold known_after ?evs {''b''}"
    by (simp add: known_after_def measured_ids_def plain_req_def extract_req_id_def own_len_def iter_req_candidates_def List.map_filter_def)
  show ?thesis using phase_tracking_refines[OF example_known t, of "\<lambda>a b. a" 0] b
    by (simp add: represents_def example_lens_def)
qed

lemma record_all_meta [simp]: "meta (record_all env rs s) = meta s"
  by (induction rs arbitrary: s) (auto simp: record_all_def record_sample_def)

definition example_view :: "nat \<Rightarrow> nat \<Rightarrow> scheduler_view" where
  "example_view x i = \<lparr>running = Sized 2, max_num_running_reqs = Some 2, waiting = Sized 1, skipped_waiting = NoQueue\<rparr>"

theorem schedule_recorded_witness:
  "(let r = scheduler_scheduler_hooker example_env () example_view 0 (\<lambda>s. (Inr example_output, s)) example_serving
    in fst r = Inr example_output \<and> dict_get (meta (snd r)) ''phase'' = Some (OStr ''mixed''))"
proof -
  let ?s1 = "note_pending example_env 0 True example_serving"
  have blocked: "is_running_capacity_blocked (example_view 0 0)" by code_simp
  have s1: "phase_lens example_env ?s1 = [(''b'', 4)]"
    by (simp add: note_pending_def record_sample_def example_serving_def phase_lens_def example_env_def get_scheduler_phase_state_def)
  have known: "represents example_lens {''b''} (phase_lens example_env ?s1)" using example_known s1 by simp
  have true: "true_output example_lens example_output" by code_simp
  have run: "(\<lambda>s. (Inr example_output, s)) (note_pending example_env 0
      (is_running_capacity_blocked (example_view (outside example_serving) 0)) example_serving) = (Inr example_output, ?s1)"
    using blocked by (simp add: example_serving_def)
  have attrs: "tokens_length (num_scheduled_tokens example_output) = Some 2" "running (example_view (outside ?s1) 0) = Sized 2"
    "sequence_lengths example_output = Some (2, 13)" "finished_req_ids example_output = []"
    by (code_simp, simp add: example_view_def, code_simp, code_simp)
  have new: "new_ids example_output = {''a''}" by (auto simp: new_ids_def example_output_def plain_req_def)
  have phase: "single_phase (filter (\<lambda>p. 0 < fst (tally (true_phase example_lens {''a'', ''b''} (num_comp_by_rid example_output))
      (iter_scheduled_tokens (num_scheduled_tokens example_output)) p)) QUEUE_PHASES) = ''mixed''" by code_simp
  show ?thesis
    using schedule_recorded[where ori = "\<lambda>s. (Inr example_output, s)" and view = example_view and i = 0 and s = example_serving
        and attr_err = "()", OF known true _ run attrs(1) attrs(2) attrs(3)] attrs(4) phase
    by (auto simp: new Let_def insert_commute set_phases_def meta_set_def)
qed

end
