(* ===== verification/Spec2Isabelle.thy ===== *)
theory Spec2Isabelle
  imports Shm_Props Hook_Exec Hook_Helper Inject Config_Loader Task_Live Trace_Forward Metrics_Props Opt_Round Opt_Search_Props Opt_Tune Prof_Expr Trace_Scope_Props Adapt_Props
begin

text \<open>
  A model of four packages of the repository: the metric collector (\<^verbatim>\<open>src/ms_service_metric/ms_service_metric\<close>), the
  hooks, the trace server and the task scheduler of the profiler (\<^verbatim>\<open>patcher/core\<close>, \<^verbatim>\<open>tracer\<close> and \<^verbatim>\<open>task\<close> under
  \<^verbatim>\<open>src/ms_service_profiler\<close>), and the parameter optimizer (\<^verbatim>\<open>src/ms_serviceparam_optimizer/ms_serviceparam_optimizer\<close>).

  \<^bold>\<open>The program.\<close> An inference server runs in many processes. Each creates a \<^verbatim>\<open>SymbolHandlerManager\<close>, which
  loads a configuration (which functions are to be measured, by which handlers) and waits. The command line tool
  writes the commanded state into a shared memory block and sends SIGUSR1 to the processes registered there. The
  signal handler of a process (\<^verbatim>\<open>MetricControlWatch\<close>) compares the block with what it saw last and calls the
  manager, which installs hooks in the running program or takes them out again. A hook is a node of the
  chain of its function; the chain runs the handlers and must behave like the function. Bytecode injection
  is the second way to install a hook, for handlers that need the local variables of the function. The default
  handler evaluates expressions of the configuration over the call and records the values as metrics.

  The profiler installs hooks of its own: a controller, started and stopped by callbacks from C++, loads a configuration into a
  watcher, which prepares a hooker for every symbol of a loaded module; the manager of a symbol installs one hook for all of
  its handlers, as a node of the same chains when the metric package is there. Spans of these hooks go through a local socket
  to a trace server, which writes a Perfetto file or forwards them. Afterwards the recorded traces are parsed by a
  graph of tasks, run in pools of processes under one manager process. The optimizer searches parameters of a
  server: a position of the search is decoded into values, the server and a benchmark are run with them
  under health checks, and the measurement becomes the cost of the position.

  \<^bold>\<open>Theories and sources.\<close> Paths are relative to the packages above. The theory that holds the
  definitions comes first, those with its lemmas after it.
  \<^item> \<open>Prelude\<close>: dictionaries as association lists, strings, programs that raise (\<open>prog\<close>), collections of rules.
  \<^item> \<open>Shm\<close>, \<open>Shm_Spec\<close>, \<open>Shm_Ops\<close>, \<open>Shm_Life\<close>, \<open>Shm_Props\<close>: \<^verbatim>\<open>utils/shm_manager.py\<close>. The record \<open>os\<close> holds the
    shared objects byte by byte, the semaphores, the processes and the clock; \<open>shm_manager\<close> is the Python object. The
    interface \<open>int_cells\<close> (what a read returns after a write) separates the process list from the bytes and is
    interpreted on them. The abstract state is \<open>ring\<close>; every operation refines an operation on it.
  \<^item> \<open>Control_Watch\<close>, \<open>Control_Lemmas\<close>: \<^verbatim>\<open>core/config/metric_control_watch.py\<close> and \<^verbatim>\<open>control/cli.py\<close>. A \<open>process\<close> is the SIGUSR1
    disposition, the watch and the client state.
  \<^item> \<open>Hook_Chain\<close>, \<open>Hook_Exec\<close>: \<^verbatim>\<open>core/hook/hook_chain.py\<close>. The linked list is refined to a list of nodes; a call through
    the chain is compared with a call of the function.
  \<^item> \<open>Hook_Helper\<close>: \<^verbatim>\<open>core/hook/hook_helper.py\<close>; \<open>Inject\<close>: \<^verbatim>\<open>core/hook/inject.py\<close>, with a machine for the value stack.
  \<^item> \<open>Yaml\<close>: the values of the configuration and \<^verbatim>\<open>utils/import_security.py\<close>.
  \<^item> \<open>Symbols\<close>, \<open>Hook_Owner\<close>: \<^verbatim>\<open>core/symbol.py\<close> and \<^verbatim>\<open>core/module/symbol_watcher.py\<close>. All objects live in one \<open>world\<close>.
  \<^item> \<open>Manager\<close>, \<open>Manager_Inv\<close>, \<open>Manager_Run\<close>, \<open>Manager_Control\<close>, \<open>Manager_Props\<close>: \<^verbatim>\<open>core/symbol_handler_manager.py\<close>. \<open>wf_world\<close> is
    the invariant: the registries agree, and every hook in a chain belongs to a registered symbol.
  \<^item> \<open>Manager_Switch\<close> with \<open>Control_Lemmas\<close>: the interface \<open>switch_client\<close> between the watch and its callback, its interpretation
    with the manager, and the whole path from the command line to the hooks.
  \<^item> \<open>Handlers\<close>: \<^verbatim>\<open>core/handler.py\<close>; \<open>Provider\<close>: \<^verbatim>\<open>core/config/provider.py\<close>; \<open>Config\<close>, \<open>Config_Load\<close>, \<open>Config_Merge\<close>,
    \<open>Config_Sources\<close>, \<open>Config_Props\<close>: \<^verbatim>\<open>core/config/symbol_config.py\<close> with \<^verbatim>\<open>utils/version.py\<close>; \<open>Config_Loader\<close> puts the
    configuration under the manager.
  \<^item> \<open>Task_Dag\<close>, \<open>Task_Order\<close>, \<open>Task_Graph\<close>: \<^verbatim>\<open>task/task_register.py\<close>. \<open>Task_Manager\<close>, \<open>Task_Gather\<close>, \<open>Task_Plan\<close>, \<open>Task_Step\<close>,
    \<open>Task_Report\<close>, \<open>Task_Setup\<close>, \<open>Task_Live\<close>: \<^verbatim>\<open>task/task_manager.py\<close>. \<open>gather_spec\<close> is the abstract gather, one queue
    per process; \<open>sched_inv\<close> is the invariant of the scheduler.
  \<^item> \<open>Expr_Types\<close>, \<open>Expr_Eval\<close>: \<^verbatim>\<open>utils/expr_eval.py\<close>. \<open>Metrics\<close>, \<open>Metrics_Record\<close>, \<open>Metrics_Props\<close>: \<^verbatim>\<open>metrics\<close>, \<^verbatim>\<open>utils/function_context.py\<close>,
    \<^verbatim>\<open>handlers/builtin.py\<close>. \<open>Adapt_Phase\<close>, \<open>Adapt_Meta\<close>, \<open>Adapt_Sched\<close>, \<open>Adapt_Stats\<close>, \<open>Adapt_Props\<close>: the handlers of the vLLM adapter
    (\<^verbatim>\<open>adapters/vllm/handlers\<close>). Objects of the framework are what the code reads of them; a hooked function is a program.
  \<^item> \<open>Trace_Socket\<close>, \<open>Trace_Frames\<close>: \<^verbatim>\<open>tracer/socket_server.py\<close>; \<open>Trace_Span\<close>: \<^verbatim>\<open>tracer/perfetto_socket.py\<close>; \<open>Trace_Perfetto\<close>,
    \<open>Trace_Export\<close>, \<open>Trace_Links\<close>: \<^verbatim>\<open>tracer/perfetto_exporter.py\<close>; \<open>Trace_Service\<close>, \<open>Trace_Forward\<close>: the two forwarders, their
    scheduler and the exporter to a collector.
  \<^item> \<open>Opt_Field\<close>, \<open>Opt_Repair\<close>, \<open>Opt_Params\<close>, \<open>Opt_Laws\<close>, \<open>Opt_Repair_Props\<close>, \<open>Opt_Round\<close>: \<^verbatim>\<open>config/config.py\<close> of the
    optimizer. The numbers are a record of operations; the laws the theorems need are those of the interface in \<open>Opt_Laws\<close>,
    which the rationals there satisfy. \<open>Opt_Health\<close>, \<open>Opt_Sched\<close>: health checks, cost and \<^verbatim>\<open>optimizer/scheduler.py\<close>. \<open>Opt_Search\<close>, \<open>Opt_Search_Props\<close>:
    the objective in \<^verbatim>\<open>optimizer/optimizer.py\<close>. \<open>Opt_Tune\<close>: \<^verbatim>\<open>optimizer/experience_fine_tunning.py\<close> and the choice of the best parameters.
  \<^item> \<open>Prof_Track\<close>: a call of a hooked function, \<open>Prof_Hooker\<close>, \<open>Prof_Hooker_Props\<close>: the handlers of a symbol and their
    installation (\<^verbatim>\<open>patcher/core/module_hook.py\<close>, \<^verbatim>\<open>dynamic_hook.py\<close>); \<open>Prof_Watch\<close>, \<open>Prof_Control_Props\<close>:
    \<^verbatim>\<open>symbol_watcher.py\<close>, \<^verbatim>\<open>hook_controller.py\<close>; \<open>Prof_Config\<close>: from a file to hookers, \<^verbatim>\<open>config_loader.py\<close>;
    \<open>Prof_Expr\<close>: the default timer and its expressions.
  \<^item> \<open>Trace_Otel\<close>: spans over the provider of the server, \<^verbatim>\<open>tracer/otel_hook.py\<close>, \<^verbatim>\<open>tracer/hook_runtime.py\<close>; \<open>Trace_Scope\<close>, \<open>Trace_Scope_Props\<close>: the wrapper around
    a call, \<^verbatim>\<open>patcher/core/trace_hook.py\<close>. Every call that changes something in OpenTelemetry is recorded; each query the code makes may raise.

  \<^bold>\<open>What the lemmas show.\<close>
  \<^item> Switch: every operation of the shared block refines the ring; the semaphore is given back on every path; the
    off command of the tool leaves no hook in a process that handles its signal; a restart leaves the hooks of the configuration.
  \<^item> Hooks: a hooked call has the result, the exception and the effects of the function, whatever the hooks raise,
    under the conditions that \<open>Hook_Exec\<close> states; the theorems after it show what happens outside of these conditions.
  \<^item> Manager: all operations keep the invariant; a start registers exactly the configured handlers; a failing load
    changes nothing; what failing updates leave.
  \<^item> Configuration: the merge keeps the first handler of each fingerprint; the layers compose as the sources say;
    exclusive providers do not overlap; loading completes every handler with its defaults.
  \<^item> Tasks: the loop that orders the graph returns exactly if every task that enters it can be run, and then the
    order contains every needed task after all it depends on; without errors the manager is never stuck before all pools are released.
  \<^item> Metrics: an expression that was accepted evaluates without a type error; which samples a call of a hooked function records.
  \<^item> vLLM adapter: the remembered prompt lengths refine the set of known requests over any sequence of events; a scheduled batch is
    split by phase exactly; the handlers restore the phase they set around a call.
  \<^item> Traces: frames arrive whole and in order however the bytes are cut; the Perfetto file is complete JSON after every
    batch; every link is drawn once; what an outage of the receiver blocks and drops.
  \<^item> Optimizer: the repair of a derived value ends in a valid combination; a decoded position is encoded to itself; only retryable
    errors start another attempt; a position is evaluated once.
  \<^item> Profiler hooks: a synchronous function with a wrap runs once whatever the hook does, and where this fails; the handlers
    of a symbol refine a set; a first start installs exactly the hooks that the file describes, and the stop removes none of them; a symbol
    has at most one trace; the expressions of a timer reach public attributes and five functions only.
  \<^item> Hook tracing: when the unguarded calls return, the calls into OpenTelemetry follow the grammar \<open>nested\<close>, so every span is ended once, and
    the traced call is that of the function; what happens when they raise; the table of requests is bounded and keeps the recent ones.

  \<^bold>\<open>Loops.\<close> Loops over lists are structural or \<open>fold\<close>; \<open>walk_tasks\<close> has a measure. \<open>run_loop\<close>
    and \<open>no_source_loop\<close> need not end and are partial functions into \<open>option\<close>: that they return is proved. So are \<open>frame_loop\<close>,
    \<open>heart_beat_connect\<close> and \<open>export_loop\<close> of the trace server; the last two return exactly if the receiver accepts. The recursion of
    the hooks of a chain has the recursion limit of the interpreter as its fuel; the theorems ask for more
    fuel than there are nodes. No other bound is chosen.

  \<^bold>\<open>Effects.\<close> Concurrency is modelled as sequences of whole operations: signals arrive between operations, messages
    arrive at the manager in any order. Where the program iterates over a set, the order is a parameter (\<open>dag_order_complete\<close>, \<open>iterate_set\<close>). Pre-emption inside an operation is not modelled. Logging is left out everywhere.

  \<^bold>\<open>Not modelled.\<close> Custom buckets from the environment, the start of the adapters and the handlers for SGLang; of the profiler hooks the
  handlers; the check of the output path and the accept loop of the trace server; the error protocol
  inside the worker processes; the pipelines over tables (data sources, exporters, views), which are
  transformations of third-party tables; of the optimizer the settings, the swarm, the plugins, the training and the
  scheduler for several machines; the advisor, and the C++ recorder.
\<close>

end
